(* ===== verification/Go_Base.thy ===== *)
theory Go_Base
  imports Main "HOL-Library.AList" "HOL-Library.Char_ord" "HOL-Library.List_Lexorder"
    "HOL-Library.Multiset"
begin

text \<open>
  The prelude of the development. It holds what every component uses of the Go language:
  results that carry an error, loops that stop at the first error, Go strings (byte strings,
  ordered bytewise, as \<open>sort.Strings\<close> and \<open><\<close> on strings order them), maps keyed by strings,
  and the decimal conversions of the package \<open>strconv\<close>. The lemma collections declared here
  (\<open>go_simps\<close>, \<open>go_sound\<close>) are filled by the component theories.
\<close>

named_theorems go_simps \<open>rewrite rules that evaluate the modelled library functions\<close>
named_theorems go_sound \<open>what a successful result of a modelled operation says\<close>

section \<open>Results\<close>

text \<open>
  A Go function with results \<open>(T, error)\<close> is a function into \<open>string + 'a\<close>: \<open>Inl\<close> carries the
  text of the error, \<open>Inr\<close> the value.
\<close>

type_synonym 'a res = "string + 'a"

definition rbind :: "'e + 'a \<Rightarrow> ('a \<Rightarrow> 'e + 'b) \<Rightarrow> 'e + 'b" where
  "rbind m f = (case m of Inl e \<Rightarrow> Inl e | Inr x \<Rightarrow> f x)"

text \<open>\<open>if bad { return fmt.Errorf(msg) }\<close>.\<close>

definition guard :: "bool \<Rightarrow> 'e \<Rightarrow> 'e + unit" where
  "guard ok e = (if ok then Inr () else Inl e)"

text \<open>\<open>fmt.Errorf(ctx + ": %w", err)\<close>.\<close>

definition wrap :: "string \<Rightarrow> 'a res \<Rightarrow> 'a res" where
  "wrap ctx m = (case m of Inl e \<Rightarrow> Inl (ctx @ '': '' @ e) | Inr x \<Rightarrow> Inr x)"

text \<open>A \<open>for\<close> loop over a slice whose body updates an accumulator and may return an error.\<close>

primrec foldr_res :: "('s \<Rightarrow> 'a \<Rightarrow> 'e + 's) \<Rightarrow> 's \<Rightarrow> 'a list \<Rightarrow> 'e + 's" where
  "foldr_res f s [] = Inr s"
| "foldr_res f s (x # xs) = rbind (f s x) (\<lambda>s'. foldr_res f s' xs)"

text \<open>A \<open>for\<close> loop that only checks.\<close>

primrec each_res :: "('a \<Rightarrow> 'e + unit) \<Rightarrow> 'a list \<Rightarrow> 'e + unit" where
  "each_res f [] = Inr ()"
| "each_res f (x # xs) = rbind (f x) (\<lambda>_. each_res f xs)"

definition is_ok :: "'e + 'a \<Rightarrow> bool" where
  "is_ok m = (case m of Inl _ \<Rightarrow> False | Inr _ \<Rightarrow> True)"

lemma is_ok_iff: "is_ok m \<longleftrightarrow> (\<exists>x. m = Inr x)"
  by (cases m) (simp_all add: is_ok_def)

lemma rbind_Inr [simp]: "rbind (Inr x) f = f x"
  and rbind_Inl [simp]: "rbind (Inl e) f = Inl e"
  by (simp_all add: rbind_def)

lemma rbind_eq_Inr [simp]: "rbind m f = Inr y \<longleftrightarrow> (\<exists>x. m = Inr x \<and> f x = Inr y)"
  by (cases m) simp_all

lemma guard_eq_Inr [simp]: "guard ok e = Inr u \<longleftrightarrow> ok"
  by (simp add: guard_def)

lemma guard_eq_Inl [simp]: "guard ok e = Inl e' \<longleftrightarrow> \<not> ok \<and> e' = e"
  by (auto simp: guard_def)

lemma wrap_eq_Inr [simp]: "wrap c m = Inr x \<longleftrightarrow> m = Inr x"
  by (cases m) (simp_all add: wrap_def)

lemma guard_True [simp]: "guard True e = Inr ()" and guard_False [simp]: "guard False e = Inl e"
  by (simp_all add: guard_def)

lemma each_res_ok: "each_res f xs = Inr () \<longleftrightarrow> (\<forall>x\<in>set xs. f x = Inr ())"
  by (induction xs) auto

lemma foldr_res_append:
  "foldr_res f s (xs @ ys) = rbind (foldr_res f s xs) (\<lambda>s'. foldr_res f s' ys)"
  by (induction xs arbitrary: s) (auto simp: rbind_def split: sum.splits)

text \<open>The loop rule: an invariant of the accumulator and the elements already visited.\<close>

lemma foldr_res_invariant:
  assumes "foldr_res f s xs = Inr t" and "I [] s"
    and step: "\<And>done x s s'. I done s \<Longrightarrow> x \<in> set xs \<Longrightarrow> f s x = Inr s' \<Longrightarrow> I (done @ [x]) s'"
  shows "I xs t"
proof -
  have "foldr_res f s ys = Inr t \<Longrightarrow> I zs s \<Longrightarrow> set ys \<subseteq> set xs \<Longrightarrow> I (zs @ ys) t" for ys zs s
  proof (induction ys arbitrary: zs s)
    case Nil
    then show ?case by simp
  next
    case (Cons y ys)
    then obtain s' where "f s y = Inr s'" and "foldr_res f s' ys = Inr t" by auto
    with Cons.prems have "I (zs @ [y]) s'" by (intro step) auto
    from Cons.IH [OF \<open>foldr_res f s' ys = Inr t\<close> this] Cons.prems show ?case by simp
  qed
  from this [of s xs "[]"] assms(1,2) show ?thesis by simp
qed

text \<open>A \<open>for\<close> loop that appends the result of its body for every element.\<close>

primrec map_res :: "('a \<Rightarrow> 'e + 'b) \<Rightarrow> 'a list \<Rightarrow> 'e + 'b list" where
  "map_res f [] = Inr []"
| "map_res f (x # xs) = rbind (f x) (\<lambda>y. rbind (map_res f xs) (\<lambda>ys. Inr (y # ys)))"

lemma map_res_Inr:
  "map_res f xs = Inr ys \<longleftrightarrow> length xs = length ys \<and> (\<forall>i < length xs. f (xs ! i) = Inr (ys ! i))"
proof (induction xs arbitrary: ys)
  case Nil
  then show ?case by auto
next
  case (Cons x xs)
  show ?case by (cases ys) (auto simp: Cons.IH less_Suc_eq_0_disj)
qed

lemma map_res_member: "map_res f xs = Inr ys \<Longrightarrow> y \<in> set ys \<Longrightarrow> \<exists>x\<in>set xs. f x = Inr y"
  by (induction xs arbitrary: ys) auto

lemma map_res_map:
  assumes "map_res f xs = Inr ys" and "\<And>x y. f x = Inr y \<Longrightarrow> g y = x"
  shows "map g ys = xs"
  using assms by (auto simp: map_res_Inr intro!: nth_equalityI)

section \<open>Strings\<close>

text \<open>
  A Go string is a sequence of bytes and so is \<open>string\<close>. The order on strings (theories
  \<open>Char_ord\<close> and \<open>List_Lexorder\<close>) is the bytewise lexicographic one of Go's \<open><\<close>.
\<close>

definition has_prefix :: "string \<Rightarrow> string \<Rightarrow> bool" where
  "has_prefix s p \<longleftrightarrow> take (length p) s = p"

definition has_suffix :: "string \<Rightarrow> string \<Rightarrow> bool" where
  "has_suffix s p \<longleftrightarrow> length p \<le> length s \<and> drop (length s - length p) s = p"

definition trim_prefix :: "string \<Rightarrow> string \<Rightarrow> string" where
  "trim_prefix s p = (if has_prefix s p then drop (length p) s else s)"

text \<open>\<open>strings.Cut(s, sep)\<close> for a separator of one byte: what is before and after its first
  occurrence, and whether it occurs.\<close>

definition cut :: "string \<Rightarrow> char \<Rightarrow> string \<times> string \<times> bool" where
  "cut s c = (if c \<in> set s then (takeWhile (\<lambda>x. x \<noteq> c) s, tl (dropWhile (\<lambda>x. x \<noteq> c) s), True)
              else (s, [], False))"

text \<open>White space of \<open>strings.TrimSpace\<close> in the ASCII range: tab, newline, vertical tab, form
  feed, carriage return and space.\<close>

definition is_space :: "char \<Rightarrow> bool" where
  "is_space c \<longleftrightarrow> of_char c \<in> {9, 10, 11, 12, 13, 32 :: nat}"

definition trim_space :: "string \<Rightarrow> string" where
  "trim_space s = rev (dropWhile is_space (rev (dropWhile is_space s)))"

fun join :: "string \<Rightarrow> string list \<Rightarrow> string" where
  "join sep [] = []"
| "join sep [x] = x"
| "join sep (x # xs) = x @ sep @ join sep xs"

lemma has_prefix_append [simp]: "has_prefix (p @ s) p"
  by (simp add: has_prefix_def)

lemma has_prefix_iff: "has_prefix s p \<longleftrightarrow> (\<exists>t. s = p @ t)"
  unfolding has_prefix_def by (metis append_eq_conv_conj append_take_drop_id)

lemma trim_prefix_append [simp]: "trim_prefix (p @ s) p = s"
  by (simp add: trim_prefix_def)

lemma cut_append:
  fixes a :: string
  assumes "c \<notin> set a"
  shows "cut (a @ c # b) c = (a, b, True)"
proof -
  have "takeWhile (\<lambda>x. x \<noteq> c) (a @ c # b) = a" and "dropWhile (\<lambda>x. x \<noteq> c) (a @ c # b) = c # b"
    using assms by (induction a) auto
  then show ?thesis by (simp add: cut_def)
qed

lemma cut_True: "cut s c = (a, b, True) \<Longrightarrow> s = a @ c # b \<and> c \<notin> set a"
proof -
  assume c: "cut s c = (a, b, True)"
  then have "c \<in> set s" by (auto simp: cut_def split: if_splits)
  then obtain u v where "s = u @ c # v" and "c \<notin> set u" by (meson split_list_first)
  with c show ?thesis by (simp add: cut_append)
qed

lemma append_separator_inject:
  fixes a a' :: string
  assumes "c \<notin> set a" and "c \<notin> set a'"
  shows "a @ c # b = a' @ c # b' \<longleftrightarrow> a = a' \<and> b = b'"
  using cut_append [OF assms(1), of b] cut_append [OF assms(2), of b'] by (metis Pair_inject)

section \<open>Maps keyed by strings\<close>

text \<open>
  A \<open>map[string]T\<close> is an association list. \<open>for k, v := range m\<close> visits the entries in an
  order Go leaves open; here it is the order of the list, so a statement about every list is a
  statement about every iteration order. Reading an absent key gives the zero value.
\<close>

type_synonym 'v smap = "(string \<times> 'v) list"

definition mget :: "string smap \<Rightarrow> string \<Rightarrow> string" where
  "mget m k = (case map_of m k of None \<Rightarrow> [] | Some v \<Rightarrow> v)"

abbreviation mput :: "string \<Rightarrow> 'v \<Rightarrow> 'v smap \<Rightarrow> 'v smap" where
  "mput \<equiv> AList.update"

text \<open>\<open>reflect.DeepEqual\<close> of two maps that are not nil.\<close>

definition same_map :: "string smap \<Rightarrow> string smap \<Rightarrow> bool" where
  "same_map a b \<longleftrightarrow> list_all (\<lambda>k. map_of a k = map_of b k) (map fst (a @ b))"

lemma mget_mput [simp]: "mget (mput k v m) k' = (if k' = k then v else mget m k')"
  by (simp add: mget_def update_conv')

lemma map_of_mput [simp]: "map_of (mput k v m) = (map_of m)(k \<mapsto> v)"
  by (rule update_conv')

lemma keys_mput [simp]: "fst ` set (mput k v m) = insert k (fst ` set m)"
  by (simp add: dom_update)

lemma distinct_mput [simp]: "distinct (map fst m) \<Longrightarrow> distinct (map fst (mput k v m))"
  by (rule distinct_update)

lemma set_mput_new: "k \<notin> fst ` set m \<Longrightarrow> mput k v m = m @ [(k, v)]"
  by (induction m) auto

lemma length_mput_new: "k \<notin> fst ` set m \<Longrightarrow> length (mput k v m) = Suc (length m)"
  by (simp add: set_mput_new)

lemma same_map_iff: "same_map a b \<longleftrightarrow> map_of a = map_of b"
proof
  assume same: "same_map a b"
  show "map_of a = map_of b"
  proof
    fix k
    show "map_of a k = map_of b k"
    proof (cases "k \<in> fst ` set (a @ b)")
      case True
      with same show ?thesis by (auto simp: same_map_def list_all_iff)
    next
      case False
      then have "map_of a k = None" "map_of b k = None" by (auto simp: map_of_eq_None_iff)
      then show ?thesis by simp
    qed
  qed
qed (simp add: same_map_def list_all_iff)

lemma dom_map_of_fst: "map_of m k = None \<longleftrightarrow> k \<notin> fst ` set m"
  by (rule map_of_eq_None_iff)

section \<open>strconv\<close>

definition digit_char :: "nat \<Rightarrow> char" where
  "digit_char d = char_of (48 + d)"

definition is_digit :: "char \<Rightarrow> bool" where
  "is_digit c \<longleftrightarrow> 48 \<le> (of_char c :: nat) \<and> (of_char c :: nat) \<le> 57"

definition digit_val :: "char \<Rightarrow> nat" where
  "digit_val c = of_char c - 48"

text \<open>\<open>strconv.FormatUint(n, 10)\<close>, \<open>strconv.Itoa\<close> on a natural number.\<close>

fun nat_str :: "nat \<Rightarrow> string" where
  "nat_str n = (if n < 10 then [digit_char n] else nat_str (n div 10) @ [digit_char (n mod 10)])"

declare nat_str.simps [simp del]

definition int_str :: "int \<Rightarrow> string" where
  "int_str i = (if i < 0 then CHR ''-'' # nat_str (nat (- i)) else nat_str (nat i))"

text \<open>A nonempty string of decimal digits, as a number.\<close>

definition digits_val :: "nat \<Rightarrow> string \<Rightarrow> nat" where
  "digits_val a s = foldl (\<lambda>n c. 10 * n + digit_val c) a s"

definition parse_digits :: "string \<Rightarrow> nat option" where
  "parse_digits s = (if s \<noteq> [] \<and> list_all is_digit s then Some (digits_val 0 s) else None)"

text \<open>\<open>strconv.ParseUint(s, 10, bits)\<close>.\<close>

definition parse_uint :: "nat \<Rightarrow> string \<Rightarrow> nat option" where
  "parse_uint bits s = (case parse_digits s of
      None \<Rightarrow> None | Some n \<Rightarrow> if n < 2 ^ bits then Some n else None)"

text \<open>\<open>strconv.ParseInt(s, 10, 64)\<close>: an optional sign, digits, and a range check.\<close>

definition parse_int64 :: "string \<Rightarrow> int option" where
  "parse_int64 s =
     (let neg = (s \<noteq> [] \<and> hd s = CHR ''-'');
          body = (if s \<noteq> [] \<and> (hd s = CHR ''-'' \<or> hd s = CHR ''+'') then tl s else s)
      in case parse_digits body of
           None \<Rightarrow> None
         | Some n \<Rightarrow> if neg then (if n \<le> 2 ^ 63 then Some (- int n) else None)
                     else (if n < 2 ^ 63 then Some (int n) else None))"

lemma of_char_digit: "d < 10 \<Longrightarrow> of_char (digit_char d) = 48 + d"
  by (simp add: digit_char_def)

lemma digit_char_0: "digit_char 0 = CHR ''0''"
  by code_simp

lemma digit_char_numerals [go_simps]:
  "digit_char 0 = CHR ''0''" "digit_char (Suc 0) = CHR ''1''" "digit_char 1 = CHR ''1''" "digit_char 2 = CHR ''2''"
  "digit_char 3 = CHR ''3''" "digit_char 4 = CHR ''4''" "digit_char 5 = CHR ''5''" "digit_char 6 = CHR ''6''"
  "digit_char 7 = CHR ''7''" "digit_char 8 = CHR ''8''" "digit_char 9 = CHR ''9''"
  by (code_simp+)

lemma is_digit_digit [simp]: "d < 10 \<Longrightarrow> is_digit (digit_char d)"
  by (simp add: is_digit_def of_char_digit)

lemma digit_val_digit [simp]: "d < 10 \<Longrightarrow> digit_val (digit_char d) = d"
  by (simp add: digit_val_def of_char_digit)

lemma digit_char_val: "is_digit c \<Longrightarrow> digit_char (digit_val c) = c"
  by (simp add: digit_char_def digit_val_def is_digit_def)

lemma digit_val_less [simp]: "is_digit c \<Longrightarrow> digit_val c < 10"
  unfolding digit_val_def is_digit_def by linarith

lemma digits_val_snoc: "digits_val a (s @ [c]) = 10 * digits_val a s + digit_val c"
  by (simp add: digits_val_def)

lemma digits_val_Nil [simp]: "digits_val a [] = a"
  and digits_val_Cons [simp]: "digits_val a (c # s) = digits_val (10 * a + digit_val c) s"
  by (simp_all add: digits_val_def)

lemma nat_str_not_Nil [simp]: "nat_str n \<noteq> []"
  by (subst nat_str.simps) simp

lemma nat_str_digits [simp]: "list_all is_digit (nat_str n)"
proof (induction n rule: nat_str.induct)
  case (1 n)
  then show ?case by (subst nat_str.simps) simp
qed

lemma digits_val_nat_str [simp]: "digits_val 0 (nat_str n) = n"
proof (induction n rule: nat_str.induct)
  case (1 n)
  then show ?case by (subst nat_str.simps) (simp add: digits_val_snoc)
qed

lemma parse_digits_nat_str [simp]: "parse_digits (nat_str n) = Some n"
  by (simp add: parse_digits_def)

lemma parse_uint_nat_str [simp]: "n < 2 ^ b \<Longrightarrow> parse_uint b (nat_str n) = Some n"
  by (simp add: parse_uint_def)

lemma nat_str_inject [simp]: "nat_str m = nat_str n \<longleftrightarrow> m = n"
  by (metis digits_val_nat_str)

lemma nat_str_chars: "c \<in> set (nat_str n) \<Longrightarrow> is_digit c"
  using nat_str_digits [of n] by (auto simp: list_all_iff)

lemma hd_nat_str_not_sign: "hd (nat_str n) \<noteq> CHR ''-''" "hd (nat_str n) \<noteq> CHR ''+''"
  using nat_str_chars [of "hd (nat_str n)" n] by (auto simp: is_digit_def)

lemma parse_int64_nat_str: "n < 2 ^ 63 \<Longrightarrow> parse_int64 (nat_str n) = Some (int n)"
  using hd_nat_str_not_sign [of n] by (simp add: parse_int64_def)

lemma hd_nat_str_nonzero: "0 < n \<Longrightarrow> hd (nat_str n) \<noteq> CHR ''0''"
proof (induction n rule: nat_str.induct)
  case (1 n)
  show ?case
  proof (cases "n < 10")
    case True
    with 1 show ?thesis
      using of_char_digit [of n] by (subst nat_str.simps) auto
  next
    case False
    with 1 show ?thesis by (subst nat_str.simps) simp
  qed
qed

text \<open>Decimal text without a leading zero is the canonical text of its value.\<close>

lemma nat_str_digits_val:
  assumes "list_all is_digit s" and "s \<noteq> []" and "length s = 1 \<or> hd s \<noteq> CHR ''0''"
  shows "nat_str (digits_val 0 s) = s"
  using assms
proof (induction s rule: rev_induct)
  case Nil
  then show ?case by simp
next
  case (snoc c s)
  show ?case
  proof (cases "s = []")
    case True
    with snoc.prems show ?thesis by (subst nat_str.simps) (simp add: digit_char_val)
  next
    case False
    with snoc.prems have hd: "hd s \<noteq> CHR ''0''" by (cases s) auto
    have IH: "nat_str (digits_val 0 s) = s" using snoc False hd by simp
    have "digits_val 0 s \<noteq> 0"
    proof
      assume "digits_val 0 s = 0"
      with IH have "s = nat_str 0" by simp
      with hd show False by (simp add: nat_str.simps digit_char_0)
    qed
    with snoc.prems IH show ?thesis
      by (subst nat_str.simps) (simp add: digits_val_snoc digit_char_val)
  qed
qed

section \<open>Sorting\<close>

text \<open>
  \<open>sort.Strings\<close> sorts bytewise. \<open>sort.Slice\<close> sorts by the compared key; it is not stable, so
  where two elements have the same key their order is left open by Go, and the model keeps
  their order. The keys the program sorts by identify the elements.
\<close>

definition sort_strings :: "string list \<Rightarrow> string list" where
  "sort_strings = sort"

definition sort_slice :: "('a \<Rightarrow> string) \<Rightarrow> 'a list \<Rightarrow> 'a list" where
  "sort_slice = sort_key"

lemma sort_strings_props [simp]:
  "set (sort_strings xs) = set xs" "distinct (sort_strings xs) = distinct xs"
  "length (sort_strings xs) = length xs" "sorted (sort_strings xs)" "mset (sort_strings xs) = mset xs"
  by (simp_all add: sort_strings_def)

lemma sort_slice_props [simp]:
  "set (sort_slice f xs) = set xs" "length (sort_slice f xs) = length xs"
  "sorted (map f (sort_slice f xs))" "mset (sort_slice f xs) = mset xs"
  "distinct (sort_slice f xs) = distinct xs"
  by (simp_all add: sort_slice_def)

lemma sort_slice_Nil_iff [simp]: "sort_slice f xs = [] \<longleftrightarrow> xs = []"
  by (metis length_0_conv sort_slice_props(2))

lemma sort_strings_cong: "mset xs = mset ys \<Longrightarrow> sort_strings xs = sort_strings ys"
  unfolding sort_strings_def by (metis properties_for_sort mset_sort sorted_sort)

lemma sort_slice_cong:
  assumes "mset xs = mset ys" and "inj_on f (set xs)"
  shows "sort_slice f xs = sort_slice f ys"
proof -
  have m: "mset (map f xs) = mset (map f ys)" by (simp add: assms(1))
  have "sort (map f xs) = map f (sort_key f zs)" if "mset (map f zs) = mset (map f xs)" for zs
    by (rule properties_for_sort) (use that in simp_all)
  then have "map f (sort_key f xs) = map f (sort_key f ys)" using m by metis
  moreover have "inj_on f (set (sort_key f xs) \<union> set (sort_key f ys))"
    using assms(2) mset_eq_setD [OF assms(1)] by simp
  ultimately show ?thesis
    unfolding sort_slice_def using inj_on_map_eq_map by blast
qed

end
