(* ===== verification/Kube_Meta.thy ===== *)
theory Kube_Meta
  imports Go_Base
begin

text \<open>
  The parts of the Kubernetes libraries that the program's data and functions are built from:
  object metadata, conditions and ConfigMaps as data, and the library functions the program
  calls, which are parameters. A definition that calls them takes the record \<open>k8s_lib\<close> as its
  first argument; the locale \<open>k8s_laws\<close> states what the library documents about them, as far as
  the program relies on it, and the instance \<open>k8s_ref\<close> follows that documentation.
\<close>

record owner_ref =
  or_api_version :: string
  or_kind :: string
  or_name :: string
  or_uid :: string
  or_controller :: "bool option"

text \<open>Timestamps are seconds; a deletion timestamp is present once deletion was requested.\<close>

record object_meta =
  om_name :: string
  om_namespace :: string
  om_uid :: string
  om_resource_version :: string
  om_generation :: int
  om_labels :: "string smap"
  om_annotations :: "string smap"
  om_finalizers :: "string list"
  om_owners :: "owner_ref list"
  om_deletion :: "int option"
  om_creation :: int

definition empty_meta :: object_meta where
  "empty_meta = \<lparr>om_name = [], om_namespace = [], om_uid = [], om_resource_version = [],
     om_generation = 0, om_labels = [], om_annotations = [], om_finalizers = [], om_owners = [],
     om_deletion = None, om_creation = 0\<rparr>"

definition deleting_meta :: "object_meta \<Rightarrow> bool" where
  "deleting_meta m \<longleftrightarrow> om_deletion m \<noteq> None"

record condition =
  cd_type :: string
  cd_status :: string
  cd_reason :: string
  cd_message :: string
  cd_generation :: int
  cd_transition :: int

record config_map =
  cm_meta :: object_meta
  cm_data :: "string smap"
  cm_immutable :: "bool option"

text \<open>A label selector (\<open>metav1.LabelSelector\<close>): labels to match and requirements.\<close>

record selector_requirement =
  sr_key :: string
  sr_operator :: string
  sr_values :: "string list"

record label_selector =
  sel_labels :: "string smap"
  sel_expressions :: "selector_requirement list"

section \<open>Library functions\<close>

record k8s_lib =
  dns1123_label :: "string \<Rightarrow> bool"
  dns1123_subdomain :: "string \<Rightarrow> bool"
  label_value :: "string \<Rightarrow> bool"
  qualified_name :: "string \<Rightarrow> bool"
  selector_errors :: "label_selector option \<Rightarrow> string option"
  set_status_condition :: "condition list \<Rightarrow> condition \<Rightarrow> condition list"
  is_condition_true :: "condition list \<Rightarrow> string \<Rightarrow> bool"
  contains_finalizer :: "object_meta \<Rightarrow> string \<Rightarrow> bool"
  add_finalizer :: "object_meta \<Rightarrow> string \<Rightarrow> object_meta"
  remove_finalizer :: "object_meta \<Rightarrow> string \<Rightarrow> object_meta"

text \<open>
  What the libraries document: a condition that was set to a status reads back with that status
  and leaves the conditions of other types alone, and a finalizer that was added (removed) is
  present (absent) while everything else of the metadata is kept.
\<close>

locale k8s_laws =
  fixes L :: k8s_lib
  assumes condition_set:
      "is_condition_true L (set_status_condition L cs c) (cd_type c) \<longleftrightarrow> cd_status c = ''True''"
    and condition_other:
      "t \<noteq> cd_type c \<Longrightarrow> is_condition_true L (set_status_condition L cs c) t = is_condition_true L cs t"
    and finalizer_added: "contains_finalizer L (add_finalizer L m f) f"
    and finalizer_removed: "\<not> contains_finalizer L (remove_finalizer L m f) f"
    and add_keeps: "om_uid (add_finalizer L m f) = om_uid m \<and> om_name (add_finalizer L m f) = om_name m
      \<and> om_namespace (add_finalizer L m f) = om_namespace m \<and> om_deletion (add_finalizer L m f) = om_deletion m"
    and remove_keeps: "om_uid (remove_finalizer L m f) = om_uid m \<and> om_name (remove_finalizer L m f) = om_name m
      \<and> om_namespace (remove_finalizer L m f) = om_namespace m \<and> om_deletion (remove_finalizer L m f) = om_deletion m"
begin

lemma finalizer_cycle:
  "\<not> contains_finalizer L (remove_finalizer L (add_finalizer L m f) f) f"
  by (rule finalizer_removed)

lemma condition_false:
  "cd_status c \<noteq> ''True'' \<Longrightarrow> \<not> is_condition_true L (set_status_condition L cs c) (cd_type c)"
  by (simp add: condition_set)

end

section \<open>An instance that follows the documentation\<close>

definition lower_alnum :: "char \<Rightarrow> bool" where
  "lower_alnum c \<longleftrightarrow> is_digit c \<or> (97 \<le> (of_char c :: nat) \<and> (of_char c :: nat) \<le> 122)"

definition alnum :: "char \<Rightarrow> bool" where
  "alnum c \<longleftrightarrow> lower_alnum c \<or> (65 \<le> (of_char c :: nat) \<and> (of_char c :: nat) \<le> 90)"

text \<open>At most 63 characters, lower case alphanumeric or a dash, alphanumeric at both ends.\<close>

definition ref_dns_label :: "string \<Rightarrow> bool" where
  "ref_dns_label s \<longleftrightarrow> s \<noteq> [] \<and> length s \<le> 63 \<and> list_all (\<lambda>c. lower_alnum c \<or> c = CHR ''-'') s
     \<and> lower_alnum (hd s) \<and> lower_alnum (last s)"

fun split_on :: "char \<Rightarrow> string \<Rightarrow> string list" where
  "split_on c [] = [[]]"
| "split_on c (x # s) = (if x = c then [] # split_on c s
     else (case split_on c s of [] \<Rightarrow> [[x]] | p # ps \<Rightarrow> (x # p) # ps))"

definition ref_dns_part :: "string \<Rightarrow> bool" where
  "ref_dns_part s \<longleftrightarrow> s \<noteq> [] \<and> list_all (\<lambda>c. lower_alnum c \<or> c = CHR ''-'') s
     \<and> lower_alnum (hd s) \<and> lower_alnum (last s)"

definition ref_dns_subdomain :: "string \<Rightarrow> bool" where
  "ref_dns_subdomain s \<longleftrightarrow> length s \<le> 253 \<and> list_all ref_dns_part (split_on (CHR ''.'') s)"

definition ref_label_value :: "string \<Rightarrow> bool" where
  "ref_label_value s \<longleftrightarrow> s = [] \<or> (length s \<le> 63
     \<and> list_all (\<lambda>c. alnum c \<or> c \<in> {CHR ''-'', CHR ''_'', CHR ''.''}) s \<and> alnum (hd s) \<and> alnum (last s))"

definition ref_qualified_name :: "string \<Rightarrow> bool" where
  "ref_qualified_name s \<longleftrightarrow> (case split_on (CHR ''/'') s of
      [n] \<Rightarrow> n \<noteq> [] \<and> ref_label_value n
    | [p, n] \<Rightarrow> p \<noteq> [] \<and> ref_dns_subdomain p \<and> n \<noteq> [] \<and> ref_label_value n
    | _ \<Rightarrow> False)"

fun ref_set_condition :: "condition list \<Rightarrow> condition \<Rightarrow> condition list" where
  "ref_set_condition [] c = [c]"
| "ref_set_condition (d # ds) c =
     (if cd_type d = cd_type c
      then c\<lparr>cd_transition := (if cd_status d = cd_status c then cd_transition d else cd_transition c)\<rparr> # ds
      else d # ref_set_condition ds c)"

definition ref_condition_true :: "condition list \<Rightarrow> string \<Rightarrow> bool" where
  "ref_condition_true cs t = (case find (\<lambda>c. cd_type c = t) cs of
      None \<Rightarrow> False | Some c \<Rightarrow> cd_status c = ''True'')"

text \<open>The operator of a requirement fixes whether it has values.\<close>

definition ref_requirement :: "selector_requirement \<Rightarrow> bool" where
  "ref_requirement r \<longleftrightarrow> ref_qualified_name (sr_key r) \<and>
     (if sr_operator r \<in> {''In'', ''NotIn''} then sr_values r \<noteq> []
      else sr_operator r \<in> {''Exists'', ''DoesNotExist''} \<and> sr_values r = [])"

definition ref_selector_errors :: "label_selector option \<Rightarrow> string option" where
  "ref_selector_errors sel = (case sel of
      None \<Rightarrow> None
    | Some x \<Rightarrow> if list_all (\<lambda>(k, v). ref_qualified_name k \<and> ref_label_value v) (sel_labels x)
                   \<and> list_all ref_requirement (sel_expressions x)
                then None else Some ''invalid label selector'')"

definition k8s_ref :: k8s_lib where
  "k8s_ref = \<lparr>dns1123_label = ref_dns_label, dns1123_subdomain = ref_dns_subdomain,
     label_value = ref_label_value, qualified_name = ref_qualified_name,
     selector_errors = ref_selector_errors,
     set_status_condition = ref_set_condition, is_condition_true = ref_condition_true,
     contains_finalizer = (\<lambda>m f. f \<in> set (om_finalizers m)),
     add_finalizer = (\<lambda>m f. if f \<in> set (om_finalizers m) then m else m\<lparr>om_finalizers := om_finalizers m @ [f]\<rparr>),
     remove_finalizer = (\<lambda>m f. m\<lparr>om_finalizers := filter (\<lambda>g. g \<noteq> f) (om_finalizers m)\<rparr>)\<rparr>"

lemma ref_condition_set:
  "ref_condition_true (ref_set_condition cs c) t
     = (if t = cd_type c then cd_status c = ''True'' else ref_condition_true cs t)"
  by (induction cs) (auto simp: ref_condition_true_def)

interpretation k8s_ref: k8s_laws k8s_ref
  by unfold_locales (auto simp: k8s_ref_def ref_condition_set)

end
