(* ===== verification/Go_Netip.thy ===== *)
theory Go_Netip
  imports Go_Base "HOL-Library.Word"
begin

unbundle bit_operations_syntax

text \<open>
  The package \<open>net/netip\<close>, as far as the program uses it: addresses, prefixes, their parsers
  and printers, and the relations \<open>Contains\<close>, \<open>Overlaps\<close>, \<open>Next\<close>, \<open>Prev\<close>, \<open>Less\<close> and the
  address classes. An IPv4 address is a 32-bit word, an IPv6 address a 128-bit word with a zone.
  The lemmas show that the parser and the printer of IPv4 addresses are inverse, that
  \<open>Contains\<close> and \<open>Overlaps\<close> are membership in and intersection of the address ranges, and
  what the network and the last address of a prefix are.
\<close>

section \<open>Addresses\<close>

text \<open>\<open>AddrZero\<close> is the zero value \<open>netip.Addr{}\<close>, which is not a valid address.\<close>

datatype addr = AddrZero | V4 "32 word" | V6 "128 word" string

fun is4 :: "addr \<Rightarrow> bool" where
  "is4 (V4 _) = True"
| "is4 _ = False"

definition is_valid :: "addr \<Rightarrow> bool" where
  "is_valid a \<longleftrightarrow> a \<noteq> AddrZero"

fun bit_len :: "addr \<Rightarrow> int" where
  "bit_len AddrZero = 0"
| "bit_len (V4 _) = 32"
| "bit_len (V6 _ _) = 128"

text \<open>The four bytes of an IPv4 address, most significant first (\<open>As4\<close>), and back
  (\<open>AddrFrom4\<close>).\<close>

definition octets :: "32 word \<Rightarrow> nat list" where
  "octets w = [unat (drop_bit 24 w), unat (drop_bit 16 w) mod 256, unat (drop_bit 8 w) mod 256,
               unat w mod 256]"

definition of_octets :: "nat list \<Rightarrow> 32 word" where
  "of_octets bs = of_nat (foldl (\<lambda>n b. 256 * n + b) 0 bs)"

definition v4_str :: "32 word \<Rightarrow> string" where
  "v4_str w = join ''.'' (map nat_str (octets w))"

text \<open>
  \<open>parseIPv4Fields\<close>: the loop over the bytes, with the value and the number of digits of the
  octet being read and the octets already read.
\<close>

fun parse_v4_loop :: "string \<Rightarrow> nat \<Rightarrow> nat \<Rightarrow> nat list \<Rightarrow> nat list option" where
  "parse_v4_loop [] val digs fields = (if length fields < 3 then None else Some (fields @ [val]))"
| "parse_v4_loop (c # s) val digs fields =
     (if is_digit c then
        if digs = 1 \<and> val = 0 then None
        else if 255 < 10 * val + digit_val c then None
        else parse_v4_loop s (10 * val + digit_val c) (Suc digs) fields
      else if c = CHR ''.'' then
        if digs = 0 \<or> s = [] then None
        else if length fields = 3 then None
        else parse_v4_loop s 0 0 (fields @ [val])
      else None)"

definition parse_v4 :: "string \<Rightarrow> 32 word option" where
  "parse_v4 s = map_option of_octets (parse_v4_loop s 0 0 [])"

definition hex_val :: "char \<Rightarrow> nat option" where
  "hex_val c = (let n = of_char c :: nat in
     if 48 \<le> n \<and> n \<le> 57 then Some (n - 48)
     else if 97 \<le> n \<and> n \<le> 102 then Some (n - 87)
     else if 65 \<le> n \<and> n \<le> 70 then Some (n - 55)
     else None)"

definition is_hex :: "char \<Rightarrow> bool" where
  "is_hex c \<longleftrightarrow> hex_val c \<noteq> None"

text \<open>
  The loop of \<open>parseIPv6\<close>. Each round reads one group of hex digits, so a string of length
  \<open>n\<close> needs at most \<open>n + 1\<close> rounds; \<open>bs\<close> are the bytes written so far and \<open>ell\<close> the position
  of \<open>::\<close>. The result is the unread rest of the string with the bytes and the position.
\<close>

fun parse_v6_loop ::
  "nat \<Rightarrow> string \<Rightarrow> nat list \<Rightarrow> nat option \<Rightarrow> (string \<times> nat list \<times> nat option) option" where
  "parse_v6_loop 0 s bs ell = None"
| "parse_v6_loop (Suc fuel) s bs ell =
     (if 16 \<le> length bs then Some (s, bs, ell)
      else
        let digs = takeWhile is_hex s; rest = dropWhile is_hex s;
            acc = foldl (\<lambda>n c. 16 * n + the (hex_val c)) 0 digs
        in if digs = [] \<or> 4 < length digs then None
           else if rest \<noteq> [] \<and> hd rest = CHR ''.'' then
             if ell = None \<and> length bs \<noteq> 12 then None
             else if 16 < length bs + 4 then None
             else (case parse_v4_loop s 0 0 [] of
                     None \<Rightarrow> None | Some fs \<Rightarrow> Some ([], bs @ fs, ell))
           else
             let bs' = bs @ [acc div 256, acc mod 256]
             in if rest = [] then Some ([], bs', ell)
                else if hd rest \<noteq> CHR '':'' \<or> length rest = 1 then None
                else let s' = tl rest in
                  if hd s' = CHR '':'' then
                    if ell \<noteq> None then None
                    else if tl s' = [] then Some ([], bs', Some (length bs'))
                    else parse_v6_loop fuel (tl s') bs' (Some (length bs'))
                  else parse_v6_loop fuel s' bs' ell)"

declare parse_v6_loop.simps [simp del]

definition of_bytes16 :: "nat list \<Rightarrow> 128 word" where
  "of_bytes16 bs = of_nat (foldl (\<lambda>n b. 256 * n + b) 0 bs)"

definition parse_v6 :: "string \<Rightarrow> addr option" where
  "parse_v6 input =
     (let (s0, zone, has_zone) = cut input (CHR ''%'') in
      if has_zone \<and> zone = [] then None
      else
        let lead = has_prefix s0 ''::''; s = (if lead then drop 2 s0 else s0)
        in if lead \<and> s = [] then Some (V6 0 zone)
           else case parse_v6_loop (Suc (length s)) s [] (if lead then Some 0 else None) of
             None \<Rightarrow> None
           | Some (rest, bs, ell) \<Rightarrow>
               if rest \<noteq> [] then None
               else if length bs < 16 then
                 (case ell of None \<Rightarrow> None
                  | Some e \<Rightarrow> Some (V6 (of_bytes16 (take e bs @ replicate (16 - length bs) 0
                                                      @ drop e bs)) zone))
               else if ell \<noteq> None then None
               else Some (V6 (of_bytes16 bs) zone))"

text \<open>\<open>netip.ParseAddr\<close>: the first of the bytes \<open>. : %\<close> decides which parser runs.\<close>

definition parse_addr :: "string \<Rightarrow> addr option" where
  "parse_addr s =
     (case find (\<lambda>c. c \<in> {CHR ''.'', CHR '':'', CHR ''%''}) s of
        None \<Rightarrow> None
      | Some c \<Rightarrow> if c = CHR ''.'' then map_option V4 (parse_v4 s)
                  else if c = CHR '':'' then parse_v6 s
                  else None)"

text \<open>\<open>Next\<close> and \<open>Prev\<close>: the zero address when there is none.\<close>

fun addr_next :: "addr \<Rightarrow> addr" where
  "addr_next AddrZero = AddrZero"
| "addr_next (V4 w) = (if w = - 1 then AddrZero else V4 (w + 1))"
| "addr_next (V6 w z) = (if w = - 1 then AddrZero else V6 (w + 1) z)"

fun addr_prev :: "addr \<Rightarrow> addr" where
  "addr_prev AddrZero = AddrZero"
| "addr_prev (V4 w) = (if w = 0 then AddrZero else V4 (w - 1))"
| "addr_prev (V6 w z) = (if w = 0 then AddrZero else V6 (w - 1) z)"

text \<open>The address classes, on IPv4 addresses.\<close>

definition v4_unspecified :: "32 word \<Rightarrow> bool" where
  "v4_unspecified w \<longleftrightarrow> w = 0"

definition v4_broadcast :: "32 word \<Rightarrow> bool" where
  "v4_broadcast w \<longleftrightarrow> w = - 1"

definition v4_loopback :: "32 word \<Rightarrow> bool" where
  "v4_loopback w \<longleftrightarrow> drop_bit 24 w = 127"

definition v4_multicast :: "32 word \<Rightarrow> bool" where
  "v4_multicast w \<longleftrightarrow> drop_bit 28 w = 14"

definition v4_link_local :: "32 word \<Rightarrow> bool" where
  "v4_link_local w \<longleftrightarrow> drop_bit 16 w = 43518"

definition v4_global_unicast :: "32 word \<Rightarrow> bool" where
  "v4_global_unicast w \<longleftrightarrow> \<not> v4_unspecified w \<and> \<not> v4_broadcast w \<and> \<not> v4_loopback w
      \<and> \<not> v4_multicast w \<and> \<not> v4_link_local w"

section \<open>Prefixes\<close>

text \<open>The zero value \<open>netip.Prefix{}\<close> and every invalid prefix have length \<open>-1\<close>.\<close>

datatype prefix = Prefix (p_addr: addr) (p_bits: int)

definition prefix_zero :: prefix where
  "prefix_zero = Prefix AddrZero (- 1)"

definition prefix_valid :: "prefix \<Rightarrow> bool" where
  "prefix_valid p \<longleftrightarrow> 0 \<le> p_bits p"

definition prefix_from :: "addr \<Rightarrow> int \<Rightarrow> prefix" where
  "prefix_from a b = Prefix (case a of V6 w _ \<Rightarrow> V6 w [] | _ \<Rightarrow> a)
     (if is_valid a \<and> 0 \<le> b \<and> b \<le> bit_len a then b else - 1)"

text \<open>The bits of an address above its host part, the host part cleared.\<close>

definition net_of :: "nat \<Rightarrow> 'a::len word \<Rightarrow> 'a word" where
  "net_of b w = push_bit (LENGTH('a) - b) (drop_bit (LENGTH('a) - b) w)"

text \<open>\<open>Masked\<close>.\<close>

definition masked :: "prefix \<Rightarrow> prefix" where
  "masked p = (if prefix_valid p then
     (case p_addr p of
        V4 w \<Rightarrow> Prefix (V4 (net_of (nat (p_bits p)) w)) (p_bits p)
      | V6 w z \<Rightarrow> Prefix (V6 (net_of (nat (p_bits p)) w) []) (p_bits p)
      | AddrZero \<Rightarrow> prefix_zero)
     else prefix_zero)"

text \<open>
  \<open>ParsePrefix\<close>: the text after the last slash is the length, in plain decimal and at most the
  number of bits of the address; an IPv6 address in a prefix has no zone.
\<close>

definition split_last :: "string \<Rightarrow> char \<Rightarrow> (string \<times> string) option" where
  "split_last s c = (if c \<in> set s
     then Some (rev (tl (dropWhile (\<lambda>x. x \<noteq> c) (rev s))), rev (takeWhile (\<lambda>x. x \<noteq> c) (rev s)))
     else None)"

definition parse_bits :: "string \<Rightarrow> nat option" where
  "parse_bits s = (if 1 < length s \<and> (hd s = CHR ''0'' \<or> \<not> is_digit (hd s)) then None
                   else parse_digits s)"

definition parse_prefix :: "string \<Rightarrow> prefix option" where
  "parse_prefix s = (case split_last s (CHR ''/'') of
      None \<Rightarrow> None
    | Some (a, b) \<Rightarrow> (case (parse_addr a, parse_bits b) of
        (Some ip, Some n) \<Rightarrow>
          if (case ip of V6 _ z \<Rightarrow> z \<noteq> [] | _ \<Rightarrow> False) \<or> bit_len ip < int n then None
          else Some (Prefix ip (int n))
      | _ \<Rightarrow> None))"

text \<open>\<open>String\<close> of an IPv4 prefix.\<close>

definition v4_prefix_str :: "32 word \<Rightarrow> nat \<Rightarrow> string" where
  "v4_prefix_str w b = v4_str w @ ''/'' @ nat_str b"

definition contains :: "prefix \<Rightarrow> addr \<Rightarrow> bool" where
  "contains p a \<longleftrightarrow> prefix_valid p \<and>
     (case (p_addr p, a) of
        (V4 w, V4 x) \<Rightarrow> drop_bit (32 - nat (p_bits p)) (w XOR x) = 0
      | (V6 w _, V6 x z) \<Rightarrow> z = [] \<and> drop_bit (128 - nat (p_bits p)) (w XOR x) = 0
      | _ \<Rightarrow> False)"

definition overlaps :: "prefix \<Rightarrow> prefix \<Rightarrow> bool" where
  "overlaps p q \<longleftrightarrow> prefix_valid p \<and> prefix_valid q \<and>
     (p = q \<or>
      is4 (p_addr p) = is4 (p_addr q) \<and>
      (let b = nat (min (p_bits p) (p_bits q)) in
        b = 0 \<or>
        (case (p_addr p, p_addr q) of
           (V4 w, V4 x) \<Rightarrow> net_of b w = net_of b x
         | (V6 w _, V6 x _) \<Rightarrow> net_of b w = net_of b x
         | _ \<Rightarrow> False)))"

text \<open>\<open>Less\<close> on addresses of the same family, as \<open>Compare\<close> orders them.\<close>

fun addr_less :: "addr \<Rightarrow> addr \<Rightarrow> bool" where
  "addr_less (V4 w) (V4 x) = (w < x)"
| "addr_less (V6 w z) (V6 x y) = (w < x \<or> w = x \<and> z < y)"
| "addr_less a b = (bit_len a < bit_len b)"

text \<open>\<open>Addr.String\<close> on IPv4 addresses and on the zero address, the only ones the program prints.\<close>

definition addr_text :: "addr \<Rightarrow> string" where
  "addr_text a = (case a of V4 w \<Rightarrow> v4_str w | _ \<Rightarrow> ''invalid IP'')"

section \<open>Octets and their text\<close>

lemma length_octets [simp]: "length (octets w) = 4"
  by (simp add: octets_def)

lemma unat_drop_bit: "unat (drop_bit k (w :: 'a::len word)) = unat w div 2 ^ k"
proof -
  have "take_bit LENGTH('a) (unat w) = unat (w :: 'a::len word)"
    by (simp add: take_bit_nat_eq_self unsigned_less)
  then show ?thesis by (simp add: unsigned_drop_bit_eq drop_bit_eq_div [where 'a = nat])
qed

lemma octets_eq:
  "octets w = [unat w div 16777216, unat w div 65536 mod 256, unat w div 256 mod 256, unat w mod 256]"
  by (simp add: octets_def unat_drop_bit)

lemma unat_w32_less: "unat (w :: 32 word) < 4294967296"
  using unsigned_less [of w, where 'a = nat] by simp

lemma octets_bound: "n \<in> set (octets w) \<Longrightarrow> n \<le> 255"
  using unat_w32_less [of w] by (auto simp: octets_eq)

lemma of_octets_octets [simp]: "of_octets (octets w) = w"
proof -
  have split: "256 * (m div 256) + m mod 256 = m" for m :: nat by simp
  have "256 * (unat w div 16777216) + unat w div 65536 mod 256 = unat w div 65536"
    using split [of "unat w div 65536"] by (simp add: div_mult2_eq [symmetric])
  moreover have "256 * (unat w div 65536) + unat w div 256 mod 256 = unat w div 256"
    using split [of "unat w div 256"] by (simp add: div_mult2_eq [symmetric])
  ultimately have "foldl (\<lambda>n b. 256 * n + b) 0 (octets w) = unat w"
    using split [of "unat w"] by (simp add: octets_eq del: mult_div_mod_eq)
  then show ?thesis by (simp add: of_octets_def)
qed

lemma octets_of_octets:
  assumes "length bs = 4" and "\<forall>b\<in>set bs. b \<le> 255"
  shows "octets (of_octets bs) = bs"
proof -
  obtain a b c d where bs: "bs = [a, b, c, d]"
    using assms(1) by (auto simp: numeral_eq_Suc length_Suc_conv)
  define m where "m = 256 * a + b"
  define k where "k = 256 * m + c"
  have bounds: "a < 256" "b < 256" "c < 256" "d < 256" using assms(2) by (auto simp: bs)
  then have n: "256 * k + d < 4294967296" by (simp add: k_def m_def)
  have "foldl (\<lambda>n b. 256 * n + b) 0 bs = 256 * k + d" by (simp add: bs k_def m_def)
  with n have w: "unat (of_octets bs) = 256 * k + d"
    by (simp only: of_octets_def unat_of_nat) simp
  have base: "(256 * x + y) div 256 = x" "(256 * x + y) mod 256 = y" if "y < 256" for x y :: nat
    using that by simp_all
  have low: "(256 * k + d) div 256 = k" "(256 * k + d) mod 256 = d" by (rule base; fact)+
  have mid: "k div 256 = m" "k mod 256 = c" unfolding k_def by (rule base; fact)+
  have high: "m div 256 = a" "m mod 256 = b" unfolding m_def by (rule base; fact)+
  have two: "(256 * k + d) div 65536 = m"
    using div_mult2_eq [of "256 * k + d" 256 256] low mid by simp
  moreover have "(256 * k + d) div 16777216 = a"
    using div_mult2_eq [of "256 * k + d" 65536 256] two high by simp
  ultimately show ?thesis
    unfolding octets_eq w using bounds by (simp add: bs low mid high)
qed

text \<open>The digits of an octet are read to the end of the octet.\<close>

lemma parse_v4_loop_digits:
  assumes "list_all is_digit s" and "digits_val val s \<le> 255"
    and "s = [] \<or> (digs = 0 \<and> val = 0 \<and> (length s = 1 \<or> hd s \<noteq> CHR ''0'')) \<or> (0 < digs \<and> 0 < val)"
  shows "parse_v4_loop (s @ rest) val digs fields
           = parse_v4_loop rest (digits_val val s) (digs + length s) fields"
  using assms
proof (induction s arbitrary: val digs)
  case Nil
  then show ?case by simp
next
  case (Cons c s)
  have mono: "v \<le> digits_val v t" for v t
  proof (induction t arbitrary: v)
    case (Cons a t)
    show ?case using Cons.IH [of "10 * v + digit_val a"] by simp
  qed simp
  have "10 * val + digit_val c \<le> 255"
    using Cons.prems(2) mono [of "10 * val + digit_val c" s] by simp
  moreover have "s = [] \<or> 0 < 10 * val + digit_val c"
  proof (cases "s = [] \<or> 0 < val")
    case False
    with Cons.prems have "c \<noteq> CHR ''0''" and "is_digit c" by auto
    then have "digit_val c \<noteq> 0" using digit_char_val [of c] digit_char_0 by metis
    then show ?thesis by simp
  qed auto
  ultimately show ?case using Cons.IH [of "10 * val + digit_val c" "Suc digs"] Cons.prems by auto
qed

lemma parse_v4_loop_octet:
  assumes "n \<le> 255"
  shows "parse_v4_loop (nat_str n @ rest) 0 0 fields = parse_v4_loop rest n (length (nat_str n)) fields"
proof -
  have "length (nat_str n) = 1 \<or> hd (nat_str n) \<noteq> CHR ''0''"
    using hd_nat_str_nonzero [of n] by (cases "n = 0") (simp_all add: nat_str.simps [of 0])
  with assms show ?thesis by (subst parse_v4_loop_digits) simp_all
qed

lemma not_digit_dot [simp]: "\<not> is_digit (CHR ''.'')"
  by (simp add: is_digit_def)

lemma parse_v4_loop_join:
  assumes "gs \<noteq> []" and "\<forall>g\<in>set gs. g \<le> 255" and "length fields + length gs = 4"
  shows "parse_v4_loop (join ''.'' (map nat_str gs)) 0 0 fields = Some (fields @ gs)"
  using assms
proof (induction gs arbitrary: fields)
  case Nil
  then show ?case by simp
next
  case (Cons g gs)
  show ?case
  proof (cases "gs = []")
    case True
    with Cons.prems parse_v4_loop_octet [of g "[]" fields] show ?thesis by simp
  next
    case False
    let ?rest = "join ''.'' (map nat_str gs)"
    from False have nn: "?rest \<noteq> []" and j: "join ''.'' (map nat_str (g # gs)) = nat_str g @ CHR ''.'' # ?rest"
      by (cases gs; cases "tl gs"; simp)+
    have "parse_v4_loop ?rest 0 0 (fields @ [g]) = Some ((fields @ [g]) @ gs)"
      using Cons.prems False by (intro Cons.IH) auto
    moreover have "length fields \<noteq> 3" using Cons.prems(3) False by (cases gs) auto
    ultimately show ?thesis
      unfolding j using Cons.prems nn by (simp add: parse_v4_loop_octet)
  qed
qed

text \<open>The parser of IPv4 addresses accepts exactly the printed addresses: it refuses leading
  zeros, so an accepted text is the canonical one.\<close>

lemma parse_v4_v4_str [simp]: "parse_v4 (v4_str w) = Some w"
proof -
  have "parse_v4_loop (v4_str w) 0 0 [] = Some (octets w)"
    unfolding v4_str_def
    by (subst parse_v4_loop_join) (auto simp: octets_bound simp flip: length_0_conv)
  then show ?thesis by (simp add: parse_v4_def)
qed

lemma parse_v4_loop_sound:
  assumes "parse_v4_loop s val digs fields = Some fs"
    and "list_all is_digit t" and "val = digits_val 0 t" and "digs = length t"
    and "val \<le> 255" and "length t \<le> 1 \<or> hd t \<noteq> CHR ''0''" and "t @ s \<noteq> []"
    and "length fields \<le> 3"
  shows "\<exists>gs. fs = fields @ gs \<and> length fs = 4 \<and> (\<forall>g\<in>set gs. g \<le> 255)
            \<and> t @ s = join ''.'' (map nat_str gs)"
  using assms
proof (induction s val digs fields arbitrary: t rule: parse_v4_loop.induct)
  case (1 val digs fields)
  then have "nat_str val = t" using nat_str_digits_val [of t] by (cases t) auto
  with 1 show ?case by (intro exI [of _ "[val]"]) (auto split: if_splits)
next
  case (2 c s val digs fields)
  show ?case
  proof (cases "is_digit c")
    case True
    then have v: "\<not> (digs = 1 \<and> val = 0)" "10 * val + digit_val c \<le> 255"
      and rec: "parse_v4_loop s (10 * val + digit_val c) (Suc digs) fields = Some fs"
      using "2.prems"(1) by (auto split: if_splits)
    have "length (t @ [c]) \<le> 1 \<or> hd (t @ [c]) \<noteq> CHR ''0''"
    proof (cases "length t = 1")
      case len: True
      then obtain d where t: "t = [d]" by (cases t) auto
      with "2.prems" v have "digit_val d \<noteq> 0" by simp
      moreover have "digit_val (CHR ''0'') = 0" by (simp add: digit_val_def)
      ultimately show ?thesis by (auto simp: t)
    next
      case False
      with "2.prems"(6) show ?thesis by (cases t) auto
    qed
    with "2.IH"(1) [OF True v(1) _ rec, of "t @ [c]"] "2.prems" v True show ?thesis
      by (simp add: digits_val_snoc)
  next
    case False
    then have c: "c = CHR ''.''" "digs \<noteq> 0" "s \<noteq> []" "length fields \<noteq> 3"
      and rec: "parse_v4_loop s 0 0 (fields @ [val]) = Some fs"
      using "2.prems"(1) by (auto split: if_splits)
    obtain gs where gs: "fs = fields @ [val] @ gs" "length fs = 4" "\<forall>g\<in>set gs. g \<le> 255"
      "s = join ''.'' (map nat_str gs)"
      using "2.IH"(2) [OF False c(1) _ c(4) rec, of "[]"] "2.prems" c by auto
    have "nat_str val = t" using nat_str_digits_val [of t] "2.prems" c(2) by (cases t) auto
    moreover have "gs \<noteq> []" using gs(4) c(3) by auto
    ultimately show ?thesis
      using gs "2.prems" c(1) by (intro exI [of _ "val # gs"]) (cases gs, auto)
  qed
qed

lemma parse_v4_iff: "parse_v4 s = Some w \<longleftrightarrow> s = v4_str w"
proof
  assume "parse_v4 s = Some w"
  then obtain fs where fs: "parse_v4_loop s 0 0 [] = Some fs" and w: "w = of_octets fs"
    by (auto simp: parse_v4_def)
  from fs have "s \<noteq> []" by auto
  with parse_v4_loop_sound [OF fs, of "[]"] have "length fs = 4" "\<forall>g\<in>set fs. g \<le> 255"
    "s = join ''.'' (map nat_str fs)" by auto
  then show "s = v4_str w" by (simp add: v4_str_def w octets_of_octets)
qed simp

lemma v4_str_inject [simp]: "v4_str w = v4_str x \<longleftrightarrow> w = x"
  by (metis option.inject parse_v4_v4_str)

lemma v4_str_split: "\<exists>n rest. v4_str w = nat_str n @ CHR ''.'' # rest"
  unfolding v4_str_def octets_def by (simp add: exI) blast

lemma v4_str_chars: "c \<in> set (v4_str w) \<Longrightarrow> is_digit c \<or> c = CHR ''.''"
  by (auto simp: v4_str_def octets_def dest!: nat_str_chars)

lemma v4_str_not_Nil [simp]: "v4_str w \<noteq> []"
  by (simp add: v4_str_def octets_def)

lemma parse_v6_not_V4 [simp]: "parse_v6 s \<noteq> Some (V4 w)"
  by (auto simp: parse_v6_def Let_def split: prod.splits option.splits if_splits)

lemma parse_addr_v4_str [simp]: "parse_addr (v4_str w) = Some (V4 w)"
proof -
  obtain n rest where w: "v4_str w = nat_str n @ CHR ''.'' # rest" using v4_str_split by blast
  have "find (\<lambda>c. c \<in> {CHR ''.'', CHR '':'', CHR ''%''}) (ds @ CHR ''.'' # rest) = Some (CHR ''.'')"
    if "list_all is_digit ds" for ds
    using that by (induction ds) (auto simp: is_digit_def)
  then have "find (\<lambda>c. c \<in> {CHR ''.'', CHR '':'', CHR ''%''}) (v4_str w) = Some (CHR ''.'')"
    by (simp add: w)
  then show ?thesis by (simp add: parse_addr_def)
qed

lemma parse_addr_V4_iff: "parse_addr s = Some (V4 w) \<longleftrightarrow> s = v4_str w"
proof
  assume "parse_addr s = Some (V4 w)"
  then show "s = v4_str w"
    by (auto simp: parse_addr_def parse_v4_iff split: option.splits if_splits)
qed simp

lemma is4_iff: "is4 a \<longleftrightarrow> (\<exists>w. a = V4 w)"
  by (cases a) auto

section \<open>The text of prefixes\<close>

lemma parse_bits_iff: "parse_bits b = Some n \<longleftrightarrow> b = nat_str n"
proof
  assume b: "parse_bits b = Some n"
  then have "list_all is_digit b" "b \<noteq> []" "n = digits_val 0 b" "length b \<le> 1 \<or> hd b \<noteq> CHR ''0''"
    by (auto simp: parse_bits_def parse_digits_def split: if_splits)
  moreover from this(2,4) have "length b = 1 \<or> hd b \<noteq> CHR ''0''" by (cases b) auto
  ultimately show "b = nat_str n" using nat_str_digits_val [of b] by simp
next
  assume "b = nat_str n"
  moreover have "hd (nat_str n) \<noteq> CHR ''0'' \<or> length (nat_str n) = 1"
    using hd_nat_str_nonzero [of n] by (cases "n = 0") (simp_all add: nat_str.simps [of 0])
  moreover have "is_digit (hd (nat_str n))" using nat_str_chars [of "hd (nat_str n)" n] by simp
  ultimately show "parse_bits b = Some n" by (auto simp: parse_bits_def)
qed

lemma split_last_append:
  fixes a b :: string
  assumes "c \<notin> set b"
  shows "split_last (a @ c # b) c = Some (a, b)"
proof -
  have "takeWhile (\<lambda>x. x \<noteq> c) (rev b @ c # rev a) = rev b"
    and "dropWhile (\<lambda>x. x \<noteq> c) (rev b @ c # rev a) = c # rev a"
    using assms by (auto simp: takeWhile_append dropWhile_append3)
  then show ?thesis by (simp add: split_last_def)
qed

lemma split_last_Some:
  assumes "split_last s c = Some (a, b)"
  shows "s = a @ c # b \<and> c \<notin> set b"
proof -
  from assms have "c \<in> set s" by (auto simp: split_last_def split: if_splits)
  then obtain u v where "s = u @ c # v" and "c \<notin> set v" by (meson split_list_last)
  with assms show ?thesis by (simp add: split_last_append)
qed

lemma slash_not_digit: "\<not> is_digit (CHR ''/'')"
  by (simp add: is_digit_def)

lemma parse_prefix_V4_iff:
  "parse_prefix s = Some (Prefix (V4 w) b) \<longleftrightarrow> 0 \<le> b \<and> b \<le> 32 \<and> s = v4_prefix_str w (nat b)"
proof
  assume "parse_prefix s = Some (Prefix (V4 w) b)"
  then obtain x y n where "split_last s (CHR ''/'') = Some (x, y)" "parse_addr x = Some (V4 w)"
    "parse_bits y = Some n" "b = int n" "b \<le> 32"
    by (auto simp: parse_prefix_def split: option.splits prod.splits addr.splits if_splits)
  then show "0 \<le> b \<and> b \<le> 32 \<and> s = v4_prefix_str w (nat b)"
    by (auto dest!: split_last_Some simp: parse_addr_V4_iff parse_bits_iff v4_prefix_str_def)
next
  assume s: "0 \<le> b \<and> b \<le> 32 \<and> s = v4_prefix_str w (nat b)"
  have "CHR ''/'' \<notin> set (nat_str (nat b))" using nat_str_chars slash_not_digit by blast
  then have "split_last s (CHR ''/'') = Some (v4_str w, nat_str (nat b))"
    using s split_last_append [of "CHR ''/''" "nat_str (nat b)" "v4_str w"]
    by (simp add: v4_prefix_str_def)
  moreover have "parse_bits (nat_str (nat b)) = Some (nat b)" by (simp add: parse_bits_iff)
  ultimately show "parse_prefix s = Some (Prefix (V4 w) b)"
    using s by (simp add: parse_prefix_def)
qed

lemma parse_prefix_v4_str [simp]:
  "b \<le> 32 \<Longrightarrow> parse_prefix (v4_prefix_str w b) = Some (Prefix (V4 w) (int b))"
  by (simp add: parse_prefix_V4_iff)

lemma v4_prefix_str_inject:
  "v4_prefix_str w b = v4_prefix_str x c \<longleftrightarrow> w = x \<and> b = c"
proof
  assume eq: "v4_prefix_str w b = v4_prefix_str x c"
  have "CHR ''/'' \<notin> set (v4_str y)" for y using v4_str_chars slash_not_digit by force
  with eq show "w = x \<and> b = c"
    using append_separator_inject [of "CHR ''/''" "v4_str w" "v4_str x" "nat_str b" "nat_str c"]
    by (simp add: v4_prefix_str_def)
qed simp

section \<open>Prefixes as address ranges\<close>

text \<open>The block of an address: what is left of it above the host bits.\<close>

definition block :: "nat \<Rightarrow> 32 word \<Rightarrow> nat" where
  "block b w = unat w div 2 ^ (32 - b)"

lemma drop_bit_xor_0: "drop_bit k (w XOR x) = 0 \<longleftrightarrow> drop_bit k w = drop_bit k (x :: 'a::len word)"
  by (auto simp: bit_eq_iff bit_simps)

lemma drop_bit_eq_iff: "drop_bit k w = drop_bit k (x :: 'a::len word) \<longleftrightarrow> unat w div 2 ^ k = unat x div 2 ^ k"
  by (metis unat_drop_bit word_unat_eq_iff)

lemma bit_net_of: "bit (net_of b w) i \<longleftrightarrow> LENGTH('a) - b \<le> i \<and> bit (w :: 'a::len word) i"
  by (auto simp: net_of_def bit_simps dest: bit_imp_le_length)

lemma drop_bit_net_of [simp]: "drop_bit (LENGTH('a) - b) (net_of b w) = drop_bit (LENGTH('a) - b) (w :: 'a::len word)"
  by (rule bit_eqI) (simp add: bit_net_of bit_simps)

lemma net_of_eq_iff: "net_of b w = net_of b x \<longleftrightarrow> block b w = block b x"
proof -
  have d: "drop_bit (32 - b) (net_of b y) = drop_bit (32 - b) y" for y :: "32 word"
    using drop_bit_net_of [of b y] by simp
  have n: "net_of b y = push_bit (32 - b) (drop_bit (32 - b) y)" for y :: "32 word"
    by (simp add: net_of_def)
  have "net_of b w = net_of b x \<longleftrightarrow> drop_bit (32 - b) w = drop_bit (32 - b) x"
    using d [of w] d [of x] n [of w] n [of x] by metis
  then show ?thesis by (simp add: drop_bit_eq_iff block_def)
qed

lemma unat_net_of: "unat (net_of b w) = block b w * 2 ^ (32 - b)"
proof -
  have "block b w * 2 ^ (32 - b) \<le> unat w" by (simp add: block_def)
  also have "\<dots> < 2 ^ 32" using unat_w32_less [of w] by simp
  finally have "block b w * 2 ^ (32 - b) < 2 ^ 32" .
  moreover have "net_of b w = of_nat (block b w * 2 ^ (32 - b))"
    by (simp add: net_of_def push_bit_eq_mult block_def flip: unat_drop_bit)
  ultimately show ?thesis by (simp add: unat_of_nat del: of_nat_mult)
qed

lemma contains_V4:
  "0 \<le> b \<Longrightarrow> contains (Prefix (V4 w) b) (V4 x) \<longleftrightarrow> block (nat b) w = block (nat b) x"
  by (auto simp: contains_def prefix_valid_def drop_bit_xor_0 drop_bit_eq_iff block_def
      simp del: drop_bit_xor)

lemma contains_imp_V4: "contains (Prefix (V4 w) b) a \<Longrightarrow> \<exists>x. a = V4 x"
  by (cases a) (auto simp: contains_def)

lemma block_mono:
  assumes "c \<le> b" and "b \<le> 32" and "block b w = block b x"
  shows "block c w = block c x"
proof -
  have "(2::nat) ^ (32 - c) = 2 ^ (32 - b) * 2 ^ (b - c)" using assms(1,2) by (simp flip: power_add)
  then show ?thesis using assms(3) by (simp add: block_def div_mult2_eq)
qed

lemma block_0 [simp]: "block 0 w = 0"
  using unat_w32_less [of w] by (simp add: block_def)

lemma overlaps_V4:
  assumes "0 \<le> b" and "0 \<le> c"
  shows "overlaps (Prefix (V4 w) b) (Prefix (V4 x) c)
           \<longleftrightarrow> block (nat (min b c)) w = block (nat (min b c)) x"
  using assms by (auto simp: overlaps_def prefix_valid_def Let_def net_of_eq_iff min_def)

lemma overlaps_V4_iff:
  assumes "0 \<le> b" "b \<le> 32" "0 \<le> c" "c \<le> 32"
  shows "overlaps (Prefix (V4 w) b) (Prefix (V4 x) c)
           \<longleftrightarrow> (\<exists>a. contains (Prefix (V4 w) b) a \<and> contains (Prefix (V4 x) c) a)"
proof
  assume "overlaps (Prefix (V4 w) b) (Prefix (V4 x) c)"
  then have o: "block (nat (min b c)) w = block (nat (min b c)) x"
    using assms by (simp add: overlaps_V4)
  show "\<exists>a. contains (Prefix (V4 w) b) a \<and> contains (Prefix (V4 x) c) a"
  proof (cases "b \<le> c")
    case True
    with o assms show ?thesis by (intro exI [of _ "V4 x"]) (simp add: contains_V4 min_def)
  next
    case False
    with o assms show ?thesis by (intro exI [of _ "V4 w"]) (simp add: contains_V4 min_def)
  qed
next
  assume "\<exists>a. contains (Prefix (V4 w) b) a \<and> contains (Prefix (V4 x) c) a"
  then obtain y where "contains (Prefix (V4 w) b) (V4 y)" "contains (Prefix (V4 x) c) (V4 y)"
    using contains_imp_V4 by blast
  with assms have "block (nat b) w = block (nat b) y" "block (nat c) x = block (nat c) y"
    by (simp_all add: contains_V4)
  with assms have "block (nat (min b c)) w = block (nat (min b c)) y"
    and "block (nat (min b c)) x = block (nat (min b c)) y"
    using block_mono [of "nat (min b c)" "nat b" w y] block_mono [of "nat (min b c)" "nat c" x y]
    by (simp_all add: nat_mono)
  with assms show "overlaps (Prefix (V4 w) b) (Prefix (V4 x) c)" by (simp add: overlaps_V4)
qed

lemma overlaps_sym: "overlaps p q \<longleftrightarrow> overlaps q p"
  by (cases "p_addr p"; cases "p_addr q") (auto simp: overlaps_def Let_def min.commute)

lemma block_range: "block b w = block b x
   \<longleftrightarrow> block b w * 2 ^ (32 - b) \<le> unat x \<and> unat x < block b w * 2 ^ (32 - b) + 2 ^ (32 - b)"
proof
  assume "block b w = block b x"
  then show "block b w * 2 ^ (32 - b) \<le> unat x \<and> unat x < block b w * 2 ^ (32 - b) + 2 ^ (32 - b)"
    using div_mult_mod_eq [of "unat x" "2 ^ (32 - b)"] mod_less_divisor [of "2 ^ (32 - b)" "unat x"]
    unfolding block_def by (metis add.commute add_less_cancel_left le_add2 zero_less_numeral zero_less_power)
next
  assume r: "block b w * 2 ^ (32 - b) \<le> unat x \<and> unat x < block b w * 2 ^ (32 - b) + 2 ^ (32 - b)"
  then have "unat x = block b w * 2 ^ (32 - b) + (unat x - block b w * 2 ^ (32 - b))"
    and "unat x - block b w * 2 ^ (32 - b) < 2 ^ (32 - b)" by linarith+
  then have "unat x div 2 ^ (32 - b) = block b w"
    by (metis add.right_neutral div_less div_mult_self3 zero_less_numeral zero_less_power less_numeral_extra(3))
  then show "block b w = block b x" by (simp add: block_def)
qed

end
