(* ===== verification/Site_Config.thy ===== *)
theory Site_Config
  imports Kube_Meta Go_Netip
begin

text \<open>
  \<open>internal/siteconfig\<close>: the administrator's registration of one attachment and the validation
  of its grants, and the IPv4 boundary \<open>Prefix\<close>/\<open>Host\<close>/\<open>LastAddress\<close> that every planner of the
  program uses. \<open>Load\<close> (opening and decoding the file) is input/output and is left out. The lemmas
  characterise the accepted prefixes and hosts completely and derive from a successful
  validation what the planner and the gateways rely on.
\<close>

section \<open>The IPv4 boundary\<close>

definition not_canonical_msg :: string where
  "not_canonical_msg = ''must be a canonical IPv4 network from /8 through /30''"

definition not_unicast_msg :: string where
  "not_unicast_msg = ''must be a unicast subnet outside loopback and link-local ranges''"

definition not_host_msg :: string where
  "not_host_msg = ''must be a usable IPv4 host in its subnet, excluding network and broadcast''"

text \<open>\<open>v |= ^uint32(0) >> p.Bits()\<close>.\<close>

definition last_address :: "32 word \<Rightarrow> nat \<Rightarrow> 32 word" where
  "last_address w b = w OR drop_bit b (- 1)"

definition site_prefix :: "string \<Rightarrow> prefix res" where
  "site_prefix raw = (case parse_prefix raw of
      None \<Rightarrow> Inl not_canonical_msg
    | Some p \<Rightarrow> (case p_addr p of
        V4 w \<Rightarrow>
          let b = nat (p_bits p) in
          if b < 8 \<or> 30 < b \<or> v4_prefix_str (net_of b w) b \<noteq> raw then Inl not_canonical_msg
          else if \<not> v4_global_unicast w \<or> \<not> v4_global_unicast (last_address w b)
                  \<or> v4_loopback w \<or> v4_link_local w then Inl not_unicast_msg
          else Inr p
      | _ \<Rightarrow> Inl not_canonical_msg))"

definition site_host :: "string \<Rightarrow> prefix \<Rightarrow> addr res" where
  "site_host raw p = (case parse_addr raw of
      Some (V4 x) \<Rightarrow>
        (if v4_str x \<noteq> raw \<or> \<not> contains p (V4 x) \<or> V4 x = p_addr p
            \<or> (case p_addr p of V4 w \<Rightarrow> x = last_address w (nat (p_bits p)) | _ \<Rightarrow> False)
            \<or> \<not> v4_global_unicast x
         then Inl not_host_msg else Inr (V4 x))
    | _ \<Rightarrow> Inl not_host_msg)"

section \<open>The registration\<close>

record cluster =
  cl_name :: string
  cl_uid :: string
  cl_kubeconfig :: string
  cl_nb_command :: "string list"
  cl_sb_command :: "string list"

record site_gateway =
  gw_id :: string
  gw_ip :: string

record site_bfd =
  bfd_source_ip :: string
  bfd_min_rx :: int
  bfd_min_tx :: int
  bfd_multiplier :: int
  bfd_node_selector :: "label_selector option"

record grant =
  gr_global_vpc_id :: string
  gr_delegated_prefixes :: "string list"
  gr_transit_cidr :: string
  gr_router_ip :: string
  gr_gateway_ip :: string
  gr_gateways :: "site_gateway list"
  gr_bfd :: "site_bfd option"

record site_config =
  sc_site_id :: string
  sc_attachment_id :: string
  sc_cluster :: cluster
  sc_gateway_command :: "string list"
  sc_gateway_revision :: string
  sc_grants :: "grant list"
  sc_bfd_transaction_command :: "string list"

definition command :: "string list \<Rightarrow> bool" where
  "command argv \<longleftrightarrow> 0 < length argv \<and> argv ! 0 \<noteq> []"

text \<open>One gateway member: \<open>ids\<close> and \<open>ips\<close> are the names and addresses already seen.\<close>

definition check_member ::
  "k8s_lib \<Rightarrow> prefix \<Rightarrow> string list \<times> string list \<Rightarrow> site_gateway \<Rightarrow> (string list \<times> string list) res" where
  "check_member L transit st m = (case st of (ids, ips) \<Rightarrow>
     if \<not> dns1123_label L (gw_id m) \<or> gw_id m \<in> set ids then Inl ''gateway IDs must be unique DNS labels''
     else if \<not> is_ok (site_host (gw_ip m) transit) \<or> gw_ip m \<in> set ips
       then Inl ''gateway IPs must be unique usable transit hosts distinct from routerIP''
     else Inr (gw_id m # ids, gw_ip m # ips))"

definition bfd_source_ok :: "string \<Rightarrow> bool" where
  "bfd_source_ok raw \<longleftrightarrow> (case parse_addr raw of
      Some (V4 x) \<Rightarrow> v4_str x = raw \<and> v4_global_unicast x \<and> \<not> v4_loopback x \<and> \<not> v4_link_local x
    | _ \<Rightarrow> False)"

definition validate_gateways :: "k8s_lib \<Rightarrow> grant \<Rightarrow> prefix \<Rightarrow> unit res" where
  "validate_gateways L g transit =
     (if gr_gateways g = [] then
        rbind (guard (gr_bfd g = None) ''BFD requires HA gateways'') (\<lambda>_.
        rbind (wrap ''grant gatewayIP'' (site_host (gr_gateway_ip g) transit)) (\<lambda>_.
        guard (gr_router_ip g \<noteq> gr_gateway_ip g) ''grant routerIP and gatewayIP must differ''))
      else (case gr_bfd g of
        None \<Rightarrow> Inl ''HA requires 2 through 8 gateways and BFD, without legacy gatewayIP''
      | Some b \<Rightarrow>
          rbind (guard (gr_gateway_ip g = [] \<and> 2 \<le> length (gr_gateways g) \<and> length (gr_gateways g) \<le> 8)
            ''HA requires 2 through 8 gateways and BFD, without legacy gatewayIP'') (\<lambda>_.
          rbind (foldr_res (check_member L transit) ([], [gr_router_ip g]) (gr_gateways g)) (\<lambda>_.
          rbind (guard (bfd_source_ok (bfd_source_ip b))
            ''BFD sourceIP must be a canonical unicast IPv4 address outside loopback and link-local ranges'') (\<lambda>_.
          rbind (guard (100 \<le> bfd_min_rx b \<and> bfd_min_rx b \<le> 60000 \<and> 100 \<le> bfd_min_tx b \<and> bfd_min_tx b \<le> 60000
                   \<and> 2 \<le> bfd_multiplier b \<and> bfd_multiplier b \<le> 255)
            ''BFD minRX/minTX must be 100 through 60000 milliseconds and multiplier 2 through 255'') (\<lambda>_.
          (case selector_errors L (bfd_node_selector b) of
             None \<Rightarrow> Inr ()
           | Some e \<Rightarrow> Inl (''BFD nodeSelector is invalid: '' @ e))))))))"

text \<open>The delegated prefixes, against the prefixes seen so far (first of all the transit).\<close>

definition check_delegated :: "prefix list \<Rightarrow> string \<Rightarrow> prefix list res" where
  "check_delegated seen raw =
     rbind (wrap ''delegated prefix'' (site_prefix raw)) (\<lambda>p.
     rbind (guard (\<not> list_ex (overlaps p) seen)
       ''delegated prefixes and local transit must not overlap within a tenant'') (\<lambda>_.
     Inr (seen @ [p])))"

definition check_bfd_outside :: "prefix list \<Rightarrow> grant \<Rightarrow> unit res" where
  "check_bfd_outside seen g = (case gr_bfd g of
      None \<Rightarrow> Inr ()
    | Some b \<Rightarrow>
        let source = (case parse_addr (bfd_source_ip b) of None \<Rightarrow> AddrZero | Some a \<Rightarrow> a)
        in guard (\<not> list_ex (\<lambda>p. contains p source) seen)
             ''BFD sourceIP must be outside local delegated prefixes and transit'')"

definition validate_grant :: "k8s_lib \<Rightarrow> site_config \<Rightarrow> string list \<Rightarrow> grant \<Rightarrow> (string list) res" where
  "validate_grant L c ids g =
     rbind (guard (dns1123_subdomain L (gr_global_vpc_id g) \<and> gr_global_vpc_id g \<notin> set ids)
       ''grant globalVpcID must be a unique DNS subdomain'') (\<lambda>_.
     rbind (wrap ''grant transitCIDR'' (site_prefix (gr_transit_cidr g))) (\<lambda>transit.
     rbind (wrap ''grant routerIP'' (site_host (gr_router_ip g) transit)) (\<lambda>_.
     rbind (validate_gateways L g transit) (\<lambda>_.
     rbind (guard (gr_gateways g = [] \<or> command (sc_bfd_transaction_command c))
       ''HA requires a local BFD transaction command'') (\<lambda>_.
     rbind (guard (gr_delegated_prefixes g \<noteq> []) ''grant requires delegated prefixes'') (\<lambda>_.
     rbind (foldr_res check_delegated [transit] (gr_delegated_prefixes g)) (\<lambda>seen.
     rbind (check_bfd_outside seen g) (\<lambda>_.
     Inr (gr_global_vpc_id g # ids)))))))))"

definition site_validate :: "k8s_lib \<Rightarrow> site_config \<Rightarrow> unit res" where
  "site_validate L c =
     rbind (guard (dns1123_label L (sc_site_id c) \<and> dns1123_label L (sc_attachment_id c))
       ''siteID and attachmentID must be DNS labels'') (\<lambda>_.
     rbind (guard (dns1123_subdomain L (cl_name (sc_cluster c)) \<and> cl_uid (sc_cluster c) \<noteq> []
              \<and> label_value L (cl_uid (sc_cluster c)) \<and> cl_kubeconfig (sc_cluster c) \<noteq> [])
       ''local cluster name, UID and kubeconfig are required'') (\<lambda>_.
     rbind (guard (command (cl_nb_command (sc_cluster c)) \<and> command (cl_sb_command (sc_cluster c))
              \<and> command (sc_gateway_command c))
       ''local NB, SB and gateway commands are required'') (\<lambda>_.
     rbind (guard (dns1123_label L (sc_gateway_revision c))
       ''gatewayRevision must be a DNS label matching the local backend registration'') (\<lambda>_.
     rbind (guard (sc_grants c \<noteq> []) ''at least one local tenant grant is required'') (\<lambda>_.
     rbind (foldr_res (validate_grant L c) [] (sc_grants c)) (\<lambda>_. Inr ()))))))"

section \<open>What is accepted\<close>

lemma drop_bit_minus_1: "drop_bit b (- 1 :: 32 word) = mask (32 - b)"
  by (rule bit_eqI) (auto simp: bit_simps)

lemma last_address_eq: "last_address w b = net_of b w + mask (32 - b)"
proof -
  have "last_address w b = net_of b w OR mask (32 - b)"
    unfolding last_address_def drop_bit_minus_1
    by (rule bit_eqI) (auto simp: bit_simps bit_net_of)
  also have "\<dots> = net_of b w + mask (32 - b)"
    by (rule disjunctive_add_eq_or [symmetric], rule bit_eqI) (auto simp: bit_simps bit_net_of)
  finally show ?thesis .
qed

lemma unat_mask32: "unat (mask k :: 32 word) = 2 ^ min 32 k - 1"
proof -
  have "(mask k :: 32 word) = of_nat (2 ^ min 32 k - 1)"
    by (rule bit_eqI) (simp add: bit_simps flip: mask_eq_exp_minus_1)
  moreover have "(2::nat) ^ min 32 k \<le> 2 ^ 32" by (rule power_increasing) simp_all
  ultimately have "unat (mask k :: 32 word) = (2 ^ min 32 k - 1) mod 2 ^ 32"
    by (simp only: unat_of_nat) simp
  also have "\<dots> = 2 ^ min 32 k - 1"
    using \<open>(2::nat) ^ min 32 k \<le> 2 ^ 32\<close> zero_less_power [of "2::nat" "min 32 k"]
    by (intro mod_less) linarith
  finally show ?thesis .
qed

lemma unat_last_address:
  "unat (last_address w b) = block b w * 2 ^ (32 - b) + (2 ^ (32 - b) - 1)"
proof -
  have "block b w * 2 ^ (32 - b) + 2 ^ (32 - b) \<le> 2 ^ 32"
  proof -
    have "block b w < 2 ^ min b 32"
      unfolding block_def using unat_w32_less [of w]
      by (intro less_mult_imp_div_less) (simp flip: power_add add: min_def)
    then have "(block b w + 1) * 2 ^ (32 - b) \<le> 2 ^ min b 32 * 2 ^ (32 - b)" by (intro mult_le_mono) auto
    also have "\<dots> = (2 :: nat) ^ 32" by (simp flip: power_add add: min_def)
    finally show ?thesis by simp
  qed
  then have "block b w * 2 ^ (32 - b) + (2 ^ (32 - b) - 1) < 2 ^ 32"
    using zero_less_power [of "2::nat" "32 - b"] by linarith
  then show ?thesis
    by (simp add: last_address_eq unat_word_ariths unat_net_of unat_mask32)
qed

lemma unat_last_address_eq: "net_of b w = w \<Longrightarrow> unat (last_address w b) = unat w + (2 ^ (32 - b) - 1)"
  using unat_net_of [of b w] by (simp add: unat_last_address)

text \<open>The accepted prefixes.\<close>

definition usable_net :: "32 word \<Rightarrow> nat \<Rightarrow> bool" where
  "usable_net w b \<longleftrightarrow> 8 \<le> b \<and> b \<le> 30 \<and> net_of b w = w \<and> v4_global_unicast w
     \<and> v4_global_unicast (last_address w b)"

theorem site_prefix_iff:
  "site_prefix raw = Inr p
     \<longleftrightarrow> (\<exists>w b. p = Prefix (V4 w) (int b) \<and> raw = v4_prefix_str w b \<and> usable_net w b)"
proof
  assume acc: "site_prefix raw = Inr p"
  then obtain w where p: "parse_prefix raw = Some p" "p_addr p = V4 w"
    by (auto simp: site_prefix_def Let_def split: option.splits addr.splits if_splits)
  define b where "b = nat (p_bits p)"
  have pb: "p = Prefix (V4 w) (p_bits p)" using p(2) by (cases p) simp
  with p(1) have b: "0 \<le> p_bits p" "p_bits p \<le> 32" "raw = v4_prefix_str w b"
    using parse_prefix_V4_iff [of raw w "p_bits p"] by (simp_all add: b_def)
  from acc p b have "8 \<le> b" "b \<le> 30" "v4_prefix_str (net_of b w) b = v4_prefix_str w b"
    "v4_global_unicast w" "v4_global_unicast (last_address w b)"
    by (auto simp: site_prefix_def Let_def b_def split: if_splits)
  then show "\<exists>w b. p = Prefix (V4 w) (int b) \<and> raw = v4_prefix_str w b \<and> usable_net w b"
    using pb b by (intro exI [of _ w] exI [of _ b]) (simp add: usable_net_def v4_prefix_str_inject b_def)
next
  assume "\<exists>w b. p = Prefix (V4 w) (int b) \<and> raw = v4_prefix_str w b \<and> usable_net w b"
  then show "site_prefix raw = Inr p"
    by (auto simp: site_prefix_def usable_net_def v4_global_unicast_def)
qed

lemma site_prefixE:
  assumes "site_prefix raw = Inr p"
  obtains w b where "p = Prefix (V4 w) (int b)" "raw = v4_prefix_str w b" "usable_net w b"
  using assms site_prefix_iff by blast

lemma site_prefix_of: "usable_net w b \<Longrightarrow> site_prefix (v4_prefix_str w b) = Inr (Prefix (V4 w) (int b))"
  using site_prefix_iff by blast

lemmas v4_text = v4_prefix_str_def v4_str_def octets_eq nat_str.simps digit_char_numerals

lemmas v4_classes = usable_net_def net_of_def last_address_def v4_global_unicast_def v4_unspecified_def
  v4_broadcast_def v4_loopback_def v4_multicast_def v4_link_local_def mask_eq_exp_minus_1

text \<open>Three prefixes in the text form of the configuration, for concrete inputs.\<close>

lemma site_prefix_samples [go_simps]:
  "site_prefix ''10.0.0.0/8'' = Inr (Prefix (V4 0x0A000000) 8)"
  "site_prefix ''10.1.0.0/24'' = Inr (Prefix (V4 0x0A010000) 24)"
  "site_prefix ''10.2.0.0/24'' = Inr (Prefix (V4 0x0A020000) 24)"
  using site_prefix_of [of "0x0A000000" 8] site_prefix_of [of "0x0A010000" 24] site_prefix_of [of "0x0A020000" 24]
  by (simp_all add: v4_text v4_classes)

text \<open>The accepted hosts lie strictly between the network address and the last address.\<close>

theorem site_host_iff:
  assumes "usable_net w b"
  shows "site_host raw (Prefix (V4 w) (int b)) = Inr a
     \<longleftrightarrow> (\<exists>x. a = V4 x \<and> raw = v4_str x \<and> unat w < unat x \<and> unat x < unat (last_address w b)
            \<and> v4_global_unicast x)"
proof -
  have net: "net_of b w = w" and b32: "b \<le> 32" using assms by (auto simp: usable_net_def)
  have last: "unat (last_address w b) = unat w + (2 ^ (32 - b) - 1)"
    using net by (rule unat_last_address_eq)
  have blk: "block b w * 2 ^ (32 - b) = unat w" using unat_net_of [of b w] net by simp
  have inside: "contains (Prefix (V4 w) (int b)) (V4 x) \<longleftrightarrow> unat w \<le> unat x \<and> unat x \<le> unat (last_address w b)" for x
  proof -
    have "0 < (2::nat) ^ (32 - b)" by simp
    then have "u < unat w + 2 ^ (32 - b) \<longleftrightarrow> u \<le> unat w + (2 ^ (32 - b) - 1)" for u by linarith
    then show ?thesis unfolding last by (simp add: contains_V4 block_range blk)
  qed
  have "site_host raw (Prefix (V4 w) (int b)) = Inr a
     \<longleftrightarrow> (\<exists>x. parse_addr raw = Some (V4 x) \<and> a = V4 x \<and> v4_str x = raw
           \<and> contains (Prefix (V4 w) (int b)) (V4 x) \<and> x \<noteq> w \<and> x \<noteq> last_address w b \<and> v4_global_unicast x)"
    by (auto simp: site_host_def split: option.splits addr.splits if_splits)
  also have "\<dots> \<longleftrightarrow> (\<exists>x. a = V4 x \<and> raw = v4_str x \<and> unat w < unat x \<and> unat x < unat (last_address w b)
            \<and> v4_global_unicast x)"
    unfolding parse_addr_V4_iff inside word_unat_eq_iff by (intro ex_cong1) auto
  finally show ?thesis .
qed

section \<open>What a validated registration guarantees\<close>

text \<open>Prefixes no two of which overlap.\<close>

definition pairwise_disjoint :: "prefix list \<Rightarrow> bool" where
  "pairwise_disjoint = sorted_wrt (\<lambda>p q. \<not> overlaps p q)"

lemma pairwise_disjoint_snoc [simp]:
  "pairwise_disjoint (ps @ [p]) \<longleftrightarrow> pairwise_disjoint ps \<and> \<not> list_ex (overlaps p) ps"
  by (auto simp: pairwise_disjoint_def sorted_wrt_append list_ex_iff overlaps_sym)

lemma pairwise_disjoint_Nil [simp]: "pairwise_disjoint []"
  and pairwise_disjoint_single [simp]: "pairwise_disjoint [p]"
  by (simp_all add: pairwise_disjoint_def)

lemma delegated_sound:
  assumes "foldr_res check_delegated [t] raws = Inr seen"
  shows "\<exists>ps. seen = t # ps \<and> list_all2 (\<lambda>raw p. site_prefix raw = Inr p) raws ps \<and> pairwise_disjoint (t # ps)"
proof (rule foldr_res_invariant [OF assms, where I = "\<lambda>done seen.
    \<exists>ps. seen = t # ps \<and> list_all2 (\<lambda>raw p. site_prefix raw = Inr p) done ps \<and> pairwise_disjoint (t # ps)"])
  fix "done" raw seen seen'
  assume "\<exists>ps. seen = t # ps \<and> list_all2 (\<lambda>raw p. site_prefix raw = Inr p) done ps \<and> pairwise_disjoint (t # ps)"
    and step: "check_delegated seen raw = Inr seen'"
  then obtain ps where ps: "seen = t # ps" "list_all2 (\<lambda>raw p. site_prefix raw = Inr p) done ps"
    "pairwise_disjoint (t # ps)" by blast
  from step ps(1) obtain p where p: "site_prefix raw = Inr p" "\<not> list_ex (overlaps p) (t # ps)"
    "seen' = t # ps @ [p]" by (auto simp: check_delegated_def)
  have "pairwise_disjoint ((t # ps) @ [p])" using ps(3) p(2) by (subst pairwise_disjoint_snoc) simp
  with ps p show "\<exists>ps. seen' = t # ps \<and> list_all2 (\<lambda>raw p. site_prefix raw = Inr p) (done @ [raw]) ps
      \<and> pairwise_disjoint (t # ps)"
    by (intro exI [of _ "ps @ [p]"]) (simp add: list_all2_appendI)
qed simp

lemma members_sound:
  assumes "foldr_res (check_member L transit) ([], [router]) gs = Inr st"
  shows "distinct (map gw_id gs) \<and> distinct (router # map gw_ip gs)
    \<and> (\<forall>g\<in>set gs. dns1123_label L (gw_id g) \<and> is_ok (site_host (gw_ip g) transit))"
proof -
  have "st = (rev (map gw_id gs), rev (map gw_ip gs) @ [router])
     \<and> distinct (map gw_id gs) \<and> distinct (router # map gw_ip gs)
     \<and> (\<forall>g\<in>set gs. dns1123_label L (gw_id g) \<and> is_ok (site_host (gw_ip g) transit))"
    by (rule foldr_res_invariant [OF assms, where I = "\<lambda>done st.
        st = (rev (map gw_id done), rev (map gw_ip done) @ [router])
        \<and> distinct (map gw_id done) \<and> distinct (router # map gw_ip done)
        \<and> (\<forall>g\<in>set done. dns1123_label L (gw_id g) \<and> is_ok (site_host (gw_ip g) transit))"])
      (auto simp: check_member_def split: if_splits)
  then show ?thesis by blast
qed

text \<open>The contract of a grant: usable transit, a router and gateways on distinct hosts of it,
  delegated prefixes disjoint from it and from each other.\<close>

definition grant_ok :: "k8s_lib \<Rightarrow> grant \<Rightarrow> bool" where
  "grant_ok L g \<longleftrightarrow> (\<exists>w b ps. usable_net w b \<and> gr_transit_cidr g = v4_prefix_str w b
     \<and> is_ok (site_host (gr_router_ip g) (Prefix (V4 w) (int b)))
     \<and> gr_delegated_prefixes g \<noteq> []
     \<and> list_all2 (\<lambda>raw p. site_prefix raw = Inr p) (gr_delegated_prefixes g) ps
     \<and> pairwise_disjoint (Prefix (V4 w) (int b) # ps)
     \<and> (if gr_gateways g = []
        then gr_bfd g = None \<and> is_ok (site_host (gr_gateway_ip g) (Prefix (V4 w) (int b)))
             \<and> gr_gateway_ip g \<noteq> gr_router_ip g
        else gr_gateway_ip g = [] \<and> 2 \<le> length (gr_gateways g) \<and> length (gr_gateways g) \<le> 8
             \<and> distinct (map gw_id (gr_gateways g)) \<and> distinct (gr_router_ip g # map gw_ip (gr_gateways g))
             \<and> (\<forall>m\<in>set (gr_gateways g). is_ok (site_host (gw_ip m) (Prefix (V4 w) (int b))))
             \<and> (\<exists>bfd. gr_bfd g = Some bfd \<and> bfd_source_ok (bfd_source_ip bfd)
                  \<and> (\<forall>a. parse_addr (bfd_source_ip bfd) = Some a \<longrightarrow>
                       (\<forall>p\<in>set (Prefix (V4 w) (int b) # ps). \<not> contains p a)))))"

lemma is_ok_Inr [simp]: "is_ok (Inr x)" and is_ok_Inl [simp]: "\<not> is_ok (Inl e)"
  by (simp_all add: is_ok_def)

lemma validate_grant_sound:
  assumes "validate_grant L c ids g = Inr ids'"
  shows "grant_ok L g \<and> ids' = gr_global_vpc_id g # ids \<and> gr_global_vpc_id g \<notin> set ids"
proof -
  from assms obtain transit seen a where v: "site_prefix (gr_transit_cidr g) = Inr transit"
    "site_host (gr_router_ip g) transit = Inr a" "validate_gateways L g transit = Inr ()"
    "gr_delegated_prefixes g \<noteq> []"
    "foldr_res check_delegated [transit] (gr_delegated_prefixes g) = Inr seen"
    "check_bfd_outside seen g = Inr ()"
    and ids: "ids' = gr_global_vpc_id g # ids" "gr_global_vpc_id g \<notin> set ids"
    by (auto simp: validate_grant_def)
  from v(1) obtain w b where t: "transit = Prefix (V4 w) (int b)" "gr_transit_cidr g = v4_prefix_str w b"
    "usable_net w b" by (rule site_prefixE)
  from delegated_sound [OF v(5)] obtain ps where ps: "seen = transit # ps"
    "list_all2 (\<lambda>raw p. site_prefix raw = Inr p) (gr_delegated_prefixes g) ps"
    "pairwise_disjoint (transit # ps)" by blast
  have gws: "if gr_gateways g = []
        then gr_bfd g = None \<and> is_ok (site_host (gr_gateway_ip g) transit) \<and> gr_gateway_ip g \<noteq> gr_router_ip g
        else gr_gateway_ip g = [] \<and> 2 \<le> length (gr_gateways g) \<and> length (gr_gateways g) \<le> 8
             \<and> distinct (map gw_id (gr_gateways g)) \<and> distinct (gr_router_ip g # map gw_ip (gr_gateways g))
             \<and> (\<forall>m\<in>set (gr_gateways g). is_ok (site_host (gw_ip m) transit))
             \<and> (\<exists>bfd. gr_bfd g = Some bfd \<and> bfd_source_ok (bfd_source_ip bfd))"
    using v(3) by (auto simp: validate_gateways_def split: if_splits option.splits dest!: members_sound)
  have outside: "\<forall>bfd. gr_bfd g = Some bfd \<longrightarrow>
      (\<forall>a. parse_addr (bfd_source_ip bfd) = Some a \<longrightarrow> (\<forall>p\<in>set seen. \<not> contains p a))"
    using v(6) by (auto simp: check_bfd_outside_def list_ex_iff)
  have "grant_ok L g" unfolding grant_ok_def
    by (rule exI [of _ w], rule exI [of _ b], rule exI [of _ ps])
      (use gws outside v t ps in \<open>auto split: if_splits\<close>)
  with ids show ?thesis by blast
qed

theorem site_validate_sound:
  assumes "site_validate L c = Inr ()"
  shows "sc_grants c \<noteq> [] \<and> distinct (map gr_global_vpc_id (sc_grants c)) \<and> (\<forall>g\<in>set (sc_grants c). grant_ok L g)"
proof -
  from assms obtain ids where f: "foldr_res (validate_grant L c) [] (sc_grants c) = Inr ids"
    and "sc_grants c \<noteq> []" by (auto simp: site_validate_def)
  have "ids = rev (map gr_global_vpc_id (sc_grants c)) \<and> distinct (map gr_global_vpc_id (sc_grants c))
      \<and> (\<forall>g\<in>set (sc_grants c). grant_ok L g)"
    by (rule foldr_res_invariant [OF f, where I = "\<lambda>done ids. ids = rev (map gr_global_vpc_id done)
        \<and> distinct (map gr_global_vpc_id done) \<and> (\<forall>g\<in>set done. grant_ok L g)"])
      (auto dest!: validate_grant_sound)
  with \<open>sc_grants c \<noteq> []\<close> show ?thesis by blast
qed

end
