(* ===== verification/Local_Config.thy ===== *)
theory Local_Config
  imports Site_Config
begin

text \<open>
  \<open>internal/localconfig\<close>: the installation settings of one site operator and their validation.
  \<open>Load\<close> is input/output and is left out. Go's \<open>int\<close> fields are integers; the only arithmetic on
  them, \<open>1 << (32 - length) - 3\<close>, is evaluated after the length was checked to be between 16 and
  29 and does not overflow.
\<close>

record local_config =
  lc_location_ref :: string
  lc_cluster_uid :: string
  lc_namespace :: string
  lc_authority_namespace :: string
  lc_authority_kubeconfig :: string
  lc_gateway_node_selector :: "string smap"
  lc_endpoint_annotation :: string
  lc_transit_pool :: string
  lc_transit_prefix_length :: int
  lc_bfd_source_pool :: string
  lc_gateway_replicas :: int
  lc_gateway_image :: string
  lc_mtu :: int
  lc_control_pool :: string
  lc_port_start :: int
  lc_port_end :: int
  lc_runtime_dir :: string

definition check_reserved_ports :: "local_config \<Rightarrow> unit res" where
  "check_reserved_ports c = each_res (\<lambda>port. guard (\<not> (lc_port_start c \<le> port \<and> port \<le> lc_port_end c))
     ''WireGuard port range overlaps reserved native transport ports'') [4788, 4789, 6081, 6082]"

definition local_validate :: "k8s_lib \<Rightarrow> local_config \<Rightarrow> unit res" where
  "local_validate L c =
     rbind (each_res (\<lambda>s. guard (dns1123_label L s) ''local identity and namespaces must be DNS labels'')
       [lc_location_ref c, lc_namespace c, lc_authority_namespace c]) (\<lambda>_.
     rbind (guard (lc_cluster_uid c \<noteq> [] \<and> lc_authority_kubeconfig c \<noteq> [])
       ''cluster UID and authority kubeconfig reference are required'') (\<lambda>_.
     rbind (wrap ''transit pool'' (site_prefix (lc_transit_pool c))) (\<lambda>transit.
     rbind (wrap ''BFD source pool'' (site_prefix (lc_bfd_source_pool c))) (\<lambda>bfd.
     rbind (guard (\<not> overlaps transit bfd) ''transit and BFD pools must not overlap'') (\<lambda>_.
     rbind (wrap ''control pool'' (site_prefix (lc_control_pool c))) (\<lambda>control.
     rbind (guard (\<not> overlaps control transit \<and> \<not> overlaps control bfd)
       ''control, transit and BFD pools must not overlap'') (\<lambda>_.
     rbind (guard (1024 \<le> lc_port_start c \<and> lc_port_end c \<le> 65535 \<and> lc_port_start c \<le> lc_port_end c
              \<and> lc_runtime_dir c \<noteq> [])
       ''reserved WireGuard port range and runtime directory are required'') (\<lambda>_.
     rbind (check_reserved_ports c) (\<lambda>_.
     rbind (guard (p_bits transit \<le> lc_transit_prefix_length c \<and> lc_transit_prefix_length c \<le> 29
              \<and> 16 \<le> lc_transit_prefix_length c)
       ''transit prefix length must fit pool and provide usable gateway addresses'') (\<lambda>_.
     rbind (guard (2 \<le> lc_gateway_replicas c \<and> lc_gateway_replicas c \<le> 64
              \<and> lc_gateway_replicas c \<le> 2 ^ nat (32 - lc_transit_prefix_length c) - 3)
       ''require 2 through 64 gateways and sufficient transit addresses'') (\<lambda>_.
     rbind (guard (lc_gateway_node_selector c \<noteq> [] \<and> lc_gateway_image c \<noteq> [] \<and> 1280 \<le> lc_mtu c \<and> lc_mtu c \<le> 1400)
       ''gateway selector, image and MTU 1280 through 1400 are required'') (\<lambda>_.
     rbind (each_res (\<lambda>(k, v). guard (qualified_name L k \<and> label_value L v) ''invalid gateway node selector'')
       (lc_gateway_node_selector c)) (\<lambda>_.
     guard (lc_endpoint_annotation c = [] \<or> qualified_name L (lc_endpoint_annotation c))
       ''invalid endpoint annotation'')))))))))))))"

section \<open>Properties\<close>

theorem local_validate_sound:
  assumes "local_validate L c = Inr ()"
  shows "\<exists>tw tb bw bb cw cb.
      lc_transit_pool c = v4_prefix_str tw tb \<and> usable_net tw tb
    \<and> lc_bfd_source_pool c = v4_prefix_str bw bb \<and> usable_net bw bb
    \<and> lc_control_pool c = v4_prefix_str cw cb \<and> usable_net cw cb
    \<and> pairwise_disjoint [Prefix (V4 tw) (int tb), Prefix (V4 bw) (int bb), Prefix (V4 cw) (int cb)]
    \<and> int tb \<le> lc_transit_prefix_length c \<and> 16 \<le> lc_transit_prefix_length c \<and> lc_transit_prefix_length c \<le> 29
    \<and> 1024 \<le> lc_port_start c \<and> lc_port_start c \<le> lc_port_end c \<and> lc_port_end c \<le> 65535
    \<and> (\<forall>port\<in>{4788, 4789, 6081, 6082}. \<not> (lc_port_start c \<le> port \<and> port \<le> lc_port_end c))
    \<and> 2 \<le> lc_gateway_replicas c \<and> lc_gateway_replicas c \<le> 2 ^ nat (32 - lc_transit_prefix_length c) - 3"
proof -
  from assms obtain t b k where p: "site_prefix (lc_transit_pool c) = Inr t"
    "site_prefix (lc_bfd_source_pool c) = Inr b" "site_prefix (lc_control_pool c) = Inr k"
    and d: "\<not> overlaps t b" "\<not> overlaps k t" "\<not> overlaps k b"
    and n: "p_bits t \<le> lc_transit_prefix_length c" "16 \<le> lc_transit_prefix_length c"
      "lc_transit_prefix_length c \<le> 29" "1024 \<le> lc_port_start c" "lc_port_start c \<le> lc_port_end c"
      "lc_port_end c \<le> 65535" "2 \<le> lc_gateway_replicas c"
      "lc_gateway_replicas c \<le> 2 ^ nat (32 - lc_transit_prefix_length c) - 3"
    and ports: "check_reserved_ports c = Inr ()"
    by (auto simp: local_validate_def)
  from p(1) obtain tw tb where t: "t = Prefix (V4 tw) (int tb)" "lc_transit_pool c = v4_prefix_str tw tb"
    "usable_net tw tb" by (rule site_prefixE)
  from p(2) obtain bw bb where b: "b = Prefix (V4 bw) (int bb)" "lc_bfd_source_pool c = v4_prefix_str bw bb"
    "usable_net bw bb" by (rule site_prefixE)
  from p(3) obtain cw cb where k: "k = Prefix (V4 cw) (int cb)" "lc_control_pool c = v4_prefix_str cw cb"
    "usable_net cw cb" by (rule site_prefixE)
  have "pairwise_disjoint [t, b, k]" using d by (simp add: pairwise_disjoint_def overlaps_sym)
  moreover have "\<forall>port\<in>{4788, 4789, 6081, 6082}. \<not> (lc_port_start c \<le> port \<and> port \<le> lc_port_end c)"
    using ports by (simp add: check_reserved_ports_def)
  ultimately show ?thesis using t b k n
    by (intro exI [of _ tw] exI [of _ tb] exI [of _ bw] exI [of _ bb] exI [of _ cw] exI [of _ cb]) simp
qed

end
