(* ===== verification/Api_Prog.thy ===== *)
theory Api_Prog
  imports Go_Base
begin

text \<open>
  Code that talks to an API server. The server, its client library and everything else that
  writes to it are not part of the program, so a controller is modelled as the tree of its calls:
  at each call it issues a request and goes on with whatever answer comes back. A statement about
  every branch of the tree is a statement about every behaviour of the server, of the network and
  of concurrent writers: lost answers, conflicts, stale reads and errors are all answers.
  \<open>replay\<close> runs a tree on a list of answers. The predicate \<open>always\<close> is the weakest
  precondition of a controller: its guard holds of every request at the history in which it is
  issued, and its postcondition of every result.
\<close>

section \<open>Call trees\<close>

datatype ('q, 'r, 'a) prog = Ret 'a | Call 'q "'r \<Rightarrow> ('q, 'r, 'a) prog"

primrec pbind :: "('q, 'r, 'a) prog \<Rightarrow> ('a \<Rightarrow> ('q, 'r, 'b) prog) \<Rightarrow> ('q, 'r, 'b) prog" where
  "pbind (Ret a) f = f a"
| "pbind (Call q k) f = Call q (\<lambda>r. pbind (k r) f)"

text \<open>
  Code that can leave early: \<open>Inl\<close> is the value of a \<open>return\<close> statement (an error, or the result
  of the whole handler), \<open>Inr\<close> the value with which the code goes on.
\<close>

definition ebind :: "('q, 'r, 'e + 'a) prog \<Rightarrow> ('a \<Rightarrow> ('q, 'r, 'e + 'b) prog) \<Rightarrow> ('q, 'r, 'e + 'b) prog" where
  "ebind p f = pbind p (\<lambda>x. case x of Inl e \<Rightarrow> Ret (Inl e) | Inr a \<Rightarrow> f a)"

abbreviation go :: "'a \<Rightarrow> ('q, 'r, 'e + 'a) prog" where
  "go a \<equiv> Ret (Inr a)"

abbreviation leave :: "'e \<Rightarrow> ('q, 'r, 'e + 'a) prog" where
  "leave e \<equiv> Ret (Inl e)"

text \<open>A \<open>for\<close> loop over a slice whose body may return from the enclosing function.\<close>

primrec efold :: "('s \<Rightarrow> 'a \<Rightarrow> ('q, 'r, 'e + 's) prog) \<Rightarrow> 's \<Rightarrow> 'a list \<Rightarrow> ('q, 'r, 'e + 's) prog" where
  "efold f s [] = go s"
| "efold f s (x # xs) = ebind (f s x) (\<lambda>s'. efold f s' xs)"

text \<open>The value or error of a pure function, inside code that can leave early.\<close>

definition lift_res :: "('x \<Rightarrow> 'e) \<Rightarrow> 'x + 'a \<Rightarrow> ('q, 'r, 'e + 'a) prog" where
  "lift_res g m = Ret (case m of Inl x \<Rightarrow> Inl (g x) | Inr a \<Rightarrow> Inr a)"

section \<open>Running a tree on given answers\<close>

text \<open>The requests issued, and the result with the answers left over; no result when the answers
  run out, as when the process stops.\<close>

primrec replay :: "('q, 'r, 'a) prog \<Rightarrow> 'r list \<Rightarrow> 'q list \<times> ('a \<times> 'r list) option" where
  "replay (Ret a) = (\<lambda>rs. ([], Some (a, rs)))"
| "replay (Call q k) = (\<lambda>rs. case rs of
      [] \<Rightarrow> ([q], None)
    | r # rs' \<Rightarrow> (case replay (k r) rs' of (qs, res) \<Rightarrow> (q # qs, res)))"

text \<open>The same, with the answer beside each request that got one.\<close>

primrec history :: "('q, 'r, 'a) prog \<Rightarrow> 'r list \<Rightarrow> ('q \<times> 'r) list" where
  "history (Ret a) = (\<lambda>rs. [])"
| "history (Call q k) = (\<lambda>rs. case rs of [] \<Rightarrow> [] | r # rs' \<Rightarrow> (q, r) # history (k r) rs')"

lemma replay_pbind: "replay (pbind p f) rs = (case replay p rs of
      (qs, None) \<Rightarrow> (qs, None)
    | (qs, Some (a, rs')) \<Rightarrow> (qs @ fst (replay (f a) rs'), snd (replay (f a) rs')))"
  by (induction p arbitrary: rs) (auto split: list.splits prod.splits option.splits)

lemma replay_ebind: "replay (ebind p f) rs = (case replay p rs of
      (qs, None) \<Rightarrow> (qs, None)
    | (qs, Some (Inl e, rs')) \<Rightarrow> (qs, Some (Inl e, rs'))
    | (qs, Some (Inr a, rs')) \<Rightarrow> (qs @ fst (replay (f a) rs'), snd (replay (f a) rs')))"
  by (auto simp: ebind_def replay_pbind split: prod.splits option.splits sum.splits)

text \<open>A complete run leaves the answers that come after those it needs.\<close>

lemma replay_append: "snd (replay p rs) = Some (a, rest) \<Longrightarrow> replay p (rs @ xs) = (fst (replay p rs), Some (a, rest @ xs))"
  by (induction p arbitrary: rs) (auto split: list.splits prod.splits)

section \<open>What holds in every run\<close>

primrec always :: "(('q \<times> 'r) list \<Rightarrow> 'q \<Rightarrow> bool) \<Rightarrow> ('q, 'r, 'a) prog
    \<Rightarrow> (('q \<times> 'r) list \<Rightarrow> 'a \<Rightarrow> bool) \<Rightarrow> ('q \<times> 'r) list \<Rightarrow> bool" where
  "always G (Ret a) Q = (\<lambda>h. Q h a)"
| "always G (Call q k) Q = (\<lambda>h. G h q \<and> (\<forall>r. always G (k r) Q (h @ [(q, r)])))"

lemma always_pbind [simp]: "always G (pbind p f) Q h \<longleftrightarrow> always G p (\<lambda>h a. always G (f a) Q h) h"
  by (induction p arbitrary: h) simp_all

lemma always_ebind [simp]:
  "always G (ebind p f) Q h
     \<longleftrightarrow> always G p (\<lambda>h x. case x of Inl e \<Rightarrow> Q h (Inl e) | Inr a \<Rightarrow> always G (f a) Q h) h"
  by (simp add: ebind_def sum.case_distrib [of "\<lambda>p. always G p Q _"] cong: sum.case_cong)

lemma always_mono:
  assumes "always G p Q h"
    and "\<And>h q. G h q \<Longrightarrow> G' h q" and "\<And>h a. Q h a \<Longrightarrow> Q' h a"
  shows "always G' p Q' h"
  using assms(1) by (induction p arbitrary: h) (use assms(2,3) in auto)

lemma always_conj:
  "always G p Q h \<Longrightarrow> always G' p Q' h \<Longrightarrow> always (\<lambda>h q. G h q \<and> G' h q) p (\<lambda>h a. Q h a \<and> Q' h a) h"
  by (induction p arbitrary: h) simp_all

lemma always_lift_res [simp]:
  "always G (lift_res g m) Q h \<longleftrightarrow> Q h (case m of Inl x \<Rightarrow> Inl (g x) | Inr a \<Rightarrow> Inr a)"
  by (simp add: lift_res_def)

lemma ebind_simps [simp]: "ebind (leave e) f = leave e" "ebind (go a) f = f a"
  by (simp_all add: ebind_def)

lemma ebind_lift_res: "ebind (lift_res g m) f = (case m of Inl x \<Rightarrow> leave (g x) | Inr a \<Rightarrow> f a)"
  by (simp add: lift_res_def split: sum.split)

text \<open>The loop rule: an invariant of the accumulator, the visited elements and the history.\<close>

lemma always_efold:
  assumes "I [] s h"
    and step: "\<And>done x todo s h. xs = done @ x # todo \<Longrightarrow> I done s h \<Longrightarrow>
        always G (f s x) (\<lambda>h y. case y of Inl e \<Rightarrow> Q h (Inl e) | Inr s' \<Rightarrow> I (done @ [x]) s' h) h"
    and final: "\<And>s h. I xs s h \<Longrightarrow> Q h (Inr s)"
  shows "always G (efold f s xs) Q h"
proof -
  have "xs = zs @ ys \<Longrightarrow> I zs s h \<Longrightarrow> always G (efold f s ys) Q h" for ys zs s h
  proof (induction ys arbitrary: zs s h)
    case Nil
    then show ?case by (simp add: final)
  next
    case (Cons y ys)
    have "always G (f s y) (\<lambda>h x. case x of Inl e \<Rightarrow> Q h (Inl e) | Inr s' \<Rightarrow> I (zs @ [y]) s' h) h"
      using Cons.prems by (rule step)
    then show ?case
      using Cons.prems(1)
      by (simp, elim always_mono) (auto split: sum.splits intro: Cons.IH [of "zs @ [y]"])
  qed
  from this [of "[]" xs s h] assms(1) show ?thesis by simp
qed

text \<open>Soundness: what \<open>always\<close> says holds of every replay.\<close>

lemma always_replay:
  assumes "always G p Q h"
  shows "(\<forall>i < length (fst (replay p rs)). G (h @ take i (history p rs)) (fst (replay p rs) ! i))
    \<and> (\<forall>a rs'. snd (replay p rs) = Some (a, rs') \<longrightarrow> Q (h @ history p rs) a)"
  using assms
proof (induction p arbitrary: rs h)
  case (Ret a)
  then show ?case by simp
next
  case (Call q k)
  show ?case
  proof (cases rs)
    case Nil
    with Call.prems show ?thesis by simp
  next
    case (Cons r rs')
    obtain qs res where p: "replay (k r) rs' = (qs, res)" by fastforce
    from Call.prems have "always G (k r) Q (h @ [(q, r)])" by simp
    from Call.IH [OF rangeI this, of rs'] p
    have IH: "\<forall>i < length qs. G (h @ (q, r) # take i (history (k r) rs')) (qs ! i)"
      "\<forall>a rs''. res = Some (a, rs'') \<longrightarrow> Q (h @ (q, r) # history (k r) rs') a" by simp_all
    have "G (h @ take i ((q, r) # history (k r) rs')) ((q # qs) ! i)" if "i < Suc (length qs)" for i
      using that IH(1) Call.prems by (cases i) auto
    with IH(2) Cons p show ?thesis by simp
  qed
qed

text \<open>The form most statements use: a guard that does not look at the history.\<close>

definition every_request :: "('q \<Rightarrow> bool) \<Rightarrow> ('q, 'r, 'a) prog \<Rightarrow> bool" where
  "every_request G p \<longleftrightarrow> (\<forall>rs. \<forall>q\<in>set (fst (replay p rs)). G q)"

definition every_result :: "('a \<Rightarrow> bool) \<Rightarrow> ('q, 'r, 'a) prog \<Rightarrow> bool" where
  "every_result Q p \<longleftrightarrow> (\<forall>rs a rs'. snd (replay p rs) = Some (a, rs') \<longrightarrow> Q a)"

text \<open>The request at each point of a run, against the history before it.\<close>

definition every_step :: "(('q \<times> 'r) list \<Rightarrow> 'q \<Rightarrow> bool) \<Rightarrow> ('q, 'r, 'a) prog \<Rightarrow> bool" where
  "every_step G p \<longleftrightarrow> (\<forall>rs. \<forall>i < length (fst (replay p rs)). G (take i (history p rs)) (fst (replay p rs) ! i))"

lemma every_stepI:
  assumes "always G p Q []"
  shows "every_step G p"
  unfolding every_step_def using always_replay [OF assms] by simp

lemma every_requestI:
  assumes "always (\<lambda>h q. G q) p (\<lambda>h a. True) []"
  shows "every_request G p"
  unfolding every_request_def
  using always_replay [OF assms] by (fastforce simp: in_set_conv_nth)

lemma every_resultI:
  assumes "always (\<lambda>h q. True) p (\<lambda>h a. Q a) []"
  shows "every_result Q p"
  unfolding every_result_def using always_replay [OF assms] by blast

text \<open>The result of every complete run, against the history that led to it.\<close>

definition every_outcome :: "(('q \<times> 'r) list \<Rightarrow> 'a \<Rightarrow> bool) \<Rightarrow> ('q, 'r, 'a) prog \<Rightarrow> bool" where
  "every_outcome Q p \<longleftrightarrow> (\<forall>rs a rs'. snd (replay p rs) = Some (a, rs') \<longrightarrow> Q (history p rs) a)"

lemma every_outcomeI:
  assumes "always G p Q []"
  shows "every_outcome Q p"
  unfolding every_outcome_def using always_replay [OF assms] by simp

section \<open>Histories only grow\<close>

definition grows :: "'x list \<Rightarrow> 'x list \<Rightarrow> bool" where
  "grows h h' \<longleftrightarrow> set h \<subseteq> set h'"

lemma grows_refl [simp]: "grows h h" and grows_append [simp]: "grows h (h @ t)"
  by (auto simp: grows_def)

lemma grows_snocD [dest]: "grows (h @ [e]) h' \<Longrightarrow> grows h h'"
  by (simp add: grows_def)

lemma grows_trans [intro, trans]: "grows h h' \<Longrightarrow> grows h' h'' \<Longrightarrow> grows h h''"
  by (simp add: grows_def)

lemma grows_in: "grows h h' \<Longrightarrow> e \<in> set h \<Longrightarrow> e \<in> set h'"
  by (auto simp: grows_def)

end
