(* ===== verification/Kube_Client.thy ===== *)
theory Kube_Client
  imports Api_Prog Kube_Meta
begin

text \<open>
  The Kubernetes client as the controllers use it (\<open>client.Client\<close> of controller-runtime and the
  predicates of \<open>apierrors\<close>): requests, answers and the typed calls. The server is not modelled:
  an answer is whatever comes back. \<open>'o\<close> is the type of the objects a controller handles, and a
  call names the projection to the Go type it decodes into; an answer of another type is a
  decoding error. \<open>Create\<close> and \<open>Update\<close> decode the server's answer into the object that was sent,
  so the typed calls return the object the code goes on with.
\<close>

section \<open>Errors and outcomes\<close>

datatype err = Errorf string | NotFound string | AlreadyExists string | Conflict string | OtherApi string

fun err_text :: "err \<Rightarrow> string" where
  "err_text (Errorf s) = s"
| "err_text (NotFound s) = s"
| "err_text (AlreadyExists s) = s"
| "err_text (Conflict s) = s"
| "err_text (OtherApi s) = s"

fun is_not_found :: "err \<Rightarrow> bool" where
  "is_not_found (NotFound s) = True"
| "is_not_found e = False"

fun is_already_exists :: "err \<Rightarrow> bool" where
  "is_already_exists (AlreadyExists s) = True"
| "is_already_exists e = False"

text \<open>\<open>(ctrl.Result, error)\<close>: the requeue delay in nanoseconds and the error.\<close>

record outcome =
  requeue_after :: int
  out_error :: "err option"

definition failed :: "err \<Rightarrow> outcome" where
  "failed e = \<lparr>requeue_after = 0, out_error = Some e\<rparr>"

definition finished :: outcome where
  "finished = \<lparr>requeue_after = 0, out_error = None\<rparr>"

section \<open>Requests\<close>

text \<open>\<open>List\<close> carries the namespace and the labels of its options; \<open>Delete\<close> the UID and the
  resource version of its preconditions.\<close>

datatype 'o kreq =
    Get string string string
  | List string "string option" "string smap"
  | Create 'o
  | Update 'o
  | UpdateStatus 'o
  | Delete 'o "string option" "string option"

datatype 'o kresp = Failed err | Obj 'o | Items "'o list" | Done

type_synonym ('o, 'a) kprog = "('o kreq, 'o kresp, 'a) prog"

definition decode_error :: err where
  "decode_error = OtherApi ''no kind match''"

definition kget :: "('o \<Rightarrow> 'a option) \<Rightarrow> string \<Rightarrow> string \<Rightarrow> string \<Rightarrow> ('o, err + 'a) kprog" where
  "kget prj kind ns name = Call (Get kind ns name) (\<lambda>r. Ret (case r of
      Failed e \<Rightarrow> Inl e
    | Obj x \<Rightarrow> (case prj x of None \<Rightarrow> Inl decode_error | Some a \<Rightarrow> Inr a)
    | _ \<Rightarrow> Inl decode_error))"

definition klist :: "('o \<Rightarrow> 'a option) \<Rightarrow> string \<Rightarrow> string option \<Rightarrow> string smap \<Rightarrow> ('o, err + 'a list) kprog" where
  "klist prj kind ns labels = Call (List kind ns labels) (\<lambda>r. Ret (case r of
      Failed e \<Rightarrow> Inl e
    | Items xs \<Rightarrow> (if list_all (\<lambda>x. prj x \<noteq> None) xs then Inr (List.map_filter prj xs) else Inl decode_error)
    | _ \<Rightarrow> Inl decode_error))"

definition kwrite :: "('o \<Rightarrow> 'a option) \<Rightarrow> 'o kreq \<Rightarrow> ('o, err + 'a) kprog" where
  "kwrite prj q = Call q (\<lambda>r. Ret (case r of
      Failed e \<Rightarrow> Inl e
    | Obj x \<Rightarrow> (case prj x of None \<Rightarrow> Inl decode_error | Some a \<Rightarrow> Inr a)
    | _ \<Rightarrow> Inl decode_error))"

text \<open>A write whose answer the code does not look at: only the error matters.\<close>

definition kdo :: "'o kreq \<Rightarrow> ('o, err + unit) kprog" where
  "kdo q = Call q (\<lambda>r. Ret (case r of Failed e \<Rightarrow> Inl e | _ \<Rightarrow> Inr ()))"

text \<open>\<open>return result, r.Update(...)\<close> and its variants.\<close>

definition return_after :: "int \<Rightarrow> ('o, err + unit) kprog \<Rightarrow> ('o, outcome + 'a) kprog" where
  "return_after d p = pbind p (\<lambda>x. leave \<lparr>requeue_after = d,
      out_error = (case x of Inl e \<Rightarrow> Some e | Inr _ \<Rightarrow> None)\<rparr>)"

text \<open>\<open>if err != nil { return ctrl.Result{}, err }\<close>.\<close>

definition or_fail :: "('o, err + 'a) kprog \<Rightarrow> ('o, outcome + 'a) kprog" where
  "or_fail p = pbind p (\<lambda>x. Ret (case x of Inl e \<Rightarrow> Inl (failed e) | Inr a \<Rightarrow> Inr a))"

section \<open>What a call may be followed by\<close>

lemma always_kget [simp]: "always G (kget prj kind ns name) Q h \<longleftrightarrow> G h (Get kind ns name) \<and>
    (\<forall>r. Q (h @ [(Get kind ns name, r)]) (case r of Failed e \<Rightarrow> Inl e
      | Obj x \<Rightarrow> (case prj x of None \<Rightarrow> Inl decode_error | Some a \<Rightarrow> Inr a) | _ \<Rightarrow> Inl decode_error))"
  by (simp add: kget_def)

lemma always_klist [simp]: "always G (klist prj kind ns labels) Q h \<longleftrightarrow> G h (List kind ns labels) \<and>
    (\<forall>r. Q (h @ [(List kind ns labels, r)]) (case r of Failed e \<Rightarrow> Inl e
      | Items xs \<Rightarrow> (if list_all (\<lambda>x. prj x \<noteq> None) xs then Inr (List.map_filter prj xs) else Inl decode_error)
      | _ \<Rightarrow> Inl decode_error))"
  by (simp add: klist_def)

lemma always_kwrite [simp]: "always G (kwrite prj q) Q h \<longleftrightarrow> G h q \<and>
    (\<forall>r. Q (h @ [(q, r)]) (case r of Failed e \<Rightarrow> Inl e
      | Obj x \<Rightarrow> (case prj x of None \<Rightarrow> Inl decode_error | Some a \<Rightarrow> Inr a) | _ \<Rightarrow> Inl decode_error))"
  by (simp add: kwrite_def)

lemma always_kdo [simp]: "always G (kdo q) Q h \<longleftrightarrow> G h q \<and>
    (\<forall>r. Q (h @ [(q, r)]) (case r of Failed e \<Rightarrow> Inl e | _ \<Rightarrow> Inr ()))"
  by (simp add: kdo_def)

lemma always_return_after [simp]: "always G (return_after d p) Q h \<longleftrightarrow>
    always G p (\<lambda>h x. Q h (Inl \<lparr>requeue_after = d, out_error = (case x of Inl e \<Rightarrow> Some e | Inr _ \<Rightarrow> None)\<rparr>)) h"
  by (simp add: return_after_def)

lemma always_or_fail [simp]: "always G (or_fail p) Q h \<longleftrightarrow>
    always G p (\<lambda>h x. Q h (case x of Inl e \<Rightarrow> Inl (failed e) | Inr a \<Rightarrow> Inr a)) h"
  by (simp add: or_fail_def)

text \<open>
  The rules in the form the controller proofs use: what is to hold after a call is shown for every
  result, whichever answer led to it.
\<close>

named_theorems call_rules \<open>rules for statements about every answer of a call\<close>

lemma kget_rule [call_rules]:
  "G h (Get kind ns name) \<Longrightarrow> (\<And>r x. Q (h @ [(Get kind ns name, r)]) x) \<Longrightarrow> always G (kget prj kind ns name) Q h"
  by simp

lemma klist_rule [call_rules]:
  "G h (List kind ns labels) \<Longrightarrow> (\<And>r x. Q (h @ [(List kind ns labels, r)]) x) \<Longrightarrow> always G (klist prj kind ns labels) Q h"
  by simp

lemma kwrite_rule [call_rules]:
  "G h q \<Longrightarrow> (\<And>r x. Q (h @ [(q, r)]) x) \<Longrightarrow> always G (kwrite prj q) Q h"
  by simp

lemma kdo_rule [call_rules]:
  "G h q \<Longrightarrow> (\<And>r x. Q (h @ [(q, r)]) x) \<Longrightarrow> always G (kdo q) Q h"
  by simp

text \<open>The same with what the answer was, for statements about the history.\<close>

lemma kget_seen:
  assumes "G h (Get kind ns name)"
    and "\<And>h' e. grows h h' \<Longrightarrow> (is_not_found e \<Longrightarrow> (Get kind ns name, Failed e) \<in> set h') \<Longrightarrow> Q h' (Inl e)"
    and "\<And>h' y x. grows h h' \<Longrightarrow> (Get kind ns name, Obj y) \<in> set h' \<Longrightarrow> prj y = Some x \<Longrightarrow> Q h' (Inr x)"
  shows "always G (kget prj kind ns name) Q h"
proof -
  have bad: "Q (h @ [(Get kind ns name, r)]) (Inl decode_error)" for r
    by (intro assms(2)) (auto simp: decode_error_def)
  have "Q (h @ [(Get kind ns name, r)]) (case r of Failed e \<Rightarrow> Inl e
      | Obj x \<Rightarrow> (case prj x of None \<Rightarrow> Inl decode_error | Some a \<Rightarrow> Inr a) | _ \<Rightarrow> Inl decode_error)" for r
    using bad [of r] assms(2) [of "h @ [(Get kind ns name, r)]"] assms(3) [of "h @ [(Get kind ns name, r)]"]
    by (auto split: kresp.split option.split)
  with assms(1) show ?thesis by simp
qed

lemma klist_seen:
  assumes "G h (List kind ns ls)" and "\<And>h' e. grows h h' \<Longrightarrow> Q h' (Inl e)"
    and "\<And>h' ys. grows h h' \<Longrightarrow> (List kind ns ls, Items ys) \<in> set h' \<Longrightarrow> list_all (\<lambda>x. prj x \<noteq> None) ys \<Longrightarrow> Q h' (Inr (List.map_filter prj ys))"
  shows "always G (klist prj kind ns ls) Q h"
proof -
  have "Q (h @ [(List kind ns ls, r)]) (case r of Failed e \<Rightarrow> Inl e
      | Items xs \<Rightarrow> (if list_all (\<lambda>x. prj x \<noteq> None) xs then Inr (List.map_filter prj xs) else Inl decode_error)
      | _ \<Rightarrow> Inl decode_error)" for r
    using assms(2,3) [of "h @ [(List kind ns ls, r)]"] by (auto split: kresp.split)
  with assms(1) show ?thesis by simp
qed

lemma kwrite_seen:
  assumes "G h q" and "\<And>h' e. grows h h' \<Longrightarrow> Q h' (Inl e)"
    and "\<And>h' y x. grows h h' \<Longrightarrow> (q, Obj y) \<in> set h' \<Longrightarrow> prj y = Some x \<Longrightarrow> Q h' (Inr x)"
  shows "always G (kwrite prj q) Q h"
proof -
  have "Q (h @ [(q, r)]) (case r of Failed e \<Rightarrow> Inl e
      | Obj x \<Rightarrow> (case prj x of None \<Rightarrow> Inl decode_error | Some a \<Rightarrow> Inr a) | _ \<Rightarrow> Inl decode_error)" for r
    using assms(2,3) [of "h @ [(q, r)]"] by (auto split: kresp.split option.split)
  with assms(1) show ?thesis by simp
qed

text \<open>A list whose items all decode is the list of the decoded items.\<close>

lemma items_decoded:
  assumes "\<And>x a. prj x = Some a \<Longrightarrow> x = inject a" and "list_all (\<lambda>x. prj x \<noteq> None) ys"
  shows "ys = map inject (List.map_filter prj ys)"
  using assms(2) by (induction ys) (auto simp: map_filter_simps dest: assms(1))

end
