(* ===== verification/Platform_Config.thy ===== *)
theory Platform_Config
  imports Site_Config
begin

text \<open>
  \<open>internal/platformconfig\<close>: the administrator's network classes and locations on the management
  side, with their validation, the lookup of a location for a project and the check of a CIDR
  against a location's pools. \<open>Load\<close> is input/output and is left out.
\<close>

record network_class =
  nc_transport_profile :: string

record location =
  loc_name :: string
  loc_region :: string
  loc_site :: string
  loc_dc :: string
  loc_binding_namespace :: string
  loc_allowed_projects :: "string list"
  loc_cidr_pools :: "string list"

record platform_config =
  pcf_registry_namespace :: string
  pcf_network_classes :: "network_class smap"
  pcf_locations :: "location list"

definition check_class :: "k8s_lib \<Rightarrow> string \<times> network_class \<Rightarrow> unit res" where
  "check_class L e = (case e of (name, class) \<Rightarrow>
     rbind (guard (dns1123_label L name) ''invalid network class name'') (\<lambda>_.
     guard (nc_transport_profile class \<in> {''wireguard-bgp'', ''geneve-bgp'', ''vxlan-evpn''})
       (''unsupported transport profile for '' @ name)))"

text \<open>One location, against the names and the binding namespaces already seen.\<close>

definition check_location ::
  "k8s_lib \<Rightarrow> string list \<times> string list \<Rightarrow> location \<Rightarrow> (string list \<times> string list) res" where
  "check_location L st l = (case st of (seen, namespaces) \<Rightarrow>
     rbind (each_res (\<lambda>s. guard (dns1123_label L s) ''location identity and namespace must be DNS labels'')
       [loc_name l, loc_region l, loc_site l, loc_dc l, loc_binding_namespace l]) (\<lambda>_.
     rbind (guard (loc_name l \<notin> set seen \<and> loc_binding_namespace l \<notin> set namespaces)
       ''locations require unique names and binding namespaces'') (\<lambda>_.
     rbind (guard (loc_allowed_projects l \<noteq> [] \<and> loc_cidr_pools l \<noteq> [])
       (''location '' @ loc_name l @ '' requires explicit project grants and reserved CIDR pools'')) (\<lambda>_.
     rbind (each_res (\<lambda>p. guard (dns1123_label L p) ''project grants must name an explicit namespace'')
       (loc_allowed_projects l)) (\<lambda>_.
     rbind (each_res (\<lambda>raw. rbind (wrap (''location '' @ loc_name l) (site_prefix raw)) (\<lambda>_. Inr ()))
       (loc_cidr_pools l)) (\<lambda>_.
     Inr (loc_name l # seen, loc_binding_namespace l # namespaces)))))))"

definition platform_validate :: "k8s_lib \<Rightarrow> platform_config \<Rightarrow> unit res" where
  "platform_validate L c =
     rbind (guard (pcf_registry_namespace c = [] \<or> dns1123_label L (pcf_registry_namespace c))
       ''invalid registry namespace'') (\<lambda>_.
     rbind (guard (map_of (pcf_network_classes c) ''default'' \<noteq> None) ''a default network class is required'') (\<lambda>_.
     rbind (each_res (check_class L) (pcf_network_classes c)) (\<lambda>_.
     rbind (foldr_res (check_location L) ([], []) (pcf_locations c)) (\<lambda>_.
     guard (pcf_locations c \<noteq> []) ''at least one location is required''))))"

text \<open>\<open>Config.Location\<close>: the first location of that name decides.\<close>

fun find_location :: "location list \<Rightarrow> string \<Rightarrow> string \<Rightarrow> location res" where
  "find_location [] name project = Inl (''location '' @ name @ '' is not registered'')"
| "find_location (l # ls) name project =
     (if loc_name l \<noteq> name then find_location ls name project
      else if project \<in> set (loc_allowed_projects l) then Inr l
      else Inl (''project is not authorized for location '' @ name))"

definition get_location :: "platform_config \<Rightarrow> string \<Rightarrow> string \<Rightarrow> location res" where
  "get_location c name project = find_location (pcf_locations c) name project"

definition allows_cidr :: "location \<Rightarrow> string \<Rightarrow> bool" where
  "allows_cidr l raw = (case site_prefix raw of
      Inl _ \<Rightarrow> False
    | Inr p \<Rightarrow> list_ex (\<lambda>raw_pool. case site_prefix raw_pool of
          Inl _ \<Rightarrow> False
        | Inr pool \<Rightarrow> p_bits pool \<le> p_bits p \<and> contains pool (p_addr p)) (loc_cidr_pools l))"

section \<open>Properties\<close>

lemma find_location_Inr:
  "find_location ls name project = Inr l \<Longrightarrow>
    l \<in> set ls \<and> loc_name l = name \<and> project \<in> set (loc_allowed_projects l)"
  by (induction ls) (auto split: if_splits)

lemma get_location_sound [go_sound]:
  "get_location c name project = Inr l \<Longrightarrow>
    l \<in> set (pcf_locations c) \<and> loc_name l = name \<and> project \<in> set (loc_allowed_projects l)"
  unfolding get_location_def by (rule find_location_Inr)

text \<open>With distinct names, the lookup finds exactly the registered location of that name.\<close>

lemma find_location_iff:
  "distinct (map loc_name ls) \<Longrightarrow>
    find_location ls name project = Inr l
      \<longleftrightarrow> l \<in> set ls \<and> loc_name l = name \<and> project \<in> set (loc_allowed_projects l)"
  by (induction ls) auto

theorem platform_validate_sound:
  assumes "platform_validate L c = Inr ()"
  shows "pcf_locations c \<noteq> [] \<and> distinct (map loc_name (pcf_locations c))
    \<and> distinct (map loc_binding_namespace (pcf_locations c))
    \<and> (\<forall>l\<in>set (pcf_locations c). loc_allowed_projects l \<noteq> [] \<and> loc_cidr_pools l \<noteq> []
         \<and> (\<forall>raw\<in>set (loc_cidr_pools l). is_ok (site_prefix raw)))
    \<and> (\<exists>k. map_of (pcf_network_classes c) ''default'' = Some k
         \<and> nc_transport_profile k \<in> {''wireguard-bgp'', ''geneve-bgp'', ''vxlan-evpn''})"
proof -
  from assms obtain st k where f: "foldr_res (check_location L) ([], []) (pcf_locations c) = Inr st"
    and ne: "pcf_locations c \<noteq> []" and k: "map_of (pcf_network_classes c) ''default'' = Some k"
    and cls: "each_res (check_class L) (pcf_network_classes c) = Inr ()"
    by (auto simp: platform_validate_def)
  have "st = (rev (map loc_name (pcf_locations c)), rev (map loc_binding_namespace (pcf_locations c)))
    \<and> distinct (map loc_name (pcf_locations c)) \<and> distinct (map loc_binding_namespace (pcf_locations c))
    \<and> (\<forall>l\<in>set (pcf_locations c). loc_allowed_projects l \<noteq> [] \<and> loc_cidr_pools l \<noteq> []
         \<and> (\<forall>raw\<in>set (loc_cidr_pools l). is_ok (site_prefix raw)))"
    by (rule foldr_res_invariant [OF f, where I = "\<lambda>done st.
        st = (rev (map loc_name done), rev (map loc_binding_namespace done))
        \<and> distinct (map loc_name done) \<and> distinct (map loc_binding_namespace done)
        \<and> (\<forall>l\<in>set done. loc_allowed_projects l \<noteq> [] \<and> loc_cidr_pools l \<noteq> []
             \<and> (\<forall>raw\<in>set (loc_cidr_pools l). is_ok (site_prefix raw)))"])
      (auto simp: check_location_def each_res_ok)
  moreover from cls k have "check_class L (''default'', k) = Inr ()"
    by (auto simp: each_res_ok dest: map_of_SomeD)
  then have "nc_transport_profile k \<in> {''wireguard-bgp'', ''geneve-bgp'', ''vxlan-evpn''}"
    by (simp add: check_class_def)
  ultimately show ?thesis using ne k by blast
qed

text \<open>An allowed CIDR lies inside one of the pools, address by address.\<close>

theorem allows_cidr_inside:
  assumes "allows_cidr l raw"
  shows "\<exists>p pool raw_pool. site_prefix raw = Inr p \<and> raw_pool \<in> set (loc_cidr_pools l)
     \<and> site_prefix raw_pool = Inr pool \<and> (\<forall>a. contains p a \<longrightarrow> contains pool a)"
proof -
  from assms obtain p where p: "site_prefix raw = Inr p"
    by (cases "site_prefix raw") (simp_all add: allows_cidr_def)
  with assms obtain raw_pool where raw_pool: "raw_pool \<in> set (loc_cidr_pools l)"
    "case site_prefix raw_pool of Inl _ \<Rightarrow> False
       | Inr pool \<Rightarrow> p_bits pool \<le> p_bits p \<and> contains pool (p_addr p)"
    by (auto simp: allows_cidr_def list_ex_iff)
  then obtain pool where pool: "site_prefix raw_pool = Inr pool"
    and in_pool: "raw_pool \<in> set (loc_cidr_pools l)" "p_bits pool \<le> p_bits p" "contains pool (p_addr p)"
    by (cases "site_prefix raw_pool") simp_all
  from p obtain w b where w: "p = Prefix (V4 w) (int b)" "usable_net w b" by (rule site_prefixE)
  from pool obtain x c where x: "pool = Prefix (V4 x) (int c)" "usable_net x c" by (rule site_prefixE)
  have "contains pool a" if "contains p a" for a
  proof -
    from that w obtain y where y: "a = V4 y" using contains_imp_V4 by blast
    have "c \<le> b" "b \<le> 32" "block c x = block c w" "block b w = block b y"
      using in_pool that y w x by (auto simp: contains_V4 usable_net_def)
    then show ?thesis using block_mono [of c b w y] x y by (simp add: contains_V4)
  qed
  with p pool in_pool(1) show ?thesis by blast
qed

end
