(* ===== verification/Go_Json.thy ===== *)
theory Go_Json
  imports Go_Base
begin

text \<open>
  The package \<open>encoding/json\<close>, as far as the program uses it: compact encoding as
  \<open>json.Marshal\<close> writes it (HTML-safe escapes, invalid UTF-8 replaced) and the syntax
  \<open>json.Unmarshal\<close> reads. A number keeps its literal, as the decoder does before it converts
  it to the type of the destination. The main result is that reading what was written gives the
  value back, so encoding is injective.
\<close>

datatype json =
    JNull
  | JBool bool
  | JNum string
  | JStr string
  | JArr "json list"
  | JObj "(string \<times> json) list"

section \<open>Encoding\<close>

abbreviation byte :: "char \<Rightarrow> nat" where
  "byte c \<equiv> of_char c"

definition hex_nibble :: "nat \<Rightarrow> char" where
  "hex_nibble d = (if d < 10 then char_of (48 + d) else char_of (87 + d))"

abbreviation backslash :: char where
  "backslash \<equiv> CHR 0x5C"

abbreviation quote :: char where
  "quote \<equiv> CHR 0x22"

text \<open>The escapes of a byte below 128.\<close>

definition esc_byte :: "char \<Rightarrow> string" where
  "esc_byte c =
     (if c = quote \<or> c = backslash then [backslash, c]
      else if byte c = 8 then [backslash, CHR ''b'']
      else if byte c = 12 then [backslash, CHR ''f'']
      else if byte c = 10 then [backslash, CHR ''n'']
      else if byte c = 13 then [backslash, CHR ''r'']
      else if byte c = 9 then [backslash, CHR ''t'']
      else if byte c < 32 \<or> c = CHR ''<'' \<or> c = CHR ''>'' \<or> c = CHR ''&''
        then [backslash, CHR ''u'', CHR ''0'', CHR ''0'', hex_nibble (byte c div 16), hex_nibble (byte c mod 16)]
      else [c])"

text \<open>
  \<open>utf8.DecodeRune\<close>: how many bytes the first code point of a string takes, \<open>0\<close> when the string
  does not start with a valid encoding.
\<close>

definition utf8_cont :: "nat \<Rightarrow> bool" where
  "utf8_cont b \<longleftrightarrow> 128 \<le> b \<and> b \<le> 191"

fun utf8_bytes :: "nat list \<Rightarrow> nat" where
  "utf8_bytes (a # bs) =
     (if a < 128 then 1
      else case bs of
        [] \<Rightarrow> 0
      | b # bs' \<Rightarrow>
          if 194 \<le> a \<and> a \<le> 223 then (if utf8_cont b then 2 else 0)
          else (case bs' of
            [] \<Rightarrow> 0
          | c # bs'' \<Rightarrow>
              if 224 \<le> a \<and> a \<le> 239 then
                (if (if a = 224 then 160 \<le> b \<and> b \<le> 191 else if a = 237 then 128 \<le> b \<and> b \<le> 159 else utf8_cont b)
                    \<and> utf8_cont c then 3 else 0)
              else (case bs'' of
                [] \<Rightarrow> 0
              | d # _ \<Rightarrow>
                  if 240 \<le> a \<and> a \<le> 244
                     \<and> (if a = 240 then 144 \<le> b \<and> b \<le> 191 else if a = 244 then 128 \<le> b \<and> b \<le> 143 else utf8_cont b)
                     \<and> utf8_cont c \<and> utf8_cont d then 4 else 0)))"
| "utf8_bytes [] = 0"

definition utf8_size :: "string \<Rightarrow> nat" where
  "utf8_size s = utf8_bytes (map of_char (take 4 s))"

definition esc_bad :: string where
  "esc_bad = backslash # ''ufffd''"

function esc_str :: "string \<Rightarrow> string" where
  "esc_str [] = []"
| "esc_str (c # s) =
     (if byte c < 128 then esc_byte c @ esc_str s
      else let n = utf8_size (c # s) in
        if n = 0 then esc_bad @ esc_str s
        else if map byte (take n (c # s)) = [226, 128, 168] then (backslash # ''u2028'') @ esc_str (drop (n - 1) s)
        else if map byte (take n (c # s)) = [226, 128, 169] then (backslash # ''u2029'') @ esc_str (drop (n - 1) s)
        else take n (c # s) @ esc_str (drop (n - 1) s))"
  by pat_completeness auto
termination
  by (relation "measure length") (auto simp: less_Suc_eq_le)

definition json_str :: "string \<Rightarrow> string" where
  "json_str s = quote # esc_str s @ [quote]"

fun json_enc :: "json \<Rightarrow> string" and json_elems :: "json list \<Rightarrow> string"
  and json_members :: "(string \<times> json) list \<Rightarrow> string" where
  "json_enc JNull = ''null''"
| "json_enc (JBool b) = (if b then ''true'' else ''false'')"
| "json_enc (JNum n) = n"
| "json_enc (JStr s) = json_str s"
| "json_enc (JArr xs) = CHR ''['' # json_elems xs @ '']''"
| "json_enc (JObj kvs) = CHR ''{'' # json_members kvs @ ''}''"
| "json_elems [] = []"
| "json_elems [x] = json_enc x"
| "json_elems (x # y # xs) = json_enc x @ '','' @ json_elems (y # xs)"
| "json_members [] = []"
| "json_members [(k, v)] = json_str k @ '':'' @ json_enc v"
| "json_members ((k, v) # kv # kvs) = json_str k @ '':'' @ json_enc v @ '','' @ json_members (kv # kvs)"

text \<open>Integers, and maps with string keys, which \<open>Marshal\<close> writes in key order.\<close>

definition json_nat :: "nat \<Rightarrow> json" where
  "json_nat n = JNum (nat_str n)"

definition json_int :: "int \<Rightarrow> json" where
  "json_int i = JNum (int_str i)"

definition json_map :: "('v \<Rightarrow> json) \<Rightarrow> 'v smap \<Rightarrow> json" where
  "json_map f m = JObj (map (\<lambda>(k, v). (k, f v)) (sort_slice fst m))"

text \<open>A field with \<open>omitempty\<close> is written only when its value is not the empty one.\<close>

definition omit_empty :: "bool \<Rightarrow> string \<times> json \<Rightarrow> (string \<times> json) list" where
  "omit_empty is_empty f = (if is_empty then [] else [f])"

section \<open>Decoding\<close>

definition json_ws :: "char \<Rightarrow> bool" where
  "json_ws c \<longleftrightarrow> byte c \<in> {9, 10, 13, 32}"

abbreviation skip_ws :: "string \<Rightarrow> string" where
  "skip_ws s \<equiv> dropWhile json_ws s"

definition nibble_val :: "char \<Rightarrow> nat option" where
  "nibble_val c = (let n = byte c in
     if 48 \<le> n \<and> n \<le> 57 then Some (n - 48)
     else if 97 \<le> n \<and> n \<le> 102 then Some (n - 87)
     else if 65 \<le> n \<and> n \<le> 70 then Some (n - 55)
     else None)"

fun hex4 :: "string \<Rightarrow> (nat \<times> string) option" where
  "hex4 (a # b # c # d # s) =
     (case (nibble_val a, nibble_val b, nibble_val c, nibble_val d) of
        (Some p, Some q, Some r, Some t) \<Rightarrow> Some (4096 * p + 256 * q + 16 * r + t, s)
      | _ \<Rightarrow> None)"
| "hex4 _ = None"

text \<open>\<open>utf8.AppendRune\<close>.\<close>

definition utf8_rune :: "nat \<Rightarrow> string" where
  "utf8_rune r =
     (if r < 128 then [char_of r]
      else if r < 2048 then [char_of (192 + r div 64), char_of (128 + r mod 64)]
      else if r < 65536 then [char_of (224 + r div 4096), char_of (128 + r div 64 mod 64), char_of (128 + r mod 64)]
      else [char_of (240 + r div 262144), char_of (128 + r div 4096 mod 64),
            char_of (128 + r div 64 mod 64), char_of (128 + r mod 64)])"

definition utf8_bad :: string where
  "utf8_bad = [char_of (239 :: nat), char_of (191 :: nat), char_of (189 :: nat)]"

text \<open>
  The rest of a string literal after its opening quote: its value and what follows the closing
  quote. A surrogate pair is one code point; a lone surrogate becomes the replacement character.
\<close>

definition simple_escape :: "char \<Rightarrow> char option" where
  "simple_escape c =
     (if c = quote \<or> c = backslash \<or> c = CHR ''/'' then Some c
      else if c = CHR ''b'' then Some (char_of (8 :: nat))
      else if c = CHR ''f'' then Some (char_of (12 :: nat))
      else if c = CHR ''n'' then Some (char_of (10 :: nat))
      else if c = CHR ''r'' then Some (char_of (13 :: nat))
      else if c = CHR ''t'' then Some (char_of (9 :: nat))
      else None)"

definition prepend :: "string \<Rightarrow> (string \<times> string) option \<Rightarrow> (string \<times> string) option" where
  "prepend p r = map_option (\<lambda>(v, rest). (p @ v, rest)) r"

fun str_body :: "nat \<Rightarrow> string \<Rightarrow> (string \<times> string) option" where
  "str_body 0 s = None"
| "str_body (Suc fuel) [] = None"
| "str_body (Suc fuel) (c # s) =
     (if c = quote then Some ([], s)
      else if byte c < 32 then None
      else if c = backslash then
        (case s of
           [] \<Rightarrow> None
         | e # s' \<Rightarrow>
             if e = CHR ''u'' then
               (case hex4 s' of
                  None \<Rightarrow> None
                | Some (r, s2) \<Rightarrow>
                    if 55296 \<le> r \<and> r < 57344 then
                      (case (if r < 56320 \<and> take 2 s2 = [backslash, CHR ''u''] then hex4 (drop 2 s2) else None) of
                         Some (r2, s3) \<Rightarrow>
                           if 56320 \<le> r2 \<and> r2 < 57344
                           then prepend (utf8_rune (65536 + (r - 55296) * 1024 + (r2 - 56320))) (str_body fuel s3)
                           else prepend utf8_bad (str_body fuel s2)
                       | None \<Rightarrow> prepend utf8_bad (str_body fuel s2))
                    else prepend (utf8_rune r) (str_body fuel s2))
             else (case simple_escape e of
                     None \<Rightarrow> None | Some x \<Rightarrow> prepend [x] (str_body fuel s')))
      else if byte c < 128 then prepend [c] (str_body fuel s)
      else let n = utf8_size (c # s) in
        if n = 0 then prepend utf8_bad (str_body fuel s)
        else prepend (take n (c # s)) (str_body fuel (drop (n - 1) s)))"

text \<open>The number grammar: an optional minus, an integer part without leading zeros, an optional
  fraction and an optional exponent.\<close>

definition num_int :: "string \<Rightarrow> (string \<times> string) option" where
  "num_int s = (case s of
      [] \<Rightarrow> None
    | c # r \<Rightarrow> if c = CHR ''0'' then Some ([c], r)
               else if is_digit c then Some (takeWhile is_digit s, dropWhile is_digit s)
               else None)"

definition num_frac :: "string \<Rightarrow> (string \<times> string) option" where
  "num_frac s = (case s of
      c # r \<Rightarrow> if c = CHR ''.'' then
                 (if r \<noteq> [] \<and> is_digit (hd r) then Some (c # takeWhile is_digit r, dropWhile is_digit r)
                  else None)
               else Some ([], s)
    | [] \<Rightarrow> Some ([], s))"

definition num_exp :: "string \<Rightarrow> (string \<times> string) option" where
  "num_exp s = (case s of
      c # r \<Rightarrow> if c = CHR ''e'' \<or> c = CHR ''E'' then
                 (let sg = (if r \<noteq> [] \<and> (hd r = CHR ''+'' \<or> hd r = CHR ''-'') then [hd r] else []);
                      d = drop (length sg) r
                  in if d \<noteq> [] \<and> is_digit (hd d) then Some (c # sg @ takeWhile is_digit d, dropWhile is_digit d)
                     else None)
               else Some ([], s)
    | [] \<Rightarrow> Some ([], s))"

definition parse_num :: "string \<Rightarrow> (string \<times> string) option" where
  "parse_num s =
     (let sg = (if s \<noteq> [] \<and> hd s = CHR ''-'' then ''-'' else [])
      in case num_int (drop (length sg) s) of
           None \<Rightarrow> None
         | Some (i, s1) \<Rightarrow> (case num_frac s1 of
             None \<Rightarrow> None
           | Some (f, s2) \<Rightarrow> (case num_exp s2 of
               None \<Rightarrow> None
             | Some (e, s3) \<Rightarrow> Some (sg @ i @ f @ e, s3))))"

definition literal :: "string \<Rightarrow> json \<Rightarrow> string \<Rightarrow> (json \<times> string) option" where
  "literal w v s = (if has_prefix s w then Some (v, drop (length w) s) else None)"

text \<open>
  The value grammar. Every call that recurses has read at least one byte, so the length of the
  input is enough fuel.
\<close>

fun json_val :: "nat \<Rightarrow> string \<Rightarrow> (json \<times> string) option"
  and json_arr :: "nat \<Rightarrow> string \<Rightarrow> (json list \<times> string) option"
  and json_obj :: "nat \<Rightarrow> string \<Rightarrow> ((string \<times> json) list \<times> string) option" where
  "json_val 0 s = None"
| "json_val (Suc fuel) s =
     (case skip_ws s of
        [] \<Rightarrow> None
      | c # r \<Rightarrow>
          if c = quote then map_option (\<lambda>(v, t). (JStr v, t)) (str_body (Suc (length r)) r)
          else if c = CHR ''['' then
            (case skip_ws r of
               [] \<Rightarrow> None
             | d # r' \<Rightarrow> if d = CHR '']'' then Some (JArr [], r')
                         else map_option (\<lambda>(xs, t). (JArr xs, t)) (json_arr fuel (d # r')))
          else if c = CHR ''{'' then
            (case skip_ws r of
               [] \<Rightarrow> None
             | d # r' \<Rightarrow> if d = CHR ''}'' then Some (JObj [], r')
                         else map_option (\<lambda>(xs, t). (JObj xs, t)) (json_obj fuel (d # r')))
          else if c = CHR ''t'' then literal ''true'' (JBool True) (c # r)
          else if c = CHR ''f'' then literal ''false'' (JBool False) (c # r)
          else if c = CHR ''n'' then literal ''null'' JNull (c # r)
          else map_option (\<lambda>(n, t). (JNum n, t)) (parse_num (c # r)))"
| "json_arr 0 s = None"
| "json_arr (Suc fuel) s =
     (case json_val fuel s of
        None \<Rightarrow> None
      | Some (v, s1) \<Rightarrow>
          (case skip_ws s1 of
             [] \<Rightarrow> None
           | d # r \<Rightarrow> if d = CHR '']'' then Some ([v], r)
                      else if d = CHR '','' then map_option (\<lambda>(xs, t). (v # xs, t)) (json_arr fuel r)
                      else None))"
| "json_obj 0 s = None"
| "json_obj (Suc fuel) s =
     (case skip_ws s of
        [] \<Rightarrow> None
      | q # r \<Rightarrow>
          if q \<noteq> quote then None
          else (case str_body (Suc (length r)) r of
            None \<Rightarrow> None
          | Some (k, s1) \<Rightarrow>
              (case skip_ws s1 of
                 [] \<Rightarrow> None
               | d # r1 \<Rightarrow>
                   if d \<noteq> CHR '':'' then None
                   else (case json_val fuel r1 of
                     None \<Rightarrow> None
                   | Some (v, s2) \<Rightarrow>
                       (case skip_ws s2 of
                          [] \<Rightarrow> None
                        | e # r2 \<Rightarrow>
                            if e = CHR ''}'' then Some ([(k, v)], r2)
                            else if e = CHR '','' then map_option (\<lambda>(xs, t). ((k, v) # xs, t)) (json_obj fuel r2)
                            else None)))))"

definition json_parse :: "string \<Rightarrow> json option" where
  "json_parse s = (case json_val (Suc (2 * length s)) s of
      Some (v, rest) \<Rightarrow> if skip_ws rest = [] then Some v else None
    | None \<Rightarrow> None)"

section \<open>Reading what was written\<close>

definition ascii :: "string \<Rightarrow> bool" where
  "ascii s \<longleftrightarrow> (\<forall>c\<in>set s. byte c < 128)"

lemma ascii_simps [simp]: "ascii []" "ascii (c # s) \<longleftrightarrow> byte c < 128 \<and> ascii s"
  "ascii (s @ t) \<longleftrightarrow> ascii s \<and> ascii t"
  by (auto simp: ascii_def)

lemma esc_str_ascii: "ascii s \<Longrightarrow> esc_str s = concat (map esc_byte s)"
  by (induction s) simp_all

lemma byte_eq_iff: "byte c = n \<longleftrightarrow> c = char_of n" if "n < 256"
  using that by (metis char_of_char of_char_of mod_less)

lemma nibble_hex: "d < 16 \<Longrightarrow> nibble_val (hex_nibble d) = Some d"
  by (simp add: nibble_val_def hex_nibble_def)

lemma hex4_byte:
  "byte c < 128 \<Longrightarrow>
    hex4 (CHR ''0'' # CHR ''0'' # hex_nibble (byte c div 16) # hex_nibble (byte c mod 16) # t) = Some (byte c, t)"
  by (simp add: nibble_hex nibble_val_def [of "CHR ''0''"] less_mult_imp_div_less)

lemma utf8_rune_byte: "byte c < 128 \<Longrightarrow> utf8_rune (byte c) = [c]"
  by (simp add: utf8_rune_def)

lemma str_body_simple:
  assumes "simple_escape e = Some x"
  shows "str_body (Suc fuel) (backslash # e # t) = prepend [x] (str_body fuel t)"
proof -
  have "e \<noteq> CHR ''u''" using assms by (auto simp: simple_escape_def)
  with assms show ?thesis by simp
qed

lemma str_body_unicode:
  assumes "byte c < 128"
  shows "str_body (Suc fuel) ([backslash, CHR ''u'', CHR ''0'', CHR ''0'', hex_nibble (byte c div 16),
            hex_nibble (byte c mod 16)] @ t) = prepend [c] (str_body fuel t)"
  using assms by (simp add: hex4_byte utf8_rune_byte del: hex4.simps)

lemma str_body_esc_byte:
  assumes "byte c < 128"
  shows "str_body (Suc fuel) (esc_byte c @ t) = prepend [c] (str_body fuel t)"
proof -
  have esc: "str_body (Suc fuel) ([backslash, e] @ t) = prepend [char_of n] (str_body fuel t)"
    if "simple_escape e = Some (char_of n)" for e and n :: nat
    using str_body_simple [OF that] by simp
  have self: "simple_escape c = Some c" if "c = quote \<or> c = backslash"
    using that by (auto simp: simple_escape_def)
  have ctrl: "c = char_of (byte c)" by simp
  let ?A = "c = quote \<or> c = backslash" and ?B = "byte c \<in> {8, 12, 10, 13, 9}"
    and ?C = "byte c < 32 \<or> c = CHR ''<'' \<or> c = CHR ''>'' \<or> c = CHR ''&''"
  consider ?A | ?B | "\<not> ?A" "\<not> ?B" ?C | "\<not> ?A" "\<not> ?B" "\<not> ?C" by blast
  then show ?thesis
  proof cases
    case 1
    then have "esc_byte c = [backslash, c]" by (simp add: esc_byte_def)
    with str_body_simple [OF self [OF 1]] show ?thesis by simp
  next
    case 2
    then have "c = char_of (8::nat) \<or> c = char_of (12::nat) \<or> c = char_of (10::nat)
        \<or> c = char_of (13::nat) \<or> c = char_of (9::nat)"
      using ctrl by (metis insertE singletonD)
    then show ?thesis
      by (elim disjE; simp only: ; subst esc_byte_def)
        (simp_all add: simple_escape_def prepend_def)
  next
    case 3
    then have "esc_byte c = [backslash, CHR ''u'', CHR ''0'', CHR ''0'', hex_nibble (byte c div 16),
        hex_nibble (byte c mod 16)]" by (simp add: esc_byte_def)
    with str_body_unicode [OF assms] show ?thesis by simp
  next
    case 4
    then have "esc_byte c = [c]" by (simp add: esc_byte_def)
    with 4 assms show ?thesis by simp
  qed
qed

lemma str_body_esc_str:
  "ascii s \<Longrightarrow> length s < fuel \<Longrightarrow> str_body fuel (esc_str s @ quote # rest) = Some (s, rest)"
proof (induction s arbitrary: fuel)
  case Nil
  then show ?case by (cases fuel) simp_all
next
  case (Cons c s)
  then obtain f where fuel: "fuel = Suc f" by (cases fuel) auto
  have "esc_str (c # s) @ quote # rest = esc_byte c @ esc_str s @ quote # rest"
    using Cons.prems by simp
  with Cons fuel show ?case by (simp add: str_body_esc_byte prepend_def del: esc_str.simps)
qed

lemma length_esc_str: "ascii s \<Longrightarrow> length s \<le> length (esc_str s)"
proof (induction s)
  case (Cons c s)
  have "1 \<le> length (esc_byte c)" by (simp add: esc_byte_def)
  with Cons.prems add_mono [OF this Cons.IH] show ?case by simp
qed simp

text \<open>The values the program writes: integers as numbers and strings of bytes below 128.\<close>

fun plain_json :: "json \<Rightarrow> bool" where
  "plain_json (JNum n) = (\<exists>i. n = int_str i)"
| "plain_json (JStr t) = ascii t"
| "plain_json (JArr xs) = (\<forall>x\<in>set xs. plain_json x)"
| "plain_json (JObj kvs) = (\<forall>kv\<in>set kvs. ascii (fst kv) \<and> plain_json (snd kv))"
| "plain_json _ = True"

definition delimited :: "string \<Rightarrow> bool" where
  "delimited r \<longleftrightarrow> r = [] \<or> hd r \<in> {CHR '','', CHR '']'', CHR ''}''}"

lemma delimited_simps [simp]: "delimited []" "delimited (CHR '','' # r)" "delimited (CHR '']'' # r)"
  "delimited (CHR ''}'' # r)"
  by (simp_all add: delimited_def)

lemma not_digit_delim [simp]: "\<not> is_digit (CHR '','')" "\<not> is_digit (CHR '']'')" "\<not> is_digit (CHR ''}'')"
  by (simp_all add: is_digit_def)

lemma takeWhile_digits_delim:
  assumes "list_all is_digit ds" and "delimited r"
  shows "takeWhile is_digit (ds @ r) = ds" and "dropWhile is_digit (ds @ r) = r"
proof -
  have "takeWhile is_digit r = []" and "dropWhile is_digit r = r"
    using assms(2) by (cases r; auto simp: delimited_def)+
  moreover have "\<forall>x\<in>set ds. is_digit x" using assms(1) by (simp add: list_all_iff)
  ultimately show "takeWhile is_digit (ds @ r) = ds" and "dropWhile is_digit (ds @ r) = r"
    by (simp_all add: takeWhile_append2)
qed

lemma num_int_nat_str:
  assumes "delimited r"
  shows "num_int (nat_str n @ r) = Some (nat_str n, r)"
proof (cases "n = 0")
  case True
  then show ?thesis by (simp add: nat_str.simps [of 0] num_int_def digit_char_0)
next
  case False
  obtain c t where ns: "nat_str n = c # t" using nat_str_not_Nil by (metis list.exhaust)
  with False hd_nat_str_nonzero [of n] have "c \<noteq> CHR ''0''" by simp
  moreover have "is_digit c" using nat_str_chars [of c n] ns by simp
  ultimately show ?thesis
    using takeWhile_digits_delim [OF nat_str_digits assms, of n] ns by (simp add: num_int_def)
qed

lemma num_tail_delim: "delimited r \<Longrightarrow> num_frac r = Some ([], r)" "delimited r \<Longrightarrow> num_exp r = Some ([], r)"
  by (auto simp: delimited_def num_frac_def num_exp_def split: list.splits)

lemma parse_num_int_str:
  assumes "delimited r"
  shows "parse_num (int_str i @ r) = Some (int_str i, r)"
proof (cases "i < 0")
  case True
  then show ?thesis using assms by (simp add: int_str_def parse_num_def num_int_nat_str num_tail_delim)
next
  case False
  have "hd (nat_str (nat i) @ r) \<noteq> CHR ''-''" using hd_nat_str_not_sign [of "nat i"] by (simp add: hd_append)
  with False show ?thesis using assms by (simp add: int_str_def parse_num_def num_int_nat_str num_tail_delim)
qed

lemma not_ws_simps [simp]: "\<not> json_ws quote" "\<not> json_ws (CHR ''['')" "\<not> json_ws (CHR ''{'')"
  "\<not> json_ws (CHR '','')" "\<not> json_ws (CHR '']'')" "\<not> json_ws (CHR ''}'')" "\<not> json_ws (CHR '':'')"
  "\<not> json_ws (CHR ''n'')" "\<not> json_ws (CHR ''t'')" "\<not> json_ws (CHR ''f'')" "\<not> json_ws (CHR ''-'')"
  by (simp_all add: json_ws_def)

lemma int_str_head:
  "\<exists>c t. int_str i = c # t \<and> (c = CHR ''-'' \<or> is_digit c)"
proof (cases "i < 0")
  case False
  obtain c t where "nat_str (nat i) = c # t" using nat_str_not_Nil by (metis list.exhaust)
  moreover from this have "is_digit c" using nat_str_chars [of c "nat i"] by simp
  ultimately show ?thesis using False by (simp add: int_str_def)
qed (simp add: int_str_def)

lemma digit_head_simps:
  assumes "c = CHR ''-'' \<or> is_digit c"
  shows "\<not> json_ws c" "c \<noteq> quote" "c \<noteq> CHR ''[''" "c \<noteq> CHR ''{''" "c \<noteq> CHR ''t''" "c \<noteq> CHR ''f''"
    "c \<noteq> CHR ''n''" "c \<noteq> CHR '']''" "c \<noteq> CHR ''}''"
  using assms by (auto simp: is_digit_def json_ws_def)

lemma json_enc_head:
  assumes "plain_json v"
  shows "\<exists>c t. json_enc v = c # t \<and> \<not> json_ws c \<and> c \<noteq> CHR '']'' \<and> c \<noteq> CHR ''}''"
proof (cases v)
  case (JNum n)
  with assms show ?thesis using int_str_head digit_head_simps by fastforce
qed (simp_all add: json_str_def)

lemma json_val_num:
  assumes "delimited r"
  shows "json_val (Suc fuel) (int_str i @ r) = Some (JNum (int_str i), r)"
proof -
  obtain c t where c: "int_str i = c # t" and d: "c = CHR ''-'' \<or> is_digit c"
    using int_str_head by blast
  with parse_num_int_str [OF assms, of i] digit_head_simps [OF d] show ?thesis by simp
qed

lemma json_val_str:
  assumes "ascii t"
  shows "json_val (Suc fuel) (json_str t @ r) = Some (JStr t, r)"
proof -
  have "length t < Suc (length (esc_str t @ quote # r))" using length_esc_str [OF assms] by simp
  from str_body_esc_str [OF assms this, of r] show ?thesis by (simp add: json_str_def)
qed

text \<open>What is written is read back, whatever valid text follows it.\<close>

lemma json_elems_head:
  assumes "xs \<noteq> []" and "\<forall>x\<in>set xs. plain_json x"
  shows "\<exists>c t. json_elems xs = c # t \<and> \<not> json_ws c \<and> c \<noteq> CHR '']''"
proof -
  from assms obtain x ys where xs: "xs = x # ys" by (cases xs) auto
  with assms obtain c t where "json_enc x = c # t" "\<not> json_ws c" "c \<noteq> CHR '']''"
    using json_enc_head [of x] by auto
  then show ?thesis by (cases ys) (simp_all add: xs)
qed

lemma json_members_head:
  "kvs \<noteq> [] \<Longrightarrow> \<exists>t. json_members kvs = quote # t"
  by (cases kvs; cases "tl kvs") (auto simp: json_str_def)

lemma json_obj_member:
  assumes "ascii k" and "json_val fuel (json_enc v @ r) = Some (v, r)"
  shows "json_obj (Suc fuel) (json_str k @ '':'' @ json_enc v @ r) =
    (case skip_ws r of
       [] \<Rightarrow> None
     | e # r2 \<Rightarrow> if e = CHR ''}'' then Some ([(k, v)], r2)
                else if e = CHR '','' then map_option (\<lambda>(xs, t). ((k, v) # xs, t)) (json_obj fuel r2)
                else None)"
proof -
  let ?rest = "CHR '':'' # json_enc v @ r"
  have "length k < Suc (length (esc_str k @ quote # ?rest))" using length_esc_str [OF assms(1)] by simp
  from str_body_esc_str [OF assms(1) this, of ?rest] assms(2) show ?thesis
    by (simp add: json_str_def)
qed

lemma json_roundtrip_aux:
  shows "plain_json v \<Longrightarrow> 2 * length (json_enc v) \<le> fuel \<Longrightarrow> delimited r \<Longrightarrow>
           json_val fuel (json_enc v @ r) = Some (v, r)"
    and "xs \<noteq> [] \<Longrightarrow> \<forall>x\<in>set xs. plain_json x \<Longrightarrow> 2 * length (json_elems xs) + 1 \<le> fuel \<Longrightarrow>
           json_arr fuel (json_elems xs @ CHR '']'' # r) = Some (xs, r)"
    and "kvs \<noteq> [] \<Longrightarrow> \<forall>kv\<in>set kvs. ascii (fst kv) \<and> plain_json (snd kv) \<Longrightarrow>
           2 * length (json_members kvs) + 1 \<le> fuel \<Longrightarrow>
           json_obj fuel (json_members kvs @ CHR ''}'' # r) = Some (kvs, r)"
proof (induction v and xs and kvs arbitrary: fuel r and fuel r and fuel r
    rule: json_enc_json_elems_json_members.induct)
  case 1
  then obtain f where "fuel = Suc f" by (cases fuel) auto
  then show ?case by (simp add: literal_def has_prefix_def)
next
  case (2 b)
  then obtain f where "fuel = Suc f" by (cases fuel) (auto split: if_splits)
  then show ?case by (simp add: literal_def has_prefix_def)
next
  case (3 n)
  then obtain i where n: "n = int_str i" by auto
  obtain c t where "int_str i = c # t" using int_str_head by blast
  with 3 n obtain f where "fuel = Suc f" by (cases fuel) auto
  with 3 n show ?case by (simp add: json_val_num del: json_val.simps)
next
  case (4 t)
  then obtain f where "fuel = Suc f" by (cases fuel) (auto simp: json_str_def)
  with 4 show ?case by (simp add: json_val_str del: json_val.simps)
next
  case (5 xs)
  then obtain f where f: "fuel = Suc f" by (cases fuel) auto
  show ?case
  proof (cases "xs = []")
    case False
    with 5 obtain c t where h: "json_elems xs = c # t" "\<not> json_ws c" "c \<noteq> CHR '']''"
      using json_elems_head [of xs] by auto
    have "json_arr f (json_elems xs @ CHR '']'' # r) = Some (xs, r)"
      using "5.prems" False f by (intro "5.IH") auto
    with h f show ?thesis by simp
  qed (simp add: f)
next
  case (6 kvs)
  then obtain f where f: "fuel = Suc f" by (cases fuel) auto
  show ?case
  proof (cases "kvs = []")
    case False
    then obtain t where h: "json_members kvs = quote # t" using json_members_head by blast
    have "json_obj f (json_members kvs @ CHR ''}'' # r) = Some (kvs, r)"
      using "6.prems" False f by (intro "6.IH") auto
    with h f show ?thesis by simp
  qed (simp add: f)
next
  case (8 x)
  then obtain f where f: "fuel = Suc f" by (cases fuel) auto
  have "json_val f (json_enc x @ CHR '']'' # r) = Some (x, CHR '']'' # r)"
    using "8.prems" f by (intro "8.IH") auto
  with f show ?case by simp
next
  case (9 x y xs)
  then obtain f where f: "fuel = Suc f" by (cases fuel) auto
  let ?r = "CHR '','' # json_elems (y # xs) @ CHR '']'' # r"
  have "json_val f (json_enc x @ ?r) = Some (x, ?r)"
    using "9.prems" f by (intro "9.IH"(1)) auto
  moreover have "json_arr f (json_elems (y # xs) @ CHR '']'' # r) = Some (y # xs, r)"
    using "9.prems" f by (intro "9.IH"(2)) auto
  ultimately show ?case using f by simp
next
  case (11 k v)
  then obtain f where f: "fuel = Suc f" by (cases fuel) auto
  have "json_val f (json_enc v @ CHR ''}'' # r) = Some (v, CHR ''}'' # r)"
    using "11.prems" f by (intro "11.IH") auto
  from json_obj_member [OF _ this, of k] f "11.prems" show ?case by simp
next
  case (12 k v kv kvs)
  then obtain f where f: "fuel = Suc f" by (cases fuel) auto
  let ?r = "CHR '','' # json_members (kv # kvs) @ CHR ''}'' # r"
  have "json_val f (json_enc v @ ?r) = Some (v, ?r)"
    using "12.prems" f by (intro "12.IH"(1)) auto
  moreover have "json_obj f (json_members (kv # kvs) @ CHR ''}'' # r) = Some (kv # kvs, r)"
    using "12.prems" f by (intro "12.IH"(2)) auto
  ultimately show ?case using json_obj_member [of k f v ?r] f "12.prems" by simp
qed simp_all

theorem json_parse_enc: "plain_json v \<Longrightarrow> json_parse (json_enc v) = Some v"
  using json_roundtrip_aux(1) [of v "Suc (2 * length (json_enc v))" "[]"]
  by (simp add: json_parse_def)

lemma json_enc_inject:
  "plain_json v \<Longrightarrow> plain_json w \<Longrightarrow> json_enc v = json_enc w \<longleftrightarrow> v = w"
  by (metis json_parse_enc option.inject)

end
