(* ===== verification/Api_V1alpha2.thy ===== *)
theory Api_V1alpha2
  imports Kube_Meta Go_Json "HOL-Library.Word"
begin

text \<open>
  The managed API, \<open>api/v1alpha2/types.go\<close>: the public VPC and Subnet, the per-location
  NetworkBinding snapshot with its status, and the JSON text of a binding specification as
  \<open>json.Marshal\<close> writes it from the struct tags. The fields of Go type \<open>uint32\<close> are 32-bit words.
  The lemmas show that the JSON text determines the specification.
\<close>

type_synonym u32 = "32 word"

record vpc_spec =
  vs_network_class_ref :: string

record prefix_claim =
  pc_subnet_uid :: string
  pc_cidr :: string
  pc_location_ref :: string

record binding_reference =
  br_location_ref :: string
  br_name :: string
  br_uid :: string
  br_native_vpc_name :: string

record vpc_status =
  vst_observed_generation :: int
  vst_network_id :: u32
  vst_phase :: string
  vst_bindings :: "binding_reference list"
  vst_subnet_claims :: "prefix_claim list"
  vst_conditions :: "condition list"

record vpc =
  v_meta :: object_meta
  v_spec :: vpc_spec
  v_status :: vpc_status

record subnet_spec =
  ss_vpc_ref :: string
  ss_location_ref :: string
  ss_cidr :: string

record subnet_status =
  sst_observed_generation :: int
  sst_phase :: string
  sst_vpc_uid :: string
  sst_binding_name :: string
  sst_native_vpc_name :: string
  sst_native_subnet_name :: string
  sst_conditions :: "condition list"

record subnet =
  s_meta :: object_meta
  s_spec :: subnet_spec
  s_status :: subnet_status

record object_identity =
  oi_namespace :: string
  oi_name :: string
  oi_uid :: string

record binding_subnet =
  bs_name :: string
  bs_uid :: string
  bs_cidr :: string
  bs_gateway :: string
  bs_native_subnet_name :: string
  bs_deleting :: bool

record remote_subnet =
  rs_location_ref :: string
  rs_cidr :: string

record gateway_link =
  gl_peer_id :: string
  gl_listen_port :: int
  gl_tunnel_ip :: string
  gl_control_vni :: u32

record gateway_endpoint =
  ge_id :: string
  ge_node_name :: string
  ge_node_uid :: string
  ge_endpoint_ip :: string
  ge_transit_ip :: string
  ge_public_key :: string
  ge_local_asn :: u32
  ge_health_ip :: string
  ge_links :: "gateway_link list"
  ge_ready :: bool

record link_allocation =
  la_peer_a :: string
  la_peer_b :: string
  la_control_vni :: u32

record peer_gateway =
  pg_location_ref :: string
  pg_endpoint :: gateway_endpoint

record binding_spec =
  b_vpc_ref :: object_identity
  b_network_id :: u32
  b_local_asn :: u32
  b_location_ref :: string
  b_network_class_ref :: string
  b_native_vpc_name :: string
  b_transport_profile :: string
  b_subnets :: "binding_subnet list"
  b_authorized_locations :: "string list"
  b_remote_subnets :: "remote_subnet list"
  b_peers :: "peer_gateway list"
  b_link_allocations :: "link_allocation list"
  b_revision :: string
  b_deleting :: bool

record resource_record =
  rr_api_version :: string
  rr_kind :: string
  rr_namespace :: string
  rr_name :: string
  rr_uid :: string

record binding_status =
  bst_observed_generation :: int
  bst_phase :: string
  bst_applied_revision :: string
  bst_resources :: "resource_record list"
  bst_gateways :: "gateway_endpoint list"
  bst_conditions :: "condition list"

record network_binding =
  nb_meta :: object_meta
  nb_spec :: binding_spec
  nb_status :: binding_status

definition empty_binding_status :: binding_status where
  "empty_binding_status = \<lparr>bst_observed_generation = 0, bst_phase = [], bst_applied_revision = [],
     bst_resources = [], bst_gateways = [], bst_conditions = []\<rparr>"

text \<open>The constants of the package.\<close>

definition api_owner_label :: string where
  "api_owner_label = ''platform.globalvpc.io/owner-uid''"

definition api_location_label :: string where
  "api_location_label = ''platform.globalvpc.io/location''"

definition api_group_version :: string where
  "api_group_version = ''platform.globalvpc.io/v1alpha2''"

section \<open>JSON\<close>

definition json_u32 :: "u32 \<Rightarrow> json" where
  "json_u32 w = json_nat (unat w)"

definition identity_json :: "object_identity \<Rightarrow> json" where
  "identity_json i = JObj [(''namespace'', JStr (oi_namespace i)), (''name'', JStr (oi_name i)),
     (''uid'', JStr (oi_uid i))]"

definition binding_subnet_json :: "binding_subnet \<Rightarrow> json" where
  "binding_subnet_json s = JObj ([(''name'', JStr (bs_name s)), (''uid'', JStr (bs_uid s)),
     (''cidr'', JStr (bs_cidr s)), (''gateway'', JStr (bs_gateway s)),
     (''nativeSubnetName'', JStr (bs_native_subnet_name s))]
     @ omit_empty (\<not> bs_deleting s) (''deleting'', JBool (bs_deleting s)))"

definition remote_subnet_json :: "remote_subnet \<Rightarrow> json" where
  "remote_subnet_json r = JObj [(''locationRef'', JStr (rs_location_ref r)), (''cidr'', JStr (rs_cidr r))]"

definition gateway_link_json :: "gateway_link \<Rightarrow> json" where
  "gateway_link_json l = JObj ([(''peerID'', JStr (gl_peer_id l)), (''listenPort'', json_int (gl_listen_port l)),
     (''tunnelIP'', JStr (gl_tunnel_ip l))]
     @ omit_empty (gl_control_vni l = 0) (''controlVNI'', json_u32 (gl_control_vni l)))"

definition gateway_endpoint_json :: "gateway_endpoint \<Rightarrow> json" where
  "gateway_endpoint_json g = JObj ([(''id'', JStr (ge_id g)), (''nodeName'', JStr (ge_node_name g)),
     (''nodeUID'', JStr (ge_node_uid g))]
     @ omit_empty (ge_endpoint_ip g = []) (''endpointIP'', JStr (ge_endpoint_ip g))
     @ omit_empty (ge_transit_ip g = []) (''transitIP'', JStr (ge_transit_ip g))
     @ omit_empty (ge_public_key g = []) (''publicKey'', JStr (ge_public_key g))
     @ omit_empty (ge_local_asn g = 0) (''localASN'', json_u32 (ge_local_asn g))
     @ omit_empty (ge_health_ip g = []) (''healthIP'', JStr (ge_health_ip g))
     @ omit_empty (ge_links g = []) (''links'', JArr (map gateway_link_json (ge_links g)))
     @ [(''ready'', JBool (ge_ready g))])"

definition link_allocation_json :: "link_allocation \<Rightarrow> json" where
  "link_allocation_json l = JObj [(''peerA'', JStr (la_peer_a l)), (''peerB'', JStr (la_peer_b l)),
     (''controlVNI'', json_u32 (la_control_vni l))]"

definition peer_gateway_json :: "peer_gateway \<Rightarrow> json" where
  "peer_gateway_json p = JObj [(''locationRef'', JStr (pg_location_ref p)),
     (''endpoint'', gateway_endpoint_json (pg_endpoint p))]"

definition binding_spec_json :: "binding_spec \<Rightarrow> json" where
  "binding_spec_json b = JObj ([(''vpcRef'', identity_json (b_vpc_ref b)),
     (''networkID'', json_u32 (b_network_id b)), (''localASN'', json_u32 (b_local_asn b)),
     (''locationRef'', JStr (b_location_ref b)), (''networkClassRef'', JStr (b_network_class_ref b)),
     (''nativeVpcName'', JStr (b_native_vpc_name b)), (''transportProfile'', JStr (b_transport_profile b))]
     @ omit_empty (b_subnets b = []) (''subnets'', JArr (map binding_subnet_json (b_subnets b)))
     @ omit_empty (b_authorized_locations b = []) (''authorizedLocations'', JArr (map JStr (b_authorized_locations b)))
     @ omit_empty (b_remote_subnets b = []) (''remoteSubnets'', JArr (map remote_subnet_json (b_remote_subnets b)))
     @ omit_empty (b_peers b = []) (''peers'', JArr (map peer_gateway_json (b_peers b)))
     @ omit_empty (b_link_allocations b = []) (''linkAllocations'', JArr (map link_allocation_json (b_link_allocations b)))
     @ [(''revision'', JStr (b_revision b))]
     @ omit_empty (\<not> b_deleting b) (''deleting'', JBool (b_deleting b)))"

section \<open>The text determines the value\<close>

lemma omit_empty_simps [simp]: "omit_empty True f = []" "omit_empty False f = [f]"
  by (simp_all add: omit_empty_def)

lemma map_of_append_omit [simp]:
  "map_of (omit_empty e (k, v) @ m) x = (if \<not> e \<and> x = k then Some v else map_of m x)"
  by (simp add: omit_empty_def)

lemma map_of_omit [simp]: "map_of (omit_empty e (k, v)) x = (if \<not> e \<and> x = k then Some v else None)"
  by (simp add: omit_empty_def)

lemma int_str_of_nat: "int_str (int n) = nat_str n"
  by (simp add: int_str_def)

lemma int_str_inject [simp]: "int_str i = int_str j \<longleftrightarrow> i = j"
proof
  assume eq: "int_str i = int_str j"
  have "hd (int_str k) = CHR ''-'' \<longleftrightarrow> k < 0" for k
    using hd_nat_str_not_sign [of "nat k"] by (simp add: int_str_def)
  with eq have "i < 0 \<longleftrightarrow> j < 0" by metis
  with eq show "i = j" by (auto simp: int_str_def split: if_splits)
qed simp

lemma json_u32_inject [simp]: "json_u32 a = json_u32 b \<longleftrightarrow> a = b"
  by (simp add: json_u32_def json_nat_def word_unat_eq_iff)

lemma JObj_eqD: "JObj a = JObj b \<Longrightarrow> map_of a k = map_of b k"
  by simp

lemma identity_json_inject [simp]: "identity_json a = identity_json b \<longleftrightarrow> a = b"
  by (auto simp: identity_json_def)

lemma remote_subnet_json_inject [simp]: "remote_subnet_json a = remote_subnet_json b \<longleftrightarrow> a = b"
  by (auto simp: remote_subnet_json_def)

lemma link_allocation_json_inject [simp]: "link_allocation_json a = link_allocation_json b \<longleftrightarrow> a = b"
  by (auto simp: link_allocation_json_def)

lemma binding_subnet_json_inject [simp]: "binding_subnet_json a = binding_subnet_json b \<longleftrightarrow> a = b"
  by (cases "bs_deleting a"; cases "bs_deleting b") (auto simp: binding_subnet_json_def)

lemma gateway_link_json_inject [simp]: "gateway_link_json a = gateway_link_json b \<longleftrightarrow> a = b"
  by (cases "gl_control_vni a = 0"; cases "gl_control_vni b = 0")
    (auto simp: gateway_link_json_def json_int_def)

lemma map_json_inject:
  "map gateway_link_json ls = map gateway_link_json ls' \<longleftrightarrow> ls = ls'"
  "map binding_subnet_json bs = map binding_subnet_json bs' \<longleftrightarrow> bs = bs'"
  "map remote_subnet_json rs = map remote_subnet_json rs' \<longleftrightarrow> rs = rs'"
  "map link_allocation_json as = map link_allocation_json as' \<longleftrightarrow> as = as'"
  "map JStr ss = map JStr ss' \<longleftrightarrow> ss = ss'"
  by (rule inj_map_eq_map, rule injI, simp)+

lemma gateway_endpoint_json_inject [simp]: "gateway_endpoint_json a = gateway_endpoint_json b \<longleftrightarrow> a = b"
proof
  assume "gateway_endpoint_json a = gateway_endpoint_json b"
  note f = JObj_eqD [OF this [unfolded gateway_endpoint_json_def]]
  have "ge_id a = ge_id b" "ge_node_name a = ge_node_name b" "ge_node_uid a = ge_node_uid b"
    "ge_ready a = ge_ready b"
    using f [of "''id''"] f [of "''nodeName''"] f [of "''nodeUID''"] f [of "''ready''"]
    by (simp_all del: map_of_append)
  moreover have "ge_endpoint_ip a = ge_endpoint_ip b" "ge_transit_ip a = ge_transit_ip b"
    "ge_public_key a = ge_public_key b"
    using f [of "''endpointIP''"] f [of "''transitIP''"] f [of "''publicKey''"]
    by (simp_all del: map_of_append split: if_splits)
  moreover have "ge_local_asn a = ge_local_asn b" "ge_health_ip a = ge_health_ip b" "ge_links a = ge_links b"
    using f [of "''localASN''"] f [of "''healthIP''"] f [of "''links''"]
    by (simp_all add: map_json_inject del: map_of_append split: if_splits)
  ultimately show "a = b" by (intro gateway_endpoint.equality) simp_all
qed simp

lemma peer_gateway_json_inject [simp]: "peer_gateway_json a = peer_gateway_json b \<longleftrightarrow> a = b"
  by (auto simp: peer_gateway_json_def)

lemma map_peer_json_inject [simp]: "map peer_gateway_json ps = map peer_gateway_json ps' \<longleftrightarrow> ps = ps'"
  by (rule inj_map_eq_map, rule injI, simp)

theorem binding_spec_json_inject: "binding_spec_json a = binding_spec_json b \<longleftrightarrow> a = b"
proof
  assume "binding_spec_json a = binding_spec_json b"
  note f = JObj_eqD [OF this [unfolded binding_spec_json_def]]
  have "b_vpc_ref a = b_vpc_ref b" "b_network_id a = b_network_id b" "b_local_asn a = b_local_asn b"
    "b_location_ref a = b_location_ref b" "b_network_class_ref a = b_network_class_ref b"
    "b_native_vpc_name a = b_native_vpc_name b" "b_transport_profile a = b_transport_profile b"
    using f [of "''vpcRef''"] f [of "''networkID''"] f [of "''localASN''"] f [of "''locationRef''"]
      f [of "''networkClassRef''"] f [of "''nativeVpcName''"] f [of "''transportProfile''"]
    by (simp_all del: map_of_append)
  moreover have "b_subnets a = b_subnets b" "b_authorized_locations a = b_authorized_locations b"
    "b_remote_subnets a = b_remote_subnets b" "b_peers a = b_peers b"
    "b_link_allocations a = b_link_allocations b"
    using f [of "''subnets''"] f [of "''authorizedLocations''"] f [of "''remoteSubnets''"]
      f [of "''peers''"] f [of "''linkAllocations''"]
    by (simp_all add: map_json_inject del: map_of_append split: if_splits)
  moreover have "b_revision a = b_revision b" "b_deleting a = b_deleting b"
    using f [of "''revision''"] f [of "''deleting''"]
    by (simp_all del: map_of_append split: if_splits)
  ultimately show "a = b" by (intro binding_spec.equality) simp_all
qed simp

text \<open>A specification whose strings are bytes below 128 has a text that reads back.\<close>

definition ascii_endpoint :: "gateway_endpoint \<Rightarrow> bool" where
  "ascii_endpoint g \<longleftrightarrow> list_all ascii [ge_id g, ge_node_name g, ge_node_uid g, ge_endpoint_ip g,
     ge_transit_ip g, ge_public_key g, ge_health_ip g]
     \<and> (\<forall>l\<in>set (ge_links g). ascii (gl_peer_id l) \<and> ascii (gl_tunnel_ip l))"

definition ascii_spec :: "binding_spec \<Rightarrow> bool" where
  "ascii_spec b \<longleftrightarrow> list_all ascii [oi_namespace (b_vpc_ref b), oi_name (b_vpc_ref b), oi_uid (b_vpc_ref b),
     b_location_ref b, b_network_class_ref b, b_native_vpc_name b, b_transport_profile b, b_revision b]
     \<and> list_all ascii (b_authorized_locations b)
     \<and> (\<forall>s\<in>set (b_subnets b). list_all ascii [bs_name s, bs_uid s, bs_cidr s, bs_gateway s, bs_native_subnet_name s])
     \<and> (\<forall>r\<in>set (b_remote_subnets b). ascii (rs_location_ref r) \<and> ascii (rs_cidr r))
     \<and> (\<forall>p\<in>set (b_peers b). ascii (pg_location_ref p) \<and> ascii_endpoint (pg_endpoint p))
     \<and> (\<forall>l\<in>set (b_link_allocations b). ascii (la_peer_a l) \<and> ascii (la_peer_b l))"

lemma plain_json_nat [simp]: "plain_json (json_nat n)"
  by (auto simp: json_nat_def int_str_of_nat [symmetric])

lemma plain_json_u32 [simp]: "plain_json (json_u32 w)"
  by (simp add: json_u32_def)

lemma plain_json_int [simp]: "plain_json (json_int i)"
  by (auto simp: json_int_def)

lemma ascii_keys [simp]: "ascii s" if "list_all (\<lambda>c. of_char c < (128::nat)) s"
  using that by (simp add: ascii_def list_all_iff)

lemma set_omit_empty: "x \<in> set (omit_empty e f) \<longleftrightarrow> \<not> e \<and> x = f"
  by (auto simp: omit_empty_def)

lemma plain_gateway_link: "ascii (gl_peer_id l) \<Longrightarrow> ascii (gl_tunnel_ip l) \<Longrightarrow> plain_json (gateway_link_json l)"
  by (auto simp: gateway_link_json_def set_omit_empty)

lemma plain_gateway_endpoint: "ascii_endpoint g \<Longrightarrow> plain_json (gateway_endpoint_json g)"
  by (auto simp: gateway_endpoint_json_def ascii_endpoint_def set_omit_empty plain_gateway_link)

lemma plain_binding_spec: "ascii_spec b \<Longrightarrow> plain_json (binding_spec_json b)"
  by (auto simp: binding_spec_json_def ascii_spec_def set_omit_empty identity_json_def
      binding_subnet_json_def remote_subnet_json_def peer_gateway_json_def link_allocation_json_def
      plain_gateway_endpoint list_all_iff)

lemma binding_spec_text_inject:
  "ascii_spec a \<Longrightarrow> ascii_spec b \<Longrightarrow>
    json_enc (binding_spec_json a) = json_enc (binding_spec_json b) \<longleftrightarrow> a = b"
  by (simp add: json_enc_inject plain_binding_spec binding_spec_json_inject)

end
