(* ===== verification/Platform_Plan.thy ===== *)
theory Platform_Plan
  imports Platform_Config Api_V1alpha2 Go_Sha256
begin

text \<open>
  \<open>internal/platformplan\<close>: the compiler from VPC and Subnet intent to one NetworkBinding snapshot
  per location. It is a pure function of the VPC, its admitted subnets, the existing bindings and
  the configuration. The lemmas give the content of the result: one snapshot per location that has
  a subnet or an existing snapshot, the subnets of the location, the remote subnets that are not
  yet withdrawn, the peers of other locations, and a revision that is the digest of the rest.
\<close>

section \<open>Names\<close>

definition plan_owner_label :: string where
  "plan_owner_label = ''platform.globalvpc.io/vpc-uid''"

definition plan_location_label :: string where
  "plan_location_label = ''platform.globalvpc.io/location''"

definition plan_project_label :: string where
  "plan_project_label = ''platform.globalvpc.io/project''"

definition plan_finalizer :: string where
  "plan_finalizer = ''platform.globalvpc.io/managed-cleanup''"

definition short :: "string \<Rightarrow> string" where
  "short value = take 20 (sha256_hex value)"

definition binding_name :: "string \<Rightarrow> string \<Rightarrow> string" where
  "binding_name uid location = ''nb-'' @ short (uid @ ''/'' @ location)"

definition vpc_name :: "string \<Rightarrow> string \<Rightarrow> string" where
  "vpc_name uid location = ''pv-'' @ short (uid @ ''/'' @ location)"

definition subnet_name :: "string \<Rightarrow> string" where
  "subnet_name uid = ''ps-'' @ short uid"

section \<open>Validation and revision\<close>

definition validate_subnet :: "vpc \<Rightarrow> subnet \<Rightarrow> platform_config \<Rightarrow> unit res" where
  "validate_subnet v s cfg =
     rbind (guard (om_namespace (s_meta s) = om_namespace (v_meta v) \<and> ss_vpc_ref (s_spec s) = om_name (v_meta v))
       ''subnet must reference a VPC in its project'') (\<lambda>_.
     rbind (guard (sst_vpc_uid (s_status s) = [] \<or> sst_vpc_uid (s_status s) = om_uid (v_meta v))
       ''VPC identity changed; subnet cannot adopt a same-name replacement'') (\<lambda>_.
     rbind (get_location cfg (ss_location_ref (s_spec s)) (om_namespace (s_meta s))) (\<lambda>l.
     rbind (site_prefix (ss_cidr (s_spec s))) (\<lambda>_.
     guard (allows_cidr l (ss_cidr (s_spec s))) ''CIDR is outside this location's reserved workload pools''))))"

definition mask_ready :: "peer_gateway \<Rightarrow> peer_gateway" where
  "mask_ready p = p\<lparr>pg_endpoint := (pg_endpoint p)\<lparr>ge_ready := False\<rparr>\<rparr>"

definition revision :: "binding_spec \<Rightarrow> string" where
  "revision spec =
     sha256_hex (json_enc (binding_spec_json (spec\<lparr>b_revision := [], b_peers := map mask_ready (b_peers spec)\<rparr>)))"

section \<open>Build\<close>

text \<open>The locations of the existing bindings.\<close>

definition add_existing :: "vpc \<Rightarrow> location smap \<Rightarrow> network_binding \<Rightarrow> location smap res" where
  "add_existing v locs b =
     (if oi_uid (b_vpc_ref (nb_spec b)) \<noteq> om_uid (v_meta v)
         \<or> oi_namespace (b_vpc_ref (nb_spec b)) \<noteq> om_namespace (v_meta v)
      then Inl ''foreign binding identity''
      else let name = b_location_ref (nb_spec b)
           in Inr (mput name \<lparr>loc_name = name, loc_region = [], loc_site = [], loc_dc = [],
                loc_binding_namespace = om_namespace (nb_meta b), loc_allowed_projects = [], loc_cidr_pools = []\<rparr> locs))"

definition subnets_at :: "binding_subnet list smap \<Rightarrow> string \<Rightarrow> binding_subnet list" where
  "subnets_at m name = (case map_of m name of None \<Rightarrow> [] | Some xs \<Rightarrow> xs)"

definition binding_subnet_of :: "subnet \<Rightarrow> prefix \<Rightarrow> binding_subnet" where
  "binding_subnet_of s p = \<lparr>bs_name = om_name (s_meta s), bs_uid = om_uid (s_meta s), bs_cidr = ss_cidr (s_spec s),
     bs_gateway = addr_text (addr_next (p_addr p)), bs_native_subnet_name = subnet_name (om_uid (s_meta s)),
     bs_deleting = deleting_meta (s_meta s)\<rparr>"

type_synonym collected = "binding_subnet list smap \<times> location smap"

definition add_subnet :: "vpc \<Rightarrow> platform_config \<Rightarrow> collected \<Rightarrow> subnet \<Rightarrow> collected res" where
  "add_subnet v cfg st s = (case st of (by_location, locs) \<Rightarrow>
     if sst_vpc_uid (s_status s) \<noteq> om_uid (v_meta v) then Inr (by_location, locs)
     else rbind (get_location cfg (ss_location_ref (s_spec s)) (om_namespace (s_meta s))) (\<lambda>l.
          rbind (site_prefix (ss_cidr (s_spec s))) (\<lambda>p.
          Inr (mput (loc_name l) (subnets_at by_location (loc_name l) @ [binding_subnet_of s p]) by_location,
               mput (loc_name l) l locs))))"

text \<open>Whether a location acknowledged that it no longer has a native subnet.\<close>

fun withdrawn :: "network_binding list \<Rightarrow> string \<Rightarrow> string \<Rightarrow> bool" where
  "withdrawn [] location name = False"
| "withdrawn (b # bs) location name =
     (if b_location_ref (nb_spec b) \<noteq> location \<or> bst_applied_revision (nb_status b) \<noteq> b_revision (nb_spec b)
      then withdrawn bs location name
      else \<not> list_ex (\<lambda>r. rr_kind r = ''Subnet'' \<and> rr_name r = name) (bst_resources (nb_status b)))"

definition remote_subnets ::
  "binding_subnet list smap \<Rightarrow> network_binding list \<Rightarrow> string list \<Rightarrow> string \<Rightarrow> remote_subnet list" where
  "remote_subnets by_location existing names name =
     concat (map (\<lambda>remote. if remote = name then []
       else map (\<lambda>s. \<lparr>rs_location_ref = remote, rs_cidr = bs_cidr s\<rparr>)
              (filter (\<lambda>s. \<not> bs_deleting s \<or> \<not> withdrawn existing remote (bs_native_subnet_name s))
                (subnets_at by_location remote))) names)"

text \<open>One registered gateway of a remote binding; \<open>ids\<close> and \<open>nodes\<close> are those already seen.\<close>

definition registration_ok :: "gateway_endpoint \<Rightarrow> string list \<Rightarrow> string list \<Rightarrow> bool" where
  "registration_ok g ids nodes \<longleftrightarrow>
     (case (parse_addr (ge_endpoint_ip g), parse_addr (ge_transit_ip g)) of
        (Some (V4 ip), Some (V4 _)) \<Rightarrow> v4_global_unicast ip
      | _ \<Rightarrow> False)
     \<and> ge_id g \<noteq> [] \<and> ge_node_uid g \<noteq> [] \<and> ge_node_name g \<noteq> []
     \<and> ge_id g \<notin> set ids \<and> ge_node_uid g \<notin> set nodes"

definition public_endpoint :: "string \<Rightarrow> gateway_endpoint \<Rightarrow> gateway_endpoint" where
  "public_endpoint name g =
     g\<lparr>ge_ready := False, ge_links := filter (\<lambda>l. has_prefix (gl_peer_id l) (name @ ''/'')) (ge_links g)\<rparr>"

definition add_gateway ::
  "string \<Rightarrow> string \<Rightarrow> string list \<times> string list \<times> peer_gateway list \<Rightarrow> gateway_endpoint
     \<Rightarrow> (string list \<times> string list \<times> peer_gateway list) res" where
  "add_gateway name remote st g = (case st of (ids, nodes, peers) \<Rightarrow>
     if \<not> registration_ok g ids nodes then Inl (''invalid gateway registration at '' @ remote)
     else Inr (ge_id g # ids, ge_node_uid g # nodes,
            peers @ [\<lparr>pg_location_ref = remote, pg_endpoint = public_endpoint name g\<rparr>]))"

definition add_peers ::
  "binding_subnet list smap \<Rightarrow> string \<Rightarrow> peer_gateway list \<Rightarrow> network_binding \<Rightarrow> peer_gateway list res" where
  "add_peers by_location name peers remote =
     (let r = b_location_ref (nb_spec remote)
      in if r = name \<or> subnets_at by_location r = [] then Inr peers
         else rbind (foldr_res (add_gateway name r) ([], [], peers) (bst_gateways (nb_status remote)))
                (\<lambda>(_, _, ps). Inr ps))"

definition build_binding ::
  "vpc \<Rightarrow> string \<Rightarrow> network_class \<Rightarrow> network_binding list \<Rightarrow> collected \<Rightarrow> string list \<Rightarrow> string list
     \<Rightarrow> string \<Rightarrow> network_binding res" where
  "build_binding v class_name class existing st names authorized name = (case st of (by_location, locs) \<Rightarrow>
     let own = sort_slice bs_uid (subnets_at by_location name);
         ns = (case map_of locs name of None \<Rightarrow> [] | Some l \<Rightarrow> loc_binding_namespace l);
         uid = om_uid (v_meta v)
     in rbind (foldr_res (add_peers by_location name) [] existing) (\<lambda>peers.
        let spec = \<lparr>b_vpc_ref = \<lparr>oi_namespace = om_namespace (v_meta v), oi_name = om_name (v_meta v), oi_uid = uid\<rparr>,
              b_network_id = 0, b_local_asn = 0, b_location_ref = name, b_network_class_ref = class_name,
              b_native_vpc_name = vpc_name uid name, b_transport_profile = nc_transport_profile class,
              b_subnets = own, b_authorized_locations = authorized,
              b_remote_subnets = sort_slice (\<lambda>r. rs_location_ref r @ ''/'' @ rs_cidr r)
                (remote_subnets by_location existing names name),
              b_peers = sort_slice (\<lambda>p. pg_location_ref p @ ''/'' @ ge_id (pg_endpoint p)) peers,
              b_link_allocations = [], b_revision = [], b_deleting = (own = [])\<rparr>
        in Inr \<lparr>nb_meta = empty_meta\<lparr>om_name := binding_name uid name, om_namespace := ns,
                  om_labels := [(plan_owner_label, uid), (plan_location_label, name),
                                (plan_project_label, om_namespace (v_meta v))]\<rparr>,
                nb_spec = spec\<lparr>b_revision := revision spec\<rparr>, nb_status = empty_binding_status\<rparr>))"

definition build :: "vpc \<Rightarrow> subnet list \<Rightarrow> network_binding list \<Rightarrow> platform_config \<Rightarrow> network_binding list res" where
  "build v subnets existing cfg =
     (let class_name = (if vs_network_class_ref (v_spec v) = [] then ''default'' else vs_network_class_ref (v_spec v))
      in case map_of (pcf_network_classes cfg) class_name of
           None \<Rightarrow> Inl (''network class '' @ class_name @ '' is not registered'')
         | Some class \<Rightarrow>
             rbind (foldr_res (add_existing v) [] existing) (\<lambda>locs0.
             rbind (foldr_res (add_subnet v cfg) ([], locs0) subnets) (\<lambda>st.
             let names = sort_strings (map fst (snd st));
                 authorized = filter (\<lambda>name. subnets_at (fst st) name \<noteq> []) names
             in map_res (build_binding v class_name class existing st names authorized) names)))"

section \<open>What a plan contains\<close>

text \<open>The specification of the collected state, over the subnets that were admitted to this VPC.\<close>

definition admitted :: "vpc \<Rightarrow> subnet list \<Rightarrow> subnet list" where
  "admitted v subnets = filter (\<lambda>s. sst_vpc_uid (s_status s) = om_uid (v_meta v)) subnets"

definition compiled :: "subnet \<Rightarrow> binding_subnet" where
  "compiled s = binding_subnet_of s (case site_prefix (ss_cidr (s_spec s)) of Inl _ \<Rightarrow> prefix_zero | Inr p \<Rightarrow> p)"

definition planned_at :: "vpc \<Rightarrow> subnet list \<Rightarrow> string \<Rightarrow> binding_subnet list" where
  "planned_at v subnets name = map compiled (filter (\<lambda>s. ss_location_ref (s_spec s) = name) (admitted v subnets))"

definition plan_locations :: "vpc \<Rightarrow> subnet list \<Rightarrow> network_binding list \<Rightarrow> string set" where
  "plan_locations v subnets existing =
     (\<lambda>b. b_location_ref (nb_spec b)) ` set existing \<union> (\<lambda>s. ss_location_ref (s_spec s)) ` set (admitted v subnets)"

lemma compiled_simps [simp]:
  "bs_name (compiled s) = om_name (s_meta s)" "bs_uid (compiled s) = om_uid (s_meta s)"
  "bs_cidr (compiled s) = ss_cidr (s_spec s)" "bs_native_subnet_name (compiled s) = subnet_name (om_uid (s_meta s))"
  "bs_deleting (compiled s) = deleting_meta (s_meta s)"
  by (simp_all add: compiled_def binding_subnet_of_def)

lemma admitted_Nil [simp]: "admitted v [] = []"
  and admitted_snoc [simp]: "admitted v (ss @ [s])
    = admitted v ss @ (if sst_vpc_uid (s_status s) = om_uid (v_meta v) then [s] else [])"
  by (simp_all add: admitted_def)

lemma planned_at_snoc [simp]: "planned_at v (ss @ [s]) name = planned_at v ss name
    @ (if sst_vpc_uid (s_status s) = om_uid (v_meta v) \<and> ss_location_ref (s_spec s) = name then [compiled s] else [])"
  by (simp add: planned_at_def)

lemma planned_at_Nil [simp]: "planned_at v [] name = []"
  by (simp add: planned_at_def)

lemma subnets_at_mput [simp]:
  "subnets_at (mput k xs m) name = (if name = k then xs else subnets_at m name)"
  by (simp add: subnets_at_def)

lemma add_existing_fold:
  assumes "foldr_res (add_existing v) [] existing = Inr locs"
  shows "fst ` set locs = (\<lambda>b. b_location_ref (nb_spec b)) ` set existing \<and> distinct (map fst locs)
    \<and> (\<forall>b\<in>set existing. oi_uid (b_vpc_ref (nb_spec b)) = om_uid (v_meta v)
         \<and> oi_namespace (b_vpc_ref (nb_spec b)) = om_namespace (v_meta v))"
  by (rule foldr_res_invariant [OF assms, where I = "\<lambda>done locs.
      fst ` set locs = (\<lambda>b. b_location_ref (nb_spec b)) ` set done \<and> distinct (map fst locs)
      \<and> (\<forall>b\<in>set done. oi_uid (b_vpc_ref (nb_spec b)) = om_uid (v_meta v)
           \<and> oi_namespace (b_vpc_ref (nb_spec b)) = om_namespace (v_meta v))"])
    (simp, clarsimp simp: add_existing_def Let_def split: if_splits)

lemma add_subnet_fold:
  assumes "foldr_res (add_subnet v cfg) ([], locs0) subnets = Inr (by_location, locs)"
    and "distinct (map fst locs0)"
  shows "(\<forall>name. subnets_at by_location name = planned_at v subnets name)
    \<and> fst ` set locs = fst ` set locs0 \<union> (\<lambda>s. ss_location_ref (s_spec s)) ` set (admitted v subnets)
    \<and> distinct (map fst locs)
    \<and> (\<forall>s\<in>set (admitted v subnets). is_ok (site_prefix (ss_cidr (s_spec s)))
         \<and> is_ok (get_location cfg (ss_location_ref (s_spec s)) (om_namespace (s_meta s))))"
proof -
  let ?J = "\<lambda>done st. (\<forall>name. subnets_at (fst st) name = planned_at v done name)
    \<and> fst ` set (snd st) = fst ` set locs0 \<union> (\<lambda>s. ss_location_ref (s_spec s)) ` set (admitted v done)
    \<and> distinct (map fst (snd st))
    \<and> (\<forall>s\<in>set (admitted v done). is_ok (site_prefix (ss_cidr (s_spec s)))
         \<and> is_ok (get_location cfg (ss_location_ref (s_spec s)) (om_namespace (s_meta s))))"
  have "?J subnets (by_location, locs)"
  proof (rule foldr_res_invariant [OF assms(1)])
    show "?J [] ([], locs0)" using assms(2) by (simp add: subnets_at_def)
  next
    fix "done" s st st'
    assume J: "?J done st" and step: "add_subnet v cfg st s = Inr st'"
    obtain m locs where st: "st = (m, locs)" by fastforce
    show "?J (done @ [s]) st'"
    proof (cases "sst_vpc_uid (s_status s) = om_uid (v_meta v)")
      case True
      with step st obtain l p where l: "get_location cfg (ss_location_ref (s_spec s)) (om_namespace (s_meta s)) = Inr l"
        and p: "site_prefix (ss_cidr (s_spec s)) = Inr p"
        and st': "st' = (mput (loc_name l) (subnets_at m (loc_name l) @ [binding_subnet_of s p]) m, mput (loc_name l) l locs)"
        by (auto simp: add_subnet_def)
      have "loc_name l = ss_location_ref (s_spec s)" using get_location_sound [OF l] by simp
      moreover have "compiled s = binding_subnet_of s p" using p by (simp add: compiled_def)
      ultimately show ?thesis using J True l p unfolding st st' by (simp add: insert_commute)
    next
      case False
      with step st J show ?thesis by (simp add: add_subnet_def)
    qed
  qed
  then show ?thesis by simp
qed

text \<open>
  One snapshot of a successful plan, in terms of the specification: everything the later lemmas
  say about a plan is read off here.
\<close>

definition planned_remote :: "vpc \<Rightarrow> subnet list \<Rightarrow> network_binding list \<Rightarrow> string \<Rightarrow> remote_subnet set" where
  "planned_remote v subnets existing name = {\<lparr>rs_location_ref = ss_location_ref (s_spec s), rs_cidr = ss_cidr (s_spec s)\<rparr> | s.
     s \<in> set (admitted v subnets) \<and> ss_location_ref (s_spec s) \<noteq> name
     \<and> \<not> (deleting_meta (s_meta s) \<and> withdrawn existing (ss_location_ref (s_spec s)) (subnet_name (om_uid (s_meta s))))}"

definition planned_peers :: "vpc \<Rightarrow> subnet list \<Rightarrow> network_binding list \<Rightarrow> string \<Rightarrow> peer_gateway set" where
  "planned_peers v subnets existing name =
     {\<lparr>pg_location_ref = b_location_ref (nb_spec r), pg_endpoint = public_endpoint name g\<rparr> | r g.
        r \<in> set existing \<and> g \<in> set (bst_gateways (nb_status r)) \<and> b_location_ref (nb_spec r) \<noteq> name
        \<and> planned_at v subnets (b_location_ref (nb_spec r)) \<noteq> []}"

lemma add_gateway_fold:
  assumes "foldr_res (add_gateway name r) ([], [], peers) gs = Inr st"
  shows "snd (snd st) = peers @ map (\<lambda>g. \<lparr>pg_location_ref = r, pg_endpoint = public_endpoint name g\<rparr>) gs
    \<and> fst st = rev (map ge_id gs) \<and> fst (snd st) = rev (map ge_node_uid gs)
    \<and> distinct (map ge_id gs) \<and> distinct (map ge_node_uid gs) \<and> (\<forall>g\<in>set gs. registration_ok g [] [])"
  by (rule foldr_res_invariant [OF assms, where I = "\<lambda>done st.
      snd (snd st) = peers @ map (\<lambda>g. \<lparr>pg_location_ref = r, pg_endpoint = public_endpoint name g\<rparr>) done
      \<and> fst st = rev (map ge_id done) \<and> fst (snd st) = rev (map ge_node_uid done)
      \<and> distinct (map ge_id done) \<and> distinct (map ge_node_uid done) \<and> (\<forall>g\<in>set done. registration_ok g [] [])"])
    (auto simp: add_gateway_def registration_ok_def split: if_splits prod.splits)

lemma add_peers_fold:
  assumes "foldr_res (add_peers m name) [] existing = Inr peers"
  shows "peers = concat (map (\<lambda>r. if b_location_ref (nb_spec r) = name \<or> subnets_at m (b_location_ref (nb_spec r)) = [] then []
      else map (\<lambda>g. \<lparr>pg_location_ref = b_location_ref (nb_spec r), pg_endpoint = public_endpoint name g\<rparr>)
             (bst_gateways (nb_status r))) existing)"
  by (rule foldr_res_invariant [OF assms, where I = "\<lambda>done peers. peers = concat (map (\<lambda>r.
      if b_location_ref (nb_spec r) = name \<or> subnets_at m (b_location_ref (nb_spec r)) = [] then []
      else map (\<lambda>g. \<lparr>pg_location_ref = b_location_ref (nb_spec r), pg_endpoint = public_endpoint name g\<rparr>)
             (bst_gateways (nb_status r))) done)"])
    (auto simp: add_peers_def Let_def dest!: add_gateway_fold split: if_splits prod.splits)

lemma remote_subnets_member:
  "r \<in> set (remote_subnets m existing names name) \<longleftrightarrow> (\<exists>remote\<in>set names. remote \<noteq> name
     \<and> (\<exists>s\<in>set (subnets_at m remote). \<not> (bs_deleting s \<and> withdrawn existing remote (bs_native_subnet_name s))
          \<and> r = \<lparr>rs_location_ref = remote, rs_cidr = bs_cidr s\<rparr>))"
  by (auto simp: remote_subnets_def split: if_splits)

lemma planned_at_empty:
  "planned_at v subnets name = [] \<longleftrightarrow> name \<notin> (\<lambda>s. ss_location_ref (s_spec s)) ` set (admitted v subnets)"
  by (auto simp: planned_at_def filter_empty_conv)

lemma remote_subnets_set:
  assumes "\<And>name. subnets_at m name = planned_at v subnets name"
    and "(\<lambda>s. ss_location_ref (s_spec s)) ` set (admitted v subnets) \<subseteq> set names"
  shows "set (remote_subnets m existing names name) = planned_remote v subnets existing name"
proof (intro equalityI subsetI)
  fix r assume "r \<in> planned_remote v subnets existing name"
  then obtain s where s: "s \<in> set (admitted v subnets)" "ss_location_ref (s_spec s) \<noteq> name"
    "\<not> (deleting_meta (s_meta s) \<and> withdrawn existing (ss_location_ref (s_spec s)) (subnet_name (om_uid (s_meta s))))"
    and r: "r = \<lparr>rs_location_ref = ss_location_ref (s_spec s), rs_cidr = ss_cidr (s_spec s)\<rparr>"
    by (auto simp: planned_remote_def)
  have "ss_location_ref (s_spec s) \<in> set names" using assms(2) s(1) by auto
  moreover have "compiled s \<in> set (planned_at v subnets (ss_location_ref (s_spec s)))"
    using s(1) by (simp add: planned_at_def)
  ultimately show "r \<in> set (remote_subnets m existing names name)"
    using s r unfolding remote_subnets_member assms(1)
    by (intro bexI [of _ "ss_location_ref (s_spec s)"] bexI [of _ "compiled s"] conjI) auto
qed (auto simp: remote_subnets_member planned_remote_def assms(1) planned_at_def)

lemma add_peers_registered:
  assumes "foldr_res (add_peers m name) [] existing = Inr peers"
    and "r \<in> set existing" "b_location_ref (nb_spec r) \<noteq> name" "subnets_at m (b_location_ref (nb_spec r)) \<noteq> []"
  shows "distinct (map ge_id (bst_gateways (nb_status r))) \<and> distinct (map ge_node_uid (bst_gateways (nb_status r)))
    \<and> (\<forall>g\<in>set (bst_gateways (nb_status r)). registration_ok g [] [])"
proof -
  have "\<forall>r\<in>set existing. b_location_ref (nb_spec r) \<noteq> name \<longrightarrow> subnets_at m (b_location_ref (nb_spec r)) \<noteq> [] \<longrightarrow>
    distinct (map ge_id (bst_gateways (nb_status r))) \<and> distinct (map ge_node_uid (bst_gateways (nb_status r)))
    \<and> (\<forall>g\<in>set (bst_gateways (nb_status r)). registration_ok g [] [])"
    by (rule foldr_res_invariant [OF assms(1), where I = "\<lambda>done _. \<forall>r\<in>set done. b_location_ref (nb_spec r) \<noteq> name
        \<longrightarrow> subnets_at m (b_location_ref (nb_spec r)) \<noteq> [] \<longrightarrow>
        distinct (map ge_id (bst_gateways (nb_status r))) \<and> distinct (map ge_node_uid (bst_gateways (nb_status r)))
        \<and> (\<forall>g\<in>set (bst_gateways (nb_status r)). registration_ok g [] [])"])
      (auto simp: add_peers_def Let_def dest!: add_gateway_fold split: if_splits)
  with assms(2-4) show ?thesis by blast
qed

lemma add_peers_set:
  assumes "foldr_res (add_peers m name) [] existing = Inr peers" and "\<And>name. subnets_at m name = planned_at v subnets name"
  shows "set peers = planned_peers v subnets existing name"
  unfolding add_peers_fold [OF assms(1)] planned_peers_def assms(2) by auto

lemma build_fields:
  assumes "build v subnets existing cfg = Inr bs"
  shows "map (\<lambda>b. b_location_ref (nb_spec b)) bs = sorted_list_of_set (plan_locations v subnets existing)" (is ?locs)
    and "b \<in> set bs \<Longrightarrow> b_subnets (nb_spec b) = sort_slice bs_uid (planned_at v subnets (b_location_ref (nb_spec b)))"
    and "b \<in> set bs \<Longrightarrow> set (b_remote_subnets (nb_spec b)) = planned_remote v subnets existing (b_location_ref (nb_spec b))"
    and "b \<in> set bs \<Longrightarrow> set (b_peers (nb_spec b)) = planned_peers v subnets existing (b_location_ref (nb_spec b))"
    and "b \<in> set bs \<Longrightarrow> b_deleting (nb_spec b) \<longleftrightarrow> planned_at v subnets (b_location_ref (nb_spec b)) = []"
    and "b \<in> set bs \<Longrightarrow> set (b_authorized_locations (nb_spec b)) = (\<lambda>s. ss_location_ref (s_spec s)) ` set (admitted v subnets)"
    and "b \<in> set bs \<Longrightarrow> om_name (nb_meta b) = binding_name (om_uid (v_meta v)) (b_location_ref (nb_spec b))"
    and "b \<in> set bs \<Longrightarrow> b_revision (nb_spec b) = revision (nb_spec b)"
    and "b \<in> set bs \<Longrightarrow> b_vpc_ref (nb_spec b)
      = \<lparr>oi_namespace = om_namespace (v_meta v), oi_name = om_name (v_meta v), oi_uid = om_uid (v_meta v)\<rparr>"
    and "b \<in> set bs \<Longrightarrow> r \<in> set existing \<Longrightarrow> b_location_ref (nb_spec r) \<noteq> b_location_ref (nb_spec b)
      \<Longrightarrow> planned_at v subnets (b_location_ref (nb_spec r)) \<noteq> []
      \<Longrightarrow> distinct (map ge_id (bst_gateways (nb_status r))) \<and> distinct (map ge_node_uid (bst_gateways (nb_status r)))
        \<and> (\<forall>g\<in>set (bst_gateways (nb_status r)). registration_ok g [] [])"
proof -
  define class_name where "class_name = (if vs_network_class_ref (v_spec v) = [] then ''default'' else vs_network_class_ref (v_spec v))"
  from assms obtain cls locs0 st where e: "foldr_res (add_existing v) [] existing = Inr locs0"
    and s: "foldr_res (add_subnet v cfg) ([], locs0) subnets = Inr st"
    and r: "map_res (build_binding v class_name cls existing st (sort_strings (map fst (snd st)))
        (filter (\<lambda>name. subnets_at (fst st) name \<noteq> []) (sort_strings (map fst (snd st))))) (sort_strings (map fst (snd st))) = Inr bs"
    by (auto simp: build_def class_name_def Let_def split: option.splits)
  obtain m locs where st: "st = (m, locs)" by fastforce
  note E = add_existing_fold [OF e]
  from add_subnet_fold [OF s [unfolded st]] E
  have att: "\<And>name. subnets_at m name = planned_at v subnets name"
    and keys: "fst ` set locs = plan_locations v subnets existing" and d: "distinct (map fst locs)"
    by (simp_all add: plan_locations_def)
  let ?names = "sort_strings (map fst locs)"
  have names: "?names = sorted_list_of_set (plan_locations v subnets existing)"
    using d keys by (simp add: sort_strings_def sorted_list_of_set_sort_remdups distinct_remdups_id flip: keys set_map)
  note bb = r [unfolded st, simplified]
  have "map (\<lambda>b. b_location_ref (nb_spec b)) bs = ?names"
    by (rule map_res_map [OF bb]) (auto simp: build_binding_def Let_def)
  with names show ?locs by simp
  show "b_subnets (nb_spec b) = sort_slice bs_uid (planned_at v subnets (b_location_ref (nb_spec b)))"
    "set (b_remote_subnets (nb_spec b)) = planned_remote v subnets existing (b_location_ref (nb_spec b))"
    "set (b_peers (nb_spec b)) = planned_peers v subnets existing (b_location_ref (nb_spec b))"
    "b_deleting (nb_spec b) \<longleftrightarrow> planned_at v subnets (b_location_ref (nb_spec b)) = []"
    "set (b_authorized_locations (nb_spec b)) = (\<lambda>s. ss_location_ref (s_spec s)) ` set (admitted v subnets)"
    "om_name (nb_meta b) = binding_name (om_uid (v_meta v)) (b_location_ref (nb_spec b))"
    "b_revision (nb_spec b) = revision (nb_spec b)"
    "b_vpc_ref (nb_spec b) = \<lparr>oi_namespace = om_namespace (v_meta v), oi_name = om_name (v_meta v), oi_uid = om_uid (v_meta v)\<rparr>"
    "r \<in> set existing \<Longrightarrow> b_location_ref (nb_spec r) \<noteq> b_location_ref (nb_spec b)
      \<Longrightarrow> planned_at v subnets (b_location_ref (nb_spec r)) \<noteq> []
      \<Longrightarrow> distinct (map ge_id (bst_gateways (nb_status r))) \<and> distinct (map ge_node_uid (bst_gateways (nb_status r)))
        \<and> (\<forall>g\<in>set (bst_gateways (nb_status r)). registration_ok g [] [])"
    if "b \<in> set bs"
  proof -
    from map_res_member [OF bb that] obtain name peers where
      p: "foldr_res (add_peers m name) [] existing = Inr peers"
      and b: "build_binding v class_name cls existing (m, locs) ?names
        (filter (\<lambda>name. subnets_at m name \<noteq> []) ?names) name = Inr b" and "name \<in> set ?names"
      by (auto simp: build_binding_def Let_def)
    note f = b [unfolded build_binding_def Let_def prod.case p rbind_Inr sum.inject, symmetric]
    have sub: "(\<lambda>s. ss_location_ref (s_spec s)) ` set (admitted v subnets) \<subseteq> set ?names"
      by (simp add: keys plan_locations_def)
    have n: "b_location_ref (nb_spec b) = name" by (simp add: f)
    show "b_subnets (nb_spec b) = sort_slice bs_uid (planned_at v subnets (b_location_ref (nb_spec b)))"
      by (simp add: f att Let_def)
    show "set (b_remote_subnets (nb_spec b)) = planned_remote v subnets existing (b_location_ref (nb_spec b))"
      unfolding n using remote_subnets_set [OF att sub] by (simp add: f Let_def)
    show "set (b_peers (nb_spec b)) = planned_peers v subnets existing (b_location_ref (nb_spec b))"
      unfolding n using add_peers_set [OF p att] by (simp add: f Let_def)
    show "b_deleting (nb_spec b) \<longleftrightarrow> planned_at v subnets (b_location_ref (nb_spec b)) = []"
      unfolding n by (simp add: f att)
    have "b_authorized_locations (nb_spec b) = filter (\<lambda>name. subnets_at m name \<noteq> []) ?names" by (simp add: f)
    then have "set (b_authorized_locations (nb_spec b)) = {name \<in> set ?names. planned_at v subnets name \<noteq> []}"
      by (simp only: set_filter att)
    also have "\<dots> = (\<lambda>s. ss_location_ref (s_spec s)) ` set (admitted v subnets)"
      unfolding planned_at_empty using sub by blast
    finally show "set (b_authorized_locations (nb_spec b)) = (\<lambda>s. ss_location_ref (s_spec s)) ` set (admitted v subnets)" .
    show "om_name (nb_meta b) = binding_name (om_uid (v_meta v)) (b_location_ref (nb_spec b))"
      unfolding n by (simp add: f Let_def)
    show "b_revision (nb_spec b) = revision (nb_spec b)"
      by (simp add: f Let_def revision_def)
    show "b_vpc_ref (nb_spec b) = \<lparr>oi_namespace = om_namespace (v_meta v), oi_name = om_name (v_meta v), oi_uid = om_uid (v_meta v)\<rparr>"
      by (simp add: f Let_def)
    show "distinct (map ge_id (bst_gateways (nb_status r))) \<and> distinct (map ge_node_uid (bst_gateways (nb_status r)))
        \<and> (\<forall>g\<in>set (bst_gateways (nb_status r)). registration_ok g [] [])"
      if "r \<in> set existing" "b_location_ref (nb_spec r) \<noteq> b_location_ref (nb_spec b)"
        "planned_at v subnets (b_location_ref (nb_spec r)) \<noteq> []"
      using add_peers_registered [OF p that(1)] that(2,3) unfolding n att by blast
  qed
qed

section \<open>Revisions and names\<close>

text \<open>What a revision is a digest of: everything but the revision itself and the readiness of peers.\<close>

definition revised :: "binding_spec \<Rightarrow> binding_spec" where
  "revised spec = spec\<lparr>b_revision := [], b_peers := map mask_ready (b_peers spec)\<rparr>"

lemma revision_revised: "revision spec = sha256_hex (json_enc (binding_spec_json (revised spec)))"
  by (simp add: revision_def revised_def)

lemma ascii_revised: "ascii_spec spec \<Longrightarrow> ascii_spec (revised spec)"
  by (auto simp: ascii_spec_def revised_def mask_ready_def ascii_endpoint_def)

lemma short_props: "length (short x) = 20" "list_all is_lower_hex (short x)"
  using sha256_hex_lower [of x] by (simp_all add: short_def list_all_iff) (meson in_set_takeD)

lemma is_lower_hex_alnum: "is_lower_hex c \<Longrightarrow> lower_alnum c"
  by (auto simp: is_lower_hex_def lower_alnum_def is_digit_def of_nat_of_char [of c, where 'a = int, symmetric])

lemma dns_label_short:
  assumes "list_all lower_alnum p" and "p \<noteq> []" and "length p \<le> 42"
  shows "ref_dns_label (p @ CHR ''-'' # short x)"
proof -
  have ne: "short x \<noteq> []" using short_props(1) [of x] by auto
  have all: "lower_alnum c" if "c \<in> set (short x)" for c
    using short_props(2) that by (auto simp: list_all_iff intro: is_lower_hex_alnum)
  then have "lower_alnum (last (short x))" using ne by simp
  moreover have "lower_alnum (hd p)" using assms(1,2) by (auto simp: list_all_iff)
  ultimately show ?thesis
    using assms all ne by (auto simp: ref_dns_label_def short_props list_all_iff)
qed

section \<open>A concrete plan\<close>

text \<open>One VPC with a subnet in \<open>tpe\<close> and a binding left over in \<open>hkg\<close>.\<close>

definition ex_cfg :: platform_config where
  "ex_cfg = \<lparr>pcf_registry_namespace = [], pcf_network_classes = [(''default'', \<lparr>nc_transport_profile = ''geneve-bgp''\<rparr>)],
     pcf_locations = [\<lparr>loc_name = ''tpe'', loc_region = ''tw'', loc_site = ''tpe'', loc_dc = ''a'',
       loc_binding_namespace = ''gvpc-tpe'', loc_allowed_projects = [''red''], loc_cidr_pools = [''10.0.0.0/8'']\<rparr>]\<rparr>"

definition ex_vpc :: vpc where
  "ex_vpc = \<lparr>v_meta = empty_meta\<lparr>om_name := ''net'', om_namespace := ''red'', om_uid := ''v1''\<rparr>,
     v_spec = \<lparr>vs_network_class_ref = []\<rparr>,
     v_status = \<lparr>vst_observed_generation = 0, vst_network_id = 7, vst_phase = [], vst_bindings = [],
       vst_subnet_claims = [], vst_conditions = []\<rparr>\<rparr>"

definition ex_subnet :: subnet where
  "ex_subnet = \<lparr>s_meta = empty_meta\<lparr>om_name := ''web'', om_namespace := ''red'', om_uid := ''s1''\<rparr>,
     s_spec = \<lparr>ss_vpc_ref = ''net'', ss_location_ref = ''tpe'', ss_cidr = ''10.1.0.0/24''\<rparr>,
     s_status = \<lparr>sst_observed_generation = 0, sst_phase = [], sst_vpc_uid = ''v1'', sst_binding_name = [],
       sst_native_vpc_name = [], sst_native_subnet_name = [], sst_conditions = []\<rparr>\<rparr>"

definition ex_spec :: binding_spec where
  "ex_spec = \<lparr>b_vpc_ref = \<lparr>oi_namespace = ''red'', oi_name = ''net'', oi_uid = ''v1''\<rparr>, b_network_id = 7,
     b_local_asn = 0, b_location_ref = ''hkg'', b_network_class_ref = ''default'', b_native_vpc_name = ''pv'',
     b_transport_profile = ''geneve-bgp'', b_subnets = [], b_authorized_locations = [], b_remote_subnets = [],
     b_peers = [], b_link_allocations = [], b_revision = ''r1'', b_deleting = True\<rparr>"

definition ex_binding :: network_binding where
  "ex_binding = \<lparr>nb_meta = empty_meta\<lparr>om_name := ''nb'', om_namespace := ''gvpc-hkg''\<rparr>, nb_spec = ex_spec,
     nb_status = empty_binding_status\<rparr>"

lemmas ex_plan_defs = ex_cfg_def ex_vpc_def ex_subnet_def ex_spec_def ex_binding_def empty_meta_def empty_binding_status_def

lemma ex_plan: "\<exists>bs. build ex_vpc [ex_subnet] [ex_binding] ex_cfg = Inr bs"
  by (simp add: ex_plan_defs build_def Let_def add_existing_def add_subnet_def get_location_def
      site_prefix_samples build_binding_def add_peers_def subnets_at_def sort_strings_def)

section \<open>The properties\<close>

text \<open>
  C18: a plan has exactly one snapshot for every location that holds an admitted subnet of the VPC or
  an existing binding, in the order of the location names: a location is never dropped from the plan,
  so the absence of a snapshot never stands for a deletion.
\<close>

theorem build_covers_every_location:
  assumes "build v subnets existing cfg = Inr bs"
  shows "map (\<lambda>b. b_location_ref (nb_spec b)) bs = sorted_list_of_set (plan_locations v subnets existing)
    \<and> (\<forall>b\<in>set bs. om_name (nb_meta b) = binding_name (om_uid (v_meta v)) (b_location_ref (nb_spec b)))
    \<and> (\<forall>e\<in>set existing. \<exists>b\<in>set bs. b_location_ref (nb_spec b) = b_location_ref (nb_spec e))"
proof -
  note f = build_fields [OF assms]
  have "set (map (\<lambda>b. b_location_ref (nb_spec b)) bs) = plan_locations v subnets existing"
    unfolding f(1) by (simp add: plan_locations_def)
  then have "\<forall>e\<in>set existing. b_location_ref (nb_spec e) \<in> (\<lambda>b. b_location_ref (nb_spec b)) ` set bs"
    by (simp add: plan_locations_def)
  with f(1,7) show ?thesis by (simp add: image_iff) metis
qed

theorem build_covers_every_location_witness:
  "\<exists>bs. build ex_vpc [ex_subnet] [ex_binding] ex_cfg = Inr bs
    \<and> map (\<lambda>b. b_location_ref (nb_spec b)) bs = [''hkg'', ''tpe'']"
proof -
  obtain bs where bs: "build ex_vpc [ex_subnet] [ex_binding] ex_cfg = Inr bs" using ex_plan by blast
  have "plan_locations ex_vpc [ex_subnet] [ex_binding] = {''hkg'', ''tpe''}"
    by (simp add: plan_locations_def admitted_def ex_plan_defs insert_commute)
  moreover have "sorted_list_of_set {''hkg'', ''tpe''} = [''hkg'', ''tpe'']"
    by simp
  ultimately show ?thesis using build_covers_every_location [OF bs] bs by simp
qed

text \<open>
  The snapshot of a location lists exactly the admitted subnets of that location, ordered by
  their identity, terminating ones included; it is a tombstone exactly when there are none.
\<close>

theorem build_local_subnets:
  assumes "build v subnets existing cfg = Inr bs" and "b \<in> set bs"
  shows "mset (b_subnets (nb_spec b)) = mset (map compiled
      (filter (\<lambda>s. ss_location_ref (s_spec s) = b_location_ref (nb_spec b)) (admitted v subnets)))
    \<and> sorted (map bs_uid (b_subnets (nb_spec b)))
    \<and> (b_deleting (nb_spec b) \<longleftrightarrow> (\<forall>s\<in>set (admitted v subnets). ss_location_ref (s_spec s) \<noteq> b_location_ref (nb_spec b)))"
  using build_fields(2,5) [OF assms(1) assms(2)] by (auto simp: planned_at_empty planned_at_def [symmetric] image_iff)

theorem build_local_subnets_witness:
  "\<exists>bs. build ex_vpc [ex_subnet] [ex_binding] ex_cfg = Inr bs \<and> bs \<noteq> []
    \<and> (b_deleting (nb_spec (hd bs)) \<longleftrightarrow> b_location_ref (nb_spec (hd bs)) \<noteq> ''tpe'')"
proof -
  obtain bs where bs: "build ex_vpc [ex_subnet] [ex_binding] ex_cfg = Inr bs" using ex_plan by blast
  have "plan_locations ex_vpc [ex_subnet] [ex_binding] = {''hkg'', ''tpe''}"
    by (simp add: plan_locations_def admitted_def ex_plan_defs insert_commute)
  with build_fields(1) [OF bs] have ne: "bs \<noteq> []" by auto
  then show ?thesis
    using build_local_subnets [OF bs, of "hd bs"] bs by (auto simp: admitted_def ex_plan_defs)
qed

text \<open>
  The remote subnets of a snapshot are exactly the admitted subnets of the other locations, less
  the terminating ones whose own location has acknowledged that the native subnet is gone.
\<close>

theorem build_remote_subnets:
  assumes "build v subnets existing cfg = Inr bs" and "b \<in> set bs"
  shows "r \<in> set (b_remote_subnets (nb_spec b)) \<longleftrightarrow>
    (\<exists>s\<in>set (admitted v subnets). ss_location_ref (s_spec s) \<noteq> b_location_ref (nb_spec b)
       \<and> r = \<lparr>rs_location_ref = ss_location_ref (s_spec s), rs_cidr = ss_cidr (s_spec s)\<rparr>
       \<and> \<not> (deleting_meta (s_meta s)
             \<and> withdrawn existing (ss_location_ref (s_spec s)) (subnet_name (om_uid (s_meta s)))))"
  unfolding build_fields(3) [OF assms] by (auto simp: planned_remote_def)

theorem build_remote_subnets_witness:
  "\<exists>bs. build ex_vpc [ex_subnet] [ex_binding] ex_cfg = Inr bs \<and> (\<forall>b\<in>set bs. b_location_ref (nb_spec b) = ''hkg'' \<longrightarrow>
     \<lparr>rs_location_ref = ''tpe'', rs_cidr = ''10.1.0.0/24''\<rparr> \<in> set (b_remote_subnets (nb_spec b)))"
proof -
  obtain bs where bs: "build ex_vpc [ex_subnet] [ex_binding] ex_cfg = Inr bs" using ex_plan by blast
  have "\<lparr>rs_location_ref = ''tpe'', rs_cidr = ''10.1.0.0/24''\<rparr> \<in> set (b_remote_subnets (nb_spec b))"
    if "b \<in> set bs" "b_location_ref (nb_spec b) = ''hkg''" for b
    using build_remote_subnets [OF bs that(1)] that(2) by (simp add: admitted_def ex_plan_defs deleting_meta_def)
  with bs show ?thesis by blast
qed

text \<open>
  A snapshot names as peers only gateways that other locations with subnets registered, each with a
  unicast IPv4 endpoint and an identity of its own, and it discloses of them only the links that point
  to this location; readiness is never copied.
\<close>

theorem build_peers_disclosed:
  assumes "build v subnets existing cfg = Inr bs" and "b \<in> set bs" and "p \<in> set (b_peers (nb_spec b))"
  shows "pg_location_ref p \<noteq> b_location_ref (nb_spec b) \<and> \<not> ge_ready (pg_endpoint p)
    \<and> (\<forall>l\<in>set (ge_links (pg_endpoint p)). has_prefix (gl_peer_id l) (b_location_ref (nb_spec b) @ ''/''))
    \<and> pg_location_ref p \<in> set (b_authorized_locations (nb_spec b))
    \<and> (\<exists>r\<in>set existing. b_location_ref (nb_spec r) = pg_location_ref p
         \<and> distinct (map ge_id (bst_gateways (nb_status r)))
         \<and> (\<exists>g\<in>set (bst_gateways (nb_status r)). registration_ok g [] []
              \<and> pg_endpoint p = public_endpoint (b_location_ref (nb_spec b)) g))"
proof -
  from assms(3) [unfolded build_fields(4) [OF assms(1,2)] planned_peers_def] obtain r g where
    r: "r \<in> set existing" "b_location_ref (nb_spec r) \<noteq> b_location_ref (nb_spec b)"
      "planned_at v subnets (b_location_ref (nb_spec r)) \<noteq> []" and g: "g \<in> set (bst_gateways (nb_status r))"
    and p: "p = \<lparr>pg_location_ref = b_location_ref (nb_spec r), pg_endpoint = public_endpoint (b_location_ref (nb_spec b)) g\<rparr>"
    by blast
  from r(3) have "b_location_ref (nb_spec r) \<in> set (b_authorized_locations (nb_spec b))"
    by (simp add: build_fields(6) [OF assms(1,2)] planned_at_empty)
  with r(1,2) g build_fields(10) [OF assms(1,2) r] show ?thesis
    unfolding p by (intro conjI bexI [of _ r] bexI [of _ g]) (simp_all add: public_endpoint_def)
qed

definition ex_gateway :: gateway_endpoint where
  "ex_gateway = \<lparr>ge_id = ''g1'', ge_node_name = ''n1'', ge_node_uid = ''u1'', ge_endpoint_ip = v4_str 0x01020304,
     ge_transit_ip = v4_str 0x0A000001, ge_public_key = [], ge_local_asn = 0, ge_health_ip = [],
     ge_links = [\<lparr>gl_peer_id = ''hkg/g7'', gl_listen_port = 1, gl_tunnel_ip = [], gl_control_vni = 0\<rparr>,
       \<lparr>gl_peer_id = ''sin/g9'', gl_listen_port = 2, gl_tunnel_ip = [], gl_control_vni = 0\<rparr>], ge_ready = True\<rparr>"

definition ex_remote :: network_binding where
  "ex_remote = ex_binding\<lparr>nb_spec := ex_spec\<lparr>b_location_ref := ''tpe''\<rparr>,
     nb_status := empty_binding_status\<lparr>bst_gateways := [ex_gateway]\<rparr>\<rparr>"

lemma ex_registered: "registration_ok ex_gateway [] []"
  by (simp add: registration_ok_def ex_gateway_def v4_classes)

lemma ex_plan_peers: "\<exists>b rest. build ex_vpc [ex_subnet] [ex_binding, ex_remote] ex_cfg = Inr (b # rest)
    \<and> b_location_ref (nb_spec b) = ''hkg''
    \<and> b_peers (nb_spec b) = [\<lparr>pg_location_ref = ''tpe'', pg_endpoint = public_endpoint ''hkg'' ex_gateway\<rparr>]"
  using ex_registered
  by (simp add: ex_plan_defs ex_remote_def build_def Let_def add_existing_def add_subnet_def get_location_def
      site_prefix_samples build_binding_def add_peers_def add_gateway_def subnets_at_def sort_strings_def sort_slice_def)

theorem build_peers_disclosed_witness:
  "\<exists>b rest. build ex_vpc [ex_subnet] [ex_binding, ex_remote] ex_cfg = Inr (b # rest)
    \<and> (\<exists>p\<in>set (b_peers (nb_spec b)). \<not> ge_ready (pg_endpoint p) \<and> pg_location_ref p \<noteq> b_location_ref (nb_spec b))"
proof -
  obtain b rest where b: "build ex_vpc [ex_subnet] [ex_binding, ex_remote] ex_cfg = Inr (b # rest)"
    "b_peers (nb_spec b) = [\<lparr>pg_location_ref = ''tpe'', pg_endpoint = public_endpoint ''hkg'' ex_gateway\<rparr>]"
    using ex_plan_peers by blast
  from build_peers_disclosed [OF b(1), of b "hd (b_peers (nb_spec b))"] b show ?thesis by simp
qed

text \<open>
  Two specifications in
  ASCII with the same revision differ at most in their revision fields and in the readiness of their
  peers, unless SHA-256 collides on their two JSON texts.
\<close>

theorem revision_identifies:
  assumes "ascii_spec a" and "ascii_spec b" and "revision a = revision b"
  shows "revised a = revised b \<or>
    (\<exists>x y. x \<noteq> y \<and> sha256_hex x = sha256_hex y
       \<and> x = json_enc (binding_spec_json (revised a)) \<and> y = json_enc (binding_spec_json (revised b)))"
  using assms binding_spec_text_inject [OF ascii_revised ascii_revised] by (auto simp: revision_revised)

lemma ascii_ex_spec: "ascii_spec ex_spec"
  by (simp add: ascii_spec_def ex_spec_def)

theorem revision_identifies_witness:
  "ascii_spec ex_spec \<and> revision ex_spec = revision (ex_spec\<lparr>b_revision := ''r2''\<rparr>)
    \<and> (revised ex_spec = revised (ex_spec\<lparr>b_revision := ''r2''\<rparr>) \<or>
    (\<exists>x y. x \<noteq> y \<and> sha256_hex x = sha256_hex y \<and> x = json_enc (binding_spec_json (revised ex_spec))
       \<and> y = json_enc (binding_spec_json (revised (ex_spec\<lparr>b_revision := ''r2''\<rparr>)))))"
proof -
  have a: "ascii_spec (ex_spec\<lparr>b_revision := ''r2''\<rparr>)"
    by (simp add: ascii_spec_def ex_spec_def)
  have r: "revision ex_spec = revision (ex_spec\<lparr>b_revision := ''r2''\<rparr>)"
    by (simp add: revision_def)
  from revision_identifies [OF ascii_ex_spec a r] ascii_ex_spec r show ?thesis by blast
qed

text \<open>
  The names given to the native objects and to the bindings are DNS labels of 23 characters,
  whatever the identities are.
\<close>

theorem names_are_labels:
  "ref_dns_label (binding_name uid location) \<and> length (binding_name uid location) = 23
    \<and> ref_dns_label (vpc_name uid location) \<and> length (vpc_name uid location) = 23
    \<and> ref_dns_label (subnet_name uid) \<and> length (subnet_name uid) = 23"
proof -
  have "list_all lower_alnum ''nb''" "list_all lower_alnum ''pv''" "list_all lower_alnum ''ps''" by code_simp+
  with dns_label_short [of "''nb''"] dns_label_short [of "''pv''"] dns_label_short [of "''ps''"]
  show ?thesis by (simp add: binding_name_def vpc_name_def subnet_name_def short_props)
qed

text \<open>
  a subnet passes the admission check only if it references this VPC in its own project, was not
  admitted to another VPC, and its CIDR is a canonical prefix all of whose addresses lie in a pool of a
  location that allows the project.
\<close>

theorem validate_subnet_sound:
  assumes "validate_subnet v s cfg = Inr ()"
  shows "om_namespace (s_meta s) = om_namespace (v_meta v) \<and> ss_vpc_ref (s_spec s) = om_name (v_meta v)
    \<and> (sst_vpc_uid (s_status s) = [] \<or> sst_vpc_uid (s_status s) = om_uid (v_meta v))
    \<and> (\<exists>l\<in>set (pcf_locations cfg). loc_name l = ss_location_ref (s_spec s)
         \<and> om_namespace (s_meta s) \<in> set (loc_allowed_projects l)
         \<and> (\<exists>p pool raw_pool. site_prefix (ss_cidr (s_spec s)) = Inr p \<and> raw_pool \<in> set (loc_cidr_pools l)
              \<and> site_prefix raw_pool = Inr pool \<and> (\<forall>a. contains p a \<longrightarrow> contains pool a)))"
proof -
  from assms obtain l where l: "get_location cfg (ss_location_ref (s_spec s)) (om_namespace (s_meta s)) = Inr l"
    "allows_cidr l (ss_cidr (s_spec s))" by (auto simp: validate_subnet_def)
  from get_location_sound [OF l(1)] allows_cidr_inside [OF l(2)] assms show ?thesis
    by (auto simp: validate_subnet_def)
qed

theorem validate_subnet_sound_witness:
  "validate_subnet ex_vpc ex_subnet ex_cfg = Inr () \<and> (\<exists>l\<in>set (pcf_locations ex_cfg). loc_name l = ''tpe'')"
proof -
  have v: "validate_subnet ex_vpc ex_subnet ex_cfg = Inr ()"
    by (simp add: validate_subnet_def ex_plan_defs get_location_def site_prefix_samples allows_cidr_def contains_V4 block_def)
  from validate_subnet_sound [OF v] v show ?thesis by (auto simp: ex_subnet_def)
qed

end
