(* ===== verification/Network_Id.thy ===== *)
theory Network_Id
  imports Kube_Client Platform_Plan
begin

text \<open>
  \<open>internal/platformcontroller/networkid.go\<close>: the allocator of network identifiers. One monotonic
  sequence in a ConfigMap, guarded by an immutable anchor that names its identity, and the issued
  identifiers in sharded ConfigMaps that are never deleted. \<open>network_ids\<close> is the tree of calls of
  \<open>networkIDs\<close>, \<open>assign_transport\<close> that of \<open>assignTransport\<close>. The lemmas hold for every answer of the
  API server.
\<close>

section \<open>The objects of the authority API\<close>

datatype aobj = AVpc vpc | ASubnet subnet | ABinding network_binding | AMap config_map

fun a_vpc :: "aobj \<Rightarrow> vpc option" where "a_vpc (AVpc v) = Some v" | "a_vpc _ = None"
fun a_subnet :: "aobj \<Rightarrow> subnet option" where "a_subnet (ASubnet s) = Some s" | "a_subnet _ = None"
fun a_binding :: "aobj \<Rightarrow> network_binding option" where "a_binding (ABinding b) = Some b" | "a_binding _ = None"
fun a_map :: "aobj \<Rightarrow> config_map option" where "a_map (AMap m) = Some m" | "a_map _ = None"

section \<open>Constants\<close>

definition network_id_allocator_label :: string where
  "network_id_allocator_label = ''platform.globalvpc.io/allocator''"
definition network_id_sequence_name :: string where
  "network_id_sequence_name = ''network-id-sequence''"
definition network_id_anchor_name :: string where
  "network_id_anchor_name = ''network-id-sequence-anchor''"
definition network_id_claim_prefix :: string where
  "network_id_claim_prefix = ''network-id-claims-''"
definition claims_label :: string where
  "claims_label = ''network-id-claims''"
definition max_network_id :: nat where
  "max_network_id = 16777215"

definition network_id_shard :: "string \<Rightarrow> string" where
  "network_id_shard key = take 2 (sha256_hex key)"

section \<open>Claims as JSON\<close>

text \<open>\<open>json.Unmarshal\<close> into a \<open>map[string]uint32\<close> that must not be \<open>nil\<close> afterwards: a later entry of
  a repeated key wins, \<open>null\<close> leaves the zero value, a number must be an unsigned 32-bit integer.\<close>

definition decode_id :: "json \<Rightarrow> u32 option" where
  "decode_id j = (case j of
      JNull \<Rightarrow> Some 0
    | JNum s \<Rightarrow> map_option of_nat (parse_uint 32 s)
    | _ \<Rightarrow> None)"

fun decode_entries :: "(string \<times> json) list \<Rightarrow> u32 smap \<Rightarrow> u32 smap option" where
  "decode_entries [] m = Some m"
| "decode_entries ((k, j) # es) m = (case decode_id j of
      None \<Rightarrow> None
    | Some w \<Rightarrow> decode_entries es (mput k w m))"

definition decode_claims :: "string \<Rightarrow> u32 smap option" where
  "decode_claims text = (case json_parse text of
      Some (JObj es) \<Rightarrow> decode_entries es []
    | _ \<Rightarrow> None)"

text \<open>\<open>json.Marshal\<close> of the map: the keys in order.\<close>

definition encode_claims :: "u32 smap \<Rightarrow> string" where
  "encode_claims m = json_enc (json_map json_u32 m)"

section \<open>The scan of the retained claims\<close>

definition is_hex_pair :: "string \<Rightarrow> bool" where
  "is_hex_pair s \<longleftrightarrow> list_all is_hex s"

record claim_scan =
  sc_objects :: "config_map smap"
  sc_claims :: "u32 smap smap"
  sc_used :: "u32 list"
  sc_highest :: nat

definition empty_scan :: claim_scan where
  "empty_scan = \<lparr>sc_objects = [], sc_claims = [], sc_used = [], sc_highest = 0\<rparr>"

definition scan_entry :: "string \<Rightarrow> u32 list \<times> nat \<Rightarrow> string \<times> u32 \<Rightarrow> (u32 list \<times> nat) res" where
  "scan_entry shard st e = (case st of (used, highest) \<Rightarrow> case e of (key, w) \<Rightarrow>
     if key = [] \<or> network_id_shard key \<noteq> shard \<or> w = 0 \<or> max_network_id < unat w
     then Inl ''invalid retained network ID claim''
     else if w \<in> set used then Inl ''duplicate retained network ID''
     else Inr (w # used, max highest (unat w)))"

definition scan_map :: "claim_scan \<Rightarrow> config_map \<Rightarrow> claim_scan res" where
  "scan_map st cm =
     (let name = om_name (cm_meta cm); label = mget (om_labels (cm_meta cm)) network_id_allocator_label in
      if \<not> has_prefix name network_id_claim_prefix \<and> label \<noteq> claims_label then Inr st
      else
        let shard = trim_prefix name network_id_claim_prefix in
        if label \<noteq> claims_label \<or> length shard \<noteq> 2 then Inl ''network ID claim shard is invalid or foreign''
        else (case decode_claims (mget (cm_data cm) ''claims.json'') of
            None \<Rightarrow> Inl ''network ID claim shard is invalid or foreign''
          | Some ids \<Rightarrow>
              if \<not> is_hex_pair shard then Inl ''network ID claim shard name is invalid''
              else rbind (foldr_res (scan_entry shard) (sc_used st, sc_highest st) ids) (\<lambda>(used, highest).
                Inr \<lparr>sc_objects = mput shard cm (sc_objects st), sc_claims = mput shard ids (sc_claims st),
                     sc_used = used, sc_highest = highest\<rparr>)))"

section \<open>The allocation\<close>

text \<open>The requested keys without repetitions, by shard; a shard's keys in the order of the request.\<close>

definition group_keys :: "string list \<Rightarrow> string \<Rightarrow> string list" where
  "group_keys keys shard = filter (\<lambda>k. network_id_shard k = shard) (rev (remdups (rev keys)))"

definition key_shards :: "string list \<Rightarrow> string list" where
  "key_shards keys = sort_strings (remdups (map network_id_shard keys))"

definition claimed :: "u32 smap smap \<Rightarrow> string \<Rightarrow> string \<Rightarrow> u32 option" where
  "claimed claims shard key = (case map_of claims shard of None \<Rightarrow> None | Some ids \<Rightarrow> map_of ids key)"

definition known_ids :: "u32 smap smap \<Rightarrow> string list \<Rightarrow> u32 smap" where
  "known_ids claims keys = concat (map (\<lambda>shard.
     List.map_filter (\<lambda>k. map_option (Pair k) (claimed claims shard k)) (group_keys keys shard)) (key_shards keys))"

definition missing_keys :: "u32 smap smap \<Rightarrow> string list \<Rightarrow> string list" where
  "missing_keys claims keys = concat (map (\<lambda>shard.
     filter (\<lambda>k. claimed claims shard k = None) (group_keys keys shard)) (key_shards keys))"

text \<open>\<open>uint32(next) + uint32(i)\<close>.\<close>

definition new_ids :: "nat \<Rightarrow> string list \<Rightarrow> u32 smap" where
  "new_ids next missing = zip missing (map (\<lambda>i. of_nat next + of_nat i) [0..<length missing])"

definition registry_map :: "string \<Rightarrow> string \<Rightarrow> string \<Rightarrow> string smap \<Rightarrow> config_map" where
  "registry_map ns name label data = \<lparr>cm_meta = empty_meta\<lparr>om_namespace := ns, om_name := name,
     om_labels := [(network_id_allocator_label, label)]\<rparr>, cm_data = data, cm_immutable = None\<rparr>"

definition anchor_ok :: "config_map \<Rightarrow> bool" where
  "anchor_ok a \<longleftrightarrow> mget (om_labels (cm_meta a)) network_id_allocator_label = network_id_anchor_name
     \<and> cm_immutable a = Some True \<and> mget (cm_data a) ''sequenceUID'' \<noteq> []"

text \<open>Reading the sequence, creating it when the registry is new.\<close>

definition read_sequence :: "string \<Rightarrow> bool \<Rightarrow> nat \<Rightarrow> (aobj, err + config_map) kprog" where
  "read_sequence ns anchor_missing highest =
     pbind (kget a_map ''ConfigMap'' ns network_id_sequence_name) (\<lambda>x. case x of
       Inr seq \<Rightarrow> go seq
     | Inl e \<Rightarrow>
         if is_not_found e then
           (if \<not> anchor_missing \<or> highest \<noteq> 0
            then leave (Errorf ''network ID sequence missing beside retained identity or claims'')
            else kwrite a_map (Create (AMap (registry_map ns network_id_sequence_name network_id_sequence_name [(''next'', ''1'')]))))
         else leave e)"

text \<open>The checked value of the sequence.\<close>

definition sequence_next :: "config_map \<Rightarrow> nat \<Rightarrow> nat res" where
  "sequence_next seq highest = (case parse_uint 32 (mget (cm_data seq) ''next'') of
      None \<Rightarrow> Inl ''network ID sequence invalid''
    | Some next \<Rightarrow>
        if om_uid (cm_meta seq) = [] \<or> mget (om_labels (cm_meta seq)) network_id_allocator_label \<noteq> network_id_sequence_name
           \<or> next < 1 \<or> max_network_id + 1 < next
        then Inl ''network ID sequence invalid''
        else if next \<le> highest then Inl ''network ID sequence regressed behind retained claims''
        else Inr next)"

definition check_anchor :: "string \<Rightarrow> config_map option \<Rightarrow> config_map \<Rightarrow> nat \<Rightarrow> nat \<Rightarrow> (aobj, err + unit) kprog" where
  "check_anchor ns anchor seq next highest = (case anchor of
      None \<Rightarrow>
        if next \<noteq> 1 \<or> highest \<noteq> 0
        then leave (Errorf ''network ID sequence identity anchor missing for used registry'')
        else kdo (Create (AMap ((registry_map ns network_id_anchor_name network_id_anchor_name
               [(''sequenceUID'', om_uid (cm_meta seq))])\<lparr>cm_immutable := Some True\<rparr>)))
    | Some a \<Rightarrow>
        if mget (cm_data a) ''sequenceUID'' \<noteq> om_uid (cm_meta seq)
        then leave (Errorf ''network ID sequence identity changed'') else go ())"

text \<open>The missing shards are created empty before the sequence moves.\<close>

definition create_shard :: "string \<Rightarrow> config_map smap \<times> u32 smap smap \<Rightarrow> string
    \<Rightarrow> (aobj, err + (config_map smap \<times> u32 smap smap)) kprog" where
  "create_shard ns st shard = (case st of (objects, claims) \<Rightarrow>
     if map_of objects shard \<noteq> None then go (objects, claims)
     else ebind (kwrite a_map (Create (AMap (registry_map ns (network_id_claim_prefix @ shard) claims_label
            [(''claims.json'', ''{}'')])))) (\<lambda>cm.
          go (mput shard cm objects, mput shard [] claims)))"

text \<open>One shard's claims with the new identifiers, and whether that adds any.\<close>

definition shard_claims :: "u32 smap smap \<Rightarrow> string \<Rightarrow> u32 smap" where
  "shard_claims claims shard = (case map_of claims shard of None \<Rightarrow> [] | Some ids \<Rightarrow> ids)"

definition extend_claims :: "u32 smap \<Rightarrow> u32 smap \<Rightarrow> string list \<Rightarrow> u32 smap" where
  "extend_claims result ids ks = foldl (\<lambda>m k. if map_of m k = None
      then mput k (case map_of result k of None \<Rightarrow> 0 | Some w \<Rightarrow> w) m else m) ids ks"

definition update_shard :: "string list \<Rightarrow> config_map smap \<Rightarrow> u32 smap smap \<Rightarrow> u32 smap \<Rightarrow> unit \<Rightarrow> string
    \<Rightarrow> (aobj, err + unit) kprog" where
  "update_shard keys objects claims result u shard =
     (let ids = shard_claims claims shard; ids' = extend_claims result ids (group_keys keys shard) in
      if list_all (\<lambda>k. map_of ids k \<noteq> None) (group_keys keys shard) then go ()
      else if 900000 < length (encode_claims ids') then leave (Errorf ''network ID claim shard capacity exceeded'')
      else (case map_of objects shard of
          None \<Rightarrow> leave (Errorf ''nil pointer'')
        | Some cm \<Rightarrow> kdo (Update (AMap (cm\<lparr>cm_data := mput ''claims.json'' (encode_claims ids') (cm_data cm)\<rparr>)))))"

text \<open>The reservation and the claims of the keys that have no identifier yet.\<close>

definition allocate :: "string \<Rightarrow> string list \<Rightarrow> claim_scan \<Rightarrow> config_map \<Rightarrow> nat \<Rightarrow> string list \<Rightarrow> (aobj, err + u32 smap) kprog" where
  "allocate ns keys scan seq next missing =
     ebind (efold (create_shard ns) (sc_objects scan, sc_claims scan) (key_shards keys)) (\<lambda>(objects, claims).
     ebind (kdo (Update (AMap (seq\<lparr>cm_data := mput ''next'' (nat_str (next + length missing)) (cm_data seq)\<rparr>)))) (\<lambda>_.
     let result = known_ids (sc_claims scan) keys @ new_ids next (sort_strings missing) in
     ebind (efold (update_shard keys objects claims result) () (key_shards keys)) (\<lambda>_.
     go result)))"

definition network_ids :: "platform_config \<Rightarrow> string list \<Rightarrow> (aobj, err + u32 smap) kprog" where
  "network_ids cfg keys =
     (let ns = (if pcf_registry_namespace cfg = [] then ''global-vpc-system'' else pcf_registry_namespace cfg) in
      ebind (klist a_map ''ConfigMap'' (Some ns) []) (\<lambda>all.
      ebind (lift_res Errorf (foldr_res scan_map empty_scan all)) (\<lambda>scan.
      pbind (kget a_map ''ConfigMap'' ns network_id_anchor_name) (\<lambda>got.
      ebind (Ret (case got of
          Inr a \<Rightarrow> if anchor_ok a then Inr (Some a)
                   else Inl (Errorf ''network ID sequence identity anchor is invalid or foreign'')
        | Inl e \<Rightarrow> if is_not_found e then Inr None else Inl e)) (\<lambda>anchor.
      ebind (read_sequence ns (anchor = None) (sc_highest scan)) (\<lambda>seq.
      ebind (lift_res Errorf (sequence_next seq (sc_highest scan))) (\<lambda>next.
      ebind (check_anchor ns anchor seq next (sc_highest scan)) (\<lambda>_.
      let known = known_ids (sc_claims scan) keys; missing = missing_keys (sc_claims scan) keys in
      if missing = [] then go known
      else if max_network_id + 1 < next + length missing then leave (Errorf ''network ID sequence exhausted'')
      else allocate ns keys scan seq next missing))))))))"

section \<open>Transport identities\<close>

definition id_of :: "u32 smap \<Rightarrow> string \<Rightarrow> u32" where
  "id_of ids k = (case map_of ids k of None \<Rightarrow> 0 | Some w \<Rightarrow> w)"

definition asn_key :: "binding_spec \<Rightarrow> string" where
  "asn_key s = ''asn/'' @ b_location_ref s"

definition link_key :: "vpc \<Rightarrow> link_allocation \<Rightarrow> string" where
  "link_key v l = ''link/'' @ om_uid (v_meta v) @ ''/'' @ la_peer_a l @ ''/'' @ la_peer_b l"

text \<open>The pair of gateway identities of a link, in order.\<close>

definition link_of :: "string \<Rightarrow> string \<Rightarrow> link_allocation" where
  "link_of left right = (if right < left then \<lparr>la_peer_a = right, la_peer_b = left, la_control_vni = 0\<rparr>
     else \<lparr>la_peer_a = left, la_peer_b = right, la_control_vni = 0\<rparr>)"

definition binding_links :: "network_binding list \<Rightarrow> binding_spec \<Rightarrow> link_allocation list" where
  "binding_links existing s =
     concat (map (\<lambda>local. if b_location_ref (nb_spec local) \<noteq> b_location_ref s then []
       else concat (map (\<lambda>a. concat (map (\<lambda>p.
              if b_transport_profile s \<noteq> ''wireguard-bgp''
              then [link_of (b_location_ref s @ ''/'' @ ge_id a) (pg_location_ref p @ ''/'' @ ge_id (pg_endpoint p))]
              else []) (b_peers s))) (bst_gateways (nb_status local)))) existing)"

definition prepare_transport :: "vpc \<Rightarrow> network_binding list \<Rightarrow> network_binding \<Rightarrow> network_binding" where
  "prepare_transport v existing b = b\<lparr>nb_spec := (nb_spec b)\<lparr>b_network_id := vst_network_id (v_status v),
     b_link_allocations := b_link_allocations (nb_spec b) @ binding_links existing (nb_spec b)\<rparr>\<rparr>"

definition transport_keys :: "vpc \<Rightarrow> network_binding list \<Rightarrow> network_binding list \<Rightarrow> string list" where
  "transport_keys v existing desired =
     concat (map (\<lambda>b. asn_key (nb_spec b) # map (link_key v) (binding_links existing (nb_spec b))) desired)"

definition complete_transport :: "vpc \<Rightarrow> u32 smap \<Rightarrow> network_binding \<Rightarrow> network_binding" where
  "complete_transport v ids b =
     (let s = nb_spec b;
          s1 = s\<lparr>b_local_asn := 4200000000 + id_of ids (asn_key s),
                 b_link_allocations := sort_slice (\<lambda>l. la_peer_a l @ ''/'' @ la_peer_b l)
                   (map (\<lambda>l. l\<lparr>la_control_vni := id_of ids (link_key v l)\<rparr>) (b_link_allocations s))\<rparr>
      in b\<lparr>nb_spec := s1\<lparr>b_revision := revision s1\<rparr>\<rparr>)"

definition assign_transport :: "platform_config \<Rightarrow> vpc \<Rightarrow> network_binding list \<Rightarrow> network_binding list
    \<Rightarrow> (aobj, err + network_binding list) kprog" where
  "assign_transport cfg v desired existing =
     ebind (network_ids cfg (transport_keys v existing desired)) (\<lambda>ids.
     go (map (\<lambda>b. complete_transport v ids (prepare_transport v existing b)) desired))"

section \<open>The retained claims\<close>

lemma scan_entries:
  assumes "foldr_res (scan_entry shard) (used, highest) ids = Inr st"
  shows "fst st = rev (map snd ids) @ used \<and> highest \<le> snd st \<and> distinct (map snd ids)
    \<and> set (map snd ids) \<inter> set used = {}
    \<and> (\<forall>(k, w)\<in>set ids. network_id_shard k = shard \<and> w \<noteq> 0 \<and> unat w \<le> max_network_id \<and> unat w \<le> snd st)"
  by (rule foldr_res_invariant [OF assms, where I = "\<lambda>done st. fst st = rev (map snd done) @ used \<and> highest \<le> snd st
      \<and> distinct (map snd done) \<and> set (map snd done) \<inter> set used = {}
      \<and> (\<forall>(k, w)\<in>set done. network_id_shard k = shard \<and> w \<noteq> 0 \<and> unat w \<le> max_network_id \<and> unat w \<le> snd st)"])
    (force simp: scan_entry_def max_def split: if_splits prod.splits)+

lemma decode_entries_distinct: "decode_entries es m = Some m' \<Longrightarrow> distinct (map fst m) \<Longrightarrow> distinct (map fst m')"
  by (induction es m rule: decode_entries.induct) (auto split: option.splits)

lemma decode_claims_distinct: "decode_claims text = Some ids \<Longrightarrow> distinct (map fst ids)"
  by (auto simp: decode_claims_def dest: decode_entries_distinct split: option.splits json.splits)

text \<open>What a completed scan guarantees: every retained identifier is in range and belongs to one key.\<close>

definition retained :: "u32 smap smap \<Rightarrow> string \<Rightarrow> u32 \<Rightarrow> bool" where
  "retained claims k w \<longleftrightarrow> claimed claims (network_id_shard k) k = Some w"

definition scan_inv :: "claim_scan \<Rightarrow> bool" where
  "scan_inv st \<longleftrightarrow>
     (\<forall>shard ids. map_of (sc_claims st) shard = Some ids \<longrightarrow> distinct (map fst ids) \<and> distinct (map snd ids)
        \<and> (\<forall>(k, w)\<in>set ids. network_id_shard k = shard \<and> w \<noteq> 0 \<and> w \<in> set (sc_used st)
             \<and> unat w \<le> max_network_id \<and> unat w \<le> sc_highest st))
     \<and> (\<forall>k k' w. retained (sc_claims st) k w \<longrightarrow> retained (sc_claims st) k' w \<longrightarrow> k = k')
     \<and> (\<forall>shard. (map_of (sc_objects st) shard = None) = (map_of (sc_claims st) shard = None))"

lemma retained_in:
  "retained claims k w \<longleftrightarrow> (\<exists>ids. map_of claims (network_id_shard k) = Some ids \<and> map_of ids k = Some w)"
  by (auto simp: retained_def claimed_def split: option.splits)

lemma scan_inv_retained:
  assumes "scan_inv st" and "retained (sc_claims st) k w"
  shows "w \<noteq> 0" "w \<in> set (sc_used st)" "unat w \<le> max_network_id" "unat w \<le> sc_highest st"
proof -
  from assms(2) obtain ids where "map_of (sc_claims st) (network_id_shard k) = Some ids" and "(k, w) \<in> set ids"
    by (auto simp: retained_in dest: map_of_SomeD)
  with assms(1) show "w \<noteq> 0" "w \<in> set (sc_used st)" "unat w \<le> max_network_id" "unat w \<le> sc_highest st"
    by (fastforce simp: scan_inv_def)+
qed

lemma scan_inv_shard:
  "scan_inv st \<Longrightarrow> map_of (sc_claims st) shard = Some ids \<Longrightarrow> (k, w) \<in> set ids \<Longrightarrow> unat w \<le> sc_highest st"
  by (fastforce simp: scan_inv_def)

lemma map_of_snd_inj: "distinct (map snd m) \<Longrightarrow> map_of m k = Some w \<Longrightarrow> map_of m k' = Some w \<Longrightarrow> k = k'"
  by (induction m) (auto split: if_splits dest: map_of_SomeD intro: rev_image_eqI)

lemma scan_map_inv:
  assumes inv: "scan_inv st" and step: "scan_map st cm = Inr st'"
  shows "scan_inv st'"
proof (cases "st' = st")
  case False
  define shard where "shard = trim_prefix (om_name (cm_meta cm)) network_id_claim_prefix"
  from step False obtain ids s where ids: "decode_claims (mget (cm_data cm) ''claims.json'') = Some ids"
    and s: "foldr_res (scan_entry shard) (sc_used st, sc_highest st) ids = Inr s"
    and st': "st' = \<lparr>sc_objects = mput shard cm (sc_objects st), sc_claims = mput shard ids (sc_claims st),
                     sc_used = fst s, sc_highest = snd s\<rparr>"
    by (auto simp: scan_map_def Let_def shard_def split: if_splits option.splits prod.splits)
  note e = scan_entries [OF s]
  have new: "w \<in> snd ` set ids" if "retained (sc_claims st') k w" "network_id_shard k = shard" for k w
    using that by (force simp: retained_in st' dest: map_of_SomeD)
  have old: "retained (sc_claims st) k w" if "retained (sc_claims st') k w" "network_id_shard k \<noteq> shard" for k w
    using that by (auto simp: retained_in st')
  have uniq: "k = k'" if r: "retained (sc_claims st') k w" "retained (sc_claims st') k' w" for k k' w
  proof (cases "network_id_shard k = shard"; cases "network_id_shard k' = shard")
    assume "network_id_shard k = shard" "network_id_shard k' = shard"
    with r e show ?thesis by (auto simp: retained_in st' dest: map_of_snd_inj)
  next
    assume "network_id_shard k = shard" "network_id_shard k' \<noteq> shard"
    with new [OF r(1)] scan_inv_retained(2) [OF inv old [OF r(2)]] e show ?thesis by auto
  next
    assume "network_id_shard k \<noteq> shard" "network_id_shard k' = shard"
    with new [OF r(2)] scan_inv_retained(2) [OF inv old [OF r(1)]] e show ?thesis by auto
  next
    assume "network_id_shard k \<noteq> shard" "network_id_shard k' \<noteq> shard"
    with old [OF r(1)] old [OF r(2)] inv show ?thesis by (auto simp: scan_inv_def)
  qed
  have "distinct (map fst ids) \<and> distinct (map snd ids) \<and> (\<forall>(k, w)\<in>set ids. network_id_shard k = sh \<and> w \<noteq> 0
      \<and> w \<in> set (sc_used st') \<and> unat w \<le> max_network_id \<and> unat w \<le> sc_highest st')"
    if "map_of (sc_claims st') sh = Some ids" for sh ids
  proof (cases "sh = shard")
    case True
    with that e decode_claims_distinct [OF ids] show ?thesis by (force simp: st')
  next
    case False
    with that inv have "distinct (map fst ids) \<and> distinct (map snd ids) \<and> (\<forall>(k, w)\<in>set ids. network_id_shard k = sh \<and> w \<noteq> 0
      \<and> w \<in> set (sc_used st) \<and> unat w \<le> max_network_id \<and> unat w \<le> sc_highest st)"
      by (simp add: st' scan_inv_def)
    with e show ?thesis by (fastforce simp: st')
  qed
  with uniq inv show ?thesis by (auto simp: scan_inv_def st')
qed (simp add: inv)

lemma scan_inv_scan:
  assumes "foldr_res scan_map empty_scan all = Inr scan"
  shows "scan_inv scan"
proof (rule foldr_res_invariant [OF assms, where I = "\<lambda>_ st. scan_inv st"])
  show "scan_inv empty_scan" by (simp add: scan_inv_def empty_scan_def retained_in)
qed (rule scan_map_inv)

section \<open>The issued identifiers\<close>

lemma set_group_keys [simp]: "set (group_keys keys shard) = {k \<in> set keys. network_id_shard k = shard}"
  by (auto simp: group_keys_def)

lemma distinct_group_keys [simp]: "distinct (group_keys keys shard)"
  by (simp add: group_keys_def)

lemma set_key_shards [simp]: "set (key_shards keys) = network_id_shard ` set keys"
  and distinct_key_shards [simp]: "distinct (key_shards keys)"
  by (simp_all add: key_shards_def)

lemma map_of_functional:
  assumes "\<And>v v'. (k, v) \<in> set m \<Longrightarrow> (k, v') \<in> set m \<Longrightarrow> v = v'"
  shows "map_of m k = Some w \<longleftrightarrow> (k, w) \<in> set m"
  using assms by (metis map_of_SomeD weak_map_of_SomeI)

lemma map_of_known_ids:
  "map_of (known_ids claims keys) k = Some w \<longleftrightarrow> k \<in> set keys \<and> retained claims k w"
proof -
  have m: "(k, w) \<in> set (known_ids claims keys) \<longleftrightarrow> k \<in> set keys \<and> retained claims k w" for k w
    by (force simp: known_ids_def retained_def map_filter_def)
  show ?thesis by (subst map_of_functional) (auto simp: m retained_def)
qed

lemma set_missing_keys:
  "set (missing_keys claims keys) = {k \<in> set keys. \<forall>w. \<not> retained claims k w}"
  by (auto simp: missing_keys_def retained_def)

lemma distinct_missing_keys: "distinct (missing_keys claims keys)"
proof -
  have "distinct (concat (map (\<lambda>shard. filter (P shard) (group_keys keys shard)) ss))" if "distinct ss" for P ss
    using that by (induction ss) auto
  then show ?thesis by (simp add: missing_keys_def)
qed

lemma map_of_new_ids:
  assumes "distinct ms"
  shows "map_of (new_ids next ms) k = Some w \<longleftrightarrow> (\<exists>i < length ms. k = ms ! i \<and> w = of_nat next + of_nat i)"
proof -
  have d: "distinct (map fst (new_ids next ms))" using assms by (simp add: new_ids_def)
  have "(k, w) \<in> set (new_ids next ms) \<longleftrightarrow> (\<exists>i < length ms. k = ms ! i \<and> w = of_nat next + of_nat i)"
    by (auto simp: new_ids_def set_zip)
  with map_of_eq_Some_iff [OF d] show ?thesis by blast
qed

lemma unat_u32: "n \<le> max_network_id \<Longrightarrow> unat (of_nat n :: u32) = n"
  by (simp add: unat_of_nat take_bit_nat_eq_self_iff max_network_id_def)

text \<open>An answer of the allocator: total on the requested keys, in range, and one key per identifier.\<close>

definition ids_ok :: "string list \<Rightarrow> u32 smap \<Rightarrow> bool" where
  "ids_ok keys m \<longleftrightarrow> (\<forall>k\<in>set keys. map_of m k \<noteq> None)
     \<and> (\<forall>k w. map_of m k = Some w \<longrightarrow> k \<in> set keys \<and> w \<noteq> 0 \<and> unat w \<le> max_network_id)
     \<and> (\<forall>k k' w. map_of m k = Some w \<longrightarrow> map_of m k' = Some w \<longrightarrow> k = k')"

lemma new_id_above:
  assumes "next + length ms \<le> max_network_id + 1" and "1 \<le> next" and "distinct ms" and "map_of (new_ids next ms) k = Some w"
  shows "\<exists>i < length ms. k = ms ! i \<and> unat w = next + i"
proof -
  from assms(3,4) obtain i where i: "i < length ms" "k = ms ! i" "w = of_nat next + of_nat i"
    by (auto simp: map_of_new_ids)
  then have "unat w = next + i" using assms(1) unat_u32 [of "next + i"] by simp
  with i show ?thesis by blast
qed

lemma ids_ok_allocation:
  assumes inv: "scan_inv scan" and "sc_highest scan < next" "1 \<le> next"
    and ms: "ms = sort_strings (missing_keys (sc_claims scan) keys)" and "next + length ms \<le> max_network_id + 1"
  shows "ids_ok keys (known_ids (sc_claims scan) keys @ new_ids next ms)"
proof -
  let ?m = "known_ids (sc_claims scan) keys @ new_ids next ms"
  have d: "distinct ms" using ms distinct_missing_keys by simp
  note new = new_id_above [OF assms(5,3) d]
  have sm: "set ms = {k \<in> set keys. \<forall>w. \<not> retained (sc_claims scan) k w}" using ms by (simp add: set_missing_keys)
  have split: "map_of ?m k = Some w \<longleftrightarrow> (k \<in> set keys \<and> retained (sc_claims scan) k w) \<or> map_of (new_ids next ms) k = Some w" for k w
  proof -
    have "map_of (new_ids next ms) k = None" if "k \<in> set keys \<and> retained (sc_claims scan) k w'" for w'
      using that sm d map_of_new_ids [OF d, of "next" k] by (metis (mono_tags, lifting) mem_Collect_eq not_None_eq nth_mem)
    then show ?thesis
      using map_of_known_ids [of "sc_claims scan" keys k] by (cases "map_of (known_ids (sc_claims scan) keys) k") (auto simp: map_add_def, blast)
  qed
  have range: "k \<in> set keys \<and> w \<noteq> 0 \<and> unat w \<le> max_network_id" if "map_of ?m k = Some w" for k w
    using that unfolding split
  proof
    assume "map_of (new_ids next ms) k = Some w"
    from new [OF this] obtain i where i: "i < length ms" "k = ms ! i" "unat w = next + i" by blast
    then have "k \<in> set keys" using sm nth_mem [of i ms] by auto
    with i assms(3,5) show ?thesis by auto
  qed (use scan_inv_retained [OF inv] in blast)
  have inj: "k = k'" if "map_of ?m k = Some w" "map_of ?m k' = Some w" for k k' w
    using that unfolding split
  proof (elim disjE conjE)
    assume "retained (sc_claims scan) k w" "retained (sc_claims scan) k' w"
    with inv show ?thesis by (auto simp: scan_inv_def)
  next
    assume "retained (sc_claims scan) k w" "map_of (new_ids next ms) k' = Some w"
    with new scan_inv_retained(4) [OF inv] assms(2) show ?thesis by fastforce
  next
    assume "map_of (new_ids next ms) k = Some w" "retained (sc_claims scan) k' w"
    with new scan_inv_retained(4) [OF inv] assms(2) show ?thesis by fastforce
  next
    assume "map_of (new_ids next ms) k = Some w" "map_of (new_ids next ms) k' = Some w"
    from new [OF this(1)] new [OF this(2)] show ?thesis by auto
  qed
  have total: "map_of ?m k \<noteq> None" if "k \<in> set keys" for k
  proof (cases "k \<in> set ms")
    case True
    then obtain i where "i < length ms" "k = ms ! i" by (auto simp: in_set_conv_nth)
    then have "map_of (new_ids next ms) k = Some (of_nat next + of_nat i)" by (auto simp: map_of_new_ids [OF d])
    then show ?thesis using split by auto
  next
    case False
    with that sm obtain w where "retained (sc_claims scan) k w" by blast
    with that split [of k w] show ?thesis by simp
  qed
  from range inj total show ?thesis by (auto simp: ids_ok_def)
qed

lemma ids_ok_known:
  assumes "scan_inv scan" and "missing_keys (sc_claims scan) keys = []"
  shows "ids_ok keys (known_ids (sc_claims scan) keys)"
proof -
  have "\<exists>w. retained (sc_claims scan) k w" if "k \<in> set keys" for k
    using that set_missing_keys [of "sc_claims scan" keys] assms(2) by auto
  then have "map_of (known_ids (sc_claims scan) keys) k \<noteq> None" if "k \<in> set keys" for k
    using that map_of_known_ids [of "sc_claims scan" keys k] by auto
  with scan_inv_retained [OF assms(1)] assms(1) show ?thesis
    by (auto simp: ids_ok_def map_of_known_ids scan_inv_def)
qed

lemma sequence_next_Inr:
  "sequence_next seq highest = Inr n \<longleftrightarrow> parse_uint 32 (mget (cm_data seq) ''next'') = Some n \<and> om_uid (cm_meta seq) \<noteq> []
     \<and> mget (om_labels (cm_meta seq)) network_id_allocator_label = network_id_sequence_name
     \<and> 1 \<le> n \<and> n \<le> max_network_id + 1 \<and> highest < n"
  by (auto simp: sequence_next_def split: option.splits if_splits)

section \<open>Every run of the allocator\<close>

text \<open>The label of a registry object, and the sequence value that an object carries.\<close>

abbreviation registry_label :: "config_map \<Rightarrow> string" where
  "registry_label cm \<equiv> mget (om_labels (cm_meta cm)) network_id_allocator_label"

text \<open>The history holds a sequence update past \<open>n\<close> that the server did not refuse.\<close>

definition advanced :: "(aobj kreq \<times> aobj kresp) list \<Rightarrow> nat \<Rightarrow> bool" where
  "advanced h n \<longleftrightarrow> (\<exists>cm r m. (Update (AMap cm), r) \<in> set h \<and> (\<forall>e. r \<noteq> Failed e)
     \<and> registry_label cm = network_id_sequence_name \<and> parse_uint 32 (mget (cm_data cm) ''next'') = Some m \<and> n < m)"

text \<open>A sequence update writes back an object that the run has read, or got back when it created it, with
  a greater value that is still in range.\<close>

definition moves_sequence :: "(aobj kreq \<times> aobj kresp) list \<Rightarrow> config_map \<Rightarrow> bool" where
  "moves_sequence h cm \<longleftrightarrow> registry_label cm = network_id_sequence_name
     \<and> (\<exists>q seq n m. (q, Obj (AMap seq)) \<in> set h \<and> cm_meta cm = cm_meta seq
         \<and> parse_uint 32 (mget (cm_data seq) ''next'') = Some n \<and> parse_uint 32 (mget (cm_data cm) ''next'') = Some m
         \<and> 1 \<le> n \<and> n < m \<and> m \<le> max_network_id + 1)"

text \<open>What the allocator creates: a sequence that stands at 1, the immutable anchor that names the sequence
  the run has seen, or a claim shard without claims.\<close>

definition registry_object :: "(aobj kreq \<times> aobj kresp) list \<Rightarrow> config_map \<Rightarrow> bool" where
  "registry_object h cm \<longleftrightarrow>
     registry_label cm = network_id_sequence_name \<and> cm_data cm = [(''next'', ''1'')]
     \<or> registry_label cm = network_id_anchor_name \<and> cm_immutable cm = Some True
        \<and> (\<exists>q seq. (q, Obj (AMap seq)) \<in> set h \<and> registry_label seq = network_id_sequence_name
            \<and> om_uid (cm_meta seq) \<noteq> [] \<and> cm_data cm = [(''sequenceUID'', om_uid (cm_meta seq))])
     \<or> registry_label cm = claims_label \<and> decode_claims (mget (cm_data cm) ''claims.json'') = Some []"

text \<open>What the allocator may write: the objects of a new registry, the sequence forward, or claims whose
  identifiers the sequence has passed.\<close>

definition allocator_write :: "(aobj kreq \<times> aobj kresp) list \<Rightarrow> aobj kreq \<Rightarrow> bool" where
  "allocator_write h q \<longleftrightarrow> (case q of
      Update (AMap cm) \<Rightarrow> moves_sequence h cm
        \<or> (\<exists>ids. mget (cm_data cm) ''claims.json'' = encode_claims ids \<and> (\<forall>(k, w)\<in>set ids. advanced h (unat w)))
    | Get _ _ _ \<Rightarrow> True | List _ _ _ \<Rightarrow> True
    | Create (AMap cm) \<Rightarrow> registry_object h cm
    | _ \<Rightarrow> False)"

lemma allocator_write_simps [simp]:
  "allocator_write h (Get k ns n)" "allocator_write h (List k o' l)"
  "allocator_write h (Create (AMap cm)) = registry_object h cm"
  by (simp_all add: allocator_write_def)

lemma empty_claims: "decode_claims ''{}'' = Some []"
  by code_simp

lemma registry_object_new:
  "registry_object h (registry_map ns network_id_sequence_name network_id_sequence_name [(''next'', ''1'')])"
  "registry_object h (registry_map ns name claims_label [(''claims.json'', ''{}'')])"
  by (simp_all add: registry_object_def registry_map_def mget_def empty_claims)

lemma registry_object_anchor:
  assumes "(q, Obj (AMap seq)) \<in> set h" and "registry_label seq = network_id_sequence_name" and "om_uid (cm_meta seq) \<noteq> []"
  shows "registry_object h ((registry_map ns network_id_anchor_name network_id_anchor_name
    [(''sequenceUID'', om_uid (cm_meta seq))])\<lparr>cm_immutable := Some True\<rparr>)"
  using assms by (auto simp: registry_object_def registry_map_def mget_def)

lemma advanced_mono: "advanced h n \<Longrightarrow> set h \<subseteq> set h' \<Longrightarrow> n' \<le> n \<Longrightarrow> advanced h' n'"
  unfolding advanced_def by (elim exE conjE, intro exI conjI) (auto)

lemma extend_claims_set:
  "(k, w) \<in> set (extend_claims result ids ks) \<Longrightarrow>
    (k, w) \<in> set ids \<or> (k \<in> set ks \<and> w = (case map_of result k of None \<Rightarrow> 0 | Some w \<Rightarrow> w))"
proof (induction ks arbitrary: ids)
  case Nil
  then show ?case by (simp add: extend_claims_def)
next
  case (Cons x ks)
  define ids' where "ids' = (if map_of ids x = None then mput x (case map_of result x of None \<Rightarrow> 0 | Some w \<Rightarrow> w) ids else ids)"
  have "(k, w) \<in> set (extend_claims result ids' ks)" using Cons.prems by (simp add: extend_claims_def ids'_def)
  from Cons.IH [OF this] consider "(k, w) \<in> set ids'"
    | "k \<in> set ks \<and> w = (case map_of result k of None \<Rightarrow> 0 | Some w \<Rightarrow> w)" by blast
  then show ?case
  proof cases
    case 1
    then show ?thesis
      by (auto simp: ids'_def map_of_eq_None_iff set_mput_new split: if_splits)
  qed simp
qed

lemma extend_claims_keeps:
  "map_of ids k = Some w \<Longrightarrow> map_of (extend_claims result ids ks) k = Some w"
proof (induction ks arbitrary: ids)
  case (Cons x ks)
  show ?case
    using Cons.IH [of "if map_of ids x = None then mput x (case map_of result x of None \<Rightarrow> 0 | Some w \<Rightarrow> w) ids else ids"]
      Cons.prems by (cases "map_of ids x"; cases "k = x") (simp_all add: extend_claims_def)
qed (simp add: extend_claims_def)

lemma always_read_sequence:
  assumes "\<And>h e. Q h (Inl e)" and "\<And>h' q seq. (q, Obj (AMap seq)) \<in> set h' \<Longrightarrow> Q h' (Inr seq)"
  shows "always allocator_write (read_sequence ns m n) Q h"
proof -
  have "Q (h @ [(q, Obj (AMap seq))]) (Inr seq)" "Q (h @ [x, (q, Obj (AMap seq))]) (Inr seq)" for x q seq
    by (rule assms(2) [of q], simp)+
  then show ?thesis
    by (auto simp: read_sequence_def registry_object_new assms(1) split: sum.splits kresp.splits option.splits elim!: a_map.elims)
qed

text \<open>The claims after the empty shards were created.\<close>

definition grown :: "u32 smap smap \<Rightarrow> u32 smap smap \<Rightarrow> bool" where
  "grown claims claims' \<longleftrightarrow> (\<forall>s. map_of claims' s = map_of claims s \<or> map_of claims s = None \<and> map_of claims' s = Some [])"

lemma grown_refl [simp]: "grown claims claims"
  by (simp add: grown_def)

lemma grown_mput: "grown claims claims' \<Longrightarrow> map_of claims' s = None \<Longrightarrow> grown claims (mput s [] claims')"
  by (simp add: grown_def) (metis option.distinct(1))

lemma shard_claims_grown: "grown claims claims' \<Longrightarrow> shard_claims claims' s = shard_claims claims s"
  unfolding grown_def shard_claims_def by (drule spec [of _ s]) auto

lemma always_create_shards:
  assumes e: "\<And>h e. Q h (Inl e)"
    and fin: "\<And>h objects' claims'. grown claims claims' \<Longrightarrow> set h0 \<subseteq> set h \<Longrightarrow> Q h (Inr (objects', claims'))"
    and dom: "\<And>shard. (map_of objects shard = None) = (map_of claims shard = None)"
  shows "always allocator_write (efold (create_shard ns) (objects, claims) shards) Q h0"
proof (rule always_efold [where I = "\<lambda>_ st h. grown claims (snd st) \<and> set h0 \<subseteq> set h
      \<and> (\<forall>s. (map_of (fst st) s = None) = (map_of (snd st) s = None))"])
  fix "done" x todo and st :: "config_map smap \<times> u32 smap smap" and h
  obtain objects' claims' where st: "st = (objects', claims')" by fastforce
  assume I: "grown claims (snd st) \<and> set h0 \<subseteq> set h \<and> (\<forall>s. (map_of (fst st) s = None) = (map_of (snd st) s = None))"
  then have "grown claims (mput x [] claims')" if "map_of objects' x = None" using that st grown_mput by simp
  with I show "always allocator_write (create_shard ns st x) (\<lambda>h y. case y of Inl e \<Rightarrow> Q h (Inl e)
      | Inr st \<Rightarrow> grown claims (snd st) \<and> set h0 \<subseteq> set h \<and> (\<forall>s. (map_of (fst st) s = None) = (map_of (snd st) s = None))) h"
    unfolding st by (auto simp: create_shard_def e registry_object_new split: kresp.splits option.splits)
qed (use fin dom in auto)

lemma always_update_shards:
  assumes G: "\<And>h shard cm. mget (cm_data cm) ''claims.json''
        = encode_claims (extend_claims result (shard_claims claims shard) (group_keys keys shard))
        \<Longrightarrow> set h0 \<subseteq> set h \<Longrightarrow> G h (Update (AMap cm))"
    and Q: "\<And>h x. Q h x"
  shows "always G (efold (update_shard keys objects claims result) () shards) Q h0"
proof (rule always_efold [where I = "\<lambda>_ _ h. set h0 \<subseteq> set h"])
  fix "done" x todo s h
  assume h: "set h0 \<subseteq> set h"
  have "G h (Update (AMap (cm\<lparr>cm_data := mput ''claims.json'' (encode_claims (extend_claims result (shard_claims claims x)
      (group_keys keys x))) (cm_data cm)\<rparr>)))" for cm by (rule G [OF _ h]) simp
  with h show "always G (update_shard keys objects claims result s x)
      (\<lambda>h y. case y of Inl e \<Rightarrow> Q h (Inl e) | Inr s' \<Rightarrow> set h0 \<subseteq> set h) h"
    by (auto simp: update_shard_def Let_def Q split: option.splits kresp.splits)
qed (use Q in auto)

text \<open>Every identifier an allocation answers with or writes is below the advanced sequence.\<close>

lemma allocated_below:
  assumes "scan_inv scan" and "sc_highest scan < next" and "1 \<le> next" and "distinct ms"
    and "next + length ms \<le> max_network_id + 1"
    and "map_of (known_ids (sc_claims scan) keys @ new_ids next ms) k = Some w"
  shows "unat w < next + length ms"
proof -
  from assms(6) consider "retained (sc_claims scan) k w" | "map_of (new_ids next ms) k = Some w"
    by (auto simp: map_of_known_ids)
  then show ?thesis
  proof cases
    case 1
    with scan_inv_retained(4) [OF assms(1)] assms(2) show ?thesis by fastforce
  next
    case 2
    with new_id_above [OF assms(5,3,4)] show ?thesis by fastforce
  qed
qed

lemma written_below:
  assumes "scan_inv scan" and "sc_highest scan < next" and "1 \<le> next" and "distinct ms"
    and "next + length ms \<le> max_network_id + 1"
    and "(k, w) \<in> set (extend_claims (known_ids (sc_claims scan) keys @ new_ids next ms) (shard_claims (sc_claims scan) shard) ks)"
  shows "unat w < next + length ms"
  using extend_claims_set [OF assms(6)]
proof
  assume "(k, w) \<in> set (shard_claims (sc_claims scan) shard)"
  then have "unat w \<le> sc_highest scan"
    using scan_inv_shard [OF assms(1), of shard] by (cases "map_of (sc_claims scan) shard") (auto simp: shard_claims_def)
  with assms(2) show ?thesis by simp
next
  assume "k \<in> set ks \<and> w = (case map_of (known_ids (sc_claims scan) keys @ new_ids next ms) k of None \<Rightarrow> 0 | Some w \<Rightarrow> w)"
  then show ?thesis
    using allocated_below [OF assms(1-5)] assms(3) by (auto split: option.splits)
qed

lemma allocate_run:
  assumes inv: "scan_inv scan" and seq: "sequence_next seq (sc_highest scan) = Inr next"
    and ms: "ms = missing_keys (sc_claims scan) keys" "ms \<noteq> []" and le: "next + length ms \<le> max_network_id + 1"
    and got: "(q, Obj (AMap seq)) \<in> set h"
  shows "always allocator_write (allocate ns keys scan seq next ms) (\<lambda>h x. case x of Inl e \<Rightarrow> True | Inr m \<Rightarrow> ids_ok keys m) h"
proof -
  note n = seq [unfolded sequence_next_Inr]
  let ?result = "known_ids (sc_claims scan) keys @ new_ids next (sort_strings ms)"
  let ?seq = "seq\<lparr>cm_data := mput ''next'' (nat_str (next + length ms)) (cm_data seq)\<rparr>"
  have d: "distinct (sort_strings ms)" and le': "next + length (sort_strings ms) \<le> max_network_id + 1"
    using distinct_missing_keys le by (simp_all add: ms)
  have ok: "ids_ok keys ?result"
    by (rule ids_ok_allocation [OF inv]) (use n le ms in simp_all)
  have moves: "allocator_write h' (Update (AMap ?seq))" if "set h \<subseteq> set h'" for h'
    unfolding allocator_write_def moves_sequence_def
    by (simp, intro disjI1 conjI exI [of _ q] exI [of _ seq] exI [of _ "next"] exI [of _ "next + length ms"])
      (use n le ms got that in \<open>auto simp: max_network_id_def\<close>)
  have adv: "advanced (h @ [(Update (AMap ?seq), r)]) m" if "m < next + length ms" "\<forall>e. r \<noteq> Failed e" for m h r
    unfolding advanced_def
    by (intro exI [of _ ?seq] exI [of _ r] exI [of _ "next + length ms"])
      (use that n le in \<open>simp add: max_network_id_def\<close>)
  have upd: "always allocator_write (efold (update_shard keys objects claims ?result) () (key_shards keys))
      (\<lambda>h x. case x of Inl e \<Rightarrow> True | Inr _ \<Rightarrow> ids_ok keys ?result) (h @ [(Update (AMap ?seq), r)])"
    if g: "grown (sc_claims scan) claims" and r: "\<forall>e. r \<noteq> Failed e" for h r objects claims
  proof (rule always_update_shards)
    fix h' shard and cm :: config_map
    assume c: "mget (cm_data cm) ''claims.json'' = encode_claims (extend_claims ?result (shard_claims claims shard) (group_keys keys shard))"
      and h': "set (h @ [(Update (AMap ?seq), r)]) \<subseteq> set h'"
    have "advanced h' (unat w)" if "(k, w) \<in> set (extend_claims ?result (shard_claims claims shard) (group_keys keys shard))" for k w
      using written_below [OF inv _ _ d le' that [unfolded shard_claims_grown [OF g]]] n
        advanced_mono [OF adv [OF _ r] h'] by simp
    with c show "allocator_write h' (Update (AMap cm))" by (auto simp: allocator_write_def)
  qed (use ok in \<open>simp split: sum.splits\<close>)
  show ?thesis
    unfolding allocate_def Let_def always_ebind
    by (rule always_create_shards)
      (use n inv upd moves in \<open>auto simp: scan_inv_def split: kresp.splits\<close>)
qed

lemma check_anchor_run:
  assumes "(q, Obj (AMap seq)) \<in> set h" and "sequence_next seq highest = Inr next"
    and "\<And>h' x. set h \<subseteq> set h' \<Longrightarrow> Q h' x"
  shows "always allocator_write (check_anchor ns anchor seq next highest) Q h"
proof -
  have "Q h x" "Q (h @ [y]) x" for x y by (rule assms(3), auto)+
  with assms(2) registry_object_anchor [OF assms(1)] show ?thesis
    by (auto simp: check_anchor_def sequence_next_Inr split: option.splits)
qed

lemma after_sequence_run:
  assumes inv: "scan_inv scan" and got: "(q, Obj (AMap seq)) \<in> set h"
  shows "always allocator_write (ebind (lift_res Errorf (sequence_next seq (sc_highest scan))) (\<lambda>next.
      ebind (check_anchor ns anchor seq next (sc_highest scan)) (\<lambda>_.
      if missing_keys (sc_claims scan) keys = [] then go (known_ids (sc_claims scan) keys)
      else if max_network_id + 1 < next + length (missing_keys (sc_claims scan) keys) then leave (Errorf ''network ID sequence exhausted'')
      else allocate ns keys scan seq next (missing_keys (sc_claims scan) keys))))
    (\<lambda>h x. case x of Inl e \<Rightarrow> True | Inr m \<Rightarrow> ids_ok keys m) h"
proof (cases "sequence_next seq (sc_highest scan)")
  case (Inr "next")
  have "always allocator_write (if missing_keys (sc_claims scan) keys = [] then go (known_ids (sc_claims scan) keys)
      else if max_network_id + 1 < next + length (missing_keys (sc_claims scan) keys) then leave (Errorf ''network ID sequence exhausted'')
      else allocate ns keys scan seq next (missing_keys (sc_claims scan) keys))
    (\<lambda>h x. case x of Inl e \<Rightarrow> True | Inr m \<Rightarrow> ids_ok keys m) h'" if "set h \<subseteq> set h'" for h'
    using allocate_run [OF inv Inr refl, of keys q h'] ids_ok_known [OF inv] got that by auto
  with check_anchor_run [OF got Inr] show ?thesis by (simp add: Inr split: sum.split)
qed simp

lemma network_ids_run:
  "always allocator_write (network_ids cfg keys) (\<lambda>h x. case x of Inl e \<Rightarrow> True | Inr m \<Rightarrow> ids_ok keys m) h"
proof -
  have "always allocator_write (ebind (read_sequence ns absent (sc_highest scan)) (\<lambda>seq.
      ebind (lift_res Errorf (sequence_next seq (sc_highest scan))) (\<lambda>next.
      ebind (check_anchor ns anchor seq next (sc_highest scan)) (\<lambda>_.
      if missing_keys (sc_claims scan) keys = [] then go (known_ids (sc_claims scan) keys)
      else if max_network_id + 1 < next + length (missing_keys (sc_claims scan) keys) then leave (Errorf ''network ID sequence exhausted'')
      else allocate ns keys scan seq next (missing_keys (sc_claims scan) keys)))))
    (\<lambda>h x. case x of Inl e \<Rightarrow> True | Inr m \<Rightarrow> ids_ok keys m) h" if "scan_inv scan" for scan ns anchor absent h
    unfolding always_ebind [of _ "read_sequence ns absent (sc_highest scan)"]
    by (rule always_read_sequence) (simp_all only: sum.case after_sequence_run [OF that])
  note rest = this
  show ?thesis
    unfolding network_ids_def Let_def always_ebind [of _ "klist _ _ _ _"] always_ebind [of _ "lift_res _ (foldr_res _ _ _)"]
      always_pbind always_ebind [of _ "Ret _"]
    using scan_inv_scan by (auto simp del: always_ebind split: sum.splits kresp.splits option.splits if_splits intro!: rest)
qed

section \<open>Properties\<close>

text \<open>
  C10: whatever the API server answers, a result of the allocator gives every requested key an
  identifier between 1 and 16777215 and no two keys the same one, retained and new keys alike.
\<close>

theorem network_ids_unique:
  "every_result (\<lambda>x. case x of Inl e \<Rightarrow> True | Inr m \<Rightarrow> ids_ok keys m) (network_ids cfg keys)"
  by (rule every_resultI) (rule always_mono [OF network_ids_run], simp_all)


definition fresh_answers :: "config_map \<Rightarrow> config_map \<Rightarrow> aobj kresp list" where
  "fresh_answers seq shard = [Items [], Failed (NotFound []), Failed (NotFound []), Obj (AMap seq), Done,
     Obj (AMap shard), Done, Done]"

lemma fresh_keys [simp]:
  "key_shards [key] = [network_id_shard key]" "group_keys [key] (network_id_shard key) = [key]"
  "missing_keys [] [key] = [key]" "known_ids [] [key] = []"
  by (simp_all add: key_shards_def sort_strings_def group_keys_def missing_keys_def known_ids_def claimed_def map_filter_def)

lemma length_fresh_claims: "length (encode_claims [(key, 1)]) \<le> 900000" if "length (json_str key) \<le> 800000"
  using that by (simp add: encode_claims_def json_map_def sort_slice_def json_u32_def json_nat_def nat_str.simps)

text \<open>
  in an empty registry, with a server that accepts every write and keeps the identity of the
  sequence it created, the allocator answers a request for one key with the identifier 1.
\<close>

theorem network_ids_first:
  assumes "om_uid (cm_meta seq) \<noteq> []" and "registry_label seq = network_id_sequence_name"
    and "mget (cm_data seq) ''next'' = ''1''" and "length (json_str key) \<le> 800000"
  shows "snd (replay (network_ids cfg [key]) (fresh_answers seq shard)) = Some (Inr [(key, 1)], [])"
proof -
  have one: "parse_uint 32 ''1'' = Some 1"
    using parse_uint_nat_str [of 1 32] by (simp add: nat_str.simps digit_char_numerals)
  show ?thesis
    using assms length_fresh_claims [OF assms(4)] one
    by (simp add: network_ids_def fresh_answers_def klist_def kget_def kwrite_def kdo_def ebind_def read_sequence_def
        map_filter_def empty_scan_def sequence_next_def max_network_id_def check_anchor_def allocate_def create_shard_def
        update_shard_def extend_claims_def shard_claims_def new_ids_def sort_strings_def lift_res_def Let_def)
qed

definition ex_sequence :: config_map where
  "ex_sequence = (registry_map ''ns'' network_id_sequence_name network_id_sequence_name [(''next'', ''1'')])
     \<lparr>cm_meta := empty_meta\<lparr>om_uid := ''u'', om_labels := [(network_id_allocator_label, network_id_sequence_name)]\<rparr>\<rparr>"

theorem network_ids_first_witness:
  "snd (replay (network_ids ex_cfg [''vpc/v1'']) (fresh_answers ex_sequence ex_sequence)) = Some (Inr [(''vpc/v1'', 1)], [])"
proof -
  have "length (json_str ''vpc/v1'') \<le> 800000"
    by (simp add: json_str_def esc_str_ascii esc_byte_def)
  then show ?thesis
    by (intro network_ids_first)
      (simp_all add: ex_sequence_def registry_map_def mget_def empty_meta_def)
qed

section \<open>The identities of a plan\<close>

text \<open>What the transport identities of a plan guarantee: autonomous system numbers in the private range
  that stay within 32 bits, one per location, and control VNIs in range, one per link.\<close>

definition transport_ok :: "vpc \<Rightarrow> network_binding list \<Rightarrow> bool" where
  "transport_ok v bs \<longleftrightarrow>
     (\<forall>b\<in>set bs. 4200000000 < unat (b_local_asn (nb_spec b)) \<and> unat (b_local_asn (nb_spec b)) \<le> 4216777215
        \<and> b_network_id (nb_spec b) = vst_network_id (v_status v) \<and> b_revision (nb_spec b) = revision (nb_spec b)
        \<and> (\<forall>l\<in>set (b_link_allocations (nb_spec b)). la_control_vni l \<noteq> 0 \<and> unat (la_control_vni l) \<le> max_network_id))
     \<and> (\<forall>b\<in>set bs. \<forall>c\<in>set bs. b_local_asn (nb_spec b) = b_local_asn (nb_spec c)
          \<longrightarrow> b_location_ref (nb_spec b) = b_location_ref (nb_spec c))
     \<and> (\<forall>b\<in>set bs. \<forall>c\<in>set bs. \<forall>l\<in>set (b_link_allocations (nb_spec b)). \<forall>k\<in>set (b_link_allocations (nb_spec c)).
          la_control_vni l = la_control_vni k \<longrightarrow> link_key v l = link_key v k)
     \<and> (\<forall>b\<in>set bs. \<forall>c\<in>set bs. \<forall>l\<in>set (b_link_allocations (nb_spec b)).
          unat (b_local_asn (nb_spec c)) \<noteq> 4200000000 + unat (la_control_vni l))"

lemma unat_asn:
  assumes "unat (w :: u32) \<le> max_network_id"
  shows "unat (4200000000 + w) = 4200000000 + unat w"
  using assms by (subst unat_add_lem [THEN iffD1]) (simp_all add: max_network_id_def)

lemma link_key_vni [simp]: "link_key v (l\<lparr>la_control_vni := w\<rparr>) = link_key v l"
  by (simp add: link_key_def)

lemma asn_not_link: "asn_key s \<noteq> link_key v l"
  by (simp add: asn_key_def link_key_def)

lemma ids_ok_of:
  assumes "ids_ok keys m" and "k \<in> set keys"
  shows "id_of m k \<noteq> 0" "unat (id_of m k) \<le> max_network_id"
    "k' \<in> set keys \<Longrightarrow> id_of m k = id_of m k' \<Longrightarrow> k = k'"
proof -
  from assms obtain w where w: "map_of m k = Some w" by (auto simp: ids_ok_def)
  with assms(1) show "id_of m k \<noteq> 0" "unat (id_of m k) \<le> max_network_id"
    by (simp_all add: id_of_def ids_ok_def)
  show "k = k'" if "k' \<in> set keys" "id_of m k = id_of m k'"
  proof -
    from assms(1) that(1) obtain w' where "map_of m k' = Some w'" by (auto simp: ids_ok_def)
    with w that(2) assms(1) show ?thesis by (simp add: id_of_def ids_ok_def)
  qed
qed

lemma completed_binding:
  fixes v :: vpc and m :: "u32 smap" and existing :: "network_binding list" and b :: network_binding
  assumes "b_link_allocations (nb_spec b) = []"
  defines "c \<equiv> complete_transport v m (prepare_transport v existing b)"
  shows "b_local_asn (nb_spec c) = 4200000000 + id_of m (asn_key (nb_spec b))"
    "b_network_id (nb_spec c) = vst_network_id (v_status v)" "b_revision (nb_spec c) = revision (nb_spec c)"
    "b_location_ref (nb_spec c) = b_location_ref (nb_spec b)"
    "set (b_link_allocations (nb_spec c)) = (\<lambda>l. l\<lparr>la_control_vni := id_of m (link_key v l)\<rparr>) ` set (binding_links existing (nb_spec b))"
  using assms(1) by (simp_all add: c_def complete_transport_def prepare_transport_def Let_def revision_def asn_key_def)

lemma transport_ok_complete:
  assumes m: "ids_ok (transport_keys v existing desired) m"
    and none: "\<forall>b\<in>set desired. b_link_allocations (nb_spec b) = []"
  shows "transport_ok v (map (\<lambda>b. complete_transport v m (prepare_transport v existing b)) desired)"
proof -
  have asn: "asn_key (nb_spec b) \<in> set (transport_keys v existing desired)" if "b \<in> set desired" for b
    using that by (auto simp: transport_keys_def)
  have lnk: "link_key v l \<in> set (transport_keys v existing desired)"
    if "b \<in> set desired" "l \<in> set (binding_links existing (nb_spec b))" for b l
    using that by (auto simp: transport_keys_def)
  note I = ids_ok_of [OF m]
  have n: "unat (4200000000 + id_of m (asn_key (nb_spec b))) = 4200000000 + unat (id_of m (asn_key (nb_spec b)))"
    if "b \<in> set desired" for b using unat_asn [OF I(2) [OF asn [OF that]]] .
  have loc: "b_location_ref (nb_spec b) = b_location_ref (nb_spec c)" if "asn_key (nb_spec b) = asn_key (nb_spec c)" for b c
    using that by (simp add: asn_key_def)
  have same: "b_location_ref (nb_spec b) = b_location_ref (nb_spec c)"
    if "b \<in> set desired" "c \<in> set desired" "id_of m (asn_key (nb_spec b)) = id_of m (asn_key (nb_spec c))" for b c
    using loc I(3) [OF asn [OF that(1)] asn [OF that(2)] that(3)] .
  have "asn_key (nb_spec b) \<noteq> link_key v l" for b l by (rule asn_not_link)
  then have vni: "unat (id_of m (asn_key (nb_spec b))) \<noteq> unat (id_of m (link_key v l))"
    if "b \<in> set desired" "c \<in> set desired" "l \<in> set (binding_links existing (nb_spec c))" for b c l
    using I(3) [OF asn [OF that(1)] lnk [OF that(2,3)]] by (auto simp: word_unat_eq_iff)
  show ?thesis
    unfolding transport_ok_def
  proof (intro conjI)
    show "\<forall>b\<in>set (map (\<lambda>b. complete_transport v m (prepare_transport v existing b)) desired).
        4200000000 < unat (b_local_asn (nb_spec b)) \<and> unat (b_local_asn (nb_spec b)) \<le> 4216777215
        \<and> b_network_id (nb_spec b) = vst_network_id (v_status v) \<and> b_revision (nb_spec b) = revision (nb_spec b)
        \<and> (\<forall>l\<in>set (b_link_allocations (nb_spec b)). la_control_vni l \<noteq> 0 \<and> unat (la_control_vni l) \<le> max_network_id)"
      using none I(1,2) asn lnk n by (auto simp: completed_binding max_network_id_def unat_gt_0)
    show "\<forall>b\<in>set (map (\<lambda>b. complete_transport v m (prepare_transport v existing b)) desired).
      \<forall>c\<in>set (map (\<lambda>b. complete_transport v m (prepare_transport v existing b)) desired).
        b_local_asn (nb_spec b) = b_local_asn (nb_spec c) \<longrightarrow> b_location_ref (nb_spec b) = b_location_ref (nb_spec c)"
      using none by (auto simp: completed_binding intro: same)
    show "\<forall>b\<in>set (map (\<lambda>b. complete_transport v m (prepare_transport v existing b)) desired).
      \<forall>c\<in>set (map (\<lambda>b. complete_transport v m (prepare_transport v existing b)) desired).
      \<forall>l\<in>set (b_link_allocations (nb_spec b)). \<forall>k\<in>set (b_link_allocations (nb_spec c)).
        la_control_vni l = la_control_vni k \<longrightarrow> link_key v l = link_key v k"
      using none I(3) lnk by (auto simp: completed_binding)
    show "\<forall>b\<in>set (map (\<lambda>b. complete_transport v m (prepare_transport v existing b)) desired).
      \<forall>c\<in>set (map (\<lambda>b. complete_transport v m (prepare_transport v existing b)) desired).
      \<forall>l\<in>set (b_link_allocations (nb_spec b)). unat (b_local_asn (nb_spec c)) \<noteq> 4200000000 + unat (la_control_vni l)"
      using none n vni by (auto simp: completed_binding)
  qed
qed

text \<open>
  For a plan without link allocations, as the compiler makes it, the transport step gives every
  location an autonomous system number of its own between 4200000001 and 4216777215, so the 32-bit
  addition never wraps, and every link a control VNI of its own between 1 and 16777215 that no location's
  number was derived from, for all answers of the API server.
\<close>

theorem assign_transport_identities:
  assumes "\<forall>b\<in>set desired. b_link_allocations (nb_spec b) = []"
  shows "every_result (\<lambda>x. case x of Inl e \<Rightarrow> True | Inr bs \<Rightarrow> length bs = length desired \<and> transport_ok v bs)
    (assign_transport cfg v desired existing)"
  unfolding assign_transport_def
  by (rule every_resultI, unfold always_ebind, rule always_mono [OF network_ids_run])
    (use transport_ok_complete assms in \<open>auto split: sum.splits\<close>)

theorem assign_transport_identities_witness:
  "every_result (\<lambda>x. case x of Inl e \<Rightarrow> True | Inr bs \<Rightarrow> length bs = length [ex_binding, ex_remote] \<and> transport_ok ex_vpc bs)
    (assign_transport ex_cfg ex_vpc [ex_binding, ex_remote] [ex_remote])"
  by (rule assign_transport_identities) (simp add: ex_binding_def ex_remote_def ex_spec_def)

end
