(* ===== verification/Platform_Reconciler.thy ===== *)
theory Platform_Reconciler
  imports Network_Id "HOL-Library.Product_Lexorder"
begin

text \<open>
  \<open>internal/platformcontroller/reconciler.go\<close>: one pass of the controller that turns project-scoped
  VPC and Subnet intent into location snapshots. The whole of \<open>Reconcile\<close> is a tree of API calls, cut
  at the places where the code has comments or blank lines. A slice decoded from the API is \<open>nil\<close>
  when it is empty, and so are the slices the code compares with it, with one exception that
  \<open>spec_deep_equal\<close> writes out.
\<close>

section \<open>Statuses\<close>

definition again :: "int \<Rightarrow> int" where
  "again interval = (if interval < 1000000000 then 5 * 1000000000 else interval)"

definition condition_of :: "int \<Rightarrow> string \<Rightarrow> string \<Rightarrow> string \<Rightarrow> bool \<Rightarrow> condition" where
  "condition_of generation kind reason message ready = \<lparr>cd_type = kind, cd_status = (if ready then ''True'' else ''False''),
     cd_reason = reason, cd_message = message, cd_generation = generation, cd_transition = 0\<rparr>"

definition vpc_with_state :: "k8s_lib \<Rightarrow> vpc \<Rightarrow> string \<Rightarrow> string \<Rightarrow> string \<Rightarrow> bool \<Rightarrow> vpc" where
  "vpc_with_state L v phase reason message ready = v\<lparr>v_status := (v_status v)\<lparr>vst_phase := phase,
     vst_observed_generation := om_generation (v_meta v),
     vst_conditions := set_status_condition L (vst_conditions (v_status v))
       (condition_of (om_generation (v_meta v)) ''Ready'' reason message ready)\<rparr>\<rparr>"

definition vpc_state :: "k8s_lib \<Rightarrow> int \<Rightarrow> vpc \<Rightarrow> string \<Rightarrow> string \<Rightarrow> string \<Rightarrow> bool \<Rightarrow> (aobj, outcome + 'a) kprog" where
  "vpc_state L interval v phase reason message ready =
     (let v' = vpc_with_state L v phase reason message ready in
      if v_status v' \<noteq> v_status v
      then ebind (or_fail (kdo (UpdateStatus (AVpc v')))) (\<lambda>_. leave \<lparr>requeue_after = again interval, out_error = None\<rparr>)
      else leave \<lparr>requeue_after = again interval, out_error = None\<rparr>)"

definition subnet_with_state :: "k8s_lib \<Rightarrow> subnet \<Rightarrow> string \<Rightarrow> string \<Rightarrow> string \<Rightarrow> bool \<Rightarrow> subnet" where
  "subnet_with_state L s phase reason message ready = s\<lparr>s_status := (s_status s)\<lparr>sst_phase := phase,
     sst_observed_generation := om_generation (s_meta s),
     sst_conditions := set_status_condition L (sst_conditions (s_status s))
       (condition_of (om_generation (s_meta s)) ''Ready'' reason message ready)\<rparr>\<rparr>"

definition subnet_state :: "k8s_lib \<Rightarrow> subnet \<Rightarrow> string \<Rightarrow> string \<Rightarrow> string \<Rightarrow> bool \<Rightarrow> (aobj, err + unit) kprog" where
  "subnet_state L s phase reason message ready =
     (let s' = subnet_with_state L s phase reason message ready in
      if s_status s' \<noteq> s_status s then kdo (UpdateStatus (ASubnet s')) else go ())"

section \<open>A VPC that is gone\<close>

definition vpc_gone :: "k8s_lib \<Rightarrow> int \<Rightarrow> string \<Rightarrow> string \<Rightarrow> (aobj, outcome + 'a) kprog" where
  "vpc_gone L interval ns name =
     ebind (or_fail (klist a_subnet ''Subnet'' (Some ns) [])) (\<lambda>subnets.
     ebind (efold (\<lambda>u s. if ss_vpc_ref (s_spec s) = name
         then or_fail (subnet_state L s ''Blocked'' ''VPCNotFound'' ''Referenced VPC does not exist'' False)
         else go ()) () subnets) (\<lambda>_.
     leave \<lparr>requeue_after = again interval, out_error = None\<rparr>))"

section \<open>Acknowledged tombstones\<close>

definition acknowledged :: "network_binding \<Rightarrow> bool" where
  "acknowledged b \<longleftrightarrow> b_deleting (nb_spec b) \<and> bst_phase (nb_status b) = ''Deleted''
     \<and> bst_applied_revision (nb_status b) = b_revision (nb_spec b)
     \<and> bst_resources (nb_status b) = [] \<and> bst_gateways (nb_status b) = []"

definition refers_to :: "network_binding \<Rightarrow> binding_reference \<Rightarrow> bool" where
  "refers_to b r \<longleftrightarrow> br_name r = om_name (nb_meta b) \<and> br_location_ref r = b_location_ref (nb_spec b)"

definition forget_tombstone :: "k8s_lib \<Rightarrow> int \<Rightarrow> vpc \<Rightarrow> network_binding list \<Rightarrow> (aobj, outcome + unit) kprog" where
  "forget_tombstone L interval v bindings = (case find acknowledged bindings of
      None \<Rightarrow> go ()
    | Some b \<Rightarrow>
        let refs = vst_bindings (v_status v) in
        if list_ex (\<lambda>r. refers_to b r \<and> br_uid r \<noteq> om_uid (nb_meta b)) refs
        then vpc_state L interval v ''Blocked'' ''BindingReplaced'' ''A cleanup binding UID changed'' False
        else if list_ex (refers_to b) refs
        then return_after (again interval) (kdo (UpdateStatus (AVpc (v\<lparr>v_status := (v_status v)
               \<lparr>vst_bindings := filter (\<lambda>r. \<not> refers_to b r) refs\<rparr>\<rparr>))))
        else return_after (again interval) (kdo (Delete (ABinding b) (Some (om_uid (nb_meta b)))
               (Some (om_resource_version (nb_meta b))))))"

section \<open>Admission\<close>

definition prefix_or_zero :: "string \<Rightarrow> prefix" where
  "prefix_or_zero raw = (case parse_prefix raw of None \<Rightarrow> prefix_zero | Some p \<Rightarrow> p)"

definition own_claim :: "prefix_claim list \<Rightarrow> subnet \<Rightarrow> prefix_claim option" where
  "own_claim claims s = find (\<lambda>c. pc_subnet_uid c = om_uid (s_meta s)) claims"

definition overlapping :: "prefix_claim list \<Rightarrow> subnet \<Rightarrow> bool" where
  "overlapping claims s = list_ex (\<lambda>c. overlaps (prefix_or_zero (ss_cidr (s_spec s))) (prefix_or_zero (pc_cidr c))) claims"

text \<open>The error with which a subnet is refused, if any; a later check overwrites an earlier one.\<close>

definition admission_error :: "platform_config \<Rightarrow> vpc \<Rightarrow> network_binding list \<Rightarrow> prefix_claim list \<Rightarrow> subnet \<Rightarrow> string option" where
  "admission_error cfg v bindings claims s =
     (let own = own_claim claims s;
          e0 = (case validate_subnet v s cfg of Inl e \<Rightarrow> Some e | Inr _ \<Rightarrow> None);
          e1 = (case own of None \<Rightarrow> e0
                | Some c \<Rightarrow> if pc_cidr c \<noteq> ss_cidr (s_spec s) \<or> pc_location_ref c \<noteq> ss_location_ref (s_spec s)
                           then Some ''accepted subnet identity changed'' else e0)
      in if e1 \<noteq> None \<or> own \<noteq> None then e1
         else let e2 = (if list_ex (\<lambda>b. b_location_ref (nb_spec b) = ss_location_ref (s_spec s) \<and> b_deleting (nb_spec b)) bindings
                        then Some ''location is completing a previous detach; admission will retry'' else None);
                  e3 = (if deleting_meta (v_meta v) then Some ''VPC is deleting; new subnets cannot be admitted'' else e2)
              in if overlapping claims s then Some ''CIDR overlaps an existing or draining subnet in this VPC'' else e3)"

definition claim_of :: "subnet \<Rightarrow> prefix_claim" where
  "claim_of s = \<lparr>pc_subnet_uid = om_uid (s_meta s), pc_cidr = ss_cidr (s_spec s), pc_location_ref = ss_location_ref (s_spec s)\<rparr>"

definition admit_subnet :: "k8s_lib \<Rightarrow> platform_config \<Rightarrow> int \<Rightarrow> vpc \<Rightarrow> network_binding list
    \<Rightarrow> prefix_claim list \<times> subnet list \<Rightarrow> subnet \<Rightarrow> (aobj, outcome + (prefix_claim list \<times> subnet list)) kprog" where
  "admit_subnet L cfg interval v bindings st s = (case st of (claims, accepted) \<Rightarrow>
     if \<not> contains_finalizer L (s_meta s) plan_finalizer then
       (if deleting_meta (s_meta s) then go (claims, accepted)
        else return_after (again interval) (kdo (Update (ASubnet (s\<lparr>s_meta := add_finalizer L (s_meta s) plan_finalizer\<rparr>)))))
     else (case admission_error cfg v bindings claims s of
         Some e \<Rightarrow>
           if deleting_meta (s_meta s) \<and> own_claim claims s = None
           then return_after (again interval) (kdo (Update (ASubnet (s\<lparr>s_meta := remove_finalizer L (s_meta s) plan_finalizer\<rparr>))))
           else ebind (or_fail (subnet_state L s ''Blocked'' ''AdmissionRejected'' e False)) (\<lambda>_. go (claims, accepted))
       | None \<Rightarrow> go (if own_claim claims s = None then claims @ [claim_of s] else claims, accepted @ [s])))"

text \<open>The first accepted subnet that does not carry the VPC's identity yet.\<close>

definition stamp_subnet :: "vpc \<Rightarrow> subnet \<Rightarrow> subnet" where
  "stamp_subnet v s = s\<lparr>s_status := (s_status s)\<lparr>sst_vpc_uid := om_uid (v_meta v),
     sst_native_vpc_name := vpc_name (om_uid (v_meta v)) (ss_location_ref (s_spec s)),
     sst_native_subnet_name := subnet_name (om_uid (s_meta s)),
     sst_binding_name := binding_name (om_uid (v_meta v)) (ss_location_ref (s_spec s))\<rparr>\<rparr>"

definition stamp_accepted :: "int \<Rightarrow> vpc \<Rightarrow> subnet list \<Rightarrow> (aobj, outcome + unit) kprog" where
  "stamp_accepted interval v accepted = (case find (\<lambda>s. sst_vpc_uid (s_status s) = []) accepted of
      None \<Rightarrow> go ()
    | Some s \<Rightarrow> return_after (again interval) (kdo (UpdateStatus (ASubnet (stamp_subnet v s)))))"

section \<open>Bindings\<close>

text \<open>\<open>reflect.DeepEqual(current.Spec, want.Spec)\<close>: \<open>Build\<close> makes the authorized locations from
  \<open>[]string{}\<close>, which is not \<open>nil\<close>, while an empty list read from the API is; so the two are never
  deeply equal when there are none.\<close>

definition spec_deep_equal :: "binding_spec \<Rightarrow> binding_spec \<Rightarrow> bool" where
  "spec_deep_equal current want \<longleftrightarrow> current = want \<and> b_authorized_locations want \<noteq> []"

definition sync_binding :: "k8s_lib \<Rightarrow> int \<Rightarrow> vpc \<Rightarrow> network_binding list \<Rightarrow> network_binding
    \<Rightarrow> (aobj, outcome + network_binding list) kprog" where
  "sync_binding L interval v synced want =
     pbind (kget a_binding ''NetworkBinding'' (om_namespace (nb_meta want)) (om_name (nb_meta want))) (\<lambda>got. case got of
       Inl e \<Rightarrow>
         if is_not_found e then
           (if list_ex (refers_to want) (vst_bindings (v_status v))
            then vpc_state L interval v ''Blocked'' ''BindingMissing''
                   ''An accepted binding disappeared without a cleanup acknowledgement'' False
            else ebind (or_fail (kdo (Create (ABinding want)))) (\<lambda>_.
                 leave \<lparr>requeue_after = again interval, out_error = None\<rparr>))
         else leave (failed e)
     | Inr current \<Rightarrow>
         if mget (om_labels (nb_meta current)) plan_owner_label \<noteq> om_uid (v_meta v)
            \<or> b_vpc_ref (nb_spec current) \<noteq> b_vpc_ref (nb_spec want)
            \<or> b_location_ref (nb_spec current) \<noteq> b_location_ref (nb_spec want)
         then vpc_state L interval v ''Blocked'' ''OwnershipConflict'' ''An internal binding has a different owner'' False
         else if list_ex (\<lambda>r. refers_to current r \<and> br_uid r \<noteq> om_uid (nb_meta current)) (vst_bindings (v_status v))
         then vpc_state L interval v ''Blocked'' ''BindingReplaced'' ''An accepted internal binding UID changed'' False
         else if b_transport_profile (nb_spec current) \<noteq> b_transport_profile (nb_spec want)
         then vpc_state L interval v ''Blocked'' ''TransportMigrationRequired''
                ''An existing VPC cannot change transport by editing its class'' False
         else if \<not> spec_deep_equal (nb_spec current) (nb_spec want)
         then ebind (or_fail (kdo (Update (ABinding (current\<lparr>nb_spec := nb_spec want\<rparr>))))) (\<lambda>_.
              leave \<lparr>requeue_after = again interval, out_error = None\<rparr>)
         else go (synced @ [current]))"

definition reference_of :: "network_binding \<Rightarrow> binding_reference" where
  "reference_of b = \<lparr>br_location_ref = b_location_ref (nb_spec b), br_name = om_name (nb_meta b), br_uid = om_uid (nb_meta b),
     br_native_vpc_name = b_native_vpc_name (nb_spec b)\<rparr>"

definition applied :: "network_binding \<Rightarrow> bool" where
  "applied b \<longleftrightarrow> bst_applied_revision (nb_status b) = b_revision (nb_spec b)"

definition resource_absent :: "network_binding \<Rightarrow> string \<Rightarrow> bool" where
  "resource_absent b name \<longleftrightarrow> \<not> list_ex (\<lambda>r. rr_kind r = ''Subnet'' \<and> rr_name r = name) (bst_resources (nb_status b))"

section \<open>Reporting and release\<close>

definition report_subnet :: "k8s_lib \<Rightarrow> int \<Rightarrow> network_binding list \<Rightarrow> bool \<Rightarrow> unit \<Rightarrow> subnet \<Rightarrow> (aobj, outcome + unit) kprog" where
  "report_subnet L interval desired all_applied u s =
     (let local = find (\<lambda>b. b_location_ref (nb_spec b) = ss_location_ref (s_spec s)) desired in
      if deleting_meta (s_meta s) then
        (if all_applied \<and> (case local of None \<Rightarrow> False | Some b \<Rightarrow> resource_absent b (sst_native_subnet_name (s_status s)))
         then ebind (or_fail (kdo (Update (ASubnet (s\<lparr>s_meta := remove_finalizer L (s_meta s) plan_finalizer\<rparr>))))) (\<lambda>_.
              leave \<lparr>requeue_after = again interval, out_error = None\<rparr>)
         else or_fail (subnet_state L s ''Deleting'' ''WithdrawalPending''
                ''Waiting for endpoint drain and all location withdrawal acknowledgements'' False))
      else
        let ready = (case local of None \<Rightarrow> False
              | Some b \<Rightarrow> applied b \<and> is_condition_true L (bst_conditions (nb_status b)) ''Ready'')
        in or_fail (if ready
             then subnet_state L s ''Ready'' ''LocationReady'' ''Local network and required connectivity are configured'' True
             else subnet_state L s ''Pending'' ''LocationPending'' ''Waiting for local network and cross-site configuration'' False))"

text \<open>A claim is kept while its subnet exists, a snapshot contains it, or a location has not answered.\<close>

definition kept_claims :: "prefix_claim list \<Rightarrow> subnet list \<Rightarrow> network_binding list \<Rightarrow> bool \<Rightarrow> prefix_claim list" where
  "kept_claims claims subnets desired all_applied = filter (\<lambda>c.
     list_ex (\<lambda>s. om_uid (s_meta s) = pc_subnet_uid c) subnets
     \<or> list_ex (\<lambda>b. list_ex (\<lambda>s. bs_uid s = pc_subnet_uid c) (b_subnets (nb_spec b))) desired
     \<or> \<not> all_applied) claims"

definition finish_deletion :: "k8s_lib \<Rightarrow> int \<Rightarrow> vpc \<Rightarrow> subnet list \<Rightarrow> network_binding list \<Rightarrow> (aobj, outcome + 'a) kprog" where
  "finish_deletion L interval v subnets desired =
     (if subnets \<noteq> []
      then vpc_state L interval v ''Deleting'' ''SubnetsInUse'' ''Delete the VPC's subnets before deleting the VPC'' False
      else if list_ex (\<lambda>b. \<not> b_deleting (nb_spec b) \<or> \<not> applied b \<or> bst_resources (nb_status b) \<noteq> [] \<or> bst_gateways (nb_status b) \<noteq> []) desired
      then vpc_state L interval v ''Deleting'' ''LocationCleanupPending'' ''Waiting for location cleanup acknowledgements'' False
      else ebind (efold (\<lambda>u b. pbind (kdo (Delete (ABinding b) (Some (om_uid (nb_meta b))) (Some (om_resource_version (nb_meta b)))))
             (\<lambda>x. case x of Inl e \<Rightarrow> if is_not_found e then go () else leave (failed e) | Inr _ \<Rightarrow> go ())) () desired) (\<lambda>_.
           return_after 0 (kdo (Update (AVpc (v\<lparr>v_meta := remove_finalizer L (v_meta v) plan_finalizer\<rparr>))))))"

definition report_vpc :: "k8s_lib \<Rightarrow> int \<Rightarrow> vpc \<Rightarrow> subnet list \<Rightarrow> subnet list \<Rightarrow> network_binding list \<Rightarrow> bool \<Rightarrow> (aobj, outcome + 'a) kprog" where
  "report_vpc L interval v subnets accepted desired all_applied =
     (let ready = (all_applied \<and> length accepted = length subnets
        \<and> list_all (\<lambda>b. b_deleting (nb_spec b) \<or> is_condition_true L (bst_conditions (nb_status b)) ''Ready'') desired)
      in if ready then vpc_state L interval v ''Ready'' ''LocationsReady''
           ''All requested locations have accepted the current network configuration'' True
         else vpc_state L interval v ''Pending'' ''LocationsPending''
           ''One or more subnets or locations require attention; existing locations reconcile independently'' False)"

section \<open>The pass\<close>

definition sort_subnets :: "subnet list \<Rightarrow> subnet list" where
  "sort_subnets = sort_key (\<lambda>s. (om_creation (s_meta s), om_name (s_meta s)))"

text \<open>From the synchronized bindings to the end of the pass.\<close>

definition after_sync :: "k8s_lib \<Rightarrow> int \<Rightarrow> vpc \<Rightarrow> subnet list \<Rightarrow> prefix_claim list \<Rightarrow> subnet list \<Rightarrow> network_binding list
    \<Rightarrow> (aobj, outcome + 'a) kprog" where
  "after_sync L interval v subnets claims accepted desired =
     (let refs = map reference_of desired in
      if refs \<noteq> vst_bindings (v_status v)
      then return_after (again interval) (kdo (UpdateStatus (AVpc (v\<lparr>v_status := (v_status v)\<lparr>vst_bindings := refs\<rparr>\<rparr>))))
      else
      let all_applied = list_all applied desired in
      ebind (efold (report_subnet L interval desired all_applied) () accepted) (\<lambda>_.
      let kept = kept_claims claims subnets desired all_applied in
      if kept \<noteq> vst_subnet_claims (v_status v)
      then return_after (again interval) (kdo (UpdateStatus (AVpc (v\<lparr>v_status := (v_status v)\<lparr>vst_subnet_claims := kept\<rparr>\<rparr>))))
      else if deleting_meta (v_meta v) then finish_deletion L interval v subnets desired
      else report_vpc L interval v subnets accepted desired all_applied))"

text \<open>From the admitted claims on.\<close>

definition after_admission :: "k8s_lib \<Rightarrow> platform_config \<Rightarrow> int \<Rightarrow> vpc \<Rightarrow> subnet list \<Rightarrow> network_binding list
    \<Rightarrow> prefix_claim list \<Rightarrow> subnet list \<Rightarrow> (aobj, outcome + 'a) kprog" where
  "after_admission L cfg interval v subnets bindings claims accepted =
     (if claims \<noteq> vst_subnet_claims (v_status v)
      then return_after (again interval) (kdo (UpdateStatus (AVpc (v\<lparr>v_status := (v_status v)\<lparr>vst_subnet_claims := claims\<rparr>\<rparr>))))
      else
      ebind (stamp_accepted interval v accepted) (\<lambda>_.
      case build v accepted bindings cfg of
        Inl e \<Rightarrow> vpc_state L interval v ''Blocked'' ''PlanRejected'' e False
      | Inr planned \<Rightarrow>
          ebind (or_fail (assign_transport cfg v planned bindings)) (\<lambda>desired.
          ebind (efold (sync_binding L interval v) [] desired) (\<lambda>synced.
          after_sync L interval v subnets claims accepted synced))))"

definition reconcile_live :: "k8s_lib \<Rightarrow> platform_config \<Rightarrow> int \<Rightarrow> vpc \<Rightarrow> (aobj, outcome + 'a) kprog" where
  "reconcile_live L cfg interval v =
     ebind (or_fail (klist a_subnet ''Subnet'' (Some (om_namespace (v_meta v))) [])) (\<lambda>all.
     let subnets = sort_subnets (filter (\<lambda>s. ss_vpc_ref (s_spec s) = om_name (v_meta v)) all) in
     ebind (or_fail (klist a_binding ''NetworkBinding'' None [(plan_owner_label, om_uid (v_meta v))])) (\<lambda>bindings.
     ebind (forget_tombstone L interval v bindings) (\<lambda>_.
     ebind (efold (admit_subnet L cfg interval v bindings) (vst_subnet_claims (v_status v), []) subnets) (\<lambda>(claims, accepted).
     after_admission L cfg interval v subnets bindings claims accepted))))"

definition reconcile_vpc :: "k8s_lib \<Rightarrow> platform_config \<Rightarrow> int \<Rightarrow> vpc \<Rightarrow> (aobj, outcome + 'a) kprog" where
  "reconcile_vpc L cfg interval v =
     (if \<not> contains_finalizer L (v_meta v) plan_finalizer then
        (if deleting_meta (v_meta v) then leave finished
         else return_after (again interval) (kdo (Update (AVpc (v\<lparr>v_meta := add_finalizer L (v_meta v) plan_finalizer\<rparr>)))))
      else
        let key = ''vpc/'' @ om_uid (v_meta v) in
        ebind (or_fail (network_ids cfg [key])) (\<lambda>ids.
        let network_id = id_of ids key in
        if vst_network_id (v_status v) \<noteq> 0 \<and> vst_network_id (v_status v) \<noteq> network_id
        then vpc_state L interval v ''Blocked'' ''RegistryIdentityChanged''
               ''Accepted network ID no longer matches the retained registry'' False
        else if vst_network_id (v_status v) = 0
        then return_after (again interval) (kdo (UpdateStatus (AVpc (v\<lparr>v_status := (v_status v)\<lparr>vst_network_id := network_id\<rparr>\<rparr>))))
        else reconcile_live L cfg interval v))"

definition platform_reconcile :: "k8s_lib \<Rightarrow> platform_config \<Rightarrow> int \<Rightarrow> string \<Rightarrow> string \<Rightarrow> (aobj, outcome) kprog" where
  "platform_reconcile L cfg interval ns name =
     pbind (pbind (kget a_vpc ''VPC'' ns name) (\<lambda>got. case got of
       Inl e \<Rightarrow> if is_not_found e then vpc_gone L interval ns name else leave (failed e)
     | Inr v \<Rightarrow> reconcile_vpc L cfg interval v))
     (\<lambda>x. Ret (case x of Inl out \<Rightarrow> out | Inr out \<Rightarrow> out))"

section \<open>What a pass may write\<close>

text \<open>Claims: one per subnet, each a canonical prefix, no two of them sharing an address.\<close>

definition claims_ok :: "prefix_claim list \<Rightarrow> bool" where
  "claims_ok claims \<longleftrightarrow> distinct (map pc_subnet_uid claims) \<and> (\<forall>c\<in>set claims. is_ok (site_prefix (pc_cidr c)))
     \<and> (\<forall>c\<in>set claims. \<forall>d\<in>set claims. c \<noteq> d \<longrightarrow> \<not> overlaps (prefix_or_zero (pc_cidr c)) (prefix_or_zero (pc_cidr d)))"

text \<open>A snapshot is covered by claims: every local and every remote subnet has its claim.\<close>

definition covered :: "prefix_claim list \<Rightarrow> binding_spec \<Rightarrow> bool" where
  "covered claims b \<longleftrightarrow>
     (\<forall>s\<in>set (b_subnets b). \<lparr>pc_subnet_uid = bs_uid s, pc_cidr = bs_cidr s, pc_location_ref = b_location_ref b\<rparr> \<in> set claims)
     \<and> (\<forall>r\<in>set (b_remote_subnets b). rs_location_ref r \<noteq> b_location_ref b
          \<and> (\<exists>c\<in>set claims. pc_cidr c = rs_cidr r \<and> pc_location_ref c = rs_location_ref r))"

text \<open>A binding that its location has given up: a tombstone that is applied and owns nothing.\<close>

definition retired :: "network_binding \<Rightarrow> bool" where
  "retired b \<longleftrightarrow> b_deleting (nb_spec b) \<and> applied b \<and> bst_resources (nb_status b) = [] \<and> bst_gateways (nb_status b) = []"

definition vpc_write :: "vpc \<Rightarrow> vpc \<Rightarrow> bool" where
  "vpc_write v v' \<longleftrightarrow> v_meta v' = v_meta v \<and> v_spec v' = v_spec v
     \<and> (vst_network_id (v_status v') = vst_network_id (v_status v)
        \<or> vst_network_id (v_status v) = 0 \<and> unat (vst_network_id (v_status v')) \<in> {1..max_network_id})
     \<and> (claims_ok (vst_subnet_claims (v_status v)) \<longrightarrow> claims_ok (vst_subnet_claims (v_status v')))"

definition platform_write :: "vpc \<Rightarrow> aobj kreq \<Rightarrow> bool" where
  "platform_write v q \<longleftrightarrow> (case q of
      Get _ _ _ \<Rightarrow> True
    | List _ _ _ \<Rightarrow> True
    | Create (AMap m) \<Rightarrow> True
    | Update (AMap m) \<Rightarrow> True
    | UpdateStatus (AVpc v') \<Rightarrow> vpc_write v v'
    | Update (AVpc v') \<Rightarrow> v_spec v' = v_spec v \<and> v_status v' = v_status v
    | Update (ASubnet s) \<Rightarrow> True
    | UpdateStatus (ASubnet s) \<Rightarrow> True
    | Create (ABinding b) \<Rightarrow> covered (vst_subnet_claims (v_status v)) (nb_spec b)
    | Update (ABinding b) \<Rightarrow> covered (vst_subnet_claims (v_status v)) (nb_spec b)
    | Delete (ABinding b) uid version \<Rightarrow> retired b \<and> uid = Some (om_uid (nb_meta b))
        \<and> version = Some (om_resource_version (nb_meta b))
    | _ \<Rightarrow> False)"

abbreviation pass :: "vpc \<Rightarrow> (aobj, 'a) kprog \<Rightarrow> ((aobj kreq \<times> aobj kresp) list \<Rightarrow> 'a \<Rightarrow> bool) \<Rightarrow> (aobj kreq \<times> aobj kresp) list \<Rightarrow> bool" where
  "pass v \<equiv> always (\<lambda>h. platform_write v)"

text \<open>The answers that end a pass need no postcondition: \<open>goes P\<close> constrains only how it goes on.\<close>

abbreviation goes :: "('a \<Rightarrow> bool) \<Rightarrow> (aobj kreq \<times> aobj kresp) list \<Rightarrow> 'e + 'a \<Rightarrow> bool" where
  "goes P \<equiv> (\<lambda>h x. case x of Inl e \<Rightarrow> True | Inr a \<Rightarrow> P a)"

lemma platform_write_simps [simp]:
  "platform_write v (Get k ns n)" "platform_write v (List k o' l)" "platform_write v (Create (AMap m))"
  "platform_write v (Update (AMap m))" "platform_write v (Update (ASubnet s))" "platform_write v (UpdateStatus (ASubnet s))"
  "platform_write v (UpdateStatus (AVpc v')) = vpc_write v v'"
  "platform_write v (Update (AVpc v')) = (v_spec v' = v_spec v \<and> v_status v' = v_status v)"
  "platform_write v (Create (ABinding b)) = covered (vst_subnet_claims (v_status v)) (nb_spec b)"
  "platform_write v (Update (ABinding b)) = covered (vst_subnet_claims (v_status v)) (nb_spec b)"
  "platform_write v (Delete (ABinding b) uid version) = (retired b \<and> uid = Some (om_uid (nb_meta b))
     \<and> version = Some (om_resource_version (nb_meta b)))"
  by (simp_all add: platform_write_def)

lemma vpc_write_refl [simp]: "vpc_write v (v\<lparr>v_status := (v_status v)\<lparr>vst_bindings := refs\<rparr>\<rparr>)"
  by (simp add: vpc_write_def)

lemma pass_vpc_state [simp]:
  "(\<And>h e. Q h (Inl e)) \<Longrightarrow> pass v (vpc_state L interval v phase reason message ready) Q h"
  by (simp add: vpc_state_def Let_def vpc_with_state_def vpc_write_def split: sum.splits kresp.splits)

lemma pass_subnet_state [simp]: "(\<And>h x. Q h x) \<Longrightarrow> pass v (subnet_state L s phase reason message ready) Q h"
  by (simp add: subnet_state_def Let_def split: sum.splits)

lemma network_ids_pass: "pass v (network_ids cfg keys) (goes (ids_ok keys)) h"
  by (rule always_mono [OF network_ids_run]) (auto simp: allocator_write_def platform_write_def split: kreq.splits aobj.splits)

lemma assign_transport_pass:
  "pass v (assign_transport cfg v desired existing) (goes (\<lambda>bs. \<forall>b\<in>set bs. \<exists>p\<in>set desired.
      b_subnets (nb_spec b) = b_subnets (nb_spec p) \<and> b_remote_subnets (nb_spec b) = b_remote_subnets (nb_spec p)
      \<and> b_location_ref (nb_spec b) = b_location_ref (nb_spec p))) h"
  unfolding assign_transport_def always_ebind
  by (rule always_mono [OF network_ids_pass])
    (auto simp: complete_transport_def prepare_transport_def Let_def split: sum.splits)

section \<open>Admission keeps the claims disjoint\<close>

lemma own_claim_Some: "own_claim claims s = Some c \<Longrightarrow> c \<in> set claims \<and> pc_subnet_uid c = om_uid (s_meta s)"
  unfolding own_claim_def by (simp add: find_Some_iff) (metis nth_mem)

lemma own_claim_None: "own_claim claims s = None \<longleftrightarrow> om_uid (s_meta s) \<notin> pc_subnet_uid ` set claims"
  unfolding own_claim_def find_None_iff by (auto simp: image_iff)

lemma admission_error_None:
  assumes "admission_error cfg v bindings claims s = None"
  shows "validate_subnet v s cfg = Inr ()"
    and "own_claim claims s = Some c \<Longrightarrow> c = claim_of s"
    and "own_claim claims s = None \<Longrightarrow> \<not> overlapping claims s \<and> \<not> deleting_meta (v_meta v)
      \<and> \<not> list_ex (\<lambda>b. b_location_ref (nb_spec b) = ss_location_ref (s_spec s) \<and> b_deleting (nb_spec b)) bindings"
proof -
  show "validate_subnet v s cfg = Inr ()"
    using assms by (cases "validate_subnet v s cfg") (auto simp: admission_error_def Let_def split: if_splits option.splits)
  show "c = claim_of s" if "own_claim claims s = Some c"
    using assms that own_claim_Some [OF that] by (auto simp: admission_error_def Let_def claim_of_def split: if_splits)
  show "\<not> overlapping claims s \<and> \<not> deleting_meta (v_meta v)
      \<and> \<not> list_ex (\<lambda>b. b_location_ref (nb_spec b) = ss_location_ref (s_spec s) \<and> b_deleting (nb_spec b)) bindings"
    if "own_claim claims s = None"
    using assms that by (auto simp: admission_error_def Let_def split: if_splits option.splits sum.splits)
qed

lemma validate_subnet_prefix: "validate_subnet v s cfg = Inr () \<Longrightarrow> is_ok (site_prefix (ss_cidr (s_spec s)))"
  by (auto simp: validate_subnet_def)

lemma claims_ok_snoc:
  assumes "claims_ok claims" and "own_claim claims s = None" and "\<not> overlapping claims s"
    and "is_ok (site_prefix (ss_cidr (s_spec s)))"
  shows "claims_ok (claims @ [claim_of s])"
  using assms by (auto simp: claims_ok_def own_claim_None claim_of_def overlapping_def list_ex_iff overlaps_sym)

text \<open>The state of the admission loop.\<close>

definition admission_inv :: "prefix_claim list \<Rightarrow> prefix_claim list \<times> subnet list \<Rightarrow> bool" where
  "admission_inv claims0 st \<longleftrightarrow> (claims_ok claims0 \<longrightarrow> claims_ok (fst st)) \<and> (\<forall>s\<in>set (snd st). claim_of s \<in> set (fst st))"

lemma admit_subnet_pass:
  assumes "admission_inv claims0 st"
  shows "pass v (admit_subnet L cfg interval v bindings st s) (goes (admission_inv claims0)) h"
proof -
  obtain claims accepted where st: "st = (claims, accepted)" by fastforce
  have grow: "admission_inv claims0 (if own_claim claims s = None then claims @ [claim_of s] else claims, accepted @ [s])"
    if "admission_error cfg v bindings claims s = None"
  proof (cases "own_claim claims s")
    case None
    with admission_error_None(1,3) [OF that] assms show ?thesis
      by (auto simp: admission_inv_def st intro: claims_ok_snoc validate_subnet_prefix)
  next
    case (Some c)
    with admission_error_None(2) [OF that Some] own_claim_Some [OF Some] assms show ?thesis
      by (auto simp: admission_inv_def st)
  qed
  show ?thesis
    using assms grow unfolding st admit_subnet_def prod.case
    by (auto split: option.splits sum.splits)
qed

lemma admission_pass:
  "pass v (efold (admit_subnet L cfg interval v bindings) (claims, []) subnets) (goes (admission_inv claims)) h"
  by (rule always_efold [where I = "\<lambda>_ st _. admission_inv claims st"])
    (auto simp: admission_inv_def [of _ "(_, [])"] intro: admit_subnet_pass)

section \<open>Snapshots are covered by committed claims\<close>

lemma build_covered:
  assumes "build v accepted bindings cfg = Inr planned" and "\<forall>s\<in>set accepted. claim_of s \<in> set claims" and "p \<in> set planned"
  shows "covered claims (nb_spec p)"
proof -
  note f = build_fields [OF assms(1)]
  have a: "claim_of s \<in> set claims" if "s \<in> set (admitted v accepted)" for s
    using that assms(2) by (auto simp: admitted_def)
  have "\<lparr>pc_subnet_uid = bs_uid s, pc_cidr = bs_cidr s, pc_location_ref = b_location_ref (nb_spec p)\<rparr> \<in> set claims"
    if "s \<in> set (b_subnets (nb_spec p))" for s
    using that f(2) [OF assms(3)] by (auto simp: planned_at_def claim_of_def dest!: a)
  moreover have "rs_location_ref r \<noteq> b_location_ref (nb_spec p)
      \<and> (\<exists>c\<in>set claims. pc_cidr c = rs_cidr r \<and> pc_location_ref c = rs_location_ref r)"
    if "r \<in> set (b_remote_subnets (nb_spec p))" for r
  proof -
    from that [unfolded f(3) [OF assms(3)] planned_remote_def] obtain s where
      "s \<in> set (admitted v accepted)" "ss_location_ref (s_spec s) \<noteq> b_location_ref (nb_spec p)"
      "r = \<lparr>rs_location_ref = ss_location_ref (s_spec s), rs_cidr = ss_cidr (s_spec s)\<rparr>" by auto
    with a [of s] show ?thesis by (auto simp: claim_of_def intro!: bexI [of _ "claim_of s"])
  qed
  ultimately show ?thesis by (simp add: covered_def)
qed

lemma covered_same:
  "covered claims b \<Longrightarrow> b_subnets c = b_subnets b \<Longrightarrow> b_remote_subnets c = b_remote_subnets b
    \<Longrightarrow> b_location_ref c = b_location_ref b \<Longrightarrow> covered claims c"
  by (simp add: covered_def)

lemma sync_binding_pass:
  assumes "covered (vst_subnet_claims (v_status v)) (nb_spec want)"
  shows "pass v (sync_binding L interval v synced want) (goes (\<lambda>_. True)) h"
  using assms by (auto simp: sync_binding_def split: sum.splits kresp.splits option.splits)

lemma report_subnet_pass: "pass v (report_subnet L interval desired all_applied u s) (\<lambda>h y. True) h"
  by (auto simp: report_subnet_def Let_def split: sum.splits option.splits)

lemma finish_deletion_pass: "pass v (finish_deletion L interval v subnets desired) (goes P) h"
proof -
  have "pass v (efold (\<lambda>u b. pbind (kdo (Delete (ABinding b) (Some (om_uid (nb_meta b))) (Some (om_resource_version (nb_meta b)))))
      (\<lambda>x. case x of Inl e \<Rightarrow> if is_not_found e then go () else leave (failed e) | Inr _ \<Rightarrow> go ())) () desired)
      (\<lambda>h x. case x of Inl e \<Rightarrow> True | Inr _ \<Rightarrow> True) h"
    if "\<not> list_ex (\<lambda>b. \<not> b_deleting (nb_spec b) \<or> \<not> applied b \<or> bst_resources (nb_status b) \<noteq> [] \<or> bst_gateways (nb_status b) \<noteq> []) desired" for h
    by (rule always_efold [where I = "\<lambda>_ _ _. True"])
      (use that in \<open>auto simp: retired_def list_ex_iff split: sum.splits kresp.splits\<close>)
  then show ?thesis
    by (auto simp: finish_deletion_def split: sum.splits intro!: always_mono [of "\<lambda>h. platform_write v" _ "\<lambda>h x. True"])
qed

lemma kept_claims_ok: "claims_ok claims \<Longrightarrow> claims_ok (kept_claims claims subnets desired all_applied)"
  by (auto simp: claims_ok_def kept_claims_def distinct_map inj_on_def)

section \<open>Every pass\<close>

lemma pass_each:
  assumes "\<And>x u h. x \<in> set xs \<Longrightarrow> pass v (f u x) (\<lambda>h y. True) h" and "\<And>h x. Q h x"
  shows "pass v (efold f u xs) Q h"
  by (rule always_efold [where I = "\<lambda>_ _ _. True"]) (use assms in \<open>auto split: sum.splits elim: always_mono\<close>)

lemma report_vpc_pass [simp]: "(\<And>h e. Q h (Inl e)) \<Longrightarrow> pass v (report_vpc L interval v subnets accepted desired all_applied) Q h"
  by (simp add: report_vpc_def Let_def)

lemma after_sync_pass:
  assumes "claims = vst_subnet_claims (v_status v)"
  shows "pass v (after_sync L interval v subnets claims accepted desired) (goes P) h"
proof -
  have kept: "vpc_write v (v\<lparr>v_status := (v_status v)\<lparr>vst_subnet_claims := kept_claims claims subnets desired applied\<rparr>\<rparr>)" for applied
    using assms by (simp add: vpc_write_def kept_claims_ok)
  show ?thesis
    unfolding after_sync_def Let_def
    by (auto simp: finish_deletion_pass kept split: sum.splits intro!: pass_each report_subnet_pass)
qed

lemma after_admission_pass:
  assumes "admission_inv (vst_subnet_claims (v_status v)) (claims, accepted)"
  shows "pass v (after_admission L cfg interval v subnets bindings claims accepted) (goes P) h"
proof (cases "claims = vst_subnet_claims (v_status v)")
  case False
  with assms show ?thesis
    by (simp add: after_admission_def vpc_write_def admission_inv_def)
next
  case True
  have sync: "pass v (efold (sync_binding L interval v) [] desired)
      (\<lambda>h x. case x of Inl e \<Rightarrow> True | Inr synced \<Rightarrow> pass v (after_sync L interval v subnets claims accepted synced) (goes P) h) h"
    if "\<forall>b\<in>set desired. covered claims (nb_spec b)" for desired h
    by (rule pass_each)
      (use that True sync_binding_pass in \<open>auto simp: after_sync_pass split: sum.splits\<close>)
  have plan: "pass v (assign_transport cfg v planned bindings) (goes (\<lambda>bs. \<forall>b\<in>set bs. covered claims (nb_spec b))) h"
    if "build v accepted bindings cfg = Inr planned" for planned h
  proof (rule always_mono [OF assign_transport_pass])
    have "covered claims (nb_spec p)" if "p \<in> set planned" for p
      using build_covered [OF \<open>build v accepted bindings cfg = Inr planned\<close> _ that] assms by (simp add: admission_inv_def)
    then show "goes (\<lambda>bs. \<forall>b\<in>set bs. covered claims (nb_spec b)) h x"
      if "goes (\<lambda>bs. \<forall>b\<in>set bs. \<exists>p\<in>set planned.
        b_subnets (nb_spec b) = b_subnets (nb_spec p) \<and> b_remote_subnets (nb_spec b) = b_remote_subnets (nb_spec p)
        \<and> b_location_ref (nb_spec b) = b_location_ref (nb_spec p)) h x" for h and x :: "err + network_binding list"
      using that by (auto split: sum.splits) (metis covered_same)
  qed
  have "pass v (ebind (or_fail (assign_transport cfg v planned bindings)) (\<lambda>desired.
          ebind (efold (sync_binding L interval v) [] desired) (\<lambda>synced.
          after_sync L interval v subnets claims accepted synced))) (goes P) h"
    if "build v accepted bindings cfg = Inr planned" for planned h
    by (simp, rule always_mono [OF plan [OF that]]) (auto split: sum.splits simp: sync)
  with True show ?thesis
    by (auto simp: after_admission_def stamp_accepted_def split: sum.splits option.splits)
qed

lemma forget_tombstone_pass:
  assumes "\<And>h x. Q h x"
  shows "pass v (forget_tombstone L interval v bindings) Q h"
proof -
  have "acknowledged b" if "find acknowledged bindings = Some b" for b
    using that by (auto simp: find_Some_iff)
  with assms show ?thesis
    by (auto simp: forget_tombstone_def Let_def retired_def acknowledged_def applied_def split: option.splits)
qed

lemma admission_then:
  assumes "\<And>h e. Q h (Inl e)" and "\<And>h st. admission_inv claims st \<Longrightarrow> Q h (Inr st)"
  shows "pass v (efold (admit_subnet L cfg interval v bindings) (claims, []) subnets) Q h"
  by (rule always_mono [OF admission_pass]) (use assms in \<open>auto split: sum.splits\<close>)

lemma network_ids_then:
  assumes "\<And>h e. Q h (Inl e)" and "\<And>h ids. ids_ok keys ids \<Longrightarrow> Q h (Inr ids)"
  shows "pass v (network_ids cfg keys) Q h"
  by (rule always_mono [OF network_ids_pass]) (use assms in \<open>auto split: sum.splits\<close>)

lemma reconcile_live_pass: "pass v (reconcile_live L cfg interval v) (goes P) h"
proof -
  have "pass v (ebind (forget_tombstone L interval v bindings) (\<lambda>_.
     ebind (efold (admit_subnet L cfg interval v bindings) (vst_subnet_claims (v_status v), []) subnets) (\<lambda>(claims, accepted).
     after_admission L cfg interval v subnets bindings claims accepted))) (goes P) h" for bindings subnets h
    unfolding always_ebind
    by (intro forget_tombstone_pass) (auto split: sum.splits intro!: admission_then after_admission_pass)
  then show ?thesis
    unfolding reconcile_live_def Let_def by (simp only: always_ebind [of _ "or_fail _"]) (auto split: sum.splits)
qed

lemma reconcile_vpc_pass: "pass v (reconcile_vpc L cfg interval v) (goes P) h"
proof -
  have "pass v (ebind (or_fail (network_ids cfg [key])) (\<lambda>ids.
        if vst_network_id (v_status v) \<noteq> 0 \<and> vst_network_id (v_status v) \<noteq> id_of ids key
        then vpc_state L interval v ''Blocked'' ''RegistryIdentityChanged''
               ''Accepted network ID no longer matches the retained registry'' False
        else if vst_network_id (v_status v) = 0
        then return_after (again interval) (kdo (UpdateStatus (AVpc (v\<lparr>v_status := (v_status v)\<lparr>vst_network_id := id_of ids key\<rparr>\<rparr>))))
        else reconcile_live L cfg interval v)) (goes P) h" for key h
    unfolding always_ebind always_or_fail
  proof (rule network_ids_then)
    fix h ids
    assume "ids_ok [key] ids"
    then show "case (case Inr ids of Inl e \<Rightarrow> Inl (failed e) | Inr a \<Rightarrow> Inr a) of Inl e \<Rightarrow> case Inl e of Inl e \<Rightarrow> True | Inr a \<Rightarrow> P a
      | Inr ids \<Rightarrow> pass v (if vst_network_id (v_status v) \<noteq> 0 \<and> vst_network_id (v_status v) \<noteq> id_of ids key
        then vpc_state L interval v ''Blocked'' ''RegistryIdentityChanged''
               ''Accepted network ID no longer matches the retained registry'' False
        else if vst_network_id (v_status v) = 0
        then return_after (again interval) (kdo (UpdateStatus (AVpc (v\<lparr>v_status := (v_status v)\<lparr>vst_network_id := id_of ids key\<rparr>\<rparr>))))
        else reconcile_live L cfg interval v) (goes P) h"
      using ids_ok_of(1,2) [of "[key]" ids key]
      by (auto simp: reconcile_live_pass vpc_write_def unat_gt_0 Suc_le_eq)
  qed simp
  note live = this
  show ?thesis
  proof (cases "contains_finalizer L (v_meta v) plan_finalizer")
    case True
    show ?thesis
      unfolding reconcile_vpc_def Let_def using True by (simp only: not_True_eq_False if_False live)
  qed (simp add: reconcile_vpc_def)
qed

text \<open>A report on a subnet whose VPC is gone: a subnet of the list that was read, one that names that VPC,
  with its metadata, its specification and its identities untouched.\<close>

definition gone_report :: "string \<Rightarrow> string \<Rightarrow> (aobj kreq \<times> aobj kresp) list \<Rightarrow> subnet \<Rightarrow> bool" where
  "gone_report ns name h s \<longleftrightarrow> (\<exists>xs s0. (List ''Subnet'' (Some ns) [], Items xs) \<in> set h \<and> ASubnet s0 \<in> set xs
     \<and> ss_vpc_ref (s_spec s0) = name \<and> s_meta s = s_meta s0 \<and> s_spec s = s_spec s0
     \<and> sst_phase (s_status s) = ''Blocked'' \<and> sst_vpc_uid (s_status s) = sst_vpc_uid (s_status s0)
     \<and> sst_binding_name (s_status s) = sst_binding_name (s_status s0)
     \<and> sst_native_vpc_name (s_status s) = sst_native_vpc_name (s_status s0)
     \<and> sst_native_subnet_name (s_status s) = sst_native_subnet_name (s_status s0))"

text \<open>The contract of a whole pass: what it writes, given the VPC it read first.\<close>

definition pass_contract :: "string \<Rightarrow> string \<Rightarrow> (aobj kreq \<times> aobj kresp) list \<Rightarrow> aobj kreq \<Rightarrow> bool" where
  "pass_contract ns name h q \<longleftrightarrow> (case h of
      [] \<Rightarrow> q = Get ''VPC'' ns name
    | (_, Obj (AVpc v)) # _ \<Rightarrow> platform_write v q
    | (_, Failed e) # _ \<Rightarrow> is_not_found e
        \<and> (q = List ''Subnet'' (Some ns) [] \<or> (\<exists>s. q = UpdateStatus (ASubnet s) \<and> gone_report ns name h s))
    | _ \<Rightarrow> False)"

lemma always_prefix:
  assumes "always G p Q h" and "\<And>h q. G h q \<Longrightarrow> G' (x # h) q"
  shows "always G' p (\<lambda>h a. True) (x # h)"
  using assms(1)
proof (induction p arbitrary: h)
  case (Call q k)
  have "always G' (k r) (\<lambda>h a. True) (x # h @ [(q, r)])" for r
    using Call.IH [OF rangeI, of r "h @ [(q, r)]"] Call.prems by simp
  with Call.prems assms(2) show ?case by simp
qed simp

lemma gone_report_with_state:
  assumes "(List ''Subnet'' (Some ns) [], Items xs) \<in> set h" and "ASubnet s \<in> set xs" and "ss_vpc_ref (s_spec s) = name"
  shows "gone_report ns name h (subnet_with_state L s ''Blocked'' reason message ready)"
  using assms unfolding gone_report_def by (intro exI [of _ xs] exI [of _ s]) (simp add: subnet_with_state_def)

lemma gone_report_mono: "gone_report ns name h s \<Longrightarrow> gone_report ns name (x # h) s"
  unfolding gone_report_def by auto

lemma vpc_gone_writes:
  "always (\<lambda>h q. q = List ''Subnet'' (Some ns) [] \<or> (\<exists>s. q = UpdateStatus (ASubnet s) \<and> gone_report ns name h s))
     (vpc_gone L interval ns name) (\<lambda>h x. True) h"
proof -
  let ?G = "\<lambda>(h :: (aobj kreq \<times> aobj kresp) list) q. q = List ''Subnet'' (Some ns) [] \<or> (\<exists>s. q = UpdateStatus (ASubnet s) \<and> gone_report ns name h s)"
  have each: "always ?G (efold (\<lambda>u s. if ss_vpc_ref (s_spec s) = name
         then or_fail (subnet_state L s ''Blocked'' ''VPCNotFound'' ''Referenced VPC does not exist'' False)
         else go ()) () subnets) (\<lambda>h x. True) h"
    if "(List ''Subnet'' (Some ns) [], Items xs) \<in> set h" "subnets = List.map_filter a_subnet xs"
    for subnets xs and h :: "(aobj kreq \<times> aobj kresp) list"
  proof (rule always_efold [where I = "\<lambda>_ _ h. (List ''Subnet'' (Some ns) [], Items xs) \<in> set h"])
    fix "done" s todo u and h :: "(aobj kreq \<times> aobj kresp) list"
    assume "subnets = done @ s # todo" and l: "(List ''Subnet'' (Some ns) [], Items xs) \<in> set h"
    then have "s \<in> set (List.map_filter a_subnet xs)" using that(2) by (metis in_set_conv_decomp)
    then have "ASubnet s \<in> set xs" by (auto simp: map_filter_def elim!: a_subnet.elims)
    with l show "always ?G (if ss_vpc_ref (s_spec s) = name
        then or_fail (subnet_state L s ''Blocked'' ''VPCNotFound'' ''Referenced VPC does not exist'' False) else go ())
      (\<lambda>h y. case y of Inl e \<Rightarrow> True | Inr s' \<Rightarrow> (List ''Subnet'' (Some ns) [], Items xs) \<in> set h) h"
      by (auto simp: subnet_state_def Let_def gone_report_with_state split: sum.splits)
  qed (use that in auto)
  show ?thesis
    unfolding vpc_gone_def by (auto split: sum.splits kresp.splits intro!: always_mono [OF each])
qed

section \<open>Properties\<close>

text \<open>
  C12: in every run of a pass, for all answers of the API server, every request obeys the contract of the
  VPC read first: the VPC's specification is never written, its network identifier is set once and then
  kept, a binding is created or rewritten only with subnets that have a committed claim in that VPC, and a
  binding is deleted only when it is an applied tombstone without resources and gateways, with its UID and
  resource version as preconditions. When the VPC is gone the pass only reports \<open>Blocked\<close> on subnets that
  it listed in that namespace and that name this VPC, and leaves their specification, metadata and
  identities as they were.
\<close>

theorem platform_reconcile_contract:
  "every_step (pass_contract ns name) (platform_reconcile L cfg interval ns name)"
proof (rule every_stepI)
  have g: "pass_contract ns name [] (Get ''VPC'' ns name)" by (simp add: pass_contract_def)
  have gone: "always (pass_contract ns name) (vpc_gone L interval ns name) (\<lambda>h x. True) [(Get ''VPC'' ns name, Failed e)]"
    if "is_not_found e" for e
    by (rule always_prefix [OF vpc_gone_writes [where h = "[]" and ns = ns and name = name]])
      (use that gone_report_mono in \<open>auto simp: pass_contract_def\<close>)
  have live: "always (pass_contract ns name) (reconcile_vpc L cfg interval v) (\<lambda>h x. True) [(Get ''VPC'' ns name, Obj (AVpc v))]" for v
    by (rule always_prefix [OF reconcile_vpc_pass [where h = "[]"]]) (simp add: pass_contract_def)
  have decoded: "x = AVpc v" if "a_vpc x = Some v" for x v using that by (cases x) simp_all
  show "always (pass_contract ns name) (platform_reconcile L cfg interval ns name) (\<lambda>h x. True) []"
    using g gone live
    by (auto simp: platform_reconcile_def decode_error_def split: kresp.splits option.splits dest!: decoded)
qed

text \<open>
  The claims a VPC can carry: none when it is new, and those that some run of a pass over a VPC with such
  claims writes to its status, for any configuration, any subnets and any answers of the API server. A
  pass may therefore start from claims that an earlier pass tried to commit, also when it reads them late.
\<close>

inductive claims_reach :: "prefix_claim list \<Rightarrow> bool" where
  claims_new: "claims_reach []"
| claims_pass: "claims_reach (vst_subnet_claims (v_status v'))"
    if "claims_reach (vst_subnet_claims (v_status v))"
      and "UpdateStatus (AVpc v') \<in> set (fst (replay (reconcile_vpc L cfg interval v :: (aobj, outcome + unit) kprog) answers))"

lemma reconcile_requests:
  "every_request (platform_write v) (reconcile_vpc L cfg interval v :: (aobj, outcome + unit) kprog)"
  by (rule every_requestI, rule always_mono [OF reconcile_vpc_pass [where P = "\<lambda>_. True"]]) simp_all

lemma claims_reach_ok: "claims_reach claims \<Longrightarrow> claims_ok claims"
proof (induction rule: claims_reach.induct)
  case claims_new
  show ?case by (simp add: claims_ok_def)
next
  case (claims_pass v v' L cfg interval answers)
  then have "platform_write v (UpdateStatus (AVpc v'))"
    using reconcile_requests [of v L cfg interval] unfolding every_request_def by blast
  with claims_pass show ?case by (simp add: vpc_write_def)
qed

definition snapshot_disjoint :: "binding_spec \<Rightarrow> bool" where
  "snapshot_disjoint b \<longleftrightarrow>
     (\<forall>s\<in>set (b_subnets b). \<forall>t\<in>set (b_subnets b). bs_uid s \<noteq> bs_uid t
        \<longrightarrow> \<not> overlaps (prefix_or_zero (bs_cidr s)) (prefix_or_zero (bs_cidr t)))
     \<and> (\<forall>s\<in>set (b_subnets b). \<forall>r\<in>set (b_remote_subnets b). \<not> overlaps (prefix_or_zero (bs_cidr s)) (prefix_or_zero (rs_cidr r)))
     \<and> (\<forall>q\<in>set (b_remote_subnets b). \<forall>r\<in>set (b_remote_subnets b). q \<noteq> r
        \<longrightarrow> \<not> overlaps (prefix_or_zero (rs_cidr q)) (prefix_or_zero (rs_cidr r)))"

lemma covered_disjoint:
  assumes "claims_ok claims" and "covered claims b"
  shows "snapshot_disjoint b"
proof -
  let ?c = "\<lambda>s. \<lparr>pc_subnet_uid = bs_uid s, pc_cidr = bs_cidr s, pc_location_ref = b_location_ref b\<rparr>"
  have loc: "?c s \<in> set claims" if "s \<in> set (b_subnets b)" for s
    using that assms(2) by (simp add: covered_def)
  have dis: "\<not> overlaps (prefix_or_zero (pc_cidr c)) (prefix_or_zero (pc_cidr d))" if "c \<in> set claims" "d \<in> set claims" "c \<noteq> d" for c d
    using that assms(1) by (simp add: claims_ok_def)
  have "\<not> overlaps (prefix_or_zero (bs_cidr s)) (prefix_or_zero (bs_cidr t))"
    if "s \<in> set (b_subnets b)" "t \<in> set (b_subnets b)" "bs_uid s \<noteq> bs_uid t" for s t
    using dis [OF loc loc, of s t] that by simp
  moreover have "\<not> overlaps (prefix_or_zero (bs_cidr s)) (prefix_or_zero (rs_cidr r))"
    if s: "s \<in> set (b_subnets b)" and r: "r \<in> set (b_remote_subnets b)" for s r
  proof -
    from assms(2) r obtain c where "c \<in> set claims" "pc_cidr c = rs_cidr r" "pc_location_ref c \<noteq> b_location_ref b"
      by (auto simp: covered_def)
    moreover from this have "?c s \<noteq> c" by (metis prefix_claim.select_convs(3))
    ultimately show ?thesis using dis [OF loc [OF s], of c] by simp
  qed
  moreover have "\<not> overlaps (prefix_or_zero (rs_cidr q)) (prefix_or_zero (rs_cidr r))"
    if "q \<in> set (b_remote_subnets b)" "r \<in> set (b_remote_subnets b)" "q \<noteq> r" for q r
  proof -
    from assms(2) that(1) obtain c where c: "c \<in> set claims" "pc_cidr c = rs_cidr q" "pc_location_ref c = rs_location_ref q"
      by (auto simp: covered_def)
    from assms(2) that(2) obtain d where d: "d \<in> set claims" "pc_cidr d = rs_cidr r" "pc_location_ref d = rs_location_ref r"
      by (auto simp: covered_def)
    note cd = c d
    with that(3) have "c \<noteq> d" by (metis remote_subnet.equality unit.exhaust)
    with cd show ?thesis using dis [of c d] by simp
  qed
  ultimately show ?thesis by (simp add: snapshot_disjoint_def)
qed

section \<open>Two passes of an example\<close>

text \<open>A VPC with two subnets of one location, before and after the pass that admits them. The registry
  answers as an empty one does.\<close>

definition ex_live_vpc :: "prefix_claim list \<Rightarrow> vpc" where
  "ex_live_vpc claims = ex_vpc\<lparr>v_meta := (v_meta ex_vpc)\<lparr>om_finalizers := [plan_finalizer]\<rparr>,
     v_status := (v_status ex_vpc)\<lparr>vst_network_id := 1, vst_subnet_claims := claims\<rparr>\<rparr>"

definition ex_web :: subnet where
  "ex_web = ex_subnet\<lparr>s_meta := (s_meta ex_subnet)\<lparr>om_finalizers := [plan_finalizer]\<rparr>\<rparr>"

definition ex_data :: subnet where
  "ex_data = ex_web\<lparr>s_meta := (s_meta ex_web)\<lparr>om_name := ''data'', om_uid := ''s2''\<rparr>,
     s_spec := (s_spec ex_web)\<lparr>ss_cidr := ''10.2.0.0/24''\<rparr>\<rparr>"

definition ex_claims :: "prefix_claim list" where
  "ex_claims = [claim_of ex_data, claim_of ex_web]"

definition ex_registry :: "aobj kresp list" where
  "ex_registry = fresh_answers ex_sequence ex_sequence"

definition ex_admission :: "aobj kresp list" where
  "ex_admission = ex_registry @ [Items [ASubnet ex_web, ASubnet ex_data], Items [], Done]"

definition ex_creation :: "aobj kresp list" where
  "ex_creation = ex_registry @ [Items [ASubnet ex_web, ASubnet ex_data], Items []] @ ex_registry @ [Failed (NotFound []), Done]"

lemma registry_run:
  assumes "length (json_str key) \<le> 800000"
  obtains qs where "\<And>xs. replay (network_ids ex_cfg [key]) (ex_registry @ xs) = (qs, Some (Inr [(key, 1)], xs))"
proof -
  have "snd (replay (network_ids ex_cfg [key]) ex_registry) = Some (Inr [(key, 1)], [])"
    unfolding ex_registry_def
    by (rule network_ids_first) (use assms in \<open>simp_all add: ex_sequence_def registry_map_def mget_def empty_meta_def\<close>)
  from replay_append [OF this] show thesis by (intro that) simp
qed

lemma ex_texts: "length (json_str ''vpc/v1'') \<le> 800000" "length (json_str ''asn/tpe'') \<le> 800000"
  by (simp_all add: json_str_def esc_str_ascii esc_byte_def)

lemma ex_valid: "validate_subnet (ex_live_vpc claims) ex_web ex_cfg = Inr ()" "validate_subnet (ex_live_vpc claims) ex_data ex_cfg = Inr ()"
  by (simp_all add: validate_subnet_def ex_plan_defs ex_live_vpc_def ex_web_def ex_data_def get_location_def
      site_prefix_samples allows_cidr_def contains_V4 block_def)

lemma site_prefix_parses: "site_prefix raw = Inr p \<Longrightarrow> prefix_or_zero raw = p"
  by (auto simp: site_prefix_def prefix_or_zero_def Let_def split: option.splits addr.splits if_splits)

lemma ex_admitted:
  "admission_error ex_cfg (ex_live_vpc []) [] [] ex_data = None"
  "admission_error ex_cfg (ex_live_vpc []) [] [claim_of ex_data] ex_web = None"
  "admission_error ex_cfg (ex_live_vpc ex_claims) [] ex_claims ex_data = None"
  "admission_error ex_cfg (ex_live_vpc ex_claims) [] ex_claims ex_web = None"
proof -
  have "\<not> overlaps (prefix_or_zero ''10.1.0.0/24'') (prefix_or_zero ''10.2.0.0/24'')"
    by (simp add: site_prefix_samples [THEN site_prefix_parses] overlaps_V4 block_def)
  then show "admission_error ex_cfg (ex_live_vpc []) [] [] ex_data = None"
    "admission_error ex_cfg (ex_live_vpc []) [] [claim_of ex_data] ex_web = None"
    "admission_error ex_cfg (ex_live_vpc ex_claims) [] ex_claims ex_data = None"
    "admission_error ex_cfg (ex_live_vpc ex_claims) [] ex_claims ex_web = None"
    using ex_valid by (simp_all add: admission_error_def own_claim_def overlapping_def claim_of_def ex_claims_def
      ex_live_vpc_def ex_web_def ex_data_def ex_plan_defs deleting_meta_def)
qed

lemma replay_or_fail: "replay (or_fail p) rs = (case replay p rs of
      (qs, None) \<Rightarrow> (qs, None)
    | (qs, Some (x, rs')) \<Rightarrow> (qs, Some (case x of Inl e \<Rightarrow> Inl (failed e) | Inr a \<Rightarrow> Inr a, rs')))"
  by (auto simp: or_fail_def replay_pbind split: prod.splits option.splits)

lemma ex_sorted:
  "sort_subnets (filter (\<lambda>s. ss_vpc_ref (s_spec s) = ''net'') [ex_web, ex_data]) = [ex_data, ex_web]"
  by (simp add: sort_subnets_def ex_web_def ex_data_def ex_plan_defs less_eq_char_simp)

lemma ex_lists:
  "replay (klist a_subnet ''Subnet'' ns ls) (Items [ASubnet ex_web, ASubnet ex_data] # xs) = ([List ''Subnet'' ns ls], Some (Inr [ex_web, ex_data], xs))"
  "replay (klist a_binding ''NetworkBinding'' ns ls) (Items [] # xs) = ([List ''NetworkBinding'' ns ls], Some (Inr [], xs))"
  by (simp_all add: klist_def map_filter_def)

lemma ex_admit:
  "efold (admit_subnet k8s_ref ex_cfg 0 (ex_live_vpc []) []) ([], []) [ex_data, ex_web] = go (ex_claims, [ex_data, ex_web])"
  "efold (admit_subnet k8s_ref ex_cfg 0 (ex_live_vpc ex_claims) []) (ex_claims, []) [ex_data, ex_web] = go (ex_claims, [ex_data, ex_web])"
proof -
  have f: "contains_finalizer k8s_ref (s_meta ex_data) plan_finalizer" "contains_finalizer k8s_ref (s_meta ex_web) plan_finalizer"
    by (simp_all add: k8s_ref_def ex_data_def ex_web_def)
  have own: "own_claim [] ex_data = None" "own_claim [claim_of ex_data] ex_web = None"
    "own_claim ex_claims ex_data \<noteq> None" "own_claim ex_claims ex_web \<noteq> None"
    by (simp_all add: own_claim_def ex_claims_def claim_of_def ex_web_def ex_data_def ex_subnet_def)
  show "efold (admit_subnet k8s_ref ex_cfg 0 (ex_live_vpc []) []) ([], []) [ex_data, ex_web] = go (ex_claims, [ex_data, ex_web])"
    "efold (admit_subnet k8s_ref ex_cfg 0 (ex_live_vpc ex_claims) []) (ex_claims, []) [ex_data, ex_web] = go (ex_claims, [ex_data, ex_web])"
    by (simp_all add: admit_subnet_def f own ex_admitted) (simp add: ex_claims_def)
qed

lemma ex_live_simps:
  "contains_finalizer k8s_ref (v_meta (ex_live_vpc claims)) plan_finalizer" "om_uid (v_meta (ex_live_vpc claims)) = ''v1''"
  "vst_network_id (v_status (ex_live_vpc claims)) = 1" "om_namespace (v_meta (ex_live_vpc claims)) = ''red''"
  "om_name (v_meta (ex_live_vpc claims)) = ''net''" "vst_subnet_claims (v_status (ex_live_vpc claims)) = claims"
  "vst_bindings (v_status (ex_live_vpc claims)) = []" "forget_tombstone L d v [] = go ()"
  by (simp_all add: k8s_ref_def ex_live_vpc_def ex_vpc_def forget_tombstone_def)

text \<open>The first pass admits both subnets.\<close>

lemma ex_admission_run:
  "UpdateStatus (AVpc (ex_live_vpc ex_claims))
     \<in> set (fst (replay (reconcile_vpc k8s_ref ex_cfg 0 (ex_live_vpc []) :: (aobj, outcome + unit) kprog) ex_admission))"
proof -
  obtain qs where r: "\<And>xs. replay (network_ids ex_cfg [''vpc/v1'']) (ex_registry @ xs) = (qs, Some (Inr [(''vpc/v1'', 1)], xs))"
    using registry_run [OF ex_texts(1)] by blast
  have v: "(ex_live_vpc [])\<lparr>v_status := (v_status (ex_live_vpc []))\<lparr>vst_subnet_claims := ex_claims\<rparr>\<rparr> = ex_live_vpc ex_claims"
    by (simp add: ex_live_vpc_def ex_vpc_def)
  have "ex_claims \<noteq> []" by (simp add: ex_claims_def)
  then show ?thesis
    by (simp add: reconcile_vpc_def Let_def ex_live_simps replay_ebind replay_or_fail r id_of_def ex_admission_def reconcile_live_def
      ex_lists ex_sorted ex_admit after_admission_def return_after_def kdo_def v del: filter.simps efold.simps)
qed

text \<open>The next one creates the snapshot of their location.\<close>

lemma ex_build: "\<exists>b. build (ex_live_vpc ex_claims) [ex_data, ex_web] [] ex_cfg = Inr [b]
    \<and> map bs_uid (b_subnets (nb_spec b)) = [''s1'', ''s2''] \<and> b_location_ref (nb_spec b) = ''tpe''"
  by (simp add: ex_plan_defs ex_live_vpc_def ex_web_def ex_data_def build_def Let_def add_existing_def add_subnet_def get_location_def
      site_prefix_samples build_binding_def add_peers_def subnets_at_def sort_strings_def sort_slice_def binding_subnet_of_def
      less_eq_char_simp)

lemma ex_creation_run:
  "\<exists>b. Create (ABinding b)
      \<in> set (fst (replay (reconcile_vpc k8s_ref ex_cfg 0 (ex_live_vpc ex_claims) :: (aobj, outcome + unit) kprog) ex_creation))
    \<and> map bs_uid (b_subnets (nb_spec b)) = [''s1'', ''s2'']"
proof -
  obtain qs where r: "\<And>xs. replay (network_ids ex_cfg [''vpc/v1'']) (ex_registry @ xs) = (qs, Some (Inr [(''vpc/v1'', 1)], xs))"
    using registry_run [OF ex_texts(1)] by blast
  obtain ts where t: "\<And>xs. replay (network_ids ex_cfg [''asn/tpe'']) (ex_registry @ xs) = (ts, Some (Inr [(''asn/tpe'', 1)], xs))"
    using registry_run [OF ex_texts(2)] by blast
  obtain b where b: "build (ex_live_vpc ex_claims) [ex_data, ex_web] [] ex_cfg = Inr [b]"
    "map bs_uid (b_subnets (nb_spec b)) = [''s1'', ''s2'']" "b_location_ref (nb_spec b) = ''tpe''"
    using ex_build by (elim exE conjE)
  define c where "c = complete_transport (ex_live_vpc ex_claims) [(''asn/tpe'', 1)] (prepare_transport (ex_live_vpc ex_claims) [] b)"
  have keys: "transport_keys (ex_live_vpc ex_claims) [] [b] = [''asn/tpe'']"
    by (simp add: transport_keys_def binding_links_def asn_key_def b(3))
  have stamped: "find (\<lambda>s. sst_vpc_uid (s_status s) = []) [ex_data, ex_web] = None"
    by (simp add: ex_web_def ex_data_def ex_subnet_def)
  have assigned: "replay (assign_transport ex_cfg (ex_live_vpc ex_claims) [b] []) (ex_registry @ xs) = (ts, Some (Inr [c], xs))" for xs
    by (simp add: assign_transport_def keys replay_ebind t c_def)
  have created: "replay (sync_binding k8s_ref 0 (ex_live_vpc ex_claims) [] c) [Failed (NotFound []), Done]
      = ([Get ''NetworkBinding'' (om_namespace (nb_meta c)) (om_name (nb_meta c)), Create (ABinding c)],
         Some (Inl \<lparr>requeue_after = again 0, out_error = None\<rparr>, []))"
    by (simp add: sync_binding_def ex_live_simps replay_pbind kget_def replay_ebind replay_or_fail kdo_def)
  have rest: "Create (ABinding c) \<in> set (fst (replay (after_admission k8s_ref ex_cfg 0 (ex_live_vpc ex_claims) subnets []
      ex_claims [ex_data, ex_web]) (ex_registry @ [Failed (NotFound []), Done])))" for subnets
    by (simp add: after_admission_def ex_live_simps stamp_accepted_def stamped b(1) replay_ebind replay_or_fail assigned created
      del: find.simps)
  have "Create (ABinding c)
      \<in> set (fst (replay (reconcile_vpc k8s_ref ex_cfg 0 (ex_live_vpc ex_claims) :: (aobj, outcome + unit) kprog) ex_creation))"
    by (simp add: reconcile_vpc_def Let_def ex_live_simps replay_ebind replay_or_fail r id_of_def ex_creation_def reconcile_live_def
      ex_lists ex_sorted ex_admit rest del: filter.simps efold.simps)
  moreover have "map bs_uid (b_subnets (nb_spec c)) = [''s1'', ''s2'']"
    using b(2) by (simp add: c_def complete_transport_def prepare_transport_def Let_def)
  ultimately show ?thesis by (intro exI [of _ c] conjI)
qed

section \<open>Snapshots never overlap\<close>

text \<open>
  C1: from a VPC without claims on, whatever passes have run over it and whatever the API server answered
  them: no two different subnets of a snapshot that a pass creates or rewrites share an address, no local
  subnet of it shares one with a remote subnet, no two remote subnets share one, and the claims that a pass
  commits are canonical prefixes, one per subnet, that are pairwise disjoint.
\<close>

theorem reconcile_snapshots_disjoint:
  assumes "claims_reach (vst_subnet_claims (v_status v))"
  shows "every_request (\<lambda>q. case q of Create (ABinding b) \<Rightarrow> snapshot_disjoint (nb_spec b)
      | Update (ABinding b) \<Rightarrow> snapshot_disjoint (nb_spec b)
      | UpdateStatus (AVpc v') \<Rightarrow> claims_ok (vst_subnet_claims (v_status v')) | _ \<Rightarrow> True)
    (reconcile_vpc L cfg interval v :: (aobj, outcome + unit) kprog)"
  by (rule every_requestI, rule always_mono [OF reconcile_vpc_pass [where P = "\<lambda>_. True"]])
    (use claims_reach_ok [OF assms] covered_disjoint in \<open>auto simp: vpc_write_def split: kreq.splits aobj.splits\<close>)

theorem reconcile_snapshots_disjoint_witness:
  "claims_reach ex_claims \<and> length ex_claims = 2 \<and> (\<exists>b. Create (ABinding b)
      \<in> set (fst (replay (reconcile_vpc k8s_ref ex_cfg 0 (ex_live_vpc ex_claims) :: (aobj, outcome + unit) kprog) ex_creation))
    \<and> map bs_uid (b_subnets (nb_spec b)) = [''s1'', ''s2''] \<and> snapshot_disjoint (nb_spec b))"
proof -
  have "claims_reach (vst_subnet_claims (v_status (ex_live_vpc ex_claims)))"
    by (rule claims_pass [OF _ ex_admission_run]) (simp add: ex_live_simps claims_new)
  moreover from reconcile_snapshots_disjoint [OF this, of k8s_ref ex_cfg 0] ex_creation_run obtain b where
    "Create (ABinding b)
      \<in> set (fst (replay (reconcile_vpc k8s_ref ex_cfg 0 (ex_live_vpc ex_claims) :: (aobj, outcome + unit) kprog) ex_creation))"
    "map bs_uid (b_subnets (nb_spec b)) = [''s1'', ''s2'']" "snapshot_disjoint (nb_spec b)"
    unfolding every_request_def by fastforce
  ultimately show ?thesis by (auto simp: ex_live_simps ex_claims_def)
qed

text \<open>
  The comparison of specifications in \<open>sync_binding\<close> never succeeds for a plan without subnets, so a pass
  over remaining tombstones always ends there, with a write, and the code after the loop is not reached.
\<close>

theorem tombstones_never_settle:
  assumes "build v accepted bindings cfg = Inr planned" and "admitted v accepted = []" and "want \<in> set planned"
  shows "every_result (\<lambda>x. \<exists>out. x = Inl out)
    (sync_binding L interval v synced (complete_transport v ids (prepare_transport v bindings want)))"
proof -
  have "b_authorized_locations (nb_spec want) = []"
    using build_fields(6) [OF assms(1,3)] assms(2) by simp
  then have "\<not> spec_deep_equal s (nb_spec (complete_transport v ids (prepare_transport v bindings want)))" for s
    by (simp add: spec_deep_equal_def complete_transport_def prepare_transport_def Let_def)
  then show ?thesis
    by (intro every_resultI) (auto simp: sync_binding_def vpc_state_def Let_def split: sum.splits kresp.splits option.splits)
qed

end
