(* ===== verification/Destination_Route.thy ===== *)
theory Destination_Route
  imports Site_Config Go_Json Go_Sha256
begin

text \<open>
  \<open>integration/kube-ovn/destinationroute/plan.go\<close>: validation and canonical form of native
  destination-route intent. \<open>compile\<close> checks the intents in one pass, collects the BFD sessions and
  makes a hash of the sorted routes; \<open>reachable_gateway\<close> and \<open>children\<close> are the two address
  computations of the native controller. The lemmas show that the compiler accepts exactly the
  consistent inputs, that its result does not depend on the order of the input, and that the two
  children of a destination partition it.
\<close>

section \<open>Data\<close>

record dest_bfd =
  db_min_rx :: int
  db_min_tx :: int
  db_multiplier :: int

record intent =
  in_cidr :: string
  in_next_hops :: "string list"
  in_bfd :: dest_bfd
  in_selection_fields :: "string list"

record dest_plan =
  dp_routes :: "intent list"
  dp_sessions :: "dest_bfd smap"
  dp_hash :: string

definition capability :: string where
  "capability = ''destination-routes.v1''"

definition dest_owner_key :: string where
  "dest_owner_key = ''kube-ovn.io/destination-vpc-uid''"

definition dest_route_key :: string where
  "dest_route_key = ''kube-ovn.io/destination-route''"

section \<open>Compile\<close>

definition dest_prefix_msg :: string where
  "dest_prefix_msg = ''destination must be a canonical non-default unicast IPv4 prefix with length 1-31''"

definition dest_prefix :: "string \<Rightarrow> prefix res" where
  "dest_prefix raw = (case parse_prefix raw of
      None \<Rightarrow> Inl dest_prefix_msg
    | Some p \<Rightarrow> (case p_addr p of
        V4 w \<Rightarrow> if p_bits p = 0 \<or> p_bits p = 32 \<or> v4_prefix_str (net_of (nat (p_bits p)) w) (nat (p_bits p)) \<noteq> raw
                  \<or> \<not> v4_global_unicast w
                then Inl dest_prefix_msg else Inr p
      | _ \<Rightarrow> Inl dest_prefix_msg))"

definition bfd_timers_ok :: "dest_bfd \<Rightarrow> bool" where
  "bfd_timers_ok b \<longleftrightarrow> 1 \<le> db_min_rx b \<and> db_min_rx b \<le> 3600000 \<and> 1 \<le> db_min_tx b \<and> db_min_tx b \<le> 3600000
     \<and> 1 \<le> db_multiplier b \<and> db_multiplier b \<le> 255"

definition hop_ok :: "prefix \<Rightarrow> string \<Rightarrow> bool" where
  "hop_ok p hop \<longleftrightarrow> (case parse_addr hop of
      Some (V4 x) \<Rightarrow> v4_global_unicast x \<and> v4_str x = hop \<and> \<not> contains p (V4 x)
    | _ \<Rightarrow> False)"

text \<open>One next hop of an intent, with the hops of the intent and the sessions seen so far.\<close>

definition add_hop :: "prefix \<Rightarrow> dest_bfd \<Rightarrow> string list \<times> dest_bfd smap \<Rightarrow> string \<Rightarrow> (string list \<times> dest_bfd smap) res" where
  "add_hop p timers st hop = (case st of (hops, sessions) \<Rightarrow>
     if \<not> hop_ok p hop \<or> hop \<in> set hops then Inl ''invalid, duplicated, or destination-overlapping next hop''
     else if map_of sessions hop \<noteq> None \<and> map_of sessions hop \<noteq> Some timers
     then Inl ''shared next hop has conflicting BFD timers''
     else Inr (hop # hops, mput hop timers sessions))"

definition allowed_fields :: "string list" where
  "allowed_fields = [''eth_src'', ''eth_dst'', ''ip_proto'', ''ip_src'', ''ip_dst'', ''tp_src'', ''tp_dst'']"

definition add_field :: "string list \<Rightarrow> string \<Rightarrow> (string list) res" where
  "add_field seen field =
     (if field \<notin> set allowed_fields \<or> field \<in> set seen then Inl ''invalid or duplicate ECMP selection field''
      else Inr (field # seen))"

definition canonical :: "intent \<Rightarrow> intent" where
  "canonical r = r\<lparr>in_next_hops := sort_strings (in_next_hops r), in_selection_fields := sort_strings (in_selection_fields r)\<rparr>"

type_synonym compile_state = "prefix list \<times> dest_bfd smap \<times> intent list"

definition compile_intent :: "compile_state \<Rightarrow> intent \<Rightarrow> compile_state res" where
  "compile_intent st r = (case st of (prefixes, sessions, routes) \<Rightarrow>
     rbind (dest_prefix (in_cidr r)) (\<lambda>p.
     rbind (guard (\<not> list_ex (overlaps p) prefixes) ''destination prefixes overlap'') (\<lambda>_.
     rbind (guard (2 \<le> length (in_next_hops r) \<and> length (in_next_hops r) \<le> 64) ''destination requires 2-64 gateway next hops'') (\<lambda>_.
     rbind (guard (bfd_timers_ok (in_bfd r)) ''invalid BFD timers'') (\<lambda>_.
     rbind (foldr_res (add_hop p (in_bfd r)) ([], sessions) (in_next_hops r)) (\<lambda>(_, sessions').
     rbind (guard (in_selection_fields r \<noteq> [] \<and> length (in_selection_fields r) \<le> 7) ''explicit ECMP selection fields are required'') (\<lambda>_.
     rbind (foldr_res add_field [] (in_selection_fields r)) (\<lambda>_.
     Inr (prefixes @ [p], sessions', routes @ [canonical r])))))))))"

definition bfd_json :: "dest_bfd \<Rightarrow> json" where
  "bfd_json b = JObj [(''minRX'', json_int (db_min_rx b)), (''minTX'', json_int (db_min_tx b)), (''multiplier'', json_int (db_multiplier b))]"

definition intent_json :: "intent \<Rightarrow> json" where
  "intent_json r = JObj [(''cidr'', JStr (in_cidr r)), (''nextHops'', JArr (map JStr (in_next_hops r))), (''bfd'', bfd_json (in_bfd r)),
     (''selectionFields'', JArr (map JStr (in_selection_fields r)))]"

definition routes_hash :: "intent list \<Rightarrow> string" where
  "routes_hash routes = sha256_hex (json_enc (JArr (map intent_json routes)))"

definition compile :: "intent list \<Rightarrow> dest_plan res" where
  "compile input =
     rbind (guard (length input \<le> 256) ''at most 256 destination prefixes are supported'') (\<lambda>_.
     rbind (foldr_res compile_intent ([], [], []) input) (\<lambda>(_, sessions, routes).
     let sorted_routes = sort_slice in_cidr routes
     in Inr \<lparr>dp_routes = sorted_routes, dp_sessions = sessions, dp_hash = routes_hash sorted_routes\<rparr>))"

section \<open>Gateways and children\<close>

text \<open>\<open>n |= uint32(1)<<(32-p.Bits()) - 1\<close>, with Go's 32-bit wrap-around.\<close>

definition subnet_broadcast :: "32 word \<Rightarrow> nat \<Rightarrow> 32 word" where
  "subnet_broadcast w b = net_of b w OR (push_bit (32 - b) 1 - 1)"

definition gateway_on :: "addr \<Rightarrow> string \<Rightarrow> bool" where
  "gateway_on a raw \<longleftrightarrow> (case parse_prefix raw of
      None \<Rightarrow> False
    | Some p \<Rightarrow> contains p a \<and> a \<noteq> p_addr p \<and> a \<noteq> p_addr (masked p)
        \<and> \<not> (case p_addr p of V4 w \<Rightarrow> p_bits p < 31 \<and> a = V4 (subnet_broadcast w (nat (p_bits p))) | _ \<Rightarrow> False))"

definition reachable_gateway :: "string \<Rightarrow> string list \<Rightarrow> bool" where
  "reachable_gateway hop networks \<longleftrightarrow> (case parse_addr hop of None \<Rightarrow> False | Some a \<Rightarrow> list_ex (gateway_on a) networks)"

text \<open>\<open>None\<close> is the panic of \<open>MustParsePrefix\<close> on text that is not a prefix and of the negative shift for
  a /32. The callers pass IPv4 prefixes only; other addresses are \<open>None\<close> too.\<close>

definition children :: "string \<Rightarrow> (string \<times> string) option" where
  "children cidr = (case parse_prefix cidr of
      Some p \<Rightarrow> (case p_addr p of
        V4 w \<Rightarrow> let b = nat (p_bits p); second = w OR push_bit (31 - b) 1
                in if 31 < b then None else Some (v4_prefix_str w (b + 1), v4_prefix_str second (b + 1))
      | _ \<Rightarrow> None)
    | None \<Rightarrow> None)"

section \<open>What the compiler accepts\<close>

definition usable_dest :: "32 word \<Rightarrow> nat \<Rightarrow> bool" where
  "usable_dest w b \<longleftrightarrow> 1 \<le> b \<and> b \<le> 31 \<and> net_of b w = w \<and> v4_global_unicast w"

lemma dest_prefix_iff:
  "dest_prefix raw = Inr p \<longleftrightarrow> (\<exists>w b. p = Prefix (V4 w) (int b) \<and> raw = v4_prefix_str w b \<and> usable_dest w b)"
proof
  assume acc: "dest_prefix raw = Inr p"
  then obtain w where p: "parse_prefix raw = Some p" "p_addr p = V4 w"
    by (auto simp: dest_prefix_def split: option.splits addr.splits if_splits)
  define b where "b = nat (p_bits p)"
  have pb: "p = Prefix (V4 w) (p_bits p)" using p(2) by (cases p) simp
  with p(1) have b: "0 \<le> p_bits p" "p_bits p \<le> 32" "raw = v4_prefix_str w b"
    using parse_prefix_V4_iff [of raw w "p_bits p"] by (simp_all add: b_def)
  from acc p b have "p_bits p \<noteq> 0" "p_bits p \<noteq> 32" "v4_prefix_str (net_of b w) b = v4_prefix_str w b" "v4_global_unicast w"
    by (auto simp: dest_prefix_def b_def split: if_splits)
  then show "\<exists>w b. p = Prefix (V4 w) (int b) \<and> raw = v4_prefix_str w b \<and> usable_dest w b"
    using pb b by (intro exI [of _ w] exI [of _ b]) (auto simp: usable_dest_def v4_prefix_str_inject b_def)
next
  assume "\<exists>w b. p = Prefix (V4 w) (int b) \<and> raw = v4_prefix_str w b \<and> usable_dest w b"
  then show "dest_prefix raw = Inr p"
    by (auto simp: dest_prefix_def usable_dest_def)
qed

text \<open>The checks on one intent alone, and those between two intents.\<close>

definition pfx :: "intent \<Rightarrow> prefix" where
  "pfx r = (case dest_prefix (in_cidr r) of Inl _ \<Rightarrow> prefix_zero | Inr p \<Rightarrow> p)"

definition intent_ok :: "intent \<Rightarrow> bool" where
  "intent_ok r \<longleftrightarrow> is_ok (dest_prefix (in_cidr r)) \<and> 2 \<le> length (in_next_hops r) \<and> length (in_next_hops r) \<le> 64
     \<and> bfd_timers_ok (in_bfd r) \<and> distinct (in_next_hops r) \<and> (\<forall>hop\<in>set (in_next_hops r). hop_ok (pfx r) hop)
     \<and> in_selection_fields r \<noteq> [] \<and> length (in_selection_fields r) \<le> 7 \<and> distinct (in_selection_fields r)
     \<and> set (in_selection_fields r) \<subseteq> set allowed_fields"

definition compatible :: "intent \<Rightarrow> intent \<Rightarrow> bool" where
  "compatible r q \<longleftrightarrow> \<not> overlaps (pfx r) (pfx q)
     \<and> (set (in_next_hops r) \<inter> set (in_next_hops q) \<noteq> {} \<longrightarrow> in_bfd r = in_bfd q)"

definition consistent :: "intent list \<Rightarrow> bool" where
  "consistent input \<longleftrightarrow> list_all intent_ok input \<and> sorted_wrt compatible input"

lemma add_hop_iff:
  "add_hop p timers (hops, sessions) hop = Inr st \<longleftrightarrow> hop_ok p hop \<and> hop \<notin> set hops
     \<and> (map_of sessions hop = None \<or> map_of sessions hop = Some timers) \<and> st = (hop # hops, mput hop timers sessions)"
  by (auto simp: add_hop_def)

lemma add_field_iff:
  "add_field seen field = Inr st \<longleftrightarrow> field \<in> set allowed_fields \<and> field \<notin> set seen \<and> st = field # seen"
  by (auto simp: add_field_def)

lemma add_hops_iff:
  "foldr_res (add_hop p timers) (hops, sessions) hs = Inr st \<longleftrightarrow>
     (\<forall>hop\<in>set hs. hop_ok p hop \<and> hop \<notin> set hops \<and> (map_of sessions hop = None \<or> map_of sessions hop = Some timers))
     \<and> distinct hs \<and> st = (rev hs @ hops, foldl (\<lambda>m hop. mput hop timers m) sessions hs)"
proof (induction hs arbitrary: hops sessions)
  case (Cons x hs)
  show ?case by (auto simp: add_hop_iff Cons.IH split: if_splits)
qed auto

lemma map_of_put_hops:
  "map_of (foldl (\<lambda>m hop. mput hop timers m) sessions hs) hop = (if hop \<in> set hs then Some timers else map_of sessions hop)"
  by (induction hs arbitrary: sessions) auto

lemma add_fields_iff:
  "foldr_res add_field seen fs = Inr st \<longleftrightarrow> set fs \<subseteq> set allowed_fields \<and> set fs \<inter> set seen = {} \<and> distinct fs \<and> st = rev fs @ seen"
  by (induction fs arbitrary: seen) (auto simp: add_field_iff)

text \<open>One step of the compiler.\<close>

lemma compile_intent_iff:
  "compile_intent (prefixes, sessions, routes) r = Inr st \<longleftrightarrow>
     intent_ok r \<and> \<not> list_ex (overlaps (pfx r)) prefixes
     \<and> (\<forall>hop\<in>set (in_next_hops r). map_of sessions hop = None \<or> map_of sessions hop = Some (in_bfd r))
     \<and> st = (prefixes @ [pfx r], foldl (\<lambda>m hop. mput hop (in_bfd r) m) sessions (in_next_hops r), routes @ [canonical r])"
proof (cases "dest_prefix (in_cidr r)")
  case (Inr p)
  then have "pfx r = p" by (simp add: pfx_def)
  then show ?thesis
    by (auto simp: compile_intent_def intent_ok_def Inr add_hops_iff add_fields_iff is_ok_def split: prod.splits)
qed (simp add: compile_intent_def intent_ok_def is_ok_def)

lemma compile_loop:
  "(\<exists>st. foldr_res compile_intent ([], [], []) input = Inr st) \<longleftrightarrow> consistent input"
  "foldr_res compile_intent ([], [], []) input = Inr (prefixes, sessions, routes) \<Longrightarrow>
     prefixes = map pfx input \<and> routes = map canonical input
     \<and> (\<forall>hop t. map_of sessions hop = Some t \<longleftrightarrow> (\<exists>r\<in>set input. hop \<in> set (in_next_hops r) \<and> in_bfd r = t))"
proof (induction input arbitrary: prefixes sessions routes rule: rev_induct)
  case Nil
  { case 1 then show ?case by (simp add: consistent_def) }
  { case 2 then show ?case by simp }
next
  case (snoc r input)
  have step: "foldr_res compile_intent ([], [], []) (input @ [r]) = Inr st \<longleftrightarrow>
      (\<exists>sessions. foldr_res compile_intent ([], [], []) input = Inr (map pfx input, sessions, map canonical input)
         \<and> intent_ok r \<and> (\<forall>q\<in>set input. compatible q r)
         \<and> st = (map pfx (input @ [r]), foldl (\<lambda>m hop. mput hop (in_bfd r) m) sessions (in_next_hops r), map canonical (input @ [r])))" (is "_ = ?rhs") for st
  proof -
    have "(\<forall>hop\<in>set (in_next_hops r). map_of sessions hop = None \<or> map_of sessions hop = Some (in_bfd r))
        \<and> \<not> list_ex (overlaps (pfx r)) (map pfx input) \<longleftrightarrow> (\<forall>q\<in>set input. compatible q r)"
      if "foldr_res compile_intent ([], [], []) input = Inr (map pfx input, sessions, map canonical input)" for sessions
    proof -
      from snoc.IH(2) [OF that] have s: "map_of sessions hop = Some t \<longleftrightarrow> (\<exists>q\<in>set input. hop \<in> set (in_next_hops q) \<and> in_bfd q = t)" for hop t
        by blast
      have "(\<forall>hop\<in>set (in_next_hops r). map_of sessions hop = None \<or> map_of sessions hop = Some (in_bfd r))
          \<longleftrightarrow> (\<forall>q\<in>set input. set (in_next_hops q) \<inter> set (in_next_hops r) \<noteq> {} \<longrightarrow> in_bfd q = in_bfd r)"
      proof (intro iffI ballI impI)
        fix q
        assume L: "\<forall>hop\<in>set (in_next_hops r). map_of sessions hop = None \<or> map_of sessions hop = Some (in_bfd r)"
          and q: "q \<in> set input" "set (in_next_hops q) \<inter> set (in_next_hops r) \<noteq> {}"
        from q(2) obtain hop where "hop \<in> set (in_next_hops q)" "hop \<in> set (in_next_hops r)" by blast
        with L q(1) s [of hop "in_bfd q"] show "in_bfd q = in_bfd r" by fastforce
      next
        fix hop
        assume R: "\<forall>q\<in>set input. set (in_next_hops q) \<inter> set (in_next_hops r) \<noteq> {} \<longrightarrow> in_bfd q = in_bfd r"
          and hop: "hop \<in> set (in_next_hops r)"
        show "map_of sessions hop = None \<or> map_of sessions hop = Some (in_bfd r)"
        proof (cases "map_of sessions hop")
          case (Some t)
          with s obtain q where "q \<in> set input" "hop \<in> set (in_next_hops q)" "in_bfd q = t" by blast
          moreover from this(1,2) hop R have "in_bfd q = in_bfd r" by blast
          ultimately show ?thesis using Some by simp
        qed simp
      qed
      then show ?thesis by (auto simp: compatible_def list_ex_iff overlaps_sym)
    qed
    note cond = this
    have shape: "ps = map pfx input \<and> rs = map canonical input"
      if "foldr_res compile_intent ([], [], []) input = Inr (ps, ss, rs)" for ps ss rs
      using snoc.IH(2) [OF that] by blast
    have "foldr_res compile_intent ([], [], []) (input @ [r]) = Inr st \<longleftrightarrow>
        (\<exists>ps ss rs. foldr_res compile_intent ([], [], []) input = Inr (ps, ss, rs) \<and> compile_intent (ps, ss, rs) r = Inr st)"
      by (cases st) (auto simp: foldr_res_append)
    also have "\<dots> \<longleftrightarrow> (\<exists>ss. foldr_res compile_intent ([], [], []) input = Inr (map pfx input, ss, map canonical input)
        \<and> compile_intent (map pfx input, ss, map canonical input) r = Inr st)"
      using shape by blast
    also have "\<dots> \<longleftrightarrow> ?rhs"
      using cond by (simp only: compile_intent_iff map_append list.map) blast
    finally show ?thesis .
  qed
  { case 1
    have "(\<exists>ss. foldr_res compile_intent ([], [], []) input = Inr (map pfx input, ss, map canonical input)) \<longleftrightarrow> consistent input"
      unfolding snoc.IH(1) [symmetric] using snoc.IH(2) by (metis prod_cases3)
    then have "(\<exists>st. foldr_res compile_intent ([], [], []) (input @ [r]) = Inr st)
        \<longleftrightarrow> consistent input \<and> intent_ok r \<and> (\<forall>q\<in>set input. compatible q r)"
      unfolding step by blast
    then show ?case by (auto simp: consistent_def sorted_wrt_append) }
  { case 2
    from step [THEN iffD1, OF 2] obtain ss where l: "foldr_res compile_intent ([], [], []) input = Inr (map pfx input, ss, map canonical input)"
      and st: "prefixes = map pfx (input @ [r])" "sessions = foldl (\<lambda>m hop. mput hop (in_bfd r) m) ss (in_next_hops r)"
        "routes = map canonical (input @ [r])" and c: "\<forall>q\<in>set input. compatible q r"
      by blast
    from snoc.IH(2) [OF l] have "map_of ss hop = Some t \<longleftrightarrow> (\<exists>q\<in>set input. hop \<in> set (in_next_hops q) \<and> in_bfd q = t)" for hop t
      by blast
    moreover from c have "in_bfd q = in_bfd r" if "q \<in> set input" "hop \<in> set (in_next_hops q)" "hop \<in> set (in_next_hops r)" for q hop
      using that unfolding compatible_def by blast
    ultimately have "map_of sessions hop = Some t \<longleftrightarrow> (\<exists>q\<in>set (input @ [r]). hop \<in> set (in_next_hops q) \<and> in_bfd q = t)" for hop t
      unfolding st(2) map_of_put_hops by auto
    with st show ?case by blast }
qed

lemma compile_iff:
  "compile input = Inr plan \<longleftrightarrow> length input \<le> 256 \<and> consistent input
     \<and> dp_routes plan = sort_slice in_cidr (map canonical input) \<and> dp_hash plan = routes_hash (dp_routes plan)
     \<and> (\<exists>prefixes routes. foldr_res compile_intent ([], [], []) input = Inr (prefixes, dp_sessions plan, routes))"
proof
  assume "compile input = Inr plan"
  then obtain prefixes sessions routes where l: "foldr_res compile_intent ([], [], []) input = Inr (prefixes, sessions, routes)"
    and len: "length input \<le> 256"
    and plan: "plan = \<lparr>dp_routes = sort_slice in_cidr routes, dp_sessions = sessions, dp_hash = routes_hash (sort_slice in_cidr routes)\<rparr>"
    by (auto simp: compile_def Let_def)
  with compile_loop [of input] show "length input \<le> 256 \<and> consistent input
     \<and> dp_routes plan = sort_slice in_cidr (map canonical input) \<and> dp_hash plan = routes_hash (dp_routes plan)
     \<and> (\<exists>prefixes routes. foldr_res compile_intent ([], [], []) input = Inr (prefixes, dp_sessions plan, routes))"
    by auto
next
  assume r: "length input \<le> 256 \<and> consistent input
     \<and> dp_routes plan = sort_slice in_cidr (map canonical input) \<and> dp_hash plan = routes_hash (dp_routes plan)
     \<and> (\<exists>prefixes routes. foldr_res compile_intent ([], [], []) input = Inr (prefixes, dp_sessions plan, routes))"
  then obtain prefixes routes where l: "foldr_res compile_intent ([], [], []) input = Inr (prefixes, dp_sessions plan, routes)" by blast
  with compile_loop(2) [OF l] r show "compile input = Inr plan"
    by (simp add: compile_def Let_def)
qed

section \<open>The order of the input does not matter\<close>

lemma sorted_wrt_symmetric:
  assumes "\<And>x y. P x y \<Longrightarrow> P y x" and "\<forall>x\<in>set xs. \<not> P x x"
  shows "sorted_wrt P xs \<longleftrightarrow> distinct xs \<and> (\<forall>x\<in>set xs. \<forall>y\<in>set xs. x \<noteq> y \<longrightarrow> P x y)"
  using assms(2)
proof (induction xs)
  case (Cons a xs)
  have "(\<forall>x\<in>set xs. P a x) \<longleftrightarrow> a \<notin> set xs \<and> (\<forall>x\<in>set xs. x \<noteq> a \<longrightarrow> P x a) \<and> (\<forall>y\<in>set xs. a \<noteq> y \<longrightarrow> P a y)"
    using Cons.prems by (intro iffI conjI) (auto intro: assms(1))
  with Cons show ?case by (auto simp: ball_conj_distrib)
qed simp

lemma compatible_sym: "compatible r q \<Longrightarrow> compatible q r"
  by (auto simp: compatible_def overlaps_sym Int_commute)

lemma intent_ok_prefix: "intent_ok r \<Longrightarrow> \<exists>w b. pfx r = Prefix (V4 w) (int b) \<and> in_cidr r = v4_prefix_str w b \<and> usable_dest w b"
proof -
  assume "intent_ok r"
  then obtain p where p: "dest_prefix (in_cidr r) = Inr p" by (auto simp: intent_ok_def is_ok_iff)
  then have "pfx r = p" by (simp add: pfx_def)
  with p show ?thesis by (simp add: dest_prefix_iff)
qed

lemma not_compatible_self: "intent_ok r \<Longrightarrow> \<not> compatible r r"
  by (auto dest!: intent_ok_prefix simp: compatible_def overlaps_V4 usable_dest_def)

lemma consistent_iff:
  "consistent xs \<longleftrightarrow> (\<forall>r\<in>set xs. intent_ok r) \<and> distinct xs \<and> (\<forall>r\<in>set xs. \<forall>q\<in>set xs. r \<noteq> q \<longrightarrow> compatible r q)"
proof (cases "\<forall>r\<in>set xs. intent_ok r")
  case True
  then show ?thesis
    using sorted_wrt_symmetric [of compatible xs, OF compatible_sym] not_compatible_self
    by (simp add: consistent_def list_all_iff)
qed (auto simp: consistent_def list_all_iff)

lemma consistent_mset:
  assumes "mset xs = mset ys"
  shows "consistent xs \<longleftrightarrow> consistent ys"
  unfolding consistent_iff mset_eq_setD [OF assms] mset_eq_imp_distinct_iff [OF assms] ..

section \<open>Canonical forms\<close>

lemma sort_strings_idem [simp]: "sort_strings (sort_strings xs) = sort_strings xs"
  by (simp add: sort_strings_def sorted_sort_id)

lemma sort_strings_Nil_iff [simp]: "sort_strings xs = [] \<longleftrightarrow> xs = []"
  by (metis length_0_conv sort_strings_props(3))

lemma canonical_simps [simp]:
  "in_cidr (canonical r) = in_cidr r" "in_bfd (canonical r) = in_bfd r" "pfx (canonical r) = pfx r"
  "set (in_next_hops (canonical r)) = set (in_next_hops r)" "canonical (canonical r) = canonical r"
  by (simp_all add: canonical_def pfx_def)

lemma intent_ok_canonical [simp]: "intent_ok (canonical r) = intent_ok r"
  by (simp add: intent_ok_def canonical_def pfx_def)

lemma compatible_canonical [simp]: "compatible (canonical r) (canonical q) = compatible r q"
  by (simp add: compatible_def)

lemma consistent_canonical: "consistent (map canonical xs) \<longleftrightarrow> consistent xs"
  by (simp add: consistent_def list_all_iff sorted_wrt_map)

text \<open>A consistent input has at most one intent per destination text.\<close>

lemma consistent_cidr_inj:
  assumes "consistent xs" and "r \<in> set xs" and "q \<in> set xs" and "in_cidr r = in_cidr q"
  shows "r = q"
proof (rule ccontr)
  assume "r \<noteq> q"
  with assms have "compatible r q" "intent_ok r" by (auto simp: consistent_iff)
  moreover from assms(4) have "pfx r = pfx q" by (simp add: pfx_def)
  ultimately show False using not_compatible_self [of r] by (simp add: compatible_def)
qed

lemma sort_routes_mset:
  assumes "consistent xs" and "mset (map canonical xs) = mset (map canonical ys)"
  shows "sort_slice in_cidr (map canonical xs) = sort_slice in_cidr (map canonical ys)"
proof (rule sort_slice_cong [OF assms(2)])
  show "inj_on in_cidr (set (map canonical xs))"
    using consistent_cidr_inj assms(1) consistent_canonical by (intro inj_onI) blast
qed

section \<open>Children\<close>

lemma children_usable:
  assumes "usable_dest w b"
  shows "children (v4_prefix_str w b) = Some (v4_prefix_str w (b + 1), v4_prefix_str (w OR push_bit (31 - b) 1) (b + 1))"
  using assms by (simp add: children_def usable_dest_def nat_add_distrib)

lemma drop_bit_Suc_eq:
  "drop_bit k x = drop_bit k (y :: 'a::len word) \<longleftrightarrow> drop_bit (Suc k) x = drop_bit (Suc k) y \<and> bit x k = bit y k"
proof
  assume "drop_bit k x = drop_bit k y"
  then have "bit x (k + n) = bit y (k + n)" for n by (metis bit_drop_bit_eq comp_apply)
  from this [of 0] this [of "Suc _"] show "drop_bit (Suc k) x = drop_bit (Suc k) y \<and> bit x k = bit y k"
    by (auto simp: bit_eq_iff bit_drop_bit_eq)
next
  assume R: "drop_bit (Suc k) x = drop_bit (Suc k) y \<and> bit x k = bit y k"
  have "bit x (k + n) = bit y (k + n)" for n
  proof (cases n)
    case (Suc m)
    from R have "bit x (Suc k + m) = bit y (Suc k + m)" by (metis bit_drop_bit_eq comp_apply)
    with Suc show ?thesis by simp
  qed (use R in simp)
  then show "drop_bit k x = drop_bit k y" by (auto simp: bit_eq_iff bit_drop_bit_eq)
qed

lemma block_Suc_eq:
  assumes "b \<le> 31"
  shows "block (b + 1) x = block (b + 1) y \<longleftrightarrow> block b x = block b y \<and> bit x (31 - b) = bit y (31 - b)"
proof -
  have "32 - b = Suc (31 - b)" "32 - (b + 1) = 31 - b" using assms by simp_all
  moreover have "block c x = block c y \<longleftrightarrow> drop_bit (32 - c) x = drop_bit (32 - c) y" for c
    by (simp add: block_def drop_bit_eq_iff)
  ultimately show ?thesis using drop_bit_Suc_eq [of "31 - b" x y] by simp
qed

lemma second_child:
  assumes "net_of b w = w" and "b \<le> 31"
  shows "bit (w OR push_bit (31 - b) 1) (31 - b)" "\<not> bit w (31 - b)" "block b (w OR push_bit (31 - b) 1) = block b (w :: 32 word)"
proof -
  have "31 - b < (32 :: nat)" by simp
  then show "bit (w OR push_bit (31 - b) 1) (31 - b)"
    using assms by (simp add: bit_or_iff push_bit_of_1 bit_exp_iff)
  have "bit (net_of b w) (31 - b) = False" using assms(2) by (auto simp: bit_net_of)
  then show "\<not> bit w (31 - b)" using assms(1) by simp
  have "drop_bit (32 - b) (w OR push_bit (31 - b) 1) = drop_bit (32 - b) w"
  proof (rule bit_eqI)
    fix n
    have "31 - b \<noteq> 32 - b + n" using assms(2) by simp
    then show "bit (drop_bit (32 - b) (w OR push_bit (31 - b) 1)) n = bit (drop_bit (32 - b) w) n"
      by (simp add: bit_drop_bit_eq bit_or_iff push_bit_of_1 bit_exp_iff)
  qed
  then show "block b (w OR push_bit (31 - b) 1) = block b w" unfolding block_def drop_bit_eq_iff .
qed

section \<open>Properties\<close>

lemma compile_accepts_iff: "(\<exists>plan. compile input = Inr plan) \<longleftrightarrow> length input \<le> 256 \<and> consistent input"
proof -
  have "\<exists>plan. compile input = Inr plan" if "length input \<le> 256" "consistent input"
  proof -
    from that(2) compile_loop(1) obtain prefixes sessions routes
      where "foldr_res compile_intent ([], [], []) input = Inr (prefixes, sessions, routes)" by (metis prod_cases3)
    with that(1) show ?thesis by (simp add: compile_def Let_def)
  qed
  then show ?thesis by (auto simp: compile_iff)
qed

lemma compile_sessions:
  assumes "compile input = Inr plan"
  shows "map_of (dp_sessions plan) hop = Some t \<longleftrightarrow> (\<exists>r\<in>set input. hop \<in> set (in_next_hops r) \<and> in_bfd r = t)"
proof -
  from assms obtain prefixes routes where "foldr_res compile_intent ([], [], []) input = Inr (prefixes, dp_sessions plan, routes)"
    by (auto simp: compile_iff)
  from compile_loop(2) [OF this] show ?thesis by blast
qed

text \<open>Two intents in destinations and hops of the test network.\<close>

definition ex_intent :: intent where
  "ex_intent = \<lparr>in_cidr = v4_prefix_str 0x0A010000 24, in_next_hops = [v4_str 0x0A020002, v4_str 0x0A020001],
     in_bfd = \<lparr>db_min_rx = 100, db_min_tx = 100, db_multiplier = 3\<rparr>, in_selection_fields = [''ip_src'', ''ip_dst'']\<rparr>"

lemma ex_dest: "usable_dest 0x0A010000 24"
  by (simp add: usable_dest_def v4_classes)

lemma ex_pfx: "pfx ex_intent = Prefix (V4 0x0A010000) 24" "is_ok (dest_prefix (in_cidr ex_intent))"
proof -
  have "dest_prefix (in_cidr ex_intent) = Inr (Prefix (V4 0x0A010000) 24)"
    unfolding dest_prefix_iff using ex_dest by (intro exI [of _ "0x0A010000"] exI [of _ 24]) (simp add: ex_intent_def)
  then show "pfx ex_intent = Prefix (V4 0x0A010000) 24" "is_ok (dest_prefix (in_cidr ex_intent))"
    by (simp_all add: pfx_def is_ok_def)
qed

lemma ex_intent_ok: "intent_ok ex_intent"
  using ex_pfx(2) unfolding intent_ok_def ex_pfx(1)
  by (simp add: ex_intent_def hop_ok_def contains_V4 block_def v4_classes bfd_timers_ok_def allowed_fields_def)

lemma ex_compile: "\<exists>plan. compile [ex_intent] = Inr plan"
  using ex_intent_ok by (simp add: compile_accepts_iff consistent_def)

text \<open>
  The compiler accepts an input exactly when it has at most 256 intents, each of them valid on its
  own, no two destinations share an address, and a next hop that two intents share has the same timers.
\<close>

theorem compile_accepts:
  "(\<exists>plan. compile input = Inr plan) \<longleftrightarrow> length input \<le> 256 \<and> list_all intent_ok input \<and> sorted_wrt compatible input"
  unfolding compile_accepts_iff consistent_def ..

text \<open>
  Two lists of intents ask for the same when they differ only in the order of the intents, of the hops
  inside them and of the selection fields; two plans are the same when they have the same routes in the
  same order, the same hash and the same session of every next hop.
\<close>

definition same_intent :: "intent \<Rightarrow> intent \<Rightarrow> bool" where
  "same_intent r q \<longleftrightarrow> in_cidr r = in_cidr q \<and> in_bfd r = in_bfd q \<and> mset (in_next_hops r) = mset (in_next_hops q)
     \<and> mset (in_selection_fields r) = mset (in_selection_fields q)"

definition reordered :: "intent list \<Rightarrow> intent list \<Rightarrow> bool" where
  "reordered xs ys \<longleftrightarrow> (\<exists>zs. mset zs = mset xs \<and> list_all2 same_intent zs ys)"

definition same_plan :: "dest_plan \<Rightarrow> dest_plan \<Rightarrow> bool" where
  "same_plan p q \<longleftrightarrow> dp_routes p = dp_routes q \<and> dp_hash p = dp_hash q \<and> map_of (dp_sessions p) = map_of (dp_sessions q)"

lemma same_intent_canonical: "same_intent r q \<Longrightarrow> canonical r = canonical q"
  by (rule intent.equality) (auto simp: same_intent_def canonical_def intro: sort_strings_cong)

lemma canonical_same [simp]: "same_intent r (canonical r)"
  by (simp add: same_intent_def canonical_def sort_strings_def)

lemma mset_image_list: "mset ys = image_mset f M \<Longrightarrow> \<exists>zs. mset zs = M \<and> map f zs = ys"
proof (induction ys arbitrary: M)
  case (Cons y ys)
  have "image_mset f M = add_mset y (mset ys)" by (simp only: Cons.prems [symmetric] mset.simps)
  from msed_map_invR [OF this] obtain N x where M: "M = add_mset x N" "f x = y" "image_mset f N = mset ys" by blast
  from Cons.IH [OF M(3) [symmetric]] obtain zs where "mset zs = N" "map f zs = ys" by blast
  with M show ?case by (intro exI [of _ "x # zs"]) simp
qed simp

lemma reordered_iff: "reordered xs ys \<longleftrightarrow> mset (map canonical xs) = mset (map canonical ys)" if "map canonical ys = ys"
proof
  assume "reordered xs ys"
  then obtain zs where z: "mset zs = mset xs" "list_all2 same_intent zs ys" by (auto simp: reordered_def)
  from z(2) have "map canonical zs = map canonical ys" by induction (simp_all add: same_intent_canonical)
  with z(1) show "mset (map canonical xs) = mset (map canonical ys)" by (metis mset_map)
next
  assume "mset (map canonical xs) = mset (map canonical ys)"
  then have "mset ys = image_mset canonical (mset xs)" using that by simp
  from mset_image_list [OF this] show "reordered xs ys"
    by (auto simp: reordered_def list_all2_map2 list.rel_refl)
qed

lemma reordered_mset: "reordered xs ys \<Longrightarrow> mset (map canonical ys) = mset (map canonical xs)"
proof -
  assume "reordered xs ys"
  then obtain zs where z: "mset zs = mset xs" "list_all2 same_intent zs ys" by (auto simp: reordered_def)
  from z(2) have "map canonical zs = map canonical ys" by induction (simp_all add: same_intent_canonical)
  with z(1) show ?thesis by (metis mset_map)
qed

lemma compile_routes:
  assumes "compile xs = Inr plan"
  shows "map canonical (dp_routes plan) = dp_routes plan" and "mset (dp_routes plan) = mset (map canonical xs)"
proof -
  have r: "dp_routes plan = sort_slice in_cidr (map canonical xs)" using assms by (simp add: compile_iff)
  then show "mset (dp_routes plan) = mset (map canonical xs)" by simp
  have "canonical r = r" if "r \<in> set (dp_routes plan)" for r using that unfolding r by auto
  then show "map canonical (dp_routes plan) = dp_routes plan" by (simp add: map_idI)
qed

lemma compile_reordered:
  assumes "compile xs = Inr plan" and "mset (map canonical ys) = mset (map canonical xs)"
  shows "\<exists>plan'. compile ys = Inr plan' \<and> same_plan plan' plan"
proof -
  have c: "consistent ys" "consistent xs"
    using assms(1) consistent_mset [OF assms(2)] unfolding consistent_canonical compile_iff by blast+
  moreover have "length ys \<le> 256"
    using mset_eq_length [OF assms(2)] assms(1) by (simp add: compile_iff)
  ultimately obtain plan' where p: "compile ys = Inr plan'" using compile_accepts_iff by blast
  have r: "dp_routes plan' = dp_routes plan"
    using p assms(1) sort_routes_mset [OF c(1) assms(2)] unfolding compile_iff by metis
  have "(\<exists>q\<in>set ys. hop \<in> set (in_next_hops q) \<and> in_bfd q = t) \<longleftrightarrow> (\<exists>q\<in>set xs. hop \<in> set (in_next_hops q) \<and> in_bfd q = t)" for hop t
  proof -
    have e: "(\<exists>q\<in>set zs. hop \<in> set (in_next_hops q) \<and> in_bfd q = t)
        \<longleftrightarrow> (\<exists>q\<in>set (map canonical zs). hop \<in> set (in_next_hops q) \<and> in_bfd q = t)" for zs by auto
    show ?thesis unfolding e [of ys] e [of xs] mset_eq_setD [OF assms(2)] ..
  qed
  then have "map_of (dp_sessions plan') hop = Some t \<longleftrightarrow> map_of (dp_sessions plan) hop = Some t" for hop t
    using compile_sessions [OF p] compile_sessions [OF assms(1)] by simp
  then have "map_of (dp_sessions plan') = map_of (dp_sessions plan)"
    by (intro ext) (metis not_Some_eq)
  with p r assms(1) show ?thesis by (auto simp: compile_iff same_plan_def)
qed

text \<open>
  C39: the plan of an accepted input lists every intent of it once and nothing else, in the order of the
  destinations and with the next hops and selection fields of each intent sorted, and its hash is the hash
  of that list. The plan does not depend on the order of the intents nor on the order of the next hops and
  selection fields inside them: the routes, the hash and the sessions are the same for every reordering of
  the input, and compiling the routes of a plan gives that plan again.
\<close>

theorem compile_canonical:
  assumes "compile xs = Inr plan" and "reordered xs ys"
  shows "reordered xs (dp_routes plan) \<and> sorted (map in_cidr (dp_routes plan))
    \<and> list_all (\<lambda>r. sorted (in_next_hops r) \<and> sorted (in_selection_fields r)) (dp_routes plan)
    \<and> dp_hash plan = routes_hash (dp_routes plan)
    \<and> (\<exists>plan'. compile ys = Inr plan' \<and> same_plan plan' plan)
    \<and> (\<exists>plan'. compile (dp_routes plan) = Inr plan' \<and> same_plan plan' plan)"
proof (intro conjI)
  note r = compile_routes [OF assms(1)]
  show "reordered xs (dp_routes plan)" using r by (simp add: reordered_iff)
  show "sorted (map in_cidr (dp_routes plan))" "dp_hash plan = routes_hash (dp_routes plan)"
    using assms(1) by (simp_all add: compile_iff)
  have "sorted (in_next_hops r) \<and> sorted (in_selection_fields r)" if "r \<in> set (map canonical (dp_routes plan))" for r
    using that by (auto simp: canonical_def sort_strings_def)
  then show "list_all (\<lambda>r. sorted (in_next_hops r) \<and> sorted (in_selection_fields r)) (dp_routes plan)"
    unfolding r(1) by (simp add: list_all_iff)
  show "\<exists>plan'. compile ys = Inr plan' \<and> same_plan plan' plan"
    by (rule compile_reordered [OF assms(1) reordered_mset [OF assms(2)]])
  show "\<exists>plan'. compile (dp_routes plan) = Inr plan' \<and> same_plan plan' plan"
    by (rule compile_reordered [OF assms(1)]) (simp only: r)
qed

theorem compile_canonical_witness:
  "\<exists>plan plan'. compile [ex_intent] = Inr plan
    \<and> compile [ex_intent\<lparr>in_next_hops := rev (in_next_hops ex_intent), in_selection_fields := rev (in_selection_fields ex_intent)\<rparr>] = Inr plan'
    \<and> same_plan plan' plan \<and> length (dp_routes plan) = 1"
proof -
  let ?rev = "ex_intent\<lparr>in_next_hops := rev (in_next_hops ex_intent), in_selection_fields := rev (in_selection_fields ex_intent)\<rparr>"
  obtain plan where p: "compile [ex_intent] = Inr plan" using ex_compile by blast
  have "reordered [ex_intent] [?rev]" by (auto simp: reordered_def same_intent_def intro!: exI [of _ "[ex_intent]"])
  from compile_canonical [OF p this] p show ?thesis
    by (auto simp: reordered_def dest!: list_all2_lengthD)
qed

text \<open>
  C40: the two children of a destination are one bit longer, no address lies in both, and an address lies
  in the destination exactly when it lies in one of them.
\<close>

theorem children_partition:
  assumes "dest_prefix cidr = Inr p" and "children cidr = Some (first, second)"
  shows "\<exists>l r. parse_prefix first = Some l \<and> parse_prefix second = Some r \<and> p_bits l = p_bits p + 1 \<and> p_bits r = p_bits p + 1
    \<and> \<not> overlaps l r \<and> (\<forall>a. contains p a \<longleftrightarrow> contains l a \<or> contains r a)"
proof -
  from assms(1) obtain w b where p: "p = Prefix (V4 w) (int b)" and cidr: "cidr = v4_prefix_str w b" and u: "usable_dest w b"
    by (auto simp: dest_prefix_iff)
  define s where "s = w OR push_bit (31 - b) 1"
  have fs: "first = v4_prefix_str w (b + 1)" "second = v4_prefix_str s (b + 1)"
    using assms(2) children_usable [OF u] by (simp_all add: cidr s_def)
  have b: "b \<le> 31" "net_of b w = w" using u by (simp_all add: usable_dest_def)
  note c = second_child [OF b(2,1), folded s_def]
  let ?l = "Prefix (V4 w) (int (b + 1))" and ?r = "Prefix (V4 s) (int (b + 1))"
  have k: "contains (Prefix (V4 y) (int (b + 1))) (V4 x) \<longleftrightarrow> block (b + 1) y = block (b + 1) x" for x y
    using contains_V4 [of "int (b + 1)" y x] by (simp only: nat_int of_nat_0_le_iff)
  have l: "contains ?l (V4 x) \<longleftrightarrow> block b w = block b x \<and> \<not> bit x (31 - b)" for x
    unfolding k block_Suc_eq [OF b(1)] using c(2) by simp
  have r: "contains ?r (V4 x) \<longleftrightarrow> block b w = block b x \<and> bit x (31 - b)" for x
    unfolding k block_Suc_eq [OF b(1)] using c(1,3) by simp
  have "contains p a \<longleftrightarrow> contains ?l a \<or> contains ?r a" for a
  proof (cases a)
    case (V4 x)
    then show ?thesis using l [of x] r [of x] by (auto simp: p contains_V4)
  qed (use contains_imp_V4 p in blast)+
  moreover have "\<not> overlaps ?l ?r"
  proof
    assume "overlaps ?l ?r"
    with overlaps_V4_iff [of "int (b + 1)" "int (b + 1)" w s] b(1) obtain a where "contains ?l a" "contains ?r a" by auto
    moreover from this(1) obtain x where "a = V4 x" using contains_imp_V4 by blast
    ultimately show False using l r by blast
  qed
  moreover have "parse_prefix first = Some ?l" "parse_prefix second = Some ?r"
    using b(1) by (simp_all add: fs)
  ultimately show ?thesis by (intro exI [of _ ?l] exI [of _ ?r]) (simp add: p)
qed

theorem children_partition_witness:
  "\<exists>l r. parse_prefix (v4_prefix_str 0x0A010000 25) = Some l \<and> parse_prefix (v4_prefix_str 0x0A010080 25) = Some r
    \<and> \<not> overlaps l r \<and> (\<forall>a. contains (Prefix (V4 0x0A010000) 24) a \<longleftrightarrow> contains l a \<or> contains r a)"
proof -
  have "dest_prefix (v4_prefix_str 0x0A010000 24) = Inr (Prefix (V4 0x0A010000) 24)"
    unfolding dest_prefix_iff using ex_dest by (intro exI [of _ "0x0A010000"] exI [of _ 24]) simp
  moreover have "children (v4_prefix_str 0x0A010000 24) = Some (v4_prefix_str 0x0A010000 25, v4_prefix_str 0x0A010080 25)"
    using children_usable [OF ex_dest] by simp
  ultimately show ?thesis using children_partition by blast
qed

end
