(* ===== verification/Go_Struct.thy ===== *)
theory Go_Struct
  imports Go_Json
begin

text \<open>
  \<open>json.Unmarshal\<close> into Go structs and maps. A struct decoder is a list of fields, each with what a
  member of that name does to the value decoded so far: a member matches a field by its exact name,
  otherwise by its name up to case, members without a field are ignored, and a repeated member is
  decoded again on top of the first. \<open>null\<close> leaves a struct or a string as it is and makes a map
  \<open>nil\<close>. Any type mismatch makes the whole call return an error.
\<close>

section \<open>Field names\<close>

definition to_lower :: "char \<Rightarrow> char" where
  "to_lower c = (if 65 \<le> byte c \<and> byte c \<le> 90 then char_of (byte c + 32) else c)"

text \<open>Equality up to simple Unicode folding, for names of ASCII letters: the Kelvin sign folds to
  \<open>k\<close> and the long s to \<open>s\<close>.\<close>

fun fold_name :: "string \<Rightarrow> string" where
  "fold_name [] = []"
| "fold_name (c # s) =
     (if byte c = 226 \<and> map byte (take 2 s) = [132, 170] then CHR ''k'' # fold_name (drop 2 s)
      else if byte c = 197 \<and> map byte (take 1 s) = [191] then CHR ''s'' # fold_name (drop 1 s)
      else to_lower c # fold_name s)"

section \<open>Decoders\<close>

text \<open>A decoder turns a JSON value and the value decoded so far into the new value.\<close>

type_synonym 's decoder = "json \<Rightarrow> 's \<Rightarrow> 's option"

definition find_field :: "(string \<times> 's decoder) list \<Rightarrow> string \<Rightarrow> 's decoder option" where
  "find_field fs key = (case map_of fs key of
      Some d \<Rightarrow> Some d
    | None \<Rightarrow> map_option snd (find (\<lambda>(n, d). fold_name n = fold_name key) fs))"

fun decode_members :: "(string \<times> 's decoder) list \<Rightarrow> (string \<times> json) list \<Rightarrow> 's \<Rightarrow> 's option" where
  "decode_members fs [] s = Some s"
| "decode_members fs ((k, j) # ms) s = (case find_field fs k of
      None \<Rightarrow> decode_members fs ms s
    | Some d \<Rightarrow> (case d j s of None \<Rightarrow> None | Some s' \<Rightarrow> decode_members fs ms s'))"

definition decode_struct :: "(string \<times> 's decoder) list \<Rightarrow> 's decoder" where
  "decode_struct fs j s = (case j of
      JNull \<Rightarrow> Some s
    | JObj ms \<Rightarrow> decode_members fs ms s
    | _ \<Rightarrow> None)"

definition decode_string :: "string decoder" where
  "decode_string j s = (case j of JNull \<Rightarrow> Some s | JStr t \<Rightarrow> Some t | _ \<Rightarrow> None)"

text \<open>A field of a struct: how to read and write it.\<close>

definition field :: "('s \<Rightarrow> 'a) \<Rightarrow> ('a \<Rightarrow> 's \<Rightarrow> 's) \<Rightarrow> 'a decoder \<Rightarrow> 's decoder" where
  "field get put d j s = map_option (\<lambda>a. put a s) (d j (get s))"

text \<open>A Go map with string keys, \<open>None\<close> when it is \<open>nil\<close>: each member is decoded into a zero value.\<close>

fun decode_map_entries :: "'v \<Rightarrow> 'v decoder \<Rightarrow> (string \<times> json) list \<Rightarrow> 'v smap \<Rightarrow> 'v smap option" where
  "decode_map_entries zero d [] m = Some m"
| "decode_map_entries zero d ((k, j) # es) m = (case d j zero of
      None \<Rightarrow> None
    | Some v \<Rightarrow> decode_map_entries zero d es (mput k v m))"

definition decode_map :: "'v \<Rightarrow> 'v decoder \<Rightarrow> 'v smap option decoder" where
  "decode_map zero d j m = (case j of
      JNull \<Rightarrow> Some None
    | JObj es \<Rightarrow> map_option Some (decode_map_entries zero d es (case m of None \<Rightarrow> [] | Some m \<Rightarrow> m))
    | _ \<Rightarrow> None)"

text \<open>The members of a map: none when it is \<open>nil\<close>.\<close>

definition entries :: "'v smap option \<Rightarrow> 'v smap" where
  "entries m = (case m of None \<Rightarrow> [] | Some m \<Rightarrow> m)"

lemma entries_simps [simp]: "entries None = []" "entries (Some m) = m"
  by (simp_all add: entries_def)

definition unmarshal :: "'s decoder \<Rightarrow> string \<Rightarrow> 's \<Rightarrow> 's option" where
  "unmarshal d text zero = (case json_parse text of None \<Rightarrow> None | Some j \<Rightarrow> d j zero)"

section \<open>Decoding numbers, booleans and slices\<close>

definition decode_int :: "int \<Rightarrow> int \<Rightarrow> int decoder" where
  "decode_int lo hi j s = (case j of
      JNull \<Rightarrow> Some s
    | JNum t \<Rightarrow> (case parse_int64 t of None \<Rightarrow> None | Some i \<Rightarrow> if lo \<le> i \<and> i \<le> hi then Some i else None)
    | _ \<Rightarrow> None)"

abbreviation decode_go_int :: "int decoder" where
  "decode_go_int \<equiv> decode_int (- (2 ^ 63)) (2 ^ 63 - 1)"

definition decode_bool :: "bool decoder" where
  "decode_bool j s = (case j of JNull \<Rightarrow> Some s | JBool b \<Rightarrow> Some b | _ \<Rightarrow> None)"

text \<open>An element is decoded on top of the element that was there, or of a zero value.\<close>

fun decode_elements :: "'a \<Rightarrow> 'a decoder \<Rightarrow> json list \<Rightarrow> 'a list \<Rightarrow> 'a list option" where
  "decode_elements zero d [] old = Some []"
| "decode_elements zero d (j # js) old = (case d j (case old of [] \<Rightarrow> zero | x # xs \<Rightarrow> x) of
      None \<Rightarrow> None
    | Some v \<Rightarrow> map_option (\<lambda>vs. v # vs) (decode_elements zero d js (tl old)))"

definition decode_slice :: "'a \<Rightarrow> 'a decoder \<Rightarrow> 'a list decoder" where
  "decode_slice zero d j old = (case j of
      JNull \<Rightarrow> Some [] | JArr js \<Rightarrow> decode_elements zero d js old | _ \<Rightarrow> None)"

section \<open>Invariants of a decoder\<close>

lemma find_field_in: "find_field fs k = Some d \<Longrightarrow> d \<in> snd ` set fs"
  by (auto simp: find_field_def find_Some_iff dest!: map_of_SomeD split: option.splits) (metis nth_mem snd_conv image_eqI)+

lemma decode_struct_invariant:
  assumes "decode_struct fs j s = Some t" and "I s"
    and step: "\<And>d j s t. d \<in> snd ` set fs \<Longrightarrow> d j s = Some t \<Longrightarrow> I s \<Longrightarrow> I t"
  shows "I t"
proof -
  have "decode_members fs ms s = Some t \<Longrightarrow> I s \<Longrightarrow> I t" for ms s
  proof (induction ms arbitrary: s)
    case (Cons e ms)
    obtain k j where e: "e = (k, j)" by (cases e)
    show ?case
    proof (cases "find_field fs k")
      case None
      then show ?thesis using Cons e by simp
    next
      case (Some d)
      with Cons.prems e obtain s' where s': "d j s = Some s'" "decode_members fs ms s' = Some t"
        by (auto split: option.splits)
      with Some Cons.prems(2) have "I s'" using s'(1) by (blast intro: step find_field_in)
      with s'(2) show ?thesis by (rule Cons.IH)
    qed
  qed simp
  with assms(1,2) show ?thesis by (auto simp: decode_struct_def split: json.splits)
qed

section \<open>Reading back what was written\<close>

lemma decode_map_entries_distinct:
  "decode_map_entries zero d es m = Some m' \<Longrightarrow> distinct (map fst m) \<Longrightarrow> distinct (map fst m')"
  by (induction zero d es m rule: decode_map_entries.induct) (auto split: option.splits)

lemma decode_map_distinct:
  "decode_map zero d j m = Some m' \<Longrightarrow> distinct (map fst (entries m)) \<Longrightarrow> distinct (map fst (entries m'))"
  by (cases m) (auto simp: decode_map_def entries_def split: json.splits intro: decode_map_entries_distinct)

lemma decode_map_entries_encoded:
  assumes "\<And>v. v \<in> snd ` set es \<Longrightarrow> d (f v) zero = Some v"
    and "distinct (map fst (m @ es))"
  shows "decode_map_entries zero d (map (\<lambda>(k, v). (k, f v)) es) m = Some (m @ es)"
  using assms
proof (induction es arbitrary: m)
  case (Cons e es)
  obtain k v where e: "e = (k, v)" by (cases e)
  have "k \<notin> fst ` set m" "d (f v) zero = Some v" using Cons.prems e by auto
  moreover from this(1) have "mput k v m = m @ [(k, v)]" by (rule set_mput_new)
  ultimately show ?case using Cons.IH [of "m @ [(k, v)]"] Cons.prems e by simp
qed simp

text \<open>A map written by \<open>json.Marshal\<close> reads back as the map with its keys in order.\<close>

lemma decode_map_json_map:
  assumes "\<And>v. v \<in> snd ` set m \<Longrightarrow> d (f v) zero = Some v" and "distinct (map fst m)"
  shows "decode_map zero d (json_map f m) None = Some (Some (sort_slice fst m))"
proof -
  have "distinct (map fst (sort_slice fst m))" using assms(2)
    by (metis mset_eq_imp_distinct_iff mset_map sort_slice_props(4))
  then have "decode_map_entries zero d (map (\<lambda>(k, v). (k, f v)) (sort_slice fst m)) [] = Some ([] @ sort_slice fst m)"
    using assms(1) by (intro decode_map_entries_encoded) simp_all
  then show ?thesis by (simp add: decode_map_def json_map_def)
qed

lemma map_of_sort_slice [simp]:
  assumes "distinct (map fst m)"
  shows "map_of (sort_slice fst m) = map_of m"
proof -
  have "distinct (map fst (sort_slice fst m))" using assms
    by (metis mset_eq_imp_distinct_iff mset_map sort_slice_props(4))
  with assms show ?thesis by (intro map_of_inject_set [THEN iffD2]) simp_all
qed

lemma plain_json_map:
  "(\<And>k v. (k, v) \<in> set m \<Longrightarrow> ascii k \<and> plain_json (f v)) \<Longrightarrow> plain_json (json_map f m)"
  by (auto simp: json_map_def)

end
