(* ===== verification/Local_Objects.thy ===== *)
theory Local_Objects
  imports Kube_Client Go_Struct Api_V1alpha2
begin

text \<open>
  The objects the operator of one site handles through its own API server: the local copies of the
  location snapshots, ConfigMaps, Pods, Namespaces, and the native objects of Kube-OVN, which the
  code handles as untyped JSON (\<open>unstructured.Unstructured\<close>). The accessors \<open>NestedX\<close> of that
  package return a zero value when a path is missing or holds another type.
\<close>

section \<open>Objects\<close>

text \<open>\<open>un_body\<close> holds the members beside \<open>apiVersion\<close>, \<open>kind\<close> and \<open>metadata\<close>.\<close>

record unstructured =
  un_api_version :: string
  un_kind :: string
  un_meta :: object_meta
  un_body :: "(string \<times> json) list"

record pod =
  pod_meta :: object_meta

datatype lobj =
    LBinding network_binding
  | LMap config_map
  | LNative unstructured
  | LPod pod
  | LNamespace object_meta

fun l_binding :: "lobj \<Rightarrow> network_binding option" where "l_binding (LBinding b) = Some b" | "l_binding _ = None"
fun l_map :: "lobj \<Rightarrow> config_map option" where "l_map (LMap m) = Some m" | "l_map _ = None"
fun l_native :: "lobj \<Rightarrow> unstructured option" where "l_native (LNative o') = Some o'" | "l_native _ = None"
fun l_pod :: "lobj \<Rightarrow> pod option" where "l_pod (LPod p) = Some p" | "l_pod _ = None"
fun l_namespace :: "lobj \<Rightarrow> object_meta option" where "l_namespace (LNamespace m) = Some m" | "l_namespace _ = None"

section \<open>Untyped JSON\<close>

text \<open>The value at a path of member names.\<close>

fun nested :: "(string \<times> json) list \<Rightarrow> string list \<Rightarrow> json option" where
  "nested ms [] = Some (JObj ms)"
| "nested ms (k # ks) = (case map_of ms k of
      None \<Rightarrow> None
    | Some j \<Rightarrow> if ks = [] then Some j else (case j of JObj ms' \<Rightarrow> nested ms' ks | _ \<Rightarrow> None))"

definition nested_slice :: "(string \<times> json) list \<Rightarrow> string list \<Rightarrow> json list" where
  "nested_slice ms ks = (case nested ms ks of Some (JArr js) \<Rightarrow> js | _ \<Rightarrow> [])"

definition nested_map :: "(string \<times> json) list \<Rightarrow> string list \<Rightarrow> (string \<times> json) list option" where
  "nested_map ms ks = (case nested ms ks of Some (JObj ms') \<Rightarrow> Some ms' | _ \<Rightarrow> None)"

definition nested_string :: "(string \<times> json) list \<Rightarrow> string list \<Rightarrow> string" where
  "nested_string ms ks = (case nested ms ks of Some (JStr s) \<Rightarrow> s | _ \<Rightarrow> [])"

text \<open>A slice of strings: any other element makes the whole slice unreadable.\<close>

definition nested_strings :: "(string \<times> json) list \<Rightarrow> string list \<Rightarrow> string list" where
  "nested_strings ms ks = (let js = nested_slice ms ks in
     if list_all (\<lambda>j. case j of JStr _ \<Rightarrow> True | _ \<Rightarrow> False) js
     then map (\<lambda>j. case j of JStr s \<Rightarrow> s | _ \<Rightarrow> []) js else [])"

text \<open>\<open>SetNestedField(obj, v, "spec", k)\<close>.\<close>

definition set_spec :: "string \<Rightarrow> json \<Rightarrow> unstructured \<Rightarrow> unstructured" where
  "set_spec k v x = x\<lparr>un_body := mput ''spec''
     (JObj (mput k v (case nested_map (un_body x) [''spec''] of None \<Rightarrow> [] | Some ms \<Rightarrow> ms))) (un_body x)\<rparr>"

text \<open>Go maps have no order: \<open>reflect.DeepEqual\<close> on decoded JSON compares the members sorted by name.\<close>

primrec sorted_json :: "json \<Rightarrow> json" where
  "sorted_json JNull = JNull"
| "sorted_json (JBool b) = JBool b"
| "sorted_json (JNum n) = JNum n"
| "sorted_json (JStr s) = JStr s"
| "sorted_json (JArr js) = JArr (map sorted_json js)"
| "sorted_json (JObj ms) = JObj (sort_slice fst (map (map_prod id sorted_json) ms))"

definition same_json :: "json \<Rightarrow> json \<Rightarrow> bool" where
  "same_json a b \<longleftrightarrow> sorted_json a = sorted_json b"

text \<open>The \<open>Ready\<close> condition in the status of a native object.\<close>

definition ready_condition :: "json \<Rightarrow> bool" where
  "ready_condition j = (case j of JObj c \<Rightarrow> map_of c ''type'' = Some (JStr ''Ready'') \<and> map_of c ''status'' = Some (JStr ''True'') | _ \<Rightarrow> False)"

definition shows_ready :: "unstructured \<Rightarrow> bool" where
  "shows_ready x = list_ex ready_condition (nested_slice (un_body x) [''status'', ''conditions''])"

lemma same_json_refl [simp]: "same_json a a"
  by (simp add: same_json_def)

lemma nested_set_spec [simp]: "nested (un_body (set_spec k v x)) [''spec'', k'] =
  (if k' = k then Some v else nested (un_body x) [''spec'', k'])"
  by (auto simp: set_spec_def nested_map_def split: option.splits json.splits)

end
