(* ===== verification/Local_Allocation.thy ===== *)
theory Local_Allocation
  imports Local_Objects Local_Config Go_Sha256
begin

text \<open>
  \<open>internal/localcontroller/allocation.go\<close>: the ledger of transit networks and BFD source addresses of
  one site. Reservations are kept for ever in one ConfigMap, whose identity an immutable anchor and a
  receipt on every snapshot repeat. The first part is the ledger as data: its text, the integrity
  check and the first-fit search. \<open>local_allocate\<close> is the tree of API calls of \<open>allocate\<close>; what is
  proved of it holds for every answer of the API server.
\<close>

section \<open>Constants and data\<close>

definition allocation_ledger_name :: string where
  "allocation_ledger_name = ''managed-network-allocations''"
definition allocation_identity_name :: string where
  "allocation_identity_name = ''managed-network-allocation-identity''"
definition allocation_label :: string where
  "allocation_label = ''platform.globalvpc.io/allocator''"
definition allocation_digest_annotation :: string where
  "allocation_digest_annotation = ''platform.globalvpc.io/allocation-digest''"
definition allocation_receipt_annotation :: string where
  "allocation_receipt_annotation = ''platform.globalvpc.io/allocation-receipt''"
definition source_uid_annotation :: string where
  "source_uid_annotation = ''platform.globalvpc.io/source-binding-uid''"

record net_allocation =
  na_transit_cidr :: string
  na_router_ip :: string
  na_bfd_source_ip :: string

text \<open>A map of the ledger is \<open>None\<close> when it is \<open>nil\<close>.\<close>

record allocator_state =
  as_cluster_uid :: string
  as_allocations :: "net_allocation smap option"
  as_binding_uids :: "string smap option"

record allocation_receipt =
  rc_cluster_uid :: string
  rc_source_uid :: string
  rc_binding_uid :: string
  rc_ledger_uid :: string
  rc_allocation :: net_allocation

definition no_allocation :: net_allocation where
  "no_allocation = \<lparr>na_transit_cidr = [], na_router_ip = [], na_bfd_source_ip = []\<rparr>"

definition no_state :: allocator_state where
  "no_state = \<lparr>as_cluster_uid = [], as_allocations = None, as_binding_uids = None\<rparr>"

definition no_receipt :: allocation_receipt where
  "no_receipt = \<lparr>rc_cluster_uid = [], rc_source_uid = [], rc_binding_uid = [], rc_ledger_uid = [], rc_allocation = no_allocation\<rparr>"

section \<open>JSON\<close>

definition allocation_json :: "net_allocation \<Rightarrow> json" where
  "allocation_json a = JObj [(''transitCIDR'', JStr (na_transit_cidr a)), (''routerIP'', JStr (na_router_ip a)),
     (''bfdSourceIP'', JStr (na_bfd_source_ip a))]"

definition map_or_null :: "('v \<Rightarrow> json) \<Rightarrow> 'v smap option \<Rightarrow> json" where
  "map_or_null f m = (case m of None \<Rightarrow> JNull | Some m \<Rightarrow> json_map f m)"

definition state_json :: "allocator_state \<Rightarrow> json" where
  "state_json s = JObj [(''clusterUID'', JStr (as_cluster_uid s)), (''allocations'', map_or_null allocation_json (as_allocations s)),
     (''bindingUIDs'', map_or_null JStr (as_binding_uids s))]"

definition receipt_json :: "allocation_receipt \<Rightarrow> json" where
  "receipt_json r = JObj [(''clusterUID'', JStr (rc_cluster_uid r)), (''sourceUID'', JStr (rc_source_uid r)),
     (''bindingUID'', JStr (rc_binding_uid r)), (''ledgerUID'', JStr (rc_ledger_uid r)), (''allocation'', allocation_json (rc_allocation r))]"

definition decode_allocation :: "net_allocation decoder" where
  "decode_allocation = decode_struct
     [(''transitCIDR'', field na_transit_cidr (\<lambda>x a. a\<lparr>na_transit_cidr := x\<rparr>) decode_string),
      (''routerIP'', field na_router_ip (\<lambda>x a. a\<lparr>na_router_ip := x\<rparr>) decode_string),
      (''bfdSourceIP'', field na_bfd_source_ip (\<lambda>x a. a\<lparr>na_bfd_source_ip := x\<rparr>) decode_string)]"

definition decode_state :: "allocator_state decoder" where
  "decode_state = decode_struct
     [(''clusterUID'', field as_cluster_uid (\<lambda>x s. s\<lparr>as_cluster_uid := x\<rparr>) decode_string),
      (''allocations'', field as_allocations (\<lambda>x s. s\<lparr>as_allocations := x\<rparr>) (decode_map no_allocation decode_allocation)),
      (''bindingUIDs'', field as_binding_uids (\<lambda>x s. s\<lparr>as_binding_uids := x\<rparr>) (decode_map [] decode_string))]"

definition decode_receipt :: "allocation_receipt decoder" where
  "decode_receipt = decode_struct
     [(''clusterUID'', field rc_cluster_uid (\<lambda>x r. r\<lparr>rc_cluster_uid := x\<rparr>) decode_string),
      (''sourceUID'', field rc_source_uid (\<lambda>x r. r\<lparr>rc_source_uid := x\<rparr>) decode_string),
      (''bindingUID'', field rc_binding_uid (\<lambda>x r. r\<lparr>rc_binding_uid := x\<rparr>) decode_string),
      (''ledgerUID'', field rc_ledger_uid (\<lambda>x r. r\<lparr>rc_ledger_uid := x\<rparr>) decode_string),
      (''allocation'', field rc_allocation (\<lambda>x r. r\<lparr>rc_allocation := x\<rparr>) decode_allocation)]"

section \<open>The ledger\<close>

definition ip_at :: "prefix \<Rightarrow> u32 \<Rightarrow> addr" where
  "ip_at p index = (case p_addr p of V4 w \<Rightarrow> V4 (w + index) | a \<Rightarrow> a)"

definition allocation_digest :: "string \<Rightarrow> string" where
  "allocation_digest raw = sha256_hex raw"

definition write_allocation_state :: "config_map \<Rightarrow> allocator_state \<Rightarrow> config_map" where
  "write_allocation_state cm s = (let text = json_enc (state_json s) in
     cm\<lparr>cm_data := [(''state.json'', text)],
        cm_meta := (cm_meta cm)\<lparr>om_annotations := mput allocation_digest_annotation (allocation_digest text) (om_annotations (cm_meta cm))\<rparr>\<rparr>)"

definition pool_of :: "string \<Rightarrow> prefix" where
  "pool_of raw = (case site_prefix raw of Inl e \<Rightarrow> prefix_zero | Inr p \<Rightarrow> p)"

definition prefix_end :: "prefix \<Rightarrow> addr" where
  "prefix_end p = (case p_addr p of V4 w \<Rightarrow> V4 (last_address w (nat (p_bits p))) | a \<Rightarrow> a)"

definition corrupt_msg :: string where
  "corrupt_msg = ''local allocation ledger is corrupt or belongs to another cluster; fenced recovery required''"

definition invalid_msg :: string where
  "invalid_msg = ''retained local allocation is invalid, duplicated or outside installed pools; fenced recovery required''"

definition prefix_text :: "prefix \<Rightarrow> string" where
  "prefix_text p = addr_text (p_addr p) @ ''/'' @ int_str (p_bits p)"

text \<open>One retained allocation, against the networks, addresses and UIDs used so far.\<close>

type_synonym used = "string list \<times> string list \<times> string list"

definition check_retained :: "local_config \<Rightarrow> string smap \<Rightarrow> used \<Rightarrow> string \<times> net_allocation \<Rightarrow> used res" where
  "check_retained cfg uids st e = (case st of (transits, bfds, seen) \<Rightarrow> case e of (owner, a) \<Rightarrow>
     let pool = pool_of (lc_transit_pool cfg); uid = mget uids owner in
     (case site_prefix (na_transit_cidr a) of
        Inl e \<Rightarrow> Inl invalid_msg
      | Inr p \<Rightarrow>
          if owner = [] \<or> uid = [] \<or> uid \<in> set seen \<or> \<not> is_ok (site_host (na_bfd_source_ip a) (pool_of (lc_bfd_source_pool cfg)))
             \<or> p_bits p \<noteq> lc_transit_prefix_length cfg \<or> \<not> contains pool (p_addr p) \<or> \<not> contains pool (prefix_end p)
             \<or> na_router_ip a \<noteq> addr_text (addr_next (p_addr p))
             \<or> na_transit_cidr a \<in> set transits \<or> na_bfd_source_ip a \<in> set bfds
          then Inl invalid_msg
          else Inr (na_transit_cidr a # transits, na_bfd_source_ip a # bfds, uid # seen)))"

text \<open>A ledger that passes: the UIDs and reservations that are in force.\<close>

record ledger =
  lg_allocations :: "net_allocation smap"
  lg_uids :: "string smap"

definition read_allocation_state :: "config_map \<Rightarrow> local_config \<Rightarrow> ledger res" where
  "read_allocation_state cm cfg =
     (let raw = mget (cm_data cm) ''state.json'' in
      if om_uid (cm_meta cm) = [] \<or> mget (om_labels (cm_meta cm)) allocation_label \<noteq> ''true''
         \<or> mget (om_annotations (cm_meta cm)) allocation_digest_annotation \<noteq> allocation_digest raw
      then Inl corrupt_msg
      else (case unmarshal decode_state raw no_state of
          None \<Rightarrow> Inl corrupt_msg
        | Some s \<Rightarrow>
            if as_cluster_uid s \<noteq> lc_cluster_uid cfg then Inl corrupt_msg
            else (case (as_allocations s, as_binding_uids s) of
                (Some allocations, Some uids) \<Rightarrow>
                  if length allocations \<noteq> length uids then Inl corrupt_msg
                  else rbind (foldr_res (check_retained cfg uids) ([], [], []) allocations) (\<lambda>_.
                       Inr \<lparr>lg_allocations = allocations, lg_uids = uids\<rparr>)
              | _ \<Rightarrow> Inl corrupt_msg)))"

definition state_of :: "local_config \<Rightarrow> ledger \<Rightarrow> allocator_state" where
  "state_of cfg l = \<lparr>as_cluster_uid = lc_cluster_uid cfg, as_allocations = Some (lg_allocations l), as_binding_uids = Some (lg_uids l)\<rparr>"

section \<open>Receipts\<close>

definition receipt_msg :: string where
  "receipt_msg = ''local allocation receipt does not match retained ledger; fenced recovery required''"

definition receipt_of :: "local_config \<Rightarrow> string \<Rightarrow> network_binding \<Rightarrow> config_map \<Rightarrow> net_allocation \<Rightarrow> allocation_receipt" where
  "receipt_of cfg owner b cm a = \<lparr>rc_cluster_uid = lc_cluster_uid cfg, rc_source_uid = owner, rc_binding_uid = om_uid (nb_meta b),
     rc_ledger_uid = om_uid (cm_meta cm), rc_allocation = a\<rparr>"

definition check_receipt :: "local_config \<Rightarrow> config_map \<Rightarrow> ledger \<Rightarrow> network_binding \<Rightarrow> unit res" where
  "check_receipt cfg cm l b =
     (let raw = mget (om_annotations (nb_meta b)) allocation_receipt_annotation;
          owner = mget (om_annotations (nb_meta b)) source_uid_annotation in
      if raw = [] then Inr ()
      else (case (unmarshal decode_receipt raw no_receipt, map_of (lg_allocations l) owner) of
          (Some r, Some a) \<Rightarrow> guard (r = receipt_of cfg owner b cm a \<and> mget (lg_uids l) owner = om_uid (nb_meta b)) receipt_msg
        | _ \<Rightarrow> Inl receipt_msg))"

definition validate_allocation_receipts :: "local_config \<Rightarrow> network_binding list \<Rightarrow> config_map \<Rightarrow> ledger \<Rightarrow> unit res" where
  "validate_allocation_receipts cfg bindings cm l = each_res (check_receipt cfg cm l) bindings"

definition bootstrap_allocation_evidence :: "network_binding list \<Rightarrow> bool" where
  "bootstrap_allocation_evidence bindings \<longleftrightarrow> list_ex (\<lambda>b.
     mget (om_annotations (nb_meta b)) allocation_receipt_annotation \<noteq> [] \<or> bst_resources (nb_status b) \<noteq> []
     \<or> bst_gateways (nb_status b) \<noteq> [] \<or> bst_applied_revision (nb_status b) \<noteq> []) bindings"

section \<open>First fit\<close>

definition transit_candidate :: "prefix \<Rightarrow> nat \<Rightarrow> nat \<Rightarrow> prefix" where
  "transit_candidate pool len i = Prefix (ip_at pool (push_bit (32 - len) (of_nat i))) (int len)"

definition free_transit :: "prefix \<Rightarrow> nat \<Rightarrow> string list \<Rightarrow> prefix option" where
  "free_transit pool len taken = map_option (transit_candidate pool len)
     (find (\<lambda>i. prefix_text (transit_candidate pool len i) \<notin> set taken) [0..<2 ^ (len - nat (p_bits pool))])"

definition free_bfd :: "prefix \<Rightarrow> string list \<Rightarrow> addr option" where
  "free_bfd pool taken = map_option (\<lambda>i. ip_at pool (of_nat i))
     (find (\<lambda>i. addr_text (ip_at pool (of_nat i)) \<notin> set taken) [1..<2 ^ (32 - nat (p_bits pool)) - 1])"

definition exhausted_msg :: string where
  "exhausted_msg = ''reserved local network pool exhausted; retained allocations are not automatically reused''"

text \<open>The reservation for a new owner, and the ledger with it.\<close>

definition reserve :: "local_config \<Rightarrow> ledger \<Rightarrow> string \<Rightarrow> string \<Rightarrow> (net_allocation \<times> ledger) res" where
  "reserve cfg l owner uid =
     (if uid \<in> snd ` set (lg_uids l) then Inl ''local binding source identity changed for retained allocation; fenced recovery required''
      else
        let retained = map snd (lg_allocations l) in
        (case (free_transit (pool_of (lc_transit_pool cfg)) (nat (lc_transit_prefix_length cfg)) (map na_transit_cidr retained),
               free_bfd (pool_of (lc_bfd_source_pool cfg)) (map na_bfd_source_ip retained)) of
           (Some p, Some x) \<Rightarrow>
             let a = \<lparr>na_transit_cidr = prefix_text p, na_router_ip = addr_text (addr_next (p_addr p)), na_bfd_source_ip = addr_text x\<rparr>
             in Inr (a, \<lparr>lg_allocations = mput owner a (lg_allocations l), lg_uids = mput owner uid (lg_uids l)\<rparr>)
         | _ \<Rightarrow> Inl exhausted_msg))"

section \<open>The allocation\<close>

definition ledger_map :: "local_config \<Rightarrow> config_map" where
  "ledger_map cfg = write_allocation_state \<lparr>cm_meta = empty_meta\<lparr>om_name := allocation_ledger_name, om_namespace := lc_namespace cfg,
       om_labels := [(allocation_label, ''true'')]\<rparr>, cm_data = [], cm_immutable = None\<rparr>
     \<lparr>as_cluster_uid = lc_cluster_uid cfg, as_allocations = Some [], as_binding_uids = Some []\<rparr>"

definition identity_map :: "local_config \<Rightarrow> config_map \<Rightarrow> config_map" where
  "identity_map cfg cm = \<lparr>cm_meta = empty_meta\<lparr>om_name := allocation_identity_name, om_namespace := lc_namespace cfg,
       om_labels := [(allocation_label, ''identity'')]\<rparr>,
     cm_data = [(''clusterUID'', lc_cluster_uid cfg), (''ledgerUID'', om_uid (cm_meta cm))], cm_immutable = Some True\<rparr>"

definition identity_ok :: "local_config \<Rightarrow> config_map \<Rightarrow> config_map \<Rightarrow> bool" where
  "identity_ok cfg cm i \<longleftrightarrow> om_uid (cm_meta i) \<noteq> [] \<and> cm_immutable i = Some True
     \<and> mget (om_labels (cm_meta i)) allocation_label = ''identity''
     \<and> mget (cm_data i) ''clusterUID'' = lc_cluster_uid cfg \<and> mget (cm_data i) ''ledgerUID'' = om_uid (cm_meta cm)"

definition same_binding :: "network_binding \<Rightarrow> string \<Rightarrow> network_binding \<Rightarrow> bool" where
  "same_binding b owner c \<longleftrightarrow> om_name (nb_meta c) = om_name (nb_meta b) \<and> om_uid (nb_meta c) = om_uid (nb_meta b)
     \<and> mget (om_annotations (nb_meta c)) source_uid_annotation = owner"

text \<open>The ledger, created empty in a fresh installation.\<close>

definition read_ledger :: "local_config \<Rightarrow> network_binding list \<Rightarrow> bool \<Rightarrow> (lobj, err + config_map) kprog" where
  "read_ledger cfg bindings has_identity =
     pbind (kget l_map ''ConfigMap'' (lc_namespace cfg) allocation_ledger_name) (\<lambda>x. case x of
       Inr cm \<Rightarrow> go cm
     | Inl e \<Rightarrow>
         if is_not_found e then
           (if has_identity \<or> bootstrap_allocation_evidence bindings
            then leave (Errorf ''local allocation ledger is missing beside retained identity or receipts; fenced recovery required'')
            else kwrite l_map (Create (LMap (ledger_map cfg))))
         else leave e)"

text \<open>The anchor, created only beside a ledger that is still empty.\<close>

definition read_identity :: "local_config \<Rightarrow> network_binding list \<Rightarrow> config_map option \<Rightarrow> config_map \<Rightarrow> ledger \<Rightarrow> (lobj, err + config_map) kprog" where
  "read_identity cfg bindings found cm l = (case found of
      Some i \<Rightarrow> go i
    | None \<Rightarrow>
        if lg_allocations l \<noteq> [] \<or> bootstrap_allocation_evidence bindings
        then leave (Errorf ''local allocation identity is missing beside retained state; fenced recovery required'')
        else kwrite l_map (Create (LMap (identity_map cfg cm))))"

text \<open>The reservation of the owner: the retained one, or a new one once the ledger is written.\<close>

definition commit_reservation :: "local_config \<Rightarrow> config_map \<Rightarrow> ledger \<Rightarrow> string \<Rightarrow> network_binding \<Rightarrow> (lobj, err + (net_allocation \<times> config_map)) kprog" where
  "commit_reservation cfg cm l owner b = (case map_of (lg_allocations l) owner of
      Some a \<Rightarrow>
        if mget (lg_uids l) owner \<noteq> om_uid (nb_meta b)
        then leave (Errorf ''local binding UID changed for retained allocation; fenced recovery required'')
        else go (a, cm)
    | None \<Rightarrow>
        ebind (lift_res Errorf (reserve cfg l owner (om_uid (nb_meta b)))) (\<lambda>(a, l').
        ebind (kwrite l_map (Update (LMap (write_allocation_state cm (state_of cfg l'))))) (\<lambda>cm'.
        go (a, cm'))))"

text \<open>The receipt on the snapshot; the code goes on with the updated snapshot.\<close>

definition commit_receipt :: "local_config \<Rightarrow> config_map \<Rightarrow> string \<Rightarrow> network_binding \<Rightarrow> net_allocation \<Rightarrow> (lobj, err + (net_allocation \<times> network_binding)) kprog" where
  "commit_receipt cfg cm owner b a =
     (if mget (om_annotations (nb_meta b)) allocation_receipt_annotation = [] then
        ebind (kwrite l_binding (Update (LBinding (b\<lparr>nb_meta := (nb_meta b)\<lparr>om_annotations :=
           mput allocation_receipt_annotation (json_enc (receipt_json (receipt_of cfg owner b cm a))) (om_annotations (nb_meta b))\<rparr>\<rparr>)))) (\<lambda>b'.
        go (a, b'))
      else go (a, b))"

definition owner_of :: "network_binding \<Rightarrow> string" where
  "owner_of b = mget (om_annotations (nb_meta b)) source_uid_annotation"

text \<open>After the ledger was read: the anchor, the receipts and the reservation.\<close>

definition finish_allocation :: "local_config \<Rightarrow> network_binding list \<Rightarrow> config_map option \<Rightarrow> config_map \<Rightarrow> ledger \<Rightarrow> network_binding
    \<Rightarrow> (lobj, err + (net_allocation \<times> network_binding)) kprog" where
  "finish_allocation cfg bindings found cm l b =
     ebind (read_identity cfg bindings found cm l) (\<lambda>i.
     if \<not> identity_ok cfg cm i
     then leave (Errorf ''local allocation identity or ledger UID changed; fenced recovery required'')
     else
     ebind (lift_res Errorf (validate_allocation_receipts cfg (bindings @ [b]) cm l)) (\<lambda>_.
     ebind (commit_reservation cfg cm l (owner_of b) b) (\<lambda>(a, cm').
     commit_receipt cfg cm' (owner_of b) b a)))"

definition local_allocate :: "k8s_lib \<Rightarrow> local_config \<Rightarrow> network_binding \<Rightarrow> (lobj, err + (net_allocation \<times> network_binding)) kprog" where
  "local_allocate L cfg b =
     ebind (lift_res Errorf (local_validate L cfg)) (\<lambda>_.
     if owner_of b = [] \<or> om_uid (nb_meta b) = [] \<or> om_namespace (nb_meta b) \<noteq> lc_namespace cfg
     then leave (Errorf ''local allocation requires a persisted binding and source UID'')
     else
     ebind (klist l_binding ''NetworkBinding'' (Some (lc_namespace cfg)) []) (\<lambda>bindings.
     if \<not> list_ex (same_binding b (owner_of b)) bindings
     then leave (Errorf ''local allocation binding identity is missing or changed'')
     else
     pbind (kget l_map ''ConfigMap'' (lc_namespace cfg) allocation_identity_name) (\<lambda>got.
     ebind (Ret (case got of Inr i \<Rightarrow> Inr (Some i) | Inl e \<Rightarrow> if is_not_found e then Inr None else Inl e)) (\<lambda>found.
     ebind (read_ledger cfg bindings (found \<noteq> None)) (\<lambda>cm.
     ebind (lift_res Errorf (read_allocation_state cm cfg)) (\<lambda>l.
     finish_allocation cfg bindings found cm l b))))))"

section \<open>The addresses of a pool\<close>

text \<open>Link-local addresses are not unicast; a prefix whose ends are outside can still contain them.\<close>

definition link_local_net :: prefix where
  "link_local_net = Prefix (V4 0xA9FE0000) 16"

lemma global_unicast_unat:
  "v4_global_unicast x \<longleftrightarrow> unat x \<noteq> 0 \<and> unat x \<noteq> 2 ^ 32 - 1 \<and> unat x div 2 ^ 24 \<noteq> 127
     \<and> unat x div 2 ^ 28 \<noteq> 14 \<and> unat x div 2 ^ 16 \<noteq> 43518"
proof -
  have "v4_unspecified x \<longleftrightarrow> unat x = 0" by (simp add: v4_unspecified_def unat_eq_0)
  moreover have "v4_broadcast x \<longleftrightarrow> unat x = 2 ^ 32 - 1"
    by (simp add: v4_broadcast_def word_unat_eq_iff unsigned_minus_1_eq_mask mask_eq_exp_minus_1)
  moreover have "v4_loopback x \<longleftrightarrow> unat x div 2 ^ 24 = 127"
    "v4_multicast x \<longleftrightarrow> unat x div 2 ^ 28 = 14" "v4_link_local x \<longleftrightarrow> unat x div 2 ^ 16 = 43518"
    by (simp_all add: v4_loopback_def v4_multicast_def v4_link_local_def word_unat_eq_iff unat_drop_bit)
  ultimately show ?thesis by (simp add: v4_global_unicast_def)
qed

lemma pool_unicast:
  assumes "usable_net w b" and "\<not> overlaps (Prefix (V4 w) (int b)) link_local_net" and "block b x = block b w"
  shows "v4_global_unicast x"
proof -
  have b: "8 \<le> b" "b \<le> 30" "unat w = block b w * 2 ^ (32 - b)"
    and ends: "v4_global_unicast w" "v4_global_unicast (last_address w b)"
    using assms(1) unat_net_of [of b w] by (simp_all add: usable_net_def)
  have x: "unat w \<le> unat x" "unat x \<le> unat (last_address w b)"
    using assms(3) block_range [of b w x] b(3) by (auto simp: unat_last_address)
  have "block 8 x = block 8 w" using assms(3) b by (intro block_mono [of 8 b]) simp_all
  then have top: "unat x div 2 ^ 24 = unat w div 2 ^ 24" by (simp add: block_def)
  have shift: "n div 2 ^ 28 = n div 2 ^ 24 div 2 ^ 4" for n :: nat
    by (simp add: div_mult2_eq [symmetric])
  from top have top4: "unat x div 2 ^ 28 = unat w div 2 ^ 28" unfolding shift by (rule arg_cong)
  have ll: "unat x div 2 ^ 16 \<noteq> 43518"
  proof
    assume eq: "unat x div 2 ^ 16 = 43518"
    then have "block 16 x = block 16 0xA9FE0000" by (simp add: block_def)
    then have "block (min b 16) x = block (min b 16) 0xA9FE0000" by (rule block_mono [of "min b 16" 16, rotated 2]) simp_all
    moreover have "block (min b 16) x = block (min b 16) w" using assms(3) b by (intro block_mono [of "min b 16" b]) simp_all
    moreover have "nat (min (int b) 16) = min b 16" by (simp add: min_def)
    ultimately have "overlaps (Prefix (V4 w) (int b)) link_local_net"
      by (simp add: link_local_net_def overlaps_V4)
    with assms(2) show False by contradiction
  qed
  have "unat w \<noteq> 0" "unat w div 2 ^ 24 \<noteq> 127" "unat w div 2 ^ 28 \<noteq> 14" "unat (last_address w b) \<noteq> 2 ^ 32 - 1"
    using ends unfolding global_unicast_unat by blast+
  moreover have "unat (last_address w b) \<le> 2 ^ 32 - 1" using unat_w32_less [of "last_address w b"] by simp
  ultimately have "unat x \<noteq> 0" "unat x \<noteq> 2 ^ 32 - 1" using x by linarith+
  moreover have "unat x div 2 ^ 24 \<noteq> 127" "unat x div 2 ^ 28 \<noteq> 14"
    unfolding top top4 by fact+
  ultimately show ?thesis unfolding global_unicast_unat using ll by (intro conjI)
qed

text \<open>The networks of a pool, and their order.\<close>

lemma candidate_V4:
  assumes "usable_net w b" and "b \<le> len" and "len \<le> 30" and "i < 2 ^ (len - b)"
  obtains c where "transit_candidate (Prefix (V4 w) (int b)) len i = Prefix (V4 c) (int len)"
    and "unat c = unat w + i * 2 ^ (32 - len)" and "net_of len c = c" and "block b c = block b w"
proof -
  let ?k = "32 - len"
  define c where "c = w + push_bit ?k (of_nat i :: u32)"
  have w: "unat w = block b w * 2 ^ (32 - b)" using assms(1) unat_net_of [of b w] by (simp add: usable_net_def)
  have split: "(2::nat) ^ (32 - b) = 2 ^ (len - b) * 2 ^ ?k" using assms(2,3) by (simp flip: power_add)
  have room: "i * 2 ^ ?k + 2 ^ ?k \<le> 2 ^ (32 - b)"
  proof -
    have "(i + 1) * 2 ^ ?k \<le> 2 ^ (len - b) * 2 ^ ?k" using assms(4) by (intro mult_le_mono) auto
    then show ?thesis by (simp add: split)
  qed
  have top: "unat w + (2 ^ (32 - b) - 1) < 2 ^ 32"
    using unat_last_address_eq [of b w] assms(1) unat_w32_less [of "last_address w b"] by (simp add: usable_net_def)
  moreover have "0 < (2::nat) ^ ?k" by simp
  ultimately have small: "unat w + i * 2 ^ ?k < 2 ^ 32" using room by linarith
  have "push_bit ?k (of_nat i :: u32) = of_nat (i * 2 ^ ?k)" by (simp add: push_bit_eq_mult)
  then have c: "unat c = unat w + i * 2 ^ ?k"
    using small by (simp add: c_def unat_word_ariths unat_of_nat del: of_nat_mult)
  have "i * 2 ^ ?k < 2 ^ (32 - b)" using room \<open>0 < (2::nat) ^ ?k\<close> by linarith
  then have blk: "block b c = block b w"
    using c w by (subst eq_commute, subst block_range) auto
  have "unat c = (block b w * 2 ^ (len - b) + i) * 2 ^ ?k" using c w split by (simp add: algebra_simps)
  then have "block len c * 2 ^ ?k = unat c" by (simp add: block_def)
  then have "net_of len c = c" using unat_net_of [of len c] by (simp add: word_unat_eq_iff)
  moreover have "transit_candidate (Prefix (V4 w) (int b)) len i = Prefix (V4 c) (int len)"
    by (simp add: transit_candidate_def ip_at_def c_def)
  ultimately show thesis using that c blk by blast
qed

section \<open>A ledger in order\<close>

definition retained_ok :: "local_config \<Rightarrow> string smap \<Rightarrow> string \<times> net_allocation \<Rightarrow> bool" where
  "retained_ok cfg uids e \<longleftrightarrow> fst e \<noteq> [] \<and> mget uids (fst e) \<noteq> []
     \<and> is_ok (site_host (na_bfd_source_ip (snd e)) (pool_of (lc_bfd_source_pool cfg)))
     \<and> (\<exists>p. site_prefix (na_transit_cidr (snd e)) = Inr p \<and> p_bits p = lc_transit_prefix_length cfg
          \<and> contains (pool_of (lc_transit_pool cfg)) (p_addr p) \<and> contains (pool_of (lc_transit_pool cfg)) (prefix_end p)
          \<and> na_router_ip (snd e) = addr_text (addr_next (p_addr p)))"

definition entries_ok :: "local_config \<Rightarrow> string smap \<Rightarrow> (string \<times> net_allocation) list \<Rightarrow> bool" where
  "entries_ok cfg uids es \<longleftrightarrow> (\<forall>e\<in>set es. retained_ok cfg uids e)
     \<and> distinct (map (\<lambda>e. na_transit_cidr (snd e)) es) \<and> distinct (map (\<lambda>e. na_bfd_source_ip (snd e)) es)
     \<and> distinct (map (\<lambda>e. mget uids (fst e)) es)"

definition ledger_ok :: "local_config \<Rightarrow> ledger \<Rightarrow> bool" where
  "ledger_ok cfg l \<longleftrightarrow> distinct (map fst (lg_allocations l)) \<and> distinct (map fst (lg_uids l))
     \<and> length (lg_allocations l) = length (lg_uids l) \<and> entries_ok cfg (lg_uids l) (lg_allocations l)"

lemma check_retained_Inr:
  "check_retained cfg uids (ts, bs, us) e = Inr st \<longleftrightarrow> retained_ok cfg uids e
     \<and> na_transit_cidr (snd e) \<notin> set ts \<and> na_bfd_source_ip (snd e) \<notin> set bs \<and> mget uids (fst e) \<notin> set us
     \<and> st = (na_transit_cidr (snd e) # ts, na_bfd_source_ip (snd e) # bs, mget uids (fst e) # us)"
  by (cases e) (auto simp: check_retained_def retained_ok_def Let_def split: sum.splits if_splits)

lemma check_retained_fold:
  "is_ok (foldr_res (check_retained cfg uids) (ts, bs, us) es) \<longleftrightarrow> entries_ok cfg uids es
     \<and> (\<forall>e\<in>set es. na_transit_cidr (snd e) \<notin> set ts \<and> na_bfd_source_ip (snd e) \<notin> set bs \<and> mget uids (fst e) \<notin> set us)"
proof (induction es arbitrary: ts bs us)
  case (Cons e es)
  have "is_ok (foldr_res (check_retained cfg uids) (ts, bs, us) (e # es)) \<longleftrightarrow>
      retained_ok cfg uids e \<and> na_transit_cidr (snd e) \<notin> set ts \<and> na_bfd_source_ip (snd e) \<notin> set bs \<and> mget uids (fst e) \<notin> set us
      \<and> is_ok (foldr_res (check_retained cfg uids) (na_transit_cidr (snd e) # ts, na_bfd_source_ip (snd e) # bs, mget uids (fst e) # us) es)"
    unfolding is_ok_iff by (auto simp: check_retained_Inr)
  also have "\<dots> \<longleftrightarrow> entries_ok cfg uids (e # es) \<and> (\<forall>f\<in>set (e # es).
      na_transit_cidr (snd f) \<notin> set ts \<and> na_bfd_source_ip (snd f) \<notin> set bs \<and> mget uids (fst f) \<notin> set us)"
    unfolding Cons.IH by (auto simp: entries_ok_def image_iff)
  finally show ?case .
qed (simp add: entries_ok_def is_ok_def)

lemma entries_ok_mset: "mset es = mset es' \<Longrightarrow> entries_ok cfg uids es \<Longrightarrow> entries_ok cfg uids es'"
  unfolding entries_ok_def by (metis (no_types, lifting) mset_eq_imp_distinct_iff mset_eq_setD mset_map)

lemma decode_state_distinct:
  assumes "decode_state j s = Some t" and "distinct (map fst (entries (as_allocations s)))"
    and "distinct (map fst (entries (as_binding_uids s)))"
  shows "distinct (map fst (entries (as_allocations t))) \<and> distinct (map fst (entries (as_binding_uids t)))"
  by (rule decode_struct_invariant [OF assms(1) [unfolded decode_state_def],
        where I = "\<lambda>s. distinct (map fst (entries (as_allocations s))) \<and> distinct (map fst (entries (as_binding_uids s)))"])
    (use assms(2,3) in \<open>auto simp: field_def\<close>, (erule decode_map_distinct, assumption)+)

lemma read_allocation_state_iff:
  "read_allocation_state cm cfg = Inr l \<longleftrightarrow> om_uid (cm_meta cm) \<noteq> [] \<and> mget (om_labels (cm_meta cm)) allocation_label = ''true''
     \<and> mget (om_annotations (cm_meta cm)) allocation_digest_annotation = allocation_digest (mget (cm_data cm) ''state.json'')
     \<and> unmarshal decode_state (mget (cm_data cm) ''state.json'') no_state = Some (state_of cfg l)
     \<and> length (lg_allocations l) = length (lg_uids l) \<and> entries_ok cfg (lg_uids l) (lg_allocations l)"
proof -
  have check: "rbind (foldr_res (check_retained cfg uids) ([], [], []) es) (\<lambda>_. Inr l') = Inr l''
      \<longleftrightarrow> entries_ok cfg uids es \<and> l' = l''" for uids es and l' l'' :: ledger
    using check_retained_fold [of cfg uids "[]" "[]" "[]" es]
    by (cases "foldr_res (check_retained cfg uids) ([], [], []) es") (simp_all add: is_ok_def rbind_def)
  show ?thesis
  proof (cases "unmarshal decode_state (mget (cm_data cm) ''state.json'') no_state")
    case None
    then show ?thesis by (simp add: read_allocation_state_def Let_def)
  next
    case (Some s)
    obtain c a u where s: "s = \<lparr>as_cluster_uid = c, as_allocations = a, as_binding_uids = u\<rparr>" by (cases s)
    show ?thesis unfolding read_allocation_state_def Let_def Some s state_of_def
      by (cases a; cases u; cases l) (auto simp: check simp del: rbind_eq_Inr)
  qed
qed

lemma read_allocation_state_ok:
  assumes "read_allocation_state cm cfg = Inr l"
  shows "ledger_ok cfg l"
proof -
  from assms obtain j where "decode_state j no_state = Some (state_of cfg l)"
    by (auto simp: read_allocation_state_iff unmarshal_def split: option.splits)
  then have "distinct (map fst (lg_allocations l)) \<and> distinct (map fst (lg_uids l))"
    using decode_state_distinct [of j no_state "state_of cfg l"] by (simp add: no_state_def state_of_def)
  with assms show ?thesis by (simp add: ledger_ok_def read_allocation_state_iff)
qed

section \<open>A new reservation\<close>

text \<open>The pools of a validated installation that lie outside the link-local network.\<close>

definition pools_ok :: "local_config \<Rightarrow> bool" where
  "pools_ok cfg \<longleftrightarrow> (\<exists>tw tb bw bb. lc_transit_pool cfg = v4_prefix_str tw tb \<and> usable_net tw tb
     \<and> lc_bfd_source_pool cfg = v4_prefix_str bw bb \<and> usable_net bw bb
     \<and> int tb \<le> lc_transit_prefix_length cfg \<and> lc_transit_prefix_length cfg \<le> 29
     \<and> \<not> overlaps (Prefix (V4 tw) (int tb)) link_local_net \<and> \<not> overlaps (Prefix (V4 bw) (int bb)) link_local_net)"

lemma find_Some_free: "find P xs = Some x \<Longrightarrow> x \<in> set xs \<and> P x"
  by (auto simp: find_Some_iff)

lemma v4_prefix_text: "prefix_text (Prefix (V4 c) (int len)) = v4_prefix_str c len"
  by (simp add: prefix_text_def addr_text_def v4_prefix_str_def int_str_of_nat)

lemma pool_of_text: "usable_net w b \<Longrightarrow> pool_of (v4_prefix_str w b) = Prefix (V4 w) (int b)"
  by (simp add: pool_of_def site_prefix_of)

lemma block_last_address: "block b (last_address c b) = block b c"
proof -
  have "0 < (2::nat) ^ (32 - b)" by simp
  then show ?thesis by (subst eq_commute, subst block_range, simp only: unat_last_address) linarith
qed

lemma free_transit_sound:
  assumes "usable_net w b" and "b \<le> len" and "len \<le> 29" and "\<not> overlaps (Prefix (V4 w) (int b)) link_local_net"
    and "free_transit (Prefix (V4 w) (int b)) len taken = Some p"
  shows "\<exists>c. p = Prefix (V4 c) (int len) \<and> usable_net c len \<and> block b c = block b w
    \<and> block b (last_address c len) = block b w \<and> prefix_text p \<notin> set taken"
proof -
  from assms(5) obtain i where i: "find (\<lambda>i. prefix_text (transit_candidate (Prefix (V4 w) (int b)) len i) \<notin> set taken)
      [0..<2 ^ (len - b)] = Some i" "p = transit_candidate (Prefix (V4 w) (int b)) len i" by (auto simp: free_transit_def)
  from find_Some_free [OF i(1)] have f: "i < 2 ^ (len - b)" "prefix_text p \<notin> set taken" by (simp_all add: i(2))
  have "len \<le> 30" using assms(3) by simp
  from candidate_V4 [OF assms(1,2) this f(1)] obtain c where
    c: "transit_candidate (Prefix (V4 w) (int b)) len i = Prefix (V4 c) (int len)" "net_of len c = c" "block b c = block b w"
    by metis
  have "block len (last_address c len) = block len c" by (rule block_last_address)
  then have last: "block b (last_address c len) = block b w"
    using block_mono [of b len "last_address c len" c] assms(2,3) c(3) by simp
  have "8 \<le> b" using assms(1) by (simp add: usable_net_def)
  then have "usable_net c len"
    using pool_unicast [OF assms(1,4) c(3)] pool_unicast [OF assms(1,4) last] c(2) assms(2,3) by (simp add: usable_net_def)
  with c f(2) last show ?thesis by (auto simp: i(2))
qed

lemma free_bfd_sound:
  assumes "usable_net w b" and "\<not> overlaps (Prefix (V4 w) (int b)) link_local_net"
    and "free_bfd (Prefix (V4 w) (int b)) taken = Some x"
  shows "is_ok (site_host (addr_text x) (Prefix (V4 w) (int b))) \<and> addr_text x \<notin> set taken"
proof -
  from assms(3) obtain i where i: "find (\<lambda>i. addr_text (ip_at (Prefix (V4 w) (int b)) (of_nat i)) \<notin> set taken)
      [1..<2 ^ (32 - b) - 1] = Some i" "x = ip_at (Prefix (V4 w) (int b)) (of_nat i)" by (auto simp: free_bfd_def)
  from find_Some_free [OF i(1)] have f: "1 \<le> i" "i < 2 ^ (32 - b) - 1" "addr_text x \<notin> set taken" by (auto simp: i(2))
  have net: "net_of b w = w" using assms(1) by (simp add: usable_net_def)
  have top: "unat w + (2 ^ (32 - b) - 1) < 2 ^ 32"
    using unat_last_address_eq [OF net] unat_w32_less [of "last_address w b"] by simp
  define y where "y = w + of_nat i"
  have y: "unat y = unat w + i" using top f(2) by (simp add: y_def unat_word_ariths unat_of_nat)
  have blk: "block b y = block b w"
    using unat_net_of [of b w] f(2) by (subst eq_commute, subst block_range) (simp add: net y)
  have "site_host (v4_str y) (Prefix (V4 w) (int b)) = Inr (V4 y)"
    using f pool_unicast [OF assms(1,2) blk] unat_last_address_eq [OF net]
    by (subst site_host_iff [OF assms(1)]) (simp add: y)
  with f(3) show ?thesis by (simp add: i(2) ip_at_def addr_text_def y_def)
qed

lemma addr_next_candidate: "usable_net c len \<Longrightarrow> len \<le> 29 \<Longrightarrow> addr_next (V4 c) = V4 (c + 1)"
  by (auto simp: usable_net_def v4_global_unicast_def v4_broadcast_def)

text \<open>Owners with a reservation are exactly the owners with a UID.\<close>

lemma ledger_owners:
  assumes "ledger_ok cfg l"
  shows "fst ` set (lg_uids l) = fst ` set (lg_allocations l)"
proof -
  have "fst ` set (lg_allocations l) \<subseteq> fst ` set (lg_uids l)"
  proof
    fix owner assume "owner \<in> fst ` set (lg_allocations l)"
    then have "mget (lg_uids l) owner \<noteq> []" using assms by (auto simp: ledger_ok_def entries_ok_def retained_ok_def)
    then show "owner \<in> fst ` set (lg_uids l)"
      by (auto simp: mget_def split: option.splits dest!: map_of_SomeD intro: rev_image_eqI)
  qed
  moreover have "card (fst ` set (lg_allocations l)) = card (fst ` set (lg_uids l))"
    using assms unfolding ledger_ok_def by (metis distinct_card length_map list.set_map)
  ultimately show ?thesis by (metis List.finite_set card_subset_eq finite_imageI)
qed

lemma reserve_ok:
  assumes cfg: "pools_ok cfg" and l: "ledger_ok cfg l" and new: "map_of (lg_allocations l) owner = None"
    and ids: "owner \<noteq> []" "uid \<noteq> []" and res: "reserve cfg l owner uid = Inr (a, l')"
  shows "ledger_ok cfg l' \<and> lg_allocations l' = lg_allocations l @ [(owner, a)] \<and> lg_uids l' = lg_uids l @ [(owner, uid)]"
proof -
  from cfg obtain tw tb bw bb where pools: "pool_of (lc_transit_pool cfg) = Prefix (V4 tw) (int tb)" "usable_net tw tb"
    "pool_of (lc_bfd_source_pool cfg) = Prefix (V4 bw) (int bb)" "usable_net bw bb"
    "int tb \<le> lc_transit_prefix_length cfg" "lc_transit_prefix_length cfg \<le> 29"
    "\<not> overlaps (Prefix (V4 tw) (int tb)) link_local_net" "\<not> overlaps (Prefix (V4 bw) (int bb)) link_local_net"
    by (auto simp: pools_ok_def pool_of_text)
  define len where "len = nat (lc_transit_prefix_length cfg)"
  have len: "tb \<le> len" "len \<le> 29" "lc_transit_prefix_length cfg = int len" using pools(5,6) by (auto simp: len_def)
  from res obtain p x where fresh: "uid \<notin> snd ` set (lg_uids l)"
    and p: "free_transit (Prefix (V4 tw) (int tb)) len (map na_transit_cidr (map snd (lg_allocations l))) = Some p"
    and x: "free_bfd (Prefix (V4 bw) (int bb)) (map na_bfd_source_ip (map snd (lg_allocations l))) = Some x"
    and a: "a = \<lparr>na_transit_cidr = prefix_text p, na_router_ip = addr_text (addr_next (p_addr p)), na_bfd_source_ip = addr_text x\<rparr>"
    and l': "l' = \<lparr>lg_allocations = mput owner a (lg_allocations l), lg_uids = mput owner uid (lg_uids l)\<rparr>"
    unfolding reserve_def Let_def pools(1,3) len_def [symmetric] by (auto split: option.splits if_splits)
  from free_transit_sound [OF pools(2) len(1,2) pools(7) p] obtain c where
    c: "p = Prefix (V4 c) (int len)" "usable_net c len" "block tb c = block tb tw" "block tb (last_address c len) = block tb tw"
      "prefix_text p \<notin> set (map na_transit_cidr (map snd (lg_allocations l)))" by blast
  note bfd = free_bfd_sound [OF pools(4,8) x]
  have owner: "owner \<notin> fst ` set (lg_allocations l)" "owner \<notin> fst ` set (lg_uids l)"
    using new ledger_owners [OF l] by (simp_all add: dom_map_of_fst)
  then have app: "mput owner a (lg_allocations l) = lg_allocations l @ [(owner, a)]"
    "mput owner uid (lg_uids l) = lg_uids l @ [(owner, uid)]" by (simp_all add: set_mput_new)
  have keep: "mget (lg_uids l @ [(owner, uid)]) k = mget (lg_uids l) k" if "k \<in> fst ` set (lg_allocations l)" for k
  proof -
    have "k \<noteq> owner" using that owner by blast
    then show ?thesis by (simp add: mget_def map_add_def split: option.splits)
  qed
  have own: "mget (lg_uids l @ [(owner, uid)]) owner = uid"
    using owner(2) by (simp add: mget_def map_add_def flip: dom_map_of_fst split: option.splits)
  have "retained_ok cfg (lg_uids l @ [(owner, uid)]) (owner, a)"
    using ids bfd c(2,3,4) site_prefix_of [OF c(2)]
    by (auto simp: retained_ok_def own pools a c(1) v4_prefix_text len(3) contains_V4 prefix_end_def)
  moreover have "retained_ok cfg (lg_uids l @ [(owner, uid)]) e" if "e \<in> set (lg_allocations l)" for e
    using l that keep [of "fst e"] by (auto simp: ledger_ok_def entries_ok_def retained_ok_def)
  moreover have "distinct (map (\<lambda>e. mget (lg_uids l @ [(owner, uid)]) (fst e)) (lg_allocations l))"
  proof -
    have "map (\<lambda>e. mget (lg_uids l @ [(owner, uid)]) (fst e)) (lg_allocations l) = map (\<lambda>e. mget (lg_uids l) (fst e)) (lg_allocations l)"
      using keep by (intro map_cong) auto
    then show ?thesis using l by (simp only: ledger_ok_def entries_ok_def)
  qed
  moreover have "uid \<notin> (\<lambda>e. mget (lg_uids l @ [(owner, uid)]) (fst e)) ` set (lg_allocations l)"
  proof
    assume "uid \<in> (\<lambda>e. mget (lg_uids l @ [(owner, uid)]) (fst e)) ` set (lg_allocations l)"
    then obtain k where "uid = mget (lg_uids l) k" using keep by auto
    with ids(2) have "(k, uid) \<in> set (lg_uids l)" by (auto simp: mget_def split: option.splits dest!: map_of_SomeD)
    with fresh show False by force
  qed
  moreover have l'': "l' = \<lparr>lg_allocations = lg_allocations l @ [(owner, a)], lg_uids = lg_uids l @ [(owner, uid)]\<rparr>"
    by (simp only: l' app)
  moreover have "na_transit_cidr a = prefix_text p" "na_bfd_source_ip a = addr_text x" by (simp_all add: a)
  ultimately have "ledger_ok cfg l'"
    using l owner c(5) bfd by (auto simp: ledger_ok_def entries_ok_def own)
  then show ?thesis by (simp add: l'')
qed

section \<open>Room in the pools\<close>

lemma find_None_taken:
  assumes "find (\<lambda>i. f i \<notin> set taken) is = None" and "inj_on f (set is)" and "distinct is"
  shows "length is \<le> length taken"
proof -
  have "f ` set is \<subseteq> set taken" using assms(1) by (auto simp: find_None_iff)
  then have "card (f ` set is) \<le> card (set taken)" by (intro card_mono) simp_all
  also have "\<dots> \<le> length taken" by (rule card_length)
  finally show ?thesis using assms(2,3) by (simp add: card_image distinct_card)
qed

lemma candidates_inj:
  assumes "usable_net w b" and "b \<le> len" and "len \<le> 29"
  shows "inj_on (\<lambda>i. prefix_text (transit_candidate (Prefix (V4 w) (int b)) len i)) {..<2 ^ (len - b)}"
proof (rule inj_onI)
  fix i j
  assume ij: "i \<in> {..<2 ^ (len - b)}" "j \<in> {..<2 ^ (len - b)}"
    and eq: "prefix_text (transit_candidate (Prefix (V4 w) (int b)) len i) = prefix_text (transit_candidate (Prefix (V4 w) (int b)) len j)"
  have "len \<le> 30" using assms(3) by simp
  obtain c where c: "transit_candidate (Prefix (V4 w) (int b)) len i = Prefix (V4 c) (int len)" "unat c = unat w + i * 2 ^ (32 - len)"
    using candidate_V4 [OF assms(1,2) \<open>len \<le> 30\<close>] ij(1) by (metis lessThan_iff)
  obtain d where d: "transit_candidate (Prefix (V4 w) (int b)) len j = Prefix (V4 d) (int len)" "unat d = unat w + j * 2 ^ (32 - len)"
    using candidate_V4 [OF assms(1,2) \<open>len \<le> 30\<close>] ij(2) by (metis lessThan_iff)
  have "c = d" using eq by (simp add: c(1) d(1) v4_prefix_text v4_prefix_str_inject)
  with c(2) d(2) show "i = j" by simp
qed

lemma sources_inj:
  assumes "usable_net w b"
  shows "inj_on (\<lambda>i. addr_text (ip_at (Prefix (V4 w) (int b)) (of_nat i))) {..<2 ^ (32 - b)}"
proof (rule inj_onI)
  fix i j
  assume ij: "i \<in> {..<2 ^ (32 - b)}" "j \<in> {..<2 ^ (32 - b)}"
    and eq: "addr_text (ip_at (Prefix (V4 w) (int b)) (of_nat i)) = addr_text (ip_at (Prefix (V4 w) (int b)) (of_nat j))"
  have "(2::nat) ^ (32 - b) \<le> 2 ^ 32" by (rule power_increasing) simp_all
  then have small: "i < 2 ^ 32" "j < 2 ^ 32" using ij by (auto elim: order_less_le_trans)
  have "(of_nat i :: u32) = of_nat j" using eq by (simp add: ip_at_def addr_text_def v4_str_inject)
  then have "unat (of_nat i :: u32) = unat (of_nat j :: u32)" by (rule arg_cong)
  with small show "i = j" by (simp add: unat_of_nat)
qed

lemma reserve_room:
  assumes cfg: "pools_ok cfg" and fresh: "uid \<notin> snd ` set (lg_uids l)"
    and "length (lg_allocations l) < 2 ^ (nat (lc_transit_prefix_length cfg) - nat (p_bits (pool_of (lc_transit_pool cfg))))"
    and "length (lg_allocations l) + 2 < 2 ^ (32 - nat (p_bits (pool_of (lc_bfd_source_pool cfg))))"
  shows "\<exists>a l'. reserve cfg l owner uid = Inr (a, l')"
proof -
  from cfg obtain tw tb bw bb where pools: "pool_of (lc_transit_pool cfg) = Prefix (V4 tw) (int tb)" "usable_net tw tb"
    "pool_of (lc_bfd_source_pool cfg) = Prefix (V4 bw) (int bb)" "usable_net bw bb"
    "int tb \<le> lc_transit_prefix_length cfg" "lc_transit_prefix_length cfg \<le> 29"
    by (auto simp: pools_ok_def pool_of_text)
  define len where "len = nat (lc_transit_prefix_length cfg)"
  have len: "tb \<le> len" "len \<le> 29" using pools(5,6) by (auto simp: len_def)
  define transits where "transits = map na_transit_cidr (map snd (lg_allocations l))"
  define sources where "sources = map na_bfd_source_ip (map snd (lg_allocations l))"
  have "free_transit (Prefix (V4 tw) (int tb)) len transits \<noteq> None"
  proof
    assume "free_transit (Prefix (V4 tw) (int tb)) len transits = None"
    then have "length [0..<(2::nat) ^ (len - tb)] \<le> length transits"
      using candidates_inj [OF pools(2) len] by (intro find_None_taken) (auto simp: free_transit_def atLeast0LessThan)
    with assms(3) show False by (simp add: transits_def pools(1) len_def)
  qed
  moreover have "free_bfd (Prefix (V4 bw) (int bb)) sources \<noteq> None"
  proof
    assume "free_bfd (Prefix (V4 bw) (int bb)) sources = None"
    moreover have "{1..<2 ^ (32 - bb) - 1} \<subseteq> {..<(2::nat) ^ (32 - bb)}" by auto
    then have "inj_on (\<lambda>i. addr_text (ip_at (Prefix (V4 bw) (int bb)) (of_nat i))) {1..<2 ^ (32 - bb) - 1}"
      by (rule inj_on_subset [OF sources_inj [OF pools(4)]])
    ultimately have "length [1..<(2::nat) ^ (32 - bb) - 1] \<le> length sources"
      by (intro find_None_taken) (simp_all add: free_bfd_def)
    with assms(4) show False by (simp add: sources_def pools(3))
  qed
  ultimately show ?thesis
    using fresh unfolding reserve_def Let_def pools(1,3) len_def [symmetric] transits_def [symmetric] sources_def [symmetric] by auto
qed

section \<open>Reading back\<close>

lemma ascii_v4_str [simp]: "ascii (v4_str w)"
  unfolding ascii_def by (auto dest!: v4_str_chars simp: is_digit_def)

lemma ascii_nat_str [simp]: "ascii (nat_str n)"
  unfolding ascii_def by (auto dest!: nat_str_chars simp: is_digit_def)

text \<open>Texts of the installation and of the API server below byte 128.\<close>

definition ascii_ledger :: "local_config \<Rightarrow> ledger \<Rightarrow> bool" where
  "ascii_ledger cfg l \<longleftrightarrow> ascii (lc_cluster_uid cfg) \<and> list_all (\<lambda>e. ascii (fst e)) (lg_allocations l)
     \<and> list_all (\<lambda>e. ascii (fst e) \<and> ascii (snd e)) (lg_uids l)"

lemma decode_allocation_encoded [simp]: "decode_allocation (allocation_json a) no_allocation = Some a"
  by (cases a) (simp add: decode_allocation_def allocation_json_def decode_struct_def find_field_def field_def decode_string_def no_allocation_def)

lemma decode_state_encoded:
  assumes "distinct (map fst (lg_allocations l))" and "distinct (map fst (lg_uids l))"
  shows "decode_state (state_json (state_of cfg l)) no_state = Some (state_of cfg
    \<lparr>lg_allocations = sort_slice fst (lg_allocations l), lg_uids = sort_slice fst (lg_uids l)\<rparr>)"
proof -
  have "decode_map no_allocation decode_allocation (json_map allocation_json (lg_allocations l)) None = Some (Some (sort_slice fst (lg_allocations l)))"
    "decode_map [] decode_string (json_map JStr (lg_uids l)) None = Some (Some (sort_slice fst (lg_uids l)))"
    using assms by (simp_all add: decode_map_json_map decode_string_def)
  then show ?thesis
    by (simp add: decode_state_def state_json_def state_of_def decode_struct_def find_field_def field_def decode_string_def no_state_def map_or_null_def)
qed

lemma site_prefix_ascii: "site_prefix raw = Inr p \<Longrightarrow> ascii raw \<and> ascii (addr_text (addr_next (p_addr p)))"
  by (elim site_prefixE) (auto simp: v4_prefix_str_def addr_text_def split: addr.splits)

lemma site_host_ascii: "site_host raw p = Inr a \<Longrightarrow> ascii raw"
  by (auto simp: site_host_def split: option.splits addr.splits if_splits)

lemma plain_state:
  assumes "ledger_ok cfg l" and "ascii_ledger cfg l"
  shows "plain_json (state_json (state_of cfg l))"
proof -
  have "ascii (na_transit_cidr a) \<and> ascii (na_router_ip a) \<and> ascii (na_bfd_source_ip a)" if "(k, a) \<in> set (lg_allocations l)" for k a
  proof -
    have "retained_ok cfg (lg_uids l) (k, a)" using that assms(1) by (auto simp: ledger_ok_def entries_ok_def)
    then show ?thesis
      by (auto simp: retained_ok_def is_ok_iff dest: site_prefix_ascii site_host_ascii)
  qed
  then have "plain_json (json_map allocation_json (lg_allocations l))" "plain_json (json_map JStr (lg_uids l))"
    using assms(2) by (fastforce simp: ascii_ledger_def list_all_iff allocation_json_def intro: plain_json_map)+
  then show ?thesis using assms(2) by (simp add: state_json_def state_of_def map_or_null_def ascii_ledger_def)
qed

lemma write_read:
  assumes "ledger_ok cfg l" and "ascii_ledger cfg l" and "om_uid (cm_meta cm) \<noteq> []"
    and "mget (om_labels (cm_meta cm)) allocation_label = ''true''"
  shows "read_allocation_state (write_allocation_state cm (state_of cfg l)) cfg
    = Inr \<lparr>lg_allocations = sort_slice fst (lg_allocations l), lg_uids = sort_slice fst (lg_uids l)\<rparr>"
proof -
  have d: "distinct (map fst (lg_allocations l))" "distinct (map fst (lg_uids l))" using assms(1) by (simp_all add: ledger_ok_def)
  then have "mget (sort_slice fst (lg_uids l)) k = mget (lg_uids l) k" for k by (simp add: mget_def)
  then have "entries_ok cfg (sort_slice fst (lg_uids l)) (lg_allocations l)"
    using assms(1) by (simp add: ledger_ok_def entries_ok_def retained_ok_def)
  then have "entries_ok cfg (sort_slice fst (lg_uids l)) (sort_slice fst (lg_allocations l))"
    by (rule entries_ok_mset [rotated]) simp
  moreover have "json_parse (json_enc (state_json (state_of cfg l))) = Some (state_json (state_of cfg l))"
    using plain_state [OF assms(1,2)] by (rule json_parse_enc)
  ultimately show ?thesis
    using assms(1,3,4) decode_state_encoded [OF d, of cfg]
    by (simp add: read_allocation_state_iff write_allocation_state_def Let_def mget_def unmarshal_def ledger_ok_def)
qed

section \<open>What a run may write\<close>

text \<open>The ledger that an answer of the run contained.\<close>

definition ledger_read :: "local_config \<Rightarrow> (lobj kreq \<times> lobj kresp) list \<Rightarrow> config_map \<Rightarrow> ledger \<Rightarrow> bool" where
  "ledger_read cfg h cm l \<longleftrightarrow> Obj (LMap cm) \<in> snd ` set h \<and> read_allocation_state cm cfg = Inr l"

text \<open>A reservation is committed when the ledger that was read holds it for this snapshot, or when the
  server acknowledged the ledger with it.\<close>

definition committed :: "local_config \<Rightarrow> (lobj kreq \<times> lobj kresp) list \<Rightarrow> string \<Rightarrow> string \<Rightarrow> net_allocation \<Rightarrow> bool" where
  "committed cfg h owner uid a \<longleftrightarrow> (\<exists>cm l. ledger_read cfg h cm l \<and>
     (map_of (lg_allocations l) owner = Some a \<and> mget (lg_uids l) owner = uid
      \<or> (\<exists>l' r. map_of (lg_allocations l) owner = None \<and> reserve cfg l owner uid = Inr (a, l')
           \<and> (Update (LMap (write_allocation_state cm (state_of cfg l'))), Obj (LMap r)) \<in> set h)))"

text \<open>The receipt of a reservation is added to a binding that has none; nothing else of the binding changes.\<close>

definition receipt_added :: "local_config \<Rightarrow> network_binding \<Rightarrow> net_allocation \<Rightarrow> network_binding \<Rightarrow> bool" where
  "receipt_added cfg b a b' \<longleftrightarrow> mget (om_annotations (nb_meta b)) allocation_receipt_annotation = []
     \<and> (\<exists>cm. b' = b\<lparr>nb_meta := (nb_meta b)\<lparr>om_annotations := mput allocation_receipt_annotation
          (json_enc (receipt_json (receipt_of cfg (owner_of b) b cm a))) (om_annotations (nb_meta b))\<rparr>\<rparr>)"

definition allocation_write :: "local_config \<Rightarrow> network_binding \<Rightarrow> (lobj kreq \<times> lobj kresp) list \<Rightarrow> lobj kreq \<Rightarrow> bool" where
  "allocation_write cfg b h q = (case q of
      Get kind ns name \<Rightarrow> True
    | List kind ns labels \<Rightarrow> True
    | Create (LMap m) \<Rightarrow> m = ledger_map cfg \<or> (\<exists>cm l. ledger_read cfg h cm l \<and> lg_allocations l = [] \<and> m = identity_map cfg cm)
    | Update (LMap m) \<Rightarrow> (\<exists>cm l a l'. ledger_read cfg h cm l \<and> map_of (lg_allocations l) (owner_of b) = None
        \<and> reserve cfg l (owner_of b) (om_uid (nb_meta b)) = Inr (a, l') \<and> m = write_allocation_state cm (state_of cfg l'))
    | Update (LBinding b') \<Rightarrow> (\<exists>a. committed cfg h (owner_of b) (om_uid (nb_meta b)) a \<and> receipt_added cfg b a b')
    | _ \<Rightarrow> False)"

lemma allocation_write_reads [simp]: "allocation_write cfg b h (Get k ns n)" "allocation_write cfg b h (List k ons ls)"
  by (simp_all add: allocation_write_def)

lemma ledger_read_mono: "ledger_read cfg h cm l \<Longrightarrow> ledger_read cfg (h @ h') cm l"
  by (auto simp: ledger_read_def)

lemma committed_mono: "committed cfg h owner uid a \<Longrightarrow> committed cfg (h @ h') owner uid a"
  by (force simp: committed_def ledger_read_def)

lemma l_map_Some [simp]: "l_map x = Some m \<longleftrightarrow> x = LMap m" and l_binding_Some [simp]: "l_binding x = Some b \<longleftrightarrow> x = LBinding b"
  by (cases x; auto)+

lemma always_commit_receipt:
  assumes "committed cfg h (owner_of b) (om_uid (nb_meta b)) a"
  shows "always (allocation_write cfg b) (commit_receipt cfg cm (owner_of b) b a)
    (\<lambda>h x. case x of Inl e \<Rightarrow> True | Inr (a', b') \<Rightarrow> committed cfg h (owner_of b) (om_uid (nb_meta b)) a') h"
  using assms committed_mono [OF assms]
  by (auto simp: commit_receipt_def allocation_write_def receipt_added_def split: kresp.splits option.splits sum.splits)

lemma always_commit_reservation:
  assumes "ledger_read cfg h cm l"
  shows "always (allocation_write cfg b) (commit_reservation cfg cm l (owner_of b) b)
    (\<lambda>h x. case x of Inl e \<Rightarrow> True | Inr (a, cm') \<Rightarrow> committed cfg h (owner_of b) (om_uid (nb_meta b)) a) h"
proof (cases "map_of (lg_allocations l) (owner_of b)")
  case None
  show ?thesis
  proof (cases "reserve cfg l (owner_of b) (om_uid (nb_meta b))")
    case (Inr al)
    obtain a l' where al: "al = (a, l')" by (cases al)
    let ?q = "Update (LMap (write_allocation_state cm (state_of cfg l')))"
    have "allocation_write cfg b h ?q" using assms None Inr al by (auto simp: allocation_write_def)
    moreover have "committed cfg (h @ [(?q, Obj (LMap r))]) (owner_of b) (om_uid (nb_meta b)) a" for r
      using ledger_read_mono [OF assms] None Inr al unfolding committed_def by fastforce
    ultimately show ?thesis
      by (auto simp: commit_reservation_def None Inr al split: kresp.splits option.splits sum.splits)
  qed (simp add: commit_reservation_def None)
next
  case (Some a)
  with assms have "committed cfg h (owner_of b) (om_uid (nb_meta b)) a" if "mget (lg_uids l) (owner_of b) = om_uid (nb_meta b)"
    using that by (auto simp: committed_def)
  then show ?thesis by (simp add: commit_reservation_def Some)
qed

abbreviation allocated :: "local_config \<Rightarrow> network_binding \<Rightarrow> (lobj kreq \<times> lobj kresp) list \<Rightarrow> err + (net_allocation \<times> network_binding) \<Rightarrow> bool" where
  "allocated cfg b h x \<equiv> (case x of Inl e \<Rightarrow> True | Inr (a, b') \<Rightarrow> committed cfg h (owner_of b) (om_uid (nb_meta b)) a)"

lemma always_grows:
  assumes "always G p Q h"
  shows "always G p (\<lambda>h' x. Q h' x \<and> (\<exists>t. h' = h @ t)) h"
proof -
  have "always (\<lambda>h q. True) p (\<lambda>h' x. \<exists>t. h' = h0 @ t) h" if "\<exists>t. h = h0 @ t" for h0
    using that by (induction p arbitrary: h) auto
  from always_conj [OF assms this [of h]] show ?thesis by simp
qed

lemma always_finish_allocation:
  assumes "ledger_read cfg h cm l"
  shows "always (allocation_write cfg b) (finish_allocation cfg bindings found cm l b) (allocated cfg b) h"
proof -
  have receipt: "always (allocation_write cfg b) (commit_receipt cfg cm' (owner_of b) b a) (allocated cfg b) h"
    if "committed cfg h (owner_of b) (om_uid (nb_meta b)) a" for a cm' h
    by (rule always_mono [OF always_grows [OF always_commit_receipt [OF that]]])
      (auto split: sum.splits dest: committed_mono)
  have tail: "always (allocation_write cfg b) (ebind (commit_reservation cfg cm l (owner_of b) b)
      (\<lambda>(a, cm'). commit_receipt cfg cm' (owner_of b) b a)) (allocated cfg b) h'" if "ledger_read cfg h' cm l" for h'
    unfolding always_ebind
    by (rule always_mono [OF always_commit_reservation [OF that]]) (auto split: sum.splits intro: receipt)
  let ?rest = "\<lambda>i. if \<not> identity_ok cfg cm i
     then leave (Errorf ''local allocation identity or ledger UID changed; fenced recovery required'')
     else ebind (lift_res Errorf (validate_allocation_receipts cfg (bindings @ [b]) cm l)) (\<lambda>_.
       ebind (commit_reservation cfg cm l (owner_of b) b) (\<lambda>(a, cm'). commit_receipt cfg cm' (owner_of b) b a))"
  have rest: "always (allocation_write cfg b) (?rest i) (allocated cfg b) h'" if "ledger_read cfg h' cm l" for i h'
    using tail [OF that] by (simp add: ebind_lift_res del: always_ebind split: sum.split)
  show ?thesis
  proof (cases found)
    case None
    show ?thesis
    proof (cases "lg_allocations l \<noteq> [] \<or> bootstrap_allocation_evidence bindings")
      case False
      let ?q = "Create (LMap (identity_map cfg cm))"
      have "allocation_write cfg b h ?q" using assms False by (auto simp: allocation_write_def)
      then show ?thesis
        using False rest [OF ledger_read_mono [OF assms]]
        unfolding finish_allocation_def read_identity_def None
        by (auto simp: always_ebind [where p = "kwrite l_map ?q"] simp del: always_ebind split: kresp.split option.split)
    qed (simp add: finish_allocation_def read_identity_def None)
  next
    case (Some i)
    then show ?thesis using rest [OF assms] by (simp add: finish_allocation_def read_identity_def del: always_ebind)
  qed
qed

lemma local_allocate_run: "always (allocation_write cfg b) (local_allocate L cfg b) (allocated cfg b) []"
proof -
  have rest: "always (allocation_write cfg b) (ebind (lift_res Errorf (read_allocation_state cm cfg))
      (\<lambda>l. finish_allocation cfg bindings found cm l b)) (allocated cfg b) h" if "Obj (LMap cm) \<in> snd ` set h" for bindings found cm h
    using that by (cases "read_allocation_state cm cfg") (simp_all add: ebind_lift_res always_finish_allocation ledger_read_def del: always_ebind)
  have ledger: "always (allocation_write cfg b) (read_ledger cfg bindings has)
      (\<lambda>h x. case x of Inl e \<Rightarrow> True | Inr cm \<Rightarrow> Obj (LMap cm) \<in> snd ` set h) h" for bindings has h
    by (auto simp: read_ledger_def allocation_write_def split: sum.splits kresp.splits option.splits)
  have body: "always (allocation_write cfg b) (ebind (read_ledger cfg bindings has) (\<lambda>cm.
      ebind (lift_res Errorf (read_allocation_state cm cfg)) (\<lambda>l. finish_allocation cfg bindings found cm l b))) (allocated cfg b) h"
    for bindings has found h
    unfolding always_ebind [of _ "read_ledger cfg bindings has"]
    by (rule always_mono [OF ledger]) (auto split: sum.splits intro: rest simp del: always_ebind)
  show ?thesis
    using body unfolding local_allocate_def
    by (auto simp: decode_error_def split: sum.splits kresp.splits option.splits if_splits)
qed

section \<open>A concrete installation\<close>

definition ex_local :: local_config where
  "ex_local = \<lparr>lc_location_ref = ''s1'', lc_cluster_uid = ''u1'', lc_namespace = ''n1'', lc_authority_namespace = ''n2'',
     lc_authority_kubeconfig = ''k'', lc_gateway_node_selector = [(''g'', ''y'')], lc_endpoint_annotation = [],
     lc_transit_pool = ''10.1.0.0/24'', lc_transit_prefix_length = 28, lc_bfd_source_pool = ''10.2.0.0/24'',
     lc_gateway_replicas = 2, lc_gateway_image = ''i'', lc_mtu = 1400, lc_control_pool = ''10.3.0.0/24'',
     lc_port_start = 20000, lc_port_end = 20100, lc_runtime_dir = ''d''\<rparr>"

definition ex_empty :: ledger where
  "ex_empty = \<lparr>lg_allocations = [], lg_uids = []\<rparr>"

lemma ex_pools: "pools_ok ex_local"
proof -
  have "''10.1.0.0/24'' = v4_prefix_str 0x0A010000 24" "''10.2.0.0/24'' = v4_prefix_str 0x0A020000 24"
    "usable_net 0x0A010000 24" "usable_net 0x0A020000 24" by (simp_all add: v4_text v4_classes)
  moreover have "\<not> overlaps (Prefix (V4 0x0A010000) (int 24)) link_local_net" "\<not> overlaps (Prefix (V4 0x0A020000) (int 24)) link_local_net"
    by (simp_all add: link_local_net_def overlaps_V4 block_def)
  ultimately show ?thesis unfolding pools_ok_def
    by (intro exI [of _ "0x0A010000"] exI [of _ 24] exI [of _ "0x0A020000"]) (simp add: ex_local_def)
qed

lemma ex_empty_ok: "ledger_ok cfg ex_empty"
  by (simp add: ledger_ok_def entries_ok_def ex_empty_def)

lemma ex_reserved:
  obtains a l where "reserve ex_local ex_empty ''o1'' ''b1'' = Inr (a, l)" "ledger_ok ex_local l"
    "lg_allocations l = [(''o1'', a)]" "lg_uids l = [(''o1'', ''b1'')]"
proof -
  have "\<exists>a l. reserve ex_local ex_empty ''o1'' ''b1'' = Inr (a, l)"
    by (rule reserve_room [OF ex_pools]) (simp_all add: ex_empty_def ex_local_def pool_of_def site_prefix_samples)
  then obtain a l where r: "reserve ex_local ex_empty ''o1'' ''b1'' = Inr (a, l)" by blast
  have "ledger_ok ex_local l \<and> lg_allocations l = lg_allocations ex_empty @ [(''o1'', a)] \<and> lg_uids l = lg_uids ex_empty @ [(''o1'', ''b1'')]"
    by (rule reserve_ok [OF ex_pools ex_empty_ok _ _ _ r]) (simp_all add: ex_empty_def)
  then have "ledger_ok ex_local l" "lg_allocations l = [(''o1'', a)]" "lg_uids l = [(''o1'', ''b1'')]"
    by (simp_all add: ex_empty_def)
  with r show thesis by (rule that)
qed

definition ex_ledger_map :: config_map where
  "ex_ledger_map = \<lparr>cm_meta = empty_meta\<lparr>om_uid := ''l1'', om_labels := [(allocation_label, ''true'')]\<rparr>, cm_data = [], cm_immutable = None\<rparr>"

lemma ex_ledger_written:
  assumes "ledger_ok ex_local l" "lg_allocations l = [(''o1'', a)]" "lg_uids l = [(''o1'', ''b1'')]"
  shows "read_allocation_state (write_allocation_state ex_ledger_map (state_of ex_local l)) ex_local = Inr l"
proof -
  have "read_allocation_state (write_allocation_state ex_ledger_map (state_of ex_local l)) ex_local
      = Inr \<lparr>lg_allocations = sort_slice fst (lg_allocations l), lg_uids = sort_slice fst (lg_uids l)\<rparr>"
    by (rule write_read) (use assms in \<open>simp_all add: ascii_ledger_def ex_local_def ex_ledger_map_def mget_def\<close>)
  then show ?thesis by (cases l) (use assms in \<open>simp add: sort_slice_def\<close>)
qed

section \<open>Properties\<close>

text \<open>
  C26: a ledger that passes the integrity check keeps the tenants of a site apart: no two retained transit
  networks share an address, no two tenants have the same BFD source address or belong to the same
  snapshot, and every network lies in the installed pool.
\<close>

theorem ledger_keeps_apart:
  assumes "read_allocation_state cm cfg = Inr l"
  shows "pairwise_disjoint (map (\<lambda>e. pool_of (na_transit_cidr (snd e))) (lg_allocations l))
    \<and> distinct (map (\<lambda>e. na_bfd_source_ip (snd e)) (lg_allocations l))
    \<and> distinct (map (\<lambda>e. mget (lg_uids l) (fst e)) (lg_allocations l))
    \<and> list_all (\<lambda>e. contains (pool_of (lc_transit_pool cfg)) (p_addr (pool_of (na_transit_cidr (snd e))))
         \<and> contains (pool_of (lc_transit_pool cfg)) (prefix_end (pool_of (na_transit_cidr (snd e))))) (lg_allocations l)"
proof -
  have ok: "entries_ok cfg (lg_uids l) (lg_allocations l)"
    using read_allocation_state_ok [OF assms] by (simp add: ledger_ok_def)
  have net: "\<exists>w b. na_transit_cidr (snd e) = v4_prefix_str w b \<and> usable_net w b \<and> int b = lc_transit_prefix_length cfg
      \<and> pool_of (na_transit_cidr (snd e)) = Prefix (V4 w) (int b)" if "e \<in> set (lg_allocations l)" for e
  proof -
    from ok that obtain p where p: "site_prefix (na_transit_cidr (snd e)) = Inr p" "p_bits p = lc_transit_prefix_length cfg"
      by (auto simp: entries_ok_def retained_ok_def)
    from p(1) obtain w b where "p = Prefix (V4 w) (int b)" "na_transit_cidr (snd e) = v4_prefix_str w b" "usable_net w b"
      by (rule site_prefixE)
    with p show ?thesis by (intro exI [of _ w] exI [of _ b]) (simp add: pool_of_def)
  qed
  have apart: "\<not> overlaps (pool_of (na_transit_cidr (snd e))) (pool_of (na_transit_cidr (snd f)))"
    if ef: "e \<in> set (lg_allocations l)" "f \<in> set (lg_allocations l)" "na_transit_cidr (snd e) \<noteq> na_transit_cidr (snd f)" for e f
  proof -
    from net [OF ef(1)] obtain w b where w: "na_transit_cidr (snd e) = v4_prefix_str w b" "usable_net w b"
      "int b = lc_transit_prefix_length cfg" "pool_of (na_transit_cidr (snd e)) = Prefix (V4 w) (int b)" by blast
    from net [OF ef(2)] w(3) obtain x where x: "na_transit_cidr (snd f) = v4_prefix_str x b" "usable_net x b"
      "pool_of (na_transit_cidr (snd f)) = Prefix (V4 x) (int b)" by (metis of_nat_eq_iff)
    have "net_of b w \<noteq> net_of b x" using w(1,2) x(1,2) ef(3) by (auto simp: usable_net_def)
    then show ?thesis unfolding w(4) x(3) by (simp add: overlaps_V4 net_of_eq_iff)
  qed
  have "sorted_wrt (\<lambda>e f. na_transit_cidr (snd e) \<noteq> na_transit_cidr (snd f)) (lg_allocations l)"
  proof -
    have "distinct (map (\<lambda>e. na_transit_cidr (snd e)) (lg_allocations l))" using ok by (simp add: entries_ok_def)
    then show ?thesis unfolding distinct_conv_nth sorted_wrt_iff_nth_less by auto
  qed
  then have "sorted_wrt (\<lambda>e f. \<not> overlaps (pool_of (na_transit_cidr (snd e))) (pool_of (na_transit_cidr (snd f)))) (lg_allocations l)"
    by (rule sorted_wrt_mono_rel [rotated]) (use apart in blast)
  then show ?thesis
    using ok by (auto simp: pairwise_disjoint_def sorted_wrt_map entries_ok_def retained_ok_def list_all_iff pool_of_def)
qed

theorem ledger_keeps_apart_witness:
  "\<exists>cm a l. read_allocation_state cm ex_local = Inr l \<and> lg_allocations l = [(''o1'', a)]
    \<and> contains (pool_of ''10.1.0.0/24'') (p_addr (pool_of (na_transit_cidr a)))"
proof -
  obtain a l where l: "ledger_ok ex_local l" "lg_allocations l = [(''o1'', a)]" "lg_uids l = [(''o1'', ''b1'')]"
    by (rule ex_reserved)
  note r = ex_ledger_written [OF l]
  show ?thesis using ledger_keeps_apart [OF r] r l(2) by (intro exI conjI) (auto simp: ex_local_def)
qed

text \<open>
  In an installation whose pools are clear of the link-local network, a reservation for a new owner
  keeps the ledger in order and only appends to it: no retained reservation changes or is reused.
\<close>

theorem reserve_appends:
  assumes "pools_ok cfg" and "ledger_ok cfg l" and "map_of (lg_allocations l) owner = None"
    and "owner \<noteq> []" and "uid \<noteq> []" and "reserve cfg l owner uid = Inr (a, l')"
  shows "ledger_ok cfg l' \<and> lg_allocations l' = lg_allocations l @ [(owner, a)] \<and> lg_uids l' = lg_uids l @ [(owner, uid)]"
  using assms by (rule reserve_ok)

theorem reserve_appends_witness:
  "\<exists>a l'. reserve ex_local ex_empty ''o1'' ''b1'' = Inr (a, l') \<and> ledger_ok ex_local l' \<and> lg_allocations l' = [(''o1'', a)]"
proof -
  obtain a l' where r: "reserve ex_local ex_empty ''o1'' ''b1'' = Inr (a, l')" by (rule ex_reserved)
  have "map_of (lg_allocations ex_empty) ''o1'' = None" "''o1'' \<noteq> []" "''b1'' \<noteq> []" by (simp_all add: ex_empty_def)
  from reserve_appends [OF ex_pools ex_empty_ok this r] r show ?thesis by (auto simp: ex_empty_def)
qed

text \<open>
  C27: what the operator writes, it reads back: a ledger in order, written into its ConfigMap with its
  digest, passes the integrity check and gives the same reservations and snapshots.
\<close>

theorem ledger_reads_back:
  assumes "ledger_ok cfg l" and "ascii_ledger cfg l" and "om_uid (cm_meta cm) \<noteq> []"
    and "mget (om_labels (cm_meta cm)) allocation_label = ''true''"
  shows "\<exists>l'. read_allocation_state (write_allocation_state cm (state_of cfg l)) cfg = Inr l'
    \<and> map_of (lg_allocations l') = map_of (lg_allocations l) \<and> map_of (lg_uids l') = map_of (lg_uids l)"
  using write_read [OF assms] assms(1) by (simp add: ledger_ok_def)

theorem ledger_reads_back_witness:
  "\<exists>a l l'. reserve ex_local ex_empty ''o1'' ''b1'' = Inr (a, l)
    \<and> read_allocation_state (write_allocation_state ex_ledger_map (state_of ex_local l)) ex_local = Inr l'
    \<and> map_of (lg_allocations l') ''o1'' = Some a"
proof -
  obtain a l where l: "reserve ex_local ex_empty ''o1'' ''b1'' = Inr (a, l)" "ledger_ok ex_local l"
    "lg_allocations l = [(''o1'', a)]" "lg_uids l = [(''o1'', ''b1'')]" by (rule ex_reserved)
  have "ascii_ledger ex_local l" "om_uid (cm_meta ex_ledger_map) \<noteq> []"
    "mget (om_labels (cm_meta ex_ledger_map)) allocation_label = ''true''"
    by (simp_all add: ascii_ledger_def ex_local_def l(3,4) ex_ledger_map_def mget_def)
  from ledger_reads_back [OF l(2) this] l(1,3) show ?thesis by auto
qed

text \<open>
  C25: in every run, for all answers of the API server, the operator hands out a reservation only when the
  ledger holds it for this snapshot or the server acknowledged the ledger with it; it never deletes
  anything, writes the ledger only as an extension of the ledger it read, creates the anchor only beside
  an empty ledger, and writes the snapshot only after the reservation is committed.
\<close>

theorem allocation_committed:
  "every_step (allocation_write cfg b) (local_allocate L cfg b)
    \<and> every_outcome (\<lambda>h x. case x of Inl e \<Rightarrow> True | Inr (a, b') \<Rightarrow> committed cfg h (owner_of b) (om_uid (nb_meta b)) a)
        (local_allocate L cfg b)"
  using every_stepI [OF local_allocate_run] every_outcomeI [OF local_allocate_run] by blast

text \<open>
  C28: a reservation for a new owner succeeds as long as fewer reservations are retained than the pool has
  networks and the source pool has hosts.
\<close>

theorem reserve_succeeds:
  assumes "pools_ok cfg" and "uid \<notin> snd ` set (lg_uids l)"
    and "length (lg_allocations l) < 2 ^ (nat (lc_transit_prefix_length cfg) - nat (p_bits (pool_of (lc_transit_pool cfg))))"
    and "length (lg_allocations l) + 2 < 2 ^ (32 - nat (p_bits (pool_of (lc_bfd_source_pool cfg))))"
  shows "\<exists>a l'. reserve cfg l owner uid = Inr (a, l')"
  using assms by (rule reserve_room)

theorem reserve_succeeds_witness: "\<exists>a l'. reserve ex_local ex_empty ''o1'' ''b1'' = Inr (a, l')"
  by (rule reserve_succeeds [OF ex_pools]) (simp_all add: ex_empty_def ex_local_def pool_of_def site_prefix_samples)

section \<open>A pool around the link-local network\<close>

text \<open>
  The validation of the installation looks at the first and the last address of a pool only. The pool
  \<open>169.252.0.0/14\<close> passes it and contains \<open>169.254.0.0/16\<close>; when the third reservation takes that
  network, the ledger it is written to does not pass the operator's own integrity check any more.
\<close>

definition ex_link_local :: local_config where
  "ex_link_local = ex_local\<lparr>lc_transit_pool := ''169.252.0.0/14'', lc_transit_prefix_length := 16, lc_bfd_source_pool := ''10.2.0.8/29''\<rparr>"

definition ex_two :: ledger where
  "ex_two = \<lparr>lg_allocations =
       [(''o1'', \<lparr>na_transit_cidr = ''169.252.0.0/16'', na_router_ip = ''169.252.0.1'', na_bfd_source_ip = ''10.2.0.9''\<rparr>),
        (''o2'', \<lparr>na_transit_cidr = ''169.253.0.0/16'', na_router_ip = ''169.253.0.1'', na_bfd_source_ip = ''10.2.0.10''\<rparr>)],
     lg_uids = [(''o1'', ''b1''), (''o2'', ''b2'')]\<rparr>"

definition ex_third :: net_allocation where
  "ex_third = \<lparr>na_transit_cidr = ''169.254.0.0/16'', na_router_ip = ''169.254.0.1'', na_bfd_source_ip = ''10.2.0.11''\<rparr>"

lemma link_local_texts:
  "site_prefix ''169.252.0.0/14'' = Inr (Prefix (V4 0xA9FC0000) 14)" "site_prefix ''10.2.0.8/29'' = Inr (Prefix (V4 0x0A020008) 29)"
  "site_prefix ''10.3.0.0/24'' = Inr (Prefix (V4 0x0A030000) 24)"
  "site_prefix ''169.252.0.0/16'' = Inr (Prefix (V4 0xA9FC0000) 16)" "site_prefix ''169.253.0.0/16'' = Inr (Prefix (V4 0xA9FD0000) 16)"
  using site_prefix_of [of "0xA9FC0000" 14] site_prefix_of [of "0x0A020008" 29] site_prefix_of [of "0x0A030000" 24]
    site_prefix_of [of "0xA9FC0000" 16] site_prefix_of [of "0xA9FD0000" 16]
  by (simp_all add: v4_text v4_classes)

lemma link_local_refused: "\<not> is_ok (site_prefix ''169.254.0.0/16'')"
proof
  assume "is_ok (site_prefix ''169.254.0.0/16'')"
  then obtain w b where "''169.254.0.0/16'' = v4_prefix_str w b" "usable_net w b" by (auto simp: is_ok_iff elim!: site_prefixE)
  moreover have "''169.254.0.0/16'' = v4_prefix_str 0xA9FE0000 16" by (simp add: v4_text)
  ultimately have "usable_net 0xA9FE0000 16" using v4_prefix_str_inject by metis
  then show False by (simp add: v4_classes)
qed

lemma link_local_valid: "local_validate k8s_ref ex_link_local = Inr ()"
proof -
  have "ref_dns_label ''s1''" "ref_dns_label ''n1''" "ref_dns_label ''n2''" "ref_qualified_name ''g''" "ref_label_value ''y''"
    by code_simp+
  then show ?thesis
    by (simp add: local_validate_def ex_link_local_def ex_local_def k8s_ref_def link_local_texts overlaps_V4 block_def
        check_reserved_ports_def)
qed

lemma link_local_reserve:
  "reserve ex_link_local ex_two ''o3'' ''b3'' = Inr (ex_third,
     \<lparr>lg_allocations = lg_allocations ex_two @ [(''o3'', ex_third)], lg_uids = lg_uids ex_two @ [(''o3'', ''b3'')]\<rparr>)"
proof -
  have t: "transit_candidate (Prefix (V4 0xA9FC0000) 14) 16 0 = Prefix (V4 0xA9FC0000) 16"
    "transit_candidate (Prefix (V4 0xA9FC0000) 14) 16 (Suc 0) = Prefix (V4 0xA9FD0000) 16"
    "transit_candidate (Prefix (V4 0xA9FC0000) 14) 16 2 = Prefix (V4 0xA9FE0000) 16"
    by (simp_all add: transit_candidate_def ip_at_def push_bit_eq_mult)
  have x: "prefix_text (Prefix (V4 0xA9FC0000) 16) = ''169.252.0.0/16''" "prefix_text (Prefix (V4 0xA9FD0000) 16) = ''169.253.0.0/16''"
    "prefix_text (Prefix (V4 0xA9FE0000) 16) = ''169.254.0.0/16''" "v4_str 0xA9FE0001 = ''169.254.0.1''"
    "v4_str 0x0A020009 = ''10.2.0.9''" "v4_str 0x0A02000A = ''10.2.0.10''" "v4_str 0x0A02000B = ''10.2.0.11''"
    using v4_prefix_text [of _ 16] by (simp_all add: v4_text)
  have "[0..<4::nat] = [0, Suc 0, 2, 3]" "[Suc 0..<7] = [Suc 0, 2, 3, 4, 5, 6]" by (simp_all add: upt_rec)
  then show ?thesis
    by (simp add: reserve_def Let_def ex_two_def ex_link_local_def pool_of_def link_local_texts free_transit_def free_bfd_def t x
        ip_at_def addr_text_def ex_third_def)
qed

lemma link_local_ledger_ok: "ledger_ok ex_link_local ex_two"
proof -
  have "''10.2.0.9'' = v4_str 0x0A020009" "''10.2.0.10'' = v4_str 0x0A02000A" by (simp_all add: v4_text)
  moreover have "site_host (v4_str 0x0A020009) (Prefix (V4 0x0A020008) 29) = Inr (V4 0x0A020009)"
    "site_host (v4_str 0x0A02000A) (Prefix (V4 0x0A020008) 29) = Inr (V4 0x0A02000A)"
    by (simp_all add: site_host_def contains_V4 block_def v4_classes)
  moreover have "v4_str 0xA9FC0001 = ''169.252.0.1''" "v4_str 0xA9FD0001 = ''169.253.0.1''" by (simp_all add: v4_text)
  ultimately show ?thesis
    by (simp add: ledger_ok_def entries_ok_def retained_ok_def ex_two_def ex_link_local_def pool_of_def link_local_texts
        contains_V4 block_def prefix_end_def addr_text_def v4_classes mget_def)
qed

lemma unreadable_text:
  assumes "plain_json (state_json (state_of cfg l))" and "distinct (map fst (lg_allocations l))" and "distinct (map fst (lg_uids l))"
    and "(owner, a) \<in> set (lg_allocations l)" and "\<not> is_ok (site_prefix (na_transit_cidr a))"
    and "mget (cm_data cm) ''state.json'' = json_enc (state_json (state_of cfg l))"
  shows "\<exists>e. read_allocation_state cm cfg = Inl e"
proof (cases "read_allocation_state cm cfg")
  case (Inr l')
  then have "unmarshal decode_state (json_enc (state_json (state_of cfg l))) no_state = Some (state_of cfg l')"
    using assms(6) by (simp add: read_allocation_state_iff)
  then have "state_of cfg l' = state_of cfg \<lparr>lg_allocations = sort_slice fst (lg_allocations l), lg_uids = sort_slice fst (lg_uids l)\<rparr>"
    using decode_state_encoded [OF assms(2,3), of cfg] by (simp add: unmarshal_def json_parse_enc [OF assms(1)])
  then have "lg_allocations l' = sort_slice fst (lg_allocations l)" by (simp add: state_of_def)
  then have "retained_ok cfg (lg_uids l') (owner, a)"
    using Inr assms(4) by (auto simp: read_allocation_state_iff entries_ok_def)
  with assms(5) show ?thesis by (auto simp: retained_ok_def)
qed simp

lemma link_local_unusable: "v4_link_local w \<Longrightarrow> \<not> is_ok (site_prefix (v4_prefix_str w n))"
proof
  assume w: "v4_link_local w" and "is_ok (site_prefix (v4_prefix_str w n))"
  then obtain x b where "v4_prefix_str w n = v4_prefix_str x b" "usable_net x b" by (auto simp: is_ok_iff elim!: site_prefixE)
  with w show False by (simp add: v4_prefix_str_inject usable_net_def v4_global_unicast_def)
qed

text \<open>What a reservation looks like in a validated installation, whatever its pools contain.\<close>

lemma reserved_texts:
  assumes "local_validate L cfg = Inr ()" and "reserve cfg l owner uid = Inr (a, l')"
  shows "ascii (na_transit_cidr a) \<and> ascii (na_router_ip a) \<and> ascii (na_bfd_source_ip a)
    \<and> l' = \<lparr>lg_allocations = mput owner a (lg_allocations l), lg_uids = mput owner uid (lg_uids l)\<rparr>"
proof -
  from local_validate_sound [OF assms(1)] obtain tw tb bw bb where
    pools: "pool_of (lc_transit_pool cfg) = Prefix (V4 tw) (int tb)" "pool_of (lc_bfd_source_pool cfg) = Prefix (V4 bw) (int bb)"
    by (auto simp: pool_of_text)
  from assms(2) obtain p x where p: "free_transit (Prefix (V4 tw) (int tb)) (nat (lc_transit_prefix_length cfg)) (map na_transit_cidr (map snd (lg_allocations l))) = Some p"
    and x: "free_bfd (Prefix (V4 bw) (int bb)) (map na_bfd_source_ip (map snd (lg_allocations l))) = Some x"
    and a: "a = \<lparr>na_transit_cidr = prefix_text p, na_router_ip = addr_text (addr_next (p_addr p)), na_bfd_source_ip = addr_text x\<rparr>"
    and l': "l' = \<lparr>lg_allocations = mput owner a (lg_allocations l), lg_uids = mput owner uid (lg_uids l)\<rparr>"
    unfolding reserve_def Let_def pools by (auto split: option.splits if_splits)
  have "\<exists>c. p = Prefix (V4 c) (int len)" if "free_transit (Prefix (V4 tw) (int tb)) len taken = Some p" for len taken
    using that by (auto simp: free_transit_def transit_candidate_def ip_at_def)
  from this [OF p] obtain c len where "p = Prefix (V4 c) (int len)" by blast
  then have "ascii (prefix_text p)" "ascii (addr_text (addr_next (p_addr p)))"
    by (auto simp: v4_prefix_text v4_prefix_str_def addr_text_def split: addr.splits)
  moreover from x have "ascii (addr_text x)" by (auto simp: free_bfd_def ip_at_def addr_text_def)
  ultimately show ?thesis using l' by (simp add: a)
qed

lemma plain_state_extended:
  assumes "ledger_ok cfg l" and "ascii_ledger cfg l" and "ascii owner" and "ascii uid"
    and "ascii (na_transit_cidr a) \<and> ascii (na_router_ip a) \<and> ascii (na_bfd_source_ip a)"
  shows "plain_json (state_json (state_of cfg \<lparr>lg_allocations = lg_allocations l @ [(owner, a)], lg_uids = lg_uids l @ [(owner, uid)]\<rparr>))"
proof -
  have "ascii (na_transit_cidr c) \<and> ascii (na_router_ip c) \<and> ascii (na_bfd_source_ip c)" if "(k, c) \<in> set (lg_allocations l)" for k c
  proof -
    have "retained_ok cfg (lg_uids l) (k, c)" using that assms(1) by (auto simp: ledger_ok_def entries_ok_def)
    then show ?thesis
      by (auto simp: retained_ok_def is_ok_iff dest: site_prefix_ascii site_host_ascii)
  qed
  then have "plain_json (json_map allocation_json (lg_allocations l @ [(owner, a)]))" "plain_json (json_map JStr (lg_uids l @ [(owner, uid)]))"
    using assms(2-5) by (fastforce simp: ascii_ledger_def list_all_iff allocation_json_def intro!: plain_json_map)+
  then show ?thesis using assms(2) by (simp add: state_json_def state_of_def map_or_null_def ascii_ledger_def)
qed

text \<open>A run in which the ledger was found with a given content.\<close>

definition ledger_answer :: "local_config \<Rightarrow> string \<Rightarrow> (lobj kreq \<times> lobj kresp) list \<Rightarrow> bool" where
  "ledger_answer cfg text h \<longleftrightarrow> (\<exists>cm. (Get ''ConfigMap'' (lc_namespace cfg) allocation_ledger_name, Obj (LMap cm)) \<in> set h
     \<and> mget (cm_data cm) ''state.json'' = text)"

fun only_looks :: "lobj kreq \<Rightarrow> bool" where
  "only_looks (Get kind ns name) = True"
| "only_looks (List kind ns labels) = True"
| "only_looks q = False"

text \<open>Such a run fails and has asked for no change.\<close>

definition fenced :: "local_config \<Rightarrow> string \<Rightarrow> (lobj kreq \<times> lobj kresp) list \<Rightarrow> err + 'a \<Rightarrow> bool" where
  "fenced cfg text h x \<longleftrightarrow> ledger_answer cfg text h \<longrightarrow> (\<exists>e. x = Inl e) \<and> (\<forall>(q, y)\<in>set h. only_looks q)"

lemma ledger_answer_simps [simp]:
  "\<not> ledger_answer cfg text []" "ledger_answer cfg text (h @ t) \<longleftrightarrow> ledger_answer cfg text h \<or> ledger_answer cfg text t"
  "ledger_answer cfg text ((q, y) # t) \<longleftrightarrow> q = Get ''ConfigMap'' (lc_namespace cfg) allocation_ledger_name
     \<and> (\<exists>cm. y = Obj (LMap cm) \<and> mget (cm_data cm) ''state.json'' = text) \<or> ledger_answer cfg text t"
  by (auto simp: ledger_answer_def)

lemma finish_unfenced:
  "\<not> ledger_answer cfg text h \<Longrightarrow> always (\<lambda>_ _. True) (finish_allocation cfg bindings found cm l b) (\<lambda>h x. \<not> ledger_answer cfg text h) h"
  by (auto simp: finish_allocation_def read_identity_def commit_reservation_def commit_receipt_def split: option.splits sum.splits prod.splits kresp.splits)

lemma allocate_fenced:
  assumes "\<And>cm. mget (cm_data cm) ''state.json'' = text \<Longrightarrow> \<exists>e. read_allocation_state cm cfg = Inl e"
  shows "always (\<lambda>_ _. True) (local_allocate L cfg b) (fenced cfg text) []"
proof -
  have names: "allocation_identity_name \<noteq> allocation_ledger_name" by (simp add: allocation_identity_name_def allocation_ledger_name_def)
  have quiet: "fenced cfg text h x" if "\<not> ledger_answer cfg text h" for h and x :: "err + 'x" using that by (simp add: fenced_def)
  have rest: "always (\<lambda>_ _. True) (ebind (lift_res Errorf (read_allocation_state cm cfg)) (\<lambda>l. finish_allocation cfg bindings found cm l b)) (fenced cfg text) h"
    if "ledger_answer cfg text h \<longrightarrow> mget (cm_data cm) ''state.json'' = text \<and> (\<forall>(q, y)\<in>set h. only_looks q)" for cm bindings found h
  proof (cases "read_allocation_state cm cfg")
    case (Inl e)
    with that show ?thesis by (simp add: fenced_def)
  next
    case (Inr l)
    with that assms have "\<not> ledger_answer cfg text h" by fastforce
    show ?thesis
      by (simp add: Inr) (rule always_mono [OF finish_unfenced [OF \<open>\<not> ledger_answer cfg text h\<close>]], simp_all add: quiet)
  qed
  have tail: "always (\<lambda>_ _. True) (ebind (read_ledger cfg bindings k) (\<lambda>cm. ebind (lift_res Errorf (read_allocation_state cm cfg))
      (\<lambda>l. finish_allocation cfg bindings found cm l b))) (fenced cfg text) h"
    if "\<not> ledger_answer cfg text h" "\<forall>(q, y)\<in>set h. only_looks q" for bindings k found h
  proof -
    have "always (\<lambda>_ _. True) (read_ledger cfg bindings k) (\<lambda>h' x. case x of Inl e \<Rightarrow> fenced cfg text h' (Inl e)
        | Inr cm \<Rightarrow> ledger_answer cfg text h' \<longrightarrow> mget (cm_data cm) ''state.json'' = text \<and> (\<forall>(q, y)\<in>set h'. only_looks q)) h"
      using that by (auto simp: read_ledger_def fenced_def decode_error_def split: sum.splits kresp.splits option.splits)
    then show ?thesis
      unfolding always_ebind [of _ "read_ledger cfg bindings k"] by (rule always_mono) (auto split: sum.splits intro!: rest simp del: always_ebind)
  qed
  show ?thesis
    unfolding local_allocate_def
    by (auto simp: names quiet simp del: always_ebind simp add: always_ebind [of _ "klist _ _ _ _"] always_ebind [of _ "lift_res _ (local_validate _ _)"]
      always_ebind [of _ "Ret _"] split: sum.splits kresp.splits option.splits intro!: tail)
qed

text \<open>
  C29: in a validated installation, when a reservation that is added to a ledger in order takes a network in the
  link-local range, the site is fenced: no later pass can read the ledger back. Whatever binding it works on
  and whatever else the API server answers, a pass that finds the ledger with that content ends with an error,
  hands out no reservation and has asked for no change. (The validation looks at the first and last address of
  the pool only, so a pool around \<open>169.254.0.0/16\<close> passes it; the witness is such an installation.)
\<close>

theorem link_local_pool_fences:
  assumes "local_validate L cfg = Inr ()" and "ledger_ok cfg l" and "ascii_ledger cfg l" and "ascii owner" and "ascii uid"
    and "map_of (lg_allocations l) owner = None" and "map_of (lg_uids l) owner = None"
    and "reserve cfg l owner uid = Inr (a, l')" and "na_transit_cidr a = v4_prefix_str w n" and "v4_link_local w"
  shows "every_outcome (fenced cfg (json_enc (state_json (state_of cfg l')))) (local_allocate L' cfg b)"
proof (rule every_outcomeI, rule allocate_fenced, rule unreadable_text)
  note t = reserved_texts [OF assms(1,8)]
  then have l': "l' = \<lparr>lg_allocations = lg_allocations l @ [(owner, a)], lg_uids = lg_uids l @ [(owner, uid)]\<rparr>"
    using assms(6,7) by (simp add: set_mput_new map_of_eq_None_iff)
  show "plain_json (state_json (state_of cfg l'))"
    unfolding l' using plain_state_extended [OF assms(2-5)] t by blast
  show "distinct (map fst (lg_allocations l'))" "distinct (map fst (lg_uids l'))"
    using assms(2,6,7) by (auto simp: l' ledger_ok_def map_of_eq_None_iff)
  show "(owner, a) \<in> set (lg_allocations l')" by (simp add: l')
  show "\<not> is_ok (site_prefix (na_transit_cidr a))" unfolding assms(9) using assms(10) by (rule link_local_unusable)
qed

theorem link_local_pool_fences_witness:
  "local_validate k8s_ref ex_link_local = Inr () \<and> ledger_ok ex_link_local ex_two
    \<and> (\<exists>a l'. reserve ex_link_local ex_two ''o3'' ''b3'' = Inr (a, l')
         \<and> (\<forall>b. every_outcome (fenced ex_link_local (json_enc (state_json (state_of ex_link_local l')))) (local_allocate k8s_ref ex_link_local b)))"
proof -
  have "ascii_ledger ex_link_local ex_two" by (simp add: ascii_ledger_def ex_two_def ex_link_local_def ex_local_def)
  moreover have "na_transit_cidr ex_third = v4_prefix_str 0xA9FE0000 16" by (simp add: ex_third_def v4_text)
  moreover have "v4_link_local 0xA9FE0000" by (simp add: v4_link_local_def)
  moreover have "map_of (lg_allocations ex_two) ''o3'' = None" "map_of (lg_uids ex_two) ''o3'' = None" "ascii ''o3''" "ascii ''b3''"
    by (simp_all add: ex_two_def)
  ultimately show ?thesis
    using link_local_pool_fences [OF link_local_valid link_local_ledger_ok _ _ _ _ _ link_local_reserve, of _ _ k8s_ref]
      link_local_valid link_local_ledger_ok link_local_reserve by blast
qed

end
