(* ===== verification/Local_Sync.thy ===== *)
theory Local_Sync
  imports Local_Allocation Platform_Plan
begin

text \<open>
  \<open>internal/localcontroller/sync.go\<close>: the copy of the authority's snapshots into the site. The syncer
  talks to two API servers, so its requests carry the side they are sent to. A run of \<open>sync_once\<close> reads
  the authorized snapshots and, for each, reads the local copy and creates, rewrites or forgets it, or
  reports its status back. The contract proved here holds for all answers of both servers.
\<close>

section \<open>Two API servers\<close>

datatype side = Authority "lobj kreq" | Local "lobj kreq"

type_synonym 'a sprog = "(side, lobj kresp, 'a) prog"

primrec sent_to :: "('q \<Rightarrow> 's) \<Rightarrow> ('q, 'r, 'a) prog \<Rightarrow> ('s, 'r, 'a) prog" where
  "sent_to f (Ret a) = Ret a"
| "sent_to f (Call q k) = Call (f q) (\<lambda>r. sent_to f (k r))"

definition source_generation_annotation :: string where
  "source_generation_annotation = ''platform.globalvpc.io/source-generation''"

section \<open>One snapshot\<close>

text \<open>The local copy of a snapshot that is not there yet.\<close>

definition local_copy :: "local_config \<Rightarrow> network_binding \<Rightarrow> network_binding" where
  "local_copy cfg remote = \<lparr>nb_meta = empty_meta\<lparr>om_namespace := lc_namespace cfg, om_name := om_name (nb_meta remote),
       om_labels := [(api_location_label, lc_location_ref cfg)],
       om_annotations := [(source_uid_annotation, om_uid (nb_meta remote)),
         (source_generation_annotation, int_str (om_generation (nb_meta remote)))]\<rparr>,
     nb_spec = nb_spec remote, nb_status = empty_binding_status\<rparr>"

text \<open>A tombstone whose cleanup is acknowledged.\<close>

definition cleaned_up :: "network_binding \<Rightarrow> bool" where
  "cleaned_up b \<longleftrightarrow> b_deleting (nb_spec b) \<and> bst_phase (nb_status b) = ''Deleted''
     \<and> bst_applied_revision (nb_status b) = b_revision (nb_spec b)
     \<and> bst_resources (nb_status b) = [] \<and> bst_gateways (nb_status b) = []"

definition accept_snapshot :: "network_binding \<Rightarrow> network_binding \<Rightarrow> network_binding" where
  "accept_snapshot local remote = local\<lparr>nb_spec := nb_spec remote,
     nb_meta := (nb_meta local)\<lparr>om_annotations := mput source_generation_annotation (int_str (om_generation (nb_meta remote)))
       (om_annotations (nb_meta local))\<rparr>\<rparr>"

text \<open>The status reported to the authority counts the authority's generation.\<close>

definition reported_status :: "network_binding \<Rightarrow> network_binding \<Rightarrow> binding_status" where
  "reported_status local remote =
     (let st = nb_status local;
          g = (if bst_applied_revision st = b_revision (nb_spec remote) then om_generation (nb_meta remote) else 0)
      in st\<lparr>bst_observed_generation := g, bst_conditions := map (\<lambda>c. c\<lparr>cd_generation := g\<rparr>) (bst_conditions st)\<rparr>)"

definition report_back :: "network_binding \<Rightarrow> network_binding \<Rightarrow> (err + unit) sprog" where
  "report_back local remote =
     (let st = reported_status local remote in
      if nb_status remote \<noteq> st then sent_to Authority (kdo (UpdateStatus (LBinding (remote\<lparr>nb_status := st\<rparr>)))) else go ())"

text \<open>The local copy exists and belongs to this incarnation of the snapshot.\<close>

definition sync_existing :: "local_config \<Rightarrow> network_binding \<Rightarrow> network_binding \<Rightarrow> (err + unit) sprog" where
  "sync_existing cfg remote local =
     (if mget (om_annotations (nb_meta local)) source_uid_annotation \<noteq> om_uid (nb_meta remote) then
        (if cleaned_up local
         then sent_to Local (kdo (Delete (LBinding local) (Some (om_uid (nb_meta local))) (Some (om_resource_version (nb_meta local)))))
         else leave (Errorf ''previous local binding incarnation has not completed cleanup''))
      else if b_vpc_ref (nb_spec local) \<noteq> b_vpc_ref (nb_spec remote) \<or> b_location_ref (nb_spec local) \<noteq> lc_location_ref cfg
      then leave (Errorf ''local snapshot belongs to another authority identity'')
      else (case parse_int64 (mget (om_annotations (nb_meta local)) source_generation_annotation) of
          None \<Rightarrow> leave (Errorf ''authority generation is older than the accepted local snapshot'')
        | Some generation \<Rightarrow>
            if om_generation (nb_meta remote) < generation
            then leave (Errorf ''authority generation is older than the accepted local snapshot'')
            else if om_generation (nb_meta remote) = generation \<and> nb_spec local \<noteq> nb_spec remote
            then leave (Errorf ''authority changed snapshot without advancing generation'')
            else if generation < om_generation (nb_meta remote) then
              (if b_deleting (nb_spec local) \<and> \<not> b_deleting (nb_spec remote)
               then leave (Errorf ''cannot resurrect a deleting local snapshot'')
               else ebind (sent_to Local (kwrite l_binding (Update (LBinding (accept_snapshot local remote))))) (\<lambda>local'.
                    report_back local' remote))
            else report_back local remote))"

text \<open>What is checked before the local copy is read.\<close>

definition snapshot_ok :: "local_config \<Rightarrow> network_binding \<Rightarrow> unit res" where
  "snapshot_ok cfg remote =
     (if b_location_ref (nb_spec remote) \<noteq> lc_location_ref cfg then Inl ''authority snapshot belongs to another location''
      else guard (om_name (nb_meta remote) = binding_name (oi_uid (b_vpc_ref (nb_spec remote))) (lc_location_ref cfg)
          \<and> b_revision (nb_spec remote) = revision (nb_spec remote)) ''authority snapshot identity or revision is invalid'')"

definition sync_snapshot :: "local_config \<Rightarrow> network_binding \<Rightarrow> (err + unit) sprog" where
  "sync_snapshot cfg remote =
     ebind (lift_res Errorf (snapshot_ok cfg remote)) (\<lambda>_.
     pbind (sent_to Local (kget l_binding ''NetworkBinding'' (lc_namespace cfg) (om_name (nb_meta remote)))) (\<lambda>got. case got of
       Inl e \<Rightarrow> if is_not_found e then sent_to Local (kdo (Create (LBinding (local_copy cfg remote)))) else leave e
     | Inr local \<Rightarrow> sync_existing cfg remote local))"

section \<open>One round\<close>

primrec sync_all :: "local_config \<Rightarrow> network_binding list \<Rightarrow> string list sprog" where
  "sync_all cfg [] = Ret []"
| "sync_all cfg (r # rs) = pbind (sync_snapshot cfg r) (\<lambda>x. pbind (sync_all cfg rs) (\<lambda>failures.
     Ret (case x of Inl e \<Rightarrow> (''binding '' @ om_name (nb_meta r) @ '': '' @ err_text e) # failures | Inr u \<Rightarrow> failures)))"

definition sync_once :: "local_config \<Rightarrow> (err + unit) sprog" where
  "sync_once cfg =
     pbind (sent_to Authority (klist l_binding ''NetworkBinding'' (Some (lc_authority_namespace cfg)) [])) (\<lambda>got. case got of
       Inl e \<Rightarrow> leave (Errorf ''cannot read authorized location snapshots'')
     | Inr items \<Rightarrow> pbind (sync_all cfg items) (\<lambda>failures.
         if failures = [] then go () else leave (Errorf (join [CHR 0x0A] failures))))"

section \<open>Calls\<close>

lemma always_sent_kget [simp]: "always G (sent_to f (kget prj kind ns name)) Q h \<longleftrightarrow> G h (f (Get kind ns name)) \<and>
    (\<forall>r. Q (h @ [(f (Get kind ns name), r)]) (case r of Failed e \<Rightarrow> Inl e
      | Obj x \<Rightarrow> (case prj x of None \<Rightarrow> Inl decode_error | Some a \<Rightarrow> Inr a) | _ \<Rightarrow> Inl decode_error))"
  by (simp add: kget_def)

lemma always_sent_klist [simp]: "always G (sent_to f (klist prj kind ns labels)) Q h \<longleftrightarrow> G h (f (List kind ns labels)) \<and>
    (\<forall>r. Q (h @ [(f (List kind ns labels), r)]) (case r of Failed e \<Rightarrow> Inl e
      | Items xs \<Rightarrow> (if list_all (\<lambda>x. prj x \<noteq> None) xs then Inr (List.map_filter prj xs) else Inl decode_error)
      | _ \<Rightarrow> Inl decode_error))"
  by (simp add: klist_def)

lemma always_sent_kwrite [simp]: "always G (sent_to f (kwrite prj q)) Q h \<longleftrightarrow> G h (f q) \<and>
    (\<forall>r. Q (h @ [(f q, r)]) (case r of Failed e \<Rightarrow> Inl e
      | Obj x \<Rightarrow> (case prj x of None \<Rightarrow> Inl decode_error | Some a \<Rightarrow> Inr a) | _ \<Rightarrow> Inl decode_error))"
  by (simp add: kwrite_def)

lemma always_sent_kdo [simp]: "always G (sent_to f (kdo q)) Q h \<longleftrightarrow> G h (f q) \<and>
    (\<forall>r. Q (h @ [(f q, r)]) (case r of Failed e \<Rightarrow> Inl e | _ \<Rightarrow> Inr ()))"
  by (simp add: kdo_def)

section \<open>The contract of a round\<close>

text \<open>\<open>copy_read h b\<close>: the local API answered a read with this copy.\<close>

definition copy_read :: "local_config \<Rightarrow> (side \<times> lobj kresp) list \<Rightarrow> network_binding \<Rightarrow> bool" where
  "copy_read cfg h b \<longleftrightarrow> (\<exists>name. (Local (Get ''NetworkBinding'' (lc_namespace cfg) name), Obj (LBinding b)) \<in> set h)"

definition authorized :: "local_config \<Rightarrow> (side \<times> lobj kresp) list \<Rightarrow> network_binding \<Rightarrow> bool" where
  "authorized cfg h r \<longleftrightarrow> (\<exists>q xs. (Authority q, Items xs) \<in> set h \<and> LBinding r \<in> set xs) \<and> snapshot_ok cfg r = Inr ()"

definition generation_of :: "network_binding \<Rightarrow> int option" where
  "generation_of b = parse_int64 (mget (om_annotations (nb_meta b)) source_generation_annotation)"

text \<open>A rewrite moves a copy forward to a snapshot the authority authorized: same incarnation, same
  VPC, a higher generation, and no way back from a tombstone.\<close>

definition forward :: "local_config \<Rightarrow> network_binding \<Rightarrow> network_binding \<Rightarrow> network_binding \<Rightarrow> bool" where
  "forward cfg local remote b \<longleftrightarrow> b = accept_snapshot local remote
     \<and> mget (om_annotations (nb_meta local)) source_uid_annotation = om_uid (nb_meta remote)
     \<and> b_vpc_ref (nb_spec local) = b_vpc_ref (nb_spec remote) \<and> b_location_ref (nb_spec local) = lc_location_ref cfg
     \<and> (\<exists>g. generation_of local = Some g \<and> g < om_generation (nb_meta remote))
     \<and> (b_deleting (nb_spec local) \<longrightarrow> b_deleting (nb_spec remote))"

fun sync_contract :: "local_config \<Rightarrow> (side \<times> lobj kresp) list \<Rightarrow> side \<Rightarrow> bool" where
  "sync_contract cfg h (Authority q) = (case q of
      List kind ns labels \<Rightarrow> True
    | UpdateStatus (LBinding b) \<Rightarrow> (\<exists>r. authorized cfg h r \<and> nb_meta b = nb_meta r \<and> nb_spec b = nb_spec r)
    | _ \<Rightarrow> False)"
| "sync_contract cfg h (Local q) = (case q of
      Get kind ns name \<Rightarrow> True
    | Create (LBinding b) \<Rightarrow> (\<exists>r. authorized cfg h r \<and> b = local_copy cfg r)
    | Update (LBinding b) \<Rightarrow> (\<exists>local r. copy_read cfg h local \<and> authorized cfg h r \<and> forward cfg local r b)
    | Delete (LBinding b) uid rv \<Rightarrow> copy_read cfg h b \<and> cleaned_up b
        \<and> (\<exists>r. authorized cfg h r \<and> mget (om_annotations (nb_meta b)) source_uid_annotation \<noteq> om_uid (nb_meta r))
        \<and> uid = Some (om_uid (nb_meta b)) \<and> rv = Some (om_resource_version (nb_meta b))
    | _ \<Rightarrow> False)"

lemma authorized_mono: "authorized cfg h r \<Longrightarrow> authorized cfg (h @ t) r"
  by (auto simp: authorized_def)

lemma copy_read_mono: "copy_read cfg h b \<Longrightarrow> copy_read cfg (h @ t) b"
  by (auto simp: copy_read_def)

lemma report_back_contract:
  "authorized cfg h r \<Longrightarrow> always (sync_contract cfg) (report_back local r) (\<lambda>h' x. \<exists>t. h' = h @ t) h"
  by (auto simp: report_back_def Let_def)

lemma sync_existing_contract:
  assumes "authorized cfg h r" and "copy_read cfg h local"
  shows "always (sync_contract cfg) (sync_existing cfg r local) (\<lambda>h' x. \<exists>t. h' = h @ t) h"
proof -
  have fwd: "sync_contract cfg h (Local (Update (LBinding (accept_snapshot local r))))"
    if "mget (om_annotations (nb_meta local)) source_uid_annotation = om_uid (nb_meta r)"
      "b_vpc_ref (nb_spec local) = b_vpc_ref (nb_spec r)" "b_location_ref (nb_spec local) = lc_location_ref cfg"
      "generation_of local = Some g" "g < om_generation (nb_meta r)" "b_deleting (nb_spec local) \<longrightarrow> b_deleting (nb_spec r)" for g
  proof -
    have "forward cfg local r (accept_snapshot local r)" using that by (simp add: forward_def)
    with assms show ?thesis by auto
  qed
  have reply: "always (sync_contract cfg) (report_back c r) (\<lambda>h' x. \<exists>t. h' = h @ t) (h @ u)" for c u
    by (rule always_mono [OF report_back_contract [OF authorized_mono [OF assms(1)]]]) auto
  show ?thesis
    using assms fwd report_back_contract [OF assms(1)] reply
    by (auto simp: sync_existing_def generation_of_def split: option.splits kresp.splits sum.splits)
qed

lemma sync_snapshot_contract:
  assumes "(Authority q, Items xs) \<in> set h" and "LBinding r \<in> set xs"
  shows "always (sync_contract cfg) (sync_snapshot cfg r) (\<lambda>h' x. (\<exists>t. h' = h @ t)
    \<and> (snapshot_ok cfg r = Inr () \<longrightarrow> Local (Get ''NetworkBinding'' (lc_namespace cfg) (om_name (nb_meta r))) \<in> fst ` set h')) h"
proof (cases "snapshot_ok cfg r")
  case (Inr u)
  let ?g = "Local (Get ''NetworkBinding'' (lc_namespace cfg) (om_name (nb_meta r)))"
  let ?Q = "\<lambda>h' x. (\<exists>t. h' = h @ t) \<and> ?g \<in> fst ` set h'"
  have a: "authorized cfg h r" using assms Inr by (auto simp: authorized_def)
  have existing: "always (sync_contract cfg) (sync_existing cfg r b) ?Q (h @ [(?g, Obj (LBinding b))])" for b
  proof -
    have "copy_read cfg (h @ [(?g, Obj (LBinding b))]) b" by (auto simp: copy_read_def)
    then show ?thesis by (intro always_mono [OF sync_existing_contract [OF authorized_mono [OF a]]]) auto
  qed
  have fresh: "sync_contract cfg (h @ t) (Local (Create (LBinding (local_copy cfg r))))" for t
    using authorized_mono [OF a] by auto
  have gone: "always (sync_contract cfg) (sent_to Local (kdo (Create (LBinding (local_copy cfg r))))) ?Q (h @ [(?g, x)])" for x
    using fresh by auto
  show ?thesis
    using existing gone Inr
    by (auto simp: sync_snapshot_def ebind_lift_res decode_error_def simp del: always_ebind always_sent_kdo
        split: kresp.splits option.splits)
qed (simp add: sync_snapshot_def ebind_lift_res del: always_ebind)

lemma sync_all_contract:
  assumes "(Authority q, Items xs) \<in> set h" and "\<forall>r\<in>set rs. LBinding r \<in> set xs"
  shows "always (sync_contract cfg) (sync_all cfg rs) (\<lambda>h' x. (\<exists>t. h' = h @ t)
    \<and> (\<forall>r\<in>set rs. snapshot_ok cfg r = Inr () \<longrightarrow>
         Local (Get ''NetworkBinding'' (lc_namespace cfg) (om_name (nb_meta r))) \<in> fst ` set h')) h"
  using assms
proof (induction rs arbitrary: h)
  case (Cons r rs)
  have rest: "always (sync_contract cfg) (sync_all cfg rs) (\<lambda>h' x. (\<exists>t. h' = h @ t)
      \<and> (\<forall>r\<in>set (r # rs). snapshot_ok cfg r = Inr () \<longrightarrow>
           Local (Get ''NetworkBinding'' (lc_namespace cfg) (om_name (nb_meta r))) \<in> fst ` set h')) (h @ t)"
    if "snapshot_ok cfg r = Inr () \<longrightarrow> Local (Get ''NetworkBinding'' (lc_namespace cfg) (om_name (nb_meta r))) \<in> fst ` set (h @ t)" for t
  proof (rule always_mono [OF Cons.IH [of "h @ t"]])
    show "(Authority q, Items xs) \<in> set (h @ t)" "\<forall>r\<in>set rs. LBinding r \<in> set xs" using Cons.prems by simp_all
  qed (use that in auto)
  have "always (sync_contract cfg) (sync_snapshot cfg r) (\<lambda>h' x. (\<exists>t. h' = h @ t)
      \<and> (snapshot_ok cfg r = Inr () \<longrightarrow> Local (Get ''NetworkBinding'' (lc_namespace cfg) (om_name (nb_meta r))) \<in> fst ` set h')) h"
    using Cons.prems by (intro sync_snapshot_contract) auto
  then show ?case
    unfolding sync_all.simps always_pbind always.simps
  proof (rule always_mono, goal_cases)
    case (2 h' x)
    then obtain t where "h' = h @ t" by blast
    with 2 show ?case using rest [of t] by (auto simp del: sync_all.simps)
  qed
qed simp

lemma decoded_items:
  assumes "list_all (\<lambda>x. l_binding x \<noteq> None) xs"
  shows "\<forall>r\<in>set (List.map_filter l_binding xs). LBinding r \<in> set xs" and "LBinding r \<in> set xs \<Longrightarrow> r \<in> set (List.map_filter l_binding xs)"
  using assms by (auto simp: map_filter_def list_all_iff image_iff intro: bexI [of _ "LBinding r"])

text \<open>A round: the contract at every request, and a look at every well-formed snapshot.\<close>

lemma sync_once_run:
  "always (sync_contract cfg) (sync_once cfg) (\<lambda>h x. \<forall>xs r. hd h = (Authority (List ''NetworkBinding'' (Some (lc_authority_namespace cfg)) []), Items xs)
      \<longrightarrow> list_all (\<lambda>x. l_binding x \<noteq> None) xs \<longrightarrow> LBinding r \<in> set xs \<longrightarrow> snapshot_ok cfg r = Inr ()
      \<longrightarrow> Local (Get ''NetworkBinding'' (lc_namespace cfg) (om_name (nb_meta r))) \<in> fst ` set h) []"
proof -
  let ?l = "Authority (List ''NetworkBinding'' (Some (lc_authority_namespace cfg)) [])"
  have round: "always (sync_contract cfg) (sync_all cfg (List.map_filter l_binding xs))
      (\<lambda>h x. \<forall>ys r. hd h = (?l, Items ys) \<longrightarrow> list_all (\<lambda>x. l_binding x \<noteq> None) ys \<longrightarrow> LBinding r \<in> set ys \<longrightarrow> snapshot_ok cfg r = Inr ()
        \<longrightarrow> Local (Get ''NetworkBinding'' (lc_namespace cfg) (om_name (nb_meta r))) \<in> fst ` set h) [(?l, Items xs)]"
    if "list_all (\<lambda>x. l_binding x \<noteq> None) xs" for xs
  proof -
    have "always (sync_contract cfg) (sync_all cfg (List.map_filter l_binding xs)) (\<lambda>h' x. (\<exists>t. h' = [(?l, Items xs)] @ t)
        \<and> (\<forall>r\<in>set (List.map_filter l_binding xs). snapshot_ok cfg r = Inr () \<longrightarrow>
             Local (Get ''NetworkBinding'' (lc_namespace cfg) (om_name (nb_meta r))) \<in> fst ` set h')) [(?l, Items xs)]"
      using decoded_items(1) [OF that] by (intro sync_all_contract [where xs = xs]) simp_all
    then show ?thesis by (rule always_mono) (use decoded_items(2) [OF that] in auto)
  qed
  show ?thesis
    using round by (auto simp: sync_once_def split: kresp.splits if_splits elim!: always_mono)
qed

section \<open>The life of a local copy\<close>

text \<open>
  The local copy of one name as a state machine: the syncer creates, rewrites and forgets it, the local
  reconciler and the allocator only report on it.
\<close>

definition int64 :: "int \<Rightarrow> bool" where
  "int64 g \<longleftrightarrow> - (2 ^ 63) \<le> g \<and> g < 2 ^ 63"

inductive copy_step :: "local_config \<Rightarrow> network_binding option \<Rightarrow> network_binding option \<Rightarrow> bool" for cfg where
  created: "snapshot_ok cfg r = Inr () \<Longrightarrow> copy_step cfg None (Some (local_copy cfg r))"
| rewritten: "forward cfg b r b' \<Longrightarrow> int64 (om_generation (nb_meta r)) \<Longrightarrow> copy_step cfg (Some b) (Some b')"
| reported: "nb_spec b' = nb_spec b \<Longrightarrow> generation_of b' = generation_of b
    \<Longrightarrow> mget (om_annotations (nb_meta b')) source_uid_annotation = mget (om_annotations (nb_meta b)) source_uid_annotation
    \<Longrightarrow> copy_step cfg (Some b) (Some b')"
| forgotten: "cleaned_up b \<Longrightarrow> copy_step cfg (Some b) None"

inductive_cases copy_stepE [elim]: "copy_step cfg (Some b) (Some b')"

text \<open>A stretch of the life of a copy during which it exists.\<close>

inductive copy_life :: "local_config \<Rightarrow> network_binding \<Rightarrow> network_binding \<Rightarrow> bool" for cfg where
  now: "copy_life cfg b b"
| later: "copy_life cfg b b' \<Longrightarrow> copy_step cfg (Some b') (Some b'') \<Longrightarrow> copy_life cfg b b''"

definition newer :: "network_binding \<Rightarrow> network_binding \<Rightarrow> bool" where
  "newer b b' \<longleftrightarrow> mget (om_annotations (nb_meta b')) source_uid_annotation = mget (om_annotations (nb_meta b)) source_uid_annotation
     \<and> (b_deleting (nb_spec b) \<longrightarrow> b_deleting (nb_spec b'))
     \<and> (\<forall>g. generation_of b = Some g \<longrightarrow> (\<exists>g'. generation_of b' = Some g' \<and> g \<le> g' \<and> (g = g' \<longrightarrow> nb_spec b' = nb_spec b)))"

lemma parse_int64_int_str: "int64 g \<Longrightarrow> parse_int64 (int_str g) = Some g"
proof (cases "g < 0")
  case True
  assume "int64 g"
  with True show ?thesis by (simp add: int64_def int_str_def parse_int64_def)
next
  case False
  assume "int64 g"
  with False show ?thesis using parse_int64_nat_str [of "nat g"] by (simp add: int64_def int_str_def nat_less_iff)
qed

lemma newer_refl [simp]: "newer b b"
  by (simp add: newer_def)

lemma newer_trans: "newer a b \<Longrightarrow> newer b c \<Longrightarrow> newer a c"
  unfolding newer_def by (auto; fastforce)

lemma copy_step_newer:
  assumes "copy_step cfg (Some b) (Some b')"
  shows "newer b b'"
  using assms
proof cases
  case (rewritten r)
  then have "generation_of b' = Some (om_generation (nb_meta r))"
    by (simp add: forward_def accept_snapshot_def generation_of_def parse_int64_int_str)
  moreover have "nb_spec b' = nb_spec r" "mget (om_annotations (nb_meta b')) source_uid_annotation = mget (om_annotations (nb_meta b)) source_uid_annotation"
    using rewritten by (simp_all add: forward_def accept_snapshot_def source_uid_annotation_def source_generation_annotation_def)
  ultimately show ?thesis using rewritten by (auto simp: newer_def forward_def)
next
  case reported
  then show ?thesis by (auto simp: newer_def)
qed

section \<open>Properties\<close>

text \<open>Every listed snapshot that passes the checks is looked up locally, whatever happens to the others.\<close>

definition all_looked_up :: "local_config \<Rightarrow> (side \<times> lobj kresp) list \<Rightarrow> bool" where
  "all_looked_up cfg h \<longleftrightarrow>
     (\<forall>xs r. hd h = (Authority (List ''NetworkBinding'' (Some (lc_authority_namespace cfg)) []), Items xs)
        \<longrightarrow> list_all (\<lambda>x. l_binding x \<noteq> None) xs \<longrightarrow> LBinding r \<in> set xs \<longrightarrow> snapshot_ok cfg r = Inr ()
        \<longrightarrow> Local (Get ''NetworkBinding'' (lc_namespace cfg) (om_name (nb_meta r))) \<in> fst ` set h)"

text \<open>
  C23: in every round, for every answer of the two API servers, the syncer creates only copies of snapshots
  the authority listed and that carry their own name and revision, rewrites a copy it has read only
  forward (same incarnation and VPC, a higher generation, never from a tombstone back to a live
  snapshot), deletes only a copy of an earlier incarnation whose cleanup is complete and only with the
  UID and resource version it has read, and changes nothing but the status on the authority.
\<close>
theorem sync_once_contract: "every_step (sync_contract cfg) (sync_once cfg)"
  by (rule every_stepI [OF sync_once_run])

text \<open>
  One snapshot cannot hold up another: every completed round has looked up the local copy of every
  listed snapshot that passes the checks, whatever errors the other snapshots met.
\<close>
theorem sync_once_isolates: "every_outcome (\<lambda>h x. all_looked_up cfg h) (sync_once cfg)"
  unfolding all_looked_up_def by (rule every_outcomeI [OF sync_once_run])

text \<open>
  As long as a local copy exists, whatever the syncer and the local reconciler do to it in whatever order,
  it stays with its incarnation, its generation never goes back, two different specs never share a
  generation, and a tombstone stays a tombstone.
\<close>
theorem copy_life_newer:
  assumes "copy_life cfg b b'"
  shows "newer b b'"
  using assms by induction (auto intro: newer_trans copy_step_newer)

definition sync_spec :: binding_spec where
  "sync_spec = \<lparr>b_vpc_ref = \<lparr>oi_namespace = [], oi_name = [], oi_uid = []\<rparr>, b_network_id = 1, b_local_asn = 1,
     b_location_ref = ''s1'', b_network_class_ref = [], b_native_vpc_name = [], b_transport_profile = [], b_subnets = [],
     b_authorized_locations = [], b_remote_subnets = [], b_peers = [], b_link_allocations = [], b_revision = [], b_deleting = False\<rparr>"

definition old_copy :: network_binding where
  "old_copy = \<lparr>nb_meta = empty_meta\<lparr>om_namespace := ''gw'', om_name := ''n'',
       om_annotations := [(source_uid_annotation, ''u1''), (source_generation_annotation, ''1'')]\<rparr>,
     nb_spec = sync_spec, nb_status = empty_binding_status\<rparr>"

definition new_snapshot :: network_binding where
  "new_snapshot = \<lparr>nb_meta = empty_meta\<lparr>om_name := binding_name [] ''s1'', om_uid := ''u1'', om_generation := 2\<rparr>,
     nb_spec = (sync_spec\<lparr>b_deleting := True\<rparr>)\<lparr>b_revision := revision (sync_spec\<lparr>b_deleting := True\<rparr>)\<rparr>,
     nb_status = empty_binding_status\<rparr>"

lemma parse_int64_one: "parse_int64 ''1'' = Some 1"
  using parse_int64_nat_str [of 1] by (simp add: nat_str.simps digit_char_numerals)

lemma snapshot_accepted: "forward ex_local old_copy new_snapshot (accept_snapshot old_copy new_snapshot)"
  "snapshot_ok ex_local new_snapshot = Inr ()"
  using parse_int64_one
  by (simp_all add: forward_def old_copy_def new_snapshot_def ex_local_def sync_spec_def generation_of_def
    source_uid_annotation_def source_generation_annotation_def mget_def snapshot_ok_def revision_def guard_def)

theorem copy_life_newer_witness: "newer old_copy (accept_snapshot old_copy new_snapshot)"
  by (rule copy_life_newer [of ex_local], rule later [OF now rewritten], rule snapshot_accepted)
    (simp add: int64_def new_snapshot_def)

text \<open>
  C24: when an accepted copy is behind the authority's snapshot and the writes succeed, one round moves it to
  the snapshot and reports its status, and the next round only looks: it changes nothing on either side.
\<close>
theorem sync_settles:
  assumes "snapshot_ok cfg remote = Inr ()" and "forward cfg local remote local'" and "int64 (om_generation (nb_meta remote))"
    and "remote' = remote\<lparr>nb_status := reported_status local' remote\<rparr>"
    and "look = Local (Get ''NetworkBinding'' (lc_namespace cfg) (om_name (nb_meta remote)))"
  shows "fst (replay (sync_snapshot cfg remote) [Obj (LBinding local), Obj (LBinding local'), Done])
        = [look, Local (Update (LBinding local'))] @ (if remote' = remote then [] else [Authority (UpdateStatus (LBinding remote'))])
      \<and> replay (sync_snapshot cfg remote') [Obj (LBinding local')] = ([look], Some (Inr (), []))"
proof -
  have ok: "snapshot_ok cfg remote' = Inr ()" "nb_meta remote' = nb_meta remote" "nb_spec remote' = nb_spec remote"
    "b_location_ref (nb_spec remote) = lc_location_ref cfg"
    using assms(1,4) by (simp_all add: snapshot_ok_def split: if_splits)
  have g: "parse_int64 (int_str (om_generation (nb_meta remote))) = Some (om_generation (nb_meta remote))"
    using assms(3) by (rule parse_int64_int_str)
  have st: "reported_status local' remote' = nb_status remote'"
    using assms(4) by (simp add: reported_status_def Let_def)
  have first: "remote\<lparr>nb_status := reported_status local' remote\<rparr> = remote \<longleftrightarrow> nb_status remote = reported_status local' remote"
    by (cases remote) auto
  have "fst (replay (sync_snapshot cfg remote) [Obj (LBinding local), Obj (LBinding local'), Done])
        = [look, Local (Update (LBinding local'))] @ (if remote' = remote then [] else [Authority (UpdateStatus (LBinding remote'))])"
    using assms(1,2) first unfolding assms(4,5)
    by (auto simp: sync_snapshot_def sync_existing_def forward_def generation_of_def lift_res_def report_back_def Let_def
        kget_def kwrite_def kdo_def ebind_def)
  moreover have "replay (sync_snapshot cfg remote') [Obj (LBinding local')] = ([look], Some (Inr (), []))"
    using assms(2) ok g st unfolding assms(5)
    by (auto simp: sync_snapshot_def sync_existing_def forward_def accept_snapshot_def generation_of_def lift_res_def report_back_def Let_def
        kget_def ebind_def source_uid_annotation_def source_generation_annotation_def)
  ultimately show ?thesis by blast
qed

theorem sync_settles_witness:
  "fst (replay (sync_snapshot ex_local new_snapshot) [Obj (LBinding old_copy), Obj (LBinding (accept_snapshot old_copy new_snapshot)), Done])
     \<noteq> []"
  using sync_settles [OF snapshot_accepted(2,1) _ refl refl] by (simp add: int64_def new_snapshot_def)

end
