(* ===== verification/Local_Reconciler.thy ===== *)
theory Local_Reconciler
  imports Local_Sync Platform_Reconciler Destination_Route
begin

text \<open>
  \<open>internal/localcontroller/reconciler.go\<close>: one pass of the controller that realizes an accepted local
  snapshot through the native API. The \<open>Gateway\<close> the code calls is an interface, so its two methods
  are requests of their own beside those to the API server. The code changes the binding it has read
  in place, also on paths that return an error, so an operation returns the binding beside its result.
\<close>

section \<open>Requests\<close>

record gateway_result =
  gr_gateways :: "gateway_endpoint list"
  gr_resources :: "resource_record list"
  gr_ready :: bool
  gr_reason :: string

datatype lreq = Api "lobj kreq" | EnsureGateway network_binding net_allocation | DeleteGateway network_binding

datatype lresp = Answer "lobj kresp" | Ensured "err + gateway_result" | Withdrawn "err + bool"

type_synonym 'a lprog = "(lreq, lresp, 'a) prog"
type_synonym 'a bprog = "(network_binding \<times> (err + 'a)) lprog"

definition answer :: "lresp \<Rightarrow> lobj kresp" where
  "answer r = (case r of Answer x \<Rightarrow> x | _ \<Rightarrow> Failed decode_error)"

primrec api :: "(lobj, 'a) kprog \<Rightarrow> 'a lprog" where
  "api (Ret a) = Ret a"
| "api (Call q k) = Call (Api q) (\<lambda>r. api (k (answer r)))"

text \<open>The installation, the presence of a gateway backend and the requeue interval.\<close>

record local_reconciler =
  lr_config :: local_config
  lr_gateway :: bool
  lr_interval :: int

definition ensure_gateway :: "network_binding \<Rightarrow> net_allocation \<Rightarrow> (err + gateway_result) lprog" where
  "ensure_gateway b a = Call (EnsureGateway b a) (\<lambda>r. Ret (case r of Ensured x \<Rightarrow> x | _ \<Rightarrow> Inl decode_error))"

definition delete_gateway :: "network_binding \<Rightarrow> (err + bool) lprog" where
  "delete_gateway b = Call (DeleteGateway b) (\<lambda>r. Ret (case r of Withdrawn x \<Rightarrow> x | _ \<Rightarrow> Inl decode_error))"

text \<open>An early return of the whole pass, and an operation after which the pass goes on.\<close>

definition early :: "outcome lprog \<Rightarrow> (outcome + 'a) lprog" where
  "early p = pbind p leave"

section \<open>Status\<close>

definition requeue :: "local_reconciler \<Rightarrow> outcome" where
  "requeue r = \<lparr>requeue_after = again (lr_interval r), out_error = None\<rparr>"

definition with_state :: "k8s_lib \<Rightarrow> network_binding \<Rightarrow> string \<Rightarrow> string \<Rightarrow> string \<Rightarrow> bool \<Rightarrow> bool \<Rightarrow> network_binding" where
  "with_state L b phase reason message ready applied_now = b\<lparr>nb_status := (nb_status b)\<lparr>bst_phase := phase,
     bst_observed_generation := om_generation (nb_meta b),
     bst_conditions := set_status_condition L (bst_conditions (nb_status b))
       (condition_of (om_generation (nb_meta b)) ''Ready'' reason message ready),
     bst_applied_revision := (if applied_now then b_revision (nb_spec b) else bst_applied_revision (nb_status b))\<rparr>\<rparr>"

definition binding_state :: "k8s_lib \<Rightarrow> local_reconciler \<Rightarrow> network_binding \<Rightarrow> string \<Rightarrow> string \<Rightarrow> string \<Rightarrow> bool \<Rightarrow> bool \<Rightarrow> outcome lprog" where
  "binding_state L r b phase reason message ready applied_now =
     (let b' = with_state L b phase reason message ready applied_now in
      if nb_status b \<noteq> nb_status b'
      then pbind (api (kdo (UpdateStatus (LBinding b')))) (\<lambda>x. Ret (case x of Inl e \<Rightarrow> failed e | Inr _ \<Rightarrow> requeue r))
      else Ret (requeue r))"

definition pending :: "k8s_lib \<Rightarrow> local_reconciler \<Rightarrow> network_binding \<Rightarrow> string \<Rightarrow> string \<Rightarrow> outcome lprog" where
  "pending L r b reason message = binding_state L r b ''Pending'' reason message False False"

definition blocked :: "k8s_lib \<Rightarrow> local_reconciler \<Rightarrow> network_binding \<Rightarrow> err \<Rightarrow> outcome lprog" where
  "blocked L r b e = binding_state L r b ''Blocked'' ''LocalReconcileBlocked'' (err_text e) False False"

definition update_status :: "network_binding \<Rightarrow> unit bprog" where
  "update_status b = pbind (api (kwrite l_binding (UpdateStatus (LBinding b)))) (\<lambda>x. Ret (case x of
      Inl e \<Rightarrow> (b, Inl e) | Inr b' \<Rightarrow> (b', Inr ())))"

text \<open>\<open>return true, r.Status().Update(ctx, b)\<close>.\<close>

definition update_status_to :: "'a \<Rightarrow> network_binding \<Rightarrow> 'a bprog" where
  "update_status_to v b = pbind (update_status b) (\<lambda>(b', x). Ret (b', case x of Inl e \<Rightarrow> Inl e | Inr _ \<Rightarrow> Inr v))"

section \<open>Native objects\<close>

definition native_api :: string where
  "native_api = ''kubeovn.io/v1''"

definition native_owner_label :: string where
  "native_owner_label = ''platform.globalvpc.io/binding-uid''"

definition native :: "string \<Rightarrow> string \<Rightarrow> unstructured" where
  "native kind name = \<lparr>un_api_version = native_api, un_kind = kind, un_meta = empty_meta\<lparr>om_name := name\<rparr>, un_body = []\<rparr>"

definition native_spec :: "string \<Rightarrow> string \<Rightarrow> string \<Rightarrow> (string \<times> json) list \<Rightarrow> unstructured" where
  "native_spec kind name owner spec = (native kind name)\<lparr>un_meta := empty_meta\<lparr>om_name := name, om_labels := [(native_owner_label, owner)]\<rparr>,
     un_body := [(''spec'', JObj spec)]\<rparr>"

definition transit_name :: "network_binding \<Rightarrow> string" where
  "transit_name b = ''pt-'' @ short (oi_uid (b_vpc_ref (nb_spec b)) @ ''/'' @ b_location_ref (nb_spec b))"

definition get_native :: "string \<Rightarrow> string \<Rightarrow> (err + unstructured) lprog" where
  "get_native kind name = api (kget l_native kind [] name)"

definition is_receipt :: "string \<Rightarrow> string \<Rightarrow> resource_record \<Rightarrow> bool" where
  "is_receipt kind name rec \<longleftrightarrow> rr_api_version rec = native_api \<and> rr_kind rec = kind \<and> rr_name rec = name"

definition recorded :: "network_binding \<Rightarrow> string \<Rightarrow> string \<Rightarrow> bool" where
  "recorded b kind name = list_ex (is_receipt kind name) (bst_resources (nb_status b))"

definition add_receipt :: "string \<Rightarrow> string \<Rightarrow> string \<Rightarrow> network_binding \<Rightarrow> network_binding" where
  "add_receipt kind name uid b = b\<lparr>nb_status := (nb_status b)\<lparr>bst_resources := bst_resources (nb_status b) @
     [\<lparr>rr_api_version = native_api, rr_kind = kind, rr_namespace = [], rr_name = name, rr_uid = uid\<rparr>]\<rparr>\<rparr>"

definition guard_native :: "network_binding \<Rightarrow> unstructured \<Rightarrow> unit res" where
  "guard_native b x =
     (if mget (om_labels (un_meta x)) native_owner_label \<noteq> om_uid (nb_meta b)
      then Inl (''native '' @ un_kind x @ '' '' @ om_name (un_meta x) @ '' has another owner'')
      else guard (\<not> list_ex (\<lambda>rec. is_receipt (un_kind x) (om_name (un_meta x)) rec \<and> rr_uid rec \<noteq> om_uid (un_meta x)) (bst_resources (nb_status b)))
        (''native '' @ un_kind x @ '' '' @ om_name (un_meta x) @ '' UID changed''))"

section \<open>Lost receipts\<close>

text \<open>The owned objects of one name: listed, or read now; a name without an object stays out.\<close>

definition find_object :: "network_binding \<Rightarrow> unstructured smap \<Rightarrow> string \<Rightarrow> (err + unstructured smap) lprog" where
  "find_object b objs name =
     (let checked = (\<lambda>x. if om_uid (un_meta x) = [] then leave (Errorf (''native Subnet '' @ name @ '' has no identity''))
        else ebind (lift_res Errorf (guard_native b x)) (\<lambda>_. go (mput name x objs))) in
      case map_of objs name of
        Some x \<Rightarrow> checked x
      | None \<Rightarrow> pbind (get_native ''Subnet'' name) (\<lambda>got. case got of
            Inl e \<Rightarrow> if is_not_found e then go objs else leave e
          | Inr x \<Rightarrow> checked x))"

definition subnet_inventory :: "network_binding \<Rightarrow> unstructured list \<Rightarrow> string list" where
  "subnet_inventory b items = filter (\<lambda>n. n \<noteq> []) (sort_strings (remdups (transit_name b # map (\<lambda>x. om_name (un_meta x)) items
     @ map bs_native_subnet_name (b_subnets (nb_spec b))
     @ map rr_name (filter (\<lambda>rec. rr_api_version rec = native_api \<and> rr_kind rec = ''Subnet'') (bst_resources (nb_status b))))))"

definition recover_receipt :: "unstructured smap \<Rightarrow> network_binding \<times> bool \<Rightarrow> string \<Rightarrow> network_binding \<times> bool" where
  "recover_receipt objs st name = (case st of (b, changed) \<Rightarrow> (case map_of objs name of
      None \<Rightarrow> (b, changed)
    | Some x \<Rightarrow> if recorded b ''Subnet'' name then (b, changed)
        else (add_receipt ''Subnet'' name (om_uid (un_meta x)) b, True)))"

text \<open>The binding, whether it changed, and the error.\<close>

definition recover_native_subnets :: "network_binding \<Rightarrow> (network_binding \<times> bool \<times> err option) lprog" where
  "recover_native_subnets b =
     pbind (api (klist l_native ''Subnet'' None [(native_owner_label, om_uid (nb_meta b))])) (\<lambda>got. case got of
       Inl e \<Rightarrow> Ret (b, False, Some (Errorf (''cannot recover owned native subnet receipts: '' @ err_text e)))
     | Inr items \<Rightarrow>
         let listed = foldl (\<lambda>m x. mput (om_name (un_meta x)) x m) [] items; ordered = subnet_inventory b items in
         pbind (efold (find_object b) listed ordered) (\<lambda>found. case found of
           Inl e \<Rightarrow> Ret (b, False, Some e)
         | Inr objs \<Rightarrow> (case foldl (recover_receipt objs) (b, False) ordered of (b', changed) \<Rightarrow>
             if \<not> changed then Ret (b, False, None)
             else pbind (update_status b') (\<lambda>(b'', x). Ret (b'', True, case x of Inl e \<Rightarrow> Some e | Inr _ \<Rightarrow> None)))))"

section \<open>One native object\<close>

definition changed_fields :: "unstructured \<Rightarrow> unstructured \<Rightarrow> (string \<times> json) list" where
  "changed_fields want current = filter (\<lambda>(k, v). case nested (un_body current) [''spec'', k] of
      None \<Rightarrow> True | Some old \<Rightarrow> \<not> same_json old v) (case nested_map (un_body want) [''spec''] of None \<Rightarrow> [] | Some ms \<Rightarrow> ms)"

text \<open>\<open>SetNestedField\<close> refuses a \<open>spec\<close> that is no object.\<close>

definition spec_settable :: "unstructured \<Rightarrow> bool" where
  "spec_settable x = (case map_of (un_body x) ''spec'' of None \<Rightarrow> True | Some (JObj ms) \<Rightarrow> True | _ \<Rightarrow> False)"

definition set_fields :: "(string \<times> json) list \<Rightarrow> unstructured \<Rightarrow> unstructured" where
  "set_fields fs x = foldl (\<lambda>y (k, v). set_spec k v y) x fs"

definition record_native :: "network_binding \<Rightarrow> unstructured \<Rightarrow> bool bprog" where
  "record_native b current =
     (if recorded b (un_kind current) (om_name (un_meta current)) then Ret (b, Inr False)
      else update_status_to True (add_receipt (un_kind current) (om_name (un_meta current)) (om_uid (un_meta current)) b))"

definition ensure_native :: "network_binding \<Rightarrow> unstructured \<Rightarrow> bool bprog" where
  "ensure_native b want =
     pbind (get_native (un_kind want) (om_name (un_meta want))) (\<lambda>got. case got of
       Inl e \<Rightarrow>
         if \<not> is_not_found e then Ret (b, Inl e)
         else if recorded b (un_kind want) (om_name (un_meta want))
         then Ret (b, Inl (Errorf (''recorded native '' @ un_kind want @ '' '' @ om_name (un_meta want) @ '' is missing; fenced recovery is required'')))
         else pbind (api (kwrite l_native (Create (LNative want)))) (\<lambda>made. case made of
             Inl e \<Rightarrow> Ret (b, Inl e) | Inr current \<Rightarrow> record_native b current)
     | Inr current \<Rightarrow> (case guard_native b current of
           Inl e \<Rightarrow> Ret (b, Inl (Errorf e))
         | Inr _ \<Rightarrow>
             let fs = changed_fields want current in
             if fs = [] then record_native b current
             else if \<not> spec_settable current then Ret (b, Inl (Errorf ''value cannot be set because .spec is not a map''))
             else pbind (api (kdo (Update (LNative (set_fields fs current))))) (\<lambda>x. Ret (b, case x of Inl e \<Rightarrow> Inl e | Inr _ \<Rightarrow> Inr True))))"

definition native_ready :: "unstructured \<Rightarrow> (err + bool) lprog" where
  "native_ready x = ebind (get_native (un_kind x) (om_name (un_meta x))) (\<lambda>y. go (shows_ready y))"

text \<open>The served version of the native API that has destination routes.\<close>

definition serves_routes :: "json \<Rightarrow> bool" where
  "serves_routes j = (case j of
      JObj v \<Rightarrow> map_of v ''served'' = Some (JBool True)
        \<and> (case nested_map v [''schema'', ''openAPIV3Schema'', ''properties'', ''spec'', ''properties'', ''destinationRoutes''] of
            None \<Rightarrow> False | Some f \<Rightarrow> map_of f ''type'' = Some (JStr ''array''))
    | _ \<Rightarrow> False)"

definition require_capability :: "(err + unit) lprog" where
  "require_capability = pbind (get_native ''CustomResourceDefinition'' ''vpcs.kubeovn.io'') (\<lambda>got. case got of
      Inl e \<Rightarrow> leave (Errorf ''cannot verify native Vpc destination-route API'')
    | Inr crd \<Rightarrow> if list_ex serves_routes (nested_slice (un_body crd) [''spec'', ''versions'']) then go ()
        else leave (Errorf (''install the source-pinned Kube-OVN destination-routes.v1 extension; '' @ ''legacy OVN command patching is not enabled'')))"

section \<open>Destination routes\<close>

definition route_value :: "intent \<Rightarrow> json" where
  "route_value x = JObj [(''cidr'', JStr (in_cidr x)), (''nextHops'', JArr (map JStr (in_next_hops x))),
     (''bfd'', JObj [(''minRX'', JNum (int_str (db_min_rx (in_bfd x)))), (''minTX'', JNum (int_str (db_min_tx (in_bfd x)))),
       (''multiplier'', JNum (int_str (db_multiplier (in_bfd x))))]),
     (''selectionFields'', JArr (map JStr (in_selection_fields x)))]"

definition nested_int64 :: "(string \<times> json) list \<Rightarrow> string list \<Rightarrow> int" where
  "nested_int64 ms ks = (case nested ms ks of Some (JNum s) \<Rightarrow> (case parse_int64 s of None \<Rightarrow> 0 | Some i \<Rightarrow> i) | _ \<Rightarrow> 0)"

text \<open>The native controller acknowledged this plan at this generation of the object.\<close>

definition routes_acknowledged :: "unstructured \<Rightarrow> string \<Rightarrow> bool" where
  "routes_acknowledged x hash = (let status = (case nested_map (un_body x) [''status'', ''destinationRoutes''] of None \<Rightarrow> [] | Some ms \<Rightarrow> ms) in
     map_of status ''capability'' = Some (JStr capability) \<and> map_of status ''ready'' = Some (JBool True)
     \<and> map_of status ''appliedHash'' = Some (JStr hash)
     \<and> nested_int64 (un_body x) [''status'', ''destinationRoutes'', ''observedGeneration''] = om_generation (un_meta x))"

definition native_routes :: "network_binding \<Rightarrow> intent list \<Rightarrow> (err + (bool \<times> bool)) lprog" where
  "native_routes b intents =
     ebind (lift_res Errorf (compile intents)) (\<lambda>plan.
     let routes_value = map route_value (dp_routes plan) in
     ebind (get_native ''Vpc'' (b_native_vpc_name (nb_spec b))) (\<lambda>x.
     ebind (lift_res Errorf (guard_native b x)) (\<lambda>_.
     let old = nested_slice (un_body x) [''spec'', ''destinationRoutes''] in
     if (old \<noteq> [] \<or> routes_value \<noteq> []) \<and> \<not> same_json (JArr old) (JArr routes_value) then
       (if \<not> spec_settable x then leave (Errorf ''value cannot be set because .spec is not a map'')
        else ebind (api (kdo (Update (LNative (set_spec ''destinationRoutes'' (JArr routes_value) x))))) (\<lambda>_. go (True, False)))
     else go (False, routes_acknowledged x (dp_hash plan)))))"

definition gateway_report :: "network_binding \<Rightarrow> gateway_result \<Rightarrow> bool bprog" where
  "gateway_report b report =
     (let resources = sort_slice (\<lambda>rec. rr_api_version rec @ rr_kind rec @ rr_name rec)
        (filter (\<lambda>rec. rr_api_version rec = native_api) (bst_resources (nb_status b)) @ gr_resources report) in
      if resources = bst_resources (nb_status b) \<and> gr_gateways report = bst_gateways (nb_status b) then Ret (b, Inr False)
      else update_status_to True (b\<lparr>nb_status := (nb_status b)\<lparr>bst_resources := resources, bst_gateways := gr_gateways report\<rparr>\<rparr>))"

section \<open>Deletion\<close>

definition references_switch :: "string \<Rightarrow> pod \<Rightarrow> bool" where
  "references_switch name p = list_ex (\<lambda>(k, v). has_suffix k ''/logical_switch'' \<and> v = name) (om_annotations (pod_meta p))"

text \<open>The error for the first address that still uses the subnet.\<close>

primrec ip_in_use :: "string \<Rightarrow> unstructured list \<Rightarrow> unit res" where
  "ip_in_use name [] = Inr ()"
| "ip_in_use name (ip # ips) =
     (if nested_string (un_body ip) [''spec'', ''subnet''] = name then Inl ''subnet still has a native IP allocation''
      else if name \<in> set (nested_strings (un_body ip) [''spec'', ''attachSubnets'']) then Inl ''subnet still has an attached native IP allocation''
      else ip_in_use name ips)"

definition endpoints_empty :: "string \<Rightarrow> (err + unit) lprog" where
  "endpoints_empty name =
     ebind (api (klist l_pod ''Pod'' None [])) (\<lambda>pods.
     if list_ex (references_switch name) pods then leave (Errorf ''subnet still has a referencing Pod'')
     else pbind (api (klist l_native ''IP'' None [])) (\<lambda>got. case got of
         Inl e \<Rightarrow> leave (Errorf ''cannot verify native subnet IP allocation cleanup'')
       | Inr ips \<Rightarrow> lift_res Errorf (ip_in_use name ips)))"

definition forget_receipts :: "string \<Rightarrow> string \<Rightarrow> network_binding \<Rightarrow> network_binding" where
  "forget_receipts kind name b = b\<lparr>nb_status := (nb_status b)\<lparr>bst_resources := filter (\<lambda>rec. \<not> is_receipt kind name rec) (bst_resources (nb_status b))\<rparr>\<rparr>"

definition delete_native :: "network_binding \<Rightarrow> string \<Rightarrow> string \<Rightarrow> bool \<Rightarrow> bool bprog" where
  "delete_native b kind name check_endpoints =
     pbind (get_native kind name) (\<lambda>got. case got of
       Inl e \<Rightarrow>
         if \<not> is_not_found e then Ret (b, Inl e)
         else if recorded b kind name then update_status_to False (forget_receipts kind name b)
         else Ret (b, Inr True)
     | Inr x \<Rightarrow> pbind (
         ebind (lift_res Errorf (guard_native b x)) (\<lambda>_.
         ebind (if check_endpoints then endpoints_empty name else go ()) (\<lambda>_.
         if om_deletion (un_meta x) \<noteq> None then go False
         else ebind (api (kdo (Delete (LNative x) (Some (om_uid (un_meta x))) (Some (om_resource_version (un_meta x)))))) (\<lambda>_. go False))))
         (\<lambda>y. Ret (b, y)))"

text \<open>The native routes of the VPC are withdrawn, or there is nothing to withdraw.\<close>

definition withdraw_routes :: "network_binding \<Rightarrow> (err + bool) lprog" where
  "withdraw_routes b =
     pbind (get_native ''Vpc'' (b_native_vpc_name (nb_spec b))) (\<lambda>got. case got of
       Inl e \<Rightarrow> if is_not_found e then go True else leave e
     | Inr x \<Rightarrow>
         ebind (lift_res Errorf (guard_native b x)) (\<lambda>_.
         if nested_slice (un_body x) [''spec'', ''destinationRoutes''] \<noteq> []
            \<or> nested_map (un_body x) [''status'', ''destinationRoutes''] \<noteq> None \<or> bst_gateways (nb_status b) \<noteq> []
         then ebind (native_routes b []) (\<lambda>(changed, ready). go (\<not> (changed \<or> \<not> ready)))
         else go True))"

definition no_gateways :: gateway_result where
  "no_gateways = \<lparr>gr_gateways = [], gr_resources = [], gr_ready = False, gr_reason = []\<rparr>"

definition disconnect_gateway :: "local_reconciler \<Rightarrow> network_binding \<Rightarrow> bool bprog" where
  "disconnect_gateway r b =
     (if lr_gateway r
      then pbind (delete_gateway b) (\<lambda>g. case g of
          Inl e \<Rightarrow> Ret (b, Inl e)
        | Inr gone \<Rightarrow> if \<not> gone then Ret (b, Inr False)
            else pbind (gateway_report b no_gateways) (\<lambda>(b', x). Ret (b', case x of Inl e \<Rightarrow> Inl e | Inr changed \<Rightarrow> Inr (\<not> changed))))
      else Ret (b, if bst_gateways (nb_status b) \<noteq> [] then Inl (Errorf ''gateway cleanup backend is unavailable'') else Inr True))"

definition disconnect_transit :: "network_binding \<Rightarrow> bool bprog" where
  "disconnect_transit b =
     (if list_ex (\<lambda>rec. rr_kind rec = ''Subnet'' \<and> rr_name rec = transit_name b) (bst_resources (nb_status b))
      then delete_native b ''Subnet'' (transit_name b) True else Ret (b, Inr True))"

definition disconnect :: "local_reconciler \<Rightarrow> network_binding \<Rightarrow> bool bprog" where
  "disconnect r b =
     pbind (withdraw_routes b) (\<lambda>w. case w of
       Inl e \<Rightarrow> Ret (b, Inl e)
     | Inr withdrawn_routes \<Rightarrow>
         if \<not> withdrawn_routes then Ret (b, Inr False)
         else pbind (disconnect_gateway r b) (\<lambda>(b', x). case x of
             Inl e \<Rightarrow> Ret (b', Inl e)
           | Inr clean \<Rightarrow> if \<not> clean then Ret (b', Inr False) else disconnect_transit b'))"

text \<open>A step of the pass that returns an error, a change to wait for, or the binding to go on with.\<close>

definition step_or_return :: "k8s_lib \<Rightarrow> local_reconciler \<Rightarrow> bool bprog \<Rightarrow> (outcome + network_binding) lprog" where
  "step_or_return L r p = pbind p (\<lambda>(b, x). case x of
      Inl e \<Rightarrow> early (blocked L r b e)
    | Inr changed \<Rightarrow> if changed then leave (requeue r) else go b)"

text \<open>The receipts of a gateway, whose status errors are returned as they are.\<close>

definition report_or_return :: "local_reconciler \<Rightarrow> network_binding \<Rightarrow> gateway_result \<Rightarrow> (outcome + network_binding) lprog" where
  "report_or_return r b report = pbind (gateway_report b report) (\<lambda>(b', x). case x of
      Inl e \<Rightarrow> leave (failed e)
    | Inr changed \<Rightarrow> if changed then leave (requeue r) else go b')"

definition deleting_state :: "k8s_lib \<Rightarrow> local_reconciler \<Rightarrow> network_binding \<Rightarrow> string \<Rightarrow> string \<Rightarrow> outcome lprog" where
  "deleting_state L r b reason message = binding_state L r b ''Deleting'' reason message False False"

definition is_subnet_receipt :: "resource_record \<Rightarrow> bool" where
  "is_subnet_receipt rec \<longleftrightarrow> rr_api_version rec = native_api \<and> rr_kind rec = ''Subnet''"

definition check_unused :: "k8s_lib \<Rightarrow> local_reconciler \<Rightarrow> network_binding \<Rightarrow> (outcome + unit) lprog" where
  "check_unused L r b = efold (\<lambda>u rec. pbind (endpoints_empty (rr_name rec)) (\<lambda>x. case x of
      Inl e \<Rightarrow> early (deleting_state L r b ''SubnetInUse'' (err_text e))
    | Inr _ \<Rightarrow> go ())) () (filter (\<lambda>rec. is_subnet_receipt rec \<and> rr_name rec \<noteq> transit_name b) (bst_resources (nb_status b)))"

definition remove_gateway :: "k8s_lib \<Rightarrow> local_reconciler \<Rightarrow> network_binding \<Rightarrow> (outcome + unit) lprog" where
  "remove_gateway L r b =
     (if lr_gateway r
      then pbind (delete_gateway b) (\<lambda>g. case g of
          Inl e \<Rightarrow> early (blocked L r b e)
        | Inr gone \<Rightarrow> if gone then go ()
            else early (deleting_state L r b ''GatewayCleanupPending'' ''Waiting for owned gateway resources to terminate''))
      else if bst_gateways (nb_status b) \<noteq> [] then early (blocked L r b (Errorf ''gateway cleanup backend unavailable''))
      else go ())"

text \<open>The loop runs over a copy of the receipts; a change of the binding ends the pass.\<close>

definition remove_subnets :: "k8s_lib \<Rightarrow> local_reconciler \<Rightarrow> network_binding \<Rightarrow> (outcome + network_binding) lprog" where
  "remove_subnets L r b = efold (\<lambda>b rec. pbind (delete_native b ''Subnet'' (rr_name rec) True) (\<lambda>(b', x). case x of
      Inl e \<Rightarrow> early (deleting_state L r b' ''SubnetInUse'' (err_text e))
    | Inr gone \<Rightarrow> if gone then go b' else leave (requeue r))) b (filter is_subnet_receipt (bst_resources (nb_status b)))"

definition remove_vpc :: "k8s_lib \<Rightarrow> local_reconciler \<Rightarrow> network_binding \<Rightarrow> (outcome + 'a) lprog" where
  "remove_vpc L r b = pbind (delete_native b ''Vpc'' (b_native_vpc_name (nb_spec b)) False) (\<lambda>(b', x). case x of
      Inl e \<Rightarrow> early (blocked L r b' e)
    | Inr gone \<Rightarrow> if \<not> gone then leave (requeue r)
        else early (binding_state L r b' ''Deleted'' ''CleanupComplete''
          ''Owned native and gateway resources are absent; allocation receipts retained'' False True))"

definition remove_binding :: "k8s_lib \<Rightarrow> local_reconciler \<Rightarrow> network_binding \<Rightarrow> (outcome + 'a) lprog" where
  "remove_binding L r b =
     ebind (check_unused L r b) (\<lambda>_.
     pbind (withdraw_routes b) (\<lambda>w. case w of
       Inl e \<Rightarrow> early (blocked L r b e)
     | Inr withdrawn_routes \<Rightarrow>
         if \<not> withdrawn_routes
         then early (deleting_state L r b ''RouteWithdrawalPending'' ''Waiting for native route and BFD withdrawal acknowledgement'')
         else
           ebind (remove_gateway L r b) (\<lambda>_.
           ebind (report_or_return r b no_gateways) (\<lambda>b1.
           ebind (remove_subnets L r b1) (\<lambda>b2.
           remove_vpc L r b2)))))"

section \<open>Reconcile\<close>

definition addr_or_zero :: "string \<Rightarrow> addr" where
  "addr_or_zero raw = (case parse_addr raw of None \<Rightarrow> AddrZero | Some a \<Rightarrow> a)"

definition ranges_clear :: "net_allocation \<Rightarrow> string list \<Rightarrow> bool" where
  "ranges_clear a cidrs = (\<forall>c\<in>set cidrs. case parse_prefix c of
      None \<Rightarrow> False
    | Some p \<Rightarrow> \<not> overlaps p (prefix_or_zero (na_transit_cidr a)) \<and> \<not> contains p (addr_or_zero (na_bfd_source_ip a)))"

definition vpc_object :: "local_reconciler \<Rightarrow> network_binding \<Rightarrow> net_allocation \<Rightarrow> bool \<Rightarrow> unstructured" where
  "vpc_object r b a cross = native_spec ''Vpc'' (b_native_vpc_name (nb_spec b)) (om_uid (nb_meta b)) [(''bfdPort'', JObj
     (if cross then [(''enabled'', JBool True), (''ip'', JStr (na_bfd_source_ip a)),
         (''nodeSelector'', JObj [(''matchLabels'', JObj (map (map_prod id JStr) (lc_gateway_node_selector (lr_config r))))])]
      else [(''enabled'', JBool False)]))]"

definition subnet_object :: "network_binding \<Rightarrow> string \<Rightarrow> string \<Rightarrow> string \<Rightarrow> (string \<times> json) list \<Rightarrow> unstructured" where
  "subnet_object b name cidr gateway extra = native_spec ''Subnet'' name (om_uid (nb_meta b))
     ([(''vpc'', JStr (b_native_vpc_name (nb_spec b))), (''protocol'', JStr ''IPv4''), (''cidrBlock'', JStr cidr), (''gateway'', JStr gateway),
       (''excludeIps'', JArr [JStr gateway]), (''natOutgoing'', JBool False), (''provider'', JStr ''ovn'')] @ extra)"

definition realize_subnet :: "k8s_lib \<Rightarrow> local_reconciler \<Rightarrow> network_binding \<Rightarrow> unstructured \<Rightarrow> string \<Rightarrow> string \<Rightarrow> (outcome + network_binding) lprog" where
  "realize_subnet L r b want reason message =
     ebind (step_or_return L r (ensure_native b want)) (\<lambda>b1.
     pbind (native_ready want) (\<lambda>x. case x of
       Inl e \<Rightarrow> early (blocked L r b1 e)
     | Inr ready \<Rightarrow> if ready then go b1 else early (pending L r b1 reason message)))"

definition check_draining :: "k8s_lib \<Rightarrow> local_reconciler \<Rightarrow> network_binding \<Rightarrow> (outcome + unit) lprog" where
  "check_draining L r b = efold (\<lambda>u s. if \<not> bs_deleting s then go () else
     pbind (endpoints_empty (bs_native_subnet_name s)) (\<lambda>x. case x of
       Inl e \<Rightarrow> early (pending L r b ''SubnetInUse'' (err_text e)) | Inr _ \<Rightarrow> go ())) () (b_subnets (nb_spec b))"

text \<open>Some live local subnet has remote subnets to reach.\<close>

definition is_cross :: "network_binding \<Rightarrow> bool" where
  "is_cross b \<longleftrightarrow> filter (\<lambda>s. \<not> bs_deleting s) (b_subnets (nb_spec b)) \<noteq> [] \<and> b_remote_subnets (nb_spec b) \<noteq> []"

definition disconnect_or_return :: "k8s_lib \<Rightarrow> local_reconciler \<Rightarrow> network_binding \<Rightarrow> (outcome + network_binding) lprog" where
  "disconnect_or_return L r b =
     (if is_cross b then go b
      else pbind (disconnect r b) (\<lambda>(b', x). case x of
          Inl e \<Rightarrow> early (blocked L r b' e)
        | Inr fin \<Rightarrow> if fin then go b'
            else early (pending L r b' ''GatewayWithdrawalPending'' ''Waiting for gateway and native route withdrawal'')))"

definition realize_workloads :: "k8s_lib \<Rightarrow> local_reconciler \<Rightarrow> network_binding \<Rightarrow> (outcome + network_binding) lprog" where
  "realize_workloads L r b = efold (\<lambda>b s. if bs_deleting s then go b
     else realize_subnet L r b (subnet_object b (bs_native_subnet_name s) (bs_cidr s) (bs_gateway s) [])
       ''SubnetPending'' ''Waiting for Kube-OVN to configure a workload subnet'') b (b_subnets (nb_spec b))"

definition reported_hops :: "gateway_result \<Rightarrow> string list" where
  "reported_hops report = filter (\<lambda>ip. ip \<noteq> []) (map ge_transit_ip (gr_gateways report))"

definition route_intents :: "network_binding \<Rightarrow> string list \<Rightarrow> intent list" where
  "route_intents b hops = map (\<lambda>remote. \<lparr>in_cidr = rs_cidr remote, in_next_hops = hops,
     in_bfd = \<lparr>db_min_rx = 300, db_min_tx = 300, db_multiplier = 3\<rparr>,
     in_selection_fields = [''ip_src'', ''ip_dst'', ''ip_proto'', ''tp_src'', ''tp_dst'']\<rparr>) (b_remote_subnets (nb_spec b))"

text \<open>The part of the pass that a binding with remote subnets needs.\<close>

definition realize_routes :: "k8s_lib \<Rightarrow> local_reconciler \<Rightarrow> network_binding \<Rightarrow> gateway_result \<Rightarrow> (outcome + network_binding) lprog" where
  "realize_routes L r b report =
     (if length (gr_gateways report) < 2 then early (pending L r b ''GatewayRegistrationPending'' (gr_reason report))
      else if length (reported_hops report) < 2
      then early (pending L r b ''GatewayRegistrationPending'' ''Waiting for two distinct local gateway addresses'')
      else pbind (native_routes b (route_intents b (reported_hops report))) (\<lambda>x. case x of
          Inl e \<Rightarrow> early (blocked L r b e)
        | Inr (changed, ready) \<Rightarrow>
            if changed then leave (requeue r)
            else if \<not> ready then early (pending L r b ''NativeRoutesPending'' ''Waiting for native destination-route transaction acknowledgement'')
            else if \<not> gr_ready report then early (pending L r b ''GatewayPending'' (gr_reason report))
            else go b))"

definition realize_cross :: "k8s_lib \<Rightarrow> local_reconciler \<Rightarrow> net_allocation \<Rightarrow> network_binding \<Rightarrow> (outcome + network_binding) lprog" where
  "realize_cross L r a b =
     ebind (realize_subnet L r b (subnet_object b (transit_name b) (na_transit_cidr a) (na_router_ip a) [(''disableGatewayCheck'', JBool True)])
       ''TransitPending'' ''Waiting for Kube-OVN to configure the gateway transit subnet'') (\<lambda>b1.
     pbind require_capability (\<lambda>x. case x of
       Inl e \<Rightarrow> early (pending L r b1 ''NativeCapabilityRequired'' (err_text e))
     | Inr _ \<Rightarrow>
         if \<not> lr_gateway r then early (blocked L r b1 (Errorf ''managed gateway backend is not configured''))
         else pbind (ensure_gateway b1 a) (\<lambda>g. case g of
             Inl e \<Rightarrow> early (blocked L r b1 e)
           | Inr report \<Rightarrow> ebind (report_or_return r b1 report) (\<lambda>b2. realize_routes L r b2 report))))"

definition delete_draining :: "k8s_lib \<Rightarrow> local_reconciler \<Rightarrow> network_binding \<Rightarrow> (outcome + network_binding) lprog" where
  "delete_draining L r b = efold (\<lambda>b s. if \<not> bs_deleting s then go b
     else pbind (delete_native b ''Subnet'' (bs_native_subnet_name s) True) (\<lambda>(b', x). case x of
         Inl e \<Rightarrow> early (pending L r b' ''SubnetInUse'' (err_text e))
       | Inr gone \<Rightarrow> if gone then go b' else early (pending L r b' ''SubnetDeleting'' ''Waiting for native subnet cleanup''))) b (b_subnets (nb_spec b))"

definition report_ready :: "k8s_lib \<Rightarrow> local_reconciler \<Rightarrow> network_binding \<Rightarrow> (outcome + 'a) lprog" where
  "report_ready L r b = early (binding_state L r b ''Ready'' ''LocalNetworkReady''
     ''Native resources and required gateway configuration are ready'' True True)"

definition connect_and_drain :: "k8s_lib \<Rightarrow> local_reconciler \<Rightarrow> bool \<Rightarrow> net_allocation \<Rightarrow> network_binding \<Rightarrow> (outcome + 'a) lprog" where
  "connect_and_drain L r cross a b =
     ebind (if cross then realize_cross L r a b else go b) (\<lambda>b1.
     ebind (delete_draining L r b1) (report_ready L r))"

definition realize :: "k8s_lib \<Rightarrow> local_reconciler \<Rightarrow> network_binding \<Rightarrow> bool \<Rightarrow> net_allocation \<Rightarrow> (outcome + 'a) lprog" where
  "realize L r b cross a =
     (if \<not> ranges_clear a (map bs_cidr (b_subnets (nb_spec b)))
      then early (blocked L r b (Errorf ''workload and allocated infrastructure ranges overlap''))
      else if \<not> ranges_clear a (map rs_cidr (b_remote_subnets (nb_spec b)))
      then early (blocked L r b (Errorf ''remote and allocated infrastructure ranges overlap''))
      else
        ebind (step_or_return L r (ensure_native b (vpc_object r b a cross))) (\<lambda>b1.
        ebind (realize_workloads L r b1) (connect_and_drain L r cross a)))"

definition reconcile_accepted :: "k8s_lib \<Rightarrow> local_reconciler \<Rightarrow> network_binding \<Rightarrow> (outcome + 'a) lprog" where
  "reconcile_accepted L r b =
     pbind (recover_native_subnets b) (\<lambda>(b1, changed, e). case e of
       Some e \<Rightarrow> if changed then leave (failed e) else early (blocked L r b1 e)
     | None \<Rightarrow>
         if changed then leave (requeue r)
         else if b_deleting (nb_spec b1) then remove_binding L r b1
         else
           ebind (check_draining L r b1) (\<lambda>_.
           ebind (disconnect_or_return L r b1) (\<lambda>b2.
           pbind (api (local_allocate L (lr_config r) b2)) (\<lambda>x. case x of
             Inl e \<Rightarrow> early (blocked L r b2 e)
           | Inr (a, b3) \<Rightarrow> realize L r b3 (is_cross b1) a))))"

definition accepted_snapshot :: "network_binding \<Rightarrow> bool" where
  "accepted_snapshot b \<longleftrightarrow> owner_of b \<noteq> [] \<and> b_revision (nb_spec b) = revision (nb_spec b)"

definition local_reconcile :: "k8s_lib \<Rightarrow> local_reconciler \<Rightarrow> string \<Rightarrow> string \<Rightarrow> outcome lprog" where
  "local_reconcile L r ns name = pbind
     (pbind (api (kget l_binding ''NetworkBinding'' ns name)) (\<lambda>got. case got of
        Inl e \<Rightarrow> leave (if is_not_found e then finished else failed e)
      | Inr b \<Rightarrow>
          if om_namespace (nb_meta b) \<noteq> lc_namespace (lr_config r) \<or> b_location_ref (nb_spec b) \<noteq> lc_location_ref (lr_config r)
          then leave finished
          else if \<not> accepted_snapshot b
          then early (blocked L r b (Errorf ''local snapshot is not an accepted authority revision''))
          else pbind (api (kget l_namespace ''Namespace'' [] ''kube-system'')) (\<lambda>got. case got of
              Inl e \<Rightarrow> leave (failed e)
            | Inr n \<Rightarrow>
                if om_uid n \<noteq> lc_cluster_uid (lr_config r) then early (blocked L r b (Errorf ''local Infra identity changed''))
                else reconcile_accepted L r b)))
     (\<lambda>x. Ret (case x of Inl out \<Rightarrow> out | Inr u \<Rightarrow> u))"

end
