(* ===== verification/Local_Reconciler_Laws.thy ===== *)
theory Local_Reconciler_Laws
  imports Local_Reconciler
begin

text \<open>
  What the local reconciler may ask for, at any point of a pass, for all answers: which native objects it
  creates, changes and deletes, when it touches the gateways, and what it has seen before it reports a
  revision as applied. A rule per operation says what is known after it; the history only grows, so
  what was seen stays seen.
\<close>

section \<open>What a history shows\<close>

type_synonym lhist = "(lreq \<times> lresp) list"

definition answered :: "lhist \<Rightarrow> lobj kreq \<Rightarrow> lobj kresp \<Rightarrow> bool" where
  "answered h q y \<longleftrightarrow> (\<exists>r. (Api q, r) \<in> set h \<and> answer r = y)"

text \<open>Calls made to the API server that are all part of a history.\<close>

definition happened :: "lhist \<Rightarrow> (lobj kreq \<times> lobj kresp) list \<Rightarrow> bool" where
  "happened h h' \<longleftrightarrow> (\<forall>(q, y)\<in>set h'. answered h q y)"

text \<open>A binding the API server returned.\<close>

definition known :: "lhist \<Rightarrow> network_binding \<Rightarrow> bool" where
  "known h b \<longleftrightarrow> (\<exists>q. answered h q (Obj (LBinding b)))"

definition found :: "lhist \<Rightarrow> string \<Rightarrow> string \<Rightarrow> unstructured \<Rightarrow> bool" where
  "found h kind name x \<longleftrightarrow> answered h (Get kind [] name) (Obj (LNative x))"

definition missing :: "lhist \<Rightarrow> string \<Rightarrow> string \<Rightarrow> bool" where
  "missing h kind name \<longleftrightarrow> (\<exists>e. answered h (Get kind [] name) (Failed e) \<and> is_not_found e)"

text \<open>Complete lists of the Pods and the native addresses, none of which uses the subnet.\<close>

definition unused :: "lhist \<Rightarrow> string \<Rightarrow> bool" where
  "unused h name \<longleftrightarrow> (\<exists>ps ips. answered h (List ''Pod'' None []) (Items (map LPod ps)) \<and> \<not> list_ex (references_switch name) ps
     \<and> answered h (List ''IP'' None []) (Items (map LNative ips)) \<and> ip_in_use name ips = Inr ())"

text \<open>The pass works on an accepted snapshot of this site, in the cluster it was installed for.\<close>

definition checked :: "local_reconciler \<Rightarrow> lhist \<Rightarrow> bool" where
  "checked r h \<longleftrightarrow> (\<exists>b. known h b \<and> accepted_snapshot b \<and> om_namespace (nb_meta b) = lc_namespace (lr_config r)
       \<and> b_location_ref (nb_spec b) = lc_location_ref (lr_config r))
     \<and> (\<exists>n. answered h (Get ''Namespace'' [] ''kube-system'') (Obj (LNamespace n)) \<and> om_uid n = lc_cluster_uid (lr_config r))"

definition empty_plan_hash :: string where
  "empty_plan_hash = routes_hash []"

text \<open>No native route is left: the VPC is absent, the withdrawal is acknowledged, or there never was one.\<close>

definition routes_gone :: "lhist \<Rightarrow> network_binding \<Rightarrow> bool" where
  "routes_gone h b \<longleftrightarrow> missing h ''Vpc'' (b_native_vpc_name (nb_spec b))
     \<or> (\<exists>x. found h ''Vpc'' (b_native_vpc_name (nb_spec b)) x \<and> guard_native b x = Inr ()
          \<and> nested_slice (un_body x) [''spec'', ''destinationRoutes''] = []
          \<and> (routes_acknowledged x empty_plan_hash
             \<or> nested_map (un_body x) [''status'', ''destinationRoutes''] = None \<and> bst_gateways (nb_status b) = []))"

definition gateway_gone :: "local_reconciler \<Rightarrow> lhist \<Rightarrow> network_binding \<Rightarrow> bool" where
  "gateway_gone r h b \<longleftrightarrow> bst_gateways (nb_status b) = [] \<and> (lr_gateway r \<longrightarrow> (DeleteGateway b, Withdrawn (Inr True)) \<in> set h)"

definition no_subnets_left :: "network_binding \<Rightarrow> bool" where
  "no_subnets_left b \<longleftrightarrow> list_all (\<lambda>rec. \<not> is_subnet_receipt rec) (bst_resources (nb_status b))"

definition vpc_removable :: "local_reconciler \<Rightarrow> lhist \<Rightarrow> network_binding \<Rightarrow> bool" where
  "vpc_removable r h b \<longleftrightarrow> b_deleting (nb_spec b) \<and> routes_gone h b \<and> gateway_gone r h b \<and> no_subnets_left b"

definition deleted_evidence :: "local_reconciler \<Rightarrow> lhist \<Rightarrow> network_binding \<Rightarrow> bool" where
  "deleted_evidence r h b \<longleftrightarrow> vpc_removable r h b \<and> missing h ''Vpc'' (b_native_vpc_name (nb_spec b))
     \<and> \<not> recorded b ''Vpc'' (b_native_vpc_name (nb_spec b))"

text \<open>A gateway report with two hops, and the acknowledgement of routes through exactly these hops.\<close>

definition cross_evidence :: "lhist \<Rightarrow> network_binding \<Rightarrow> bool" where
  "cross_evidence h b \<longleftrightarrow> (\<exists>a report plan x. (EnsureGateway b a, Ensured (Inr report)) \<in> set h
     \<and> gr_ready report \<and> 2 \<le> length (reported_hops report) \<and> bst_gateways (nb_status b) = gr_gateways report
     \<and> compile (route_intents b (reported_hops report)) = Inr plan
     \<and> found h ''Vpc'' (b_native_vpc_name (nb_spec b)) x \<and> guard_native b x = Inr () \<and> routes_acknowledged x (dp_hash plan))"

definition subnet_evidence :: "lhist \<Rightarrow> binding_subnet \<Rightarrow> bool" where
  "subnet_evidence h s \<longleftrightarrow> (if bs_deleting s then missing h ''Subnet'' (bs_native_subnet_name s)
     else \<exists>x. found h ''Subnet'' (bs_native_subnet_name s) x \<and> shows_ready x)"

text \<open>\<open>cross\<close> is decided on the binding as it was read, before the receipt of its allocation was added.\<close>

definition ready_evidence :: "lhist \<Rightarrow> network_binding \<Rightarrow> bool" where
  "ready_evidence h b \<longleftrightarrow> list_all (subnet_evidence h) (b_subnets (nb_spec b))
     \<and> (\<exists>b1. known h b1 \<and> (is_cross b1 \<longrightarrow> cross_evidence h b))"

definition status_change :: "local_reconciler \<Rightarrow> lhist \<Rightarrow> network_binding \<Rightarrow> network_binding \<Rightarrow> bool" where
  "status_change r h b b' \<longleftrightarrow>
     (if bst_applied_revision (nb_status b') = bst_applied_revision (nb_status b)
         \<and> (bst_phase (nb_status b') = bst_phase (nb_status b) \<or> bst_phase (nb_status b') \<in> {''Pending'', ''Blocked'', ''Deleting''}) then True
      else bst_applied_revision (nb_status b') = b_revision (nb_spec b)
        \<and> (bst_phase (nb_status b') = ''Ready'' \<and> ready_evidence h b \<or> bst_phase (nb_status b') = ''Deleted'' \<and> deleted_evidence r h b))"

section \<open>The contract\<close>

definition touches_spec_only :: "unstructured \<Rightarrow> unstructured \<Rightarrow> bool" where
  "touches_spec_only x y \<longleftrightarrow> un_meta y = un_meta x \<and> un_kind y = un_kind x \<and> un_api_version y = un_api_version x
     \<and> filter (\<lambda>(k, v). k \<noteq> ''spec'') (un_body y) = filter (\<lambda>(k, v). k \<noteq> ''spec'') (un_body x)"

fun write_ok :: "local_reconciler \<Rightarrow> lhist \<Rightarrow> network_binding \<Rightarrow> lobj kreq \<Rightarrow> bool" where
  "write_ok r h b (Create (LNative x)) \<longleftrightarrow> mget (om_labels (un_meta x)) native_owner_label = om_uid (nb_meta b)
     \<and> un_kind x \<in> {''Vpc'', ''Subnet''} \<and> missing h (un_kind x) (om_name (un_meta x)) \<and> \<not> recorded b (un_kind x) (om_name (un_meta x))"
| "write_ok r h b (Update (LNative y)) \<longleftrightarrow> (\<exists>kind name x. found h kind name x \<and> guard_native b x = Inr () \<and> touches_spec_only x y)"
| "write_ok r h b (Delete (LNative x) uid rv) \<longleftrightarrow> (\<exists>kind name. found h kind name x \<and> guard_native b x = Inr ()
     \<and> uid = Some (om_uid (un_meta x)) \<and> rv = Some (om_resource_version (un_meta x))
     \<and> (kind = ''Subnet'' \<and> unused h name \<or> kind = ''Vpc'' \<and> vpc_removable r h b))"
| "write_ok r h b q \<longleftrightarrow> (\<exists>h'. happened h h' \<and> allocation_write (lr_config r) b h' q)"

definition status_ok :: "local_reconciler \<Rightarrow> lhist \<Rightarrow> network_binding \<Rightarrow> bool" where
  "status_ok r h b' \<longleftrightarrow> (\<exists>b. known h b \<and> nb_spec b' = nb_spec b \<and> nb_meta b' = nb_meta b \<and> status_change r h b b')"

fun native_contract :: "local_reconciler \<Rightarrow> lhist \<Rightarrow> lreq \<Rightarrow> bool" where
  "native_contract r h (EnsureGateway b a) \<longleftrightarrow> checked r h \<and> known h b \<and> lr_gateway r
     \<and> (\<exists>x. found h ''Subnet'' (transit_name b) x \<and> shows_ready x)"
| "native_contract r h (DeleteGateway b) \<longleftrightarrow> checked r h \<and> known h b \<and> lr_gateway r \<and> routes_gone h b"
| "native_contract r h (Api (Get kind ns name)) \<longleftrightarrow> True"
| "native_contract r h (Api (List kind ns labels)) \<longleftrightarrow> True"
| "native_contract r h (Api (UpdateStatus x)) \<longleftrightarrow> (\<exists>b'. x = LBinding b' \<and> status_ok r h b')"
| "native_contract r h (Api q) \<longleftrightarrow> checked r h \<and> (\<exists>b. known h b \<and> write_ok r h b q)"

section \<open>What was seen stays seen\<close>

named_theorems seen \<open>what was seen stays seen\<close>

lemma answered_mono [seen]: "answered h q y \<Longrightarrow> grows h h' \<Longrightarrow> answered h' q y"
  by (auto simp: answered_def grows_def)

lemma known_mono [seen]: "known h b \<Longrightarrow> grows h h' \<Longrightarrow> known h' b"
  and found_mono [seen]: "found h k n x \<Longrightarrow> grows h h' \<Longrightarrow> found h' k n x"
  and missing_mono [seen]: "missing h k n \<Longrightarrow> grows h h' \<Longrightarrow> missing h' k n"
  and unused_mono [seen]: "unused h n \<Longrightarrow> grows h h' \<Longrightarrow> unused h' n"
  unfolding known_def found_def missing_def unused_def by (blast intro: answered_mono)+

lemma checked_mono [seen]: "checked r h \<Longrightarrow> grows h h' \<Longrightarrow> checked r h'"
  unfolding checked_def by (blast intro: seen)

lemma routes_gone_mono [seen]: "routes_gone h b \<Longrightarrow> grows h h' \<Longrightarrow> routes_gone h' b"
  unfolding routes_gone_def by (blast intro: seen)

lemma gateway_gone_mono [seen]: "gateway_gone r h b \<Longrightarrow> grows h h' \<Longrightarrow> gateway_gone r h' b"
  unfolding gateway_gone_def grows_def by blast

lemma cross_evidence_mono [seen]: "cross_evidence h b \<Longrightarrow> grows h h' \<Longrightarrow> cross_evidence h' b"
  unfolding cross_evidence_def by (blast intro: seen grows_in)

lemma subnet_evidence_mono [seen]: "subnet_evidence h s \<Longrightarrow> grows h h' \<Longrightarrow> subnet_evidence h' s"
  unfolding subnet_evidence_def by (auto intro: missing_mono) (blast intro: found_mono)

section \<open>The calls\<close>

lemma answered_snoc: "answered (h @ [(Api q, x)]) q (answer x)"
  by (auto simp: answered_def)

lemma always_early [simp]: "always G (early p) Q h \<longleftrightarrow> always G p (\<lambda>h out. Q h (Inl out)) h"
  by (simp add: early_def)

lemma do_rule:
  assumes "G h (Api q)" and "\<And>h' x. grows h h' \<Longrightarrow> Q h' x"
  shows "always G (api (kdo q)) Q h"
  using assms(1) by (auto simp: kdo_def intro!: assms(2))

lemma get_rule:
  assumes "G h (Api (Get kind ns name))"
    and "\<And>h' e. grows h h' \<Longrightarrow> (is_not_found e \<Longrightarrow> answered h' (Get kind ns name) (Failed e)) \<Longrightarrow> Q h' (Inl e)"
    and "\<And>h' y x. grows h h' \<Longrightarrow> answered h' (Get kind ns name) (Obj y) \<Longrightarrow> prj y = Some x \<Longrightarrow> Q h' (Inr x)"
  shows "always G (api (kget prj kind ns name)) Q h"
proof -
  have "Q (h @ [(Api (Get kind ns name), r)]) (case answer r of Failed e \<Rightarrow> Inl e
      | Obj x \<Rightarrow> (case prj x of None \<Rightarrow> Inl decode_error | Some a \<Rightarrow> Inr a) | _ \<Rightarrow> Inl decode_error)" for r
  proof -
    let ?h = "h @ [(Api (Get kind ns name), r)]"
    have sub: "grows h ?h" and a: "answered ?h (Get kind ns name) (answer r)" by (simp_all add: answered_snoc)
    have bad: "Q ?h (Inl decode_error)" using sub by (intro assms(2)) (auto simp: decode_error_def)
    show ?thesis
      using a assms(2) [OF sub] assms(3) [OF sub] bad by (auto split: kresp.split option.split)
  qed
  with assms(1) show ?thesis by (simp add: kget_def)
qed

lemma list_rule:
  assumes "G h (Api (List kind ns ls))"
    and "\<And>h' e. grows h h' \<Longrightarrow> Q h' (Inl e)"
    and "\<And>h' ys. grows h h' \<Longrightarrow> answered h' (List kind ns ls) (Items ys) \<Longrightarrow> list_all (\<lambda>x. prj x \<noteq> None) ys \<Longrightarrow> Q h' (Inr (List.map_filter prj ys))"
  shows "always G (api (klist prj kind ns ls)) Q h"
proof -
  have "Q (h @ [(Api (List kind ns ls), r)]) (case answer r of Failed e \<Rightarrow> Inl e
      | Items xs \<Rightarrow> (if list_all (\<lambda>x. prj x \<noteq> None) xs then Inr (List.map_filter prj xs) else Inl decode_error)
      | _ \<Rightarrow> Inl decode_error)" for r
  proof -
    let ?h = "h @ [(Api (List kind ns ls), r)]"
    have sub: "grows h ?h" and a: "answered ?h (List kind ns ls) (answer r)" by (simp_all add: answered_snoc)
    show ?thesis
      using a assms(2) [OF sub] assms(3) [OF sub] by (auto split: kresp.split)
  qed
  with assms(1) show ?thesis by (simp add: klist_def)
qed

lemma write_rule:
  assumes "G h (Api q)"
    and "\<And>h' e. grows h h' \<Longrightarrow> Q h' (Inl e)"
    and "\<And>h' y x. grows h h' \<Longrightarrow> answered h' q (Obj y) \<Longrightarrow> prj y = Some x \<Longrightarrow> Q h' (Inr x)"
  shows "always G (api (kwrite prj q)) Q h"
proof -
  have "Q (h @ [(Api q, r)]) (case answer r of Failed e \<Rightarrow> Inl e
      | Obj x \<Rightarrow> (case prj x of None \<Rightarrow> Inl decode_error | Some a \<Rightarrow> Inr a) | _ \<Rightarrow> Inl decode_error)" for r
  proof -
    let ?h = "h @ [(Api q, r)]"
    have sub: "grows h ?h" and a: "answered ?h q (answer r)" by (simp_all add: answered_snoc)
    show ?thesis
      using a assms(2) [OF sub] assms(3) [OF sub] by (auto split: kresp.split option.split)
  qed
  with assms(1) show ?thesis by (simp add: kwrite_def)
qed

lemma l_native_Some [simp]: "l_native y = Some x \<longleftrightarrow> y = LNative x" and l_pod_Some [simp]: "l_pod y = Some p \<longleftrightarrow> y = LPod p"
  and l_namespace_Some [simp]: "l_namespace y = Some m \<longleftrightarrow> y = LNamespace m"
  by (cases y; auto)+

lemma get_native_rule:
  assumes "\<And>h' e. grows h h' \<Longrightarrow> (is_not_found e \<Longrightarrow> missing h' kind name) \<Longrightarrow> Q h' (Inl e)"
    and "\<And>h' x. grows h h' \<Longrightarrow> found h' kind name x \<Longrightarrow> Q h' (Inr x)"
  shows "always (native_contract r) (get_native kind name) Q h"
  unfolding get_native_def
proof (rule get_rule, goal_cases)
  case (2 h' e)
  then show ?case by (intro assms(1)) (auto simp: missing_def)
next
  case (3 h' y x)
  then show ?case by (intro assms(2)) (auto simp: found_def)
qed simp

text \<open>An API program inside the pass, by what is known of it on its own.\<close>

lemma always_api:
  assumes "always g p P h0" and "happened h h0" and "\<And>h' h1 q. g h1 q \<Longrightarrow> happened h' h1 \<Longrightarrow> grows h h' \<Longrightarrow> G h' (Api q)"
    and "\<And>h' h1 x. P h1 x \<Longrightarrow> happened h' h1 \<Longrightarrow> grows h h' \<Longrightarrow> Q h' x"
  shows "always G (api p) Q h"
  using assms
proof (induction p arbitrary: h h0)
  case (Call q k)
  have "always G (api (k (answer x))) Q (h @ [(Api q, x)])" for x
  proof (rule Call.IH)
    show "always g (k (answer x)) P (h0 @ [(q, answer x)])" using Call.prems(1) by simp
    show "happened (h @ [(Api q, x)]) (h0 @ [(q, answer x)])"
      using Call.prems(2) answered_snoc by (auto simp: happened_def intro: answered_mono)
  qed (use Call.prems(3,4) in auto)
  with Call.prems(1-3) show ?case by auto
qed auto

section \<open>Statuses\<close>

text \<open>The binding the pass works on, up to receipts it could not store.\<close>

definition current :: "lhist \<Rightarrow> network_binding \<Rightarrow> bool" where
  "current h b \<longleftrightarrow> (\<exists>b0. known h b0 \<and> nb_spec b = nb_spec b0 \<and> nb_meta b = nb_meta b0
     \<and> bst_phase (nb_status b) = bst_phase (nb_status b0) \<and> bst_applied_revision (nb_status b) = bst_applied_revision (nb_status b0))"

lemma current_mono [seen]: "current h b \<Longrightarrow> grows h h' \<Longrightarrow> current h' b"
  unfolding current_def by (blast intro: seen)

lemma known_current: "known h b \<Longrightarrow> current h b"
  by (auto simp: current_def)

lemma status_ok_current:
  assumes "current h b" and "nb_spec b' = nb_spec b" and "nb_meta b' = nb_meta b"
    and "bst_applied_revision (nb_status b') = bst_applied_revision (nb_status b)"
    and "bst_phase (nb_status b') = bst_phase (nb_status b) \<or> bst_phase (nb_status b') \<in> {''Pending'', ''Blocked'', ''Deleting''}"
  shows "status_ok r h b'"
  using assms unfolding current_def status_ok_def status_change_def by force

lemma binding_state_rule:
  assumes "status_ok r h (with_state L b phase reason message ready applied_now)" and "\<And>h' out. grows h h' \<Longrightarrow> Q h' out"
  shows "always (native_contract r) (binding_state L r b phase reason message ready applied_now) Q h"
  using assms by (auto simp: binding_state_def Let_def intro!: do_rule)

lemma pending_rule:
  assumes "current h b" and "\<And>h' out. grows h h' \<Longrightarrow> Q h' out"
  shows "always (native_contract r) (pending L r b reason message) Q h"
    and "always (native_contract r) (blocked L r b e) Q h"
    and "always (native_contract r) (deleting_state L r b reason message) Q h"
  unfolding pending_def blocked_def deleting_state_def
  by (rule binding_state_rule; (rule status_ok_current [OF assms(1)])?; simp add: with_state_def assms(2))+

lemma knownI: "answered h q (Obj (LBinding b)) \<Longrightarrow> known h b"
  by (auto simp: known_def)

lemma update_status_to_rule:
  assumes "current h b" and "\<And>h' b' e. grows h h' \<Longrightarrow> current h' b' \<Longrightarrow> Q h' (b', Inl e)"
    and "\<And>h' b'. grows h h' \<Longrightarrow> known h' b' \<Longrightarrow> Q h' (b', Inr v)"
  shows "always (native_contract r) (update_status_to v b) Q h"
proof -
  have "status_ok r h b" by (rule status_ok_current [OF assms(1)]) simp_all
  then show ?thesis
    unfolding update_status_to_def update_status_def
    by (auto intro!: write_rule assms(2,3) intro: current_mono [OF assms(1)] knownI)
qed

lemma current_receipts [simp]:
  "current h (add_receipt k n u b) = current h b" "current h (forget_receipts k n b) = current h b"
  by (simp_all add: current_def add_receipt_def forget_receipts_def)

section \<open>The operations\<close>

lemma find_object_rule:
  assumes "\<And>h' e. grows h h' \<Longrightarrow> Q h' (Inl e)" and "\<And>h' objs'. grows h h' \<Longrightarrow> Q h' (Inr objs')"
  shows "always (native_contract r) (find_object b objs name) Q h"
  using assms
  by (auto simp: find_object_def Let_def ebind_lift_res simp del: always_ebind
      split: option.split sum.split intro!: get_native_rule)

lemma current_recover: "current h (fst (foldl (recover_receipt objs) (b, c) xs)) = current h b"
  by (induction xs arbitrary: b c) (auto simp: recover_receipt_def split: option.split)

lemma recover_rule:
  assumes "known h b" and "\<And>h' b' c e. grows h h' \<Longrightarrow> current h' b' \<Longrightarrow> Q h' (b', c, Some e)"
    and "\<And>h' b'. grows h h' \<Longrightarrow> Q h' (b', True, None)" and "\<And>h'. grows h h' \<Longrightarrow> Q h' (b, False, None)"
  shows "always (native_contract r) (recover_native_subnets b) Q h"
proof -
  have cur: "current h' b" if "grows h h'" for h'
    using that assms(1) by (blast intro: known_current known_mono)
  have store: "always (native_contract r) (pbind (update_status b') (\<lambda>(b'', x). Ret (b'', True, case x of Inl e \<Rightarrow> Some e | Inr _ \<Rightarrow> None))) Q h'"
    if "grows h h'" "current h' b'" for h' b'
  proof -
    have "status_ok r h' b'" by (rule status_ok_current [OF that(2)]) simp_all
    then show ?thesis using that
      by (auto simp: update_status_def intro!: write_rule assms(2,3) intro: current_mono knownI known_current)
  qed
  have rest: "always (native_contract r) (case found of Inl e \<Rightarrow> Ret (b, False, Some e)
      | Inr objs \<Rightarrow> (case foldl (recover_receipt objs) (b, False) ordered of (b', changed) \<Rightarrow>
          if \<not> changed then Ret (b, False, None)
          else pbind (update_status b') (\<lambda>(b'', x). Ret (b'', True, case x of Inl e \<Rightarrow> Some e | Inr _ \<Rightarrow> None)))) Q h'"
    if "grows h h'" for h' found ordered
  proof (cases found)
    case (Inl e)
    then show ?thesis using assms(2) cur [OF that] that by simp
  next
    case (Inr objs)
    obtain b' changed where f: "foldl (recover_receipt objs) (b, False) ordered = (b', changed)" by fastforce
    have "current h' b'" using current_recover [of h' objs b False ordered] cur [OF that] f by simp
    with store [OF that this] assms(4) [OF that] f Inr show ?thesis by simp
  qed
  have search: "always (native_contract r) (efold (find_object b) objs ordered) (\<lambda>h' x. grows h h') h'" if "grows h h'" for objs ordered h'
  proof (rule always_efold [where I = "\<lambda>visited s h'. grows h h'"], goal_cases)
    case (2 visited x todo s h'')
    then show ?case by (intro find_object_rule) (simp_all add: grows_trans [of h h''])
  qed (use that in auto)
  show ?thesis
    unfolding recover_native_subnets_def always_pbind
  proof (rule list_rule, goal_cases)
    case (2 h' e)
    then show ?case using assms(2) cur by simp
  next
    case (3 h' ys)
    then show ?case unfolding sum.case Let_def always_pbind
      by (intro always_mono [OF search [OF 3(1)]]) (auto intro: rest)
  qed simp
qed

lemma record_native_rule:
  assumes "known h b" and "\<And>h' b' e. grows h h' \<Longrightarrow> current h' b' \<Longrightarrow> Q h' (b', Inl e)"
    and "\<And>h' b'. grows h h' \<Longrightarrow> known h' b' \<Longrightarrow> Q h' (b', Inr True)" and "Q h (b, Inr False)"
  shows "always (native_contract r) (record_native b x) Q h"
  using assms by (auto simp: record_native_def intro!: update_status_to_rule intro: known_current)

lemma set_fields_touch: "touches_spec_only x (set_fields fs x)"
proof -
  have other: "filter (\<lambda>(k, v). k \<noteq> ''spec'') (mput ''spec'' v m) = filter (\<lambda>(k, v). k \<noteq> ''spec'') m" for v :: json and m
    by (induction m) auto
  have "touches_spec_only x (set_spec k v x)" for k v x
    by (simp add: set_spec_def touches_spec_only_def other)
  then show ?thesis
    unfolding set_fields_def
    by (induction fs arbitrary: x) (auto simp: touches_spec_only_def split: prod.splits)
qed

lemma ensure_native_rule:
  assumes ctx: "known h b" "checked r h"
    and want: "mget (om_labels (un_meta want)) native_owner_label = om_uid (nb_meta b)" "un_kind want \<in> {''Vpc'', ''Subnet''}"
    and Q: "\<And>h' b' e. grows h h' \<Longrightarrow> current h' b' \<Longrightarrow> Q h' (b', Inl e)"
      "\<And>h' b'. grows h h' \<Longrightarrow> known h' b' \<Longrightarrow> Q h' (b', Inr True)" "\<And>h'. grows h h' \<Longrightarrow> Q h' (b, Inr False)"
  shows "always (native_contract r) (ensure_native b want) Q h"
proof -
  have cur: "current h' b" "known h' b" "checked r h'" if "grows h h'" for h'
    using that ctx by (blast intro: known_current known_mono checked_mono)+
  have keep: "always (native_contract r) (record_native b x) Q h'" if "grows h h'" for h' x
    by (rule record_native_rule) (use that in \<open>auto intro!: cur Q\<close>)
  show ?thesis
    unfolding ensure_native_def always_pbind
  proof (rule get_native_rule, goal_cases)
    case (1 h' e)
    have create: "always (native_contract r) (api (kwrite l_native (Create (LNative want)))) (\<lambda>h'' made. always (native_contract r)
        (case made of Inl e \<Rightarrow> Ret (b, Inl e) | Inr made_now \<Rightarrow> record_native b made_now) Q h'') h'"
      if "is_not_found e" "\<not> recorded b (un_kind want) (om_name (un_meta want))"
    proof (rule write_rule, goal_cases)
      case 1
      then show ?case using that \<open>is_not_found e \<Longrightarrow> _\<close> want cur [OF \<open>grows h h'\<close>] by auto
    qed (use \<open>grows h h'\<close> in \<open>auto intro!: Q keep cur\<close>)
    show ?case using 1 create by (auto intro!: Q cur)
  next
    case (2 h' x)
    have "write_ok r h' b (Update (LNative (set_fields fs x)))" if "guard_native b x = Inr ()" for fs
      using that 2(2) unfolding write_ok.simps by (blast intro: set_fields_touch)
    then have "native_contract r h' (Api (Update (LNative (set_fields fs x))))" if "guard_native b x = Inr ()" for fs
      using that cur [OF 2(1)] by (auto simp del: write_ok.simps)
    then have update: "always (native_contract r) (api (kdo (Update (LNative (set_fields fs x))))) (\<lambda>h'' y. Q h'' (b, case y of Inl e \<Rightarrow> Inl e | Inr _ \<Rightarrow> Inr True)) h'"
      if "guard_native b x = Inr ()" for fs
      using that 2(1) by (auto intro!: do_rule Q cur split: sum.split)
    show ?case using 2 update keep [OF 2(1)] by (auto simp: Let_def split: sum.split intro!: Q cur)
  qed
qed

lemma native_ready_rule:
  assumes "\<And>h' e. grows h h' \<Longrightarrow> Q h' (Inl e)"
    and "\<And>h' x. grows h h' \<Longrightarrow> found h' (un_kind want) (om_name (un_meta want)) x \<Longrightarrow> Q h' (Inr (shows_ready x))"
  shows "always (native_contract r) (native_ready want) Q h"
  using assms by (auto simp: native_ready_def intro!: get_native_rule)

lemma require_capability_rule:
  "(\<And>h' x. grows h h' \<Longrightarrow> Q h' x) \<Longrightarrow> always (native_contract r) require_capability Q h"
  by (auto simp: require_capability_def intro!: get_native_rule)

lemma native_routes_rule:
  assumes ctx: "known h b" "checked r h"
    and Q: "\<And>h' e. grows h h' \<Longrightarrow> Q h' (Inl e)" "\<And>h'. grows h h' \<Longrightarrow> Q h' (Inr (True, False))"
      "\<And>h' plan x. grows h h' \<Longrightarrow> compile intents = Inr plan \<Longrightarrow> found h' ''Vpc'' (b_native_vpc_name (nb_spec b)) x \<Longrightarrow> guard_native b x = Inr ()
        \<Longrightarrow> (dp_routes plan = [] \<Longrightarrow> nested_slice (un_body x) [''spec'', ''destinationRoutes''] = [])
        \<Longrightarrow> Q h' (Inr (False, routes_acknowledged x (dp_hash plan)))"
  shows "always (native_contract r) (native_routes b intents) Q h"
proof (cases "compile intents")
  case (Inr plan)
  let ?new = "map route_value (dp_routes plan)"
  have update: "always (native_contract r) (api (kdo (Update (LNative (set_spec ''destinationRoutes'' v x))))) R h'"
    if "grows h h'" "found h' ''Vpc'' (b_native_vpc_name (nb_spec b)) x" "guard_native b x = Inr ()" "\<And>h'' y. grows h' h'' \<Longrightarrow> R h'' y" for h' x v R
  proof (rule do_rule)
    have "touches_spec_only x (set_spec ''destinationRoutes'' v x)"
      using set_fields_touch [of x "[(''destinationRoutes'', v)]"] by (simp add: set_fields_def)
    with that(2,3) have "write_ok r h' b (Update (LNative (set_spec ''destinationRoutes'' v x)))"
      unfolding write_ok.simps by blast
    then show "native_contract r h' (Api (Update (LNative (set_spec ''destinationRoutes'' v x))))"
      using ctx that(1) by (auto simp del: write_ok.simps intro: known_mono checked_mono)
  qed (rule that(4))
  have same: "nested_slice (un_body x) [''spec'', ''destinationRoutes''] = []"
    if "dp_routes plan = []" "\<not> ((nested_slice (un_body x) [''spec'', ''destinationRoutes''] \<noteq> [] \<or> ?new \<noteq> [])
      \<and> \<not> same_json (JArr (nested_slice (un_body x) [''spec'', ''destinationRoutes''])) (JArr ?new))" for x
    using that by (auto simp: same_json_def)
  show ?thesis
    unfolding native_routes_def ebind_lift_res Inr sum.case Let_def always_ebind [of _ "get_native _ _"]
  proof (rule get_native_rule, goal_cases)
    case (1 h' e)
    then show ?case by (simp add: Q)
  next
    case (2 h' x)
    let ?old = "nested_slice (un_body x) [''spec'', ''destinationRoutes'']"
    have ack: "Q h' (Inr (False, routes_acknowledged x (dp_hash plan)))"
      if "guard_native b x = Inr ()" "\<not> ((?old \<noteq> [] \<or> ?new \<noteq> []) \<and> \<not> same_json (JArr ?old) (JArr ?new))"
      using 2 that(1) by (intro Q(3)) (auto simp: Inr intro: same [OF _ that(2)])
    show ?case
    proof (cases "guard_native b x")
      case (Inr u)
      then show ?thesis using ack 2 by (auto simp: ebind_lift_res intro!: update Q split: sum.split)
    qed (use 2 in \<open>simp add: Q ebind_lift_res\<close>)
  qed
qed (simp add: native_routes_def ebind_lift_res Q)

lemma items_split: "list_all (\<lambda>x. l_pod x \<noteq> None) ys \<Longrightarrow> ys = map LPod (List.map_filter l_pod ys)"
  "list_all (\<lambda>x. l_native x \<noteq> None) ys \<Longrightarrow> ys = map LNative (List.map_filter l_native ys)"
  by (induction ys) (auto simp: map_filter_simps)

lemma endpoints_empty_rule:
  assumes "\<And>h' e. grows h h' \<Longrightarrow> Q h' (Inl e)" and "\<And>h'. grows h h' \<Longrightarrow> unused h' name \<Longrightarrow> Q h' (Inr ())"
  shows "always (native_contract r) (endpoints_empty name) Q h"
  unfolding endpoints_empty_def always_ebind [of _ "api (klist l_pod _ _ _)"]
proof (rule list_rule, goal_cases)
  case (2 h' e)
  then show ?case by (simp add: assms(1))
next
  case (3 h' ps)
  have lookup: "always (native_contract r) (api (klist l_native ''IP'' None [])) (\<lambda>h'' got. always (native_contract r) (case got of
        Inl e \<Rightarrow> leave (Errorf ''cannot verify native subnet IP allocation cleanup'')
      | Inr ips \<Rightarrow> lift_res Errorf (ip_in_use name ips)) Q h'') h'"
    if "\<not> list_ex (references_switch name) (List.map_filter l_pod ps)"
  proof (rule list_rule, goal_cases)
    case (2 h'' e)
    then show ?case using \<open>grows h h'\<close> by (auto intro!: assms(1))
  next
    case (3 h'' ips)
    have g: "grows h h''" using \<open>grows h h'\<close> 3(1) by blast
    have "unused h'' name" if "ip_in_use name (List.map_filter l_native ips) = Inr ()"
      unfolding unused_def
    proof (intro exI conjI)
      show "answered h'' (List ''Pod'' None []) (Items (map LPod (List.map_filter l_pod ps)))"
        using \<open>answered h' _ (Items ps)\<close> 3(1) items_split(1) [OF \<open>list_all _ ps\<close>] by (auto intro: answered_mono)
      show "answered h'' (List ''IP'' None []) (Items (map LNative (List.map_filter l_native ips)))"
        using 3(2) items_split(2) [OF 3(3)] by simp
    qed (use that \<open>\<not> list_ex _ _\<close> in simp_all)
    with g show ?case by (auto simp: assms split: sum.split)
  qed simp
  with 3 show ?case by (simp add: assms(1))
qed simp

lemma gateway_report_rule:
  assumes "known h b" and "\<And>h' b' e. grows h h' \<Longrightarrow> current h' b' \<Longrightarrow> Q h' (b', Inl e)"
    and "\<And>h' b'. grows h h' \<Longrightarrow> known h' b' \<Longrightarrow> Q h' (b', Inr True)"
    and "bst_gateways (nb_status b) = gr_gateways report \<Longrightarrow> Q h (b, Inr False)"
  shows "always (native_contract r) (gateway_report b report) Q h"
proof -
  have "current h (b\<lparr>nb_status := (nb_status b)\<lparr>bst_resources := rs, bst_gateways := gs\<rparr>\<rparr>)" for rs gs
    using assms(1) by (auto simp: current_def)
  then show ?thesis
    using assms(2-4) by (auto simp: gateway_report_def Let_def intro!: update_status_to_rule)
qed

lemma delete_native_rule:
  assumes ctx: "known h b" "checked r h"
    and may: "kind = ''Subnet'' \<and> chk \<or> kind = ''Vpc'' \<and> vpc_removable r h b"
    and Q: "\<And>h' b' e. grows h h' \<Longrightarrow> current h' b' \<Longrightarrow> Q h' (b', Inl e)" "\<And>h' b'. grows h h' \<Longrightarrow> current h' b' \<Longrightarrow> Q h' (b', Inr False)"
      "\<And>h'. grows h h' \<Longrightarrow> missing h' kind name \<Longrightarrow> \<not> recorded b kind name \<Longrightarrow> Q h' (b, Inr True)"
  shows "always (native_contract r) (delete_native b kind name chk) Q h"
proof -
  have cur: "current h' b" "known h' b" "checked r h'" if "grows h h'" for h'
    using that ctx by (blast intro: known_current known_mono checked_mono)+
  have vpc: "vpc_removable r h b \<Longrightarrow> grows h h' \<Longrightarrow> vpc_removable r h' b" for h'
    unfolding vpc_removable_def by (blast intro: seen)
  show ?thesis
    unfolding delete_native_def always_pbind
  proof (rule get_native_rule, goal_cases)
    case (1 h' e)
    then show ?case
      using cur(1) by (auto intro!: Q update_status_to_rule intro: known_current)
  next
    case (2 h' x)
    have delete: "always (native_contract r) (api (kdo (Delete (LNative x) (Some (om_uid (un_meta x))) (Some (om_resource_version (un_meta x))))))
        (\<lambda>h'' y. Q h'' (b, case y of Inl e \<Rightarrow> Inl e | Inr _ \<Rightarrow> Inr False)) h''"
      if "grows h' h''" "guard_native b x = Inr ()" "chk \<Longrightarrow> unused h'' name" for h''
    proof (rule do_rule)
      have "grows h h''" "found h'' kind name x" using 2 that(1) by (auto intro: found_mono)
      then have "write_ok r h'' b (Delete (LNative x) (Some (om_uid (un_meta x))) (Some (om_resource_version (un_meta x))))"
        unfolding write_ok.simps using may that(2,3) vpc by blast
      then show "native_contract r h'' (Api (Delete (LNative x) (Some (om_uid (un_meta x))) (Some (om_resource_version (un_meta x)))))"
        using cur [OF \<open>grows h h''\<close>] by (auto simp del: write_ok.simps)
    next
      fix h3 y
      assume "grows h'' h3"
      then have "grows h h3" using 2(1) that(1) by blast
      then show "Q h3 (b, case y of Inl e \<Rightarrow> Inl e | Inr _ \<Rightarrow> Inr False)"
        using cur by (auto intro!: Q split: sum.split)
    qed
    have step: "always (native_contract r) (if om_deletion (un_meta x) \<noteq> None then go False
        else ebind (api (kdo (Delete (LNative x) (Some (om_uid (un_meta x))) (Some (om_resource_version (un_meta x)))))) (\<lambda>_. go False))
        (\<lambda>h'' y. Q h'' (b, y)) h''" if "grows h' h''" "guard_native b x = Inr ()" "chk \<Longrightarrow> unused h'' name" for h''
    proof -
      have "grows h h''" using 2(1) that(1) by blast
      with delete [OF that] cur show ?thesis
        by (auto intro!: Q elim!: always_mono split: sum.splits)
    qed
    have check: "always (native_contract r) (if chk then endpoints_empty name else go ()) (\<lambda>h'' y. case y of
        Inl e \<Rightarrow> Q h'' (b, Inl e)
      | Inr _ \<Rightarrow> always (native_contract r) (if om_deletion (un_meta x) \<noteq> None then go False
        else ebind (api (kdo (Delete (LNative x) (Some (om_uid (un_meta x))) (Some (om_resource_version (un_meta x)))))) (\<lambda>_. go False))
        (\<lambda>h'' y. Q h'' (b, y)) h'') h'" if "guard_native b x = Inr ()"
    proof (cases chk)
      case True
      have "always (native_contract r) (endpoints_empty name) (\<lambda>h'' y. case y of
          Inl e \<Rightarrow> Q h'' (b, Inl e)
        | Inr _ \<Rightarrow> always (native_contract r) (if om_deletion (un_meta x) \<noteq> None then go False
          else ebind (api (kdo (Delete (LNative x) (Some (om_uid (un_meta x))) (Some (om_resource_version (un_meta x)))))) (\<lambda>_. go False))
          (\<lambda>h'' y. Q h'' (b, y)) h'') h'"
      proof (rule endpoints_empty_rule, goal_cases)
        case (1 h'' e)
        then have "grows h h''" using 2(1) by blast
        then show ?case using cur Q(1) by simp
      next
        case (2 h'')
        then show ?case unfolding sum.case by (intro step that)
      qed
      with True show ?thesis by simp
    next
      case False
      then show ?thesis using step [OF grows_refl that] by (simp del: always_ebind)
    qed
    show ?case
    proof (cases "guard_native b x")
      case (Inr u)
      then show ?thesis using check by (simp add: ebind_lift_res)
    qed (use 2 cur in \<open>simp add: Q ebind_lift_res\<close>)
  qed
qed

lemma compile_Nil: "compile [] = Inr plan \<Longrightarrow> dp_routes plan = [] \<and> dp_hash plan = empty_plan_hash"
  by (auto simp: compile_def empty_plan_hash_def sort_slice_def)

lemma withdraw_routes_rule:
  assumes ctx: "known h b" "checked r h"
    and Q: "\<And>h' e. grows h h' \<Longrightarrow> Q h' (Inl e)" "\<And>h'. grows h h' \<Longrightarrow> Q h' (Inr False)"
      "\<And>h'. grows h h' \<Longrightarrow> routes_gone h' b \<Longrightarrow> Q h' (Inr True)"
  shows "always (native_contract r) (withdraw_routes b) Q h"
  unfolding withdraw_routes_def always_pbind
proof (rule get_native_rule, goal_cases)
  case (1 h' e)
  then show ?case by (auto simp: Q routes_gone_def)
next
  case (2 h' x)
  have withdraw: "always (native_contract r) (native_routes b []) (\<lambda>h'' y. case y of
      Inl e \<Rightarrow> Q h'' (Inl e) | Inr (changed, ready) \<Rightarrow> Q h'' (Inr (\<not> (changed \<or> \<not> ready)))) h'"
  proof (rule native_routes_rule, goal_cases)
    case (5 h'' plan y)
    have "routes_gone h'' b" if "routes_acknowledged y (dp_hash plan)"
      using that 5 compile_Nil [OF 5(2)] unfolding routes_gone_def by auto
    moreover have "grows h h''" using 2(1) 5(1) by blast
    ultimately show ?case by (cases "routes_acknowledged y (dp_hash plan)") (simp_all add: Q)
  next
    case (3 h'' e)
    then have "grows h h''" using 2(1) by blast
    then show ?case by (simp add: Q)
  next
    case (4 h'')
    then have "grows h h''" using 2(1) by blast
    then show ?case by (simp add: Q)
  qed (use ctx 2(1) in \<open>blast intro: known_mono checked_mono\<close>)+
  show ?case
  proof (cases "guard_native b x")
    case (Inl e)
    then show ?thesis using 2 by (simp add: ebind_lift_res Q)
  next
    case (Inr u)
    then have none: "routes_gone h' b" if "nested_slice (un_body x) [''spec'', ''destinationRoutes''] = []"
      "nested_map (un_body x) [''status'', ''destinationRoutes''] = None" "bst_gateways (nb_status b) = []"
      using that 2(2) unfolding routes_gone_def by auto
    have "always (native_contract r) (ebind (native_routes b []) (\<lambda>(changed, ready). go (\<not> (changed \<or> \<not> ready)))) Q h'"
      unfolding always_ebind by (rule always_mono [OF withdraw]) (auto split: sum.splits)
    with none Inr 2 Q show ?thesis by (auto simp: ebind_lift_res simp del: always_ebind)
  qed
qed

lemma delete_gateway_rule:
  assumes "known h b" "checked r h" "lr_gateway r" "routes_gone h b"
    and "\<And>h' e. grows h h' \<Longrightarrow> Q h' (Inl e)" "\<And>h'. grows h h' \<Longrightarrow> Q h' (Inr False)"
      "\<And>h'. grows h h' \<Longrightarrow> (DeleteGateway b, Withdrawn (Inr True)) \<in> set h' \<Longrightarrow> Q h' (Inr True)"
  shows "always (native_contract r) (delete_gateway b) Q h"
proof -
  have "Q (h @ [(DeleteGateway b, x)]) (case x of Withdrawn y \<Rightarrow> y | _ \<Rightarrow> Inl decode_error)" for x
    using assms(5-7) [of "h @ [(DeleteGateway b, x)]"] by (auto split: lresp.split) (metis (full_types) old.sum.exhaust)
  then show ?thesis using assms(1-4) by (simp add: delete_gateway_def)
qed

lemma disconnect_gateway_rule:
  assumes ctx: "known h b" "checked r h" "routes_gone h b"
    and Q: "\<And>h' b' e. grows h h' \<Longrightarrow> current h' b' \<Longrightarrow> Q h' (b', Inl e)" "\<And>h' b'. grows h h' \<Longrightarrow> current h' b' \<Longrightarrow> Q h' (b', Inr False)"
      "\<And>h'. grows h h' \<Longrightarrow> Q h' (b, Inr True)"
  shows "always (native_contract r) (disconnect_gateway r b) Q h"
proof -
  have cur: "current h' b" "known h' b" if "grows h h'" for h'
    using that ctx by (blast intro: known_current known_mono)+
  have report: "always (native_contract r) (gateway_report b no_gateways) (\<lambda>h'' (b', x). Q h'' (b', case x of Inl e \<Rightarrow> Inl e | Inr changed \<Rightarrow> Inr (\<not> changed))) h'"
    if "grows h h'" for h'
    by (rule gateway_report_rule) (use that in \<open>auto intro: cur Q known_current\<close>)
  have "always (native_contract r) (delete_gateway b) (\<lambda>h'' g. always (native_contract r) (case g of
         Inl e \<Rightarrow> Ret (b, Inl e)
       | Inr gone \<Rightarrow> if \<not> gone then Ret (b, Inr False)
           else pbind (gateway_report b no_gateways) (\<lambda>(b', x). Ret (b', case x of Inl e \<Rightarrow> Inl e | Inr changed \<Rightarrow> Inr (\<not> changed)))) Q h'') h"
    if "lr_gateway r"
    by (rule delete_gateway_rule) (use that ctx report in \<open>auto simp: case_prod_unfold intro: cur Q\<close>)
  then show ?thesis using Q cur by (simp add: disconnect_gateway_def)
qed

lemma disconnect_transit_rule:
  assumes "known h b" "checked r h"
    and "\<And>h' b' e. grows h h' \<Longrightarrow> current h' b' \<Longrightarrow> Q h' (b', Inl e)" "\<And>h' b'. grows h h' \<Longrightarrow> current h' b' \<Longrightarrow> Q h' (b', Inr False)"
      "\<And>h'. grows h h' \<Longrightarrow> Q h' (b, Inr True)"
  shows "always (native_contract r) (disconnect_transit b) Q h"
  using assms by (auto simp: disconnect_transit_def intro!: delete_native_rule)

lemma disconnect_rule:
  assumes ctx: "known h b" "checked r h"
    and Q: "\<And>h' b' e. grows h h' \<Longrightarrow> current h' b' \<Longrightarrow> Q h' (b', Inl e)" "\<And>h' b'. grows h h' \<Longrightarrow> current h' b' \<Longrightarrow> Q h' (b', Inr False)"
      "\<And>h'. grows h h' \<Longrightarrow> Q h' (b, Inr True)"
  shows "always (native_contract r) (disconnect r b) Q h"
proof -
  have cur: "current h' b" "known h' b" "checked r h'" if "grows h h'" for h'
    using that ctx by (blast intro: known_current known_mono checked_mono)+
  have transit: "always (native_contract r) (disconnect_transit b) Q h'" if "grows h h'" for h'
    by (rule disconnect_transit_rule) (use that cur in \<open>auto intro: Q\<close>)
  have gone: "always (native_contract r) (disconnect_gateway r b) (\<lambda>h'' (b', x). always (native_contract r) (case x of
        Inl e \<Rightarrow> Ret (b', Inl e) | Inr clean \<Rightarrow> if \<not> clean then Ret (b', Inr False) else disconnect_transit b') Q h'') h'"
    if "grows h h'" "routes_gone h' b" for h'
    by (rule disconnect_gateway_rule) (use that cur in \<open>auto intro: Q transit\<close>)
  show ?thesis
    unfolding disconnect_def always_pbind [of _ "withdraw_routes b"]
  proof (rule withdraw_routes_rule, goal_cases)
    case (5 h')
    then show ?case using gone [of h'] by (simp add: case_prod_unfold)
  qed (use ctx cur in \<open>auto intro: Q\<close>)
qed

section \<open>The parts of the pass\<close>

text \<open>An early return ends the pass, so nothing is asked of it here.\<close>

lemma step_rule:
  assumes "always (native_contract r) p (\<lambda>h' (b', x). case x of Inl e \<Rightarrow> current h' b' | Inr changed \<Rightarrow> \<not> changed \<longrightarrow> Q h' (Inr b')) h"
    and "\<And>h' out. Q h' (Inl out)"
  shows "always (native_contract r) (step_or_return L r p) Q h"
  unfolding step_or_return_def always_pbind
  by (rule always_mono [OF assms(1)]) (auto split: sum.splits intro!: pending_rule simp: assms(2))

lemma ensure_step_rule:
  assumes "known h b" "checked r h" "mget (om_labels (un_meta want)) native_owner_label = om_uid (nb_meta b)" "un_kind want \<in> {''Vpc'', ''Subnet''}"
    and "\<And>h' out. Q h' (Inl out)" "\<And>h'. grows h h' \<Longrightarrow> Q h' (Inr b)"
  shows "always (native_contract r) (step_or_return L r (ensure_native b want)) Q h"
  by (rule step_rule, rule ensure_native_rule) (use assms in auto)

lemma realize_subnet_rule:
  assumes "known h b" "checked r h" "mget (om_labels (un_meta want)) native_owner_label = om_uid (nb_meta b)" "un_kind want = ''Subnet''"
    and Q: "\<And>h' out. Q h' (Inl out)"
      "\<And>h' x. grows h h' \<Longrightarrow> found h' ''Subnet'' (om_name (un_meta want)) x \<Longrightarrow> shows_ready x \<Longrightarrow> Q h' (Inr b)"
  shows "always (native_contract r) (realize_subnet L r b want reason message) Q h"
  unfolding realize_subnet_def always_ebind always_pbind
proof (rule ensure_step_rule, goal_cases)
  case (6 h')
  then have cur: "current h' b" using assms(1) by (blast intro: known_current known_mono)
  show ?case unfolding sum.case always_pbind
  proof (rule native_ready_rule, goal_cases)
    case (1 h'' e)
    then show ?case using cur by (auto intro!: pending_rule intro: current_mono simp: Q)
  next
    case (2 h'' x)
    then have "current h'' b" "grows h h''" using cur 6 by (blast intro: current_mono)+
    with 2(2) assms(4) show ?case by (auto intro!: pending_rule Q(2) simp: Q(1))
  qed
qed (use assms in simp_all)

lemma subnet_object_owner [simp]: "mget (om_labels (un_meta (subnet_object b n c g xs))) native_owner_label = om_uid (nb_meta b)"
  "un_kind (subnet_object b n c g xs) = ''Subnet''" "om_name (un_meta (subnet_object b n c g xs)) = n"
  "mget (om_labels (un_meta (vpc_object r b a cross))) native_owner_label = om_uid (nb_meta b)" "un_kind (vpc_object r b a cross) = ''Vpc''"
  by (simp_all add: subnet_object_def vpc_object_def native_spec_def native_def mget_def)

lemma realize_workloads_rule:
  assumes ctx: "known h b" "checked r h"
    and Q: "\<And>h' out. Q h' (Inl out)"
      "\<And>h'. grows h h' \<Longrightarrow> list_all (\<lambda>s. bs_deleting s \<or> subnet_evidence h' s) (b_subnets (nb_spec b)) \<Longrightarrow> Q h' (Inr b)"
  shows "always (native_contract r) (realize_workloads L r b) Q h"
  unfolding realize_workloads_def
proof (rule always_efold [where I = "\<lambda>visited c h'. c = b \<and> grows h h' \<and> list_all (\<lambda>s. bs_deleting s \<or> subnet_evidence h' s) visited"], goal_cases)
  case (2 visited s todo c h')
  then have ctx': "known h' b" "checked r h'" "c = b" "grows h h'" using ctx by (blast intro: seen)+
  show ?case
  proof (cases "bs_deleting s")
    case False
    show ?thesis
      unfolding \<open>c = b\<close> if_not_P [OF False]
    proof (rule realize_subnet_rule, goal_cases)
      case (6 h'' x)
      then have "grows h h''" "subnet_evidence h'' s" using ctx'(4) False by (auto simp: subnet_evidence_def)
      moreover have "list_all (\<lambda>s. bs_deleting s \<or> subnet_evidence h'' s) visited"
        using 2(2) 6(1) by (auto simp: list_all_iff intro: subnet_evidence_mono)
      ultimately show ?case by simp
    qed (use ctx' in \<open>simp_all add: Q(1)\<close>)
  qed (use 2 in simp)
qed (use Q in auto)

lemma delete_draining_rule:
  assumes ctx: "known h b" "checked r h"
    and Q: "\<And>h' out. Q h' (Inl out)"
      "\<And>h'. grows h h' \<Longrightarrow> list_all (\<lambda>s. bs_deleting s \<longrightarrow> subnet_evidence h' s) (b_subnets (nb_spec b)) \<Longrightarrow> Q h' (Inr b)"
  shows "always (native_contract r) (delete_draining L r b) Q h"
  unfolding delete_draining_def
proof (rule always_efold [where I = "\<lambda>visited c h'. c = b \<and> grows h h' \<and> list_all (\<lambda>s. bs_deleting s \<longrightarrow> subnet_evidence h' s) visited"], goal_cases)
  case (2 visited s todo c h')
  then have ctx': "known h' b" "checked r h'" "c = b" "grows h h'" using ctx by (blast intro: seen)+
  show ?case
  proof (cases "bs_deleting s")
    case True
    have "always (native_contract r) (delete_native b ''Subnet'' (bs_native_subnet_name s) True) (\<lambda>h'' (b', x). always (native_contract r) (case x of
        Inl e \<Rightarrow> early (pending L r b' ''SubnetInUse'' (err_text e))
      | Inr gone \<Rightarrow> if gone then go b' else early (pending L r b' ''SubnetDeleting'' ''Waiting for native subnet cleanup''))
      (\<lambda>h y. case y of Inl e \<Rightarrow> Q h (Inl e)
        | Inr c \<Rightarrow> c = b \<and> grows h' h \<and> list_all (\<lambda>s. bs_deleting s \<longrightarrow> subnet_evidence h s) (visited @ [s])) h'') h'"
    proof (rule delete_native_rule, goal_cases)
      case (6 h'')
      moreover have "list_all (\<lambda>s. bs_deleting s \<longrightarrow> subnet_evidence h'' s) visited"
        using 2(2) 6(1) by (auto simp: list_all_iff intro: subnet_evidence_mono)
      ultimately show ?case using True by (simp add: subnet_evidence_def)
    qed (use ctx' in \<open>auto intro!: pending_rule simp: Q(1)\<close>)
    then show ?thesis
      unfolding \<open>c = b\<close> using True ctx'(4)
      by (auto simp: case_prod_unfold elim!: always_mono split: sum.splits)
  qed (use 2 in simp)
qed (use Q in auto)

lemma ensure_gateway_rule:
  assumes "known h b" "checked r h" "lr_gateway r" "found h ''Subnet'' (transit_name b) x" "shows_ready x"
    and "\<And>h' e. grows h h' \<Longrightarrow> Q h' (Inl e)"
      "\<And>h' report. grows h h' \<Longrightarrow> (EnsureGateway b a, Ensured (Inr report)) \<in> set h' \<Longrightarrow> Q h' (Inr report)"
  shows "always (native_contract r) (ensure_gateway b a) Q h"
proof -
  have "Q (h @ [(EnsureGateway b a, y)]) (case y of Ensured z \<Rightarrow> z | _ \<Rightarrow> Inl decode_error)" for y
    using assms(6,7) [of "h @ [(EnsureGateway b a, y)]"] by (auto split: lresp.split) (metis (full_types) old.sum.exhaust)
  then show ?thesis using assms(1-5) by (auto simp: ensure_gateway_def)
qed

lemma report_rule:
  assumes "known h b" and "\<And>h' out. Q h' (Inl out)" and "bst_gateways (nb_status b) = gr_gateways report \<Longrightarrow> Q h (Inr b)"
  shows "always (native_contract r) (report_or_return r b report) Q h"
  unfolding report_or_return_def always_pbind
  by (rule gateway_report_rule) (use assms in auto)

lemma realize_routes_rule:
  assumes ctx: "known h b" "checked r h" and report: "(EnsureGateway b a, Ensured (Inr report)) \<in> set h" "bst_gateways (nb_status b) = gr_gateways report"
    and Q: "\<And>h' out. Q h' (Inl out)" "\<And>h'. grows h h' \<Longrightarrow> cross_evidence h' b \<Longrightarrow> Q h' (Inr b)"
  shows "always (native_contract r) (realize_routes L r b report) Q h"
proof -
  let ?next = "\<lambda>x. case x of
      Inl e \<Rightarrow> early (blocked L r b e)
    | Inr (changed, ready) \<Rightarrow>
        if changed then leave (requeue r)
        else if \<not> ready then early (pending L r b ''NativeRoutesPending'' ''Waiting for native destination-route transaction acknowledgement'')
        else if \<not> gr_ready report then early (pending L r b ''GatewayPending'' (gr_reason report))
        else go b"
  have cur: "current h' b" if "grows h h'" for h'
    using that ctx by (blast intro: known_current known_mono)
  have "always (native_contract r) (native_routes b (route_intents b (reported_hops report))) (\<lambda>h' x. always (native_contract r) (?next x) Q h') h"
    if "2 \<le> length (reported_hops report)"
  proof (rule native_routes_rule, goal_cases)
    case (5 h' plan x)
    have "cross_evidence h' b" if "gr_ready report" "routes_acknowledged x (dp_hash plan)"
      unfolding cross_evidence_def using that 5 report \<open>2 \<le> _\<close> by (blast intro: grows_in)
    then show ?case using cur [OF 5(1)] Q 5(1) by (auto intro!: pending_rule)
  qed (use ctx cur in \<open>auto intro!: pending_rule simp: Q(1)\<close>)
  then show ?thesis
    using cur by (auto simp: realize_routes_def Q(1) intro!: pending_rule)
qed

lemma realize_cross_rule:
  assumes ctx: "known h b" "checked r h"
    and Q: "\<And>h' out. Q h' (Inl out)" "\<And>h'. grows h h' \<Longrightarrow> cross_evidence h' b \<Longrightarrow> Q h' (Inr b)"
  shows "always (native_contract r) (realize_cross L r a b) Q h"
  unfolding realize_cross_def always_ebind always_pbind
proof (rule realize_subnet_rule, goal_cases)
  case (6 h' x)
  have cur: "known h'' b" "current h'' b" "checked r h''" if "grows h h''" for h''
    using that ctx by (blast intro: known_current known_mono checked_mono)+
  have routes: "always (native_contract r) (ebind (report_or_return r b report) (\<lambda>b2. realize_routes L r b2 report)) Q h''"
    if "grows h h''" "(EnsureGateway b a, Ensured (Inr report)) \<in> set h''" for h'' report
    unfolding always_ebind
    by (rule report_rule) (use that cur in \<open>auto intro!: realize_routes_rule Q(2) simp: Q(1)\<close>)
  have gateway: "always (native_contract r) (ensure_gateway b a) (\<lambda>h2 g. always (native_contract r) (case g of
      Inl e \<Rightarrow> early (blocked L r b e) | Inr report \<Rightarrow> ebind (report_or_return r b report) (\<lambda>b2. realize_routes L r b2 report)) Q h2) h''"
    if "grows h' h''" "lr_gateway r" for h''
  proof (rule ensure_gateway_rule, goal_cases)
    case (6 h3 e)
    then have "grows h h3" using that \<open>grows h h'\<close> by blast
    then show ?case using cur by (auto intro!: pending_rule simp: Q(1))
  next
    case (7 h3 report)
    then have "grows h h3" using that \<open>grows h h'\<close> by blast
    from routes [OF this 7(2)] show ?case by simp
  qed (use cur that 6 in \<open>auto intro: found_mono grows_trans\<close>)
  show ?case
    unfolding sum.case always_pbind
  proof (rule require_capability_rule)
    fix h'' x
    assume "grows h' h''"
    moreover then have "grows h h''" using 6(1) by blast
    ultimately show "always (native_contract r) (case x of
        Inl e \<Rightarrow> early (pending L r b ''NativeCapabilityRequired'' (err_text e))
      | Inr _ \<Rightarrow> if \<not> lr_gateway r then early (blocked L r b (Errorf ''managed gateway backend is not configured''))
          else pbind (ensure_gateway b a) (\<lambda>g. case g of
              Inl e \<Rightarrow> early (blocked L r b e)
            | Inr report \<Rightarrow> ebind (report_or_return r b report) (\<lambda>b2. realize_routes L r b2 report))) Q h''"
      using cur gateway by (auto split: sum.split intro!: pending_rule simp: Q(1) simp del: always_ebind)
  qed
qed (use ctx Q in simp_all)

text \<open>The end of a pass: everything after it is an early return.\<close>

abbreviation ends_well :: "local_reconciler \<Rightarrow> (outcome + 'a) lprog \<Rightarrow> lhist \<Rightarrow> bool" where
  "ends_well r p h \<equiv> always (native_contract r) p (\<lambda>h' x. True) h"

lemma ends_ebind:
  "always (native_contract r) p (\<lambda>h' x. case x of Inl out \<Rightarrow> True | Inr b \<Rightarrow> ends_well r (f b) h') h \<Longrightarrow> ends_well r (ebind p f) h"
  by simp

lemma report_ready_rule: "known h b \<Longrightarrow> ready_evidence h b \<Longrightarrow> ends_well r (report_ready L r b) h"
  by (auto simp: report_ready_def status_ok_def status_change_def with_state_def intro!: binding_state_rule exI [of _ b])

lemma drain_rule:
  assumes ctx: "known h b" "checked r h" and live: "list_all (\<lambda>s. bs_deleting s \<or> subnet_evidence h s) (b_subnets (nb_spec b))"
    and cross: "known h orig" "is_cross orig \<longrightarrow> cross_evidence h b"
  shows "ends_well r (ebind (delete_draining L r b) (report_ready L r)) h"
proof (rule ends_ebind, rule delete_draining_rule [OF ctx], goal_cases)
  case (2 h')
  have "list_all (subnet_evidence h') (b_subnets (nb_spec b))"
    using live 2 by (auto simp: list_all_iff intro: subnet_evidence_mono)
  moreover have "known h' orig" "known h' b" "is_cross orig \<longrightarrow> cross_evidence h' b" using ctx cross 2(1) by (blast intro: seen)+
  ultimately show ?case unfolding sum.case by (intro report_ready_rule) (auto simp: ready_evidence_def)
qed simp

lemma connect_and_drain_rule:
  assumes ctx: "known h b" "checked r h" and live: "list_all (\<lambda>s. bs_deleting s \<or> subnet_evidence h s) (b_subnets (nb_spec b))"
    and cross: "known h orig" "cross = is_cross orig"
  shows "ends_well r (connect_and_drain L r cross a b) h"
  unfolding connect_and_drain_def
proof (rule ends_ebind, cases cross)
  case True
  show "always (native_contract r) (if cross then realize_cross L r a b else go b) (\<lambda>h' x. case x of Inl out \<Rightarrow> True
      | Inr b1 \<Rightarrow> ends_well r (ebind (delete_draining L r b1) (report_ready L r)) h') h"
    unfolding if_P [OF True]
  proof (rule realize_cross_rule [OF ctx], goal_cases)
    case (2 h')
    have "list_all (\<lambda>s. bs_deleting s \<or> subnet_evidence h' s) (b_subnets (nb_spec b))"
      using live 2(1) by (auto simp: list_all_iff intro: subnet_evidence_mono)
    moreover have "known h' b" "checked r h'" "known h' orig" using ctx cross 2(1) by (blast intro: seen)+
    ultimately show ?case unfolding sum.case using 2(2) by (intro drain_rule [where orig = orig]) simp_all
  qed simp
next
  case False
  with drain_rule [OF ctx live cross(1)] cross(2)
  show "always (native_contract r) (if cross then realize_cross L r a b else go b) (\<lambda>h' x. case x of Inl out \<Rightarrow> True
      | Inr b1 \<Rightarrow> ends_well r (ebind (delete_draining L r b1) (report_ready L r)) h') h"
    by (simp del: always_ebind)
qed

lemma realize_workloads_ends:
  assumes "known h b" "checked r h" "known h orig" "cross = is_cross orig"
  shows "ends_well r (ebind (realize_workloads L r b) (connect_and_drain L r cross a)) h"
proof (rule ends_ebind, rule realize_workloads_rule [OF assms(1,2)], goal_cases)
  case (2 h')
  then show ?case unfolding sum.case
    using assms by (intro connect_and_drain_rule [where orig = orig]) (blast intro: seen)+
qed simp

lemma realize_rule:
  assumes "known h b" "checked r h" "known h orig" "cross = is_cross orig"
  shows "ends_well r (realize L r b cross a) h"
proof -
  have "ends_well r (ebind (step_or_return L r (ensure_native b (vpc_object r b a cross))) (\<lambda>b1. ebind (realize_workloads L r b1) (connect_and_drain L r cross a))) h"
  proof (rule ends_ebind, rule ensure_step_rule [OF assms(1,2)], goal_cases)
    case (4 h')
    then show ?case unfolding sum.case
      using assms by (intro realize_workloads_ends [where orig = orig]) (blast intro: seen)+
  qed simp_all
  then show ?thesis
    unfolding realize_def using known_current [OF assms(1)]
    by (auto intro!: pending_rule simp del: always_ebind)
qed

section \<open>Removal\<close>

lemma check_unused_rule:
  assumes "known h b" and "\<And>h' out. Q h' (Inl out)" and "\<And>h'. grows h h' \<Longrightarrow> Q h' (Inr ())"
  shows "always (native_contract r) (check_unused L r b) Q h"
  unfolding check_unused_def
proof (rule always_efold [where I = "\<lambda>visited u h'. grows h h'"], goal_cases)
  case (2 visited rec todo u h')
  have "current h'' b" if "grows h' h''" for h''
    using that 2(2) assms(1) by (blast intro: known_current known_mono)
  then show ?case
    using 2(2) by (auto intro!: endpoints_empty_rule pending_rule simp: assms(2) intro: grows_trans)
qed (use assms in auto)

lemma remove_gateway_rule:
  assumes ctx: "known h b" "checked r h" "routes_gone h b"
    and Q: "\<And>h' out. Q h' (Inl out)"
      "\<And>h'. grows h h' \<Longrightarrow> (lr_gateway r \<longrightarrow> (DeleteGateway b, Withdrawn (Inr True)) \<in> set h') \<Longrightarrow> Q h' (Inr ())"
  shows "always (native_contract r) (remove_gateway L r b) Q h"
proof -
  have cur: "current h' b" if "grows h h'" for h'
    using that ctx by (blast intro: known_current known_mono)
  have "always (native_contract r) (delete_gateway b) (\<lambda>h' g. always (native_contract r) (case g of
          Inl e \<Rightarrow> early (blocked L r b e)
        | Inr gone \<Rightarrow> if gone then go ()
            else early (deleting_state L r b ''GatewayCleanupPending'' ''Waiting for owned gateway resources to terminate'')) Q h') h"
    if "lr_gateway r"
    by (rule delete_gateway_rule) (use that ctx cur Q in \<open>auto intro!: pending_rule\<close>)
  then show ?thesis using cur Q by (auto simp: remove_gateway_def intro!: pending_rule)
qed

lemma remove_subnets_rule:
  assumes ctx: "known h b" "checked r h"
    and Q: "\<And>h' out. Q h' (Inl out)" "\<And>h'. grows h h' \<Longrightarrow> no_subnets_left b \<Longrightarrow> Q h' (Inr b)"
  shows "always (native_contract r) (remove_subnets L r b) Q h"
  unfolding remove_subnets_def
proof (rule always_efold [where I = "\<lambda>visited c h'. c = b \<and> grows h h' \<and> visited = []"], goal_cases)
  case (2 visited rec todo c h')
  then have ctx': "known h' b" "checked r h'" "c = b" using ctx by (blast intro: seen)+
  have "rec \<in> set (filter is_subnet_receipt (bst_resources (nb_status b)))" using 2(1) by simp
  then have "recorded b ''Subnet'' (rr_name rec)"
    by (auto simp: recorded_def list_ex_iff is_subnet_receipt_def is_receipt_def)
  with ctx' show ?case unfolding \<open>c = b\<close> always_pbind
    by (auto intro!: delete_native_rule pending_rule simp: Q(1))
next
  case (3 c h')
  then show ?case by (auto intro!: Q(2) simp: no_subnets_left_def list_all_iff filter_empty_conv)
qed simp

lemma remove_vpc_rule:
  assumes ctx: "known h b" "checked r h" and may: "vpc_removable r h b"
  shows "ends_well r (remove_vpc L r b) h"
  unfolding remove_vpc_def always_pbind
proof (rule delete_native_rule [OF ctx], goal_cases)
  case (4 h')
  have "vpc_removable r h' b" using may 4(1) unfolding vpc_removable_def by (blast intro: seen)
  then have "deleted_evidence r h' b" "known h' b" using 4 ctx by (auto simp: deleted_evidence_def intro: known_mono)
  then show ?case
    by (auto simp: status_ok_def status_change_def with_state_def intro!: binding_state_rule exI [of _ b])
qed (use may in \<open>auto intro!: pending_rule\<close>)

lemma remove_last_rule:
  assumes ctx: "known h b" "checked r h" and gone: "b_deleting (nb_spec b)" "routes_gone h b" "lr_gateway r \<longrightarrow> (DeleteGateway b, Withdrawn (Inr True)) \<in> set h"
  shows "ends_well r (ebind (report_or_return r b no_gateways) (\<lambda>b1. ebind (remove_subnets L r b1) (remove_vpc L r))) h"
proof (rule ends_ebind, rule report_rule [OF ctx(1)])
  assume "bst_gateways (nb_status b) = gr_gateways no_gateways"
  with gone(3) have gw: "gateway_gone r h b" by (simp add: gateway_gone_def no_gateways_def)
  have "ends_well r (ebind (remove_subnets L r b) (remove_vpc L r)) h"
  proof (rule ends_ebind, rule remove_subnets_rule [OF ctx], goal_cases)
    case (2 h')
    then have "known h' b" "checked r h'" "vpc_removable r h' b" using ctx gone gw unfolding vpc_removable_def by (blast intro: seen)+
    then show ?case by (simp add: remove_vpc_rule)
  qed simp
  then show "case Inr b of Inl out \<Rightarrow> True | Inr b1 \<Rightarrow> ends_well r (ebind (remove_subnets L r b1) (remove_vpc L r)) h" by simp
qed simp

lemma remove_binding_rule:
  assumes ctx: "known h b" "checked r h" and del: "b_deleting (nb_spec b)"
  shows "ends_well r (remove_binding L r b) h"
proof -
  have cur: "known h' b" "checked r h'" "current h' b" if "grows h h'" for h'
    using that ctx by (blast intro: known_current known_mono checked_mono)+
  have gateway: "ends_well r (ebind (remove_gateway L r b) (\<lambda>_. ebind (report_or_return r b no_gateways) (\<lambda>b1. ebind (remove_subnets L r b1) (remove_vpc L r)))) h'"
    if "grows h h'" "routes_gone h' b" for h'
  proof (rule ends_ebind, rule remove_gateway_rule [OF cur(1,2) [OF that(1)] that(2)], goal_cases)
    case (2 h'')
    have "grows h h''" "routes_gone h'' b" using that 2(1) by (blast intro: routes_gone_mono)+
    then show ?case unfolding sum.case by (intro remove_last_rule cur del 2(2))
  qed simp
  show ?thesis
    unfolding remove_binding_def
  proof (rule ends_ebind, rule check_unused_rule [OF ctx(1)], goal_cases)
    case (2 h')
    show ?case unfolding sum.case always_pbind
    proof (rule withdraw_routes_rule [OF cur(1,2) [OF 2] ], goal_cases)
      case (3 h'')
      have "grows h h''" using 2 3(1) by blast
      from gateway [OF this 3(2)] show ?case by (simp del: always_ebind)
    qed (use cur 2 in \<open>auto intro!: pending_rule\<close>)
  qed simp
qed

section \<open>The whole pass\<close>

lemma always_unguarded [simp]: "always (\<lambda>h q. True) p (\<lambda>h x. True) h"
  by (induction p arbitrary: h) simp_all

lemma unguarded_tail:
  assumes "\<And>h a. always (\<lambda>h q. True) (f a) P h" and "\<And>h e. P h (Inl e)"
  shows "always (\<lambda>h q. True) (ebind p f) P h"
  unfolding always_ebind
  by (rule always_mono [OF always_unguarded]) (auto simp: assms split: sum.split)

definition from_answers :: "network_binding \<Rightarrow> (lobj kreq \<times> lobj kresp) list \<Rightarrow> err + (net_allocation \<times> network_binding) \<Rightarrow> bool" where
  "from_answers b h x \<longleftrightarrow> (case x of Inl e \<Rightarrow> True | Inr (a, b') \<Rightarrow> b' = b \<or> (\<exists>q. (q, Obj (LBinding b')) \<in> set h))"

lemma local_allocate_binding: "always (\<lambda>h q. True) (local_allocate L cfg b) (from_answers b) h"
proof -
  have receipt: "always (\<lambda>h q. True) (commit_receipt cfg cm owner b a) (from_answers b) h" for cm owner a h
    by (auto simp: commit_receipt_def from_answers_def split: kresp.splits option.splits)
  have err: "from_answers b h (Inl e)" for h e by (simp add: from_answers_def)
  have finish: "always (\<lambda>h q. True) (finish_allocation cfg bindings found cm l b) (from_answers b) h" for bindings found cm l h
    unfolding finish_allocation_def
    by (auto intro!: unguarded_tail receipt err simp del: always_ebind split: prod.split)
  show ?thesis
    unfolding local_allocate_def
    by (auto intro!: unguarded_tail finish err simp del: always_ebind always_kget simp: always_pbind intro: always_mono [OF always_unguarded])
qed

lemma allocation_write_shape:
  assumes "allocation_write cfg b h q"
  shows "(\<exists>k ns n. q = Get k ns n) \<or> (\<exists>k ns ls. q = List k ns ls) \<or> (\<exists>m. q = Create (LMap m)) \<or> (\<exists>m. q = Update (LMap m)) \<or> (\<exists>c. q = Update (LBinding c))"
proof (cases q)
  case (Create x)
  then show ?thesis using assms by (cases x) (auto simp: allocation_write_def)
next
  case (Update x)
  then show ?thesis using assms by (cases x) (auto simp: allocation_write_def)
qed (use assms in \<open>auto simp: allocation_write_def\<close>)

lemma allocation_in_pass:
  assumes "known h b" "checked r h" and "\<And>h' e. grows h h' \<Longrightarrow> Q h' (Inl e)"
    and "\<And>h' a b'. grows h h' \<Longrightarrow> known h' b' \<Longrightarrow> Q h' (Inr (a, b'))"
  shows "always (native_contract r) (api (local_allocate L (lr_config r) b)) Q h"
proof (rule always_api)
  let ?g = "allocation_write (lr_config r) b"
  have "always ?g (local_allocate L (lr_config r) b) (\<lambda>h x. True) []"
    by (rule always_mono [OF local_allocate_run]) auto
  from always_conj [OF this local_allocate_binding [of L "lr_config r" b] ]
  show "always ?g (local_allocate L (lr_config r) b) (from_answers b) []"
    by (rule always_mono) auto
  show "native_contract r h' (Api q)" if "?g h1 q" "happened h' h1" "grows h h'" for h' h1 q
  proof -
    have "checked r h'" "known h' b" using that(3) assms(1,2) by (blast intro: seen)+
    moreover have "(\<exists>k ns n. q = Get k ns n) \<or> (\<exists>k ns ls. q = List k ns ls) \<or> (\<exists>m. q = Create (LMap m)) \<or> (\<exists>m. q = Update (LMap m)) \<or> (\<exists>c. q = Update (LBinding c))"
      using that(1) allocation_write_shape by blast
    ultimately show ?thesis using that(1,2) by (elim disjE exE) (simp; blast)+
  qed
  show "Q h' x" if "from_answers b h1 x" "happened h' h1" "grows h h'" for h' h1 x
  proof (cases x)
    case (Inr p)
    obtain a b' where p: "p = (a, b')" by fastforce
    have "known h' b" using that(3) assms(1) by (blast intro: known_mono)
    moreover have "known h' b'" if "(q, Obj (LBinding b')) \<in> set h1" for q
      using that \<open>happened h' h1\<close> by (auto simp: happened_def intro: knownI)
    ultimately show ?thesis using that(1,3) assms(4) Inr p by (auto simp: from_answers_def)
  qed (use that assms(3) in simp)
qed (simp add: happened_def)

lemma check_draining_rule:
  assumes "known h b" and "\<And>h' out. Q h' (Inl out)" and "\<And>h'. grows h h' \<Longrightarrow> Q h' (Inr ())"
  shows "always (native_contract r) (check_draining L r b) Q h"
  unfolding check_draining_def
proof (rule always_efold [where I = "\<lambda>visited u h'. grows h h'"], goal_cases)
  case (2 visited s todo u h')
  have "current h'' b" if "grows h' h''" for h''
    using that 2(2) assms(1) by (blast intro: known_current known_mono)
  then show ?case
    using 2(2) by (auto intro!: endpoints_empty_rule pending_rule simp: assms(2) intro: grows_trans)
qed (use assms in auto)

lemma disconnect_or_return_rule:
  assumes ctx: "known h b" "checked r h" and "\<And>h' out. Q h' (Inl out)" and "\<And>h'. grows h h' \<Longrightarrow> Q h' (Inr b)"
  shows "always (native_contract r) (disconnect_or_return L r b) Q h"
proof -
  have "always (native_contract r) (disconnect r b) (\<lambda>h' (b', x). always (native_contract r) (case x of
          Inl e \<Rightarrow> early (blocked L r b' e)
        | Inr fin \<Rightarrow> if fin then go b'
            else early (pending L r b' ''GatewayWithdrawalPending'' ''Waiting for gateway and native route withdrawal'')) Q h') h"
    by (rule disconnect_rule [OF ctx]) (use assms(3,4) in \<open>auto intro!: pending_rule\<close>)
  then show ?thesis
    using assms(4) by (simp add: disconnect_or_return_def case_prod_unfold)
qed

lemma allocate_and_realize_rule:
  assumes "known h b" "checked r h"
  shows "ends_well r (pbind (api (local_allocate L (lr_config r) b)) (\<lambda>x. case x of
      Inl e \<Rightarrow> early (blocked L r b e) | Inr (a, b3) \<Rightarrow> realize L r b3 (is_cross b) a)) h"
  unfolding always_pbind
proof (rule allocation_in_pass [OF assms], goal_cases)
  case (1 h' e)
  then show ?case using assms(1) by (auto intro!: pending_rule intro: known_current known_mono)
next
  case (2 h' a b')
  then show ?case using assms by (auto intro!: realize_rule [where orig = b] intro: known_mono checked_mono)
qed

lemma reconcile_accepted_rule:
  assumes ctx: "known h b" "checked r h"
  shows "ends_well r (reconcile_accepted L r b) h"
  unfolding reconcile_accepted_def always_pbind [of _ "recover_native_subnets b"]
proof (rule recover_rule [OF ctx(1)], goal_cases)
  case (1 h' b' c e)
  then show ?case by (auto intro!: pending_rule)
next
  case (3 h')
  have ctx': "known h' b" "checked r h'" using 3 ctx by (blast intro: seen)+
  have allocate: "ends_well r (ebind (disconnect_or_return L r b) (\<lambda>b2. pbind (api (local_allocate L (lr_config r) b2)) (\<lambda>x. case x of
      Inl e \<Rightarrow> early (blocked L r b2 e) | Inr (a, b3) \<Rightarrow> realize L r b3 (is_cross b) a))) h''" if "grows h' h''" for h''
  proof -
    have ctx'': "known h'' b" "checked r h''" using that ctx' by (blast intro: seen)+
    show ?thesis
    proof (rule ends_ebind, rule disconnect_or_return_rule [OF ctx''], goal_cases)
      case (2 h3)
      then show ?case unfolding sum.case using ctx'' by (intro allocate_and_realize_rule) (blast intro: seen)+
    qed simp
  qed
  have "ends_well r (ebind (check_draining L r b) (\<lambda>_. ebind (disconnect_or_return L r b) (\<lambda>b2. pbind (api (local_allocate L (lr_config r) b2)) (\<lambda>x. case x of
      Inl e \<Rightarrow> early (blocked L r b2 e) | Inr (a, b3) \<Rightarrow> realize L r b3 (is_cross b) a)))) h'"
    by (rule ends_ebind, rule check_draining_rule [OF ctx'(1)]) (use allocate in \<open>simp_all del: always_ebind\<close>)
  then show ?case using remove_binding_rule [OF ctx'] by (auto simp del: always_ebind)
qed simp

lemma local_reconcile_run: "always (native_contract r) (local_reconcile L r ns name) (\<lambda>h x. True) []"
proof -
  have binding: "always (native_contract r) (pbind (api (kget l_namespace ''Namespace'' [] ''kube-system'')) (\<lambda>got. case got of
              Inl e \<Rightarrow> leave (failed e)
            | Inr n \<Rightarrow>
                if om_uid n \<noteq> lc_cluster_uid (lr_config r) then early (blocked L r b (Errorf ''local Infra identity changed''))
                else reconcile_accepted L r b)) (\<lambda>h' x. True) h"
    if "known h b" "accepted_snapshot b" "om_namespace (nb_meta b) = lc_namespace (lr_config r)" "b_location_ref (nb_spec b) = lc_location_ref (lr_config r)" for h b
    unfolding always_pbind
  proof (rule get_rule, goal_cases)
    case (3 h' y n)
    have k: "known h' b" using that(1) 3(1) by (blast intro: known_mono)
    have "checked r h'" if "om_uid n = lc_cluster_uid (lr_config r)"
      using that k 3 \<open>accepted_snapshot b\<close> \<open>om_namespace _ = _\<close> \<open>b_location_ref _ = _\<close> by (auto simp: checked_def)
    then show ?case using reconcile_accepted_rule k by (auto intro!: pending_rule known_current)
  qed simp_all
  show ?thesis
    unfolding local_reconcile_def always_pbind
  proof (rule get_rule, goal_cases)
    case (3 h' y b)
    then have "known h' b" by (auto intro: knownI)
    with binding show ?case by (auto intro!: pending_rule known_current)
  qed simp_all
qed

section \<open>Properties\<close>

text \<open>Writes to the cluster: only to objects of the binding, of the right cluster, and never over another incarnation.\<close>

fun owned_write :: "local_reconciler \<Rightarrow> lhist \<Rightarrow> lreq \<Rightarrow> bool" where
  "owned_write r h (Api (Create (LNative x))) \<longleftrightarrow> checked r h \<and> un_kind x \<in> {''Vpc'', ''Subnet''} \<and> missing h (un_kind x) (om_name (un_meta x))
     \<and> (\<exists>b. known h b \<and> mget (om_labels (un_meta x)) native_owner_label = om_uid (nb_meta b) \<and> \<not> recorded b (un_kind x) (om_name (un_meta x)))"
| "owned_write r h (Api (Update (LNative y))) \<longleftrightarrow> checked r h
     \<and> (\<exists>b kind name x. known h b \<and> found h kind name x \<and> guard_native b x = Inr () \<and> touches_spec_only x y)"
| "owned_write r h (Api (Delete (LNative x) uid rv)) \<longleftrightarrow> checked r h
     \<and> uid = Some (om_uid (un_meta x)) \<and> rv = Some (om_resource_version (un_meta x))
     \<and> (\<exists>b kind name. known h b \<and> found h kind name x \<and> guard_native b x = Inr ())"
| "owned_write r h (Api (UpdateStatus x)) \<longleftrightarrow> (\<exists>b b'. x = LBinding b' \<and> known h b \<and> nb_spec b' = nb_spec b \<and> nb_meta b' = nb_meta b)"
| "owned_write r h (Api (Create x)) \<longleftrightarrow> checked r h \<and> (\<exists>b h'. known h b \<and> happened h h' \<and> allocation_write (lr_config r) b h' (Create x))"
| "owned_write r h (Api (Update x)) \<longleftrightarrow> checked r h \<and> (\<exists>b h'. known h b \<and> happened h h' \<and> allocation_write (lr_config r) b h' (Update x))"
| "owned_write r h (Api (Delete x uid rv)) \<longleftrightarrow> False"
| "owned_write r h q \<longleftrightarrow> True"

text \<open>What is destroyed, and in which order.\<close>

fun ordered_removal :: "local_reconciler \<Rightarrow> lhist \<Rightarrow> lreq \<Rightarrow> bool" where
  "ordered_removal r h (Api (Delete x uid rv)) \<longleftrightarrow> (\<exists>b y kind name. known h b \<and> x = LNative y \<and> found h kind name y
     \<and> (kind = ''Subnet'' \<and> unused h name \<or> kind = ''Vpc'' \<and> vpc_removable r h b))"
| "ordered_removal r h (DeleteGateway b) \<longleftrightarrow> checked r h \<and> known h b \<and> routes_gone h b"
| "ordered_removal r h q \<longleftrightarrow> True"

text \<open>A revision newly reported as applied.\<close>

fun truthful_report :: "local_reconciler \<Rightarrow> lhist \<Rightarrow> lreq \<Rightarrow> bool" where
  "truthful_report r h (Api (UpdateStatus x)) \<longleftrightarrow> (\<exists>b b'. x = LBinding b' \<and> known h b \<and> nb_spec b' = nb_spec b \<and> status_change r h b b')"
| "truthful_report r h q \<longleftrightarrow> True"

lemma allocation_write_not [simp]: "\<not> allocation_write cfg b h (Create (LBinding c))" "\<not> allocation_write cfg b h (Create (LPod p))"
  "\<not> allocation_write cfg b h (Create (LNamespace n))" "\<not> allocation_write cfg b h (Update (LPod p))" "\<not> allocation_write cfg b h (Update (LNamespace n))"
  "\<not> allocation_write cfg b h (Delete x uid rv)"
  by (simp_all add: allocation_write_def)

lemma contract_parts:
  assumes "native_contract r h q"
  shows "owned_write r h q" and "ordered_removal r h q" and "truthful_report r h q"
proof -
  show "owned_write r h q" using assms
    by (induction r h q rule: owned_write.induct) (auto simp: status_ok_def; blast)+
  show "ordered_removal r h q" using assms
    by (induction r h q rule: owned_write.induct) (auto simp: status_ok_def; blast)+
  show "truthful_report r h q" using assms
    by (induction r h q rule: owned_write.induct) (auto simp: status_ok_def; blast)+
qed

lemma local_reconcile_steps:
  "(\<And>h q. native_contract r h q \<Longrightarrow> G h q) \<Longrightarrow> every_step G (local_reconcile L r ns name)"
  by (rule every_stepI, rule always_mono [OF local_reconcile_run])

text \<open>
  C20: at any point of a pass, for all answers of the API server and of the gateway backend, the local operator
  writes to native objects only after it has read an accepted snapshot of its own site and the installed
  cluster's identity; it creates only Vpc and Subnet objects labelled with the binding's UID, whose absence
  it has just read and for which the binding holds no receipt (a lost object is never silently
  recreated); it changes only the spec of objects that carry the binding's label and the recorded UID, and
  deletes only those, with the UID and resource version it has read. Of a binding it writes the status, with the
  metadata and the specification it has read, and the receipt of its allocation: one annotation, added when
  there is none, with everything else as it was read. The other objects it writes are the ledger of the local
  allocation, extended by one reservation for that binding, and the two objects the allocation begins with;
  each of these writes rests on what this pass has read.
\<close>
theorem local_reconcile_owned: "every_step (owned_write r) (local_reconcile L r ns name)"
  by (rule local_reconcile_steps, rule contract_parts(1))

text \<open>
  C2: connectivity is taken down in order: the gateways are withdrawn only after the native routes are
  gone (the VPC is absent, the withdrawal is acknowledged for the current generation, or there never were
  routes); a subnet is deleted only after complete lists of Pods and native addresses showed that
  nothing uses it; the VPC is deleted only for a tombstone, after routes, gateways and subnets are gone.
\<close>
theorem local_reconcile_removal_order: "every_step (ordered_removal r) (local_reconcile L r ns name)"
  by (rule local_reconcile_steps, rule contract_parts(2))

text \<open>
  C21: status reports are truthful: a pass that newly reports the revision as applied has seen every live
  subnet ready and every draining subnet absent and, when there are remote subnets to reach, a ready
  gateway report with two hops and the acknowledgement of exactly the routes through these hops at the
  current generation; or, for a tombstone, the absence of the VPC after the ordered removal.
\<close>
theorem local_reconcile_truthful: "every_step (truthful_report r) (local_reconcile L r ns name)"
  by (rule local_reconcile_steps, rule contract_parts(3))

text \<open>
  C22: a tombstone completes: when nothing of an accepted tombstone is left and the gateway backend
  confirms the withdrawal, one pass reads what it has to, asks for nothing else to be changed, and
  reports the state that counts as cleaned up, after which the snapshot may be forgotten.
\<close>
theorem tombstone_completes:
  assumes "accepted_snapshot b" "om_namespace (nb_meta b) = lc_namespace (lr_config r)" "b_location_ref (nb_spec b) = lc_location_ref (lr_config r)"
    "b_deleting (nb_spec b)" "b_subnets (nb_spec b) = []" "bst_resources (nb_status b) = []" "bst_gateways (nb_status b) = []"
    "bst_phase (nb_status b) \<noteq> ''Deleted''" "om_uid n = lc_cluster_uid (lr_config r)" "is_not_found e" "lr_gateway r"
  shows "\<exists>b'. replay (local_reconcile L r ns name) [Answer (Obj (LBinding b)), Answer (Obj (LNamespace n)), Answer (Items []), Answer (Failed e),
      Answer (Failed e), Withdrawn (Inr True), Answer (Failed e), Answer Done]
    = ([Api (Get ''NetworkBinding'' ns name), Api (Get ''Namespace'' [] ''kube-system''),
        Api (List ''Subnet'' None [(native_owner_label, om_uid (nb_meta b))]), Api (Get ''Subnet'' [] (transit_name b)),
        Api (Get ''Vpc'' [] (b_native_vpc_name (nb_spec b))), DeleteGateway b, Api (Get ''Vpc'' [] (b_native_vpc_name (nb_spec b))),
        Api (UpdateStatus (LBinding b'))], Some (requeue r, []))
    \<and> nb_spec b' = nb_spec b \<and> cleaned_up b'"
proof -
  have inv: "subnet_inventory b [] = [transit_name b]"
    using assms by (simp add: subnet_inventory_def transit_name_def sort_strings_def)
  define b' where "b' = with_state L b ''Deleted'' ''CleanupComplete'' ''Owned native and gateway resources are absent; allocation receipts retained'' False True"
  have "bst_phase (nb_status b') = ''Deleted''" by (simp add: b'_def with_state_def)
  with assms(8) have "nb_status b \<noteq> nb_status b'" by auto
  moreover have "cleaned_up b'" "nb_spec b' = nb_spec b" using assms by (simp_all add: b'_def with_state_def cleaned_up_def)
  moreover have "replay (local_reconcile L r ns name) [Answer (Obj (LBinding b)), Answer (Obj (LNamespace n)), Answer (Items []), Answer (Failed e),
      Answer (Failed e), Withdrawn (Inr True), Answer (Failed e), Answer Done]
    = ([Api (Get ''NetworkBinding'' ns name), Api (Get ''Namespace'' [] ''kube-system''),
        Api (List ''Subnet'' None [(native_owner_label, om_uid (nb_meta b))]), Api (Get ''Subnet'' [] (transit_name b)),
        Api (Get ''Vpc'' [] (b_native_vpc_name (nb_spec b))), DeleteGateway b, Api (Get ''Vpc'' [] (b_native_vpc_name (nb_spec b))),
        Api (UpdateStatus (LBinding b'))], Some (requeue r, []))"
    using assms inv calculation(1)
    by (simp add: local_reconcile_def reconcile_accepted_def recover_native_subnets_def remove_binding_def check_unused_def
        withdraw_routes_def remove_gateway_def report_or_return_def gateway_report_def remove_subnets_def remove_vpc_def delete_native_def
        get_native_def kget_def klist_def kdo_def answer_def map_filter_def find_object_def delete_gateway_def early_def no_gateways_def sort_slice_def
        recorded_def recover_receipt_def b'_def [symmetric] binding_state_def ebind_def Let_def)
  ultimately show ?thesis by blast
qed
definition ex_tombstone :: network_binding where
  "ex_tombstone = \<lparr>nb_meta = empty_meta\<lparr>om_namespace := ''n1'', om_name := ''b'', om_uid := ''b1'', om_annotations := [(source_uid_annotation, ''o1'')]\<rparr>,
     nb_spec = (sync_spec\<lparr>b_deleting := True\<rparr>)\<lparr>b_revision := revision (sync_spec\<lparr>b_deleting := True\<rparr>)\<rparr>, nb_status = empty_binding_status\<rparr>"

definition ex_operator :: local_reconciler where
  "ex_operator = \<lparr>lr_config = ex_local, lr_gateway = True, lr_interval = 0\<rparr>"

theorem tombstone_completes_witness:
  "\<exists>b'. snd (replay (local_reconcile k8s_ref ex_operator ''n1'' ''b'') [Answer (Obj (LBinding ex_tombstone)), Answer (Obj (LNamespace (empty_meta\<lparr>om_uid := ''u1''\<rparr>))),
      Answer (Items []), Answer (Failed (NotFound [])), Answer (Failed (NotFound [])), Withdrawn (Inr True), Answer (Failed (NotFound [])), Answer Done])
    = Some (requeue ex_operator, []) \<and> cleaned_up b'"
  using tombstone_completes [of ex_tombstone ex_operator "empty_meta\<lparr>om_uid := ''u1''\<rparr>" "NotFound []" k8s_ref "''n1''" "''b''"]
  by (auto simp: ex_tombstone_def ex_operator_def ex_local_def accepted_snapshot_def owner_of_def mget_def sync_spec_def revision_def empty_binding_status_def)

end
