(* ===== verification/Gateway_Objects.thy ===== *)
theory Gateway_Objects
  imports Kube_Client Go_Struct Go_Sha256 Api_V1alpha2
begin

text \<open>
  The objects and the data of \<open>internal/managedgateway\<close>: what its client reads and writes in the
  namespace of a site, the ledger of the members of one binding, and the registry of the addresses
  and ports the gateways of the site hold.
\<close>

section \<open>Objects\<close>

text \<open>
  Of a Pod, a Secret and a Node the fields the code reads or writes. \<open>SecurityContext.Privileged\<close> is \<open>None\<close> when one
  of the two pointers is nil, the readiness command when the probe is no \<open>Exec\<close> probe.
\<close>

record gmount =
  mt_name :: string
  mt_path :: string
  mt_read_only :: bool
  mt_sub_path :: string
  mt_sub_path_expr :: string

record exec_probe =
  pb_command :: "string list"
  pb_period :: int
  pb_timeout :: int
  pb_failures :: int

record gcontainer =
  gc_name :: string
  gc_image :: string
  gc_pull_policy :: string
  gc_command :: "string list"
  gc_args :: "string list"
  gc_privileged :: "bool option"
  gc_requests :: "string smap"
  gc_limits :: "string smap"
  gc_readiness :: "exec_probe option"
  gc_mounts :: "gmount list"

record gvolume =
  vo_name :: string
  vo_config_map :: "string option"
  vo_secret :: "(string \<times> int option) option"

record gpod =
  gp_meta :: object_meta
  gp_node_name :: string
  gp_host_network :: bool
  gp_host_pid :: bool
  gp_automount :: "bool option"
  gp_grace :: "int option"
  gp_restart_policy :: string
  gp_init_containers :: "gcontainer list"
  gp_containers :: "gcontainer list"
  gp_volumes :: "gvolume list"
  gp_conditions :: "(string \<times> string) list"

record gsecret =
  se_meta :: object_meta
  se_type :: string
  se_immutable :: "bool option"
  se_data :: "string smap"

record gnode =
  no_meta :: object_meta
  no_unschedulable :: bool
  no_taint_effects :: "string list"
  no_conditions :: "(string \<times> string) list"
  no_addresses :: "(string \<times> string) list"

datatype gobj =
    GBinding network_binding
  | GMap config_map
  | GPod gpod
  | GSecret gsecret
  | GNode gnode

fun g_binding :: "gobj \<Rightarrow> network_binding option" where "g_binding (GBinding b) = Some b" | "g_binding _ = None"
fun g_map :: "gobj \<Rightarrow> config_map option" where "g_map (GMap m) = Some m" | "g_map _ = None"
fun g_pod :: "gobj \<Rightarrow> gpod option" where "g_pod (GPod p) = Some p" | "g_pod _ = None"
fun g_secret :: "gobj \<Rightarrow> gsecret option" where "g_secret (GSecret s) = Some s" | "g_secret _ = None"
fun g_node :: "gobj \<Rightarrow> gnode option" where "g_node (GNode n) = Some n" | "g_node _ = None"

lemma g_proj_Some [simp]: "g_binding x = Some b \<longleftrightarrow> x = GBinding b" "g_map x = Some m \<longleftrightarrow> x = GMap m"
  "g_pod x = Some p \<longleftrightarrow> x = GPod p" "g_secret x = Some s \<longleftrightarrow> x = GSecret s"
  "g_node x = Some n \<longleftrightarrow> x = GNode n"
  by (cases x; auto)+

section \<open>Decoding ports\<close>

definition decode_u32 :: "u32 decoder" where
  "decode_u32 j s = (case j of
      JNull \<Rightarrow> Some s | JNum t \<Rightarrow> map_option of_nat (parse_uint 32 t) | _ \<Rightarrow> None)"

section \<open>Data\<close>

definition component_label :: string where
  "component_label = ''platform.globalvpc.io/component''"

definition ledger_data :: string where
  "ledger_data = ''ledger.json''"

record gateway_member =
  gm_endpoint :: gateway_endpoint
  gm_secret_name :: string

record member_ledger =
  ml_owner_uid :: string
  ml_vpc_uid :: string
  ml_location :: string
  ml_transit_cidr :: string
  ml_profile :: string
  ml_members :: "gateway_member list"

record allocation_registry =
  ar_cluster_uid :: string
  ar_addresses :: "string smap option"
  ar_ports :: "int smap option"

text \<open>The settings of the backend. Its client is the API server of the calls; \<open>gb_probe\<close> tells that it has a \<open>RolloutProbe\<close>.\<close>

record gateway_backend =
  gb_namespace :: string
  gb_cluster_uid :: string
  gb_image :: string
  gb_runtime_dir :: string
  gb_endpoint_annotation :: string
  gb_node_selector :: "string smap"
  gb_replicas :: int
  gb_mtu :: int
  gb_allocation_pool :: string
  gb_port_start :: int
  gb_port_end :: int
  gb_probe :: bool

text \<open>What the network of the location gives the gateways.\<close>

record gateway_attachment =
  gt_transit_cidr :: string
  gt_router_ip :: string
  gt_bfd_source_ip :: string
  gt_member_ips :: "string list"

definition gateway_short :: "string \<Rightarrow> string" where
  "gateway_short s = take 20 (sha256_hex s)"

definition peer_id :: "string \<Rightarrow> string \<Rightarrow> string" where
  "peer_id location gid = location @ ''/'' @ gid"

section \<open>JSON\<close>

definition zero_link :: gateway_link where
  "zero_link = \<lparr>gl_peer_id = [], gl_listen_port = 0, gl_tunnel_ip = [], gl_control_vni = 0\<rparr>"

definition zero_endpoint :: gateway_endpoint where
  "zero_endpoint = \<lparr>ge_id = [], ge_node_name = [], ge_node_uid = [], ge_endpoint_ip = [], ge_transit_ip = [],
     ge_public_key = [], ge_local_asn = 0, ge_health_ip = [], ge_links = [], ge_ready = False\<rparr>"

definition zero_member :: gateway_member where
  "zero_member = \<lparr>gm_endpoint = zero_endpoint, gm_secret_name = []\<rparr>"

definition zero_member_ledger :: member_ledger where
  "zero_member_ledger = \<lparr>ml_owner_uid = [], ml_vpc_uid = [], ml_location = [], ml_transit_cidr = [], ml_profile = [], ml_members = []\<rparr>"

definition zero_registry :: allocation_registry where
  "zero_registry = \<lparr>ar_cluster_uid = [], ar_addresses = None, ar_ports = None\<rparr>"

definition decode_link :: "gateway_link decoder" where
  "decode_link = decode_struct
     [(''peerID'', field gl_peer_id (\<lambda>x l. l\<lparr>gl_peer_id := x\<rparr>) decode_string),
      (''listenPort'', field gl_listen_port (\<lambda>x l. l\<lparr>gl_listen_port := x\<rparr>) (decode_int (- (2 ^ 31)) (2 ^ 31 - 1))),
      (''tunnelIP'', field gl_tunnel_ip (\<lambda>x l. l\<lparr>gl_tunnel_ip := x\<rparr>) decode_string),
      (''controlVNI'', field gl_control_vni (\<lambda>x l. l\<lparr>gl_control_vni := x\<rparr>) decode_u32)]"

definition decode_endpoint :: "gateway_endpoint decoder" where
  "decode_endpoint = decode_struct
     [(''id'', field ge_id (\<lambda>x g. g\<lparr>ge_id := x\<rparr>) decode_string),
      (''nodeName'', field ge_node_name (\<lambda>x g. g\<lparr>ge_node_name := x\<rparr>) decode_string),
      (''nodeUID'', field ge_node_uid (\<lambda>x g. g\<lparr>ge_node_uid := x\<rparr>) decode_string),
      (''endpointIP'', field ge_endpoint_ip (\<lambda>x g. g\<lparr>ge_endpoint_ip := x\<rparr>) decode_string),
      (''transitIP'', field ge_transit_ip (\<lambda>x g. g\<lparr>ge_transit_ip := x\<rparr>) decode_string),
      (''publicKey'', field ge_public_key (\<lambda>x g. g\<lparr>ge_public_key := x\<rparr>) decode_string),
      (''localASN'', field ge_local_asn (\<lambda>x g. g\<lparr>ge_local_asn := x\<rparr>) decode_u32),
      (''healthIP'', field ge_health_ip (\<lambda>x g. g\<lparr>ge_health_ip := x\<rparr>) decode_string),
      (''links'', field ge_links (\<lambda>x g. g\<lparr>ge_links := x\<rparr>) (decode_slice zero_link decode_link)),
      (''ready'', field ge_ready (\<lambda>x g. g\<lparr>ge_ready := x\<rparr>) decode_bool)]"

definition decode_member :: "gateway_member decoder" where
  "decode_member = decode_struct
     [(''endpoint'', field gm_endpoint (\<lambda>x m. m\<lparr>gm_endpoint := x\<rparr>) decode_endpoint),
      (''secretName'', field gm_secret_name (\<lambda>x m. m\<lparr>gm_secret_name := x\<rparr>) decode_string)]"

definition decode_member_ledger :: "member_ledger decoder" where
  "decode_member_ledger = decode_struct
     [(''OwnerUID'', field ml_owner_uid (\<lambda>x l. l\<lparr>ml_owner_uid := x\<rparr>) decode_string),
      (''VPCUID'', field ml_vpc_uid (\<lambda>x l. l\<lparr>ml_vpc_uid := x\<rparr>) decode_string),
      (''Location'', field ml_location (\<lambda>x l. l\<lparr>ml_location := x\<rparr>) decode_string),
      (''TransitCIDR'', field ml_transit_cidr (\<lambda>x l. l\<lparr>ml_transit_cidr := x\<rparr>) decode_string),
      (''Profile'', field ml_profile (\<lambda>x l. l\<lparr>ml_profile := x\<rparr>) decode_string),
      (''Members'', field ml_members (\<lambda>x l. l\<lparr>ml_members := x\<rparr>) (decode_slice zero_member decode_member))]"

definition decode_registry_json :: "allocation_registry decoder" where
  "decode_registry_json = decode_struct
     [(''ClusterUID'', field ar_cluster_uid (\<lambda>x a. a\<lparr>ar_cluster_uid := x\<rparr>) decode_string),
      (''Addresses'', field ar_addresses (\<lambda>x a. a\<lparr>ar_addresses := x\<rparr>) (decode_map [] decode_string)),
      (''Ports'', field ar_ports (\<lambda>x a. a\<lparr>ar_ports := x\<rparr>) (decode_map 0 decode_go_int))]"

definition port_json :: "int \<Rightarrow> json" where
  "port_json v = JNum (int_str v)"

definition registry_json :: "allocation_registry \<Rightarrow> json" where
  "registry_json a = JObj [(''ClusterUID'', JStr (ar_cluster_uid a)),
     (''Addresses'', case ar_addresses a of None \<Rightarrow> JNull | Some m \<Rightarrow> json_map JStr m),
     (''Ports'', case ar_ports a of None \<Rightarrow> JNull | Some m \<Rightarrow> json_map port_json m)]"

end
