(* ===== verification/Gateway_Registry.thy ===== *)
theory Gateway_Registry
  imports Gateway_Objects Local_Allocation
begin

text \<open>
  \<open>internal/managedgateway/registry.go\<close>: the registry of the control addresses and ports that the gateways
  of one site hold, kept in a ConfigMap beside an immutable anchor. Every read validates the whole
  registry and every published claim; a claim is made by a compare-and-swap on the ConfigMap and is
  never taken back. \<open>retry.RetryOnConflict\<close> is the library's: the number of attempts it grants is a parameter.
\<close>

section \<open>Claims\<close>

definition gateway_registry_name :: string where
  "gateway_registry_name = ''managed-gateway-allocations''"

definition gateway_registry_identity_name :: string where
  "gateway_registry_identity_name = ''managed-gateway-allocation-identity''"

definition gateway_registry_digest :: string where
  "gateway_registry_digest = ''platform.globalvpc.io/gateway-allocation-digest''"

definition registry_digest :: "string \<Rightarrow> string" where
  "registry_digest raw = sha256_hex raw"

definition store_registry :: "config_map \<Rightarrow> allocation_registry \<Rightarrow> config_map" where
  "store_registry cm reg = (let body = json_enc (registry_json reg) in
     cm\<lparr>cm_data := [(ledger_data, body)],
        cm_meta := (cm_meta cm)\<lparr>om_annotations := mput gateway_registry_digest (registry_digest body) (om_annotations (cm_meta cm))\<rparr>\<rparr>)"

text \<open>A registry that decoded: both maps are there.\<close>

record claims =
  ck_addresses :: "string smap"
  ck_ports :: "int smap"

definition registry_of :: "gateway_backend \<Rightarrow> claims \<Rightarrow> allocation_registry" where
  "registry_of r c = \<lparr>ar_cluster_uid = gb_cluster_uid r, ar_addresses = Some (ck_addresses c), ar_ports = Some (ck_ports c)\<rparr>"

definition registry_invalid_msg :: string where
  "registry_invalid_msg = ''GatewayAllocationRegistryInvalid: corrupt or foreign registry requires fenced recovery''"

definition address_invalid_msg :: string where
  "address_invalid_msg = ''GatewayAllocationRegistryInvalid: duplicate or invalid retained address''"

definition port_invalid_msg :: string where
  "port_invalid_msg = ''GatewayAllocationRegistryInvalid: duplicate, orphaned or invalid retained port''"

definition check_address :: "prefix \<Rightarrow> string list \<Rightarrow> string \<times> string \<Rightarrow> string list res" where
  "check_address pool seen e = (case e of (claim, raw) \<Rightarrow>
     if \<not> is_ok (site_host raw pool) \<or> claim = [] \<or> raw \<in> set seen then Inl address_invalid_msg else Inr (raw # seen))"

definition port_identity :: "string \<Rightarrow> int \<Rightarrow> string" where
  "port_identity node port = node @ ''/'' @ int_str port"

definition port_value :: "int smap \<Rightarrow> string \<Rightarrow> int" where
  "port_value m k = (case map_of m k of None \<Rightarrow> 0 | Some v \<Rightarrow> v)"

definition check_port :: "gateway_backend \<Rightarrow> string smap \<Rightarrow> string list \<Rightarrow> string \<times> int \<Rightarrow> string list res" where
  "check_port r addresses seen e = (case e of (claim, port) \<Rightarrow> (case cut claim (CHR ''/'') of (node, key, ok) \<Rightarrow>
     if \<not> ok \<or> node = [] \<or> key = [] \<or> port < gb_port_start r \<or> gb_port_end r < port
        \<or> port_identity node port \<in> set seen \<or> mget addresses key = []
     then Inl port_invalid_msg else Inr (port_identity node port # seen)))"

definition decode_registry :: "gateway_backend \<Rightarrow> config_map \<Rightarrow> claims res" where
  "decode_registry r cm =
     (let raw = mget (cm_data cm) ledger_data in
      if om_uid (cm_meta cm) = [] \<or> mget (om_labels (cm_meta cm)) component_label \<noteq> ''gateway-allocator''
         \<or> mget (om_annotations (cm_meta cm)) gateway_registry_digest \<noteq> registry_digest raw
      then Inl registry_invalid_msg
      else (case unmarshal decode_registry_json raw zero_registry of
          None \<Rightarrow> Inl registry_invalid_msg
        | Some reg \<Rightarrow>
            if ar_cluster_uid reg \<noteq> gb_cluster_uid r then Inl registry_invalid_msg
            else (case (ar_addresses reg, ar_ports reg) of
                (Some addresses, Some ports) \<Rightarrow>
                  (case site_prefix (gb_allocation_pool r) of
                     Inl e \<Rightarrow> Inl ''invalid gateway allocation pools''
                   | Inr pool \<Rightarrow>
                       if gb_port_start r < 1024 \<or> 65535 < gb_port_end r \<or> gb_port_end r < gb_port_start r
                       then Inl ''invalid gateway allocation pools''
                       else rbind (foldr_res (check_address pool) [] addresses) (\<lambda>_.
                            rbind (foldr_res (check_port r addresses) [] ports) (\<lambda>_.
                            Inr \<lparr>ck_addresses = addresses, ck_ports = ports\<rparr>)))
              | _ \<Rightarrow> Inl registry_invalid_msg)))"

section \<open>Published claims\<close>

definition check_link :: "claims \<Rightarrow> string \<Rightarrow> string \<Rightarrow> string \<Rightarrow> gateway_link \<Rightarrow> unit res" where
  "check_link c prefix profile node l =
     (let key = prefix @ ''/'' @ gl_peer_id l in
      if gl_peer_id l = [] \<or> gl_tunnel_ip l = [] \<or> mget (ck_addresses c) key \<noteq> gl_tunnel_ip l
      then Inl ''GatewayAllocationReceiptMismatch: member control address disagrees with retained registry''
      else guard (\<not> (profile = ''wireguard-bgp'' \<and> (gl_listen_port l = 0 \<or> port_value (ck_ports c) (node @ ''/'' @ key) \<noteq> gl_listen_port l)))
        ''GatewayAllocationReceiptMismatch: member port disagrees with retained registry'')"

definition check_member_claims :: "claims \<Rightarrow> string \<Rightarrow> string \<Rightarrow> gateway_endpoint \<Rightarrow> unit res" where
  "check_member_claims c owner profile g =
     (let prefix = owner @ ''/'' @ ge_id g in
      if owner = [] \<or> ge_id g = [] \<or> ge_node_uid g = [] \<or> mget (ck_addresses c) (prefix @ ''/health'') \<noteq> ge_health_ip g \<or> ge_health_ip g = []
      then Inl ''GatewayAllocationReceiptMismatch: member health identity disagrees with retained registry''
      else each_res (check_link c prefix profile (ge_node_uid g)) (ge_links g))"

definition validate_gateway_claims :: "claims \<Rightarrow> string \<Rightarrow> string \<Rightarrow> gateway_endpoint list \<Rightarrow> unit res" where
  "validate_gateway_claims c owner profile gateways = each_res (check_member_claims c owner profile) gateways"

definition validate_binding_claims :: "claims \<Rightarrow> network_binding \<Rightarrow> unit res" where
  "validate_binding_claims c b = validate_gateway_claims c (om_uid (nb_meta b)) (b_transport_profile (nb_spec b)) (bst_gateways (nb_status b))"

definition gateway_status_evidence :: "network_binding \<Rightarrow> string \<Rightarrow> bool" where
  "gateway_status_evidence b ns \<longleftrightarrow> bst_gateways (nb_status b) \<noteq> []
     \<or> list_ex (\<lambda>rec. rr_namespace rec = ns \<and> has_prefix (rr_name rec) ''pg-'' \<and> rr_kind rec \<in> {''ConfigMap'', ''Secret'', ''Pod''}) (bst_resources (nb_status b))"

section \<open>Reading the registry\<close>

definition ledger_owned :: "config_map \<Rightarrow> string \<Rightarrow> bool" where
  "ledger_owned cm owner \<longleftrightarrow> list_ex (\<lambda>w. or_uid w = owner \<and> or_kind w = ''NetworkBinding''
     \<and> or_api_version w = api_group_version \<and> or_controller w = Some True) (om_owners (cm_meta cm))"

text \<open>One ConfigMap of the namespace: evidence of gateways, and the ledger of the members it may hold.\<close>

definition scan_member_map :: "bool \<times> member_ledger list \<Rightarrow> config_map \<Rightarrow> (bool \<times> member_ledger list) res" where
  "scan_member_map st cm = (case st of (evidence, ledgers) \<Rightarrow>
     if om_name (cm_meta cm) \<in> {gateway_registry_name, gateway_registry_identity_name} then Inr (evidence, ledgers)
     else if mget (om_labels (cm_meta cm)) component_label \<noteq> ''gateway'' \<and> \<not> has_prefix (om_name (cm_meta cm)) ''pg-''
     then Inr (evidence, ledgers)
     else (case map_of (cm_data cm) ledger_data of
         None \<Rightarrow> Inr (True, ledgers)
       | Some raw \<Rightarrow> (case unmarshal decode_member_ledger raw zero_member_ledger of
             None \<Rightarrow> Inl ''GatewayAllocationReceiptMismatch: invalid member ledger''
           | Some l \<Rightarrow>
               if ml_owner_uid l = [] \<or> om_name (cm_meta cm) \<noteq> ''pg-'' @ gateway_short (ml_owner_uid l)
                  \<or> mget (om_labels (cm_meta cm)) api_owner_label \<noteq> ml_owner_uid l
                  \<or> mget (om_labels (cm_meta cm)) component_label \<noteq> ''gateway''
               then Inl ''GatewayAllocationReceiptMismatch: invalid member ledger''
               else if \<not> ledger_owned cm (ml_owner_uid l)
               then Inl ''GatewayAllocationReceiptMismatch: member ledger ownership changed''
               else Inr (True, ledgers @ [l]))))"

definition pod_evidence :: "gpod \<Rightarrow> bool" where
  "pod_evidence p \<longleftrightarrow> mget (om_labels (gp_meta p)) component_label = ''gateway'' \<or> has_prefix (om_name (gp_meta p)) ''pg-''"

definition new_registry :: "gateway_backend \<Rightarrow> config_map" where
  "new_registry r = store_registry \<lparr>cm_meta = empty_meta\<lparr>om_name := gateway_registry_name, om_namespace := gb_namespace r,
       om_labels := [(component_label, ''gateway-allocator'')]\<rparr>, cm_data = [], cm_immutable = None\<rparr>
     \<lparr>ar_cluster_uid = gb_cluster_uid r, ar_addresses = Some [], ar_ports = Some []\<rparr>"

definition new_registry_identity :: "gateway_backend \<Rightarrow> config_map \<Rightarrow> config_map" where
  "new_registry_identity r cm = \<lparr>cm_meta = empty_meta\<lparr>om_name := gateway_registry_identity_name, om_namespace := gb_namespace r,
       om_labels := [(component_label, ''gateway-allocator-identity'')]\<rparr>,
     cm_data = [(''clusterUID'', gb_cluster_uid r), (''registryUID'', om_uid (cm_meta cm))], cm_immutable = Some True\<rparr>"

definition registry_identity_ok :: "gateway_backend \<Rightarrow> config_map \<Rightarrow> config_map \<Rightarrow> bool" where
  "registry_identity_ok r cm i \<longleftrightarrow> om_uid (cm_meta i) \<noteq> [] \<and> cm_immutable i = Some True
     \<and> mget (om_labels (cm_meta i)) component_label = ''gateway-allocator-identity''
     \<and> mget (cm_data i) ''clusterUID'' = gb_cluster_uid r \<and> mget (cm_data i) ''registryUID'' = om_uid (cm_meta cm)"

text \<open>\<open>Create\<close>, with the conflict that an object made in the meantime is reported as.\<close>

definition create_map :: "string \<Rightarrow> config_map \<Rightarrow> (gobj, err + config_map) kprog" where
  "create_map raced m = pbind (kwrite g_map (Create (GMap m))) (\<lambda>x. Ret (case x of
      Inl e \<Rightarrow> Inl (if is_already_exists e then Conflict raced else e) | Inr m' \<Rightarrow> Inr m'))"

definition found_map :: "gateway_backend \<Rightarrow> string \<Rightarrow> (gobj, err + config_map option) kprog" where
  "found_map r name = pbind (kget g_map ''ConfigMap'' (gb_namespace r) name) (\<lambda>x. Ret (case x of
      Inl e \<Rightarrow> if is_not_found e then Inr None else Inl e | Inr m \<Rightarrow> Inr (Some m)))"

definition registry_map :: "gateway_backend \<Rightarrow> bool \<Rightarrow> bool \<Rightarrow> bool \<Rightarrow> (gobj, err + config_map option) kprog" where
  "registry_map r bootstrap has_identity evidence =
     ebind (found_map r gateway_registry_name) (\<lambda>m. case m of
       Some cm \<Rightarrow> go (Some cm)
     | None \<Rightarrow>
         if has_identity \<or> evidence
         then leave (Errorf ''GatewayAllocationRegistryLost: retained identity or member receipts require fenced recovery'')
         else if \<not> bootstrap then go None
         else ebind (create_map ''allocator bootstrap raced'' (new_registry r)) (\<lambda>cm. go (Some cm)))"

definition registry_identity :: "gateway_backend \<Rightarrow> config_map option \<Rightarrow> bool \<Rightarrow> config_map \<Rightarrow> claims \<Rightarrow> (gobj, err + config_map) kprog" where
  "registry_identity r found evidence cm c = (case found of
      Some i \<Rightarrow> go i
    | None \<Rightarrow>
        if ck_addresses c \<noteq> [] \<or> ck_ports c \<noteq> [] \<or> evidence
        then leave (Errorf ''GatewayAllocationIdentityLost: retained reservations require fenced recovery'')
        else create_map ''allocator identity bootstrap raced'' (new_registry_identity r cm))"

definition published_ok :: "claims \<Rightarrow> member_ledger list \<Rightarrow> network_binding list \<Rightarrow> unit res" where
  "published_ok c ledgers bindings =
     rbind (each_res (\<lambda>l. validate_gateway_claims c (ml_owner_uid l) (ml_profile l) (map gm_endpoint (ml_members l))) ledgers) (\<lambda>_.
     each_res (validate_binding_claims c) bindings)"

text \<open>The registry that was found or made, with its anchor and the claims published under it.\<close>

definition confirm_registry :: "gateway_backend \<Rightarrow> config_map option \<Rightarrow> bool \<Rightarrow> member_ledger list \<Rightarrow> network_binding list \<Rightarrow> config_map
    \<Rightarrow> (gobj, err + (config_map \<times> claims) option) kprog" where
  "confirm_registry r found evidence ledgers bindings cm =
     ebind (lift_res Errorf (decode_registry r cm)) (\<lambda>c.
     ebind (registry_identity r found evidence cm c) (\<lambda>i.
     if \<not> registry_identity_ok r cm i
     then leave (Errorf ''GatewayAllocationIdentityChanged: registry UID changed; fenced recovery required'')
     else ebind (lift_res Errorf (published_ok c ledgers bindings)) (\<lambda>_. go (Some (cm, c)))))"

text \<open>Everything after the lists. No registry is the result only when it may not be created.\<close>

definition check_registry :: "gateway_backend \<Rightarrow> bool \<Rightarrow> bool \<Rightarrow> member_ledger list \<Rightarrow> network_binding list \<Rightarrow> (gobj, err + (config_map \<times> claims) option) kprog" where
  "check_registry r bootstrap evidence ledgers bindings =
     ebind (found_map r gateway_registry_identity_name) (\<lambda>found.
     ebind (registry_map r bootstrap (found \<noteq> None) evidence) (\<lambda>m. case m of
       None \<Rightarrow> go None
     | Some cm \<Rightarrow> confirm_registry r found evidence ledgers bindings cm))"

definition gateway_registry :: "gateway_backend \<Rightarrow> bool \<Rightarrow> network_binding list \<Rightarrow> (gobj, err + (config_map \<times> claims) option) kprog" where
  "gateway_registry r bootstrap extra =
     ebind (klist g_map ''ConfigMap'' (Some (gb_namespace r)) []) (\<lambda>cms.
     ebind (klist g_binding ''NetworkBinding'' (Some (gb_namespace r)) []) (\<lambda>bindings.
     ebind (lift_res Errorf (foldr_res scan_member_map (False, []) cms)) (\<lambda>(found_maps, ledgers).
     ebind (klist g_pod ''Pod'' (Some (gb_namespace r)) []) (\<lambda>pods.
     ebind (klist g_secret ''Secret'' (Some (gb_namespace r)) [(component_label, ''gateway'')]) (\<lambda>secrets.
     check_registry r bootstrap (found_maps \<or> list_ex (\<lambda>b. gateway_status_evidence b (gb_namespace r)) (bindings @ extra)
         \<or> list_ex pod_evidence pods \<or> secrets \<noteq> []) ledgers (bindings @ extra))))))"

section \<open>A new claim\<close>

text \<open>The addresses of the pool after the given one, without the last.\<close>

function free_address :: "prefix \<Rightarrow> string list \<Rightarrow> addr \<Rightarrow> addr option" where
  "free_address pool taken ip =
     (if is_valid ip \<and> contains pool (addr_next ip)
      then (if addr_text ip \<notin> set taken then Some ip else free_address pool taken (addr_next ip)) else None)"
  by pat_completeness auto

definition addresses_left :: "addr \<Rightarrow> nat" where
  "addresses_left ip = (case ip of AddrZero \<Rightarrow> 0 | V4 w \<Rightarrow> 2 ^ 32 - unat w | V6 w z \<Rightarrow> 2 ^ 128 - unat w)"

lemma unat_add_one: "(w :: 'a::len word) \<noteq> - 1 \<Longrightarrow> unat (w + 1) = Suc (unat w)"
  by (metis Suc_eq_plus1 unatSuc add.commute unsigned_minus_1_eq_mask add.inverse_inverse add_eq_0_iff)

lemma addresses_left_next:
  assumes "is_valid ip" and "addr_next ip \<noteq> AddrZero"
  shows "addresses_left (addr_next ip) < addresses_left ip"
proof (cases ip)
  case (V4 w)
  have "unat w < 2 ^ 32" using unsigned_less [of w] by simp
  then show ?thesis using V4 assms(2) by (auto simp: addresses_left_def unat_add_one split: if_splits)
next
  case (V6 w z)
  have "unat w < 2 ^ 128" using unsigned_less [of w] by simp
  then show ?thesis using V6 assms(2) by (auto simp: addresses_left_def unat_add_one split: if_splits)
qed (use assms(1) in \<open>simp add: is_valid_def\<close>)

termination free_address
proof (relation "measure (\<lambda>(pool, taken, ip). addresses_left ip)", goal_cases)
  case (2 pool taken ip)
  then have "addr_next ip \<noteq> AddrZero" by (auto simp: contains_def split: addr.splits)
  with 2 show ?case using addresses_left_next by simp
qed simp

declare free_address.simps [simp del]

definition free_port :: "gateway_backend \<Rightarrow> int list \<Rightarrow> int option" where
  "free_port r taken = find (\<lambda>v. v \<notin> set taken) [gb_port_start r .. gb_port_end r]"

definition pool_exhausted_msg :: string where
  "pool_exhausted_msg = ''gateway allocation pool exhausted''"

text \<open>The claim, and the registry with it unless it was there before.\<close>

definition claim_address :: "gateway_backend \<Rightarrow> claims \<Rightarrow> string \<Rightarrow> (string \<times> claims option) res" where
  "claim_address r c key = (case map_of (ck_addresses c) key of
      Some v \<Rightarrow> Inr (v, None)
    | None \<Rightarrow> (case free_address (case parse_prefix (gb_allocation_pool r) of None \<Rightarrow> prefix_zero | Some p \<Rightarrow> p) (map snd (ck_addresses c))
          (addr_next (p_addr (case parse_prefix (gb_allocation_pool r) of None \<Rightarrow> prefix_zero | Some p \<Rightarrow> p))) of
        None \<Rightarrow> Inl pool_exhausted_msg
      | Some ip \<Rightarrow> Inr (addr_text ip, Some (c\<lparr>ck_addresses := mput key (addr_text ip) (ck_addresses c)\<rparr>))))"

definition claim_port :: "gateway_backend \<Rightarrow> claims \<Rightarrow> string \<Rightarrow> string \<Rightarrow> (string \<times> claims option) res" where
  "claim_port r c node key =
     (if mget (ck_addresses c) key = [] then Inl ''gateway port needs a retained link address''
      else (case map_of (ck_ports c) (node @ ''/'' @ key) of
          Some v \<Rightarrow> Inr (int_str v, None)
        | None \<Rightarrow> (case free_port r (map snd (filter (\<lambda>(k, v). has_prefix k (node @ ''/'')) (ck_ports c))) of
            None \<Rightarrow> Inl pool_exhausted_msg
          | Some v \<Rightarrow> Inr (int_str v, Some (c\<lparr>ck_ports := mput (node @ ''/'' @ key) v (ck_ports c)\<rparr>)))))"

text \<open>What is asked for: an address, or a port on a node.\<close>

datatype wanted = WantAddress | WantPort string

definition make_claim :: "gateway_backend \<Rightarrow> claims \<Rightarrow> string \<Rightarrow> wanted \<Rightarrow> (string \<times> claims option) res" where
  "make_claim r c key w = (case w of WantAddress \<Rightarrow> claim_address r c key | WantPort node \<Rightarrow> claim_port r c node key)"

definition claim_once :: "gateway_backend \<Rightarrow> string \<Rightarrow> wanted \<Rightarrow> (gobj, err + string) kprog" where
  "claim_once r key w =
     ebind (gateway_registry r True []) (\<lambda>x. case x of
       None \<Rightarrow> leave (Errorf ''assignment to entry in nil map'')
     | Some (cm, c) \<Rightarrow>
         ebind (lift_res Errorf (make_claim r c key w)) (\<lambda>(result, c'). case c' of
           None \<Rightarrow> go result
         | Some c' \<Rightarrow> ebind (kdo (Update (GMap (store_registry cm (registry_of r c'))))) (\<lambda>_. go result)))"

fun is_conflict :: "err \<Rightarrow> bool" where
  "is_conflict (Conflict s) = True"
| "is_conflict e = False"

primrec retry_on_conflict :: "nat \<Rightarrow> ('o, err + 'a) kprog \<Rightarrow> ('o, err + 'a) kprog" where
  "retry_on_conflict 0 p = p"
| "retry_on_conflict (Suc n) p = pbind p (\<lambda>x. case x of
      Inl e \<Rightarrow> if is_conflict e then retry_on_conflict n p else leave e | Inr a \<Rightarrow> go a)"

definition gateway_allocate :: "gateway_backend \<Rightarrow> nat \<Rightarrow> string \<Rightarrow> wanted \<Rightarrow> (gobj, err + string) kprog" where
  "gateway_allocate r retries key w =
     (if key = [] \<or> (case w of WantAddress \<Rightarrow> False | WantPort node \<Rightarrow> node = [] \<or> CHR ''/'' \<in> set node)
      then leave (Errorf ''gateway allocation identity is empty or invalid'')
      else retry_on_conflict retries (claim_once r key w))"

end
