(* ===== verification/Gateway_Registry_Laws.thy ===== *)
theory Gateway_Registry_Laws
  imports Gateway_Registry Local_Sync
begin

text \<open>
  What the gateway registry promises: the loop over the pool is the search the local allocator makes, a
  registry that decodes keeps every address and every port of a node for one claim, a new claim only
  adds to it, what was stored reads back, and an allocation writes and returns only what it has read.
\<close>

section \<open>The loop over the pool\<close>

lemma pool_next:
  assumes "usable_net w b" and "i < 2 ^ (32 - b)"
  shows "addr_next (V4 (w + of_nat i)) = V4 (w + of_nat (Suc i)) \<or> addr_next (V4 (w + of_nat i)) = AddrZero"
    and "contains (Prefix (V4 w) (int b)) (addr_next (V4 (w + of_nat i))) \<longleftrightarrow> Suc i < 2 ^ (32 - b)"
proof -
  have net: "net_of b w = w" and "8 \<le> b" using assms(1) by (simp_all add: usable_net_def)
  have top: "unat w + (2 ^ (32 - b) - 1) < 2 ^ 32"
    using unat_last_address_eq [OF net] unat_w32_less [of "last_address w b"] by simp
  have at: "unat (w + of_nat j) = unat w + j" if "j < 2 ^ (32 - b)" for j
    using top that by (simp add: unat_word_ariths unat_of_nat)
  have blk: "block b w * 2 ^ (32 - b) = unat w" using unat_net_of [of b w] by (simp add: net)
  have in_pool: "contains (Prefix (V4 w) (int b)) (V4 x) \<longleftrightarrow> unat w \<le> unat x \<and> unat x < unat w + 2 ^ (32 - b)" for x
    by (simp add: contains_V4 block_range blk)
  show "addr_next (V4 (w + of_nat i)) = V4 (w + of_nat (Suc i)) \<or> addr_next (V4 (w + of_nat i)) = AddrZero"
    by (simp add: ac_simps)
  show "contains (Prefix (V4 w) (int b)) (addr_next (V4 (w + of_nat i))) \<longleftrightarrow> Suc i < 2 ^ (32 - b)"
  proof (cases "w + of_nat i = - 1")
    case True
    then have "unat w + i = 2 ^ 32 - 1" using at [OF assms(2)] by (simp add: unsigned_minus_1_eq_mask mask_eq_exp_minus_1)
    then have "\<not> Suc i < 2 ^ (32 - b)" using top by linarith
    with True show ?thesis by (simp add: contains_def)
  next
    case False
    then have "unat (w + of_nat i + 1) = unat w + Suc i" using at [OF assms(2)] by (simp add: unat_add_one)
    with False show ?thesis by (simp add: in_pool)
  qed
qed

text \<open>The allocator of the gateways and the one of the site search their pools the same way.\<close>

lemma free_address_from:
  assumes "usable_net w b" and "n = 2 ^ (32 - b) - 1 - i" and "i < 2 ^ (32 - b)"
  shows "free_address (Prefix (V4 w) (int b)) taken (V4 (w + of_nat i))
    = map_option (\<lambda>i. V4 (w + of_nat i)) (find (\<lambda>i. addr_text (V4 (w + of_nat i)) \<notin> set taken) [i..<2 ^ (32 - b) - 1])"
  using assms(2,3)
proof (induction n arbitrary: i)
  case 0
  then show ?case using pool_next(2) [OF assms(1) 0(2)] by (subst free_address.simps) simp
next
  case (Suc n)
  then have more: "Suc i < 2 ^ (32 - b)" and split: "[i..<2 ^ (32 - b) - 1] = i # [Suc i..<2 ^ (32 - b) - 1]"
    by (simp_all add: upt_conv_Cons)
  from pool_next [OF assms(1) Suc.prems(2)] more have "addr_next (V4 (w + of_nat i)) = V4 (w + of_nat (Suc i))"
    by (auto simp: contains_def)
  with pool_next(2) [OF assms(1) Suc.prems(2)] more Suc.IH [of "Suc i"] Suc.prems split show ?case
    by (subst free_address.simps) (simp add: is_valid_def)
qed

lemma free_address_first:
  assumes "usable_net w b"
  shows "free_address (Prefix (V4 w) (int b)) taken (addr_next (V4 w)) = free_bfd (Prefix (V4 w) (int b)) taken"
proof -
  have "b \<le> 30" using assms by (simp add: usable_net_def)
  then have "(2::nat) ^ 2 \<le> 2 ^ (32 - b)" by (intro power_increasing) simp_all
  then have "(1::nat) < 2 ^ (32 - b)" by simp
  moreover from pool_next [OF assms, of 0] this have "addr_next (V4 w) = V4 (w + of_nat 1)" by (auto simp: contains_def)
  ultimately show ?thesis
    using free_address_from [OF assms refl, of 1 taken] by (simp add: free_bfd_def ip_at_def comp_def)
qed

section \<open>A registry in order\<close>

definition addresses_ok :: "prefix \<Rightarrow> (string \<times> string) list \<Rightarrow> bool" where
  "addresses_ok pool es \<longleftrightarrow> (\<forall>(k, v)\<in>set es. k \<noteq> [] \<and> is_ok (site_host v pool)) \<and> distinct (map snd es)"

definition node_of :: "string \<Rightarrow> string" where
  "node_of claim = fst (cut claim (CHR ''/''))"

definition port_ok :: "gateway_backend \<Rightarrow> string smap \<Rightarrow> string \<times> int \<Rightarrow> bool" where
  "port_ok r addresses e \<longleftrightarrow> (\<exists>node key. fst e = node @ ''/'' @ key \<and> CHR ''/'' \<notin> set node \<and> node \<noteq> [] \<and> key \<noteq> []
     \<and> gb_port_start r \<le> snd e \<and> snd e \<le> gb_port_end r \<and> mget addresses key \<noteq> [])"

definition ports_ok :: "gateway_backend \<Rightarrow> string smap \<Rightarrow> (string \<times> int) list \<Rightarrow> bool" where
  "ports_ok r addresses es \<longleftrightarrow> (\<forall>e\<in>set es. port_ok r addresses e) \<and> distinct (map (\<lambda>(k, v). port_identity (node_of k) v) es)"

definition claims_ok :: "gateway_backend \<Rightarrow> prefix \<Rightarrow> claims \<Rightarrow> bool" where
  "claims_ok r pool c \<longleftrightarrow> distinct (map fst (ck_addresses c)) \<and> distinct (map fst (ck_ports c))
     \<and> addresses_ok pool (ck_addresses c) \<and> ports_ok r (ck_addresses c) (ck_ports c)"

lemma check_address_fold:
  "is_ok (foldr_res (check_address pool) seen es) \<longleftrightarrow> addresses_ok pool es \<and> (\<forall>e\<in>set es. snd e \<notin> set seen)"
proof (induction es arbitrary: seen)
  case (Cons e es)
  obtain k v where e: "e = (k, v)" by (cases e)
  show ?case
  proof (cases "is_ok (site_host v pool) \<and> k \<noteq> [] \<and> v \<notin> set seen")
    case True
    then have "check_address pool seen e = Inr (v # seen)" by (simp add: check_address_def e)
    then show ?thesis using Cons.IH [of "v # seen"] True by (auto simp: e addresses_ok_def image_iff)
  next
    case False
    then have "check_address pool seen e = Inl address_invalid_msg" by (auto simp: check_address_def e)
    then show ?thesis using False by (auto simp: e addresses_ok_def is_ok_def)
  qed
qed (simp add: addresses_ok_def is_ok_def)

lemma node_of_claim [simp]: "CHR ''/'' \<notin> set node \<Longrightarrow> node_of (node @ CHR ''/'' # key) = node"
  by (simp add: node_of_def cut_append)

lemma check_port_Inr:
  "check_port r addresses seen (k, v) = Inr seen' \<longleftrightarrow> port_ok r addresses (k, v) \<and> port_identity (node_of k) v \<notin> set seen
     \<and> seen' = port_identity (node_of k) v # seen"
proof (cases "CHR ''/'' \<in> set k")
  case True
  then obtain node key where k: "k = node @ ''/'' @ key" "CHR ''/'' \<notin> set node"
    using split_list_first [of "CHR ''/''" k] by auto
  then have c: "cut k (CHR ''/'') = (node, key, True)" by (simp add: cut_append)
  have nk: "node_of k = node" by (simp add: node_of_def c)
  have ok: "port_ok r addresses (k, v) \<longleftrightarrow> node \<noteq> [] \<and> key \<noteq> [] \<and> gb_port_start r \<le> v \<and> v \<le> gb_port_end r \<and> mget addresses key \<noteq> []"
    using k append_separator_inject [of "CHR ''/''" node] by (auto simp: port_ok_def)
  show ?thesis unfolding check_port_def prod.case c ok nk by auto
qed (auto simp: check_port_def cut_def port_ok_def)

lemma check_port_fold:
  "is_ok (foldr_res (check_port r addresses) seen es) \<longleftrightarrow> ports_ok r addresses es
     \<and> (\<forall>(k, v)\<in>set es. port_identity (node_of k) v \<notin> set seen)"
proof (induction es arbitrary: seen)
  case (Cons e es)
  obtain k v where e: "e = (k, v)" by (cases e)
  show ?case
  proof (cases "port_ok r addresses (k, v) \<and> port_identity (node_of k) v \<notin> set seen")
    case True
    then have "check_port r addresses seen e = Inr (port_identity (node_of k) v # seen)" by (simp add: check_port_Inr e)
    then show ?thesis using Cons.IH [of "port_identity (node_of k) v # seen"] True by (auto simp: e ports_ok_def image_iff)
  next
    case False
    then obtain m where "check_port r addresses seen e = Inl m"
      by (cases "check_port r addresses seen e") (auto simp: check_port_Inr e)
    then show ?thesis using False by (auto simp: e ports_ok_def is_ok_def)
  qed
qed (simp add: ports_ok_def is_ok_def)

text \<open>The settings under which a registry can be used.\<close>

definition ports_allowed :: "gateway_backend \<Rightarrow> bool" where
  "ports_allowed r \<longleftrightarrow> 1024 \<le> gb_port_start r \<and> gb_port_end r \<le> 65535 \<and> gb_port_start r \<le> gb_port_end r"

lemma decode_registry_iff:
  "decode_registry r cm = Inr c \<longleftrightarrow> om_uid (cm_meta cm) \<noteq> [] \<and> mget (om_labels (cm_meta cm)) component_label = ''gateway-allocator''
     \<and> mget (om_annotations (cm_meta cm)) gateway_registry_digest = registry_digest (mget (cm_data cm) ledger_data)
     \<and> unmarshal decode_registry_json (mget (cm_data cm) ledger_data) zero_registry = Some (registry_of r c)
     \<and> ports_allowed r \<and> (\<exists>pool. site_prefix (gb_allocation_pool r) = Inr pool \<and> addresses_ok pool (ck_addresses c))
     \<and> ports_ok r (ck_addresses c) (ck_ports c)"
proof -
  have check: "rbind (foldr_res (check_address pool) [] es) (\<lambda>_. rbind (foldr_res (check_port r es) [] ps) (\<lambda>_. Inr c')) = Inr c''
      \<longleftrightarrow> addresses_ok pool es \<and> ports_ok r es ps \<and> c' = c''" for pool es ps and c' c'' :: claims
    using check_address_fold [of pool "[]" es] check_port_fold [of r es "[]" ps]
    by (cases "foldr_res (check_address pool) [] es"; cases "foldr_res (check_port r es) [] ps") (auto simp: is_ok_def rbind_def)
  show ?thesis
  proof (cases "unmarshal decode_registry_json (mget (cm_data cm) ledger_data) zero_registry")
    case None
    then show ?thesis by (simp add: decode_registry_def Let_def)
  next
    case (Some s)
    obtain u a p where s: "s = \<lparr>ar_cluster_uid = u, ar_addresses = a, ar_ports = p\<rparr>" by (cases s)
    show ?thesis unfolding decode_registry_def Let_def Some s registry_of_def
      by (cases a; cases p; cases c) (auto simp: check ports_allowed_def simp del: rbind_eq_Inr split: sum.splits)
  qed
qed

lemma decode_registry_distinct:
  assumes "decode_registry_json j s = Some t" and "distinct (map fst (entries (ar_addresses s)))" and "distinct (map fst (entries (ar_ports s)))"
  shows "distinct (map fst (entries (ar_addresses t))) \<and> distinct (map fst (entries (ar_ports t)))"
  by (rule decode_struct_invariant [OF assms(1) [unfolded decode_registry_json_def],
        where I = "\<lambda>s. distinct (map fst (entries (ar_addresses s))) \<and> distinct (map fst (entries (ar_ports s)))"])
    (use assms(2,3) in \<open>auto simp: field_def\<close>, (erule decode_map_distinct, assumption)+)

lemma decode_registry_ok:
  assumes "decode_registry r cm = Inr c"
  obtains pool where "site_prefix (gb_allocation_pool r) = Inr pool" and "claims_ok r pool c"
proof -
  from assms obtain j where "decode_registry_json j zero_registry = Some (registry_of r c)"
    by (auto simp: decode_registry_iff unmarshal_def split: option.splits)
  then have "distinct (map fst (ck_addresses c)) \<and> distinct (map fst (ck_ports c))"
    using decode_registry_distinct [of j zero_registry "registry_of r c"] by (simp add: zero_registry_def registry_of_def)
  with assms that show thesis by (auto simp: decode_registry_iff claims_ok_def)
qed

section \<open>A new claim\<close>

text \<open>A validated pool outside the link-local network.\<close>

definition gateway_pool :: "gateway_backend \<Rightarrow> prefix \<Rightarrow> bool" where
  "gateway_pool r pool \<longleftrightarrow> (\<exists>w b. gb_allocation_pool r = v4_prefix_str w b \<and> usable_net w b \<and> pool = Prefix (V4 w) (int b)
     \<and> \<not> overlaps pool link_local_net)"

definition want_ok :: "wanted \<Rightarrow> bool" where
  "want_ok w \<longleftrightarrow> (case w of WantAddress \<Rightarrow> True | WantPort node \<Rightarrow> node \<noteq> [] \<and> CHR ''/'' \<notin> set node)"

definition value_of :: "claims \<Rightarrow> string \<Rightarrow> wanted \<Rightarrow> string option" where
  "value_of c key w = (case w of WantAddress \<Rightarrow> map_of (ck_addresses c) key
     | WantPort node \<Rightarrow> map_option int_str (map_of (ck_ports c) (node @ ''/'' @ key)))"

definition extends :: "claims \<Rightarrow> claims \<Rightarrow> bool" where
  "extends c c' \<longleftrightarrow> map_of (ck_addresses c) \<subseteq>\<^sub>m map_of (ck_addresses c') \<and> map_of (ck_ports c) \<subseteq>\<^sub>m map_of (ck_ports c')"

lemma extends_refl [simp]: "extends c c" and extends_trans: "extends a b \<Longrightarrow> extends b c \<Longrightarrow> extends a c"
  by (auto simp: extends_def intro: map_le_trans)

lemma extends_value: "extends c c' \<Longrightarrow> value_of c key w = Some v \<Longrightarrow> value_of c' key w = Some v"
  by (auto simp: extends_def value_of_def map_le_def dom_def split: wanted.splits)

lemma parse_pool: "gateway_pool r pool \<Longrightarrow> parse_prefix (gb_allocation_pool r) = Some pool"
  by (auto simp: gateway_pool_def usable_net_def)

lemma site_pool: "gateway_pool r pool \<Longrightarrow> site_prefix (gb_allocation_pool r) = Inr pool"
  by (auto simp: gateway_pool_def site_prefix_of)

lemma claim_address_ok:
  assumes pool: "gateway_pool r pool" and c: "claims_ok r pool c" and key: "key \<noteq> []" and new: "claim_address r c key = Inr (v, Some c')"
  shows "claims_ok r pool c' \<and> c' = c\<lparr>ck_addresses := ck_addresses c @ [(key, v)]\<rparr> \<and> v \<notin> snd ` set (ck_addresses c)
     \<and> key \<notin> fst ` set (ck_addresses c)"
proof -
  obtain w b where w: "pool = Prefix (V4 w) (int b)" "usable_net w b" "\<not> overlaps (Prefix (V4 w) (int b)) link_local_net"
    using pool by (auto simp: gateway_pool_def)
  from new obtain ip where ip: "free_address pool (map snd (ck_addresses c)) (addr_next (p_addr pool)) = Some ip"
    and v: "v = addr_text ip" "c' = c\<lparr>ck_addresses := mput key v (ck_addresses c)\<rparr>" and fresh: "map_of (ck_addresses c) key = None"
    by (auto simp: claim_address_def parse_pool [OF pool] split: option.splits)
  have host: "is_ok (site_host v pool)" "v \<notin> snd ` set (ck_addresses c)"
    using free_bfd_sound [OF w(2,3), of "map snd (ck_addresses c)" ip] ip free_address_first [OF w(2)] by (simp_all add: w(1) v(1))
  have k: "key \<notin> fst ` set (ck_addresses c)" using fresh by (simp add: dom_map_of_fst)
  then have c': "c' = c\<lparr>ck_addresses := ck_addresses c @ [(key, v)]\<rparr>" using v(2) by (simp add: set_mput_new)
  have "v \<noteq> []" using host(1) by (auto simp: is_ok_iff site_host_def parse_addr_def split: option.splits)
  then have "mget (ck_addresses c @ [(key, v)]) k' \<noteq> []" if "mget (ck_addresses c) k' \<noteq> []" for k'
    using that by (auto simp: mget_def map_add_def split: option.splits)
  then have "ports_ok r (ck_addresses c @ [(key, v)]) (ck_ports c)"
    using c unfolding claims_ok_def ports_ok_def port_ok_def by metis
  with c key host k show ?thesis by (simp add: c' claims_ok_def addresses_ok_def)
qed

lemma claim_port_ok:
  assumes c: "claims_ok r pool c" and key: "key \<noteq> []" "node \<noteq> []" "CHR ''/'' \<notin> set node"
    and new: "claim_port r c node key = Inr (v, Some c')"
  shows "claims_ok r pool c' \<and> (\<exists>n. v = int_str n \<and> c' = c\<lparr>ck_ports := ck_ports c @ [(node @ ''/'' @ key, n)]\<rparr>)
     \<and> node @ ''/'' @ key \<notin> fst ` set (ck_ports c)"
proof -
  let ?k = "node @ ''/'' @ key"
  let ?taken = "map snd (filter (\<lambda>(k, v). has_prefix k (node @ ''/'')) (ck_ports c))"
  from new obtain n where n: "free_port r ?taken = Some n" and v: "v = int_str n" "c' = c\<lparr>ck_ports := mput ?k n (ck_ports c)\<rparr>"
    and fresh: "map_of (ck_ports c) ?k = None" and owner: "mget (ck_addresses c) key \<noteq> []"
    by (auto simp: claim_port_def split: option.splits if_splits)
  from n have range: "gb_port_start r \<le> n" "n \<le> gb_port_end r" "n \<notin> set ?taken"
    by (auto simp: free_port_def dest!: find_Some_free)
  have k: "?k \<notin> fst ` set (ck_ports c)" using fresh by (simp add: dom_map_of_fst)
  then have c': "c' = c\<lparr>ck_ports := ck_ports c @ [(?k, n)]\<rparr>" using v(2) by (simp add: set_mput_new)
  have "port_identity node n \<noteq> port_identity (node_of k) m" if e: "(k, m) \<in> set (ck_ports c)" for k m
  proof
    assume eq: "port_identity node n = port_identity (node_of k) m"
    from e c obtain nd ky where kk: "k = nd @ ''/'' @ ky" "CHR ''/'' \<notin> set nd" by (force simp: claims_ok_def ports_ok_def port_ok_def)
    with eq have "nd = node" "m = n" using append_separator_inject [OF key(3) kk(2)] by (simp_all add: port_identity_def)
    then have "n \<in> set ?taken" using e kk by (force simp: has_prefix_iff)
    with range(3) show False by contradiction
  qed
  then have "ports_ok r (ck_addresses c) (ck_ports c @ [(?k, n)])"
    using c key owner range(1,2) by (fastforce simp: claims_ok_def ports_ok_def port_ok_def)
  with c k v(1) c' show ?thesis by (simp add: claims_ok_def)
qed

lemma make_claim_ok:
  assumes "gateway_pool r pool" and "claims_ok r pool c" and "key \<noteq> []" and "want_ok w" and "make_claim r c key w = Inr (v, Some c')"
  shows "claims_ok r pool c' \<and> extends c c' \<and> value_of c key w = None \<and> value_of c' key w = Some v"
proof (cases w)
  case WantAddress
  then have "claim_address r c key = Inr (v, Some c')" using assms(5) by (simp add: make_claim_def)
  from claim_address_ok [OF assms(1-3) this] show ?thesis
    by (auto simp: WantAddress value_of_def extends_def map_le_def map_add_def dom_map_of_fst [symmetric] split: option.splits)
next
  case (WantPort node)
  then have "claim_port r c node key = Inr (v, Some c')" "node \<noteq> []" "CHR ''/'' \<notin> set node"
    using assms(4,5) by (simp_all add: make_claim_def want_ok_def)
  from claim_port_ok [OF assms(2,3) this(2,3,1)] show ?thesis
    by (auto simp: WantPort value_of_def extends_def map_le_def map_add_def dom_map_of_fst [symmetric] split: option.splits)
qed

lemma make_claim_existing: "make_claim r c key w = Inr (v, None) \<Longrightarrow> value_of c key w = Some v"
  by (auto simp: make_claim_def claim_address_def claim_port_def value_of_def split: wanted.splits option.splits if_splits)

section \<open>Reading back\<close>

definition ascii_claims :: "gateway_backend \<Rightarrow> claims \<Rightarrow> bool" where
  "ascii_claims r c \<longleftrightarrow> ascii (gb_cluster_uid r) \<and> list_all (\<lambda>e. ascii (fst e)) (ck_addresses c) \<and> list_all (\<lambda>e. ascii (fst e)) (ck_ports c)"

definition read_back :: "claims \<Rightarrow> claims" where
  "read_back c = \<lparr>ck_addresses = sort_slice fst (ck_addresses c), ck_ports = sort_slice fst (ck_ports c)\<rparr>"

lemma read_back_value: "claims_ok r pool c \<Longrightarrow> value_of (read_back c) k w = value_of c k w"
  by (simp add: value_of_def read_back_def claims_ok_def split: wanted.split)

lemma distinct_sort_slice: "distinct (map f (sort_slice g xs)) \<longleftrightarrow> distinct (map f xs)"
  by (metis mset_eq_imp_distinct_iff mset_map sort_slice_props(4))

lemma read_back_ok:
  assumes "claims_ok r pool c"
  shows "claims_ok r pool (read_back c)"
proof -
  have d: "distinct (map fst (ck_addresses c))" using assms by (simp add: claims_ok_def)
  then have m: "mget (sort_slice fst (ck_addresses c)) k = mget (ck_addresses c) k" for k by (simp add: mget_def)
  have "addresses_ok pool (sort_slice fst (ck_addresses c))"
    using assms by (simp add: claims_ok_def addresses_ok_def distinct_sort_slice)
  moreover have "ports_ok r (sort_slice fst (ck_addresses c)) (sort_slice fst (ck_ports c))"
    using assms by (simp add: claims_ok_def ports_ok_def port_ok_def distinct_sort_slice m)
  ultimately show ?thesis using assms by (simp add: claims_ok_def read_back_def distinct_sort_slice)
qed

lemma decode_port: "- (2 ^ 63) \<le> v \<Longrightarrow> v < 2 ^ 63 \<Longrightarrow> decode_go_int (port_json v) z = Some v"
  by (simp add: decode_int_def port_json_def parse_int64_int_str int64_def)

text \<open>The text of a registry reads back whether or not the claims in it pass the checks.\<close>

definition readable :: "gateway_backend \<Rightarrow> claims \<Rightarrow> bool" where
  "readable r c \<longleftrightarrow> ascii_claims r c \<and> distinct (map fst (ck_addresses c)) \<and> distinct (map fst (ck_ports c))
     \<and> (\<forall>(k, v)\<in>set (ck_addresses c). ascii v) \<and> (\<forall>(k, v)\<in>set (ck_ports c). 1024 \<le> v \<and> v \<le> 65535)"

lemma store_body:
  assumes "readable r c"
  shows "unmarshal decode_registry_json (json_enc (registry_json (registry_of r c))) zero_registry = Some (registry_of r (read_back c))"
proof -
  have d: "distinct (map fst (ck_addresses c))" "distinct (map fst (ck_ports c))" using assms by (simp_all add: readable_def)
  have "decode_map [] decode_string (json_map JStr (ck_addresses c)) None = Some (Some (sort_slice fst (ck_addresses c)))"
    using d(1) by (simp add: decode_map_json_map decode_string_def)
  moreover have "decode_map 0 decode_go_int (json_map port_json (ck_ports c)) None = Some (Some (sort_slice fst (ck_ports c)))"
    using d(2) assms by (intro decode_map_json_map decode_port) (force simp: readable_def)+
  ultimately have "decode_registry_json (registry_json (registry_of r c)) zero_registry = Some (registry_of r (read_back c))"
    by (simp add: decode_registry_json_def registry_json_def registry_of_def read_back_def decode_struct_def find_field_def field_def decode_string_def zero_registry_def)
  moreover have "plain_json (registry_json (registry_of r c))"
  proof -
    have "plain_json (json_map JStr (ck_addresses c))"
      using assms by (auto simp: readable_def ascii_claims_def list_all_iff intro!: plain_json_map)
    moreover have "plain_json (port_json v)" for v using plain_json_int [of v] by (simp add: port_json_def json_int_def)
    then have "plain_json (json_map port_json (ck_ports c))"
      using assms by (auto simp: readable_def ascii_claims_def list_all_iff intro!: plain_json_map)
    ultimately show ?thesis using assms by (simp add: registry_json_def registry_of_def readable_def ascii_claims_def)
  qed
  then have "json_parse (json_enc (registry_json (registry_of r c))) = Some (registry_json (registry_of r c))" by (rule json_parse_enc)
  ultimately show ?thesis by (simp add: unmarshal_def)
qed

lemma claims_readable: "claims_ok r pool c \<Longrightarrow> ports_allowed r \<Longrightarrow> ascii_claims r c \<Longrightarrow> readable r c"
  by (fastforce simp: readable_def claims_ok_def ports_ok_def port_ok_def ports_allowed_def addresses_ok_def is_ok_iff dest: site_host_ascii)

lemma store_decode:
  assumes c: "claims_ok r pool c" and pool: "site_prefix (gb_allocation_pool r) = Inr pool" and "ports_allowed r" and "ascii_claims r c"
    and meta: "om_uid (cm_meta cm) \<noteq> []" "mget (om_labels (cm_meta cm)) component_label = ''gateway-allocator''"
  shows "decode_registry r (store_registry cm (registry_of r c)) = Inr (read_back c)"
  using read_back_ok [OF c] assms(2,3) meta store_body [OF claims_readable [OF c assms(3,4)]]
  by (simp add: decode_registry_iff store_registry_def Let_def mget_def claims_ok_def)

lemma registry_of_inject: "registry_of r c = registry_of r d \<longleftrightarrow> c = d"
  by (cases c, cases d) (simp add: registry_of_def)

lemma store_decoded:
  assumes "readable r c" and "decode_registry r (store_registry cm (registry_of r c)) = Inr d"
  shows "d = read_back c"
  using assms(2) store_body [OF assms(1)]
  by (simp add: decode_registry_iff store_registry_def Let_def mget_def registry_of_inject)

section \<open>What an allocation may write\<close>

type_synonym ghist = "(gobj kreq \<times> gobj kresp) list"

text \<open>Complete lists of the namespace without a trace of gateways, and no anchor: only here a registry may begin.\<close>

definition fresh_site :: "gateway_backend \<Rightarrow> ghist \<Rightarrow> bool" where
  "fresh_site r h \<longleftrightarrow> (\<exists>bs ps. (List ''NetworkBinding'' (Some (gb_namespace r)) [], Items (map GBinding bs)) \<in> set h
       \<and> \<not> list_ex (\<lambda>b. gateway_status_evidence b (gb_namespace r)) bs
       \<and> (List ''Pod'' (Some (gb_namespace r)) [], Items (map GPod ps)) \<in> set h \<and> \<not> list_ex pod_evidence ps
       \<and> (List ''Secret'' (Some (gb_namespace r)) [(component_label, ''gateway'')], Items []) \<in> set h)
     \<and> (\<exists>e. (Get ''ConfigMap'' (gb_namespace r) gateway_registry_identity_name, Failed e) \<in> set h \<and> is_not_found e)"

definition asks_registry :: "gateway_backend \<Rightarrow> gobj kreq \<Rightarrow> bool" where
  "asks_registry r q \<longleftrightarrow> q = Get ''ConfigMap'' (gb_namespace r) gateway_registry_name \<or> q = Create (GMap (new_registry r))"

text \<open>The registry is what a read of it, or its creation, was answered with.\<close>

definition registry_read :: "gateway_backend \<Rightarrow> ghist \<Rightarrow> config_map \<Rightarrow> claims \<Rightarrow> bool" where
  "registry_read r h cm c \<longleftrightarrow> (\<exists>q. asks_registry r q \<and> (q, Obj (GMap cm)) \<in> set h) \<and> decode_registry r cm = Inr c"

fun claim_write :: "gateway_backend \<Rightarrow> string \<Rightarrow> wanted \<Rightarrow> ghist \<Rightarrow> gobj kreq \<Rightarrow> bool" where
  "claim_write r key w h (Get kind ns name) \<longleftrightarrow> True"
| "claim_write r key w h (List kind ns labels) \<longleftrightarrow> True"
| "claim_write r key w h (Create x) \<longleftrightarrow> fresh_site r h \<and> (x = GMap (new_registry r)
     \<or> (\<exists>cm. registry_read r h cm \<lparr>ck_addresses = [], ck_ports = []\<rparr> \<and> x = GMap (new_registry_identity r cm)))"
| "claim_write r key w h (Update x) \<longleftrightarrow> (\<exists>cm c v c'. registry_read r h cm c \<and> make_claim r c key w = Inr (v, Some c')
     \<and> x = GMap (store_registry cm (registry_of r c')))"
| "claim_write r key w h q \<longleftrightarrow> False"

definition claim_held :: "gateway_backend \<Rightarrow> string \<Rightarrow> wanted \<Rightarrow> ghist \<Rightarrow> string \<Rightarrow> bool" where
  "claim_held r key w h v \<longleftrightarrow> (\<exists>cm c. registry_read r h cm c \<and> (make_claim r c key w = Inr (v, None)
     \<or> (\<exists>c' y. make_claim r c key w = Inr (v, Some c') \<and> (Update (GMap (store_registry cm (registry_of r c'))), y) \<in> set h
          \<and> (\<forall>e. y \<noteq> Failed e))))"

lemma fresh_site_mono: "fresh_site r h \<Longrightarrow> grows h h' \<Longrightarrow> fresh_site r h'"
  unfolding fresh_site_def by (blast intro: grows_in)

lemma registry_read_mono: "registry_read r h cm c \<Longrightarrow> grows h h' \<Longrightarrow> registry_read r h' cm c"
  unfolding registry_read_def by (blast intro: grows_in)

lemma found_map_rule:
  assumes "\<And>h' e. grows h h' \<Longrightarrow> Q h' (Inl e)"
    and "\<And>h' e. grows h h' \<Longrightarrow> (Get ''ConfigMap'' (gb_namespace r) name, Failed e) \<in> set h' \<Longrightarrow> is_not_found e \<Longrightarrow> Q h' (Inr None)"
    and "\<And>h' m. grows h h' \<Longrightarrow> (Get ''ConfigMap'' (gb_namespace r) name, Obj (GMap m)) \<in> set h' \<Longrightarrow> Q h' (Inr (Some m))"
  shows "always (claim_write r key w) (found_map r name) Q h"
  unfolding found_map_def always_pbind by (rule kget_seen) (use assms in auto)

lemma create_map_rule:
  assumes "claim_write r key w h (Create (GMap m))" and "\<And>h' e. grows h h' \<Longrightarrow> Q h' (Inl e)"
    and "\<And>h' m'. grows h h' \<Longrightarrow> (Create (GMap m), Obj (GMap m')) \<in> set h' \<Longrightarrow> Q h' (Inr m')"
  shows "always (claim_write r key w) (create_map raced m) Q h"
  unfolding create_map_def always_pbind by (rule kwrite_seen) (use assms in auto)

lemma registry_map_rule:
  assumes "\<not> has \<and> \<not> evidence \<Longrightarrow> fresh_site r h" and "\<And>h' e. grows h h' \<Longrightarrow> Q h' (Inl e)" and "\<And>h'. \<not> bootstrap \<Longrightarrow> grows h h' \<Longrightarrow> Q h' (Inr None)"
    and "\<And>h' cm q. grows h h' \<Longrightarrow> asks_registry r q \<Longrightarrow> (q, Obj (GMap cm)) \<in> set h' \<Longrightarrow> Q h' (Inr (Some cm))"
  shows "always (claim_write r key w) (registry_map r bootstrap has evidence) Q h"
  unfolding registry_map_def always_ebind
proof (rule found_map_rule, goal_cases)
  case (3 h' m)
  then show ?case using assms(4) [of h' "Get ''ConfigMap'' (gb_namespace r) gateway_registry_name" m] by (simp add: asks_registry_def)
next
  case (2 h' e)
  have "always (claim_write r key w) (create_map ''allocator bootstrap raced'' (new_registry r))
      (\<lambda>h x. case x of Inl e \<Rightarrow> Q h (Inl e) | Inr cm \<Rightarrow> always (claim_write r key w) (go (Some cm)) Q h) h'" if "\<not> has" "\<not> evidence"
  proof (rule create_map_rule, goal_cases)
    case 1
    show ?case using that 2(1) assms(1) by (auto intro: fresh_site_mono)
  next
    case (3 h'' m')
    then show ?case using 2(1) assms(4) [of h'' "Create (GMap (new_registry r))" m'] by (auto simp: asks_registry_def)
  qed (use 2(1) in \<open>auto intro: assms(2)\<close>)
  with 2 assms(2,3) show ?case by (simp cong: sum.case_cong)
qed (auto intro: assms(2))

lemma registry_identity_rule:
  assumes "registry_read r h cm c" and "found = None \<Longrightarrow> \<not> evidence \<Longrightarrow> fresh_site r h"
    and "\<And>h' e. grows h h' \<Longrightarrow> Q h' (Inl e)" and "\<And>h' i. grows h h' \<Longrightarrow> Q h' (Inr i)"
  shows "always (claim_write r key w) (registry_identity r found evidence cm c) Q h"
proof (cases found)
  case None
  have "always (claim_write r key w) (create_map ''allocator identity bootstrap raced'' (new_registry_identity r cm)) Q h"
    if "ck_addresses c = []" "ck_ports c = []" "\<not> evidence"
  proof (rule create_map_rule, goal_cases)
    case 1
    have "c = \<lparr>ck_addresses = [], ck_ports = []\<rparr>" using that by (cases c) simp
    with assms(1,2) None that(3) show ?case by auto
  qed (auto intro: assms)
  then show ?thesis using None assms(3) by (auto simp: registry_identity_def)
qed (simp add: registry_identity_def assms(4))

lemma confirm_registry_rule:
  assumes "asks_registry r q" "(q, Obj (GMap cm)) \<in> set h" and "found = None \<Longrightarrow> \<not> evidence \<Longrightarrow> fresh_site r h"
    and Q: "\<And>h' e. grows h h' \<Longrightarrow> Q h' (Inl e)" "\<And>h' c. grows h h' \<Longrightarrow> registry_read r h' cm c \<Longrightarrow> Q h' (Inr (Some (cm, c)))"
  shows "always (claim_write r key w) (confirm_registry r found evidence ledgers bindings cm) Q h"
proof (cases "decode_registry r cm")
  case (Inr c)
  then have read: "registry_read r h cm c" using assms(1,2) by (auto simp: registry_read_def)
  show ?thesis
    unfolding confirm_registry_def Inr ebind_lift_res sum.case always_ebind [of _ "registry_identity _ _ _ _ _"]
  proof (rule registry_identity_rule [OF read assms(3)], goal_cases)
    case (4 h' i)
    then have "registry_read r h' cm c" using read by (blast intro: registry_read_mono)
    with 4 Q show ?case by (auto split: sum.split)
  qed (auto intro: Q)
qed (simp add: confirm_registry_def ebind_lift_res Q)

lemma check_registry_rule:
  assumes fresh: "\<And>h' e. \<not> evidence \<Longrightarrow> grows h h' \<Longrightarrow> (Get ''ConfigMap'' (gb_namespace r) gateway_registry_identity_name, Failed e) \<in> set h'
      \<Longrightarrow> is_not_found e \<Longrightarrow> fresh_site r h'"
    and Q: "\<And>h' e. grows h h' \<Longrightarrow> Q h' (Inl e)" "\<And>h'. \<not> bootstrap \<Longrightarrow> grows h h' \<Longrightarrow> Q h' (Inr None)"
      "\<And>h' cm c. grows h h' \<Longrightarrow> registry_read r h' cm c \<Longrightarrow> Q h' (Inr (Some (cm, c)))"
  shows "always (claim_write r key w) (check_registry r bootstrap evidence ledgers bindings) Q h"
proof -
  have after: "always (claim_write r key w) (registry_map r bootstrap (found \<noteq> None) evidence) (\<lambda>h2 m. case m of Inl e \<Rightarrow> Q h2 (Inl e)
      | Inr m \<Rightarrow> always (claim_write r key w) (case m of None \<Rightarrow> go None | Some cm \<Rightarrow> confirm_registry r found evidence ledgers bindings cm) Q h2) h'"
    if "grows h h'" "found = None \<Longrightarrow> \<not> evidence \<Longrightarrow> fresh_site r h'" for h' found
  proof (rule registry_map_rule, goal_cases)
    case (4 h'' cm q)
    then have g: "grows h h''" and f: "found = None \<Longrightarrow> \<not> evidence \<Longrightarrow> fresh_site r h''" using that by (blast intro: fresh_site_mono)+
    show ?case unfolding sum.case option.case
      by (rule confirm_registry_rule [OF 4(2,3) f]) (use g in \<open>auto intro: Q\<close>)
  qed (use that in \<open>auto intro: Q\<close>)
  show ?thesis
    unfolding check_registry_def always_ebind [of _ "found_map _ _"]
  proof (rule found_map_rule, goal_cases)
    case (2 h' e)
    then show ?case using after [of h' None] fresh by simp
  next
    case (3 h' m)
    then show ?case using after [of h' "Some m"] by simp
  qed (auto intro: Q)
qed

lemma gateway_registry_rule:
  assumes Q: "\<And>h' e. grows h h' \<Longrightarrow> Q h' (Inl e)" "\<And>h'. \<not> bootstrap \<Longrightarrow> grows h h' \<Longrightarrow> Q h' (Inr None)"
      "\<And>h' cm c. grows h h' \<Longrightarrow> registry_read r h' cm c \<Longrightarrow> Q h' (Inr (Some (cm, c)))"
  shows "always (claim_write r key w) (gateway_registry r bootstrap extra) Q h"
proof -
  let ?ns = "gb_namespace r"
  have last: "always (claim_write r key w) (klist g_secret ''Secret'' (Some ?ns) [(component_label, ''gateway'')]) (\<lambda>h2 x. case x of Inl e \<Rightarrow> Q h2 (Inl e)
      | Inr secrets \<Rightarrow> always (claim_write r key w) (check_registry r bootstrap (found_maps \<or> list_ex (\<lambda>b. gateway_status_evidence b ?ns) (bs @ extra)
           \<or> list_ex pod_evidence ps \<or> secrets \<noteq> []) ledgers (bs @ extra)) Q h2) h'"
    if "grows h h'" "(List ''NetworkBinding'' (Some ?ns) [], Items (map GBinding bs)) \<in> set h'" "(List ''Pod'' (Some ?ns) [], Items (map GPod ps)) \<in> set h'"
    for h' bs ps found_maps ledgers
  proof (rule klist_seen, goal_cases)
    case (3 h2 ys)
    then have g: "grows h h2" using that(1) by blast
    have none: "ys = []" if "List.map_filter g_secret ys = []" using items_decoded [of g_secret GSecret ys] 3(3) that by simp
    show ?case unfolding sum.case
    proof (rule check_registry_rule, goal_cases)
      case (1 h3 e)
      then have g3: "grows h' h3" "grows h2 h3" using 3(1) by blast+
      have "(List ''Secret'' (Some ?ns) [(component_label, ''gateway'')], Items []) \<in> set h3"
        using 1(1) none 3(2) grows_in [OF g3(2)] by auto
      with 1 that grows_in [OF g3(1)] show ?case unfolding fresh_site_def by auto
    qed (use g in \<open>auto intro: Q\<close>)
  qed (use that in \<open>auto intro: Q\<close>)
  have pods: "always (claim_write r key w) (klist g_pod ''Pod'' (Some ?ns) []) (\<lambda>h2 x. case x of Inl e \<Rightarrow> Q h2 (Inl e)
      | Inr ps \<Rightarrow> always (claim_write r key w) (ebind (klist g_secret ''Secret'' (Some ?ns) [(component_label, ''gateway'')]) (\<lambda>secrets.
          check_registry r bootstrap (found_maps \<or> list_ex (\<lambda>b. gateway_status_evidence b ?ns) (bs @ extra)
           \<or> list_ex pod_evidence ps \<or> secrets \<noteq> []) ledgers (bs @ extra))) Q h2) h'"
    if "grows h h'" "(List ''NetworkBinding'' (Some ?ns) [], Items (map GBinding bs)) \<in> set h'" for h' bs found_maps ledgers
  proof (rule klist_seen, goal_cases)
    case (3 h2 ys)
    have "ys = map GPod (List.map_filter g_pod ys)" using 3(3) by (intro items_decoded) simp_all
    then show ?case
      using 3(1,2) that grows_in [OF 3(1)] last [of h2 bs "List.map_filter g_pod ys" found_maps ledgers] by auto
  qed (use that in \<open>auto intro: Q\<close>)
  show ?thesis
    unfolding gateway_registry_def always_ebind [of _ "klist g_map _ _ _"] always_ebind [of _ "klist g_binding _ _ _"]
  proof (rule klist_seen, goal_cases)
    case (3 h1 ys)
    show ?case unfolding sum.case always_ebind [of _ "klist g_binding _ _ _"]
    proof (rule klist_seen, goal_cases)
      case (3 h2 zs)
      have "zs = map GBinding (List.map_filter g_binding zs)" using 3(3) by (intro items_decoded) simp_all
      moreover have "grows h h2" using 3(1) \<open>grows h h1\<close> by blast
      ultimately show ?case
        using 3(2) pods [of h2 "List.map_filter g_binding zs"] Q(1)
        by (auto simp: ebind_lift_res simp del: always_ebind simp: always_ebind [of _ "klist g_pod _ _ _"] split: sum.split)
    qed (use 3(1) in \<open>auto intro: Q\<close>)
  qed (auto intro: Q)
qed

lemma claim_once_rule:
  "always (claim_write r key w) (claim_once r key w) (\<lambda>h x. case x of Inl e \<Rightarrow> True | Inr v \<Rightarrow> claim_held r key w h v) h"
proof -
  have step: "always (claim_write r key w) (ebind (lift_res Errorf (make_claim r c key w)) (\<lambda>(result, c'). case c' of
           None \<Rightarrow> go result
         | Some c' \<Rightarrow> ebind (kdo (Update (GMap (store_registry cm (registry_of r c'))))) (\<lambda>_. go result)))
      (\<lambda>h x. case x of Inl e \<Rightarrow> True | Inr v \<Rightarrow> claim_held r key w h v) h'"
    if read: "registry_read r h' cm c" for h' cm c
  proof (cases "make_claim r c key w")
    case (Inr z)
    then obtain v c' where z: "make_claim r c key w = Inr (v, c')" by (cases z) auto
    show ?thesis
    proof (cases c')
      case None
      then show ?thesis using z read by (auto simp: ebind_lift_res claim_held_def)
    next
      case (Some d)
      let ?q = "Update (GMap (store_registry cm (registry_of r d)))"
      have "claim_write r key w h' ?q" using read z Some by auto
      moreover have "claim_held r key w (h' @ [(?q, y)]) v" if "\<And>e. y \<noteq> Failed e" for y
        using registry_read_mono [OF read, of "h' @ [(?q, y)]"] z Some that unfolding claim_held_def by auto
      ultimately show ?thesis using z Some by (auto simp: ebind_lift_res split: kresp.split)
    qed
  qed (simp add: ebind_lift_res)
  show ?thesis
    unfolding claim_once_def always_ebind [of _ "gateway_registry _ _ _"]
    by (rule gateway_registry_rule) (auto simp del: always_ebind intro: step)
qed

lemma retry_rule:
  assumes "\<And>h. always G p (\<lambda>h x. case x of Inl e \<Rightarrow> True | Inr v \<Rightarrow> P h v) h"
  shows "always G (retry_on_conflict n p) (\<lambda>h x. case x of Inl e \<Rightarrow> True | Inr v \<Rightarrow> P h v) h"
proof (induction n arbitrary: h)
  case (Suc n)
  show ?case
    unfolding retry_on_conflict.simps always_pbind
    by (rule always_mono [OF assms]) (use Suc in \<open>auto split: sum.splits\<close>)
qed (simp add: assms)

lemma gateway_allocate_run:
  "always (claim_write r key w) (gateway_allocate r n key w) (\<lambda>h x. case x of Inl e \<Rightarrow> True | Inr v \<Rightarrow> claim_held r key w h v) []"
  using retry_rule [OF claim_once_rule] by (simp add: gateway_allocate_def)

section \<open>A concrete site\<close>

definition ex_backend :: gateway_backend where
  "ex_backend = \<lparr>gb_namespace = ''n1'', gb_cluster_uid = ''u1'', gb_image = ''image'', gb_runtime_dir = ''/runtime'',
     gb_endpoint_annotation = [], gb_node_selector = [(''role'', ''gateway'')], gb_replicas = 2, gb_mtu = 1400, gb_allocation_pool = ''10.3.0.0/24'',
     gb_port_start = 20000, gb_port_end = 20100, gb_probe = True\<rparr>"

definition no_claims :: claims where
  "no_claims = \<lparr>ck_addresses = [], ck_ports = []\<rparr>"

lemma ex_gateway_pool: "gateway_pool ex_backend (Prefix (V4 0x0A030000) 24)"
proof -
  have "''10.3.0.0/24'' = v4_prefix_str 0x0A030000 24" "usable_net 0x0A030000 24" by (simp_all add: v4_text v4_classes)
  moreover have "\<not> overlaps (Prefix (V4 0x0A030000) 24) link_local_net"
    using overlaps_V4 [of 24 16 "0x0A030000" "0xA9FE0000"] by (simp add: link_local_net_def block_def)
  ultimately show ?thesis unfolding gateway_pool_def by (intro exI [of _ "0x0A030000"] exI [of _ 24]) (simp add: ex_backend_def)
qed

lemma ex_no_claims: "claims_ok ex_backend pool no_claims"
  by (simp add: claims_ok_def no_claims_def addresses_ok_def ports_ok_def)

lemma ex_claim: "make_claim ex_backend no_claims ''b/g/health'' WantAddress = Inr (''10.3.0.1'', Some (no_claims\<lparr>ck_addresses := [(''b/g/health'', ''10.3.0.1'')]\<rparr>))"
proof -
  have "parse_prefix (gb_allocation_pool ex_backend) = Some (Prefix (V4 0x0A030000) 24)" by (rule parse_pool [OF ex_gateway_pool])
  moreover have "free_address (Prefix (V4 0x0A030000) 24) [] (V4 0x0A030001) = Some (V4 0x0A030001)"
    by (subst free_address.simps) (simp add: is_valid_def contains_V4 block_def)
  ultimately show ?thesis by (simp add: make_claim_def claim_address_def no_claims_def addr_text_def v4_text)
qed

section \<open>Properties\<close>

text \<open>
  A new claim on a registry in order keeps it in order (every address a usable host of the pool and held by
  one claim, every port in range and held by one claim on its node), changes no claim that was there,
  and makes the asked-for claim with the returned value; the claim was not there before.
\<close>
theorem new_claim_extends:
  assumes "gateway_pool r pool" and "claims_ok r pool c" and "key \<noteq> []" and "want_ok w" and "make_claim r c key w = Inr (v, Some c')"
  shows "claims_ok r pool c' \<and> extends c c' \<and> value_of c key w = None \<and> value_of c' key w = Some v"
  by (rule make_claim_ok [OF assms])

theorem new_claim_extends_witness:
  "value_of (no_claims\<lparr>ck_addresses := [(''b/g/health'', ''10.3.0.1'')]\<rparr>) ''b/g/health'' WantAddress = Some ''10.3.0.1''"
  using new_claim_extends [OF ex_gateway_pool ex_no_claims _ _ ex_claim] by (simp add: want_ok_def)

text \<open>
  C31: a registry in order that was stored reads back without error as the same claims, the maps now sorted by key:
  JSON text, digest and all the checks of the reader agree.
\<close>
theorem registry_round_trip:
  assumes "claims_ok r pool c" and "site_prefix (gb_allocation_pool r) = Inr pool" and "ports_allowed r" and "ascii_claims r c"
    and "om_uid (cm_meta cm) \<noteq> []" and "mget (om_labels (cm_meta cm)) component_label = ''gateway-allocator''"
  shows "decode_registry r (store_registry cm (registry_of r c)) = Inr (read_back c)"
  by (rule store_decode [OF assms])

definition ex_registry_map :: config_map where
  "ex_registry_map = \<lparr>cm_meta = empty_meta\<lparr>om_uid := ''r'', om_labels := [(component_label, ''gateway-allocator'')]\<rparr>, cm_data = [], cm_immutable = None\<rparr>"

theorem registry_round_trip_witness:
  "decode_registry ex_backend (store_registry ex_registry_map (registry_of ex_backend (no_claims\<lparr>ck_addresses := [(''b/g/health'', ''10.3.0.1'')]\<rparr>)))
    = Inr (read_back (no_claims\<lparr>ck_addresses := [(''b/g/health'', ''10.3.0.1'')]\<rparr>))"
proof (rule registry_round_trip)
  show "claims_ok ex_backend (Prefix (V4 0x0A030000) 24) (no_claims\<lparr>ck_addresses := [(''b/g/health'', ''10.3.0.1'')]\<rparr>)"
    using make_claim_ok [OF ex_gateway_pool ex_no_claims _ _ ex_claim] by (simp add: want_ok_def)
  show "site_prefix (gb_allocation_pool ex_backend) = Inr (Prefix (V4 0x0A030000) 24)" by (rule site_pool [OF ex_gateway_pool])
qed (simp_all add: ports_allowed_def ascii_claims_def ex_backend_def no_claims_def ex_registry_map_def mget_def)

definition outcome_held :: "gateway_backend \<Rightarrow> string \<Rightarrow> wanted \<Rightarrow> ghist \<Rightarrow> err + string \<Rightarrow> bool" where
  "outcome_held r key w h x \<longleftrightarrow> (case x of Inl e \<Rightarrow> True | Inr v \<Rightarrow> claim_held r key w h v)"

text \<open>
  C11: for all answers of the API server and any number of retries, an allocation creates the registry or its
  anchor only after complete lists showed a namespace without a trace of gateways and no anchor (a lost
  registry is never begun again beside what it had granted), writes only a registry it has read, that
  decoded, extended by the asked-for claim, and returns a value only when the registry it has read holds
  it or the write that adds it was acknowledged.
\<close>
theorem gateway_allocate_contract:
  "every_step (claim_write r key w) (gateway_allocate r n key w) \<and> every_outcome (outcome_held r key w) (gateway_allocate r n key w)"
  unfolding outcome_held_def using every_stepI [OF gateway_allocate_run] every_outcomeI [OF gateway_allocate_run] by blast

end
