(* ===== verification/Gateway_Race.thy ===== *)
theory Gateway_Race
  imports Gateway_Registry_Laws
begin

text \<open>
  Any number of allocations of one site running at once: restarted processes, a former leader, the passes over
  different bindings. The API server keeps the registry with optimistic concurrency: an update takes effect
  only with the resource version of what is stored, every stored version gets a fresh one, and the answer
  to a write may be lost. Every allocation is the program \<open>gateway_allocate\<close> itself. Nobody else writes the
  registry; what it holds at the beginning is arbitrary, and it may be missing.
\<close>

section \<open>Claims that are apart\<close>

text \<open>
  What the checks of the reader say about two claims, without what they say about each: a pool may contain
  addresses that the reader refuses, and then a claim that was granted makes the registry unreadable.
\<close>

definition apart :: "claims \<Rightarrow> bool" where
  "apart c \<longleftrightarrow> distinct (map fst (ck_addresses c)) \<and> distinct (map fst (ck_ports c)) \<and> distinct (map snd (ck_addresses c))
     \<and> distinct (map (\<lambda>(k, v). port_identity (node_of k) v) (ck_ports c))"

lemma claims_apart: "claims_ok r pool c \<Longrightarrow> apart c"
  by (simp add: apart_def claims_ok_def addresses_ok_def ports_ok_def)

lemma apart_no_claims [simp]: "apart no_claims" and extends_no_claims [simp]: "extends no_claims c"
  by (simp_all add: apart_def no_claims_def extends_def)

lemma apart_unique:
  assumes "apart c" and "want_ok w" and "value_of c k w = Some v" and "value_of c k' w = Some v"
  shows "k = k'"
proof (cases w)
  case WantAddress
  then have "(k, v) \<in> set (ck_addresses c)" "(k', v) \<in> set (ck_addresses c)"
    using assms(3,4) by (auto simp: value_of_def dest: map_of_SomeD)
  moreover have "inj_on snd (set (ck_addresses c))" using assms(1) by (simp add: apart_def distinct_map)
  ultimately show ?thesis using inj_onD [of snd "set (ck_addresses c)" "(k, v)" "(k', v)"] by auto
next
  case (WantPort node)
  then obtain m n where e: "(node @ ''/'' @ k, m) \<in> set (ck_ports c)" "(node @ ''/'' @ k', n) \<in> set (ck_ports c)" "int_str m = v" "int_str n = v"
    using assms(3,4) by (auto simp: value_of_def dest!: map_of_SomeD)
  moreover have "CHR ''/'' \<notin> set node" using assms(2) WantPort by (simp add: want_ok_def)
  moreover have "inj_on (\<lambda>(k, v). port_identity (node_of k) v) (set (ck_ports c))"
    using assms(1) by (simp add: apart_def distinct_map)
  ultimately show ?thesis
    using inj_onD [of "\<lambda>(k, v). port_identity (node_of k) v" "set (ck_ports c)" "(node @ ''/'' @ k, m)" "(node @ ''/'' @ k', n)"]
    by (auto simp: port_identity_def)
qed

lemma extends_read_back: "apart c \<Longrightarrow> extends c (read_back c) \<and> extends (read_back c) c"
  by (simp add: apart_def extends_def read_back_def)

text \<open>One claim added to a registry that decoded, whatever its pool contains.\<close>

definition ascii_want :: "wanted \<Rightarrow> bool" where
  "ascii_want w \<longleftrightarrow> (case w of WantAddress \<Rightarrow> True | WantPort node \<Rightarrow> ascii node)"

lemma new_address:
  assumes "site_prefix (gb_allocation_pool r) = Inr pool" and "claims_ok r pool c" and "claim_address r c key = Inr (v, Some c')"
  shows "c' = c\<lparr>ck_addresses := ck_addresses c @ [(key, v)]\<rparr> \<and> v \<notin> snd ` set (ck_addresses c) \<and> key \<notin> fst ` set (ck_addresses c) \<and> ascii v"
proof -
  from assms(1) obtain w b where w: "pool = Prefix (V4 w) (int b)" "gb_allocation_pool r = v4_prefix_str w b" "usable_net w b"
    by (rule site_prefixE)
  then have "parse_prefix (gb_allocation_pool r) = Some pool" by (simp add: usable_net_def)
  with assms(3) obtain ip where ip: "free_address pool (map snd (ck_addresses c)) (addr_next (p_addr pool)) = Some ip"
    and v: "v = addr_text ip" "c' = c\<lparr>ck_addresses := mput key v (ck_addresses c)\<rparr>" and fresh: "map_of (ck_addresses c) key = None"
    by (auto simp: claim_address_def split: option.splits)
  then have "free_bfd pool (map snd (ck_addresses c)) = Some ip" using free_address_first [OF w(3)] by (simp add: w(1))
  then have "v \<notin> snd ` set (ck_addresses c) \<and> ascii v"
    using v(1) w(1) by (force simp: free_bfd_def ip_at_def addr_text_def dest!: find_Some_free)
  with v(2) fresh show ?thesis by (simp add: map_of_eq_None_iff set_mput_new)
qed

lemma new_claim:
  assumes "decode_registry r cm = Inr c" and "ascii_claims r c" and "key \<noteq> []" "want_ok w" "ascii key" "ascii_want w"
    and "make_claim r c key w = Inr (v, Some c')"
  shows "apart c' \<and> extends c c' \<and> value_of c' key w = Some v \<and> readable r c'"
proof -
  obtain pool where pool: "site_prefix (gb_allocation_pool r) = Inr pool" "claims_ok r pool c" using assms(1) by (rule decode_registry_ok)
  have ports: "ports_allowed r" using assms(1) by (simp add: decode_registry_iff)
  have old: "apart c" "readable r c" using claims_apart [OF pool(2)] claims_readable [OF pool(2) ports assms(2)] by simp_all
  show ?thesis
  proof (cases w)
    case WantAddress
    then have "claim_address r c key = Inr (v, Some c')" using assms(7) by (simp add: make_claim_def)
    from new_address [OF pool this] old assms(5) show ?thesis
      by (auto simp: WantAddress apart_def readable_def ascii_claims_def value_of_def extends_def map_le_def map_add_def dom_map_of_fst [symmetric] split: option.splits)
  next
    case (WantPort node)
    then have "claim_port r c node key = Inr (v, Some c')" "node \<noteq> []" "CHR ''/'' \<notin> set node"
      using assms(4,7) by (simp_all add: make_claim_def want_ok_def)
    from claim_port_ok [OF pool(2) assms(3) this(2,3,1)] obtain n where
      c': "claims_ok r pool c'" "v = int_str n" "c' = c\<lparr>ck_ports := ck_ports c @ [(node @ ''/'' @ key, n)]\<rparr>" "node @ ''/'' @ key \<notin> fst ` set (ck_ports c)"
      by blast
    have "ascii_claims r c'" using assms(2,5,6) by (simp add: c'(3) WantPort ascii_want_def ascii_claims_def)
    with c' claims_apart [OF c'(1)] claims_readable [OF c'(1) ports] show ?thesis
      by (auto simp: WantPort value_of_def extends_def map_le_def map_add_def dom_map_of_fst [symmetric] split: option.splits)
  qed
qed

section \<open>The API server\<close>

definition map_version :: "config_map \<Rightarrow> string" where
  "map_version m = om_resource_version (cm_meta m)"

definition map_revised :: "string \<Rightarrow> config_map \<Rightarrow> config_map" where
  "map_revised v m = m\<lparr>cm_meta := (cm_meta m)\<lparr>om_resource_version := v\<rparr>\<rparr>"

definition with_uid :: "string \<Rightarrow> config_map \<Rightarrow> config_map" where
  "with_uid u m = m\<lparr>cm_meta := (cm_meta m)\<lparr>om_uid := u\<rparr>\<rparr>"

definition is_registry :: "gateway_backend \<Rightarrow> config_map \<Rightarrow> bool" where
  "is_registry r m \<longleftrightarrow> om_namespace (cm_meta m) = gb_namespace r \<and> om_name (cm_meta m) = gateway_registry_name"

abbreviation get_registry :: "gateway_backend \<Rightarrow> gobj kreq" where
  "get_registry r \<equiv> Get ''ConfigMap'' (gb_namespace r) gateway_registry_name"

fun touches_registry :: "gateway_backend \<Rightarrow> gobj kreq \<Rightarrow> bool" where
  "touches_registry r (Create (GMap m)) = is_registry r m"
| "touches_registry r (Update (GMap m)) = is_registry r m"
| "touches_registry r q = (q = get_registry r)"

text \<open>Every version that was stored, the newest first.\<close>

type_synonym versions = "config_map list"

definition new_version :: "string \<Rightarrow> versions \<Rightarrow> bool" where
  "new_version v log \<longleftrightarrow> v \<notin> set (map map_version log)"

inductive registry_serves :: "gateway_backend \<Rightarrow> versions \<Rightarrow> gobj kreq \<Rightarrow> gobj kresp \<Rightarrow> versions \<Rightarrow> bool" for r where
  present: "registry_serves r (m # log) (get_registry r) (Obj (GMap m)) (m # log)"
| absent: "is_not_found e \<Longrightarrow> registry_serves r [] (get_registry r) (Failed e) []"
| unread: "\<not> is_not_found e \<Longrightarrow> registry_serves r log (get_registry r) (Failed e) log"
| made: "is_registry r m \<Longrightarrow> y = Obj (GMap (map_revised v (with_uid u m))) \<or> y = Failed e
    \<Longrightarrow> registry_serves r [] (Create (GMap m)) y [map_revised v (with_uid u m)]"
| denied: "is_registry r m \<Longrightarrow> registry_serves r log (Create (GMap m)) (Failed e) log"
| swapped: "is_registry r m \<Longrightarrow> map_version m = map_version cur \<Longrightarrow> new_version v (cur # log)
    \<Longrightarrow> registry_serves r (cur # log) (Update (GMap m)) y (map_revised v m # cur # log)"
| outdated: "is_registry r m \<Longrightarrow> registry_serves r log (Update (GMap m)) (Failed e) log"
| others: "\<not> touches_registry r q \<Longrightarrow> registry_serves r log q y log"

section \<open>The race\<close>

text \<open>An allocation: what it is asked for, what it still does, and its history. One that crashed takes no further step.\<close>

type_synonym allocation_run = "string \<times> wanted \<times> (gobj, err + string) kprog \<times> ghist"

record race =
  rc_log :: versions
  rc_runs :: "allocation_run list"

inductive race_step :: "gateway_backend \<Rightarrow> race \<Rightarrow> race \<Rightarrow> bool" for r where
  begins: "ascii key \<Longrightarrow> ascii_want w \<Longrightarrow> race_step r s (s\<lparr>rc_runs := rc_runs s @ [(key, w, gateway_allocate r n key w, [])]\<rparr>)"
| calls: "rc_runs s = earlier @ (key, w, Call q k, h) # later_on \<Longrightarrow> registry_serves r (rc_log s) q y log
    \<Longrightarrow> race_step r s \<lparr>rc_log = log, rc_runs = earlier @ (key, w, k y, h @ [(q, y)]) # later_on\<rparr>"

definition race_start :: "gateway_backend \<Rightarrow> race \<Rightarrow> bool" where
  "race_start r s \<longleftrightarrow> rc_runs s = [] \<and> ascii (gb_cluster_uid r) \<and> (rc_log s = [] \<or> (\<exists>m. rc_log s = [m] \<and> is_registry r m
     \<and> (\<forall>c. decode_registry r m = Inr c \<longrightarrow> ascii_claims r c)))"

inductive race_reach :: "gateway_backend \<Rightarrow> race \<Rightarrow> bool" for r where
  race_starts: "race_start r s \<Longrightarrow> race_reach r s"
| race_goes: "race_reach r s \<Longrightarrow> race_step r s s' \<Longrightarrow> race_reach r s'"

definition granted :: "race \<Rightarrow> string \<Rightarrow> wanted \<Rightarrow> string \<Rightarrow> bool" where
  "granted s key w v \<longleftrightarrow> (\<exists>h. (key, w, Ret (Inr v), h) \<in> set (rc_runs s))"

text \<open>
  What was returned for one kind of claim is the same value exactly for the same key, and stays in the
  registry as long as that can be read.
\<close>

definition grants_unique :: "gateway_backend \<Rightarrow> race \<Rightarrow> bool" where
  "grants_unique r s \<longleftrightarrow> (\<forall>k k' w v v'. granted s k w v \<and> granted s k' w v' \<longrightarrow> (k = k' \<longleftrightarrow> v = v'))
     \<and> (\<forall>k w v m log c. granted s k w v \<and> rc_log s = m # log \<and> decode_registry r m = Inr c \<longrightarrow> value_of c k w = Some v)"

section \<open>The invariant\<close>

definition claim_guard :: "gateway_backend \<Rightarrow> string \<Rightarrow> wanted \<Rightarrow> ghist \<Rightarrow> gobj kreq \<Rightarrow> bool" where
  "claim_guard r key w h q \<longleftrightarrow> claim_write r key w h q \<and> key \<noteq> [] \<and> want_ok w"

definition claim_result :: "gateway_backend \<Rightarrow> string \<Rightarrow> wanted \<Rightarrow> ghist \<Rightarrow> err + string \<Rightarrow> bool" where
  "claim_result r key w h x \<longleftrightarrow> (\<forall>v. x = Inr v \<longrightarrow> key \<noteq> [] \<and> want_ok w \<and> claim_held r key w h v)"

text \<open>What an allocation has read was stored, and what it added and was acknowledged is among the claims \<open>C\<close>.\<close>

definition reads_stored :: "gateway_backend \<Rightarrow> versions \<Rightarrow> ghist \<Rightarrow> bool" where
  "reads_stored r log h \<longleftrightarrow> (\<forall>q m. asks_registry r q \<and> (q, Obj (GMap m)) \<in> set h \<longrightarrow> m \<in> set log)"

definition add_kept :: "gateway_backend \<Rightarrow> claims \<Rightarrow> string \<Rightarrow> wanted \<Rightarrow> gobj kreq \<Rightarrow> gobj kresp \<Rightarrow> bool" where
  "add_kept r C key w q y \<longleftrightarrow> (\<forall>cm c v c'. decode_registry r cm = Inr c \<and> ascii_claims r c \<and> make_claim r c key w = Inr (v, Some c')
     \<and> q = Update (GMap (store_registry cm (registry_of r c'))) \<and> (\<forall>e. y \<noteq> Failed e) \<longrightarrow> extends c' C)"

definition adds_kept :: "gateway_backend \<Rightarrow> claims \<Rightarrow> string \<Rightarrow> wanted \<Rightarrow> ghist \<Rightarrow> bool" where
  "adds_kept r C key w h \<longleftrightarrow> (\<forall>(q, y)\<in>set h. add_kept r C key w q y)"

fun run_ok :: "gateway_backend \<Rightarrow> versions \<Rightarrow> claims \<Rightarrow> allocation_run \<Rightarrow> bool" where
  "run_ok r log C (key, w, p, h) \<longleftrightarrow> ascii key \<and> ascii_want w \<and> always (claim_guard r key w) p (claim_result r key w) h
     \<and> reads_stored r log h \<and> adds_kept r C key w h"

definition log_ok :: "gateway_backend \<Rightarrow> versions \<Rightarrow> claims \<Rightarrow> bool" where
  "log_ok r log C \<longleftrightarrow> ascii (gb_cluster_uid r) \<and> distinct (map map_version log) \<and> (\<forall>m\<in>set log. is_registry r m) \<and> apart C \<and> (log = [] \<longrightarrow> C = no_claims)
     \<and> (\<forall>m\<in>set log. \<forall>c. decode_registry r m = Inr c \<longrightarrow> extends c C \<and> ascii_claims r c)
     \<and> (\<forall>m rest c. log = m # rest \<and> decode_registry r m = Inr c \<longrightarrow> extends C c)"

definition race_ok :: "gateway_backend \<Rightarrow> race \<Rightarrow> claims \<Rightarrow> bool" where
  "race_ok r s C \<longleftrightarrow> log_ok r (rc_log s) C \<and> (\<forall>a\<in>set (rc_runs s). run_ok r (rc_log s) C a)"

lemma adds_kept_mono: "adds_kept r C key w h \<Longrightarrow> extends C C' \<Longrightarrow> adds_kept r C' key w h"
  by (fastforce simp: adds_kept_def add_kept_def intro: extends_trans)

lemma adds_kept_append [simp]: "adds_kept r C key w (h @ [(q, y)]) \<longleftrightarrow> adds_kept r C key w h \<and> add_kept r C key w q y"
  by (auto simp: adds_kept_def)

lemma run_ok_mono: "run_ok r log C a \<Longrightarrow> set log \<subseteq> set log' \<Longrightarrow> extends C C' \<Longrightarrow> run_ok r log' C' a"
  by (cases a) (auto simp: reads_stored_def intro: adds_kept_mono)

lemma allocation_run_ok:
  "always (claim_guard r key w) (gateway_allocate r n key w) (claim_result r key w) []"
proof (cases "key \<noteq> [] \<and> want_ok w")
  case True
  then show ?thesis
    by (intro always_mono [OF gateway_allocate_run [of r key w n]]) (auto simp: claim_guard_def claim_result_def)
next
  case False
  then have "gateway_allocate r n key w = leave (Errorf ''gateway allocation identity is empty or invalid'')"
    by (auto simp: gateway_allocate_def want_ok_def split: wanted.splits)
  then show ?thesis by (simp add: claim_result_def)
qed

lemma decode_revised [simp]: "decode_registry r (map_revised v m) = decode_registry r m" "is_registry r (map_revised v m) = is_registry r m"
  "map_version (map_revised v m) = v" "is_registry r (with_uid u m) = is_registry r m" "is_registry r (store_registry m x) = is_registry r m"
  "map_version (store_registry m x) = map_version m"
  by (simp_all add: decode_registry_def map_revised_def is_registry_def map_version_def with_uid_def store_registry_def Let_def map_version_def)

lemma ascii_read_back [simp]: "ascii_claims r (read_back c) = ascii_claims r c"
  by (simp add: ascii_claims_def read_back_def list_all_iff)

lemma made_decodes:
  assumes "ascii (gb_cluster_uid r)" and "decode_registry r (with_uid u (new_registry r)) = Inr d"
  shows "d = no_claims"
proof -
  have "with_uid u (new_registry r) = store_registry (with_uid u \<lparr>cm_meta = empty_meta\<lparr>om_name := gateway_registry_name, om_namespace := gb_namespace r,
       om_labels := [(component_label, ''gateway-allocator'')]\<rparr>, cm_data = [], cm_immutable = None\<rparr>) (registry_of r no_claims)"
    by (simp add: new_registry_def with_uid_def store_registry_def Let_def registry_of_def no_claims_def)
  moreover have "readable r no_claims" using assms(1) by (simp add: readable_def ascii_claims_def no_claims_def)
  ultimately have "d = read_back no_claims" using assms(2) store_decoded by metis
  then show ?thesis by (simp add: read_back_def no_claims_def sort_slice_def)
qed

lemma adds_other: "(\<And>m. q = Update (GMap m) \<Longrightarrow> \<exists>e. y = Failed e) \<Longrightarrow> add_kept r C key w q y"
  unfolding add_kept_def by blast

text \<open>The step that matters: an update is accepted.\<close>

lemma swap_ok:
  assumes log: "log_ok r (cur # log) C" and run: "reads_stored r (cur # log) h" "adds_kept r C key w h" "ascii key" "ascii_want w"
    and guard: "claim_guard r key w h (Update (GMap m))" and m: "map_version m = map_version cur" "new_version v (cur # log)"
  shows "\<exists>C'. extends C C' \<and> log_ok r (map_revised v m # cur # log) C' \<and> adds_kept r C' key w (h @ [(Update (GMap m), y)])"
proof -
  from guard obtain cm c x c' where cm: "registry_read r h cm c" "make_claim r c key w = Inr (x, Some c')" "m = store_registry cm (registry_of r c')"
    and key: "key \<noteq> []" "want_ok w" by (auto simp: claim_guard_def)
  have "cm \<in> set (cur # log)" using cm(1) run(1) by (auto simp: registry_read_def reads_stored_def)
  moreover have "map_version cm = map_version cur" using m(1) by (simp add: cm(3))
  ultimately have eq: "cm = cur" using log by (auto simp: log_ok_def image_iff)
  then have cur: "decode_registry r cur = Inr c" using cm(1) by (simp add: registry_read_def)
  with log have c: "extends c C" "extends C c" "ascii_claims r c" "is_registry r cur" by (auto simp: log_ok_def)
  have new: "apart c'" "extends c c'" "readable r c'" using new_claim [OF cur c(3) key run(3,4) cm(2)] by simp_all
  have ext: "extends C c'" using c(2) new(2) by (rule extends_trans)
  have same: "extends c' (read_back c')" "extends (read_back c') c'" using extends_read_back [OF new(1)] by simp_all
  have "d = read_back c'" if "decode_registry r (map_revised v m) = Inr d" for d
    using store_decoded [OF new(3)] that by (simp add: cm(3))
  then have "log_ok r (map_revised v m # cur # log) c'"
    using log m new(1,3) c(4) same ext unfolding log_ok_def
    by (auto simp: new_version_def cm(3) eq readable_def intro: extends_trans [OF _ ext])
  moreover have "extends c2' c'" if "decode_registry r cm2 = Inr c2" "ascii_claims r c2" "make_claim r c2 key w = Inr (v2, Some c2')"
    "store_registry cm2 (registry_of r c2') = m" for cm2 c2 v2 c2'
  proof -
    have c2: "readable r c2'" "apart c2'" using new_claim [OF that(1,2) key run(3,4) that(3)] by simp_all
    have "cm_data (store_registry cm2 (registry_of r c2')) = cm_data (store_registry cm (registry_of r c'))" using that(4) by (simp add: cm(3))
    then have "json_enc (registry_json (registry_of r c2')) = json_enc (registry_json (registry_of r c'))" by (simp add: store_registry_def Let_def)
    then have "read_back c2' = read_back c'"
      using store_body [OF c2(1)] store_body [OF new(3)] by (simp add: registry_of_inject)
    then show ?thesis using extends_read_back [OF c2(2)] same(2) by (auto intro: extends_trans)
  qed
  then have "add_kept r c' key w (Update (GMap m)) y"
    unfolding add_kept_def by blast
  ultimately show ?thesis using ext adds_kept_mono [OF run(2) ext] by (intro exI [of _ c']) simp
qed

lemma reads_more:
  assumes "reads_stored r log h" and "set log \<subseteq> set log'" and "\<And>m. asks_registry r q \<Longrightarrow> y = Obj (GMap m) \<Longrightarrow> m \<in> set log'"
  shows "reads_stored r log' (h @ [(q, y)])"
  using assms by (auto simp: reads_stored_def)

lemma touches_asked: "asks_registry r q \<Longrightarrow> touches_registry r q"
  by (auto simp: asks_registry_def is_registry_def new_registry_def store_registry_def Let_def)

lemma store_untouched: "reads_stored r log h \<Longrightarrow> log_ok r log C \<Longrightarrow> claim_guard r key w h (Update (GMap m)) \<Longrightarrow> is_registry r m"
  by (auto simp: claim_guard_def reads_stored_def log_ok_def registry_read_def)

lemma made_new:
  assumes "claim_guard r key w h (Create (GMap m))" and "is_registry r m"
  shows "m = new_registry r"
  using assms by (auto simp: claim_guard_def is_registry_def new_registry_identity_def gateway_registry_name_def gateway_registry_identity_name_def)

lemma race_serves_ok:
  assumes "registry_serves r log q y log'" and log: "log_ok r log C" and run: "reads_stored r log h" "adds_kept r C key w h" "ascii key" "ascii_want w"
    and guard: "claim_guard r key w h q"
  shows "\<exists>C'. extends C C' \<and> set log \<subseteq> set log' \<and> log_ok r log' C' \<and> reads_stored r log' (h @ [(q, y)]) \<and> adds_kept r C' key w (h @ [(q, y)])"
  using assms(1)
proof cases
  case (made m v u e)
  have m: "m = new_registry r" using made_new guard made by blast
  have C: "C = no_claims" using log made by (simp add: log_ok_def)
  have d: "d = no_claims" if "decode_registry r (with_uid u m) = Inr d" for d
    using made_decodes [of r u d] that log by (auto simp: m log_ok_def)
  have "log_ok r log' C"
    using log made C by (auto simp: log_ok_def ascii_claims_def no_claims_def dest!: d)
  moreover have "reads_stored r log' (h @ [(q, y)])"
    using run(1) made by (intro reads_more) auto
  moreover have "add_kept r C key w q y" using made by (intro adds_other) simp
  ultimately show ?thesis using made run(2) by (intro exI [of _ C]) simp
next
  case (swapped m cur v log0)
  with swap_ok [OF log [unfolded swapped(1)] run(1) [unfolded swapped(1)] run(2-4), of m v y] guard obtain C' where
    "extends C C'" "log_ok r log' C'" "adds_kept r C' key w (h @ [(q, y)])" by auto
  moreover have "reads_stored r log' (h @ [(q, y)])"
    using run(1) swapped by (intro reads_more) (auto simp: asks_registry_def)
  ultimately show ?thesis using swapped by auto
next
  case others
  have "is_registry r m" if "q = Update (GMap m)" for m
    using store_untouched [OF run(1) log] guard that by simp
  then have "add_kept r C key w q y" using others by (intro adds_other) auto
  moreover have "reads_stored r log' (h @ [(q, y)])" using others run(1) touches_asked by (intro reads_more) auto
  ultimately show ?thesis using others log run(2) by (intro exI [of _ C]) simp
qed (use log run in \<open>auto intro!: exI [of _ C] adds_other reads_more\<close>)

lemma race_step_ok:
  assumes "race_step r s s'" and "race_ok r s C"
  shows "\<exists>C'. race_ok r s' C'"
  using assms(1)
proof cases
  case (begins key w n)
  have "run_ok r (rc_log s) C (key, w, gateway_allocate r n key w, [])"
    using begins allocation_run_ok by (simp add: reads_stored_def adds_kept_def)
  then show ?thesis using begins assms(2) by (intro exI [of _ C]) (simp add: race_ok_def)
next
  case (calls earlier key w q k h later_on y log)
  have log: "log_ok r (rc_log s) C" and run: "run_ok r (rc_log s) C (key, w, Call q k, h)" using assms(2) calls by (simp_all add: race_ok_def)
  then obtain C' where C': "extends C C'" "set (rc_log s) \<subseteq> set log" "log_ok r log C'" "reads_stored r log (h @ [(q, y)])" "adds_kept r C' key w (h @ [(q, y)])"
    using race_serves_ok [OF calls(3) log, of h key w] by auto
  have "run_ok r log C' (key, w, k y, h @ [(q, y)])" using run C' by simp
  moreover have "run_ok r log C' a" if "a \<in> set earlier \<union> set later_on" for a
    using that assms(2) calls run_ok_mono [OF _ C'(2,1)] by (auto simp: race_ok_def simp del: run_ok.simps)
  ultimately show ?thesis using C'(3) calls by (intro exI [of _ C']) (auto simp: race_ok_def simp del: run_ok.simps)
qed

lemma race_start_ok: "race_start r s \<Longrightarrow> \<exists>C. race_ok r s C"
proof -
  assume start: "race_start r s"
  show ?thesis
  proof (cases "\<exists>m c. rc_log s = [m] \<and> decode_registry r m = Inr c")
    case True
    then obtain m c where m: "rc_log s = [m]" "decode_registry r m = Inr c" by blast
    then have "apart c" using decode_registry_ok claims_apart by metis
    with m start show ?thesis by (intro exI [of _ c]) (auto simp: race_ok_def log_ok_def race_start_def)
  next
    case False
    with start show ?thesis by (intro exI [of _ no_claims]) (auto simp: race_ok_def log_ok_def race_start_def)
  qed
qed

lemma race_reach_ok: "race_reach r s \<Longrightarrow> \<exists>C. race_ok r s C"
  by (induction rule: race_reach.induct) (use race_step_ok race_start_ok in blast)+

lemma granted_kept:
  assumes "race_ok r s C" and "granted s key w v"
  shows "want_ok w \<and> value_of C key w = Some v"
proof -
  from assms obtain h where "run_ok r (rc_log s) C (key, w, Ret (Inr v), h)" and log: "log_ok r (rc_log s) C"
    by (auto simp: granted_def race_ok_def simp del: run_ok.simps)
  then have run: "key \<noteq> []" "want_ok w" "claim_held r key w h v" "reads_stored r (rc_log s) h" "adds_kept r C key w h" "ascii key" "ascii_want w"
    by (auto simp: claim_result_def)
  from run(3) obtain cm c where cm: "registry_read r h cm c" and how: "make_claim r c key w = Inr (v, None)
     \<or> (\<exists>c' y. make_claim r c key w = Inr (v, Some c') \<and> (Update (GMap (store_registry cm (registry_of r c'))), y) \<in> set h \<and> (\<forall>e. y \<noteq> Failed e))"
    by (auto simp: claim_held_def)
  have c: "decode_registry r cm = Inr c" "extends c C" "ascii_claims r c"
    using cm run(4) log by (auto simp: registry_read_def reads_stored_def log_ok_def)
  from how show ?thesis
  proof (elim disjE exE conjE)
    fix c' y
    assume c': "make_claim r c key w = Inr (v, Some c')" "(Update (GMap (store_registry cm (registry_of r c'))), y) \<in> set h" "\<forall>e. y \<noteq> Failed e"
    then have "extends c' C" using run(5) c unfolding adds_kept_def add_kept_def by blast
    moreover have "value_of c' key w = Some v" using new_claim [OF c(1,3) run(1,2,6,7) c'(1)] by simp
    ultimately show ?thesis using run(2) extends_value by blast
  qed (use make_claim_existing extends_value [OF c(2)] run(2) in blast)
qed

section \<open>A concrete race\<close>

text \<open>An allocation that is answered by the server, one answer after the other.\<close>

inductive driven :: "gateway_backend \<Rightarrow> versions \<Rightarrow> (gobj, 'a) kprog \<Rightarrow> gobj kresp list \<Rightarrow> versions \<Rightarrow> (gobj, 'a) kprog \<Rightarrow> bool" for r where
  driven_none: "driven r log p [] log p"
| driven_more: "registry_serves r log q y log1 \<Longrightarrow> driven r log1 (k y) ys log' p' \<Longrightarrow> driven r log (Call q k) (y # ys) log' p'"

inductive_simps driven_simps: "driven r log p [] log' p'" "driven r log (Call q k) (y # ys) log' p'"

lemma race_driven:
  assumes "driven r log p ys log' p'" and "race_reach r \<lparr>rc_log = log, rc_runs = earlier @ (key, w, p, h) # later_on\<rparr>"
  shows "\<exists>h'. race_reach r \<lparr>rc_log = log', rc_runs = earlier @ (key, w, p', h') # later_on\<rparr>"
  using assms
proof (induction arbitrary: h)
  case (driven_more log q y log1 k ys log' p')
  then have "race_reach r \<lparr>rc_log = log1, rc_runs = earlier @ (key, w, k y, h @ [(q, y)]) # later_on\<rparr>"
    using race_goes [OF driven_more.prems calls [OF _ _, where log = log1]] by force
  then show ?case by (rule driven_more.IH)
qed blast

lemma serves_list [simp]: "registry_serves r log (List kind ns labels) y log' \<longleftrightarrow> log' = log"
  by (auto elim: registry_serves.cases intro: others)

lemma serves_other_get [simp]: "name \<noteq> gateway_registry_name \<Longrightarrow> registry_serves r log (Get kind ns name) y log' \<longleftrightarrow> log' = log"
  by (auto elim: registry_serves.cases intro: others)

lemma serves_present [simp]: "registry_serves r (m # log) (get_registry r) (Obj (GMap m)) log' \<longleftrightarrow> log' = m # log"
  by (auto elim: registry_serves.cases intro: present)

lemma identity_name [simp]: "gateway_registry_identity_name \<noteq> gateway_registry_name"
  by (simp add: gateway_registry_identity_name_def gateway_registry_name_def)

text \<open>An allocation of a new claim reads everything and is about to write.\<close>

lemma claim_reads:
  assumes "decode_registry r cm = Inr c" and "registry_identity_ok r cm i" and "make_claim r c key w = Inr (v, Some c')"
  shows "driven r (cm # log) (pbind (claim_once r key w) f) [Items [], Items [], Items [], Items [], Obj (GMap i), Obj (GMap cm)] (cm # log)
    (pbind (ebind (kdo (Update (GMap (store_registry cm (registry_of r c'))))) (\<lambda>_. go v)) f)"
  using assms
  by (simp add: claim_once_def gateway_registry_def klist_def kget_def ebind_def check_registry_def found_map_def registry_map_def confirm_registry_def
    registry_identity_def published_ok_def driven_simps List.map_filter_simps lift_res_def gateway_status_evidence_def)

abbreviation retry_tail :: "nat \<Rightarrow> ('o, err + 'a) kprog \<Rightarrow> err + 'a \<Rightarrow> ('o, err + 'a) kprog" where
  "retry_tail n p x \<equiv> case x of Inl e \<Rightarrow> if is_conflict e then retry_on_conflict n p else leave e | Inr a \<Rightarrow> go a"

lemma claim_writes:
  assumes "is_registry r cm" and "new_version v' (cm # log)"
  shows "driven r (cm # log) (pbind (ebind (kdo (Update (GMap (store_registry cm x)))) (\<lambda>_. go v)) (retry_tail n p)) [Obj (GMap cm)]
    (map_revised v' (store_registry cm x) # cm # log) (Ret (Inr v))"
proof -
  have "registry_serves r (cm # log) (Update (GMap (store_registry cm x))) (Obj (GMap cm)) (map_revised v' (store_registry cm x) # cm # log)"
    using assms by (intro swapped) simp_all
  then show ?thesis by (auto simp: kdo_def ebind_def driven_simps)
qed

lemma claim_outdated:
  assumes "is_registry r cm"
  shows "driven r log (pbind (ebind (kdo (Update (GMap (store_registry cm x)))) (\<lambda>_. go v)) (retry_tail n p)) [Failed (Conflict [])]
    log (retry_on_conflict n p)"
proof -
  have "registry_serves r log (Update (GMap (store_registry cm x))) (Failed (Conflict [])) log"
    using assms by (intro outdated) simp
  then show ?thesis by (auto simp: kdo_def ebind_def driven_simps)
qed

definition ex_stored :: config_map where
  "ex_stored = map_revised ''1'' (with_uid ''r1'' (new_registry ex_backend))"

definition ex_anchor :: config_map where
  "ex_anchor = with_uid ''i1'' (new_registry_identity ex_backend ex_stored)"

definition one_address :: "string \<Rightarrow> claims" where
  "one_address key = no_claims\<lparr>ck_addresses := [(key, ''10.3.0.1'')]\<rparr>"

definition two_addresses :: claims where
  "two_addresses = no_claims\<lparr>ck_addresses := [(''b/g/health'', ''10.3.0.1''), (''b/h/health'', ''10.3.0.2'')]\<rparr>"

definition ex_second :: config_map where
  "ex_second = map_revised ''2'' (store_registry ex_stored (registry_of ex_backend (one_address ''b/g/health'')))"

lemma ex_registry_meta: "om_uid (cm_meta (map_revised v m)) = om_uid (cm_meta m)" "om_labels (cm_meta (map_revised v m)) = om_labels (cm_meta m)"
  "om_uid (cm_meta (store_registry m x)) = om_uid (cm_meta m)" "om_labels (cm_meta (store_registry m x)) = om_labels (cm_meta m)"
  "om_uid (cm_meta (with_uid u m)) = u" "om_labels (cm_meta (with_uid u m)) = om_labels (cm_meta m)"
  by (simp_all add: map_revised_def store_registry_def with_uid_def Let_def)

lemma ex_first_claim: "make_claim ex_backend no_claims key WantAddress = Inr (''10.3.0.1'', Some (one_address key))"
proof -
  have "parse_prefix (gb_allocation_pool ex_backend) = Some (Prefix (V4 0x0A030000) 24)" by (rule parse_pool [OF ex_gateway_pool])
  moreover have "free_address (Prefix (V4 0x0A030000) 24) [] (V4 0x0A030001) = Some (V4 0x0A030001)"
    by (subst free_address.simps) (simp add: is_valid_def contains_V4 block_def)
  ultimately show ?thesis by (simp add: make_claim_def claim_address_def one_address_def no_claims_def addr_text_def v4_text)
qed

lemma ex_second_claim: "make_claim ex_backend (one_address ''b/g/health'') ''b/h/health'' WantAddress = Inr (''10.3.0.2'', Some two_addresses)"
proof -
  have "parse_prefix (gb_allocation_pool ex_backend) = Some (Prefix (V4 0x0A030000) 24)" by (rule parse_pool [OF ex_gateway_pool])
  moreover have "addr_text (V4 0x0A030001) = ''10.3.0.1''" "addr_text (V4 0x0A030002) = ''10.3.0.2''" by (simp_all add: addr_text_def v4_text)
  moreover from this have "free_address (Prefix (V4 0x0A030000) 24) [''10.3.0.1''] (V4 0x0A030001) = Some (V4 0x0A030002)"
    by (simp add: free_address.simps [of _ _ "V4 0x0A030001"] free_address.simps [of _ _ "V4 0x0A030002"] is_valid_def contains_V4 block_def)
  ultimately show ?thesis
    by (simp add: make_claim_def claim_address_def one_address_def two_addresses_def no_claims_def)
qed

lemma ex_stored_decodes: "decode_registry ex_backend ex_stored = Inr no_claims" "is_registry ex_backend ex_stored" "map_version ex_stored = ''1''"
  "registry_identity_ok ex_backend ex_stored ex_anchor"
proof -
  let ?m = "with_uid ''r1'' \<lparr>cm_meta = empty_meta\<lparr>om_name := gateway_registry_name, om_namespace := gb_namespace ex_backend,
       om_labels := [(component_label, ''gateway-allocator'')]\<rparr>, cm_data = [], cm_immutable = None\<rparr>"
  have m: "with_uid ''r1'' (new_registry ex_backend) = store_registry ?m (registry_of ex_backend no_claims)"
    by (simp add: new_registry_def with_uid_def store_registry_def Let_def registry_of_def no_claims_def)
  have "decode_registry ex_backend (store_registry ?m (registry_of ex_backend no_claims)) = Inr (read_back no_claims)"
    by (rule store_decode [OF ex_no_claims site_pool [OF ex_gateway_pool]])
      (simp_all add: ports_allowed_def ascii_claims_def ex_backend_def no_claims_def with_uid_def mget_def)
  then show "decode_registry ex_backend ex_stored = Inr no_claims"
    by (simp add: ex_stored_def m read_back_def no_claims_def sort_slice_def)
  show "is_registry ex_backend ex_stored" "map_version ex_stored = ''1''"
    by (simp_all add: ex_stored_def) (simp add: is_registry_def new_registry_def store_registry_def Let_def)
  show "registry_identity_ok ex_backend ex_stored ex_anchor"
    by (simp add: registry_identity_ok_def ex_anchor_def with_uid_def new_registry_identity_def mget_def ex_stored_def map_revised_def)
qed

lemma ex_second_decodes: "decode_registry ex_backend ex_second = Inr (one_address ''b/g/health'')" "is_registry ex_backend ex_second" "map_version ex_second = ''2''"
  "registry_identity_ok ex_backend ex_second ex_anchor"
proof -
  have ok: "claims_ok ex_backend (Prefix (V4 0x0A030000) 24) (one_address ''b/g/health'')"
    using make_claim_ok [OF ex_gateway_pool ex_no_claims _ _ ex_first_claim] by (simp add: want_ok_def)
  have "decode_registry ex_backend (store_registry ex_stored (registry_of ex_backend (one_address ''b/g/health''))) = Inr (read_back (one_address ''b/g/health''))"
    using ex_stored_decodes(1)
    by (intro store_decode [OF ok site_pool [OF ex_gateway_pool]])
      (simp_all add: ports_allowed_def ascii_claims_def ex_backend_def one_address_def no_claims_def decode_registry_iff)
  then show "decode_registry ex_backend ex_second = Inr (one_address ''b/g/health'')"
    by (simp add: ex_second_def read_back_def one_address_def no_claims_def sort_slice_def)
  show "is_registry ex_backend ex_second" "map_version ex_second = ''2''"
    using ex_stored_decodes(2) by (simp_all add: ex_second_def)
  show "registry_identity_ok ex_backend ex_second ex_anchor"
    using ex_stored_decodes(4) by (simp add: registry_identity_ok_def ex_second_def ex_registry_meta)
qed

text \<open>
  Two allocations read the registry before either has written and choose the same address; the second to write
  is refused, reads again, and takes the next one.
\<close>

lemma ex_race:
  "\<exists>s. race_reach ex_backend s \<and> granted s ''b/g/health'' WantAddress ''10.3.0.1'' \<and> granted s ''b/h/health'' WantAddress ''10.3.0.2''"
proof -
  let ?r = ex_backend and ?a = "''b/g/health''" and ?b = "''b/h/health''"
  let ?reads = "\<lambda>cm. [Items [], Items [], Items [], Items [], Obj (GMap ex_anchor), Obj (GMap cm)]"
  let ?first = "\<lambda>key. gateway_allocate ?r 2 key WantAddress"
  let ?writes = "\<lambda>n cm key v c. pbind (ebind (kdo (Update (GMap (store_registry cm (registry_of ?r c))))) (\<lambda>_. go v)) (retry_tail n (claim_once ?r key WantAddress))"
  let ?third = "map_revised ''3'' (store_registry ex_second (registry_of ?r two_addresses))"
  have ascii_cluster: "ascii (gb_cluster_uid ?r)" by (simp add: ex_backend_def)
  have start: "?first key = pbind (claim_once ?r key WantAddress) (retry_tail (Suc 0) (claim_once ?r key WantAddress))" if "key \<noteq> []" for key
    using that by (simp add: gateway_allocate_def numeral_2_eq_2)
  have reads: "driven ?r [ex_stored] (?first key) (?reads ex_stored) [ex_stored] (?writes (Suc 0) ex_stored key ''10.3.0.1'' (one_address key))" if "key \<noteq> []" for key
    unfolding start [OF that] by (rule claim_reads [OF ex_stored_decodes(1,4) ex_first_claim])
  have wins: "driven ?r [ex_stored] (?writes (Suc 0) ex_stored ?a ''10.3.0.1'' (one_address ?a)) [Obj (GMap ex_stored)] [ex_second, ex_stored] (Ret (Inr ''10.3.0.1''))"
    unfolding ex_second_def by (rule claim_writes [OF ex_stored_decodes(2)]) (simp add: new_version_def ex_stored_decodes)
  have loses: "driven ?r [ex_second, ex_stored] (?writes (Suc 0) ex_stored ?b ''10.3.0.1'' (one_address ?b)) [Failed (Conflict [])] [ex_second, ex_stored]
      (retry_on_conflict (Suc 0) (claim_once ?r ?b WantAddress))"
    by (rule claim_outdated [OF ex_stored_decodes(2)])
  have again: "driven ?r [ex_second, ex_stored] (retry_on_conflict (Suc 0) (claim_once ?r ?b WantAddress)) (?reads ex_second) [ex_second, ex_stored]
      (?writes 0 ex_second ?b ''10.3.0.2'' two_addresses)"
    unfolding retry_on_conflict.simps by (rule claim_reads [OF ex_second_decodes(1,4) ex_second_claim])
  have retries: "driven ?r [ex_second, ex_stored] (?writes 0 ex_second ?b ''10.3.0.2'' two_addresses) [Obj (GMap ex_second)] [?third, ex_second, ex_stored] (Ret (Inr ''10.3.0.2''))"
    by (rule claim_writes [OF ex_second_decodes(2)]) (simp add: new_version_def ex_stored_decodes ex_second_decodes)
  have "race_reach ?r \<lparr>rc_log = [ex_stored], rc_runs = []\<rparr>"
    by (rule race_starts) (simp add: race_start_def ex_stored_decodes ascii_claims_def no_claims_def ascii_cluster)
  from race_goes [OF this begins [of ?a WantAddress _ _ 2]] have "race_reach ?r \<lparr>rc_log = [ex_stored], rc_runs = [(?a, WantAddress, ?first ?a, [])]\<rparr>"
    by (simp add: ascii_want_def)
  from race_goes [OF this begins [of ?b WantAddress _ _ 2]]
  have "race_reach ?r \<lparr>rc_log = [ex_stored], rc_runs = [] @ (?a, WantAddress, ?first ?a, []) # [(?b, WantAddress, ?first ?b, [])]\<rparr>"
    by (simp add: ascii_want_def)
  from race_driven [OF reads this] obtain ha where
    "race_reach ?r \<lparr>rc_log = [ex_stored], rc_runs = [(?a, WantAddress, ?writes (Suc 0) ex_stored ?a ''10.3.0.1'' (one_address ?a), ha)] @ (?b, WantAddress, ?first ?b, []) # []\<rparr>"
    by auto
  from race_driven [OF reads this] obtain hb where
    "race_reach ?r \<lparr>rc_log = [ex_stored], rc_runs = [] @ (?a, WantAddress, ?writes (Suc 0) ex_stored ?a ''10.3.0.1'' (one_address ?a), ha)
        # [(?b, WantAddress, ?writes (Suc 0) ex_stored ?b ''10.3.0.1'' (one_address ?b), hb)]\<rparr>"
    by auto
  from race_driven [OF wins this] obtain ha where
    "race_reach ?r \<lparr>rc_log = [ex_second, ex_stored], rc_runs = [(?a, WantAddress, Ret (Inr ''10.3.0.1''), ha)]
        @ (?b, WantAddress, ?writes (Suc 0) ex_stored ?b ''10.3.0.1'' (one_address ?b), hb) # []\<rparr>" by auto
  from race_driven [OF loses this] obtain hb where
    "race_reach ?r \<lparr>rc_log = [ex_second, ex_stored], rc_runs = [(?a, WantAddress, Ret (Inr ''10.3.0.1''), ha)]
        @ (?b, WantAddress, retry_on_conflict (Suc 0) (claim_once ?r ?b WantAddress), hb) # []\<rparr>" by blast
  from race_driven [OF again this] obtain hb where
    "race_reach ?r \<lparr>rc_log = [ex_second, ex_stored], rc_runs = [(?a, WantAddress, Ret (Inr ''10.3.0.1''), ha)]
        @ (?b, WantAddress, ?writes 0 ex_second ?b ''10.3.0.2'' two_addresses, hb) # []\<rparr>" by blast
  from race_driven [OF retries this] show ?thesis by (fastforce simp: granted_def)
qed

section \<open>Property\<close>

text \<open>
  C30: however allocations over one site's registry interleave, with stale reads, conflicts, retries, lost
  answers and crashes, from whatever the registry held at the beginning, no control address is ever
  returned for two keys and no port of a node for two keys, one key is never given two values, and what was
  returned is still in the registry whenever that can be read. (Every allocation is \<open>gateway_allocate\<close>
  running against an API server with optimistic concurrency; nobody else writes the registry; keys are ASCII.)
\<close>

theorem registry_grants_unique:
  assumes "race_reach r s"
  shows "grants_unique r s"
proof -
  from race_reach_ok [OF assms] obtain C where C: "race_ok r s C" by blast
  note kept = granted_kept [OF C]
  have "apart C" using C by (simp add: race_ok_def log_ok_def)
  then have "k = k' \<longleftrightarrow> v = v'" if "granted s k w v" "granted s k' w v'" for k k' w v v'
    using kept [OF that(1)] kept [OF that(2)] apart_unique [of C w k v k'] by auto
  moreover have "value_of c k w = Some v" if "granted s k w v" "rc_log s = m # log" "decode_registry r m = Inr c" for k w v m log c
    using C that kept [OF that(1)] extends_value [of C c k w v] by (simp add: race_ok_def log_ok_def)
  ultimately show ?thesis unfolding grants_unique_def by blast
qed

theorem registry_grants_unique_witness:
  "\<exists>s. race_reach ex_backend s \<and> granted s ''b/g/health'' WantAddress ''10.3.0.1'' \<and> granted s ''b/h/health'' WantAddress ''10.3.0.2''
     \<and> grants_unique ex_backend s"
  using ex_race registry_grants_unique by blast

end
