(* ===== verification/Api_V1alpha1.thy ===== *)
theory Api_V1alpha1
  imports Kube_Meta Go_Json Site_Config
begin

text \<open>
  The routed API, \<open>api/v1alpha1\<close>: the single-authority GlobalVpc and the local SiteVpc, and the native
  Kube-OVN objects that both planners render as untyped JSON trees. A Go map is a \<open>JObj\<close> whose members
  stand in key order, as \<open>json.Marshal\<close> writes it. The JSON texts that enter a plan's hash are written
  out from the struct tags.
\<close>

section \<open>Labels\<close>

definition v1_owner_label :: string where
  "v1_owner_label = ''networking.globalvpc.io/vpc-uid''"
definition v1_cluster_label :: string where
  "v1_cluster_label = ''networking.globalvpc.io/cluster-uid''"
definition v1_global_id_label :: string where
  "v1_global_id_label = ''networking.globalvpc.io/global-id-hash''"
definition v1_attachment_label :: string where
  "v1_attachment_label = ''networking.globalvpc.io/attachment-id''"
definition v1_finalizer :: string where
  "v1_finalizer = ''networking.globalvpc.io/network-cleanup''"
definition site_finalizer :: string where
  "site_finalizer = ''networking.globalvpc.io/site-network-cleanup''"

section \<open>SiteVpc\<close>

record site_vpc_spec =
  sv_global_vpc_id :: string
  sv_site_id :: string
  sv_attachment_id :: string
  sv_cidr :: string
  sv_gateway :: string

record bfd_resource_record =
  bfr_gateway_id :: string
  bfr_uuid :: string

record gateway_resource_record =
  grr_api_version :: string
  grr_kind :: string
  grr_namespace :: string
  grr_name :: string
  grr_uid :: string

record v1_resource_record =
  v1r_cluster_ref :: string
  v1r_kind :: string
  v1r_name :: string
  v1r_uid :: string

record site_vpc_status =
  svs_observed_generation :: int
  svs_phase :: string
  svs_operation :: string
  svs_plan_hash :: string
  svs_resources :: "v1_resource_record list"
  svs_gateway_resources :: "gateway_resource_record list"
  svs_bfd_resources :: "bfd_resource_record list"
  svs_gateway_ready_count :: int
  svs_gateway_desired_count :: int
  svs_conditions :: "condition list"

record site_vpc =
  sv_meta :: object_meta
  sv_spec :: site_vpc_spec
  sv_status :: site_vpc_status

section \<open>GlobalVpc\<close>

record ipam_reference =
  ipam_provider_ref :: string
  ipam_scope_ref :: string

record attachment =
  at_cluster_ref :: string
  at_cidr :: string
  at_gateway :: string
  at_transit_ip :: string

record global_vpc_spec =
  gv_domain_ref :: string
  gv_ipam :: ipam_reference
  gv_transit_cidr :: string
  gv_attachments :: "attachment list"

record v1_prefix_claim =
  vpc_claim_uid :: string
  vpc_vpc_uid :: string
  vpc_scope_ref :: string
  vpc_cidr :: string

record allocation =
  al_claim :: v1_prefix_claim
  al_allocation_id :: string
  al_release_policy :: string

record attachment_status =
  ats_cluster_ref :: string
  ats_vpc_name :: string
  ats_subnet_name :: string
  ats_transit_switch_name :: string

record global_vpc_status =
  gvs_observed_generation :: int
  gvs_phase :: string
  gvs_operation :: string
  gvs_plan_hash :: string
  gvs_allocations :: "allocation list"
  gvs_resources :: "v1_resource_record list"
  gvs_transit_switch_uid :: string
  gvs_attachments :: "attachment_status list"
  gvs_conditions :: "condition list"

record global_vpc =
  gv_meta :: object_meta
  gv_spec :: global_vpc_spec
  gv_status :: global_vpc_status

section \<open>Native objects\<close>

text \<open>A Go map literal: the members in key order.\<close>

definition jmap :: "(string \<times> json) list \<Rightarrow> json" where
  "jmap fs = JObj (sort_slice fst fs)"

definition jstrings :: "string list \<Rightarrow> json" where
  "jstrings xs = JArr (map JStr xs)"

definition native_resource :: "string \<Rightarrow> string \<Rightarrow> string smap \<Rightarrow> (string \<times> json) list \<Rightarrow> json" where
  "native_resource kind name labels spec = jmap [(''apiVersion'', JStr ''kubeovn.io/v1''), (''kind'', JStr kind),
     (''metadata'', jmap [(''name'', JStr name), (''labels'', json_map JStr labels)]), (''spec'', jmap spec)]"

definition native_subnet :: "string \<Rightarrow> string \<Rightarrow> string \<Rightarrow> string \<Rightarrow> string list \<Rightarrow> string smap \<Rightarrow> json" where
  "native_subnet name vpc cidr gateway excluded labels = native_resource ''Subnet'' name labels
     [(''vpc'', JStr vpc), (''cidrBlock'', JStr cidr), (''gateway'', JStr gateway), (''excludeIps'', jstrings excluded),
      (''provider'', JStr ''ovn''), (''protocol'', JStr ''IPv4''), (''natOutgoing'', JBool False), (''enableDHCP'', JBool False),
      (''enableLb'', JBool False), (''disableGatewayCheck'', JBool True), (''disableInterConnection'', JBool True)]"

definition route_json :: "string \<Rightarrow> string \<Rightarrow> json" where
  "route_json cidr hop = jmap [(''policy'', JStr ''policyDst''), (''cidr'', JStr cidr), (''nextHopIP'', JStr hop)]"

section \<open>JSON of the identities\<close>

text \<open>A slice without \<open>omitempty\<close> is \<open>null\<close> when it is \<open>nil\<close>; the slices of a configuration that was
  read from a file are \<open>nil\<close> exactly when they are empty or absent.\<close>

definition jslice :: "('a \<Rightarrow> json) \<Rightarrow> 'a list \<Rightarrow> json" where
  "jslice f xs = (if xs = [] then JNull else JArr (map f xs))"

definition site_spec_json :: "site_vpc_spec \<Rightarrow> json" where
  "site_spec_json s = JObj [(''globalVpcID'', JStr (sv_global_vpc_id s)), (''siteID'', JStr (sv_site_id s)),
     (''attachmentID'', JStr (sv_attachment_id s)), (''cidr'', JStr (sv_cidr s)), (''gateway'', JStr (sv_gateway s))]"

definition cluster_json :: "cluster \<Rightarrow> json" where
  "cluster_json c = JObj [(''name'', JStr (cl_name c)), (''uid'', JStr (cl_uid c)), (''kubeconfig'', JStr (cl_kubeconfig c)),
     (''nbCommand'', jslice JStr (cl_nb_command c)), (''sbCommand'', jslice JStr (cl_sb_command c))]"

definition requirement_json :: "selector_requirement \<Rightarrow> json" where
  "requirement_json r = JObj ([(''key'', JStr (sr_key r)), (''operator'', JStr (sr_operator r))]
     @ omit_empty (sr_values r = []) (''values'', jstrings (sr_values r)))"

definition selector_json :: "label_selector \<Rightarrow> json" where
  "selector_json s = JObj (omit_empty (sel_labels s = []) (''matchLabels'', json_map JStr (sel_labels s))
     @ omit_empty (sel_expressions s = []) (''matchExpressions'', JArr (map requirement_json (sel_expressions s))))"

definition site_bfd_json :: "site_bfd \<Rightarrow> json" where
  "site_bfd_json b = JObj ([(''sourceIP'', JStr (bfd_source_ip b)), (''minRX'', json_int (bfd_min_rx b)),
     (''minTX'', json_int (bfd_min_tx b)), (''multiplier'', json_int (bfd_multiplier b))]
     @ (case bfd_node_selector b of None \<Rightarrow> [] | Some s \<Rightarrow> [(''nodeSelector'', selector_json s)]))"

definition site_gateway_json :: "site_gateway \<Rightarrow> json" where
  "site_gateway_json g = JObj [(''id'', JStr (gw_id g)), (''ip'', JStr (gw_ip g))]"

definition grant_json :: "grant \<Rightarrow> json" where
  "grant_json g = JObj ([(''globalVpcID'', JStr (gr_global_vpc_id g)), (''delegatedPrefixes'', jslice JStr (gr_delegated_prefixes g)),
     (''transitCIDR'', JStr (gr_transit_cidr g)), (''routerIP'', JStr (gr_router_ip g))]
     @ omit_empty (gr_gateway_ip g = []) (''gatewayIP'', JStr (gr_gateway_ip g))
     @ omit_empty (gr_gateways g = []) (''gateways'', JArr (map site_gateway_json (gr_gateways g)))
     @ (case gr_bfd g of None \<Rightarrow> [] | Some b \<Rightarrow> [(''bfd'', site_bfd_json b)]))"

definition ipam_json :: "ipam_reference \<Rightarrow> json" where
  "ipam_json i = JObj [(''providerRef'', JStr (ipam_provider_ref i)), (''scopeRef'', JStr (ipam_scope_ref i))]"

definition attachment_json :: "attachment \<Rightarrow> json" where
  "attachment_json a = JObj [(''clusterRef'', JStr (at_cluster_ref a)), (''cidr'', JStr (at_cidr a)),
     (''gateway'', JStr (at_gateway a)), (''transitIP'', JStr (at_transit_ip a))]"

end
