(* ===== verification/Go_Base64.thy ===== *)
theory Go_Base64
  imports Go_Base
begin

text \<open>
  \<open>base64.StdEncoding\<close> of the package \<open>encoding/base64\<close>: three bytes become four characters of a
  64-letter alphabet, the last group is padded. The decoder skips carriage returns and line feeds and
  does not look at the unused low bits of the last character. Bytes are characters, as in a Go string.
\<close>

definition b64_char :: "nat \<Rightarrow> char" where
  "b64_char n = (if n < 26 then char_of (65 + n) else if n < 52 then char_of (71 + n)
     else if n < 62 then char_of (n - 4) else if n = 62 then CHR ''+'' else CHR ''/'')"

definition b64_val :: "char \<Rightarrow> nat option" where
  "b64_val c = (let n = (of_char c :: nat) in
     if 65 \<le> n \<and> n \<le> 90 then Some (n - 65) else if 97 \<le> n \<and> n \<le> 122 then Some (n - 71)
     else if 48 \<le> n \<and> n \<le> 57 then Some (n + 4) else if n = 43 then Some 62 else if n = 47 then Some 63 else None)"

fun b64_encode :: "string \<Rightarrow> string" where
  "b64_encode [] = []"
| "b64_encode [a] = [b64_char (of_char a div 4), b64_char (of_char a mod 4 * 16), CHR ''='', CHR ''='']"
| "b64_encode [a, b] = [b64_char (of_char a div 4), b64_char (of_char a mod 4 * 16 + of_char b div 16),
     b64_char (of_char b mod 16 * 4), CHR ''='']"
| "b64_encode (a # b # c # s) = b64_char (of_char a div 4) # b64_char (of_char a mod 4 * 16 + of_char b div 16)
     # b64_char (of_char b mod 16 * 4 + of_char c div 64) # b64_char (of_char c mod 64) # b64_encode s"

text \<open>The bytes a group of characters stands for.\<close>

definition b64_byte1 :: "nat \<Rightarrow> nat \<Rightarrow> char" where
  "b64_byte1 x y = char_of (x * 4 + y div 16)"

definition b64_byte2 :: "nat \<Rightarrow> nat \<Rightarrow> char" where
  "b64_byte2 y z = char_of (y mod 16 * 16 + z div 4)"

definition b64_byte3 :: "nat \<Rightarrow> nat \<Rightarrow> char" where
  "b64_byte3 z w = char_of (z mod 4 * 64 + w)"

fun b64_groups :: "string \<Rightarrow> string option" where
  "b64_groups [] = Some []"
| "b64_groups (a # b # c # d # s) = (case (b64_val a, b64_val b) of
      (Some x, Some y) \<Rightarrow>
        (case b64_val c of
           None \<Rightarrow> if c = CHR ''='' \<and> d = CHR ''='' \<and> s = [] then Some [b64_byte1 x y] else None
         | Some z \<Rightarrow>
             (case b64_val d of
                None \<Rightarrow> if d = CHR ''='' \<and> s = [] then Some [b64_byte1 x y, b64_byte2 y z] else None
              | Some w \<Rightarrow> map_option (\<lambda>r. b64_byte1 x y # b64_byte2 y z # b64_byte3 z w # r) (b64_groups s)))
    | _ \<Rightarrow> None)"
| "b64_groups _ = None"

definition b64_decode :: "string \<Rightarrow> string option" where
  "b64_decode s = b64_groups (filter (\<lambda>c. (of_char c :: nat) \<noteq> 10 \<and> (of_char c :: nat) \<noteq> 13) s)"

section \<open>Decoding an encoded string\<close>

lemma b64_val_char [simp]: "n < 64 \<Longrightarrow> b64_val (b64_char n) = Some n"
  by (cases "n < 62"; cases "n < 52") (auto simp: b64_val_def b64_char_def Let_def)

lemma b64_char_plain [simp]:
  "n < 64 \<Longrightarrow> (of_char (b64_char n) :: nat) \<noteq> 10" "n < 64 \<Longrightarrow> (of_char (b64_char n) :: nat) \<noteq> 13"
  by (cases "n < 62"; cases "n < 52"; auto simp: b64_char_def)+

lemma b64_pad [simp]: "b64_val (CHR ''='') = None"
  by (simp add: b64_val_def)

lemma b64_bounds [simp]:
  fixes a b c :: char
  shows "(of_char a :: nat) div 4 < 64" "(of_char a :: nat) mod 4 * 16 < 64" "(of_char b :: nat) mod 16 * 4 < 64"
    "(of_char c :: nat) mod 64 < 64" "(of_char a :: nat) mod 4 * 16 + of_char b div 16 < 64"
    "(of_char b :: nat) mod 16 * 4 + of_char c div 64 < 64"
proof -
  have less: "(of_char x :: nat) < 256" for x by (rule nat_of_char_less_256)
  show "(of_char a :: nat) div 4 < 64" using less [of a] by (simp add: less_mult_imp_div_less)
  show "(of_char a :: nat) mod 4 * 16 < 64" "(of_char b :: nat) mod 16 * 4 < 64" "(of_char c :: nat) mod 64 < 64" by simp_all
  have "(of_char b :: nat) div 16 < 16" "(of_char a :: nat) mod 4 < 4"
    using less [of b] by (simp_all add: less_mult_imp_div_less)
  then show "(of_char a :: nat) mod 4 * 16 + of_char b div 16 < 64" by linarith
  have "(of_char c :: nat) div 64 < 4" "(of_char b :: nat) mod 16 < 16"
    using less [of c] by (simp_all add: less_mult_imp_div_less)
  then show "(of_char b :: nat) mod 16 * 4 + of_char c div 64 < 64" by linarith
qed

lemma nat_join: "y < (m :: nat) \<Longrightarrow> (x * m + y) div m = x" "y < m \<Longrightarrow> (x * m + y) mod m = y"
  by simp_all

lemma b64_bytes [simp]:
  "b64_byte1 (of_char a div 4) (of_char a mod 4 * 16 + of_char b div 16) = a"
  "b64_byte1 (of_char a div 4) (of_char a mod 4 * 16) = a"
  "b64_byte2 (of_char a mod 4 * 16 + of_char b div 16) (of_char b mod 16 * 4 + of_char c div 64) = b"
  "b64_byte2 (of_char a mod 4 * 16 + of_char b div 16) (of_char b mod 16 * 4) = b"
  "b64_byte3 (of_char b mod 16 * 4 + of_char c div 64) (of_char c mod 64) = c"
proof -
  have b: "(of_char b :: nat) div 16 < 16" and c: "(of_char c :: nat) div 64 < 4"
    using nat_of_char_less_256 [of b] nat_of_char_less_256 [of c] by (simp_all add: less_mult_imp_div_less del: nat_of_char_less_256)
  show "b64_byte1 (of_char a div 4) (of_char a mod 4 * 16 + of_char b div 16) = a"
    "b64_byte1 (of_char a div 4) (of_char a mod 4 * 16) = a"
    by (simp_all add: b64_byte1_def nat_join [OF b])
  show "b64_byte2 (of_char a mod 4 * 16 + of_char b div 16) (of_char b mod 16 * 4 + of_char c div 64) = b"
    "b64_byte2 (of_char a mod 4 * 16 + of_char b div 16) (of_char b mod 16 * 4) = b"
    by (simp_all add: b64_byte2_def nat_join [OF c] mod_less [OF b])
  show "b64_byte3 (of_char b mod 16 * 4 + of_char c div 64) (of_char c mod 64) = c"
    by (simp add: b64_byte3_def mod_less [OF c])
qed

lemma b64_groups_encode: "b64_groups (b64_encode s) = Some s"
  by (induction s rule: b64_encode.induct) simp_all

lemma b64_encode_plain: "c \<in> set (b64_encode s) \<Longrightarrow> (of_char c :: nat) \<noteq> 10 \<and> (of_char c :: nat) \<noteq> 13"
  by (induction s rule: b64_encode.induct) (auto simp del: b64_encode.simps(4) simp: b64_encode.simps(4))

lemma b64_decode_encode [simp]: "b64_decode (b64_encode s) = Some s"
proof -
  have "filter (\<lambda>c. (of_char c :: nat) \<noteq> 10 \<and> (of_char c :: nat) \<noteq> 13) (b64_encode s) = b64_encode s"
    using b64_encode_plain by (simp add: filter_id_conv)
  then show ?thesis by (simp add: b64_decode_def b64_groups_encode)
qed

lemma b64_decode_length: "b64_decode t = Some s \<Longrightarrow> length s * 4 \<le> length t * 3"
proof -
  have groups: "b64_groups u = Some s \<Longrightarrow> length s * 4 \<le> length u * 3" for u
    by (induction u arbitrary: s rule: b64_groups.induct) (auto split: option.splits if_splits)
  assume "b64_decode t = Some s"
  from groups [OF this [unfolded b64_decode_def]] show ?thesis
    using length_filter_le [of "\<lambda>c. (of_char c :: nat) \<noteq> 10 \<and> (of_char c :: nat) \<noteq> 13" t] by linarith
qed

end
