(* ===== verification/Gateway_Render.thy ===== *)
theory Gateway_Render
  imports Gateway_Objects Api_V1alpha1 Go_Base64
begin

text \<open>
  \<open>internal/managedgateway/render.go\<close> and \<open>probeConfig\<close> of \<open>probe.go\<close>: the runtime configuration of one
  gateway member, a tree of Go maps. The result \<open>None\<close> is the code's \<open>(nil, false, nil)\<close>: the peers have
  not published the receipts the configuration needs yet.
\<close>

section \<open>The configuration of a member\<close>

definition ipv4 :: "string \<Rightarrow> bool" where
  "ipv4 s = (case parse_addr s of None \<Rightarrow> False | Some ip \<Rightarrow> is4 ip \<and> addr_text ip = s)"

definition find_link :: "gateway_link list \<Rightarrow> string \<Rightarrow> gateway_link option" where
  "find_link links i = find (\<lambda>l. gl_peer_id l = i) links"

definition local_cidrs :: "network_binding \<Rightarrow> string list" where
  "local_cidrs b = sort_strings (map bs_cidr (filter (\<lambda>s. \<not> bs_deleting s) (b_subnets (nb_spec b))))"

definition gateway_transit_name :: "network_binding \<Rightarrow> string" where
  "gateway_transit_name b = ''pt-'' @ gateway_short (oi_uid (b_vpc_ref (nb_spec b)) @ ''/'' @ b_location_ref (nb_spec b))"

definition gateway_section :: "network_binding \<Rightarrow> gateway_attachment \<Rightarrow> gateway_member \<Rightarrow> string list \<Rightarrow> json" where
  "gateway_section b a m cidrs = jmap
     [(''version'', JStr ''v2''), (''ownerUID'', JStr (om_uid (nb_meta b))), (''globalVpcID'', JStr (b_native_vpc_name (nb_spec b))),
      (''siteID'', JStr (b_location_ref (nb_spec b))), (''attachmentID'', JStr (om_name (nb_meta b))), (''gatewayID'', JStr (ge_id (gm_endpoint m))),
      (''vpcName'', JStr (b_native_vpc_name (nb_spec b))), (''transitName'', JStr (gateway_transit_name b)),
      (''transitCIDR'', JStr (gt_transit_cidr a)), (''cidr'', JStr (hd cidrs)), (''cidrs'', jstrings cidrs),
      (''routerIP'', JStr (gt_router_ip a)), (''gatewayIP'', JStr (ge_transit_ip (gm_endpoint m))),
      (''bfd'', jmap [(''sourceIP'', JStr (gt_bfd_source_ip a)), (''minRX'', json_int 300), (''minTX'', json_int 300), (''multiplier'', json_int 3)])]"

definition sibling_list :: "member_ledger \<Rightarrow> gateway_member \<Rightarrow> json" where
  "sibling_list l m = JArr (map (\<lambda>s. jmap [(''id'', JStr (ge_id (gm_endpoint s))), (''ip'', JStr (ge_transit_ip (gm_endpoint s)))])
     (filter (\<lambda>s. ge_id (gm_endpoint s) \<noteq> ge_id (gm_endpoint m)) (ml_members l)))"

definition json_word :: "u32 \<Rightarrow> json" where
  "json_word w = json_nat (unat w)"

definition peer_key :: "peer_gateway \<Rightarrow> string" where
  "peer_key p = peer_id (pg_location_ref p) (ge_id (pg_endpoint p))"

definition peer_prefixes :: "network_binding \<Rightarrow> peer_gateway \<Rightarrow> string list" where
  "peer_prefixes b p = sort_strings (map rs_cidr (filter (\<lambda>s. rs_location_ref s = pg_location_ref p) (b_remote_subnets (nb_spec b))))"

definition port_usable :: "int \<Rightarrow> bool" where
  "port_usable p \<longleftrightarrow> 1024 \<le> p \<and> p \<le> 65535"

definition reciprocal :: "gateway_link \<Rightarrow> gateway_link \<Rightarrow> bool" where
  "reciprocal l r \<longleftrightarrow> ipv4 (gl_tunnel_ip l) \<and> ipv4 (gl_tunnel_ip r) \<and> gl_tunnel_ip l \<noteq> gl_tunnel_ip r
     \<and> port_usable (gl_listen_port l) \<and> port_usable (gl_listen_port r)"

definition native_agree :: "network_binding \<Rightarrow> gateway_link \<Rightarrow> gateway_link \<Rightarrow> bool" where
  "native_agree b l r \<longleftrightarrow> gl_listen_port l = gl_listen_port r \<and> gl_control_vni l \<noteq> 0 \<and> gl_control_vni l \<le> 16777215
     \<and> gl_control_vni l = gl_control_vni r \<and> gl_control_vni l \<noteq> b_network_id (nb_spec b)"

text \<open>The part of a link that depends on the transport.\<close>

definition link_transport :: "network_binding \<Rightarrow> peer_gateway \<Rightarrow> gateway_link \<Rightarrow> gateway_link \<Rightarrow> (string \<times> json) list res" where
  "link_transport b p l r =
     (if b_transport_profile (nb_spec b) = ''wireguard-bgp'' then
        (case b64_decode (ge_public_key (pg_endpoint p)) of
           None \<Rightarrow> Inl ''invalid public WireGuard key''
         | Some key \<Rightarrow> if length key \<noteq> 32 then Inl ''invalid public WireGuard key''
             else Inr [(''publicKey'', JStr (ge_public_key (pg_endpoint p)))])
      else if \<not> native_agree b l r then Inl ''native peer allocations disagree''
      else Inr ((''vni'', json_word (gl_control_vni l))
        # (if b_transport_profile (nb_spec b) = ''vxlan-evpn'' then [(''remoteHealthIP'', JStr (ge_health_ip (pg_endpoint p)))] else [])))"

definition link_json :: "string \<Rightarrow> peer_gateway \<Rightarrow> gateway_link \<Rightarrow> gateway_link \<Rightarrow> string list \<Rightarrow> (string \<times> json) list \<Rightarrow> json" where
  "link_json local p l r prefixes extra = jmap
     ([(''id'', JStr (gateway_short (local @ ''/'' @ peer_key p))), (''listenPort'', json_int (gl_listen_port l)),
       (''localTunnelIP'', JStr (gl_tunnel_ip l)), (''tunnelIP'', JStr (gl_tunnel_ip r)),
       (''endpoint'', JStr (ge_endpoint_ip (pg_endpoint p) @ '':'' @ int_str (gl_listen_port r))),
       (''asn'', json_word (ge_local_asn (pg_endpoint p))), (''remoteSiteID'', JStr (pg_location_ref p)),
       (''remoteAttachmentID'', JStr (pg_location_ref p)), (''delegatedPrefixes'', jstrings prefixes)] @ extra)"

text \<open>
  One step of the loop over the peers: the peers seen so far, the links and their locations. It ends the
  function with an error, or, with \<open>None\<close>, because a receipt is missing.
\<close>

type_synonym link_state = "string list \<times> json list \<times> string list"

definition remote_ok :: "network_binding \<Rightarrow> gateway_endpoint \<Rightarrow> bool" where
  "remote_ok b g \<longleftrightarrow> ipv4 (ge_endpoint_ip g) \<and> ipv4 (ge_health_ip g) \<and> 4200000000 \<le> ge_local_asn g \<and> ge_local_asn g \<noteq> b_local_asn (nb_spec b)"

definition reciprocal_link :: "network_binding \<Rightarrow> gateway_member \<Rightarrow> peer_gateway \<Rightarrow> string list \<Rightarrow> json option res" where
  "reciprocal_link b m p prefixes =
     (let local = peer_id (b_location_ref (nb_spec b)) (ge_id (gm_endpoint m)) in
      case find_link (ge_links (gm_endpoint m)) (peer_key p) of
        None \<Rightarrow> Inr None
      | Some l \<Rightarrow> (case find_link (ge_links (pg_endpoint p)) local of
            None \<Rightarrow> Inr None
          | Some r \<Rightarrow>
              if \<not> reciprocal l r then Inl ''invalid reciprocal link allocation''
              else rbind (link_transport b p l r) (\<lambda>extra. Inr (Some (link_json local p l r prefixes extra)))))"

definition render_peer :: "network_binding \<Rightarrow> gateway_member \<Rightarrow> link_state \<Rightarrow> peer_gateway \<Rightarrow> link_state option res" where
  "render_peer b m st p = (case st of (seen, links, locations) \<Rightarrow>
     if peer_key p \<in> set seen \<or> pg_location_ref p = b_location_ref (nb_spec b) \<or> pg_location_ref p \<notin> set (b_authorized_locations (nb_spec b))
     then Inl ''duplicate or unauthorized remote gateway''
     else let prefixes = peer_prefixes b p in
       if prefixes = [] then Inr (Some (peer_key p # seen, links, locations))
       else if \<not> remote_ok b (pg_endpoint p) then Inl ''invalid remote endpoint identity''
       else rbind (reciprocal_link b m p prefixes) (\<lambda>x. Inr (map_option
          (\<lambda>link. (peer_key p # seen, links @ [link], pg_location_ref p # locations)) x)))"

primrec render_peers :: "network_binding \<Rightarrow> gateway_member \<Rightarrow> link_state \<Rightarrow> peer_gateway list \<Rightarrow> link_state option res" where
  "render_peers b m st [] = Inr (Some st)"
| "render_peers b m st (p # ps) = rbind (render_peer b m st p) (\<lambda>x. case x of
     None \<Rightarrow> Inr None | Some st' \<Rightarrow> render_peers b m st' ps)"

text \<open>The remote subnets after the links: \<open>False\<close> when one has no link yet. \<open>netip.ParsePrefix\<close> of a local subnet that does not parse is the zero prefix.\<close>

primrec remote_covered :: "string list \<Rightarrow> string list \<Rightarrow> remote_subnet list \<Rightarrow> bool res" where
  "remote_covered cidrs locations [] = Inr True"
| "remote_covered cidrs locations (s # ss) =
     (if rs_location_ref s \<notin> set locations then Inr False
      else (case parse_prefix (rs_cidr s) of
          None \<Rightarrow> Inl ''invalid remote subnet''
        | Some p \<Rightarrow>
            if \<not> is4 (p_addr p) \<or> p \<noteq> masked p then Inl ''invalid remote subnet''
            else if list_ex (\<lambda>c. overlaps p (case parse_prefix c of None \<Rightarrow> prefix_zero | Some q \<Rightarrow> q)) cidrs
            then Inl ''overlapping subnet ownership within a VPC''
            else remote_covered cidrs locations ss))"

definition profile_fields :: "network_binding \<Rightarrow> gateway_member \<Rightarrow> (string \<times> json) list res" where
  "profile_fields b m =
     (let g = gm_endpoint m; profile = b_transport_profile (nb_spec b); vni = b_network_id (nb_spec b) in
      if profile = ''wireguard-bgp'' then Inr [(''privateKeySecretName'', JStr (gm_secret_name m))]
      else if profile = ''geneve-bgp'' then Inr [(''trustedUnderlay'', JBool True), (''underlayIP'', JStr (ge_endpoint_ip g))]
      else if profile = ''vxlan-evpn'' then
        (if vni = 0 \<or> 16777215 < vni then Inl ''native tenant VNI required''
         else Inr [(''trustedUnderlay'', JBool True), (''localVtepIP'', JStr (ge_endpoint_ip g)), (''healthIP'', JStr (ge_health_ip g)),
           (''vni'', json_word vni), (''vxlanPort'', json_int 4789), (''routeDistinguisher'', JStr (ge_health_ip g @ '':1'')),
           (''routeTarget'', JStr (''64512:'' @ nat_str (unat vni)))])
      else Inl ''unknown transport profile'')"

definition transport_section :: "gateway_backend \<Rightarrow> network_binding \<Rightarrow> member_ledger \<Rightarrow> gateway_member \<Rightarrow> json list \<Rightarrow> (string \<times> json) list \<Rightarrow> json" where
  "transport_section r b l m links extra = jmap
     ([(''profile'', JStr (b_transport_profile (nb_spec b))), (''localASN'', json_word (b_local_asn (nb_spec b))),
       (''routerID'', JStr (ge_health_ip (gm_endpoint m))), (''mtu'', json_int (gb_mtu r)), (''siblings'', sibling_list l m),
       (''links'', JArr links)] @ extra)"

definition render :: "gateway_backend \<Rightarrow> network_binding \<Rightarrow> gateway_attachment \<Rightarrow> member_ledger \<Rightarrow> gateway_member \<Rightarrow> json option res" where
  "render r b a l m =
     (let cidrs = local_cidrs b in
      if cidrs = [] then Inr None
      else rbind (render_peers b m ([], [], []) (sort_slice peer_key (b_peers (nb_spec b)))) (\<lambda>x. case x of
         None \<Rightarrow> Inr None
       | Some (seen, links, locations) \<Rightarrow>
           rbind (remote_covered cidrs locations (b_remote_subnets (nb_spec b))) (\<lambda>covered.
           if \<not> covered then Inr None
           else rbind (profile_fields b m) (\<lambda>extra.
             Inr (Some (jmap [(''managedVersion'', JStr ''v1''), (''gateway'', gateway_section b a m cidrs),
               (''transport'', transport_section r b l m links extra)]))))))"

section \<open>What the rollout probe is given\<close>

definition max_probe_config_bytes :: nat where
  "max_probe_config_bytes = 2 ^ 20"

definition probe_config :: "json option \<Rightarrow> string res" where
  "probe_config desired = (case desired of
      None \<Rightarrow> Inl ''desired rollout configuration is missing''
    | Some c \<Rightarrow> if max_probe_config_bytes < length (json_enc c) then Inl ''invalid desired rollout configuration'' else Inr (json_enc c))"

section \<open>When a configuration is complete\<close>

definition foreign_peer :: "network_binding \<Rightarrow> peer_gateway \<Rightarrow> bool" where
  "foreign_peer b p \<longleftrightarrow> pg_location_ref p \<noteq> b_location_ref (nb_spec b) \<and> pg_location_ref p \<in> set (b_authorized_locations (nb_spec b))"

definition local_peer_id :: "network_binding \<Rightarrow> gateway_member \<Rightarrow> string" where
  "local_peer_id b m = peer_id (b_location_ref (nb_spec b)) (ge_id (gm_endpoint m))"

definition link_out :: "gateway_member \<Rightarrow> peer_gateway \<Rightarrow> gateway_link option" where
  "link_out m p = find_link (ge_links (gm_endpoint m)) (peer_key p)"

definition link_in :: "network_binding \<Rightarrow> gateway_member \<Rightarrow> peer_gateway \<Rightarrow> gateway_link option" where
  "link_in b m p = find_link (ge_links (pg_endpoint p)) (local_peer_id b m)"

definition linked :: "network_binding \<Rightarrow> gateway_member \<Rightarrow> peer_gateway \<Rightarrow> bool" where
  "linked b m p \<longleftrightarrow> remote_ok b (pg_endpoint p) \<and> (case (link_out m p, link_in b m p) of
      (Some l, Some r) \<Rightarrow> reciprocal l r \<and> is_ok (link_transport b p l r) | _ \<Rightarrow> False)"

definition right_value :: "'e + 'a \<Rightarrow> 'a" where
  "right_value x = (case x of Inr v \<Rightarrow> v | Inl _ \<Rightarrow> undefined)"

definition peer_link :: "network_binding \<Rightarrow> gateway_member \<Rightarrow> peer_gateway \<Rightarrow> json" where
  "peer_link b m p = link_json (local_peer_id b m) p (the (link_out m p)) (the (link_in b m p)) (peer_prefixes b p)
     (right_value (link_transport b p (the (link_out m p)) (the (link_in b m p))))"

definition reached_peers :: "network_binding \<Rightarrow> peer_gateway list \<Rightarrow> peer_gateway list" where
  "reached_peers b ps = filter (\<lambda>p. peer_prefixes b p \<noteq> []) ps"

definition remote_clear :: "string list \<Rightarrow> remote_subnet \<Rightarrow> bool" where
  "remote_clear cidrs s \<longleftrightarrow> (case parse_prefix (rs_cidr s) of None \<Rightarrow> False
     | Some p \<Rightarrow> is4 (p_addr p) \<and> p = masked p \<and> \<not> list_ex (\<lambda>c. overlaps p (case parse_prefix c of None \<Rightarrow> prefix_zero | Some q \<Rightarrow> q)) cidrs)"

definition sorted_peers :: "network_binding \<Rightarrow> peer_gateway list" where
  "sorted_peers b = sort_slice peer_key (b_peers (nb_spec b))"

definition peers_linked :: "network_binding \<Rightarrow> gateway_member \<Rightarrow> peer_gateway list \<Rightarrow> bool" where
  "peers_linked b m ps \<longleftrightarrow> distinct (map peer_key ps) \<and> list_all (foreign_peer b) ps \<and> list_all (linked b m) (reached_peers b ps)"

definition render_ready :: "network_binding \<Rightarrow> gateway_member \<Rightarrow> bool" where
  "render_ready b m \<longleftrightarrow> local_cidrs b \<noteq> [] \<and> peers_linked b m (b_peers (nb_spec b))
     \<and> list_all (\<lambda>s. rs_location_ref s \<in> pg_location_ref ` set (b_peers (nb_spec b)) \<and> remote_clear (local_cidrs b) s) (b_remote_subnets (nb_spec b))
     \<and> is_ok (profile_fields b m)"

definition member_config :: "gateway_backend \<Rightarrow> network_binding \<Rightarrow> gateway_attachment \<Rightarrow> member_ledger \<Rightarrow> gateway_member \<Rightarrow> json" where
  "member_config r b a l m = jmap [(''managedVersion'', JStr ''v1''), (''gateway'', gateway_section b a m (local_cidrs b)),
     (''transport'', transport_section r b l m (map (peer_link b m) (reached_peers b (sorted_peers b))) (right_value (profile_fields b m)))]"

lemma right_value_simps [simp]: "right_value (Inr v) = v"
  by (simp add: right_value_def)

lemma reciprocal_link_iff:
  "reciprocal_link b m p (peer_prefixes b p) = Inr (Some j) \<and> remote_ok b (pg_endpoint p) \<longleftrightarrow> linked b m p \<and> j = peer_link b m p"
  by (auto simp: reciprocal_link_def linked_def peer_link_def link_out_def link_in_def local_peer_id_def rbind_def Let_def is_ok_def
      split: option.splits sum.splits)

lemma linked_remote_ok: "linked b m p \<Longrightarrow> remote_ok b (pg_endpoint p)"
  by (simp add: linked_def)

lemma render_peer_iff:
  "render_peer b m (seen, links, locations) p = Inr (Some st) \<longleftrightarrow>
     peer_key p \<notin> set seen \<and> foreign_peer b p \<and>
     (if peer_prefixes b p = [] then st = (peer_key p # seen, links, locations)
      else linked b m p \<and> st = (peer_key p # seen, links @ [peer_link b m p], pg_location_ref p # locations))"
proof (cases "peer_key p \<notin> set seen \<and> foreign_peer b p \<and> peer_prefixes b p \<noteq> [] \<and> remote_ok b (pg_endpoint p)")
  case True
  have "render_peer b m (seen, links, locations) p = Inr (Some st) \<longleftrightarrow>
     (\<exists>j. reciprocal_link b m p (peer_prefixes b p) = Inr (Some j) \<and> st = (peer_key p # seen, links @ [j], pg_location_ref p # locations))"
    using True by (auto simp: render_peer_def foreign_peer_def rbind_def Let_def split: sum.splits)
  also have "\<dots> \<longleftrightarrow> linked b m p \<and> st = (peer_key p # seen, links @ [peer_link b m p], pg_location_ref p # locations)"
    using True reciprocal_link_iff [of b m p] by blast
  finally show ?thesis using True by simp
next
  case False
  then show ?thesis using linked_remote_ok [of b m p] by (auto simp: render_peer_def foreign_peer_def Let_def)
qed

lemma sort_strings_Nil [simp]: "sort_strings xs = [] \<longleftrightarrow> xs = []"
  by (metis length_0_conv sort_strings_props(3))

lemma set_reached [simp]: "set (reached_peers b ps) = {p \<in> set ps. peer_prefixes b p \<noteq> []}"
  by (simp add: reached_peers_def)

lemma set_sorted_peers [simp]: "set (sorted_peers b) = set (b_peers (nb_spec b))"
  by (simp add: sorted_peers_def)

lemma reached_Cons [simp]: "reached_peers b (p # ps) = (if peer_prefixes b p = [] then reached_peers b ps else p # reached_peers b ps)"
  by (simp add: reached_peers_def)

lemma reached_Nil [simp]: "reached_peers b [] = []"
  by (simp add: reached_peers_def)

lemma render_peers_iff:
  "render_peers b m (seen, links, locations) ps = Inr (Some st) \<longleftrightarrow>
     list_all (\<lambda>p. peer_key p \<notin> set seen) ps \<and> peers_linked b m ps \<and>
     st = (rev (map peer_key ps) @ seen, links @ map (peer_link b m) (reached_peers b ps),
           rev (map pg_location_ref (reached_peers b ps)) @ locations)"
proof (induction ps arbitrary: seen links locations)
  case Nil
  then show ?case by (auto simp: peers_linked_def)
next
  case (Cons p ps)
  have "render_peers b m (seen, links, locations) (p # ps) = Inr (Some st) \<longleftrightarrow>
    (\<exists>st'. render_peer b m (seen, links, locations) p = Inr (Some st') \<and> render_peers b m st' ps = Inr (Some st))"
    by (auto simp: rbind_def split: sum.splits option.splits)
  also have "\<dots> \<longleftrightarrow> peer_key p \<notin> set seen \<and> foreign_peer b p \<and> (if peer_prefixes b p = []
       then render_peers b m (peer_key p # seen, links, locations) ps = Inr (Some st)
       else linked b m p \<and> render_peers b m (peer_key p # seen, links @ [peer_link b m p], pg_location_ref p # locations) ps = Inr (Some st))"
    by (auto simp: render_peer_iff)
  finally have step: "render_peers b m (seen, links, locations) (p # ps) = Inr (Some st) \<longleftrightarrow> peer_key p \<notin> set seen \<and> foreign_peer b p
     \<and> (if peer_prefixes b p = []
       then render_peers b m (peer_key p # seen, links, locations) ps = Inr (Some st)
       else linked b m p \<and> render_peers b m (peer_key p # seen, links @ [peer_link b m p], pg_location_ref p # locations) ps = Inr (Some st))" .
  have new: "list_all (\<lambda>x. peer_key x \<notin> set (peer_key p # seen)) ps \<longleftrightarrow> peer_key p \<notin> peer_key ` set ps \<and> list_all (\<lambda>x. peer_key x \<notin> set seen) ps"
    by (auto simp: list_all_iff image_iff)
  have linked: "peers_linked b m (p # ps) \<longleftrightarrow> peer_key p \<notin> peer_key ` set ps \<and> foreign_peer b p
      \<and> (peer_prefixes b p \<noteq> [] \<longrightarrow> linked b m p) \<and> peers_linked b m ps"
    by (auto simp: peers_linked_def)
  show ?case unfolding step Cons.IH new linked by (cases "peer_prefixes b p = []") auto
qed

lemma remote_covered_iff:
  "remote_covered cidrs locations ss = Inr True \<longleftrightarrow> list_all (\<lambda>s. rs_location_ref s \<in> set locations \<and> remote_clear cidrs s) ss"
  by (induction ss) (auto simp: remote_clear_def split: option.splits)

lemma reached_location:
  "s \<in> set (b_remote_subnets (nb_spec b)) \<Longrightarrow>
   rs_location_ref s \<in> pg_location_ref ` set (reached_peers b ps) \<longleftrightarrow> rs_location_ref s \<in> pg_location_ref ` set ps"
proof -
  assume s: "s \<in> set (b_remote_subnets (nb_spec b))"
  have "pg_location_ref p = rs_location_ref s \<Longrightarrow> peer_prefixes b p \<noteq> []" for p
    using s by (auto simp: peer_prefixes_def filter_empty_conv)
  then show ?thesis by (auto simp: image_iff)
qed

lemma peers_linked_sorted: "peers_linked b m (sorted_peers b) \<longleftrightarrow> peers_linked b m (b_peers (nb_spec b))"
proof -
  have "distinct (map peer_key (sorted_peers b)) \<longleftrightarrow> distinct (map peer_key (b_peers (nb_spec b)))"
    unfolding sorted_peers_def by (metis mset_eq_imp_distinct_iff mset_map sort_slice_props(4))
  then show ?thesis by (simp add: peers_linked_def list_all_iff)
qed

lemma render_iff: "render r b a l m = Inr (Some cfg) \<longleftrightarrow> render_ready b m \<and> cfg = member_config r b a l m"
proof (cases "local_cidrs b = []")
  case True
  then show ?thesis by (simp add: render_def render_ready_def)
next
  case False
  have peers: "render_peers b m ([], [], []) (sorted_peers b) = Inr (Some st) \<longleftrightarrow> peers_linked b m (b_peers (nb_spec b))
     \<and> st = (rev (map peer_key (sorted_peers b)), map (peer_link b m) (reached_peers b (sorted_peers b)),
             rev (map pg_location_ref (reached_peers b (sorted_peers b))))" for st
    by (simp add: render_peers_iff peers_linked_sorted list_all_iff)
  let ?locations = "rev (map pg_location_ref (reached_peers b (sorted_peers b)))"
  have covered: "remote_covered (local_cidrs b) ?locations (b_remote_subnets (nb_spec b)) = Inr True \<longleftrightarrow>
     list_all (\<lambda>s. rs_location_ref s \<in> pg_location_ref ` set (b_peers (nb_spec b)) \<and> remote_clear (local_cidrs b) s) (b_remote_subnets (nb_spec b))"
    unfolding remote_covered_iff using reached_location [of _ b "sorted_peers b"] by (simp add: list_all_iff)
  have "render r b a l m = Inr (Some cfg) \<longleftrightarrow> (\<exists>seen links locations extra.
      render_peers b m ([], [], []) (sorted_peers b) = Inr (Some (seen, links, locations))
      \<and> remote_covered (local_cidrs b) locations (b_remote_subnets (nb_spec b)) = Inr True
      \<and> profile_fields b m = Inr extra
      \<and> cfg = jmap [(''managedVersion'', JStr ''v1''), (''gateway'', gateway_section b a m (local_cidrs b)),
               (''transport'', transport_section r b l m links extra)])"
    using False unfolding render_def sorted_peers_def by (auto simp: rbind_def Let_def split: sum.splits option.splits)
  also have "\<dots> \<longleftrightarrow> render_ready b m \<and> cfg = member_config r b a l m"
    unfolding peers prod.inject using False covered
    by (auto simp: render_ready_def member_config_def is_ok_iff)
  finally show ?thesis .
qed

section \<open>The two ends of a link\<close>

text \<open>A member of a JSON object.\<close>

fun json_get :: "string \<Rightarrow> json \<Rightarrow> json option" where
  "json_get k (JObj fs) = map_of fs k"
| "json_get k _ = None"

definition config_links :: "json \<Rightarrow> json list" where
  "config_links cfg = (case json_get ''transport'' cfg of None \<Rightarrow> []
     | Some t \<Rightarrow> (case json_get ''links'' t of Some (JArr ls) \<Rightarrow> ls | _ \<Rightarrow> []))"

lemma map_of_insort: "map_of (insort_key fst (k, v) fs) = (map_of fs)(k \<mapsto> v)"
  by (induction fs) (auto simp: fun_upd_twist)

lemma json_get_jmap [simp]: "json_get k (jmap fs) = map_of fs k"
proof -
  have "map_of (sort_key fst fs) = map_of fs"
    by (induction fs) (auto simp: map_of_insort)
  then show ?thesis by (simp add: jmap_def sort_slice_def)
qed

lemma config_links_member: "config_links (member_config r b a l m) = map (peer_link b m) (reached_peers b (sorted_peers b))"
  by (simp add: config_links_def member_config_def transport_section_def)

lemma find_link_Some: "find_link links i = Some l \<Longrightarrow> l \<in> set links \<and> gl_peer_id l = i"
  by (auto simp: find_link_def find_Some_iff)

text \<open>Two members that see each other: each has the other, as it published itself, among its peers.\<close>

definition describes :: "peer_gateway \<Rightarrow> network_binding \<Rightarrow> gateway_member \<Rightarrow> bool" where
  "describes p b m \<longleftrightarrow> pg_location_ref p = b_location_ref (nb_spec b) \<and> ge_id (pg_endpoint p) = ge_id (gm_endpoint m)
     \<and> ge_links (pg_endpoint p) = ge_links (gm_endpoint m) \<and> ge_endpoint_ip (pg_endpoint p) = ge_endpoint_ip (gm_endpoint m)"

definition dial_text :: "string \<Rightarrow> json option \<Rightarrow> json option" where
  "dial_text ip port = (case port of Some (JNum t) \<Rightarrow> Some (JStr (ip @ '':'' @ t)) | _ \<Rightarrow> None)"

text \<open>What one end of a link is configured with is what the other end expects.\<close>

definition mirrored :: "gateway_member \<Rightarrow> json \<Rightarrow> json \<Rightarrow> bool" where
  "mirrored m j j' \<longleftrightarrow> json_get ''localTunnelIP'' j \<noteq> None \<and> json_get ''localTunnelIP'' j = json_get ''tunnelIP'' j'
     \<and> json_get ''endpoint'' j' = dial_text (ge_endpoint_ip (gm_endpoint m)) (json_get ''listenPort'' j)
     \<and> json_get ''localTunnelIP'' j \<noteq> json_get ''tunnelIP'' j"

definition link_to :: "json \<Rightarrow> network_binding \<Rightarrow> json list" where
  "link_to cfg b = filter (\<lambda>j. json_get ''remoteSiteID'' j = Some (JStr (b_location_ref (nb_spec b)))) (config_links cfg)"

lemma describes_key: "describes p b m \<Longrightarrow> peer_key p = local_peer_id b m"
  by (simp add: describes_def peer_key_def local_peer_id_def)

lemma member_config_link:
  assumes "render r b a l m = Inr (Some cfg)" and "p \<in> set (b_peers (nb_spec b))" and "peer_prefixes b p \<noteq> []"
  shows "linked b m p" and "peer_link b m p \<in> set (config_links cfg)"
  using assms by (auto simp: render_iff render_ready_def peers_linked_def list_all_iff config_links_member)

lemma peer_link_fields:
  assumes "linked b m p" and "link_out m p = Some x" and "link_in b m p = Some y"
  shows "json_get ''localTunnelIP'' (peer_link b m p) = Some (JStr (gl_tunnel_ip x))"
    and "json_get ''tunnelIP'' (peer_link b m p) = Some (JStr (gl_tunnel_ip y))"
    and "json_get ''listenPort'' (peer_link b m p) = Some (json_int (gl_listen_port x))"
    and "json_get ''endpoint'' (peer_link b m p) = Some (JStr (ge_endpoint_ip (pg_endpoint p) @ '':'' @ int_str (gl_listen_port y)))"
    and "json_get ''remoteSiteID'' (peer_link b m p) = Some (JStr (pg_location_ref p))"
    and "b_transport_profile (nb_spec b) \<noteq> ''wireguard-bgp'' \<Longrightarrow> json_get ''vni'' (peer_link b m p) = Some (json_word (gl_control_vni x)) \<and> gl_control_vni x = gl_control_vni y"
  using assms by (auto simp: peer_link_def link_json_def linked_def link_transport_def native_agree_def is_ok_def split: if_splits)

lemma mirrored_links:
  assumes "linked b m p" and "linked b' m' p'" and "describes p b' m'" and "describes p' b m"
  shows "mirrored m (peer_link b m p) (peer_link b' m' p')"
    and "b_transport_profile (nb_spec b) \<noteq> ''wireguard-bgp'' \<Longrightarrow> b_transport_profile (nb_spec b') \<noteq> ''wireguard-bgp'' \<Longrightarrow>
      json_get ''vni'' (peer_link b m p) = json_get ''vni'' (peer_link b' m' p')"
proof -
  obtain x y where xy: "link_out m p = Some x" "link_in b m p = Some y" "reciprocal x y"
    using assms(1) by (auto simp: linked_def split: option.splits)
  have keys: "peer_key p = local_peer_id b' m'" "peer_key p' = local_peer_id b m"
    and links: "ge_links (pg_endpoint p) = ge_links (gm_endpoint m')" "ge_links (pg_endpoint p') = ge_links (gm_endpoint m)"
      "ge_endpoint_ip (pg_endpoint p') = ge_endpoint_ip (gm_endpoint m)"
    using assms(3,4) describes_key by (auto simp: describes_def)
  have yx: "link_out m' p' = Some y" "link_in b' m' p' = Some x"
    using xy keys links by (simp_all add: link_out_def link_in_def)
  note here = peer_link_fields [OF assms(1) xy(1,2)] and there = peer_link_fields [OF assms(2) yx]
  show "mirrored m (peer_link b m p) (peer_link b' m' p')"
    using xy(3) by (simp add: mirrored_def here there links dial_text_def json_int_def reciprocal_def)
  show "json_get ''vni'' (peer_link b m p) = json_get ''vni'' (peer_link b' m' p')"
    if "b_transport_profile (nb_spec b) \<noteq> ''wireguard-bgp''" "b_transport_profile (nb_spec b') \<noteq> ''wireguard-bgp''"
    using here(6) [OF that(1)] there(6) [OF that(2)] by simp
qed

lemma ipv4_text [simp]: "ipv4 (v4_str w)"
  by (simp add: ipv4_def addr_text_def)

definition ex_member :: "string \<Rightarrow> 32 word \<Rightarrow> string \<Rightarrow> 32 word \<Rightarrow> gateway_member" where
  "ex_member i net peer own = \<lparr>gm_endpoint = zero_endpoint\<lparr>ge_id := i, ge_node_name := i, ge_node_uid := i, ge_endpoint_ip := v4_str (net + 1),
     ge_transit_ip := v4_str 0x0A090003, ge_local_asn := 4200000000 + net, ge_health_ip := v4_str (own + 1),
     ge_links := [\<lparr>gl_peer_id = peer, gl_listen_port = 6082, gl_tunnel_ip = v4_str own, gl_control_vni = 7\<rparr>]\<rparr>, gm_secret_name = []\<rparr>"

definition ex_side :: "string \<Rightarrow> 32 word \<Rightarrow> string \<Rightarrow> 32 word \<Rightarrow> gateway_member \<Rightarrow> network_binding" where
  "ex_side location net other remote m = \<lparr>nb_meta = empty_meta\<lparr>om_uid := location, om_name := location\<rparr>,
     nb_spec = \<lparr>b_vpc_ref = \<lparr>oi_namespace = ''p'', oi_name = ''v'', oi_uid = ''u''\<rparr>, b_network_id = 5, b_local_asn = 4200000000 + net,
       b_location_ref = location, b_network_class_ref = ''c'', b_native_vpc_name = ''n'', b_transport_profile = ''geneve-bgp'',
       b_subnets = [\<lparr>bs_name = ''s'', bs_uid = ''s'', bs_cidr = v4_prefix_str (0x0A3C0000 + net) 24, bs_gateway = [], bs_native_subnet_name = ''s'', bs_deleting = False\<rparr>],
       b_authorized_locations = [location, other], b_remote_subnets = [\<lparr>rs_location_ref = other, rs_cidr = v4_prefix_str (0x0A3C0000 + remote) 24\<rparr>],
       b_peers = [\<lparr>pg_location_ref = other, pg_endpoint = gm_endpoint m\<rparr>], b_link_allocations = [], b_revision = [], b_deleting = False\<rparr>,
     nb_status = empty_binding_status\<rparr>"

definition ex_member_a :: gateway_member where "ex_member_a = ex_member ''g1'' 0x100 ''b/g2'' 0x0A030000"
definition ex_member_b :: gateway_member where "ex_member_b = ex_member ''g2'' 0x200 ''a/g1'' 0x0A040000"
definition ex_side_a :: network_binding where "ex_side_a = ex_side ''a'' 0x100 ''b'' 0x200 ex_member_b"
definition ex_side_b :: network_binding where "ex_side_b = ex_side ''b'' 0x200 ''a'' 0x100 ex_member_a"

lemmas ex_sides = ex_member_def ex_member_a_def ex_member_b_def ex_side_def ex_side_a_def ex_side_b_def zero_endpoint_def

lemma ex_tunnels: "v4_str 0x0A030000 \<noteq> v4_str 0x0A040000" "v4_str 0x0A040000 \<noteq> v4_str 0x0A030000"
  by (simp_all add: v4_str_inject)

lemma sort_strings_one [simp]: "sort_strings [x] = [x]"
  by (simp add: sort_strings_def)

lemmas ex_link_defs = linked_def remote_ok_def link_out_def link_in_def find_link_def peer_key_def local_peer_id_def peer_id_def
  reciprocal_def port_usable_def link_transport_def native_agree_def is_ok_def ex_tunnels

lemmas ex_ready_defs = render_ready_def peers_linked_def local_cidrs_def foreign_peer_def remote_clear_def profile_fields_def is_ok_def
  masked_def overlaps_def prefix_valid_def net_of_def mask_eq_exp_minus_1

lemma ex_ready_a: "render_ready ex_side_a ex_member_a"
proof -
  have "linked ex_side_a ex_member_a \<lparr>pg_location_ref = ''b'', pg_endpoint = gm_endpoint ex_member_b\<rparr>"
    by (simp add: ex_sides ex_link_defs)
  then show ?thesis by (simp add: ex_sides ex_ready_defs)
qed

lemma ex_ready_b: "render_ready ex_side_b ex_member_b"
proof -
  have "linked ex_side_b ex_member_b \<lparr>pg_location_ref = ''a'', pg_endpoint = gm_endpoint ex_member_a\<rparr>"
    by (simp add: ex_sides ex_link_defs)
  then show ?thesis by (simp add: ex_sides ex_ready_defs)
qed

section \<open>Properties\<close>

text \<open>
  C33: a member has a configuration exactly when its binding has live local subnets, its peers are distinct
  gateways of other authorized locations, every peer that brings remote subnets has a valid identity and
  reciprocal receipts in both directions that suit the transport, every remote subnet belongs to a
  location with a linked peer and overlaps no local subnet, and the profile is a known one; the
  configuration then has one link per such peer, in the order of the peers, with both receipts in it.
\<close>
theorem render_exact: "render r b a l m = Inr (Some cfg) \<longleftrightarrow> render_ready b m \<and> cfg = member_config r b a l m"
  by (rule render_iff)

text \<open>
  C34: two locations that have rendered a pair of gateways that see each other agree on the link: each has a link
  to the other whose tunnel addresses are the other's swapped, that dials the address and the port the
  other listens on, and, for the native transports, with the same control network identifier.
\<close>
theorem rendered_links_mirror:
  assumes "render r b a l m = Inr (Some cfg)" and "render r' b' a' l' m' = Inr (Some cfg')"
    and "p \<in> set (b_peers (nb_spec b))" and "describes p b' m'" and "peer_prefixes b p \<noteq> []"
    and "p' \<in> set (b_peers (nb_spec b'))" and "describes p' b m" and "peer_prefixes b' p' \<noteq> []"
  shows "\<exists>j\<in>set (link_to cfg b'). \<exists>j'\<in>set (link_to cfg' b). mirrored m j j' \<and> mirrored m' j' j
     \<and> (b_transport_profile (nb_spec b) = ''wireguard-bgp'' \<or> b_transport_profile (nb_spec b') = ''wireguard-bgp'' \<or> json_get ''vni'' j = json_get ''vni'' j')"
proof -
  note here = member_config_link [OF assms(1,3,5)] and there = member_config_link [OF assms(2,6,8)]
  have site: "json_get ''remoteSiteID'' (peer_link c n q) = Some (JStr (pg_location_ref q))" for c n q
    by (simp add: peer_link_def link_json_def)
  have "peer_link b m p \<in> set (link_to cfg b')" "peer_link b' m' p' \<in> set (link_to cfg' b)"
    using here(2) there(2) assms(4,7) by (simp_all add: link_to_def site describes_def)
  then show ?thesis
    using mirrored_links [OF here(1) there(1) assms(4,7)] mirrored_links(1) [OF there(1) here(1) assms(7,4)] by blast
qed

theorem rendered_links_mirror_witness:
  "\<forall>r a l. \<exists>cfg cfg'. render r ex_side_a a l ex_member_a = Inr (Some cfg) \<and> (\<exists>j\<in>set (link_to cfg ex_side_b). \<exists>j'\<in>set (link_to cfg' ex_side_a).
     mirrored ex_member_a j j' \<and> mirrored ex_member_b j' j)"
proof (intro allI)
  fix r a l
  let ?p = "\<lparr>pg_location_ref = ''b'', pg_endpoint = gm_endpoint ex_member_b\<rparr>" and ?q = "\<lparr>pg_location_ref = ''a'', pg_endpoint = gm_endpoint ex_member_a\<rparr>"
  have a: "render r ex_side_a a l ex_member_a = Inr (Some (member_config r ex_side_a a l ex_member_a))"
    and b: "render r ex_side_b a l ex_member_b = Inr (Some (member_config r ex_side_b a l ex_member_b))"
    using ex_ready_a ex_ready_b by (simp_all add: render_iff)
  have p: "?p \<in> set (b_peers (nb_spec ex_side_a))" "describes ?p ex_side_b ex_member_b" "peer_prefixes ex_side_a ?p \<noteq> []"
    and q: "?q \<in> set (b_peers (nb_spec ex_side_b))" "describes ?q ex_side_a ex_member_a" "peer_prefixes ex_side_b ?q \<noteq> []"
    by (simp_all add: ex_sides describes_def peer_prefixes_def)
  show "\<exists>cfg cfg'. render r ex_side_a a l ex_member_a = Inr (Some cfg) \<and> (\<exists>j\<in>set (link_to cfg ex_side_b). \<exists>j'\<in>set (link_to cfg' ex_side_a).
     mirrored ex_member_a j j' \<and> mirrored ex_member_b j' j)"
    using rendered_links_mirror [OF a b p q] a by blast
qed

end
