(* ===== verification/Go_X25519.thy ===== *)
theory Go_X25519
  imports Go_Base
begin

text \<open>
  \<open>ecdh.X25519()\<close>, as far as the program uses it: the public key of a private key, that is the function
  X25519 of RFC 7748 on the base point. Keys are byte strings in little-endian order.
\<close>

definition field_prime :: int where
  "field_prime = 2 ^ 255 - 19"

fun le_nat :: "string \<Rightarrow> nat" where
  "le_nat [] = 0"
| "le_nat (c # s) = of_char c + 256 * le_nat s"

primrec le_bytes :: "nat \<Rightarrow> nat \<Rightarrow> string" where
  "le_bytes 0 n = []"
| "le_bytes (Suc k) n = char_of (n mod 256) # le_bytes k (n div 256)"

text \<open>The lowest three bits and the highest bit of a scalar are cleared, the bit below is set.\<close>

definition clamp_scalar :: "string \<Rightarrow> string" where
  "clamp_scalar k = (let k0 = k[0 := char_of ((of_char (k ! 0) :: nat) div 8 * 8)]
     in k0[31 := char_of ((of_char (k0 ! 31) :: nat) mod 64 + 64)])"

fun pow_mod :: "int \<Rightarrow> nat \<Rightarrow> int" where
  "pow_mod b n = (if n = 0 then 1 else
     let h = pow_mod b (n div 2); s = (h * h) mod field_prime in if odd n then (s * b) mod field_prime else s)"

declare pow_mod.simps [simp del]

text \<open>The Montgomery ladder; the pairs are the projective coordinates of two points.\<close>

type_synonym ladder = "(int \<times> int) \<times> (int \<times> int)"

definition ladder_step :: "int \<Rightarrow> bool \<Rightarrow> ladder \<Rightarrow> ladder" where
  "ladder_step x1 flip st =
     (let ((x2, z2), (x3, z3)) = (if flip then (snd st, fst st) else st);
          a = x2 + z2; aa = (a * a) mod field_prime; b = x2 - z2; bb = (b * b) mod field_prime; e = aa - bb;
          da = (x3 - z3) * a mod field_prime; cb = (x3 + z3) * b mod field_prime;
          p = ((aa * bb) mod field_prime, (e * (aa + 121665 * e)) mod field_prime);
          q = ((da + cb) ^ 2 mod field_prime, x1 * ((da - cb) ^ 2) mod field_prime)
      in if flip then (q, p) else (p, q))"

primrec ladder_loop :: "nat \<Rightarrow> nat \<Rightarrow> int \<Rightarrow> ladder \<Rightarrow> ladder" where
  "ladder_loop 0 k x1 st = st"
| "ladder_loop (Suc t) k x1 st = ladder_loop t k x1 (ladder_step x1 (odd (k div 2 ^ t)) st)"

definition x25519_public :: "string \<Rightarrow> string" where
  "x25519_public k = (case ladder_loop 255 (le_nat (clamp_scalar k)) 9 ((1, 0), (9, 1)) of
      ((x, z), _) \<Rightarrow> le_bytes 32 (nat (x * pow_mod z (nat (field_prime - 2)) mod field_prime)))"

lemma le_bytes_length [simp]: "length (le_bytes k n) = k"
  by (induction k arbitrary: n) simp_all

lemma x25519_public_length [simp]: "length (x25519_public k) = 32"
  by (simp add: x25519_public_def split: prod.split)

end
