(* ===== verification/Gateway_Members.thy ===== *)
theory Gateway_Members
  imports Gateway_Registry Gateway_Render Go_X25519
begin

text \<open>
  \<open>internal/managedgateway/reconciler.go\<close>, first part: the checks of the settings, the members of a binding and
  their ledger, their keys, the addresses and ports of their links, and the inventory of what the
  gateways of a binding own. The second part, \<open>Ensure\<close> and \<open>Delete\<close>, is in \<open>Gateway_Reconciler\<close>.
\<close>

section \<open>Requests\<close>

text \<open>Beside the API server the code asks for random bytes, runtime files and the rollout probe.\<close>

datatype greq = GApi "gobj kreq" | Random nat | ReadFile string | Probe gpod "json option"

datatype gresp = GAnswer "gobj kresp" | GText "err + string" | GHealth "err + bool"

type_synonym 'a gprog = "(greq, gresp, 'a) prog"

definition ganswer :: "gresp \<Rightarrow> gobj kresp" where
  "ganswer r = (case r of GAnswer x \<Rightarrow> x | _ \<Rightarrow> Failed decode_error)"

primrec gapi :: "(gobj, 'a) kprog \<Rightarrow> 'a gprog" where
  "gapi (Ret a) = Ret a"
| "gapi (Call q k) = Call (GApi q) (\<lambda>r. gapi (k (ganswer r)))"

text \<open>\<open>rand.Read\<close> fills the slice it is given.\<close>

definition random_bytes :: "nat \<Rightarrow> (err + string) gprog" where
  "random_bytes n = Call (Random n) (\<lambda>r. Ret (case r of
     GText (Inr s) \<Rightarrow> Inr (take n (s @ replicate n (char_of (0 :: nat)))) | GText (Inl e) \<Rightarrow> Inl e | _ \<Rightarrow> Inl decode_error))"

definition read_file :: "string \<Rightarrow> (err + string) gprog" where
  "read_file path = Call (ReadFile path) (\<lambda>r. Ret (case r of GText x \<Rightarrow> x | _ \<Rightarrow> Inl decode_error))"

definition run_probe :: "gpod \<Rightarrow> json option \<Rightarrow> (err + bool) gprog" where
  "run_probe p desired = Call (Probe p desired) (\<lambda>r. Ret (case r of GHealth x \<Rightarrow> x | _ \<Rightarrow> Inl decode_error))"

section \<open>Names, labels and ownership\<close>

definition config_hash_annotation :: string where
  "config_hash_annotation = ''platform.globalvpc.io/config-hash''"

definition member_label :: string where
  "member_label = ''platform.globalvpc.io/gateway-id''"

definition api_vpc_uid_label :: string where
  "api_vpc_uid_label = ''platform.globalvpc.io/vpc-uid''"

definition binding_uid :: "network_binding \<Rightarrow> string" where
  "binding_uid b = om_uid (nb_meta b)"

definition gateway_labels :: "network_binding \<Rightarrow> string smap" where
  "gateway_labels b = [(api_owner_label, binding_uid b), (api_vpc_uid_label, oi_uid (b_vpc_ref (nb_spec b))),
     (api_location_label, b_location_ref (nb_spec b)), (component_label, ''gateway'')]"

definition gateway_ref :: "network_binding \<Rightarrow> owner_ref" where
  "gateway_ref b = \<lparr>or_api_version = api_group_version, or_kind = ''NetworkBinding'', or_name = om_name (nb_meta b),
     or_uid = binding_uid b, or_controller = Some True\<rparr>"

definition gateway_owned :: "object_meta \<Rightarrow> network_binding \<Rightarrow> bool" where
  "gateway_owned m b \<longleftrightarrow> mget (om_labels m) api_owner_label = binding_uid b
     \<and> list_ex (\<lambda>v. or_uid v = binding_uid b \<and> or_kind v = ''NetworkBinding'' \<and> or_api_version v = api_group_version
         \<and> or_name v = om_name (nb_meta b) \<and> or_controller v = Some True) (om_owners m)"

definition gateway_metadata :: "string \<Rightarrow> network_binding \<Rightarrow> string \<Rightarrow> object_meta" where
  "gateway_metadata name b ns = empty_meta\<lparr>om_name := name, om_namespace := ns, om_labels := gateway_labels b, om_owners := [gateway_ref b]\<rparr>"

definition ledger_name :: "network_binding \<Rightarrow> string" where
  "ledger_name b = ''pg-'' @ gateway_short (binding_uid b)"

definition pod_name :: "network_binding \<Rightarrow> gateway_member \<Rightarrow> string" where
  "pod_name b m = ledger_name b @ ''-'' @ ge_id (gm_endpoint m)"

definition secret_name :: "network_binding \<Rightarrow> string \<Rightarrow> string" where
  "secret_name b i = ledger_name b @ ''-'' @ i @ ''-key''"

section \<open>Settings\<close>

definition v4_prefix :: "string \<Rightarrow> prefix option" where
  "v4_prefix s = (case parse_prefix s of None \<Rightarrow> None
     | Some p \<Rightarrow> if is4 (p_addr p) \<and> p = masked p then Some p else None)"

definition v4_addr :: "string \<Rightarrow> addr option" where
  "v4_addr s = (case parse_addr s of None \<Rightarrow> None | Some a \<Rightarrow> if is4 a then Some a else None)"

definition outside_infrastructure :: "prefix \<Rightarrow> prefix \<Rightarrow> string \<Rightarrow> bool" where
  "outside_infrastructure p pool cidr \<longleftrightarrow> (case v4_prefix cidr of None \<Rightarrow> False | Some q \<Rightarrow> \<not> overlaps q p \<and> \<not> overlaps q pool)"

definition settings_ok :: "gateway_backend \<Rightarrow> bool" where
  "settings_ok r \<longleftrightarrow> 2 \<le> gb_replicas r \<and> gb_replicas r \<le> 64 \<and> gb_node_selector r \<noteq> [] \<and> 1280 \<le> gb_mtu r \<and> gb_mtu r \<le> 1400
     \<and> 1024 \<le> gb_port_start r \<and> gb_port_end r \<le> 65535 \<and> gb_port_start r \<le> gb_port_end r"

definition identity_complete :: "gateway_backend \<Rightarrow> network_binding \<Rightarrow> bool" where
  "identity_complete r b \<longleftrightarrow> gb_namespace r \<noteq> [] \<and> gb_cluster_uid r \<noteq> [] \<and> gb_image r \<noteq> [] \<and> gb_runtime_dir r \<noteq> []
     \<and> om_namespace (nb_meta b) = gb_namespace r \<and> binding_uid b \<noteq> [] \<and> oi_uid (b_vpc_ref (nb_spec b)) \<noteq> []"

definition transit_fits :: "gateway_backend \<Rightarrow> gateway_attachment \<Rightarrow> prefix \<Rightarrow> bool" where
  "transit_fits r a p \<longleftrightarrow> 16 \<le> p_bits p \<and> p_bits p \<le> 29 \<and> gb_replicas r \<le> 2 ^ nat (32 - p_bits p) - 3
     \<and> gt_router_ip a = addr_text (addr_next (p_addr p)) \<and> gt_member_ips a = []"

definition gateway_validate :: "gateway_backend \<Rightarrow> network_binding \<Rightarrow> gateway_attachment \<Rightarrow> unit res" where
  "gateway_validate r b a =
     (if \<not> identity_complete r b then Inl ''incomplete local gateway identity or configuration''
      else if \<not> settings_ok r then Inl ''invalid managed gateway settings''
      else if b_local_asn (nb_spec b) < 4200000000 \<or> 4294967294 < b_local_asn (nb_spec b) then Inl ''durable private location ASN is required''
      else (case v4_prefix (gt_transit_cidr a) of None \<Rightarrow> Inl ''invalid transit prefix'' | Some p \<Rightarrow>
        if \<not> transit_fits r a p then Inl ''transit allocation must fit durable members and use its first host as router''
        else (case (v4_addr (gt_router_ip a), v4_addr (gt_bfd_source_ip a)) of
            (Some _, Some source) \<Rightarrow>
              (case v4_prefix (gb_allocation_pool r) of None \<Rightarrow> Inl ''invalid reserved control pool'' | Some pool \<Rightarrow>
                if overlaps pool p \<or> contains pool source \<or> contains p source then Inl ''invalid reserved control pool''
                else rbind (guard (list_all (\<lambda>s. outside_infrastructure p pool (rs_cidr s)) (b_remote_subnets (nb_spec b)))
                       ''remote subnet overlaps infrastructure or is invalid'') (\<lambda>_.
                     guard (list_all (\<lambda>s. outside_infrastructure p pool (bs_cidr s)) (b_subnets (nb_spec b)))
                       ''local subnet overlaps infrastructure or is invalid''))
          | _ \<Rightarrow> Inl ''invalid attachment address'')))"

section \<open>The ledger of the members\<close>

definition zero_or :: "prefix option \<Rightarrow> prefix" where
  "zero_or x = (case x of None \<Rightarrow> prefix_zero | Some p \<Rightarrow> p)"

text \<open>The addresses taken and the peers seen, over the links of one member.\<close>

definition check_ledger_link :: "prefix \<Rightarrow> string list \<times> string list \<Rightarrow> gateway_link \<Rightarrow> (string list \<times> string list) res" where
  "check_ledger_link pool st l = (case st of (ips, peers) \<Rightarrow>
     (case parse_addr (gl_tunnel_ip l) of
        None \<Rightarrow> Inl ''gateway ledger contains conflicting control addresses''
      | Some ip \<Rightarrow>
          if \<not> contains pool ip \<or> gl_tunnel_ip l \<in> set ips \<or> gl_peer_id l \<in> set peers \<or> gl_peer_id l = []
          then Inl ''gateway ledger contains conflicting control addresses''
          else Inr (gl_tunnel_ip l # ips, gl_peer_id l # peers)))"

type_synonym ledger_seen = "string list \<times> string list \<times> string list"

definition member_fits :: "gateway_backend \<Rightarrow> network_binding \<Rightarrow> gateway_attachment \<Rightarrow> ledger_seen \<Rightarrow> gateway_member \<Rightarrow> bool" where
  "member_fits r b a st m = (case st of (ids, nodes, ips) \<Rightarrow> let g = gm_endpoint m in
     ge_id g \<noteq> [] \<and> ge_node_uid g \<noteq> [] \<and> ge_id g \<notin> set ids \<and> ge_node_uid g \<notin> set nodes
     \<and> (case (parse_addr (ge_transit_ip g), parse_addr (ge_health_ip g)) of
          (Some ip, Some health) \<Rightarrow> contains (zero_or (parse_prefix (gt_transit_cidr a))) ip \<and> contains (zero_or (parse_prefix (gb_allocation_pool r))) health
        | _ \<Rightarrow> False)
     \<and> ge_transit_ip g \<notin> set ips \<and> ge_health_ip g \<notin> set ips \<and> ge_local_asn g = b_local_asn (nb_spec b)
     \<and> gm_secret_name m = secret_name b (ge_id g))"

definition check_ledger_member :: "gateway_backend \<Rightarrow> network_binding \<Rightarrow> gateway_attachment \<Rightarrow> ledger_seen \<Rightarrow> gateway_member \<Rightarrow> ledger_seen res" where
  "check_ledger_member r b a st m =
     (if \<not> member_fits r b a st m then Inl ''gateway ledger identity or reserved allocation changed''
      else (case st of (ids, nodes, ips) \<Rightarrow> let g = gm_endpoint m in
        rbind (foldr_res (check_ledger_link (zero_or (parse_prefix (gb_allocation_pool r)))) (ge_health_ip g # ge_transit_ip g # ips, []) (ge_links g))
          (\<lambda>(ips', peers). Inr (ge_id g # ids, ge_node_uid g # nodes, ips'))))"

definition validate_ledger :: "gateway_backend \<Rightarrow> network_binding \<Rightarrow> gateway_attachment \<Rightarrow> member_ledger \<Rightarrow> unit res" where
  "validate_ledger r b a l =
     rbind (foldr_res (check_ledger_member r b a) ([], [], [gt_router_ip a, gt_bfd_source_ip a]) (ml_members l)) (\<lambda>_. Inr ())"

definition member_json :: "gateway_member \<Rightarrow> json" where
  "member_json m = JObj ((''endpoint'', gateway_endpoint_json (gm_endpoint m))
     # omit_empty (gm_secret_name m = []) (''secretName'', JStr (gm_secret_name m)))"

definition ledger_json :: "member_ledger \<Rightarrow> json" where
  "ledger_json l = JObj [(''OwnerUID'', JStr (ml_owner_uid l)), (''VPCUID'', JStr (ml_vpc_uid l)), (''Location'', JStr (ml_location l)),
     (''TransitCIDR'', JStr (ml_transit_cidr l)), (''Profile'', JStr (ml_profile l)), (''Members'', JArr (map member_json (ml_members l)))]"

definition ledger_text :: "member_ledger \<Rightarrow> string" where
  "ledger_text l = json_enc (ledger_json l)"

section \<open>Nodes\<close>

definition node_endpoint :: "gateway_backend \<Rightarrow> gnode \<Rightarrow> string" where
  "node_endpoint r n =
     (if gb_endpoint_annotation r \<noteq> [] then mget (om_annotations (no_meta n)) (gb_endpoint_annotation r)
      else (case List.map_filter (\<lambda>(t, a). if t = ''InternalIP'' then v4_addr a else None) (no_addresses n) of
          [] \<Rightarrow> [] | ip # _ \<Rightarrow> addr_text ip))"

definition first_ready :: "(string \<times> string) list \<Rightarrow> bool" where
  "first_ready conditions = (map_of conditions ''Ready'' = Some ''True'')"

definition eligible :: "gnode \<Rightarrow> bool" where
  "eligible n \<longleftrightarrow> \<not> no_unschedulable n \<and> \<not> list_ex (\<lambda>e. e = ''NoSchedule'' \<or> e = ''NoExecute'') (no_taint_effects n)
     \<and> first_ready (no_conditions n)"

definition selected_nodes :: "gateway_backend \<Rightarrow> gnode list \<Rightarrow> gnode list" where
  "selected_nodes r nodes = filter (\<lambda>n. eligible n \<and> ipv4 (node_endpoint r n) \<and> om_uid (no_meta n) \<noteq> []) (sort_slice (\<lambda>n. om_name (no_meta n)) nodes)"

section \<open>The inventory\<close>

definition gateway_record :: "string \<Rightarrow> object_meta \<Rightarrow> resource_record" where
  "gateway_record kind m = \<lparr>rr_api_version = ''v1'', rr_kind = kind, rr_namespace = om_namespace m, rr_name = om_name m, rr_uid = om_uid m\<rparr>"

definition suspect :: "network_binding \<Rightarrow> object_meta \<Rightarrow> bool" where
  "suspect b m \<longleftrightarrow> mget (om_labels m) api_owner_label = binding_uid b \<or> om_name m = ledger_name b
     \<or> has_prefix (om_name m) (ledger_name b @ ''-'') \<or> list_ex (\<lambda>w. or_uid w = binding_uid b) (om_owners m)"

text \<open>The records found so far and the names of the Secrets they mention.\<close>

type_synonym inventory = "resource_record list \<times> string list"

definition take_pod :: "network_binding \<Rightarrow> inventory \<Rightarrow> gpod \<Rightarrow> inventory res" where
  "take_pod b st p = (case st of (found, names) \<Rightarrow>
     if \<not> suspect b (gp_meta p) then Inr (found, names)
     else if \<not> gateway_owned (gp_meta p) b then Inl ''gateway Pod ownership changed''
     else Inr (found @ [gateway_record ''Pod'' (gp_meta p)], names @ map fst (List.map_filter vo_secret (gp_volumes p))))"

definition take_map :: "network_binding \<Rightarrow> inventory \<Rightarrow> config_map \<Rightarrow> inventory res" where
  "take_map b st cm = (case st of (found, names) \<Rightarrow>
     if \<not> suspect b (cm_meta cm) then Inr (found, names)
     else if \<not> gateway_owned (cm_meta cm) b then Inl ''gateway ConfigMap ownership changed''
     else let found' = found @ [gateway_record ''ConfigMap'' (cm_meta cm)] in
       if om_name (cm_meta cm) = ledger_name b then
         (case unmarshal decode_member_ledger (mget (cm_data cm) ledger_data) zero_member_ledger of
            None \<Rightarrow> Inl ''invalid gateway ledger''
          | Some l \<Rightarrow> Inr (found', if ml_profile l = ''wireguard-bgp'' then names @ map gm_secret_name (ml_members l) else names))
       else Inr (found', names))"

definition take_secret :: "network_binding \<Rightarrow> resource_record list \<Rightarrow> gsecret \<Rightarrow> resource_record list res" where
  "take_secret b found s =
     (if \<not> gateway_owned (se_meta s) b then Inl ''gateway Secret ownership changed''
      else Inr (found @ [gateway_record ''Secret'' (se_meta s)]))"

definition named_secret :: "gateway_backend \<Rightarrow> network_binding \<Rightarrow> string list \<Rightarrow> resource_record list \<Rightarrow> string \<Rightarrow> (err + resource_record list) gprog" where
  "named_secret r b listed found name =
     (if name = [] \<or> name \<in> set listed then go found
      else pbind (gapi (kget g_secret ''Secret'' (gb_namespace r) name)) (\<lambda>x. case x of
         Inl e \<Rightarrow> if is_not_found e then go found else leave e
       | Inr s \<Rightarrow> lift_res Errorf (take_secret b found s)))"

definition gateway_resources :: "gateway_backend \<Rightarrow> network_binding \<Rightarrow> (err + resource_record list) gprog" where
  "gateway_resources r b =
     (let ns = gb_namespace r in
      ebind (gapi (klist g_pod ''Pod'' (Some ns) [])) (\<lambda>pods.
      ebind (gapi (klist g_map ''ConfigMap'' (Some ns) [])) (\<lambda>maps.
      let names0 = map rr_name (filter (\<lambda>rr. rr_kind rr = ''Secret'' \<and> rr_namespace rr = ns) (bst_resources (nb_status b))) in
      ebind (lift_res Errorf (foldr_res (take_pod b) ([], names0) pods)) (\<lambda>st.
      ebind (lift_res Errorf (foldr_res (take_map b) st maps)) (\<lambda>(found, names).
      ebind (gapi (klist g_secret ''Secret'' (Some ns) [(api_owner_label, binding_uid b)])) (\<lambda>secrets.
      ebind (lift_res Errorf (foldr_res (take_secret b) found secrets)) (\<lambda>found'.
      ebind (efold (named_secret r b (map (\<lambda>s. om_name (se_meta s)) secrets)) found' (remdups names)) (\<lambda>all.
      go (sort_slice (\<lambda>rr. rr_kind rr @ rr_name rr) all)))))))))"

section \<open>Members\<close>

definition ledger_matches :: "gateway_backend \<Rightarrow> network_binding \<Rightarrow> gateway_attachment \<Rightarrow> member_ledger \<Rightarrow> bool" where
  "ledger_matches r b a l \<longleftrightarrow> ml_owner_uid l = binding_uid b \<and> ml_vpc_uid l = oi_uid (b_vpc_ref (nb_spec b)) \<and> ml_location l = b_location_ref (nb_spec b)
     \<and> ml_transit_cidr l = gt_transit_cidr a \<and> ml_profile l = b_transport_profile (nb_spec b) \<and> int (length (ml_members l)) = gb_replicas r"

definition read_members :: "gateway_backend \<Rightarrow> network_binding \<Rightarrow> gateway_attachment \<Rightarrow> config_map \<Rightarrow> member_ledger res" where
  "read_members r b a cm =
     (if \<not> gateway_owned (cm_meta cm) b then Inl ''foreign gateway ledger''
      else (case unmarshal decode_member_ledger (mget (cm_data cm) ledger_data) zero_member_ledger of
          None \<Rightarrow> Inl ''invalid gateway ledger''
        | Some l \<Rightarrow> if ledger_matches r b a l then Inr l else Inl ''gateway allocation is immutable; replacement requires explicit retirement''))"

definition hex_bytes :: "string \<Rightarrow> string" where
  "hex_bytes s = concat (map (\<lambda>c. [hex_char (of_char c div 16), hex_char (of_char c mod 16)]) s)"

definition insufficient_msg :: "gateway_backend \<Rightarrow> string" where
  "insufficient_msg r = ''InsufficientGatewayNodes: need '' @ int_str (gb_replicas r) @ '' distinct ready selected nodes''"

definition new_member :: "network_binding \<Rightarrow> gnode \<Rightarrow> string \<Rightarrow> addr \<Rightarrow> string \<Rightarrow> string \<Rightarrow> gateway_member" where
  "new_member b n i ip endpoint health = \<lparr>gm_endpoint = zero_endpoint\<lparr>ge_id := i, ge_node_name := om_name (no_meta n),
     ge_node_uid := om_uid (no_meta n), ge_endpoint_ip := endpoint, ge_transit_ip := addr_text ip,
     ge_local_asn := b_local_asn (nb_spec b), ge_health_ip := health\<rparr>, gm_secret_name = secret_name b i\<rparr>"

text \<open>
  The loop over the selected nodes: it ends when the wanted number of members is reached. A selected node is
  eligible and has an IPv4 endpoint, so the code's second look at it always goes on.
\<close>

primrec choose_members :: "gateway_backend \<Rightarrow> nat \<Rightarrow> network_binding \<Rightarrow> prefix \<Rightarrow> addr \<Rightarrow> gateway_member list \<Rightarrow> gnode list \<Rightarrow> (err + gateway_member list) gprog" where
  "choose_members r retries b transit ip done_members [] = go done_members"
| "choose_members r retries b transit ip done_members (n # ns) =
     (if \<not> contains transit (addr_next ip) then leave (Errorf ''transit pool lacks member addresses'')
      else ebind (random_bytes 8) (\<lambda>raw. let i = CHR ''g'' # hex_bytes raw in
        ebind (gapi (gateway_allocate r retries (binding_uid b @ ''/'' @ i @ ''/health'') WantAddress)) (\<lambda>health.
        let members = done_members @ [new_member b n i ip (node_endpoint r n) health] in
        if int (length members) = gb_replicas r then go members
        else choose_members r retries b transit (addr_next ip) members ns)))"

definition new_ledger :: "network_binding \<Rightarrow> gateway_attachment \<Rightarrow> gateway_member list \<Rightarrow> member_ledger" where
  "new_ledger b a ms = \<lparr>ml_owner_uid = binding_uid b, ml_vpc_uid = oi_uid (b_vpc_ref (nb_spec b)), ml_location = b_location_ref (nb_spec b),
     ml_transit_cidr = gt_transit_cidr a, ml_profile = b_transport_profile (nb_spec b), ml_members = ms\<rparr>"

definition ledger_object :: "gateway_backend \<Rightarrow> network_binding \<Rightarrow> member_ledger \<Rightarrow> config_map" where
  "ledger_object r b l = \<lparr>cm_meta = gateway_metadata (ledger_name b) b (gb_namespace r), cm_data = [(ledger_data, ledger_text l)], cm_immutable = None\<rparr>"

definition found_members :: "gateway_backend \<Rightarrow> nat \<Rightarrow> network_binding \<Rightarrow> gateway_attachment \<Rightarrow> (err + member_ledger) gprog" where
  "found_members r retries b a =
     ebind (gateway_resources r b) (\<lambda>existing.
     if existing \<noteq> [] then leave (Errorf ''GatewayLedgerLost: preserve existing incarnations for explicit recovery'')
     else ebind (gapi (klist g_node ''Node'' None (gb_node_selector r))) (\<lambda>nodes.
       let selected = selected_nodes r nodes in
       if int (length selected) < gb_replicas r then leave (Errorf (insufficient_msg r))
       else let transit = zero_or (parse_prefix (gt_transit_cidr a)) in
         ebind (choose_members r retries b transit (addr_next (addr_next (p_addr transit))) [] selected) (\<lambda>ms.
         if int (length ms) \<noteq> gb_replicas r then leave (Errorf (insufficient_msg r)) else go (new_ledger b a ms))))"

text \<open>
  A ledger that appeared between the read and the creation is read again. The code re-enters the function, each
  time only after the server first denied and then reported the object; \<open>tries\<close> bounds the re-entries.
\<close>

primrec gateway_members :: "gateway_backend \<Rightarrow> nat \<Rightarrow> nat \<Rightarrow> network_binding \<Rightarrow> gateway_attachment \<Rightarrow> (err + member_ledger) gprog" where
  "gateway_members r retries 0 b a = leave (AlreadyExists (ledger_name b))"
| "gateway_members r retries (Suc tries) b a =
     pbind (gapi (kget g_map ''ConfigMap'' (gb_namespace r) (ledger_name b))) (\<lambda>x. case x of
       Inr cm \<Rightarrow> lift_res Errorf (read_members r b a cm)
     | Inl e \<Rightarrow> if \<not> is_not_found e then leave e
         else ebind (found_members r retries b a) (\<lambda>l.
           pbind (gapi (kdo (Create (GMap (ledger_object r b l))))) (\<lambda>y. case y of
             Inr _ \<Rightarrow> go l
           | Inl e \<Rightarrow> if is_already_exists e then gateway_members r retries tries b a else leave e)))"

definition save_once :: "gateway_backend \<Rightarrow> network_binding \<Rightarrow> member_ledger \<Rightarrow> (gobj, err + unit) kprog" where
  "save_once r b l =
     ebind (kget g_map ''ConfigMap'' (gb_namespace r) (ledger_name b)) (\<lambda>cm.
     if \<not> gateway_owned (cm_meta cm) b then leave (Errorf ''foreign gateway ledger'')
     else if mget (cm_data cm) ledger_data = ledger_text l then go ()
     else kdo (Update (GMap (cm\<lparr>cm_data := mput ledger_data (ledger_text l) (cm_data cm)\<rparr>))))"

definition save_ledger :: "gateway_backend \<Rightarrow> nat \<Rightarrow> network_binding \<Rightarrow> member_ledger \<Rightarrow> (err + unit) gprog" where
  "save_ledger r retries b l = gapi (retry_on_conflict retries (save_once r b l))"

section \<open>Keys\<close>

definition clamp_private :: "string \<Rightarrow> string" where
  "clamp_private raw = clamp_scalar raw"

definition new_secret :: "gateway_backend \<Rightarrow> network_binding \<Rightarrow> string \<Rightarrow> string \<Rightarrow> gsecret" where
  "new_secret r b name raw = \<lparr>se_meta = gateway_metadata name b (gb_namespace r), se_type = ''Opaque'', se_immutable = Some True,
     se_data = [(''privateKey'', b64_encode raw), (''publicKey'', b64_encode (x25519_public raw))]\<rparr>"

definition secret_key :: "network_binding \<Rightarrow> gateway_member \<Rightarrow> gsecret \<Rightarrow> gateway_member res" where
  "secret_key b m s =
     (if \<not> gateway_owned (se_meta s) b \<or> se_immutable s \<noteq> Some True then Inl ''foreign or mutable gateway key''
      else (case b64_decode (mget (se_data s) ''privateKey'') of
          None \<Rightarrow> Inl ''invalid private key encoding''
        | Some raw \<Rightarrow>
            if length raw \<noteq> 32 then Inl ''invalid private key encoding''
            else let pub = b64_encode (x25519_public raw); published = ge_public_key (gm_endpoint m) in
              if pub \<noteq> mget (se_data s) ''publicKey'' then Inl ''gateway key pair mismatch''
              else if published \<noteq> [] \<and> published \<noteq> pub then Inl ''gateway public key changed''
              else Inr (m\<lparr>gm_endpoint := (gm_endpoint m)\<lparr>ge_public_key := pub\<rparr>\<rparr>)))"

primrec ensure_key :: "gateway_backend \<Rightarrow> nat \<Rightarrow> network_binding \<Rightarrow> gateway_member \<Rightarrow> (err + gateway_member) gprog" where
  "ensure_key r 0 b m = leave (AlreadyExists (gm_secret_name m))"
| "ensure_key r (Suc tries) b m =
     pbind (gapi (kget g_secret ''Secret'' (gb_namespace r) (gm_secret_name m))) (\<lambda>x. case x of
       Inr s \<Rightarrow> lift_res Errorf (secret_key b m s)
     | Inl e \<Rightarrow>
         if \<not> is_not_found e then leave e
         else if ge_public_key (gm_endpoint m) \<noteq> [] then leave (Errorf ''GatewayKeyLost: published identity cannot be regenerated'')
         else ebind (random_bytes 32) (\<lambda>raw.
           let s = new_secret r b (gm_secret_name m) (clamp_private raw) in
           pbind (gapi (kwrite g_secret (Create (GSecret s)))) (\<lambda>y. case y of
             Inr s' \<Rightarrow> lift_res Errorf (secret_key b m s')
           | Inl e \<Rightarrow> if is_already_exists e then ensure_key r tries b m else leave e)))"

section \<open>Links\<close>

definition known_links :: "gateway_link list \<Rightarrow> gateway_link smap" where
  "known_links links = fold (\<lambda>l m. mput (gl_peer_id l) l m) links []"

definition pair_vni :: "network_binding \<Rightarrow> string \<Rightarrow> string \<Rightarrow> u32" where
  "pair_vni b here there = fold (\<lambda>x v. if la_peer_a x = here \<and> la_peer_b x = there \<or> la_peer_b x = here \<and> la_peer_a x = there then la_control_vni x else v)
     (b_link_allocations (nb_spec b)) 0"

definition int32_of :: "int \<Rightarrow> int" where
  "int32_of v = (v + 2 ^ 31) mod 2 ^ 32 - 2 ^ 31"

definition atoi :: "string \<Rightarrow> int" where
  "atoi s = (case parse_int64 s of None \<Rightarrow> 0 | Some v \<Rightarrow> v)"

definition claim_link :: "gateway_backend \<Rightarrow> nat \<Rightarrow> network_binding \<Rightarrow> gateway_member \<Rightarrow> gateway_link smap \<Rightarrow> peer_gateway \<Rightarrow> (err + gateway_link smap) gprog" where
  "claim_link r retries b m existing p =
     (if pg_location_ref p = b_location_ref (nb_spec b) \<or> ge_id (pg_endpoint p) = [] then leave (Errorf ''invalid remote peer identity'')
      else let remote = peer_key p in
        if map_of existing remote \<noteq> None then go existing
        else let key = binding_uid b @ ''/'' @ ge_id (gm_endpoint m) @ ''/'' @ remote; profile = b_transport_profile (nb_spec b) in
          ebind (gapi (gateway_allocate r retries key WantAddress)) (\<lambda>ip.
          let link = zero_link\<lparr>gl_peer_id := remote, gl_tunnel_ip := ip\<rparr> in
          if profile = ''wireguard-bgp'' then
            ebind (gapi (gateway_allocate r retries key (WantPort (ge_node_uid (gm_endpoint m))))) (\<lambda>port.
            go (mput remote (link\<lparr>gl_listen_port := int32_of (atoi port)\<rparr>) existing))
          else if profile = ''geneve-bgp'' \<or> profile = ''vxlan-evpn'' then
            (let vni = pair_vni b (local_peer_id b m) remote in
             if vni = 0 then go existing
             else go (mput remote (link\<lparr>gl_listen_port := (if profile = ''vxlan-evpn'' then 4788 else 6082), gl_control_vni := vni\<rparr>) existing))
          else leave (Errorf ''unknown transport profile'')))"

definition link_claims :: "gateway_backend \<Rightarrow> nat \<Rightarrow> network_binding \<Rightarrow> gateway_member \<Rightarrow> (err + gateway_member) gprog" where
  "link_claims r retries b m =
     ebind (efold (claim_link r retries b m) (known_links (ge_links (gm_endpoint m))) (b_peers (nb_spec b))) (\<lambda>existing.
     go (m\<lparr>gm_endpoint := (gm_endpoint m)\<lparr>ge_links := sort_slice gl_peer_id (map snd existing)\<rparr>\<rparr>))"

end
