(* ===== verification/Gateway_Reconciler.thy ===== *)
theory Gateway_Reconciler
  imports Gateway_Members Local_Reconciler
begin

text \<open>
  \<open>internal/managedgateway/reconciler.go\<close>, second part: the objects of a member, the checks of a running Pod,
  \<open>Ensure\<close> with its rolling replacement of Pods, and \<open>Delete\<close>. \<open>Ensure\<close> returns a result also beside an error;
  an early return carries both.
\<close>

section \<open>The objects of a member\<close>

definition hash_text :: "string smap \<Rightarrow> string \<Rightarrow> string" where
  "hash_text data img = sha256_hex (json_enc (JObj [(''Data'', if data = [] then JNull else json_map JStr data), (''Image'', JStr img)]))"

definition runtime_files :: "string list" where
  "runtime_files = [''gateway.py'', ''overlay.py'', ''evpn.py'', ''managed.py'']"

text \<open>\<open>filepath.Join\<close> of a clean directory and a name.\<close>

definition read_runtime :: "gateway_backend \<Rightarrow> string smap \<Rightarrow> string \<Rightarrow> (err + string smap) gprog" where
  "read_runtime r data name = pbind (read_file (gb_runtime_dir r @ ''/'' @ name)) (\<lambda>x. case x of
     Inl e \<Rightarrow> leave (Errorf (''read gateway runtime '' @ name @ '': '' @ err_text e)) | Inr text \<Rightarrow> go (mput name text data))"

definition runtime_mount :: "string \<Rightarrow> string \<Rightarrow> gmount" where
  "runtime_mount name path = \<lparr>mt_name = name, mt_path = path, mt_read_only = True, mt_sub_path = [], mt_sub_path_expr = []\<rparr>"

definition gateway_command :: "string list" where
  "gateway_command = [''python3'', ''/app/managed.py'']"

definition gateway_container :: "gateway_backend \<Rightarrow> network_binding \<Rightarrow> gcontainer" where
  "gateway_container r b = \<lparr>gc_name = ''gateway'', gc_image = gb_image r, gc_pull_policy = ''IfNotPresent'', gc_command = gateway_command,
     gc_args = [], gc_privileged = Some True, gc_requests = [(''cpu'', ''25m''), (''memory'', ''64Mi'')], gc_limits = [(''memory'', ''192Mi'')],
     gc_readiness = Some \<lparr>pb_command = gateway_command @ [''--ready''], pb_period = 2, pb_timeout = 2, pb_failures = 2\<rparr>,
     gc_mounts = [runtime_mount ''runtime'' ''/app'', runtime_mount ''runtime'' ''/config'']
       @ (if b_transport_profile (nb_spec b) = ''wireguard-bgp'' then [runtime_mount ''keys'' ''/keys''] else [])\<rparr>"

definition gateway_volumes :: "network_binding \<Rightarrow> gateway_member \<Rightarrow> string \<Rightarrow> gvolume list" where
  "gateway_volumes b m config = \<lparr>vo_name = ''runtime'', vo_config_map = Some config, vo_secret = None\<rparr>
     # (if b_transport_profile (nb_spec b) = ''wireguard-bgp''
        then [\<lparr>vo_name = ''keys'', vo_config_map = None, vo_secret = Some (gm_secret_name m, Some 256)\<rparr>] else [])"

definition gateway_pod :: "gateway_backend \<Rightarrow> network_binding \<Rightarrow> gateway_member \<Rightarrow> string \<Rightarrow> string \<Rightarrow> gpod" where
  "gateway_pod r b m hash config = \<lparr>gp_meta = (gateway_metadata (pod_name b m) b (gb_namespace r))
       \<lparr>om_labels := mput member_label (ge_id (gm_endpoint m)) (gateway_labels b),
        om_annotations := [(config_hash_annotation, hash), (''ovn.kubernetes.io/logical_switch'', gateway_transit_name b),
          (''ovn.kubernetes.io/ip_address'', ge_transit_ip (gm_endpoint m)), (''ovn.kubernetes.io/port_security'', ''false'')]\<rparr>,
     gp_node_name = ge_node_name (gm_endpoint m), gp_host_network = False, gp_host_pid = True, gp_automount = Some False, gp_grace = Some 15,
     gp_restart_policy = ''Always'', gp_init_containers = [], gp_containers = [gateway_container r b],
     gp_volumes = gateway_volumes b m config, gp_conditions = []\<rparr>"

definition member_objects :: "gateway_backend \<Rightarrow> network_binding \<Rightarrow> gateway_member \<Rightarrow> json \<Rightarrow> string smap \<Rightarrow> config_map \<times> gpod" where
  "member_objects r b m config files =
     (let data = mput ''gateway.json'' (json_enc config) files; hash = hash_text data (gb_image r);
          name = pod_name b m @ ''-'' @ take 10 hash
      in (\<lparr>cm_meta = gateway_metadata name b (gb_namespace r), cm_data = data, cm_immutable = Some True\<rparr>, gateway_pod r b m hash name))"

definition gateway_objects :: "gateway_backend \<Rightarrow> network_binding \<Rightarrow> gateway_member \<Rightarrow> json \<Rightarrow> (err + config_map \<times> gpod) gprog" where
  "gateway_objects r b m config = ebind (efold (read_runtime r) [] runtime_files) (\<lambda>files. go (member_objects r b m config files))"

definition ensure_config :: "gateway_backend \<Rightarrow> network_binding \<Rightarrow> config_map \<Rightarrow> (err + unit) gprog" where
  "ensure_config r b want = pbind (gapi (kget g_map ''ConfigMap'' (om_namespace (cm_meta want)) (om_name (cm_meta want)))) (\<lambda>x. case x of
     Inl e \<Rightarrow> if is_not_found e then gapi (kdo (Create (GMap want))) else leave e
   | Inr actual \<Rightarrow> if \<not> gateway_owned (cm_meta actual) b \<or> \<not> same_map (cm_data actual) (cm_data want) \<or> cm_immutable actual \<noteq> Some True
       then leave (Errorf ''foreign or modified runtime ConfigMap'') else go ())"

section \<open>Running Pods\<close>

definition pod_ready :: "gpod \<Rightarrow> bool" where
  "pod_ready p \<longleftrightarrow> om_deletion (gp_meta p) = None \<and> first_ready (gp_conditions p)"

definition pod_placed :: "gateway_member \<Rightarrow> gpod \<Rightarrow> bool" where
  "pod_placed m p \<longleftrightarrow> gp_node_name p = ge_node_name (gm_endpoint m) \<and> \<not> gp_host_network p \<and> gp_host_pid p \<and> gp_automount p = Some False
     \<and> length (gp_containers p) = 1 \<and> gp_init_containers p = []"

definition runs_gateway :: "gcontainer \<Rightarrow> bool" where
  "runs_gateway c \<longleftrightarrow> gc_name c = ''gateway'' \<and> gc_command c = gateway_command \<and> gc_args c = [] \<and> gc_privileged c = Some True
     \<and> (case gc_readiness c of None \<Rightarrow> False | Some q \<Rightarrow> pb_command q = gateway_command @ [''--ready''])"

definition wanted_volumes :: "network_binding \<Rightarrow> nat" where
  "wanted_volumes b = (if b_transport_profile (nb_spec b) = ''wireguard-bgp'' then 2 else 1)"

definition mounts_runtime :: "nat \<times> gmount \<Rightarrow> bool" where
  "mounts_runtime im = (case im of (i, mount) \<Rightarrow>
     mt_name mount = (if i = 2 then ''keys'' else ''runtime'')
     \<and> mt_path mount = (if i = 2 then ''/keys'' else if i = 1 then ''/config'' else ''/app'')
     \<and> mt_read_only mount \<and> mt_sub_path mount = [] \<and> mt_sub_path_expr mount = [])"

text \<open>The checks that need only the Pod; the result is the name of its configuration and its image.\<close>

definition check_pod_spec :: "network_binding \<Rightarrow> gateway_member \<Rightarrow> gpod \<Rightarrow> (string \<times> string) res" where
  "check_pod_spec b m p =
     (if \<not> pod_placed m p then Inl ''gateway Pod isolation or placement changed''
      else let c = hd (gp_containers p) in
        if \<not> runs_gateway c then Inl ''gateway Pod runtime command changed''
        else if length (gp_volumes p) \<noteq> wanted_volumes b \<or> length (gc_mounts c) \<noteq> wanted_volumes b + 1 \<or> vo_name (gp_volumes p ! 0) \<noteq> ''runtime''
        then Inl ''gateway Pod runtime volume changed''
        else (case vo_config_map (gp_volumes p ! 0) of
            None \<Rightarrow> Inl ''gateway Pod runtime volume changed''
          | Some config \<Rightarrow>
              if wanted_volumes b = 2 \<and> (vo_name (gp_volumes p ! 1) \<noteq> ''keys'' \<or> map_option fst (vo_secret (gp_volumes p ! 1)) \<noteq> Some (gm_secret_name m))
              then Inl ''gateway Pod key reference changed''
              else if \<not> list_all mounts_runtime (enumerate 0 (gc_mounts c)) then Inl ''gateway Pod runtime mount changed''
              else Inr (config, gc_image c)))"

definition pod_attached :: "network_binding \<Rightarrow> gateway_member \<Rightarrow> gpod \<Rightarrow> bool" where
  "pod_attached b m p \<longleftrightarrow> mget (om_annotations (gp_meta p)) ''ovn.kubernetes.io/logical_switch'' = gateway_transit_name b
     \<and> mget (om_annotations (gp_meta p)) ''ovn.kubernetes.io/ip_address'' = ge_transit_ip (gm_endpoint m)
     \<and> mget (om_annotations (gp_meta p)) ''ovn.kubernetes.io/port_security'' = ''false''"

definition verify_pod :: "gateway_backend \<Rightarrow> network_binding \<Rightarrow> gateway_member \<Rightarrow> gpod \<Rightarrow> (err + unit) gprog" where
  "verify_pod r b m p =
     ebind (lift_res Errorf (check_pod_spec b m p)) (\<lambda>(config, img).
     ebind (gapi (kget g_map ''ConfigMap'' (gb_namespace r) config)) (\<lambda>cm.
     lift_res Errorf (
       if \<not> gateway_owned (cm_meta cm) b \<or> cm_immutable cm \<noteq> Some True then Inl ''gateway accepted configuration ownership changed''
       else if hash_text (cm_data cm) img \<noteq> mget (om_annotations (gp_meta p)) config_hash_annotation
       then Inl ''gateway accepted image or configuration changed''
       else guard (pod_attached b m p) ''gateway native network attachment changed'')))"

section \<open>Removing objects\<close>

definition delete_checked :: "network_binding \<Rightarrow> resource_record \<Rightarrow> object_meta \<Rightarrow> gobj \<Rightarrow> (err + unit) gprog" where
  "delete_checked b rr meta x =
     (if om_uid meta \<noteq> rr_uid rr \<or> \<not> gateway_owned meta b then leave (Errorf ''gateway resource incarnation changed'')
      else pbind (gapi (kdo (Delete x (Some (rr_uid rr)) (Some (om_resource_version meta))))) (\<lambda>y. case y of
        Inl e \<Rightarrow> if is_not_found e then go () else leave e | Inr _ \<Rightarrow> go ()))"

definition delete_record :: "gateway_backend \<Rightarrow> network_binding \<Rightarrow> resource_record \<Rightarrow> (err + unit) gprog" where
  "delete_record r b rr =
     (if rr_kind rr = ''ConfigMap'' then
        pbind (gapi (kget g_map ''ConfigMap'' (gb_namespace r) (rr_name rr))) (\<lambda>x. case x of
          Inl e \<Rightarrow> if is_not_found e then go () else leave e | Inr cm \<Rightarrow> delete_checked b rr (cm_meta cm) (GMap cm))
      else if rr_kind rr = ''Secret'' then
        pbind (gapi (kget g_secret ''Secret'' (gb_namespace r) (rr_name rr))) (\<lambda>x. case x of
          Inl e \<Rightarrow> if is_not_found e then go () else leave e | Inr s \<Rightarrow> delete_checked b rr (se_meta s) (GSecret s))
      else leave (Errorf ''unsupported gateway resource''))"

definition prune_map :: "gateway_backend \<Rightarrow> network_binding \<Rightarrow> string list \<Rightarrow> config_map \<Rightarrow> (err + unit) gprog" where
  "prune_map r b used cm = (if om_name (cm_meta cm) \<in> set used then go () else delete_record r b (gateway_record ''ConfigMap'' (cm_meta cm)))"

definition used_maps :: "network_binding \<Rightarrow> gpod list \<Rightarrow> string list" where
  "used_maps b pods = ledger_name b # List.map_filter vo_config_map (concat (map gp_volumes pods))"

definition prune_configs :: "gateway_backend \<Rightarrow> network_binding \<Rightarrow> (err + unit) gprog" where
  "prune_configs r b =
     (let ns = Some (gb_namespace r); owner = [(api_owner_label, binding_uid b)] in
      ebind (gapi (klist g_pod ''Pod'' ns owner)) (\<lambda>pods.
      ebind (gapi (klist g_map ''ConfigMap'' ns owner)) (\<lambda>maps.
      efold (\<lambda>_. prune_map r b (used_maps b pods)) () maps)))"

section \<open>Ensure\<close>

definition initial_result :: gateway_result where
  "initial_result = \<lparr>gr_gateways = [], gr_resources = [], gr_ready = False, gr_reason = ''Initializing''\<rparr>"

type_synonym ensured = "gateway_result \<times> err option"

definition or_with :: "gateway_result \<Rightarrow> (err + 'a) gprog \<Rightarrow> (ensured + 'a) gprog" where
  "or_with res p = pbind p (\<lambda>x. Ret (case x of Inl e \<Rightarrow> Inl (res, Some e) | Inr a \<Rightarrow> Inr a))"

definition with_resources :: "gateway_backend \<Rightarrow> network_binding \<Rightarrow> gateway_result \<Rightarrow> ensured gprog" where
  "with_resources r b res = pbind (gateway_resources r b) (\<lambda>x. Ret (case x of
     Inl e \<Rightarrow> (res\<lparr>gr_resources := []\<rparr>, Some e) | Inr rs \<Rightarrow> (res\<lparr>gr_resources := rs\<rparr>, None)))"

text \<open>\<open>result.Reason = reason; return r.withResources(ctx, b, result)\<close>.\<close>

definition stop_with :: "gateway_backend \<Rightarrow> network_binding \<Rightarrow> gateway_result \<Rightarrow> string \<Rightarrow> (ensured + 'a) gprog" where
  "stop_with r b res reason = pbind (with_resources r b (res\<lparr>gr_reason := reason\<rparr>)) leave"

definition check_node :: "gateway_backend \<Rightarrow> gateway_member \<Rightarrow> (err + unit) gprog" where
  "check_node r m = pbind (gapi (kget g_node ''Node'' [] (ge_node_name (gm_endpoint m)))) (\<lambda>x. case x of
     Inl e \<Rightarrow> leave (Errorf (''NodeIdentityUnavailable: '' @ err_text e))
   | Inr n \<Rightarrow> if om_uid (no_meta n) \<noteq> ge_node_uid (gm_endpoint m) \<or> node_endpoint r n \<noteq> ge_endpoint_ip (gm_endpoint m)
       then leave (Errorf ''NodeIdentityChanged: explicit fenced replacement is required'') else go ())"

text \<open>The numbers of retries and of re-entries, for the loops the server decides.\<close>

record attempts =
  tries_conflict :: nat
  tries_again :: nat

definition prepare_member :: "gateway_backend \<Rightarrow> attempts \<Rightarrow> network_binding \<Rightarrow> gateway_member list \<Rightarrow> gateway_member \<Rightarrow> (err + gateway_member list) gprog" where
  "prepare_member r n b done_members m =
     ebind (if b_transport_profile (nb_spec b) = ''wireguard-bgp'' then ensure_key r (tries_again n) b m else go m) (\<lambda>m1.
     ebind (link_claims r (tries_conflict n) b m1) (\<lambda>m2. go (done_members @ [m2])))"

text \<open>Everything before the configurations: the checks, the members and their published receipts.\<close>

definition ensure_members :: "gateway_backend \<Rightarrow> attempts \<Rightarrow> network_binding \<Rightarrow> gateway_attachment \<Rightarrow> (err + member_ledger) gprog" where
  "ensure_members r n b a =
     ebind (lift_res Errorf (gateway_validate r b a)) (\<lambda>_.
     ebind (gapi (gateway_registry r False [b])) (\<lambda>_.
     ebind (gateway_members r (tries_conflict n) (tries_again n) b a) (\<lambda>l.
     ebind (lift_res Errorf (validate_ledger r b a l)) (\<lambda>_.
     ebind (efold (\<lambda>_. check_node r) () (ml_members l)) (\<lambda>_.
     ebind (efold (prepare_member r n b) [] (ml_members l)) (\<lambda>ms.
     let l' = l\<lparr>ml_members := ms\<rparr> in
     ebind (save_ledger r (tries_conflict n) b l') (\<lambda>_. go l')))))))"

text \<open>A member with its configuration, complete or not, and its Pod.\<close>

record slot =
  sl_member :: gateway_member
  sl_config :: "json option"
  sl_pod :: "gpod option"

definition sl_ready :: "slot \<Rightarrow> bool" where
  "sl_ready s \<longleftrightarrow> (case sl_pod s of None \<Rightarrow> False | Some p \<Rightarrow> pod_ready p)"

definition slot_pod :: "gateway_backend \<Rightarrow> network_binding \<Rightarrow> slot list \<Rightarrow> gateway_member \<times> json option \<Rightarrow> (err + slot list) gprog" where
  "slot_pod r b slots mc = (case mc of (m, config) \<Rightarrow>
     pbind (gapi (kget g_pod ''Pod'' (gb_namespace r) (pod_name b m))) (\<lambda>x. case x of
       Inl e \<Rightarrow> if is_not_found e then go (slots @ [\<lparr>sl_member = m, sl_config = config, sl_pod = None\<rparr>]) else leave e
     | Inr p \<Rightarrow>
         if \<not> gateway_owned (gp_meta p) b then leave (Errorf ''foreign gateway Pod'')
         else ebind (verify_pod r b m p) (\<lambda>_. go (slots @ [\<lparr>sl_member = m, sl_config = config, sl_pod = Some p\<rparr>]))))"

definition slot_endpoint :: "slot \<Rightarrow> gateway_endpoint" where
  "slot_endpoint s = (if sl_pod s = None then gm_endpoint (sl_member s) else (gm_endpoint (sl_member s))\<lparr>ge_ready := sl_ready s\<rparr>)"

text \<open>The probes of the other members, in the order of the members; the result tells whether one was not healthy.\<close>

primrec probe_all :: "slot list \<Rightarrow> (err + bool) gprog" where
  "probe_all [] = go True"
| "probe_all (s # ss) = (case sl_pod s of None \<Rightarrow> probe_all ss
     | Some p \<Rightarrow> ebind (run_probe p (sl_config s)) (\<lambda>healthy. if healthy then probe_all ss else go False))"

definition unready :: "slot \<Rightarrow> bool" where
  "unready s \<longleftrightarrow> \<not> sl_ready s"

text \<open>The Pods of the members, each read and checked before any of them is replaced.\<close>

primrec read_pods :: "gateway_backend \<Rightarrow> network_binding \<Rightarrow> gateway_result \<Rightarrow> slot list \<Rightarrow> (gateway_member \<times> json option) list \<Rightarrow> (ensured + slot list) gprog" where
  "read_pods r b res slots [] = go slots"
| "read_pods r b res slots (mc # mcs) =
     ebind (or_with (res\<lparr>gr_gateways := map slot_endpoint slots @ map (\<lambda>x. gm_endpoint (fst x)) (mc # mcs)\<rparr>) (slot_pod r b slots mc)) (\<lambda>slots'.
     read_pods r b res slots' mcs)"

text \<open>The generation of a member is replaced when all others are ready and, each with its own configuration, healthy.\<close>

definition retired_result :: "gateway_result \<Rightarrow> slot list \<Rightarrow> slot \<Rightarrow> slot list \<Rightarrow> gateway_result" where
  "retired_result res before s after = res\<lparr>gr_gateways := map slot_endpoint before @ [(slot_endpoint s)\<lparr>ge_ready := False\<rparr>] @ map slot_endpoint after\<rparr>"

definition delete_pod :: "gpod \<Rightarrow> (err + unit) gprog" where
  "delete_pod p = pbind (gapi (kdo (Delete (GPod p) (Some (om_uid (gp_meta p))) (Some (om_resource_version (gp_meta p)))))) (\<lambda>x. case x of
     Inl e \<Rightarrow> if is_not_found e then go () else leave e | Inr _ \<Rightarrow> go ())"

definition retire_pod :: "gateway_backend \<Rightarrow> network_binding \<Rightarrow> gateway_result \<Rightarrow> slot list \<Rightarrow> slot \<Rightarrow> gpod \<Rightarrow> slot list \<Rightarrow> (ensured + 'a) gprog" where
  "retire_pod r b res before s p after =
     (let others = before @ after in
      if \<not> list_ex sl_ready others then stop_with r b res ''UpdateBlockedByUnavailableSibling''
      else if list_ex unready others then stop_with r b res ''WaitingForSiblingRecovery''
      else if \<not> gb_probe r then stop_with r b res ''UpdateBlockedWithoutNativeProbe''
      else ebind (or_with res (probe_all others)) (\<lambda>healthy.
        if \<not> healthy then stop_with r b res ''WaitingForSiblingNativeConvergence''
        else ebind (or_with res (delete_pod p)) (\<lambda>_.
          stop_with r b (retired_result res before s after) ''RollingGatewayGeneration'')))"

definition create_pod :: "gpod \<Rightarrow> (err + unit) gprog" where
  "create_pod p = pbind (gapi (kdo (Create (GPod p)))) (\<lambda>x. case x of
     Inl e \<Rightarrow> if is_already_exists e then go () else leave e | Inr _ \<Rightarrow> go ())"

definition slot_json :: "slot \<Rightarrow> json" where
  "slot_json s = (case sl_config s of None \<Rightarrow> JNull | Some c \<Rightarrow> c)"

definition config_hash :: "gpod \<Rightarrow> string" where
  "config_hash p = mget (om_annotations (gp_meta p)) config_hash_annotation"

primrec roll_members :: "gateway_backend \<Rightarrow> network_binding \<Rightarrow> slot list \<Rightarrow> bool \<times> gateway_result \<Rightarrow> slot list \<Rightarrow> (ensured + (bool \<times> gateway_result)) gprog" where
  "roll_members r b before st [] = go st"
| "roll_members r b before st (s # after) = (case st of (changed, res) \<Rightarrow>
     ebind (or_with res (gateway_objects r b (sl_member s) (slot_json s))) (\<lambda>(cm, p).
     ebind (or_with res (ensure_config r b cm)) (\<lambda>_.
     case sl_pod s of
       None \<Rightarrow> ebind (or_with res (create_pod p)) (\<lambda>_. roll_members r b (before @ [s]) (True, res) after)
     | Some old \<Rightarrow>
         if om_deletion (gp_meta old) \<noteq> None
         then roll_members r b (before @ [s]) (True, res\<lparr>gr_reason := ''WaitingForGatewayTermination''\<rparr>) after
         else if config_hash old = config_hash p then roll_members r b (before @ [s]) (changed, res) after
         else retire_pod r b res before s old after)))"

definition final_result :: "bool \<Rightarrow> gateway_result \<Rightarrow> gateway_result" where
  "final_result changed res =
     (let ready = (\<not> changed \<and> list_all ge_ready (gr_gateways res)) in
      res\<lparr>gr_ready := ready, gr_reason := (if ready then ''Ready'' else if gr_reason res = ''Initializing'' then ''WaitingForGatewayHealth'' else gr_reason res)\<rparr>)"

definition ensure_pods :: "gateway_backend \<Rightarrow> network_binding \<Rightarrow> gateway_result \<Rightarrow> (gateway_member \<times> json option) list \<Rightarrow> (ensured + ensured) gprog" where
  "ensure_pods r b res mcs =
     ebind (read_pods r b res [] mcs) (\<lambda>slots.
     let res1 = res\<lparr>gr_gateways := map slot_endpoint slots\<rparr> in
     if list_ex (\<lambda>s. sl_config s = None) slots then stop_with r b res1 ''DiscoveringPeerAllocations''
     else ebind (roll_members r b [] (False, res1) slots) (\<lambda>(changed, res2).
       let res3 = final_result changed res2 in
       ebind (or_with res3 (prune_configs r b)) (\<lambda>_. pbind (with_resources r b res3) leave)))"

definition gateway_ensure :: "gateway_backend \<Rightarrow> attempts \<Rightarrow> network_binding \<Rightarrow> gateway_attachment \<Rightarrow> ensured gprog" where
  "gateway_ensure r n b a =
     pbind (ebind (or_with initial_result (ensure_members r n b a)) (\<lambda>l.
       let res = initial_result\<lparr>gr_gateways := map gm_endpoint (ml_members l)\<rparr> in
       ebind (or_with res (lift_res Errorf (map_res (render r b a l) (ml_members l)))) (\<lambda>configs.
       ensure_pods r b res (zip (ml_members l) configs)))) (\<lambda>x. Ret (case x of Inl y \<Rightarrow> y | Inr y \<Rightarrow> y))"

section \<open>Delete\<close>

definition drop_pod :: "gateway_backend \<Rightarrow> network_binding \<Rightarrow> resource_record \<Rightarrow> (err + unit) gprog" where
  "drop_pod r b rr =
     pbind (gapi (kget g_pod ''Pod'' (gb_namespace r) (rr_name rr))) (\<lambda>x. case x of
       Inl e \<Rightarrow> if is_not_found e then go () else leave e
     | Inr p \<Rightarrow>
         if om_uid (gp_meta p) \<noteq> rr_uid rr \<or> \<not> gateway_owned (gp_meta p) b then leave (Errorf ''gateway Pod incarnation changed'')
         else if om_deletion (gp_meta p) \<noteq> None then go ()
         else delete_pod p)"

definition is_pod_record :: "resource_record \<Rightarrow> bool" where
  "is_pod_record rr \<longleftrightarrow> rr_kind rr = ''Pod''"

definition is_ledger_record :: "network_binding \<Rightarrow> resource_record \<Rightarrow> bool" where
  "is_ledger_record b rr \<longleftrightarrow> rr_kind rr = ''ConfigMap'' \<and> rr_name rr = ledger_name b"

text \<open>The records after the runtime objects are gone: \<open>False\<close> when something beside the ledger remains.\<close>

primrec drop_ledger :: "gateway_backend \<Rightarrow> network_binding \<Rightarrow> resource_record list \<Rightarrow> (err + bool) gprog" where
  "drop_ledger r b [] = go True"
| "drop_ledger r b (rr # rrs) = (if \<not> is_ledger_record b rr then go False
     else ebind (delete_record r b rr) (\<lambda>_. drop_ledger r b rrs))"

text \<open>The boolean beside an error is not looked at by any caller.\<close>

definition gateway_delete :: "gateway_backend \<Rightarrow> network_binding \<Rightarrow> (err + bool) gprog" where
  "gateway_delete r b =
     ebind (gateway_resources r b) (\<lambda>rs.
     ebind (efold (\<lambda>_. drop_pod r b) () (filter is_pod_record rs)) (\<lambda>_.
     if list_ex is_pod_record rs then go False
     else ebind (efold (\<lambda>_. delete_record r b) () (filter (\<lambda>rr. \<not> is_ledger_record b rr) rs)) (\<lambda>_.
       ebind (gateway_resources r b) (\<lambda>rest.
       ebind (drop_ledger r b rest) (\<lambda>clean.
       if \<not> clean then go False
       else ebind (gateway_resources r b) (\<lambda>left. go (left = [])))))))"

text \<open>The adapter of the main program: what the local reconciler asks of its gateway interface.\<close>

definition attachment_of :: "net_allocation \<Rightarrow> gateway_attachment" where
  "attachment_of a = \<lparr>gt_transit_cidr = na_transit_cidr a, gt_router_ip = na_router_ip a, gt_bfd_source_ip = na_bfd_source_ip a, gt_member_ips = []\<rparr>"

end
