(* ===== verification/Api_Steady.thy ===== *)
theory Api_Steady
  imports Kube_Client
begin

text \<open>
  Statements about the requests of a program that do not look at the history: \<open>steady ok p P\<close> says that in
  every run every request of \<open>p\<close> is one of \<open>ok\<close> and the result satisfies \<open>P\<close>. It composes like \<open>always\<close> and
  turns into a statement with a history by \<open>steady_always\<close>.
\<close>

primrec steady :: "('q \<Rightarrow> bool) \<Rightarrow> ('q, 'r, 'a) prog \<Rightarrow> ('a \<Rightarrow> bool) \<Rightarrow> bool" where
  "steady ok (Ret a) = (\<lambda>P. P a)"
| "steady ok (Call q k) = (\<lambda>P. ok q \<and> (\<forall>r. steady ok (k r) P))"

lemma steady_pbind [simp]: "steady ok (pbind p f) P \<longleftrightarrow> steady ok p (\<lambda>a. steady ok (f a) P)"
  by (induction p) simp_all

lemma steady_ebind [simp]: "steady ok (ebind p f) P \<longleftrightarrow> steady ok p (\<lambda>x. case x of Inl e \<Rightarrow> P (Inl e) | Inr a \<Rightarrow> steady ok (f a) P)"
  by (simp add: ebind_def sum.case_distrib [of "\<lambda>p. steady ok p P"] cong: sum.case_cong)

lemma steady_lift_res [simp]: "steady ok (lift_res g m) P \<longleftrightarrow> P (case m of Inl x \<Rightarrow> Inl (g x) | Inr a \<Rightarrow> Inr a)"
  by (simp add: lift_res_def)

lemma steady_mono:
  assumes "steady ok p P" and "\<And>q. ok q \<Longrightarrow> ok' q" and "\<And>a. P a \<Longrightarrow> P' a"
  shows "steady ok' p P'"
  using assms(1) by (induction p) (use assms(2,3) in auto)

lemma steady_efold:
  assumes "I s" and "\<And>s x. x \<in> set xs \<Longrightarrow> I s \<Longrightarrow> steady ok (f s x) (\<lambda>y. case y of Inl e \<Rightarrow> P (Inl e) | Inr s' \<Rightarrow> I s')"
    and "\<And>s. I s \<Longrightarrow> P (Inr s)"
  shows "steady ok (efold f s xs) P"
  using assms
proof (induction xs arbitrary: s)
  case (Cons x xs)
  have "steady ok (f s x) (\<lambda>y. case y of Inl e \<Rightarrow> P (Inl e) | Inr s' \<Rightarrow> I s')" using Cons.prems by simp
  then show ?case
    by (simp, elim steady_mono) (auto split: sum.splits intro!: Cons.IH Cons.prems)
qed simp

lemma always_steady: "always (\<lambda>_ q. ok q) p (\<lambda>_ a. P a) h \<longleftrightarrow> steady ok p P"
  by (induction p arbitrary: h) simp_all

lemma steady_always:
  assumes "steady ok p P" and "\<And>h q y. I h \<Longrightarrow> ok q \<Longrightarrow> I (h @ [(q, y)])" and "\<And>h q. I h \<Longrightarrow> ok q \<Longrightarrow> G h q"
    and "I h" and "\<And>h' a. I h' \<Longrightarrow> P a \<Longrightarrow> Q h' a"
  shows "always G p Q h"
  using assms(1,4) by (induction p arbitrary: h) (use assms(2,3,5) in auto)

section \<open>The client\<close>

lemma steady_kget [simp]: "steady ok (kget prj kind ns name) P \<longleftrightarrow> ok (Get kind ns name) \<and> (\<forall>r. P (case r of Failed e \<Rightarrow> Inl e
      | Obj x \<Rightarrow> (case prj x of None \<Rightarrow> Inl decode_error | Some a \<Rightarrow> Inr a) | _ \<Rightarrow> Inl decode_error))"
  by (simp add: kget_def)

lemma steady_kgetI: "ok (Get kind ns name) \<Longrightarrow> (\<And>x. P x) \<Longrightarrow> steady ok (kget prj kind ns name) P"
  and steady_klistI: "ok (List kind lns labels) \<Longrightarrow> (\<And>x. P' x) \<Longrightarrow> steady ok (klist prj kind lns labels) P'"
  and steady_kwriteI: "ok q \<Longrightarrow> (\<And>x. P x) \<Longrightarrow> steady ok (kwrite prj q) P"
  and steady_kdoI: "ok q \<Longrightarrow> (\<And>x. P2 x) \<Longrightarrow> steady ok (kdo q) P2"
  by (simp_all add: kget_def klist_def kwrite_def kdo_def)

end
