(* ===== verification/Gateway_Laws.thy ===== *)
theory Gateway_Laws
  imports Gateway_Reconciler Gateway_Registry_Laws Api_Steady
begin

text \<open>
  What \<open>Ensure\<close> and \<open>Delete\<close> of the managed gateways may ask for, for all answers: a pass retires at most one Pod,
  and only while every other member is ready and answers its probe; keys and the ledger are removed only
  when no Pod is left; everything that is deleted is owned and deleted with the identity it was read with.
\<close>

section \<open>What a history shows\<close>

type_synonym gghist = "(greq \<times> gresp) list"

definition replied :: "gghist \<Rightarrow> gobj kreq \<Rightarrow> gobj kresp \<Rightarrow> bool" where
  "replied h q y \<longleftrightarrow> (\<exists>x. (GApi q, x) \<in> set h \<and> ganswer x = y)"

fun retires :: "greq \<Rightarrow> bool" where
  "retires (GApi (Delete (GPod p) u v)) = True"
| "retires q = False"

definition calm :: "gghist \<Rightarrow> bool" where
  "calm h \<longleftrightarrow> (\<forall>(q, y)\<in>set h. \<not> retires q)"

text \<open>The history has grown, without the retirement of a Pod.\<close>

definition onwards :: "gghist \<Rightarrow> gghist \<Rightarrow> bool" where
  "onwards h h' \<longleftrightarrow> grows h h' \<and> (calm h \<longrightarrow> calm h')"

lemma onwards_refl [simp]: "onwards h h"
  by (simp add: onwards_def)

lemma onwards_trans [trans]: "onwards h h' \<Longrightarrow> onwards h' h'' \<Longrightarrow> onwards h h''"
  unfolding onwards_def by blast

lemma onwards_snoc: "\<not> retires q \<Longrightarrow> onwards h (h @ [(q, y)])"
  by (auto simp: onwards_def calm_def)

lemma onwards_then: "onwards h h' \<Longrightarrow> \<not> retires q \<Longrightarrow> onwards h (h' @ [(q, y)])"
  using onwards_snoc onwards_trans by blast

lemma calm_onwards: "calm h \<Longrightarrow> onwards h h' \<Longrightarrow> calm h'"
  by (simp add: onwards_def)

lemma replied_grows: "replied h q y \<Longrightarrow> grows h h' \<Longrightarrow> replied h' q y"
  by (auto simp: replied_def grows_def)

lemma replied_onwards: "replied h q y \<Longrightarrow> onwards h h' \<Longrightarrow> replied h' q y"
  by (auto simp: onwards_def intro: replied_grows)

lemma replied_snoc: "replied (h @ [(GApi q, x)]) q (ganswer x)"
  by (auto simp: replied_def)

section \<open>The calls\<close>

lemma steady_gapi: "steady (\<lambda>q. ok (GApi q)) p P \<Longrightarrow> steady ok (gapi p) P"
  by (induction p) simp_all

lemma steady_or_with [simp]: "steady ok (or_with res p) P \<longleftrightarrow> steady ok p (\<lambda>x. P (case x of Inl e \<Rightarrow> Inl (res, Some e) | Inr a \<Rightarrow> Inr a))"
  by (simp add: or_with_def)

lemma always_or_with [simp]: "always G (or_with res p) Q h \<longleftrightarrow> always G p (\<lambda>h x. Q h (case x of Inl e \<Rightarrow> Inl (res, Some e) | Inr a \<Rightarrow> Inr a)) h"
  by (simp add: or_with_def)

text \<open>A part of a pass that retires no Pod, by what is known of its requests and its result.\<close>

lemma quiet_rule:
  assumes "steady ok p P" and "\<And>h' q. onwards h h' \<Longrightarrow> ok q \<Longrightarrow> G h' q" and "\<And>q. ok q \<Longrightarrow> \<not> retires q"
    and "\<And>h' x. onwards h h' \<Longrightarrow> P x \<Longrightarrow> Q h' x"
  shows "always G p Q h"
  by (rule steady_always [where I = "onwards h", OF assms(1)]) (use assms(2,3,4) onwards_then in auto)

lemma gget_rule:
  assumes "G h (GApi (Get kind ns name))" and "\<And>h' e. onwards h h' \<Longrightarrow> (is_not_found e \<Longrightarrow> replied h' (Get kind ns name) (Failed e)) \<Longrightarrow> Q h' (Inl e)"
    and "\<And>h' y x. onwards h h' \<Longrightarrow> replied h' (Get kind ns name) (Obj y) \<Longrightarrow> prj y = Some x \<Longrightarrow> Q h' (Inr x)"
  shows "always G (gapi (kget prj kind ns name)) Q h"
proof -
  have "Q (h @ [(GApi (Get kind ns name), r)]) (case ganswer r of Failed e \<Rightarrow> Inl e
      | Obj x \<Rightarrow> (case prj x of None \<Rightarrow> Inl decode_error | Some a \<Rightarrow> Inr a) | _ \<Rightarrow> Inl decode_error)" for r
  proof -
    let ?h = "h @ [(GApi (Get kind ns name), r)]"
    have sub: "onwards h ?h" and a: "replied ?h (Get kind ns name) (ganswer r)" by (simp_all add: replied_snoc onwards_snoc)
    have bad: "Q ?h (Inl decode_error)" using sub by (intro assms(2)) (auto simp: decode_error_def)
    show ?thesis
      using a assms(2) [OF sub] assms(3) [OF sub] bad by (auto split: kresp.split option.split)
  qed
  with assms(1) show ?thesis by (simp add: kget_def)
qed

lemma glist_rule:
  assumes "G h (GApi (List kind ns ls))" and "\<And>h' e. onwards h h' \<Longrightarrow> Q h' (Inl e)" and "\<And>y a. prj y = Some a \<Longrightarrow> y = inject a"
    and "\<And>h' xs. onwards h h' \<Longrightarrow> replied h' (List kind ns ls) (Items (map inject xs)) \<Longrightarrow> Q h' (Inr xs)"
  shows "always G (gapi (klist prj kind ns ls)) Q h"
proof -
  have "Q (h @ [(GApi (List kind ns ls), r)]) (case ganswer r of Failed e \<Rightarrow> Inl e
      | Items xs \<Rightarrow> (if list_all (\<lambda>x. prj x \<noteq> None) xs then Inr (List.map_filter prj xs) else Inl decode_error)
      | _ \<Rightarrow> Inl decode_error)" for r
  proof -
    let ?h = "h @ [(GApi (List kind ns ls), r)]"
    have sub: "onwards h ?h" and a: "replied ?h (List kind ns ls) (ganswer r)" by (simp_all add: replied_snoc onwards_snoc)
    have "ys = map inject (List.map_filter prj ys)" if "list_all (\<lambda>x. prj x \<noteq> None) ys" for ys
      using that by (intro items_decoded assms(3))
    then show ?thesis
      using a assms(2) [OF sub] assms(4) [OF sub, of "List.map_filter prj ys" for ys] by (auto split: kresp.split)
  qed
  with assms(1) show ?thesis by (simp add: klist_def)
qed

text \<open>A deletion or creation whose answer only matters as an error.\<close>

lemma gdo_rule:
  assumes "G h (GApi q)" and "\<And>h' y x. h' = h @ [(GApi q, y)] \<Longrightarrow> Q h' x"
  shows "always G (gapi (kdo q)) Q h"
  using assms by (auto simp: kdo_def)

section \<open>The inventory\<close>

definition reads_free :: "(gghist \<Rightarrow> greq \<Rightarrow> bool) \<Rightarrow> bool" where
  "reads_free G \<longleftrightarrow> (\<forall>h kind ns name. G h (GApi (Get kind ns name))) \<and> (\<forall>h kind ns labels. G h (GApi (List kind ns labels)))"

lemma reads_freeD: "reads_free G \<Longrightarrow> G h (GApi (Get kind ns name))" "reads_free G \<Longrightarrow> G h (GApi (List kind lns labels))"
  by (simp_all add: reads_free_def)

definition is_read :: "greq \<Rightarrow> bool" where
  "is_read q \<longleftrightarrow> (case q of GApi (Get kind ns name) \<Rightarrow> True | GApi (List kind ns labels) \<Rightarrow> True | _ \<Rightarrow> False)"

lemma is_read_simps [simp]: "is_read (GApi (Get kind ns name))" "is_read (GApi (List kind lns labels))"
  by (simp_all add: is_read_def)

lemma is_read_quiet: "is_read q \<Longrightarrow> \<not> retires q"
  by (cases q rule: retires.cases) (simp_all add: is_read_def)

lemma reads_free_read: "reads_free G \<Longrightarrow> is_read q \<Longrightarrow> G h q"
  by (auto simp: is_read_def reads_free_def split: greq.splits kreq.splits)

text \<open>Complete lists of the Pods, the configuration and the labelled Secrets, of which every suspect is recorded.\<close>

definition lists_pods :: "gateway_backend \<Rightarrow> gghist \<Rightarrow> gpod list \<Rightarrow> bool" where
  "lists_pods r h ps \<longleftrightarrow> replied h (List ''Pod'' (Some (gb_namespace r)) []) (Items (map GPod ps))"

definition lists_maps :: "gateway_backend \<Rightarrow> gghist \<Rightarrow> config_map list \<Rightarrow> bool" where
  "lists_maps r h ms \<longleftrightarrow> replied h (List ''ConfigMap'' (Some (gb_namespace r)) []) (Items (map GMap ms))"

definition lists_secrets :: "gateway_backend \<Rightarrow> network_binding \<Rightarrow> gghist \<Rightarrow> gsecret list \<Rightarrow> bool" where
  "lists_secrets r b h ss \<longleftrightarrow> replied h (List ''Secret'' (Some (gb_namespace r)) [(api_owner_label, binding_uid b)]) (Items (map GSecret ss))"

definition inventoried :: "gateway_backend \<Rightarrow> network_binding \<Rightarrow> gghist \<Rightarrow> resource_record list \<Rightarrow> bool" where
  "inventoried r b h rs \<longleftrightarrow> (\<exists>ps ms ss. lists_pods r h ps \<and> lists_maps r h ms \<and> lists_secrets r b h ss
     \<and> (\<forall>p\<in>set ps. suspect b (gp_meta p) \<longrightarrow> gateway_record ''Pod'' (gp_meta p) \<in> set rs)
     \<and> (\<forall>m\<in>set ms. suspect b (cm_meta m) \<longrightarrow> gateway_record ''ConfigMap'' (cm_meta m) \<in> set rs)
     \<and> (\<forall>s\<in>set ss. gateway_record ''Secret'' (se_meta s) \<in> set rs))"

lemma inventoried_onwards: "inventoried r b h rs \<Longrightarrow> onwards h h' \<Longrightarrow> inventoried r b h' rs"
  unfolding inventoried_def lists_pods_def lists_maps_def lists_secrets_def by (blast intro: replied_onwards)

lemma inventoried_more: "inventoried r b h rs \<Longrightarrow> set rs \<subseteq> set rs' \<Longrightarrow> inventoried r b h rs'"
  unfolding inventoried_def by blast

lemma take_pod_sound:
  assumes "foldr_res (take_pod b) st ps = Inr st'"
  shows "set (fst st) \<subseteq> set (fst st')" and "\<forall>p\<in>set ps. suspect b (gp_meta p) \<longrightarrow> gateway_record ''Pod'' (gp_meta p) \<in> set (fst st')"
  using assms
  by (induction ps arbitrary: st) (fastforce simp: take_pod_def rbind_def split: prod.splits if_splits sum.splits)+

lemma take_map_sound:
  assumes "foldr_res (take_map b) st ms = Inr st'"
  shows "set (fst st) \<subseteq> set (fst st')" and "\<forall>m\<in>set ms. suspect b (cm_meta m) \<longrightarrow> gateway_record ''ConfigMap'' (cm_meta m) \<in> set (fst st')"
  using assms
  by (induction ms arbitrary: st) (fastforce simp: take_map_def rbind_def Let_def split: prod.splits if_splits sum.splits option.splits)+

lemma take_secret_sound:
  assumes "foldr_res (take_secret b) found ss = Inr found'"
  shows "set found \<subseteq> set found'" and "\<forall>s\<in>set ss. gateway_record ''Secret'' (se_meta s) \<in> set found'"
  using assms
  by (induction ss arbitrary: found) (fastforce simp: take_secret_def rbind_def split: if_splits sum.splits)+

lemma named_secret_steady: "steady is_read (named_secret r b listed found name) (\<lambda>x. case x of Inl e \<Rightarrow> True | Inr found' \<Rightarrow> set found \<subseteq> set found')"
  unfolding named_secret_def
  by (auto intro!: steady_gapi steady_kgetI simp: take_secret_def split: sum.split)

lemma named_secrets_steady:
  "steady is_read (efold (named_secret r b listed) found names) (\<lambda>x. case x of Inl e \<Rightarrow> True | Inr found' \<Rightarrow> set found \<subseteq> set found')"
proof (rule steady_efold [where I = "\<lambda>s. set found \<subseteq> set s"])
  fix s name
  assume "set found \<subseteq> set s"
  then show "steady is_read (named_secret r b listed s name) (\<lambda>y. case y of Inl e \<Rightarrow> (case Inl e of Inl e \<Rightarrow> True | Inr found' \<Rightarrow> set found \<subseteq> set found') | Inr s' \<Rightarrow> set found \<subseteq> set s')"
    by (intro steady_mono [OF named_secret_steady]) (auto split: sum.splits)
qed auto

text \<open>The last part of the inventory, when Pods and configuration are listed.\<close>

lemma secrets_rule:
  assumes "reads_free G" and "\<And>h' e. onwards h h' \<Longrightarrow> Q h' (Inl e)" and "\<And>h' rs. onwards h h' \<Longrightarrow> inventoried r b h' rs \<Longrightarrow> Q h' (Inr rs)"
    and "lists_pods r h ps" and "lists_maps r h ms"
    and "foldr_res (take_pod b) ([], names0) ps = Inr st" and "foldr_res (take_map b) st ms = Inr (found, names)"
  shows "always G (ebind (gapi (klist g_secret ''Secret'' (Some (gb_namespace r)) [(api_owner_label, binding_uid b)])) (\<lambda>secrets.
      ebind (lift_res Errorf (foldr_res (take_secret b) found secrets)) (\<lambda>found'.
      ebind (efold (named_secret r b (map (\<lambda>s. om_name (se_meta s)) secrets)) found' (remdups names)) (\<lambda>all.
      go (sort_slice (\<lambda>rr. rr_kind rr @ rr_name rr) all))))) Q h"
  unfolding always_ebind [of _ "gapi _"]
proof (rule glist_rule [where inject = GSecret], goal_cases)
  case (4 h3 ss)
  show ?case
  proof (cases "foldr_res (take_secret b) found ss")
    case (Inl e)
    then show ?thesis using 4(1) assms(2) by (simp add: ebind_lift_res)
  next
    case secrets: (Inr found')
    have "lists_pods r h3 ps" "lists_maps r h3 ms" "lists_secrets r b h3 ss"
      using assms(4,5) 4 replied_onwards unfolding lists_pods_def lists_maps_def lists_secrets_def by blast+
    then have "inventoried r b h3 found'"
      unfolding inventoried_def using take_pod_sound [OF assms(6)] take_map_sound [OF assms(7)] take_secret_sound [OF secrets]
      by (intro exI [of _ ps] exI [of _ ms] exI [of _ ss]) auto
    then have "always G (efold (named_secret r b (map (\<lambda>s. om_name (se_meta s)) ss)) found' (remdups names))
      (\<lambda>h x. case x of Inl e \<Rightarrow> Q h (Inl e) | Inr all \<Rightarrow> Q h (Inr (sort_slice (\<lambda>rr. rr_kind rr @ rr_name rr) all))) h3"
      by (intro quiet_rule [OF named_secrets_steady] reads_free_read [OF assms(1)] is_read_quiet)
        (auto split: sum.splits intro!: assms(2,3) elim!: onwards_trans [OF 4(1)] inventoried_more [OF inventoried_onwards])
    then show ?thesis using secrets by (simp add: ebind_lift_res cong: sum.case_cong)
  qed
qed (use assms reads_freeD in auto)

lemma resources_rule:
  assumes free: "reads_free G" and left: "\<And>h' e. onwards h h' \<Longrightarrow> Q h' (Inl e)" and right: "\<And>h' rs. onwards h h' \<Longrightarrow> inventoried r b h' rs \<Longrightarrow> Q h' (Inr rs)"
  shows "always G (gateway_resources r b) Q h"
  unfolding gateway_resources_def Let_def always_ebind [of _ "gapi (klist g_pod _ _ _)"]
proof (rule glist_rule [where inject = GPod], goal_cases)
  case (4 h1 ps)
  then have pods: "lists_pods r h1 ps" by (simp add: lists_pods_def)
  show ?case unfolding sum.case always_ebind [of _ "gapi (klist g_map _ _ _)"]
  proof (rule glist_rule [where inject = GMap], goal_cases)
    case (4 h2 ms)
    let ?names = "map rr_name (filter (\<lambda>rr. rr_kind rr = ''Secret'' \<and> rr_namespace rr = gb_namespace r) (bst_resources (nb_status b)))"
    have g2: "onwards h h2" using 4(1) \<open>onwards h h1\<close> onwards_trans by blast
    have listed: "lists_pods r h2 ps" "lists_maps r h2 ms"
      using pods 4 replied_onwards unfolding lists_pods_def lists_maps_def by blast+
    note Q = left [OF onwards_trans [OF g2]] right [OF onwards_trans [OF g2]]
    show ?case
    proof (cases "foldr_res (take_pod b) ([], ?names) ps")
      case (Inr st)
      then show ?thesis
        using secrets_rule [OF free Q listed Inr] left [OF g2]
        by (auto simp: ebind_lift_res simp del: always_ebind split: sum.split)
    qed (use g2 left in \<open>simp add: ebind_lift_res\<close>)
  qed (use 4(1) free left right reads_freeD in \<open>auto intro: onwards_trans\<close>)
qed (use free left right reads_freeD in auto)

section \<open>Delete\<close>

definition no_pods :: "gateway_backend \<Rightarrow> network_binding \<Rightarrow> gghist \<Rightarrow> bool" where
  "no_pods r b h \<longleftrightarrow> (\<exists>ps. lists_pods r h ps \<and> \<not> list_ex (\<lambda>p. suspect b (gp_meta p)) ps)"

definition nothing_left :: "gateway_backend \<Rightarrow> network_binding \<Rightarrow> gghist \<Rightarrow> bool" where
  "nothing_left r b h \<longleftrightarrow> no_pods r b h \<and> (\<exists>ms. lists_maps r h ms \<and> \<not> list_ex (\<lambda>m. suspect b (cm_meta m)) ms) \<and> lists_secrets r b h []"

definition seen_as :: "gateway_backend \<Rightarrow> gghist \<Rightarrow> string \<Rightarrow> gobj \<Rightarrow> bool" where
  "seen_as r h kind x \<longleftrightarrow> (\<exists>name. replied h (Get kind (gb_namespace r) name) (Obj x))"

definition preconditioned :: "object_meta \<Rightarrow> string option \<Rightarrow> string option \<Rightarrow> bool" where
  "preconditioned m u v \<longleftrightarrow> u = Some (om_uid m) \<and> v = Some (om_resource_version m)"

definition owned_delete :: "gateway_backend \<Rightarrow> network_binding \<Rightarrow> gghist \<Rightarrow> string \<Rightarrow> gobj \<Rightarrow> object_meta \<Rightarrow> string option \<Rightarrow> string option \<Rightarrow> bool" where
  "owned_delete r b h kind x m u v \<longleftrightarrow> seen_as r h kind x \<and> gateway_owned m b \<and> preconditioned m u v"

fun delete_step :: "gateway_backend \<Rightarrow> network_binding \<Rightarrow> gghist \<Rightarrow> greq \<Rightarrow> bool" where
  "delete_step r b h (GApi (Delete (GPod p) u v)) \<longleftrightarrow> owned_delete r b h ''Pod'' (GPod p) (gp_meta p) u v \<and> om_deletion (gp_meta p) = None"
| "delete_step r b h (GApi (Delete (GMap m) u v)) \<longleftrightarrow> owned_delete r b h ''ConfigMap'' (GMap m) (cm_meta m) u v \<and> no_pods r b h"
| "delete_step r b h (GApi (Delete (GSecret s) u v)) \<longleftrightarrow> owned_delete r b h ''Secret'' (GSecret s) (se_meta s) u v \<and> no_pods r b h"
| "delete_step r b h q \<longleftrightarrow> is_read q"

lemma delete_reads [simp]: "reads_free (delete_step r b)"
  by (simp add: reads_free_def)

lemma no_pods_grows: "no_pods r b h \<Longrightarrow> grows h h' \<Longrightarrow> no_pods r b h'"
  unfolding no_pods_def lists_pods_def by (blast intro: replied_grows)

lemma inventoried_no_pods: "inventoried r b h rs \<Longrightarrow> \<not> list_ex is_pod_record rs \<Longrightarrow> no_pods r b h"
  unfolding inventoried_def no_pods_def list_ex_iff
  by (elim exE conjE, rule exI) (force simp: is_pod_record_def gateway_record_def)

lemma inventoried_Nil: "inventoried r b h [] \<Longrightarrow> nothing_left r b h"
proof -
  assume "inventoried r b h []"
  then obtain ps ms ss where l: "lists_pods r h ps" "lists_maps r h ms" "lists_secrets r b h ss"
    "\<not> list_ex (\<lambda>p. suspect b (gp_meta p)) ps" "\<not> list_ex (\<lambda>m. suspect b (cm_meta m)) ms" "ss = []"
    by (auto simp: inventoried_def list_ex_iff)
  then show ?thesis unfolding nothing_left_def no_pods_def by blast
qed

lemma onwards_grows: "onwards h h' \<Longrightarrow> grows h h'"
  by (simp add: onwards_def)

lemma delete_pod_rule:
  assumes "\<And>u v. preconditioned (gp_meta p) u v \<Longrightarrow> G h (GApi (Delete (GPod p) u v))" and "\<And>h' x. grows h h' \<Longrightarrow> Q h' x"
  shows "always G (delete_pod p) Q h"
  unfolding delete_pod_def always_pbind
  by (rule gdo_rule) (use assms in \<open>auto simp: preconditioned_def split: sum.split\<close>)

lemma drop_pod_rule:
  assumes "\<And>h' x. grows h h' \<Longrightarrow> Q h' x"
  shows "always (delete_step r b) (drop_pod r b rr) Q h"
  unfolding drop_pod_def always_pbind
proof (rule gget_rule, goal_cases)
  case (3 h' y p)
  then have g: "grows h h'" and seen: "seen_as r h' ''Pod'' (GPod p)" by (auto simp: onwards_grows seen_as_def)
  show ?case unfolding sum.case if_distrib [of "\<lambda>x. always _ x _ _"]
    using seen g by (auto intro!: assms delete_pod_rule simp: owned_delete_def)
qed (auto intro: assms dest: onwards_grows)

lemma delete_checked_rule:
  assumes "\<And>u v. gateway_owned m b \<Longrightarrow> preconditioned m u v \<Longrightarrow> G h (GApi (Delete x u v))" and "\<And>h' y. grows h h' \<Longrightarrow> Q h' y"
  shows "always G (delete_checked b rr m x) Q h"
proof (cases "om_uid m \<noteq> rr_uid rr \<or> \<not> gateway_owned m b")
  case False
  then show ?thesis
    unfolding delete_checked_def if_not_P [OF False] always_pbind
    by (intro gdo_rule assms(1)) (auto simp: preconditioned_def intro!: assms(2) split: sum.split)
qed (simp add: delete_checked_def assms(2))

lemma delete_record_rule:
  assumes "reads_free G"
    and "\<And>h' m u v. onwards h h' \<Longrightarrow> rr_kind rr = ''ConfigMap'' \<Longrightarrow> replied h' (Get ''ConfigMap'' (gb_namespace r) (rr_name rr)) (Obj (GMap m))
        \<Longrightarrow> gateway_owned (cm_meta m) b \<Longrightarrow> preconditioned (cm_meta m) u v \<Longrightarrow> G h' (GApi (Delete (GMap m) u v))"
    and "\<And>h' s u v. onwards h h' \<Longrightarrow> rr_kind rr = ''Secret'' \<Longrightarrow> replied h' (Get ''Secret'' (gb_namespace r) (rr_name rr)) (Obj (GSecret s))
        \<Longrightarrow> gateway_owned (se_meta s) b \<Longrightarrow> preconditioned (se_meta s) u v \<Longrightarrow> G h' (GApi (Delete (GSecret s) u v))"
    and "\<And>h' y. grows h h' \<Longrightarrow> Q h' y"
  shows "always G (delete_record r b rr) Q h"
proof -
  note Q = assms(4) [OF grows_trans [OF onwards_grows]]
  consider "rr_kind rr = ''ConfigMap''" | "rr_kind rr = ''Secret''" | "rr_kind rr \<noteq> ''ConfigMap''" "rr_kind rr \<noteq> ''Secret''" by blast
  then show ?thesis
  proof cases
    case 1
    show ?thesis unfolding delete_record_def if_P [OF 1] always_pbind
    proof (rule gget_rule, goal_cases)
      case (3 h' y m)
      then show ?case using 1 by (auto intro!: delete_checked_rule assms(2) Q)
    qed (use assms(1) reads_freeD in \<open>auto intro: assms(4) dest: onwards_grows\<close>)
  next
    case 2
    show ?thesis unfolding delete_record_def 2 always_pbind
    proof (simp, rule gget_rule, goal_cases)
      case (3 h' y m)
      then show ?case using 2 by (auto intro!: delete_checked_rule assms(3) Q)
    qed (use assms(1) reads_freeD in \<open>auto intro: assms(4) dest: onwards_grows\<close>)
  qed (simp add: delete_record_def assms(4))
qed

lemma delete_record_step:
  assumes "no_pods r b h" and "\<And>h' y. grows h h' \<Longrightarrow> Q h' y"
  shows "always (delete_step r b) (delete_record r b rr) Q h"
  by (rule delete_record_rule) (use assms in \<open>auto simp: owned_delete_def seen_as_def dest: onwards_grows intro: no_pods_grows\<close>)

lemma drop_ledger_rule:
  assumes "no_pods r b h" and "\<And>h' x. grows h h' \<Longrightarrow> Q h' x"
  shows "always (delete_step r b) (drop_ledger r b rrs) Q h"
  using assms
proof (induction rrs arbitrary: h)
  case (Cons rr rrs)
  have "always (delete_step r b) (drop_ledger r b rrs) Q h'" if "grows h h'" for h'
    using that Cons.prems by (intro Cons.IH) (auto intro: no_pods_grows)
  then show ?case
    using Cons.prems by (auto intro!: delete_record_step split: sum.split)
qed simp

text \<open>A loop whose steps only need what stays true as the history grows.\<close>

lemma efold_rule:
  assumes "P h" and "\<And>h h'. P h \<Longrightarrow> grows h h' \<Longrightarrow> P h'" and "\<And>h' x. P h' \<Longrightarrow> grows h h' \<Longrightarrow> Q h' x"
    and "\<And>s x h' R. P h' \<Longrightarrow> (\<And>h'' y. grows h' h'' \<Longrightarrow> R h'' y) \<Longrightarrow> always G (f s x) R h'"
  shows "always G (efold f s xs) Q h"
proof (rule always_efold [where I = "\<lambda>_ _ h'. P h' \<and> grows h h'"])
  fix visited x todo s h'
  assume h': "P h' \<and> grows h h'"
  show "always G (f s x) (\<lambda>h1 y. case y of Inl e \<Rightarrow> Q h1 (Inl e) | Inr s' \<Rightarrow> P h1 \<and> grows h h1) h'"
    using h' by (intro assms(4)) (auto split: sum.split intro: assms(2,3))
qed (use assms in auto)

definition absence_reported :: "gateway_backend \<Rightarrow> network_binding \<Rightarrow> gghist \<Rightarrow> err + bool \<Rightarrow> bool" where
  "absence_reported r b h x \<longleftrightarrow> (if x = Inr True then nothing_left r b h else True)"

lemma absence_simps [simp]: "absence_reported r b h (Inl e)" "absence_reported r b h (Inr False)"
  by (simp_all add: absence_reported_def)

lemma gateway_delete_end:
  assumes "no_pods r b h"
  shows "always (delete_step r b) (ebind (efold (\<lambda>_. delete_record r b) () rrs) (\<lambda>_. ebind (gateway_resources r b) (\<lambda>rest.
       ebind (drop_ledger r b rest) (\<lambda>clean. if \<not> clean then go False
       else ebind (gateway_resources r b) (\<lambda>left. go (left = [])))))) (absence_reported r b) h"
proof -
  have last: "always (delete_step r b) (ebind (gateway_resources r b) (\<lambda>left. go (left = []))) (absence_reported r b) h'" for h'
    unfolding always_ebind
  proof (rule resources_rule, goal_cases)
    case (3 h'' rs)
    then show ?case using inventoried_Nil by (cases rs) (auto simp: absence_reported_def)
  qed simp_all
  have ledger: "always (delete_step r b) (ebind (drop_ledger r b rest) (\<lambda>clean. if \<not> clean then go False
       else ebind (gateway_resources r b) (\<lambda>left. go (left = [])))) (absence_reported r b) h'" if "no_pods r b h'" for h' rest
    unfolding always_ebind [of _ "drop_ledger r b rest"]
    by (rule drop_ledger_rule [OF that]) (auto simp del: always_ebind intro: last split: sum.split)
  have rest: "always (delete_step r b) (ebind (gateway_resources r b) (\<lambda>rest. ebind (drop_ledger r b rest) (\<lambda>clean. if \<not> clean then go False
       else ebind (gateway_resources r b) (\<lambda>left. go (left = []))))) (absence_reported r b) h'" if "no_pods r b h'" for h'
    unfolding always_ebind [of _ "gateway_resources r b"]
    by (rule resources_rule) (use that no_pods_grows onwards_grows in \<open>auto simp del: always_ebind intro: ledger\<close>)
  show ?thesis
    unfolding always_ebind [of _ "efold _ _ _"]
    by (rule efold_rule [where P = "no_pods r b"])
      (use assms in \<open>auto simp del: always_ebind intro: rest no_pods_grows delete_record_step split: sum.split\<close>)
qed

lemma gateway_delete_run: "always (delete_step r b) (gateway_delete r b) (absence_reported r b) h"
  unfolding gateway_delete_def always_ebind [of _ "gateway_resources r b"]
proof (rule resources_rule, goal_cases)
  case (3 h1 rs)
  have "always (delete_step r b) (efold (\<lambda>_. drop_pod r b) () (filter is_pod_record rs)) (\<lambda>h2 x. case x of
      Inl e \<Rightarrow> absence_reported r b h2 (Inl e)
    | Inr _ \<Rightarrow> always (delete_step r b) (if list_ex is_pod_record rs then go False
        else ebind (efold (\<lambda>_. delete_record r b) () (filter (\<lambda>rr. \<not> is_ledger_record b rr) rs)) (\<lambda>_.
          ebind (gateway_resources r b) (\<lambda>rest. ebind (drop_ledger r b rest) (\<lambda>clean. if \<not> clean then go False
          else ebind (gateway_resources r b) (\<lambda>left. go (left = [])))))) (absence_reported r b) h2) h1"
  proof (rule efold_rule [where P = "\<lambda>h. list_ex is_pod_record rs \<or> no_pods r b h"])
    show "list_ex is_pod_record rs \<or> no_pods r b h1" using 3(2) inventoried_no_pods by blast
  qed (auto simp del: always_ebind intro: drop_pod_rule no_pods_grows gateway_delete_end split: sum.split)
  then show ?case by (simp only: sum.case always_ebind [of _ "efold (\<lambda>_. drop_pod r b) _ _"])
qed simp_all

section \<open>The requests that prepare the members\<close>

definition registry_object :: "config_map \<Rightarrow> bool" where
  "registry_object m \<longleftrightarrow> mget (om_labels (cm_meta m)) component_label \<in> {''gateway-allocator'', ''gateway-allocator-identity''}"

definition isolated_pod :: "gpod \<Rightarrow> bool" where
  "isolated_pod p \<longleftrightarrow> \<not> gp_host_network p \<and> gp_automount p = Some False"

fun gentle :: "network_binding \<Rightarrow> greq \<Rightarrow> bool" where
  "gentle b (GApi (Create (GSecret s))) \<longleftrightarrow> gateway_owned (se_meta s) b \<and> se_immutable s = Some True"
| "gentle b (GApi (Create (GMap m))) \<longleftrightarrow> gateway_owned (cm_meta m) b \<or> registry_object m"
| "gentle b (GApi (Create (GPod p))) \<longleftrightarrow> gateway_owned (gp_meta p) b \<and> isolated_pod p"
| "gentle b (GApi (Create x)) \<longleftrightarrow> False"
| "gentle b (GApi (Update (GMap m))) \<longleftrightarrow> gateway_owned (cm_meta m) b \<or> registry_object m"
| "gentle b (GApi (Update x)) \<longleftrightarrow> False"
| "gentle b (GApi (UpdateStatus x)) \<longleftrightarrow> False"
| "gentle b (GApi (Delete x u v)) \<longleftrightarrow> False"
| "gentle b q \<longleftrightarrow> True"

lemma gentle_quiet: "gentle b q \<Longrightarrow> \<not> retires q"
  by (cases q rule: retires.cases) auto

lemma gentle_read [simp]: "is_read q \<Longrightarrow> gentle b q"
  by (cases "(b, q)" rule: gentle.cases) (auto simp: is_read_def)

lemma owned_metadata [simp]: "gateway_owned (gateway_metadata name b ns) b"
  by (simp add: gateway_owned_def gateway_metadata_def gateway_labels_def gateway_ref_def mget_def)

lemma claim_write_gentle:
  assumes "claim_write r key w h q"
  shows "gentle b (GApi q)"
proof (cases q)
  case (Create x)
  with assms have "(\<exists>m. x = GMap m \<and> registry_object m)"
    by (auto simp: registry_object_def new_registry_def new_registry_identity_def store_registry_def Let_def mget_def)
  with Create show ?thesis by auto
next
  case (Update x)
  with assms obtain cm c c' where "decode_registry r cm = Inr c" and x: "x = GMap (store_registry cm (registry_of r c'))"
    by (auto simp: registry_read_def)
  then have "mget (om_labels (cm_meta cm)) component_label = ''gateway-allocator''"
    by (auto simp: decode_registry_def Let_def split: if_splits)
  then have "registry_object (store_registry cm (registry_of r c'))"
    by (simp add: registry_object_def store_registry_def Let_def)
  with Update x show ?thesis by simp
qed (use assms in auto)

lemma always_gentle:
  assumes "always (claim_write r key w) p Q h"
  shows "steady (gentle b) (gapi p) (\<lambda>_. True)"
  by (rule steady_gapi, subst always_steady [symmetric, where h = h], rule always_mono [OF assms]) (auto intro: claim_write_gentle)

lemma allocate_gentle [simp]: "steady (gentle b) (gapi (gateway_allocate r n key w)) (\<lambda>_. True)"
  by (rule always_gentle [OF gateway_allocate_run])

lemma registry_gentle [simp]: "steady (gentle b) (gapi (gateway_registry r bootstrap extra)) (\<lambda>_. True)"
  by (rule always_gentle [where key = "[]" and w = WantAddress and h = "[]"], rule gateway_registry_rule) auto

lemma steady_any: "steady ok p (\<lambda>_. True) \<Longrightarrow> (\<And>x. P x) \<Longrightarrow> steady ok p P"
  by (erule steady_mono) auto

lemma gentle_get: "steady (gentle b) (gapi (kget prj kind ns name)) (\<lambda>_. True)"
  and gentle_list: "steady (gentle b) (gapi (klist prj' kind lns labels)) (\<lambda>_. True)"
  and gentle_random: "steady (gentle b) (random_bytes n) (\<lambda>_. True)"
  by (rule steady_gapi, rule steady_kgetI, simp, simp) (rule steady_gapi, rule steady_klistI, simp, simp, simp add: random_bytes_def)

text \<open>A step whose result may be anything.\<close>

lemma steady_after: "steady ok p (\<lambda>_. True) \<Longrightarrow> (\<And>e. P (Inl e)) \<Longrightarrow> (\<And>a. steady ok (f a) P) \<Longrightarrow> steady ok (ebind p f) P"
  by (auto elim!: steady_mono split: sum.splits)

lemma steady_then: "steady ok p (\<lambda>_. True) \<Longrightarrow> (\<And>x. steady ok (f x) P) \<Longrightarrow> steady ok (pbind p f) P"
  by (auto elim!: steady_mono)

lemma gentle_do: "gentle b (GApi q) \<Longrightarrow> (\<And>x. P x) \<Longrightarrow> steady (gentle b) (gapi (kdo q)) P"
  by (rule steady_gapi, rule steady_kdoI) auto

lemma gentle_write: "gentle b (GApi q) \<Longrightarrow> (\<And>x. P x) \<Longrightarrow> steady (gentle b) (gapi (kwrite prj q)) P"
  by (rule steady_gapi, rule steady_kwriteI) auto

lemma resources_gentle [simp]: "steady (gentle b) (gateway_resources r b') (\<lambda>_. True)"
proof -
  have "steady is_read (gateway_resources r b') (\<lambda>_. True)"
    by (subst always_steady [symmetric, where h = "[]"], rule resources_rule) (auto simp: reads_free_def)
  then show ?thesis by (rule steady_mono) simp_all
qed

section \<open>The members\<close>

definition full_ledger :: "gateway_backend \<Rightarrow> member_ledger \<Rightarrow> bool" where
  "full_ledger r l \<longleftrightarrow> int (length (ml_members l)) = gb_replicas r"

lemma choose_gentle: "steady (gentle b) (choose_members r n b' transit ip ms nodes) (\<lambda>_. True)"
proof (induction nodes arbitrary: ip ms)
  case (Cons node nodes)
  then show ?case
    by (auto simp: Let_def simp del: steady_ebind intro!: steady_after [OF gentle_random] steady_after [OF allocate_gentle])
qed simp

lemma found_members_gentle: "steady (gentle b) (found_members r n b' a) (\<lambda>x. case x of Inl e \<Rightarrow> True | Inr l \<Rightarrow> full_ledger r l)"
  unfolding found_members_def Let_def
  by (rule steady_after [OF resources_gentle])
    (auto simp: full_ledger_def new_ledger_def simp del: steady_ebind intro!: steady_after [OF gentle_list] steady_after [OF choose_gentle])

lemma create_ledger_gentle: "steady (gentle b) (gapi (kdo (Create (GMap (ledger_object r b l))))) (\<lambda>_. True)"
  by (rule gentle_do) (simp_all add: ledger_object_def)

lemma gateway_members_gentle:
  "steady (gentle b) (gateway_members r n tries b a) (\<lambda>x. case x of Inl e \<Rightarrow> True | Inr l \<Rightarrow> full_ledger r l)"
proof (induction tries)
  case (Suc tries)
  have created: "steady (gentle b) (ebind (found_members r n b a) (\<lambda>l. pbind (gapi (kdo (Create (GMap (ledger_object r b l))))) (\<lambda>y. case y of
       Inr _ \<Rightarrow> go l | Inl e \<Rightarrow> if is_already_exists e then gateway_members r n tries b a else leave e)))
     (\<lambda>x. case x of Inl e \<Rightarrow> True | Inr l \<Rightarrow> full_ledger r l)"
    unfolding steady_ebind
    by (rule steady_mono [OF found_members_gentle])
      (use Suc in \<open>auto simp del: steady_pbind intro!: steady_then [OF create_ledger_gentle] split: sum.split\<close>)
  have "full_ledger r l" if "read_members r b a cm = Inr l" for cm l
    using that by (auto simp: read_members_def full_ledger_def ledger_matches_def split: if_splits option.splits)
  then show ?case
    unfolding gateway_members.simps
    by (intro steady_then [OF gentle_get]) (use created in \<open>auto simp del: steady_ebind split: sum.split\<close>)
qed simp

section \<open>Keys and links\<close>

text \<open>What preparing a member keeps: everything but an unpublished key and additional links.\<close>

definition keeps_member :: "gateway_member \<Rightarrow> gateway_member \<Rightarrow> bool" where
  "keeps_member m m' \<longleftrightarrow> gm_secret_name m' = gm_secret_name m
     \<and> (gm_endpoint m')\<lparr>ge_public_key := [], ge_links := []\<rparr> = (gm_endpoint m)\<lparr>ge_public_key := [], ge_links := []\<rparr>
     \<and> (ge_public_key (gm_endpoint m) = [] \<or> ge_public_key (gm_endpoint m') = ge_public_key (gm_endpoint m))
     \<and> (\<not> distinct (map gl_peer_id (ge_links (gm_endpoint m))) \<or> set (ge_links (gm_endpoint m)) \<subseteq> set (ge_links (gm_endpoint m')))"

lemma keeps_key: "published = [] \<or> published = pub \<Longrightarrow> published = ge_public_key (gm_endpoint m) \<Longrightarrow>
    keeps_member m (m\<lparr>gm_endpoint := (gm_endpoint m)\<lparr>ge_public_key := pub\<rparr>\<rparr>)"
  by (auto simp: keeps_member_def)

definition key_kept :: "gateway_member \<Rightarrow> err + gateway_member \<Rightarrow> bool" where
  "key_kept m x \<longleftrightarrow> (case x of Inl e \<Rightarrow> True | Inr m' \<Rightarrow> keeps_member m m' \<and> ge_links (gm_endpoint m') = ge_links (gm_endpoint m))"

lemma key_kept_Inl [simp]: "key_kept m (Inl e)"
  by (simp add: key_kept_def)

lemma secret_key_kept: "key_kept m (case secret_key b m s of Inl x \<Rightarrow> Inl (g x) | Inr a \<Rightarrow> Inr a)"
  by (auto simp: key_kept_def secret_key_def Let_def keeps_member_def split: option.splits)

lemma create_secret_gentle: "steady (gentle b) (gapi (kwrite g_secret (Create (GSecret (new_secret r b name raw))))) (\<lambda>_. True)"
  by (rule gentle_write) (simp_all add: new_secret_def)

lemma ensure_key_gentle: "steady (gentle b) (ensure_key r tries b m) (key_kept m)"
proof (induction tries)
  case (Suc tries)
  have made: "steady (gentle b) (ebind (random_bytes 32) (\<lambda>raw. pbind (gapi (kwrite g_secret (Create (GSecret (new_secret r b (gm_secret_name m) (clamp_private raw))))))
     (\<lambda>y. case y of Inr s' \<Rightarrow> lift_res Errorf (secret_key b m s') | Inl e \<Rightarrow> if is_already_exists e then ensure_key r tries b m else leave e)))
     (key_kept m)"
    by (rule steady_after [OF gentle_random])
      (use Suc in \<open>auto simp: secret_key_kept simp del: steady_pbind intro!: steady_then [OF create_secret_gentle] split: sum.split\<close>)
  then show ?case
    unfolding ensure_key.simps Let_def
    by (intro steady_then [OF gentle_get]) (auto simp: secret_key_kept simp del: steady_ebind split: sum.split)
qed simp

text \<open>The links grow by entries for peers that had none.\<close>

definition keeps_links :: "gateway_link smap \<Rightarrow> gateway_link smap \<Rightarrow> bool" where
  "keeps_links m m' \<longleftrightarrow> (\<forall>k l. map_of m k = Some l \<longrightarrow> map_of m' k = Some l)"

lemma keeps_links_mput: "keeps_links m m' \<Longrightarrow> map_of m' k = None \<Longrightarrow> keeps_links m (mput k v m')"
  by (auto simp: keeps_links_def)

definition links_kept :: "gateway_link smap \<Rightarrow> err + gateway_link smap \<Rightarrow> bool" where
  "links_kept m x \<longleftrightarrow> (case x of Inl e \<Rightarrow> True | Inr m' \<Rightarrow> keeps_links m m' \<and> distinct (map fst m'))"

lemma links_kept_simps [simp]: "links_kept m (Inl e)" "links_kept m (Inr m') \<longleftrightarrow> keeps_links m m' \<and> distinct (map fst m')"
  by (simp_all add: links_kept_def)

lemma claim_link_gentle:
  assumes "keeps_links m existing" and "distinct (map fst existing)"
  shows "steady (gentle b) (claim_link r n b' g existing p) (links_kept m)"
proof (cases "map_of existing (peer_key p)")
  case None
  have new: "keeps_links m (mput (peer_key p) l existing)" for l
    using assms(1) None by (rule keeps_links_mput)
  show ?thesis unfolding claim_link_def Let_def
    using assms None new by (auto simp del: steady_ebind intro!: steady_after [OF allocate_gentle])
next
  case (Some l)
  then have "claim_link r n b' g existing p = go existing \<or> (\<exists>e. claim_link r n b' g existing p = leave e)"
    unfolding claim_link_def Let_def by simp
  then show ?thesis using assms by auto
qed

lemma known_links_distinct [simp]: "distinct (map fst (known_links links))"
proof -
  have "distinct (map fst m) \<Longrightarrow> distinct (map fst (fold (\<lambda>l m. mput (gl_peer_id l) l m) links m))" for m :: "gateway_link smap"
    by (induction links arbitrary: m) simp_all
  then show ?thesis by (simp add: known_links_def)
qed

lemma fold_mput_other: "k \<notin> f ` set ls \<Longrightarrow> map_of (fold (\<lambda>l m. mput (f l) l m) ls m) k = map_of m k"
  by (induction ls arbitrary: m) auto

lemma known_links_of:
  assumes "distinct (map gl_peer_id links)" and "l \<in> set links"
  shows "map_of (known_links links) (gl_peer_id l) = Some l"
proof -
  have "map_of (fold (\<lambda>l m. mput (gl_peer_id l) l m) links m) (gl_peer_id l) = Some l" for m
    using assms
  proof (induction links arbitrary: m)
    case (Cons x links)
    then show ?case by (cases "x = l") (simp_all add: fold_mput_other)
  qed simp
  then show ?thesis by (simp add: known_links_def)
qed

lemma link_claims_gentle:
  "steady (gentle b) (link_claims r n b' m) (\<lambda>x. case x of Inl e \<Rightarrow> True | Inr m' \<Rightarrow> keeps_member m m')"
proof -
  let ?known = "known_links (ge_links (gm_endpoint m))"
  have fold: "steady (gentle b) (efold (claim_link r n b' m) ?known (b_peers (nb_spec b'))) (links_kept ?known)"
  proof (rule steady_efold [where I = "\<lambda>s. links_kept ?known (Inr s)"])
    fix s p
    assume "links_kept ?known (Inr s)"
    then show "steady (gentle b) (claim_link r n b' m s p) (\<lambda>y. case y of Inl e \<Rightarrow> links_kept ?known (Inl e) | Inr s' \<Rightarrow> links_kept ?known (Inr s'))"
      by (intro steady_mono [OF claim_link_gentle [of ?known s]]) (auto split: sum.split)
  qed (auto simp: keeps_links_def)
  have "keeps_member m (m\<lparr>gm_endpoint := (gm_endpoint m)\<lparr>ge_links := sort_slice gl_peer_id (map snd existing)\<rparr>\<rparr>)"
    if kept: "keeps_links ?known existing" for existing
  proof -
    have "l \<in> snd ` set existing" if "distinct (map gl_peer_id (ge_links (gm_endpoint m)))" "l \<in> set (ge_links (gm_endpoint m))" for l
      using kept known_links_of [OF that] unfolding keeps_links_def by (force dest: map_of_SomeD)
    then show ?thesis by (auto simp: keeps_member_def)
  qed
  then show ?thesis
    unfolding link_claims_def steady_ebind by (intro steady_mono [OF fold]) (auto split: sum.splits)
qed

lemma keeps_member_trans: "keeps_member m m' \<Longrightarrow> ge_links (gm_endpoint m') = ge_links (gm_endpoint m) \<Longrightarrow> keeps_member m' m'' \<Longrightarrow> keeps_member m m''"
  unfolding keeps_member_def by (elim conjE disjE) simp_all

lemma keeps_member_refl [simp]: "keeps_member m m"
  by (simp add: keeps_member_def)

lemma keeps_member_id: "keeps_member m m' \<Longrightarrow> ge_id (gm_endpoint m') = ge_id (gm_endpoint m)"
  unfolding keeps_member_def by (metis gateway_endpoint.ext_inject gateway_endpoint.surjective gateway_endpoint.update_convs(6,9))

definition members_kept :: "gateway_member list \<Rightarrow> err + gateway_member list \<Rightarrow> bool" where
  "members_kept ms x \<longleftrightarrow> (case x of Inl e \<Rightarrow> True | Inr ms' \<Rightarrow> list_all2 keeps_member ms ms')"

lemma prepare_member_gentle:
  "steady (gentle b) (prepare_member r n b ms m) (\<lambda>x. case x of Inl e \<Rightarrow> True | Inr ms' \<Rightarrow> \<exists>m'. keeps_member m m' \<and> ms' = ms @ [m'])"
proof -
  have link: "steady (gentle b) (ebind (link_claims r (tries_conflict n) b m1) (\<lambda>m2. go (ms @ [m2])))
      (\<lambda>x. case x of Inl e \<Rightarrow> True | Inr ms' \<Rightarrow> \<exists>m'. keeps_member m m' \<and> ms' = ms @ [m'])"
    if "keeps_member m m1" "ge_links (gm_endpoint m1) = ge_links (gm_endpoint m)" for m1
    unfolding steady_ebind
    by (rule steady_mono [OF link_claims_gentle]) (use that in \<open>auto intro: keeps_member_trans split: sum.splits\<close>)
  show ?thesis
    unfolding prepare_member_def steady_ebind [of _ "if _ then _ else _"]
    by (rule steady_mono [where ok = "gentle b" and P = "key_kept m"])
      (use link in \<open>auto intro: ensure_key_gentle simp: key_kept_def simp del: steady_ebind split: sum.splits\<close>)
qed

lemma prepare_members_gentle: "steady (gentle b) (efold (prepare_member r n b) [] ms) (members_kept ms)"
proof -
  have "steady (gentle b) (efold (prepare_member r n b) ms' todo) (members_kept (visited @ todo))"
    if "list_all2 keeps_member visited ms'" for visited ms' todo
    using that
  proof (induction todo arbitrary: visited ms')
    case (Cons m todo)
    show ?case
      unfolding efold.simps steady_ebind
    proof (rule steady_mono [OF prepare_member_gentle])
      fix x :: "err + gateway_member list"
      assume x: "case x of Inl e \<Rightarrow> True | Inr ms'' \<Rightarrow> \<exists>m'. keeps_member m m' \<and> ms'' = ms' @ [m']"
      show "case x of Inl e \<Rightarrow> members_kept (visited @ m # todo) (Inl e) | Inr a \<Rightarrow> steady (gentle b) (efold (prepare_member r n b) a todo) (members_kept (visited @ m # todo))"
      proof (cases x)
        case (Inr ms'')
        with x obtain m' where "keeps_member m m'" "ms'' = ms' @ [m']" by auto
        then show ?thesis using Cons.IH [of "visited @ [m]" ms''] Cons.prems Inr by (simp add: list_all2_appendI)
      qed (simp add: members_kept_def)
    qed
  qed (simp add: members_kept_def)
  from this [of "[]" "[]" ms] show ?thesis by simp
qed

definition member_ids :: "gateway_member list \<Rightarrow> string list" where
  "member_ids ms = map (\<lambda>m. ge_id (gm_endpoint m)) ms"

lemma kept_ids: "list_all2 keeps_member ms ms' \<Longrightarrow> member_ids ms' = member_ids ms \<and> length ms' = length ms"
  by (induction rule: list_all2_induct) (auto simp: member_ids_def keeps_member_id)

lemma check_ledger_member_ids:
  "check_ledger_member r b a (ids, nodes, ips) m = Inr (ids', nodes', ips') \<Longrightarrow> ge_id (gm_endpoint m) \<notin> set ids \<and> ids' = ge_id (gm_endpoint m) # ids"
  by (auto simp: check_ledger_member_def member_fits_def Let_def rbind_def split: if_splits sum.splits)

lemma ledger_ids_distinct:
  assumes "validate_ledger r b a l = Inr ()"
  shows "distinct (member_ids (ml_members l))"
proof -
  have "distinct (member_ids ms) \<and> set (member_ids ms) \<inter> set ids = {}"
    if "foldr_res (check_ledger_member r b a) (ids, nodes, ips) ms = Inr st" for ms ids nodes ips st
    using that
  proof (induction ms arbitrary: ids nodes ips)
    case (Cons m ms)
    then obtain ids' nodes' ips' where step: "check_ledger_member r b a (ids, nodes, ips) m = Inr (ids', nodes', ips')"
      and rest: "foldr_res (check_ledger_member r b a) (ids', nodes', ips') ms = Inr st"
      by (auto simp: rbind_def split: sum.splits)
    show ?case using Cons.IH [OF rest] check_ledger_member_ids [OF step] by (auto simp: member_ids_def)
  qed (simp add: member_ids_def)
  with assms show ?thesis by (auto simp: validate_ledger_def rbind_def split: sum.splits)
qed

definition members_ready :: "gateway_backend \<Rightarrow> gateway_member list \<Rightarrow> bool" where
  "members_ready r ms \<longleftrightarrow> int (length ms) = gb_replicas r \<and> 2 \<le> length ms \<and> distinct (member_ids ms)"

lemma save_ledger_gentle: "steady (gentle b) (save_ledger r n b l) (\<lambda>_. True)"
proof -
  have once: "steady (\<lambda>q. gentle b (GApi q)) (save_once r b l) (\<lambda>_. True)"
    unfolding save_once_def steady_ebind
    by (rule steady_kgetI) (auto intro!: steady_kdoI split: sum.split)
  have "steady (\<lambda>q. gentle b (GApi q)) (retry_on_conflict n (save_once r b l)) (\<lambda>_. True)"
    by (induction n) (use once in \<open>auto intro!: steady_then [OF once] simp del: steady_pbind split: sum.split\<close>)
  then show ?thesis unfolding save_ledger_def by (rule steady_gapi)
qed

lemma check_nodes_gentle: "steady (gentle b) (efold (\<lambda>_. check_node r) () ms) (\<lambda>_. True)"
  by (rule steady_efold [where I = "\<lambda>_. True"])
    (auto simp: check_node_def simp del: steady_pbind intro!: steady_then [OF gentle_get] split: sum.split)

definition prepared :: "gateway_backend \<Rightarrow> err + member_ledger \<Rightarrow> bool" where
  "prepared r x \<longleftrightarrow> (case x of Inl e \<Rightarrow> True | Inr l \<Rightarrow> members_ready r (ml_members l))"

lemma prepared_Inl [simp]: "prepared r (Inl e)"
  by (simp add: prepared_def)

lemma validate_replicas: "gateway_validate r b a = Inr () \<Longrightarrow> 2 \<le> gb_replicas r"
  by (auto simp: gateway_validate_def settings_ok_def split: if_splits)

lemma ensure_members_end:
  assumes "2 \<le> gb_replicas r" and "full_ledger r l" and "validate_ledger r b a l = Inr ()"
  shows "steady (gentle b) (ebind (efold (\<lambda>_. check_node r) () (ml_members l)) (\<lambda>_. ebind (efold (prepare_member r n b) [] (ml_members l)) (\<lambda>ms.
     let l' = l\<lparr>ml_members := ms\<rparr> in ebind (save_ledger r (tries_conflict n) b l') (\<lambda>_. go l')))) (prepared r)"
proof -
  have save: "steady (gentle b) (let l' = l\<lparr>ml_members := ms\<rparr> in ebind (save_ledger r (tries_conflict n) b l') (\<lambda>_. go l')) (prepared r)"
    if "members_ready r ms" for ms
    unfolding Let_def by (rule steady_after [OF save_ledger_gentle]) (simp_all add: prepared_def that)
  have "members_ready r ms" if "members_kept (ml_members l) (Inr ms)" for ms
    using kept_ids [of "ml_members l" ms] that assms ledger_ids_distinct [OF assms(3)] by (auto simp: members_ready_def members_kept_def full_ledger_def)
  then show ?thesis
    by (intro steady_after [OF check_nodes_gentle]; (unfold steady_ebind [of _ "efold (prepare_member r n b) _ _"])?)
      (auto intro!: steady_mono [OF prepare_members_gentle] save simp del: steady_ebind split: sum.split)
qed

lemma ensure_members_gentle: "steady (gentle b) (ensure_members r n b a) (prepared r)"
proof (cases "gateway_validate r b a")
  case (Inr u)
  then have two: "2 \<le> gb_replicas r" using validate_replicas by simp
  show ?thesis
    unfolding ensure_members_def Inr ebind_lift_res sum.case
    by (rule steady_after [OF registry_gentle], simp, unfold steady_ebind [of _ "gateway_members _ _ _ _ _"], rule steady_mono [OF gateway_members_gentle])
      (auto simp del: steady_ebind intro: ensure_members_end [OF two] split: sum.splits)
qed (simp add: ensure_members_def ebind_lift_res)

section \<open>Replacing Pods\<close>

definition pod_seen :: "gateway_backend \<Rightarrow> network_binding \<Rightarrow> gghist \<Rightarrow> gateway_member \<Rightarrow> gpod \<Rightarrow> bool" where
  "pod_seen r b h m p \<longleftrightarrow> replied h (Get ''Pod'' (gb_namespace r) (pod_name b m)) (Obj (GPod p)) \<and> gateway_owned (gp_meta p) b"

text \<open>A member that carries the traffic: its Pod was read, is ready and answered the probe of its own configuration.\<close>

definition survivor :: "gateway_backend \<Rightarrow> network_binding \<Rightarrow> gateway_attachment \<Rightarrow> member_ledger \<Rightarrow> gghist \<Rightarrow> gateway_member \<Rightarrow> bool" where
  "survivor r b a l h m \<longleftrightarrow> (\<exists>p c. pod_seen r b h m p \<and> pod_ready p \<and> render r b a l m = Inr (Some c) \<and> (Probe p (Some c), GHealth (Inr True)) \<in> set h)"

definition safe_retirement :: "gateway_backend \<Rightarrow> network_binding \<Rightarrow> gateway_attachment \<Rightarrow> gghist \<Rightarrow> gpod \<Rightarrow> bool" where
  "safe_retirement r b a h p \<longleftrightarrow> (\<exists>l before m after. ml_members l = before @ m # after \<and> members_ready r (ml_members l)
     \<and> pod_seen r b h m p \<and> list_all (survivor r b a l h) (before @ after))"

definition unused_map :: "gateway_backend \<Rightarrow> network_binding \<Rightarrow> gghist \<Rightarrow> config_map \<Rightarrow> bool" where
  "unused_map r b h m \<longleftrightarrow> (\<exists>name ps. replied h (Get ''ConfigMap'' (gb_namespace r) name) (Obj (GMap m)) \<and> name \<noteq> ledger_name b
     \<and> replied h (List ''Pod'' (Some (gb_namespace r)) [(api_owner_label, binding_uid b)]) (Items (map GPod ps)) \<and> name \<notin> set (used_maps b ps))"

fun ensure_step :: "gateway_backend \<Rightarrow> network_binding \<Rightarrow> gateway_attachment \<Rightarrow> gghist \<Rightarrow> greq \<Rightarrow> bool" where
  "ensure_step r b a h (GApi (Delete (GPod p) u v)) \<longleftrightarrow> preconditioned (gp_meta p) u v \<and> calm h \<and> safe_retirement r b a h p"
| "ensure_step r b a h (GApi (Delete (GMap m) u v)) \<longleftrightarrow> preconditioned (cm_meta m) u v \<and> gateway_owned (cm_meta m) b \<and> unused_map r b h m"
| "ensure_step r b a h q \<longleftrightarrow> gentle b q"

lemma gentle_ensure: "gentle b q \<Longrightarrow> ensure_step r b a h q"
  by (cases "(r, b, a, h, q)" rule: ensure_step.cases) auto

lemma ensure_reads [simp]: "reads_free (ensure_step r b a)"
  by (simp add: reads_free_def)

lemma gentle_rule:
  assumes "steady (gentle b) p P" and "\<And>h' x. onwards h h' \<Longrightarrow> P x \<Longrightarrow> Q h' x"
  shows "always (ensure_step r b a) p Q h"
  by (rule quiet_rule [OF assms(1)]) (use assms(2) gentle_ensure gentle_quiet in auto)

lemma pod_seen_onwards: "pod_seen r b h m p \<Longrightarrow> onwards h h' \<Longrightarrow> pod_seen r b h' m p"
  unfolding pod_seen_def by (blast intro: replied_onwards)

definition slot_seen :: "gateway_backend \<Rightarrow> network_binding \<Rightarrow> gghist \<Rightarrow> gateway_member \<times> json option \<Rightarrow> slot \<Rightarrow> bool" where
  "slot_seen r b h mc s \<longleftrightarrow> sl_member s = fst mc \<and> sl_config s = snd mc \<and> (\<forall>p. sl_pod s = Some p \<longrightarrow> pod_seen r b h (fst mc) p)"

lemma slot_seen_onwards: "slot_seen r b h mc s \<Longrightarrow> onwards h h' \<Longrightarrow> slot_seen r b h' mc s"
  unfolding slot_seen_def by (blast intro: pod_seen_onwards)

lemma slots_seen_onwards: "list_all2 (slot_seen r b h) mcs slots \<Longrightarrow> onwards h h' \<Longrightarrow> list_all2 (slot_seen r b h') mcs slots"
  by (erule list_all2_mono) (rule slot_seen_onwards)

lemma verify_pod_gentle: "steady (gentle b) (verify_pod r b' m p) (\<lambda>_. True)"
  unfolding verify_pod_def
  by (auto simp del: steady_ebind simp: ebind_lift_res intro!: steady_after [OF gentle_get] split: sum.split prod.split)

lemma read_pods_rule:
  assumes "list_all2 (slot_seen r b h) seen_mcs slots" and "\<And>h' y. onwards h h' \<Longrightarrow> Q h' (Inl y)"
    and "\<And>h' all. onwards h h' \<Longrightarrow> list_all2 (slot_seen r b h') (seen_mcs @ mcs) all \<Longrightarrow> Q h' (Inr all)"
  shows "always (ensure_step r b a) (read_pods r b res slots mcs) Q h"
  using assms
proof (induction mcs arbitrary: h slots seen_mcs)
  case Nil
  then show ?case by simp
next
  case (Cons mc mcs)
  obtain m c where mc: "mc = (m, c)" by (cases mc)
  have go_on: "always (ensure_step r b a) (read_pods r b res (slots @ [s]) mcs) Q h'" if "onwards h h'" "slot_seen r b h' mc s" for h' s
  proof (rule Cons.IH [where seen_mcs = "seen_mcs @ [mc]"])
    show "list_all2 (slot_seen r b h') (seen_mcs @ [mc]) (slots @ [s])"
      using slots_seen_onwards [OF Cons.prems(1) that(1)] that(2) by (simp add: list_all2_appendI)
  qed (use Cons.prems(2,3) onwards_trans [OF that(1)] in auto)
  show ?case
    unfolding read_pods.simps always_ebind [of _ "or_with _ _"] always_or_with slot_pod_def mc prod.case always_pbind
  proof (rule gget_rule, goal_cases)
    case (2 h' e)
    then show ?case using go_on [of h' "\<lparr>sl_member = m, sl_config = c, sl_pod = None\<rparr>"] Cons.prems(2) by (simp add: slot_seen_def mc)
  next
    case (3 h' y p)
    have "always (ensure_step r b a) (verify_pod r b m p) (\<lambda>h'' x. case x of Inl e \<Rightarrow> Q h'' (Inl (z, Some e))
        | Inr _ \<Rightarrow> always (ensure_step r b a) (read_pods r b res (slots @ [\<lparr>sl_member = m, sl_config = c, sl_pod = Some p\<rparr>]) mcs) Q h'') h'"
      if "gateway_owned (gp_meta p) b" for z
      by (rule gentle_rule [OF verify_pod_gentle])
        (use 3 that in \<open>auto intro!: Cons.prems(2) go_on simp: slot_seen_def mc pod_seen_def elim: onwards_trans replied_onwards split: sum.split\<close>)
    then show ?case using 3 Cons.prems(2) by (auto simp del: always_ebind simp: always_ebind [of _ "verify_pod _ _ _ _"] cong: sum.case_cong)
  qed simp
qed

lemma probe_all_rule:
  assumes "\<And>h' x. onwards h h' \<Longrightarrow> (x = Inr True \<Longrightarrow> \<forall>s\<in>set ss. \<forall>p. sl_pod s = Some p \<longrightarrow> (Probe p (sl_config s), GHealth (Inr True)) \<in> set h') \<Longrightarrow> Q h' x"
  shows "always (ensure_step r b a) (probe_all ss) Q h"
  using assms
proof (induction ss arbitrary: h)
  case (Cons s ss)
  show ?case
  proof (cases "sl_pod s")
    case None
    then show ?thesis using Cons by auto
  next
    case (Some p)
    have sub: "onwards h (h @ [(Probe p (sl_config s), y)])" for y by (rule onwards_snoc) simp
    have "always (ensure_step r b a) (probe_all ss) Q (h @ [(Probe p (sl_config s), GHealth (Inr True))])"
    proof (rule Cons.IH, rule Cons.prems)
      fix h' x
      assume on: "onwards (h @ [(Probe p (sl_config s), GHealth (Inr True))]) h'"
        and all: "x = Inr True \<Longrightarrow> \<forall>s\<in>set ss. \<forall>p. sl_pod s = Some p \<longrightarrow> (Probe p (sl_config s), GHealth (Inr True)) \<in> set h'"
      show "onwards h h'" using sub on by (rule onwards_trans)
      show "\<forall>s\<in>set (s # ss). \<forall>p. sl_pod s = Some p \<longrightarrow> (Probe p (sl_config s), GHealth (Inr True)) \<in> set h'" if "x = Inr True"
        using all [OF that] on Some by (auto simp: onwards_def grows_def)
    qed
    then show ?thesis
      using Some Cons.prems [OF sub] by (auto simp: run_probe_def split: gresp.split sum.split)
  qed
qed simp

lemma objects_gentle:
  "steady (gentle b) (gateway_objects r b m c) (\<lambda>x. case x of Inl e \<Rightarrow> True | Inr (cm, p) \<Rightarrow> gateway_owned (cm_meta cm) b \<and> gateway_owned (gp_meta p) b \<and> isolated_pod p)"
proof -
  have files: "steady (gentle b) (efold (read_runtime r) [] runtime_files) (\<lambda>_. True)"
    by (rule steady_efold [where I = "\<lambda>_. True"]) (auto simp: read_runtime_def read_file_def split: sum.split)
  have "gateway_owned (gp_meta (gateway_pod r b m hash name)) b" for hash name
    by (simp add: gateway_pod_def gateway_owned_def gateway_metadata_def gateway_labels_def gateway_ref_def mget_def api_owner_label_def member_label_def)
  then show ?thesis
    unfolding gateway_objects_def
    by (intro steady_after [OF files]) (simp_all add: member_objects_def Let_def isolated_pod_def gateway_pod_def)
qed

lemma ensure_config_gentle: "gateway_owned (cm_meta cm) b \<Longrightarrow> steady (gentle b) (ensure_config r b' cm) (\<lambda>_. True)"
  unfolding ensure_config_def
  by (rule steady_then [OF gentle_get]) (auto intro!: gentle_do split: sum.split)

lemma create_pod_gentle: "gateway_owned (gp_meta p) b \<Longrightarrow> isolated_pod p \<Longrightarrow> steady (gentle b) (create_pod p) (\<lambda>_. True)"
  unfolding create_pod_def steady_pbind by (rule gentle_do) (auto split: sum.split)

lemma with_resources_rule: "always (ensure_step r b a) (with_resources r b res) (\<lambda>_ _. True) h"
  unfolding with_resources_def always_pbind by (rule resources_rule) simp_all

lemma stop_with_rule [simp]: "always (ensure_step r b a) (stop_with r b res reason) (\<lambda>_ _. True) h"
  unfolding stop_with_def always_pbind by (rule always_mono [OF with_resources_rule]) simp_all

text \<open>What is known when the members are replaced: the rendered members and the slots read for them.\<close>

definition rolling :: "gateway_backend \<Rightarrow> network_binding \<Rightarrow> gateway_attachment \<Rightarrow> member_ledger \<Rightarrow> gghist \<Rightarrow> slot list \<Rightarrow> bool" where
  "rolling r b a l h slots \<longleftrightarrow> members_ready r (ml_members l) \<and> map sl_member slots = ml_members l
     \<and> list_all (\<lambda>s. \<exists>c. sl_config s = Some c \<and> render r b a l (sl_member s) = Inr (Some c)) slots
     \<and> list_all (\<lambda>s. \<forall>p. sl_pod s = Some p \<longrightarrow> pod_seen r b h (sl_member s) p) slots"

lemma rolling_onwards: "rolling r b a l h slots \<Longrightarrow> onwards h h' \<Longrightarrow> rolling r b a l h' slots"
  unfolding rolling_def list_all_iff by (blast intro: pod_seen_onwards)

lemma rolling_survivor:
  assumes "rolling r b a l h slots" and "s \<in> set slots" and "\<not> unready s"
    and "\<forall>p. sl_pod s = Some p \<longrightarrow> (Probe p (sl_config s), GHealth (Inr True)) \<in> set h"
  shows "survivor r b a l h (sl_member s)"
proof -
  obtain p where p: "sl_pod s = Some p" "pod_ready p" using assms(3) by (auto simp: unready_def sl_ready_def split: option.splits)
  obtain c where "sl_config s = Some c" "render r b a l (sl_member s) = Inr (Some c)" and "pod_seen r b h (sl_member s) p"
    using assms(1,2) p(1) by (auto simp: rolling_def list_all_iff)
  with p assms(4) show ?thesis unfolding survivor_def by auto
qed

lemma retire_rule:
  assumes "rolling r b a l h (before @ s # after)" and "calm h" and "sl_pod s = Some p"
  shows "always (ensure_step r b a) (retire_pod r b res before s p after :: (ensured + 'z) gprog) (\<lambda>_ _. True) h"
proof -
  have delete: "always (ensure_step r b a) (ebind (or_with res (delete_pod p)) (\<lambda>_. stop_with r b (retired_result res before s after) reason :: (ensured + 'z) gprog)) (\<lambda>_ _. True) h'"
    if "onwards h h'" "\<not> list_ex unready (before @ after)"
      "\<forall>s\<in>set (before @ after). \<forall>p. sl_pod s = Some p \<longrightarrow> (Probe p (sl_config s), GHealth (Inr True)) \<in> set h'" for h' reason
  proof -
    have roll: "rolling r b a l h' (before @ s # after)" using assms(1) that(1) by (rule rolling_onwards)
    have "list_all (survivor r b a l h') (map sl_member before @ map sl_member after)"
      using rolling_survivor [OF roll] that(2,3) by (auto simp: list_all_iff list_ex_iff)
    moreover have "ml_members l = map sl_member before @ sl_member s # map sl_member after" "members_ready r (ml_members l)" "pod_seen r b h' (sl_member s) p"
      using roll assms(3) by (auto simp: rolling_def)
    ultimately have "safe_retirement r b a h' p" unfolding safe_retirement_def by blast
    then show ?thesis
      unfolding always_ebind [of _ "or_with _ _"] always_or_with
      by (intro delete_pod_rule) (use calm_onwards [OF assms(2) that(1)] in \<open>auto split: sum.split\<close>)
  qed
  have probe: "always (ensure_step r b a) (ebind (or_with res (probe_all (before @ after))) (\<lambda>healthy.
      if \<not> healthy then stop_with r b res ''WaitingForSiblingNativeConvergence''
      else ebind (or_with res (delete_pod p)) (\<lambda>_. stop_with r b (retired_result res before s after) ''RollingGatewayGeneration'' :: (ensured + 'z) gprog))) (\<lambda>_ _. True) h"
    if "\<not> list_ex unready (before @ after)"
    unfolding always_ebind [of _ "or_with _ (probe_all _)"] always_or_with
    by (rule probe_all_rule) (use delete [OF _ that] in \<open>auto simp del: always_ebind split: sum.split\<close>)
  then show ?thesis unfolding retire_pod_def Let_def
    by (cases "list_ex unready (before @ after)") (simp_all del: always_ebind list_ex_append)
qed

lemma roll_members_rule:
  assumes "rolling r b a l h (before @ slots)" and "calm h"
  shows "always (ensure_step r b a) (roll_members r b before st slots) (\<lambda>_ _. True) h"
  using assms
proof (induction slots arbitrary: before st h)
  case (Cons s after)
  obtain changed res where st: "st = (changed, res)" by (cases st)
  have next_slot: "always (ensure_step r b a) (roll_members r b (before @ [s]) st' after) (\<lambda>_ _. True) h'" if "onwards h h'" for st' h'
    using that Cons.prems by (intro Cons.IH) (auto intro: rolling_onwards calm_onwards)
  have retire: "always (ensure_step r b a) (retire_pod r b res before s p after :: (ensured + (bool \<times> gateway_result)) gprog) (\<lambda>_ _. True) h'"
    if "onwards h h'" "sl_pod s = Some p" for p h'
    using that Cons.prems by (intro retire_rule) (auto intro: rolling_onwards calm_onwards)
  have pod: "always (ensure_step r b a) (ebind (or_with res (ensure_config r b cm)) (\<lambda>_. case sl_pod s of
       None \<Rightarrow> ebind (or_with res (create_pod p)) (\<lambda>_. roll_members r b (before @ [s]) (True, res) after)
     | Some old \<Rightarrow>
         if om_deletion (gp_meta old) \<noteq> None
         then roll_members r b (before @ [s]) (True, res\<lparr>gr_reason := ''WaitingForGatewayTermination''\<rparr>) after
         else if config_hash old = config_hash p then roll_members r b (before @ [s]) (changed, res) after
         else retire_pod r b res before s old after)) (\<lambda>_ _. True) h'"
    if on: "onwards h h'" and owned: "gateway_owned (cm_meta cm) b" "gateway_owned (gp_meta p) b" "isolated_pod p" for cm p h'
    unfolding always_ebind [of _ "or_with _ (ensure_config _ _ _)"] always_or_with
  proof (rule gentle_rule [OF ensure_config_gentle [OF owned(1)]])
    fix h'' and x :: "err + unit"
    assume "onwards h' h''"
    with on have on2: "onwards h h''" by (rule onwards_trans)
    have create: "always (ensure_step r b a) (create_pod p) (\<lambda>h3 x. case x of Inl e \<Rightarrow> True
        | Inr _ \<Rightarrow> always (ensure_step r b a) (roll_members r b (before @ [s]) (True, res) after) (\<lambda>_ _. True) h3) h''"
      by (rule gentle_rule [OF create_pod_gentle [OF owned(2,3)]]) (use on2 in \<open>auto intro: next_slot onwards_trans split: sum.split\<close>)
    show "case case x of Inl e \<Rightarrow> Inl (res, Some e) | Inr a \<Rightarrow> Inr a of Inl e \<Rightarrow> True
       | Inr u \<Rightarrow> always (ensure_step r b a) (case sl_pod s of
            None \<Rightarrow> ebind (or_with res (create_pod p)) (\<lambda>_. roll_members r b (before @ [s]) (True, res) after)
          | Some old \<Rightarrow> if om_deletion (gp_meta old) \<noteq> None
             then roll_members r b (before @ [s]) (True, res\<lparr>gr_reason := ''WaitingForGatewayTermination''\<rparr>) after
             else if config_hash old = config_hash p then roll_members r b (before @ [s]) (changed, res) after
             else retire_pod r b res before s old after) (\<lambda>_ _. True) h''"
      using create next_slot [OF on2] retire [OF on2]
      by (auto simp del: always_ebind simp: always_ebind [of _ "or_with _ _"] split: sum.splits option.split elim!: always_mono)
  qed
  show ?case
    unfolding roll_members.simps st prod.case always_ebind [of _ "or_with _ (gateway_objects _ _ _ _)"] always_or_with
    by (rule gentle_rule [OF objects_gentle]) (auto simp del: always_ebind intro: pod split: sum.splits)
qed simp

lemma prune_map_rule:
  assumes "replied h (List ''Pod'' (Some (gb_namespace r)) [(api_owner_label, binding_uid b)]) (Items (map GPod ps))" and "\<And>h' y. grows h h' \<Longrightarrow> Q h' y"
  shows "always (ensure_step r b a) (prune_map r b (used_maps b ps) m) Q h"
proof (cases "om_name (cm_meta m) \<in> set (used_maps b ps)")
  case False
  then have "om_name (cm_meta m) \<noteq> ledger_name b" by (auto simp: used_maps_def)
  with False show ?thesis
    unfolding prune_map_def if_not_P [OF False]
  proof (intro delete_record_rule, goal_cases)
    case (2 h' m' u v)
    then show ?case using replied_onwards [OF assms(1)] False by (auto simp: unused_map_def gateway_record_def)
  qed (use assms(2) in \<open>auto simp: gateway_record_def\<close>)
qed (simp add: prune_map_def assms(2))

lemma prune_configs_rule: "(\<And>h' y. Q h' y) \<Longrightarrow> always (ensure_step r b a) (prune_configs r b) Q h"
  unfolding prune_configs_def Let_def always_ebind [of _ "gapi (klist g_pod _ _ _)"]
proof (rule glist_rule [where inject = GPod], goal_cases)
  case (4 h1 ps)
  show ?case unfolding sum.case always_ebind [of _ "gapi _"]
  proof (rule glist_rule [where inject = GMap], goal_cases)
    case (4 h2 ms)
    let ?listed = "\<lambda>h. replied h (List ''Pod'' (Some (gb_namespace r)) [(api_owner_label, binding_uid b)]) (Items (map GPod ps))"
    have "?listed h2" using \<open>replied h1 _ (Items (map GPod ps))\<close> 4(1) by (rule replied_onwards)
    then show ?case unfolding sum.case
      by (intro efold_rule [where P = ?listed]) (use \<open>\<And>h' y. Q h' y\<close> replied_grows prune_map_rule in auto)
  qed (use \<open>\<And>h' y. Q h' y\<close> in auto)
qed auto

lemma map_res_nth: "map_res f xs = Inr ys \<Longrightarrow> list_all2 (\<lambda>x y. f x = Inr y) xs ys"
  by (induction xs arbitrary: ys) (auto simp: rbind_def split: sum.splits)

lemma slots_rolling:
  assumes "members_ready r (ml_members l)" and "map_res (render r b a l) (ml_members l) = Inr configs"
    and "list_all2 (slot_seen r b h) (zip (ml_members l) configs) slots" and "\<not> list_ex (\<lambda>s. sl_config s = None) slots"
  shows "rolling r b a l h slots"
proof -
  have c: "list_all2 (\<lambda>m c. render r b a l m = Inr c) (ml_members l) configs" by (rule map_res_nth [OF assms(2)])
  then have len: "length configs = length (ml_members l)" "length slots = length (ml_members l)"
    using list_all2_lengthD [OF assms(3)] by (auto dest: list_all2_lengthD)
  have slot: "slot_seen r b h (ml_members l ! i, configs ! i) (slots ! i)" "render r b a l (ml_members l ! i) = Inr (configs ! i)"
    if "i < length slots" for i
    using list_all2_nthD2 [OF assms(3) that] list_all2_nthD [OF c, of i] that len by simp_all
  have "map sl_member slots = ml_members l"
    using len slot(1) by (intro nth_equalityI) (auto simp: slot_seen_def)
  moreover have "sl_config s \<noteq> None" if "s \<in> set slots" for s using that assms(4) by (auto simp: list_ex_iff)
  then have "list_all (\<lambda>s. \<exists>c. sl_config s = Some c \<and> render r b a l (sl_member s) = Inr (Some c)) slots"
    unfolding list_all_length using slot by (metis fst_conv snd_conv slot_seen_def nth_mem option.collapse)
  moreover have "list_all (\<lambda>s. \<forall>p. sl_pod s = Some p \<longrightarrow> pod_seen r b h (sl_member s) p) slots"
    unfolding list_all_length using slot by (metis fst_conv slot_seen_def)
  ultimately show ?thesis using assms(1) by (simp add: rolling_def)
qed

lemma ensure_pods_rule:
  assumes "members_ready r (ml_members l)" and "map_res (render r b a l) (ml_members l) = Inr configs" and "calm h"
  shows "always (ensure_step r b a) (ensure_pods r b res (zip (ml_members l) configs)) (\<lambda>_ _. True) h"
  unfolding ensure_pods_def Let_def always_ebind [of _ "read_pods _ _ _ _ _"]
proof (rule read_pods_rule [where seen_mcs = "[]"], goal_cases)
  case (3 h' slots)
  have last: "always (ensure_step r b a) (ebind (or_with res3 (prune_configs r b)) (\<lambda>_. pbind (with_resources r b res3) leave)) (\<lambda>_ _. True) h''" for h'' res3
    unfolding always_ebind always_or_with
    by (rule prune_configs_rule) (auto intro!: always_mono [OF with_resources_rule] split: sum.split)
  have "rolling r b a l h' slots" if "\<not> list_ex (\<lambda>s. sl_config s = None) slots"
    using assms(1,2) 3(2) that by (intro slots_rolling) simp_all
  then show ?case
    using calm_onwards [OF assms(3) 3(1)] last
    by (auto simp del: always_ebind simp: always_ebind [of _ "roll_members _ _ _ _ _"] list_ex_iff
      intro!: always_mono [OF roll_members_rule] split: sum.split)
qed simp_all

lemma gateway_ensure_run: "always (ensure_step r b a) (gateway_ensure r n b a) (\<lambda>_ _. True) []"
proof -
  have pods: "always (ensure_step r b a) (ebind (or_with res (lift_res Errorf (map_res (render r b a l) (ml_members l)))) (\<lambda>configs.
       ensure_pods r b res (zip (ml_members l) configs))) (\<lambda>_ _. True) h"
    if "members_ready r (ml_members l)" "calm h" for l h res
    using ensure_pods_rule [OF that(1) _ that(2)] by (cases "map_res (render r b a l) (ml_members l)") simp_all
  have calm: "calm h" if "onwards [] h" for h using that by (simp add: onwards_def calm_def)
  show ?thesis
    unfolding gateway_ensure_def always_pbind always_ebind [of _ "or_with _ (ensure_members _ _ _ _)"] always_or_with
    by (rule gentle_rule [OF ensure_members_gentle])
      (use pods calm in \<open>auto simp: prepared_def Let_def simp del: always_ebind intro!: always_mono [OF pods] split: sum.splits\<close>)
qed

section \<open>The ledger goes first\<close>

text \<open>
  The records are sorted by kind and name, so the ledger of a binding comes before its Secrets; the loop over
  what remains deletes it before it looks at the others.
\<close>

lemma ledger_dropped_before_secret:
  assumes "is_ledger_record b rr" and "\<not> is_ledger_record b rr'"
  shows "drop_ledger r b [rr, rr'] = ebind (delete_record r b rr) (\<lambda>_. go False)"
  using assms by simp

lemma ledger_sorted_first:
  "sort_slice (\<lambda>rr. rr_kind rr @ rr_name rr) [gateway_record ''Secret'' s, gateway_record ''ConfigMap'' m] = [gateway_record ''ConfigMap'' m, gateway_record ''Secret'' s]"
  by (simp add: sort_slice_def gateway_record_def)

lemma steady_result: "steady ok p P \<Longrightarrow> every_result P p"
  by (rule every_resultI, subst always_steady) (erule steady_mono, simp_all)

section \<open>Properties\<close>

text \<open>
  C4: for all answers, a pass of \<open>Ensure\<close> deletes at most one Pod, and only a Pod of a member it has read and that is its
  own, with the identity it was read with, after every other member of the ledger (at least one, with
  distinct identities) showed a ready Pod that answered the probe of exactly its own rendered configuration; it
  creates only owned, isolated Pods and owned, immutable keys, changes only ConfigMaps of its own or the
  registry, and prunes only configuration that no listed Pod mounts, never the ledger.
\<close>
theorem gateway_rollout_safe: "every_step (ensure_step r b a) (gateway_ensure r n b a)"
  by (rule every_stepI [OF gateway_ensure_run])

text \<open>
  Preparing the members of a ledger for a pass never changes what they have published: each keeps its
  identity, node, addresses and Secret, a published key stays, and every link receipt stays as it is
  beside the new ones.
\<close>
theorem gateway_receipts_durable: "every_result (members_kept ms) (efold (prepare_member r n b) [] ms)"
  by (rule steady_result [OF prepare_members_gentle])

text \<open>
  C32: the removal of the gateways deletes only owned objects with the identity they were read with; keys,
  configuration and the ledger go only after a complete list of Pods without one of the binding, and it
  reports success only after complete lists without a Pod, a ConfigMap or a Secret of the binding.
\<close>
theorem gateway_delete_safe: "every_step (delete_step r b) (gateway_delete r b) \<and> every_outcome (absence_reported r b) (gateway_delete r b)"
  using every_stepI [OF gateway_delete_run] every_outcomeI [OF gateway_delete_run] by blast

end
