(* ===== verification/Api_Wire.thy ===== *)
theory Api_Wire
  imports Api_Steady
begin

text \<open>
  A controller that works with several servers, or with servers and other interfaces, wires the calls of each
  client into its own requests: \<open>wire f g p\<close> issues \<open>f q\<close> where \<open>p\<close> issues \<open>q\<close>, and \<open>g\<close> reads the answer. \<open>told\<close>
  says that a history holds an answer to such a call; the rules say what is known after each call of the
  Kubernetes client.
\<close>

primrec wire :: "('p \<Rightarrow> 'q) \<Rightarrow> ('r \<Rightarrow> 's) \<Rightarrow> ('p, 's, 'a) prog \<Rightarrow> ('q, 'r, 'a) prog" where
  "wire f g (Ret a) = Ret a"
| "wire f g (Call q k) = Call (f q) (\<lambda>r. wire f g (k (g r)))"

lemma wire_pbind [simp]: "wire f g (pbind p k) = pbind (wire f g p) (\<lambda>a. wire f g (k a))"
  by (induction p) simp_all

lemma wire_ebind [simp]: "wire f g (ebind p k) = ebind (wire f g p) (\<lambda>a. wire f g (k a))"
  by (simp add: ebind_def sum.case_distrib [of "wire f g"] cong: sum.case_cong)

lemma wire_lift_res [simp]: "wire f g (lift_res e m) = lift_res e m"
  by (simp add: lift_res_def)

lemma steady_wire: "steady (\<lambda>q. ok (f q)) p P \<Longrightarrow> steady ok (wire f g p) P"
  by (induction p) simp_all

text \<open>What holds of a program in every history of its own calls holds of it when it is wired.\<close>

lemma always_wire:
  assumes "always G' p Q' h'" and "R h h'"
    and "\<And>h h' q r. R h h' \<Longrightarrow> R (h @ [(f q, r)]) (h' @ [(q, g r)])"
    and "\<And>h h' q. R h h' \<Longrightarrow> G' h' q \<Longrightarrow> G h (f q)" and "\<And>h h' a. R h h' \<Longrightarrow> Q' h' a \<Longrightarrow> Q h a"
  shows "always G (wire f g p) Q h"
  using assms(1,2)
proof (induction p arbitrary: h h')
  case (Call q k)
  have "always G (wire f g (k (g r))) Q (h @ [(f q, r)])" for r
    using Call.prems by (intro Call.IH [OF rangeI, of _ "h' @ [(q, g r)]"] assms(3)) auto
  then show ?case using Call.prems assms(4) by auto
qed (simp add: assms(5))

section \<open>Later histories\<close>

text \<open>A run only appends to its history, so what happened before a point stays before it.\<close>

definition later :: "'x list \<Rightarrow> 'x list \<Rightarrow> bool" where
  "later h h' \<longleftrightarrow> (\<exists>t. h' = h @ t)"

lemma later_refl [simp]: "later h h" and later_append [simp]: "later h (h @ t)"
  by (simp_all add: later_def)

lemma later_trans [intro, trans]: "later h h' \<Longrightarrow> later h' h'' \<Longrightarrow> later h h''"
  by (auto simp: later_def)

lemma later_snoc [intro]: "later h h' \<Longrightarrow> later h (h' @ t)"
  by (auto simp: later_def)

lemma later_in: "later h h' \<Longrightarrow> e \<in> set h \<Longrightarrow> e \<in> set h'"
  by (auto simp: later_def)

section \<open>What was answered\<close>

definition told :: "('o kreq \<Rightarrow> 'q) \<Rightarrow> ('r \<Rightarrow> 'o kresp) \<Rightarrow> ('q \<times> 'r) list \<Rightarrow> 'o kreq \<Rightarrow> 'o kresp \<Rightarrow> bool" where
  "told f g h q y \<longleftrightarrow> (\<exists>r. (f q, r) \<in> set h \<and> g r = y)"

lemma told_later: "told f g h q y \<Longrightarrow> later h h' \<Longrightarrow> told f g h' q y"
  by (auto simp: told_def later_def)

lemma told_snoc: "told f g (h @ [(f q, r)]) q (g r)"
  by (auto simp: told_def)

lemma told_append [simp]: "told f g h q y \<Longrightarrow> told f g (h @ t) q y"
  by (auto simp: told_def)

lemma wire_get:
  assumes "G h (f (Get kind ns name))"
    and "\<And>h' e. later h h' \<Longrightarrow> (is_not_found e \<Longrightarrow> told f g h' (Get kind ns name) (Failed e)) \<Longrightarrow> Q h' (Inl e)"
    and "\<And>h' y x. later h h' \<Longrightarrow> told f g h' (Get kind ns name) (Obj y) \<Longrightarrow> prj y = Some x \<Longrightarrow> Q h' (Inr x)"
  shows "always G (wire f g (kget prj kind ns name)) Q h"
proof -
  have "Q (h @ [(f (Get kind ns name), r)]) (case g r of Failed e \<Rightarrow> Inl e
      | Obj x \<Rightarrow> (case prj x of None \<Rightarrow> Inl decode_error | Some a \<Rightarrow> Inr a) | _ \<Rightarrow> Inl decode_error)" for r
  proof -
    let ?h = "h @ [(f (Get kind ns name), r)]"
    have "Q ?h (Inl decode_error)" by (intro assms(2)) (auto simp: decode_error_def)
    then show ?thesis
      using told_snoc [of f g h "Get kind ns name" r] assms(2,3) [of ?h] by (auto split: kresp.split option.split)
  qed
  with assms(1) show ?thesis by (simp add: kget_def)
qed

lemma wire_list:
  assumes "G h (f (List kind ns ls))" and "\<And>h' e. later h h' \<Longrightarrow> Q h' (Inl e)" and "\<And>y a. prj y = Some a \<Longrightarrow> y = inject a"
    and "\<And>h' xs. later h h' \<Longrightarrow> told f g h' (List kind ns ls) (Items (map inject xs)) \<Longrightarrow> Q h' (Inr xs)"
  shows "always G (wire f g (klist prj kind ns ls)) Q h"
proof -
  have "Q (h @ [(f (List kind ns ls), r)]) (case g r of Failed e \<Rightarrow> Inl e
      | Items xs \<Rightarrow> (if list_all (\<lambda>x. prj x \<noteq> None) xs then Inr (List.map_filter prj xs) else Inl decode_error)
      | _ \<Rightarrow> Inl decode_error)" for r
  proof -
    have items: "list_all (\<lambda>x. prj x \<noteq> None) ys \<Longrightarrow> map inject (List.map_filter prj ys) = ys" for ys
      using items_decoded [of prj inject] assms(3) by metis
    show ?thesis
      using told_snoc [of f g h "List kind ns ls" r] assms(2,4) [of "h @ [(f (List kind ns ls), r)]"] items
      by (auto split: kresp.split)
  qed
  with assms(1) show ?thesis by (simp add: klist_def)
qed

lemma wire_write:
  assumes "G h (f q)" and "\<And>h' e. later h h' \<Longrightarrow> Q h' (Inl e)"
    and "\<And>h' y x. later h h' \<Longrightarrow> told f g h' q (Obj y) \<Longrightarrow> prj y = Some x \<Longrightarrow> Q h' (Inr x)"
  shows "always G (wire f g (kwrite prj q)) Q h"
proof -
  have "Q (h @ [(f q, r)]) (case g r of Failed e \<Rightarrow> Inl e
      | Obj x \<Rightarrow> (case prj x of None \<Rightarrow> Inl decode_error | Some a \<Rightarrow> Inr a) | _ \<Rightarrow> Inl decode_error)" for r
    using told_snoc [of f g h q r] assms(2,3) [of "h @ [(f q, r)]"] by (auto split: kresp.split option.split)
  with assms(1) show ?thesis by (simp add: kwrite_def)
qed

lemma wire_do:
  assumes "G h (f q)" and "\<And>h' x. later h h' \<Longrightarrow> Q h' x"
  shows "always G (wire f g (kdo q)) Q h"
  using assms by (auto simp: kdo_def)

section \<open>Parts that may return\<close>

named_theorems kept \<open>what was seen stays seen\<close>

text \<open>A part of a pass that may return from it: what is known where it goes on.\<close>

definition passes_on :: "(('q \<times> 'r) list \<Rightarrow> 'q \<Rightarrow> bool) \<Rightarrow> ('q, 'r, 'e + 'a) prog \<Rightarrow> (('q \<times> 'r) list \<Rightarrow> 'a \<Rightarrow> bool) \<Rightarrow> ('q \<times> 'r) list \<Rightarrow> bool" where
  "passes_on G p R h \<longleftrightarrow> always G p (\<lambda>h x. case x of Inl _ \<Rightarrow> True | Inr a \<Rightarrow> R h a) h"

lemmas passes_def = passes_on_def

lemma passes_go [simp]: "passes_on G (go a) R h \<longleftrightarrow> R h a" and passes_leave [simp]: "passes_on G (leave out) R h"
  by (simp_all add: passes_def)

lemma passes_ebind: "passes_on G (ebind p f) R h \<longleftrightarrow> passes_on G p (\<lambda>h a. passes_on G (f a) R h) h"
  by (simp add: passes_def cong: sum.case_cong)

lemma passes_pbind: "passes_on G (pbind p f) R h \<longleftrightarrow> always G p (\<lambda>h a. passes_on G (f a) R h) h"
  by (simp add: passes_def)

lemma passes_mono: "passes_on G p R h \<Longrightarrow> (\<And>h a. R h a \<Longrightarrow> R' h a) \<Longrightarrow> passes_on G p R' h"
  unfolding passes_def by (erule always_mono) (auto split: sum.splits)

lemma passes_efold:
  assumes "I [] s h" and "\<And>done x todo s h. xs = done @ x # todo \<Longrightarrow> I done s h \<Longrightarrow> passes_on G (f s x) (\<lambda>h s'. I (done @ [x]) s' h) h"
    and "\<And>s h. I xs s h \<Longrightarrow> R h s"
  shows "passes_on G (efold f s xs) R h"
  unfolding passes_def
  by (rule always_efold [where I = I, OF assms(1)]) (use assms(2,3) in \<open>auto simp: passes_def cong: sum.case_cong\<close>)

end
