(* ===== verification/Site_Plan.thy ===== *)
theory Site_Plan
  imports Api_V1alpha1 Go_Sha256 "HOL-Library.Product_Lexorder"
begin

text \<open>
  \<open>internal/siteplan\<close>: the plan of one locally owned attachment. \<open>site_build\<close> validates the local
  registration, selects the tenant's grant, checks the requested prefix against the delegation and
  renders the native Vpc, Subnet and transit Subnet with the gateway configuration. The lemmas show
  that an accepted prefix lies in a delegated one, that the exclusions of the transit subnet leave
  exactly the gateways allocatable, and that unrelated grants do not enter the result.
\<close>

section \<open>Gateway configuration and plan\<close>

record gateway_config =
  gc_version :: string
  gc_global_vpc_id :: string
  gc_owner_uid :: string
  gc_site_id :: string
  gc_attachment_id :: string
  gc_gateway_revision :: string
  gc_delegated_prefixes :: "string list"
  gc_cidr :: string
  gc_transit_cidr :: string
  gc_router_ip :: string
  gc_gateway_ip :: string
  gc_vpc_name :: string
  gc_subnet_name :: string
  gc_transit_name :: string
  gc_gateways :: "site_gateway list"
  gc_bfd :: "site_bfd option"

definition is_ha :: "gateway_config \<Rightarrow> bool" where
  "is_ha g \<longleftrightarrow> gc_version g = ''v2''"

definition members :: "gateway_config \<Rightarrow> site_gateway list" where
  "members g = (if \<not> is_ha g then [\<lparr>gw_id = ''default'', gw_ip = gc_gateway_ip g\<rparr>] else gc_gateways g)"

definition bfd_port_name :: "gateway_config \<Rightarrow> string" where
  "bfd_port_name g = ''bfd@'' @ gc_vpc_name g"

record site_plan =
  sp_owner_uid :: string
  sp_global_vpc_id :: string
  sp_site_id :: string
  sp_attachment_id :: string
  sp_hash :: string
  sp_vpc_name :: string
  sp_subnet_name :: string
  sp_transit_name :: string
  sp_vpc :: json
  sp_subnet :: json
  sp_transit :: json
  sp_gateway :: gateway_config

section \<open>Helpers\<close>

text \<open>\<open>hex.EncodeToString(digest[:8])\<close>.\<close>

definition short_hash :: "string \<Rightarrow> string" where
  "short_hash value = take 16 (sha256_hex value)"

definition nul :: string where
  "nul = [CHR 0x00]"

definition canonical_requirement :: "selector_requirement \<Rightarrow> selector_requirement" where
  "canonical_requirement r = r\<lparr>sr_values := sort_strings (sr_values r)\<rparr>"

definition canonical_selector :: "label_selector \<Rightarrow> label_selector" where
  "canonical_selector s = s\<lparr>sel_expressions :=
     sort_slice (\<lambda>r. sr_key r @ nul @ sr_operator r @ nul @ join nul (sr_values r))
       (map canonical_requirement (sel_expressions s))\<rparr>"

definition canonical_bfd :: "site_bfd option \<Rightarrow> site_bfd option" where
  "canonical_bfd b = map_option (\<lambda>b. b\<lparr>bfd_node_selector := map_option canonical_selector (bfd_node_selector b)\<rparr>) b"

text \<open>The order of \<open>netip.Addr.Less\<close>, as a key.\<close>

definition addr_key :: "addr \<Rightarrow> nat \<times> nat \<times> string" where
  "addr_key a = (case a of AddrZero \<Rightarrow> (0, 0, []) | V4 w \<Rightarrow> (32, unat w, []) | V6 w z \<Rightarrow> (128, unat w, z))"

definition addr_or_zero :: "string \<Rightarrow> addr" where
  "addr_or_zero raw = (case parse_addr raw of None \<Rightarrow> AddrZero | Some a \<Rightarrow> a)"

text \<open>The loop of \<open>transitExclusions\<close>: the ranges between the sorted gateways.\<close>

fun exclusion_ranges :: "addr \<Rightarrow> addr \<Rightarrow> addr list \<Rightarrow> (addr \<times> addr) list" where
  "exclusion_ranges start stop [] = (if \<not> addr_less stop start then [(start, stop)] else [])"
| "exclusion_ranges start stop (g # gs) =
     (if addr_less start g then [(start, addr_prev g)] else []) @ exclusion_ranges (addr_next g) stop gs"

definition range_text :: "addr \<times> addr \<Rightarrow> string" where
  "range_text r = (case r of (start, stop) \<Rightarrow>
     if start = stop then addr_text start else addr_text start @ ''..'' @ addr_text stop)"

definition prefix_last :: "prefix \<Rightarrow> addr" where
  "prefix_last p = (case p_addr p of V4 w \<Rightarrow> V4 (last_address w (nat (p_bits p))) | a \<Rightarrow> a)"

definition transit_ranges :: "prefix \<Rightarrow> string list \<Rightarrow> (addr \<times> addr) list" where
  "transit_ranges p gateways = exclusion_ranges (addr_next (p_addr p)) (addr_prev (prefix_last p))
     (sort_key addr_key (map addr_or_zero gateways))"

definition transit_exclusions :: "prefix \<Rightarrow> string list \<Rightarrow> string list" where
  "transit_exclusions p gateways = map range_text (transit_ranges p gateways)"

section \<open>Build\<close>

definition canonical_grant :: "grant \<Rightarrow> grant" where
  "canonical_grant g = g\<lparr>gr_delegated_prefixes := sort_strings (gr_delegated_prefixes g),
     gr_gateways := sort_slice gw_id (gr_gateways g), gr_bfd := canonical_bfd (gr_bfd g)\<rparr>"

definition find_grant :: "site_config \<Rightarrow> string \<Rightarrow> grant option" where
  "find_grant cfg vid = map_option canonical_grant (find (\<lambda>g. gr_global_vpc_id g = vid) (sc_grants cfg))"

definition prefix_or_none :: "string \<Rightarrow> prefix" where
  "prefix_or_none raw = (case site_prefix raw of Inl _ \<Rightarrow> prefix_zero | Inr p \<Rightarrow> p)"

definition delegated_contains :: "grant \<Rightarrow> prefix \<Rightarrow> bool" where
  "delegated_contains g p = list_ex (\<lambda>raw. p_bits (prefix_or_none raw) \<le> p_bits p
     \<and> contains (prefix_or_none raw) (p_addr p)) (gr_delegated_prefixes g)"

definition site_identity_json :: "string \<Rightarrow> string \<Rightarrow> site_vpc_spec \<Rightarrow> site_config \<Rightarrow> grant \<Rightarrow> json" where
  "site_identity_json version uid spec cfg g = JObj [(''Version'', JStr version), (''OwnerUID'', JStr uid),
     (''Spec'', site_spec_json spec), (''Cluster'', cluster_json (sc_cluster cfg)),
     (''GatewayCommand'', jslice JStr (sc_gateway_command cfg)), (''GatewayRevision'', JStr (sc_gateway_revision cfg)),
     (''Grant'', grant_json g)]"

definition site_labels :: "site_vpc \<Rightarrow> site_config \<Rightarrow> string smap" where
  "site_labels v cfg = [(v1_owner_label, om_uid (sv_meta v)), (v1_cluster_label, cl_uid (sc_cluster cfg)),
     (v1_global_id_label, short_hash (sv_global_vpc_id (sv_spec v))), (v1_attachment_label, sc_attachment_id cfg)]"

definition bfd_port_json :: "site_bfd \<Rightarrow> json" where
  "bfd_port_json b = jmap ([(''enabled'', JBool True), (''ip'', JStr (bfd_source_ip b))]
     @ (case bfd_node_selector b of None \<Rightarrow> []
        | Some s \<Rightarrow> [(''nodeSelector'', case selector_json s of JObj fs \<Rightarrow> jmap fs | j \<Rightarrow> j)]))"

text \<open>The rendering, once the prefix and the grant are accepted. \<open>ha\<close> selects the second version. An
  accepted prefix prints as the text it was parsed from, so \<open>prefix.String()\<close> is that text.\<close>

definition render_plan :: "site_vpc \<Rightarrow> site_config \<Rightarrow> grant \<Rightarrow> prefix \<Rightarrow> site_plan" where
  "render_plan v cfg g p =
     (let uid = om_uid (sv_meta v); spec = sv_spec v;
          key = short_hash (sv_global_vpc_id spec @ nul @ sc_site_id cfg @ nul @ sc_attachment_id cfg);
          vpc = ''sv-'' @ key; sub = ''ss-'' @ key; tr = ''st-'' @ key;
          labels = site_labels v cfg; transit = prefix_or_none (gr_transit_cidr g);
          cidr = sv_cidr spec; ha = (gr_gateways g \<noteq> []);
          bfd_port = (case gr_bfd g of None \<Rightarrow> JNull | Some b \<Rightarrow> bfd_port_json b)
      in \<lparr>sp_owner_uid = uid, sp_global_vpc_id = sv_global_vpc_id spec, sp_site_id = sc_site_id cfg,
          sp_attachment_id = sc_attachment_id cfg,
          sp_hash = sha256_hex (json_enc (site_identity_json (if ha then ''site-v2'' else ''site-v1'') uid spec cfg g)),
          sp_vpc_name = vpc, sp_subnet_name = sub, sp_transit_name = tr,
          sp_vpc = (if ha then native_resource ''Vpc'' vpc labels [(''staticRoutes'', JArr []), (''bfdPort'', bfd_port)]
                    else native_resource ''Vpc'' vpc labels [(''staticRoutes'', JArr [route_json ''0.0.0.0/0'' (gr_gateway_ip g)])]),
          sp_subnet = native_subnet sub vpc cidr (sv_gateway spec) [sv_gateway spec] labels,
          sp_transit = native_subnet tr vpc (gr_transit_cidr g) (gr_router_ip g)
            (transit_exclusions transit (if ha then map gw_ip (gr_gateways g) else [gr_gateway_ip g])) labels,
          sp_gateway = \<lparr>gc_version = (if ha then ''v2'' else ''v1''), gc_global_vpc_id = sv_global_vpc_id spec, gc_owner_uid = uid,
            gc_site_id = sc_site_id cfg, gc_attachment_id = sc_attachment_id cfg, gc_gateway_revision = sc_gateway_revision cfg,
            gc_delegated_prefixes = gr_delegated_prefixes g, gc_cidr = cidr, gc_transit_cidr = gr_transit_cidr g,
            gc_router_ip = gr_router_ip g, gc_gateway_ip = gr_gateway_ip g, gc_vpc_name = vpc, gc_subnet_name = sub,
            gc_transit_name = tr, gc_gateways = (if ha then gr_gateways g else []), gc_bfd = (if ha then gr_bfd g else None)\<rparr>\<rparr>)"

definition site_build :: "k8s_lib \<Rightarrow> site_vpc option \<Rightarrow> site_config \<Rightarrow> site_plan res" where
  "site_build L v cfg = (case v of
      None \<Rightarrow> Inl ''SiteVpc is required''
    | Some v \<Rightarrow>
        rbind (wrap ''invalid local registration'' (site_validate L cfg)) (\<lambda>_.
        rbind (guard (om_uid (sv_meta v) \<noteq> [] \<and> label_value L (om_uid (sv_meta v)))
          ''SiteVpc must have a valid server-assigned UID'') (\<lambda>_.
        rbind (guard (sv_site_id (sv_spec v) = sc_site_id cfg \<and> sv_attachment_id (sv_spec v) = sc_attachment_id cfg)
          ''SiteVpc does not target this local attachment'') (\<lambda>_.
        (case find_grant cfg (sv_global_vpc_id (sv_spec v)) of
           None \<Rightarrow> Inl ''globalVpcID has no local administrator grant''
         | Some g \<Rightarrow>
             rbind (wrap ''cidr'' (site_prefix (sv_cidr (sv_spec v)))) (\<lambda>p.
             rbind (guard (delegated_contains g p) ''cidr is outside this attachment's delegated prefixes'') (\<lambda>_.
             rbind (wrap ''gateway'' (site_host (sv_gateway (sv_spec v)) p)) (\<lambda>_.
             Inr (render_plan v cfg g p)))))))))"

section \<open>The exclusions leave exactly the gateways\<close>

definition in_ranges :: "(addr \<times> addr) list \<Rightarrow> 32 word \<Rightarrow> bool" where
  "in_ranges rs x = list_ex (\<lambda>r. case r of (V4 a, V4 b) \<Rightarrow> a \<le> x \<and> x \<le> b | _ \<Rightarrow> False) rs"

lemma in_ranges_simps [simp]:
  "in_ranges [] x = False" "in_ranges ((V4 a, V4 b) # rs) x \<longleftrightarrow> a \<le> x \<and> x \<le> b \<or> in_ranges rs x"
  by (simp_all add: in_ranges_def)

lemma unat_Suc_word: "(g :: 32 word) \<noteq> - 1 \<Longrightarrow> unat (g + 1) = unat g + 1"
  by (metis Suc_eq_plus1 add.commute unatSuc add_eq_0_iff)

lemma exclusion_ranges_exact:
  assumes "sorted_wrt (<) gs" and "\<forall>g\<in>set gs. f \<le> g \<and> g \<le> l" and "l \<noteq> - 1" and "unat f \<le> unat l + 1"
  shows "in_ranges (exclusion_ranges (V4 f) (V4 l) (map V4 gs)) x \<longleftrightarrow> f \<le> x \<and> x \<le> l \<and> x \<notin> set gs"
  using assms
proof (induction gs arbitrary: f)
  case Nil
  then show ?case by auto
next
  case (Cons g gs)
  from Cons.prems have g: "f \<le> g" "g \<le> l" "\<forall>h\<in>set gs. g < h \<and> h \<le> l" by auto
  have "g \<noteq> - 1" using g(2) Cons.prems(3) by (metis word_order.extremum_uniqueI)
  then have nxt: "unat (g + 1) = unat g + 1" by (rule unat_Suc_word)
  have IH: "in_ranges (exclusion_ranges (V4 (g + 1)) (V4 l) (map V4 gs)) x \<longleftrightarrow> g + 1 \<le> x \<and> x \<le> l \<and> x \<notin> set gs"
    by (rule Cons.IH) (use Cons.prems g nxt in \<open>auto simp: word_le_nat_alt word_less_nat_alt\<close>)
  have up: "g + 1 \<le> y \<longleftrightarrow> g < y" for y using nxt by (simp add: word_le_nat_alt word_less_nat_alt Suc_le_eq)
  have down: "y \<le> g - 1 \<longleftrightarrow> y < g" if "f < g" for y
  proof -
    from that have "0 < unat g" by (simp add: word_less_nat_alt)
    then have "unat (g - 1) = unat g - 1" by (simp add: unat_minus_one unat_gt_0)
    with \<open>0 < unat g\<close> show ?thesis by (auto simp: word_le_nat_alt word_less_nat_alt)
  qed
  have "g \<noteq> 0" if "f < g" using that by (metis word_not_simps(1))
  then have unfold: "in_ranges (exclusion_ranges (V4 f) (V4 l) (map V4 (g # gs))) x
      \<longleftrightarrow> (f < g \<and> f \<le> x \<and> x < g) \<or> (g < x \<and> x \<le> l \<and> x \<notin> set gs)"
    using IH \<open>g \<noteq> - 1\<close> by (cases "f < g") (simp_all add: up down)
  have "x < g \<Longrightarrow> x \<notin> set gs" "x < g \<Longrightarrow> x \<le> l" using g by auto
  then show ?case
    unfolding unfold using g(1) by (cases "x < g"; cases "x = g") auto
qed

lemma insort_key_map: "insort_key f (g x) (map g xs) = map g (insort_key (\<lambda>y. f (g y)) x xs)"
  by (induction xs) simp_all

lemma sort_key_map: "sort_key f (map g xs) = map g (sort_key (\<lambda>y. f (g y)) xs)"
  by (induction xs) (simp_all add: insort_key_map)

lemma sort_addresses:
  assumes "distinct ws"
  shows "\<exists>gs. sort_key addr_key (map V4 ws) = map V4 gs \<and> sorted_wrt (<) gs \<and> set gs = set ws"
proof -
  define gs where "gs = sort_key (\<lambda>w. addr_key (V4 w)) ws"
  have "sorted (map (\<lambda>w. addr_key (V4 w)) gs)" by (simp add: gs_def)
  then have "sorted_wrt (\<lambda>a b. a \<le> b) gs"
    by (simp add: sorted_map addr_key_def word_le_nat_alt disj_absorb less_imp_le)
      (erule sorted_wrt_mono_rel [rotated], auto)
  moreover have "distinct gs" using assms by (simp add: gs_def)
  ultimately have "sorted_wrt (<) gs" by (simp add: strict_sorted_iff)
  then show ?thesis by (intro exI [of _ gs]) (simp add: gs_def sort_key_map)
qed

lemma transit_ranges_exact:
  assumes u: "usable_net w b" and d: "distinct gateways"
    and hosts: "\<forall>raw\<in>set gateways. is_ok (site_host raw (Prefix (V4 w) (int b)))"
  shows "in_ranges (transit_ranges (Prefix (V4 w) (int b)) gateways) x
    \<longleftrightarrow> w < x \<and> x < last_address w b \<and> v4_str x \<notin> set gateways"
proof -
  let ?l = "last_address w b"
  have net: "net_of b w = w" "b \<le> 30" using u by (simp_all add: usable_net_def)
  have last: "unat ?l = unat w + (2 ^ (32 - b) - 1)" by (rule unat_last_address_eq [OF net(1)])
  have "(4::nat) \<le> 2 ^ (32 - b)" using net(2) power_increasing [of 2 "32 - b" "2::nat"] by simp
  then have big: "unat w + 3 \<le> unat ?l" using last by linarith
  have "\<forall>raw\<in>set gateways. \<exists>v. raw = v4_str v \<and> w < v \<and> v < ?l"
    using hosts by (auto simp: is_ok_iff site_host_iff [OF u] word_less_nat_alt)
  from bchoice [OF this] obtain h where h: "\<forall>raw\<in>set gateways. raw = v4_str (h raw) \<and> w < h raw \<and> h raw < ?l" by blast
  define ws where "ws = map h gateways"
  have ws: "gateways = map v4_str ws" "\<forall>v\<in>set ws. w < v \<and> v < ?l"
    using h by (auto simp: ws_def intro: map_idI [symmetric])
  have dw: "distinct ws" using d ws(1) by (simp add: distinct_map)
  have za: "map addr_or_zero gateways = map V4 ws" by (simp add: ws(1) addr_or_zero_def)
  obtain gs where gs: "sort_key addr_key (map V4 ws) = map V4 gs" "sorted_wrt (<) gs" "set gs = set ws"
    using sort_addresses [OF dw] by blast
  have wm: "w \<noteq> - 1"
  proof -
    have "w < ?l" using big by (simp add: word_less_nat_alt)
    then show ?thesis by (metis word_order.extremum_strict)
  qed
  have lz: "?l \<noteq> 0" using big by auto
  have next': "unat (w + 1) = unat w + 1" by (rule unat_Suc_word [OF wm])
  have prev: "unat (?l - 1) = unat ?l - 1" using lz by (simp add: unat_minus_one)
  have lm: "?l - 1 \<noteq> - 1" using lz by simp
  have "in_ranges (exclusion_ranges (V4 (w + 1)) (V4 (?l - 1)) (map V4 gs)) x \<longleftrightarrow> w + 1 \<le> x \<and> x \<le> ?l - 1 \<and> x \<notin> set gs"
    by (rule exclusion_ranges_exact [OF gs(2) _ lm])
      (use ws(2) gs(3) next' prev big in \<open>auto simp: word_le_nat_alt word_less_nat_alt\<close>)
  also have "\<dots> \<longleftrightarrow> w < x \<and> x < ?l \<and> x \<notin> set ws"
    using next' prev big gs(3) by (auto simp: word_le_nat_alt word_less_nat_alt)
  also have "x \<notin> set ws \<longleftrightarrow> v4_str x \<notin> set gateways" by (auto simp: ws(1))
  finally show ?thesis
    using wm lz by (simp add: transit_ranges_def prefix_last_def za gs(1))
qed

section \<open>What a plan satisfies\<close>

lemma site_buildE:
  assumes "site_build L (Some v) cfg = Inr plan"
  obtains g p a where "find_grant cfg (sv_global_vpc_id (sv_spec v)) = Some g" "site_prefix (sv_cidr (sv_spec v)) = Inr p"
    "delegated_contains g p" "site_host (sv_gateway (sv_spec v)) p = Inr a" "plan = render_plan v cfg g p"
    "site_validate L cfg = Inr ()" "om_uid (sv_meta v) \<noteq> []" "label_value L (om_uid (sv_meta v))"
    "sv_site_id (sv_spec v) = sc_site_id cfg" "sv_attachment_id (sv_spec v) = sc_attachment_id cfg"
  using assms by (auto simp: site_build_def split: option.splits)

lemma find_grant_Some:
  assumes "find_grant cfg vid = Some g"
  obtains g0 where "g0 \<in> set (sc_grants cfg)" "gr_global_vpc_id g0 = vid" "g = canonical_grant g0"
proof -
  from assms obtain g0 where "find (\<lambda>g. gr_global_vpc_id g = vid) (sc_grants cfg) = Some g0" "g = canonical_grant g0"
    by (auto simp: find_grant_def)
  moreover from this(1) have "g0 \<in> set (sc_grants cfg) \<and> gr_global_vpc_id g0 = vid"
    by (auto simp: find_Some_iff)
  ultimately show thesis using that by blast
qed

lemma canonical_grant_simps [simp]:
  "gr_global_vpc_id (canonical_grant g) = gr_global_vpc_id g" "gr_transit_cidr (canonical_grant g) = gr_transit_cidr g"
  "gr_router_ip (canonical_grant g) = gr_router_ip g" "gr_gateway_ip (canonical_grant g) = gr_gateway_ip g"
  "set (gr_delegated_prefixes (canonical_grant g)) = set (gr_delegated_prefixes g)"
  "set (gr_gateways (canonical_grant g)) = set (gr_gateways g)" "gr_gateways (canonical_grant g) = [] \<longleftrightarrow> gr_gateways g = []"
  "distinct (map gw_ip (gr_gateways (canonical_grant g))) = distinct (map gw_ip (gr_gateways g))"
proof -
  have "mset (map gw_ip (sort_slice gw_id (gr_gateways g))) = mset (map gw_ip (gr_gateways g))" by simp
  from mset_eq_imp_distinct_iff [OF this]
  show "distinct (map gw_ip (gr_gateways (canonical_grant g))) = distinct (map gw_ip (gr_gateways g))"
    by (simp add: canonical_grant_def)
qed (simp_all add: canonical_grant_def)

text \<open>A prefix inside another is disjoint from what that one is disjoint from.\<close>

lemma inside_disjoint:
  assumes "usable_net w b" "usable_net x c" "usable_net t d"
    and "c \<le> b" "contains (Prefix (V4 x) (int c)) (V4 w)" "\<not> overlaps (Prefix (V4 t) (int d)) (Prefix (V4 x) (int c))"
  shows "\<not> overlaps (Prefix (V4 w) (int b)) (Prefix (V4 t) (int d))"
proof
  assume "overlaps (Prefix (V4 w) (int b)) (Prefix (V4 t) (int d))"
  with assms obtain a where a: "contains (Prefix (V4 w) (int b)) a" "contains (Prefix (V4 t) (int d)) a"
    using overlaps_V4_iff [of "int b" "int d" w t] by (auto simp: usable_net_def)
  then obtain y where y: "a = V4 y" using contains_imp_V4 by blast
  have "block b w = block b y" "block c x = block c w" using a(1) y assms(5) by (simp_all add: contains_V4)
  moreover have "b \<le> 32" using assms(1) by (simp add: usable_net_def)
  ultimately have "contains (Prefix (V4 x) (int c)) a"
    using block_mono [of c b w y] assms(4) y by (simp add: contains_V4)
  with a(2) assms have "overlaps (Prefix (V4 t) (int d)) (Prefix (V4 x) (int c))"
    using overlaps_V4_iff [of "int d" "int c" t x] by (auto simp: usable_net_def)
  with assms(6) show False by contradiction
qed

lemma grant_prefixes:
  assumes "grant_ok L g" and "raw \<in> set (gr_delegated_prefixes g)"
  obtains t d x c where "usable_net t d" "gr_transit_cidr g = v4_prefix_str t d" "usable_net x c" "raw = v4_prefix_str x c"
    "\<not> overlaps (Prefix (V4 t) (int d)) (Prefix (V4 x) (int c))"
proof -
  from assms(1) obtain t d ps where t: "usable_net t d" "gr_transit_cidr g = v4_prefix_str t d"
    and ps: "list_all2 (\<lambda>raw p. site_prefix raw = Inr p) (gr_delegated_prefixes g) ps"
    and dis: "pairwise_disjoint (Prefix (V4 t) (int d) # ps)" by (auto simp: grant_ok_def)
  from assms(2) ps obtain p where p: "p \<in> set ps" "site_prefix raw = Inr p"
    by (auto simp: list_all2_conv_all_nth in_set_conv_nth) metis
  from p(2) obtain x c where "p = Prefix (V4 x) (int c)" "raw = v4_prefix_str x c" "usable_net x c" by (rule site_prefixE)
  moreover have "\<not> overlaps (Prefix (V4 t) (int d)) p" using dis p(1) by (simp add: pairwise_disjoint_def)
  ultimately show thesis using that t by blast
qed

lemma transit_gateways:
  assumes "grant_ok L g0" and "g = canonical_grant g0"
  defines "ips \<equiv> (if gr_gateways g \<noteq> [] then map gw_ip (gr_gateways g) else [gr_gateway_ip g])"
  obtains t d where "usable_net t d" "gr_transit_cidr g = v4_prefix_str t d" "distinct ips"
    "\<forall>raw\<in>set ips. is_ok (site_host raw (Prefix (V4 t) (int d)))"
proof -
  from assms(1) obtain t d where t: "usable_net t d" "gr_transit_cidr g0 = v4_prefix_str t d"
    and gw: "if gr_gateways g0 = [] then is_ok (site_host (gr_gateway_ip g0) (Prefix (V4 t) (int d)))
      else distinct (map gw_ip (gr_gateways g0)) \<and> (\<forall>m\<in>set (gr_gateways g0). is_ok (site_host (gw_ip m) (Prefix (V4 t) (int d))))"
    by (auto simp: grant_ok_def split: if_splits)
  have "distinct ips" "\<forall>raw\<in>set ips. is_ok (site_host raw (Prefix (V4 t) (int d)))"
    using gw by (auto simp: ips_def assms(2) split: if_splits)
  with t that show thesis by (simp add: assms(2))
qed

section \<open>A concrete attachment\<close>

definition ex_grant :: grant where
  "ex_grant = \<lparr>gr_global_vpc_id = ''t1'', gr_delegated_prefixes = [''10.1.0.0/24''], gr_transit_cidr = ''10.2.0.0/24'',
     gr_router_ip = v4_str 0x0A020001, gr_gateway_ip = v4_str 0x0A020002, gr_gateways = [], gr_bfd = None\<rparr>"

definition ex_site :: site_config where
  "ex_site = \<lparr>sc_site_id = ''s1'', sc_attachment_id = ''a1'', sc_cluster = \<lparr>cl_name = ''c1'', cl_uid = ''u1'', cl_kubeconfig = ''k'',
     cl_nb_command = [''nb''], cl_sb_command = [''sb'']\<rparr>, sc_gateway_command = [''gw''], sc_gateway_revision = ''r1'',
     sc_grants = [ex_grant], sc_bfd_transaction_command = []\<rparr>"

definition ex_site_vpc :: site_vpc where
  "ex_site_vpc = \<lparr>sv_meta = empty_meta\<lparr>om_uid := ''u''\<rparr>, sv_spec = \<lparr>sv_global_vpc_id = ''t1'', sv_site_id = ''s1'',
     sv_attachment_id = ''a1'', sv_cidr = ''10.1.0.0/24'', sv_gateway = v4_str 0x0A010001\<rparr>,
     sv_status = \<lparr>svs_observed_generation = 0, svs_phase = [], svs_operation = [], svs_plan_hash = [], svs_resources = [],
       svs_gateway_resources = [], svs_bfd_resources = [], svs_gateway_ready_count = 0, svs_gateway_desired_count = 0,
       svs_conditions = []\<rparr>\<rparr>"

lemma ex_labels:
  "ref_dns_label ''s1''" "ref_dns_label ''a1''" "ref_dns_subdomain ''c1''" "ref_label_value ''u1''" "ref_dns_label ''r1''"
  "ref_dns_subdomain ''t1''" "ref_label_value ''u''"
  by code_simp+

lemma ex_hosts:
  "site_host (v4_str 0x0A020001) (Prefix (V4 0x0A020000) 24) = Inr (V4 0x0A020001)"
  "site_host (v4_str 0x0A020002) (Prefix (V4 0x0A020000) 24) = Inr (V4 0x0A020002)"
  "site_host (v4_str 0x0A010001) (Prefix (V4 0x0A010000) 24) = Inr (V4 0x0A010001)"
  by (simp_all add: site_host_def contains_V4 block_def v4_classes)

lemma ex_site_valid: "site_validate k8s_ref ex_site = Inr ()"
  using ex_labels ex_hosts
  by (simp add: site_validate_def ex_site_def k8s_ref_def command_def validate_grant_def ex_grant_def site_prefix_samples
      validate_gateways_def check_delegated_def check_bfd_outside_def overlaps_V4 block_def)

lemma ex_site_build: "\<exists>plan. site_build k8s_ref (Some ex_site_vpc) ex_site = Inr plan"
  using ex_site_valid ex_labels ex_hosts
  by (simp add: site_build_def ex_site_vpc_def ex_site_def k8s_ref_def find_grant_def ex_grant_def canonical_grant_def
      sort_strings_def site_prefix_samples delegated_contains_def prefix_or_none_def contains_V4)

section \<open>Properties\<close>

text \<open>
  C37: an accepted attachment has a UID that its server assigned and that is a label value, and asks for the
  site and the attachment of the local registration; the plan and its gateway configuration carry the
  identity and the prefix it asks for, not another's, and the transit network and the delegation of the
  grant of its tenant. Its prefix lies, address by address, in one prefix delegated to the tenant, its
  gateway is a usable host of that prefix, and no address of it belongs to the tenant's transit network.
\<close>

theorem site_build_sound:
  assumes "site_build L (Some v) cfg = Inr plan"
  shows "site_validate L cfg = Inr () \<and> om_uid (sv_meta v) \<noteq> [] \<and> label_value L (om_uid (sv_meta v))
    \<and> sv_site_id (sv_spec v) = sc_site_id cfg \<and> sv_attachment_id (sv_spec v) = sc_attachment_id cfg
    \<and> sp_owner_uid plan = om_uid (sv_meta v) \<and> sp_global_vpc_id plan = sv_global_vpc_id (sv_spec v)
    \<and> sp_site_id plan = sv_site_id (sv_spec v) \<and> sp_attachment_id plan = sv_attachment_id (sv_spec v)
    \<and> gc_owner_uid (sp_gateway plan) = om_uid (sv_meta v) \<and> gc_cidr (sp_gateway plan) = sv_cidr (sv_spec v)
    \<and> (\<exists>g\<in>set (sc_grants cfg). gr_global_vpc_id g = sv_global_vpc_id (sv_spec v)
       \<and> gc_transit_cidr (sp_gateway plan) = gr_transit_cidr g
       \<and> mset (gc_delegated_prefixes (sp_gateway plan)) = mset (gr_delegated_prefixes g)
       \<and> (\<exists>p t raw parent. site_prefix (sv_cidr (sv_spec v)) = Inr p \<and> site_prefix (gr_transit_cidr g) = Inr t
         \<and> raw \<in> set (gr_delegated_prefixes g) \<and> site_prefix raw = Inr parent
         \<and> (\<forall>a. contains p a \<longrightarrow> contains parent a) \<and> \<not> overlaps p t
         \<and> is_ok (site_host (sv_gateway (sv_spec v)) p)))"
proof -
  from assms obtain g p a where b: "find_grant cfg (sv_global_vpc_id (sv_spec v)) = Some g" "site_prefix (sv_cidr (sv_spec v)) = Inr p"
    "delegated_contains g p" "site_host (sv_gateway (sv_spec v)) p = Inr a" "plan = render_plan v cfg g p"
    and val: "site_validate L cfg = Inr ()" and who: "om_uid (sv_meta v) \<noteq> []" "label_value L (om_uid (sv_meta v))"
      "sv_site_id (sv_spec v) = sc_site_id cfg" "sv_attachment_id (sv_spec v) = sc_attachment_id cfg" by (rule site_buildE)
  from b(1) obtain g0 where g0: "g0 \<in> set (sc_grants cfg)" "gr_global_vpc_id g0 = sv_global_vpc_id (sv_spec v)" "g = canonical_grant g0"
    by (rule find_grant_Some)
  have ok: "grant_ok L g0" using site_validate_sound [OF val] g0(1) by blast
  from b(3) obtain raw where raw: "raw \<in> set (gr_delegated_prefixes g0)" "p_bits (prefix_or_none raw) \<le> p_bits p"
    "contains (prefix_or_none raw) (p_addr p)" by (auto simp: delegated_contains_def list_ex_iff g0(3))
  from ok raw(1) obtain t d x c where t: "usable_net t d" "gr_transit_cidr g0 = v4_prefix_str t d"
    and x: "usable_net x c" "raw = v4_prefix_str x c" and dis: "\<not> overlaps (Prefix (V4 t) (int d)) (Prefix (V4 x) (int c))"
    by (rule grant_prefixes)
  from b(2) obtain w bb where w: "p = Prefix (V4 w) (int bb)" "usable_net w bb" by (rule site_prefixE)
  have par: "site_prefix raw = Inr (Prefix (V4 x) (int c))" using site_prefix_of [OF x(1)] x(2) by simp
  then have le: "c \<le> bb" "contains (Prefix (V4 x) (int c)) (V4 w)"
    using raw(2,3) by (simp_all add: prefix_or_none_def w)
  have "contains (Prefix (V4 x) (int c)) y" if "contains p y" for y
  proof -
    from that w obtain z where z: "y = V4 z" using contains_imp_V4 by blast
    then show ?thesis using that w le block_mono [of c bb w z] by (simp add: contains_V4 usable_net_def)
  qed
  moreover have "\<not> overlaps p (Prefix (V4 t) (int d))"
    unfolding w by (rule inside_disjoint [OF w(2) x(1) t(1) le dis])
  moreover have "site_prefix (gr_transit_cidr g0) = Inr (Prefix (V4 t) (int d))" using site_prefix_of [OF t(1)] t(2) by simp
  moreover have "sp_owner_uid plan = om_uid (sv_meta v)" "sp_global_vpc_id plan = sv_global_vpc_id (sv_spec v)"
    "sp_site_id plan = sv_site_id (sv_spec v)" "sp_attachment_id plan = sv_attachment_id (sv_spec v)"
    "gc_owner_uid (sp_gateway plan) = om_uid (sv_meta v)" "gc_cidr (sp_gateway plan) = sv_cidr (sv_spec v)"
    "gc_transit_cidr (sp_gateway plan) = gr_transit_cidr g0"
    "mset (gc_delegated_prefixes (sp_gateway plan)) = mset (gr_delegated_prefixes g0)"
    using who by (simp_all add: b(5) g0(3) render_plan_def Let_def canonical_grant_def sort_strings_def)
  ultimately show ?thesis using g0 b(2,4) raw(1) par val who by auto
qed

theorem site_build_sound_witness:
  "\<exists>plan. site_build k8s_ref (Some ex_site_vpc) ex_site = Inr plan \<and> sp_site_id plan = ''s1'' \<and> sp_attachment_id plan = ''a1''
    \<and> sp_owner_uid plan = ''u'' \<and> gc_transit_cidr (sp_gateway plan) = ''10.2.0.0/24''"
proof -
  obtain plan where p: "site_build k8s_ref (Some ex_site_vpc) ex_site = Inr plan" using ex_site_build by blast
  from site_build_sound [OF p] p show ?thesis by (auto simp: ex_site_def ex_grant_def ex_site_vpc_def)
qed

text \<open>
  the addresses excluded from the transit subnet of a plan are exactly its usable hosts other than
  the gateways of the grant, so nothing but a gateway can be allocated there.
\<close>

theorem site_build_transit_exclusions:
  assumes "site_build L (Some v) cfg = Inr plan"
  shows "\<exists>t d ips. sp_transit plan = native_subnet (sp_transit_name plan) (sp_vpc_name plan) (v4_prefix_str t d)
        (gc_router_ip (sp_gateway plan)) (map range_text (transit_ranges (Prefix (V4 t) (int d)) ips)) (site_labels v cfg)
    \<and> ips = map gw_ip (members (sp_gateway plan))
    \<and> (\<forall>x. in_ranges (transit_ranges (Prefix (V4 t) (int d)) ips) x
         \<longleftrightarrow> t < x \<and> x < last_address t d \<and> v4_str x \<notin> set ips)"
proof -
  from assms obtain g p where b: "find_grant cfg (sv_global_vpc_id (sv_spec v)) = Some g" "plan = render_plan v cfg g p"
    and val: "site_validate L cfg = Inr ()" by (rule site_buildE)
  from b(1) obtain g0 where g0: "g0 \<in> set (sc_grants cfg)" "g = canonical_grant g0" by (rule find_grant_Some)
  define ips where "ips = (if gr_gateways g \<noteq> [] then map gw_ip (gr_gateways g) else [gr_gateway_ip g])"
  have ok: "grant_ok L g0" using site_validate_sound [OF val] g0(1) by blast
  from transit_gateways [OF ok g0(2), folded ips_def] obtain t d where t: "usable_net t d" "gr_transit_cidr g = v4_prefix_str t d"
    "distinct ips" "\<forall>raw\<in>set ips. is_ok (site_host raw (Prefix (V4 t) (int d)))" by blast
  have "prefix_or_none (gr_transit_cidr g) = Prefix (V4 t) (int d)" using site_prefix_of [OF t(1)] t(2) by (simp add: prefix_or_none_def)
  then have "sp_transit plan = native_subnet (sp_transit_name plan) (sp_vpc_name plan) (v4_prefix_str t d)
        (gc_router_ip (sp_gateway plan)) (map range_text (transit_ranges (Prefix (V4 t) (int d)) ips)) (site_labels v cfg)"
    using t(2) by (auto simp: b(2) render_plan_def Let_def ips_def transit_exclusions_def)
  moreover have "ips = map gw_ip (members (sp_gateway plan))"
    by (simp add: b(2) render_plan_def Let_def ips_def members_def is_ha_def)
  ultimately show ?thesis using transit_ranges_exact [OF t(1,3,4)] by blast
qed

theorem site_build_transit_exclusions_witness:
  "\<exists>plan t d ips. site_build k8s_ref (Some ex_site_vpc) ex_site = Inr plan \<and> ips = map gw_ip (members (sp_gateway plan))
    \<and> (\<forall>x. in_ranges (transit_ranges (Prefix (V4 t) (int d)) ips) x \<longleftrightarrow> t < x \<and> x < last_address t d \<and> v4_str x \<notin> set ips)"
proof -
  obtain plan where p: "site_build k8s_ref (Some ex_site_vpc) ex_site = Inr plan" using ex_site_build by blast
  from site_build_transit_exclusions [OF p] p show ?thesis by blast
qed

text \<open>
  grants of other tenants do not enter a plan: with another list of grants that still validates and
  has the same first grant for this tenant, the result is the same, hash included.
\<close>

theorem site_build_local:
  assumes "site_validate L cfg = Inr ()" and "site_validate L (cfg\<lparr>sc_grants := grants\<rparr>) = Inr ()"
    and "find (\<lambda>g. gr_global_vpc_id g = sv_global_vpc_id (sv_spec v)) grants
      = find (\<lambda>g. gr_global_vpc_id g = sv_global_vpc_id (sv_spec v)) (sc_grants cfg)"
  shows "site_build L (Some v) (cfg\<lparr>sc_grants := grants\<rparr>) = site_build L (Some v) cfg"
proof -
  have "render_plan v (cfg\<lparr>sc_grants := grants\<rparr>) g p = render_plan v cfg g p" for g p
    by (simp add: render_plan_def Let_def site_labels_def site_identity_json_def)
  moreover have "find_grant (cfg\<lparr>sc_grants := grants\<rparr>) (sv_global_vpc_id (sv_spec v)) = find_grant cfg (sv_global_vpc_id (sv_spec v))"
    using assms(3) by (simp add: find_grant_def)
  ultimately show ?thesis unfolding site_build_def by (simp add: assms(1,2) cong: option.case_cong)
qed

definition ex_other_grant :: grant where
  "ex_other_grant = ex_grant\<lparr>gr_global_vpc_id := ''t2''\<rparr>"

theorem site_build_local_witness:
  "site_build k8s_ref (Some ex_site_vpc) (ex_site\<lparr>sc_grants := [ex_grant, ex_other_grant]\<rparr>) = site_build k8s_ref (Some ex_site_vpc) ex_site"
proof (rule site_build_local [OF ex_site_valid])
  have "ref_dns_subdomain ''t2''" by code_simp
  then show "site_validate k8s_ref (ex_site\<lparr>sc_grants := [ex_grant, ex_other_grant]\<rparr>) = Inr ()"
    using ex_labels ex_hosts
    by (simp add: site_validate_def ex_site_def k8s_ref_def command_def validate_grant_def ex_grant_def ex_other_grant_def site_prefix_samples
      validate_gateways_def check_delegated_def check_bfd_outside_def overlaps_V4 block_def)
qed (simp add: ex_site_def ex_site_vpc_def ex_grant_def)

end
