(* ===== verification/Domain_Plan.thy ===== *)
theory Domain_Plan
  imports Site_Plan
begin

text \<open>
  \<open>internal/config\<close> and \<open>internal/plan\<close>: the registration of an interconnection domain and the plan of a
  GlobalVpc over all of its clusters. \<open>domain_build\<close> validates the whole request before it renders any
  object. The lemmas show that an accepted plan attaches every registered cluster once, that no two of its
  prefixes share an address, that the routes form a full mesh, and that the order of the attachments does
  not matter.
\<close>

section \<open>Registration\<close>

record deployment_reference =
  dr_namespace :: string
  dr_name :: string
  dr_uid :: string

record domain_cluster =
  dc_name :: string
  dc_uid :: string
  dc_region :: string
  dc_site :: string
  dc_dc :: string
  dc_kubeconfig :: string
  dc_nb_command :: "string list"
  dc_sb_command :: "string list"
  dc_gateway_chassis :: "string list"
  dc_az_name :: string
  dc_ic_deployment :: deployment_reference

record domain_config =
  dcf_domain :: string
  dcf_clusters :: "domain_cluster list"
  dcf_icnb_command :: "string list"
  dcf_providers :: "string list smap"

text \<open>One cluster, against the names, UIDs and availability zones seen so far.\<close>

definition check_cluster :: "string list \<times> string list \<times> string list \<Rightarrow> domain_cluster \<Rightarrow> (string list \<times> string list \<times> string list) res" where
  "check_cluster st x = (case st of (names, uids, azs) \<Rightarrow>
     rbind (guard (dc_name x \<noteq> [] \<and> dc_uid x \<noteq> [] \<and> dc_region x \<noteq> [] \<and> dc_site x \<noteq> [] \<and> dc_dc x \<noteq> [] \<and> dc_kubeconfig x \<noteq> []
         \<and> dc_az_name x \<noteq> [] \<and> dc_nb_command x \<noteq> [] \<and> dc_sb_command x \<noteq> [] \<and> dc_gateway_chassis x \<noteq> [])
       ''incomplete cluster registration'') (\<lambda>_.
     rbind (guard (dc_name x \<notin> set names \<and> dc_uid x \<notin> set uids \<and> dc_az_name x \<notin> set azs)
       ''duplicate cluster name, UID or availability zone'') (\<lambda>_.
     rbind (guard (dr_namespace (dc_ic_deployment x) \<noteq> [] \<and> dr_name (dc_ic_deployment x) \<noteq> [] \<and> dr_uid (dc_ic_deployment x) \<noteq> [])
       ''dedicated native IC Deployment identity is required'') (\<lambda>_.
     Inr (dc_name x # names, dc_uid x # uids, dc_az_name x # azs)))))"

definition domain_validate :: "k8s_lib \<Rightarrow> domain_config \<Rightarrow> unit res" where
  "domain_validate L c =
     rbind (guard (dns1123_label L (dcf_domain c)) ''domain must be a DNS label of at most 63 characters'') (\<lambda>_.
     rbind (guard (dcf_domain c \<noteq> [] \<and> 2 \<le> length (dcf_clusters c) \<and> length (dcf_clusters c) \<le> 32
         \<and> dcf_icnb_command c \<noteq> [] \<and> dcf_providers c \<noteq> [])
       ''domain, 2-32 clusters, IC command and providers are required'') (\<lambda>_.
     rbind (foldr_res check_cluster ([], [], []) (dcf_clusters c)) (\<lambda>_.
     each_res (\<lambda>(k, v). guard (k \<noteq> [] \<and> v \<noteq> []) ''invalid provider command'') (dcf_providers c))))"

section \<open>The plan\<close>

record domain_site =
  ds_cluster :: domain_cluster
  ds_intent :: attachment
  ds_vpc_name :: string
  ds_subnet_name :: string
  ds_transit_name :: string
  ds_vpc :: json
  ds_subnet :: json
  ds_transit :: json

record domain_plan =
  dpl_uid :: string
  dpl_hash :: string
  dpl_transit_switch :: string
  dpl_claims :: "v1_prefix_claim list"
  dpl_attachments :: "domain_site list"

text \<open>The package has its own copies of the address checks.\<close>

definition plan_last_address :: "32 word \<Rightarrow> nat \<Rightarrow> 32 word" where
  "plan_last_address w b = w OR drop_bit b (- 1)"

definition plan_prefix :: "string \<Rightarrow> prefix res" where
  "plan_prefix raw = (case parse_prefix raw of
      None \<Rightarrow> Inl not_canonical_msg
    | Some p \<Rightarrow> (case p_addr p of
        V4 w \<Rightarrow>
          let b = nat (p_bits p) in
          if b < 8 \<or> 30 < b \<or> v4_prefix_str (net_of b w) b \<noteq> raw then Inl not_canonical_msg
          else if \<not> v4_global_unicast w \<or> \<not> v4_global_unicast (plan_last_address w b)
                  \<or> v4_loopback w \<or> v4_link_local w then Inl not_unicast_msg
          else Inr p
      | _ \<Rightarrow> Inl not_canonical_msg))"

definition plan_host :: "string \<Rightarrow> prefix \<Rightarrow> addr res" where
  "plan_host raw p = (case parse_addr raw of
      Some (V4 x) \<Rightarrow>
        (if v4_str x \<noteq> raw \<or> \<not> contains p (V4 x) \<or> V4 x = p_addr p
            \<or> (case p_addr p of V4 w \<Rightarrow> x = plan_last_address w (nat (p_bits p)) | _ \<Rightarrow> False)
            \<or> \<not> v4_global_unicast x
         then Inl not_host_msg else Inr (V4 x))
    | _ \<Rightarrow> Inl not_host_msg)"

definition scope_ok :: "string \<Rightarrow> bool" where
  "scope_ok s \<longleftrightarrow> trim_space s \<noteq> [] \<and> trim_space s = s \<and> length s \<le> 253"

text \<open>The clusters with their chassis sorted.\<close>

definition register_cluster :: "k8s_lib \<Rightarrow> domain_cluster list \<Rightarrow> domain_cluster \<Rightarrow> domain_cluster list res" where
  "register_cluster L registered x =
     rbind (guard (dns1123_subdomain L (dc_name x) \<and> label_value L (dc_uid x))
       ''cluster registration has an invalid name or UID label'') (\<lambda>_.
     let chassis = sort_strings (dc_gateway_chassis x) in
     rbind (guard (list_all (\<lambda>c. trim_space c \<noteq> []) chassis \<and> distinct chassis)
       (''cluster '' @ dc_name x @ '' has an empty or duplicate gateway chassis'')) (\<lambda>_.
     Inr (registered @ [x\<lparr>dc_gateway_chassis := chassis\<rparr>])))"

definition cluster_named :: "domain_cluster list \<Rightarrow> string \<Rightarrow> domain_cluster option" where
  "cluster_named registered name = find (\<lambda>x. dc_name x = name) (rev registered)"

type_synonym intent_state = "string list \<times> addr list \<times> prefix list"

definition check_intent :: "domain_cluster list \<Rightarrow> prefix \<Rightarrow> intent_state \<Rightarrow> attachment \<Rightarrow> intent_state res" where
  "check_intent registered transit st a = (case st of (seen, ips, prefixes) \<Rightarrow>
     let who = ''attachment '' @ at_cluster_ref a in
     rbind (guard (cluster_named registered (at_cluster_ref a) \<noteq> None) (''attachment clusterRef '' @ at_cluster_ref a @ '' is not registered'')) (\<lambda>_.
     rbind (guard (at_cluster_ref a \<notin> set seen) (''duplicate attachment clusterRef '' @ at_cluster_ref a)) (\<lambda>_.
     rbind (wrap (who @ '' cidr'') (plan_prefix (at_cidr a))) (\<lambda>p.
     rbind (guard (\<not> list_ex (overlaps p) prefixes) (who @ '' overlaps another prefix in this GlobalVpc'')) (\<lambda>_.
     rbind (wrap (who @ '' gateway'') (plan_host (at_gateway a) p)) (\<lambda>_.
     rbind (wrap (who @ '' transitIP'') (plan_host (at_transit_ip a) transit)) (\<lambda>ip.
     rbind (guard (ip \<notin> set ips) ''duplicate transitIP'') (\<lambda>_.
     Inr (at_cluster_ref a # seen, ip # ips, prefixes @ [p])))))))))"

definition plan_claim :: "string \<Rightarrow> string \<Rightarrow> string \<Rightarrow> string \<Rightarrow> v1_prefix_claim" where
  "plan_claim uid who scope cidr = \<lparr>vpc_claim_uid = uid @ ''/'' @ who, vpc_vpc_uid = uid, vpc_scope_ref = scope, vpc_cidr = cidr\<rparr>"

definition mesh_routes :: "attachment list \<Rightarrow> attachment \<Rightarrow> (string \<times> string) list" where
  "mesh_routes intents a = map (\<lambda>r. (at_cidr r, at_transit_ip r)) (filter (\<lambda>r. at_cluster_ref r \<noteq> at_cluster_ref a) intents)"

definition empty_cluster :: domain_cluster where
  "empty_cluster = \<lparr>dc_name = [], dc_uid = [], dc_region = [], dc_site = [], dc_dc = [], dc_kubeconfig = [], dc_nb_command = [],
     dc_sb_command = [], dc_gateway_chassis = [], dc_az_name = [], dc_ic_deployment = \<lparr>dr_namespace = [], dr_name = [], dr_uid = []\<rparr>\<rparr>"

definition render_site :: "string \<Rightarrow> string \<Rightarrow> prefix \<Rightarrow> domain_cluster list \<Rightarrow> attachment list \<Rightarrow> attachment \<Rightarrow> domain_site" where
  "render_site uid transit_text transit registered intents a =
     (let c = (case cluster_named registered (at_cluster_ref a) of None \<Rightarrow> empty_cluster | Some c \<Rightarrow> c);
          key = short_hash uid @ ''-'' @ short_hash (dc_uid c);
          vpc = ''gv-'' @ key; sub = ''gs-'' @ key; tr = ''gt-'' @ short_hash uid;
          labels = [(v1_owner_label, uid), (v1_cluster_label, dc_uid c)];
          excluded = addr_text (addr_next (p_addr transit)) @ ''..'' @ addr_text (addr_prev (prefix_last transit))
      in \<lparr>ds_cluster = c, ds_intent = a, ds_vpc_name = vpc, ds_subnet_name = sub, ds_transit_name = tr,
          ds_vpc = native_resource ''Vpc'' vpc labels
            [(''staticRoutes'', JArr (map (\<lambda>(cidr, hop). route_json cidr hop) (mesh_routes intents a)))],
          ds_subnet = native_subnet sub vpc (at_cidr a) (at_gateway a) [at_gateway a] labels,
          ds_transit = native_subnet tr vpc transit_text (at_transit_ip a) [excluded] labels\<rparr>)"

definition deployment_json :: "deployment_reference \<Rightarrow> json" where
  "deployment_json d = JObj [(''namespace'', JStr (dr_namespace d)), (''name'', JStr (dr_name d)), (''uid'', JStr (dr_uid d))]"

definition domain_cluster_json :: "domain_cluster \<Rightarrow> json" where
  "domain_cluster_json c = JObj [(''name'', JStr (dc_name c)), (''uid'', JStr (dc_uid c)), (''region'', JStr (dc_region c)),
     (''site'', JStr (dc_site c)), (''dc'', JStr (dc_dc c)), (''kubeconfig'', JStr (dc_kubeconfig c)),
     (''nbCommand'', jslice JStr (dc_nb_command c)), (''sbCommand'', jslice JStr (dc_sb_command c)),
     (''gatewayChassis'', jslice JStr (dc_gateway_chassis c)), (''azName'', JStr (dc_az_name c)),
     (''icDeployment'', deployment_json (dc_ic_deployment c))]"

definition domain_site_json :: "domain_site \<Rightarrow> json" where
  "domain_site_json s = JObj [(''Cluster'', domain_cluster_json (ds_cluster s)), (''Intent'', attachment_json (ds_intent s)),
     (''VpcName'', JStr (ds_vpc_name s)), (''SubnetName'', JStr (ds_subnet_name s)), (''TransitName'', JStr (ds_transit_name s)),
     (''Vpc'', ds_vpc s), (''Subnet'', ds_subnet s), (''Transit'', ds_transit s)]"

definition domain_identity_json :: "string \<Rightarrow> domain_config \<Rightarrow> global_vpc_spec \<Rightarrow> attachment list \<Rightarrow> domain_cluster list
    \<Rightarrow> string list \<Rightarrow> domain_site list \<Rightarrow> json" where
  "domain_identity_json uid cfg spec intents clusters provider sites = JObj [(''Version'', JStr ''v1''), (''UID'', JStr uid),
     (''Domain'', JStr (dcf_domain cfg)), (''IPAM'', ipam_json (gv_ipam spec)), (''TransitCIDR'', JStr (gv_transit_cidr spec)),
     (''Attachments'', jslice attachment_json intents), (''Clusters'', jslice domain_cluster_json clusters),
     (''ICNBCommand'', jslice JStr (dcf_icnb_command cfg)), (''ProviderCommand'', jslice JStr provider),
     (''Resources'', jslice domain_site_json sites)]"

text \<open>The rendering, once everything is accepted.\<close>

definition render_domain :: "global_vpc \<Rightarrow> domain_config \<Rightarrow> prefix \<Rightarrow> domain_cluster list \<Rightarrow> string list \<Rightarrow> attachment list \<Rightarrow> domain_plan" where
  "render_domain v cfg transit registered provider intents =
     (let uid = om_uid (gv_meta v); spec = gv_spec v; scope = ipam_scope_ref (gv_ipam spec);
          sites = map (render_site uid (gv_transit_cidr spec) transit registered intents) intents
      in \<lparr>dpl_uid = uid,
          dpl_hash = sha256_hex (json_enc (domain_identity_json uid cfg spec intents (sort_slice dc_name registered) provider sites)),
          dpl_transit_switch = ''gt-'' @ short_hash uid,
          dpl_claims = plan_claim uid ''transit'' scope (gv_transit_cidr spec)
            # map (\<lambda>s. plan_claim uid (''cluster/'' @ dc_uid (ds_cluster s)) scope (at_cidr (ds_intent s))) sites,
          dpl_attachments = sites\<rparr>)"

definition domain_build :: "k8s_lib \<Rightarrow> global_vpc option \<Rightarrow> domain_config \<Rightarrow> domain_plan res" where
  "domain_build L v cfg = (case v of
      None \<Rightarrow> Inl ''GlobalVpc is required''
    | Some v \<Rightarrow>
        let uid = om_uid (gv_meta v); spec = gv_spec v in
        rbind (wrap ''invalid domain registration'' (domain_validate L cfg)) (\<lambda>_.
        rbind (guard (uid \<noteq> [] \<and> label_value L uid) ''GlobalVpc must have a valid server-assigned UID'') (\<lambda>_.
        rbind (guard (gv_domain_ref spec = dcf_domain cfg) ''domainRef does not match this controller's registered domain'') (\<lambda>_.
        (case map_of (dcf_providers cfg) (ipam_provider_ref (gv_ipam spec)) of
           None \<Rightarrow> Inl ''ipam.providerRef is not registered''
         | Some provider \<Rightarrow>
        rbind (guard (scope_ok (ipam_scope_ref (gv_ipam spec)))
          ''ipam.scopeRef must be a nonempty reference of at most 253 characters without surrounding whitespace'') (\<lambda>_.
        rbind (guard (length (gv_attachments spec) = length (dcf_clusters cfg))
          ''attachments must include every cluster registered in the domain; sparse membership is unsupported'') (\<lambda>_.
        rbind (wrap ''transitCIDR'' (plan_prefix (gv_transit_cidr spec))) (\<lambda>transit.
        rbind (foldr_res (register_cluster L) [] (dcf_clusters cfg)) (\<lambda>registered.
        let intents = sort_slice at_cluster_ref (gv_attachments spec) in
        rbind (foldr_res (check_intent registered transit) ([], [], [transit]) intents) (\<lambda>_.
        Inr (render_domain v cfg transit registered provider intents)))))))))))"

section \<open>The duplicated checks agree\<close>

lemma plan_prefix_eq: "plan_prefix = site_prefix"
  by (intro ext) (simp only: plan_prefix_def site_prefix_def plan_last_address_def last_address_def)

lemma plan_host_eq: "plan_host = site_host"
  by (intro ext) (simp only: plan_host_def site_host_def plan_last_address_def last_address_def)

section \<open>What the checks establish\<close>

lemma domain_validate_sound:
  assumes "domain_validate L c = Inr ()"
  shows "2 \<le> length (dcf_clusters c) \<and> distinct (map dc_name (dcf_clusters c)) \<and> distinct (map dc_uid (dcf_clusters c))
    \<and> distinct (map dc_az_name (dcf_clusters c))"
proof -
  from assms obtain st where f: "foldr_res check_cluster ([], [], []) (dcf_clusters c) = Inr st" and l: "2 \<le> length (dcf_clusters c)"
    by (auto simp: domain_validate_def)
  have "st = (rev (map dc_name (dcf_clusters c)), rev (map dc_uid (dcf_clusters c)), rev (map dc_az_name (dcf_clusters c)))
    \<and> distinct (map dc_name (dcf_clusters c)) \<and> distinct (map dc_uid (dcf_clusters c)) \<and> distinct (map dc_az_name (dcf_clusters c))"
    by (rule foldr_res_invariant [OF f, where I = "\<lambda>done st.
        st = (rev (map dc_name done), rev (map dc_uid done), rev (map dc_az_name done))
        \<and> distinct (map dc_name done) \<and> distinct (map dc_uid done) \<and> distinct (map dc_az_name done)"])
      (auto simp: check_cluster_def)
  with l show ?thesis by blast
qed

lemma registered_names:
  assumes "foldr_res (register_cluster L) [] cs = Inr registered"
  shows "map dc_name registered = map dc_name cs \<and> map dc_uid registered = map dc_uid cs"
  by (rule foldr_res_invariant [OF assms, where I = "\<lambda>done r. map dc_name r = map dc_name done \<and> map dc_uid r = map dc_uid done"])
    (auto simp: register_cluster_def Let_def)

lemma cluster_named_Some: "cluster_named registered name = Some c \<Longrightarrow> c \<in> set registered \<and> dc_name c = name"
  unfolding cluster_named_def by (auto simp: find_Some_iff rev_nth)

lemma check_intents_sound:
  assumes "foldr_res (check_intent registered transit) ([], [], [transit]) intents = Inr st"
  shows "distinct (map at_cluster_ref intents) \<and> (\<forall>a\<in>set intents. cluster_named registered (at_cluster_ref a) \<noteq> None)
    \<and> (\<exists>ps. list_all2 (\<lambda>a p. site_prefix (at_cidr a) = Inr p \<and> is_ok (site_host (at_gateway a) p)) intents ps
         \<and> pairwise_disjoint (transit # ps))
    \<and> (\<exists>ips. list_all2 (\<lambda>a ip. site_host (at_transit_ip a) transit = Inr ip) intents ips \<and> distinct ips)"
proof -
  let ?I = "\<lambda>(done :: attachment list) (st :: intent_state). fst st = rev (map at_cluster_ref done) \<and> distinct (map at_cluster_ref done)
    \<and> (\<forall>a\<in>set done. cluster_named registered (at_cluster_ref a) \<noteq> None)
    \<and> (\<exists>ps. snd (snd st) = transit # ps
         \<and> list_all2 (\<lambda>a p. site_prefix (at_cidr a) = Inr p \<and> is_ok (site_host (at_gateway a) p)) done ps
         \<and> pairwise_disjoint (transit # ps))
    \<and> list_all2 (\<lambda>a ip. site_host (at_transit_ip a) transit = Inr ip) done (rev (fst (snd st))) \<and> distinct (fst (snd st))"
  have "?I intents st"
  proof (rule foldr_res_invariant [OF assms])
    fix "done" and a :: attachment and s s' :: intent_state
    assume I: "?I done s" and step: "check_intent registered transit s a = Inr s'"
    obtain seen ips prefixes where s: "s = (seen, ips, prefixes)" by (cases s) auto
    from I s obtain ps where ps: "prefixes = transit # ps"
      "list_all2 (\<lambda>a p. site_prefix (at_cidr a) = Inr p \<and> is_ok (site_host (at_gateway a) p)) done ps"
      "pairwise_disjoint (transit # ps)" by auto
    from step s obtain p ip where p: "cluster_named registered (at_cluster_ref a) \<noteq> None" "at_cluster_ref a \<notin> set seen"
      "site_prefix (at_cidr a) = Inr p" "\<not> list_ex (overlaps p) prefixes" "is_ok (site_host (at_gateway a) p)"
      "site_host (at_transit_ip a) transit = Inr ip" "ip \<notin> set ips"
      "s' = (at_cluster_ref a # seen, ip # ips, prefixes @ [p])"
      by (auto simp: check_intent_def Let_def plan_prefix_eq plan_host_eq is_ok_iff)
    have "pairwise_disjoint ((transit # ps) @ [p])" using ps(1,3) p(4) by (subst pairwise_disjoint_snoc) simp
    with ps p(3,5) have "\<exists>ps. snd (snd s') = transit # ps
         \<and> list_all2 (\<lambda>a p. site_prefix (at_cidr a) = Inr p \<and> is_ok (site_host (at_gateway a) p)) (done @ [a]) ps
         \<and> pairwise_disjoint (transit # ps)"
      by (intro exI [of _ "ps @ [p]"]) (simp add: p(8) list_all2_appendI)
    with I s p show "?I (done @ [a]) s'" by (auto intro: list_all2_appendI)
  qed simp
  then show ?thesis by (auto intro: exI [of _ "rev (fst (snd st))"])
qed

lemma domain_buildE:
  assumes "domain_build L (Some v) cfg = Inr p"
  obtains transit registered provider st where "domain_validate L cfg = Inr ()"
    "length (gv_attachments (gv_spec v)) = length (dcf_clusters cfg)"
    "site_prefix (gv_transit_cidr (gv_spec v)) = Inr transit"
    "foldr_res (register_cluster L) [] (dcf_clusters cfg) = Inr registered"
    "foldr_res (check_intent registered transit) ([], [], [transit]) (sort_slice at_cluster_ref (gv_attachments (gv_spec v))) = Inr st"
    "map_of (dcf_providers cfg) (ipam_provider_ref (gv_ipam (gv_spec v))) = Some provider"
    "p = render_domain v cfg transit registered provider (sort_slice at_cluster_ref (gv_attachments (gv_spec v)))"
  using assms unfolding domain_build_def Let_def plan_prefix_eq by (auto split: option.splits)

lemma rendered_sites [simp]:
  "dpl_attachments (render_domain v cfg transit registered provider intents)
     = map (render_site (om_uid (gv_meta v)) (gv_transit_cidr (gv_spec v)) transit registered intents) intents"
  by (simp add: render_domain_def Let_def)

lemma rendered_site [simp]: "ds_intent (render_site uid text transit registered intents a) = a"
  by (simp add: render_site_def Let_def)

lemma rendered_cluster:
  "cluster_named registered (at_cluster_ref a) \<noteq> None
     \<Longrightarrow> ds_cluster (render_site uid text transit registered intents a) \<in> set registered
       \<and> dc_name (ds_cluster (render_site uid text transit registered intents a)) = at_cluster_ref a"
  by (auto simp: render_site_def Let_def dest: cluster_named_Some)

text \<open>A duplicate-free list of names of the right length, all of them registered, names every cluster once.\<close>

lemma distinct_cover:
  assumes "distinct xs" and "distinct ys" and "set xs \<subseteq> set ys" and "length xs = length ys"
  shows "mset xs = mset ys"
proof -
  have "set xs = set ys"
    using assms by (intro card_subset_eq) (simp_all add: distinct_card)
  with assms(1,2) show ?thesis by (metis mset_set_set)
qed

lemma mesh_routes_complete:
  assumes "distinct (map at_cluster_ref intents)" and "a \<in> set intents"
  shows "add_mset (at_cidr a, at_transit_ip a) (mset (mesh_routes intents a))
    = image_mset (\<lambda>r. (at_cidr r, at_transit_ip r)) (mset intents)"
proof -
  from assms have "mset intents = add_mset a (mset (filter (\<lambda>r. at_cluster_ref r \<noteq> at_cluster_ref a) intents))"
  proof (induction intents)
    case (Cons b bs)
    show ?case
    proof (cases "a = b")
      case True
      then have "filter (\<lambda>r. at_cluster_ref r \<noteq> at_cluster_ref a) bs = bs"
        using Cons.prems(1) True by (auto simp: filter_id_conv image_iff)
      then show ?thesis using True by simp
    next
      case False
      then have "at_cluster_ref b \<noteq> at_cluster_ref a" using Cons.prems by force
      then show ?thesis using Cons False by simp
    qed
  qed simp
  then have "image_mset (\<lambda>r. (at_cidr r, at_transit_ip r)) (mset intents)
      = image_mset (\<lambda>r. (at_cidr r, at_transit_ip r)) (add_mset a (mset (filter (\<lambda>r. at_cluster_ref r \<noteq> at_cluster_ref a) intents)))"
    by simp
  also have "\<dots> = add_mset (at_cidr a, at_transit_ip a) (mset (mesh_routes intents a))"
    by (simp add: mesh_routes_def)
  finally show ?thesis by (rule sym)
qed

section \<open>A concrete domain\<close>

definition ex_cluster :: "string \<Rightarrow> domain_cluster" where
  "ex_cluster n = \<lparr>dc_name = n, dc_uid = n, dc_region = ''r'', dc_site = ''s'', dc_dc = ''d'', dc_kubeconfig = ''k'',
     dc_nb_command = [''nb''], dc_sb_command = [''sb''], dc_gateway_chassis = [''ch''], dc_az_name = n,
     dc_ic_deployment = \<lparr>dr_namespace = ''n'', dr_name = ''i'', dr_uid = ''u''\<rparr>\<rparr>"

definition ex_domain :: domain_config where
  "ex_domain = \<lparr>dcf_domain = ''d1'', dcf_clusters = [ex_cluster ''c1'', ex_cluster ''c2''], dcf_icnb_command = [''ic''],
     dcf_providers = [(''p'', [''ipam''])]\<rparr>"

definition ex_attachment :: "string \<Rightarrow> string \<Rightarrow> 32 word \<Rightarrow> 32 word \<Rightarrow> attachment" where
  "ex_attachment n cidr gw ip = \<lparr>at_cluster_ref = n, at_cidr = cidr, at_gateway = v4_str gw, at_transit_ip = v4_str ip\<rparr>"

definition ex_attachments :: "attachment list" where
  "ex_attachments = [ex_attachment ''c1'' ''10.1.0.0/24'' 0x0A010001 0x0A020001, ex_attachment ''c2'' ''10.3.0.0/24'' 0x0A030001 0x0A020002]"

definition ex_global_vpc :: "attachment list \<Rightarrow> global_vpc" where
  "ex_global_vpc as = \<lparr>gv_meta = empty_meta\<lparr>om_uid := ''u''\<rparr>, gv_spec = \<lparr>gv_domain_ref = ''d1'',
     gv_ipam = \<lparr>ipam_provider_ref = ''p'', ipam_scope_ref = ''s''\<rparr>, gv_transit_cidr = ''10.2.0.0/24'', gv_attachments = as\<rparr>,
     gv_status = \<lparr>gvs_observed_generation = 0, gvs_phase = [], gvs_operation = [], gvs_plan_hash = [], gvs_allocations = [],
       gvs_resources = [], gvs_transit_switch_uid = [], gvs_attachments = [], gvs_conditions = []\<rparr>\<rparr>"

lemma ex_domain_hosts:
  "ref_dns_label ''d1''" "ref_dns_subdomain ''c1''" "ref_dns_subdomain ''c2''" "ref_label_value ''c1''" "ref_label_value ''c2''"
  "ref_label_value ''u''" "trim_space ''ch'' = ''ch''" "trim_space ''s'' = ''s''"
  by code_simp+

lemma ex_domain_valid: "domain_validate k8s_ref ex_domain = Inr ()"
  using ex_domain_hosts by (simp add: domain_validate_def ex_domain_def ex_cluster_def k8s_ref_def check_cluster_def each_res_ok)

lemma ex_domain_intents:
  "sort_slice at_cluster_ref ex_attachments = ex_attachments"
  by (simp add: sort_slice_def ex_attachments_def ex_attachment_def)

lemma ex_domain_registered: "foldr_res (register_cluster k8s_ref) [] (dcf_clusters ex_domain) = Inr (dcf_clusters ex_domain)"
  using ex_domain_hosts by (simp add: ex_domain_def register_cluster_def ex_cluster_def k8s_ref_def sort_strings_def)

lemma ex_third_prefix: "site_prefix ''10.3.0.0/24'' = Inr (Prefix (V4 0x0A030000) 24)"
  using site_prefix_of [of "0x0A030000" 24] by (simp add: v4_text v4_classes)

lemma ex_third_host: "site_host (v4_str 0x0A030001) (Prefix (V4 0x0A030000) 24) = Inr (V4 0x0A030001)"
  by (simp add: site_host_def contains_V4 block_def v4_classes)

lemma ex_intents_checked:
  "\<exists>st. foldr_res (check_intent (dcf_clusters ex_domain) (Prefix (V4 0x0A020000) 24)) ([], [], [Prefix (V4 0x0A020000) 24]) ex_attachments = Inr st"
  using ex_hosts ex_third_prefix ex_third_host
  by (simp add: ex_attachments_def ex_attachment_def check_intent_def cluster_named_def ex_domain_def ex_cluster_def
      plan_prefix_eq plan_host_eq site_prefix_samples overlaps_V4 block_def Let_def)

lemma ex_domain_plan:
  "domain_build k8s_ref (Some (ex_global_vpc ex_attachments)) ex_domain
    = Inr (render_domain (ex_global_vpc ex_attachments) ex_domain (Prefix (V4 0x0A020000) 24) (dcf_clusters ex_domain) [''ipam''] ex_attachments)"
proof -
  have fields: "om_uid (gv_meta (ex_global_vpc ex_attachments)) = ''u''" "gv_domain_ref (gv_spec (ex_global_vpc ex_attachments)) = dcf_domain ex_domain"
    "map_of (dcf_providers ex_domain) (ipam_provider_ref (gv_ipam (gv_spec (ex_global_vpc ex_attachments)))) = Some [''ipam'']"
    "scope_ok (ipam_scope_ref (gv_ipam (gv_spec (ex_global_vpc ex_attachments))))"
    "gv_attachments (gv_spec (ex_global_vpc ex_attachments)) = ex_attachments" "gv_transit_cidr (gv_spec (ex_global_vpc ex_attachments)) = ''10.2.0.0/24''"
    "length ex_attachments = length (dcf_clusters ex_domain)" "label_value k8s_ref ''u''"
    using ex_domain_hosts
    by (simp_all add: ex_global_vpc_def ex_domain_def scope_ok_def ex_attachments_def k8s_ref_def)
  obtain st where st: "foldr_res (check_intent (dcf_clusters ex_domain) (Prefix (V4 0x0A020000) 24)) ([], [], [Prefix (V4 0x0A020000) 24]) ex_attachments = Inr st"
    using ex_intents_checked by blast
  show ?thesis
    unfolding domain_build_def option.case Let_def fields plan_prefix_eq ex_domain_valid ex_domain_registered site_prefix_samples ex_domain_intents
    by (simp add: fields st ex_domain_intents wrap_def)
qed

section \<open>Properties\<close>

text \<open>
  C38: an accepted plan attaches every registered cluster exactly once and renders exactly the requested
  attachments, each for the cluster it names; the transit prefix and the attached prefixes share no
  address, each tenant gateway is a usable host of its prefix, and the transit addresses are distinct
  usable hosts of the transit prefix.
\<close>

theorem domain_build_sound:
  assumes "domain_build L (Some v) cfg = Inr plan"
  shows "mset (map ds_intent (dpl_attachments plan)) = mset (gv_attachments (gv_spec v))
    \<and> mset (map (dc_name \<circ> ds_cluster) (dpl_attachments plan)) = mset (map dc_name (dcf_clusters cfg))
    \<and> (\<forall>s\<in>set (dpl_attachments plan). dc_name (ds_cluster s) = at_cluster_ref (ds_intent s))
    \<and> (\<exists>transit ps ips. site_prefix (gv_transit_cidr (gv_spec v)) = Inr transit
         \<and> list_all2 (\<lambda>s p. site_prefix (at_cidr (ds_intent s)) = Inr p \<and> is_ok (site_host (at_gateway (ds_intent s)) p))
             (dpl_attachments plan) ps
         \<and> pairwise_disjoint (transit # ps)
         \<and> list_all2 (\<lambda>s ip. site_host (at_transit_ip (ds_intent s)) transit = Inr ip) (dpl_attachments plan) ips \<and> distinct ips)"
proof -
  define intents where "intents = sort_slice at_cluster_ref (gv_attachments (gv_spec v))"
  from assms obtain transit registered provider st where b: "domain_validate L cfg = Inr ()"
    "length (gv_attachments (gv_spec v)) = length (dcf_clusters cfg)"
    "site_prefix (gv_transit_cidr (gv_spec v)) = Inr transit"
    "foldr_res (register_cluster L) [] (dcf_clusters cfg) = Inr registered"
    "foldr_res (check_intent registered transit) ([], [], [transit]) intents = Inr st"
    "plan = render_domain v cfg transit registered provider intents"
    unfolding intents_def by (rule domain_buildE)
  note ok = check_intents_sound [OF b(5)]
  have "map dc_name registered = map dc_name (dcf_clusters cfg)" using registered_names [OF b(4)] by blast
  then have names: "dc_name ` set registered = dc_name ` set (dcf_clusters cfg)" by (metis list.set_map)
  have nodup: "distinct (map dc_name (dcf_clusters cfg))" using domain_validate_sound [OF b(1)] by blast
  have "set (map at_cluster_ref intents) \<subseteq> set (map dc_name (dcf_clusters cfg))"
  proof
    fix n assume "n \<in> set (map at_cluster_ref intents)"
    then obtain a where a: "a \<in> set intents" "n = at_cluster_ref a" by auto
    with ok obtain c where "cluster_named registered n = Some c" by blast
    then show "n \<in> set (map dc_name (dcf_clusters cfg))" using names cluster_named_Some by (metis image_eqI list.set_map)
  qed
  then have refs: "mset (map at_cluster_ref intents) = mset (map dc_name (dcf_clusters cfg))"
    using ok nodup b(2) by (intro distinct_cover) (simp_all add: intents_def)
  have each: "\<forall>s\<in>set (dpl_attachments plan). dc_name (ds_cluster s) = at_cluster_ref (ds_intent s)"
    using ok rendered_cluster by (auto simp: b(6))
  then have "map (dc_name \<circ> ds_cluster) (dpl_attachments plan) = map (at_cluster_ref \<circ> ds_intent) (dpl_attachments plan)"
    by (auto intro: map_cong)
  also have "\<dots> = map at_cluster_ref intents" by (simp add: b(6) comp_def)
  finally have all: "mset (map (dc_name \<circ> ds_cluster) (dpl_attachments plan)) = mset (map dc_name (dcf_clusters cfg))"
    using refs by metis
  have sites: "map ds_intent (dpl_attachments plan) = intents" by (simp add: b(6) comp_def)
  from ok obtain ps ips where fit: "pairwise_disjoint (transit # ps)" "distinct ips"
    "list_all2 (\<lambda>a p. site_prefix (at_cidr a) = Inr p \<and> is_ok (site_host (at_gateway a) p)) (map ds_intent (dpl_attachments plan)) ps"
    "list_all2 (\<lambda>a ip. site_host (at_transit_ip a) transit = Inr ip) (map ds_intent (dpl_attachments plan)) ips"
    unfolding sites by blast
  have "mset (map ds_intent (dpl_attachments plan)) = mset (gv_attachments (gv_spec v))" by (simp add: sites intents_def)
  with each all b(3) fit show ?thesis
    unfolding list_all2_map1 by (intro conjI exI [of _ transit] exI [of _ ps] exI [of _ ips]) assumption+
qed

theorem domain_build_sound_witness:
  "\<exists>plan. domain_build k8s_ref (Some (ex_global_vpc ex_attachments)) ex_domain = Inr plan
    \<and> mset (map (dc_name \<circ> ds_cluster) (dpl_attachments plan)) = {#''c1'', ''c2''#}"
proof -
  have "mset (map dc_name (dcf_clusters ex_domain)) = {#''c1'', ''c2''#}" by (simp add: ex_domain_def ex_cluster_def)
  with domain_build_sound [OF ex_domain_plan] have "mset (map (dc_name \<circ> ds_cluster) (dpl_attachments (render_domain
      (ex_global_vpc ex_attachments) ex_domain (Prefix (V4 0x0A020000) 24) (dcf_clusters ex_domain) [''ipam''] ex_attachments))) = {#''c1'', ''c2''#}"
    by (elim conjE) (simp only:)
  with ex_domain_plan show ?thesis by (intro exI conjI)
qed

text \<open>
  The routes of an accepted plan form a full mesh: the static routes of the VPC of a cluster, together
  with the attachment of the cluster itself, are exactly the prefixes of all attachments, each through the
  transit address of its own cluster.
\<close>

theorem domain_build_mesh:
  assumes "domain_build L (Some v) cfg = Inr plan" and "s \<in> set (dpl_attachments plan)"
  shows "\<exists>routes. ds_vpc s = native_resource ''Vpc'' (ds_vpc_name s) [(v1_owner_label, dpl_uid plan), (v1_cluster_label, dc_uid (ds_cluster s))]
        [(''staticRoutes'', JArr (map (\<lambda>(cidr, hop). route_json cidr hop) routes))]
    \<and> add_mset (at_cidr (ds_intent s), at_transit_ip (ds_intent s)) (mset routes)
        = image_mset (\<lambda>a. (at_cidr a, at_transit_ip a)) (mset (gv_attachments (gv_spec v)))"
proof -
  define intents where "intents = sort_slice at_cluster_ref (gv_attachments (gv_spec v))"
  from assms(1) obtain transit registered provider st where b:
    "foldr_res (check_intent registered transit) ([], [], [transit]) intents = Inr st"
    "plan = render_domain v cfg transit registered provider intents"
    unfolding intents_def by (rule domain_buildE)
  from assms(2) b(2) obtain a where a: "a \<in> set intents"
    "s = render_site (om_uid (gv_meta v)) (gv_transit_cidr (gv_spec v)) transit registered intents a" by auto
  have "distinct (map at_cluster_ref intents)" using check_intents_sound [OF b(1)] by blast
  from mesh_routes_complete [OF this a(1)] show ?thesis
    by (intro exI [of _ "mesh_routes intents a"])
      (simp add: a(2) render_site_def Let_def b(2) render_domain_def intents_def)
qed

theorem domain_build_mesh_witness:
  "\<exists>plan s routes. domain_build k8s_ref (Some (ex_global_vpc ex_attachments)) ex_domain = Inr plan \<and> s \<in> set (dpl_attachments plan)
    \<and> add_mset (at_cidr (ds_intent s), at_transit_ip (ds_intent s)) (mset routes)
      = {#(''10.1.0.0/24'', v4_str 0x0A020001), (''10.3.0.0/24'', v4_str 0x0A020002)#}"
proof -
  obtain plan where plan: "domain_build k8s_ref (Some (ex_global_vpc ex_attachments)) ex_domain = Inr plan"
    "dpl_attachments plan \<noteq> []" using ex_domain_plan by (simp add: ex_attachments_def)
  then obtain s where s: "s \<in> set (dpl_attachments plan)" by (meson list.set_sel(1))
  have "image_mset (\<lambda>a. (at_cidr a, at_transit_ip a)) (mset (gv_attachments (gv_spec (ex_global_vpc ex_attachments))))
      = {#(''10.1.0.0/24'', v4_str 0x0A020001), (''10.3.0.0/24'', v4_str 0x0A020002)#}"
    by (simp add: ex_global_vpc_def ex_attachments_def ex_attachment_def)
  with domain_build_mesh [OF plan(1) s] plan(1) s show ?thesis by metis
qed

text \<open>
  the order in which a request lists its attachments does not matter: the same attachments in another
  order give the same plan with the same hash.
\<close>

theorem domain_build_order:
  assumes "domain_build L (Some v) cfg = Inr plan"
    and "mset as = mset (gv_attachments (gv_spec v))"
  shows "domain_build L (Some (v\<lparr>gv_spec := gv_spec v\<lparr>gv_attachments := as\<rparr>\<rparr>)) cfg = Inr plan"
proof -
  define intents where "intents = sort_slice at_cluster_ref (gv_attachments (gv_spec v))"
  from assms(1) obtain transit registered st where
    b: "foldr_res (check_intent registered transit) ([], [], [transit]) intents = Inr st"
    unfolding intents_def by (rule domain_buildE)
  have "distinct (map at_cluster_ref intents)" using check_intents_sound [OF b] by blast
  then have "inj_on at_cluster_ref (set as)"
    using mset_eq_setD [OF assms(2)] by (simp add: intents_def distinct_map)
  with assms(2) have same: "sort_slice at_cluster_ref as = sort_slice at_cluster_ref (gv_attachments (gv_spec v))"
    by (rule sort_slice_cong)
  have size: "length as = length (gv_attachments (gv_spec v))" using assms(2) by (metis size_mset)
  have "render_domain (v\<lparr>gv_spec := gv_spec v\<lparr>gv_attachments := as\<rparr>\<rparr>) cfg t r pr is = render_domain v cfg t r pr is" for t r pr "is"
    by (simp add: render_domain_def Let_def domain_identity_json_def)
  then show ?thesis
    using assms(1) by (simp add: domain_build_def Let_def same size cong: option.case_cong)
qed

theorem domain_build_order_witness:
  "\<exists>plan. domain_build k8s_ref (Some (ex_global_vpc (rev ex_attachments))) ex_domain = Inr plan"
proof -
  have "domain_build k8s_ref (Some (ex_global_vpc ex_attachments\<lparr>gv_spec :=
      gv_spec (ex_global_vpc ex_attachments)\<lparr>gv_attachments := rev ex_attachments\<rparr>\<rparr>)) ex_domain = Inr
      (render_domain (ex_global_vpc ex_attachments) ex_domain (Prefix (V4 0x0A020000) 24) (dcf_clusters ex_domain) [''ipam''] ex_attachments)"
    by (rule domain_build_order [OF ex_domain_plan]) (simp add: ex_global_vpc_def)
  then show ?thesis by (simp add: ex_global_vpc_def)
qed

text \<open>
  the two copies of the address checks, one in the plan of a domain and one in the registration of a
  site, accept the same prefixes and the same hosts.
\<close>

theorem duplicated_checks_agree:
  "plan_prefix raw = site_prefix raw \<and> plan_host raw p = site_host raw p"
  by (simp only: plan_prefix_eq plan_host_eq)

end
