(* ===== verification/Infra_Store.thy ===== *)
theory Infra_Store
  imports Api_Wire Local_Objects Domain_Plan
begin

text \<open>
  \<open>internal/controller/resources.go\<close>: the \<open>ResourceStore\<close>, through which the routed controllers handle the native
  objects of one cluster. Every mutation first reads the identity of the cluster, then the object, and
  touches only what carries the owner's and the cluster's label and the recorded UID. The client of a store is
  the connection a caller wires the calls to.
\<close>

section \<open>Objects of a cluster\<close>

record deployment =
  dep_meta :: object_meta
  dep_replicas :: "int option"
  dep_template_labels :: "string smap"
  dep_observed_generation :: int
  dep_ready_replicas :: int
  dep_updated_replicas :: int

record replica_set =
  rs_meta :: object_meta
  rs_replicas :: "int option"
  rs_observed_generation :: int

record infra_pod =
  ip_meta :: object_meta
  ip_phase :: string

datatype iobj = INative unstructured | INamespace object_meta | IDeployment deployment | ISet replica_set | IPod infra_pod

fun i_native :: "iobj \<Rightarrow> unstructured option" where "i_native (INative x) = Some x" | "i_native _ = None"
fun i_namespace :: "iobj \<Rightarrow> object_meta option" where "i_namespace (INamespace m) = Some m" | "i_namespace _ = None"
fun i_deployment :: "iobj \<Rightarrow> deployment option" where "i_deployment (IDeployment d) = Some d" | "i_deployment _ = None"
fun i_set :: "iobj \<Rightarrow> replica_set option" where "i_set (ISet s) = Some s" | "i_set _ = None"
fun i_pod :: "iobj \<Rightarrow> infra_pod option" where "i_pod (IPod p) = Some p" | "i_pod _ = None"

lemma iobj_prj [simp]: "i_native y = Some x \<longleftrightarrow> y = INative x" "i_namespace y = Some m \<longleftrightarrow> y = INamespace m"
  "i_deployment y = Some d \<longleftrightarrow> y = IDeployment d" "i_set y = Some s \<longleftrightarrow> y = ISet s" "i_pod y = Some p \<longleftrightarrow> y = IPod p"
  by (cases y; auto)+

type_synonym 'a iprog = "(iobj, 'a) kprog"

text \<open>A rendered object as the client sees it: the accessors of \<open>unstructured\<close> read the JSON tree.\<close>

definition rendered :: "json \<Rightarrow> unstructured" where
  "rendered j = (let ms = (case j of JObj ms \<Rightarrow> ms | _ \<Rightarrow> []);
       labels = (case nested_map ms [''metadata'', ''labels''] of None \<Rightarrow> [] | Some ls \<Rightarrow> ls) in
     \<lparr>un_api_version = nested_string ms [''apiVersion''], un_kind = nested_string ms [''kind''],
      un_meta = empty_meta\<lparr>om_name := nested_string ms [''metadata'', ''name''],
        om_labels := map (\<lambda>(k, v). (k, case v of JStr s \<Rightarrow> s | _ \<Rightarrow> [])) labels\<rparr>,
      un_body = filter (\<lambda>(k, v). k \<notin> {''apiVersion'', ''kind'', ''metadata''}) ms\<rparr>)"

text \<open>What the accessors read of a rendered object.\<close>

lemma rendered_native:
  assumes "distinct (map fst labels)"
  shows "un_kind (rendered (native_resource kind name labels spec)) = kind" and "om_name (un_meta (rendered (native_resource kind name labels spec))) = name"
    and "mget (om_labels (un_meta (rendered (native_resource kind name labels spec)))) k = mget labels k"
proof -
  have l: "map_of (map (\<lambda>(k, v). (k, case v of JStr s \<Rightarrow> s | _ \<Rightarrow> [])) (map (\<lambda>(k, v). (k, JStr v)) (sort_slice fst labels))) = map_of labels"
    using assms by (simp add: comp_def case_prod_unfold)
  show "un_kind (rendered (native_resource kind name labels spec)) = kind" "om_name (un_meta (rendered (native_resource kind name labels spec))) = name"
    by (simp_all add: rendered_def native_resource_def jmap_def nested_string_def Let_def)
  show "mget (om_labels (un_meta (rendered (native_resource kind name labels spec)))) k = mget labels k"
    using l by (simp add: rendered_def native_resource_def jmap_def nested_map_def json_map_def Let_def mget_def)
qed

section \<open>The store\<close>

definition recorded_missing :: err where
  "recorded_missing = Errorf ''recorded resource is absent; persist rediscovery intent before recreating''"

definition check_identity :: "string \<Rightarrow> (err + unit) iprog" where
  "check_identity uid = pbind (kget i_namespace ''Namespace'' [] ''kube-system'') (\<lambda>got. case got of
      Inl e \<Rightarrow> leave (Errorf ''Infra identity query failed'')
    | Inr n \<Rightarrow> if om_uid n \<noteq> uid then leave (Errorf ''Infra cluster UID mismatch'') else go ())"

definition store_get :: "string \<Rightarrow> string \<Rightarrow> (err + unstructured) iprog" where
  "store_get kind name = kget i_native kind [] name"

definition owned_native :: "unstructured \<Rightarrow> string \<Rightarrow> string \<Rightarrow> string \<Rightarrow> unit res" where
  "owned_native x owner cluster expected =
     (if mget (om_labels (un_meta x)) v1_owner_label \<noteq> owner \<or> mget (om_labels (un_meta x)) v1_cluster_label \<noteq> cluster
      then Inl ''resource ownership conflict''
      else guard (expected = [] \<or> om_uid (un_meta x) = expected) ''resource UID changed'')"

text \<open>\<open>NestedMap(desired.Object, "spec")\<close>: a member of another type is an error.\<close>

definition desired_spec :: "unstructured \<Rightarrow> (string \<times> json) list res" where
  "desired_spec x = (case map_of (un_body x) ''spec'' of
      None \<Rightarrow> Inr [] | Some (JObj ms) \<Rightarrow> Inr ms | Some _ \<Rightarrow> Inl ''.spec accessor error: expected map[string]interface{}'')"

definition merge_spec :: "(string \<times> json) list \<Rightarrow> unstructured \<Rightarrow> unstructured" where
  "merge_spec spec x = x\<lparr>un_body := mput ''spec'' (JObj (foldl (\<lambda>m (k, v). mput k v m)
     (case nested_map (un_body x) [''spec''] of None \<Rightarrow> [] | Some ms \<Rightarrow> ms) spec)) (un_body x)\<rparr>"

definition store_ensure :: "string \<Rightarrow> unstructured \<Rightarrow> string \<Rightarrow> (err + string) iprog" where
  "store_ensure uid want expected =
     ebind (check_identity uid) (\<lambda>_.
     pbind (store_get (un_kind want) (om_name (un_meta want))) (\<lambda>got. case got of
       Inl e \<Rightarrow>
         if \<not> is_not_found e then leave (Errorf ''resource query failed'')
         else if expected \<noteq> [] then leave recorded_missing
         else pbind (kwrite i_native (Create (INative want))) (\<lambda>made. case made of
             Inl _ \<Rightarrow> leave (Errorf ''resource creation failed; retry discovery'')
           | Inr x \<Rightarrow> go (om_uid (un_meta x)))
     | Inr x \<Rightarrow>
         ebind (lift_res Errorf (owned_native x (mget (om_labels (un_meta want)) v1_owner_label) uid expected)) (\<lambda>_.
         if om_deletion (un_meta x) \<noteq> None then leave (Errorf ''resource is terminating'')
         else ebind (lift_res Errorf (desired_spec want)) (\<lambda>spec.
         let y = merge_spec spec x in
         if same_json (JObj (un_body x)) (JObj (un_body y)) then go (om_uid (un_meta x))
         else pbind (kwrite i_native (Update (INative y))) (\<lambda>put. case put of
             Inl _ \<Rightarrow> leave (Errorf ''resource update failed; retry discovery'')
           | Inr z \<Rightarrow> go (om_uid (un_meta z)))))))"

definition store_delete :: "string \<Rightarrow> string \<Rightarrow> string \<Rightarrow> string \<Rightarrow> string \<Rightarrow> (err + bool) iprog" where
  "store_delete uid kind name owner expected =
     ebind (check_identity uid) (\<lambda>_.
     pbind (store_get kind name) (\<lambda>got. case got of
       Inl e \<Rightarrow> if is_not_found e then go True else leave (Errorf ''resource deletion query failed'')
     | Inr x \<Rightarrow>
         ebind (lift_res Errorf (owned_native x owner uid expected)) (\<lambda>_.
         if om_deletion (un_meta x) \<noteq> None then go False
         else pbind (kdo (Delete (INative x) (Some (om_uid (un_meta x))) (Some (om_resource_version (un_meta x))))) (\<lambda>gone. case gone of
             Inl e \<Rightarrow> if is_not_found e then go False else leave (Errorf ''resource deletion failed; retry discovery'')
           | Inr _ \<Rightarrow> go False))))"

definition store_ready :: "string \<Rightarrow> string \<Rightarrow> string \<Rightarrow> string \<Rightarrow> string \<Rightarrow> (err + bool) iprog" where
  "store_ready uid kind name owner expected =
     ebind (check_identity uid) (\<lambda>_.
     pbind (store_get kind name) (\<lambda>got. case got of
       Inl e \<Rightarrow> leave (Errorf ''resource readiness query failed'')
     | Inr x \<Rightarrow>
         ebind (lift_res Errorf (owned_native x owner uid expected)) (\<lambda>_.
         if om_deletion (un_meta x) \<noteq> None then go False
         else go (shows_ready x))))"

definition store_withdraw_routes :: "string \<Rightarrow> string \<Rightarrow> string \<Rightarrow> string \<Rightarrow> (err + unit) iprog" where
  "store_withdraw_routes uid name owner expected =
     ebind (check_identity uid) (\<lambda>_.
     pbind (store_get ''Vpc'' name) (\<lambda>got. case got of
       Inl e \<Rightarrow> if is_not_found e then go () else leave (Errorf ''route withdrawal query failed'')
     | Inr x \<Rightarrow>
         ebind (lift_res Errorf (owned_native x owner uid expected)) (\<lambda>_.
         if nested_slice (un_body x) [''spec'', ''staticRoutes''] = [] then go ()
         else pbind (kdo (Update (INative (set_spec ''staticRoutes'' (JArr []) x)))) (\<lambda>put. case put of
             Inl _ \<Rightarrow> leave (Errorf ''route withdrawal failed'')
           | Inr _ \<Rightarrow> go ()))))"

section \<open>What was seen of a cluster\<close>

text \<open>\<open>f\<close> and \<open>g\<close> wire the client of the store into the requests of its user.\<close>

definition identified :: "(iobj kreq \<Rightarrow> 'q) \<Rightarrow> ('r \<Rightarrow> iobj kresp) \<Rightarrow> ('q \<times> 'r) list \<Rightarrow> string \<Rightarrow> bool" where
  "identified f g h uid \<longleftrightarrow> (\<exists>n. told f g h (Get ''Namespace'' [] ''kube-system'') (Obj (INamespace n)) \<and> om_uid n = uid)"

definition present :: "(iobj kreq \<Rightarrow> 'q) \<Rightarrow> ('r \<Rightarrow> iobj kresp) \<Rightarrow> ('q \<times> 'r) list \<Rightarrow> string \<Rightarrow> string \<Rightarrow> unstructured \<Rightarrow> bool" where
  "present f g h kind name x \<longleftrightarrow> told f g h (Get kind [] name) (Obj (INative x))"

definition absent :: "(iobj kreq \<Rightarrow> 'q) \<Rightarrow> ('r \<Rightarrow> iobj kresp) \<Rightarrow> ('q \<times> 'r) list \<Rightarrow> string \<Rightarrow> string \<Rightarrow> bool" where
  "absent f g h kind name \<longleftrightarrow> (\<exists>e. told f g h (Get kind [] name) (Failed e) \<and> is_not_found e)"

text \<open>The static routes of an owned VPC are gone: it is absent, has none, or they were removed now.\<close>

definition routes_withdrawn :: "(iobj kreq \<Rightarrow> 'q) \<Rightarrow> ('r \<Rightarrow> iobj kresp) \<Rightarrow> ('q \<times> 'r) list \<Rightarrow> string \<Rightarrow> bool" where
  "routes_withdrawn f g h name \<longleftrightarrow> absent f g h ''Vpc'' name
     \<or> (\<exists>x. present f g h ''Vpc'' name x \<and> (nested_slice (un_body x) [''spec'', ''staticRoutes''] = []
          \<or> (\<exists>y. told f g h (Update (INative (set_spec ''staticRoutes'' (JArr []) x))) y \<and> (\<forall>e. y \<noteq> Failed e))))"

lemma identified_later: "identified f g h uid \<Longrightarrow> later h h' \<Longrightarrow> identified f g h' uid"
  and present_later: "present f g h kind name x \<Longrightarrow> later h h' \<Longrightarrow> present f g h' kind name x"
  and absent_later: "absent f g h kind name \<Longrightarrow> later h h' \<Longrightarrow> absent f g h' kind name"
  unfolding identified_def present_def absent_def by (blast intro: told_later)+

lemma routes_withdrawn_later: "routes_withdrawn f g h name \<Longrightarrow> later h h' \<Longrightarrow> routes_withdrawn f g h' name"
  unfolding routes_withdrawn_def by (blast intro: told_later present_later absent_later)

lemma desired_spec_error: "desired_spec want = Inl e \<Longrightarrow> Errorf e \<noteq> recorded_missing"
  and owned_native_error: "owned_native x owner cluster expected = Inl e' \<Longrightarrow> Errorf e' \<noteq> recorded_missing"
  by (auto simp: desired_spec_def owned_native_def guard_def recorded_missing_def split: option.splits json.splits if_splits)

section \<open>The client of a store\<close>

text \<open>
  Whoever uses a store lets it read; in return the rules say what the store asks for, after what it has
  seen, and what is known when it returns.
\<close>

locale infra_client =
  fixes f :: "iobj kreq \<Rightarrow> 'q" and g :: "'r \<Rightarrow> iobj kresp" and G :: "('q \<times> 'r) list \<Rightarrow> 'q \<Rightarrow> bool"
  assumes get_free: "G h (f (Get kind ns name))" and list_free: "G h (f (List kind lns labels))"
begin

lemma identity_rule:
  assumes "\<And>h' e. later h h' \<Longrightarrow> e \<noteq> recorded_missing \<Longrightarrow> Q h' (Inl e)" and "\<And>h'. later h h' \<Longrightarrow> identified f g h' uid \<Longrightarrow> Q h' (Inr ())"
  shows "always G (wire f g (check_identity uid)) Q h"
  unfolding check_identity_def wire_pbind always_pbind
  by (rule wire_get, rule get_free) (use assms in \<open>auto simp: recorded_missing_def identified_def\<close>)

text \<open>The common start: the identity, then the object.\<close>

lemma read_rule:
  assumes "\<And>h' e. later h h' \<Longrightarrow> e \<noteq> recorded_missing \<Longrightarrow> Q h' (Inl e)"
    and "\<And>h' e. later h h' \<Longrightarrow> identified f g h' uid \<Longrightarrow> (is_not_found e \<Longrightarrow> absent f g h' kind name) \<Longrightarrow> always G (wire f g (k (Inl e))) Q h'"
    and "\<And>h' x. later h h' \<Longrightarrow> identified f g h' uid \<Longrightarrow> present f g h' kind name x \<Longrightarrow> always G (wire f g (k (Inr x))) Q h'"
  shows "always G (wire f g (ebind (check_identity uid) (\<lambda>_. pbind (store_get kind name) k))) Q h"
proof -
  have "always G (wire f g (pbind (store_get kind name) k)) Q h1" if on: "later h h1" and i: "identified f g h1 uid" for h1
    unfolding store_get_def wire_pbind always_pbind
  proof (rule wire_get, goal_cases)
    case 1
    show ?case by (rule get_free)
  next
    case (2 h' e)
    show ?case by (rule assms(2)) (use 2 on i identified_later in \<open>auto simp: absent_def\<close>)
  next
    case (3 h' y x)
    show ?case by (rule assms(3)) (use 3 on i identified_later in \<open>auto simp: present_def\<close>)
  qed
  then show ?thesis unfolding wire_ebind always_ebind by (intro identity_rule) (use assms(1) in auto)
qed

lemma ensure_rule:
  assumes create: "\<And>h'. later h h' \<Longrightarrow> identified f g h' uid \<Longrightarrow> absent f g h' (un_kind want) (om_name (un_meta want)) \<Longrightarrow> expected = []
      \<Longrightarrow> G h' (f (Create (INative want)))"
    and update: "\<And>h' x spec. later h h' \<Longrightarrow> identified f g h' uid \<Longrightarrow> present f g h' (un_kind want) (om_name (un_meta want)) x
      \<Longrightarrow> owned_native x (mget (om_labels (un_meta want)) v1_owner_label) uid expected = Inr () \<Longrightarrow> om_deletion (un_meta x) = None
      \<Longrightarrow> desired_spec want = Inr spec \<Longrightarrow> G h' (f (Update (INative (merge_spec spec x))))"
    and left: "\<And>h' e. later h h' \<Longrightarrow> (e = recorded_missing \<Longrightarrow> expected \<noteq> [] \<and> absent f g h' (un_kind want) (om_name (un_meta want))) \<Longrightarrow> Q h' (Inl e)"
    and right: "\<And>h' id. later h h' \<Longrightarrow> Q h' (Inr id)"
  shows "always G (wire f g (store_ensure uid want expected)) Q h"
  unfolding store_ensure_def
proof (rule read_rule, goal_cases)
  case (2 h' e)
  have "always G (wire f g (kwrite i_native (Create (INative want)))) (\<lambda>h x. case x of
      Inl _ \<Rightarrow> Q h (Inl (Errorf ''resource creation failed; retry discovery'')) | Inr x \<Rightarrow> Q h (Inr (om_uid (un_meta x)))) h'"
    if "expected = []" "is_not_found e"
    by (rule wire_write, rule create) (use that 2 in \<open>auto simp: recorded_missing_def intro!: left right intro: later_trans\<close>)
  then show ?case using 2 by (auto simp: recorded_missing_def intro: left split: sum.split elim!: always_mono)
next
  case (3 h' x)
  let ?owner = "mget (om_labels (un_meta want)) v1_owner_label"
  have "always G (wire f g (kwrite i_native (Update (INative (merge_spec spec x))))) (\<lambda>h y. case y of
      Inl _ \<Rightarrow> Q h (Inl (Errorf ''resource update failed; retry discovery'')) | Inr z \<Rightarrow> Q h (Inr (om_uid (un_meta z)))) h'"
    if "owned_native x ?owner uid expected = Inr ()" "om_deletion (un_meta x) = None" "desired_spec want = Inr spec" for spec
    by (rule wire_write, rule update) (use that 3 in \<open>auto simp: recorded_missing_def intro!: left right intro: later_trans\<close>)
  then show ?case using 3
    by (auto simp: recorded_missing_def Let_def intro: left right split: sum.split
        dest: desired_spec_error owned_native_error elim!: always_mono)
qed (use left in blast)

lemma delete_rule:
  assumes delete: "\<And>h' x. later h h' \<Longrightarrow> identified f g h' uid \<Longrightarrow> present f g h' kind name x \<Longrightarrow> owned_native x owner uid expected = Inr ()
      \<Longrightarrow> G h' (f (Delete (INative x) (Some (om_uid (un_meta x))) (Some (om_resource_version (un_meta x)))))"
    and left: "\<And>h' e. later h h' \<Longrightarrow> Q h' (Inl e)" and gone: "\<And>h'. later h h' \<Longrightarrow> absent f g h' kind name \<Longrightarrow> Q h' (Inr True)"
    and going: "\<And>h'. later h h' \<Longrightarrow> Q h' (Inr False)"
  shows "always G (wire f g (store_delete uid kind name owner expected)) Q h"
  unfolding store_delete_def
proof (rule read_rule, goal_cases)
  case (3 h' x)
  have "always G (wire f g (kdo (Delete (INative x) (Some (om_uid (un_meta x))) (Some (om_resource_version (un_meta x)))))) (\<lambda>h y. case y of
      Inl e \<Rightarrow> if is_not_found e then Q h (Inr False) else Q h (Inl (Errorf ''resource deletion failed; retry discovery'')) | Inr _ \<Rightarrow> Q h (Inr False)) h'"
    if "owned_native x owner uid expected = Inr ()"
    by (rule wire_do, rule delete) (use that 3 later_trans in \<open>auto intro!: left going split: sum.split\<close>)
  then show ?case using 3 by (auto intro: left going split: sum.split elim!: always_mono)
qed (use left gone in auto)

lemma ready_rule:
  assumes "\<And>h' e. later h h' \<Longrightarrow> Q h' (Inl e)" and "\<And>h'. later h h' \<Longrightarrow> Q h' (Inr False)"
    and "\<And>h' x. later h h' \<Longrightarrow> present f g h' kind name x \<Longrightarrow> owned_native x owner uid expected = Inr () \<Longrightarrow> om_deletion (un_meta x) = None
      \<Longrightarrow> shows_ready x \<Longrightarrow> Q h' (Inr True)"
  shows "always G (wire f g (store_ready uid kind name owner expected)) Q h"
  unfolding store_ready_def
proof (rule read_rule, goal_cases)
  case (3 h' x)
  then show ?case using assms(2) [of h'] assms(3) [of h' x] by (cases "shows_ready x") (auto intro: assms(1) split: sum.split)
qed (use assms(1) in auto)

lemma withdraw_rule:
  assumes update: "\<And>h' x. later h h' \<Longrightarrow> identified f g h' uid \<Longrightarrow> present f g h' ''Vpc'' name x \<Longrightarrow> owned_native x owner uid expected = Inr ()
      \<Longrightarrow> G h' (f (Update (INative (set_spec ''staticRoutes'' (JArr []) x))))"
    and left: "\<And>h' e. later h h' \<Longrightarrow> Q h' (Inl e)" and right: "\<And>h'. later h h' \<Longrightarrow> routes_withdrawn f g h' name \<Longrightarrow> Q h' (Inr ())"
  shows "always G (wire f g (store_withdraw_routes uid name owner expected)) Q h"
  unfolding store_withdraw_routes_def
proof (rule read_rule, goal_cases)
  case (3 h' x)
  let ?q = "Update (INative (set_spec ''staticRoutes'' (JArr []) x))"
  have "Q (h' @ [(f ?q, r)]) (Inr ())" if "\<forall>e. g r \<noteq> Failed e" for r
  proof (rule right)
    show "later h (h' @ [(f ?q, r)])" using 3 by (auto intro: later_trans)
    have "present f g (h' @ [(f ?q, r)]) ''Vpc'' name x" using 3 by (auto intro: present_later)
    then show "routes_withdrawn f g (h' @ [(f ?q, r)]) name"
      using that told_snoc [of f g h' ?q r] unfolding routes_withdrawn_def by blast
  qed
  moreover have "Q (h' @ [(f ?q, r)]) (Inl e)" for r e by (rule left) (use 3 in \<open>auto intro: later_trans\<close>)
  moreover have "Q h' (Inr ())" if "nested_slice (un_body x) [''spec'', ''staticRoutes''] = []"
    by (rule right) (use that 3 in \<open>auto simp: routes_withdrawn_def\<close>)
  ultimately show ?case using 3 by (auto simp: kdo_def intro: left update split: sum.split kresp.split)
qed (use left right in \<open>auto simp: routes_withdrawn_def\<close>)

end

end
