(* ===== verification/Ovn_Interface.thy ===== *)
theory Ovn_Interface
  imports Infra_Store
begin

text \<open>
  The \<open>Network\<close> interface of the routed controllers: what they ask of the OVN databases of a cluster. Its
  methods are requests here; \<open>Ovn_Exec\<close> holds the adapter that answers them with commands.
\<close>

record ovn_route =
  rt_cidr :: string
  rt_next_hop :: string
  rt_policy :: string
  rt_bfd :: string

text \<open>The transit switch is addressed by the command of its database, its name, its owner and the expected UUID.\<close>

datatype net_req =
    InspectTransit "string list" string string string
  | EnsureTransit "string list" string string string
  | DeleteTransit "string list" string string string
  | CheckNetwork domain_cluster
  | MarkSwitch domain_cluster string
  | SetGateways domain_cluster string
  | EndpointsEmpty domain_cluster string
  | LocalAbsent domain_cluster string string string
  | Connected domain_cluster string string "string list"
  | RoutesReady domain_cluster string "ovn_route list"

datatype net_resp = NetDone "err + unit" | NetFlag "err + bool" | NetId "err + string"

definition transit_missing :: err where
  "transit_missing = Errorf ''previous transit switch is missing; refusing replacement''"

definition net_done :: "net_req \<Rightarrow> (net_req, net_resp, err + unit) prog" where
  "net_done q = Call q (\<lambda>r. Ret (case r of NetDone x \<Rightarrow> x | _ \<Rightarrow> Inl decode_error))"

definition net_flag :: "net_req \<Rightarrow> (net_req, net_resp, err + bool) prog" where
  "net_flag q = Call q (\<lambda>r. Ret (case r of NetFlag x \<Rightarrow> x | _ \<Rightarrow> Inl decode_error))"

definition net_id :: "net_req \<Rightarrow> (net_req, net_resp, err + string) prog" where
  "net_id q = Call q (\<lambda>r. Ret (case r of NetId x \<Rightarrow> x | _ \<Rightarrow> Inl decode_error))"

section \<open>What was answered\<close>

definition net_told :: "(net_req \<Rightarrow> 'q) \<Rightarrow> ('r \<Rightarrow> net_resp) \<Rightarrow> ('q \<times> 'r) list \<Rightarrow> net_req \<Rightarrow> net_resp \<Rightarrow> bool" where
  "net_told f g h q y \<longleftrightarrow> (\<exists>r. (f q, r) \<in> set h \<and> g r = y)"

lemma net_told_later: "net_told f g h q y \<Longrightarrow> later h h' \<Longrightarrow> net_told f g h' q y"
  by (auto simp: net_told_def later_def)

lemma net_told_snoc: "net_told f g (h @ [(f q, r)]) q (g r)"
  by (auto simp: net_told_def)

text \<open>The calls, with the exact history they leave.\<close>

lemma net_done_exact:
  assumes "G h (f q)" and "\<And>r e. Q (h @ [(f q, r)]) (Inl e)" and "\<And>r. g r = NetDone (Inr ()) \<Longrightarrow> Q (h @ [(f q, r)]) (Inr ())"
  shows "always G (wire f g (net_done q)) Q h"
  using assms by (simp add: net_done_def split: net_resp.split) (metis old.sum.exhaust old.unit.exhaust)

lemma net_flag_exact:
  assumes "G h (f q)" and "\<And>r e. Q (h @ [(f q, r)]) (Inl e)" and "\<And>r b. g r = NetFlag (Inr b) \<Longrightarrow> Q (h @ [(f q, r)]) (Inr b)"
  shows "always G (wire f g (net_flag q)) Q h"
  using assms by (simp add: net_flag_def split: net_resp.split) (metis old.sum.exhaust)

lemma net_done_rule:
  assumes "G h (f q)" and "\<And>h' e. later h h' \<Longrightarrow> Q h' (Inl e)" and "\<And>h'. later h h' \<Longrightarrow> net_told f g h' q (NetDone (Inr ())) \<Longrightarrow> Q h' (Inr ())"
  shows "always G (wire f g (net_done q)) Q h"
  by (rule net_done_exact) (use assms net_told_snoc [of f g h q] in \<open>auto dest: sym\<close>)

lemma net_flag_rule:
  assumes "G h (f q)" and "\<And>h' e. later h h' \<Longrightarrow> Q h' (Inl e)" and "\<And>h' b. later h h' \<Longrightarrow> net_told f g h' q (NetFlag (Inr b)) \<Longrightarrow> Q h' (Inr b)"
  shows "always G (wire f g (net_flag q)) Q h"
  by (rule net_flag_exact) (use assms net_told_snoc [of f g h q] in \<open>auto dest: sym\<close>)

lemma net_id_rule:
  assumes "G h (f q)" and "\<And>h' e. later h h' \<Longrightarrow> net_told f g h' q (NetId (Inl e)) \<or> e = decode_error \<Longrightarrow> Q h' (Inl e)"
    and "\<And>h' i. later h h' \<Longrightarrow> net_told f g h' q (NetId (Inr i)) \<Longrightarrow> Q h' (Inr i)"
  shows "always G (wire f g (net_id q)) Q h"
proof -
  have "Q (h @ [(f q, r)]) (case g r of NetId x \<Rightarrow> x | _ \<Rightarrow> Inl decode_error)" for r
    using net_told_snoc [of f g h q r] assms(2,3) [of "h @ [(f q, r)]"] by (auto split: net_resp.split) (metis old.sum.exhaust)
  with assms(1) show ?thesis by (simp add: net_id_def)
qed

end
