(* ===== verification/Domain_Gate.thy ===== *)
theory Domain_Gate
  imports Ovn_Interface
begin

text \<open>
  \<open>internal/controller/domain.go\<close>: the gate that serializes changes to the topology of an interconnection
  domain. A ConfigMap on the authority is the lock; its holder may stop the dedicated native
  interconnection Deployments of all clusters and start them again.
\<close>

section \<open>Requests of the routed controller\<close>

datatype dobj = DVpc global_vpc | DMap config_map

fun d_vpc :: "dobj \<Rightarrow> global_vpc option" where "d_vpc (DVpc v) = Some v" | "d_vpc _ = None"
fun d_map :: "dobj \<Rightarrow> config_map option" where "d_map (DMap m) = Some m" | "d_map _ = None"

lemma dobj_prj [simp]: "d_vpc y = Some v \<longleftrightarrow> y = DVpc v" "d_map y = Some m \<longleftrightarrow> y = DMap m"
  by (cases y; auto)+

text \<open>The authority, the clusters by name, the IPAM providers by name, and the OVN databases.\<close>

datatype dreq = Authority "dobj kreq" | Infra string "iobj kreq" | ClaimPrefix string v1_prefix_claim | Network net_req

datatype dresp = AuthorityAnswer "dobj kresp" | InfraAnswer "iobj kresp" | Claimed "err + allocation" | NetAnswer net_resp

type_synonym 'a dprog = "(dreq, dresp, 'a) prog"
type_synonym dhist = "(dreq \<times> dresp) list"

definition authority_answer :: "dresp \<Rightarrow> dobj kresp" where
  "authority_answer r = (case r of AuthorityAnswer x \<Rightarrow> x | _ \<Rightarrow> Failed decode_error)"

definition infra_answer :: "dresp \<Rightarrow> iobj kresp" where
  "infra_answer r = (case r of InfraAnswer x \<Rightarrow> x | _ \<Rightarrow> Failed decode_error)"

definition net_answer :: "dresp \<Rightarrow> net_resp" where
  "net_answer r = (case r of NetAnswer x \<Rightarrow> x | _ \<Rightarrow> NetDone (Inl decode_error))"

abbreviation authority :: "(dobj, 'a) kprog \<Rightarrow> 'a dprog" where
  "authority \<equiv> wire Authority authority_answer"

abbreviation infra :: "string \<Rightarrow> 'a iprog \<Rightarrow> 'a dprog" where
  "infra c \<equiv> wire (Infra c) infra_answer"

abbreviation network :: "(net_req, net_resp, 'a) prog \<Rightarrow> 'a dprog" where
  "network \<equiv> wire Network net_answer"

text \<open>\<open>if err != nil { return ..., fmt.Errorf(text) }\<close>: the cause is not passed on.\<close>

definition or_say :: "string \<Rightarrow> ('q, 'r, err + 'a) prog \<Rightarrow> ('q, 'r, err + 'a) prog" where
  "or_say text p = pbind p (\<lambda>x. Ret (case x of Inl _ \<Rightarrow> Inl (Errorf text) | Inr a \<Rightarrow> Inr a))"

lemma wire_or_say [simp]: "wire f g (or_say t p) = or_say t (wire f g p)"
  by (simp add: or_say_def)

lemma always_or_say [simp]: "always G (or_say t p) Q h \<longleftrightarrow> always G p (\<lambda>h x. Q h (case x of Inl _ \<Rightarrow> Inl (Errorf t) | Inr a \<Rightarrow> Inr a)) h"
  by (simp add: or_say_def)

section \<open>The lock\<close>

text \<open>The stores by cluster name, each with the registration it was made for.\<close>

record domain_gate =
  dg_namespace :: string
  dg_config :: domain_config
  dg_stores :: "domain_cluster smap"

definition domain_label :: string where
  "domain_label = ''networking.globalvpc.io/domain''"

definition lock_name :: "domain_gate \<Rightarrow> string" where
  "lock_name g = ''gvpc-domain-'' @ take 16 (sha256_hex (dcf_domain (dg_config g)))"

definition gate_lock :: "domain_gate \<Rightarrow> (err + config_map) dprog" where
  "gate_lock g = authority (kget d_map ''ConfigMap'' (dg_namespace g) (lock_name g))"

definition lock_labelled :: "domain_gate \<Rightarrow> config_map \<Rightarrow> bool" where
  "lock_labelled g m \<longleftrightarrow> mget (om_labels (cm_meta m)) domain_label = dcf_domain (dg_config g)"

definition lock_holder :: "config_map \<Rightarrow> string" where
  "lock_holder m = mget (cm_data m) ''holder''"

definition lock_hash :: "config_map \<Rightarrow> string" where
  "lock_hash m = mget (cm_data m) ''planHash''"

definition gate_holder :: "domain_gate \<Rightarrow> (err + string) dprog" where
  "gate_holder g = pbind (gate_lock g) (\<lambda>got. case got of
      Inl e \<Rightarrow> if is_not_found e then go [] else leave (Errorf ''domain lock query failed'')
    | Inr m \<Rightarrow> if \<not> lock_labelled g m then leave (Errorf ''domain lock ownership conflict'') else go (lock_holder m))"

definition new_lock :: "domain_gate \<Rightarrow> string \<Rightarrow> string \<Rightarrow> config_map" where
  "new_lock g uid hash = \<lparr>cm_meta = empty_meta\<lparr>om_name := lock_name g, om_namespace := dg_namespace g,
       om_labels := [(domain_label, dcf_domain (dg_config g))]\<rparr>,
     cm_data = [(''holder'', uid), (''planHash'', hash)], cm_immutable = None\<rparr>"

definition set_lock :: "string \<Rightarrow> string \<Rightarrow> config_map \<Rightarrow> config_map" where
  "set_lock uid hash m = m\<lparr>cm_data := [(''holder'', uid), (''planHash'', hash)]\<rparr>"

definition gate_acquire :: "domain_gate \<Rightarrow> string \<Rightarrow> string \<Rightarrow> (err + bool) dprog" where
  "gate_acquire g uid hash = pbind (gate_lock g) (\<lambda>got. case got of
      Inl e \<Rightarrow>
        if is_not_found e
        then ebind (or_say ''domain lock creation failed'' (authority (kdo (Create (DMap (new_lock g uid hash)))))) (\<lambda>_. go True)
        else leave (Errorf ''domain lock query failed'')
    | Inr m \<Rightarrow>
        if \<not> lock_labelled g m then leave (Errorf ''domain lock ownership conflict'')
        else if lock_holder m \<noteq> [] \<and> lock_holder m \<noteq> uid then go False
        else if lock_holder m = uid
        then (if lock_hash m \<noteq> hash then leave (Errorf ''locked domain configuration changed'') else go True)
        else ebind (or_say ''domain lock update failed'' (authority (kdo (Update (DMap (set_lock uid hash m)))))) (\<lambda>_. go True))"

definition gate_release :: "domain_gate \<Rightarrow> string \<Rightarrow> (err + unit) dprog" where
  "gate_release g uid =
     ebind (or_say ''domain release query failed'' (gate_lock g)) (\<lambda>m.
     if \<not> lock_labelled g m \<or> lock_holder m \<noteq> uid then leave (Errorf ''domain release ownership conflict'')
     else or_say ''domain release failed'' (authority (kdo (Update (DMap (set_lock [] [] m))))))"

section \<open>The native interconnection processes\<close>

text \<open>Only a dedicated Deployment of this domain may be stopped: identity, label, replicas and template.\<close>

definition dedicated :: "domain_gate \<Rightarrow> domain_cluster \<Rightarrow> deployment \<Rightarrow> unit res" where
  "dedicated g c d =
     (if om_uid (dep_meta d) \<noteq> dr_uid (dc_ic_deployment c) \<or> mget (om_labels (dep_meta d)) domain_label \<noteq> dcf_domain (dg_config g)
        \<or> om_deletion (dep_meta d) \<noteq> None
      then Inl ''native IC Deployment ownership conflict''
      else if (case dep_replicas d of None \<Rightarrow> True | Some n \<Rightarrow> n < 0 \<or> 1 < n) then Inl ''native IC Deployment must have zero or one replica''
      else guard (mget (dep_template_labels d) domain_label = dcf_domain (dg_config g)) ''native IC Pod template ownership conflict'')"

definition gate_deployment :: "domain_gate \<Rightarrow> domain_cluster \<Rightarrow> (err + deployment) dprog" where
  "gate_deployment g c = (case map_of (dg_stores g) (dc_name c) of
      None \<Rightarrow> leave (Errorf ''native IC Infra client is not configured'')
    | Some s \<Rightarrow>
        ebind (infra (dc_name c) (check_identity (dc_uid s))) (\<lambda>_.
        ebind (or_say ''native IC Deployment query failed'' (infra (dc_name c)
          (kget i_deployment ''Deployment'' (dr_namespace (dc_ic_deployment c)) (dr_name (dc_ic_deployment c))))) (\<lambda>d.
        ebind (lift_res Errorf (dedicated g c d)) (\<lambda>_. go d))))"

definition controlled_by :: "deployment \<Rightarrow> replica_set \<Rightarrow> bool" where
  "controlled_by d s \<longleftrightarrow> list_ex (\<lambda>o'. or_uid o' = om_uid (dep_meta d) \<and> or_controller o' = Some True) (om_owners (rs_meta s))"

definition set_quiet :: "replica_set \<Rightarrow> bool" where
  "set_quiet s \<longleftrightarrow> rs_replicas s = Some 0 \<and> om_generation (rs_meta s) \<le> rs_observed_generation s"

text \<open>The Pods are found by the UIDs of their owners, not by a selector.\<close>

definition pod_quiet :: "deployment \<Rightarrow> replica_set list \<Rightarrow> infra_pod \<Rightarrow> bool" where
  "pod_quiet d sets p \<longleftrightarrow> ip_phase p \<in> {''Succeeded'', ''Failed''}
     \<or> list_all (\<lambda>o'. or_uid o' \<notin> set (map (\<lambda>s. om_uid (rs_meta s)) (filter (controlled_by d) sets))) (om_owners (ip_meta p))"

definition wanted_replicas :: "bool \<Rightarrow> int" where
  "wanted_replicas paused = (if paused then 0 else 1)"

definition scale :: "domain_cluster \<Rightarrow> bool \<Rightarrow> bool \<Rightarrow> deployment \<Rightarrow> (err + deployment \<times> bool) dprog" where
  "scale c paused all d =
     (if dep_replicas d \<noteq> Some (wanted_replicas paused)
      then ebind (or_say ''native IC replica update failed'' (infra (dc_name c)
        (kwrite i_deployment (Update (IDeployment (d\<lparr>dep_replicas := Some (wanted_replicas paused)\<rparr>)))))) (\<lambda>d'. go (d', False))
      else go (d, all))"

definition deployment_observed :: "deployment \<Rightarrow> bool" where
  "deployment_observed d \<longleftrightarrow> om_generation (dep_meta d) \<le> dep_observed_generation d"

definition settle :: "bool \<Rightarrow> bool \<Rightarrow> domain_cluster \<times> deployment \<Rightarrow> (err + bool) dprog" where
  "settle paused all cd = (case cd of (c, d0) \<Rightarrow>
     ebind (scale c paused all d0) (\<lambda>(d, all).
     if paused then
       ebind (or_say ''native IC ReplicaSet query failed'' (infra (dc_name c) (klist i_set ''ReplicaSet'' (Some (om_namespace (dep_meta d))) []))) (\<lambda>sets.
       ebind (or_say ''native IC Pod query failed'' (infra (dc_name c) (klist i_pod ''Pod'' (Some (om_namespace (dep_meta d))) []))) (\<lambda>pods.
       go (all \<and> deployment_observed d \<and> list_all (\<lambda>s. controlled_by d s \<longrightarrow> set_quiet s) sets \<and> list_all (pod_quiet d sets) pods)))
     else go (all \<and> deployment_observed d \<and> dep_ready_replicas d = 1 \<and> dep_updated_replicas d = 1)))"

text \<open>Every registered target is validated before any of them is changed.\<close>

definition gate_set_paused :: "domain_gate \<Rightarrow> string \<Rightarrow> bool \<Rightarrow> (err + bool) dprog" where
  "gate_set_paused g uid paused =
     ebind (gate_holder g) (\<lambda>holder.
     if holder \<noteq> uid then leave (Errorf ''domain topology lock not held'')
     else ebind (efold (\<lambda>ds c. ebind (gate_deployment g c) (\<lambda>d. go (ds @ [d]))) [] (dcf_clusters (dg_config g))) (\<lambda>ds.
     efold (settle paused) True (zip (dcf_clusters (dg_config g)) ds)))"

end
