(* ===== verification/Domain_Reconciler.thy ===== *)
theory Domain_Reconciler
  imports Domain_Gate Platform_Reconciler
begin

text \<open>
  \<open>internal/controller/reconciler.go\<close>: one pass over a GlobalVpc, the request for one network over all clusters of a
  domain. The gate is the \<open>DomainGate\<close> and the stores are the \<open>ResourceStore\<close>s that the main program makes for the
  registered clusters; the network adapter and the IPAM providers are interfaces, so their calls are requests.
  An operation returns the object it was given beside its result where the code changes it in place.
\<close>

section \<open>Status\<close>

record domain_controller =
  dm_gate :: domain_gate
  dm_providers :: "string list"
  dm_interval :: int

definition dm_config :: "domain_controller \<Rightarrow> domain_config" where
  "dm_config r = dg_config (dm_gate r)"

definition domain_interval :: "domain_controller \<Rightarrow> int" where
  "domain_interval r = (if dm_interval r \<le> 0 then 10 * 1000000000 else dm_interval r)"

type_synonym 'a dcprog = "(outcome + 'a) dprog"

text \<open>An early return of the pass.\<close>

definition dearly :: "outcome dprog \<Rightarrow> 'a dcprog" where
  "dearly p = pbind p leave"

text \<open>\<open>Status().Update\<close> decodes the answer of the server into the object.\<close>

definition save_vpc :: "global_vpc \<Rightarrow> (err + global_vpc) dprog" where
  "save_vpc v = authority (kwrite d_vpc (UpdateStatus (DVpc v)))"

definition saved :: "global_vpc \<Rightarrow> global_vpc dcprog" where
  "saved v = pbind (save_vpc v) (\<lambda>x. Ret (case x of Inl e \<Rightarrow> Inl (failed e) | Inr v' \<Rightarrow> Inr v'))"

definition vpc_with_state :: "k8s_lib \<Rightarrow> global_vpc \<Rightarrow> string \<Rightarrow> string \<Rightarrow> string \<Rightarrow> bool \<Rightarrow> global_vpc" where
  "vpc_with_state L v phase reason message ready = v\<lparr>gv_status := (gv_status v)\<lparr>gvs_phase := phase,
     gvs_observed_generation := om_generation (gv_meta v),
     gvs_conditions := set_status_condition L (gvs_conditions (gv_status v))
       (condition_of (om_generation (gv_meta v)) ''Ready'' reason message ready)\<rparr>\<rparr>"

definition domain_state :: "k8s_lib \<Rightarrow> domain_controller \<Rightarrow> global_vpc \<Rightarrow> string \<Rightarrow> string \<Rightarrow> string \<Rightarrow> bool \<Rightarrow> outcome dprog" where
  "domain_state L r v phase reason message ready =
     (let v' = vpc_with_state L v phase reason message ready; again = \<lparr>requeue_after = domain_interval r, out_error = None\<rparr> in
      if gv_status v \<noteq> gv_status v'
      then pbind (save_vpc v') (\<lambda>x. Ret (case x of Inl e \<Rightarrow> failed e | Inr _ \<Rightarrow> again))
      else Ret again)"

definition domain_failure :: "k8s_lib \<Rightarrow> domain_controller \<Rightarrow> global_vpc \<Rightarrow> err \<Rightarrow> outcome dprog" where
  "domain_failure L r v e = domain_state L r v ''Blocked'' ''ReconcileBlocked'' (err_text e) False"

text \<open>\<open>if err != nil { return r.failure(ctx, v, err) }\<close>.\<close>

definition or_failure :: "k8s_lib \<Rightarrow> domain_controller \<Rightarrow> global_vpc \<Rightarrow> (err + 'a) dprog \<Rightarrow> 'a dcprog" where
  "or_failure L r v p = pbind p (\<lambda>x. case x of Inl e \<Rightarrow> dearly (domain_failure L r v e) | Inr a \<Rightarrow> go a)"

text \<open>\<open>if !ready { return r.state(ctx, v, "Pending", ...) }\<close> after a call.\<close>

definition or_wait :: "k8s_lib \<Rightarrow> domain_controller \<Rightarrow> global_vpc \<Rightarrow> string \<Rightarrow> string \<Rightarrow> string \<Rightarrow> (err + bool) dprog \<Rightarrow> unit dcprog" where
  "or_wait L r v phase reason message p = ebind (or_failure L r v p) (\<lambda>ready.
     if ready then go () else dearly (domain_state L r v phase reason message False))"

section \<open>Receipts\<close>

definition is_record :: "string \<Rightarrow> string \<Rightarrow> string \<Rightarrow> v1_resource_record \<Rightarrow> bool" where
  "is_record cluster kind name x \<longleftrightarrow> v1r_cluster_ref x = cluster \<and> v1r_kind x = kind \<and> v1r_name x = name"

definition domain_recorded :: "global_vpc \<Rightarrow> string \<Rightarrow> string \<Rightarrow> string \<Rightarrow> string" where
  "domain_recorded v cluster kind name = (case find (is_record cluster kind name) (gvs_resources (gv_status v)) of
      None \<Rightarrow> [] | Some x \<Rightarrow> v1r_uid x)"

fun put_record :: "v1_resource_record \<Rightarrow> v1_resource_record list \<Rightarrow> v1_resource_record list" where
  "put_record x [] = [x]"
| "put_record x (y # ys) = (if is_record (v1r_cluster_ref x) (v1r_kind x) (v1r_name x) y
     then y\<lparr>v1r_uid := v1r_uid x\<rparr> # ys else y # put_record x ys)"

definition update_record :: "string \<Rightarrow> string \<Rightarrow> string \<Rightarrow> string \<Rightarrow> global_vpc \<Rightarrow> global_vpc" where
  "update_record cluster kind name uid v = v\<lparr>gv_status := (gv_status v)\<lparr>gvs_resources :=
     put_record \<lparr>v1r_cluster_ref = cluster, v1r_kind = kind, v1r_name = name, v1r_uid = uid\<rparr> (gvs_resources (gv_status v))\<rparr>\<rparr>"

text \<open>Whether \<open>updateRecord\<close> reports a change: there is no receipt, or the first one has another UID.\<close>

definition record_changes :: "global_vpc \<Rightarrow> string \<Rightarrow> string \<Rightarrow> string \<Rightarrow> string \<Rightarrow> bool" where
  "record_changes v cluster kind name uid \<longleftrightarrow> (case find (is_record cluster kind name) (gvs_resources (gv_status v)) of
      None \<Rightarrow> True | Some x \<Rightarrow> v1r_uid x \<noteq> uid)"

definition set_operation :: "string \<Rightarrow> global_vpc \<Rightarrow> global_vpc" where
  "set_operation op v = v\<lparr>gv_status := (gv_status v)\<lparr>gvs_operation := op\<rparr>\<rparr>"

definition set_transit :: "string \<Rightarrow> global_vpc \<Rightarrow> global_vpc" where
  "set_transit uid v = v\<lparr>gv_status := (gv_status v)\<lparr>gvs_transit_switch_uid := uid\<rparr>\<rparr>"

section \<open>The native objects of a plan\<close>

definition site_objects :: "domain_site \<Rightarrow> unstructured list" where
  "site_objects s = map rendered [ds_vpc s, ds_subnet s, ds_transit s]"

definition site_name :: "domain_site \<Rightarrow> string" where
  "site_name s = dc_name (ds_cluster s)"

definition site_uid :: "domain_controller \<Rightarrow> domain_site \<Rightarrow> string" where
  "site_uid r s = (case map_of (dg_stores (dm_gate r)) (site_name s) of None \<Rightarrow> [] | Some c \<Rightarrow> dc_uid c)"

text \<open>Each object of each attachment, in order.\<close>

definition placed_objects :: "domain_plan \<Rightarrow> (domain_site \<times> unstructured) list" where
  "placed_objects p = concat (map (\<lambda>s. map (Pair s) (site_objects s)) (dpl_attachments p))"

definition placed_subnets :: "domain_plan \<Rightarrow> (domain_site \<times> string) list" where
  "placed_subnets p = concat (map (\<lambda>s. [(s, ds_subnet_name s), (s, ds_transit_name s)]) (dpl_attachments p))"

definition router_port :: "domain_plan \<Rightarrow> domain_site \<Rightarrow> string" where
  "router_port p s = ds_vpc_name s @ ''-'' @ dpl_transit_switch p"

section \<open>Before the first change\<close>

definition accept_plan :: "global_vpc \<Rightarrow> domain_plan \<Rightarrow> global_vpc dcprog" where
  "accept_plan v p =
     (if gvs_plan_hash (gv_status v) \<noteq> [] then go v
      else saved (v\<lparr>gv_status := (gv_status v)\<lparr>gvs_plan_hash := dpl_hash p, gvs_attachments := gvs_attachments (gv_status v) @
        map (\<lambda>s. \<lparr>ats_cluster_ref = site_name s, ats_vpc_name = ds_vpc_name s, ats_subnet_name = ds_subnet_name s,
          ats_transit_switch_name = ds_transit_name s\<rparr>) (dpl_attachments p)\<rparr>\<rparr>))"

definition preflight_object :: "k8s_lib \<Rightarrow> domain_controller \<Rightarrow> global_vpc \<Rightarrow> domain_plan \<Rightarrow> domain_site \<Rightarrow> unit \<Rightarrow> unstructured \<Rightarrow> unit dcprog" where
  "preflight_object L r v p s u want =
     pbind (infra (site_name s) (store_get (un_kind want) (om_name (un_meta want)))) (\<lambda>got. case got of
       Inl e \<Rightarrow> if is_not_found e then go () else dearly (domain_failure L r v (Errorf ''owned resource preflight query failed''))
     | Inr x \<Rightarrow> (case owned_native x (dpl_uid p) (dc_uid (ds_cluster s)) (domain_recorded v (site_name s) (un_kind want) (om_name (un_meta want))) of
           Inl e \<Rightarrow> dearly (domain_failure L r v (Errorf e))
         | Inr _ \<Rightarrow> go ()))"

definition preflight_site :: "k8s_lib \<Rightarrow> domain_controller \<Rightarrow> global_vpc \<Rightarrow> domain_plan \<Rightarrow> unit \<Rightarrow> domain_site \<Rightarrow> unit dcprog" where
  "preflight_site L r v p u s = (case map_of (dg_stores (dm_gate r)) (site_name s) of
      None \<Rightarrow> dearly (domain_failure L r v (Errorf ''Infra client is not configured''))
    | Some c \<Rightarrow> ebind (or_failure L r v (infra (site_name s) (check_identity (dc_uid c)))) (\<lambda>_.
        efold (preflight_object L r v p s) () (site_objects s)))"

text \<open>The holder of the domain, after every identity is verified.\<close>

definition preflight :: "k8s_lib \<Rightarrow> domain_controller \<Rightarrow> global_vpc \<Rightarrow> domain_plan \<Rightarrow> string dcprog" where
  "preflight L r v p =
     ebind (or_failure L r v (gate_holder (dm_gate r))) (\<lambda>holder.
     if holder \<noteq> [] \<and> holder \<noteq> dpl_uid p
     then dearly (domain_state L r v ''Pending'' ''DomainBusy'' ''Another VPC is completing a domain topology operation'' False)
     else ebind (or_failure L r v (network (net_id (InspectTransit (dcf_icnb_command (dm_config r)) (dpl_transit_switch p) (dpl_uid p)
         (gvs_transit_switch_uid (gv_status v)))))) (\<lambda>_.
     ebind (efold (preflight_site L r v p) () (dpl_attachments p)) (\<lambda>_. go holder)))"

section \<open>Starting the native processes again\<close>

definition resume :: "k8s_lib \<Rightarrow> domain_controller \<Rightarrow> global_vpc \<Rightarrow> bool \<Rightarrow> 'a dcprog" where
  "resume L r v deleting =
     ebind (or_failure L r v (gate_holder (dm_gate r))) (\<lambda>holder.
     ebind (if holder \<noteq> []
       then ebind (or_wait L r v ''Pending'' ''ResumingIC'' ''Waiting for dedicated native IC Deployments to resume''
           (gate_set_paused (dm_gate r) (om_uid (gv_meta v)) False)) (\<lambda>_.
         or_failure L r v (gate_release (dm_gate r) (om_uid (gv_meta v))))
       else go ()) (\<lambda>_.
     if deleting
     then pbind (authority (kdo (Update (DVpc (v\<lparr>gv_meta := remove_finalizer L (gv_meta v) v1_finalizer\<rparr>))))) (\<lambda>x.
       leave (case x of Inl e \<Rightarrow> failed e | Inr _ \<Rightarrow> finished))
     else ebind (saved (set_operation [] v)) (\<lambda>v'.
       dearly (domain_state L r v' ''Pending'' ''InterconnectPending'' ''Native IC resumed; waiting for topology convergence'' False))))"

section \<open>Deletion\<close>

definition consumers_gone :: "domain_plan \<Rightarrow> bool dcprog \<Rightarrow> (domain_site \<Rightarrow> string \<Rightarrow> bool dcprog) \<Rightarrow> bool dcprog" where
  "consumers_gone p found check = efold (\<lambda>_ (s, name). ebind (check s name) (\<lambda>empty. if empty then go True else found)) True (placed_subnets p)"

definition delete_kind :: "k8s_lib \<Rightarrow> domain_controller \<Rightarrow> global_vpc \<Rightarrow> domain_plan \<Rightarrow> string \<Rightarrow> unit dcprog" where
  "delete_kind L r v p kind =
     ebind (efold (\<lambda>all (s, name). ebind (or_failure L r v (infra (site_name s)
         (store_delete (site_uid r s) kind name (dpl_uid p) (domain_recorded v (site_name s) kind name)))) (\<lambda>gone. go (all \<and> gone)))
       True (if kind = ''Subnet'' then placed_subnets p else map (\<lambda>s. (s, ds_vpc_name s)) (dpl_attachments p))) (\<lambda>all.
     if all then go ()
     else dearly (domain_state L r v ''Deleting'' ''ResourcesDeleting'' ''Waiting for owned Kube-OVN resources to disappear'' False))"

definition endpoints_gone :: "k8s_lib \<Rightarrow> domain_controller \<Rightarrow> global_vpc \<Rightarrow> domain_site \<Rightarrow> string \<Rightarrow> bool dcprog" where
  "endpoints_gone L r v s name = or_failure L r v (network (net_flag (EndpointsEmpty (ds_cluster s) name)))"

definition withdraw_domain :: "k8s_lib \<Rightarrow> domain_controller \<Rightarrow> global_vpc \<Rightarrow> domain_plan \<Rightarrow> unit dcprog" where
  "withdraw_domain L r v p =
     ebind (efold (\<lambda>_ s. or_failure L r v (infra (site_name s) (store_withdraw_routes (site_uid r s) (ds_vpc_name s) (dpl_uid p)
       (domain_recorded v (site_name s) ''Vpc'' (ds_vpc_name s))))) () (dpl_attachments p)) (\<lambda>_.
     ebind (or_failure L r v (network (net_done (DeleteTransit (dcf_icnb_command (dm_config r)) (dpl_transit_switch p) (dpl_uid p)
       (gvs_transit_switch_uid (gv_status v)))))) (\<lambda>_.
     ebind (delete_kind L r v p ''Subnet'') (\<lambda>_.
     ebind (delete_kind L r v p ''Vpc'') (\<lambda>_.
     efold (\<lambda>_ s. or_wait L r v ''Deleting'' ''OVNCleanupPending'' ''Waiting for Kube-OVN to remove local OVN objects''
       (network (net_flag (LocalAbsent (ds_cluster s) (ds_vpc_name s) (ds_subnet_name s) (ds_transit_name s))))) () (dpl_attachments p)))))"

definition remove_domain :: "k8s_lib \<Rightarrow> domain_controller \<Rightarrow> global_vpc \<Rightarrow> domain_plan \<Rightarrow> 'a dcprog" where
  "remove_domain L r v p =
     (if gvs_operation (gv_status v) = ''Resume'' then resume L r v False
      else if gvs_operation (gv_status v) = ''DeleteResume'' then resume L r v True
      else
        ebind (consumers_gone p (dearly (domain_state L r v ''Deleting'' ''ConsumersPresent'' ''Drain all tenant subnet endpoints before deletion'' False))
          (endpoints_gone L r v)) (\<lambda>_.
        ebind (or_wait L r v ''Deleting'' ''DomainBusy'' ''Waiting for domain topology lock'' (gate_acquire (dm_gate r) (dpl_uid p) (dpl_hash p))) (\<lambda>_.
        ebind (or_wait L r v ''Deleting'' ''QuiescingIC'' ''Waiting for native IC processes to stop'' (gate_set_paused (dm_gate r) (dpl_uid p) True)) (\<lambda>_.
        ebind (consumers_gone p (ebind (saved (set_operation ''Resume'' v)) (\<lambda>v'. resume L r v' False))
          (endpoints_gone L r v)) (\<lambda>_.
        ebind (withdraw_domain L r v p) (\<lambda>_.
        ebind (saved (set_operation ''DeleteResume'' v)) (\<lambda>v'. resume L r v' True)))))))"

section \<open>Convergence\<close>

definition receipt_ok :: "v1_prefix_claim \<Rightarrow> allocation \<Rightarrow> bool" where
  "receipt_ok claim a \<longleftrightarrow> al_claim a = claim \<and> al_allocation_id a \<noteq> [] \<and> al_release_policy a = ''Retain''"

definition ensure_claim :: "k8s_lib \<Rightarrow> domain_controller \<Rightarrow> global_vpc \<Rightarrow> v1_prefix_claim \<Rightarrow> global_vpc dcprog" where
  "ensure_claim L r v claim = (case find (\<lambda>a. vpc_claim_uid (al_claim a) = vpc_claim_uid claim) (gvs_allocations (gv_status v)) of
      Some a \<Rightarrow> if receipt_ok claim a then go v
        else dearly (domain_failure L r v (Errorf ''persisted IPAM receipt does not match the accepted claim''))
    | None \<Rightarrow>
        let provider = ipam_provider_ref (gv_ipam (gv_spec v)) in
        if provider \<notin> set (dm_providers r) then dearly (domain_failure L r v (Errorf ''IPAM provider is not configured''))
        else ebind (or_failure L r v (Call (ClaimPrefix provider claim) (\<lambda>y. Ret (case y of Claimed x \<Rightarrow> x | _ \<Rightarrow> Inl decode_error)))) (\<lambda>a.
          if \<not> receipt_ok claim a then dearly (domain_failure L r v (Errorf ''IPAM receipt does not match the accepted claim''))
          else saved (v\<lparr>gv_status := (gv_status v)\<lparr>gvs_allocations := gvs_allocations (gv_status v) @ [a]\<rparr>\<rparr>)))"

text \<open>A recorded object that is absent is forgotten first, and created in a later pass.\<close>

definition ensure_object :: "k8s_lib \<Rightarrow> domain_controller \<Rightarrow> global_vpc \<Rightarrow> domain_site \<times> unstructured \<Rightarrow> global_vpc dcprog" where
  "ensure_object L r v sw = (case sw of (s, want) \<Rightarrow>
     let kind = un_kind want; name = om_name (un_meta want) in
     pbind (infra (site_name s) (store_ensure (site_uid r s) want (domain_recorded v (site_name s) kind name))) (\<lambda>x. case x of
       Inl e \<Rightarrow>
         if e = recorded_missing
         then ebind (saved (update_record (site_name s) kind name [] v)) (\<lambda>v'.
           dearly (domain_state L r v' ''Pending'' ''ResourceRecreationPending'' ''Recorded resource absence persisted; recreating on the next pass'' False))
         else dearly (domain_failure L r v e)
     | Inr uid \<Rightarrow> if record_changes v (site_name s) kind name uid then saved (update_record (site_name s) kind name uid v) else go v))"

definition check_subnet :: "k8s_lib \<Rightarrow> domain_controller \<Rightarrow> global_vpc \<Rightarrow> domain_plan \<Rightarrow> unit \<Rightarrow> domain_site \<times> string \<Rightarrow> unit dcprog" where
  "check_subnet L r v p u sn = (case sn of (s, name) \<Rightarrow>
     or_wait L r v ''Pending'' ''LocalNetworkPending'' ''Waiting for Kube-OVN Subnets''
       (infra (site_name s) (store_ready (site_uid r s) ''Subnet'' name (dpl_uid p) (domain_recorded v (site_name s) ''Subnet'' name))))"

definition transit_call :: "domain_controller \<Rightarrow> global_vpc \<Rightarrow> domain_plan \<Rightarrow> (err + string) dprog" where
  "transit_call r v p = network (net_id (EnsureTransit (dcf_icnb_command (dm_config r)) (dpl_transit_switch p) (dpl_uid p)
     (gvs_transit_switch_uid (gv_status v))))"

text \<open>Whether the transit switch has to be made, which stops the native processes of the whole domain.\<close>

definition needs_bootstrap :: "k8s_lib \<Rightarrow> domain_controller \<Rightarrow> global_vpc \<Rightarrow> domain_plan \<Rightarrow> string \<Rightarrow> bool dcprog" where
  "needs_bootstrap L r v p holder =
     (if gvs_transit_switch_uid (gv_status v) = [] \<or> holder = dpl_uid p then go True
      else pbind (transit_call r v p) (\<lambda>x. case x of
          Inl e \<Rightarrow> if e = transit_missing then go True else dearly (domain_failure L r v e)
        | Inr _ \<Rightarrow> go False))"

definition bootstrap :: "k8s_lib \<Rightarrow> domain_controller \<Rightarrow> global_vpc \<Rightarrow> domain_plan \<Rightarrow> 'a dcprog" where
  "bootstrap L r v p =
     ebind (or_wait L r v ''Pending'' ''DomainBusy'' ''Waiting for domain topology lock'' (gate_acquire (dm_gate r) (dpl_uid p) (dpl_hash p))) (\<lambda>_.
     ebind (or_wait L r v ''Pending'' ''QuiescingIC'' ''Waiting for all dedicated native IC processes to stop'' (gate_set_paused (dm_gate r) (dpl_uid p) True)) (\<lambda>_.
     ebind (efold (\<lambda>_ s. or_failure L r v (network (net_done (MarkSwitch (ds_cluster s) (dpl_transit_switch p))))) () (dpl_attachments p)) (\<lambda>_.
     pbind (transit_call r v p) (\<lambda>x. case x of
       Inl e \<Rightarrow>
         if e = transit_missing
         then ebind (saved (set_transit [] v)) (\<lambda>v'. dearly (domain_state L r v' ''Pending'' ''TransitRecreationPending''
           ''Transit absence persisted; recreating while native IC remains paused'' False))
         else dearly (domain_failure L r v e)
     | Inr uid \<Rightarrow>
         let v1 = set_transit uid v in
         ebind (efold (\<lambda>_ s. or_failure L r v1 (network (net_done (SetGateways (ds_cluster s) (router_port p s))))) () (dpl_attachments p)) (\<lambda>_.
         ebind (saved (set_operation ''Resume'' v1)) (\<lambda>v2. resume L r v2 False))))))"

definition other_sites :: "domain_plan \<Rightarrow> domain_site \<Rightarrow> domain_site list" where
  "other_sites p s = filter (\<lambda>o'. site_name o' \<noteq> site_name s) (dpl_attachments p)"

definition site_routes :: "domain_plan \<Rightarrow> domain_site \<Rightarrow> ovn_route list" where
  "site_routes p s = map (\<lambda>o'. \<lparr>rt_cidr = at_cidr (ds_intent o'), rt_next_hop = at_transit_ip (ds_intent o'), rt_policy = [], rt_bfd = []\<rparr>) (other_sites p s)"

definition converge_site :: "k8s_lib \<Rightarrow> domain_controller \<Rightarrow> global_vpc \<Rightarrow> domain_plan \<Rightarrow> unit \<Rightarrow> domain_site \<Rightarrow> unit dcprog" where
  "converge_site L r v p u s =
     ebind (or_failure L r v (network (net_done (MarkSwitch (ds_cluster s) (dpl_transit_switch p))))) (\<lambda>_.
     ebind (or_failure L r v (network (net_done (SetGateways (ds_cluster s) (router_port p s))))) (\<lambda>_.
     ebind (or_wait L r v ''Pending'' ''InterconnectPending'' ''Waiting for native IC tunnel keys and remote ports''
       (network (net_flag (Connected (ds_cluster s) (dpl_transit_switch p) (router_port p s) (map (router_port p) (other_sites p s)))))) (\<lambda>_.
     or_wait L r v ''Pending'' ''RoutesPending'' ''Waiting for Kube-OVN static route convergence''
       (network (net_flag (RoutesReady (ds_cluster s) (ds_vpc_name s) (site_routes p s)))))))"

definition converge :: "k8s_lib \<Rightarrow> domain_controller \<Rightarrow> global_vpc \<Rightarrow> domain_plan \<Rightarrow> string \<Rightarrow> 'a dcprog" where
  "converge L r v p holder =
     ebind (efold (\<lambda>_ s. or_failure L r v (network (net_done (CheckNetwork (ds_cluster s))))) () (dpl_attachments p)) (\<lambda>_.
     ebind (efold (ensure_claim L r) v (dpl_claims p)) (\<lambda>v1.
     ebind (efold (ensure_object L r) v1 (placed_objects p)) (\<lambda>v2.
     ebind (efold (check_subnet L r v2 p) () (placed_subnets p)) (\<lambda>_.
     ebind (needs_bootstrap L r v2 p holder) (\<lambda>boot.
     if boot then bootstrap L r v2 p
     else ebind (efold (converge_site L r v2 p) () (dpl_attachments p)) (\<lambda>_.
       dearly (domain_state L r v2 ''Ready'' ''ConfigurationConverged''
         ''Subnets report Ready; transit ports and static routes converged; dataplane probes are separate'' True)))))))"

section \<open>The pass\<close>

text \<open>The value of an operation that always returns from the pass.\<close>

definition pass_outcome :: "(outcome + outcome) \<Rightarrow> outcome" where
  "pass_outcome x = (case x of Inl out \<Rightarrow> out | Inr out \<Rightarrow> out)"

definition reconcile_plan :: "k8s_lib \<Rightarrow> domain_controller \<Rightarrow> global_vpc \<Rightarrow> domain_plan \<Rightarrow> outcome dcprog" where
  "reconcile_plan L r v0 p =
     ebind (accept_plan v0 p) (\<lambda>v.
     ebind (preflight L r v p) (\<lambda>holder.
     if om_deletion (gv_meta v) \<noteq> None
     then (if \<not> contains_finalizer L (gv_meta v) v1_finalizer then leave finished else remove_domain L r v p)
     else if gvs_operation (gv_status v) = ''Resume'' then resume L r v False
     else converge L r v p holder))"

definition domain_reconcile :: "k8s_lib \<Rightarrow> domain_controller \<Rightarrow> string \<Rightarrow> string \<Rightarrow> outcome dprog" where
  "domain_reconcile L r ns name =
     pbind (authority (kget d_vpc ''GlobalVpc'' ns name)) (\<lambda>got. case got of
       Inl e \<Rightarrow> Ret (if is_not_found e then finished else failed e)
     | Inr v \<Rightarrow>
         if gv_domain_ref (gv_spec v) \<noteq> dcf_domain (dm_config r) then Ret finished
         else if om_deletion (gv_meta v) = None \<and> \<not> contains_finalizer L (gv_meta v) v1_finalizer
         then pbind (authority (kdo (Update (DVpc (v\<lparr>gv_meta := add_finalizer L (gv_meta v) v1_finalizer\<rparr>))))) (\<lambda>x.
           Ret \<lparr>requeue_after = 1000000, out_error = (case x of Inl e \<Rightarrow> Some e | Inr _ \<Rightarrow> None)\<rparr>)
         else (case domain_build L (Some v) (dm_config r) of
             Inl e \<Rightarrow> domain_failure L r v (Errorf e)
           | Inr p \<Rightarrow>
               if gvs_plan_hash (gv_status v) \<noteq> [] \<and> gvs_plan_hash (gv_status v) \<noteq> dpl_hash p
               then domain_failure L r v (Errorf ''accepted intent or domain registration changed; restore the accepted configuration'')
               else pbind (reconcile_plan L r v p) (\<lambda>x. Ret (pass_outcome x))))"

end
