(* ===== verification/Domain_Laws.thy ===== *)
theory Domain_Laws
  imports Domain_Reconciler
begin

text \<open>
  What a pass over a GlobalVpc may ask for, at any point, for all answers: only owned objects are changed, after
  every identity of the plan is verified; the topology is changed only under the lock of the domain and
  behind the barrier that stops the native processes; it is taken down in order, and readiness is reported
  only after it was seen.
\<close>

section \<open>What a history shows\<close>

abbreviation asaid :: "dhist \<Rightarrow> dobj kreq \<Rightarrow> dobj kresp \<Rightarrow> bool" where
  "asaid \<equiv> told Authority authority_answer"

abbreviation isaid :: "string \<Rightarrow> dhist \<Rightarrow> iobj kreq \<Rightarrow> iobj kresp \<Rightarrow> bool" where
  "isaid c \<equiv> told (Infra c) infra_answer"

abbreviation nsaid :: "dhist \<Rightarrow> net_req \<Rightarrow> net_resp \<Rightarrow> bool" where
  "nsaid \<equiv> net_told Network net_answer"

lemmas [kept] = told_later net_told_later identified_later present_later absent_later routes_withdrawn_later

text \<open>A GlobalVpc the authority returned, its UID, and a plan made from one.\<close>

definition vpc_seen :: "dhist \<Rightarrow> global_vpc \<Rightarrow> bool" where
  "vpc_seen h v \<longleftrightarrow> (\<exists>q. asaid h q (Obj (DVpc v)))"

definition caller :: "dhist \<Rightarrow> string \<Rightarrow> bool" where
  "caller h uid \<longleftrightarrow> (\<exists>v. vpc_seen h v \<and> om_uid (gv_meta v) = uid)"

definition planned :: "k8s_lib \<Rightarrow> domain_controller \<Rightarrow> dhist \<Rightarrow> domain_plan \<Rightarrow> bool" where
  "planned L r h p \<longleftrightarrow> (\<exists>v. vpc_seen h v \<and> domain_build L (Some v) (dm_config r) = Inr p)"

lemma vpc_seen_later [kept]: "vpc_seen h v \<Longrightarrow> later h h' \<Longrightarrow> vpc_seen h' v"
  and caller_later [kept]: "caller h uid \<Longrightarrow> later h h' \<Longrightarrow> caller h' uid"
  and planned_later [kept]: "planned L r h p \<Longrightarrow> later h h' \<Longrightarrow> planned L r h' p"
  unfolding vpc_seen_def caller_def planned_def by (blast intro: told_later)+

lemma vpc_seenI: "asaid h q (Obj (DVpc v)) \<Longrightarrow> vpc_seen h v"
  by (auto simp: vpc_seen_def)

lemma planned_caller: "planned L r h p \<Longrightarrow> caller h (dpl_uid p)"
  unfolding planned_def caller_def by (auto elim!: domain_buildE simp: render_domain_def Let_def)

subsection \<open>The lock\<close>

abbreviation lock_req :: "domain_gate \<Rightarrow> dobj kreq" where
  "lock_req g \<equiv> Get ''ConfigMap'' (dg_namespace g) (lock_name g)"

definition lock_seen :: "domain_gate \<Rightarrow> dhist \<Rightarrow> config_map \<Rightarrow> bool" where
  "lock_seen g h m \<longleftrightarrow> asaid h (lock_req g) (Obj (DMap m)) \<and> lock_labelled g m"

definition lock_absent :: "domain_gate \<Rightarrow> dhist \<Rightarrow> bool" where
  "lock_absent g h \<longleftrightarrow> (\<exists>e. asaid h (lock_req g) (Failed e) \<and> is_not_found e)"

definition done_write :: "dhist \<Rightarrow> dobj kreq \<Rightarrow> bool" where
  "done_write h q \<longleftrightarrow> (\<exists>y. asaid h q y \<and> (\<forall>e. y \<noteq> Failed e))"

definition holder_is :: "domain_gate \<Rightarrow> dhist \<Rightarrow> string \<Rightarrow> bool" where
  "holder_is g h uid \<longleftrightarrow> lock_absent g h \<and> uid = [] \<or> (\<exists>m. lock_seen g h m \<and> lock_holder m = uid)"

text \<open>The lock was seen to be held by this UID, or it was taken for it.\<close>

definition lock_held :: "domain_gate \<Rightarrow> dhist \<Rightarrow> string \<Rightarrow> bool" where
  "lock_held g h uid \<longleftrightarrow> (\<exists>m. lock_seen g h m \<and> lock_holder m = uid)
     \<or> (\<exists>hash. lock_absent g h \<and> done_write h (Create (DMap (new_lock g uid hash))))
     \<or> (\<exists>m hash. lock_seen g h m \<and> lock_holder m = [] \<and> done_write h (Update (DMap (set_lock uid hash m))))"

definition lock_free :: "domain_gate \<Rightarrow> dhist \<Rightarrow> bool" where
  "lock_free g h \<longleftrightarrow> lock_absent g h \<or> (\<exists>m. lock_seen g h m \<and> lock_holder m = [])
     \<or> (\<exists>m uid. lock_seen g h m \<and> lock_holder m = uid \<and> caller h uid \<and> done_write h (Update (DMap (set_lock [] [] m))))"

lemma lock_seen_later [kept]: "lock_seen g h m \<Longrightarrow> later h h' \<Longrightarrow> lock_seen g h' m"
  and lock_absent_later [kept]: "lock_absent g h \<Longrightarrow> later h h' \<Longrightarrow> lock_absent g h'"
  and done_write_later [kept]: "done_write h q \<Longrightarrow> later h h' \<Longrightarrow> done_write h' q"
  unfolding lock_seen_def lock_absent_def done_write_def by (blast intro: told_later)+

lemma holder_is_later [kept]: "holder_is g h uid \<Longrightarrow> later h h' \<Longrightarrow> holder_is g h' uid"
  and lock_held_later [kept]: "lock_held g h uid \<Longrightarrow> later h h' \<Longrightarrow> lock_held g h' uid"
  and lock_free_later [kept]: "lock_free g h \<Longrightarrow> later h h' \<Longrightarrow> lock_free g h'"
  unfolding holder_is_def lock_held_def lock_free_def by (blast intro: kept)+

lemma holder_isI: "lock_absent g h \<Longrightarrow> holder_is g h []" "lock_seen g h m \<Longrightarrow> holder_is g h (lock_holder m)"
  and lock_heldI: "lock_seen g h m \<Longrightarrow> lock_held g h (lock_holder m)"
    "lock_absent g h \<Longrightarrow> done_write h (Create (DMap (new_lock g uid hash))) \<Longrightarrow> lock_held g h uid"
    "lock_seen g h m \<Longrightarrow> lock_holder m = [] \<Longrightarrow> done_write h (Update (DMap (set_lock uid hash m))) \<Longrightarrow> lock_held g h uid"
  and lock_freeI: "holder_is g h [] \<Longrightarrow> lock_free g h"
    "lock_seen g h m \<Longrightarrow> caller h (lock_holder m) \<Longrightarrow> done_write h (Update (DMap (set_lock [] [] m))) \<Longrightarrow> lock_free g h"
  unfolding holder_is_def lock_held_def lock_free_def by blast+

subsection \<open>The native processes\<close>

definition target_seen :: "domain_gate \<Rightarrow> dhist \<Rightarrow> domain_cluster \<Rightarrow> deployment \<Rightarrow> bool" where
  "target_seen g h c d \<longleftrightarrow> isaid (dc_name c) h (Get ''Deployment'' (dr_namespace (dc_ic_deployment c)) (dr_name (dc_ic_deployment c))) (Obj (IDeployment d))
     \<and> dedicated g c d = Inr () \<and> (\<exists>s. map_of (dg_stores g) (dc_name c) = Some s \<and> identified (Infra (dc_name c)) infra_answer h (dc_uid s))"

definition targets_seen :: "domain_gate \<Rightarrow> dhist \<Rightarrow> bool" where
  "targets_seen g h \<longleftrightarrow> (\<forall>c\<in>set (dcf_clusters (dg_config g)). \<exists>d. target_seen g h c d)"

text \<open>Stopped: no replica is wanted and that is observed, and no Pod of a controlled set still runs.\<close>

definition stopped :: "domain_gate \<Rightarrow> dhist \<Rightarrow> domain_cluster \<Rightarrow> bool" where
  "stopped g h c \<longleftrightarrow> (\<exists>d sets pods. target_seen g h c d \<and> dep_replicas d = Some 0 \<and> deployment_observed d
     \<and> isaid (dc_name c) h (List ''ReplicaSet'' (Some (om_namespace (dep_meta d))) []) (Items (map ISet sets))
     \<and> list_all (\<lambda>s. controlled_by d s \<longrightarrow> set_quiet s) sets
     \<and> isaid (dc_name c) h (List ''Pod'' (Some (om_namespace (dep_meta d))) []) (Items (map IPod pods)) \<and> list_all (pod_quiet d sets) pods)"

definition quiesced :: "domain_gate \<Rightarrow> dhist \<Rightarrow> bool" where
  "quiesced g h \<longleftrightarrow> (\<forall>c\<in>set (dcf_clusters (dg_config g)). stopped g h c)"

lemma target_seen_later [kept]: "target_seen g h c d \<Longrightarrow> later h h' \<Longrightarrow> target_seen g h' c d"
  unfolding target_seen_def by (blast intro: kept)

lemma targets_seen_later [kept]: "targets_seen g h \<Longrightarrow> later h h' \<Longrightarrow> targets_seen g h'"
  and stopped_later [kept]: "stopped g h c \<Longrightarrow> later h h' \<Longrightarrow> stopped g h' c"
  unfolding targets_seen_def stopped_def by (blast intro: kept)+

lemma quiesced_later [kept]: "quiesced g h \<Longrightarrow> later h h' \<Longrightarrow> quiesced g h'"
  unfolding quiesced_def by (blast intro: kept)

subsection \<open>The plan\<close>

text \<open>Every cluster of the plan is the registered one, and every object is absent or owned with the recorded UID.\<close>

definition object_verified :: "dhist \<Rightarrow> global_vpc \<Rightarrow> domain_plan \<Rightarrow> domain_site \<Rightarrow> unstructured \<Rightarrow> bool" where
  "object_verified h v p s want \<longleftrightarrow> absent (Infra (site_name s)) infra_answer h (un_kind want) (om_name (un_meta want))
     \<or> (\<exists>x. present (Infra (site_name s)) infra_answer h (un_kind want) (om_name (un_meta want)) x
          \<and> owned_native x (dpl_uid p) (dc_uid (ds_cluster s)) (domain_recorded v (site_name s) (un_kind want) (om_name (un_meta want))) = Inr ())"

definition site_verified :: "domain_controller \<Rightarrow> dhist \<Rightarrow> global_vpc \<Rightarrow> domain_plan \<Rightarrow> domain_site \<Rightarrow> bool" where
  "site_verified r h v p s \<longleftrightarrow> identified (Infra (site_name s)) infra_answer h (site_uid r s)
     \<and> (\<forall>want\<in>set (site_objects s). object_verified h v p s want)"

definition cleared :: "k8s_lib \<Rightarrow> domain_controller \<Rightarrow> dhist \<Rightarrow> domain_plan \<Rightarrow> bool" where
  "cleared L r h p \<longleftrightarrow> planned L r h p \<and> (\<exists>v. vpc_seen h v \<and> (\<forall>s\<in>set (dpl_attachments p). site_verified r h v p s))
     \<and> (holder_is (dm_gate r) h [] \<or> holder_is (dm_gate r) h (dpl_uid p))"

definition drained :: "dhist \<Rightarrow> domain_plan \<Rightarrow> bool" where
  "drained h p \<longleftrightarrow> (\<forall>(s, name)\<in>set (placed_subnets p). nsaid h (EndpointsEmpty (ds_cluster s) name) (NetFlag (Inr True)))"

text \<open>The barrier: the lock, then all native processes stopped, and only then no consumer left on any subnet.\<close>

definition barrier :: "domain_controller \<Rightarrow> dhist \<Rightarrow> domain_plan \<Rightarrow> bool" where
  "barrier r h p \<longleftrightarrow> (\<exists>h1 h2. h = h1 @ h2 \<and> lock_held (dm_gate r) h1 (dpl_uid p) \<and> quiesced (dm_gate r) h1 \<and> drained h2 p)"

definition withdrawn_all :: "dhist \<Rightarrow> domain_plan \<Rightarrow> bool" where
  "withdrawn_all h p \<longleftrightarrow> (\<forall>s\<in>set (dpl_attachments p). routes_withdrawn (Infra (site_name s)) infra_answer h (ds_vpc_name s))"

definition transit_deleted :: "domain_controller \<Rightarrow> dhist \<Rightarrow> domain_plan \<Rightarrow> bool" where
  "transit_deleted r h p \<longleftrightarrow> (\<exists>i. nsaid h (DeleteTransit (dcf_icnb_command (dm_config r)) (dpl_transit_switch p) (dpl_uid p) i) (NetDone (Inr ())))"

definition absent_all :: "dhist \<Rightarrow> string \<Rightarrow> (domain_site \<times> string) list \<Rightarrow> bool" where
  "absent_all h kind xs \<longleftrightarrow> (\<forall>(s, name)\<in>set xs. absent (Infra (site_name s)) infra_answer h kind name)"

definition removed :: "domain_controller \<Rightarrow> dhist \<Rightarrow> domain_plan \<Rightarrow> bool" where
  "removed r h p \<longleftrightarrow> barrier r h p \<and> withdrawn_all h p \<and> transit_deleted r h p \<and> absent_all h ''Subnet'' (placed_subnets p)
     \<and> absent_all h ''Vpc'' (map (\<lambda>s. (s, ds_vpc_name s)) (dpl_attachments p))
     \<and> (\<forall>s\<in>set (dpl_attachments p). nsaid h (LocalAbsent (ds_cluster s) (ds_vpc_name s) (ds_subnet_name s) (ds_transit_name s)) (NetFlag (Inr True)))"

definition transit_seen :: "domain_controller \<Rightarrow> dhist \<Rightarrow> domain_plan \<Rightarrow> bool" where
  "transit_seen r h p \<longleftrightarrow> (\<exists>i j. nsaid h (EnsureTransit (dcf_icnb_command (dm_config r)) (dpl_transit_switch p) (dpl_uid p) i) (NetId (Inr j)))"

definition site_connected :: "domain_plan \<Rightarrow> dhist \<Rightarrow> domain_site \<Rightarrow> bool" where
  "site_connected p h s \<longleftrightarrow>
     nsaid h (Connected (ds_cluster s) (dpl_transit_switch p) (router_port p s) (map (router_port p) (other_sites p s))) (NetFlag (Inr True))
     \<and> nsaid h (RoutesReady (ds_cluster s) (ds_vpc_name s) (site_routes p s)) (NetFlag (Inr True))"

definition subnet_up :: "domain_plan \<Rightarrow> dhist \<Rightarrow> domain_site \<times> string \<Rightarrow> bool" where
  "subnet_up p h sn \<longleftrightarrow> (case sn of (s, name) \<Rightarrow> \<exists>x. present (Infra (site_name s)) infra_answer h ''Subnet'' name x
     \<and> mget (om_labels (un_meta x)) v1_owner_label = dpl_uid p \<and> shows_ready x)"

definition converged :: "domain_controller \<Rightarrow> dhist \<Rightarrow> domain_plan \<Rightarrow> bool" where
  "converged r h p \<longleftrightarrow> transit_seen r h p \<and> (\<forall>sn\<in>set (placed_subnets p). subnet_up p h sn)
     \<and> (\<forall>s\<in>set (dpl_attachments p). site_connected p h s)"

lemma object_verified_later [kept]: "object_verified h v p s want \<Longrightarrow> later h h' \<Longrightarrow> object_verified h' v p s want"
  unfolding object_verified_def by (blast intro: kept)

lemma site_verified_later [kept]: "site_verified r h v p s \<Longrightarrow> later h h' \<Longrightarrow> site_verified r h' v p s"
  unfolding site_verified_def by (blast intro: kept)

lemma cleared_later [kept]: "cleared L r h p \<Longrightarrow> later h h' \<Longrightarrow> cleared L r h' p"
  unfolding cleared_def by (blast intro: kept)

lemma drained_later: "drained h p \<Longrightarrow> set h \<subseteq> set h' \<Longrightarrow> drained h' p"
  unfolding drained_def net_told_def by fastforce

lemma barrier_later [kept]: "barrier r h p \<Longrightarrow> later h h' \<Longrightarrow> barrier r h' p"
proof -
  assume "barrier r h p" "later h h'"
  then obtain h1 h2 t where h: "h' = h1 @ (h2 @ t)" "lock_held (dm_gate r) h1 (dpl_uid p)" "quiesced (dm_gate r) h1" "drained h2 p"
    by (auto simp: barrier_def later_def)
  then have "drained (h2 @ t) p" by (auto intro: drained_later)
  with h show ?thesis unfolding barrier_def by blast
qed

lemma withdrawn_all_later [kept]: "withdrawn_all h p \<Longrightarrow> later h h' \<Longrightarrow> withdrawn_all h' p"
  and transit_deleted_later [kept]: "transit_deleted r h p \<Longrightarrow> later h h' \<Longrightarrow> transit_deleted r h' p"
  and transit_seen_later [kept]: "transit_seen r h p \<Longrightarrow> later h h' \<Longrightarrow> transit_seen r h' p"
  and site_connected_later [kept]: "site_connected p h s \<Longrightarrow> later h h' \<Longrightarrow> site_connected p h' s"
  and subnet_up_later [kept]: "subnet_up p h sn \<Longrightarrow> later h h' \<Longrightarrow> subnet_up p h' sn"
  and absent_all_later [kept]: "absent_all h kind xs \<Longrightarrow> later h h' \<Longrightarrow> absent_all h' kind xs"
  unfolding withdrawn_all_def transit_deleted_def transit_seen_def site_connected_def subnet_up_def absent_all_def
  by (auto split: prod.splits; blast intro: kept)+

section \<open>The contract\<close>

definition running :: "domain_gate \<Rightarrow> dhist \<Rightarrow> bool" where
  "running g h \<longleftrightarrow> (\<forall>c\<in>set (dcf_clusters (dg_config g)). \<exists>d. target_seen g h c d \<and> dep_replicas d = Some 1 \<and> deployment_observed d
     \<and> dep_ready_replicas d = 1 \<and> dep_updated_replicas d = 1)"

lemma running_later [kept]: "running g h \<Longrightarrow> later h h' \<Longrightarrow> running g h'"
  unfolding running_def by (blast intro: kept)

text \<open>The topology of the domain may be changed: the lock is held and every native process is stopped.\<close>

definition topology_open :: "domain_controller \<Rightarrow> dhist \<Rightarrow> domain_plan \<Rightarrow> bool" where
  "topology_open r h p \<longleftrightarrow> lock_held (dm_gate r) h (dpl_uid p) \<and> quiesced (dm_gate r) h"

lemma topology_open_later [kept]: "topology_open r h p \<Longrightarrow> later h h' \<Longrightarrow> topology_open r h' p"
  unfolding topology_open_def by (blast intro: kept)

definition on_transit :: "domain_controller \<Rightarrow> domain_plan \<Rightarrow> string list \<Rightarrow> string \<Rightarrow> string \<Rightarrow> bool" where
  "on_transit r p cmd ts uid \<longleftrightarrow> cmd = dcf_icnb_command (dm_config r) \<and> ts = dpl_transit_switch p \<and> uid = dpl_uid p"

fun net_ok :: "k8s_lib \<Rightarrow> domain_controller \<Rightarrow> dhist \<Rightarrow> net_req \<Rightarrow> bool" where
  "net_ok L r h (MarkSwitch c ts) \<longleftrightarrow> (\<exists>p. cleared L r h p \<and> c \<in> ds_cluster ` set (dpl_attachments p) \<and> ts = dpl_transit_switch p
     \<and> (topology_open r h p \<or> transit_seen r h p))"
| "net_ok L r h (SetGateways c port) \<longleftrightarrow> (\<exists>p s. cleared L r h p \<and> s \<in> set (dpl_attachments p) \<and> c = ds_cluster s \<and> port = router_port p s
     \<and> transit_seen r h p)"
| "net_ok L r h (EnsureTransit cmd ts uid i) \<longleftrightarrow> (\<exists>p. cleared L r h p \<and> on_transit r p cmd ts uid \<and> (i \<noteq> [] \<or> topology_open r h p))"
| "net_ok L r h (DeleteTransit cmd ts uid i) \<longleftrightarrow> (\<exists>p. cleared L r h p \<and> on_transit r p cmd ts uid \<and> barrier r h p \<and> withdrawn_all h p)"
| "net_ok L r h q \<longleftrightarrow> True"

text \<open>An owned object of a site of the plan, with the UID a returned GlobalVpc has recorded for it.\<close>

definition owned_object :: "domain_controller \<Rightarrow> dhist \<Rightarrow> domain_plan \<Rightarrow> domain_site \<Rightarrow> string \<Rightarrow> string \<Rightarrow> unstructured \<Rightarrow> bool" where
  "owned_object r h p s kind name x \<longleftrightarrow> s \<in> set (dpl_attachments p) \<and> identified (Infra (site_name s)) infra_answer h (site_uid r s)
     \<and> present (Infra (site_name s)) infra_answer h kind name x
     \<and> (\<exists>v. vpc_seen h v \<and> owned_native x (dpl_uid p) (site_uid r s) (domain_recorded v (site_name s) kind name) = Inr ())"

definition rescaled :: "domain_gate \<Rightarrow> dhist \<Rightarrow> string \<Rightarrow> deployment \<Rightarrow> bool" where
  "rescaled g h c d' \<longleftrightarrow> targets_seen g h \<and> (\<exists>uid. caller h uid \<and> holder_is g h uid)
     \<and> (\<exists>cl\<in>set (dcf_clusters (dg_config g)). dc_name cl = c \<and> (\<exists>d paused. target_seen g h cl d \<and> d' = d\<lparr>dep_replicas := Some (wanted_replicas paused)\<rparr>))"

fun infra_ok :: "k8s_lib \<Rightarrow> domain_controller \<Rightarrow> dhist \<Rightarrow> string \<Rightarrow> iobj kreq \<Rightarrow> bool" where
  "infra_ok L r h c (Get kind ns name) \<longleftrightarrow> True"
| "infra_ok L r h c (List kind ns labels) \<longleftrightarrow> True"
| "infra_ok L r h c (Create (INative x)) \<longleftrightarrow> (\<exists>p s. cleared L r h p \<and> s \<in> set (dpl_attachments p) \<and> c = site_name s \<and> x \<in> set (site_objects s)
     \<and> identified (Infra c) infra_answer h (site_uid r s) \<and> absent (Infra c) infra_answer h (un_kind x) (om_name (un_meta x)))"
| "infra_ok L r h c (Update (INative y)) \<longleftrightarrow> (\<exists>p s kind name x. cleared L r h p \<and> c = site_name s \<and> owned_object r h p s kind name x
     \<and> ((\<exists>want\<in>set (site_objects s). \<exists>spec. desired_spec want = Inr spec \<and> y = merge_spec spec x)
        \<or> barrier r h p \<and> y = set_spec ''staticRoutes'' (JArr []) x))"
| "infra_ok L r h c (Update (IDeployment d)) \<longleftrightarrow> rescaled (dm_gate r) h c d"
| "infra_ok L r h c (Delete (INative x) u rv) \<longleftrightarrow> (\<exists>p s kind name. cleared L r h p \<and> c = site_name s \<and> owned_object r h p s kind name x
     \<and> u = Some (om_uid (un_meta x)) \<and> rv = Some (om_resource_version (un_meta x))
     \<and> barrier r h p \<and> withdrawn_all h p \<and> transit_deleted r h p
     \<and> (kind = ''Subnet'' \<or> kind = ''Vpc'' \<and> absent_all h ''Subnet'' (placed_subnets p)))"
| "infra_ok L r h c q \<longleftrightarrow> False"

definition removal_proved :: "k8s_lib \<Rightarrow> domain_controller \<Rightarrow> dhist \<Rightarrow> bool" where
  "removal_proved L r h \<longleftrightarrow> (\<exists>p. cleared L r h p \<and> removed r h p)"

definition status_step :: "k8s_lib \<Rightarrow> domain_controller \<Rightarrow> dhist \<Rightarrow> global_vpc \<Rightarrow> global_vpc \<Rightarrow> bool" where
  "status_step L r h v v' \<longleftrightarrow> gv_spec v' = gv_spec v \<and> gv_meta v' = gv_meta v
     \<and> (gvs_operation (gv_status v') = ''DeleteResume'' \<longrightarrow> gvs_operation (gv_status v) = ''DeleteResume'' \<or> removal_proved L r h)
     \<and> (gvs_phase (gv_status v') = ''Ready'' \<longrightarrow> gvs_phase (gv_status v) = ''Ready'' \<or> (\<exists>p. cleared L r h p \<and> converged r h p))"

fun authority_ok :: "k8s_lib \<Rightarrow> domain_controller \<Rightarrow> dhist \<Rightarrow> dobj kreq \<Rightarrow> bool" where
  "authority_ok L r h (Get kind ns name) \<longleftrightarrow> True"
| "authority_ok L r h (List kind ns labels) \<longleftrightarrow> True"
| "authority_ok L r h (Create (DMap m)) \<longleftrightarrow> lock_absent (dm_gate r) h \<and> (\<exists>uid hash. caller h uid \<and> m = new_lock (dm_gate r) uid hash)"
| "authority_ok L r h (Update (DMap m)) \<longleftrightarrow> (\<exists>m0 uid. lock_seen (dm_gate r) h m0 \<and> caller h uid
     \<and> (lock_holder m0 = [] \<and> (\<exists>hash. m = set_lock uid hash m0) \<or> lock_holder m0 = uid \<and> m = set_lock [] [] m0 \<and> running (dm_gate r) h))"
| "authority_ok L r h (Update (DVpc v')) \<longleftrightarrow> (\<exists>v. vpc_seen h v \<and>
     (v' = v\<lparr>gv_meta := add_finalizer L (gv_meta v) v1_finalizer\<rparr> \<and> om_deletion (gv_meta v) = None
      \<or> v' = v\<lparr>gv_meta := remove_finalizer L (gv_meta v) v1_finalizer\<rparr> \<and> lock_free (dm_gate r) h
        \<and> (removal_proved L r h \<or> (\<exists>w. vpc_seen h w \<and> gvs_operation (gv_status w) = ''DeleteResume''))))"
| "authority_ok L r h (UpdateStatus (DVpc v')) \<longleftrightarrow> (\<exists>v. vpc_seen h v \<and> status_step L r h v v')"
| "authority_ok L r h q \<longleftrightarrow> False"

fun domain_contract :: "k8s_lib \<Rightarrow> domain_controller \<Rightarrow> dhist \<Rightarrow> dreq \<Rightarrow> bool" where
  "domain_contract L r h (Authority q) \<longleftrightarrow> authority_ok L r h q"
| "domain_contract L r h (Infra c q) \<longleftrightarrow> infra_ok L r h c q"
| "domain_contract L r h (ClaimPrefix provider claim) \<longleftrightarrow> provider \<in> set (dm_providers r) \<and> (\<exists>p. cleared L r h p \<and> claim \<in> set (dpl_claims p))"
| "domain_contract L r h (Network q) \<longleftrightarrow> net_ok L r h q"

interpretation dom: infra_client "Infra c" infra_answer "domain_contract L r" for c L r
  by unfold_locales simp_all

section \<open>The gate\<close>

lemma lock_rule:
  assumes "\<And>h' e. later h h' \<Longrightarrow> (is_not_found e \<Longrightarrow> lock_absent g h') \<Longrightarrow> Q h' (Inl e)"
    and "\<And>h' m. later h h' \<Longrightarrow> (lock_labelled g m \<Longrightarrow> lock_seen g h' m) \<Longrightarrow> Q h' (Inr m)"
  shows "always (domain_contract L r) (gate_lock g) Q h"
  unfolding gate_lock_def by (rule wire_get) (auto simp: lock_absent_def lock_seen_def intro!: assms)

lemma holder_rule:
  assumes "\<And>h' e. later h h' \<Longrightarrow> Q h' (Inl e)" and "\<And>h' uid. later h h' \<Longrightarrow> holder_is g h' uid \<Longrightarrow> Q h' (Inr uid)"
  shows "always (domain_contract L r) (gate_holder g) Q h"
  unfolding gate_holder_def always_pbind by (rule lock_rule) (use assms holder_isI in \<open>auto split: if_split\<close>)

lemma authority_do:
  assumes "domain_contract L r h (Authority q)" and "\<And>h' e. later h h' \<Longrightarrow> Q h' (Inl e)" and "\<And>h'. later h h' \<Longrightarrow> done_write h' q \<Longrightarrow> Q h' (Inr ())"
  shows "always (domain_contract L r) (authority (kdo q)) Q h"
proof -
  have "Q (h @ [(Authority q, y)]) (case authority_answer y of Failed e \<Rightarrow> Inl e | _ \<Rightarrow> Inr ())" for y
    using told_snoc [of Authority authority_answer h q y] assms(2,3) [of "h @ [(Authority q, y)]"]
    by (auto simp: done_write_def split: kresp.split) blast+
  with assms(1) show ?thesis by (simp add: kdo_def)
qed

lemma acquire_rule:
  assumes "caller h uid" and "\<And>h' e. later h h' \<Longrightarrow> Q h' (Inl e)" and "\<And>h'. later h h' \<Longrightarrow> Q h' (Inr False)"
    and "\<And>h'. later h h' \<Longrightarrow> lock_held (dm_gate r) h' uid \<Longrightarrow> Q h' (Inr True)"
  shows "always (domain_contract L r) (gate_acquire (dm_gate r) uid hash) Q h"
  unfolding gate_acquire_def always_pbind
proof (rule lock_rule, goal_cases)
  case (1 h' e)
  have "always (domain_contract L r) (authority (kdo (Create (DMap (new_lock (dm_gate r) uid hash)))))
     (\<lambda>h x. case x of Inl _ \<Rightarrow> Q h (Inl (Errorf ''domain lock creation failed'')) | Inr _ \<Rightarrow> Q h (Inr True)) h'" if "is_not_found e"
    by (rule authority_do) (use that 1 assms in \<open>auto intro!: assms(4) intro: kept lock_heldI(2)\<close>)
  then show ?case using 1 assms(2) by (auto split: sum.split elim!: always_mono)
next
  case (2 h' m)
  have "always (domain_contract L r) (authority (kdo (Update (DMap (set_lock uid hash m)))))
     (\<lambda>h x. case x of Inl _ \<Rightarrow> Q h (Inl (Errorf ''domain lock update failed'')) | Inr _ \<Rightarrow> Q h (Inr True)) h'"
    if "lock_labelled (dm_gate r) m" "lock_holder m = []"
    by (rule authority_do) (use that 2 assms in \<open>auto intro!: assms(4) intro: kept lock_heldI(3)\<close>)
  moreover have "Q h' (Inr True)" if "lock_labelled (dm_gate r) m" "lock_holder m = uid"
    using that 2 lock_heldI(1) by (intro assms(4)) auto
  ultimately show ?case using 2 assms(2,3) by (auto split: sum.split elim!: always_mono)
qed

lemma release_rule:
  assumes "caller h uid" and "running (dm_gate r) h" and "\<And>h' e. later h h' \<Longrightarrow> Q h' (Inl e)"
    and "\<And>h'. later h h' \<Longrightarrow> lock_free (dm_gate r) h' \<Longrightarrow> Q h' (Inr ())"
  shows "always (domain_contract L r) (gate_release (dm_gate r) uid) Q h"
  unfolding gate_release_def always_ebind always_or_say
proof (rule lock_rule, goal_cases)
  case (2 h' m)
  have "always (domain_contract L r) (authority (kdo (Update (DMap (set_lock [] [] m)))))
     (\<lambda>h x. Q h (case x of Inl _ \<Rightarrow> Inl (Errorf ''domain release failed'') | Inr a \<Rightarrow> Inr a)) h'"
    if "lock_labelled (dm_gate r) m" "lock_holder m = uid"
  proof (rule authority_do)
    show "domain_contract L r h' (Authority (Update (DMap (set_lock [] [] m))))" using that 2 assms(1,2) by (auto intro: kept)
  next
    fix h2 assume "later h' h2" "done_write h2 (Update (DMap (set_lock [] [] m)))"
    then show "Q h2 (case Inr () of Inl _ \<Rightarrow> Inl (Errorf ''domain release failed'') | Inr a \<Rightarrow> Inr a)"
      using that 2 assms(1) by (auto intro!: assms(4) intro: kept lock_freeI(2) later_trans)
  qed (use 2 assms(3) in auto)
  then show ?case using 2 assms(3) by auto
qed (use assms(3) in auto)

lemma deployment_rule:
  assumes "\<And>h' e. later h h' \<Longrightarrow> Q h' (Inl e)" and "\<And>h' d. later h h' \<Longrightarrow> target_seen g h' c d \<Longrightarrow> Q h' (Inr d)"
  shows "always (domain_contract L r) (gate_deployment g c) Q h"
proof (cases "map_of (dg_stores g) (dc_name c)")
  case (Some s)
  show ?thesis
    unfolding gate_deployment_def Some option.case always_ebind [of _ "infra _ _"]
  proof (rule dom.identity_rule, goal_cases)
    case (2 h1)
    show ?case unfolding sum.case always_ebind always_or_say
      by (rule wire_get) (use 2 Some in \<open>auto simp: target_seen_def split: sum.split intro!: assms intro: kept\<close>)
  qed (use assms(1) in simp)
qed (use assms(1) in \<open>simp add: gate_deployment_def\<close>)

text \<open>What one target was seen to be when its step reports success.\<close>

definition settled :: "bool \<Rightarrow> domain_gate \<Rightarrow> dhist \<Rightarrow> domain_cluster \<Rightarrow> bool" where
  "settled paused g h c \<longleftrightarrow> (if paused then stopped g h c
     else \<exists>d. target_seen g h c d \<and> dep_replicas d = Some 1 \<and> deployment_observed d \<and> dep_ready_replicas d = 1 \<and> dep_updated_replicas d = 1)"

lemma settled_later [kept]: "settled paused g h c \<Longrightarrow> later h h' \<Longrightarrow> settled paused g h' c"
  unfolding settled_def by (auto split: if_splits intro: kept)

lemma scale_rule:
  assumes "rescaled (dm_gate r) h (dc_name c) (d\<lparr>dep_replicas := Some (wanted_replicas paused)\<rparr>)"
    and "\<And>h' e. later h h' \<Longrightarrow> Q h' (Inl e)" and "\<And>h' d'. later h h' \<Longrightarrow> Q h' (Inr (d', False))"
    and "dep_replicas d = Some (wanted_replicas paused) \<Longrightarrow> Q h (Inr (d, all))"
  shows "always (domain_contract L r) (scale c paused all d) Q h"
  unfolding scale_def
  by (auto simp: assms(4) intro!: wire_write assms)

lemma settle_rule:
  assumes target: "target_seen (dm_gate r) h c d"
    and may: "\<And>p. rescaled (dm_gate r) h (dc_name c) (d\<lparr>dep_replicas := Some (wanted_replicas p)\<rparr>)"
    and left: "\<And>h' e. later h h' \<Longrightarrow> Q h' (Inl e)"
    and right: "\<And>h' ok. later h h' \<Longrightarrow> (ok \<Longrightarrow> all \<and> settled paused (dm_gate r) h' c) \<Longrightarrow> Q h' (Inr ok)"
  shows "always (domain_contract L r) (settle paused all (c, d)) Q h"
proof -
  have quiet: "always (domain_contract L r)
     (ebind (or_say ''native IC ReplicaSet query failed'' (infra (dc_name c) (klist i_set ''ReplicaSet'' (Some (om_namespace (dep_meta d'))) []))) (\<lambda>sets.
       ebind (or_say ''native IC Pod query failed'' (infra (dc_name c) (klist i_pod ''Pod'' (Some (om_namespace (dep_meta d'))) []))) (\<lambda>pods.
       go (all' \<and> deployment_observed d' \<and> list_all (\<lambda>s. controlled_by d' s \<longrightarrow> set_quiet s) sets \<and> list_all (pod_quiet d' sets) pods)))) Q h1"
    if on: "later h h1" and seen: "all' \<Longrightarrow> all \<and> d' = d \<and> dep_replicas d = Some 0" and paused for h1 all' d'
    unfolding always_ebind [of _ "or_say ''native IC ReplicaSet query failed'' _"] always_or_say
  proof (rule wire_list [where inject = ISet], goal_cases)
    case (4 h2 sets)
    note sets = 4
    show ?case unfolding sum.case always_ebind always_or_say
    proof (rule wire_list [where inject = IPod], goal_cases)
      case (4 h3 pods)
      have h3: "later h h3" using on sets(1) 4(1) by blast
      have "settled True (dm_gate r) h3 c" if "all'" "deployment_observed d'" "list_all (\<lambda>s. controlled_by d' s \<longrightarrow> set_quiet s) sets" "list_all (pod_quiet d' sets) pods"
      proof -
        have d: "d' = d" "dep_replicas d = Some 0" using that(1) seen by simp_all
        have "target_seen (dm_gate r) h3 c d" using target h3 by (rule target_seen_later)
        moreover have "isaid (dc_name c) h3 (List ''ReplicaSet'' (Some (om_namespace (dep_meta d))) []) (Items (map ISet sets))"
          using told_later [OF sets(2) 4(1)] by (simp add: d)
        ultimately show ?thesis using that 4(2) d unfolding settled_def stopped_def by auto
      qed
      with seen \<open>paused\<close> show ?case unfolding sum.case by (simp, intro right [OF h3]) simp
    qed (use on sets(1) in \<open>auto intro!: left intro: later_trans\<close>)
  qed (use on left in auto)
  show ?thesis
    unfolding settle_def prod.case always_ebind [of _ "scale _ _ _ _"]
  proof (rule scale_rule [OF may], goal_cases)
    case (2 h1 d')
    then show ?case using quiet [of h1 False d'] right [of h1 False] by (simp del: always_ebind)
  next
    case 3
    have "settled False (dm_gate r) h c" if "\<not> paused" "deployment_observed d" "dep_ready_replicas d = 1" "dep_updated_replicas d = 1"
      using that 3 target by (auto simp: settled_def wanted_replicas_def)
    then show ?case using quiet [of h all d] right [of h] 3 by (auto simp: wanted_replicas_def simp del: always_ebind)
  qed (use left in simp)
qed

lemma targets_rule:
  assumes "\<And>h' e. later h h' \<Longrightarrow> Q h' (Inl e)"
    and "\<And>h' ds. later h h' \<Longrightarrow> list_all2 (target_seen g h') cs ds \<Longrightarrow> Q h' (Inr ds)"
  shows "always (domain_contract L r) (efold (\<lambda>ds c. ebind (gate_deployment g c) (\<lambda>d. go (ds @ [d]))) [] cs) Q h"
proof (rule always_efold [where I = "\<lambda>done ds h'. later h h' \<and> list_all2 (target_seen g h') done ds"], goal_cases)
  case (2 "done" c todo ds h1)
  show ?case unfolding always_ebind
  proof (rule deployment_rule, goal_cases)
    case (2 h2 d)
    have "list_all2 (target_seen g h2) done ds"
      using \<open>later h h1 \<and> _\<close> 2(1) by (auto elim!: list_all2_mono intro: kept)
    then show ?case using 2 \<open>later h h1 \<and> _\<close> by (auto intro: list_all2_appendI)
  qed (use 2 assms(1) in auto)
qed (use assms in auto)

lemma set_paused_rule:
  assumes "caller h uid" and "\<And>h' e. later h h' \<Longrightarrow> Q h' (Inl e)" and "\<And>h'. later h h' \<Longrightarrow> Q h' (Inr False)"
    and "\<And>h'. later h h' \<Longrightarrow> \<forall>c\<in>set (dcf_clusters (dg_config (dm_gate r))). settled paused (dm_gate r) h' c \<Longrightarrow> Q h' (Inr True)"
  shows "always (domain_contract L r) (gate_set_paused (dm_gate r) uid paused) Q h"
  unfolding gate_set_paused_def always_ebind [of _ "gate_holder _"]
proof (rule holder_rule, goal_cases)
  case (2 h1 holder)
  let ?cs = "dcf_clusters (dg_config (dm_gate r))"
  have "always (domain_contract L r) (ebind (efold (\<lambda>ds c. ebind (gate_deployment (dm_gate r) c) (\<lambda>d. go (ds @ [d]))) [] ?cs) (\<lambda>ds.
     efold (settle paused) True (zip ?cs ds))) Q h1" if holder: "holder = uid"
    unfolding always_ebind [of _ "efold _ _ _"]
  proof (rule targets_rule, goal_cases)
    case (2 h2 ds)
    have h2: "later h h2" using 2(1) \<open>later h h1\<close> by blast
    have all: "targets_seen (dm_gate r) h2" and len: "length ds = length ?cs"
      using 2(2) by (fastforce simp: targets_seen_def list_all2_conv_all_nth in_set_conv_nth)+
    have may: "rescaled (dm_gate r) h3 (dc_name c) (d\<lparr>dep_replicas := Some (wanted_replicas p)\<rparr>)" "target_seen (dm_gate r) h3 c d"
      if "later h2 h3" "(c, d) \<in> set (zip ?cs ds)" for h3 c d p
    proof -
      have "target_seen (dm_gate r) h2 c d" "c \<in> set ?cs" using that(2) 2(2) by (auto simp: list_all2_iff dest: set_zip_leftD)
      moreover have "caller h3 uid" "holder_is (dm_gate r) h3 uid"
        using that(1) h2 2(1) \<open>holder_is _ h1 holder\<close> holder assms(1) by (blast intro: kept)+
      ultimately show "rescaled (dm_gate r) h3 (dc_name c) (d\<lparr>dep_replicas := Some (wanted_replicas p)\<rparr>)" "target_seen (dm_gate r) h3 c d"
        using targets_seen_later [OF all that(1)] target_seen_later [OF _ that(1)] unfolding rescaled_def by blast+
    qed
    show ?case unfolding sum.case
    proof (rule always_efold [where I = "\<lambda>done ok h'. later h2 h' \<and> (ok \<longrightarrow> (\<forall>c\<in>set (map fst done). settled paused (dm_gate r) h' c))"], goal_cases)
      case (2 "done" cd todo ok h3)
      obtain c d where cd: "cd = (c, d)" by fastforce
      have h3: "later h2 h3" "(c, d) \<in> set (zip ?cs ds)" using 2 by (simp_all add: cd)
      show ?case unfolding cd
      proof (rule settle_rule [OF may(2,1)], goal_cases)
        case (6 h4 ok')
        then show ?case using 2 settled_later by (auto simp: cd)
      qed (use h3 h2 in \<open>auto intro!: assms(2) intro: later_trans\<close>)
    next
      case (3 ok h3)
      then show ?case using h2 len assms(3,4) [of h3] by (cases ok) auto
    qed simp
  qed (use \<open>later h h1\<close> assms(2) in auto)
  then show ?case using 2 assms(2) by (auto simp del: always_ebind)
qed (use assms(2) in simp)

section \<open>Parts of a pass\<close>

text \<open>A part that may return from the pass: what is known where it goes on.\<close>

abbreviation passes :: "k8s_lib \<Rightarrow> domain_controller \<Rightarrow> 'a dcprog \<Rightarrow> (dhist \<Rightarrow> 'a \<Rightarrow> bool) \<Rightarrow> dhist \<Rightarrow> bool" where
  "passes L r \<equiv> passes_on (domain_contract L r)"

lemma passes_dearly: "always (domain_contract L r) p (\<lambda>_ _. True) h \<Longrightarrow> passes L r (dearly p) R h"
  by (simp add: passes_def dearly_def)

text \<open>The object at hand: as the server returned it, but for status fields that are not yet written.\<close>

definition current :: "dhist \<Rightarrow> global_vpc \<Rightarrow> bool" where
  "current h v \<longleftrightarrow> (\<exists>w. vpc_seen h w \<and> gv_spec v = gv_spec w \<and> gv_meta v = gv_meta w
     \<and> gvs_operation (gv_status v) = gvs_operation (gv_status w) \<and> gvs_phase (gv_status v) = gvs_phase (gv_status w))"

lemma current_later [kept]: "current h v \<Longrightarrow> later h h' \<Longrightarrow> current h' v"
  unfolding current_def by (blast intro: kept)

lemma seen_current: "vpc_seen h v \<Longrightarrow> current h v"
  unfolding current_def by blast

lemma current_transit: "current h v \<Longrightarrow> current h (set_transit uid v)"
  by (auto simp: current_def set_transit_def)

lemma save_rule:
  assumes "vpc_seen h w" and "status_step L r h w v" and "\<And>h' e. later h h' \<Longrightarrow> Q h' (Inl e)" and "\<And>h' v'. later h h' \<Longrightarrow> vpc_seen h' v' \<Longrightarrow> Q h' (Inr v')"
  shows "always (domain_contract L r) (save_vpc v) Q h"
  unfolding save_vpc_def by (rule wire_write) (use assms vpc_seenI in auto)

lemma saved_rule:
  assumes "vpc_seen h w" and "status_step L r h w v" and "\<And>h' v'. later h h' \<Longrightarrow> vpc_seen h' v' \<Longrightarrow> R h' v'"
  shows "passes L r (saved v) R h"
  unfolding saved_def passes_pbind by (rule save_rule [OF assms(1,2)]) (use assms(3) in \<open>simp_all add: passes_def\<close>)

lemma state_rule:
  assumes "current h v" and "phase = ''Ready'' \<Longrightarrow> \<exists>p. cleared L r h p \<and> converged r h p"
  shows "always (domain_contract L r) (domain_state L r v phase reason message ready) (\<lambda>_ _. True) h"
proof -
  obtain w where "vpc_seen h w" "status_step L r h w (vpc_with_state L v phase reason message ready)"
    using assms by (auto simp: current_def status_step_def vpc_with_state_def)
  then show ?thesis unfolding domain_state_def Let_def by (auto intro!: save_rule)
qed

lemma failure_rule: "current h v \<Longrightarrow> always (domain_contract L r) (domain_failure L r v e) (\<lambda>_ _. True) h"
  unfolding domain_failure_def by (rule state_rule) auto

lemma or_failure_rule:
  assumes "current h v" and "always (domain_contract L r) p (\<lambda>h' x. case x of Inl e \<Rightarrow> later h h' | Inr a \<Rightarrow> R h' a) h"
  shows "passes L r (or_failure L r v p) R h"
  unfolding or_failure_def passes_pbind
  by (rule always_mono [OF assms(2)]) (use assms(1) in \<open>auto split: sum.splits intro!: passes_dearly failure_rule intro: kept\<close>)

lemma or_wait_rule:
  assumes "current h v" and "phase \<noteq> ''Ready''"
    and "always (domain_contract L r) p (\<lambda>h' x. later h h' \<and> (x = Inr True \<longrightarrow> R h' ())) h"
  shows "passes L r (or_wait L r v phase reason message p) R h"
  unfolding or_wait_def passes_ebind
proof (rule or_failure_rule [OF assms(1)], rule always_mono [OF assms(3)])
  fix h' x
  assume "later h h' \<and> (x = Inr True \<longrightarrow> R h' ())"
  then show "case x of Inl e \<Rightarrow> later h h'
      | Inr a \<Rightarrow> passes L r (if a then go () else dearly (domain_state L r v phase reason message False)) R h'"
    using assms(1,2) by (auto split: sum.split intro!: passes_dearly state_rule intro: kept)
qed simp

lemma accept_rule:
  assumes "vpc_seen h v" and "\<And>h' v'. later h h' \<Longrightarrow> vpc_seen h' v' \<Longrightarrow> R h' v'"
  shows "passes L r (accept_plan v p) R h"
  unfolding accept_plan_def
  by (auto intro!: saved_rule [OF assms(1)] assms simp: status_step_def)

lemma resume_rule:
  assumes seen: "vpc_seen h v" and proof_of: "deleting \<Longrightarrow> removal_proved L r h \<or> (\<exists>w. vpc_seen h w \<and> gvs_operation (gv_status w) = ''DeleteResume'')"
  shows "passes L r (resume L r v deleting) R h"
proof -
  have finish: "passes L r (if deleting
      then pbind (authority (kdo (Update (DVpc (v\<lparr>gv_meta := remove_finalizer L (gv_meta v) v1_finalizer\<rparr>))))) (\<lambda>x.
        leave (case x of Inl e \<Rightarrow> failed e | Inr _ \<Rightarrow> finished))
      else ebind (saved (set_operation [] v)) (\<lambda>v'.
        dearly (domain_state L r v' ''Pending'' ''InterconnectPending'' ''Native IC resumed; waiting for topology convergence'' False))) R h'"
    if on: "later h h'" and free: "lock_free (dm_gate r) h'" for h'
  proof (cases deleting)
    case True
    have "removal_proved L r h' \<or> (\<exists>w. vpc_seen h' w \<and> gvs_operation (gv_status w) = ''DeleteResume'')"
      using proof_of [OF True] on unfolding removal_proved_def removed_def by (blast intro: kept)
    moreover have "vpc_seen h' v" using seen on by (rule vpc_seen_later)
    ultimately show ?thesis using True free unfolding if_P [OF True] passes_pbind by (intro authority_do) auto
  next
    case False
    have "vpc_seen h' v" using seen on by (rule vpc_seen_later)
    then show ?thesis unfolding if_not_P [OF False] passes_ebind
      by (rule saved_rule) (auto simp: status_step_def set_operation_def intro!: passes_dearly state_rule seen_current)
  qed
  show ?thesis
    unfolding resume_def passes_ebind [of _ "or_failure _ _ _ (gate_holder _)"]
  proof (rule or_failure_rule [OF seen_current [OF seen]], rule holder_rule, goal_cases)
    case (2 h1 holder)
    have c: "caller h1 (om_uid (gv_meta v))" "current h1 v" using seen 2(1) by (auto simp: caller_def intro: kept seen_current)
    have work: "passes L r (ebind (or_wait L r v ''Pending'' ''ResumingIC'' ''Waiting for dedicated native IC Deployments to resume''
           (gate_set_paused (dm_gate r) (om_uid (gv_meta v)) False)) (\<lambda>_.
         or_failure L r v (gate_release (dm_gate r) (om_uid (gv_meta v))))) (\<lambda>h' _. later h h' \<and> lock_free (dm_gate r) h') h1"
      unfolding passes_ebind
    proof (rule or_wait_rule [OF c(2)], simp, rule set_paused_rule [OF c(1)], goal_cases)
      case (3 h2)
      have "running (dm_gate r) h2" using 3(2) by (simp add: settled_def running_def)
      moreover have "later h h2" using 2(1) 3(1) by (rule later_trans)
      ultimately show ?case using 3(1) c by (auto intro!: or_failure_rule release_rule intro: kept)
    qed simp_all
    have "lock_free (dm_gate r) h1" if "holder = []" using 2 that by (simp add: lock_freeI)
    then show ?case unfolding sum.case passes_ebind [of _ "if _ then _ else _"]
      by (cases "holder = []") (use 2(1) finish passes_mono [OF work] in auto)
  qed simp
qed

section \<open>Before the first change\<close>

text \<open>The rendered objects carry the UID of their owner.\<close>

lemma rendered_site_owner:
  assumes "s \<in> set (dpl_attachments p)" and "domain_build L (Some v) cfg = Inr p" and "want \<in> set (site_objects s)"
  shows "mget (om_labels (un_meta want)) v1_owner_label = dpl_uid p"
proof -
  have "v1_owner_label \<noteq> v1_cluster_label" by (simp add: v1_owner_label_def v1_cluster_label_def)
  moreover have "mget ((v1_owner_label, u) # ls) v1_owner_label = u" for u ls by (simp add: mget_def)
  ultimately show ?thesis using assms
    by (auto elim!: domain_buildE simp: render_domain_def render_site_def Let_def site_objects_def native_subnet_def rendered_native)
qed

lemma planned_owner: "planned L r h p \<Longrightarrow> s \<in> set (dpl_attachments p) \<Longrightarrow> want \<in> set (site_objects s) \<Longrightarrow> mget (om_labels (un_meta want)) v1_owner_label = dpl_uid p"
  unfolding planned_def using rendered_site_owner by blast

lemma cleared_planned: "cleared L r h p \<Longrightarrow> planned L r h p"
  by (simp add: cleared_def)

lemma preflight_object_rule:
  assumes "current h v" and "\<And>h'. later h h' \<Longrightarrow> object_verified h' v p s want \<Longrightarrow> R h' ()"
  shows "passes L r (preflight_object L r v p s u want) R h"
  unfolding preflight_object_def passes_pbind store_get_def
proof (rule wire_get, goal_cases)
  case (2 h' e)
  then have "R h' ()" if "is_not_found e" using that by (intro assms(2)) (auto simp: object_verified_def absent_def)
  then show ?case using 2 assms(1) by (auto intro!: passes_dearly failure_rule intro: kept)
next
  case (3 h' y x)
  let ?checked = "owned_native x (dpl_uid p) (dc_uid (ds_cluster s)) (domain_recorded v (site_name s) (un_kind want) (om_name (un_meta want)))"
  have "R h' ()" if "?checked = Inr ()" using 3 that by (intro assms(2)) (auto simp: object_verified_def present_def)
  then show ?case using 3 assms(1) by (auto split: sum.split intro!: passes_dearly failure_rule intro: kept)
qed simp

lemma preflight_site_rule:
  assumes "current h v" and "\<And>h'. later h h' \<Longrightarrow> site_verified r h' v p s \<Longrightarrow> R h' ()"
  shows "passes L r (preflight_site L r v p u s) R h"
proof (cases "map_of (dg_stores (dm_gate r)) (site_name s)")
  case None
  then show ?thesis using assms(1) by (auto simp: preflight_site_def intro!: passes_dearly failure_rule)
next
  case (Some c)
  show ?thesis unfolding preflight_site_def Some option.case passes_ebind
  proof (rule or_failure_rule [OF assms(1)], rule dom.identity_rule, goal_cases)
    case (2 h1)
    then have id: "identified (Infra (site_name s)) infra_answer h1 (site_uid r s)" using Some by (simp add: site_uid_def)
    show ?case unfolding sum.case
    proof (rule passes_efold [where I = "\<lambda>done u h'. later h1 h' \<and> (\<forall>want\<in>set done. object_verified h' v p s want)"], goal_cases)
      case (2 "done" want todo u h2)
      then show ?case using \<open>later h h1\<close> assms(1)
        by (intro preflight_object_rule) (auto intro: kept later_trans)
    next
      case (3 u h2)
      then have "later h h2" "site_verified r h2 v p s" using id \<open>later h h1\<close> by (auto simp: site_verified_def intro: kept)
      then show ?case using assms(2) by simp
    qed simp
  qed simp
qed

lemma preflight_rule:
  assumes seen: "vpc_seen h v" and plan: "planned L r h p" and right: "\<And>h' holder. later h h' \<Longrightarrow> cleared L r h' p \<Longrightarrow> R h' holder"
  shows "passes L r (preflight L r v p) R h"
  unfolding preflight_def passes_ebind [of _ "or_failure _ _ _ (gate_holder _)"]
proof (rule or_failure_rule [OF seen_current [OF seen]], rule holder_rule, goal_cases)
  case (2 h1 holder)
  have cur: "current h2 v" if "later h1 h2" for h2 using that 2(1) seen by (blast intro: kept seen_current)
  have rest: "passes L r (ebind (efold (preflight_site L r v p) () (dpl_attachments p)) (\<lambda>_. go holder)) R h2"
    if on: "later h1 h2" and free: "holder = [] \<or> holder = dpl_uid p" for h2
    unfolding passes_ebind
  proof (rule passes_efold [where I = "\<lambda>done u h'. later h2 h' \<and> (\<forall>s\<in>set done. site_verified r h' v p s)"], goal_cases)
    case (2 "done" s todo u h3)
    then show ?case using cur on by (intro preflight_site_rule) (auto intro: kept later_trans)
  next
    case (3 u h3)
    then have "later h h3" "later h1 h3" using on 2(1) by blast+
    moreover have "holder_is (dm_gate r) h3 holder" using \<open>holder_is _ h1 holder\<close> \<open>later h1 h3\<close> by (rule holder_is_later)
    moreover have "planned L r h3 p" "vpc_seen h3 v" using plan seen \<open>later h h3\<close> by (blast intro: kept)+
    ultimately show ?case using 3 free by (auto simp: cleared_def intro!: right)
  qed simp
  show ?case
  proof (cases "holder \<noteq> [] \<and> holder \<noteq> dpl_uid p")
    case True
    then show ?thesis using cur [of h1] by (auto intro!: passes_dearly state_rule)
  next
    case False
    show ?thesis unfolding sum.case if_not_P [OF False] passes_ebind [of _ "or_failure _ _ _ _"]
      by (rule or_failure_rule [OF cur], simp, rule net_id_rule) (use False rest in auto)
  qed
qed simp

section \<open>Convergence\<close>

lemma claim_rule:
  assumes seen: "vpc_seen h v" and clear: "cleared L r h p" and claim: "claim \<in> set (dpl_claims p)"
    and right: "\<And>h' v'. later h h' \<Longrightarrow> vpc_seen h' v' \<Longrightarrow> R h' v'"
  shows "passes L r (ensure_claim L r v claim) R h"
proof -
  have fails: "passes L r (dearly (domain_failure L r v e)) R' h'" if "later h h'" for e R' h'
    using seen that by (auto intro!: passes_dearly failure_rule seen_current intro: kept)
  have put: "passes L r (saved (v\<lparr>gv_status := (gv_status v)\<lparr>gvs_allocations := gvs_allocations (gv_status v) @ [a]\<rparr>\<rparr>)) R h'"
    if "later h h'" for a h'
    by (rule saved_rule [of _ v]) (use seen that right in \<open>auto simp: status_step_def intro: kept later_trans\<close>)
  show ?thesis
  proof (cases "find (\<lambda>a. vpc_claim_uid (al_claim a) = vpc_claim_uid claim) (gvs_allocations (gv_status v))")
    case (Some a)
    then show ?thesis using right seen by (auto simp: ensure_claim_def intro!: fails)
  next
    case None
    let ?provider = "ipam_provider_ref (gv_ipam (gv_spec v))"
    have "passes L r (ebind (or_failure L r v (Call (ClaimPrefix ?provider claim) (\<lambda>y. Ret (case y of Claimed x \<Rightarrow> x | _ \<Rightarrow> Inl decode_error)))) (\<lambda>a.
          if \<not> receipt_ok claim a then dearly (domain_failure L r v (Errorf ''IPAM receipt does not match the accepted claim''))
          else saved (v\<lparr>gv_status := (gv_status v)\<lparr>gvs_allocations := gvs_allocations (gv_status v) @ [a]\<rparr>\<rparr>))) R h"
      if "?provider \<in> set (dm_providers r)"
      unfolding passes_ebind
      by (rule or_failure_rule [OF seen_current [OF seen]]) (use that clear claim in \<open>auto split: sum.split dresp.split intro!: fails put\<close>)
    then show ?thesis using None by (auto simp: ensure_claim_def Let_def intro!: fails)
  qed
qed

lemma object_rule:
  assumes seen: "vpc_seen h v" and clear: "cleared L r h p" and site: "s \<in> set (dpl_attachments p)" "want \<in> set (site_objects s)"
    and right: "\<And>h' v'. later h h' \<Longrightarrow> vpc_seen h' v' \<Longrightarrow> R h' v'"
  shows "passes L r (ensure_object L r v (s, want)) R h"
  unfolding ensure_object_def prod.case Let_def passes_pbind
proof (rule dom.ensure_rule, goal_cases)
  case (1 h')
  then show ?case using clear site by (auto intro: kept)
next
  case (2 h' x spec)
  have "mget (om_labels (un_meta want)) v1_owner_label = dpl_uid p" using planned_owner [OF cleared_planned [OF clear] site] .
  with 2 have "owned_object r h' p s (un_kind want) (om_name (un_meta want)) x"
    using site(1) seen by (auto simp: owned_object_def intro: kept)
  then show ?case using cleared_later [OF clear 2(1)] site(2) 2(6) unfolding domain_contract.simps infra_ok.simps by blast
next
  case (3 h' e)
  have cur: "vpc_seen h' v" using seen 3(1) by (rule vpc_seen_later)
  have "passes L r (saved (update_record (site_name s) (un_kind want) (om_name (un_meta want)) [] v)) (\<lambda>h v'. passes L r
      (dearly (domain_state L r v' ''Pending'' ''ResourceRecreationPending'' ''Recorded resource absence persisted; recreating on the next pass'' False)) R h) h'"
    by (rule saved_rule [OF cur]) (auto simp: status_step_def update_record_def intro!: passes_dearly state_rule seen_current)
  then show ?case using cur by (auto simp: passes_ebind intro!: passes_dearly failure_rule seen_current)
next
  case (4 h' uid)
  have cur: "vpc_seen h' v" using seen 4 by (rule vpc_seen_later)
  have "passes L r (saved (update_record (site_name s) (un_kind want) (om_name (un_meta want)) uid v)) R h'"
    by (rule saved_rule [OF cur]) (use 4 right in \<open>auto simp: status_step_def update_record_def\<close>)
  then show ?case using cur 4 right by simp
qed

lemma subnet_rule:
  assumes "vpc_seen h v" and "\<And>h'. later h h' \<Longrightarrow> subnet_up p h' (s, name) \<Longrightarrow> R h' ()"
  shows "passes L r (check_subnet L r v p u (s, name)) R h"
  unfolding check_subnet_def prod.case
  by (rule or_wait_rule [OF seen_current [OF assms(1)]], simp, rule dom.ready_rule)
    (use assms(2) in \<open>auto simp: subnet_up_def owned_native_def split: if_splits\<close>)

lemma transit_rule:
  assumes "cleared L r h p" and "gvs_transit_switch_uid (gv_status v) \<noteq> [] \<or> topology_open r h p"
    and "\<And>h' e. later h h' \<Longrightarrow> Q h' (Inl e)" and "\<And>h' i. later h h' \<Longrightarrow> transit_seen r h' p \<Longrightarrow> Q h' (Inr i)"
  shows "always (domain_contract L r) (transit_call r v p) Q h"
  unfolding transit_call_def
proof (rule net_id_rule, goal_cases)
  case (3 h' i)
  then have "transit_seen r h' p" unfolding transit_seen_def by blast
  with 3 show ?case by (intro assms(4))
qed (use assms in \<open>auto simp: on_transit_def\<close>)

lemma needs_bootstrap_rule:
  assumes "vpc_seen h v" and "cleared L r h p" and "\<And>h'. later h h' \<Longrightarrow> R h' True" and "\<And>h'. later h h' \<Longrightarrow> transit_seen r h' p \<Longrightarrow> R h' False"
  shows "passes L r (needs_bootstrap L r v p holder) R h"
proof (cases "gvs_transit_switch_uid (gv_status v) = [] \<or> holder = dpl_uid p")
  case False
  then show ?thesis
    unfolding needs_bootstrap_def if_not_P [OF False] passes_pbind
    by (intro transit_rule [OF assms(2)]) (use assms in \<open>auto intro!: passes_dearly failure_rule seen_current intro: kept\<close>)
qed (use assms(3) in \<open>simp add: needs_bootstrap_def\<close>)

text \<open>A loop over the attachments whose steps keep a fact that was seen.\<close>

lemma sites_rule:
  assumes step: "\<And>h' s. later h h' \<Longrightarrow> s \<in> set xs \<Longrightarrow> passes L r (f () s) (\<lambda>h'' _. later h' h'' \<and> K h'' s) h'"
    and keep: "\<And>h1 h2 s. K h1 s \<Longrightarrow> later h1 h2 \<Longrightarrow> K h2 s"
    and right: "\<And>h'. later h h' \<Longrightarrow> \<forall>s\<in>set xs. K h' s \<Longrightarrow> R h' ()"
  shows "passes L r (efold f () xs) R h"
proof (rule passes_efold [where I = "\<lambda>done u h'. later h h' \<and> (\<forall>s\<in>set done. K h' s)"], goal_cases)
  case (2 "done" s todo u h1)
  then have "passes L r (f u s) (\<lambda>h'' _. later h1 h'' \<and> K h'' s) h1" using step [of h1 s] by (cases u) auto
  then show ?case by (rule passes_mono) (use 2 keep in auto)
qed (use right in auto)

lemma bootstrap_rule:
  assumes seen: "vpc_seen h v" and clear: "cleared L r h p"
  shows "passes L r (bootstrap L r v p) R h"
proof -
  have uid: "caller h (dpl_uid p)" using clear by (intro planned_caller cleared_planned)
  have open_rest: "passes L r (ebind (efold (\<lambda>_ s. or_failure L r v (network (net_done (MarkSwitch (ds_cluster s) (dpl_transit_switch p))))) () (dpl_attachments p)) (\<lambda>_.
     pbind (transit_call r v p) (\<lambda>x. case x of
       Inl e \<Rightarrow>
         if e = transit_missing
         then ebind (saved (set_transit [] v)) (\<lambda>v'. dearly (domain_state L r v' ''Pending'' ''TransitRecreationPending''
           ''Transit absence persisted; recreating while native IC remains paused'' False))
         else dearly (domain_failure L r v e)
     | Inr uid \<Rightarrow>
         let v1 = set_transit uid v in
         ebind (efold (\<lambda>_ s. or_failure L r v1 (network (net_done (SetGateways (ds_cluster s) (router_port p s))))) () (dpl_attachments p)) (\<lambda>_.
         ebind (saved (set_operation ''Resume'' v1)) (\<lambda>v2. resume L r v2 False))))) R h1"
    if on: "later h h1" and open_: "topology_open r h1 p" for h1
    unfolding passes_ebind [of _ "efold _ _ _"]
  proof (rule sites_rule [where K = "\<lambda>_ _. True"], goal_cases)
    case (1 h2 s)
    have "cleared L r h2 p" "topology_open r h2 p" "current h2 v" using 1 on open_ clear seen by (blast intro: kept seen_current)+
    then show ?case using 1(2) by (intro or_failure_rule net_done_rule) auto
  next
    case (3 h2)
    have at2: "cleared L r h2 p" "topology_open r h2 p" "vpc_seen h2 v" "later h h2" using 3 on open_ clear seen by (blast intro: kept)+
    show ?case unfolding passes_pbind
    proof (rule transit_rule [OF at2(1)], goal_cases)
      case (2 h3 e)
      have v3: "vpc_seen h3 v" using at2(3) 2 by (rule vpc_seen_later)
      have "passes L r (saved (set_transit [] v)) (\<lambda>h v'. passes L r (dearly (domain_state L r v' ''Pending'' ''TransitRecreationPending''
           ''Transit absence persisted; recreating while native IC remains paused'' False)) R h) h3"
        by (rule saved_rule [OF v3]) (auto simp: status_step_def set_transit_def intro!: passes_dearly state_rule seen_current)
      then show ?case using v3 by (auto simp: passes_ebind intro!: passes_dearly failure_rule seen_current)
    next
      case (3 h3 i)
      have v3: "vpc_seen h3 v" "cleared L r h3 p" using at2 3(1) by (blast intro: kept)+
      show ?case unfolding sum.case Let_def passes_ebind
      proof (rule sites_rule [where K = "\<lambda>_ _. True"], goal_cases)
        case (1 h4 s)
        have "cleared L r h4 p" "transit_seen r h4 p" "current h4 (set_transit i v)"
          using 1 v3 \<open>transit_seen r h3 p\<close> by (blast intro: kept seen_current current_transit)+
        then show ?case using 1(2) by (intro or_failure_rule net_done_rule) auto
      next
        case (3 h4)
        have "vpc_seen h4 v" using v3(1) 3(1) by (rule vpc_seen_later)
        then show ?case by (rule saved_rule) (auto simp: status_step_def set_operation_def set_transit_def intro!: resume_rule)
      qed simp
    qed (use at2 in auto)
  qed simp
  show ?thesis
    unfolding bootstrap_def passes_ebind [of _ "or_wait _ _ _ _ _ _ _"]
  proof (rule or_wait_rule [OF seen_current [OF seen]], simp, rule acquire_rule [OF uid], goal_cases)
    case (3 h1)
    have at1: "caller h1 (dpl_uid p)" "current h1 v" using uid seen 3(1) by (blast intro: kept seen_current)+
    show ?case
    proof (intro conjI impI, rule 3(1), rule or_wait_rule [OF at1(2)], simp, rule set_paused_rule [OF at1(1)], goal_cases)
      case (3 h2)
      have "topology_open r h2 p"
        using 3 \<open>lock_held _ h1 _\<close> by (auto simp: topology_open_def quiesced_def settled_def intro: kept)
      moreover have "later h h2" using \<open>later h h1\<close> 3(2) by (rule later_trans)
      ultimately show ?case using open_rest 3(2) by simp
    qed simp_all
  qed simp_all
qed

lemma converge_site_rule:
  assumes at_h: "vpc_seen h v" "cleared L r h p" "transit_seen r h p" and site: "s \<in> set (dpl_attachments p)"
    and right: "\<And>h'. later h h' \<Longrightarrow> site_connected p h' s \<Longrightarrow> R h' ()"
  shows "passes L r (converge_site L r v p u s) R h"
proof -
  have routes: "passes L r (or_wait L r v ''Pending'' ''RoutesPending'' ''Waiting for Kube-OVN static route convergence''
       (network (net_flag (RoutesReady (ds_cluster s) (ds_vpc_name s) (site_routes p s))))) R h1"
    if "later h h1" "nsaid h1 (Connected (ds_cluster s) (dpl_transit_switch p) (router_port p s) (map (router_port p) (other_sites p s))) (NetFlag (Inr True))" for h1
  proof (rule or_wait_rule, goal_cases)
    case 1
    then show ?case using at_h(1) that(1) by (blast intro: kept seen_current)
  next
    case 3
    show ?case
    proof (rule net_flag_rule, goal_cases)
      case (3 h2 b)
      have "b \<Longrightarrow> site_connected p h2 s" using 3 that(2) by (auto simp: site_connected_def intro: kept)
      then show ?case using 3 right that(1) by (auto intro: later_trans)
    qed simp_all
  qed simp
  have connected: "passes L r (ebind (or_wait L r v ''Pending'' ''InterconnectPending'' ''Waiting for native IC tunnel keys and remote ports''
       (network (net_flag (Connected (ds_cluster s) (dpl_transit_switch p) (router_port p s) (map (router_port p) (other_sites p s)))))) (\<lambda>_.
     or_wait L r v ''Pending'' ''RoutesPending'' ''Waiting for Kube-OVN static route convergence''
       (network (net_flag (RoutesReady (ds_cluster s) (ds_vpc_name s) (site_routes p s)))))) R h1"
    if "later h h1" for h1
    unfolding passes_ebind
  proof (rule or_wait_rule, goal_cases)
    case 1
    then show ?case using at_h(1) that by (blast intro: kept seen_current)
  next
    case 3
    show ?case by (rule net_flag_rule) (use that in \<open>auto intro!: routes intro: later_trans\<close>)
  qed simp
  have gateways: "passes L r (ebind (or_failure L r v (network (net_done (SetGateways (ds_cluster s) (router_port p s))))) (\<lambda>_.
     ebind (or_wait L r v ''Pending'' ''InterconnectPending'' ''Waiting for native IC tunnel keys and remote ports''
       (network (net_flag (Connected (ds_cluster s) (dpl_transit_switch p) (router_port p s) (map (router_port p) (other_sites p s)))))) (\<lambda>_.
     or_wait L r v ''Pending'' ''RoutesPending'' ''Waiting for Kube-OVN static route convergence''
       (network (net_flag (RoutesReady (ds_cluster s) (ds_vpc_name s) (site_routes p s))))))) R h1"
    if on: "later h h1" for h1
    unfolding passes_ebind [of _ "or_failure _ _ _ _"]
  proof (rule or_failure_rule, goal_cases)
    case 1
    then show ?case using at_h(1) on by (blast intro: kept seen_current)
  next
    case 2
    have "cleared L r h1 p" "transit_seen r h1 p" using at_h on by (blast intro: kept)+
    then show ?case by (intro net_done_rule) (use on site in \<open>auto intro!: connected intro: later_trans\<close>)
  qed
  show ?thesis
    unfolding converge_site_def passes_ebind [of _ "or_failure _ _ _ (network (net_done (MarkSwitch _ _)))"]
    by (rule or_failure_rule [OF seen_current [OF at_h(1)]], rule net_done_rule) (use at_h site gateways in auto)
qed

lemma converge_rule:
  assumes seen: "vpc_seen h v" and clear: "cleared L r h p"
  shows "passes L r (converge L r v p holder) R h"
proof -
  have finish: "passes L r (ebind (efold (check_subnet L r v2 p) () (placed_subnets p)) (\<lambda>_.
     ebind (needs_bootstrap L r v2 p holder) (\<lambda>boot.
     if boot then bootstrap L r v2 p
     else ebind (efold (converge_site L r v2 p) () (dpl_attachments p)) (\<lambda>_.
       dearly (domain_state L r v2 ''Ready'' ''ConfigurationConverged''
         ''Subnets report Ready; transit ports and static routes converged; dataplane probes are separate'' True))))) R h1"
    if at1: "vpc_seen h1 v2" "cleared L r h1 p" for v2 h1
    unfolding passes_ebind [of _ "efold (check_subnet _ _ _ _) _ _"]
  proof (rule sites_rule [where K = "subnet_up p"], goal_cases)
    case (1 h2 sn)
    have "vpc_seen h2 v2" using at1(1) 1(1) by (rule vpc_seen_later)
    then show ?case using 1 by (cases sn) (auto intro!: subnet_rule)
  next
    case (3 h2)
    note up = 3(2)
    have at2: "vpc_seen h2 v2" "cleared L r h2 p" using at1 3(1) by (blast intro: kept)+
    show ?case unfolding passes_ebind [of _ "needs_bootstrap _ _ _ _ _"]
    proof (rule needs_bootstrap_rule [OF at2], goal_cases)
      case (1 h3)
      have "vpc_seen h3 v2" "cleared L r h3 p" using at2 1 by (blast intro: kept)+
      then show ?case by (simp add: bootstrap_rule)
    next
      case (2 h3)
      have at3: "vpc_seen h3 v2" "cleared L r h3 p" using at2 2(1) by (blast intro: kept)+
      have up3: "\<forall>sn\<in>set (placed_subnets p). subnet_up p h3 sn" using up 2(1) by (blast intro: kept)
      show ?case unfolding if_False passes_ebind
      proof (rule sites_rule [where K = "site_connected p"], goal_cases)
        case (1 h4 s)
        have "vpc_seen h4 v2" "cleared L r h4 p" "transit_seen r h4 p" using at3 2(2) 1(1) by (blast intro: kept)+
        then show ?case using 1 by (intro converge_site_rule) auto
      next
        case (3 h4)
        have "vpc_seen h4 v2" "cleared L r h4 p" "converged r h4 p"
          using at3 2(2) up3 3 by (auto simp: converged_def intro: kept)
        then show ?case by (auto intro!: passes_dearly state_rule seen_current)
      qed (rule site_connected_later)
    qed
  qed (rule subnet_up_later)
  show ?thesis
    unfolding converge_def passes_ebind [of _ "efold _ () _"]
  proof (rule sites_rule [where K = "\<lambda>_ _. True"], goal_cases)
    case (1 h1 s)
    have "vpc_seen h1 v" using seen 1(1) by (rule vpc_seen_later)
    then show ?case by (auto intro!: or_failure_rule net_done_rule seen_current)
  next
    case (3 h1)
    have at1: "vpc_seen h1 v" "cleared L r h1 p" using seen clear 3(1) by (blast intro: kept)+
    show ?case unfolding passes_ebind [of _ "efold (ensure_claim _ _) _ _"]
    proof (rule passes_efold [where I = "\<lambda>done v' h'. later h1 h' \<and> vpc_seen h' v'"], goal_cases)
      case (2 "done" claim todo v' h2)
      have "cleared L r h2 p" using at1(2) 2 by (blast intro: kept)
      then show ?case using 2 by (auto intro!: claim_rule)
    next
      case (3 v1 h2)
      have at2: "vpc_seen h2 v1" "cleared L r h2 p" using at1(2) 3 by (blast intro: kept)+
      show ?case unfolding passes_ebind [of _ "efold (ensure_object _ _) _ _"]
      proof (rule passes_efold [where I = "\<lambda>done v' h'. later h2 h' \<and> vpc_seen h' v'"], goal_cases)
        case (2 "done" sw todo v' h3)
        obtain s want where sw: "sw = (s, want)" by fastforce
        have "(s, want) \<in> set (placed_objects p)" using 2(1) by (simp add: sw)
        then have "s \<in> set (dpl_attachments p)" "want \<in> set (site_objects s)" by (auto simp: placed_objects_def)
        moreover have "cleared L r h3 p" using at2(2) 2 by (blast intro: kept)
        ultimately show ?case unfolding sw using 2 by (auto intro!: object_rule)
      next
        case (3 v2 h3)
        then show ?case using at2(2) by (intro finish) (blast intro: kept)+
      qed (use at2 in simp)
    qed (use at1 in simp)
  qed simp
qed

section \<open>Removal\<close>

lemma gone_rule:
  assumes cur: "current h v" and found: "\<And>h' R'. later h h' \<Longrightarrow> passes L r found R' h'" and right: "\<And>t. drained t p \<Longrightarrow> R (h @ t) True"
  shows "passes L r (consumers_gone p found (endpoints_gone L r v)) R h"
  unfolding consumers_gone_def
proof (rule passes_efold [where I = "\<lambda>done ok h'. ok \<and> (\<exists>t. h' = h @ t \<and> (\<forall>(s, name)\<in>set done. nsaid t (EndpointsEmpty (ds_cluster s) name) (NetFlag (Inr True))))"], goal_cases)
  case (2 "done" sn todo ok h1)
  obtain s name where sn: "sn = (s, name)" by fastforce
  obtain t where t: "h1 = h @ t" "\<forall>(s, name)\<in>set done. nsaid t (EndpointsEmpty (ds_cluster s) name) (NetFlag (Inr True))" using 2 by blast
  have "current h1 v" using cur t(1) by (auto intro: kept)
  then show ?case unfolding sn prod.case passes_ebind endpoints_gone_def
  proof (rule or_failure_rule, intro net_flag_exact, goal_cases)
    case (3 y b)
    let ?e = "(Network (EndpointsEmpty (ds_cluster s) name), y)"
    have "nsaid (t @ [?e]) (EndpointsEmpty (ds_cluster s) name) (NetFlag (Inr True))" if b
      using 3 that net_told_snoc [of Network net_answer t _ y] by simp
    moreover have "\<forall>(s, name)\<in>set done. nsaid (t @ [?e]) (EndpointsEmpty (ds_cluster s) name) (NetFlag (Inr True))"
      using t(2) by (auto simp: net_told_def)
    ultimately show ?case using t(1) found [of "h1 @ [?e]"]
      by (cases b) (auto intro!: exI [of _ "t @ [?e]"])
  qed simp_all
next
  case (3 ok h1)
  then show ?case using right by (auto simp: drained_def)
qed simp

definition placed :: "domain_plan \<Rightarrow> string \<Rightarrow> (domain_site \<times> string) list" where
  "placed p kind = (if kind = ''Subnet'' then placed_subnets p else map (\<lambda>s. (s, ds_vpc_name s)) (dpl_attachments p))"

lemma placed_site: "(s, name) \<in> set (placed p kind) \<Longrightarrow> s \<in> set (dpl_attachments p)"
  by (auto simp: placed_def placed_subnets_def split: if_splits)

lemma delete_kind_rule:
  assumes at_h: "vpc_seen h v" "cleared L r h p" "barrier r h p" "withdrawn_all h p" "transit_deleted r h p"
    and kind: "kind = ''Subnet'' \<or> kind = ''Vpc'' \<and> absent_all h ''Subnet'' (placed_subnets p)"
    and right: "\<And>h'. later h h' \<Longrightarrow> absent_all h' kind (placed p kind) \<Longrightarrow> R h' ()"
  shows "passes L r (delete_kind L r v p kind) R h"
  unfolding delete_kind_def placed_def [symmetric] passes_ebind [of _ "efold _ _ _"]
proof (rule passes_efold [where I = "\<lambda>done ok h'. later h h' \<and> (ok \<longrightarrow> absent_all h' kind done)"], goal_cases)
  case (2 "done" sn todo ok h1)
  obtain s name where sn: "sn = (s, name)" by fastforce
  have s: "s \<in> set (dpl_attachments p)" using 2(1) by (intro placed_site [of s name p kind]) (simp add: sn)
  have cur: "current h1 v" using at_h(1) 2(2) by (blast intro: kept seen_current)
  show ?case unfolding sn prod.case passes_ebind
  proof (rule or_failure_rule [OF cur], rule dom.delete_rule, goal_cases)
    case (1 h2 x)
    have on: "later h h2" using 2(2) 1(1) by blast
    have ctx: "cleared L r h2 p" "barrier r h2 p" "withdrawn_all h2 p" "transit_deleted r h2 p"
      "kind = ''Subnet'' \<or> kind = ''Vpc'' \<and> absent_all h2 ''Subnet'' (placed_subnets p)"
      using at_h kind on by (blast intro: kept)+
    have "vpc_seen h2 v" using at_h(1) on by (rule vpc_seen_later)
    with 1 s have "owned_object r h2 p s kind name x" by (auto simp: owned_object_def)
    with ctx show ?case unfolding domain_contract.simps infra_ok.simps by blast
  next
    case (3 h2)
    have "absent_all h2 kind (done @ [(s, name)])" if ok
      using 3 2(2) absent_all_later [of h1 kind "done" h2] that by (auto simp: absent_all_def)
    then show ?case using 2(2) 3 by (auto intro: later_trans)
  qed (use 2(2) in \<open>auto intro: later_trans\<close>)
next
  case (3 ok h1)
  have "current h1 v" using at_h(1) 3 by (blast intro: kept seen_current)
  then show ?case using 3 right by (auto intro!: passes_dearly state_rule)
qed (simp add: absent_all_def)

lemma withdraw_domain_rule:
  assumes at_h: "vpc_seen h v" "cleared L r h p" "barrier r h p"
    and right: "\<And>h'. later h h' \<Longrightarrow> removed r h' p \<Longrightarrow> R h' ()"
  shows "passes L r (withdraw_domain L r v p) R h"
proof -
  have absent: "passes L r (efold (\<lambda>_ s. or_wait L r v ''Deleting'' ''OVNCleanupPending'' ''Waiting for Kube-OVN to remove local OVN objects''
       (network (net_flag (LocalAbsent (ds_cluster s) (ds_vpc_name s) (ds_subnet_name s) (ds_transit_name s))))) () (dpl_attachments p)) R h1"
    if at1: "later h h1" "withdrawn_all h1 p" "transit_deleted r h1 p" "absent_all h1 ''Subnet'' (placed p ''Subnet'')"
      "absent_all h1 ''Vpc'' (placed p ''Vpc'')" for h1
  proof (rule sites_rule [where K = "\<lambda>h s. nsaid h (LocalAbsent (ds_cluster s) (ds_vpc_name s) (ds_subnet_name s) (ds_transit_name s)) (NetFlag (Inr True))"], goal_cases)
    case (1 h2 s)
    have "current h2 v" using at_h(1) at1(1) 1(1) by (blast intro: kept seen_current)
    then show ?case by (auto intro!: or_wait_rule net_flag_rule)
  next
    case (3 h2)
    have "removed r h2 p" "later h h2"
      using at_h(3) at1 3 by (auto simp: removed_def placed_def intro: kept later_trans)
    then show ?case by (intro right)
  qed (rule net_told_later)
  have vpcs: "passes L r (ebind (delete_kind L r v p ''Vpc'') (\<lambda>_.
     efold (\<lambda>_ s. or_wait L r v ''Deleting'' ''OVNCleanupPending'' ''Waiting for Kube-OVN to remove local OVN objects''
       (network (net_flag (LocalAbsent (ds_cluster s) (ds_vpc_name s) (ds_subnet_name s) (ds_transit_name s))))) () (dpl_attachments p))) R h1"
    if at1: "later h h1" "withdrawn_all h1 p" "transit_deleted r h1 p" "absent_all h1 ''Subnet'' (placed p ''Subnet'')" for h1
    unfolding passes_ebind
  proof (rule delete_kind_rule, goal_cases)
    case (7 h2)
    then show ?case using at1 by (intro absent) (blast intro: kept later_trans)+
  qed (use at_h at1 in \<open>auto simp: placed_def intro: kept\<close>)
  have subnets: "passes L r (ebind (delete_kind L r v p ''Subnet'') (\<lambda>_. ebind (delete_kind L r v p ''Vpc'') (\<lambda>_.
     efold (\<lambda>_ s. or_wait L r v ''Deleting'' ''OVNCleanupPending'' ''Waiting for Kube-OVN to remove local OVN objects''
       (network (net_flag (LocalAbsent (ds_cluster s) (ds_vpc_name s) (ds_subnet_name s) (ds_transit_name s))))) () (dpl_attachments p)))) R h1"
    if at1: "later h h1" "withdrawn_all h1 p" "transit_deleted r h1 p" for h1
    unfolding passes_ebind [of _ "delete_kind _ _ _ _ ''Subnet''"]
  proof (rule delete_kind_rule, goal_cases)
    case (7 h2)
    then show ?case using at1 by (intro vpcs) (blast intro: kept later_trans)+
  qed (use at_h at1 in \<open>auto intro: kept\<close>)
  show ?thesis
    unfolding withdraw_domain_def passes_ebind [of _ "efold _ _ _"]
  proof (rule sites_rule [where K = "\<lambda>h s. routes_withdrawn (Infra (site_name s)) infra_answer h (ds_vpc_name s)"], goal_cases)
    case (1 h1 s)
    have ctx: "cleared L r h1 p" "barrier r h1 p" "vpc_seen h1 v" using at_h 1(1) by (blast intro: kept)+
    show ?case
    proof (rule or_failure_rule [OF seen_current [OF ctx(3)]], rule dom.withdraw_rule, goal_cases)
      case (1 h2 x)
      have ctx2: "cleared L r h2 p" "barrier r h2 p" "vpc_seen h2 v" using ctx 1(1) by (blast intro: kept)+
      with 1 \<open>s \<in> _\<close> have "owned_object r h2 p s ''Vpc'' (ds_vpc_name s) x" by (auto simp: owned_object_def)
      with ctx2 show ?case unfolding domain_contract.simps infra_ok.simps by blast
    qed auto
  next
    case (3 h1)
    have ctx: "cleared L r h1 p" "barrier r h1 p" "vpc_seen h1 v" "withdrawn_all h1 p" using at_h 3 by (auto simp: withdrawn_all_def intro: kept)
    show ?case unfolding passes_ebind [of _ "or_failure _ _ _ _"]
    proof (rule or_failure_rule [OF seen_current [OF ctx(3)]], rule net_done_rule, goal_cases)
      case (3 h2)
      have "transit_deleted r h2 p" "withdrawn_all h2 p" "later h h2"
        using ctx(4) 3 \<open>later h h1\<close> by (auto simp: transit_deleted_def intro: kept later_trans)
      then show ?case by (simp add: subnets)
    qed (use ctx in \<open>auto simp: on_transit_def\<close>)
  qed (rule routes_withdrawn_later)
qed

lemma remove_domain_rule:
  assumes seen: "vpc_seen h v" and clear: "cleared L r h p"
  shows "passes L r (remove_domain L r v p) R h"
proof -
  have cut: "passes L r (ebind (withdraw_domain L r v p) (\<lambda>_. ebind (saved (set_operation ''DeleteResume'' v)) (\<lambda>v'. resume L r v' True))) R h1"
    if "later h h1" "barrier r h1 p" for h1
    unfolding passes_ebind [of _ "withdraw_domain _ _ _ _"]
  proof (rule withdraw_domain_rule, goal_cases)
    case (4 h2)
    have "vpc_seen h2 v" "cleared L r h2 p" using seen clear that(1) 4(1) by (blast intro: kept)+
    then have proved: "vpc_seen h2 v" "removal_proved L r h2" using 4(2) by (auto simp: removal_proved_def)
    show ?case unfolding passes_ebind
    proof (rule saved_rule [OF proved(1)], goal_cases)
      case (2 h3 v')
      have "removal_proved L r h3" using proved(2) 2(1) unfolding removal_proved_def removed_def by (blast intro: kept)
      then show ?case using 2(2) by (intro resume_rule) auto
    qed (use proved in \<open>auto simp: status_step_def set_operation_def\<close>)
  qed (use that seen clear in \<open>auto intro: kept\<close>)
  have again: "passes L r (ebind (saved (set_operation ''Resume'' v)) (\<lambda>v'. resume L r v' False)) R' h1" if "later h h1" for h1 R'
    unfolding passes_ebind
  proof (rule saved_rule)
    show "vpc_seen h1 v" using seen that by (rule vpc_seen_later)
  qed (auto simp: status_step_def set_operation_def intro!: resume_rule)
  have stopped: "passes L r (ebind (consumers_gone p (ebind (saved (set_operation ''Resume'' v)) (\<lambda>v'. resume L r v' False)) (endpoints_gone L r v)) (\<lambda>_.
        ebind (withdraw_domain L r v p) (\<lambda>_. ebind (saved (set_operation ''DeleteResume'' v)) (\<lambda>v'. resume L r v' True)))) R h1"
    if on: "later h h1" and open_: "topology_open r h1 p" for h1
    unfolding passes_ebind [of _ "consumers_gone _ _ _"]
  proof (rule gone_rule, goal_cases)
    case 1
    then show ?case using seen on by (blast intro: kept seen_current)
  next
    case (2 h' R')
    then show ?case using on by (intro again) blast
  next
    case (3 t)
    have "barrier r (h1 @ t) p" using open_ 3 unfolding barrier_def topology_open_def by blast
    then show ?case using on by (intro cut) auto
  qed
  have locked: "passes L r (ebind (or_wait L r v ''Deleting'' ''QuiescingIC'' ''Waiting for native IC processes to stop'' (gate_set_paused (dm_gate r) (dpl_uid p) True)) (\<lambda>_.
        ebind (consumers_gone p (ebind (saved (set_operation ''Resume'' v)) (\<lambda>v'. resume L r v' False)) (endpoints_gone L r v)) (\<lambda>_.
        ebind (withdraw_domain L r v p) (\<lambda>_. ebind (saved (set_operation ''DeleteResume'' v)) (\<lambda>v'. resume L r v' True))))) R h1"
    if on: "later h h1" and held: "lock_held (dm_gate r) h1 (dpl_uid p)" for h1
    unfolding passes_ebind [of _ "or_wait _ _ _ _ _ _ _"]
  proof (rule or_wait_rule, goal_cases)
    case 1
    then show ?case using seen on by (blast intro: kept seen_current)
  next
    case 3
    have uid: "caller h1 (dpl_uid p)" using planned_caller [OF cleared_planned [OF clear]] on by (rule caller_later)
    show ?case
    proof (rule set_paused_rule [OF uid], goal_cases)
      case (3 h2)
      have "topology_open r h2 p" using 3 held by (auto simp: topology_open_def quiesced_def settled_def intro: kept)
      then show ?case using stopped 3(1) on by (auto intro: later_trans)
    qed simp_all
  qed simp
  have first: "passes L r (ebind (or_wait L r v ''Deleting'' ''DomainBusy'' ''Waiting for domain topology lock'' (gate_acquire (dm_gate r) (dpl_uid p) (dpl_hash p))) (\<lambda>_.
        ebind (or_wait L r v ''Deleting'' ''QuiescingIC'' ''Waiting for native IC processes to stop'' (gate_set_paused (dm_gate r) (dpl_uid p) True)) (\<lambda>_.
        ebind (consumers_gone p (ebind (saved (set_operation ''Resume'' v)) (\<lambda>v'. resume L r v' False)) (endpoints_gone L r v)) (\<lambda>_.
        ebind (withdraw_domain L r v p) (\<lambda>_. ebind (saved (set_operation ''DeleteResume'' v)) (\<lambda>v'. resume L r v' True)))))) R h1"
    if on: "later h h1" for h1
    unfolding passes_ebind [of _ "or_wait _ _ _ _ _ _ (gate_acquire _ _ _)"]
  proof (rule or_wait_rule, goal_cases)
    case 1
    then show ?case using seen on by (blast intro: kept seen_current)
  next
    case 3
    have uid: "caller h1 (dpl_uid p)" using planned_caller [OF cleared_planned [OF clear]] on by (rule caller_later)
    show ?case by (rule acquire_rule [OF uid]) (use locked on in \<open>auto intro: later_trans\<close>)
  qed simp
  have "passes L r (ebind (consumers_gone p (dearly (domain_state L r v ''Deleting'' ''ConsumersPresent'' ''Drain all tenant subnet endpoints before deletion'' False))
          (endpoints_gone L r v)) (\<lambda>_.
        ebind (or_wait L r v ''Deleting'' ''DomainBusy'' ''Waiting for domain topology lock'' (gate_acquire (dm_gate r) (dpl_uid p) (dpl_hash p))) (\<lambda>_.
        ebind (or_wait L r v ''Deleting'' ''QuiescingIC'' ''Waiting for native IC processes to stop'' (gate_set_paused (dm_gate r) (dpl_uid p) True)) (\<lambda>_.
        ebind (consumers_gone p (ebind (saved (set_operation ''Resume'' v)) (\<lambda>v'. resume L r v' False)) (endpoints_gone L r v)) (\<lambda>_.
        ebind (withdraw_domain L r v p) (\<lambda>_. ebind (saved (set_operation ''DeleteResume'' v)) (\<lambda>v'. resume L r v' True))))))) R h"
    unfolding passes_ebind [of _ "consumers_gone _ (dearly _) _"]
    by (rule gone_rule [OF seen_current [OF seen]])
      (use first seen in \<open>auto intro!: passes_dearly state_rule seen_current intro: kept\<close>)
  then show ?thesis using seen by (auto simp: remove_domain_def intro!: resume_rule)
qed

section \<open>The pass\<close>

lemma reconcile_plan_rule:
  assumes seen: "vpc_seen h v" and plan: "domain_build L (Some v) (dm_config r) = Inr p"
  shows "always (domain_contract L r) (reconcile_plan L r v p) (\<lambda>_ _. True) h"
proof -
  have planned: "planned L r h p" using seen plan unfolding planned_def by blast
  have "passes L r (reconcile_plan L r v p) (\<lambda>_ _. True) h"
    unfolding reconcile_plan_def passes_ebind [of _ "accept_plan _ _"]
  proof (rule accept_rule [OF seen], goal_cases)
    case (1 h1 v1)
    have "planned L r h1 p" using planned 1(1) by (rule planned_later)
    then show ?case unfolding passes_ebind [of _ "preflight _ _ _ _"]
    proof (rule preflight_rule [OF 1(2)], goal_cases)
      case (1 h2 holder)
      have "vpc_seen h2 v1" using \<open>vpc_seen h1 v1\<close> 1(1) by (rule vpc_seen_later)
      then show ?case using 1(2) by (auto intro!: remove_domain_rule converge_rule resume_rule)
    qed
  qed
  then show ?thesis unfolding passes_def by (rule always_mono) simp_all
qed

lemma domain_reconcile_run: "always (domain_contract L r) (domain_reconcile L r ns name) (\<lambda>_ _. True) []"
  unfolding domain_reconcile_def always_pbind [of _ "authority _"]
proof (rule wire_get, goal_cases)
  case (3 h y v)
  then have seen: "vpc_seen h v" by (auto intro: vpc_seenI)
  have "always (domain_contract L r) (authority (kdo (Update (DVpc (v\<lparr>gv_meta := add_finalizer L (gv_meta v) v1_finalizer\<rparr>))))) (\<lambda>_ _. True) h"
    if "om_deletion (gv_meta v) = None"
    by (rule authority_do) (use that seen in auto)
  then show ?case
    using failure_rule [OF seen_current [OF seen]] reconcile_plan_rule [OF seen]
    by (auto split: sum.split)
qed simp_all

section \<open>Properties\<close>

text \<open>What changes objects of the clusters, the lock or the IPAM, and what changes or reports the topology.\<close>

fun topology_request :: "dreq \<Rightarrow> bool" where
  "topology_request (Network q) = True"
| "topology_request (Infra c (Delete x u rv)) = True"
| "topology_request (Authority (Update (DVpc v))) = True"
| "topology_request (Authority (UpdateStatus x)) = True"
| "topology_request q = False"

definition owned_step :: "k8s_lib \<Rightarrow> domain_controller \<Rightarrow> dhist \<Rightarrow> dreq \<Rightarrow> bool" where
  "owned_step L r h q \<longleftrightarrow> (if topology_request q then True else domain_contract L r h q)"

definition ordered_step :: "k8s_lib \<Rightarrow> domain_controller \<Rightarrow> dhist \<Rightarrow> dreq \<Rightarrow> bool" where
  "ordered_step L r h q \<longleftrightarrow> (if topology_request q then domain_contract L r h q else True)"

text \<open>
  C35: at any point of a pass over a GlobalVpc, for all answers: objects are created or changed only after the plan was
  made from an object the authority returned, no other VPC was seen to hold the domain, and every cluster of
  the plan showed its registered identity and every object of the plan was absent or owned; what is created was seen absent
  and belongs to the plan; what is changed carries the owner's and the cluster's label and the recorded UID and only its
  spec changes; a native Deployment is only rescaled, by a pass that read itself as the holder of the lock and
  found every target of the domain dedicated to it; the lock is created only when absent, taken only when free and freed only by
  its holder after all native processes were seen running; only claims of the plan are sent to a registered provider.
\<close>
theorem domain_writes_owned: "every_step (owned_step L r) (domain_reconcile L r ns name)"
  by (rule every_stepI, rule always_mono [OF domain_reconcile_run]) (simp_all add: owned_step_def)

text \<open>
  C6: the topology of a domain changes only in order, for all answers: the transit switch is created, and a switch marked
  without it, only while the lock is held and every native process was seen stopped (replicas zero and observed, no
  Pod of a controlled set running); the transit switch is deleted only after, behind that barrier, every subnet was seen
  without consumers and all static routes were withdrawn; Subnets are deleted after it, a Vpc after all
  Subnets are absent, each with the UID and resource version read; the finalizer goes only when everything was
  seen absent (or that was recorded by an earlier pass) and the lock is free; a pass newly reports Ready only
  after every subnet was ready, every site connected and every route in place.
\<close>
theorem domain_topology_ordered: "every_step (ordered_step L r) (domain_reconcile L r ns name)"
  by (rule every_stepI, rule always_mono [OF domain_reconcile_run]) (simp_all add: ordered_step_def)

end
