(* ===== verification/Domain_Lock.thy ===== *)
theory Domain_Lock
  imports Domain_Laws
begin

text \<open>
  Any number of passes of the routed controller running at once against one authority: restarted processes,
  a former leader that has not noticed yet, passes over different VPCs. The authority keeps the lock
  ConfigMap with optimistic concurrency: an update takes effect only with the resource version of what is
  stored, every stored version gets a fresh one, and an answer may be lost whether the write took
  effect or not. The system refines a mutex: the holder changes only from nobody to a VPC of the acting pass,
  or from such a VPC to nobody.
\<close>

section \<open>The authority\<close>

text \<open>\<open>ls_log\<close> is every version that was ever stored.\<close>

record lock_server =
  ls_lock :: "config_map option"
  ls_log :: "config_map list"

definition version :: "config_map \<Rightarrow> string" where
  "version m = om_resource_version (cm_meta m)"

definition with_version :: "string \<Rightarrow> config_map \<Rightarrow> config_map" where
  "with_version v m = m\<lparr>cm_meta := (cm_meta m)\<lparr>om_resource_version := v\<rparr>\<rparr>"

definition store_lock :: "string \<Rightarrow> config_map \<Rightarrow> lock_server \<Rightarrow> lock_server" where
  "store_lock v m s = \<lparr>ls_lock = Some (with_version v m), ls_log = with_version v m # ls_log s\<rparr>"

definition fresh_version :: "lock_server \<Rightarrow> string \<Rightarrow> bool" where
  "fresh_version s v \<longleftrightarrow> v \<notin> set (map version (ls_log s))"

fun touches_lock :: "domain_gate \<Rightarrow> dreq \<Rightarrow> bool" where
  "touches_lock g (Authority (Get kind ns name)) = (kind = ''ConfigMap'' \<and> ns = dg_namespace g \<and> name = lock_name g)"
| "touches_lock g (Authority (Create (DMap m))) = True"
| "touches_lock g (Authority (Update (DMap m))) = True"
| "touches_lock g q = False"

inductive serves :: "domain_gate \<Rightarrow> lock_server \<Rightarrow> dreq \<Rightarrow> dresp \<Rightarrow> lock_server \<Rightarrow> bool" for g where
  found: "ls_lock s = Some m \<Longrightarrow> serves g s (Authority (lock_req g)) (AuthorityAnswer (Obj (DMap m))) s"
| missing: "ls_lock s = None \<Longrightarrow> is_not_found e \<Longrightarrow> serves g s (Authority (lock_req g)) (AuthorityAnswer (Failed e)) s"
| unread: "\<not> is_not_found e \<Longrightarrow> serves g s (Authority (lock_req g)) (AuthorityAnswer (Failed e)) s"
| created: "ls_lock s = None \<Longrightarrow> fresh_version s v \<Longrightarrow> serves g s (Authority (Create (DMap m))) y (store_lock v m s)"
| updated: "ls_lock s = Some cur \<Longrightarrow> version m = version cur \<Longrightarrow> fresh_version s v
    \<Longrightarrow> serves g s (Authority (Update (DMap m))) y (store_lock v m s)"
| refused: "serves g s (Authority (Create (DMap m))) (AuthorityAnswer (Failed e)) s"
| stale: "serves g s (Authority (Update (DMap m))) (AuthorityAnswer (Failed e)) s"
| elsewhere: "\<not> touches_lock g q \<Longrightarrow> serves g s q y s"

section \<open>The passes\<close>

text \<open>A pass in progress: what it still does, and its history.\<close>

record lock_system =
  sy_server :: lock_server
  sy_passes :: "(outcome dprog \<times> dhist) list"

inductive gate_step :: "domain_gate \<Rightarrow> string set \<Rightarrow> lock_system \<Rightarrow> lock_system \<Rightarrow> bool" for g where
  begins: "dm_gate r = g \<Longrightarrow> gate_step g {} s (s\<lparr>sy_passes := (domain_reconcile L r ns name, []) # sy_passes s\<rparr>)"
| calls: "sy_passes s = before @ (Call q k, h) # after \<Longrightarrow> serves g (sy_server s) q y server
    \<Longrightarrow> gate_step g {uid. caller h uid} s \<lparr>sy_server = server, sy_passes = before @ (k y, h @ [(q, y)]) # after\<rparr>"
| stops: "sy_passes s = before @ ph # after \<Longrightarrow> gate_step g {} s (s\<lparr>sy_passes := before @ after\<rparr>)"

inductive gate_reach :: "domain_gate \<Rightarrow> lock_system \<Rightarrow> bool" for g where
  fresh: "gate_reach g \<lparr>sy_server = \<lparr>ls_lock = None, ls_log = []\<rparr>, sy_passes = []\<rparr>"
| moves: "gate_reach g s \<Longrightarrow> gate_step g uids s s' \<Longrightarrow> gate_reach g s'"

section \<open>The mutex\<close>

text \<open>The holder of the lock, empty when nobody holds it, and who may change it.\<close>

definition system_holder :: "lock_system \<Rightarrow> string" where
  "system_holder s = (case ls_lock (sy_server s) of None \<Rightarrow> [] | Some m \<Rightarrow> lock_holder m)"

inductive mutex_step :: "string set \<Rightarrow> string \<Rightarrow> string \<Rightarrow> bool" where
  rests: "mutex_step uids h h"
| takes: "uid \<in> uids \<Longrightarrow> mutex_step uids [] uid"
| frees: "uid \<in> uids \<Longrightarrow> mutex_step uids uid []"

inductive_simps mutex_step_simps: "mutex_step uids h h'"

definition refines_mutex :: "domain_gate \<Rightarrow> bool" where
  "refines_mutex g \<longleftrightarrow> (\<forall>s uids s'. gate_reach g s \<and> gate_step g uids s s' \<longrightarrow> mutex_step uids (system_holder s) (system_holder s'))"

section \<open>The simulation\<close>

text \<open>Whatever was read was stored, and no two stored versions are the same.\<close>

definition read_stored :: "domain_gate \<Rightarrow> lock_server \<Rightarrow> dhist \<Rightarrow> bool" where
  "read_stored g s h \<longleftrightarrow> (\<forall>m. asaid h (lock_req g) (Obj (DMap m)) \<longrightarrow> m \<in> set (ls_log s))"

definition server_ok :: "lock_server \<Rightarrow> bool" where
  "server_ok s \<longleftrightarrow> distinct (map version (ls_log s)) \<and> (\<forall>m. ls_lock s = Some m \<longrightarrow> m \<in> set (ls_log s))"

definition pass_ok :: "domain_gate \<Rightarrow> lock_server \<Rightarrow> outcome dprog \<times> dhist \<Rightarrow> bool" where
  "pass_ok g s ph \<longleftrightarrow> (\<exists>L r. dm_gate r = g \<and> always (domain_contract L r) (fst ph) (\<lambda>_ _. True) (snd ph)) \<and> read_stored g s (snd ph)"

definition system_ok :: "domain_gate \<Rightarrow> lock_system \<Rightarrow> bool" where
  "system_ok g s \<longleftrightarrow> server_ok (sy_server s) \<and> (\<forall>ph\<in>set (sy_passes s). pass_ok g (sy_server s) ph)"

lemma version_with [simp]: "version (with_version v m) = v" and holder_with [simp]: "lock_holder (with_version v m) = lock_holder m"
  by (simp_all add: version_def with_version_def lock_holder_def)

lemma holder_set [simp]: "lock_holder (set_lock uid hash m) = uid" "version (set_lock uid hash m) = version m"
  by (simp_all add: set_lock_def lock_holder_def version_def mget_def)

lemma holder_new [simp]: "lock_holder (new_lock g uid hash) = uid"
  by (simp add: new_lock_def lock_holder_def mget_def)

lemma serves_log: "serves g s q y s' \<Longrightarrow> set (ls_log s) \<subseteq> set (ls_log s')"
  by (induction rule: serves.induct) (auto simp: store_lock_def)

lemma serves_ok:
  assumes "serves g s q y s'" and "server_ok s"
  shows "server_ok s'"
  using assms by (induction rule: serves.induct) (auto simp: server_ok_def store_lock_def fresh_version_def)

lemma answer_Obj [simp]: "authority_answer y = Obj x \<longleftrightarrow> y = AuthorityAnswer (Obj x)"
  by (auto simp: authority_answer_def decode_error_def split: dresp.splits)

lemma touches_own [simp]: "touches_lock g (Authority (lock_req g))"
  by simp

lemma serves_read:
  assumes "serves g s q y s'" and "server_ok s" and "read_stored g s h"
  shows "read_stored g s' (h @ [(q, y)])"
  using assms
  by (cases rule: serves.cases)
    (auto simp: read_stored_def told_def server_ok_def store_lock_def simp del: touches_lock.simps)

lemma serves_mutex:
  assumes "serves g s q y s'" and ok: "server_ok s" "read_stored g s h" and may: "domain_contract L r h q" and gate: "dm_gate r = g"
  shows "mutex_step {uid. caller h uid} (case ls_lock s of None \<Rightarrow> [] | Some m \<Rightarrow> lock_holder m) (case ls_lock s' of None \<Rightarrow> [] | Some m \<Rightarrow> lock_holder m)"
  using assms(1)
proof cases
  case (created v m)
  with may gate obtain uid hash where "caller h uid" "m = new_lock g uid hash" by auto
  then show ?thesis using created by (simp add: store_lock_def mutex_step.takes)
next
  case (updated cur m v)
  from may gate updated obtain m0 uid where m0: "lock_seen g h m0" "caller h uid"
    "lock_holder m0 = [] \<and> (\<exists>hash. m = set_lock uid hash m0) \<or> lock_holder m0 = uid \<and> m = set_lock [] [] m0" by auto
  have "m0 \<in> set (ls_log s)" "cur \<in> set (ls_log s)" using ok m0(1) updated by (auto simp: read_stored_def lock_seen_def server_ok_def)
  moreover have "version m0 = version cur" using updated m0(3) by auto
  ultimately have "m0 = cur" using ok(1) by (auto simp: server_ok_def distinct_map dest: inj_onD)
  then show ?thesis using updated m0 by (auto simp: store_lock_def intro: mutex_step.intros)
qed (simp_all add: mutex_step.rests)

lemma step_ok:
  assumes "gate_step g uids s s'" and "system_ok g s"
  shows "system_ok g s' \<and> mutex_step uids (system_holder s) (system_holder s')"
  using assms(1)
proof cases
  case (begins r L ns name)
  have "pass_ok g (sy_server s) (domain_reconcile L r ns name, [])"
    using begins domain_reconcile_run [of L r ns name] by (auto simp: pass_ok_def read_stored_def told_def)
  then show ?thesis using begins assms(2) by (simp add: system_ok_def system_holder_def mutex_step.rests)
next
  case (calls before q k h after y server)
  have ok: "server_ok (sy_server s)" "pass_ok g (sy_server s) (Call q k, h)" using assms(2) calls by (simp_all add: system_ok_def)
  then obtain L r where run: "dm_gate r = g" "domain_contract L r h q" "always (domain_contract L r) (k y) (\<lambda>_ _. True) (h @ [(q, y)])"
    and read: "read_stored g (sy_server s) h" by (auto simp: pass_ok_def)
  have "pass_ok g server (k y, h @ [(q, y)])"
    using run serves_read [OF calls(4) ok(1) read] by (auto simp: pass_ok_def)
  moreover have "pass_ok g server ph" if "pass_ok g (sy_server s) ph" for ph
    using that serves_log [OF calls(4)] by (auto simp: pass_ok_def read_stored_def)
  ultimately show ?thesis
    using calls assms(2) serves_ok [OF calls(4) ok(1)] serves_mutex [OF calls(4) ok(1) read run(2,1)]
    by (auto simp: system_ok_def system_holder_def)
qed (use assms(2) in \<open>auto simp: system_ok_def system_holder_def mutex_step.rests\<close>)

lemma reach_ok: "gate_reach g s \<Longrightarrow> system_ok g s"
  by (induction rule: gate_reach.induct) (use step_ok in \<open>auto simp: system_ok_def server_ok_def\<close>)

text \<open>A pass can start, and its first call is served.\<close>

lemma gate_alive:
  "gate_step (dm_gate r) {} \<lparr>sy_server = \<lparr>ls_lock = None, ls_log = []\<rparr>, sy_passes = []\<rparr>
     \<lparr>sy_server = \<lparr>ls_lock = None, ls_log = []\<rparr>, sy_passes = [(domain_reconcile L r ns name, [])]\<rparr>"
  using begins [of r "dm_gate r" "\<lparr>sy_server = \<lparr>ls_lock = None, ls_log = []\<rparr>, sy_passes = []\<rparr>"] by simp

section \<open>Property\<close>

text \<open>
  C3: with any number of passes running at once over one authority, through restarts, stale reads, lost answers and lost
  updates, the domain lock refines a mutex: a step changes its holder only from nobody to the UID of a VPC
  that the acting pass has read, or from such a UID to nobody; it never passes from one VPC to another.
\<close>
theorem domain_lock_refines: "refines_mutex g"
  unfolding refines_mutex_def using reach_ok step_ok by blast

end
