(* ===== verification/Go_Process.thy ===== *)
theory Go_Process
  imports Api_Steady Go_Struct
begin

text \<open>
  Subprocesses, as the two plugin protocols start them: one JSON object on the standard input, the standard output bounded,
  the time limited. The operating system and the program that is run answer the request; a limit that was passed
  decides before a deadline, and a deadline before the exit status.
\<close>

record proc_req =
  pr_argv :: "string list"
  pr_stdin :: string
  pr_timeout :: int

datatype proc_resp = Printed string | TooMuch | Interrupted | ExitFailed

type_synonym 'a pprog = "(proc_req, proc_resp, 'a) prog"
type_synonym phist = "(proc_req \<times> proc_resp) list"

definition max_output_bytes :: nat where
  "max_output_bytes = 1048576"

text \<open>Nanoseconds: thirty seconds by default, five minutes at most.\<close>

definition plugin_timeout :: "int \<Rightarrow> int" where
  "plugin_timeout t = min (if t \<le> 0 then 30 * 1000000000 else t) (5 * 60 * 1000000000)"

lemma plugin_timeout_bounds: "0 < plugin_timeout t \<and> plugin_timeout t \<le> 300000000000"
  by (simp add: plugin_timeout_def)

text \<open>A running child, the texts of the three failures, and what is done with its output.\<close>

definition run_child :: "string list \<Rightarrow> string \<Rightarrow> int \<Rightarrow> string \<Rightarrow> string \<Rightarrow> string \<Rightarrow> (string \<Rightarrow> 'a res) \<Rightarrow> 'a res pprog" where
  "run_child argv body timeout large late failed_text f =
     Call \<lparr>pr_argv = argv, pr_stdin = body, pr_timeout = plugin_timeout timeout\<rparr> (\<lambda>r. case r of
         TooMuch \<Rightarrow> leave large
       | Interrupted \<Rightarrow> leave late
       | ExitFailed \<Rightarrow> leave failed_text
       | Printed out \<Rightarrow> Ret (if max_output_bytes < length out then Inl large else f out))"

lemma always_run_child:
  "always G (run_child argv body timeout large late failed_text f) Q h \<longleftrightarrow>
     (let q = \<lparr>pr_argv = argv, pr_stdin = body, pr_timeout = plugin_timeout timeout\<rparr> in G h q \<and>
       (\<forall>r. Q (h @ [(q, r)]) (case r of TooMuch \<Rightarrow> Inl large | Interrupted \<Rightarrow> Inl late | ExitFailed \<Rightarrow> Inl failed_text
          | Printed out \<Rightarrow> if max_output_bytes < length out then Inl large else f out)))"
  by (auto simp: run_child_def Let_def split: proc_resp.split)

text \<open>A pointer field: \<open>null\<close> and an absent member leave \<open>nil\<close>.\<close>

definition decode_pointer :: "'a \<Rightarrow> 'a decoder \<Rightarrow> 'a option decoder" where
  "decode_pointer zero d j x = (case j of JNull \<Rightarrow> Some None
     | _ \<Rightarrow> map_option Some (d j (case x of None \<Rightarrow> zero | Some a \<Rightarrow> a)))"

end
