(* ===== verification/Prefix_Provider.thy ===== *)
theory Prefix_Provider
  imports Go_Process Api_V1alpha1 Domain_Plan
begin

text \<open>
  \<open>internal/provider/exec.go\<close>: the protocol of the external IPAM. A claim is sent to the configured command; only an
  answer that repeats the claim and promises to retain it is an allocation, everything else leaves the state unknown.
\<close>

section \<open>Canonical prefixes\<close>

text \<open>\<open>Addr.String\<close> of IPv6: the longest run of at least two zero groups is left out, the first of equals; an IPv4-mapped
  address ends in dotted decimal.\<close>

definition v6_groups :: "128 word \<Rightarrow> nat list" where
  "v6_groups w = map (\<lambda>i. unat (take_bit 16 (drop_bit (16 * (7 - i)) w))) [0..<8]"

fun hex_str :: "nat \<Rightarrow> string" where
  "hex_str n = (if n < 16 then [hex_nibble n] else hex_str (n div 16) @ [hex_nibble (n mod 16)])"

definition zero_run :: "nat list \<Rightarrow> nat" where
  "zero_run gs = length (takeWhile (\<lambda>g. g = 0) gs)"

text \<open>Start and length of the run that is left out, if there is one.\<close>

definition longest_zeros :: "nat list \<Rightarrow> (nat \<times> nat) option" where
  "longest_zeros gs = foldl (\<lambda>best i. let l = zero_run (drop i gs) in
     if 2 \<le> l \<and> (case best of None \<Rightarrow> True | Some (_, m) \<Rightarrow> m < l) then Some (i, l) else best) None [0..<length gs]"

definition v6_str :: "128 word \<Rightarrow> string" where
  "v6_str w = (let gs = v6_groups w in
     if drop_bit 32 w = 65535 then ''::ffff:'' @ v4_str (ucast w)
     else case longest_zeros gs of
         None \<Rightarrow> join '':'' (map hex_str gs)
       | Some (i, l) \<Rightarrow> join '':'' (map hex_str (take i gs)) @ ''::'' @ join '':'' (map hex_str (drop (i + l) gs)))"

definition prefix_string :: "prefix \<Rightarrow> string" where
  "prefix_string p = (if \<not> prefix_valid p then ''invalid Prefix''
     else (case p_addr p of V4 w \<Rightarrow> v4_str w | V6 w z \<Rightarrow> v6_str w | AddrZero \<Rightarrow> ''invalid IP'') @ ''/'' @ nat_str (nat (p_bits p)))"

definition valid_claim :: "v1_prefix_claim \<Rightarrow> bool" where
  "valid_claim c \<longleftrightarrow> trim_space (vpc_claim_uid c) \<noteq> [] \<and> trim_space (vpc_vpc_uid c) \<noteq> [] \<and> trim_space (vpc_scope_ref c) \<noteq> []
     \<and> (case parse_prefix (vpc_cidr c) of None \<Rightarrow> False | Some p \<Rightarrow> p = masked p \<and> prefix_string p = vpc_cidr c)"

section \<open>The protocol\<close>

definition ipam_version :: string where
  "ipam_version = ''ipam.globalvpc.io/v1alpha1''"

definition ipam_unknown :: "string \<Rightarrow> string" where
  "ipam_unknown reason = reason @ '': allocation state is unknown; preserve allocations and retry the same claim''"

definition claim_request :: "v1_prefix_claim \<Rightarrow> string" where
  "claim_request c = json_enc (JObj [(''apiVersion'', JStr ipam_version), (''operation'', JStr ''EnsurePrefix''),
     (''claimUID'', JStr (vpc_claim_uid c)), (''vpcUID'', JStr (vpc_vpc_uid c)), (''scopeRef'', JStr (vpc_scope_ref c)), (''cidr'', JStr (vpc_cidr c))])"

record ipam_response =
  ir_api_version :: string
  ir_ok :: "bool option"
  ir_result :: "json option"

definition decode_ipam :: "ipam_response decoder" where
  "decode_ipam = decode_struct
     [(''apiVersion'', field ir_api_version (\<lambda>x r. r\<lparr>ir_api_version := x\<rparr>) decode_string),
      (''ok'', field ir_ok (\<lambda>x r. r\<lparr>ir_ok := x\<rparr>) (decode_pointer False decode_bool)),
      (''result'', field ir_result (\<lambda>x r. r\<lparr>ir_result := x\<rparr>) (\<lambda>j _. Some (Some j)))]"

definition decode_granted :: "allocation decoder" where
  "decode_granted = decode_struct
     [(''claimUID'', field (vpc_claim_uid \<circ> al_claim) (\<lambda>x a. a\<lparr>al_claim := (al_claim a)\<lparr>vpc_claim_uid := x\<rparr>\<rparr>) decode_string),
      (''vpcUID'', field (vpc_vpc_uid \<circ> al_claim) (\<lambda>x a. a\<lparr>al_claim := (al_claim a)\<lparr>vpc_vpc_uid := x\<rparr>\<rparr>) decode_string),
      (''scopeRef'', field (vpc_scope_ref \<circ> al_claim) (\<lambda>x a. a\<lparr>al_claim := (al_claim a)\<lparr>vpc_scope_ref := x\<rparr>\<rparr>) decode_string),
      (''cidr'', field (vpc_cidr \<circ> al_claim) (\<lambda>x a. a\<lparr>al_claim := (al_claim a)\<lparr>vpc_cidr := x\<rparr>\<rparr>) decode_string),
      (''allocationID'', field al_allocation_id (\<lambda>x a. a\<lparr>al_allocation_id := x\<rparr>) decode_string),
      (''releasePolicy'', field al_release_policy (\<lambda>x a. a\<lparr>al_release_policy := x\<rparr>) decode_string)]"

definition no_allocation :: allocation where
  "no_allocation = \<lparr>al_claim = \<lparr>vpc_claim_uid = [], vpc_vpc_uid = [], vpc_scope_ref = [], vpc_cidr = []\<rparr>, al_allocation_id = [], al_release_policy = []\<rparr>"

text \<open>\<open>isObject\<close> on text that is a JSON value is whether the value is an object.\<close>

definition is_object :: "json \<Rightarrow> bool" where
  "is_object j \<longleftrightarrow> (case j of JObj _ \<Rightarrow> True | _ \<Rightarrow> False)"

definition confirmed_allocation :: "v1_prefix_claim \<Rightarrow> allocation \<Rightarrow> bool" where
  "confirmed_allocation c a \<longleftrightarrow> valid_claim (al_claim a) \<and> al_claim a = c \<and> trim_space (al_allocation_id a) \<noteq> [] \<and> al_release_policy a = ''Retain''"

definition read_allocation :: "v1_prefix_claim \<Rightarrow> json option \<Rightarrow> allocation res" where
  "read_allocation c result = (case result of
      None \<Rightarrow> Inl (ipam_unknown ''IPAM provider returned an invalid allocation'')
    | Some j \<Rightarrow> (case if is_object j then decode_granted j no_allocation else None of
        None \<Rightarrow> Inl (ipam_unknown ''IPAM provider returned an invalid allocation'')
      | Some a \<Rightarrow> if confirmed_allocation c a then Inr a
          else Inl (ipam_unknown ''IPAM provider allocation does not match the requested retained claim'')))"

definition read_ipam :: "v1_prefix_claim \<Rightarrow> string \<Rightarrow> allocation res" where
  "read_ipam c out = (case json_parse out of
      None \<Rightarrow> Inl (ipam_unknown ''IPAM provider returned an invalid response'')
    | Some j \<Rightarrow> (case if is_object j then decode_ipam j \<lparr>ir_api_version = [], ir_ok = None, ir_result = None\<rparr> else None of
        None \<Rightarrow> Inl (ipam_unknown ''IPAM provider returned an invalid response'')
      | Some r \<Rightarrow>
          if ir_api_version r \<noteq> ipam_version then Inl (ipam_unknown ''IPAM provider returned an unsupported response version'')
          else if ir_ok r \<noteq> Some True then Inl (ipam_unknown ''IPAM provider did not confirm the allocation'')
          else read_allocation c (ir_result r)))"

definition ensure_prefix :: "string list \<Rightarrow> int \<Rightarrow> v1_prefix_claim \<Rightarrow> allocation res pprog" where
  "ensure_prefix argv timeout c =
     (if argv = [] \<or> trim_space (hd argv) = [] then leave ''IPAM provider command is not configured''
      else if \<not> valid_claim c then leave ''IPAM claim requires nonempty identities and a canonical network CIDR''
      else run_child argv (claim_request c) timeout (ipam_unknown ''IPAM provider response exceeded the size limit'')
        (ipam_unknown ''IPAM provider deadline or cancellation interrupted the request'') (ipam_unknown ''IPAM provider execution failed'')
        (read_ipam c))"

section \<open>What an allocation means\<close>

definition claim_json :: "v1_prefix_claim \<Rightarrow> (string \<times> json) list" where
  "claim_json c = [(''claimUID'', JStr (vpc_claim_uid c)), (''vpcUID'', JStr (vpc_vpc_uid c)), (''scopeRef'', JStr (vpc_scope_ref c)), (''cidr'', JStr (vpc_cidr c))]"

text \<open>The answer of a provider that grants the claim.\<close>

definition granted_json :: "allocation \<Rightarrow> json" where
  "granted_json a = JObj [(''apiVersion'', JStr ipam_version), (''ok'', JBool True), (''result'', JObj (claim_json (al_claim a)
     @ [(''allocationID'', JStr (al_allocation_id a)), (''releasePolicy'', JStr (al_release_policy a))]))]"

lemma granted_result: "decode_granted (JObj (claim_json (al_claim a) @ [(''allocationID'', JStr (al_allocation_id a)), (''releasePolicy'', JStr (al_release_policy a))])) no_allocation = Some a"
  by (simp add: decode_granted_def claim_json_def decode_struct_def find_field_def field_def decode_string_def no_allocation_def)

lemma granted_response: "decode_ipam (granted_json a) \<lparr>ir_api_version = [], ir_ok = None, ir_result = None\<rparr>
    = Some \<lparr>ir_api_version = ipam_version, ir_ok = Some True, ir_result = Some (JObj (claim_json (al_claim a)
        @ [(''allocationID'', JStr (al_allocation_id a)), (''releasePolicy'', JStr (al_release_policy a))]))\<rparr>"
  by (simp add: decode_ipam_def granted_json_def decode_struct_def find_field_def field_def decode_string_def decode_pointer_def decode_bool_def)

definition ascii_allocation :: "allocation \<Rightarrow> bool" where
  "ascii_allocation a \<longleftrightarrow> list_all ascii [vpc_claim_uid (al_claim a), vpc_vpc_uid (al_claim a), vpc_scope_ref (al_claim a), vpc_cidr (al_claim a),
     al_allocation_id a, al_release_policy a]"

lemma plain_granted: "ascii_allocation a \<Longrightarrow> plain_json (granted_json a)"
  by (auto simp: granted_json_def claim_json_def ascii_allocation_def ipam_version_def ascii_def)

text \<open>What the caller of the provider may conclude, and what the provider was asked.\<close>

definition prefix_held :: "string list \<Rightarrow> v1_prefix_claim \<Rightarrow> phist \<Rightarrow> allocation res \<Rightarrow> bool" where
  "prefix_held argv c h x \<longleftrightarrow> (case x of
      Inl _ \<Rightarrow> True
    | Inr a \<Rightarrow> confirmed_allocation c a \<and> valid_claim c
        \<and> (\<exists>q out. h = [(q, Printed out)] \<and> pr_argv q = argv \<and> pr_stdin q = claim_request c \<and> length out \<le> max_output_bytes \<and> read_ipam c out = Inr a))"

lemma read_ipam_confirmed: "read_ipam c out = Inr a \<Longrightarrow> confirmed_allocation c a"
  by (auto simp: read_ipam_def read_allocation_def split: option.splits if_splits)

lemma ensure_prefix_held: "always (\<lambda>_ _. True) (ensure_prefix argv timeout c) (prefix_held argv c) []"
  by (auto simp: ensure_prefix_def always_run_child prefix_held_def Let_def intro: read_ipam_confirmed split: proc_resp.split sum.split)

text \<open>
  A provider that grants a claim in the documented form is understood: the rendered answer with this claim, any
  allocation identifier that is not blank and the retained policy reads back as exactly that allocation.
\<close>

theorem granted_reads_back:
  assumes "ascii_allocation a" and "valid_claim (al_claim a)" and "trim_space (al_allocation_id a) \<noteq> []" and "al_release_policy a = ''Retain''"
  shows "read_ipam (al_claim a) (json_enc (granted_json a)) = Inr a"
proof -
  have "is_object (granted_json a)" by (simp add: is_object_def granted_json_def)
  then show ?thesis
    using assms(1) assms(2-4) granted_result [of a]
    by (simp add: read_ipam_def json_parse_enc plain_granted granted_response read_allocation_def is_object_def [of "JObj _"] confirmed_allocation_def)
qed

theorem granted_reads_back_witness:
  "read_ipam \<lparr>vpc_claim_uid = ''u1'', vpc_vpc_uid = ''v1'', vpc_scope_ref = ''s'', vpc_cidr = v4_prefix_str 0 0\<rparr>
     (json_enc (granted_json \<lparr>al_claim = \<lparr>vpc_claim_uid = ''u1'', vpc_vpc_uid = ''v1'', vpc_scope_ref = ''s'', vpc_cidr = v4_prefix_str 0 0\<rparr>,
        al_allocation_id = ''a'', al_release_policy = ''Retain''\<rparr>))
   = Inr \<lparr>al_claim = \<lparr>vpc_claim_uid = ''u1'', vpc_vpc_uid = ''v1'', vpc_scope_ref = ''s'', vpc_cidr = v4_prefix_str 0 0\<rparr>,
        al_allocation_id = ''a'', al_release_policy = ''Retain''\<rparr>" (is "read_ipam ?c (json_enc (granted_json ?a)) = Inr ?a")
proof -
  have chars: "ascii (v4_prefix_str 0 0)" by code_simp
  have claim: "valid_claim ?c"
    using parse_prefix_v4_str [of 0 0]
    by (simp add: valid_claim_def trim_space_def is_space_def masked_def prefix_valid_def net_of_def prefix_string_def v4_prefix_str_def)
  have "ascii_allocation ?a" using chars by (simp add: ascii_allocation_def ascii_def)
  then show ?thesis
    using granted_reads_back [of ?a] claim by (simp add: trim_space_def is_space_def)
qed

text \<open>
  Whatever a provider prints, an allocation is only reported when the one child process that was started, with
  the configured command and this claim on its input, printed at most the allowed amount and its answer
  repeats the claim, names an allocation and promises to retain it. A claim without identities or with a
  prefix that is not canonical never reaches the provider.
\<close>

theorem prefix_only_confirmed: "every_outcome (prefix_held argv c) (ensure_prefix argv timeout c)"
  by (rule every_outcomeI [OF ensure_prefix_held])

end
