(* ===== verification/Ovn_Rows.thy ===== *)
theory Ovn_Rows
  imports Ovn_Interface
begin

text \<open>
  \<open>internal/ovn/exec.go\<close>, the values: what the OVN command line tools print is decoded strictly, and whatever is not of the
  expected shape is an error, never an absent row. A cell is kept as JSON (\<open>json.RawMessage\<close>) until it is read;
  a column that was not asked for cannot be read.
\<close>

section \<open>Decoders of slices\<close>

text \<open>A Go slice that may be \<open>nil\<close>, which is \<open>None\<close>.\<close>

definition decode_list :: "'a \<Rightarrow> 'a decoder \<Rightarrow> 'a list option decoder" where
  "decode_list zero d j x = (case j of
      JNull \<Rightarrow> Some None
    | JArr js \<Rightarrow> map_option Some (decode_elements zero d js (case x of None \<Rightarrow> [] | Some xs \<Rightarrow> xs))
    | _ \<Rightarrow> None)"

definition decode_raw :: "json decoder" where
  "decode_raw j x = Some j"

definition slice :: "'a list option \<Rightarrow> 'a list" where
  "slice x = (case x of None \<Rightarrow> [] | Some xs \<Rightarrow> xs)"

text \<open>\<open>json.Unmarshal\<close> of a cell into a slice of raw values: \<open>null\<close> is the nil slice.\<close>

definition raw_slice :: "json \<Rightarrow> json list option option" where
  "raw_slice j = decode_list JNull decode_raw j None"

lemma decode_raw_elements: "decode_elements JNull decode_raw js old = Some js"
  by (induction js arbitrary: old) (simp_all add: decode_raw_def)

lemma raw_slice_simps [simp]: "raw_slice (JArr js) = Some (Some js)" "raw_slice JNull = Some None"
  "raw_slice (JStr s) = None" "raw_slice (JNum n) = None" "raw_slice (JBool b) = None" "raw_slice (JObj ms) = None"
  by (simp_all add: raw_slice_def decode_list_def decode_raw_elements)

section \<open>Cells\<close>

definition string_value :: "json \<Rightarrow> string res" where
  "string_value j = (case j of JStr s \<Rightarrow> Inr s | _ \<Rightarrow> Inl ''invalid OVN string'')"

definition hex_digit :: "char \<Rightarrow> bool" where
  "hex_digit c \<longleftrightarrow> is_digit c \<or> (97 \<le> byte c \<and> byte c \<le> 102) \<or> (65 \<le> byte c \<and> byte c \<le> 70)"

text \<open>The pattern of five groups of hexadecimal digits.\<close>

definition uuid_ok :: "string \<Rightarrow> bool" where
  "uuid_ok s \<longleftrightarrow> map length (split_on (CHR ''-'') s) = [8, 4, 4, 4, 12] \<and> list_all (list_all hex_digit) (split_on (CHR ''-'') s)"

definition uuid_value :: "json \<Rightarrow> string res" where
  "uuid_value j = (case j of
      JArr [JStr tag, JStr u] \<Rightarrow> if tag = ''uuid'' \<and> uuid_ok u then Inr u else Inl ''invalid OVN UUID''
    | _ \<Rightarrow> Inl ''invalid OVN UUID'')"

text \<open>\<open>tag, _ := stringValue(...)\<close>: the error is dropped and leaves the empty string.\<close>

definition tag_of :: "json \<Rightarrow> string" where
  "tag_of j = (case string_value j of Inl _ \<Rightarrow> [] | Inr s \<Rightarrow> s)"

definition map_pair :: "string smap \<Rightarrow> json \<Rightarrow> string smap res" where
  "map_pair m pair = (case raw_slice pair of
      Some (Some [k, v]) \<Rightarrow> (case (string_value k, string_value v) of
          (Inr k', Inr v') \<Rightarrow> if map_of m k' \<noteq> None then Inl ''duplicate OVN map key'' else Inr (mput k' v' m)
        | _ \<Rightarrow> Inl ''invalid OVN map strings'')
    | _ \<Rightarrow> Inl ''invalid OVN map pair'')"

definition map_value :: "json \<Rightarrow> string smap res" where
  "map_value j = (case raw_slice j of
      Some (Some [tag, es]) \<Rightarrow>
        if tag_of tag \<noteq> ''map'' then Inl ''invalid OVN map tag''
        else (case raw_slice es of
            Some (Some pairs) \<Rightarrow>
              if list_all (\<lambda>p. raw_slice p \<noteq> None) pairs then foldr_res map_pair [] pairs else Inl ''invalid OVN map entries''
          | _ \<Rightarrow> Inl ''invalid OVN map entries'')
    | _ \<Rightarrow> Inl ''invalid OVN map'')"

definition member_value :: "bool \<Rightarrow> json \<Rightarrow> string res" where
  "member_value uuid j = (if uuid then uuid_value j else string_value j)"

definition add_value :: "bool \<Rightarrow> string list \<Rightarrow> json \<Rightarrow> string list res" where
  "add_value uuid xs j = rbind (member_value uuid j) (\<lambda>s.
     if s \<in> set xs then Inl ''duplicate OVN set member'' else Inr (xs @ [s]))"

text \<open>A set, or the single value it is printed as.\<close>

definition set_value :: "json \<Rightarrow> bool \<Rightarrow> string list res" where
  "set_value j uuid = (case raw_slice j of
      Some (Some [tag, es]) \<Rightarrow>
        if tag_of tag = ''set''
        then (case raw_slice es of Some (Some values) \<Rightarrow> foldr_res (add_value uuid) [] values | _ \<Rightarrow> Inl ''invalid OVN set'')
        else rbind (member_value uuid j) (\<lambda>s. Inr [s])
    | _ \<Rightarrow> rbind (member_value uuid j) (\<lambda>s. Inr [s]))"

section \<open>Rows\<close>

type_synonym ovn_row = "(string \<times> json) list"

definition cell :: "ovn_row \<Rightarrow> string \<Rightarrow> json" where
  "cell r c = (case map_of r c of None \<Rightarrow> JBool False | Some j \<Rightarrow> j)"

record ovn_table =
  ot_headings :: "string list option"
  ot_data :: "json list option list option"

definition decode_table :: "ovn_table decoder" where
  "decode_table = decode_struct
     [(''headings'', field ot_headings (\<lambda>a t. t\<lparr>ot_headings := a\<rparr>) (decode_list [] decode_string)),
      (''data'', field ot_data (\<lambda>a t. t\<lparr>ot_data := a\<rparr>) (decode_list None (decode_list JNull decode_raw)))]"

definition table_row :: "string list \<Rightarrow> json list option \<Rightarrow> ovn_row res" where
  "table_row headings values = (if length (slice values) \<noteq> length headings then Inl ''invalid OVN row'' else Inr (zip headings (slice values)))"

text \<open>
  The rows of a response: exactly the asked-for columns, each once, and every row complete. Text after the
  object is refused as well, with an error text of its own.
\<close>

definition table_rows :: "string \<Rightarrow> string \<Rightarrow> ovn_row list res" where
  "table_rows columns out = (case unmarshal decode_table out \<lparr>ot_headings = None, ot_data = None\<rparr> of
      None \<Rightarrow> Inl ''invalid OVN JSON response''
    | Some t \<Rightarrow>
        let want = split_on (CHR '','') columns; headings = slice (ot_headings t) in
        (case ot_data t of
          None \<Rightarrow> Inl ''invalid OVN table response''
        | Some data \<Rightarrow>
            if length headings \<noteq> length want then Inl ''invalid OVN table response''
            else if \<not> distinct headings then Inl ''duplicate OVN heading''
            else if \<not> set want \<subseteq> set headings then Inl ''missing OVN heading''
            else map_res (table_row headings) data))"

definition single_row :: "ovn_row list \<Rightarrow> ovn_row res" where
  "single_row rows = (case rows of [r] \<Rightarrow> Inr r | _ \<Rightarrow> Inl ''expected exactly one OVN row'')"

definition named_single :: "ovn_row list \<Rightarrow> string \<Rightarrow> ovn_row res" where
  "named_single rows want = rbind (single_row rows) (\<lambda>r. rbind (string_value (cell r ''name'')) (\<lambda>name.
     if name \<noteq> want then Inl ''OVN row name does not match query'' else Inr r))"

section \<open>Commands\<close>

text \<open>\<open>strconv.Quote\<close> of ASCII text; the bytes of other characters are kept as they are.\<close>

definition quote_byte :: "char \<Rightarrow> string" where
  "quote_byte c = (let n = byte c; hex = (\<lambda>d. if d < 10 then char_of (48 + d) else char_of (87 + d)) in
     if n = 34 then [CHR 0x5C, CHR 0x22] else if n = 92 then [CHR 0x5C, CHR 0x5C]
     else if n = 7 then [CHR 0x5C, CHR ''a''] else if n = 8 then [CHR 0x5C, CHR ''b''] else if n = 12 then [CHR 0x5C, CHR ''f'']
     else if n = 10 then [CHR 0x5C, CHR ''n''] else if n = 13 then [CHR 0x5C, CHR ''r''] else if n = 9 then [CHR 0x5C, CHR ''t'']
     else if n = 11 then [CHR 0x5C, CHR ''v''] else if n < 32 \<or> n = 127 then [CHR 0x5C, CHR ''x'', hex (n div 16), hex (n mod 16)]
     else [c])"

definition go_quote :: "string \<Rightarrow> string" where
  "go_quote s = [CHR 0x22] @ concat (map quote_byte s) @ [CHR 0x22]"

definition condition_arg :: "string \<Rightarrow> string \<Rightarrow> string" where
  "condition_arg column value = column @ ''='' @ go_quote value"

definition uuid_set :: "string list \<Rightarrow> string" where
  "uuid_set values = ''['' @ join '','' values @ '']''"

section \<open>What a decoded cell is\<close>

lemma uuid_value_ok: "uuid_value j = Inr u \<Longrightarrow> uuid_ok u \<and> j = JArr [JStr ''uuid'', JStr u]"
  by (auto simp: uuid_value_def split: json.splits list.splits if_splits)

lemma set_value_distinct: "set_value j uuid = Inr xs \<Longrightarrow> distinct xs"
proof -
  assume a: "set_value j uuid = Inr xs"
  have "distinct ys" if "foldr_res (add_value uuid) [] js = Inr ys" for js ys
    by (rule foldr_res_invariant [OF that, where I = "\<lambda>_ xs. distinct xs"]) (auto simp: add_value_def split: if_splits)
  with a show ?thesis by (auto simp: set_value_def split: option.splits list.splits if_splits)
qed

lemma set_value_uuids:
  assumes "set_value j True = Inr xs"
  shows "list_all uuid_ok xs"
proof -
  have "list_all uuid_ok ys" if "foldr_res (add_value True) [] js = Inr ys" for js ys
    by (rule foldr_res_invariant [OF that, where I = "\<lambda>_ xs. list_all uuid_ok xs"])
      (auto simp: add_value_def member_value_def dest: uuid_value_ok split: if_splits)
  with assms show ?thesis
    by (auto simp: set_value_def member_value_def dest: uuid_value_ok split: option.splits list.splits if_splits)
qed

lemma named_single_name: "named_single rows want = Inr r \<Longrightarrow> rows = [r] \<and> cell r ''name'' = JStr want"
  by (auto simp: named_single_def single_row_def string_value_def split: list.splits json.splits if_splits)

end
