(* ===== verification/Ovn_Exec.thy ===== *)
theory Ovn_Exec
  imports Ovn_Rows
begin

text \<open>
  \<open>internal/ovn/exec.go\<close>, the adapter: the methods of the \<open>Network\<close> interface as sequences of commands. Running a command is
  the \<open>Runner\<close>, whose answer is the output, a failure or a cancellation; every mutation is one command whose
  guards the database checks in the same transaction.
\<close>

section \<open>Running commands\<close>

datatype run_resp = RunOutput string | RunFailed | RunCancelled string

type_synonym 'a oprog = "(string list, run_resp, 'a) prog"
type_synonym ohist = "(string list \<times> run_resp) list"

record ovn_exec =
  oe_timeout :: int
  oe_transaction_command :: "string list"

definition max_output :: nat where
  "max_output = 4 * 1048576"

definition owner_key :: string where
  "owner_key = ''global-vpc-uid''"

definition run_timeout :: "ovn_exec \<Rightarrow> int" where
  "run_timeout e = (if oe_timeout e \<le> 0 then 15 * 1000000000 else oe_timeout e)"

text \<open>The rounded-up seconds of the timeout follow the command prefix.\<close>

definition full_command :: "ovn_exec \<Rightarrow> string list \<Rightarrow> string list \<Rightarrow> string list" where
  "full_command e prefix args = prefix @ [''--timeout='' @ int_str ((run_timeout e + 999999999) div 1000000000)] @ args"

definition ovn_run :: "ovn_exec \<Rightarrow> string list \<Rightarrow> string list \<Rightarrow> (err + string) oprog" where
  "ovn_run e prefix args =
     (if prefix = [] \<or> hd prefix = [] then leave (Errorf ''OVN command is not configured'')
      else Call (full_command e prefix args) (\<lambda>r. case r of
          RunFailed \<Rightarrow> leave (Errorf ''OVN command failed'')
        | RunCancelled why \<Rightarrow> leave (Errorf (''OVN command cancelled: '' @ why))
        | RunOutput out \<Rightarrow> if max_output < length out then leave (Errorf ''OVN output limit exceeded'') else go out))"

definition uuid_selector :: string where
  "uuid_selector = ''_uuid=''"

text \<open>A record is selected by its UUID with \<open>list\<close>, by other conditions with \<open>find\<close>.\<close>

definition query_args :: "string \<Rightarrow> string \<Rightarrow> string list \<Rightarrow> string list res" where
  "query_args columns table conditions =
     (case conditions of
        [c] \<Rightarrow> if has_prefix c uuid_selector
               then (let id = drop (length uuid_selector) c in
                 if uuid_ok id then Inr [''--format=json'', ''--columns='' @ columns, ''list'', table, id] else Inl ''invalid OVN record UUID'')
               else Inr [''--format=json'', ''--columns='' @ columns, ''find'', table, c]
      | _ \<Rightarrow> Inr ([''--format=json'', ''--columns='' @ columns, ''find'', table] @ conditions))"

definition ovn_query :: "ovn_exec \<Rightarrow> string list \<Rightarrow> string \<Rightarrow> string \<Rightarrow> string list \<Rightarrow> (err + ovn_row list) oprog" where
  "ovn_query e cmd columns table conditions =
     ebind (lift_res Errorf (query_args columns table conditions)) (\<lambda>args.
     ebind (ovn_run e cmd args) (\<lambda>out. lift_res Errorf (table_rows columns out)))"

abbreviation pure_res :: "'a res \<Rightarrow> (err + 'a) oprog" where
  "pure_res m \<equiv> lift_res Errorf m"

section \<open>Prerequisites\<close>

definition check_chassis :: "ovn_exec \<Rightarrow> domain_cluster \<Rightarrow> string list \<Rightarrow> string \<Rightarrow> (err + string list) oprog" where
  "check_chassis e c seen chassis =
     (if chassis = [] \<or> chassis \<in> set seen then leave (Errorf ''invalid gateway chassis registration'')
      else ebind (ovn_query e (dc_sb_command c) ''name,other_config'' ''Chassis'' [condition_arg ''name'' chassis]) (\<lambda>rows.
        ebind (pure_res (single_row rows)) (\<lambda>r.
        ebind (pure_res (string_value (cell r ''name''))) (\<lambda>name.
        ebind (pure_res (map_value (cell r ''other_config''))) (\<lambda>other.
        if name \<noteq> chassis \<or> mget other ''is-interconn'' \<noteq> ''true'' \<or> mget other ''is-remote'' = ''true''
        then leave (Errorf ''registered chassis is not a local interconnection gateway'') else go (seen @ [chassis]))))))"

definition check_network :: "ovn_exec \<Rightarrow> domain_cluster \<Rightarrow> (err + unit) oprog" where
  "check_network e c =
     ebind (ovn_query e (dc_nb_command c) ''name'' ''NB_Global'' []) (\<lambda>rows.
     ebind (pure_res (single_row rows)) (\<lambda>r.
     ebind (pure_res (string_value (cell r ''name''))) (\<lambda>name.
     if name \<noteq> dc_az_name c \<or> name = [] then leave (Errorf ''NB availability zone does not match registration'')
     else if dc_gateway_chassis c = [] \<or> 100 < length (dc_gateway_chassis c) then leave (Errorf ''registration requires 1-100 gateway chassis'')
     else ebind (efold (check_chassis e c) [] (dc_gateway_chassis c)) (\<lambda>_. go ()))))"

section \<open>The marker of a transit switch\<close>

definition mark_args :: "string \<Rightarrow> string \<Rightarrow> string list" where
  "mark_args u ts = [''get'', ''Logical_Switch'', u, ''name'', ''other_config'', ''--'', ''wait-until'', ''Logical_Switch'', u,
     condition_arg ''name'' ts, ''other_config:interconn-ts{=}[]'', ''--'', ''set'', ''Logical_Switch'', u,
     condition_arg ''other_config:interconn-ts'' ts]"

text \<open>No other switch may carry the marker.\<close>

definition check_markers :: "string \<Rightarrow> ovn_row list \<Rightarrow> unit res" where
  "check_markers u markers = (case markers of
      [] \<Rightarrow> Inr ()
    | [m] \<Rightarrow> rbind (uuid_value (cell m ''_uuid'')) (\<lambda>marker. guard (marker = u) ''transit marker belongs to another logical switch'')
    | _ \<Rightarrow> Inl ''duplicate transit switch markers'')"

definition mark_switch :: "ovn_exec \<Rightarrow> domain_cluster \<Rightarrow> string \<Rightarrow> (err + unit) oprog" where
  "mark_switch e c ts =
     ebind (ovn_query e (dc_nb_command c) ''_uuid,name,other_config'' ''Logical_Switch'' [condition_arg ''name'' ts]) (\<lambda>rows.
     ebind (pure_res (named_single rows ts)) (\<lambda>r.
     ebind (pure_res (uuid_value (cell r ''_uuid''))) (\<lambda>id.
     ebind (pure_res (map_value (cell r ''other_config''))) (\<lambda>other.
     if map_of other ''interconn-ts'' \<noteq> None \<and> map_of other ''interconn-ts'' \<noteq> Some ts
     then leave (Errorf ''logical switch already has a different interconnection marker'')
     else ebind (ovn_query e (dc_nb_command c) ''_uuid'' ''Logical_Switch'' [condition_arg ''other_config:interconn-ts'' ts]) (\<lambda>markers.
       ebind (pure_res (check_markers id markers)) (\<lambda>_.
       if map_of other ''interconn-ts'' = Some ts then go ()
       else ebind (ovn_run e (dc_nb_command c) (mark_args id ts)) (\<lambda>_. go ())))))))"

section \<open>Gateway chassis\<close>

text \<open>The wanted priorities: the first chassis has 100.\<close>

definition want_chassis :: "(string \<times> nat) list \<Rightarrow> nat \<times> string \<Rightarrow> (string \<times> nat) list res" where
  "want_chassis want ic = (case ic of (i, c) \<Rightarrow>
     if c = [] then Inl ''empty gateway chassis''
     else if map_of want c \<noteq> None then Inl ''duplicate gateway chassis''
     else Inr (want @ [(c, 100 - i)]))"

text \<open>\<open>json.Unmarshal\<close> into an \<open>int\<close>: \<open>null\<close> leaves it zero.\<close>

definition int_cell :: "json \<Rightarrow> int option" where
  "int_cell j = (case j of JNum n \<Rightarrow> parse_int64 n | JNull \<Rightarrow> Some 0 | _ \<Rightarrow> None)"

text \<open>What the port has: priorities by name, and whether a name occurs twice.\<close>

definition read_chassis :: "ovn_exec \<Rightarrow> domain_cluster \<Rightarrow> (string \<times> int) list \<times> bool \<Rightarrow> string \<Rightarrow> (err + (string \<times> int) list \<times> bool) oprog" where
  "read_chassis e c st ref = (case st of (current, dup) \<Rightarrow>
     ebind (ovn_query e (dc_nb_command c) ''chassis_name,priority'' ''Gateway_Chassis'' [uuid_selector @ ref]) (\<lambda>rows.
     ebind (pure_res (single_row rows)) (\<lambda>g.
     ebind (pure_res (string_value (cell g ''chassis_name''))) (\<lambda>name.
     case int_cell (cell g ''priority'') of
       None \<Rightarrow> leave (Errorf ''invalid gateway priority'')
     | Some priority \<Rightarrow> go (mput name priority current, dup \<or> map_of current name \<noteq> None)))))"

definition chassis_equal :: "(string \<times> nat) list \<Rightarrow> (string \<times> int) list \<times> bool \<Rightarrow> bool" where
  "chassis_equal want st \<longleftrightarrow> (case st of (current, dup) \<Rightarrow> \<not> dup \<and> length current = length want
     \<and> list_all (\<lambda>(name, priority). map_of current name = Some (int priority)) want)"

definition add_chassis_args :: "string \<Rightarrow> string \<Rightarrow> nat \<times> string \<Rightarrow> string list" where
  "add_chassis_args port u ic = (case ic of (i, c) \<Rightarrow> let ref = ''@gw'' @ nat_str i in
     [''--'', ''--id='' @ ref, ''create'', ''Gateway_Chassis'', condition_arg ''name'' (port @ ''-'' @ c), condition_arg ''chassis_name'' c,
      ''priority='' @ int_str (100 - int i), ''--'', ''add'', ''Logical_Router_Port'', u, ''gateway_chassis'', ref])"

definition gateways_args :: "string \<Rightarrow> string \<Rightarrow> string list \<Rightarrow> string list \<Rightarrow> string list" where
  "gateways_args port u refs chassis = [''get'', ''Logical_Router_Port'', u, ''name'', ''gateway_chassis'', ''--'', ''wait-until'',
     ''Logical_Router_Port'', u, condition_arg ''name'' port, ''gateway_chassis='' @ uuid_set refs, ''--'', ''clear'', ''Logical_Router_Port'', u, ''gateway_chassis'']
     @ concat (map (add_chassis_args port u) (enumerate 0 chassis))"

definition set_gateways :: "ovn_exec \<Rightarrow> domain_cluster \<Rightarrow> string \<Rightarrow> (err + unit) oprog" where
  "set_gateways e c port =
     (if dc_gateway_chassis c = [] \<or> 100 < length (dc_gateway_chassis c) then leave (Errorf ''registration requires 1-100 gateway chassis'')
      else ebind (pure_res (foldr_res want_chassis [] (enumerate 0 (dc_gateway_chassis c)))) (\<lambda>want.
        ebind (ovn_query e (dc_nb_command c) ''_uuid,name,gateway_chassis'' ''Logical_Router_Port'' [condition_arg ''name'' port]) (\<lambda>rows.
        ebind (pure_res (named_single rows port)) (\<lambda>r.
        ebind (pure_res (uuid_value (cell r ''_uuid''))) (\<lambda>id.
        ebind (pure_res (set_value (cell r ''gateway_chassis'') True)) (\<lambda>refs.
        ebind (efold (read_chassis e c) ([], False) refs) (\<lambda>st.
        if chassis_equal want st then go ()
        else ebind (ovn_run e (dc_nb_command c) (gateways_args port id refs (dc_gateway_chassis c))) (\<lambda>_. go ()))))))))"

section \<open>The transit switch\<close>

definition find_transit :: "ovn_exec \<Rightarrow> string list \<Rightarrow> string \<Rightarrow> string \<Rightarrow> string \<Rightarrow> (err + string) oprog" where
  "find_transit e cmd name owner expected =
     (if name = [] \<or> owner = [] \<or> (expected \<noteq> [] \<and> \<not> uuid_ok expected) then leave (Errorf ''invalid transit identity'')
      else ebind (ovn_query e cmd ''_uuid,name,external_ids'' ''Transit_Switch'' [condition_arg ''name'' name]) (\<lambda>rows.
        if rows = [] then go []
        else ebind (pure_res (named_single rows name)) (\<lambda>r.
          ebind (pure_res (uuid_value (cell r ''_uuid''))) (\<lambda>id.
          ebind (pure_res (map_value (cell r ''external_ids''))) (\<lambda>ids.
          if mget ids owner_key \<noteq> owner then leave (Errorf ''transit switch ownership conflict'')
          else if expected \<noteq> [] \<and> id \<noteq> expected then leave (Errorf ''transit switch UUID changed'')
          else go id)))))"

definition create_transit_args :: "string \<Rightarrow> string \<Rightarrow> string list" where
  "create_transit_args name owner = [''--id=@ts'', ''create'', ''Transit_Switch'', condition_arg ''name'' name, condition_arg (''external_ids:'' @ owner_key) owner]"

text \<open>After the creation the row is read again, whatever was answered.\<close>

definition ensure_transit :: "ovn_exec \<Rightarrow> string list \<Rightarrow> string \<Rightarrow> string \<Rightarrow> string \<Rightarrow> (err + string) oprog" where
  "ensure_transit e cmd name owner expected =
     ebind (find_transit e cmd name owner expected) (\<lambda>id.
     if id \<noteq> [] then go id
     else if expected \<noteq> [] then leave transit_missing
     else pbind (ovn_run e cmd (create_transit_args name owner)) (\<lambda>made.
       ebind (find_transit e cmd name owner []) (\<lambda>id.
       if id \<noteq> [] then go id
       else leave (case made of Inl x \<Rightarrow> x | Inr _ \<Rightarrow> Errorf ''transit creation did not produce an owned row''))))"

definition delete_transit_args :: "string \<Rightarrow> string \<Rightarrow> string \<Rightarrow> string list" where
  "delete_transit_args u name owner = [''get'', ''Transit_Switch'', u, ''name'', ''external_ids'', ''--'', ''wait-until'', ''Transit_Switch'', u,
     condition_arg ''name'' name, condition_arg (''external_ids:'' @ owner_key) owner, ''--'', ''destroy'', ''Transit_Switch'', u]"

definition delete_transit :: "ovn_exec \<Rightarrow> string list \<Rightarrow> string \<Rightarrow> string \<Rightarrow> string \<Rightarrow> (err + unit) oprog" where
  "delete_transit e cmd name owner expected =
     ebind (find_transit e cmd name owner expected) (\<lambda>id.
     if id = [] then go () else ebind (ovn_run e cmd (delete_transit_args id name owner)) (\<lambda>_. go ()))"

section \<open>Observations\<close>

definition read_port :: "ovn_exec \<Rightarrow> domain_cluster \<Rightarrow> ovn_row list \<Rightarrow> string \<Rightarrow> (err + ovn_row list) oprog" where
  "read_port e c ports ref =
     ebind (ovn_query e (dc_nb_command c) ''name,type,options,addresses'' ''Logical_Switch_Port'' [uuid_selector @ ref]) (\<lambda>rows.
     ebind (pure_res (single_row rows)) (\<lambda>port. go (ports @ [port])))"

text \<open>The row of a switch and the rows of its ports; no row when there is no such switch.\<close>

definition switch_ports :: "ovn_exec \<Rightarrow> domain_cluster \<Rightarrow> string \<Rightarrow> (err + ovn_row option \<times> ovn_row list) oprog" where
  "switch_ports e c name =
     ebind (ovn_query e (dc_nb_command c) ''_uuid,name,ports,other_config'' ''Logical_Switch'' [condition_arg ''name'' name]) (\<lambda>rows.
     if rows = [] then go (None, [])
     else ebind (pure_res (named_single rows name)) (\<lambda>ls.
       ebind (pure_res (set_value (cell ls ''ports'') True)) (\<lambda>refs.
       ebind (efold (read_port e c) [] refs) (\<lambda>ports. go (Some ls, ports)))))"

text \<open>Only router ports and native remote ports may be left; the first other port decides.\<close>

primrec only_routers :: "ovn_row list \<Rightarrow> bool res" where
  "only_routers [] = Inr True"
| "only_routers (p # ps) = rbind (string_value (cell p ''type'')) (\<lambda>t. if t \<noteq> ''router'' \<and> t \<noteq> ''remote'' then Inr False else only_routers ps)"

definition endpoints_empty_of :: "ovn_exec \<Rightarrow> domain_cluster \<Rightarrow> string \<Rightarrow> (err + bool) oprog" where
  "endpoints_empty_of e c subnet = ebind (switch_ports e c subnet) (\<lambda>(ls, ports). pure_res (only_routers ports))"

definition local_names :: "string \<Rightarrow> string \<Rightarrow> string \<Rightarrow> (string \<times> string) list" where
  "local_names vpc subnet transit = [(''Logical_Router'', vpc), (''Logical_Switch'', subnet), (''Logical_Switch'', transit),
     (''Logical_Router_Port'', vpc @ ''-'' @ subnet), (''Logical_Router_Port'', vpc @ ''-'' @ transit),
     (''Logical_Switch_Port'', subnet @ ''-'' @ vpc), (''Logical_Switch_Port'', transit @ ''-'' @ vpc)]"

primrec all_absent :: "ovn_exec \<Rightarrow> domain_cluster \<Rightarrow> (string \<times> string) list \<Rightarrow> (err + bool) oprog" where
  "all_absent e c [] = go True"
| "all_absent e c (q # qs) = ebind (ovn_query e (dc_nb_command c) ''_uuid'' (fst q) [condition_arg ''name'' (snd q)]) (\<lambda>rows.
     if rows \<noteq> [] then go False else all_absent e c qs)"

definition local_absent :: "ovn_exec \<Rightarrow> domain_cluster \<Rightarrow> string \<Rightarrow> string \<Rightarrow> string \<Rightarrow> (err + bool) oprog" where
  "local_absent e c vpc subnet transit = all_absent e c (local_names vpc subnet transit)"

section \<open>Routes\<close>

text \<open>An empty policy means \<open>dst-ip\<close>.\<close>

definition expected_route :: "ovn_route \<Rightarrow> ovn_route" where
  "expected_route r = (if rt_policy r = [] then r\<lparr>rt_policy := ''dst-ip''\<rparr> else r)"

definition route_policy_ok :: "string \<Rightarrow> bool" where
  "route_policy_ok p \<longleftrightarrow> p = ''dst-ip'' \<or> p = ''src-ip''"

text \<open>\<open>want[route]++\<close>, and whether BFD sessions have to be compared.\<close>

definition want_route :: "(ovn_route \<Rightarrow> nat) \<times> bool \<Rightarrow> ovn_route \<Rightarrow> ((ovn_route \<Rightarrow> nat) \<times> bool) res" where
  "want_route st route = (case st of (want, bfd) \<Rightarrow> let r = expected_route route in
     if rt_cidr r = [] \<or> rt_next_hop r = [] \<or> \<not> route_policy_ok (rt_policy r) then Inl ''invalid expected route''
     else Inr (want(r := Suc (want r)), bfd \<or> rt_bfd r \<noteq> []))"

definition route_columns :: "bool \<Rightarrow> string" where
  "route_columns bfd = ''ip_prefix,nexthop,policy,route_table'' @ (if bfd then '',bfd'' else [])"

text \<open>A route of the main table as it is compared; \<open>None\<close> where the code answers that the routes are not ready.\<close>

definition route_key :: "bool \<Rightarrow> ovn_row \<Rightarrow> ovn_route option res" where
  "route_key bfd row =
     rbind (string_value (cell row ''ip_prefix'')) (\<lambda>cidr.
     rbind (string_value (cell row ''nexthop'')) (\<lambda>hop.
     rbind (set_value (cell row ''policy'') False) (\<lambda>policy.
     rbind (string_value (cell row ''route_table'')) (\<lambda>table.
     if 1 < length policy \<or> (length policy = 1 \<and> \<not> route_policy_ok (hd policy)) \<or> table \<noteq> [] then Inr None
     else let key = \<lparr>rt_cidr = cidr, rt_next_hop = hop, rt_policy = if length policy = 1 then hd policy else ''dst-ip'', rt_bfd = []\<rparr> in
       if bfd then rbind (set_value (cell row ''bfd'') True) (\<lambda>sessions.
         if 1 < length sessions then Inr None
         else Inr (Some (if length sessions = 1 then key\<lparr>rt_bfd := hd sessions\<rparr> else key)))
       else Inr (Some key)))))"

primrec routes_match :: "ovn_exec \<Rightarrow> domain_cluster \<Rightarrow> bool \<Rightarrow> (ovn_route \<Rightarrow> nat) \<Rightarrow> string list \<Rightarrow> (err + bool) oprog" where
  "routes_match e c bfd want [] = go True"
| "routes_match e c bfd want (ref # refs) =
     ebind (ovn_query e (dc_nb_command c) (route_columns bfd) ''Logical_Router_Static_Route'' [uuid_selector @ ref]) (\<lambda>rows.
     ebind (pure_res (single_row rows)) (\<lambda>row.
     ebind (pure_res (route_key bfd row)) (\<lambda>k. case k of
         None \<Rightarrow> go False
       | Some key \<Rightarrow> if want key = 0 then go False else routes_match e c bfd (want(key := want key - 1)) refs)))"

definition routes_ready :: "ovn_exec \<Rightarrow> domain_cluster \<Rightarrow> string \<Rightarrow> ovn_route list \<Rightarrow> (err + bool) oprog" where
  "routes_ready e c router routes =
     ebind (ovn_query e (dc_nb_command c) ''name,static_routes'' ''Logical_Router'' [condition_arg ''name'' router]) (\<lambda>rows.
     if rows = [] then go False
     else ebind (pure_res (named_single rows router)) (\<lambda>r.
       ebind (pure_res (set_value (cell r ''static_routes'') True)) (\<lambda>refs.
       if length refs \<noteq> length routes then go False
       else ebind (pure_res (foldr_res want_route (\<lambda>_. 0, False) routes)) (\<lambda>(want, bfd). routes_match e c bfd want refs))))"

section \<open>Interconnection\<close>

definition positive_key :: "string \<Rightarrow> nat \<Rightarrow> bool" where
  "positive_key s maximum \<longleftrightarrow> (case parse_uint 32 s of None \<Rightarrow> False | Some n \<Rightarrow> 0 < n \<and> n \<le> maximum)"

definition expect_peer :: "string \<Rightarrow> bool smap \<Rightarrow> string \<Rightarrow> bool smap res" where
  "expect_peer ts expected peer = (let suffix = ''-'' @ ts in
     if \<not> has_suffix peer suffix \<or> peer = suffix then Inl ''invalid peer router-port identity''
     else Inr (mput (ts @ ''-'' @ take (length peer - length suffix) peer) False expected))"

text \<open>Each port in its order: the local router port, and the remote ports of the peers; a later port of the same name decides.\<close>

definition note_port :: "string \<Rightarrow> bool \<times> bool smap \<Rightarrow> ovn_row \<Rightarrow> (bool \<times> bool smap) res" where
  "note_port router_port st port = (case st of (here, expected) \<Rightarrow>
     rbind (string_value (cell port ''name'')) (\<lambda>name.
     rbind (string_value (cell port ''type'')) (\<lambda>typ.
     rbind (map_value (cell port ''options'')) (\<lambda>options.
     let here' = (if typ = ''router'' \<and> mget options ''router-port'' = router_port
                  then positive_key (mget options ''requested-tnl-key'') 32767 else here) in
     if map_of expected name \<noteq> None
     then rbind (set_value (cell port ''addresses'') False) (\<lambda>addresses.
       Inr (here', mput name (typ = ''remote'' \<and> positive_key (mget options ''requested-tnl-key'') 32767
         \<and> addresses \<noteq> [] \<and> hd addresses \<noteq> []) expected))
     else Inr (here', expected)))))"

definition connected :: "ovn_exec \<Rightarrow> domain_cluster \<Rightarrow> string \<Rightarrow> string \<Rightarrow> string list \<Rightarrow> (err + bool) oprog" where
  "connected e c ts router_port peers =
     ebind (switch_ports e c ts) (\<lambda>(found, ports). case found of
       None \<Rightarrow> go False
     | Some ls \<Rightarrow> ebind (pure_res (map_value (cell ls ''other_config''))) (\<lambda>other.
         if mget other ''interconn-ts'' \<noteq> ts \<or> \<not> positive_key (mget other ''requested-tnl-key'') (2 ^ 24 - 1) then go False
         else ebind (pure_res (foldr_res (expect_peer ts) [] peers)) (\<lambda>expected.
           ebind (pure_res (foldr_res (note_port router_port) (False, expected) ports)) (\<lambda>(here, expected').
           go (here \<and> list_all snd expected')))))"

section \<open>The interface\<close>

text \<open>Each method of \<open>Network\<close> is a method of \<open>Exec\<close>; \<open>InspectTransit\<close> only looks.\<close>

fun perform :: "ovn_exec \<Rightarrow> net_req \<Rightarrow> net_resp oprog" where
  "perform e (InspectTransit cmd name owner u) = pbind (find_transit e cmd name owner u) (\<lambda>x. Ret (NetId x))"
| "perform e (EnsureTransit cmd name owner u) = pbind (ensure_transit e cmd name owner u) (\<lambda>x. Ret (NetId x))"
| "perform e (DeleteTransit cmd name owner u) = pbind (delete_transit e cmd name owner u) (\<lambda>x. Ret (NetDone x))"
| "perform e (CheckNetwork c) = pbind (check_network e c) (\<lambda>x. Ret (NetDone x))"
| "perform e (MarkSwitch c ts) = pbind (mark_switch e c ts) (\<lambda>x. Ret (NetDone x))"
| "perform e (SetGateways c port) = pbind (set_gateways e c port) (\<lambda>x. Ret (NetDone x))"
| "perform e (EndpointsEmpty c subnet) = pbind (endpoints_empty_of e c subnet) (\<lambda>x. Ret (NetFlag x))"
| "perform e (LocalAbsent c vpc subnet transit) = pbind (local_absent e c vpc subnet transit) (\<lambda>x. Ret (NetFlag x))"
| "perform e (Connected c ts port peers) = pbind (connected e c ts port peers) (\<lambda>x. Ret (NetFlag x))"
| "perform e (RoutesReady c router routes) = pbind (routes_ready e c router routes) (\<lambda>x. Ret (NetFlag x))"

end
