(* ===== verification/Ovn_Laws.thy ===== *)
theory Ovn_Laws
  imports Ovn_Exec
begin

text \<open>
  What the adapter may write, and what its answers mean. Reading is always allowed; a write is one of five
  commands, each naming rows that were read before in the same call. The rules of \<open>ovn_reader\<close> follow
  the sequence of queries of an operation and keep what was shown.
\<close>

section \<open>What was shown\<close>

definition reads :: "ovn_exec \<Rightarrow> string list \<Rightarrow> bool" where
  "reads e q \<longleftrightarrow> (\<exists>cmd columns table conditions args. query_args columns table conditions = Inr args \<and> q = full_command e cmd args)"

definition shown :: "ovn_exec \<Rightarrow> ohist \<Rightarrow> string list \<Rightarrow> string \<Rightarrow> string \<Rightarrow> string list \<Rightarrow> ovn_row list \<Rightarrow> bool" where
  "shown e h cmd columns table conditions rows \<longleftrightarrow> (\<exists>args out. query_args columns table conditions = Inr args
     \<and> (full_command e cmd args, RunOutput out) \<in> set h \<and> table_rows columns out = Inr rows)"

lemma shown_later: "shown e h cmd columns table conditions rows \<Longrightarrow> later h h' \<Longrightarrow> shown e h' cmd columns table conditions rows"
  unfolding shown_def by (blast intro: later_in)

section \<open>Rules\<close>

locale ovn_reader =
  fixes e :: ovn_exec and G :: "ohist \<Rightarrow> string list \<Rightarrow> bool"
  assumes read_free: "reads e q \<Longrightarrow> G h q"
begin

lemma run_rule:
  assumes "G h (full_command e cmd args)" and "\<And>h' x. later h h' \<Longrightarrow> Q h' (Inl x)"
    and "\<And>out. Q (h @ [(full_command e cmd args, RunOutput out)]) (Inr out)"
  shows "always G (ovn_run e cmd args) Q h"
  using assms by (auto simp: ovn_run_def split: run_resp.split)

lemma query_rule:
  assumes "\<And>h' x. later h h' \<Longrightarrow> Q h' (Inl x)"
    and "\<And>h' rows. later h h' \<Longrightarrow> shown e h' cmd columns table conditions rows \<Longrightarrow> Q h' (Inr rows)"
  shows "always G (ovn_query e cmd columns table conditions) Q h"
proof (cases "query_args columns table conditions")
  case (Inl x)
  with assms(1) show ?thesis by (simp add: ovn_query_def lift_res_def)
next
  case (Inr args)
  have "reads e (full_command e cmd args)" using Inr unfolding reads_def by blast
  moreover have "Q (h @ [(full_command e cmd args, RunOutput out)])
      (case table_rows columns out of Inl x \<Rightarrow> Inl (Errorf x) | Inr rows \<Rightarrow> Inr rows)" for out
    using Inr by (auto intro!: assms simp: shown_def split: sum.split)
  ultimately have "always G (ebind (ovn_run e cmd args) (\<lambda>out. pure_res (table_rows columns out))) Q h"
    unfolding always_ebind by (intro run_rule read_free) (auto intro: assms(1))
  with Inr show ?thesis by (simp add: ovn_query_def lift_res_def)
qed

text \<open>A query as the first step.\<close>

lemma query_step:
  assumes "\<And>h' x. later h h' \<Longrightarrow> Q h' (Inl x)"
    and "\<And>h' rows. later h h' \<Longrightarrow> shown e h' cmd columns table conditions rows \<Longrightarrow> always G (k rows) Q h'"
  shows "always G (ebind (ovn_query e cmd columns table conditions) k) Q h"
  unfolding always_ebind by (rule query_rule) (simp_all add: assms)

lemma if_step: "(b \<Longrightarrow> always G p Q h) \<Longrightarrow> (\<not> b \<Longrightarrow> always G q Q h) \<Longrightarrow> always G (if b then p else q) Q h"
  and ret_step: "Q h x \<Longrightarrow> always G (Ret x) Q h"
  by simp_all

text \<open>A value is decoded, or the operation fails.\<close>

lemma value_step:
  assumes "\<And>x. Q h (Inl x)" and "\<And>a. m = Inr a \<Longrightarrow> always G (k a) Q h"
  shows "always G (ebind (pure_res m) k) Q h"
  using assms by (cases m) (simp_all add: lift_res_def)

lemmas steps = if_step ret_step query_step value_step

end

section \<open>Observations only read\<close>

abbreviation quiet :: "('q \<Rightarrow> bool) \<Rightarrow> ('q, 'r, 'a) prog \<Rightarrow> bool" where
  "quiet ok p \<equiv> steady ok p (\<lambda>_. True)"

lemma quiet_ebind: "quiet ok p \<Longrightarrow> (\<And>a. quiet ok (f a)) \<Longrightarrow> quiet ok (ebind p f)"
  and quiet_pbind: "quiet ok p' \<Longrightarrow> (\<And>a. quiet ok (f' a)) \<Longrightarrow> quiet ok (pbind p' f')"
  and quiet_if: "quiet ok a \<Longrightarrow> quiet ok b \<Longrightarrow> quiet ok (if t then a else b)"
  and quiet_ret: "quiet ok (Ret v)" and quiet_lift: "quiet ok (lift_res g m)"
  by (auto elim!: steady_mono split: sum.split)

lemma quiet_efold: "(\<And>s x. quiet ok (f s x)) \<Longrightarrow> quiet ok (efold f s xs)"
  by (induction xs arbitrary: s) (auto intro!: quiet_ebind quiet_ret simp del: steady_ebind)

lemma quiet_query: "quiet (reads e) (ovn_query e cmd columns table conditions)"
proof (cases "query_args columns table conditions")
  case (Inr args)
  then have "reads e (full_command e cmd args)" unfolding reads_def by blast
  with Inr show ?thesis by (auto simp: ovn_query_def ovn_run_def lift_res_def split: run_resp.split sum.split)
qed (simp add: ovn_query_def lift_res_def)

lemma quiet_pair: "(\<And>a b. quiet ok (f a b)) \<Longrightarrow> quiet ok (case x of (a, b) \<Rightarrow> f a b)"
  and quiet_option: "quiet ok p \<Longrightarrow> (\<And>a. quiet ok (k a)) \<Longrightarrow> quiet ok (case o' of None \<Rightarrow> p | Some a \<Rightarrow> k a)"
  by (simp_all split: prod.split option.split)

lemmas quiet_intros = quiet_ebind quiet_pbind quiet_if quiet_ret quiet_lift quiet_efold quiet_query quiet_pair quiet_option

lemma quiet_routes_match: "quiet (reads e) (routes_match e c bfd want refs)"
  by (induction refs arbitrary: want) (auto intro!: quiet_intros simp del: steady_ebind)

lemma quiet_all_absent: "quiet (reads e) (all_absent e c qs)"
  by (induction qs) (auto intro!: quiet_intros simp del: steady_ebind)

lemma quiet_check: "quiet (reads e) (check_network e c)"
  unfolding check_network_def check_chassis_def by (intro quiet_intros)

lemma quiet_switch_ports: "quiet (reads e) (switch_ports e c ls)"
  unfolding switch_ports_def read_port_def by (intro quiet_intros)

lemma quiet_observations: "quiet (reads e) (endpoints_empty_of e c ls)" "quiet (reads e) (local_absent e c vpc ls transit)"
  "quiet (reads e) (routes_ready e c router routes)" "quiet (reads e) (connected e c ts port peers)"
  "quiet (reads e) (find_transit e cmd ts owner expected)"
  unfolding endpoints_empty_of_def local_absent_def routes_ready_def connected_def find_transit_def
  by (intro quiet_intros quiet_switch_ports quiet_all_absent quiet_routes_match)+

section \<open>The contract of the adapter\<close>

text \<open>A transit switch row of this name and owner, with the expected UUID if one is.\<close>

definition transit_shown :: "ovn_exec \<Rightarrow> ohist \<Rightarrow> string list \<Rightarrow> string \<Rightarrow> string \<Rightarrow> string \<Rightarrow> string \<Rightarrow> bool" where
  "transit_shown e h cmd name owner expected u \<longleftrightarrow> (\<exists>r ids.
     shown e h cmd ''_uuid,name,external_ids'' ''Transit_Switch'' [condition_arg ''name'' name] [r]
     \<and> cell r ''name'' = JStr name \<and> uuid_value (cell r ''_uuid'') = Inr u
     \<and> map_value (cell r ''external_ids'') = Inr ids \<and> mget ids owner_key = owner \<and> (expected = [] \<or> u = expected))"

definition transit_absent :: "ovn_exec \<Rightarrow> ohist \<Rightarrow> string list \<Rightarrow> string \<Rightarrow> bool" where
  "transit_absent e h cmd name \<longleftrightarrow> shown e h cmd ''_uuid,name,external_ids'' ''Transit_Switch'' [condition_arg ''name'' name] []"

text \<open>The switch carries no marker, and no other switch carries this one.\<close>

definition unmarked_switch :: "ovn_exec \<Rightarrow> ohist \<Rightarrow> domain_cluster \<Rightarrow> string \<Rightarrow> string \<Rightarrow> bool" where
  "unmarked_switch e h c ts u \<longleftrightarrow> (\<exists>r other markers.
     shown e h (dc_nb_command c) ''_uuid,name,other_config'' ''Logical_Switch'' [condition_arg ''name'' ts] [r]
     \<and> cell r ''name'' = JStr ts \<and> uuid_value (cell r ''_uuid'') = Inr u
     \<and> map_value (cell r ''other_config'') = Inr other \<and> map_of other ''interconn-ts'' = None
     \<and> shown e h (dc_nb_command c) ''_uuid'' ''Logical_Switch'' [condition_arg ''other_config:interconn-ts'' ts] markers
     \<and> (\<forall>m\<in>set markers. uuid_value (cell m ''_uuid'') = Inr u))"

definition port_shown :: "ovn_exec \<Rightarrow> ohist \<Rightarrow> domain_cluster \<Rightarrow> string \<Rightarrow> string \<Rightarrow> string list \<Rightarrow> bool" where
  "port_shown e h c port u refs \<longleftrightarrow> (\<exists>r.
     shown e h (dc_nb_command c) ''_uuid,name,gateway_chassis'' ''Logical_Router_Port'' [condition_arg ''name'' port] [r]
     \<and> cell r ''name'' = JStr port \<and> uuid_value (cell r ''_uuid'') = Inr u \<and> set_value (cell r ''gateway_chassis'') True = Inr refs)"

text \<open>The one kind of write that an operation may issue, after what it has read.\<close>

fun adapter_write :: "ovn_exec \<Rightarrow> net_req \<Rightarrow> ohist \<Rightarrow> string list \<Rightarrow> bool" where
  "adapter_write e (EnsureTransit cmd name owner expected) h q \<longleftrightarrow>
     expected = [] \<and> transit_absent e h cmd name \<and> q = full_command e cmd (create_transit_args name owner)"
| "adapter_write e (DeleteTransit cmd name owner expected) h q \<longleftrightarrow>
     (\<exists>u. transit_shown e h cmd name owner expected u \<and> q = full_command e cmd (delete_transit_args u name owner))"
| "adapter_write e (MarkSwitch c ts) h q \<longleftrightarrow>
     (\<exists>u. unmarked_switch e h c ts u \<and> q = full_command e (dc_nb_command c) (mark_args u ts))"
| "adapter_write e (SetGateways c port) h q \<longleftrightarrow>
     (\<exists>u refs. port_shown e h c port u refs \<and> distinct (dc_gateway_chassis c)
        \<and> q = full_command e (dc_nb_command c) (gateways_args port u refs (dc_gateway_chassis c)))"
| "adapter_write e (InspectTransit cmd name owner expected) h q \<longleftrightarrow> False"
| "adapter_write e (CheckNetwork c) h q \<longleftrightarrow> False"
| "adapter_write e (EndpointsEmpty c subnet) h q \<longleftrightarrow> False"
| "adapter_write e (LocalAbsent c vpc subnet transit) h q \<longleftrightarrow> False"
| "adapter_write e (Connected c ts port peers) h q \<longleftrightarrow> False"
| "adapter_write e (RoutesReady c router routes) h q \<longleftrightarrow> False"

definition adapter_contract :: "ovn_exec \<Rightarrow> net_req \<Rightarrow> ohist \<Rightarrow> string list \<Rightarrow> bool" where
  "adapter_contract e req h q \<longleftrightarrow> reads e q \<or> adapter_write e req h q"

lemma transit_shown_later: "transit_shown e h cmd name owner expected u \<Longrightarrow> later h h' \<Longrightarrow> transit_shown e h' cmd name owner expected u"
  and transit_absent_later: "transit_absent e h cmd name \<Longrightarrow> later h h' \<Longrightarrow> transit_absent e h' cmd name"
  unfolding transit_shown_def transit_absent_def by (blast intro: shown_later)+

lemma uuid_value_not_empty: "uuid_value j = Inr u \<Longrightarrow> u \<noteq> []"
  by (auto dest: uuid_value_ok simp: uuid_ok_def)

lemma transit_shownI:
  assumes "shown e h cmd ''_uuid,name,external_ids'' ''Transit_Switch'' [condition_arg ''name'' name] rows" and "named_single rows name = Inr r"
    and "uuid_value (cell r ''_uuid'') = Inr u" and "map_value (cell r ''external_ids'') = Inr ids"
    and "mget ids owner_key = owner" and "expected = [] \<or> u = expected"
  shows "transit_shown e h cmd name owner expected u"
  using assms by (auto simp: transit_shown_def dest: named_single_name)

section \<open>The operations under a contract\<close>

context ovn_reader
begin

text \<open>A loop whose body only reads.\<close>

lemma efold_step:
  assumes "\<And>s x. quiet (reads e) (f s x)" and "\<And>h' x. later h h' \<Longrightarrow> Q h' (Inl x)" and "\<And>h' s'. later h h' \<Longrightarrow> always G (k s') Q h'"
  shows "always G (ebind (efold f s xs) k) Q h"
  unfolding always_ebind
  by (rule steady_always [OF quiet_efold [OF assms(1)], where I = "later h"])
    (use assms(2,3) read_free in \<open>auto intro: later_snoc split: sum.split\<close>)

lemma find_rule:
  assumes "\<And>h' x. later h h' \<Longrightarrow> Q h' (Inl x)" and "\<And>h'. later h h' \<Longrightarrow> transit_absent e h' cmd name \<Longrightarrow> Q h' (Inr [])"
    and "\<And>h' u. later h h' \<Longrightarrow> transit_shown e h' cmd name owner expected u \<Longrightarrow> u \<noteq> [] \<Longrightarrow> Q h' (Inr u)"
  shows "always G (find_transit e cmd name owner expected) Q h"
proof -
  have found: "Q h' (Inr u)" if "later h h'" and "shown e h' cmd ''_uuid,name,external_ids'' ''Transit_Switch'' [condition_arg ''name'' name] rows"
      "named_single rows name = Inr r" "uuid_value (cell r ''_uuid'') = Inr u" "map_value (cell r ''external_ids'') = Inr ids"
      "\<not> mget ids owner_key \<noteq> owner" "\<not> (expected \<noteq> [] \<and> u \<noteq> expected)" for h' rows r u ids
    using that by (intro assms(3) transit_shownI uuid_value_not_empty) auto
  have none: "Q h' (Inr [])" if "later h h'" "shown e h' cmd ''_uuid,name,external_ids'' ''Transit_Switch'' [condition_arg ''name'' name] rows" "rows = []" for h' rows
    using that by (simp add: assms(2) transit_absent_def)
  show ?thesis unfolding find_transit_def
    by (intro steps) ((rule none, assumption+) | (rule found, assumption+) | (rule assms(1), (rule later_refl | assumption)))+
qed

end

interpretation ad: ovn_reader e "adapter_contract e req" for e req
  by unfold_locales (simp add: adapter_contract_def)

lemma quiet_contract:
  assumes "quiet (reads e) p"
  shows "always (adapter_contract e req) (pbind p (\<lambda>x. Ret (f x))) (\<lambda>_ _. True) h"
proof -
  from assms have "always (adapter_contract e req) p (\<lambda>_ _. True) h"
    by (rule steady_always [where I = "\<lambda>_. True"]) (simp_all add: adapter_contract_def)
  then show ?thesis by simp
qed

section \<open>The writes\<close>

lemma write_step:
  assumes "adapter_write e req h (full_command e cmd args)"
  shows "always (adapter_contract e req) (ebind (ovn_run e cmd args) (\<lambda>_. go a)) (\<lambda>_ _. True) h"
  unfolding always_ebind by (rule ad.run_rule) (use assms in \<open>simp_all add: adapter_contract_def\<close>)

lemma ensure_contract: "always (adapter_contract e (EnsureTransit cmd ts owner expected)) (ensure_transit e cmd ts owner expected) (\<lambda>_ _. True) h"
proof -
  let ?G = "adapter_contract e (EnsureTransit cmd ts owner expected)"
  have "always ?G (pbind (ovn_run e cmd (create_transit_args ts owner)) (\<lambda>made. ebind (find_transit e cmd ts owner []) (\<lambda>u.
       if u \<noteq> [] then go u else leave (case made of Inl x \<Rightarrow> x | Inr _ \<Rightarrow> Errorf ''transit creation did not produce an owned row''))))
     (\<lambda>_ _. True) h'" if "transit_absent e h' cmd ts" "expected = []" for h'
    unfolding always_pbind
    by (rule ad.run_rule) (use that in \<open>auto intro!: ad.find_rule simp: adapter_contract_def\<close>)
  then show ?thesis
    unfolding ensure_transit_def always_ebind by (intro ad.find_rule) (auto simp del: always_pbind)
qed

lemma delete_contract: "always (adapter_contract e (DeleteTransit cmd ts owner expected)) (delete_transit e cmd ts owner expected) (\<lambda>_ _. True) h"
  unfolding delete_transit_def always_ebind [of _ "find_transit e cmd ts owner expected"]
  by (rule ad.find_rule) (auto intro!: write_step simp del: always_ebind)

lemma unmarked_switchI:
  assumes "shown e h1 (dc_nb_command c) ''_uuid,name,other_config'' ''Logical_Switch'' [condition_arg ''name'' ts] rows" and "later h1 h"
    and "named_single rows ts = Inr r" and "uuid_value (cell r ''_uuid'') = Inr u" and "map_value (cell r ''other_config'') = Inr other"
    and "\<not> (map_of other ''interconn-ts'' \<noteq> None \<and> map_of other ''interconn-ts'' \<noteq> Some ts)"
    and "shown e h (dc_nb_command c) ''_uuid'' ''Logical_Switch'' [condition_arg ''other_config:interconn-ts'' ts] markers"
    and "check_markers u markers = Inr ok" and "map_of other ''interconn-ts'' \<noteq> Some ts"
  shows "unmarked_switch e h c ts u"
proof -
  have "\<forall>m\<in>set markers. uuid_value (cell m ''_uuid'') = Inr u"
    using assms(8) by (auto simp: check_markers_def split: list.splits)
  with assms shown_later [OF assms(1,2)] show ?thesis
    unfolding unmarked_switch_def by (auto dest!: named_single_name)
qed

lemma mark_contract: "always (adapter_contract e (MarkSwitch c ts)) (mark_switch e c ts) (\<lambda>_ _. True) h"
proof -
  have put: "adapter_write e (MarkSwitch c ts) h (full_command e (dc_nb_command c) (mark_args u ts))" if "unmarked_switch e h c ts u" for h u
    using that by auto
  show ?thesis unfolding mark_switch_def
    by (intro ad.steps write_step put TrueI) (erule unmarked_switchI, assumption+)
qed

lemma want_chassis_step: "want_chassis want ic = Inr want' \<Longrightarrow> snd ic \<notin> set (map fst want) \<and> map fst want' = map fst want @ [snd ic]"
  by (auto simp: want_chassis_def map_of_eq_None_iff split: if_splits prod.splits)

lemma want_chassis_distinct:
  assumes "foldr_res want_chassis [] (enumerate 0 cs) = Inr want"
  shows "distinct cs"
proof -
  have "distinct (map snd (enumerate 0 cs)) \<and> map fst want = map snd (enumerate 0 cs)"
  proof (rule foldr_res_invariant [OF assms, where I = "\<lambda>ics want. distinct (map snd ics) \<and> map fst want = map snd ics"], goal_cases)
    case (2 seen ic want want')
    from want_chassis_step [OF this(3)] this(1) show ?case by simp
  qed simp
  then show ?thesis by simp
qed

lemma gateways_contract: "always (adapter_contract e (SetGateways c port)) (set_gateways e c port) (\<lambda>_ _. True) h"
proof -
  have put: "adapter_write e (SetGateways c port) h (full_command e (dc_nb_command c) (gateways_args port u refs (dc_gateway_chassis c)))"
    if "foldr_res want_chassis [] (enumerate 0 (dc_gateway_chassis c)) = Inr want"
      "shown e h (dc_nb_command c) ''_uuid,name,gateway_chassis'' ''Logical_Router_Port'' [condition_arg ''name'' port] rows" "named_single rows port = Inr r"
      "uuid_value (cell r ''_uuid'') = Inr u" "set_value (cell r ''gateway_chassis'') True = Inr refs" for want h rows r u refs
    using that by (auto simp: port_shown_def dest!: named_single_name intro: want_chassis_distinct)
  have free: "quiet (reads e) (read_chassis e c st ref)" for st ref
    unfolding read_chassis_def by (auto intro!: quiet_intros simp del: steady_ebind split: prod.split option.split)
  show ?thesis unfolding set_gateways_def
    by (intro ad.steps ad.efold_step write_step put free TrueI) (assumption | erule shown_later)+
qed

section \<open>Routes that were read\<close>

definition router_shown :: "ovn_exec \<Rightarrow> ohist \<Rightarrow> domain_cluster \<Rightarrow> string \<Rightarrow> string list \<Rightarrow> bool" where
  "router_shown e h c router refs \<longleftrightarrow> (\<exists>r. shown e h (dc_nb_command c) ''name,static_routes'' ''Logical_Router'' [condition_arg ''name'' router] [r]
     \<and> cell r ''name'' = JStr router \<and> set_value (cell r ''static_routes'') True = Inr refs)"

definition route_shown :: "ovn_exec \<Rightarrow> ohist \<Rightarrow> domain_cluster \<Rightarrow> bool \<Rightarrow> string \<Rightarrow> ovn_route option \<Rightarrow> bool" where
  "route_shown e h c bfd ref k \<longleftrightarrow> (\<exists>r. shown e h (dc_nb_command c) (route_columns bfd) ''Logical_Router_Static_Route'' [uuid_selector @ ref] [r]
     \<and> route_key bfd r = Inr k)"

definition uses_bfd :: "ovn_route list \<Rightarrow> bool" where
  "uses_bfd routes \<longleftrightarrow> list_ex (\<lambda>r. rt_bfd r \<noteq> []) routes"

text \<open>The router has these routes and no others, each as often as it is listed.\<close>

definition routes_same :: "ovn_exec \<Rightarrow> ohist \<Rightarrow> domain_cluster \<Rightarrow> string \<Rightarrow> ovn_route list \<Rightarrow> bool" where
  "routes_same e h c router routes \<longleftrightarrow> (\<exists>refs keys. router_shown e h c router refs
     \<and> list_all2 (\<lambda>ref key. route_shown e h c (uses_bfd routes) ref (Some key)) refs keys \<and> mset keys = mset (map expected_route routes))"

text \<open>The router is missing, has another number of routes, or some routes that are not among them.\<close>

definition routes_differ :: "ovn_exec \<Rightarrow> ohist \<Rightarrow> domain_cluster \<Rightarrow> string \<Rightarrow> ovn_route list \<Rightarrow> bool" where
  "routes_differ e h c router routes \<longleftrightarrow>
     shown e h (dc_nb_command c) ''name,static_routes'' ''Logical_Router'' [condition_arg ''name'' router] []
     \<or> (\<exists>refs. router_shown e h c router refs \<and> (length refs \<noteq> length routes
          \<or> (\<exists>seen ref rest keys. refs = seen @ ref # rest \<and> list_all2 (\<lambda>ref key. route_shown e h c (uses_bfd routes) ref (Some key)) seen keys
              \<and> (route_shown e h c (uses_bfd routes) ref None
                 \<or> (\<exists>key. route_shown e h c (uses_bfd routes) ref (Some key) \<and> \<not> mset (keys @ [key]) \<subseteq># mset (map expected_route routes))))))"

lemma route_shown_later: "route_shown e h c bfd ref k \<Longrightarrow> later h h' \<Longrightarrow> route_shown e h' c bfd ref k"
  and router_shown_later: "router_shown e h c router refs \<Longrightarrow> later h h' \<Longrightarrow> router_shown e h' c router refs"
  unfolding route_shown_def router_shown_def by (blast intro: shown_later)+

lemma routes_shown_later:
  "list_all2 (\<lambda>ref key. route_shown e h c bfd ref (Some key)) refs keys \<Longrightarrow> later h h' \<Longrightarrow> list_all2 (\<lambda>ref key. route_shown e h' c bfd ref (Some key)) refs keys"
  by (auto elim!: list_all2_mono intro: route_shown_later)

lemma want_route_counts:
  assumes "foldr_res want_route (\<lambda>_. 0, False) routes = Inr (want, bfd)"
  shows "want = count (mset (map expected_route routes)) \<and> bfd = uses_bfd routes"
proof -
  have "fst (want, bfd) = count (mset (map expected_route routes)) \<and> snd (want, bfd) = uses_bfd routes"
  proof (rule foldr_res_invariant [OF assms, where I = "\<lambda>rs st. fst st = count (mset (map expected_route rs)) \<and> snd st = uses_bfd rs"], goal_cases)
    case (2 seen r st st')
    then show ?case by (auto simp: want_route_def uses_bfd_def expected_route_def Let_def fun_eq_iff split: prod.splits if_splits)
  qed (auto simp: uses_bfd_def)
  then show ?thesis by simp
qed

definition routes_answer :: "ovn_exec \<Rightarrow> domain_cluster \<Rightarrow> string \<Rightarrow> ovn_route list \<Rightarrow> ohist \<Rightarrow> err + bool \<Rightarrow> bool" where
  "routes_answer e c router routes h x \<longleftrightarrow> (case x of
      Inl _ \<Rightarrow> True | Inr b \<Rightarrow> if b then routes_same e h c router routes else routes_differ e h c router routes)"

interpretation anyone: ovn_reader e "\<lambda>_ _. True" for e
  by unfold_locales simp

lemma routes_match_rule:
  assumes "router_shown e h c router (seen @ refs)" and "length (seen @ refs) = length routes"
    and "list_all2 (\<lambda>ref key. route_shown e h c (uses_bfd routes) ref (Some key)) seen keys"
    and "mset keys \<subseteq># mset (map expected_route routes)" and "want = count (mset (map expected_route routes) - mset keys)"
  shows "always (\<lambda>_ _. True) (routes_match e c (uses_bfd routes) want refs) (routes_answer e c router routes) h"
  using assms
proof (induction refs arbitrary: seen keys want h)
  case Nil
  then have "size (mset keys) = size (mset (map expected_route routes))" by (simp add: list_all2_lengthD [symmetric])
  with Nil.prems(4) have "mset keys = mset (map expected_route routes)" by (metis mset_subset_size subset_mset.le_imp_less_or_eq less_irrefl)
  with Nil.prems show ?case by (auto simp: routes_answer_def routes_same_def)
next
  case (Cons ref refs)
  let ?all = "mset (map expected_route routes)"
  have go_on: "always (\<lambda>_ _. True) (case k of None \<Rightarrow> go False | Some key \<Rightarrow>
        if want key = 0 then go False else routes_match e c (uses_bfd routes) (want(key := want key - 1)) refs) (routes_answer e c router routes) h'"
    if on: "later h h'" and k: "route_shown e h' c (uses_bfd routes) ref k" for h' k
  proof -
    note before = router_shown_later [OF Cons.prems(1) on] routes_shown_later [OF Cons.prems(3) on]
    have differ: "routes_differ e h' c router routes"
      if "k = None \<or> (\<exists>key. k = Some key \<and> \<not> mset (keys @ [key]) \<subseteq># ?all)"
      using before k that Cons.prems(2) unfolding routes_differ_def by blast
    show ?thesis
    proof (cases k)
      case None
      with differ show ?thesis by (simp add: routes_answer_def)
    next
      case (Some key)
      show ?thesis
      proof (cases "want key = 0")
        case True
        then have "\<not> mset (keys @ [key]) \<subseteq># ?all"
          using Cons.prems(4,5) by (auto simp: subseteq_mset_def dest: spec [of _ key])
        with differ Some True show ?thesis by (simp add: routes_answer_def)
      next
        case False
        then have "mset (keys @ [key]) \<subseteq># ?all" and "want(key := want key - 1) = count (?all - mset (keys @ [key]))"
          using Cons.prems(4,5) by (auto simp: subseteq_mset_def fun_eq_iff)
        moreover have "list_all2 (\<lambda>ref key. route_shown e h' c (uses_bfd routes) ref (Some key)) (seen @ [ref]) (keys @ [key])"
          using before(2) k Some by (intro list_all2_appendI) simp_all
        ultimately show ?thesis
          using Some False before(1) Cons.prems(2) by (simp add: Cons.IH [of h' "seen @ [ref]"] del: fun_upd_apply)
      qed
    qed
  qed
  show ?case unfolding routes_match.simps
    by (intro anyone.steps go_on) (auto simp: routes_answer_def route_shown_def single_row_def split: list.splits)
qed

lemma routes_ready_rule: "always (\<lambda>_ _. True) (routes_ready e c router routes) (routes_answer e c router routes) []"
proof -
  have fails: "routes_answer e c router routes h (Inl x)" for h x by (simp add: routes_answer_def)
  have differ: "routes_answer e c router routes h (Inr False)" if "routes_differ e h c router routes" for h
    using that by (simp add: routes_answer_def)
  have missing: "routes_differ e h c router routes"
    if "shown e h (dc_nb_command c) ''name,static_routes'' ''Logical_Router'' [condition_arg ''name'' router] rows" "rows = []" for h rows
    using that by (simp add: routes_differ_def)
  have router: "router_shown e h c router refs"
    if "shown e h (dc_nb_command c) ''name,static_routes'' ''Logical_Router'' [condition_arg ''name'' router] rows"
      "named_single rows router = Inr r" "set_value (cell r ''static_routes'') True = Inr refs" for h rows r refs
    using that by (auto simp: router_shown_def dest: named_single_name)
  have other: "routes_differ e h c router routes" if "router_shown e h c router refs" "length refs \<noteq> length routes" for h refs
    using that by (auto simp: routes_differ_def)
  have loop: "always (\<lambda>_ _. True) (case st of (want, bfd) \<Rightarrow> routes_match e c bfd want refs) (routes_answer e c router routes) h"
    if "router_shown e h c router refs" "\<not> length refs \<noteq> length routes" "foldr_res want_route (\<lambda>_. 0, False) routes = Inr st" for h refs st
    using that routes_match_rule [of e h c router "[]" refs routes "[]"] by (cases st) (auto dest!: want_route_counts)
  show ?thesis unfolding routes_ready_def
    by (intro anyone.steps fails differ)
      ((rule missing, assumption, assumption) | (rule other, (rule router, assumption, assumption, assumption), assumption) | (rule loop, (rule router, assumption, assumption, assumption), assumption, assumption))+
qed

text \<open>The result of an operation on the transit switch, against what was read.\<close>

fun transit_answer :: "ovn_exec \<Rightarrow> net_req \<Rightarrow> ohist \<Rightarrow> net_resp \<Rightarrow> bool" where
  "transit_answer e (InspectTransit cmd name owner expected) h (NetId (Inr u)) \<longleftrightarrow>
     (if u = [] then transit_absent e h cmd name else transit_shown e h cmd name owner expected u)"
| "transit_answer e (EnsureTransit cmd name owner expected) h (NetId (Inr u)) \<longleftrightarrow> transit_shown e h cmd name owner expected u"
| "transit_answer e (DeleteTransit cmd name owner expected) h (NetDone (Inr ())) \<longleftrightarrow> transit_absent e h cmd name
     \<or> (\<exists>u out. transit_shown e h cmd name owner expected u \<and> (full_command e cmd (delete_transit_args u name owner), RunOutput out) \<in> set h)"
| "transit_answer e req h x \<longleftrightarrow> True"

lemma inspect_answer: "always (\<lambda>_ _. True) (perform e (InspectTransit cmd ts owner expected)) (transit_answer e (InspectTransit cmd ts owner expected)) h"
  unfolding perform.simps always_pbind by (rule anyone.find_rule) auto

lemma ensure_answer: "always (\<lambda>_ _. True) (perform e (EnsureTransit cmd ts owner expected)) (transit_answer e (EnsureTransit cmd ts owner expected)) h"
proof -
  let ?Q = "\<lambda>h x. transit_answer e (EnsureTransit cmd ts owner expected) h (NetId x)"
  have "always (\<lambda>_ _. True) (pbind (ovn_run e cmd (create_transit_args ts owner)) (\<lambda>made. ebind (find_transit e cmd ts owner []) (\<lambda>u.
       if u \<noteq> [] then go u else leave (case made of Inl x \<Rightarrow> x | Inr _ \<Rightarrow> Errorf ''transit creation did not produce an owned row'')))) ?Q h'"
    if "expected = []" for h'
    unfolding always_pbind by (rule anyone.run_rule) (use that in \<open>auto intro!: anyone.find_rule\<close>)
  then show ?thesis
    unfolding perform.simps ensure_transit_def always_pbind [of _ "ebind _ _"] always_ebind [of _ "find_transit e cmd ts owner expected"]
    by (intro anyone.find_rule) (auto simp del: always_pbind always_ebind simp: always.simps)
qed

lemma delete_answer: "always (\<lambda>_ _. True) (perform e (DeleteTransit cmd ts owner expected)) (transit_answer e (DeleteTransit cmd ts owner expected)) h"
proof -
  let ?Q = "\<lambda>h x. transit_answer e (DeleteTransit cmd ts owner expected) h (NetDone x)"
  have "always (\<lambda>_ _. True) (ebind (ovn_run e cmd (delete_transit_args u ts owner)) (\<lambda>_. go ())) ?Q h'"
    if "transit_shown e h' cmd ts owner expected u" for h' u
    unfolding always_ebind
    by (rule anyone.run_rule) (use that in \<open>auto intro: transit_shown_later [OF _ later_append]\<close>)
  then show ?thesis
    unfolding perform.simps delete_transit_def always_pbind always.simps always_ebind [of _ "find_transit e cmd ts owner expected"]
    by (intro anyone.find_rule) (auto simp del: always_ebind)
qed

section \<open>The properties\<close>

lemma perform_contract: "always (adapter_contract e req) (perform e req) (\<lambda>_ _. True) h"
  by (cases req) (simp_all only: perform.simps, simp_all add: ensure_contract delete_contract mark_contract gateways_contract
    quiet_contract [of _ _ _ id, simplified] quiet_check quiet_observations del: always_ebind)

text \<open>
  C7: Whatever the databases answer, an operation of the adapter issues only queries and its own kind of
  write, and the write names rows that were read before in the same call: a transit switch is created only where a
  query showed none and none was expected; it is destroyed only by the UUID of a row that was read with this
  name, this owner and the expected UUID; a switch is marked only by the UUID of a row that was read without marker
  while no other switch carries it; the chassis of a port are replaced only for a port that was read and a list
  without duplicates. The observations write nothing.
\<close>

theorem adapter_writes_guarded: "every_step (adapter_contract e req) (perform e req)"
  by (rule every_stepI [OF perform_contract])

text \<open>
  In every run of the adapter, what an operation on a transit switch answers was read from the database in that
  run: a UUID it returns is the one of a row with this name and this owner, and the expected one if one was
  expected; an empty UUID means that a query showed no such row; and a deletion that succeeds either saw no
  row or its guarded command, naming the UUID of the row that was read, was accepted.
\<close>

theorem transit_answers: "every_outcome (transit_answer e req) (perform e req)"
proof (rule every_outcomeI)
  show "always (\<lambda>_ _. True) (perform e req) (transit_answer e req) []"
  proof (cases "(\<exists>cmd ts owner u. req = InspectTransit cmd ts owner u) \<or> (\<exists>cmd ts owner u. req = EnsureTransit cmd ts owner u)
      \<or> (\<exists>cmd ts owner u. req = DeleteTransit cmd ts owner u)")
    case True
    then show ?thesis using inspect_answer ensure_answer delete_answer by blast
  next
    case False
    then have "transit_answer e req h x" for h x by (cases req) auto
    moreover have "always (\<lambda>_ _. True) p (\<lambda>_ _. True) h" for p :: "(string list, run_resp, net_resp) prog" and h
      by (induction p arbitrary: h) simp_all
    ultimately show ?thesis by (blast intro: always_mono)
  qed
qed

text \<open>
  C36: The routes of a router are ready exactly when they are the expected ones: in every run, the answer yes means
  that the router was read, that each of its routes was read, and that these routes are the expected ones
  with their multiplicities (an empty policy standing for \<open>dst-ip\<close>, the BFD session compared if any is expected);
  the answer no means that there is no such router, or it has another number of routes, or some of the
  routes that were read are no part of the expected ones. Anything unreadable is an error and neither.
\<close>

theorem routes_ready_exact: "every_outcome (routes_answer e c router routes) (routes_ready e c router routes)"
  by (rule every_outcomeI [OF routes_ready_rule])

end
