(* ===== verification/Api_Plug.thy ===== *)
theory Api_Plug
  imports Api_Wire
begin

text \<open>
  Composition. \<open>plug f p\<close> answers each request of \<open>p\<close> by running the program \<open>f q\<close>, so a controller and the adapters
  behind its interfaces become one program over the calls of the adapters. \<open>explains\<close> relates the history of the
  whole to the history of the controller: each answer is the result of a complete run. A contract of the controller
  and the contracts of the adapters make a contract of the whole.
\<close>

section \<open>Monad laws\<close>

lemma pbind_Ret [simp]: "pbind p Ret = p"
  by (induction p) simp_all

lemma pbind_pbind: "pbind (pbind p f) g = pbind p (\<lambda>x. pbind (f x) g)"
  by (induction p) simp_all

lemma ebind_go:
  fixes p :: "('q, 'r, 'e + 'a) prog"
  shows "ebind p go = p"
proof -
  have "(case x of Inl e \<Rightarrow> Ret (Inl e) | Inr a \<Rightarrow> go a) = (Ret x :: ('q, 'r, 'e + 'a) prog)" for x :: "'e + 'a"
    by (simp split: sum.split)
  then show ?thesis by (simp add: ebind_def)
qed

lemma ebind_ebind:
  fixes p :: "('q, 'r, 'e + 'a) prog" and f :: "'a \<Rightarrow> ('q, 'r, 'e + 'b) prog" and g :: "'b \<Rightarrow> ('q, 'r, 'e + 'c) prog"
  shows "ebind (ebind p f) g = ebind p (\<lambda>x. ebind (f x) g)"
proof -
  have "pbind (case x of Inl e \<Rightarrow> Ret (Inl e) | Inr a \<Rightarrow> f a) k = (case x of Inl e \<Rightarrow> pbind (Ret (Inl e)) k | Inr a \<Rightarrow> pbind (f a) k)"
    for x and k :: "'e + 'b \<Rightarrow> ('q, 'r, 'e + 'c) prog"
    by (simp split: sum.split)
  then show ?thesis by (simp add: ebind_def pbind_pbind cong: sum.case_cong)
qed

section \<open>Complete runs\<close>

inductive run :: "('q, 'r, 'a) prog \<Rightarrow> ('q \<times> 'r) list \<Rightarrow> 'a \<Rightarrow> bool" where
  run_ret: "run (Ret a) [] a"
| run_call: "run (k r) h a \<Longrightarrow> run (Call q k) ((q, r) # h) a"

inductive_simps run_simps [simp]: "run (Ret a) h b" "run (Call q k) h b"

lemma run_pbind: "run (pbind p f) h b \<longleftrightarrow> (\<exists>h1 h2 a. h = h1 @ h2 \<and> run p h1 a \<and> run (f a) h2 b)"
proof (induction p arbitrary: h)
  case (Call q k)
  show ?case
  proof
    assume "run (pbind (Call q k) f) h b"
    then obtain r t where "h = (q, r) # t" "run (pbind (k r) f) t b" by auto
    with Call.IH [OF rangeI] obtain h1 h2 a where "t = h1 @ h2" "run (k r) h1 a" "run (f a) h2 b" by blast
    with \<open>h = _\<close> have "h = ((q, r) # h1) @ h2 \<and> run (Call q k) ((q, r) # h1) a \<and> run (f a) h2 b" by simp
    then show "\<exists>h1 h2 a. h = h1 @ h2 \<and> run (Call q k) h1 a \<and> run (f a) h2 b" by blast
  next
    assume "\<exists>h1 h2 a. h = h1 @ h2 \<and> run (Call q k) h1 a \<and> run (f a) h2 b"
    then obtain h1 h2 a r where "h = ((q, r) # h1) @ h2" "run (k r) h1 a" "run (f a) h2 b" by auto
    with Call.IH [OF rangeI, of r "h1 @ h2"] show "run (pbind (Call q k) f) h b" by auto
  qed
qed auto

lemma run_wire: "run (wire f g p) h a \<Longrightarrow> \<exists>t. run p t a \<and> map fst h = map (f \<circ> fst) t \<and> map snd t = map (g \<circ> snd) h"
proof (induction p arbitrary: h)
  case (Call q k)
  then obtain r h' where h: "h = (f q, r) # h'" "run (wire f g (k (g r))) h' a" by auto
  with Call.IH [OF rangeI] obtain t where "run (k (g r)) t a" "map fst h' = map (f \<circ> fst) t" "map snd t = map (g \<circ> snd) h'" by blast
  with h show ?case by (intro exI [of _ "(q, g r) # t"]) simp
qed simp

text \<open>What is proved of every branch holds at the end of each run.\<close>

lemma run_outcome: "run p t a \<Longrightarrow> always G p Q h \<Longrightarrow> Q (h @ t) a"
proof (induction p arbitrary: h t)
  case (Call q k)
  then obtain r t' where "t = (q, r) # t'" "run (k r) t' a" by auto
  with Call.IH [OF rangeI, of r t' "h @ [(q, r)]"] Call.prems(2) show ?case by simp
qed simp

section \<open>A program over other programs\<close>

primrec plug :: "('p \<Rightarrow> ('q, 'r, 's) prog) \<Rightarrow> ('p, 's, 'a) prog \<Rightarrow> ('q, 'r, 'a) prog" where
  "plug f (Ret a) = Ret a"
| "plug f (Call q k) = pbind (f q) (\<lambda>y. plug f (k y))"

inductive explains :: "('p \<Rightarrow> ('q, 'r, 's) prog) \<Rightarrow> ('q \<times> 'r) list \<Rightarrow> ('p \<times> 's) list \<Rightarrow> bool" for f where
  explains_nil: "explains f [] []"
| explains_snoc: "explains f h hist \<Longrightarrow> run (f q) t y \<Longrightarrow> explains f (h @ t) (hist @ [(q, y)])"

lemma always_shift:
  assumes "always I p R t"
  shows "always (\<lambda>h x. \<exists>t'. h = h0 @ t' \<and> I t' x) p (\<lambda>h y. \<exists>t'. h = h0 @ t @ t' \<and> run p t' y) (h0 @ t)"
  using assms
proof (induction p arbitrary: t)
  case (Call q k)
  have "always (\<lambda>h x. \<exists>t'. h = h0 @ t' \<and> I t' x) (k r) (\<lambda>h y. \<exists>t'. h = h0 @ t @ t' \<and> run (Call q k) t' y) (h0 @ t @ [(q, r)])" for r
  proof -
    have "always I (k r) R (t @ [(q, r)])" using Call.prems by simp
    have more: "\<exists>t'. h = h0 @ t @ t' \<and> run (Call q k) t' y"
      if "\<exists>t'. h = h0 @ (t @ [(q, r)]) @ t' \<and> run (k r) t' y" for h y
    proof -
      from that obtain t' where "h = h0 @ t @ ((q, r) # t') \<and> run (Call q k) ((q, r) # t') y" by auto
      then show ?thesis by blast
    qed
    show ?thesis by (rule always_mono [OF Call.IH [OF rangeI \<open>always I (k r) R (t @ [(q, r)])\<close>] _ more])
  qed
  with Call.prems show ?case by simp
qed simp

text \<open>The contract of the whole: a request is one of a component, asked by the controller at a history that the whole explains.\<close>

lemma always_plug:
  assumes "always G p Q hist" and "explains f h hist" and "\<And>q. always (I q) (f q) (\<lambda>_ _. True) []"
    and "\<And>h hist q t x. explains f h hist \<Longrightarrow> G hist q \<Longrightarrow> I q t x \<Longrightarrow> G' (h @ t) x"
    and "\<And>h hist a. explains f h hist \<Longrightarrow> Q hist a \<Longrightarrow> Q' h a"
  shows "always G' (plug f p) Q' h"
  using assms(1,2)
proof (induction p arbitrary: h hist)
  case (Call q k)
  have "always G' (plug f (k y)) Q' (h @ t)" if "run (f q) t y" for t y
    using Call.prems that by (intro Call.IH [OF rangeI, of _ "hist @ [(q, y)]"] explains_snoc) auto
  moreover have "always G' (f q) (\<lambda>h' y. \<exists>t. h' = h @ t \<and> run (f q) t y) h"
    by (rule always_mono [OF always_shift [OF assms(3) [of q], of h, simplified]]) (use Call.prems assms(4) in auto)
  ultimately show ?case by (auto elim!: always_mono)
qed (simp add: assms(5))

text \<open>Each answer in the history of the controller comes from a run in the history of the whole.\<close>

lemma explains_run: "explains f h hist \<Longrightarrow> (q, y) \<in> set hist \<Longrightarrow> \<exists>h1 t h2. h = h1 @ t @ h2 \<and> run (f q) t y"
proof (induction rule: explains.induct)
  case (explains_snoc h hist q' t y')
  show ?case
  proof (cases "(q, y) \<in> set hist")
    case True
    with explains_snoc.IH obtain h1 t1 h2 where "h = h1 @ t1 @ h2" "run (f q) t1 y" by blast
    then have "h @ t = h1 @ t1 @ (h2 @ t) \<and> run (f q) t1 y" by simp
    then show ?thesis by blast
  next
    case False
    with explains_snoc have "h @ t = h @ t @ [] \<and> run (f q) t y" by auto
    then show ?thesis by blast
  qed
qed simp

section \<open>One of several interfaces\<close>

text \<open>The part of a history that went through one interface: \<open>sel\<close> recognizes its requests, \<open>ans\<close> reads the answers.\<close>

definition part :: "('x \<Rightarrow> 'q option) \<Rightarrow> ('y \<Rightarrow> 'r) \<Rightarrow> ('x \<times> 'y) list \<Rightarrow> ('q \<times> 'r) list" where
  "part sel ans h = concat (map (\<lambda>(x, y). case sel x of None \<Rightarrow> [] | Some q \<Rightarrow> [(q, ans y)]) h)"

lemma part_simps [simp]: "part sel ans [] = []" "part sel ans (h @ h') = part sel ans h @ part sel ans h'"
  by (simp_all add: part_def)

lemma part_single: "part sel ans [(x, y)] = (case sel x of None \<Rightarrow> [] | Some q \<Rightarrow> [(q, ans y)])"
  by (simp add: part_def)

lemma part_wired:
  assumes "\<And>q. sel (f q) = Some q" and "map fst h = map (f \<circ> fst) t" and "map snd t = map (g \<circ> snd) h"
  shows "part sel g h = t"
  using assms(2,3)
proof (induction t arbitrary: h)
  case (Cons x t)
  then obtain r h' where "h = (f (fst x), r) # h'" by (cases h) auto
  with Cons assms(1) show ?case by (cases x) (auto simp: part_def)
qed simp

text \<open>A run of an adapter inside the whole, and its contract there.\<close>

lemma run_part:
  assumes "run (wire f g (pbind p (\<lambda>y. Ret (k y)))) t x" and "always (\<lambda>_ _. True) p Q []" and "\<And>q. sel (f q) = Some q"
  shows "\<exists>y. x = k y \<and> Q (part sel g t) y"
proof -
  from run_wire [OF assms(1)] obtain u where u: "run (pbind p (\<lambda>y. Ret (k y))) u x" "map fst t = map (f \<circ> fst) u" "map snd u = map (g \<circ> snd) t" by blast
  then obtain y where "run p u y" "x = k y" by (auto simp: run_pbind)
  with run_outcome [OF _ assms(2), of u y] part_wired [of sel f, OF assms(3) u(2,3)] show ?thesis by auto
qed

lemma always_part:
  assumes "always I p (\<lambda>_ _. True) []" and "\<And>q. sel (f q) = Some q" and "\<And>t q. I (part sel g t) q \<Longrightarrow> G t (f q)"
  shows "always G (wire f g (pbind p (\<lambda>y. Ret (k y)))) (\<lambda>_ _. True) []"
  by (rule always_wire [where h' = "[]" and R = "\<lambda>h h'. part sel g h = h'" and G' = I and Q' = "\<lambda>_ _. True"]) (use assms in \<open>auto simp: part_single\<close>)

end
