(* ===== verification/Ovn_Observations.thy ===== *)
theory Ovn_Observations
  imports Ovn_Laws Api_Plug
begin

text \<open>
  What the observations of the adapter mean, as facts about the rows that were read: a switch without endpoints, and
  a topology of which no name is left.
\<close>

section \<open>Drained switches\<close>

definition port_read :: "ovn_exec \<Rightarrow> ohist \<Rightarrow> domain_cluster \<Rightarrow> string \<Rightarrow> ovn_row \<Rightarrow> bool" where
  "port_read e h c ref p \<longleftrightarrow> shown e h (dc_nb_command c) ''name,type,options,addresses'' ''Logical_Switch_Port'' [uuid_selector @ ref] [p]"

definition switch_read :: "ovn_exec \<Rightarrow> ohist \<Rightarrow> domain_cluster \<Rightarrow> string \<Rightarrow> ovn_row list \<Rightarrow> bool" where
  "switch_read e h c name rows \<longleftrightarrow> shown e h (dc_nb_command c) ''_uuid,name,ports,other_config'' ''Logical_Switch'' [condition_arg ''name'' name] rows"

text \<open>The switch is absent, or each of its ports was read and belongs to a router or to another zone.\<close>

definition switch_drained :: "ovn_exec \<Rightarrow> ohist \<Rightarrow> domain_cluster \<Rightarrow> string \<Rightarrow> bool" where
  "switch_drained e h c name \<longleftrightarrow> switch_read e h c name [] \<or> (\<exists>ls refs. switch_read e h c name [ls] \<and> cell ls ''name'' = JStr name
     \<and> set_value (cell ls ''ports'') True = Inr refs
     \<and> (\<forall>ref\<in>set refs. \<exists>p t. port_read e h c ref p \<and> string_value (cell p ''type'') = Inr t \<and> t \<in> {''router'', ''remote''}))"

text \<open>No row of any of the seven names.\<close>

definition names_absent :: "ovn_exec \<Rightarrow> ohist \<Rightarrow> domain_cluster \<Rightarrow> string \<Rightarrow> string \<Rightarrow> string \<Rightarrow> bool" where
  "names_absent e h c vpc subnet transit \<longleftrightarrow>
     (\<forall>(table, name)\<in>set (local_names vpc subnet transit). shown e h (dc_nb_command c) ''_uuid'' table [condition_arg ''name'' name] [])"

lemma port_read_later: "port_read e h c ref p \<Longrightarrow> later h h' \<Longrightarrow> port_read e h' c ref p"
  and switch_read_later: "switch_read e h c name rows \<Longrightarrow> later h h' \<Longrightarrow> switch_read e h' c name rows"
  unfolding port_read_def switch_read_def by (blast intro: shown_later)+

text \<open>A history that contains another.\<close>

lemma shown_mono: "shown e h cmd columns table conditions rows \<Longrightarrow> set h \<subseteq> set h' \<Longrightarrow> shown e h' cmd columns table conditions rows"
  unfolding shown_def by blast

lemma names_absent_mono: "names_absent e h c vpc subnet transit \<Longrightarrow> set h \<subseteq> set h' \<Longrightarrow> names_absent e h' c vpc subnet transit"
  unfolding names_absent_def by (auto intro: shown_mono)

lemma switch_drained_mono:
  assumes "switch_drained e h c name" and "set h \<subseteq> set h'"
  shows "switch_drained e h' c name"
proof -
  have "switch_read e h c name rows \<Longrightarrow> switch_read e h' c name rows" for rows
    unfolding switch_read_def by (rule shown_mono [OF _ assms(2)])
  moreover have "port_read e h c ref p \<Longrightarrow> port_read e h' c ref p" for ref p
    unfolding port_read_def by (rule shown_mono [OF _ assms(2)])
  ultimately show ?thesis using assms(1) unfolding switch_drained_def by meson
qed

lemma list_all2_member: "list_all2 P xs ys \<Longrightarrow> x \<in> set xs \<Longrightarrow> \<exists>y\<in>set ys. P x y"
  by (induction rule: list_all2_induct) auto

lemma ports_read_later: "list_all2 (port_read e h c) refs ports \<Longrightarrow> later h h' \<Longrightarrow> list_all2 (port_read e h' c) refs ports"
  by (auto elim!: list_all2_mono intro: port_read_later)

lemma read_ports_rule:
  assumes "list_all2 (port_read e h c) seen ports"
  shows "always (\<lambda>_ _. True) (efold (read_port e c) ports refs)
    (\<lambda>h' x. later h h' \<and> (case x of Inl _ \<Rightarrow> True | Inr ports' \<Rightarrow> list_all2 (port_read e h' c) (seen @ refs) ports')) h"
  using assms
proof (induction refs arbitrary: seen ports h)
  case (Cons ref refs)
  have one: "always (\<lambda>_ _. True) (read_port e c ports ref)
      (\<lambda>h' x. later h h' \<and> (case x of Inl _ \<Rightarrow> True | Inr ports' \<Rightarrow> list_all2 (port_read e h' c) (seen @ [ref]) ports')) h"
    unfolding read_port_def using Cons.prems
    by (intro anyone.steps)
      (auto simp: port_read_def [of e _ c ref] single_row_def intro!: list_all2_appendI intro: ports_read_later split: list.splits)
  show ?case
    unfolding efold.simps always_ebind
  proof (rule always_mono [OF one])
    fix h' x
    assume "later h h' \<and> (case x of Inl _ \<Rightarrow> True | Inr ports' \<Rightarrow> list_all2 (port_read e h' c) (seen @ [ref]) ports')"
    then show "case x of Inl err \<Rightarrow> later h h' \<and> (case Inl err of Inl _ \<Rightarrow> True | Inr ports' \<Rightarrow> list_all2 (port_read e h' c) (seen @ ref # refs) ports')
        | Inr ports' \<Rightarrow> always (\<lambda>_ _. True) (efold (read_port e c) ports' refs)
            (\<lambda>h'' x. later h h'' \<and> (case x of Inl _ \<Rightarrow> True | Inr ports' \<Rightarrow> list_all2 (port_read e h'' c) (seen @ ref # refs) ports')) h'"
      by (cases x) (auto intro!: always_mono [OF Cons.IH [of h' "seen @ [ref]"]] split: sum.split)
  qed simp
qed (simp add: assms)

lemma only_routers_true: "only_routers ports = Inr True \<Longrightarrow> \<forall>p\<in>set ports. \<exists>t. string_value (cell p ''type'') = Inr t \<and> t \<in> {''router'', ''remote''}"
  by (induction ports) (auto split: if_splits)

lemma switch_empty_rule: "always (\<lambda>_ _. True) (endpoints_empty_of e c name) (\<lambda>h' x. x = Inr True \<longrightarrow> switch_drained e h' c name) h"
proof -
  let ?k = "\<lambda>(ls :: ovn_row option, ports). pure_res (only_routers ports) :: (err + bool) oprog"
  have absent: "always (\<lambda>_ _. True) (?k (None, [])) (\<lambda>h' x. x = Inr True \<longrightarrow> switch_drained e h' c name) h'"
    if "switch_read e h' c name rows" "rows = []" for h' rows
    using that by (simp add: lift_res_def switch_drained_def)
  have final: "always (\<lambda>_ _. True) (pure_res (only_routers ports)) (\<lambda>h' x. x = Inr True \<longrightarrow> switch_drained e h' c name) h'"
    if "switch_read e h' c name rows" "named_single rows name = Inr ls" "set_value (cell ls ''ports'') True = Inr refs"
      and "list_all2 (port_read e h' c) refs ports" for h' rows ls refs ports
  proof -
    have "switch_drained e h' c name" if "only_routers ports = Inr True"
    proof -
      have "\<exists>p t. port_read e h' c ref p \<and> string_value (cell p ''type'') = Inr t \<and> t \<in> {''router'', ''remote''}" if ref: "ref \<in> set refs" for ref
      proof -
        obtain p where "p \<in> set ports" "port_read e h' c ref p"
          using list_all2_member [OF \<open>list_all2 _ _ _\<close> ref] by blast
        with only_routers_true [OF \<open>only_routers ports = Inr True\<close>] show ?thesis by blast
      qed
      with \<open>switch_read e h' c name rows\<close> named_single_name [OF \<open>named_single rows name = Inr ls\<close>] \<open>set_value _ _ = _\<close>
      show ?thesis unfolding switch_drained_def by blast
    qed
    then show ?thesis by (auto simp: lift_res_def split: sum.split)
  qed
  have loop: "always (\<lambda>_ _. True) (ebind (efold (read_port e c) [] refs) (\<lambda>ports. ?k (Some ls, ports)))
      (\<lambda>h' x. x = Inr True \<longrightarrow> switch_drained e h' c name) h'"
    if "switch_read e h' c name rows" "named_single rows name = Inr ls" "set_value (cell ls ''ports'') True = Inr refs" for h' rows ls refs
    unfolding always_ebind
    by (rule always_mono [OF read_ports_rule [of e h' c "[]" "[]" refs]])
      (use that in \<open>auto simp del: always_lift_res intro!: final [OF switch_read_later] split: sum.split\<close>)
  have nest: "endpoints_empty_of e c name = ebind (ovn_query e (dc_nb_command c) ''_uuid,name,ports,other_config'' ''Logical_Switch'' [condition_arg ''name'' name])
      (\<lambda>rows. if rows = [] then ?k (None, [])
        else ebind (pure_res (named_single rows name)) (\<lambda>ls. ebind (pure_res (set_value (cell ls ''ports'') True)) (\<lambda>refs.
          ebind (efold (read_port e c) [] refs) (\<lambda>ports. ?k (Some ls, ports)))))"
    by (simp add: endpoints_empty_of_def switch_ports_def ebind_ebind if_distrib [of "\<lambda>p. ebind p _"] cong: if_cong)
  show ?thesis unfolding nest
    by (intro anyone.steps absent loop) (auto simp: switch_read_def)
qed

lemma local_absent_rule: "always (\<lambda>_ _. True) (local_absent e c vpc subnet transit) (\<lambda>h' x. x = Inr True \<longrightarrow> names_absent e h' c vpc subnet transit) h"
proof -
  have "always (\<lambda>_ _. True) (all_absent e c qs) (\<lambda>h' x. later h h' \<and> (x = Inr True \<longrightarrow>
      (\<forall>q\<in>set qs. shown e h' (dc_nb_command c) ''_uuid'' (fst q) [condition_arg ''name'' (snd q)] []))) h" for qs
  proof (induction qs arbitrary: h)
    case (Cons q qs)
    show ?case unfolding all_absent.simps
      by (intro anyone.steps) (auto intro!: always_mono [OF Cons.IH] intro: shown_later)
  qed simp
  from always_mono [OF this] show ?thesis
    unfolding local_absent_def names_absent_def by (fastforce simp: case_prod_unfold)
qed

section \<open>Answers of the interface\<close>

lemma endpoints_outcome: "always (\<lambda>_ _. True) (perform e (EndpointsEmpty c name)) (\<lambda>h y. y = NetFlag (Inr True) \<longrightarrow> switch_drained e h c name) []"
  unfolding perform.simps always_pbind by (rule always_mono [OF switch_empty_rule]) auto

lemma absent_outcome: "always (\<lambda>_ _. True) (perform e (LocalAbsent c vpc subnet transit))
    (\<lambda>h y. y = NetFlag (Inr True) \<longrightarrow> names_absent e h c vpc subnet transit) []"
  unfolding perform.simps always_pbind by (rule always_mono [OF local_absent_rule]) auto

end
