(* ===== verification/Domain_Process.thy ===== *)
theory Domain_Process
  imports Domain_Laws Prefix_Provider Ovn_Observations
begin

text \<open>
  The domain controller as it runs (\<open>cmd/global-vpc-controller/main.go\<close>): the reconciler with the OVN adapter and the
  IPAM provider subprocesses behind its interfaces. The calls of the whole are those of the API clients, the commands
  that are run against the OVN databases, and the child processes.
\<close>

section \<open>Wiring\<close>

datatype dsys_req = DApi "dobj kreq" | DInfra string "iobj kreq" | DRun "string list" | DChild proc_req

datatype dsys_resp = DApiAnswer "dobj kresp" | DInfraAnswer "iobj kresp" | DOutput run_resp | DExit proc_resp

type_synonym dsyshist = "(dsys_req \<times> dsys_resp) list"

definition dsys_api_answer :: "dsys_resp \<Rightarrow> dobj kresp" where
  "dsys_api_answer r = (case r of DApiAnswer x \<Rightarrow> x | _ \<Rightarrow> Failed decode_error)"

definition dsys_infra_answer :: "dsys_resp \<Rightarrow> iobj kresp" where
  "dsys_infra_answer r = (case r of DInfraAnswer x \<Rightarrow> x | _ \<Rightarrow> Failed decode_error)"

definition dsys_output :: "dsys_resp \<Rightarrow> run_resp" where
  "dsys_output r = (case r of DOutput x \<Rightarrow> x | _ \<Rightarrow> RunFailed)"

definition dsys_exit :: "dsys_resp \<Rightarrow> proc_resp" where
  "dsys_exit r = (case r of DExit x \<Rightarrow> x | _ \<Rightarrow> ExitFailed)"

text \<open>One store per registered cluster, one provider per registered command.\<close>

definition domain_stores :: "domain_config \<Rightarrow> domain_cluster smap" where
  "domain_stores cfg = foldl (\<lambda>m c. mput (dc_name c) c m) [] (dcf_clusters cfg)"

definition domain_controller_of :: "domain_config \<Rightarrow> string \<Rightarrow> int \<Rightarrow> domain_controller" where
  "domain_controller_of cfg namespace interval = \<lparr>dm_gate = \<lparr>dg_namespace = namespace, dg_config = cfg, dg_stores = domain_stores cfg\<rparr>,
     dm_providers = map fst (dcf_providers cfg), dm_interval = interval\<rparr>"

definition domain_exec :: ovn_exec where
  "domain_exec = \<lparr>oe_timeout = 0, oe_transaction_command = []\<rparr>"

definition provider_timeout :: int where
  "provider_timeout = 30 * 1000000000"

definition claim_reply :: "allocation res \<Rightarrow> dresp" where
  "claim_reply x = Claimed (case x of Inl e \<Rightarrow> Inl (Errorf e) | Inr a \<Rightarrow> Inr a)"

text \<open>The reconciler asks only providers that are configured.\<close>

fun domain_handle :: "domain_config \<Rightarrow> dreq \<Rightarrow> (dsys_req, dsys_resp, dresp) prog" where
  "domain_handle cfg (Authority q) = Call (DApi q) (\<lambda>r. Ret (AuthorityAnswer (dsys_api_answer r)))"
| "domain_handle cfg (Infra c q) = Call (DInfra c q) (\<lambda>r. Ret (InfraAnswer (dsys_infra_answer r)))"
| "domain_handle cfg (Network q) = wire DRun dsys_output (pbind (perform domain_exec q) (\<lambda>y. Ret (NetAnswer y)))"
| "domain_handle cfg (ClaimPrefix provider claim) = (case map_of (dcf_providers cfg) provider of
       None \<Rightarrow> Ret (Claimed (Inl decode_error))
     | Some argv \<Rightarrow> wire DChild dsys_exit (pbind (ensure_prefix argv provider_timeout claim) (\<lambda>y. Ret (claim_reply y))))"

definition domain_process :: "k8s_lib \<Rightarrow> domain_config \<Rightarrow> string \<Rightarrow> int \<Rightarrow> string \<Rightarrow> string \<Rightarrow> (dsys_req, dsys_resp, outcome) prog" where
  "domain_process L cfg namespace interval ns name =
     plug (domain_handle cfg) (domain_reconcile L (domain_controller_of cfg namespace interval) ns name)"

text \<open>The commands of a history with their output.\<close>

fun dsys_command :: "dsys_req \<Rightarrow> string list option" where
  "dsys_command (DRun args) = Some args"
| "dsys_command x = None"

abbreviation dran :: "dsyshist \<Rightarrow> ohist" where
  "dran \<equiv> part dsys_command dsys_output"

lemmas run_dadapter = run_part [where sel = dsys_command and f = DRun, OF _ _ dsys_command.simps(1)]
  and always_dadapter = always_part [where sel = dsys_command and f = DRun, OF _ dsys_command.simps(1)]

section \<open>The contract of the whole\<close>

fun domain_component :: "domain_config \<Rightarrow> dreq \<Rightarrow> dsyshist \<Rightarrow> dsys_req \<Rightarrow> bool" where
  "domain_component cfg (Authority q) t x \<longleftrightarrow> x = DApi q"
| "domain_component cfg (Infra c q) t x \<longleftrightarrow> x = DInfra c q"
| "domain_component cfg (Network q) t x \<longleftrightarrow> (\<exists>args. x = DRun args \<and> adapter_contract domain_exec q (dran t) args)"
| "domain_component cfg (ClaimPrefix provider claim) t x \<longleftrightarrow> t = [] \<and> valid_claim claim
     \<and> (\<exists>argv. map_of (dcf_providers cfg) provider = Some argv
         \<and> x = DChild \<lparr>pr_argv = argv, pr_stdin = claim_request claim, pr_timeout = provider_timeout\<rparr>)"

definition domain_process_contract :: "k8s_lib \<Rightarrow> domain_config \<Rightarrow> string \<Rightarrow> int \<Rightarrow> dsyshist \<Rightarrow> dsys_req \<Rightarrow> bool" where
  "domain_process_contract L cfg namespace interval h x \<longleftrightarrow> (\<exists>h0 t hist q. h = h0 @ t \<and> explains (domain_handle cfg) h0 hist
     \<and> domain_contract L (domain_controller_of cfg namespace interval) hist q \<and> domain_component cfg q t x)"

lemma domain_handle_component: "always (domain_component cfg q) (domain_handle cfg q) (\<lambda>_ _. True) []"
proof (cases q)
  case (Network req)
  have "always (adapter_contract domain_exec req) (perform domain_exec req) (\<lambda>_ _. True) []"
    by (rule perform_contract)
  then show ?thesis unfolding Network domain_handle.simps by (rule always_dadapter) auto
next
  case (ClaimPrefix provider claim)
  then show ?thesis
    by (auto simp: ensure_prefix_def run_child_def plugin_timeout_def provider_timeout_def split: option.split proc_resp.split)
qed simp_all

lemma domain_process_rule: "always (domain_process_contract L cfg namespace interval) (domain_process L cfg namespace interval ns name) (\<lambda>_ _. True) []"
  unfolding domain_process_def
proof (rule always_plug [OF domain_reconcile_run explains_nil domain_handle_component])
  show "domain_process_contract L cfg namespace interval (h @ t) x"
    if "explains (domain_handle cfg) h hist" "domain_contract L (domain_controller_of cfg namespace interval) hist q" "domain_component cfg q t x" for h hist q t x
    unfolding domain_process_contract_def using that by blast
qed simp

section \<open>From interfaces to databases\<close>

definition dsys_seen :: "dsyshist \<Rightarrow> global_vpc \<Rightarrow> bool" where
  "dsys_seen h v \<longleftrightarrow> (\<exists>q r. (DApi q, r) \<in> set h \<and> dsys_api_answer r = Obj (DVpc v))"

definition dsys_planned :: "k8s_lib \<Rightarrow> domain_config \<Rightarrow> dsyshist \<Rightarrow> domain_plan \<Rightarrow> bool" where
  "dsys_planned L cfg h p \<longleftrightarrow> (\<exists>v. dsys_seen h v \<and> domain_build L (Some v) cfg = Inr p)"

definition dsys_drained :: "dsyshist \<Rightarrow> domain_plan \<Rightarrow> bool" where
  "dsys_drained h p \<longleftrightarrow> (\<forall>(s, name)\<in>set (placed_subnets p). switch_drained domain_exec (dran h) (ds_cluster s) name)"

text \<open>The transit switch was seen to be absent, or the guarded command that destroys the row that was read was accepted.\<close>

definition dsys_transit_gone :: "domain_config \<Rightarrow> dsyshist \<Rightarrow> domain_plan \<Rightarrow> bool" where
  "dsys_transit_gone cfg h p \<longleftrightarrow> (let cmd = dcf_icnb_command cfg; ts = dpl_transit_switch p; uid = dpl_uid p in
     transit_absent domain_exec (dran h) cmd ts
     \<or> (\<exists>i u out. transit_shown domain_exec (dran h) cmd ts uid i u
          \<and> (full_command domain_exec cmd (delete_transit_args u ts uid), RunOutput out) \<in> set (dran h)))"

definition dsys_names_gone :: "dsyshist \<Rightarrow> domain_plan \<Rightarrow> bool" where
  "dsys_names_gone h p \<longleftrightarrow> (\<forall>s\<in>set (dpl_attachments p).
     names_absent domain_exec (dran h) (ds_cluster s) (ds_vpc_name s) (ds_subnet_name s) (ds_transit_name s))"

lemma dsys_later:
  shows "dsys_seen h v \<Longrightarrow> dsys_seen (h @ t) v" and "dsys_planned L cfg h p \<Longrightarrow> dsys_planned L cfg (h @ t) p"
    and "dsys_drained h p \<Longrightarrow> dsys_drained (h @ t) p" and "dsys_names_gone h p \<Longrightarrow> dsys_names_gone (h @ t) p"
    and "dsys_transit_gone cfg h p \<Longrightarrow> dsys_transit_gone cfg (h @ t) p"
proof -
  have more: "set (dran h) \<subseteq> set (dran (h @ t))" by simp
  show seen: "dsys_seen h v \<Longrightarrow> dsys_seen (h @ t) v" for v by (auto simp: dsys_seen_def)
  then show "dsys_planned L cfg h p \<Longrightarrow> dsys_planned L cfg (h @ t) p" by (auto simp: dsys_planned_def)
  show "dsys_drained h p \<Longrightarrow> dsys_drained (h @ t) p" using switch_drained_mono [OF _ more] by (auto simp: dsys_drained_def)
  show "dsys_names_gone h p \<Longrightarrow> dsys_names_gone (h @ t) p" using names_absent_mono [OF _ more] by (auto simp: dsys_names_gone_def)
  show "dsys_transit_gone cfg h p \<Longrightarrow> dsys_transit_gone cfg (h @ t) p"
    using transit_shown_later [where h = "dran h" and h' = "dran h @ dran t"] transit_absent_later [where h = "dran h" and h' = "dran h @ dran t"] more
    unfolding dsys_transit_gone_def Let_def by (auto; blast)
qed

lemma explained_vpc:
  assumes "explains (domain_handle cfg) h hist" and "vpc_seen hist v"
  shows "dsys_seen h v"
proof -
  from assms(2) obtain q r where "(Authority q, r) \<in> set hist" "authority_answer r = Obj (DVpc v)" by (auto simp: vpc_seen_def told_def)
  with explains_run [OF assms(1), of "Authority q" r] obtain y where "(DApi q, y) \<in> set h" "dsys_api_answer y = Obj (DVpc v)"
    by (fastforce simp: authority_answer_def)
  then show ?thesis unfolding dsys_seen_def by blast
qed

lemma explained_network:
  assumes "explains (domain_handle cfg) h hist" and "nsaid hist q y"
    and "always (\<lambda>_ _. True) (perform domain_exec q) Q []" and "\<And>e. y \<noteq> NetDone (Inl e)"
  shows "\<exists>t. set t \<subseteq> set (dran h) \<and> Q t y"
proof -
  from assms(2) obtain r where r: "(Network q, r) \<in> set hist" "net_answer r = y" by (auto simp: net_told_def)
  with explains_run [OF assms(1), of "Network q" r] obtain h1 t h2 where t: "h = h1 @ t @ h2" "run (domain_handle cfg (Network q)) t r" by auto
  from run_dadapter [OF t(2) [unfolded domain_handle.simps] assms(3)] r(2) have "Q (dran t) y" by (auto simp: net_answer_def)
  with t(1) show ?thesis by (intro exI [of _ "dran t"]) auto
qed

lemma explained_drained:
  assumes "explains (domain_handle cfg) h hist" and "drained hist p"
  shows "dsys_drained h p"
  unfolding dsys_drained_def
proof clarify
  fix s name
  assume "(s, name) \<in> set (placed_subnets p)"
  with assms(2) have "nsaid hist (EndpointsEmpty (ds_cluster s) name) (NetFlag (Inr True))" by (auto simp: drained_def)
  from explained_network [OF assms(1) this endpoints_outcome] show "switch_drained domain_exec (dran h) (ds_cluster s) name"
    by (auto intro: switch_drained_mono)
qed

lemma barrier_drained: "barrier r hist p \<Longrightarrow> drained hist p"
  unfolding barrier_def by (auto intro: drained_later)

lemma explained_transit:
  assumes "explains (domain_handle cfg) h hist" and "transit_deleted (domain_controller_of cfg namespace interval) hist p"
  shows "dsys_transit_gone cfg h p"
proof -
  let ?cmd = "dcf_icnb_command cfg" and ?ts = "dpl_transit_switch p" and ?uid = "dpl_uid p"
  from assms(2) obtain i where "nsaid hist (DeleteTransit ?cmd ?ts ?uid i) (NetDone (Inr ()))"
    by (auto simp: transit_deleted_def domain_controller_of_def dm_config_def)
  from explained_network [OF assms(1) this delete_answer] obtain t where t: "set t \<subseteq> set (dran h)"
      and "transit_answer domain_exec (DeleteTransit ?cmd ?ts ?uid i) t (NetDone (Inr ()))" by auto
  then consider "transit_absent domain_exec t ?cmd ?ts"
    | u out where "transit_shown domain_exec t ?cmd ?ts ?uid i u" "(full_command domain_exec ?cmd (delete_transit_args u ?ts ?uid), RunOutput out) \<in> set t"
    by auto
  then show ?thesis
  proof cases
    case 1
    then have "transit_absent domain_exec (dran h) ?cmd ?ts" unfolding transit_absent_def by (rule shown_mono [OF _ t])
    then show ?thesis by (simp add: dsys_transit_gone_def Let_def)
  next
    case 2
    then have "transit_shown domain_exec (dran h) ?cmd ?ts ?uid i u" unfolding transit_shown_def using shown_mono [OF _ t] by blast
    with 2(2) t show ?thesis unfolding dsys_transit_gone_def Let_def by blast
  qed
qed

lemma explained_names:
  assumes "explains (domain_handle cfg) h hist" and "removed r hist p"
  shows "dsys_names_gone h p"
  unfolding dsys_names_gone_def
proof
  fix s
  assume "s \<in> set (dpl_attachments p)"
  with assms(2) have "nsaid hist (LocalAbsent (ds_cluster s) (ds_vpc_name s) (ds_subnet_name s) (ds_transit_name s)) (NetFlag (Inr True))"
    by (simp add: removed_def)
  from explained_network [OF assms(1) this absent_outcome]
  show "names_absent domain_exec (dran h) (ds_cluster s) (ds_vpc_name s) (ds_subnet_name s) (ds_transit_name s)"
    by (auto intro: names_absent_mono)
qed

lemma explained_plan:
  assumes "explains (domain_handle cfg) h hist" and "cleared L (domain_controller_of cfg namespace interval) hist p"
  shows "dsys_planned L cfg h p"
  using assms(2) explained_vpc [OF assms(1)]
  by (auto simp: cleared_def planned_def dsys_planned_def domain_controller_of_def dm_config_def)

text \<open>
  An object of a cluster goes only with a plan that was read, while every subnet of the plan is drained and the transit switch is
  gone; the finalizer goes only when, besides, no name of the topology is left in any cluster, or when an
  earlier pass had recorded that (the operation \<open>DeleteResume\<close>).
\<close>

definition removal_observed :: "k8s_lib \<Rightarrow> domain_config \<Rightarrow> dsyshist \<Rightarrow> dsys_req \<Rightarrow> bool" where
  "removal_observed L cfg h x \<longleftrightarrow>
     (\<forall>c y u rv. x = DInfra c (Delete y u rv) \<longrightarrow> (\<exists>p. dsys_planned L cfg h p \<and> dsys_drained h p \<and> dsys_transit_gone cfg h p))
     \<and> (\<forall>v'. x = DApi (Update (DVpc v')) \<longrightarrow> (\<exists>v. dsys_seen h v \<and>
          (v' = v\<lparr>gv_meta := add_finalizer L (gv_meta v) v1_finalizer\<rparr>
           \<or> v' = v\<lparr>gv_meta := remove_finalizer L (gv_meta v) v1_finalizer\<rparr>
             \<and> ((\<exists>w. dsys_seen h w \<and> gvs_operation (gv_status w) = ''DeleteResume'')
                \<or> (\<exists>p. dsys_planned L cfg h p \<and> dsys_drained h p \<and> dsys_transit_gone cfg h p \<and> dsys_names_gone h p)))))
     \<and> (\<forall>v'. x = DApi (UpdateStatus (DVpc v')) \<longrightarrow> gvs_operation (gv_status v') = ''DeleteResume'' \<longrightarrow>
          (\<exists>w. dsys_seen h w \<and> gvs_operation (gv_status w) = ''DeleteResume'')
          \<or> (\<exists>p. dsys_planned L cfg h p \<and> dsys_drained h p \<and> dsys_transit_gone cfg h p \<and> dsys_names_gone h p))"

lemma explained_removal:
  assumes "explains (domain_handle cfg) h hist" and "cleared L (domain_controller_of cfg namespace interval) hist p"
    and "removed (domain_controller_of cfg namespace interval) hist p"
  shows "dsys_planned L cfg (h @ t) p \<and> dsys_drained (h @ t) p \<and> dsys_transit_gone cfg (h @ t) p \<and> dsys_names_gone (h @ t) p"
  using assms(3) explained_plan [OF assms(1,2)] explained_drained [OF assms(1)] explained_transit [OF assms(1)] explained_names [OF assms(1,3)]
  by (auto simp: removed_def dest: barrier_drained intro!: dsys_later)

lemma domain_contract_observed:
  assumes "domain_process_contract L cfg namespace interval h x"
  shows "removal_observed L cfg h x"
proof -
  let ?r = "domain_controller_of cfg namespace interval"
  from assms obtain h0 t hist q where h: "h = h0 @ t" and on: "explains (domain_handle cfg) h0 hist"
      and ok: "domain_contract L ?r hist q" and x: "domain_component cfg q t x"
    unfolding domain_process_contract_def by blast
  have proved: "\<exists>p. dsys_planned L cfg h p \<and> dsys_drained h p \<and> dsys_transit_gone cfg h p \<and> dsys_names_gone h p" if "removal_proved L ?r hist"
    using that explained_removal [OF on] unfolding removal_proved_def h by blast
  have gone: "\<exists>p. dsys_planned L cfg h p \<and> dsys_drained h p \<and> dsys_transit_gone cfg h p" if "x = DInfra c (Delete y u rv)" for c y u rv
  proof -
    from that x have "q = Infra c (Delete y u rv)" by (cases q) auto
    with ok obtain p where "cleared L ?r hist p" "barrier ?r hist p" "transit_deleted ?r hist p"
      by (cases y) auto
    with explained_plan [OF on] explained_drained [OF on] explained_transit [OF on] barrier_drained
    have "dsys_planned L cfg h p \<and> dsys_drained h p \<and> dsys_transit_gone cfg h p" unfolding h by (blast intro: dsys_later)
    then show ?thesis by blast
  qed
  have final: "\<exists>v. dsys_seen h v \<and> (v' = v\<lparr>gv_meta := add_finalizer L (gv_meta v) v1_finalizer\<rparr>
      \<or> v' = v\<lparr>gv_meta := remove_finalizer L (gv_meta v) v1_finalizer\<rparr>
        \<and> ((\<exists>w. dsys_seen h w \<and> gvs_operation (gv_status w) = ''DeleteResume'')
           \<or> (\<exists>p. dsys_planned L cfg h p \<and> dsys_drained h p \<and> dsys_transit_gone cfg h p \<and> dsys_names_gone h p)))"
    if "x = DApi (Update (DVpc v'))" for v'
  proof -
    from that x have "q = Authority (Update (DVpc v'))" by (cases q) (auto split: option.splits)
    with ok obtain v where v: "vpc_seen hist v" and v': "v' = v\<lparr>gv_meta := add_finalizer L (gv_meta v) v1_finalizer\<rparr>
        \<or> v' = v\<lparr>gv_meta := remove_finalizer L (gv_meta v) v1_finalizer\<rparr>
          \<and> (removal_proved L ?r hist \<or> (\<exists>w. vpc_seen hist w \<and> gvs_operation (gv_status w) = ''DeleteResume''))" by auto
    have seen: "dsys_seen h w" if "vpc_seen hist w" for w using explained_vpc [OF on that] unfolding h by (rule dsys_later)
    from v' seen [OF v] proved seen show ?thesis by blast
  qed
  have saved: "(\<exists>w. dsys_seen h w \<and> gvs_operation (gv_status w) = ''DeleteResume'')
      \<or> (\<exists>p. dsys_planned L cfg h p \<and> dsys_drained h p \<and> dsys_transit_gone cfg h p \<and> dsys_names_gone h p)"
    if "x = DApi (UpdateStatus (DVpc v'))" "gvs_operation (gv_status v') = ''DeleteResume''" for v'
  proof -
    from that(1) x have "q = Authority (UpdateStatus (DVpc v'))" by (cases q) (auto split: option.splits)
    with ok that(2) obtain v where "vpc_seen hist v" "gvs_operation (gv_status v) = ''DeleteResume'' \<or> removal_proved L ?r hist"
      by (auto simp: status_step_def)
    with proved show ?thesis using explained_vpc [OF on] dsys_later(1) unfolding h by blast
  qed
  show ?thesis unfolding removal_observed_def using gone final saved by blast
qed

section \<open>The properties\<close>

text \<open>
  The domain controller as it is wired, with its OVN adapter and its IPAM provider subprocesses, obeys the contracts of
  its parts at every call, whatever the API servers, the databases and the providers answer: each call is one that the component
  behind an interface may make there (only the queries and the guarded writes of the adapter, only a valid claim on
  the input of the configured provider command), and the component was asked for something the contract of the
  reconciler allows at a history of results that the calls so far explain.
\<close>

theorem domain_process_guarded: "every_step (domain_process_contract L cfg namespace interval) (domain_process L cfg namespace interval ns name)"
  by (rule every_stepI [OF domain_process_rule])

text \<open>
  C13: A global VPC is taken apart on the evidence of the databases themselves: in every run of the wired controller, an object
  of a cluster is deleted only after commands of this pass have printed, for every subnet of every cluster of the plan, no row
  or only ports of routers and other zones, and have either printed that the transit switch is absent or destroyed
  the row that was read with this owner; the finalizer is removed, and the durable operation that says so is written, only
  when, besides, no name of the topology was printed in any cluster, or an earlier pass has recorded it.
\<close>

theorem domain_removal_observed: "every_step (removal_observed L cfg) (domain_process L cfg namespace interval ns name)"
  by (rule every_stepI [OF always_mono [OF domain_process_rule]]) (auto intro: domain_contract_observed)

end
