(* ===== verification/Ovn_Site.thy ===== *)
theory Ovn_Site
  imports Ovn_Exec Site_Plan
begin

text \<open>
  \<open>internal/ovn/site_bfd.go\<close> and \<open>internal/ovn/site_ecmp.go\<close>: the part of the adapter that a site with several gateways uses.
  It owns the BFD rows with its four tags and the hash fields of the default routes that refer to them. An error
  of the Go functions leaves the other result unused, so it is left out.
\<close>

section \<open>Identities\<close>

definition bfd_gateway_key :: string where
  "bfd_gateway_key = ''global-vpc-gateway-id''"

definition bfd_cluster_key :: string where
  "bfd_cluster_key = ''global-vpc-cluster-uid''"

definition bfd_router_key :: string where
  "bfd_router_key = ''global-vpc-router''"

definition bfd_columns :: string where
  "bfd_columns = ''_uuid,logical_port,dst_ip,external_ids,min_rx,min_tx,detect_mult,status''"

definition bfd_port_pending :: err where
  "bfd_port_pending = Errorf ''waiting for native BFD port with at least two chassis''"

record bfd_state =
  bs_records :: "bfd_resource_record list"
  bs_up :: "string list"
  bs_configured :: bool

definition expect_receipt :: "string list \<Rightarrow> string smap \<Rightarrow> bfd_resource_record \<Rightarrow> string smap res" where
  "expect_receipt ids expected x =
     (if bfr_gateway_id x \<notin> set ids \<or> \<not> uuid_ok (bfr_uuid x) \<or> mget expected (bfr_gateway_id x) \<noteq> []
      then Inl ''invalid BFD identity receipt'' else Inr (mput (bfr_gateway_id x) (bfr_uuid x) expected))"

definition bfd_expected :: "gateway_config \<Rightarrow> bfd_resource_record list \<Rightarrow> (site_bfd \<times> string smap) res" where
  "bfd_expected g records = (case gc_bfd g of
      None \<Rightarrow> Inl ''multi-gateway BFD configuration is required''
    | Some b \<Rightarrow>
        if gc_version g \<noteq> ''v2'' \<or> length (gc_gateways g) < 2 \<or> gc_owner_uid g = [] then Inl ''multi-gateway BFD configuration is required''
        else rbind (foldr_res (expect_receipt (map gw_id (gc_gateways g))) [] records) (\<lambda>expected. Inr (b, expected)))"

text \<open>A column that is an integer or a set of at most one; an empty set is zero.\<close>

definition plain_int :: "json \<Rightarrow> int option" where
  "plain_int j = (case j of JNum n \<Rightarrow> parse_int64 n | _ \<Rightarrow> None)"

definition int_value :: "json \<Rightarrow> int res" where
  "int_value j = (case plain_int j of
      Some n \<Rightarrow> Inr n
    | None \<Rightarrow> (case raw_slice j of
        Some (Some [JStr tag, es]) \<Rightarrow>
          if tag \<noteq> ''set'' then Inl ''invalid OVN optional integer''
          else (case raw_slice es of
              Some (Some []) \<Rightarrow> Inr 0
            | Some (Some [v]) \<Rightarrow> (case plain_int v of Some n \<Rightarrow> Inr n | None \<Rightarrow> Inl ''invalid OVN integer'')
            | _ \<Rightarrow> Inl ''invalid OVN optional integer set'')
      | _ \<Rightarrow> Inl ''invalid OVN optional integer''))"

section \<open>BFD rows\<close>

text \<open>\<open>byID\<close> and \<open>byIP\<close>: the last member with a name or an address counts.\<close>

definition ip_of_member :: "gateway_config \<Rightarrow> string smap" where
  "ip_of_member g = foldl (\<lambda>m x. mput (gw_id x) (gw_ip x) m) [] (gc_gateways g)"

definition member_of_ip :: "gateway_config \<Rightarrow> string smap" where
  "member_of_ip g = foldl (\<lambda>m x. mput (gw_ip x) (gw_id x) m) [] (gc_gateways g)"

definition wanted_timers :: "site_bfd \<Rightarrow> (string \<times> int) list" where
  "wanted_timers b = [(''min_rx'', bfd_min_rx b), (''min_tx'', bfd_min_tx b), (''detect_mult'', bfd_multiplier b)]"

text \<open>The loop over a Go map visits the timers in any order; the order decides only which of two errors is reported.\<close>

definition timer_ok :: "ovn_row \<Rightarrow> bool \<Rightarrow> string \<times> int \<Rightarrow> bool res" where
  "timer_ok r ok t = rbind (int_value (cell r (fst t))) (\<lambda>actual. Inr (ok \<and> actual = snd t))"

definition bfd_status :: "ovn_row \<Rightarrow> string res" where
  "bfd_status r = rbind (set_value (cell r ''status'') False) (\<lambda>statuses.
     if 1 < length statuses then Inl ''multiple BFD statuses''
     else let status = (if statuses = [] then [] else hd statuses) in
       if status \<notin> {[], ''up'', ''down'', ''init'', ''admin_down''} then Inl ''unknown BFD status'' else Inr status)"

definition note_bfd :: "domain_cluster \<Rightarrow> gateway_config \<Rightarrow> site_bfd \<Rightarrow> string smap \<Rightarrow> bfd_state \<times> string list \<Rightarrow> ovn_row \<Rightarrow> (bfd_state \<times> string list) res" where
  "note_bfd c g b expected st r = (case st of (state, seen) \<Rightarrow>
     rbind (uuid_value (cell r ''_uuid'')) (\<lambda>id.
     rbind (map_value (cell r ''external_ids'')) (\<lambda>ids.
     rbind (string_value (cell r ''logical_port'')) (\<lambda>port.
     rbind (string_value (cell r ''dst_ip'')) (\<lambda>ip.
     if mget ids owner_key \<noteq> gc_owner_uid g
     then if id \<in> set (map snd expected) \<or> (port = bfd_port_name g \<and> mget (member_of_ip g) ip \<noteq> []) then Inl ''BFD ownership conflict''
          else Inr (state, seen)
     else let member = mget ids bfd_gateway_key; byid = ip_of_member g in
       if mget byid member \<noteq> ip \<or> mget byid member = [] \<or> port \<noteq> bfd_port_name g \<or> mget ids bfd_cluster_key \<noteq> dc_uid c
          \<or> mget ids bfd_router_key \<noteq> gc_vpc_name g \<or> member \<in> set seen \<or> (mget expected member \<noteq> [] \<and> mget expected member \<noteq> id)
       then Inl ''BFD identity or local ownership changed''
       else rbind (foldr_res (timer_ok r) True (wanted_timers b)) (\<lambda>configured.
         rbind (bfd_status r) (\<lambda>status.
         Inr (\<lparr>bs_records = bs_records state @ [\<lparr>bfr_gateway_id = member, bfr_uuid = id\<rparr>],
               bs_up = bs_up state @ (if configured \<and> status = ''up'' then [member] else []),
               bs_configured = bs_configured state \<and> configured\<rparr>, member # seen))))))))"

definition get_bfd :: "ovn_exec \<Rightarrow> domain_cluster \<Rightarrow> gateway_config \<Rightarrow> bfd_resource_record list \<Rightarrow> (err + bfd_state) oprog" where
  "get_bfd e c g records =
     ebind (pure_res (bfd_expected g records)) (\<lambda>(b, expected).
     ebind (ovn_query e (dc_nb_command c) bfd_columns ''BFD'' []) (\<lambda>rows.
     ebind (pure_res (foldr_res (note_bfd c g b expected) (\<lparr>bs_records = [], bs_up = [], bs_configured = True\<rparr>, []) rows)) (\<lambda>(state, seen).
     go \<lparr>bs_records = sort_slice bfr_gateway_id (bs_records state), bs_up = sort_strings (bs_up state),
         bs_configured = bs_configured state \<and> length (bs_records state) = length (gc_gateways g)\<rparr>)))"

section \<open>The native port\<close>

definition chassis_name :: "ovn_exec \<Rightarrow> domain_cluster \<Rightarrow> string list \<Rightarrow> string \<Rightarrow> (err + string list) oprog" where
  "chassis_name e c names u =
     ebind (ovn_query e (dc_nb_command c) ''chassis_name'' ''HA_Chassis'' [uuid_selector @ u]) (\<lambda>rows.
     ebind (pure_res (single_row rows)) (\<lambda>r.
     ebind (pure_res (string_value (cell r ''chassis_name''))) (\<lambda>name.
     go (if name \<noteq> [] then List.insert name names else names))))"

definition bfd_port_ready :: "ovn_exec \<Rightarrow> domain_cluster \<Rightarrow> gateway_config \<Rightarrow> site_bfd \<Rightarrow> (err + unit) oprog" where
  "bfd_port_ready e c g b =
     ebind (ovn_query e (dc_nb_command c) ''_uuid,name,networks,options,ha_chassis_group'' ''Logical_Router_Port'' [condition_arg ''name'' (bfd_port_name g)]) (\<lambda>rows.
     if rows = [] then leave bfd_port_pending
     else ebind (pure_res (named_single rows (bfd_port_name g))) (\<lambda>r.
     ebind (pure_res (uuid_value (cell r ''_uuid''))) (\<lambda>port.
     ebind (pure_res (set_value (cell r ''networks'') False)) (\<lambda>networks.
     ebind (pure_res (map_value (cell r ''options''))) (\<lambda>options.
     ebind (pure_res (set_value (cell r ''ha_chassis_group'') True)) (\<lambda>groups.
     if length networks \<noteq> 1 \<or> (hd networks \<noteq> bfd_source_ip b \<and> hd networks \<noteq> bfd_source_ip b @ ''/32'')
        \<or> mget options ''bfd-only'' \<noteq> ''true'' \<or> length groups \<noteq> 1
     then leave bfd_port_pending
     else ebind (ovn_query e (dc_nb_command c) ''name,ports'' ''Logical_Router'' [condition_arg ''name'' (gc_vpc_name g)]) (\<lambda>rows.
     if rows = [] then leave bfd_port_pending
     else ebind (pure_res (named_single rows (gc_vpc_name g))) (\<lambda>r.
     ebind (pure_res (set_value (cell r ''ports'') True)) (\<lambda>ports.
     if port \<notin> set ports then leave (Errorf ''BFD port is not attached to the owned router'')
     else ebind (ovn_query e (dc_nb_command c) ''ha_chassis'' ''HA_Chassis_Group'' [uuid_selector @ hd groups]) (\<lambda>rows.
     ebind (pure_res (single_row rows)) (\<lambda>r.
     ebind (pure_res (set_value (cell r ''ha_chassis'') True)) (\<lambda>chassis.
     if length chassis < 2 then leave bfd_port_pending
     else ebind (efold (chassis_name e c) [] chassis) (\<lambda>names.
     if length names < 2 then leave bfd_port_pending else go ())))))))))))))"

section \<open>Creation\<close>

definition bfd_guard :: "string \<Rightarrow> domain_cluster \<Rightarrow> gateway_config \<Rightarrow> string \<Rightarrow> string \<Rightarrow> string list" where
  "bfd_guard u c g member ip = [''get'', ''BFD'', u, ''external_ids'', ''logical_port'', ''dst_ip'', ''--'',
     ''wait-until'', ''BFD'', u, condition_arg (''external_ids:'' @ owner_key) (gc_owner_uid g),
     condition_arg (''external_ids:'' @ bfd_gateway_key) member, condition_arg (''external_ids:'' @ bfd_cluster_key) (dc_uid c),
     condition_arg (''external_ids:'' @ bfd_router_key) (gc_vpc_name g), condition_arg ''logical_port'' (bfd_port_name g), condition_arg ''dst_ip'' ip]"

definition timer_args :: "site_bfd \<Rightarrow> string list" where
  "timer_args b = [''min_rx='' @ int_str (bfd_min_rx b), ''min_tx='' @ int_str (bfd_min_tx b), ''detect_mult='' @ int_str (bfd_multiplier b)]"

definition create_bfd_args :: "domain_cluster \<Rightarrow> gateway_config \<Rightarrow> site_bfd \<Rightarrow> site_gateway \<Rightarrow> string list" where
  "create_bfd_args c g b m = [''create'', ''BFD'', condition_arg ''logical_port'' (bfd_port_name g), condition_arg ''dst_ip'' (gw_ip m),
     condition_arg (''external_ids:'' @ owner_key) (gc_owner_uid g), condition_arg (''external_ids:'' @ bfd_gateway_key) (gw_id m),
     condition_arg (''external_ids:'' @ bfd_cluster_key) (dc_uid c), condition_arg (''external_ids:'' @ bfd_router_key) (gc_vpc_name g)] @ timer_args b"

definition set_bfd_args :: "string \<Rightarrow> domain_cluster \<Rightarrow> gateway_config \<Rightarrow> site_bfd \<Rightarrow> site_gateway \<Rightarrow> string list" where
  "set_bfd_args u c g b m = bfd_guard u c g (gw_id m) (gw_ip m) @ [''--'', ''set'', ''BFD'', u] @ timer_args b"

definition uuid_of_member :: "bfd_resource_record list \<Rightarrow> string smap" where
  "uuid_of_member records = foldl (\<lambda>m x. mput (bfr_gateway_id x) (bfr_uuid x) m) [] records"

definition write_bfd :: "ovn_exec \<Rightarrow> domain_cluster \<Rightarrow> gateway_config \<Rightarrow> site_bfd \<Rightarrow> string smap \<Rightarrow> bfd_state \<Rightarrow> unit \<Rightarrow> site_gateway \<Rightarrow> (err + unit) oprog" where
  "write_bfd e c g b expected state u m =
     (let id = mget (uuid_of_member (bs_records state)) (gw_id m);
          put = (\<lambda>args. pbind (ovn_run e (dc_nb_command c) args) (\<lambda>x. case x of
            Inl why \<Rightarrow> leave (Errorf (''BFD write outcome is unknown; retry discovery: '' @ err_text why)) | Inr _ \<Rightarrow> go ())) in
      if id = [] \<and> mget expected (gw_id m) \<noteq> [] then leave (Errorf ''persist confirmed missing BFD receipt before recreation'')
      else if id = [] then put (create_bfd_args c g b m)
      else if \<not> bs_configured state then put (set_bfd_args id c g b m)
      else go ())"

definition ensure_bfd :: "ovn_exec \<Rightarrow> domain_cluster \<Rightarrow> gateway_config \<Rightarrow> bfd_resource_record list \<Rightarrow> (err + bfd_state) oprog" where
  "ensure_bfd e c g records =
     ebind (get_bfd e c g records) (\<lambda>state.
     ebind (pure_res (bfd_expected g records)) (\<lambda>(b, expected).
     ebind (bfd_port_ready e c g b) (\<lambda>_.
     ebind (efold (write_bfd e c g b expected state) () (gc_gateways g)) (\<lambda>_.
     get_bfd e c g records))))"

section \<open>Deletion\<close>

text \<open>The two tables that refer to BFD rows, with the column that does.\<close>

definition bfd_references :: "(string \<times> string) list" where
  "bfd_references = [(''Logical_Router_Static_Route'', ''bfd''), (''Logical_Router_Policy'', ''bfd_sessions'')]"

definition row_references :: "string \<Rightarrow> string list \<Rightarrow> ovn_row \<Rightarrow> string list res" where
  "row_references column refs r = rbind (set_value (cell r column) True) (\<lambda>ids. Inr (refs @ ids))"

definition table_references :: "ovn_exec \<Rightarrow> domain_cluster \<Rightarrow> string list \<Rightarrow> string \<times> string \<Rightarrow> (err + string list) oprog" where
  "table_references e c refs q =
     ebind (ovn_query e (dc_nb_command c) (snd q) (fst q) []) (\<lambda>rows. pure_res (foldr_res (row_references (snd q)) refs rows))"

text \<open>One operation of a transaction, the members of the object in the order \<open>json.Marshal\<close> prints them.\<close>

definition wait_op :: "string \<Rightarrow> json \<Rightarrow> json list \<Rightarrow> json" where
  "wait_op table conditions rows = JObj [(''columns'', JArr [JStr ''_uuid'']), (''op'', JStr ''wait''), (''rows'', JArr rows),
     (''table'', JStr table), (''timeout'', JNum ''0''), (''until'', JStr ''==''), (''where'', conditions)]"

definition uuid_json :: "string \<Rightarrow> json" where
  "uuid_json u = JArr [JStr ''uuid'', JStr u]"

definition bfd_where :: "domain_cluster \<Rightarrow> gateway_config \<Rightarrow> bfd_resource_record \<Rightarrow> json" where
  "bfd_where c g x = JArr [JArr [JStr ''_uuid'', JStr ''=='', uuid_json (bfr_uuid x)],
     JArr [JStr ''logical_port'', JStr ''=='', JStr (bfd_port_name g)],
     JArr [JStr ''dst_ip'', JStr ''=='', JStr (mget (ip_of_member g) (bfr_gateway_id x))],
     JArr [JStr ''external_ids'', JStr ''includes'', JArr [JStr ''map'', JArr
       [JArr [JStr owner_key, JStr (gc_owner_uid g)], JArr [JStr bfd_gateway_key, JStr (bfr_gateway_id x)],
        JArr [JStr bfd_cluster_key, JStr (dc_uid c)], JArr [JStr bfd_router_key, JStr (gc_vpc_name g)]]]]]"

text \<open>The row is still the owned one, nothing refers to it, and then it goes.\<close>

definition unreferenced_op :: "string \<Rightarrow> string \<times> string \<Rightarrow> json" where
  "unreferenced_op u q = wait_op (fst q) (JArr [JArr [JStr (snd q), JStr ''includes'', JArr [JStr ''set'', JArr [uuid_json u]]]]) []"

definition delete_ops :: "domain_cluster \<Rightarrow> gateway_config \<Rightarrow> bfd_resource_record \<Rightarrow> json list" where
  "delete_ops c g x = wait_op ''BFD'' (bfd_where c g x) [JObj [(''_uuid'', uuid_json (bfr_uuid x))]]
     # map (unreferenced_op (bfr_uuid x)) bfd_references
     @ [JObj [(''op'', JStr ''delete''), (''table'', JStr ''BFD''), (''where'', bfd_where c g x)]]"

text \<open>The operations after the name of the database, and which of them delete.\<close>

definition add_delete :: "domain_cluster \<Rightarrow> gateway_config \<Rightarrow> json list \<times> nat list \<Rightarrow> bfd_resource_record \<Rightarrow> json list \<times> nat list" where
  "add_delete c g st x = (case st of (ops, deletes) \<Rightarrow>
     (ops @ delete_ops c g x, deletes @ [length ops + length (delete_ops c g x) - 1]))"

definition decode_members_of :: "json smap option decoder" where
  "decode_members_of = decode_map JNull decode_raw"

definition confirmed_delete :: "json smap option list \<Rightarrow> nat \<Rightarrow> bool" where
  "confirmed_delete responses i \<longleftrightarrow> (case responses ! i of
      None \<Rightarrow> False
    | Some m \<Rightarrow> (case map_of m ''count'' of None \<Rightarrow> False | Some j \<Rightarrow> int_cell j = Some 1))"

definition check_response :: "json smap option \<Rightarrow> unit res" where
  "check_response x = (case x of
      None \<Rightarrow> Inl ''BFD transaction aborted; preserve receipts''
    | Some m \<Rightarrow> guard (map_of m ''error'' = None) ''BFD transaction precondition failed; preserve receipts'')"

text \<open>Text after the array is refused as well, with an error text of its own.\<close>

definition check_responses :: "nat \<Rightarrow> nat list \<Rightarrow> string \<Rightarrow> unit res" where
  "check_responses n deletes out =
     (let responses = (case unmarshal (decode_list None decode_members_of) out None of None \<Rightarrow> None | Some x \<Rightarrow> Some (slice x)) in
      case responses of
        None \<Rightarrow> Inl ''invalid BFD transaction response; preserve receipts''
      | Some xs \<Rightarrow>
          if length xs \<noteq> n then Inl ''invalid BFD transaction response; preserve receipts''
          else rbind (each_res check_response xs) (\<lambda>_.
            guard (list_all (confirmed_delete xs) deletes) ''BFD deletion was not confirmed; preserve receipts''))"

definition transaction_body :: "json list \<Rightarrow> string" where
  "transaction_body ops = json_enc (JArr (JStr ''OVN_Northbound'' # ops))"

definition bfd_transaction :: "ovn_exec \<Rightarrow> json list \<Rightarrow> nat list \<Rightarrow> (err + unit) oprog" where
  "bfd_transaction e ops deletes =
     (if oe_transaction_command e = [] \<or> trim_space (hd (oe_transaction_command e)) = []
      then leave (Errorf ''local BFD transaction command is not configured'')
      else if max_output < length (transaction_body ops) then leave (Errorf ''invalid BFD transaction'')
      else Call (oe_transaction_command e @ [transaction_body ops]) (\<lambda>r. case r of
          RunOutput out \<Rightarrow>
            if max_output < length out then leave (Errorf ''BFD deletion outcome unknown; preserve receipts and retry discovery'')
            else pure_res (check_responses (length ops) deletes out)
        | _ \<Rightarrow> leave (Errorf ''BFD deletion outcome unknown; preserve receipts and retry discovery'')))"

text \<open>Absence is only reported by a pass that finds no row.\<close>

definition delete_bfd :: "ovn_exec \<Rightarrow> domain_cluster \<Rightarrow> gateway_config \<Rightarrow> bfd_resource_record list \<Rightarrow> (err + bool) oprog" where
  "delete_bfd e c g records =
     ebind (get_bfd e c g records) (\<lambda>state.
     if bs_records state = [] then go True
     else ebind (efold (table_references e c) [] bfd_references) (\<lambda>refs.
       if list_ex (\<lambda>x. bfr_uuid x \<in> set refs) (bs_records state) then go False
       else case foldl (add_delete c g) ([], []) (bs_records state) of (ops, deletes) \<Rightarrow>
         ebind (bfd_transaction e ops deletes) (\<lambda>_. go False)))"

section \<open>Stale routes\<close>

definition default_cidr :: string where
  "default_cidr = ''0.0.0.0/0''"

definition uuid_of_ip :: "gateway_config \<Rightarrow> string smap \<Rightarrow> string smap" where
  "uuid_of_ip g byid = foldl (\<lambda>m x. mput (gw_ip x) (mget byid (gw_id x)) m) [] (gc_gateways g)"

definition main_default :: "string list \<Rightarrow> string \<Rightarrow> bool" where
  "main_default policy table \<longleftrightarrow> table = [] \<and> (policy = [] \<or> join '','' policy = ''dst-ip'')"

text \<open>The next hops of stale routes are collected in a list without duplicates.\<close>

definition stale_route :: "string smap \<Rightarrow> ovn_row \<Rightarrow> string option res" where
  "stale_route want r =
     rbind (string_value (cell r ''ip_prefix'')) (\<lambda>cidr.
     rbind (string_value (cell r ''nexthop'')) (\<lambda>ip.
     rbind (set_value (cell r ''policy'') False) (\<lambda>policy.
     rbind (string_value (cell r ''route_table'')) (\<lambda>table.
     if map_of want ip = None \<or> cidr \<noteq> default_cidr \<or> \<not> main_default policy table then Inr None
     else rbind (set_value (cell r ''bfd'') True) (\<lambda>bfd.
       Inr (if length bfd \<noteq> 1 \<or> hd bfd \<noteq> mget want ip \<or> mget want ip = [] then Some ip else None))))))"

definition note_route :: "ovn_exec \<Rightarrow> domain_cluster \<Rightarrow> string smap \<Rightarrow> string list \<Rightarrow> string \<Rightarrow> (err + string list) oprog" where
  "note_route e c want conflicts ref =
     ebind (ovn_query e (dc_nb_command c) ''ip_prefix,nexthop,policy,route_table,bfd'' ''Logical_Router_Static_Route'' [uuid_selector @ ref]) (\<lambda>rows.
     ebind (pure_res (single_row rows)) (\<lambda>r.
     ebind (pure_res (stale_route want r)) (\<lambda>x. go (case x of None \<Rightarrow> conflicts | Some ip \<Rightarrow> List.insert ip conflicts))))"

definition bfd_route_conflicts :: "ovn_exec \<Rightarrow> domain_cluster \<Rightarrow> gateway_config \<Rightarrow> bfd_resource_record list \<Rightarrow> (err + string list) oprog" where
  "bfd_route_conflicts e c g records =
     ebind (ovn_query e (dc_nb_command c) ''name,static_routes'' ''Logical_Router'' [condition_arg ''name'' (gc_vpc_name g)]) (\<lambda>rows.
     if rows = [] then go []
     else ebind (pure_res (named_single rows (gc_vpc_name g))) (\<lambda>r.
       ebind (pure_res (set_value (cell r ''static_routes'') True)) (\<lambda>refs.
       efold (note_route e c (uuid_of_ip g (uuid_of_member records))) [] refs)))"

section \<open>Hash fields of the default routes\<close>

definition ecmp_owner_key :: string where
  "ecmp_owner_key = ''global-vpc-ecmp-fields-owner''"

definition ecmp_fields :: "string list" where
  "ecmp_fields = [''ip_dst'', ''ip_proto'', ''ip_src'', ''tp_dst'', ''tp_src'']"

definition exact_map_guard :: "string \<Rightarrow> string smap \<Rightarrow> string" where
  "exact_map_guard column m = column @ ''={'' @ join '','' (sort_strings (map (\<lambda>(k, v). json_str k @ ''='' @ json_str v) m)) @ ''}''"

record ecmp_target =
  et_id :: string
  et_ip :: string
  et_bfd :: string
  et_ids_guard :: string
  et_policy_guard :: string
  et_fields_guard :: string
  et_changed :: bool

text \<open>What a route is to the loop: of no concern, a reason to wait, or a target.\<close>

datatype ecmp_step = EcmpSkip | EcmpWait | EcmpTarget ecmp_target

definition ecmp_columns :: string where
  "ecmp_columns = ''ip_prefix,nexthop,policy,route_table,bfd,selection_fields,external_ids''"

definition ecmp_route :: "gateway_config \<Rightarrow> string smap \<Rightarrow> string list \<Rightarrow> string \<Rightarrow> ovn_row \<Rightarrow> ecmp_step res" where
  "ecmp_route g want seen ref r =
     rbind (string_value (cell r ''ip_prefix'')) (\<lambda>prefix.
     rbind (string_value (cell r ''nexthop'')) (\<lambda>ip.
     if prefix \<noteq> default_cidr \<or> mget want ip = [] then Inr EcmpSkip
     else rbind (set_value (cell r ''policy'') False) (\<lambda>policy.
     rbind (string_value (cell r ''route_table'')) (\<lambda>table.
     rbind (set_value (cell r ''bfd'') True) (\<lambda>bfd.
     if \<not> main_default policy table \<or> length bfd \<noteq> 1 \<or> hd bfd \<noteq> mget want ip then Inr EcmpWait
     else if ip \<in> set seen then Inl ''duplicate native gateway route''
     else rbind (set_value (cell r ''selection_fields'') False) (\<lambda>chosen.
     rbind (map_value (cell r ''external_ids'')) (\<lambda>ids.
     let hash = sort_strings chosen; owner = mget ids ecmp_owner_key; correct = (join '','' hash = join '','' ecmp_fields) in
     if owner \<noteq> [] \<and> owner \<noteq> gc_owner_uid g then Inl ''ECMP selection field ownership conflict''
     else if owner = [] \<and> hash \<noteq> [] \<and> \<not> correct then Inl ''unregistered native ECMP selection fields''
     else Inr (EcmpTarget \<lparr>et_id = ref, et_ip = ip, et_bfd = hd bfd, et_ids_guard = exact_map_guard ''external_ids'' ids,
       et_policy_guard = (if policy \<noteq> [] then condition_arg ''policy'' ''dst-ip'' else ''policy=[]''),
       et_fields_guard = (if hash \<noteq> [] then ''selection_fields='' @ join '','' hash else ''selection_fields=[]''),
       et_changed = (\<not> correct \<or> owner = [])\<rparr>))))))))"

text \<open>The loop over the routes; \<open>None\<close> when it returns that the routes are not as they should be.\<close>

primrec ecmp_targets :: "ovn_exec \<Rightarrow> domain_cluster \<Rightarrow> gateway_config \<Rightarrow> string smap \<Rightarrow> ecmp_target list \<Rightarrow> string list \<Rightarrow> (err + ecmp_target list option) oprog" where
  "ecmp_targets e c g want ts [] = go (Some ts)"
| "ecmp_targets e c g want ts (ref # refs) =
     ebind (ovn_query e (dc_nb_command c) ecmp_columns ''Logical_Router_Static_Route'' [uuid_selector @ ref]) (\<lambda>rows.
     ebind (pure_res (single_row rows)) (\<lambda>r.
     ebind (pure_res (ecmp_route g want (map et_ip ts) ref r)) (\<lambda>step. case step of
         EcmpSkip \<Rightarrow> ecmp_targets e c g want ts refs
       | EcmpWait \<Rightarrow> go None
       | EcmpTarget t \<Rightarrow> ecmp_targets e c g want (ts @ [t]) refs)))"

definition ecmp_args :: "domain_cluster \<Rightarrow> gateway_config \<Rightarrow> string \<Rightarrow> ecmp_target \<Rightarrow> string list" where
  "ecmp_args c g router t = [''get'', ''Logical_Router'', router, ''name'', ''static_routes'',
     ''--'', ''get'', ''Logical_Router_Static_Route'', et_id t, ''ip_prefix'', ''nexthop'', ''policy'', ''route_table'', ''bfd'', ''external_ids'', ''selection_fields'',
     ''--'', ''get'', ''BFD'', et_bfd t, ''external_ids'', ''logical_port'', ''dst_ip'',
     ''--'', ''wait-until'', ''Logical_Router'', router, condition_arg ''name'' (gc_vpc_name g), ''static_routes{>=}'' @ et_id t,
     ''--'', ''wait-until'', ''Logical_Router_Static_Route'', et_id t, condition_arg ''ip_prefix'' default_cidr, condition_arg ''nexthop'' (et_ip t),
     ''bfd='' @ et_bfd t, condition_arg ''route_table'' [], et_policy_guard t, et_fields_guard t, et_ids_guard t,
     ''--'', ''wait-until'', ''BFD'', et_bfd t, condition_arg (''external_ids:'' @ owner_key) (gc_owner_uid g),
     condition_arg (''external_ids:'' @ bfd_cluster_key) (dc_uid c), condition_arg ''logical_port'' (bfd_port_name g), condition_arg ''dst_ip'' (et_ip t),
     ''--'', ''set'', ''Logical_Router_Static_Route'', et_id t, ''selection_fields='' @ join '','' ecmp_fields,
     condition_arg (''external_ids:'' @ ecmp_owner_key) (gc_owner_uid g)]"

definition write_ecmp :: "ovn_exec \<Rightarrow> domain_cluster \<Rightarrow> gateway_config \<Rightarrow> string \<Rightarrow> bool \<Rightarrow> ecmp_target \<Rightarrow> (err + bool) oprog" where
  "write_ecmp e c g router changed t =
     (if \<not> et_changed t then go changed
      else ebind (ovn_run e (dc_nb_command c) (ecmp_args c g router t)) (\<lambda>_. go True))"

definition ensure_ecmp :: "ovn_exec \<Rightarrow> domain_cluster \<Rightarrow> gateway_config \<Rightarrow> bfd_resource_record list \<Rightarrow> (err + bool) oprog" where
  "ensure_ecmp e c g records =
     ebind (pure_res (bfd_expected g records)) (\<lambda>(b, expected).
     if length expected \<noteq> length (gc_gateways g) then go False
     else let want = uuid_of_ip g expected in
       ebind (ovn_query e (dc_nb_command c) ''_uuid,name,static_routes'' ''Logical_Router'' [condition_arg ''name'' (gc_vpc_name g)]) (\<lambda>rows.
       if rows = [] then go False
       else ebind (pure_res (named_single rows (gc_vpc_name g))) (\<lambda>router.
         ebind (pure_res (uuid_value (cell router ''_uuid''))) (\<lambda>u.
         ebind (pure_res (set_value (cell router ''static_routes'') True)) (\<lambda>refs.
         ebind (ecmp_targets e c g want [] refs) (\<lambda>found. case found of
             None \<Rightarrow> go False
           | Some targets \<Rightarrow>
               if length targets \<noteq> length want then go False
               else ebind (efold (write_ecmp e c g u) False targets) (\<lambda>changed. go (\<not> changed))))))))"

section \<open>The interface\<close>

text \<open>The methods of \<open>BFD\<close>, the interface of the site controller, are methods of \<open>Exec\<close>.\<close>

datatype bfd_req =
    GetBfd domain_cluster gateway_config "bfd_resource_record list"
  | EnsureBfd domain_cluster gateway_config "bfd_resource_record list"
  | DeleteBfd domain_cluster gateway_config "bfd_resource_record list"
  | BfdConflicts domain_cluster gateway_config "bfd_resource_record list"
  | EnsureEcmp domain_cluster gateway_config "bfd_resource_record list"

datatype bfd_resp = BfdRows "err + bfd_state" | BfdFlag "err + bool" | BfdHops "err + string list"

fun perform_bfd :: "ovn_exec \<Rightarrow> bfd_req \<Rightarrow> bfd_resp oprog" where
  "perform_bfd e (GetBfd c g records) = pbind (get_bfd e c g records) (\<lambda>x. Ret (BfdRows x))"
| "perform_bfd e (EnsureBfd c g records) = pbind (ensure_bfd e c g records) (\<lambda>x. Ret (BfdRows x))"
| "perform_bfd e (DeleteBfd c g records) = pbind (delete_bfd e c g records) (\<lambda>x. Ret (BfdFlag x))"
| "perform_bfd e (BfdConflicts c g records) = pbind (bfd_route_conflicts e c g records) (\<lambda>x. Ret (BfdHops x))"
| "perform_bfd e (EnsureEcmp c g records) = pbind (ensure_ecmp e c g records) (\<lambda>x. Ret (BfdFlag x))"

end
