(* ===== verification/Site_Gateway.thy ===== *)
theory Site_Gateway
  imports Go_Process Site_Plan
begin

text \<open>
  \<open>internal/sitegateway/exec.go\<close>: the protocol of the local gateway backend. A call sends the operation, the gateway
  configuration and the receipts the caller holds; a result is accepted only if it has exactly the known
  members, repeats the identity and does not contradict itself or the receipts.
\<close>

section \<open>Messages\<close>

datatype gateway_operation = EnsureGateway | GetGateway | DeleteGateway | GatewayEndpoints

definition operation_name :: "gateway_operation \<Rightarrow> string" where
  "operation_name x = (case x of EnsureGateway \<Rightarrow> ''Ensure'' | GetGateway \<Rightarrow> ''Get'' | DeleteGateway \<Rightarrow> ''Delete'' | GatewayEndpoints \<Rightarrow> ''EndpointsEmpty'')"

record site_gateway_result =
  gwr_version :: string
  gwr_owner_uid :: string
  gwr_global_id :: string
  gwr_revision :: string
  gwr_ready :: bool
  gwr_absent :: bool
  gwr_endpoints_empty :: bool
  gwr_ready_gateways :: int
  gwr_desired_gateways :: int
  gwr_ready_ids :: "string list"
  gwr_resources :: "gateway_resource_record list"

record gateway_response =
  gp_version :: string
  gp_owner_uid :: string
  gp_global_id :: string
  gp_revision :: string
  gp_ready :: "bool option"
  gp_absent :: "bool option"
  gp_endpoints_empty :: "bool option"
  gp_ready_gateways :: "int option"
  gp_desired_gateways :: "int option"
  gp_ready_ids :: "string list option"
  gp_resources :: "gateway_resource_record list"

definition gateway_config_json :: "gateway_config \<Rightarrow> json" where
  "gateway_config_json g = JObj ([(''version'', JStr (gc_version g)), (''globalVpcID'', JStr (gc_global_vpc_id g)), (''ownerUID'', JStr (gc_owner_uid g)),
     (''siteID'', JStr (gc_site_id g)), (''attachmentID'', JStr (gc_attachment_id g)), (''gatewayRevision'', JStr (gc_gateway_revision g)),
     (''delegatedPrefixes'', jslice JStr (gc_delegated_prefixes g)), (''cidr'', JStr (gc_cidr g)), (''transitCIDR'', JStr (gc_transit_cidr g)),
     (''routerIP'', JStr (gc_router_ip g))]
     @ omit_empty (gc_gateway_ip g = []) (''gatewayIP'', JStr (gc_gateway_ip g))
     @ [(''vpcName'', JStr (gc_vpc_name g)), (''subnetName'', JStr (gc_subnet_name g)), (''transitName'', JStr (gc_transit_name g))]
     @ omit_empty (gc_gateways g = []) (''gateways'', JArr (map site_gateway_json (gc_gateways g)))
     @ (case gc_bfd g of None \<Rightarrow> [] | Some b \<Rightarrow> [(''bfd'', site_bfd_json b)]))"

definition gateway_record_json :: "gateway_resource_record \<Rightarrow> json" where
  "gateway_record_json r = JObj [(''apiVersion'', JStr (grr_api_version r)), (''kind'', JStr (grr_kind r)),
     (''namespace'', JStr (grr_namespace r)), (''name'', JStr (grr_name r)), (''uid'', JStr (grr_uid r))]"

definition gateway_request :: "gateway_operation \<Rightarrow> gateway_config \<Rightarrow> gateway_resource_record list \<Rightarrow> string" where
  "gateway_request x g expected = json_enc (JObj ([(''version'', JStr ''v1''), (''operation'', JStr (operation_name x)), (''gateway'', gateway_config_json g)]
     @ omit_empty (expected = []) (''expectedResources'', JArr (map gateway_record_json expected))))"

section \<open>Receipts\<close>

definition record_key :: "gateway_resource_record \<Rightarrow> string" where
  "record_key r = grr_api_version r @ nul @ grr_kind r @ nul @ grr_namespace r @ nul @ grr_name r"

definition valid_record :: "gateway_resource_record \<Rightarrow> bool" where
  "valid_record r \<longleftrightarrow> grr_api_version r = ''v1'' \<and> (grr_kind r = ''Pod'' \<or> grr_kind r = ''ConfigMap'')
     \<and> trim_space (grr_namespace r) \<noteq> [] \<and> trim_space (grr_name r) \<noteq> [] \<and> trim_space (grr_uid r) \<noteq> []"

definition valid_records :: "gateway_resource_record list \<Rightarrow> bool" where
  "valid_records rs \<longleftrightarrow> list_all valid_record rs \<and> distinct (map record_key rs)"

text \<open>\<open>byKey\<close>: the last of equal keys counts.\<close>

definition matches_expected :: "gateway_resource_record list \<Rightarrow> gateway_resource_record list \<Rightarrow> bool" where
  "matches_expected actual expected \<longleftrightarrow> (let byKey = foldl (\<lambda>m r. mput (record_key r) (grr_uid r) m) [] expected in
     list_all (\<lambda>r. case map_of byKey (record_key r) of None \<Rightarrow> True | Some u \<Rightarrow> u = grr_uid r) actual)"

section \<open>Reading the response\<close>

text \<open>No object has two members whose names differ only in case, and nesting is bounded.\<close>

fun unique_json :: "nat \<Rightarrow> json \<Rightarrow> bool" where
  "unique_json 0 j = False"
| "unique_json (Suc n) (JObj ms) = (distinct (map (map to_lower \<circ> fst) ms) \<and> list_all (unique_json n \<circ> snd) ms)"
| "unique_json (Suc n) (JArr js) = list_all (unique_json n) js"
| "unique_json (Suc n) j = True"

definition response_fields :: "string list" where
  "response_fields = [''version'', ''ownerUID'', ''globalVpcID'', ''gatewayRevision'', ''ready'', ''absent'', ''endpointsEmpty'', ''resources'',
     ''readyGateways'', ''desiredGateways'', ''readyGatewayIDs'']"

definition record_fields :: "string list" where
  "record_fields = [''apiVersion'', ''kind'', ''namespace'', ''name'', ''uid'']"

definition known_record :: "json \<Rightarrow> bool" where
  "known_record j \<longleftrightarrow> (case j of JNull \<Rightarrow> True | JObj ms \<Rightarrow> set (map fst ms) \<subseteq> set record_fields | _ \<Rightarrow> False)"

definition known_records :: "json option \<Rightarrow> bool" where
  "known_records x \<longleftrightarrow> (case x of None \<Rightarrow> True | Some JNull \<Rightarrow> True | Some (JArr js) \<Rightarrow> list_all known_record js | Some _ \<Rightarrow> False)"

definition decode_gateway_record :: "gateway_resource_record decoder" where
  "decode_gateway_record = decode_struct
     [(''apiVersion'', field grr_api_version (\<lambda>x r. r\<lparr>grr_api_version := x\<rparr>) decode_string),
      (''kind'', field grr_kind (\<lambda>x r. r\<lparr>grr_kind := x\<rparr>) decode_string),
      (''namespace'', field grr_namespace (\<lambda>x r. r\<lparr>grr_namespace := x\<rparr>) decode_string),
      (''name'', field grr_name (\<lambda>x r. r\<lparr>grr_name := x\<rparr>) decode_string),
      (''uid'', field grr_uid (\<lambda>x r. r\<lparr>grr_uid := x\<rparr>) decode_string)]"

definition no_record :: gateway_resource_record where
  "no_record = \<lparr>grr_api_version = [], grr_kind = [], grr_namespace = [], grr_name = [], grr_uid = []\<rparr>"

definition no_response :: gateway_response where
  "no_response = \<lparr>gp_version = [], gp_owner_uid = [], gp_global_id = [], gp_revision = [], gp_ready = None, gp_absent = None,
     gp_endpoints_empty = None, gp_ready_gateways = None, gp_desired_gateways = None, gp_ready_ids = None, gp_resources = []\<rparr>"

definition decode_response_fields :: "gateway_response decoder" where
  "decode_response_fields = decode_struct
     [(''version'', field gp_version (\<lambda>x r. r\<lparr>gp_version := x\<rparr>) decode_string),
      (''ownerUID'', field gp_owner_uid (\<lambda>x r. r\<lparr>gp_owner_uid := x\<rparr>) decode_string),
      (''globalVpcID'', field gp_global_id (\<lambda>x r. r\<lparr>gp_global_id := x\<rparr>) decode_string),
      (''gatewayRevision'', field gp_revision (\<lambda>x r. r\<lparr>gp_revision := x\<rparr>) decode_string),
      (''ready'', field gp_ready (\<lambda>x r. r\<lparr>gp_ready := x\<rparr>) (decode_pointer False decode_bool)),
      (''absent'', field gp_absent (\<lambda>x r. r\<lparr>gp_absent := x\<rparr>) (decode_pointer False decode_bool)),
      (''endpointsEmpty'', field gp_endpoints_empty (\<lambda>x r. r\<lparr>gp_endpoints_empty := x\<rparr>) (decode_pointer False decode_bool)),
      (''readyGateways'', field gp_ready_gateways (\<lambda>x r. r\<lparr>gp_ready_gateways := x\<rparr>) (decode_pointer 0 decode_go_int)),
      (''desiredGateways'', field gp_desired_gateways (\<lambda>x r. r\<lparr>gp_desired_gateways := x\<rparr>) (decode_pointer 0 decode_go_int)),
      (''readyGatewayIDs'', field gp_ready_ids (\<lambda>x r. r\<lparr>gp_ready_ids := x\<rparr>) (decode_pointer [] (decode_slice [] decode_string))),
      (''resources'', field gp_resources (\<lambda>x r. r\<lparr>gp_resources := x\<rparr>) (decode_slice no_record decode_gateway_record))]"

definition decode_response :: "string \<Rightarrow> gateway_response option" where
  "decode_response data = (case json_parse (trim_space data) of
      Some (JObj ms) \<Rightarrow>
        if unique_json 65 (JObj ms) \<and> set (map fst ms) \<subseteq> set response_fields \<and> known_records (map_of ms ''resources'')
        then decode_response_fields (JObj ms) no_response else None
    | _ \<Rightarrow> None)"

section \<open>Accepting the response\<close>

definition gateway_unknown :: "string \<Rightarrow> string" where
  "gateway_unknown reason = reason @ '': gateway state is unknown; preserve ownership receipts and retry the same identity''"

text \<open>Each ready gateway is a member, and none is named twice.\<close>

definition take_member :: "string list \<Rightarrow> string \<Rightarrow> string list res" where
  "take_member ids u = (if u \<notin> set ids then Inl (gateway_unknown ''local gateway available identities are invalid'') else Inr (filter (\<lambda>x. x \<noteq> u) ids))"

definition check_counts :: "gateway_config \<Rightarrow> gateway_response \<Rightarrow> bool \<Rightarrow> bool \<Rightarrow> (int \<times> int) res" where
  "check_counts g r ready absent = (if gc_version g \<noteq> ''v2'' then Inr (if ready then 1 else 0, 1)
     else (case (gp_ready_gateways r, gp_desired_gateways r) of
         (Some n, Some d) \<Rightarrow>
           if d \<noteq> int (length (gc_gateways g)) \<or> d < 2 \<or> n < 0 \<or> d < n \<or> ready \<noteq> (0 < n) \<or> (absent \<and> n \<noteq> 0)
           then Inl (gateway_unknown ''local gateway availability counts are incomplete or contradictory'')
           else (case gp_ready_ids r of
               None \<Rightarrow> Inl (gateway_unknown ''local gateway available identities are incomplete'')
             | Some ids \<Rightarrow>
                 if int (length ids) \<noteq> n then Inl (gateway_unknown ''local gateway available identities are incomplete'')
                 else rbind (foldr_res take_member (map gw_id (gc_gateways g)) ids) (\<lambda>_. Inr (n, d)))
       | _ \<Rightarrow> Inl (gateway_unknown ''local gateway availability counts are incomplete or contradictory'')))"

definition accept_response :: "gateway_config \<Rightarrow> gateway_resource_record list \<Rightarrow> gateway_response \<Rightarrow> site_gateway_result res" where
  "accept_response g expected r =
     (if gp_version r \<noteq> ''v1'' \<or> gp_owner_uid r \<noteq> gc_owner_uid g \<or> gp_global_id r \<noteq> gc_global_vpc_id g \<or> gp_revision r \<noteq> gc_gateway_revision g
      then Inl (gateway_unknown ''local gateway response version, identity or revision does not match'')
      else case (gp_ready r, gp_absent r, gp_endpoints_empty r) of
          (Some ready, Some absent, Some drained) \<Rightarrow>
            if (ready \<and> absent) \<or> (absent \<and> gp_resources r \<noteq> []) then Inl (gateway_unknown ''local gateway response state is incomplete or contradictory'')
            else if \<not> valid_records (gp_resources r) \<or> \<not> matches_expected (gp_resources r) expected
            then Inl (gateway_unknown ''local gateway response resource receipts do not match'')
            else rbind (check_counts g r ready absent) (\<lambda>(n, d). Inr
              \<lparr>gwr_version = gp_version r, gwr_owner_uid = gp_owner_uid r, gwr_global_id = gp_global_id r, gwr_revision = gp_revision r,
               gwr_ready = ready, gwr_absent = absent, gwr_endpoints_empty = drained, gwr_ready_gateways = n, gwr_desired_gateways = d,
               gwr_ready_ids = (case gp_ready_ids r of None \<Rightarrow> [] | Some ids \<Rightarrow> ids), gwr_resources = gp_resources r\<rparr>)
        | _ \<Rightarrow> Inl (gateway_unknown ''local gateway response state is incomplete or contradictory''))"

definition read_gateway :: "gateway_config \<Rightarrow> gateway_resource_record list \<Rightarrow> string \<Rightarrow> site_gateway_result res" where
  "read_gateway g expected out = (case decode_response out of
      None \<Rightarrow> Inl (gateway_unknown ''local gateway returned an invalid response'')
    | Some r \<Rightarrow> accept_response g expected r)"

definition gateway_config_ok :: "gateway_config \<Rightarrow> unit res" where
  "gateway_config_ok g =
     rbind (guard ((gc_version g = ''v1'' \<or> gc_version g = ''v2'') \<and> trim_space (gc_owner_uid g) \<noteq> [] \<and> trim_space (gc_global_vpc_id g) \<noteq> []
         \<and> trim_space (gc_gateway_revision g) \<noteq> [])
       ''local gateway requires a supported version, owner, global VPC identity and revision'') (\<lambda>_.
     guard (gc_version g = ''v2'' \<longrightarrow> 2 \<le> length (gc_gateways g) \<and> length (gc_gateways g) \<le> 8 \<and> gc_bfd g \<noteq> None \<and> gc_gateway_ip g = [])
       ''multi-gateway configuration requires members and BFD'')"

definition invoke_gateway :: "string list \<Rightarrow> int \<Rightarrow> gateway_operation \<Rightarrow> gateway_config \<Rightarrow> gateway_resource_record list \<Rightarrow> site_gateway_result res pprog" where
  "invoke_gateway argv timeout x g expected =
     (if argv = [] \<or> trim_space (hd argv) = [] then leave ''local gateway command is not configured''
      else ebind (lift_res (\<lambda>e. e) (gateway_config_ok g)) (\<lambda>_.
        if \<not> valid_records expected then leave ''local gateway expected resource receipts are invalid''
        else if max_output_bytes < length (gateway_request x g expected) then leave ''local gateway request cannot be encoded within the size limit''
        else run_child argv (gateway_request x g expected) timeout (gateway_unknown ''local gateway output exceeded the size limit'')
          (gateway_unknown ''local gateway deadline or cancellation interrupted the request'') (gateway_unknown ''local gateway execution failed'')
          (read_gateway g expected)))"

section \<open>What a result means\<close>

text \<open>The ready gateways of a result, for a configuration with several gateways.\<close>

definition members_ready :: "gateway_config \<Rightarrow> site_gateway_result \<Rightarrow> bool" where
  "members_ready g r \<longleftrightarrow> gwr_desired_gateways r = int (length (gc_gateways g)) \<and> gwr_ready_gateways r = int (length (gwr_ready_ids r))
     \<and> distinct (gwr_ready_ids r) \<and> set (gwr_ready_ids r) \<subseteq> set (map gw_id (gc_gateways g)) \<and> (gwr_ready r \<longleftrightarrow> gwr_ready_ids r \<noteq> [])"

definition same_receipts :: "gateway_resource_record list \<Rightarrow> gateway_resource_record list \<Rightarrow> bool" where
  "same_receipts actual expected \<longleftrightarrow> (\<forall>x\<in>set actual. \<forall>y\<in>set expected. record_key x = record_key y \<longrightarrow> grr_uid x = grr_uid y)"

definition sound_result :: "gateway_config \<Rightarrow> gateway_resource_record list \<Rightarrow> site_gateway_result \<Rightarrow> bool" where
  "sound_result g expected r \<longleftrightarrow> gwr_owner_uid r = gc_owner_uid g \<and> gwr_global_id r = gc_global_vpc_id g \<and> gwr_revision r = gc_gateway_revision g
     \<and> \<not> (gwr_ready r \<and> gwr_absent r) \<and> (gwr_absent r \<longrightarrow> gwr_resources r = [])
     \<and> valid_records (gwr_resources r) \<and> same_receipts (gwr_resources r) expected
     \<and> (gc_version g = ''v2'' \<longrightarrow> members_ready g r) \<and> (gc_version g \<noteq> ''v2'' \<longrightarrow> gwr_desired_gateways r = 1 \<and> gwr_ready_gateways r = (if gwr_ready r then 1 else 0))"

lemma receipt_index:
  "distinct (map record_key rs) \<Longrightarrow> r \<in> set rs \<Longrightarrow> map_of (foldl (\<lambda>m r. mput (record_key r) (grr_uid r) m) m rs) (record_key r) = Some (grr_uid r)"
proof (induction rs arbitrary: m rule: rev_induct)
  case (snoc x xs)
  then show ?case by (cases "r = x") (auto simp: update_conv' image_iff)
qed simp

lemma matches_same: "matches_expected actual expected \<Longrightarrow> valid_records expected \<Longrightarrow> same_receipts actual expected"
  unfolding same_receipts_def
proof (intro ballI impI)
  fix x y assume m: "matches_expected actual expected" and v: "valid_records expected" and x: "x \<in> set actual" and y: "y \<in> set expected"
    and same: "record_key x = record_key y"
  from v y same have "map_of (foldl (\<lambda>m r. mput (record_key r) (grr_uid r) m) [] expected) (record_key x) = Some (grr_uid y)"
    by (simp add: receipt_index valid_records_def)
  with m x show "grr_uid x = grr_uid y" by (auto simp: matches_expected_def list_all_iff dest!: bspec)
qed

lemma take_members:
  assumes "foldr_res take_member ids us = Inr rest"
  shows "distinct us \<and> set us \<subseteq> set ids"
proof -
  have "distinct us \<and> set us \<subseteq> set ids \<and> set rest = set ids - set us"
    by (rule foldr_res_invariant [OF assms, where I = "\<lambda>us rest. distinct us \<and> set us \<subseteq> set ids \<and> set rest = set ids - set us"])
      (auto simp: take_member_def split: if_splits)
  then show ?thesis by simp
qed

lemma check_counts_sound:
  assumes "check_counts g r ready gone = Inr (n, d)"
  shows "if gc_version g = ''v2'' then (\<exists>ids. gp_ready_ids r = Some ids \<and> n = int (length ids) \<and> d = int (length (gc_gateways g))
       \<and> distinct ids \<and> set ids \<subseteq> set (map gw_id (gc_gateways g)) \<and> (ready \<longleftrightarrow> ids \<noteq> [])) else d = 1 \<and> n = (if ready then 1 else 0)"
  using assms take_members by (force simp: check_counts_def split: option.splits if_splits)

lemma accept_response_sound: "valid_records expected \<Longrightarrow> accept_response g expected r = Inr x \<Longrightarrow> sound_result g expected x"
  by (auto simp: accept_response_def sound_result_def members_ready_def intro: matches_same dest!: check_counts_sound split: option.splits if_splits)

lemma read_gateway_sound: "valid_records expected \<Longrightarrow> read_gateway g expected out = Inr x \<Longrightarrow> sound_result g expected x"
  by (auto simp: read_gateway_def intro: accept_response_sound split: option.splits)

text \<open>A call starts at most one child, with the configured command and this request, and only for a valid configuration.\<close>

definition gateway_answer :: "string list \<Rightarrow> gateway_operation \<Rightarrow> gateway_config \<Rightarrow> gateway_resource_record list \<Rightarrow> phist \<Rightarrow> site_gateway_result res \<Rightarrow> bool" where
  "gateway_answer argv x g expected h y \<longleftrightarrow> (case y of
      Inl _ \<Rightarrow> True
    | Inr r \<Rightarrow> sound_result g expected r \<and> gateway_config_ok g = Inr () \<and> valid_records expected
        \<and> (\<exists>q out. h = [(q, Printed out)] \<and> pr_argv q = argv \<and> pr_stdin q = gateway_request x g expected \<and> length out \<le> max_output_bytes))"

lemma invoke_gateway_answer: "always (\<lambda>_ _. True) (invoke_gateway argv timeout x g expected) (gateway_answer argv x g expected) []"
  by (cases "gateway_config_ok g")
    (auto simp: invoke_gateway_def always_run_child gateway_answer_def Let_def intro: read_gateway_sound split: proc_resp.split sum.split)

text \<open>
  Whatever the gateway backend prints, a result is only accepted from the one child that was started with this
  request, and it is sound: it repeats the owner, the global identity and the revision; ready and absent exclude each
  other and absence leaves no resource; the receipts are well formed, name each object once and keep the UID of
  every receipt the caller already holds; and with several gateways the ready ones are distinct members of the
  configuration, counted right, and readiness means that there is at least one.
\<close>

theorem gateway_result_sound: "every_outcome (gateway_answer argv x g expected) (invoke_gateway argv timeout x g expected)"
  by (rule every_outcomeI [OF invoke_gateway_answer])

end
