(* ===== verification/Site_Reconciler.thy ===== *)
theory Site_Reconciler
  imports Ovn_Site Site_Gateway Domain_Reconciler
begin

text \<open>
  \<open>internal/sitecontroller/reconciler.go\<close>: one pass over a SiteVpc, the attachment of a VPC that one site owns. The store of
  the local cluster is the \<open>ResourceStore\<close>; the gateway backend, the observing OVN adapter and the BFD adapter are
  interfaces, so their calls are requests. The deadline of two minutes is not modelled.
\<close>

section \<open>Requests\<close>

datatype sobj = SVpc site_vpc

fun s_vpc :: "sobj \<Rightarrow> site_vpc option" where "s_vpc (SVpc v) = Some v"

lemma s_vpc_iff [simp]: "s_vpc y = Some v \<longleftrightarrow> y = SVpc v"
  by (cases y) simp

datatype site_req =
    SiteApi "sobj kreq" | SiteInfra "iobj kreq" | SiteNet net_req | SiteBfd bfd_req
  | SiteGateway gateway_operation gateway_config "gateway_resource_record list"

datatype site_resp = SiteAnswer "sobj kresp" | SiteInfraAnswer "iobj kresp" | SiteNetAnswer net_resp | SiteBfdAnswer bfd_resp
  | SiteGatewayAnswer "err + site_gateway_result"

type_synonym 'a sprog = "(site_req, site_resp, 'a) prog"
type_synonym shist = "(site_req \<times> site_resp) list"
type_synonym 'a scprog = "(outcome + 'a) sprog"

definition site_api_answer :: "site_resp \<Rightarrow> sobj kresp" where
  "site_api_answer r = (case r of SiteAnswer x \<Rightarrow> x | _ \<Rightarrow> Failed decode_error)"

definition site_infra_answer :: "site_resp \<Rightarrow> iobj kresp" where
  "site_infra_answer r = (case r of SiteInfraAnswer x \<Rightarrow> x | _ \<Rightarrow> Failed decode_error)"

definition site_net_answer :: "site_resp \<Rightarrow> net_resp" where
  "site_net_answer r = (case r of SiteNetAnswer x \<Rightarrow> x | _ \<Rightarrow> NetDone (Inl decode_error))"

abbreviation site_api :: "(sobj, 'a) kprog \<Rightarrow> 'a sprog" where
  "site_api \<equiv> wire SiteApi site_api_answer"

abbreviation site_infra :: "'a iprog \<Rightarrow> 'a sprog" where
  "site_infra \<equiv> wire SiteInfra site_infra_answer"

abbreviation site_net :: "(net_req, net_resp, 'a) prog \<Rightarrow> 'a sprog" where
  "site_net \<equiv> wire SiteNet site_net_answer"

definition gateway_call :: "gateway_operation \<Rightarrow> gateway_config \<Rightarrow> gateway_resource_record list \<Rightarrow> (err + site_gateway_result) sprog" where
  "gateway_call x g rs = Call (SiteGateway x g rs) (\<lambda>r. Ret (case r of SiteGatewayAnswer y \<Rightarrow> y | _ \<Rightarrow> Inl decode_error))"

definition bfd_rows :: "bfd_req \<Rightarrow> (err + bfd_state) sprog" where
  "bfd_rows q = Call (SiteBfd q) (\<lambda>r. Ret (case r of SiteBfdAnswer (BfdRows y) \<Rightarrow> y | _ \<Rightarrow> Inl decode_error))"

definition bfd_flag :: "bfd_req \<Rightarrow> (err + bool) sprog" where
  "bfd_flag q = Call (SiteBfd q) (\<lambda>r. Ret (case r of SiteBfdAnswer (BfdFlag y) \<Rightarrow> y | _ \<Rightarrow> Inl decode_error))"

definition bfd_hops :: "bfd_req \<Rightarrow> (err + string list) sprog" where
  "bfd_hops q = Call (SiteBfd q) (\<lambda>r. Ret (case r of SiteBfdAnswer (BfdHops y) \<Rightarrow> y | _ \<Rightarrow> Inl decode_error))"

section \<open>Status\<close>

text \<open>\<open>sr_cluster\<close> is the configuration of the store, \<open>sr_bfd\<close> whether there is a BFD adapter.\<close>

record site_controller =
  sr_config :: site_config
  sr_cluster :: domain_cluster
  sr_bfd :: bool
  sr_interval :: int

definition site_interval :: "site_controller \<Rightarrow> int" where
  "site_interval r = (if sr_interval r < 1000000000 then 10 * 1000000000 else sr_interval r)"

definition site_redundant :: "site_vpc \<Rightarrow> bool \<Rightarrow> condition" where
  "site_redundant v gateway =
     (if gateway \<and> svs_gateway_ready_count (sv_status v) = svs_gateway_desired_count (sv_status v)
      then condition_of (om_generation (sv_meta v)) ''GatewayRedundant'' ''AllGatewaysAvailable''
        ''Every configured gateway has local process readiness and BFD connectivity'' True
      else condition_of (om_generation (sv_meta v)) ''GatewayRedundant'' ''GatewayRedundancyDegraded''
        ''Fewer than the configured gateways have both local process readiness and BFD connectivity'' False)"

definition site_with_state :: "k8s_lib \<Rightarrow> site_vpc \<Rightarrow> string \<Rightarrow> string \<Rightarrow> string \<Rightarrow> bool \<Rightarrow> bool \<Rightarrow> site_vpc" where
  "site_with_state L v phase reason message ready gateway =
     (let generation = om_generation (sv_meta v);
          cs = set_status_condition L (svs_conditions (sv_status v)) (condition_of generation ''LocalReady'' reason message ready);
          cs' = set_status_condition L cs (condition_of generation ''GatewayConfigured'' reason message gateway) in
      v\<lparr>sv_status := (sv_status v)\<lparr>svs_phase := phase, svs_observed_generation := generation,
        svs_conditions := (if 1 < svs_gateway_desired_count (sv_status v) then set_status_condition L cs' (site_redundant v gateway) else cs')\<rparr>\<rparr>)"

definition site_state :: "k8s_lib \<Rightarrow> site_controller \<Rightarrow> site_vpc \<Rightarrow> string \<Rightarrow> string \<Rightarrow> string \<Rightarrow> bool \<Rightarrow> bool \<Rightarrow> outcome sprog" where
  "site_state L r v phase reason message ready gateway =
     (let v' = site_with_state L v phase reason message ready gateway; again = \<lparr>requeue_after = site_interval r, out_error = None\<rparr> in
      if sv_status v \<noteq> sv_status v'
      then pbind (site_api (kdo (UpdateStatus (SVpc v')))) (\<lambda>x. Ret (case x of Inl e \<Rightarrow> failed e | Inr _ \<Rightarrow> again))
      else Ret again)"

definition site_blocked :: "k8s_lib \<Rightarrow> site_controller \<Rightarrow> site_vpc \<Rightarrow> err \<Rightarrow> outcome sprog" where
  "site_blocked L r v e = site_state L r v ''Blocked'' ''LocalReconcileBlocked'' (err_text e) False False"

text \<open>Early returns: a final state, a blocked pass, and a status that is saved before anything else happens.\<close>

definition site_early :: "outcome sprog \<Rightarrow> 'a scprog" where
  "site_early p = pbind p leave"

definition or_block :: "k8s_lib \<Rightarrow> site_controller \<Rightarrow> site_vpc \<Rightarrow> (err + 'a) sprog \<Rightarrow> 'a scprog" where
  "or_block L r v p = pbind p (\<lambda>x. case x of Inl e \<Rightarrow> site_early (site_blocked L r v e) | Inr a \<Rightarrow> go a)"

definition site_wait :: "k8s_lib \<Rightarrow> site_controller \<Rightarrow> site_vpc \<Rightarrow> string \<Rightarrow> string \<Rightarrow> string \<Rightarrow> bool \<Rightarrow> 'a scprog" where
  "site_wait L r v phase reason message gateway = site_early (site_state L r v phase reason message False gateway)"

definition soon :: "(err + unit) \<Rightarrow> outcome" where
  "soon x = \<lparr>requeue_after = 1000000, out_error = (case x of Inl e \<Rightarrow> Some e | Inr _ \<Rightarrow> None)\<rparr>"

definition site_persist :: "site_vpc \<Rightarrow> 'a scprog" where
  "site_persist v = pbind (site_api (kdo (UpdateStatus (SVpc v)))) (\<lambda>x. leave (soon x))"

definition site_saved :: "site_vpc \<Rightarrow> site_vpc scprog" where
  "site_saved v = pbind (site_api (kwrite s_vpc (UpdateStatus (SVpc v)))) (\<lambda>x. case x of Inl e \<Rightarrow> leave (failed e) | Inr v' \<Rightarrow> go v')"

section \<open>Receipts\<close>

definition site_record :: "string \<Rightarrow> string \<Rightarrow> v1_resource_record \<Rightarrow> bool" where
  "site_record kind name x \<longleftrightarrow> v1r_kind x = kind \<and> v1r_name x = name"

definition site_recorded :: "site_vpc \<Rightarrow> string \<Rightarrow> string \<Rightarrow> string" where
  "site_recorded v kind name = (case find (site_record kind name) (svs_resources (sv_status v)) of None \<Rightarrow> [] | Some x \<Rightarrow> v1r_uid x)"

definition site_forget :: "string \<Rightarrow> string \<Rightarrow> site_vpc \<Rightarrow> site_vpc" where
  "site_forget kind name v = v\<lparr>sv_status := (sv_status v)\<lparr>svs_resources := filter (\<lambda>x. \<not> site_record kind name x) (svs_resources (sv_status v))\<rparr>\<rparr>"

definition site_remember :: "site_controller \<Rightarrow> string \<Rightarrow> string \<Rightarrow> string \<Rightarrow> site_vpc \<Rightarrow> site_vpc" where
  "site_remember r kind name uid v = v\<lparr>sv_status := (sv_status v)\<lparr>svs_resources := svs_resources (sv_status v)
     @ [\<lparr>v1r_cluster_ref = cl_name (sc_cluster (sr_config r)), v1r_kind = kind, v1r_name = name, v1r_uid = uid\<rparr>]\<rparr>\<rparr>"

definition set_gateway_resources :: "gateway_resource_record list \<Rightarrow> site_vpc \<Rightarrow> site_vpc" where
  "set_gateway_resources rs v = v\<lparr>sv_status := (sv_status v)\<lparr>svs_gateway_resources := rs\<rparr>\<rparr>"

definition set_bfd_resources :: "bfd_resource_record list \<Rightarrow> site_vpc \<Rightarrow> site_vpc" where
  "set_bfd_resources rs v = v\<lparr>sv_status := (sv_status v)\<lparr>svs_bfd_resources := rs\<rparr>\<rparr>"

definition set_site_operation :: "string \<Rightarrow> site_vpc \<Rightarrow> site_vpc" where
  "set_site_operation op v = v\<lparr>sv_status := (sv_status v)\<lparr>svs_operation := op\<rparr>\<rparr>"

definition set_counts :: "int \<Rightarrow> int \<Rightarrow> site_vpc \<Rightarrow> site_vpc" where
  "set_counts n d v = v\<lparr>sv_status := (sv_status v)\<lparr>svs_gateway_ready_count := n, svs_gateway_desired_count := d\<rparr>\<rparr>"

text \<open>\<open>sameReceipts\<close> and \<open>sameBFDReceipts\<close>: a nil slice and an empty one count as equal, so this is equality of lists.\<close>

section \<open>The native objects\<close>

definition bfd_route_json :: "string \<Rightarrow> string \<Rightarrow> json" where
  "bfd_route_json ip u = jmap [(''policy'', JStr ''policyDst''), (''cidr'', JStr default_cidr), (''nextHopIP'', JStr ip), (''bfdId'', JStr u), (''ecmpMode'', JStr ''bfd'')]"

definition gateway_routes :: "site_plan \<Rightarrow> bfd_resource_record list \<Rightarrow> string list \<Rightarrow> json" where
  "gateway_routes p records conflicts = (let byid = uuid_of_member records in
     JArr (map (\<lambda>m. bfd_route_json (gw_ip m) (mget byid (gw_id m)))
       (filter (\<lambda>m. mget byid (gw_id m) \<noteq> [] \<and> gw_ip m \<notin> set conflicts) (gc_gateways (sp_gateway p)))))"

definition site_targets :: "site_plan \<Rightarrow> unstructured list" where
  "site_targets p = map rendered [sp_vpc p, sp_subnet p, sp_transit p]"

text \<open>\<open>setGatewayRoutes\<close> replaces the static routes of the rendered Vpc.\<close>

definition routed_targets :: "site_plan \<Rightarrow> bfd_resource_record list \<Rightarrow> string list \<Rightarrow> unstructured list" where
  "routed_targets p records conflicts = set_spec ''staticRoutes'' (gateway_routes p records conflicts) (rendered (sp_vpc p)) # map rendered [sp_subnet p, sp_transit p]"

section \<open>Before the first change\<close>

definition site_accept :: "site_vpc \<Rightarrow> site_plan \<Rightarrow> site_vpc scprog" where
  "site_accept v p = (if svs_plan_hash (sv_status v) \<noteq> [] then go v
     else site_saved (v\<lparr>sv_status := (sv_status v)\<lparr>svs_plan_hash := sp_hash p\<rparr>\<rparr>))"

definition site_preflight :: "k8s_lib \<Rightarrow> site_controller \<Rightarrow> site_vpc \<Rightarrow> site_plan \<Rightarrow> unit \<Rightarrow> unstructured \<Rightarrow> unit scprog" where
  "site_preflight L r v p u want =
     pbind (site_infra (store_get (un_kind want) (om_name (un_meta want)))) (\<lambda>got. case got of
       Inl e \<Rightarrow> if is_not_found e then go () else site_early (site_blocked L r v (Errorf ''local ownership preflight failed''))
     | Inr x \<Rightarrow>
         let expected = site_recorded v (un_kind want) (om_name (un_meta want)) in
         if mget (om_labels (un_meta x)) v1_owner_label \<noteq> sp_owner_uid p
            \<or> mget (om_labels (un_meta x)) v1_cluster_label \<noteq> cl_uid (sc_cluster (sr_config r))
            \<or> (expected \<noteq> [] \<and> om_uid (un_meta x) \<noteq> expected)
         then site_early (site_blocked L r v (Errorf ''local resource ownership or UID conflict'')) else go ())"

text \<open>What the BFD adapter sees; a difference to the receipts is saved before anything is changed.\<close>

definition observe_bfd :: "k8s_lib \<Rightarrow> site_controller \<Rightarrow> site_vpc \<Rightarrow> site_plan \<Rightarrow> bfd_state scprog" where
  "observe_bfd L r v p =
     (if \<not> is_ha (sp_gateway p) then go \<lparr>bs_records = [], bs_up = [], bs_configured = False\<rparr>
      else if \<not> sr_bfd r then site_early (site_blocked L r v (Errorf ''local BFD adapter is not configured''))
      else ebind (or_block L r v (bfd_rows (GetBfd (sr_cluster r) (sp_gateway p) (svs_bfd_resources (sv_status v))))) (\<lambda>state.
        if svs_bfd_resources (sv_status v) \<noteq> bs_records state then site_persist (set_bfd_resources (bs_records state) v)
        else go state))"

section \<open>Deletion\<close>

definition site_empty :: "k8s_lib \<Rightarrow> site_controller \<Rightarrow> site_vpc \<Rightarrow> string \<Rightarrow> bool scprog" where
  "site_empty L r v name = or_block L r v (site_net (net_flag (EndpointsEmpty (sr_cluster r) name)))"

definition delete_items :: "site_plan \<Rightarrow> (string \<times> string) list" where
  "delete_items p = [(''Subnet'', sp_subnet_name p), (''Subnet'', sp_transit_name p), (''Vpc'', sp_vpc_name p)]"

definition delete_item :: "k8s_lib \<Rightarrow> site_controller \<Rightarrow> site_vpc \<Rightarrow> site_plan \<Rightarrow> unit \<Rightarrow> string \<times> string \<Rightarrow> unit scprog" where
  "delete_item L r v p u item =
     ebind (or_block L r v (site_infra (store_delete (dc_uid (sr_cluster r)) (fst item) (snd item) (sp_owner_uid p) (site_recorded v (fst item) (snd item))))) (\<lambda>gone.
     if gone then go () else site_wait L r v ''Deleting'' ''LocalRemovalPending'' ''Waiting for local Kube-OVN resource removal'' False)"

definition remove_bfd :: "k8s_lib \<Rightarrow> site_controller \<Rightarrow> site_vpc \<Rightarrow> site_plan \<Rightarrow> unit scprog" where
  "remove_bfd L r v p =
     (if \<not> is_ha (sp_gateway p) then go ()
      else ebind (or_block L r v (bfd_flag (DeleteBfd (sr_cluster r) (sp_gateway p) (svs_bfd_resources (sv_status v))))) (\<lambda>gone.
        if \<not> gone then site_wait L r v ''Deleting'' ''BFDWithdrawalPending'' ''Waiting for native route withdrawal and owned BFD removal'' False
        else if svs_bfd_resources (sv_status v) \<noteq> [] then site_persist (set_bfd_resources [] v)
        else go ()))"

definition delete_resources :: "k8s_lib \<Rightarrow> site_controller \<Rightarrow> site_vpc \<Rightarrow> site_plan \<Rightarrow> 'a scprog" where
  "delete_resources L r v p =
     ebind (site_empty L r v (sp_transit_name p)) (\<lambda>free.
     if \<not> free then site_wait L r v ''Deleting'' ''TransitTeardownPending'' ''Waiting for local transit endpoint removal'' False
     else ebind (or_block L r v (site_infra (store_withdraw_routes (dc_uid (sr_cluster r)) (sp_vpc_name p) (sp_owner_uid p)
         (site_recorded v ''Vpc'' (sp_vpc_name p))))) (\<lambda>_.
       ebind (remove_bfd L r v p) (\<lambda>_.
       ebind (efold (delete_item L r v p) () (delete_items p)) (\<lambda>_.
       ebind (or_block L r v (site_net (net_flag (LocalAbsent (sr_cluster r) (sp_vpc_name p) (sp_subnet_name p) (sp_transit_name p))))) (\<lambda>gone.
       if \<not> gone then site_wait L r v ''Deleting'' ''LocalOVNRemovalPending'' ''Waiting for local OVN topology removal'' False
       else pbind (site_api (kdo (Update (SVpc (v\<lparr>sv_meta := remove_finalizer L (sv_meta v) site_finalizer\<rparr>))))) (\<lambda>x.
         leave (case x of Inl e \<Rightarrow> failed e | Inr _ \<Rightarrow> finished)))))))"

definition delete_site_gateway :: "k8s_lib \<Rightarrow> site_controller \<Rightarrow> site_vpc \<Rightarrow> site_plan \<Rightarrow> 'a scprog" where
  "delete_site_gateway L r v p =
     ebind (or_block L r v (gateway_call DeleteGateway (sp_gateway p) (svs_gateway_resources (sv_status v)))) (\<lambda>result.
     if \<not> gwr_absent result then site_wait L r v ''Deleting'' ''GatewayWithdrawalPending'' ''Waiting for local gateway removal and route withdrawal'' False
     else site_persist (set_site_operation ''DeleteResources'' (set_gateway_resources [] v)))"

definition remove_site :: "k8s_lib \<Rightarrow> site_controller \<Rightarrow> site_vpc \<Rightarrow> site_plan \<Rightarrow> 'a scprog" where
  "remove_site L r v p =
     ebind (site_empty L r v (sp_subnet_name p)) (\<lambda>free.
     if \<not> free then site_wait L r v ''Deleting'' ''LocalEndpointsPresent'' ''Drain local workload endpoints before detaching'' False
     else ebind (or_block L r v (gateway_call GatewayEndpoints (sp_gateway p) (svs_gateway_resources (sv_status v)))) (\<lambda>result.
       if \<not> gwr_endpoints_empty result
       then site_wait L r v ''Deleting'' ''LocalEndpointsPresent'' ''Drain local workload and transit endpoints before detaching'' False
       else if svs_operation (sv_status v) = [] then site_persist (set_site_operation ''DeleteGateway'' v)
       else if svs_operation (sv_status v) = ''DeleteGateway'' then delete_site_gateway L r v p
       else if svs_operation (sv_status v) \<noteq> ''DeleteResources'' then site_early (site_blocked L r v (Errorf ''unrecognized durable deletion operation''))
       else delete_resources L r v p))"

section \<open>Convergence\<close>

definition site_ensure :: "k8s_lib \<Rightarrow> site_controller \<Rightarrow> site_vpc \<Rightarrow> unstructured \<Rightarrow> site_vpc scprog" where
  "site_ensure L r v want =
     (let kind = un_kind want; name = om_name (un_meta want) in
      pbind (site_infra (store_ensure (dc_uid (sr_cluster r)) want (site_recorded v kind name))) (\<lambda>x. case x of
        Inl e \<Rightarrow> if e = recorded_missing then site_persist (site_forget kind name v) else site_early (site_blocked L r v e)
      | Inr uid \<Rightarrow> if site_recorded v kind name \<noteq> uid then site_saved (site_remember r kind name uid v) else go v))"

definition site_subnet_ready :: "k8s_lib \<Rightarrow> site_controller \<Rightarrow> site_vpc \<Rightarrow> site_plan \<Rightarrow> unit \<Rightarrow> string \<Rightarrow> unit scprog" where
  "site_subnet_ready L r v p u name =
     ebind (or_block L r v (site_infra (store_ready (dc_uid (sr_cluster r)) ''Subnet'' name (sp_owner_uid p) (site_recorded v ''Subnet'' name)))) (\<lambda>ready.
     if ready then go () else site_wait L r v ''Pending'' ''LocalSubnetsPending'' ''Waiting for local Kube-OVN Subnets'' False)"

text \<open>The BFD rows, created or corrected; their receipts are saved before the gateways are touched.\<close>

definition ensure_rows :: "k8s_lib \<Rightarrow> site_controller \<Rightarrow> site_vpc \<Rightarrow> site_plan \<Rightarrow> bfd_state \<Rightarrow> bfd_state scprog" where
  "ensure_rows L r v p state =
     (if \<not> is_ha (sp_gateway p) then go state
      else pbind (bfd_rows (EnsureBfd (sr_cluster r) (sp_gateway p) (svs_bfd_resources (sv_status v)))) (\<lambda>x. case x of
        Inl e \<Rightarrow> if e = bfd_port_pending then site_wait L r v ''Pending'' ''NativeBFDPortPending'' (err_text e) False
                 else site_early (site_blocked L r v e)
      | Inr state' \<Rightarrow> if svs_bfd_resources (sv_status v) \<noteq> bs_records state' then site_persist (set_bfd_resources (bs_records state') v)
          else go state'))"

definition ready_count :: "site_gateway_result \<Rightarrow> bfd_state \<Rightarrow> int" where
  "ready_count result state = int (sum_list (map (\<lambda>u. length (filter (\<lambda>x. x = u) (bs_up state))) (gwr_ready_ids result)))"

definition site_counts :: "k8s_lib \<Rightarrow> site_controller \<Rightarrow> site_vpc \<Rightarrow> site_plan \<Rightarrow> site_gateway_result \<Rightarrow> bfd_state \<Rightarrow> unit scprog" where
  "site_counts L r v p result state =
     (if \<not> is_ha (sp_gateway p) then go ()
      else if svs_gateway_ready_count (sv_status v) \<noteq> ready_count result state \<or> svs_gateway_desired_count (sv_status v) \<noteq> gwr_desired_gateways result
      then site_persist (set_counts (ready_count result state) (gwr_desired_gateways result) v)
      else if ready_count result state = 0
      then site_wait L r v ''Pending'' ''LocalGatewayBFDPending'' ''Waiting for a configured local gateway with BFD connectivity'' False
      else go ())"

text \<open>The routes of the tenant router: the two of Kube-OVN's subnets, and one default route per gateway.\<close>

definition subnet_routes :: "site_vpc \<Rightarrow> site_plan \<Rightarrow> ovn_route list" where
  "subnet_routes v p = [\<lparr>rt_cidr = sv_cidr (sv_spec v), rt_next_hop = sv_gateway (sv_spec v), rt_policy = ''src-ip'', rt_bfd = []\<rparr>,
     \<lparr>rt_cidr = gc_transit_cidr (sp_gateway p), rt_next_hop = gc_router_ip (sp_gateway p), rt_policy = ''src-ip'', rt_bfd = []\<rparr>]"

definition default_route :: "string \<Rightarrow> string \<Rightarrow> ovn_route" where
  "default_route ip u = \<lparr>rt_cidr = default_cidr, rt_next_hop = ip, rt_policy = ''dst-ip'', rt_bfd = u\<rparr>"

definition site_expected_routes :: "k8s_lib \<Rightarrow> site_controller \<Rightarrow> site_vpc \<Rightarrow> site_plan \<Rightarrow> ovn_route list scprog" where
  "site_expected_routes L r v p = (let g = sp_gateway p; byid = uuid_of_member (svs_bfd_resources (sv_status v)) in
     if \<not> is_ha g then go (subnet_routes v p @ [default_route (gc_gateway_ip g) []])
     else if list_ex (\<lambda>m. mget byid (gw_id m) = []) (gc_gateways g)
     then site_wait L r v ''Pending'' ''LocalBFDConfigurationPending'' ''Waiting for all local BFD identities'' True
     else go (subnet_routes v p @ map (\<lambda>m. default_route (gw_ip m) (mget byid (gw_id m))) (gc_gateways g)))"

definition site_routes_ready :: "k8s_lib \<Rightarrow> site_controller \<Rightarrow> site_vpc \<Rightarrow> site_plan \<Rightarrow> unit scprog" where
  "site_routes_ready L r v p =
     ebind (site_expected_routes L r v p) (\<lambda>routes.
     ebind (or_block L r v (site_net (net_flag (RoutesReady (sr_cluster r) (sp_vpc_name p) routes)))) (\<lambda>ready.
     if \<not> ready then site_wait L r v ''Pending'' ''LocalRoutesPending'' ''Waiting for the local OVN gateway route'' True
     else if \<not> is_ha (sp_gateway p) then go ()
     else ebind (or_block L r v (bfd_flag (EnsureEcmp (sr_cluster r) (sp_gateway p) (svs_bfd_resources (sv_status v))))) (\<lambda>ready.
       if ready then go () else site_wait L r v ''Pending'' ''LocalECMPFieldsPending'' ''Waiting for native route flow-hash fields'' True)))"

definition ensure_site_gateway :: "k8s_lib \<Rightarrow> site_controller \<Rightarrow> site_vpc \<Rightarrow> site_plan \<Rightarrow> (site_vpc \<times> site_gateway_result) scprog" where
  "ensure_site_gateway L r v p =
     ebind (or_block L r v (gateway_call EnsureGateway (sp_gateway p) (svs_gateway_resources (sv_status v)))) (\<lambda>result.
     if svs_gateway_resources (sv_status v) \<noteq> gwr_resources result
     then ebind (site_saved (set_gateway_resources (gwr_resources result) v)) (\<lambda>v'. go (v', result))
     else go (v, result))"

definition site_converge :: "k8s_lib \<Rightarrow> site_controller \<Rightarrow> site_vpc \<Rightarrow> site_plan \<Rightarrow> bfd_state \<Rightarrow> 'a scprog" where
  "site_converge L r v p state =
     ebind (if is_ha (sp_gateway p) then ebind (or_block L r v (bfd_hops (BfdConflicts (sr_cluster r) (sp_gateway p) (bs_records state)))) (\<lambda>conflicts.
         go (routed_targets p (bs_records state) conflicts))
       else go (site_targets p)) (\<lambda>targets.
     ebind (efold (site_ensure L r) v targets) (\<lambda>v1.
     ebind (efold (site_subnet_ready L r v1 p) () [sp_subnet_name p, sp_transit_name p]) (\<lambda>_.
     ebind (ensure_rows L r v1 p state) (\<lambda>state'.
     ebind (ensure_site_gateway L r v1 p) (\<lambda>(v2, result).
     ebind (site_counts L r v2 p result state') (\<lambda>_.
     if \<not> gwr_ready result
     then site_wait L r v2 ''Pending'' ''LocalGatewayPending'' ''Waiting for local gateway configuration; remote peers do not gate this state'' False
     else ebind (site_routes_ready L r v2 p) (\<lambda>_.
       site_early (site_state L r v2 ''LocalReady'' ''LocalConfigurationApplied''
         ''Local network and gateway configured; remote reachability is observed by the routing layer'' True True))))))))"

section \<open>The pass\<close>

definition site_plan_pass :: "k8s_lib \<Rightarrow> site_controller \<Rightarrow> site_vpc \<Rightarrow> site_plan \<Rightarrow> 'a scprog" where
  "site_plan_pass L r v0 p =
     ebind (site_accept v0 p) (\<lambda>v.
     ebind (or_block L r v (site_infra (check_identity (dc_uid (sr_cluster r))))) (\<lambda>_.
     ebind (efold (site_preflight L r v p) () (site_targets p)) (\<lambda>_.
     ebind (or_block L r v (gateway_call GetGateway (sp_gateway p) (svs_gateway_resources (sv_status v)))) (\<lambda>observed.
     ebind (observe_bfd L r v p) (\<lambda>state.
     if om_deletion (sv_meta v) \<noteq> None
     then (if svs_operation (sv_status v) = ''DeleteResources'' \<and> \<not> gwr_absent observed
           then site_persist (set_site_operation ''DeleteGateway'' (set_gateway_resources (gwr_resources observed) v))
           else remove_site L r v p)
     else if svs_gateway_resources (sv_status v) \<noteq> gwr_resources observed then site_persist (set_gateway_resources (gwr_resources observed) v)
     else site_converge L r v p state)))))"

definition site_reconcile :: "k8s_lib \<Rightarrow> site_controller \<Rightarrow> string \<Rightarrow> string \<Rightarrow> outcome sprog" where
  "site_reconcile L r ns name =
     pbind (site_api (kget s_vpc ''SiteVpc'' ns name)) (\<lambda>got. case got of
       Inl e \<Rightarrow> Ret (if is_not_found e then finished else failed e)
     | Inr v \<Rightarrow>
         if sv_site_id (sv_spec v) \<noteq> sc_site_id (sr_config r) \<or> sv_attachment_id (sv_spec v) \<noteq> sc_attachment_id (sr_config r) then Ret finished
         else if om_deletion (sv_meta v) \<noteq> None \<and> \<not> contains_finalizer L (sv_meta v) site_finalizer then Ret finished
         else (case site_build L (Some v) (sr_config r) of
             Inl e \<Rightarrow> site_blocked L r v (Errorf e)
           | Inr p \<Rightarrow>
               if svs_plan_hash (sv_status v) \<noteq> [] \<and> svs_plan_hash (sv_status v) \<noteq> sp_hash p
               then site_blocked L r v (Errorf ''accepted local intent or registration changed; restore its accepted configuration'')
               else if \<not> contains_finalizer L (sv_meta v) site_finalizer
               then pbind (site_api (kdo (Update (SVpc (v\<lparr>sv_meta := add_finalizer L (sv_meta v) site_finalizer\<rparr>))))) (\<lambda>x. Ret (soon x))
               else pbind (site_plan_pass L r v p :: outcome scprog) (\<lambda>x. Ret (pass_outcome x))))"

end
