(* ===== verification/Site_Laws.thy ===== *)
theory Site_Laws
  imports Site_Reconciler
begin

text \<open>
  What a pass over a SiteVpc may ask for, at any point, for all answers: only owned objects of the local cluster are
  changed, and only after its identity and every object of the plan were checked; gateways are started behind ready
  subnets and persisted BFD rows; the attachment is taken down in order, drained first; and readiness is
  reported only after it was seen.
\<close>

section \<open>What a history shows\<close>

abbreviation sasaid :: "shist \<Rightarrow> sobj kreq \<Rightarrow> sobj kresp \<Rightarrow> bool" where
  "sasaid \<equiv> told SiteApi site_api_answer"

abbreviation snsaid :: "shist \<Rightarrow> net_req \<Rightarrow> net_resp \<Rightarrow> bool" where
  "snsaid \<equiv> net_told SiteNet site_net_answer"

abbreviation s_absent :: "shist \<Rightarrow> string \<Rightarrow> string \<Rightarrow> bool" where
  "s_absent \<equiv> absent SiteInfra site_infra_answer"

abbreviation s_present :: "shist \<Rightarrow> string \<Rightarrow> string \<Rightarrow> unstructured \<Rightarrow> bool" where
  "s_present \<equiv> present SiteInfra site_infra_answer"

definition gateway_said :: "shist \<Rightarrow> gateway_operation \<Rightarrow> gateway_config \<Rightarrow> site_gateway_result \<Rightarrow> bool" where
  "gateway_said h x g y \<longleftrightarrow> (\<exists>rs. (SiteGateway x g rs, SiteGatewayAnswer (Inr y)) \<in> set h)"

definition bfd_said :: "shist \<Rightarrow> bfd_req \<Rightarrow> bfd_resp \<Rightarrow> bool" where
  "bfd_said h q y \<longleftrightarrow> (SiteBfd q, SiteBfdAnswer y) \<in> set h"

lemmas [kept] = told_later net_told_later identified_later present_later absent_later routes_withdrawn_later

lemma gateway_said_later [kept]: "gateway_said h x g y \<Longrightarrow> later h h' \<Longrightarrow> gateway_said h' x g y"
  and bfd_said_later [kept]: "bfd_said h q z \<Longrightarrow> later h h' \<Longrightarrow> bfd_said h' q z"
  unfolding gateway_said_def bfd_said_def by (blast intro: later_in)+

definition site_seen :: "shist \<Rightarrow> site_vpc \<Rightarrow> bool" where
  "site_seen h v \<longleftrightarrow> (\<exists>q. sasaid h q (Obj (SVpc v)))"

definition site_planned :: "k8s_lib \<Rightarrow> site_controller \<Rightarrow> shist \<Rightarrow> site_plan \<Rightarrow> bool" where
  "site_planned L r h p \<longleftrightarrow> (\<exists>v. site_seen h v \<and> site_build L (Some v) (sr_config r) = Inr p)"

lemma site_seen_later [kept]: "site_seen h v \<Longrightarrow> later h h' \<Longrightarrow> site_seen h' v"
  and site_planned_later [kept]: "site_planned L r h p \<Longrightarrow> later h h' \<Longrightarrow> site_planned L r h' p"
  unfolding site_seen_def site_planned_def by (blast intro: told_later)+

lemma site_seenI: "sasaid h q (Obj (SVpc v)) \<Longrightarrow> site_seen h v"
  by (auto simp: site_seen_def)

text \<open>Every object of the plan is absent, or carries the labels and the UID this site recorded.\<close>

definition target_checked :: "site_controller \<Rightarrow> shist \<Rightarrow> site_vpc \<Rightarrow> site_plan \<Rightarrow> unstructured \<Rightarrow> bool" where
  "target_checked r h v p want \<longleftrightarrow> s_absent h (un_kind want) (om_name (un_meta want))
     \<or> (\<exists>x. s_present h (un_kind want) (om_name (un_meta want)) x
          \<and> owned_native x (sp_owner_uid p) (cl_uid (sc_cluster (sr_config r))) (site_recorded v (un_kind want) (om_name (un_meta want))) = Inr ())"

definition site_cleared :: "k8s_lib \<Rightarrow> site_controller \<Rightarrow> shist \<Rightarrow> site_plan \<Rightarrow> bool" where
  "site_cleared L r h p \<longleftrightarrow> site_planned L r h p \<and> identified SiteInfra site_infra_answer h (dc_uid (sr_cluster r))
     \<and> (\<exists>v. site_seen h v \<and> (\<forall>want\<in>set (site_targets p). target_checked r h v p want))
     \<and> (\<exists>y. gateway_said h GetGateway (sp_gateway p) y)"

lemma target_checked_later [kept]: "target_checked r h v p want \<Longrightarrow> later h h' \<Longrightarrow> target_checked r h' v p want"
  unfolding target_checked_def by (blast intro: kept)

lemma site_cleared_later [kept]: "site_cleared L r h p \<Longrightarrow> later h h' \<Longrightarrow> site_cleared L r h' p"
  unfolding site_cleared_def by (blast intro: kept)

subsection \<open>Removal\<close>

definition net_empty :: "site_controller \<Rightarrow> shist \<Rightarrow> string \<Rightarrow> bool" where
  "net_empty r h name \<longleftrightarrow> snsaid h (EndpointsEmpty (sr_cluster r) name) (NetFlag (Inr True))"

text \<open>No workload is left: neither on the tenant subnet, nor behind the gateways.\<close>

definition site_drained :: "site_controller \<Rightarrow> shist \<Rightarrow> site_plan \<Rightarrow> bool" where
  "site_drained r h p \<longleftrightarrow> net_empty r h (sp_subnet_name p)
     \<and> (\<exists>y. gateway_said h GatewayEndpoints (sp_gateway p) y \<and> gwr_endpoints_empty y)"

definition gateway_gone :: "shist \<Rightarrow> site_plan \<Rightarrow> bool" where
  "gateway_gone h p \<longleftrightarrow> (\<exists>y. gateway_said h GetGateway (sp_gateway p) y \<and> gwr_absent y)"

text \<open>Deletion was requested and the objects of the site may go.\<close>

definition site_closing :: "site_controller \<Rightarrow> shist \<Rightarrow> site_plan \<Rightarrow> bool" where
  "site_closing r h p \<longleftrightarrow> (\<exists>v. site_seen h v \<and> om_deletion (sv_meta v) \<noteq> None \<and> svs_operation (sv_status v) = ''DeleteResources'')
     \<and> gateway_gone h p \<and> site_drained r h p \<and> net_empty r h (sp_transit_name p)"

abbreviation s_withdrawn :: "shist \<Rightarrow> site_plan \<Rightarrow> bool" where
  "s_withdrawn h p \<equiv> routes_withdrawn SiteInfra site_infra_answer h (sp_vpc_name p)"

definition bfd_gone :: "site_controller \<Rightarrow> shist \<Rightarrow> site_plan \<Rightarrow> bool" where
  "bfd_gone r h p \<longleftrightarrow> (is_ha (sp_gateway p) \<longrightarrow> (\<exists>rs. bfd_said h (DeleteBfd (sr_cluster r) (sp_gateway p) rs) (BfdFlag (Inr True))))"

definition site_removed :: "site_controller \<Rightarrow> shist \<Rightarrow> site_plan \<Rightarrow> bool" where
  "site_removed r h p \<longleftrightarrow> site_closing r h p \<and> s_withdrawn h p \<and> bfd_gone r h p
     \<and> (\<forall>(kind, name)\<in>set (delete_items p). s_absent h kind name)
     \<and> snsaid h (LocalAbsent (sr_cluster r) (sp_vpc_name p) (sp_subnet_name p) (sp_transit_name p)) (NetFlag (Inr True))"

lemma net_empty_later [kept]: "net_empty r h name \<Longrightarrow> later h h' \<Longrightarrow> net_empty r h' name"
  and gateway_gone_later [kept]: "gateway_gone h p \<Longrightarrow> later h h' \<Longrightarrow> gateway_gone h' p"
  and bfd_gone_later [kept]: "bfd_gone r h p \<Longrightarrow> later h h' \<Longrightarrow> bfd_gone r h' p"
  unfolding net_empty_def gateway_gone_def bfd_gone_def by (blast intro: kept)+

lemma site_drained_later [kept]: "site_drained r h p \<Longrightarrow> later h h' \<Longrightarrow> site_drained r h' p"
  unfolding site_drained_def by (blast intro: kept)

lemma site_closing_later [kept]: "site_closing r h p \<Longrightarrow> later h h' \<Longrightarrow> site_closing r h' p"
  unfolding site_closing_def by (blast intro: kept)

subsection \<open>Convergence\<close>

definition s_subnet_up :: "site_plan \<Rightarrow> shist \<Rightarrow> string \<Rightarrow> bool" where
  "s_subnet_up p h name \<longleftrightarrow> (\<exists>x. s_present h ''Subnet'' name x \<and> mget (om_labels (un_meta x)) v1_owner_label = sp_owner_uid p \<and> shows_ready x)"

definition subnets_up :: "shist \<Rightarrow> site_plan \<Rightarrow> bool" where
  "subnets_up h p \<longleftrightarrow> s_subnet_up p h (sp_subnet_name p) \<and> s_subnet_up p h (sp_transit_name p)"

text \<open>The BFD rows that were ensured are the ones the saved status names.\<close>

definition rows_saved :: "site_controller \<Rightarrow> shist \<Rightarrow> site_plan \<Rightarrow> bfd_state \<Rightarrow> bool" where
  "rows_saved r h p state \<longleftrightarrow> (is_ha (sp_gateway p) \<longrightarrow> (\<exists>v. site_seen h v \<and> svs_bfd_resources (sv_status v) = bs_records state
     \<and> bfd_said h (EnsureBfd (sr_cluster r) (sp_gateway p) (bs_records state)) (BfdRows (Inr state))))"

definition gateway_up :: "shist \<Rightarrow> site_plan \<Rightarrow> bfd_state \<Rightarrow> bool" where
  "gateway_up h p state \<longleftrightarrow> (\<exists>y. gateway_said h EnsureGateway (sp_gateway p) y \<and> gwr_ready y
     \<and> (is_ha (sp_gateway p) \<longrightarrow> (\<exists>u. u \<in> set (gwr_ready_ids y) \<and> u \<in> set (bs_up state))))"

text \<open>The exact routes were seen on the router of the site: with several gateways, one default route per gateway,
  each with the BFD identity that the status of a SiteVpc read in this pass has recorded for it.\<close>

definition routes_up :: "site_controller \<Rightarrow> shist \<Rightarrow> site_plan \<Rightarrow> site_vpc \<Rightarrow> bool" where
  "routes_up r h p v \<longleftrightarrow> site_seen h v \<and> (let byid = uuid_of_member (svs_bfd_resources (sv_status v)) in
     (is_ha (sp_gateway p) \<longrightarrow> (\<forall>m\<in>set (gc_gateways (sp_gateway p)). mget byid (gw_id m) \<noteq> []))
     \<and> snsaid h (RoutesReady (sr_cluster r) (sp_vpc_name p) (subnet_routes v p @
         (if is_ha (sp_gateway p) then map (\<lambda>m. default_route (gw_ip m) (mget byid (gw_id m))) (gc_gateways (sp_gateway p))
          else [default_route (gc_gateway_ip (sp_gateway p)) []]))) (NetFlag (Inr True)))"

definition ecmp_up :: "site_controller \<Rightarrow> shist \<Rightarrow> site_plan \<Rightarrow> site_vpc \<Rightarrow> bool" where
  "ecmp_up r h p v \<longleftrightarrow> (is_ha (sp_gateway p) \<longrightarrow>
     bfd_said h (EnsureEcmp (sr_cluster r) (sp_gateway p) (svs_bfd_resources (sv_status v))) (BfdFlag (Inr True)))"

definition site_converged :: "site_controller \<Rightarrow> shist \<Rightarrow> site_plan \<Rightarrow> bool" where
  "site_converged r h p \<longleftrightarrow> subnets_up h p \<and> (\<exists>state. rows_saved r h p state \<and> gateway_up h p state)
     \<and> (\<exists>v. routes_up r h p v \<and> ecmp_up r h p v)"

lemma subnets_up_later [kept]: "subnets_up h p \<Longrightarrow> later h h' \<Longrightarrow> subnets_up h' p"
  and s_subnet_up_later [kept]: "s_subnet_up p h name \<Longrightarrow> later h h' \<Longrightarrow> s_subnet_up p h' name"
  and rows_saved_later [kept]: "rows_saved r h p state \<Longrightarrow> later h h' \<Longrightarrow> rows_saved r h' p state"
  and gateway_up_later [kept]: "gateway_up h p state \<Longrightarrow> later h h' \<Longrightarrow> gateway_up h' p state"
  and routes_up_later [kept]: "routes_up r h p v \<Longrightarrow> later h h' \<Longrightarrow> routes_up r h' p v"
  unfolding subnets_up_def s_subnet_up_def rows_saved_def gateway_up_def routes_up_def Let_def by (blast intro: kept)+

section \<open>The contract\<close>

text \<open>An owned object with the UID a returned SiteVpc has recorded for it.\<close>

definition s_owned :: "site_controller \<Rightarrow> shist \<Rightarrow> site_plan \<Rightarrow> string \<Rightarrow> string \<Rightarrow> unstructured \<Rightarrow> bool" where
  "s_owned r h p kind name x \<longleftrightarrow> s_present h kind name x
     \<and> (\<exists>v. site_seen h v \<and> owned_native x (sp_owner_uid p) (dc_uid (sr_cluster r)) (site_recorded v kind name) = Inr ())"

text \<open>The object to be made: one of the plan, the Vpc with any default routes to its gateways.\<close>

definition s_target :: "site_plan \<Rightarrow> unstructured \<Rightarrow> bool" where
  "s_target p want \<longleftrightarrow> want \<in> set (site_targets p) \<or> (\<exists>records conflicts. want \<in> set (routed_targets p records conflicts))"

fun s_infra_ok :: "k8s_lib \<Rightarrow> site_controller \<Rightarrow> shist \<Rightarrow> iobj kreq \<Rightarrow> bool" where
  "s_infra_ok L r h (Get kind ns name) \<longleftrightarrow> True"
| "s_infra_ok L r h (List kind ns labels) \<longleftrightarrow> True"
| "s_infra_ok L r h (Create (INative x)) \<longleftrightarrow> (\<exists>p. site_cleared L r h p \<and> s_target p x \<and> s_absent h (un_kind x) (om_name (un_meta x)))"
| "s_infra_ok L r h (Update (INative y)) \<longleftrightarrow> (\<exists>p kind name x. site_cleared L r h p \<and> s_owned r h p kind name x
     \<and> ((\<exists>want spec. s_target p want \<and> desired_spec want = Inr spec \<and> y = merge_spec spec x)
        \<or> site_closing r h p \<and> y = set_spec ''staticRoutes'' (JArr []) x))"
| "s_infra_ok L r h (Delete (INative x) u rv) \<longleftrightarrow> (\<exists>p kind name. site_cleared L r h p \<and> s_owned r h p kind name x
     \<and> u = Some (om_uid (un_meta x)) \<and> rv = Some (om_resource_version (un_meta x))
     \<and> site_closing r h p \<and> s_withdrawn h p \<and> bfd_gone r h p
     \<and> (kind = ''Subnet'' \<or> kind = ''Vpc'' \<and> s_absent h ''Subnet'' (sp_subnet_name p) \<and> s_absent h ''Subnet'' (sp_transit_name p)))"
| "s_infra_ok L r h q \<longleftrightarrow> False"

fun s_bfd_ok :: "k8s_lib \<Rightarrow> site_controller \<Rightarrow> shist \<Rightarrow> bfd_req \<Rightarrow> bool" where
  "s_bfd_ok L r h (EnsureBfd c g rs) \<longleftrightarrow> (\<exists>p. site_cleared L r h p \<and> g = sp_gateway p \<and> subnets_up h p \<and> (\<exists>v. site_seen h v \<and> rs = svs_bfd_resources (sv_status v)))"
| "s_bfd_ok L r h (DeleteBfd c g rs) \<longleftrightarrow> (\<exists>p. site_cleared L r h p \<and> g = sp_gateway p \<and> site_closing r h p \<and> s_withdrawn h p
     \<and> (\<exists>v. site_seen h v \<and> rs = svs_bfd_resources (sv_status v)))"
| "s_bfd_ok L r h (EnsureEcmp c g rs) \<longleftrightarrow> (\<exists>p. site_cleared L r h p \<and> g = sp_gateway p \<and> (\<exists>state. rows_saved r h p state \<and> gateway_up h p state)
     \<and> (\<exists>v. routes_up r h p v \<and> rs = svs_bfd_resources (sv_status v)))"
| "s_bfd_ok L r h q \<longleftrightarrow> True"

fun s_gateway_ok :: "k8s_lib \<Rightarrow> site_controller \<Rightarrow> shist \<Rightarrow> gateway_operation \<Rightarrow> gateway_config \<Rightarrow> bool" where
  "s_gateway_ok L r h EnsureGateway g \<longleftrightarrow> (\<exists>p state. site_cleared L r h p \<and> g = sp_gateway p \<and> subnets_up h p \<and> rows_saved r h p state)"
| "s_gateway_ok L r h DeleteGateway g \<longleftrightarrow> (\<exists>p. site_cleared L r h p \<and> g = sp_gateway p \<and> site_drained r h p
     \<and> (\<exists>v. site_seen h v \<and> om_deletion (sv_meta v) \<noteq> None \<and> svs_operation (sv_status v) = ''DeleteGateway''))"
| "s_gateway_ok L r h x g \<longleftrightarrow> True"

text \<open>A status that is written keeps the intent; it says that resources are being deleted only after the gateway was seen to be
  absent. A save that only records receipts, counts, the accepted plan or the durable operation leaves the last report (phase,
  conditions, observed generation) as it was; a report that the site is ready is made only after everything was seen to have
  converged in this pass.\<close>

definition same_report :: "site_vpc \<Rightarrow> site_vpc \<Rightarrow> bool" where
  "same_report v v' \<longleftrightarrow> svs_phase (sv_status v') = svs_phase (sv_status v) \<and> svs_conditions (sv_status v') = svs_conditions (sv_status v)
     \<and> svs_observed_generation (sv_status v') = svs_observed_generation (sv_status v)"

definition s_status_step :: "k8s_lib \<Rightarrow> site_controller \<Rightarrow> shist \<Rightarrow> site_vpc \<Rightarrow> site_vpc \<Rightarrow> bool" where
  "s_status_step L r h v v' \<longleftrightarrow> sv_spec v' = sv_spec v \<and> sv_meta v' = sv_meta v
     \<and> (svs_operation (sv_status v') = svs_operation (sv_status v)
        \<or> om_deletion (sv_meta v) \<noteq> None \<and> (svs_operation (sv_status v') = ''DeleteGateway''
          \<or> svs_operation (sv_status v') = ''DeleteResources'' \<and> (\<exists>p y. site_cleared L r h p \<and> gateway_said h DeleteGateway (sp_gateway p) y \<and> gwr_absent y)))
     \<and> (svs_phase (sv_status v') = ''LocalReady'' \<longrightarrow> same_report v v' \<or> (\<exists>p. site_cleared L r h p \<and> site_converged r h p))"

fun s_api_ok :: "k8s_lib \<Rightarrow> site_controller \<Rightarrow> shist \<Rightarrow> sobj kreq \<Rightarrow> bool" where
  "s_api_ok L r h (Get kind ns name) \<longleftrightarrow> True"
| "s_api_ok L r h (Update (SVpc v')) \<longleftrightarrow> (\<exists>v. site_seen h v \<and>
     (v' = v\<lparr>sv_meta := add_finalizer L (sv_meta v) site_finalizer\<rparr> \<and> om_deletion (sv_meta v) = None
      \<or> v' = v\<lparr>sv_meta := remove_finalizer L (sv_meta v) site_finalizer\<rparr> \<and> (\<exists>p. site_cleared L r h p \<and> site_removed r h p)))"
| "s_api_ok L r h (UpdateStatus (SVpc v')) \<longleftrightarrow> (\<exists>v. site_seen h v \<and> s_status_step L r h v v')"
| "s_api_ok L r h q \<longleftrightarrow> False"

text \<open>The three methods of the network that a site uses only look.\<close>

fun observes :: "net_req \<Rightarrow> bool" where
  "observes (EndpointsEmpty c subnet) \<longleftrightarrow> True"
| "observes (LocalAbsent c vpc subnet transit) \<longleftrightarrow> True"
| "observes (RoutesReady c router routes) \<longleftrightarrow> True"
| "observes q \<longleftrightarrow> False"

fun site_contract :: "k8s_lib \<Rightarrow> site_controller \<Rightarrow> shist \<Rightarrow> site_req \<Rightarrow> bool" where
  "site_contract L r h (SiteApi q) \<longleftrightarrow> s_api_ok L r h q"
| "site_contract L r h (SiteInfra q) \<longleftrightarrow> s_infra_ok L r h q"
| "site_contract L r h (SiteNet q) \<longleftrightarrow> observes q"
| "site_contract L r h (SiteBfd q) \<longleftrightarrow> s_bfd_ok L r h q"
| "site_contract L r h (SiteGateway x g rs) \<longleftrightarrow> s_gateway_ok L r h x g"

interpretation site: infra_client SiteInfra site_infra_answer "site_contract L r" for L r
  by unfold_locales simp_all

section \<open>Parts of a pass\<close>

abbreviation s_passes :: "k8s_lib \<Rightarrow> site_controller \<Rightarrow> 'a scprog \<Rightarrow> (shist \<Rightarrow> 'a \<Rightarrow> bool) \<Rightarrow> shist \<Rightarrow> bool" where
  "s_passes L r \<equiv> passes_on (site_contract L r)"

lemma s_passes_early: "always (site_contract L r) p (\<lambda>_ _. True) h \<Longrightarrow> s_passes L r (site_early p) R h"
  by (simp add: passes_def site_early_def)

lemma s_status_rule:
  assumes "site_seen h v" and "s_status_step L r h v v'" and "\<And>h' x. later h h' \<Longrightarrow> Q h' x"
  shows "always (site_contract L r) (site_api (kdo (UpdateStatus (SVpc v')))) Q h"
  by (rule wire_do) (use assms in auto)

lemma s_state_rule:
  assumes "site_seen h v" and "phase = ''LocalReady'' \<Longrightarrow> \<exists>p. site_cleared L r h p \<and> site_converged r h p"
  shows "always (site_contract L r) (site_state L r v phase reason message ready gateway) (\<lambda>_ _. True) h"
proof -
  have "s_status_step L r h v (site_with_state L v phase reason message ready gateway)"
    using assms(2) by (auto simp: s_status_step_def same_report_def site_with_state_def Let_def)
  then show ?thesis unfolding site_state_def Let_def using assms(1) by (auto intro!: s_status_rule)
qed

lemma s_blocked_rule: "site_seen h v \<Longrightarrow> always (site_contract L r) (site_blocked L r v e) (\<lambda>_ _. True) h"
  unfolding site_blocked_def by (rule s_state_rule) auto

lemma s_wait_rule: "site_seen h v \<Longrightarrow> phase \<noteq> ''LocalReady'' \<Longrightarrow> s_passes L r (site_wait L r v phase reason message gateway) R h"
  unfolding site_wait_def by (intro s_passes_early s_state_rule) auto

lemma s_persist_rule: "site_seen h v \<Longrightarrow> s_status_step L r h v v' \<Longrightarrow> s_passes L r (site_persist v') R h"
  unfolding site_persist_def passes_pbind by (rule s_status_rule) auto

lemma s_saved_rule:
  assumes "site_seen h v" and "s_status_step L r h v v'" and "\<And>h' w. later h h' \<Longrightarrow> site_seen h' w \<Longrightarrow> R h' w"
  shows "s_passes L r (site_saved v') R h"
  unfolding site_saved_def passes_pbind by (rule wire_write) (use assms site_seenI in auto)

lemma s_block_rule:
  assumes "site_seen h v" and "always (site_contract L r) p (\<lambda>h' x. case x of Inl e \<Rightarrow> later h h' | Inr a \<Rightarrow> R h' a) h"
  shows "s_passes L r (or_block L r v p) R h"
  unfolding or_block_def passes_pbind
  by (rule always_mono [OF assms(2)]) (use assms(1) in \<open>auto split: sum.splits intro!: s_passes_early s_blocked_rule intro: site_seen_later\<close>)

text \<open>The calls of the interfaces.\<close>

lemma gateway_rule:
  assumes "s_gateway_ok L r h x g" and "\<And>h' e. later h h' \<Longrightarrow> Q h' (Inl e)" and "\<And>h' y. later h h' \<Longrightarrow> gateway_said h' x g y \<Longrightarrow> Q h' (Inr y)"
  shows "always (site_contract L r) (gateway_call x g rs) Q h"
  using assms by (auto simp: gateway_call_def gateway_said_def split: site_resp.split) (metis in_set_conv_decomp later_append old.sum.exhaust)

lemma bfd_rows_rule:
  assumes "s_bfd_ok L r h q" and "\<And>h' e. later h h' \<Longrightarrow> Q h' (Inl e)" and "\<And>h' y. later h h' \<Longrightarrow> bfd_said h' q (BfdRows (Inr y)) \<Longrightarrow> Q h' (Inr y)"
  shows "always (site_contract L r) (bfd_rows q) Q h"
  using assms by (auto simp: bfd_rows_def bfd_said_def split: site_resp.split bfd_resp.split) (metis in_set_conv_decomp later_append old.sum.exhaust)

lemma bfd_flag_rule:
  assumes "s_bfd_ok L r h q" and "\<And>h' e. later h h' \<Longrightarrow> Q h' (Inl e)" and "\<And>h' b. later h h' \<Longrightarrow> bfd_said h' q (BfdFlag (Inr b)) \<Longrightarrow> Q h' (Inr b)"
  shows "always (site_contract L r) (bfd_flag q) Q h"
  using assms by (auto simp: bfd_flag_def bfd_said_def split: site_resp.split bfd_resp.split) (metis in_set_conv_decomp later_append old.sum.exhaust)

lemma bfd_hops_rule:
  assumes "s_bfd_ok L r h q" and "\<And>h' x. later h h' \<Longrightarrow> Q h' x"
  shows "always (site_contract L r) (bfd_hops q) Q h"
  using assms by (auto simp: bfd_hops_def)

lemma s_flag_rule:
  assumes "\<And>h' e. later h h' \<Longrightarrow> Q h' (Inl e)" and "\<And>h' b. later h h' \<Longrightarrow> snsaid h' q (NetFlag (Inr b)) \<Longrightarrow> Q h' (Inr b)"
    and "observes q"
  shows "always (site_contract L r) (site_net (net_flag q)) Q h"
  by (rule net_flag_rule) (use assms in auto)

section \<open>Before the first change\<close>

lemma s_accept_rule:
  assumes "site_seen h v" and "\<And>h' w. later h h' \<Longrightarrow> site_seen h' w \<Longrightarrow> R h' w"
  shows "s_passes L r (site_accept v p) R h"
  unfolding site_accept_def by (auto intro!: s_saved_rule [OF assms(1)] assms simp: s_status_step_def same_report_def)

lemma s_preflight_rule:
  assumes "site_seen h v" and "\<And>h'. later h h' \<Longrightarrow> target_checked r h' v p want \<Longrightarrow> R h' ()"
  shows "s_passes L r (site_preflight L r v p u want) R h"
  unfolding site_preflight_def passes_pbind store_get_def
proof (rule wire_get, goal_cases)
  case (2 h' e)
  then show ?case using assms by (auto simp: target_checked_def absent_def intro!: s_passes_early s_blocked_rule assms(2) intro: kept)
next
  case (3 h' y x)
  have "R h' ()" if "mget (om_labels (un_meta x)) v1_owner_label = sp_owner_uid p" "mget (om_labels (un_meta x)) v1_cluster_label = cl_uid (sc_cluster (sr_config r))"
      "site_recorded v (un_kind want) (om_name (un_meta want)) = [] \<or> om_uid (un_meta x) = site_recorded v (un_kind want) (om_name (un_meta want))"
    using 3 that by (intro assms(2)) (auto simp: target_checked_def present_def owned_native_def)
  then show ?case using 3 assms(1) by (auto simp: Let_def intro!: s_passes_early s_blocked_rule intro: kept)
qed simp

lemma s_observe_rule:
  assumes "site_seen h v" and "\<And>h' state. later h h' \<Longrightarrow> R h' state"
  shows "s_passes L r (observe_bfd L r v p) R h"
proof -
  have put: "s_passes L r (site_persist (set_bfd_resources rs v)) R h'" if "later h h'" for h' rs
    using site_seen_later [OF assms(1) that] by (rule s_persist_rule) (simp add: s_status_step_def same_report_def set_bfd_resources_def)
  show ?thesis
    unfolding observe_bfd_def by (auto simp: passes_ebind intro!: put assms s_passes_early s_blocked_rule s_block_rule bfd_rows_rule)
qed

section \<open>Removal\<close>

lemma s_empty_rule:
  assumes "site_seen h v" and "\<And>h' b. later h h' \<Longrightarrow> (b \<Longrightarrow> net_empty r h' name) \<Longrightarrow> R h' b"
  shows "s_passes L r (site_empty L r v name) R h"
  unfolding site_empty_def
  by (rule s_block_rule [OF assms(1)], rule s_flag_rule) (auto simp: net_empty_def intro: assms(2))

lemma delete_item_rule:
  assumes seen: "site_seen h v" and p: "site_cleared L r h p" and c: "site_closing r h p" "s_withdrawn h p" "bfd_gone r h p"
    and kind: "kind = ''Subnet'' \<or> kind = ''Vpc'' \<and> s_absent h ''Subnet'' (sp_subnet_name p) \<and> s_absent h ''Subnet'' (sp_transit_name p)"
    and next_step: "\<And>h'. later h h' \<Longrightarrow> s_absent h' kind name \<Longrightarrow> R h' ()"
  shows "s_passes L r (delete_item L r v p u (kind, name)) R h"
  unfolding delete_item_def passes_ebind fst_conv snd_conv
proof (rule s_block_rule [OF seen], rule site.delete_rule, goal_cases)
  case (1 h' x)
  have "site_cleared L r h' p" "site_closing r h' p" "s_withdrawn h' p" "bfd_gone r h' p"
    using 1(1) p c by (auto intro: site_cleared_later site_closing_later routes_withdrawn_later bfd_gone_later)
  moreover have "s_owned r h' p kind name x" using 1 seen unfolding s_owned_def by (blast intro: site_seen_later)
  moreover have "kind = ''Subnet'' \<or> kind = ''Vpc'' \<and> s_absent h' ''Subnet'' (sp_subnet_name p) \<and> s_absent h' ''Subnet'' (sp_transit_name p)"
    using kind 1(1) by (blast intro: absent_later)
  ultimately show ?case unfolding site_contract.simps s_infra_ok.simps by blast
next
  case (4 h')
  then show ?case using seen by (auto intro!: s_wait_rule intro: site_seen_later)
qed (auto intro: next_step)

lemma s_withdraw_rule:
  assumes seen: "site_seen h v" and p: "site_cleared L r h p" and c: "site_closing r h p"
    and next_step: "\<And>h'. later h h' \<Longrightarrow> s_withdrawn h' p \<Longrightarrow> R h' ()"
  shows "s_passes L r (or_block L r v (site_infra (store_withdraw_routes (dc_uid (sr_cluster r)) (sp_vpc_name p) (sp_owner_uid p)
     (site_recorded v ''Vpc'' (sp_vpc_name p))))) R h"
proof (rule s_block_rule [OF seen], rule site.withdraw_rule, goal_cases)
  case (1 h' x)
  have "site_cleared L r h' p" "site_closing r h' p" using 1(1) p c by (auto intro: site_cleared_later site_closing_later)
  moreover have "s_owned r h' p ''Vpc'' (sp_vpc_name p) x" using 1 seen unfolding s_owned_def by (blast intro: site_seen_later)
  ultimately show ?case unfolding site_contract.simps s_infra_ok.simps by blast
qed (auto intro: next_step)

lemma remove_bfd_rule:
  assumes seen: "site_seen h v" and p: "site_cleared L r h p" and c: "site_closing r h p" "s_withdrawn h p"
    and next_step: "\<And>h'. later h h' \<Longrightarrow> bfd_gone r h' p \<Longrightarrow> R h' ()"
  shows "s_passes L r (remove_bfd L r v p) R h"
proof (cases "is_ha (sp_gateway p)")
  case False
  then show ?thesis by (simp add: remove_bfd_def next_step bfd_gone_def)
next
  case True
  have seen': "site_seen h' v" if "later h h'" for h' using seen that by (rule site_seen_later)
  have unfold_ha: "remove_bfd L r v p = ebind (or_block L r v (bfd_flag (DeleteBfd (sr_cluster r) (sp_gateway p) (svs_bfd_resources (sv_status v))))) (\<lambda>gone.
      if \<not> gone then site_wait L r v ''Deleting'' ''BFDWithdrawalPending'' ''Waiting for native route withdrawal and owned BFD removal'' False
      else if svs_bfd_resources (sv_status v) \<noteq> [] then site_persist (set_bfd_resources [] v) else go ())"
    using True by (simp add: remove_bfd_def)
  show ?thesis unfolding unfold_ha passes_ebind
  proof (rule s_block_rule [OF seen], rule bfd_flag_rule, goal_cases)
    case 1
    then show ?case using seen p c by auto
  next
    case (3 h' gone)
    then show ?case using seen' [OF 3(1)]
      by (auto simp: s_status_step_def same_report_def set_bfd_resources_def bfd_gone_def intro!: s_wait_rule s_persist_rule next_step)
  qed simp
qed

lemma delete_items_rule:
  assumes seen: "site_seen h v" and p: "site_cleared L r h p" and c: "site_closing r h p" "s_withdrawn h p" "bfd_gone r h p"
    and next_step: "\<And>h'. later h h' \<Longrightarrow> (\<forall>(kind, name)\<in>set (delete_items p). s_absent h' kind name) \<Longrightarrow> R h' ()"
  shows "s_passes L r (efold (delete_item L r v p) () (delete_items p)) R h"
proof -
  note keep = site_seen_later [OF seen] site_cleared_later [OF p] site_closing_later [OF c(1)] routes_withdrawn_later [OF c(2)] bfd_gone_later [OF c(3)]
  show ?thesis unfolding delete_items_def efold.simps passes_ebind
  proof (rule delete_item_rule [OF seen p c], goal_cases)
    case (2 h1)
    show ?case
    proof (rule delete_item_rule [OF keep [OF 2(1)]], goal_cases)
      case (2 h2)
      have on: "later h h2" "s_absent h2 ''Subnet'' (sp_subnet_name p)" using 2(1) \<open>later h h1\<close> \<open>s_absent h1 _ _\<close>
        by (blast intro: later_trans absent_later)+
      show ?case
      proof (rule delete_item_rule [OF keep [OF on(1)]], goal_cases)
        case (2 h3)
        have "later h h3" "s_absent h3 ''Subnet'' (sp_subnet_name p)" using 2(1) on by (blast intro: later_trans absent_later)+
        moreover have "s_absent h3 ''Subnet'' (sp_transit_name p)" using 2(1) \<open>s_absent h2 _ (sp_transit_name p)\<close> by (rule absent_later [rotated])
        ultimately show ?case using 2(2) by (auto intro!: next_step simp: delete_items_def)
      qed (use 2(2) on(2) in simp)
    qed simp
  qed simp
qed

definition site_exits :: "site_controller \<Rightarrow> shist \<Rightarrow> site_plan \<Rightarrow> bool" where
  "site_exits r h p \<longleftrightarrow> (\<exists>v. site_seen h v \<and> om_deletion (sv_meta v) \<noteq> None \<and> svs_operation (sv_status v) = ''DeleteResources'')
     \<and> gateway_gone h p \<and> site_drained r h p"

lemma delete_resources_rule:
  assumes seen: "site_seen h v" and p: "site_cleared L r h p" and x: "site_exits r h p"
  shows "s_passes L r (delete_resources L r v p) R h"
  unfolding delete_resources_def passes_ebind [of _ "site_empty _ _ _ _"]
proof (rule s_empty_rule [OF seen], goal_cases)
  case (1 h1 free)
  note seen1 = site_seen_later [OF seen 1(1)]
  show ?case
  proof (cases free)
    case False
    with seen1 show ?thesis by (auto intro: s_wait_rule)
  next
    case True
    have p1: "site_cleared L r h1 p" using p 1(1) by (rule site_cleared_later)
    have c1: "site_closing r h1 p"
      using x 1 True unfolding site_exits_def site_closing_def by (blast intro: site_seen_later gateway_gone_later site_drained_later)
    have "s_passes L r (ebind (or_block L r v (site_infra (store_withdraw_routes (dc_uid (sr_cluster r)) (sp_vpc_name p) (sp_owner_uid p)
         (site_recorded v ''Vpc'' (sp_vpc_name p))))) (\<lambda>_.
       ebind (remove_bfd L r v p) (\<lambda>_.
       ebind (efold (delete_item L r v p) () (delete_items p)) (\<lambda>_.
       ebind (or_block L r v (site_net (net_flag (LocalAbsent (sr_cluster r) (sp_vpc_name p) (sp_subnet_name p) (sp_transit_name p))))) (\<lambda>gone.
       if \<not> gone then site_wait L r v ''Deleting'' ''LocalOVNRemovalPending'' ''Waiting for local OVN topology removal'' False
       else pbind (site_api (kdo (Update (SVpc (v\<lparr>sv_meta := remove_finalizer L (sv_meta v) site_finalizer\<rparr>))))) (\<lambda>x.
         leave (case x of Inl e \<Rightarrow> failed e | Inr _ \<Rightarrow> finished))))))) R h1"
      unfolding passes_ebind
    proof (rule s_withdraw_rule [OF seen1 p1 c1], goal_cases)
      case (1 h2)
      note on2 = site_seen_later [OF seen1 1(1)] site_cleared_later [OF p1 1(1)] site_closing_later [OF c1 1(1)] 1(2)
      show ?case
      proof (rule remove_bfd_rule [OF on2], goal_cases)
        case (1 h3)
        note on3 = site_seen_later [OF on2(1) 1(1)] site_cleared_later [OF on2(2) 1(1)] site_closing_later [OF on2(3) 1(1)] routes_withdrawn_later [OF on2(4) 1(1)] 1(2)
        show ?case
        proof (rule delete_items_rule [OF on3], goal_cases)
          case (1 h4)
          note on4 = site_seen_later [OF on3(1) 1(1)] site_cleared_later [OF on3(2) 1(1)] site_closing_later [OF on3(3) 1(1)]
            routes_withdrawn_later [OF on3(4) 1(1)] bfd_gone_later [OF on3(5) 1(1)]
          show ?case
          proof (rule s_block_rule [OF on4(1)], rule s_flag_rule, goal_cases)
            case (2 h5 gone)
            note on5 = site_seen_later [OF on4(1) 2(1)] site_cleared_later [OF on4(2) 2(1)] site_closing_later [OF on4(3) 2(1)]
              routes_withdrawn_later [OF on4(4) 2(1)] bfd_gone_later [OF on4(5) 2(1)]
            have "\<forall>(kind, name)\<in>set (delete_items p). s_absent h5 kind name" using 1(2) 2(1) by (blast intro: absent_later)
            with 2(2) on5 have "gone \<Longrightarrow> site_removed r h5 p" by (simp add: site_removed_def)
            with on5(1,2) have "gone \<Longrightarrow> site_contract L r h5 (SiteApi (Update (SVpc (v\<lparr>sv_meta := remove_finalizer L (sv_meta v) site_finalizer\<rparr>))))"
              unfolding site_contract.simps s_api_ok.simps by blast
            with on5(1) show ?case by (auto simp: passes_pbind simp del: site_contract.simps intro!: s_wait_rule wire_do)
          qed simp_all
        qed
      qed
    qed
    with True show ?thesis by simp
  qed
qed

lemma site_delete_gateway_rule:
  assumes seen: "site_seen h v" and p: "site_cleared L r h p" and d: "site_drained r h p"
    and v: "om_deletion (sv_meta v) \<noteq> None" "svs_operation (sv_status v) = ''DeleteGateway''"
  shows "s_passes L r (delete_site_gateway L r v p) R h"
  unfolding delete_site_gateway_def passes_ebind
proof (rule s_block_rule [OF seen], rule gateway_rule, goal_cases)
  case 1
  then show ?case using seen p d v by auto
next
  case (3 h' y)
  have "s_status_step L r h' v (set_site_operation ''DeleteResources'' (set_gateway_resources [] v))" if "gwr_absent y"
    using that 3 p v by (auto simp: s_status_step_def same_report_def set_site_operation_def set_gateway_resources_def intro: site_cleared_later)
  then show ?case using site_seen_later [OF seen 3(1)] by (auto intro!: s_wait_rule s_persist_rule)
qed simp

lemma remove_site_rule:
  assumes seen: "site_seen h v" and p: "site_cleared L r h p" and v: "om_deletion (sv_meta v) \<noteq> None"
    and gone: "svs_operation (sv_status v) = ''DeleteResources'' \<Longrightarrow> gateway_gone h p"
  shows "s_passes L r (remove_site L r v p) R h"
  unfolding remove_site_def passes_ebind [of _ "site_empty _ _ _ _"]
proof (rule s_empty_rule [OF seen], goal_cases)
  case (1 h1 free)
  note on1 = site_seen_later [OF seen 1(1)] site_cleared_later [OF p 1(1)]
  have "s_passes L r (ebind (or_block L r v (gateway_call GatewayEndpoints (sp_gateway p) (svs_gateway_resources (sv_status v)))) (\<lambda>result.
       if \<not> gwr_endpoints_empty result
       then site_wait L r v ''Deleting'' ''LocalEndpointsPresent'' ''Drain local workload and transit endpoints before detaching'' False
       else if svs_operation (sv_status v) = [] then site_persist (set_site_operation ''DeleteGateway'' v)
       else if svs_operation (sv_status v) = ''DeleteGateway'' then delete_site_gateway L r v p
       else if svs_operation (sv_status v) \<noteq> ''DeleteResources'' then site_early (site_blocked L r v (Errorf ''unrecognized durable deletion operation''))
       else delete_resources L r v p)) R h1" if free
    unfolding passes_ebind
  proof (rule s_block_rule [OF on1(1)], rule gateway_rule, goal_cases)
    case (3 h2 y)
    note on2 = site_seen_later [OF on1(1) 3(1)] site_cleared_later [OF on1(2) 3(1)]
    have begun: "s_status_step L r h2 v (set_site_operation ''DeleteGateway'' v)"
      using v by (simp add: s_status_step_def same_report_def set_site_operation_def)
    have d: "site_drained r h2 p" if "gwr_endpoints_empty y"
      using that 3 1(2) \<open>free\<close> unfolding site_drained_def by (blast intro: net_empty_later)
    have "gateway_gone h2 p" if "svs_operation (sv_status v) = ''DeleteResources''"
      using gone that 1(1) 3(1) by (blast intro: gateway_gone_later later_trans)
    with d on2(1) v have "site_exits r h2 p" if "gwr_endpoints_empty y" "svs_operation (sv_status v) = ''DeleteResources''"
      using that unfolding site_exits_def by blast
    with on2 v begun d show ?case
      by (auto intro!: s_wait_rule s_persist_rule s_passes_early s_blocked_rule site_delete_gateway_rule delete_resources_rule)
  qed simp_all
  then show ?case using on1(1) by (auto intro: s_wait_rule)
qed

section \<open>Convergence\<close>

lemma site_target_owner:
  assumes "site_build L (Some v) cfg = Inr p" and "want \<in> set (site_targets p)"
  shows "mget (om_labels (un_meta want)) v1_owner_label = sp_owner_uid p"
proof -
  have labels: "distinct (map fst (site_labels v cfg))"
    by (simp add: site_labels_def v1_owner_label_def v1_cluster_label_def v1_global_id_label_def v1_attachment_label_def)
  have owner: "mget (site_labels v cfg) v1_owner_label = om_uid (sv_meta v)" by (simp add: site_labels_def mget_def)
  show ?thesis using assms labels
    by (auto elim!: site_buildE simp: render_plan_def Let_def site_targets_def native_subnet_def rendered_native owner)
qed

lemma s_target_owner:
  assumes "site_planned L r h p" and "s_target p want"
  shows "mget (om_labels (un_meta want)) v1_owner_label = sp_owner_uid p"
proof -
  obtain v where b: "site_build L (Some v) (sr_config r) = Inr p" using assms(1) by (auto simp: site_planned_def)
  have "rendered (sp_vpc p) \<in> set (site_targets p)" by (simp add: site_targets_def)
  from assms(2) consider "want \<in> set (site_targets p)" | x where "want = set_spec ''staticRoutes'' x (rendered (sp_vpc p))"
    by (auto simp: s_target_def routed_targets_def site_targets_def)
  then show ?thesis
    using site_target_owner [OF b] \<open>rendered (sp_vpc p) \<in> _\<close> by cases (auto simp: set_spec_def)
qed

lemma s_ensure_rule:
  assumes seen: "site_seen h v" and p: "site_cleared L r h p" and t: "s_target p want"
    and next_step: "\<And>h' w. later h h' \<Longrightarrow> site_seen h' w \<Longrightarrow> R h' w"
  shows "s_passes L r (site_ensure L r v want) R h"
  unfolding site_ensure_def Let_def passes_pbind
proof (rule site.ensure_rule, goal_cases)
  case (1 h')
  then show ?case using p t by (auto intro: site_cleared_later)
next
  case (2 h' x spec)
  have owner: "mget (om_labels (un_meta want)) v1_owner_label = sp_owner_uid p"
    using p t unfolding site_cleared_def by (blast intro: s_target_owner)
  have "s_owned r h' p (un_kind want) (om_name (un_meta want)) x"
    using 2 seen unfolding s_owned_def owner by (blast intro: site_seen_later)
  moreover have "site_cleared L r h' p" using p 2(1) by (rule site_cleared_later)
  ultimately show ?case using t 2(6) unfolding site_contract.simps s_infra_ok.simps by blast
next
  case (3 h' e)
  note seen' = site_seen_later [OF seen 3(1)]
  have "s_status_step L r h' v (site_forget (un_kind want) (om_name (un_meta want)) v)" by (simp add: s_status_step_def same_report_def site_forget_def)
  with seen' show ?case by (auto intro!: s_persist_rule s_passes_early s_blocked_rule)
next
  case (4 h' u)
  note seen' = site_seen_later [OF seen 4]
  have "s_status_step L r h' v (site_remember r (un_kind want) (om_name (un_meta want)) u v)" by (simp add: s_status_step_def same_report_def site_remember_def)
  with seen' 4 next_step show ?case by (auto intro!: s_saved_rule [OF seen'] intro: later_trans)
qed

lemma s_subnet_ready_rule:
  assumes seen: "site_seen h v" and next_step: "\<And>h'. later h h' \<Longrightarrow> s_subnet_up p h' name \<Longrightarrow> R h' ()"
  shows "s_passes L r (site_subnet_ready L r v p u name) R h"
  unfolding site_subnet_ready_def passes_ebind
proof (rule s_block_rule [OF seen], rule site.ready_rule, goal_cases)
  case (2 h')
  then show ?case using seen by (auto intro!: s_wait_rule intro: site_seen_later)
next
  case (3 h' x)
  then have "s_subnet_up p h' name" by (auto simp: s_subnet_up_def owned_native_def split: if_splits)
  with 3 show ?case by (simp add: next_step)
qed simp

lemma ensure_rows_rule:
  assumes seen: "site_seen h v" and p: "site_cleared L r h p" and up: "subnets_up h p"
    and next_step: "\<And>h' state'. later h h' \<Longrightarrow> rows_saved r h' p state' \<Longrightarrow> R h' state'"
  shows "s_passes L r (ensure_rows L r v p state) R h"
proof (cases "is_ha (sp_gateway p)")
  case False
  then show ?thesis by (simp add: ensure_rows_def next_step rows_saved_def)
next
  case True
  have unfold_ha: "ensure_rows L r v p state = pbind (bfd_rows (EnsureBfd (sr_cluster r) (sp_gateway p) (svs_bfd_resources (sv_status v)))) (\<lambda>x. case x of
        Inl e \<Rightarrow> if e = bfd_port_pending then site_wait L r v ''Pending'' ''NativeBFDPortPending'' (err_text e) False else site_early (site_blocked L r v e)
      | Inr state' \<Rightarrow> if svs_bfd_resources (sv_status v) \<noteq> bs_records state' then site_persist (set_bfd_resources (bs_records state') v) else go state')"
    using True by (simp add: ensure_rows_def)
  show ?thesis unfolding unfold_ha passes_pbind
  proof (rule bfd_rows_rule, goal_cases)
    case 1
    then show ?case using seen p up by auto
  next
    case (2 h' e)
    then show ?case using seen by (auto intro!: s_wait_rule s_passes_early s_blocked_rule intro: site_seen_later)
  next
    case (3 h' state')
    note seen' = site_seen_later [OF seen 3(1)]
    have "rows_saved r h' p state'" if "svs_bfd_resources (sv_status v) = bs_records state'"
      using seen' 3(2) that by (auto simp: rows_saved_def)
    moreover have "s_status_step L r h' v (set_bfd_resources (bs_records state') v)" by (simp add: s_status_step_def same_report_def set_bfd_resources_def)
    ultimately show ?case using seen' 3(1) by (auto intro!: s_persist_rule next_step)
  qed
qed

lemma site_gateway_rule:
  assumes seen: "site_seen h v" and p: "site_cleared L r h p" and up: "subnets_up h p" and rows: "rows_saved r h p state"
    and next_step: "\<And>h' w y. later h h' \<Longrightarrow> site_seen h' w \<Longrightarrow> gateway_said h' EnsureGateway (sp_gateway p) y \<Longrightarrow> R h' (w, y)"
  shows "s_passes L r (ensure_site_gateway L r v p) R h"
  unfolding ensure_site_gateway_def passes_ebind [of _ "or_block _ _ _ _"]
proof (rule s_block_rule [OF seen], rule gateway_rule, goal_cases)
  case 1
  then show ?case using p up rows by auto
next
  case (3 h' y)
  note seen' = site_seen_later [OF seen 3(1)]
  have put: "s_status_step L r h' v (set_gateway_resources rs v)" for rs by (simp add: s_status_step_def same_report_def set_gateway_resources_def)
  have fin: "R h2 (w, y)" if "later h' h2" "site_seen h2 w" for h2 w
    using that 3 by (intro next_step) (auto intro: later_trans gateway_said_later)
  have "R h' (v, y)" using seen' by (intro fin) simp_all
  then show ?case using fin by (auto simp: passes_ebind intro!: s_saved_rule [OF seen' put])
qed simp

lemma ready_count_pos: "ready_count y state \<noteq> 0 \<Longrightarrow> \<exists>u. u \<in> set (gwr_ready_ids y) \<and> u \<in> set (bs_up state)"
  by (auto simp: ready_count_def filter_empty_conv) 

lemma site_counts_rule:
  assumes seen: "site_seen h v" and next_step: "(is_ha (sp_gateway p) \<Longrightarrow> ready_count y state \<noteq> 0) \<Longrightarrow> R h ()"
  shows "s_passes L r (site_counts L r v p y state) R h"
proof -
  have "s_status_step L r h v (set_counts n d v)" for n d by (simp add: s_status_step_def same_report_def set_counts_def)
  then show ?thesis using seen unfolding site_counts_def by (auto intro!: s_persist_rule s_wait_rule next_step)
qed

lemma routes_upI:
  assumes "site_seen h v" and "\<forall>m\<in>set (gc_gateways (sp_gateway p)). mget (uuid_of_member (svs_bfd_resources (sv_status v))) (gw_id m) \<noteq> [] \<or> \<not> is_ha (sp_gateway p)"
    and "snsaid h (RoutesReady (sr_cluster r) (sp_vpc_name p) (subnet_routes v p @
       (if is_ha (sp_gateway p) then map (\<lambda>m. default_route (gw_ip m) (mget (uuid_of_member (svs_bfd_resources (sv_status v))) (gw_id m)))
          (gc_gateways (sp_gateway p)) else [default_route (gc_gateway_ip (sp_gateway p)) []]))) (NetFlag (Inr True))"
  shows "routes_up r h p v"
  using assms by (auto simp: routes_up_def Let_def)

lemma site_routes_rule:
  assumes seen: "site_seen h v" and p: "site_cleared L r h p" and ready: "rows_saved r h p state" "gateway_up h p state"
    and next_step: "\<And>h'. later h h' \<Longrightarrow> routes_up r h' p v \<Longrightarrow> ecmp_up r h' p v \<Longrightarrow> R h' ()"
  shows "s_passes L r (site_routes_ready L r v p) R h"
proof -
  let ?byid = "uuid_of_member (svs_bfd_resources (sv_status v))"
  let ?routes = "subnet_routes v p @ (if is_ha (sp_gateway p) then map (\<lambda>m. default_route (gw_ip m) (mget ?byid (gw_id m))) (gc_gateways (sp_gateway p))
      else [default_route (gc_gateway_ip (sp_gateway p)) []])"
  let ?rest = "\<lambda>routes. ebind (or_block L r v (site_net (net_flag (RoutesReady (sr_cluster r) (sp_vpc_name p) routes)))) (\<lambda>ready.
     if \<not> ready then site_wait L r v ''Pending'' ''LocalRoutesPending'' ''Waiting for the local OVN gateway route'' True
     else if \<not> is_ha (sp_gateway p) then go ()
     else ebind (or_block L r v (bfd_flag (EnsureEcmp (sr_cluster r) (sp_gateway p) (svs_bfd_resources (sv_status v))))) (\<lambda>ready.
       if ready then go () else site_wait L r v ''Pending'' ''LocalECMPFieldsPending'' ''Waiting for native route flow-hash fields'' True))"
  have rest: "s_passes L r (?rest ?routes) R h"
    if named: "\<forall>m\<in>set (gc_gateways (sp_gateway p)). mget ?byid (gw_id m) \<noteq> [] \<or> \<not> is_ha (sp_gateway p)"
    unfolding passes_ebind
  proof (rule s_block_rule [OF seen], rule s_flag_rule, goal_cases)
    case (2 h1 b)
    note seen1 = site_seen_later [OF seen 2(1)]
    have ecmp: "s_passes L r (ebind (or_block L r v (bfd_flag (EnsureEcmp (sr_cluster r) (sp_gateway p) (svs_bfd_resources (sv_status v))))) (\<lambda>ready.
        if ready then go () else site_wait L r v ''Pending'' ''LocalECMPFieldsPending'' ''Waiting for native route flow-hash fields'' True)) R h1"
      if up: "routes_up r h1 p v"
      unfolding passes_ebind
    proof (rule s_block_rule [OF seen1], rule bfd_flag_rule, goal_cases)
      case 1
      have "site_cleared L r h1 p" "rows_saved r h1 p state" "gateway_up h1 p state"
        using p ready 2(1) by (auto intro: site_cleared_later rows_saved_later gateway_up_later)
      with up show ?case by auto
    next
      case (3 h2 b')
      note seen2 = site_seen_later [OF seen1 3(1)]
      have "R h2 ()" if b'
        by (rule next_step) (use that 3 2(1) up in \<open>auto simp: ecmp_up_def intro: later_trans routes_up_later\<close>)
      with seen2 show ?case by (auto intro!: s_wait_rule)
    qed simp
    have "b \<Longrightarrow> routes_up r h1 p v" using 2(2) seen1 named by (intro routes_upI) simp_all
    with ecmp seen1 2(1) show ?case by (auto simp: passes_ebind ecmp_up_def intro!: s_wait_rule next_step)
  qed simp_all
  show ?thesis
    unfolding site_routes_ready_def site_expected_routes_def Let_def passes_ebind [of _ "if _ then _ else _"]
    using rest seen by (auto simp: list_ex_iff simp del: append.simps intro!: s_wait_rule split: if_split_asm)
qed

text \<open>The tail of a converging pass, from the saved objects on.\<close>

lemma converged_tail_rule:
  assumes seen: "site_seen h v" and p: "site_cleared L r h p" and up: "subnets_up h p"
  shows "s_passes L r (ebind (ensure_rows L r v p state0) (\<lambda>state'.
     ebind (ensure_site_gateway L r v p) (\<lambda>(v2, result).
     ebind (site_counts L r v2 p result state') (\<lambda>_.
     if \<not> gwr_ready result
     then site_wait L r v2 ''Pending'' ''LocalGatewayPending'' ''Waiting for local gateway configuration; remote peers do not gate this state'' False
     else ebind (site_routes_ready L r v2 p) (\<lambda>_.
       site_early (site_state L r v2 ''LocalReady'' ''LocalConfigurationApplied''
         ''Local network and gateway configured; remote reachability is observed by the routing layer'' True True)))))) R h"
  unfolding passes_ebind [of _ "ensure_rows _ _ _ _ _"] passes_ebind [of _ "ensure_site_gateway _ _ _ _"]
proof (rule ensure_rows_rule [OF seen p up], goal_cases)
  case (1 h1 state)
  note on1 = site_seen_later [OF seen 1(1)] site_cleared_later [OF p 1(1)] subnets_up_later [OF up 1(1)]
  show ?case
  proof (rule site_gateway_rule [OF on1(1,2,3) 1(2)], goal_cases)
    case (1 h2 w y)
    note on2 = site_cleared_later [OF on1(2) 1(1)] subnets_up_later [OF on1(3) 1(1)] rows_saved_later [OF \<open>rows_saved r h1 p state\<close> 1(1)]
    show ?case unfolding prod.case passes_ebind [of _ "site_counts _ _ _ _ _ _"]
    proof (rule site_counts_rule [OF 1(2)], goal_cases)
      case n: 1
      show ?case
      proof (cases "gwr_ready y")
        case False
        then show ?thesis using 1(2) by (auto intro!: s_wait_rule)
      next
        case True
        have g: "gateway_up h2 p state" using 1(3) True n ready_count_pos unfolding gateway_up_def by blast
        show ?thesis
        proof -
          have "s_passes L r (ebind (site_routes_ready L r w p) (\<lambda>_. site_early (site_state L r w ''LocalReady'' ''LocalConfigurationApplied''
             ''Local network and gateway configured; remote reachability is observed by the routing layer'' True True))) R h2"
            unfolding passes_ebind
          proof (rule site_routes_rule [OF 1(2) on2(1,3) g], goal_cases)
            case (1 h3)
            have "site_cleared L r h3 p" "subnets_up h3 p" "rows_saved r h3 p state" "gateway_up h3 p state" "site_seen h3 w"
              using 1(1) on2 g \<open>site_seen h2 w\<close> by (auto intro: site_cleared_later subnets_up_later rows_saved_later gateway_up_later site_seen_later)
            then have "site_converged r h3 p" using 1(2,3) unfolding site_converged_def by blast
            with \<open>site_cleared L r h3 p\<close> \<open>site_seen h3 w\<close> show ?case by (auto intro!: s_passes_early s_state_rule)
          qed
          with True show "s_passes L r (if \<not> gwr_ready y
             then site_wait L r w ''Pending'' ''LocalGatewayPending'' ''Waiting for local gateway configuration; remote peers do not gate this state'' False
             else ebind (site_routes_ready L r w p) (\<lambda>_. site_early (site_state L r w ''LocalReady'' ''LocalConfigurationApplied''
               ''Local network and gateway configured; remote reachability is observed by the routing layer'' True True))) R h2" by simp
        qed
      qed
    qed
  qed
qed

lemma ensure_targets_rule:
  assumes seen: "site_seen h v" and p: "site_cleared L r h p" and t: "\<forall>want\<in>set wants. s_target p want"
    and next_step: "\<And>h' w. later h h' \<Longrightarrow> site_seen h' w \<Longrightarrow> R h' w"
  shows "s_passes L r (efold (site_ensure L r) v wants) R h"
proof (rule passes_efold [where I = "\<lambda>_ w h'. later h h' \<and> site_seen h' w"], goal_cases)
  case (2 seen_wants want rest w h')
  show ?case
    by (rule s_ensure_rule) (use 2 p t in \<open>auto intro: site_cleared_later later_trans\<close>)
qed (use seen next_step in auto)

lemma site_converge_rule:
  assumes seen: "site_seen h v" and p: "site_cleared L r h p"
  shows "s_passes L r (site_converge L r v p state) R h"
proof -
  have rest: "s_passes L r (ebind (efold (site_ensure L r) v wants) (\<lambda>v1.
     ebind (efold (site_subnet_ready L r v1 p) () [sp_subnet_name p, sp_transit_name p]) (\<lambda>_.
     ebind (ensure_rows L r v1 p state) (\<lambda>state'.
     ebind (ensure_site_gateway L r v1 p) (\<lambda>(v2, result).
     ebind (site_counts L r v2 p result state') (\<lambda>_.
     if \<not> gwr_ready result
     then site_wait L r v2 ''Pending'' ''LocalGatewayPending'' ''Waiting for local gateway configuration; remote peers do not gate this state'' False
     else ebind (site_routes_ready L r v2 p) (\<lambda>_.
       site_early (site_state L r v2 ''LocalReady'' ''LocalConfigurationApplied''
         ''Local network and gateway configured; remote reachability is observed by the routing layer'' True True)))))))) R h1"
    if "\<forall>want\<in>set wants. s_target p want" "later h h1" for wants h1
    unfolding passes_ebind [of _ "efold (site_ensure L r) _ _"] passes_ebind [of _ "efold (site_subnet_ready _ _ _ _) _ _"]
  proof (rule ensure_targets_rule [OF site_seen_later [OF seen that(2)] site_cleared_later [OF p that(2)] that(1)], goal_cases)
    case (1 h2 w)
    have p2: "site_cleared L r h2 p" using p that(2) 1(1) by (blast intro: site_cleared_later)
    show ?case unfolding efold.simps passes_ebind [of _ "site_subnet_ready _ _ _ _ _ _"]
    proof (rule s_subnet_ready_rule [OF 1(2)], goal_cases)
      case (1 h3)
      note seen3 = site_seen_later [OF \<open>site_seen h2 w\<close> 1(1)]
      show ?case
      proof (rule s_subnet_ready_rule [OF seen3], goal_cases)
        case (1 h4)
        have "subnets_up h4 p" using \<open>s_subnet_up p h3 (sp_subnet_name p)\<close> 1 unfolding subnets_up_def by (blast intro: s_subnet_up_later)
        moreover have "site_cleared L r h4 p" using p2 \<open>later h2 h3\<close> 1(1) by (blast intro: site_cleared_later)
        ultimately show ?case using site_seen_later [OF seen3 1(1)] by (simp add: converged_tail_rule)
      qed
    qed
  qed
  have targets: "\<forall>want\<in>set (site_targets p). s_target p want" "\<forall>want\<in>set (routed_targets p rs cs). s_target p want" for rs cs
    by (auto simp: s_target_def)
  have hops: "s_passes L r (or_block L r v (bfd_hops (BfdConflicts c g rs))) (\<lambda>h' _. later h h') h" for c g rs
    by (rule s_block_rule [OF seen], rule bfd_hops_rule) (simp_all split: sum.split)
  show ?thesis
  proof (cases "is_ha (sp_gateway p)")
    case True
    show ?thesis
      unfolding site_converge_def if_P [OF True] passes_ebind [of _ "ebind _ _"] passes_ebind [of _ "or_block _ _ _ _"]
      by (rule passes_mono [OF hops]) (use rest targets in simp)
  next
    case False
    then show ?thesis
      unfolding site_converge_def passes_ebind [of _ "if _ then _ else _"] if_not_P [OF False]
      using rest targets by simp
  qed
qed

section \<open>The pass\<close>

lemma site_plan_pass_rule:
  assumes seen: "site_seen h v0" and p: "site_planned L r h p"
  shows "s_passes L r (site_plan_pass L r v0 p) R h"
  unfolding site_plan_pass_def passes_ebind [of _ "site_accept _ _"]
proof (rule s_accept_rule [OF seen], goal_cases)
  case (1 h1 v)
  note planned1 = site_planned_later [OF p 1(1)]
  show ?case unfolding passes_ebind [of _ "or_block _ _ _ _"]
  proof (rule s_block_rule [OF 1(2)], rule site.identity_rule, goal_cases)
    case (2 h2)
    note on2 = site_seen_later [OF \<open>site_seen h1 v\<close> 2(1)] site_planned_later [OF planned1 2(1)] 2(2)
    show ?case unfolding sum.case passes_ebind [of _ "efold _ _ _"]
    proof (rule passes_efold [where I = "\<lambda>done u h'. later h2 h' \<and> (\<forall>want\<in>set done. target_checked r h' v p want)"], goal_cases)
      case (2 checked want rest u h')
      show ?case
        by (rule s_preflight_rule) (use 2 on2(1) in \<open>auto intro: site_seen_later target_checked_later later_trans\<close>)
    next
      case (3 u h3)
      then have on3: "later h2 h3" "\<forall>want\<in>set (site_targets p). target_checked r h3 v p want" by simp_all
      note seen3 = site_seen_later [OF on2(1) on3(1)]
      show ?case unfolding passes_ebind [of _ "or_block _ _ _ _"]
      proof (rule s_block_rule [OF seen3], rule gateway_rule, goal_cases)
        case (3 h4 observed)
        note seen4 = site_seen_later [OF seen3 3(1)]
        have p4: "site_cleared L r h4 p"
          using on2(2,3) on3 3 seen4 unfolding site_cleared_def by (blast intro: site_planned_later identified_later target_checked_later later_trans)
        show ?case unfolding sum.case passes_ebind
        proof (rule s_observe_rule [OF seen4], goal_cases)
          case (1 h5 state)
          note on5 = site_seen_later [OF seen4 1] site_cleared_later [OF p4 1]
          have gone: "gateway_gone h5 p" if "gwr_absent observed"
            using that 3(2) 1 unfolding gateway_gone_def by (blast intro: gateway_said_later)
          have again: "s_status_step L r h5 v (set_site_operation ''DeleteGateway'' (set_gateway_resources rs v))" if "om_deletion (sv_meta v) \<noteq> None" for rs
            using that by (simp add: s_status_step_def same_report_def set_site_operation_def set_gateway_resources_def)
          have noted: "s_status_step L r h5 v (set_gateway_resources rs v)" for rs
            by (simp add: s_status_step_def same_report_def set_gateway_resources_def)
          show ?case using on5 gone by (auto intro!: s_persist_rule [OF on5(1)] again noted remove_site_rule site_converge_rule)
        qed
      qed simp_all
    qed simp
  qed simp
qed

lemma site_reconcile_rule: "always (site_contract L r) (site_reconcile L r ns name) (\<lambda>_ _. True) []"
  unfolding site_reconcile_def always_pbind
proof (rule wire_get, goal_cases)
  case (3 h' y v)
  then have seen: "site_seen h' v" by (auto intro: site_seenI)
  have "site_planned L r h' p" if "site_build L (Some v) (sr_config r) = Inr p" for p
    using seen that by (auto simp: site_planned_def)
  then have "always (site_contract L r) (site_plan_pass L r v p :: outcome scprog) (\<lambda>_ _. True) h'" if "site_build L (Some v) (sr_config r) = Inr p" for p
    using site_plan_pass_rule [OF seen, of L r p "\<lambda>_ _. True"] that by (auto simp: passes_def elim!: always_mono)
  moreover have "always (site_contract L r) (site_api (kdo (Update (SVpc (v\<lparr>sv_meta := add_finalizer L (sv_meta v) site_finalizer\<rparr>))))) (\<lambda>_ _. True) h'"
    if "om_deletion (sv_meta v) = None"
    by (rule wire_do) (use seen that in auto)
  ultimately show ?case using seen by (auto intro!: s_blocked_rule split: sum.split)
qed simp_all

text \<open>
  C5: A pass over a SiteVpc obeys the contract of the site in every run, whatever the servers and backends answer. It
  changes only objects of its plan that it saw with its label, its cluster's label and the recorded UID, after the
  identity of the cluster and every object of the plan were checked. It starts the gateways only behind two ready
  subnets and, with several gateways, behind BFD rows whose identities the saved status names. It deletes the gateway
  only of a SiteVpc that is being deleted, when no workload is left and the durable operation says so; it withdraws
  routes, BFD rows, subnets and the VPC only after the gateway was seen to be absent and both networks empty, in
  this order; and the finalizer goes only when all of them and the local OVN topology were seen to be gone. A status
  that says the site is ready either carries the last report on unchanged, phase, conditions and observed generation,
  as the saves of receipts in the middle of a pass do, or is written after ready subnets, a ready gateway with a BFD
  session that is up, the exact routes with the recorded BFD identity of every gateway, and their flow-hash fields were
  all seen in this pass.
\<close>

theorem site_writes_ordered: "every_step (site_contract L r) (site_reconcile L r ns name)"
  by (rule every_stepI [OF site_reconcile_rule])

end
