(* ===== verification/Ovn_Site_Laws.thy ===== *)
theory Ovn_Site_Laws
  imports Ovn_Laws Ovn_Site Api_Plug
begin

text \<open>
  What the BFD and ECMP adapter of a site may write. Its reading of the BFD table is exact: the records it returns are the rows
  that carry its four tags, and every other row belongs to somebody else. A write names rows of
  such a reading.
\<close>

section \<open>Owned rows\<close>

definition owned_bfd :: "domain_cluster \<Rightarrow> gateway_config \<Rightarrow> ovn_row \<Rightarrow> bfd_resource_record \<Rightarrow> bool" where
  "owned_bfd c g r x \<longleftrightarrow> (\<exists>ids. uuid_value (cell r ''_uuid'') = Inr (bfr_uuid x) \<and> map_value (cell r ''external_ids'') = Inr ids
     \<and> mget ids owner_key = gc_owner_uid g \<and> mget ids bfd_gateway_key = bfr_gateway_id x \<and> mget ids bfd_cluster_key = dc_uid c
     \<and> mget ids bfd_router_key = gc_vpc_name g \<and> string_value (cell r ''logical_port'') = Inr (bfd_port_name g)
     \<and> (\<exists>m\<in>set (gc_gateways g). gw_id m = bfr_gateway_id x \<and> gw_ip m \<noteq> [] \<and> string_value (cell r ''dst_ip'') = Inr (gw_ip m)))"

definition foreign_bfd :: "gateway_config \<Rightarrow> ovn_row \<Rightarrow> bool" where
  "foreign_bfd g r \<longleftrightarrow> (\<exists>ids. map_value (cell r ''external_ids'') = Inr ids \<and> mget ids owner_key \<noteq> gc_owner_uid g)"

definition timers_set :: "site_bfd \<Rightarrow> ovn_row \<Rightarrow> bool" where
  "timers_set b r \<longleftrightarrow> list_all (\<lambda>t. int_value (cell r (fst t)) = Inr (snd t)) (wanted_timers b)"

definition receipt_agrees :: "bfd_resource_record list \<Rightarrow> bfd_resource_record \<Rightarrow> bool" where
  "receipt_agrees records x \<longleftrightarrow> (\<forall>y\<in>set records. bfr_gateway_id y = bfr_gateway_id x \<longrightarrow> bfr_uuid y = bfr_uuid x)"

text \<open>A state is the reading of a table: its records are the owned rows, one per member, and they agree with the receipts.\<close>

definition bfd_reading :: "domain_cluster \<Rightarrow> gateway_config \<Rightarrow> bfd_resource_record list \<Rightarrow> site_bfd \<Rightarrow> ovn_row list \<Rightarrow> bfd_state \<Rightarrow> bool" where
  "bfd_reading c g records b rows state \<longleftrightarrow>
     (\<forall>r\<in>set rows. foreign_bfd g r \<or> (\<exists>x\<in>set (bs_records state). owned_bfd c g r x))
     \<and> (\<forall>x\<in>set (bs_records state). receipt_agrees records x \<and> (\<exists>r\<in>set rows. owned_bfd c g r x))
     \<and> distinct (map bfr_gateway_id (bs_records state))
     \<and> (\<forall>u\<in>set (bs_up state). \<exists>r\<in>set rows. \<exists>x. owned_bfd c g r x \<and> bfr_gateway_id x = u \<and> timers_set b r \<and> bfd_status r = Inr ''up'')
     \<and> (bs_configured state \<longrightarrow> (\<forall>r\<in>set rows. foreign_bfd g r \<or> timers_set b r))"

lemma foldl_mput_found:
  "mget (foldl (\<lambda>m x. mput (key x) (val x) m) a xs) u \<noteq> mget a u
    \<Longrightarrow> \<exists>x\<in>set xs. key x = u \<and> val x = mget (foldl (\<lambda>m x. mput (key x) (val x) m) a xs) u"
proof (induction xs rule: rev_induct)
  case (snoc x xs)
  then show ?case by (cases "key x = u") auto
qed simp

lemma mget_nil [simp]: "mget [] u = []"
  by (simp add: mget_def)

lemma ip_of_member_found: "mget (ip_of_member g) u \<noteq> [] \<Longrightarrow> \<exists>m\<in>set (gc_gateways g). gw_id m = u \<and> gw_ip m = mget (ip_of_member g) u"
  unfolding ip_of_member_def by (rule foldl_mput_found) simp

lemma uuid_not_empty: "uuid_ok u \<Longrightarrow> u \<noteq> []"
  by (auto simp: uuid_ok_def)

lemma expected_receipts:
  assumes "bfd_expected g records = Inr (b, expected)"
  shows "gc_bfd g = Some b" and "\<And>y. y \<in> set records \<Longrightarrow> mget expected (bfr_gateway_id y) = bfr_uuid y \<and> bfr_uuid y \<noteq> []"
    and "\<And>u. mget expected u \<noteq> [] \<Longrightarrow> \<exists>y\<in>set records. bfr_gateway_id y = u \<and> bfr_uuid y = mget expected u"
proof -
  have step: "foldr_res (expect_receipt (map gw_id (gc_gateways g))) [] records = Inr expected" and "gc_bfd g = Some b"
    using assms by (auto simp: bfd_expected_def split: option.splits if_splits)
  let ?I = "\<lambda>ys m. (\<forall>y\<in>set ys. mget m (bfr_gateway_id y) = bfr_uuid y \<and> bfr_uuid y \<noteq> [])
      \<and> (\<forall>u. mget m u \<noteq> [] \<longrightarrow> (\<exists>y\<in>set ys. bfr_gateway_id y = u \<and> bfr_uuid y = mget m u))"
  have "?I records expected"
  proof (rule foldr_res_invariant [OF step, where I = ?I], goal_cases)
    case (2 ys x m m')
    then have m': "m' = mput (bfr_gateway_id x) (bfr_uuid x) m" and new: "mget m (bfr_gateway_id x) = []" and ok: "bfr_uuid x \<noteq> []"
      by (auto simp: expect_receipt_def dest: uuid_not_empty split: if_splits)
    have other: "bfr_gateway_id y \<noteq> bfr_gateway_id x" if "y \<in> set ys" for y using 2(1) that new by metis
    show ?case
    proof (intro conjI ballI allI impI)
      fix y assume "y \<in> set (ys @ [x])"
      then show "mget m' (bfr_gateway_id y) = bfr_uuid y" "bfr_uuid y \<noteq> []" using 2(1) m' ok other by auto
    next
      fix u assume "mget m' u \<noteq> []"
      then show "\<exists>y\<in>set (ys @ [x]). bfr_gateway_id y = u \<and> bfr_uuid y = mget m' u"
        using 2(1) m' by (cases "u = bfr_gateway_id x") auto
    qed
  qed simp
  then show "\<And>y. y \<in> set records \<Longrightarrow> mget expected (bfr_gateway_id y) = bfr_uuid y \<and> bfr_uuid y \<noteq> []"
    and "\<And>u. mget expected u \<noteq> [] \<Longrightarrow> \<exists>y\<in>set records. bfr_gateway_id y = u \<and> bfr_uuid y = mget expected u"
    by blast+
  show "gc_bfd g = Some b" by fact
qed

lemma timers_checked: "foldr_res (timer_ok r) True (wanted_timers b) = Inr ok \<Longrightarrow> ok \<longleftrightarrow> timers_set b r"
  by (auto simp: wanted_timers_def timer_ok_def timers_set_def)

text \<open>One row of the table.\<close>

lemma note_bfd_row:
  assumes "note_bfd c g b expected (state, seen) r = Inr (state', seen')" and expected: "bfd_expected g records = Inr (b, expected)"
  obtains "foreign_bfd g r" "state' = state" "seen' = seen"
  | x where "owned_bfd c g r x" "receipt_agrees records x" "bfr_gateway_id x \<notin> set seen" "bs_records state' = bs_records state @ [x]"
      "seen' = bfr_gateway_id x # seen" "bs_configured state' \<longleftrightarrow> bs_configured state \<and> timers_set b r"
      "set (bs_up state') \<subseteq> set (bs_up state) \<union> (if timers_set b r \<and> bfd_status r = Inr ''up'' then {bfr_gateway_id x} else {})"
proof -
  obtain u ids port ip where cells: "uuid_value (cell r ''_uuid'') = Inr u" "map_value (cell r ''external_ids'') = Inr ids"
      "string_value (cell r ''logical_port'') = Inr port" "string_value (cell r ''dst_ip'') = Inr ip"
    using assms(1) by (auto simp: note_bfd_def)
  show thesis
  proof (cases "mget ids owner_key = gc_owner_uid g")
    case False
    with assms(1) cells have "state' = state" "seen' = seen" by (auto simp: note_bfd_def split: if_splits)
    with False cells that(1) show thesis by (auto simp: foreign_bfd_def)
  next
    case True
    let ?x = "\<lparr>bfr_gateway_id = mget ids bfd_gateway_key, bfr_uuid = u\<rparr>"
    have row: "mget (ip_of_member g) (mget ids bfd_gateway_key) = ip" "mget (ip_of_member g) (mget ids bfd_gateway_key) \<noteq> []"
        "port = bfd_port_name g" "mget ids bfd_cluster_key = dc_uid c" "mget ids bfd_router_key = gc_vpc_name g"
        "mget ids bfd_gateway_key \<notin> set seen" "mget expected (mget ids bfd_gateway_key) = [] \<or> mget expected (mget ids bfd_gateway_key) = u"
      using assms(1) cells True by (auto simp: note_bfd_def Let_def split: if_splits)
    obtain ok status where checks: "foldr_res (timer_ok r) True (wanted_timers b) = Inr ok" "bfd_status r = Inr status"
        and state': "state' = \<lparr>bs_records = bs_records state @ [?x], bs_up = bs_up state @ (if ok \<and> status = ''up'' then [bfr_gateway_id ?x] else []),
          bs_configured = bs_configured state \<and> ok\<rparr>" "seen' = bfr_gateway_id ?x # seen"
      using assms(1) cells True row by (auto simp: note_bfd_def Let_def split: if_splits)
    have "owned_bfd c g r ?x"
      using cells True row ip_of_member_found [of g "mget ids bfd_gateway_key"] by (auto simp: owned_bfd_def)
    moreover have "receipt_agrees records ?x"
      using expected_receipts(2) [OF expected] row by (fastforce simp: receipt_agrees_def)
    ultimately show thesis
      using that(2) [of ?x] row(6) state' checks timers_checked [OF checks(1)] by auto
  qed
qed

lemma bfd_reading_exact:
  assumes "bfd_expected g records = Inr (b, expected)"
    and "foldr_res (note_bfd c g b expected) (\<lparr>bs_records = [], bs_up = [], bs_configured = True\<rparr>, []) rows = Inr (state, seen)"
  shows "bfd_reading c g records b rows state"
proof -
  let ?I = "\<lambda>rows (state, seen). bfd_reading c g records b rows state \<and> set seen = bfr_gateway_id ` set (bs_records state)"
  have "?I rows (state, seen)"
  proof (rule foldr_res_invariant [OF assms(2), where I = ?I], goal_cases)
    case (2 seen_rows r st st')
    obtain s n s' n' where st: "st = (s, n)" "st' = (s', n')" by fastforce
    from note_bfd_row [OF 2(3) [unfolded st] assms(1)] 2(1) show ?case
      unfolding st by cases (auto simp: bfd_reading_def split: if_splits; blast)+
  qed (simp add: bfd_reading_def)
  then show ?thesis by simp
qed

section \<open>The contract\<close>

text \<open>A state that was read in this call.\<close>

definition bfd_shown :: "ovn_exec \<Rightarrow> ohist \<Rightarrow> domain_cluster \<Rightarrow> gateway_config \<Rightarrow> bfd_resource_record list \<Rightarrow> site_bfd \<Rightarrow> bfd_state \<Rightarrow> bool" where
  "bfd_shown e h c g records b state \<longleftrightarrow> gc_bfd g = Some b
     \<and> (\<exists>rows. shown e h (dc_nb_command c) bfd_columns ''BFD'' [] rows \<and> bfd_reading c g records b rows state)"

text \<open>The native port for BFD exists on the owned router, with the configured address and at least two chassis.\<close>

definition bfd_port_shown :: "ovn_exec \<Rightarrow> ohist \<Rightarrow> domain_cluster \<Rightarrow> gateway_config \<Rightarrow> site_bfd \<Rightarrow> bool" where
  "bfd_port_shown e h c g b \<longleftrightarrow> (\<exists>p port options networks group router ports r chassis.
     shown e h (dc_nb_command c) ''_uuid,name,networks,options,ha_chassis_group'' ''Logical_Router_Port'' [condition_arg ''name'' (bfd_port_name g)] [p]
     \<and> cell p ''name'' = JStr (bfd_port_name g) \<and> uuid_value (cell p ''_uuid'') = Inr port
     \<and> set_value (cell p ''networks'') False = Inr [networks] \<and> networks \<in> {bfd_source_ip b, bfd_source_ip b @ ''/32''}
     \<and> map_value (cell p ''options'') = Inr options \<and> mget options ''bfd-only'' = ''true''
     \<and> set_value (cell p ''ha_chassis_group'') True = Inr [group]
     \<and> shown e h (dc_nb_command c) ''name,ports'' ''Logical_Router'' [condition_arg ''name'' (gc_vpc_name g)] [router]
     \<and> cell router ''name'' = JStr (gc_vpc_name g) \<and> set_value (cell router ''ports'') True = Inr ports \<and> port \<in> set ports
     \<and> shown e h (dc_nb_command c) ''ha_chassis'' ''HA_Chassis_Group'' [uuid_selector @ group] [r]
     \<and> set_value (cell r ''ha_chassis'') True = Inr chassis \<and> 2 \<le> length chassis)"

text \<open>A table whose rows refer to none of these rows.\<close>

definition unreferenced :: "ovn_exec \<Rightarrow> ohist \<Rightarrow> domain_cluster \<Rightarrow> bfd_resource_record list \<Rightarrow> string \<times> string \<Rightarrow> bool" where
  "unreferenced e h c xs q \<longleftrightarrow> (\<exists>rows. shown e h (dc_nb_command c) (snd q) (fst q) [] rows
     \<and> (\<forall>r\<in>set rows. \<exists>ids. set_value (cell r (snd q)) True = Inr ids \<and> (\<forall>x\<in>set xs. bfr_uuid x \<notin> set ids)))"

text \<open>A default route of the owned router over a gateway of the site, with the BFD row of the receipt.\<close>

definition hop_route_shown :: "ovn_exec \<Rightarrow> ohist \<Rightarrow> domain_cluster \<Rightarrow> gateway_config \<Rightarrow> bfd_resource_record list \<Rightarrow> string \<Rightarrow> ecmp_target \<Rightarrow> bool" where
  "hop_route_shown e h c g records router t \<longleftrightarrow> (\<exists>r refs row ids.
     shown e h (dc_nb_command c) ''_uuid,name,static_routes'' ''Logical_Router'' [condition_arg ''name'' (gc_vpc_name g)] [r]
     \<and> cell r ''name'' = JStr (gc_vpc_name g) \<and> uuid_value (cell r ''_uuid'') = Inr router
     \<and> set_value (cell r ''static_routes'') True = Inr refs \<and> et_id t \<in> set refs
     \<and> shown e h (dc_nb_command c) ecmp_columns ''Logical_Router_Static_Route'' [uuid_selector @ et_id t] [row]
     \<and> string_value (cell row ''ip_prefix'') = Inr default_cidr \<and> string_value (cell row ''nexthop'') = Inr (et_ip t)
     \<and> string_value (cell row ''route_table'') = Inr [] \<and> set_value (cell row ''bfd'') True = Inr [et_bfd t]
     \<and> map_value (cell row ''external_ids'') = Inr ids \<and> mget ids ecmp_owner_key \<in> {[], gc_owner_uid g}
     \<and> et_ids_guard t = exact_map_guard ''external_ids'' ids
     \<and> (\<exists>m\<in>set (gc_gateways g). \<exists>x\<in>set records. gw_ip m = et_ip t \<and> bfr_gateway_id x = gw_id m \<and> bfr_uuid x = et_bfd t))"

text \<open>
  The writes. A row is created for a member that neither the table nor the receipts know; a row is set
  by the UUID it was read with; rows are deleted only all together and when nothing was seen to refer to them.
\<close>

fun bfd_write :: "ovn_exec \<Rightarrow> bfd_req \<Rightarrow> ohist \<Rightarrow> string list \<Rightarrow> bool" where
  "bfd_write e (EnsureBfd c g records) h q \<longleftrightarrow> (\<exists>b state m. bfd_shown e h c g records b state \<and> bfd_port_shown e h c g b \<and> m \<in> set (gc_gateways g)
     \<and> ((gw_id m \<notin> bfr_gateway_id ` set (bs_records state) \<union> bfr_gateway_id ` set records
          \<and> q = full_command e (dc_nb_command c) (create_bfd_args c g b m))
       \<or> (\<exists>x\<in>set (bs_records state). bfr_gateway_id x = gw_id m \<and> q = full_command e (dc_nb_command c) (set_bfd_args (bfr_uuid x) c g b m))))"
| "bfd_write e (DeleteBfd c g records) h q \<longleftrightarrow> (\<exists>b state. bfd_shown e h c g records b state \<and> bs_records state \<noteq> []
     \<and> list_all (unreferenced e h c (bs_records state)) bfd_references
     \<and> q = oe_transaction_command e @ [transaction_body (concat (map (delete_ops c g) (bs_records state)))])"
| "bfd_write e (EnsureEcmp c g records) h q \<longleftrightarrow> (\<exists>router t. hop_route_shown e h c g records router t
     \<and> q = full_command e (dc_nb_command c) (ecmp_args c g router t))"
| "bfd_write e (GetBfd c g records) h q \<longleftrightarrow> False"
| "bfd_write e (BfdConflicts c g records) h q \<longleftrightarrow> False"

definition bfd_contract :: "ovn_exec \<Rightarrow> bfd_req \<Rightarrow> ohist \<Rightarrow> string list \<Rightarrow> bool" where
  "bfd_contract e req h q \<longleftrightarrow> reads e q \<or> bfd_write e req h q"

interpretation bf: ovn_reader e "bfd_contract e req" for e req
  by unfold_locales (simp add: bfd_contract_def)

lemma bfd_shown_later: "bfd_shown e h c g records b state \<Longrightarrow> later h h' \<Longrightarrow> bfd_shown e h' c g records b state"
  and unreferenced_later: "unreferenced e h c xs q \<Longrightarrow> later h h' \<Longrightarrow> unreferenced e h' c xs q"
  unfolding bfd_shown_def unreferenced_def by (blast intro: shown_later)+

lemma bfd_port_shown_later: "bfd_port_shown e h c g b \<Longrightarrow> later h h' \<Longrightarrow> bfd_port_shown e h' c g b"
  unfolding bfd_port_shown_def using shown_later by meson

context ovn_reader
begin

lemma get_bfd_rule:
  assumes "\<And>h' x. later h h' \<Longrightarrow> Q h' (Inl x)"
    and "\<And>h' b expected state. later h h' \<Longrightarrow> bfd_expected g records = Inr (b, expected) \<Longrightarrow> bfd_shown e h' c g records b state \<Longrightarrow> Q h' (Inr state)"
  shows "always G (get_bfd e c g records) Q h"
proof -
  have sorted: "bfd_reading c g records b rows \<lparr>bs_records = sort_slice bfr_gateway_id (bs_records s), bs_up = sort_strings (bs_up s), bs_configured = bs_configured s \<and> ok\<rparr>"
    if "bfd_reading c g records b rows s" for b rows s ok
    using that by (auto simp: bfd_reading_def distinct_map)
  have final: "Q h' (Inr \<lparr>bs_records = sort_slice bfr_gateway_id (bs_records s), bs_up = sort_strings (bs_up s), bs_configured = bs_configured s \<and> ok\<rparr>)"
    if "later h h'" "bfd_expected g records = Inr (b, expected)" "shown e h' (dc_nb_command c) bfd_columns ''BFD'' [] rows"
      "foldr_res (note_bfd c g b expected) (\<lparr>bs_records = [], bs_up = [], bs_configured = True\<rparr>, []) rows = Inr (s, seen)" for h' b expected rows s seen ok
    using that sorted [OF bfd_reading_exact [OF that(2,4)], of ok] expected_receipts(1) [OF that(2)]
    by (intro assms(2)) (auto simp: bfd_shown_def)
  show ?thesis unfolding get_bfd_def
    by (auto intro!: steps assms(1) final simp del: always_ebind split: prod.split)
qed

lemma bfd_port_rule:
  assumes fails: "\<And>h' x. later h h' \<Longrightarrow> Q h' (Inl x)" and up: "\<And>h'. later h h' \<Longrightarrow> bfd_port_shown e h' c g b \<Longrightarrow> Q h' (Inr ())"
  shows "always G (bfd_port_ready e c g b) Q h"
proof -
  let ?cmd = "dc_nb_command c"
  have chassis: "quiet (reads e) (chassis_name e c names u)" for names u
    unfolding chassis_name_def by (intro quiet_intros)
  have final: "Q h' (Inr ())"
    if on: "later h h'"
      and port: "shown e h1 ?cmd ''_uuid,name,networks,options,ha_chassis_group'' ''Logical_Router_Port'' [condition_arg ''name'' (bfd_port_name g)] rows"
        "named_single rows (bfd_port_name g) = Inr p" "uuid_value (cell p ''_uuid'') = Inr port" "set_value (cell p ''networks'') False = Inr networks"
        "map_value (cell p ''options'') = Inr options" "set_value (cell p ''ha_chassis_group'') True = Inr groups"
        "\<not> (length networks \<noteq> 1 \<or> (hd networks \<noteq> bfd_source_ip b \<and> hd networks \<noteq> bfd_source_ip b @ ''/32'')
           \<or> mget options ''bfd-only'' \<noteq> ''true'' \<or> length groups \<noteq> 1)"
      and router: "shown e h2 ?cmd ''name,ports'' ''Logical_Router'' [condition_arg ''name'' (gc_vpc_name g)] rows2"
        "named_single rows2 (gc_vpc_name g) = Inr router" "set_value (cell router ''ports'') True = Inr ports" "\<not> port \<notin> set ports"
      and group: "shown e h3 ?cmd ''ha_chassis'' ''HA_Chassis_Group'' [uuid_selector @ hd groups] rows3" "single_row rows3 = Inr r"
        "set_value (cell r ''ha_chassis'') True = Inr chassis" "\<not> length chassis < 2"
      and h: "later h1 h'" "later h2 h'" "later h3 h'"
    for h' h1 h2 h3 rows p port networks options groups rows2 router ports rows3 r chassis
  proof (rule up [OF on])
    obtain net where net: "networks = [net]" using port(7) by (cases networks) auto
    obtain grp where grp: "groups = [grp]" using port(7) by (cases groups) auto
    have one: "rows = [p] \<and> cell p ''name'' = JStr (bfd_port_name g)" "rows2 = [router] \<and> cell router ''name'' = JStr (gc_vpc_name g)" "rows3 = [r]"
      using named_single_name [OF port(2)] named_single_name [OF router(2)] group(2) by (auto simp: single_row_def split: list.splits)
    note seen = shown_later [OF port(1) h(1)] shown_later [OF router(1) h(2)] shown_later [OF group(1) h(3)]
    have "shown e h' ?cmd ''ha_chassis'' ''HA_Chassis_Group'' [uuid_selector @ grp] [r]" using seen(3) one(3) grp by simp
    moreover have "set_value (cell p ''networks'') False = Inr [net] \<and> net \<in> {bfd_source_ip b, bfd_source_ip b @ ''/32''}
        \<and> mget options ''bfd-only'' = ''true'' \<and> set_value (cell p ''ha_chassis_group'') True = Inr [grp]"
      using port(4,6,7) net grp by auto
    ultimately show "bfd_port_shown e h' c g b"
      unfolding bfd_port_shown_def using seen(1,2) one port(3,5) router(3,4) group(3,4)
      by (intro exI [of _ p] exI [of _ port] exI [of _ options] exI [of _ net] exI [of _ grp] exI [of _ router] exI [of _ ports] exI [of _ r] exI [of _ chassis]) simp
  qed
  show ?thesis unfolding bfd_port_ready_def
    by (intro steps efold_step chassis)
      ((rule fails, ((rule later_trans, assumption)+)?, rule later_refl)
       | (rule final, ((rule later_trans, assumption)+)?, rule later_refl, assumption+, ((((rule later_trans, assumption)+)?, rule later_refl)+)?))+
qed

end

section \<open>The operations\<close>

text \<open>A write, and what is done with its outcome.\<close>

lemma bfd_put:
  assumes "bfd_write e req h (full_command e cmd args)" and "\<And>h' x. later h h' \<Longrightarrow> Q h' (f x)"
  shows "always (bfd_contract e req) (pbind (ovn_run e cmd args) (\<lambda>x. Ret (f x))) Q h"
  unfolding always_pbind always.simps by (rule bf.run_rule) (use assms in \<open>simp_all add: bfd_contract_def\<close>)

lemma uuid_of_member_found: "mget (uuid_of_member xs) u \<noteq> [] \<Longrightarrow> \<exists>x\<in>set xs. bfr_gateway_id x = u \<and> bfr_uuid x = mget (uuid_of_member xs) u"
  unfolding uuid_of_member_def by (rule foldl_mput_found) simp

lemma uuid_of_member_none:
  assumes "mget (uuid_of_member xs) u = []" and "\<forall>x\<in>set xs. bfr_uuid x \<noteq> []"
  shows "u \<notin> bfr_gateway_id ` set xs"
  using assms by (induction xs rule: rev_induct) (auto simp: uuid_of_member_def split: if_splits)

lemma bfd_shown_uuids: "bfd_shown e h c g records b state \<Longrightarrow> \<forall>x\<in>set (bs_records state). bfr_uuid x \<noteq> []"
  by (fastforce simp: bfd_shown_def bfd_reading_def owned_bfd_def dest: uuid_value_not_empty)

lemma write_bfd_rule:
  assumes seen: "bfd_shown e h c g records b state" "bfd_port_shown e h c g b" and m: "m \<in> set (gc_gateways g)"
    and expected: "bfd_expected g records = Inr (b, expected)"
  shows "always (bfd_contract e (EnsureBfd c g records)) (write_bfd e c g b expected state u m) (\<lambda>h' _. later h h') h"
proof -
  let ?id = "mget (uuid_of_member (bs_records state)) (gw_id m)"
  have made: "bfd_write e (EnsureBfd c g records) h (full_command e (dc_nb_command c) (create_bfd_args c g b m))"
    if "?id = []" "mget expected (gw_id m) = []"
  proof -
    have "gw_id m \<notin> bfr_gateway_id ` set records"
      using that(2) expected_receipts(2) [OF expected] by auto
    with uuid_of_member_none [OF that(1) bfd_shown_uuids [OF seen(1)]] seen m show ?thesis
      unfolding bfd_write.simps by blast
  qed
  have put: "bfd_write e (EnsureBfd c g records) h (full_command e (dc_nb_command c) (set_bfd_args ?id c g b m))" if "?id \<noteq> []"
    using uuid_of_member_found [OF that] seen m unfolding bfd_write.simps by metis
  have wrap: "(case x of Inl y \<Rightarrow> leave (f y) | Inr _ \<Rightarrow> go ()) = Ret (case x of Inl y \<Rightarrow> Inl (f y) | Inr _ \<Rightarrow> Inr ())" for x :: "err + string" and f :: "err \<Rightarrow> err"
    by (simp split: sum.split)
  show ?thesis
    unfolding write_bfd_def Let_def wrap
    by (intro bf.if_step bf.ret_step bfd_put made put) auto
qed

lemma ensure_bfd_contract: "always (bfd_contract e (EnsureBfd c g records)) (ensure_bfd e c g records) (\<lambda>_ _. True) h"
proof -
  let ?G = "bfd_contract e (EnsureBfd c g records)"
  have loop: "always ?G (efold (write_bfd e c g b expected state) u ms) (\<lambda>_ _. True) h"
    if "bfd_shown e h c g records b state" "bfd_port_shown e h c g b" "bfd_expected g records = Inr (b, expected)" "set ms \<subseteq> set (gc_gateways g)"
    for b expected state u ms h
    using that
  proof (induction ms arbitrary: u h)
    case (Cons m ms)
    then have "always ?G (write_bfd e c g b expected state u m) (\<lambda>h' _. later h h') h"
      by (intro write_bfd_rule) simp_all
    then show ?case
      unfolding efold.simps always_ebind
      by (rule always_mono) (use Cons in \<open>auto intro: bfd_shown_later bfd_port_shown_later split: sum.split\<close>)
  qed simp
  have again: "always ?G (get_bfd e c g records) (\<lambda>_ _. True) h" for h
    by (rule bf.get_bfd_rule) simp_all
  have rest: "always ?G (ebind (efold (write_bfd e c g b expected state) () (gc_gateways g)) (\<lambda>_. get_bfd e c g records)) (\<lambda>_ _. True) h"
    if "bfd_shown e h c g records b state" "bfd_port_shown e h c g b" "bfd_expected g records = Inr (b, expected)" for h b expected state
    unfolding always_ebind by (rule always_mono [OF loop [OF that]]) (use again in \<open>auto split: sum.split\<close>)
  have port: "always ?G (ebind (bfd_port_ready e c g b) (\<lambda>_. ebind (efold (write_bfd e c g b expected state) () (gc_gateways g)) (\<lambda>_. get_bfd e c g records)))
      (\<lambda>_ _. True) h" if "bfd_shown e h c g records b state" "bfd_expected g records = Inr (b, expected)" for h b expected state
    unfolding always_ebind [of _ "bfd_port_ready _ _ _ _"]
    by (rule bf.bfd_port_rule) (use that rest in \<open>auto intro: bfd_shown_later simp del: always_ebind\<close>)
  show ?thesis unfolding ensure_bfd_def always_ebind [of _ "get_bfd _ _ _ _"]
  proof (rule bf.get_bfd_rule)
    fix h' b expected state
    assume "later h h'" and seen: "bfd_expected g records = Inr (b, expected)" "bfd_shown e h' c g records b state"
    then show "case Inr state of Inl x \<Rightarrow> True | Inr state \<Rightarrow> always ?G (ebind (pure_res (bfd_expected g records)) (\<lambda>(b, expected).
        ebind (bfd_port_ready e c g b) (\<lambda>_. ebind (efold (write_bfd e c g b expected state) () (gc_gateways g)) (\<lambda>_. get_bfd e c g records)))) (\<lambda>_ _. True) h'"
      using port [OF seen(2,1)] by (simp add: lift_res_def del: always_ebind)
  qed simp
qed

lemma row_references_found:
  assumes "foldr_res (row_references column) refs rows = Inr refs'"
  shows "set refs \<subseteq> set refs' \<and> (\<forall>r\<in>set rows. \<exists>ids. set_value (cell r column) True = Inr ids \<and> set ids \<subseteq> set refs')"
  by (rule foldr_res_invariant [OF assms, where I = "\<lambda>rs refs'. set refs \<subseteq> set refs' \<and> (\<forall>r\<in>set rs. \<exists>ids. set_value (cell r column) True = Inr ids \<and> set ids \<subseteq> set refs')"])
    (auto simp: row_references_def; fastforce)+

lemma deletes_all: "fst (foldl (add_delete c g) st xs) = fst st @ concat (map (delete_ops c g) xs)"
  by (induction xs arbitrary: st) (simp_all add: add_delete_def split: prod.split)

text \<open>The deletion: both tables are read, and the state is the one of the first reading.\<close>

lemma delete_bfd_contract: "always (bfd_contract e (DeleteBfd c g records)) (delete_bfd e c g records) (\<lambda>_ _. True) h"
proof -
  let ?G = "bfd_contract e (DeleteBfd c g records)"
  have free: "unreferenced e h' c (bs_records state) q"
    if "shown e h' (dc_nb_command c) (snd q) (fst q) [] rows" "foldr_res (row_references (snd q)) refs rows = Inr refs'"
      "\<not> list_ex (\<lambda>x. bfr_uuid x \<in> set all) (bs_records state)" "set refs' \<subseteq> set all" for h' q rows refs refs' all and state :: bfd_state
    using that row_references_found [OF that(2)] unfolding unreferenced_def list_ex_iff by blast
  have send: "always ?G (case foldl (add_delete c g) ([], []) (bs_records state) of (ops, deletes) \<Rightarrow> ebind (bfd_transaction e ops deletes) (\<lambda>_. go False)) (\<lambda>_ _. True) h'"
    if "bfd_shown e h' c g records b state" "bs_records state \<noteq> []" "list_all (unreferenced e h' c (bs_records state)) bfd_references" for h' b state
  proof -
    obtain ops deletes where ops: "foldl (add_delete c g) ([], []) (bs_records state) = (ops, deletes)" by fastforce
    have "?G h' (oe_transaction_command e @ [transaction_body ops])"
      using that deletes_all [of c g "([], [])" "bs_records state"] unfolding bfd_contract_def bfd_write.simps ops by auto
    with ops show ?thesis by (auto simp: bfd_transaction_def lift_res_def split: run_resp.split sum.split)
  qed
  have tables: "always ?G (ebind (efold (table_references e c) [] bfd_references) (\<lambda>refs.
      if list_ex (\<lambda>x. bfr_uuid x \<in> set refs) (bs_records state) then go False
      else case foldl (add_delete c g) ([], []) (bs_records state) of (ops, deletes) \<Rightarrow> ebind (bfd_transaction e ops deletes) (\<lambda>_. go False))) (\<lambda>_ _. True) h'"
    if seen: "bfd_shown e h' c g records b state" "bs_records state \<noteq> []" for h' b state
  proof -
    obtain t1 t2 where refs: "bfd_references = [t1, t2]" by (simp add: bfd_references_def)
    have final: "always ?G (case foldl (add_delete c g) ([], []) (bs_records state) of (ops, deletes) \<Rightarrow> ebind (bfd_transaction e ops deletes) (\<lambda>_. go False)) (\<lambda>_ _. True) h2"
      if "later h' h1" "shown e h1 (dc_nb_command c) (snd t1) (fst t1) [] rows1" "foldr_res (row_references (snd t1)) [] rows1 = Inr refs1"
        "later h1 h2" "shown e h2 (dc_nb_command c) (snd t2) (fst t2) [] rows2" "foldr_res (row_references (snd t2)) refs1 rows2 = Inr refs2"
        "\<not> list_ex (\<lambda>x. bfr_uuid x \<in> set refs2) (bs_records state)" for h1 h2 rows1 rows2 refs1 refs2
    proof (rule send [OF _ seen(2)])
      show "bfd_shown e h2 c g records b state" using that(1,4) seen(1) by (blast intro: bfd_shown_later)
      have "set refs1 \<subseteq> set refs2" using row_references_found [OF that(6)] by blast
      then have "unreferenced e h2 c (bs_records state) t1" using free [OF that(2,3,7)] unreferenced_later that(4) by blast
      moreover have "unreferenced e h2 c (bs_records state) t2" using free [OF that(5,6,7)] by blast
      ultimately show "list_all (unreferenced e h2 c (bs_records state)) bfd_references" unfolding refs by simp
    qed
    have nest: "ebind (efold (table_references e c) [] bfd_references) k
        = ebind (ovn_query e (dc_nb_command c) (snd t1) (fst t1) []) (\<lambda>rows1. ebind (pure_res (foldr_res (row_references (snd t1)) [] rows1)) (\<lambda>refs1.
          ebind (ovn_query e (dc_nb_command c) (snd t2) (fst t2) []) (\<lambda>rows2. ebind (pure_res (foldr_res (row_references (snd t2)) refs1 rows2)) k)))"
      for k :: "string list \<Rightarrow> (err + bool) oprog"
      unfolding refs by (simp add: table_references_def ebind_go ebind_ebind)
    show ?thesis unfolding nest
      by (intro bf.steps TrueI) (rule final, assumption+)
  qed
  show ?thesis unfolding delete_bfd_def always_ebind [of _ "get_bfd _ _ _ _"]
    by (rule bf.get_bfd_rule) (auto intro: tables simp del: always_ebind)
qed

section \<open>Hash fields\<close>

lemma uuid_of_ip_found:
  assumes "mget (uuid_of_ip g expected) ip \<noteq> []" and "bfd_expected g records = Inr (b, expected)"
  shows "\<exists>m\<in>set (gc_gateways g). \<exists>x\<in>set records. gw_ip m = ip \<and> bfr_gateway_id x = gw_id m \<and> bfr_uuid x = mget (uuid_of_ip g expected) ip"
proof -
  have "\<exists>m\<in>set (gc_gateways g). gw_ip m = ip \<and> mget expected (gw_id m) = mget (uuid_of_ip g expected) ip"
    unfolding uuid_of_ip_def by (rule foldl_mput_found) (use assms(1) in \<open>simp add: uuid_of_ip_def\<close>)
  with assms(1) expected_receipts(3) [OF assms(2)] show ?thesis by metis
qed

text \<open>A route that becomes a target.\<close>

lemma ecmp_route_target:
  assumes "ecmp_route g want seen ref r = Inr (EcmpTarget t)"
  shows "et_id t = ref \<and> string_value (cell r ''ip_prefix'') = Inr default_cidr \<and> string_value (cell r ''nexthop'') = Inr (et_ip t)
    \<and> string_value (cell r ''route_table'') = Inr [] \<and> set_value (cell r ''bfd'') True = Inr [et_bfd t] \<and> mget want (et_ip t) = et_bfd t \<and> et_bfd t \<noteq> []
    \<and> (\<exists>ids. map_value (cell r ''external_ids'') = Inr ids \<and> mget ids ecmp_owner_key \<in> {[], gc_owner_uid g} \<and> et_ids_guard t = exact_map_guard ''external_ids'' ids)"
proof -
  obtain prefix ip where a: "string_value (cell r ''ip_prefix'') = Inr prefix" "string_value (cell r ''nexthop'') = Inr ip"
      "prefix = default_cidr" "mget want ip \<noteq> []"
    using assms by (auto simp: ecmp_route_def split: if_splits)
  then obtain policy table bfd where b: "set_value (cell r ''policy'') False = Inr policy" "string_value (cell r ''route_table'') = Inr table"
      "set_value (cell r ''bfd'') True = Inr bfd" "main_default policy table" "length bfd = 1" "hd bfd = mget want ip"
    using assms by (auto simp: ecmp_route_def split: if_splits)
  with a assms obtain chosen ids where c: "set_value (cell r ''selection_fields'') False = Inr chosen" "map_value (cell r ''external_ids'') = Inr ids"
    by (auto simp: ecmp_route_def split: if_splits)
  have "bfd = [mget want ip]" using b(5,6) by (cases bfd) auto
  with a b c assms show ?thesis by (auto simp: ecmp_route_def main_default_def Let_def split: if_splits)
qed

lemma ensure_ecmp_contract: "always (bfd_contract e (EnsureEcmp c g records)) (ensure_ecmp e c g records) (\<lambda>_ _. True) h"
proof -
  let ?G = "bfd_contract e (EnsureEcmp c g records)" and ?cmd = "dc_nb_command c"
  define router_row where "router_row h u refs \<longleftrightarrow> (\<exists>r. shown e h ?cmd ''_uuid,name,static_routes'' ''Logical_Router'' [condition_arg ''name'' (gc_vpc_name g)] [r]
     \<and> cell r ''name'' = JStr (gc_vpc_name g) \<and> uuid_value (cell r ''_uuid'') = Inr u \<and> set_value (cell r ''static_routes'') True = Inr refs)" for h u refs
  have row_later: "router_row h' u refs" if "router_row h u refs" "later h h'" for h h' u refs
    using that unfolding router_row_def by (blast intro: shown_later)
  have target_later: "hop_route_shown e h' c g records u t" if "hop_route_shown e h c g records u t" "later h h'" for h h' u t
    using that unfolding hop_route_shown_def by (meson shown_later)
  have loop: "always ?G (ecmp_targets e c g (uuid_of_ip g expected) ts refs)
      (\<lambda>h' x. case x of Inr (Some ts') \<Rightarrow> \<forall>t\<in>set ts'. hop_route_shown e h' c g records u t | _ \<Rightarrow> True) h"
    if "bfd_expected g records = Inr (b, expected)" "router_row h u all" "set refs \<subseteq> set all" "\<forall>t\<in>set ts. hop_route_shown e h c g records u t"
    for b expected u all ts refs h
    using that
  proof (induction refs arbitrary: ts h)
    case (Cons ref refs)
    have more: "always ?G (case step of EcmpSkip \<Rightarrow> ecmp_targets e c g (uuid_of_ip g expected) ts refs | EcmpWait \<Rightarrow> go None
          | EcmpTarget t \<Rightarrow> ecmp_targets e c g (uuid_of_ip g expected) (ts @ [t]) refs)
        (\<lambda>h' x. case x of Inr (Some ts') \<Rightarrow> \<forall>t\<in>set ts'. hop_route_shown e h' c g records u t | _ \<Rightarrow> True) h'"
      if on: "later h h'" and "shown e h' ?cmd ecmp_columns ''Logical_Router_Static_Route'' [uuid_selector @ ref] rows" "single_row rows = Inr r"
        "ecmp_route g (uuid_of_ip g expected) (map et_ip ts) ref r = Inr step" for h' rows r step
    proof -
      have "rows = [r]" using that(3) by (auto simp: single_row_def split: list.splits)
      have target: "hop_route_shown e h' c g records u t" if "step = EcmpTarget t" for t
      proof -
        note t = ecmp_route_target [OF \<open>ecmp_route _ _ _ _ _ = _\<close> [unfolded that]]
        then have "mget (uuid_of_ip g expected) (et_ip t) \<noteq> []" by simp
        from uuid_of_ip_found [OF this Cons.prems(1)] t
        have "\<exists>m\<in>set (gc_gateways g). \<exists>x\<in>set records. gw_ip m = et_ip t \<and> bfr_gateway_id x = gw_id m \<and> bfr_uuid x = et_bfd t" by simp
        with t Cons.prems(3) row_later [OF Cons.prems(2) on] \<open>shown _ h' _ ecmp_columns _ _ _\<close> \<open>rows = [r]\<close>
        show ?thesis unfolding hop_route_shown_def router_row_def by (elim exE conjE) (intro exI conjI, assumption+ | simp)+
      qed
      show ?thesis
        using Cons.IH [of h'] Cons.prems row_later [OF _ on] target_later [OF _ on] target by (auto split: ecmp_step.split)
    qed
    show ?case unfolding ecmp_targets.simps by (intro bf.steps more) auto
  qed simp
  have one: "always ?G (write_ecmp e c g u changed t) (\<lambda>h' _. later h h') h" if "hop_route_shown e h c g records u t" for u changed t h
  proof -
    have "bfd_write e (EnsureEcmp c g records) h (full_command e ?cmd (ecmp_args c g u t))" using that unfolding bfd_write.simps by blast
    then show ?thesis unfolding write_ecmp_def
      by (intro bf.if_step bf.ret_step) (auto simp: ebind_def bfd_contract_def ovn_run_def split: run_resp.split)
  qed
  have all_of: "always ?G (efold (write_ecmp e c g u) changed ts) (\<lambda>_ _. True) h" if "\<forall>t\<in>set ts. hop_route_shown e h c g records u t" for u changed ts h
    using that
  proof (induction ts arbitrary: changed h)
    case (Cons t ts)
    then show ?case
      unfolding efold.simps always_ebind
      by (intro always_mono [OF one]) (auto intro: target_later split: sum.split)
  qed simp
  have final: "always ?G (ebind (ecmp_targets e c g (uuid_of_ip g expected) [] refs) (\<lambda>found. case found of None \<Rightarrow> go False
       | Some targets \<Rightarrow> if length targets \<noteq> length (uuid_of_ip g expected) then go False
         else ebind (efold (write_ecmp e c g u) False targets) (\<lambda>changed. go (\<not> changed)))) (\<lambda>_ _. True) h"
    if "bfd_expected g records = Inr (b, expected)" "router_row h u refs" for b expected u refs h
    unfolding always_ebind [of _ "ecmp_targets _ _ _ _ _ _"]
    by (rule always_mono [OF loop [OF that]]) (auto intro!: always_mono [OF all_of] split: sum.split option.split)
  have row: "router_row h u refs" if "shown e h ?cmd ''_uuid,name,static_routes'' ''Logical_Router'' [condition_arg ''name'' (gc_vpc_name g)] rows"
      "named_single rows (gc_vpc_name g) = Inr r" "uuid_value (cell r ''_uuid'') = Inr u" "set_value (cell r ''static_routes'') True = Inr refs" for h rows r u refs
    using that unfolding router_row_def by (auto dest: named_single_name)
  show ?thesis unfolding ensure_ecmp_def Let_def
    by (auto intro!: bf.steps final row simp del: always_ebind split: prod.split)
qed

section \<open>Answers\<close>

text \<open>What a result says of the table: a state is one that was read, and a finished deletion found only rows of others.\<close>

fun bfd_answer :: "ovn_exec \<Rightarrow> bfd_req \<Rightarrow> ohist \<Rightarrow> bfd_resp \<Rightarrow> bool" where
  "bfd_answer e (GetBfd c g records) h (BfdRows (Inr state)) \<longleftrightarrow> (\<exists>b. bfd_shown e h c g records b state)"
| "bfd_answer e (EnsureBfd c g records) h (BfdRows (Inr state)) \<longleftrightarrow> (\<exists>b. bfd_shown e h c g records b state)"
| "bfd_answer e (DeleteBfd c g records) h (BfdFlag (Inr True)) \<longleftrightarrow>
     (\<exists>rows. shown e h (dc_nb_command c) bfd_columns ''BFD'' [] rows \<and> (\<forall>r\<in>set rows. foreign_bfd g r))"
| "bfd_answer e req h x \<longleftrightarrow> True"

lemma quiet_conflicts: "quiet (reads e) (bfd_route_conflicts e c g records)"
  unfolding bfd_route_conflicts_def note_route_def by (intro quiet_intros)

lemma always_trivial: "always (\<lambda>_ _. True) p (\<lambda>_ _. True) h"
  by (induction p arbitrary: h) simp_all

lemma bfd_answer_rule: "always (\<lambda>_ _. True) (perform_bfd e req) (bfd_answer e req) []"
proof (cases req)
  case (GetBfd c g records)
  then show ?thesis
    by (simp only: perform_bfd.simps always_pbind) (rule anyone.get_bfd_rule; auto)
next
  case (EnsureBfd c g records)
  have final: "always (\<lambda>_ _. True) (get_bfd e c g records) (\<lambda>h x. bfd_answer e (EnsureBfd c g records) h (BfdRows x)) h" for h
    by (rule anyone.get_bfd_rule) auto
  have fails: "bfd_answer e (EnsureBfd c g records) h (BfdRows (Inl x))" for h x by simp
  have "always (\<lambda>_ _. True) (ensure_bfd e c g records) (\<lambda>h x. bfd_answer e (EnsureBfd c g records) h (BfdRows x)) []"
    unfolding ensure_bfd_def
    by (auto intro!: always_mono [OF always_trivial] final simp: always_ebind [of _ "get_bfd _ _ _ _"] split: sum.split prod.split simp del: bfd_answer.simps(2))
  with EnsureBfd show ?thesis by simp
next
  case (DeleteBfd c g records)
  have empty: "bfd_answer e (DeleteBfd c g records) h (BfdFlag (Inr True))" if "bfd_shown e h c g records b state" "bs_records state = []" for h b state
    using that by (auto simp: bfd_shown_def bfd_reading_def)
  have "always (\<lambda>_ _. True) (ebind p (\<lambda>refs. if f refs then go False else case k refs of (ops, deletes) \<Rightarrow> ebind (bfd_transaction e ops deletes) (\<lambda>_. go False)))
      (\<lambda>h x. bfd_answer e (DeleteBfd c g records) h (BfdFlag x)) h" for p :: "(err + string list) oprog" and f k h
    by (auto intro!: always_mono [OF always_trivial] split: sum.split prod.split)
  then have "always (\<lambda>_ _. True) (delete_bfd e c g records) (\<lambda>h x. bfd_answer e (DeleteBfd c g records) h (BfdFlag x)) []"
    unfolding delete_bfd_def always_ebind [of _ "get_bfd _ _ _ _"]
    by (intro anyone.get_bfd_rule) (auto intro: empty simp del: always_ebind bfd_answer.simps(3))
  with DeleteBfd show ?thesis by simp
qed (auto intro: always_trivial always_mono)

lemma perform_bfd_contract: "always (bfd_contract e req) (perform_bfd e req) (\<lambda>_ _. True) []"
proof (cases req)
  case (GetBfd c g records)
  then show ?thesis by (simp only: perform_bfd.simps always_pbind) (rule bf.get_bfd_rule; simp)
next
  case (BfdConflicts c g records)
  have "always (bfd_contract e req) (bfd_route_conflicts e c g records) (\<lambda>_ _. True) []"
    by (rule steady_always [OF quiet_conflicts, where I = "\<lambda>_. True"]) (simp_all add: bfd_contract_def)
  with BfdConflicts show ?thesis by simp
qed (simp_all add: ensure_bfd_contract delete_bfd_contract ensure_ecmp_contract del: always_ebind)

section \<open>The property\<close>

text \<open>
  C15: Whatever the databases answer, the BFD adapter of a site issues only queries and its own kind of write. A BFD
  row is created only for a member of the configuration that neither the receipts nor the table just read know,
  while the native port was seen on the owned router with two chassis; a row is changed only by the UUID of a row that was
  read with all four tags of this owner, member, cluster and router; rows are deleted in one transaction that names
  exactly the owned rows that were read, after both referring tables were read and referred to none of them; and hash fields are
  set only on a default route of the owned router whose BFD session is the one of a receipt, and whose
  fields belong to nobody else. Looking up rows or stale routes writes nothing.
\<close>

theorem bfd_writes_guarded: "every_step (bfd_contract e req) (perform_bfd e req)"
  by (rule every_stepI [OF perform_bfd_contract])

end
