(* ===== verification/Site_Process.thy ===== *)
theory Site_Process
  imports Site_Laws Ovn_Site_Laws Ovn_Observations
begin

text \<open>
  The site controller as it runs (\<open>cmd/site-vpc-controller/main.go\<close>): the reconciler with the OVN adapter and the gateway
  subprocess behind its interfaces. The calls of the whole are those of the two API clients, the commands that are run against
  the OVN databases, and the child processes. The contract of the reconciler and the contracts of the adapters
  compose, and what a pass concludes from its interfaces becomes a fact about the output of the databases.
\<close>

section \<open>Wiring\<close>

datatype sys_req = SysApi "sobj kreq" | SysInfra "iobj kreq" | SysRun "string list" | SysChild proc_req

datatype sys_resp = SysAnswer "sobj kresp" | SysInfraAnswer "iobj kresp" | SysOutput run_resp | SysExit proc_resp

type_synonym syshist = "(sys_req \<times> sys_resp) list"

definition sys_api_answer :: "sys_resp \<Rightarrow> sobj kresp" where
  "sys_api_answer r = (case r of SysAnswer x \<Rightarrow> x | _ \<Rightarrow> Failed decode_error)"

definition sys_infra_answer :: "sys_resp \<Rightarrow> iobj kresp" where
  "sys_infra_answer r = (case r of SysInfraAnswer x \<Rightarrow> x | _ \<Rightarrow> Failed decode_error)"

definition sys_output :: "sys_resp \<Rightarrow> run_resp" where
  "sys_output r = (case r of SysOutput x \<Rightarrow> x | _ \<Rightarrow> RunFailed)"

definition sys_exit :: "sys_resp \<Rightarrow> proc_resp" where
  "sys_exit r = (case r of SysExit x \<Rightarrow> x | _ \<Rightarrow> ExitFailed)"

definition site_cluster_of :: "site_config \<Rightarrow> domain_cluster" where
  "site_cluster_of cfg = \<lparr>dc_name = cl_name (sc_cluster cfg), dc_uid = cl_uid (sc_cluster cfg), dc_region = [], dc_site = [], dc_dc = [],
     dc_kubeconfig = [], dc_nb_command = cl_nb_command (sc_cluster cfg), dc_sb_command = cl_sb_command (sc_cluster cfg),
     dc_gateway_chassis = [], dc_az_name = [], dc_ic_deployment = \<lparr>dr_namespace = [], dr_name = [], dr_uid = []\<rparr>\<rparr>"

definition site_controller_of :: "site_config \<Rightarrow> int \<Rightarrow> site_controller" where
  "site_controller_of cfg interval = \<lparr>sr_config = cfg, sr_cluster = site_cluster_of cfg, sr_bfd = True, sr_interval = interval\<rparr>"

text \<open>Two adapters: one that observes and one that may also run transactions.\<close>

definition network_exec :: ovn_exec where
  "network_exec = \<lparr>oe_timeout = 0, oe_transaction_command = []\<rparr>"

definition bfd_exec :: "site_config \<Rightarrow> ovn_exec" where
  "bfd_exec cfg = \<lparr>oe_timeout = 0, oe_transaction_command = sc_bfd_transaction_command cfg\<rparr>"

definition gateway_child_timeout :: int where
  "gateway_child_timeout = 90 * 1000000000"

definition gateway_reply :: "site_gateway_result res \<Rightarrow> site_resp" where
  "gateway_reply x = SiteGatewayAnswer (case x of Inl e \<Rightarrow> Inl (Errorf e) | Inr y \<Rightarrow> Inr y)"

fun site_handle :: "site_config \<Rightarrow> site_req \<Rightarrow> (sys_req, sys_resp, site_resp) prog" where
  "site_handle cfg (SiteApi q) = Call (SysApi q) (\<lambda>r. Ret (SiteAnswer (sys_api_answer r)))"
| "site_handle cfg (SiteInfra q) = Call (SysInfra q) (\<lambda>r. Ret (SiteInfraAnswer (sys_infra_answer r)))"
| "site_handle cfg (SiteNet q) = wire SysRun sys_output (pbind (perform network_exec q) (\<lambda>y. Ret (SiteNetAnswer y)))"
| "site_handle cfg (SiteBfd q) = wire SysRun sys_output (pbind (perform_bfd (bfd_exec cfg) q) (\<lambda>y. Ret (SiteBfdAnswer y)))"
| "site_handle cfg (SiteGateway x g rs) =
     wire SysChild sys_exit (pbind (invoke_gateway (sc_gateway_command cfg) gateway_child_timeout x g rs) (\<lambda>y. Ret (gateway_reply y)))"

definition site_process :: "k8s_lib \<Rightarrow> site_config \<Rightarrow> int \<Rightarrow> string \<Rightarrow> string \<Rightarrow> (sys_req, sys_resp, outcome) prog" where
  "site_process L cfg interval ns name = plug (site_handle cfg) (site_reconcile L (site_controller_of cfg interval) ns name)"

section \<open>What the commands said\<close>

text \<open>The commands of a history with their output.\<close>

fun sys_command :: "sys_req \<Rightarrow> string list option" where
  "sys_command (SysRun args) = Some args"
| "sys_command x = None"

abbreviation ran :: "syshist \<Rightarrow> ohist" where
  "ran \<equiv> part sys_command sys_output"

lemmas run_adapter = run_part [where sel = sys_command and f = SysRun, OF _ _ sys_command.simps(1)]
  and always_adapter = always_part [where sel = sys_command and f = SysRun, OF _ sys_command.simps(1)]

section \<open>The contract of the whole\<close>

text \<open>A call of the component that answers a request of the reconciler, after the calls \<open>t\<close> of the same component.\<close>

fun site_component :: "site_config \<Rightarrow> site_req \<Rightarrow> syshist \<Rightarrow> sys_req \<Rightarrow> bool" where
  "site_component cfg (SiteApi q) t x \<longleftrightarrow> x = SysApi q"
| "site_component cfg (SiteInfra q) t x \<longleftrightarrow> x = SysInfra q"
| "site_component cfg (SiteNet q) t x \<longleftrightarrow> (\<exists>args. x = SysRun args \<and> adapter_contract network_exec q (ran t) args)"
| "site_component cfg (SiteBfd q) t x \<longleftrightarrow> (\<exists>args. x = SysRun args \<and> bfd_contract (bfd_exec cfg) q (ran t) args)"
| "site_component cfg (SiteGateway y g rs) t x \<longleftrightarrow> t = [] \<and> gateway_config_ok g = Inr () \<and> valid_records rs
     \<and> x = SysChild \<lparr>pr_argv = sc_gateway_command cfg, pr_stdin = gateway_request y g rs, pr_timeout = gateway_child_timeout\<rparr>"

text \<open>
  The reconciler was at a history that the calls so far explain, asked for something that its contract allows there,
  and the call is one of the component it asked.
\<close>

definition site_process_contract :: "k8s_lib \<Rightarrow> site_config \<Rightarrow> int \<Rightarrow> syshist \<Rightarrow> sys_req \<Rightarrow> bool" where
  "site_process_contract L cfg interval h x \<longleftrightarrow> (\<exists>h0 t hist q. h = h0 @ t \<and> explains (site_handle cfg) h0 hist
     \<and> site_contract L (site_controller_of cfg interval) hist q \<and> site_component cfg q t x)"

lemma site_handle_component: "always (site_component cfg q) (site_handle cfg q) (\<lambda>_ _. True) []"
proof (cases q)
  case (SiteNet req)
  have "always (adapter_contract network_exec req) (perform network_exec req) (\<lambda>_ _. True) []"
    by (rule perform_contract)
  then show ?thesis unfolding SiteNet site_handle.simps by (rule always_adapter) auto
next
  case (SiteBfd req)
  have "always (bfd_contract (bfd_exec cfg) req) (perform_bfd (bfd_exec cfg) req) (\<lambda>_ _. True) []"
    by (rule perform_bfd_contract)
  then show ?thesis unfolding SiteBfd site_handle.simps by (rule always_adapter) auto
next
  case (SiteGateway x g rs)
  then show ?thesis
    by (cases "gateway_config_ok g")
      (auto simp: invoke_gateway_def run_child_def lift_res_def plugin_timeout_def gateway_child_timeout_def split: sum.split proc_resp.split)
qed simp_all

lemma site_process_rule: "always (site_process_contract L cfg interval) (site_process L cfg interval ns name) (\<lambda>_ _. True) []"
  unfolding site_process_def
proof (rule always_plug [OF site_reconcile_rule explains_nil site_handle_component])
  show "site_process_contract L cfg interval (h @ t) x"
    if "explains (site_handle cfg) h hist" "site_contract L (site_controller_of cfg interval) hist q" "site_component cfg q t x" for h hist q t x
    unfolding site_process_contract_def using that by blast
qed simp

section \<open>From interfaces to databases\<close>

text \<open>What the whole has read: a SiteVpc and its plan, and switches without endpoints.\<close>

definition sys_seen :: "syshist \<Rightarrow> site_vpc \<Rightarrow> bool" where
  "sys_seen h v \<longleftrightarrow> (\<exists>q r. (SysApi q, r) \<in> set h \<and> sys_api_answer r = Obj (SVpc v))"

definition sys_planned :: "k8s_lib \<Rightarrow> site_config \<Rightarrow> syshist \<Rightarrow> site_plan \<Rightarrow> bool" where
  "sys_planned L cfg h p \<longleftrightarrow> (\<exists>v. sys_seen h v \<and> site_build L (Some v) cfg = Inr p)"

definition sys_drained :: "site_config \<Rightarrow> syshist \<Rightarrow> site_plan \<Rightarrow> bool" where
  "sys_drained cfg h p \<longleftrightarrow> (\<forall>name\<in>{sp_subnet_name p, sp_transit_name p}. switch_drained network_exec (ran h) (site_cluster_of cfg) name)"

definition sys_names_gone :: "site_config \<Rightarrow> syshist \<Rightarrow> site_plan \<Rightarrow> bool" where
  "sys_names_gone cfg h p \<longleftrightarrow> names_absent network_exec (ran h) (site_cluster_of cfg) (sp_vpc_name p) (sp_subnet_name p) (sp_transit_name p)"

definition sys_bfd_gone :: "site_config \<Rightarrow> syshist \<Rightarrow> site_plan \<Rightarrow> bool" where
  "sys_bfd_gone cfg h p \<longleftrightarrow> (is_ha (sp_gateway p) \<longrightarrow> (\<exists>rows. shown (bfd_exec cfg) (ran h) (cl_nb_command (sc_cluster cfg)) bfd_columns ''BFD'' [] rows
     \<and> (\<forall>r\<in>set rows. foreign_bfd (sp_gateway p) r)))"

lemma explained_api:
  assumes "explains (site_handle cfg) h hist" and "site_seen hist v"
  shows "sys_seen h v"
proof -
  from assms(2) obtain q r where "(SiteApi q, r) \<in> set hist" "site_api_answer r = Obj (SVpc v)" by (auto simp: site_seen_def told_def)
  with explains_run [OF assms(1), of "SiteApi q" r] obtain y where "(SysApi q, y) \<in> set h" "sys_api_answer y = Obj (SVpc v)"
    by (fastforce simp: site_api_answer_def)
  then show ?thesis unfolding sys_seen_def by blast
qed

lemma explained_net:
  assumes "explains (site_handle cfg) h hist" and "snsaid hist q (NetFlag (Inr True))"
    and "always (\<lambda>_ _. True) (perform network_exec q) (\<lambda>h y. y = NetFlag (Inr True) \<longrightarrow> P h) []"
  shows "\<exists>t. set t \<subseteq> set (ran h) \<and> P t"
proof -
  from assms(2) obtain r where r: "(SiteNet q, r) \<in> set hist" "site_net_answer r = NetFlag (Inr True)" by (auto simp: net_told_def)
  with explains_run [OF assms(1), of "SiteNet q" r] obtain h1 t h2 where t: "h = h1 @ t @ h2" "run (site_handle cfg (SiteNet q)) t r" by auto
  from run_adapter [OF t(2) [unfolded site_handle.simps] assms(3)] r(2) have "P (ran t)" by (auto simp: site_net_answer_def)
  with t(1) show ?thesis by (intro exI [of _ "ran t"]) auto
qed

lemma explained_bfd:
  assumes "explains (site_handle cfg) h hist" and "bfd_said hist q y"
  shows "\<exists>t. set t \<subseteq> set (ran h) \<and> bfd_answer (bfd_exec cfg) q t y"
proof -
  from assms(2) have "(SiteBfd q, SiteBfdAnswer y) \<in> set hist" by (simp add: bfd_said_def)
  with explains_run [OF assms(1)] obtain h1 t h2 where t: "h = h1 @ t @ h2" "run (site_handle cfg (SiteBfd q)) t (SiteBfdAnswer y)" by blast
  from run_adapter [OF t(2) [unfolded site_handle.simps] bfd_answer_rule] have "bfd_answer (bfd_exec cfg) q (ran t) y" by auto
  with t(1) show ?thesis by (intro exI [of _ "ran t"]) auto
qed

lemma explained_empty:
  assumes "explains (site_handle cfg) h hist" and "net_empty (site_controller_of cfg interval) hist name"
  shows "switch_drained network_exec (ran h) (site_cluster_of cfg) name"
  using explained_net [OF assms(1) _ endpoints_outcome, of "site_cluster_of cfg" name] assms(2)
  by (auto simp: net_empty_def site_controller_of_def intro: switch_drained_mono)

lemma explained_closing:
  assumes "explains (site_handle cfg) h hist" and "site_cleared L (site_controller_of cfg interval) hist p"
    and "site_closing (site_controller_of cfg interval) hist p"
  shows "sys_planned L cfg h p \<and> sys_drained cfg h p"
proof
  show "sys_planned L cfg h p"
    using assms(2) explained_api [OF assms(1)] by (auto simp: site_cleared_def site_planned_def sys_planned_def site_controller_of_def)
  show "sys_drained cfg h p"
    using assms(3) explained_empty [OF assms(1)] by (auto simp: sys_drained_def site_closing_def site_drained_def)
qed

lemma explained_removed:
  assumes "explains (site_handle cfg) h hist" and "site_removed (site_controller_of cfg interval) hist p"
  shows "sys_names_gone cfg h p \<and> sys_bfd_gone cfg h p"
proof
  show "sys_names_gone cfg h p"
    using assms(2) explained_net [OF assms(1) _ absent_outcome, of "site_cluster_of cfg" "sp_vpc_name p" "sp_subnet_name p" "sp_transit_name p"]
    by (auto simp: site_removed_def site_controller_of_def sys_names_gone_def intro: names_absent_mono)
  show "sys_bfd_gone cfg h p"
    unfolding sys_bfd_gone_def
  proof
    assume "is_ha (sp_gateway p)"
    with assms(2) obtain rs where "bfd_said hist (DeleteBfd (site_cluster_of cfg) (sp_gateway p) rs) (BfdFlag (Inr True))"
      by (auto simp: site_removed_def bfd_gone_def site_controller_of_def)
    from explained_bfd [OF assms(1) this]
    show "\<exists>rows. shown (bfd_exec cfg) (ran h) (cl_nb_command (sc_cluster cfg)) bfd_columns ''BFD'' [] rows \<and> (\<forall>r\<in>set rows. foreign_bfd (sp_gateway p) r)"
      by (auto simp: site_cluster_of_def intro: shown_mono)
  qed
qed

text \<open>
  A native object goes only with a plan that was read, while both switches are without endpoints; the finalizer only
  when, besides, no name of the topology and no owned BFD row is left.
\<close>

definition teardown_observed :: "k8s_lib \<Rightarrow> site_config \<Rightarrow> syshist \<Rightarrow> sys_req \<Rightarrow> bool" where
  "teardown_observed L cfg h x \<longleftrightarrow>
     (\<forall>y u rv. x = SysInfra (Delete y u rv) \<longrightarrow> (\<exists>p. sys_planned L cfg h p \<and> sys_drained cfg h p))
     \<and> (\<forall>v'. x = SysApi (Update (SVpc v')) \<longrightarrow> (\<exists>v. sys_seen h v \<and>
          (v' = v\<lparr>sv_meta := add_finalizer L (sv_meta v) site_finalizer\<rparr>
           \<or> v' = v\<lparr>sv_meta := remove_finalizer L (sv_meta v) site_finalizer\<rparr>
             \<and> (\<exists>p. sys_planned L cfg h p \<and> sys_drained cfg h p \<and> sys_names_gone cfg h p \<and> sys_bfd_gone cfg h p))))"

lemma sys_later:
  shows "sys_seen h v \<Longrightarrow> sys_seen (h @ t) v" and "sys_planned L cfg h p \<Longrightarrow> sys_planned L cfg (h @ t) p"
    and "sys_drained cfg h p \<Longrightarrow> sys_drained cfg (h @ t) p" and "sys_names_gone cfg h p \<Longrightarrow> sys_names_gone cfg (h @ t) p"
    and "sys_bfd_gone cfg h p \<Longrightarrow> sys_bfd_gone cfg (h @ t) p"
proof -
  have more: "set (ran h) \<subseteq> set (ran (h @ t))" by simp
  show seen: "sys_seen h v \<Longrightarrow> sys_seen (h @ t) v" for v by (auto simp: sys_seen_def)
  then show "sys_planned L cfg h p \<Longrightarrow> sys_planned L cfg (h @ t) p" by (auto simp: sys_planned_def)
  show "sys_drained cfg h p \<Longrightarrow> sys_drained cfg (h @ t) p" using switch_drained_mono [OF _ more] by (auto simp: sys_drained_def)
  show "sys_names_gone cfg h p \<Longrightarrow> sys_names_gone cfg (h @ t) p" using names_absent_mono [OF _ more] by (auto simp: sys_names_gone_def)
  show "sys_bfd_gone cfg h p \<Longrightarrow> sys_bfd_gone cfg (h @ t) p" using shown_mono [OF _ more] unfolding sys_bfd_gone_def by blast
qed

lemma contract_observed:
  assumes "site_process_contract L cfg interval h x"
  shows "teardown_observed L cfg h x"
proof -
  from assms obtain h0 t hist q where h: "h = h0 @ t" and on: "explains (site_handle cfg) h0 hist"
      and ok: "site_contract L (site_controller_of cfg interval) hist q" and x: "site_component cfg q t x"
    unfolding site_process_contract_def by blast
  have gone: "\<exists>p. sys_planned L cfg h p \<and> sys_drained cfg h p" if "x = SysInfra (Delete y u rv)" for y u rv
  proof -
    from that x have "q = SiteInfra (Delete y u rv)" by (cases q) auto
    with ok obtain p where "site_cleared L (site_controller_of cfg interval) hist p" "site_closing (site_controller_of cfg interval) hist p"
      by (cases y) auto
    from explained_closing [OF on this] show ?thesis unfolding h by (blast intro: sys_later)
  qed
  have final: "\<exists>v. sys_seen h v \<and> (v' = v\<lparr>sv_meta := add_finalizer L (sv_meta v) site_finalizer\<rparr>
      \<or> v' = v\<lparr>sv_meta := remove_finalizer L (sv_meta v) site_finalizer\<rparr>
        \<and> (\<exists>p. sys_planned L cfg h p \<and> sys_drained cfg h p \<and> sys_names_gone cfg h p \<and> sys_bfd_gone cfg h p))"
    if "x = SysApi (Update (SVpc v'))" for v'
  proof -
    from that x have "q = SiteApi (Update (SVpc v'))" by (cases q) auto
    with ok obtain v where v: "site_seen hist v" and v': "v' = v\<lparr>sv_meta := add_finalizer L (sv_meta v) site_finalizer\<rparr>
        \<or> v' = v\<lparr>sv_meta := remove_finalizer L (sv_meta v) site_finalizer\<rparr> \<and> (\<exists>p. site_cleared L (site_controller_of cfg interval) hist p
            \<and> site_removed (site_controller_of cfg interval) hist p)" by auto
    have "sys_planned L cfg h p \<and> sys_drained cfg h p \<and> sys_names_gone cfg h p \<and> sys_bfd_gone cfg h p"
      if "site_cleared L (site_controller_of cfg interval) hist p" "site_removed (site_controller_of cfg interval) hist p" for p
    proof -
      have "site_closing (site_controller_of cfg interval) hist p" using that(2) by (simp add: site_removed_def)
      with explained_closing [OF on that(1)] explained_removed [OF on that(2)] show ?thesis unfolding h by (simp add: sys_later)
    qed
    with v' sys_later(1) [OF explained_api [OF on v]] show ?thesis unfolding h by blast
  qed
  show ?thesis unfolding teardown_observed_def using gone final by blast
qed

section \<open>The properties\<close>

text \<open>
  The site controller as it is wired, with its OVN adapter and its gateway subprocess, obeys the contracts of its parts
  at every call, whatever the API servers, the databases and the backend answer: each call is one that the component
  behind an interface may make there (only the queries and the guarded writes of the adapter, only this request on
  the input of the configured gateway command), and the component was asked for something the ordering
  contract of the reconciler allows at a history of results that the calls so far explain.
\<close>

theorem site_process_guarded: "every_step (site_process_contract L cfg interval) (site_process L cfg interval ns name)"
  by (rule every_stepI [OF site_process_rule])

text \<open>
  C14: A site is taken apart on the evidence of the databases themselves: in every run of the wired controller, a
  native object is deleted only after commands of this pass have printed, for the tenant switch and for the transit switch,
  no row or only ports of routers and other zones; and the finalizer is removed only when, besides,
  commands have printed no row for each name of the topology, and, with several gateways, a BFD table
  in which no row is tagged with this owner.
\<close>

theorem site_teardown_observed: "every_step (teardown_observed L cfg) (site_process L cfg interval ns name)"
  by (rule every_stepI [OF always_mono [OF site_process_rule]]) (auto intro: contract_observed)

end
