(* ===== verification/Native_Routes.thy ===== *)
theory Native_Routes
  imports Destination_Route Kube_Client
begin

text \<open>
  \<open>integration/kube-ovn/overlay/pkg/ovs/ovn-nb-destination-route.go\<close>: the native writer of destination routes. A call
  reads the rows of the northbound database through the client library, computes what is missing and what is left over, and sends
  one transaction that starts with the waits guarding what was read. The client library is not part of the program: its
  calls are requests. A change that it translates into operations stands as one \<open>Change\<close>; the waits,
  which this code builds itself, are written out. The rows show the columns this code names; \<open>rt_other\<close> holds the remaining
  columns of a route, which \<open>reflect.DeepEqual\<close> compares too. A panic leaves the call like an error. The sessions, which
  are Go pointers into the slice that was read, are values; an update of one changes only its timers, which nobody
  reads again. New routes are created in the order of the intents; the Go map may visit them in another order.
\<close>

section \<open>Rows\<close>

record nb_route =
  rt_uuid :: string
  rt_prefix :: string
  rt_nexthop :: string
  rt_policy :: "string option"
  rt_table :: string
  rt_bfd :: "string option"
  rt_ids :: "string smap"
  rt_fields :: "string list"
  rt_options :: "string smap"
  rt_other :: "string smap"

record nb_bfd =
  fd_uuid :: string
  fd_port :: string
  fd_dst :: string
  fd_min_rx :: "int option"
  fd_min_tx :: "int option"
  fd_mult :: "int option"
  fd_ids :: "string smap"

record nb_port =
  pt_name :: string
  pt_networks :: "string list"
  pt_options :: "string smap"

record nb_router =
  lr_uuid :: string
  lr_name :: string
  lr_ports :: "string list"
  lr_routes :: "string list"

record nb_policy =
  po_uuid :: string
  po_sessions :: "string list"

text \<open>Constants of the packages \<open>util\<close> and \<open>v1\<close> of Kube-OVN.\<close>

record native_names =
  nn_vendor :: string
  nn_bfd_ecmp :: string
  nn_default_vpc :: string
  nn_policy_src :: string

section \<open>Operations and requests\<close>

datatype nb_value = VText string | VUuid string | VUuids "string list" | VMap "string smap"

datatype nb_change =
    CreateBfd nb_bfd
  | UpdateBfd nb_bfd
  | DeleteBfd nb_bfd
  | CreateRoute nb_route
  | UnlinkRoutes string "string list"
  | LinkRoutes string "string list"

text \<open>\<open>Wait\<close> has the table, the conditions, the columns, \<open>until\<close> and the rows.\<close>

datatype nb_op =
    Wait string "(string \<times> nb_value) list" "string list" string "(string \<times> nb_value) list list"
  | Change nb_change

fun is_wait :: "nb_op \<Rightarrow> bool" where
  "is_wait (Wait t w c u r) = True"
| "is_wait (Change x) = False"

datatype nb_req =
    GetRouter string bool
  | ListRoutes string "string smap"
  | FindBfd
  | GetPort string
  | NamedUuid
  | Prepare nb_change
  | ListAllRoutes
  | ListAllPolicies
  | ListRouters
  | Transact string "nb_op list"

datatype nb_resp =
    NbFailed err
  | NbRouter "nb_router option"
  | NbRoutes "nb_route list"
  | NbBfds "nb_bfd list"
  | NbPort nb_port
  | NbName string
  | NbPolicies "nb_policy list"
  | NbRouters "nb_router list"
  | NbDone

type_synonym 'a nprog = "(nb_req, nb_resp, err + 'a) prog"

definition nb_call :: "nb_req \<Rightarrow> (nb_resp \<Rightarrow> 'a option) \<Rightarrow> 'a nprog" where
  "nb_call q prj = Call q (\<lambda>y. case y of NbFailed e \<Rightarrow> leave e | _ \<Rightarrow> (case prj y of None \<Rightarrow> leave decode_error | Some a \<Rightarrow> go a))"

fun nb_router_of :: "nb_resp \<Rightarrow> nb_router option option" where
  "nb_router_of (NbRouter r) = Some r" | "nb_router_of y = None"
fun nb_routes_of :: "nb_resp \<Rightarrow> nb_route list option" where
  "nb_routes_of (NbRoutes r) = Some r" | "nb_routes_of y = None"
fun nb_bfds_of :: "nb_resp \<Rightarrow> nb_bfd list option" where
  "nb_bfds_of (NbBfds r) = Some r" | "nb_bfds_of y = None"
fun nb_port_of :: "nb_resp \<Rightarrow> nb_port option" where
  "nb_port_of (NbPort r) = Some r" | "nb_port_of y = None"
fun nb_name_of :: "nb_resp \<Rightarrow> string option" where
  "nb_name_of (NbName r) = Some r" | "nb_name_of y = None"
fun nb_policies_of :: "nb_resp \<Rightarrow> nb_policy list option" where
  "nb_policies_of (NbPolicies r) = Some r" | "nb_policies_of y = None"
fun nb_routers_of :: "nb_resp \<Rightarrow> nb_router list option" where
  "nb_routers_of (NbRouters r) = Some r" | "nb_routers_of y = None"
fun nb_done_of :: "nb_resp \<Rightarrow> unit option" where
  "nb_done_of NbDone = Some ()" | "nb_done_of y = None"

definition prepare :: "nb_change \<Rightarrow> nb_op list nprog" where
  "prepare x = nb_call (Prepare x) (\<lambda>y. case nb_done_of y of None \<Rightarrow> None | Some _ \<Rightarrow> Some [Change x])"

section \<open>Guards\<close>

definition bfd_only :: "nb_port \<Rightarrow> bool" where
  "bfd_only p \<longleftrightarrow> mget (pt_options p) ''bfd-only'' = ''true''"

definition note_router_port :: "string \<Rightarrow> string list \<times> bool \<Rightarrow> string \<Rightarrow> (string list \<times> bool) nprog" where
  "note_router_port bfd_port st u = (case st of (networks, found) \<Rightarrow>
     ebind (nb_call (GetPort u) nb_port_of) (\<lambda>p.
     go (if pt_name p = bfd_port then (networks, bfd_only p)
         else if \<not> bfd_only p then (networks @ pt_networks p, found) else (networks, found))))"

text \<open>A prefix, or an address as the prefix of one host.\<close>

definition route_prefix :: "string \<Rightarrow> prefix option" where
  "route_prefix raw = (case parse_prefix raw of
      Some p \<Rightarrow> Some p
    | None \<Rightarrow> (case parse_addr raw of Some a \<Rightarrow> Some (prefix_from a (bit_len a)) | None \<Rightarrow> None))"

definition at_or_within :: "prefix \<Rightarrow> prefix \<Rightarrow> bool" where
  "at_or_within dst p \<longleftrightarrow> overlaps dst p \<and> p_bits dst \<le> p_bits p"

definition row_owned :: "string \<Rightarrow> string smap \<Rightarrow> bool" where
  "row_owned owner ids \<longleftrightarrow> mget ids dest_owner_key = owner"

definition foreign_conflict :: "string \<Rightarrow> prefix \<Rightarrow> nb_route \<Rightarrow> bool" where
  "foreign_conflict owner dst old \<longleftrightarrow> \<not> row_owned owner (rt_ids old) \<and> (case route_prefix (rt_prefix old) of
      None \<Rightarrow> False
    | Some p \<Rightarrow> rt_table old = [] \<and> rt_policy old \<in> {None, Some ''dst-ip''} \<and> at_or_within dst p)"

definition connected_overlap :: "prefix \<Rightarrow> string \<Rightarrow> bool" where
  "connected_overlap dst raw \<longleftrightarrow> (case parse_prefix raw of None \<Rightarrow> False | Some c \<Rightarrow> overlaps c dst)"

definition admit_route :: "string \<Rightarrow> string list \<Rightarrow> nb_route list \<Rightarrow> intent \<Rightarrow> unit res" where
  "admit_route owner networks current r = (case parse_prefix (in_cidr r) of
      None \<Rightarrow> Inl ''panic: MustParsePrefix''
    | Some dst \<Rightarrow>
        rbind (guard (\<not> list_ex (connected_overlap dst) networks) ''destination overlaps a connected network'') (\<lambda>_.
        guard (\<not> list_ex (foreign_conflict owner dst) current) ''destination conflicts with a foreign static route''))"

definition admit_plan :: "string \<Rightarrow> string \<Rightarrow> nb_router \<Rightarrow> nb_route list \<Rightarrow> dest_plan \<Rightarrow> unit nprog" where
  "admit_plan owner bfd_port lr current plan =
     ebind (efold (note_router_port bfd_port) ([], False) (lr_ports lr)) (\<lambda>(networks, found).
     if \<not> found then leave (Errorf ''dedicated native BFD port is not ready'')
     else if \<not> list_all (\<lambda>hop. reachable_gateway hop networks) (map fst (dp_sessions plan))
     then leave (Errorf ''destination gateway is not directly connected'')
     else lift_res Errorf (each_res (admit_route owner networks current) (dp_routes plan)))"

section \<open>Waits\<close>

definition destination_wait :: "string \<Rightarrow> string \<Rightarrow> nb_value \<Rightarrow> string \<Rightarrow> nb_value \<Rightarrow> nb_op" where
  "destination_wait table key v column expected = Wait table [(key, v)] [column] ''=='' [[(column, expected)]]"

definition destination_bfd_wait :: "string \<Rightarrow> string \<Rightarrow> nb_bfd option \<Rightarrow> nb_op" where
  "destination_bfd_wait port hop existing =
     (let tuple = [(''logical_port'', VText port), (''dst_ip'', VText hop)] in
      case existing of
        None \<Rightarrow> Wait ''BFD'' tuple [''logical_port'', ''dst_ip''] ''!='' [tuple]
      | Some b \<Rightarrow> Wait ''BFD'' tuple [''_uuid'', ''external_ids''] ''=='' [[(''_uuid'', VUuid (fd_uuid b)), (''external_ids'', VMap (fd_ids b))]])"

definition router_wait :: "nb_router \<Rightarrow> nb_op" where
  "router_wait lr = destination_wait ''Logical_Router'' ''_uuid'' (VUuid (lr_uuid lr)) ''static_routes'' (VUuids (lr_routes lr))"

definition route_ids_wait :: "nb_route \<Rightarrow> nb_op" where
  "route_ids_wait r = destination_wait ''Logical_Router_Static_Route'' ''_uuid'' (VUuid (rt_uuid r)) ''external_ids'' (VMap (rt_ids r))"

definition bfd_ids_wait :: "nb_bfd \<Rightarrow> nb_op" where
  "bfd_ids_wait b = destination_wait ''BFD'' ''_uuid'' (VUuid (fd_uuid b)) ''external_ids'' (VMap (fd_ids b))"

section \<open>Sessions\<close>

definition note_session :: "string \<Rightarrow> string \<Rightarrow> dest_plan \<Rightarrow> nb_bfd smap \<Rightarrow> nb_bfd \<Rightarrow> nb_bfd smap res" where
  "note_session owner bfd_port plan by_hop b =
     (if fd_port b \<noteq> bfd_port \<or> map_of (dp_sessions plan) (fd_dst b) = None then Inr by_hop
      else if \<not> row_owned owner (fd_ids b) \<or> map_of by_hop (fd_dst b) \<noteq> None then Inl ''destination BFD tuple is foreign or duplicated''
      else Inr (mput (fd_dst b) b by_hop))"

definition new_session :: "native_names \<Rightarrow> string \<Rightarrow> string \<Rightarrow> string \<Rightarrow> string \<Rightarrow> dest_bfd \<Rightarrow> nb_bfd" where
  "new_session N owner bfd_port name hop t =
     \<lparr>fd_uuid = name, fd_port = bfd_port, fd_dst = hop, fd_min_rx = Some (db_min_rx t), fd_min_tx = Some (db_min_tx t),
      fd_mult = Some (db_multiplier t), fd_ids = [(''vendor'', nn_vendor N), (dest_owner_key, owner)]\<rparr>"

definition set_timers :: "nb_bfd \<Rightarrow> dest_bfd \<Rightarrow> nb_bfd" where
  "set_timers b t = b\<lparr>fd_min_rx := Some (db_min_rx t), fd_min_tx := Some (db_min_tx t), fd_mult := Some (db_multiplier t)\<rparr>"

definition has_timers :: "nb_bfd \<Rightarrow> dest_bfd \<Rightarrow> bool" where
  "has_timers b t \<longleftrightarrow> fd_min_rx b = Some (db_min_rx t) \<and> fd_min_tx b = Some (db_min_tx t) \<and> fd_mult b = Some (db_multiplier t)"

text \<open>The state of the loop: the operations so far, \<open>byHop\<close> and \<open>wantedBFD\<close>.\<close>

type_synonym session_state = "nb_op list \<times> nb_bfd smap \<times> string list"

definition ensure_session :: "native_names \<Rightarrow> string \<Rightarrow> string \<Rightarrow> session_state \<Rightarrow> string \<times> dest_bfd \<Rightarrow> session_state nprog" where
  "ensure_session N owner bfd_port st s = (case st of (ops, by_hop, wanted) \<Rightarrow> case s of (hop, t) \<Rightarrow>
     (case map_of by_hop hop of
        None \<Rightarrow>
          ebind (nb_call NamedUuid nb_name_of) (\<lambda>name.
          let b = new_session N owner bfd_port name hop t in
          ebind (prepare (CreateBfd b)) (\<lambda>new_ops.
          go (ops @ destination_bfd_wait bfd_port hop None # new_ops, mput hop b by_hop, name # wanted)))
      | Some old \<Rightarrow>
          let ops' = ops @ [destination_bfd_wait bfd_port hop (Some old)]; wanted' = fd_uuid old # wanted in
          if has_timers old t then go (ops', by_hop, wanted')
          else ebind (prepare (UpdateBfd (set_timers old t))) (\<lambda>new_ops.
            go (ops' @ bfd_ids_wait old # new_ops, mput hop (set_timers old t) by_hop, wanted'))))"

section \<open>Routes\<close>

definition destination_route_key :: "nb_route \<Rightarrow> string" where
  "destination_route_key r = rt_prefix r @ ''|'' @ rt_nexthop r"

definition destination_route_equal :: "nb_route \<Rightarrow> nb_route \<Rightarrow> bool" where
  "destination_route_equal a b \<longleftrightarrow>
     rt_prefix a = rt_prefix b \<and> rt_nexthop a = rt_nexthop b \<and> rt_policy a = rt_policy b \<and> rt_table a = rt_table b \<and> rt_bfd a = rt_bfd b
     \<and> same_map (rt_ids a) (rt_ids b) \<and> sort_strings (rt_fields a) = sort_strings (rt_fields b)
     \<and> same_map (rt_options a) (rt_options b) \<and> same_map (rt_other a) (rt_other b)"

definition intent_ids :: "native_names \<Rightarrow> string \<Rightarrow> intent \<Rightarrow> string smap" where
  "intent_ids N owner r = [(''vendor'', nn_vendor N), (dest_owner_key, owner), (dest_route_key, in_cidr r)]"

definition guard_route :: "native_names \<Rightarrow> string \<Rightarrow> intent \<Rightarrow> nb_route" where
  "guard_route N owner r =
     \<lparr>rt_uuid = [], rt_prefix = in_cidr r, rt_nexthop = ''discard'', rt_policy = Some ''dst-ip'', rt_table = [], rt_bfd = None,
      rt_ids = intent_ids N owner r, rt_fields = [], rt_options = [], rt_other = []\<rparr>"

definition hop_route :: "native_names \<Rightarrow> string \<Rightarrow> intent \<Rightarrow> string \<Rightarrow> string \<Rightarrow> string \<Rightarrow> nb_route" where
  "hop_route N owner r child hop bfd =
     \<lparr>rt_uuid = [], rt_prefix = child, rt_nexthop = hop, rt_policy = Some ''dst-ip'', rt_table = [], rt_bfd = Some bfd,
      rt_ids = intent_ids N owner r, rt_fields = in_selection_fields r, rt_options = [(nn_bfd_ecmp N, ''true'')], rt_other = []\<rparr>"

definition put_route :: "nb_route smap \<Rightarrow> nb_route \<Rightarrow> nb_route smap" where
  "put_route m r = mput (destination_route_key r) r m"

definition want_hop :: "native_names \<Rightarrow> string \<Rightarrow> nb_bfd smap \<Rightarrow> intent \<Rightarrow> string \<Rightarrow> nb_route smap \<Rightarrow> string \<Rightarrow> nb_route smap res" where
  "want_hop N owner by_hop r child m hop = (case map_of by_hop hop of
      None \<Rightarrow> Inl ''panic: nil pointer''
    | Some b \<Rightarrow> Inr (put_route m (hop_route N owner r child hop (fd_uuid b))))"

definition want_intent :: "native_names \<Rightarrow> string \<Rightarrow> nb_bfd smap \<Rightarrow> nb_route smap \<Rightarrow> intent \<Rightarrow> nb_route smap res" where
  "want_intent N owner by_hop m r = (case children (in_cidr r) of
      None \<Rightarrow> Inl ''panic: MustParsePrefix''
    | Some (a, b) \<Rightarrow> foldr_res (\<lambda>m child. foldr_res (want_hop N owner by_hop r child) m (in_next_hops r))
        (put_route m (guard_route N owner r)) [a, b])"

text \<open>The rows that are there: what is wanted stays, the rest is guarded and unlinked.\<close>

definition sift_route :: "string \<Rightarrow> nb_op list \<times> string list \<times> nb_route smap \<Rightarrow> nb_route \<Rightarrow> nb_op list \<times> string list \<times> nb_route smap" where
  "sift_route owner st old = (case st of (ops, dels, desired) \<Rightarrow>
     if \<not> row_owned owner (rt_ids old) then (ops, dels, desired)
     else let key = destination_route_key old; drop_old = (ops @ [route_ids_wait old], dels @ [rt_uuid old], desired) in
       case map_of desired key of
         Some want \<Rightarrow> if destination_route_equal old want then (ops, dels, filter (\<lambda>(k, _). k \<noteq> key) desired) else drop_old
       | None \<Rightarrow> drop_old)"

definition create_route :: "nb_op list \<times> string list \<Rightarrow> nb_route \<Rightarrow> (nb_op list \<times> string list) nprog" where
  "create_route st r = (case st of (ops, adds) \<Rightarrow>
     ebind (nb_call NamedUuid nb_name_of) (\<lambda>name.
     ebind (prepare (CreateRoute (r\<lparr>rt_uuid := name\<rparr>))) (\<lambda>new_ops. go (ops @ new_ops, adds @ [name]))))"

definition change_links :: "(string list \<Rightarrow> nb_change) \<Rightarrow> string list \<Rightarrow> nb_op list \<Rightarrow> nb_op list nprog" where
  "change_links f ids ops = (if ids = [] then go ops else ebind (prepare (f ids)) (\<lambda>new_ops. go (ops @ new_ops)))"

section \<open>Sessions that are left over\<close>

definition retire_session :: "string \<Rightarrow> string list \<Rightarrow> string list \<Rightarrow> nb_route list \<Rightarrow> nb_policy list \<Rightarrow> nb_op list \<Rightarrow> nb_bfd \<Rightarrow> nb_op list nprog" where
  "retire_session owner wanted dels routes policies ops b =
     (if \<not> row_owned owner (fd_ids b) \<or> fd_uuid b \<in> set wanted then go ops
      else if list_ex (\<lambda>r. rt_bfd r = Some (fd_uuid b) \<and> rt_uuid r \<notin> set dels) routes
      then leave (Errorf ''obsolete destination BFD has another route consumer'')
      else if list_ex (\<lambda>p. fd_uuid b \<in> set (po_sessions p)) policies
      then leave (Errorf ''obsolete destination BFD has a policy consumer'')
      else ebind (prepare (DeleteBfd b)) (\<lambda>new_ops. go (ops @ bfd_ids_wait b # new_ops)))"

section \<open>The call\<close>

definition read_routes :: "string \<Rightarrow> nb_router option \<Rightarrow> nb_route list nprog" where
  "read_routes router lr = (case lr of None \<Rightarrow> go [] | Some _ \<Rightarrow> nb_call (ListRoutes router []) nb_routes_of)"

definition admit :: "string \<Rightarrow> string \<Rightarrow> nb_router option \<Rightarrow> nb_route list \<Rightarrow> dest_plan \<Rightarrow> unit nprog" where
  "admit owner bfd_port lr current plan = (case lr of
      None \<Rightarrow> go ()
    | Some r \<Rightarrow> if dp_routes plan = [] then go () else admit_plan owner bfd_port r current plan)"

definition first_wait :: "nb_router option \<Rightarrow> nb_op list" where
  "first_wait lr = (case lr of None \<Rightarrow> [] | Some r \<Rightarrow> [router_wait r])"

definition send :: "nb_op list \<Rightarrow> unit nprog" where
  "send ops = (if list_all is_wait ops then go () else nb_call (Transact ''vpc-destination-routes'' ops) nb_done_of)"

definition apply_routes :: "string \<Rightarrow> string \<Rightarrow> nb_route list \<Rightarrow> nb_bfd list \<Rightarrow> nb_route smap \<Rightarrow> nb_op list \<Rightarrow> string list \<Rightarrow> unit nprog" where
  "apply_routes router owner current sessions desired ops wanted =
     (case foldl (sift_route owner) (ops, [], desired) current of (ops1, dels, missing) \<Rightarrow>
      ebind (efold create_route (ops1, []) (map snd missing)) (\<lambda>(ops2, adds).
      ebind (change_links (UnlinkRoutes router) dels ops2) (\<lambda>ops3.
      ebind (change_links (LinkRoutes router) adds ops3) (\<lambda>ops4.
      ebind (nb_call ListAllRoutes nb_routes_of) (\<lambda>routes.
      ebind (nb_call ListAllPolicies nb_policies_of) (\<lambda>policies.
      ebind (efold (retire_session owner wanted dels routes policies) ops4 sessions) (\<lambda>ops5.
      send ops5)))))))"

definition reconcile_routes :: "native_names \<Rightarrow> string \<Rightarrow> string \<Rightarrow> string \<Rightarrow> dest_plan \<Rightarrow> unit nprog" where
  "reconcile_routes N router owner bfd_port plan =
     (if owner = [] then leave (Errorf ''destination routes require VPC UID'')
      else ebind (nb_call (GetRouter router True) nb_router_of) (\<lambda>lr.
      if lr = None \<and> dp_routes plan \<noteq> [] then leave (Errorf ''destination router absent'')
      else ebind (read_routes router lr) (\<lambda>current.
      ebind (nb_call FindBfd nb_bfds_of) (\<lambda>sessions.
      ebind (admit owner bfd_port lr current plan) (\<lambda>_.
      ebind (lift_res Errorf (foldr_res (note_session owner bfd_port plan) [] sessions)) (\<lambda>by_hop.
      ebind (efold (ensure_session N owner bfd_port) (first_wait lr, by_hop, []) (dp_sessions plan)) (\<lambda>(ops, by_hop, wanted).
      ebind (lift_res Errorf (foldr_res (want_intent N owner by_hop) [] (dp_routes plan))) (\<lambda>desired.
      apply_routes router owner current sessions desired ops wanted))))))))"

end
