(* ===== verification/Native_Commit.thy ===== *)
theory Native_Commit
  imports Native_Routes Api_Steady
begin

text \<open>
  The northbound database as the writer of destination routes relies on it (RFC 7047): a transaction takes its operations in order, a
  \<open>wait\<close> that does not hold aborts all of it, and at the end rows of a non-root table that nobody refers to are
  collected, weak references to removed rows are cleared and the index of the BFD table is checked. The lemmas show what
  a guarded transaction leaves alone in every database, also one that changed since it was read.
\<close>

section \<open>Tables\<close>

record nb_db =
  nb_routers :: "nb_router list"
  nb_routes :: "nb_route list"
  nb_bfds :: "nb_bfd list"
  nb_policies :: "nb_policy list"

type_synonym nb_row = "(string \<times> nb_value) list"

definition router_row :: "nb_router \<Rightarrow> nb_row" where
  "router_row lr = [(''_uuid'', VUuid (lr_uuid lr)), (''name'', VText (lr_name lr)), (''static_routes'', VUuids (lr_routes lr))]"

definition route_row :: "nb_route \<Rightarrow> nb_row" where
  "route_row r = [(''_uuid'', VUuid (rt_uuid r)), (''ip_prefix'', VText (rt_prefix r)), (''nexthop'', VText (rt_nexthop r)), (''external_ids'', VMap (rt_ids r))]"

definition bfd_row :: "nb_bfd \<Rightarrow> nb_row" where
  "bfd_row b = [(''_uuid'', VUuid (fd_uuid b)), (''logical_port'', VText (fd_port b)), (''dst_ip'', VText (fd_dst b)), (''external_ids'', VMap (fd_ids b))]"

definition nb_table_rows :: "nb_db \<Rightarrow> string \<Rightarrow> nb_row list" where
  "nb_table_rows db t = (if t = ''Logical_Router'' then map router_row (nb_routers db)
     else if t = ''Logical_Router_Static_Route'' then map route_row (nb_routes db)
     else if t = ''BFD'' then map bfd_row (nb_bfds db) else [])"

section \<open>Waits\<close>

text \<open>Sets and maps have no order.\<close>

fun same_value :: "nb_value \<Rightarrow> nb_value \<Rightarrow> bool" where
  "same_value (VText a) (VText b) = (a = b)"
| "same_value (VUuid a) (VUuid b) = (a = b)"
| "same_value (VUuids a) (VUuids b) = (set a = set b)"
| "same_value (VMap a) (VMap b) = same_map a b"
| "same_value a b = False"

definition same_cell :: "nb_row \<Rightarrow> nb_row \<Rightarrow> string \<Rightarrow> bool" where
  "same_cell r x c = (case (map_of r c, map_of x c) of (Some a, Some b) \<Rightarrow> same_value a b | _ \<Rightarrow> False)"

definition same_rows :: "string list \<Rightarrow> nb_row list \<Rightarrow> nb_row list \<Rightarrow> bool" where
  "same_rows columns found rows \<longleftrightarrow>
     list_all (\<lambda>r. list_ex (\<lambda>x. list_all (same_cell r x) columns) rows) found
     \<and> list_all (\<lambda>x. list_ex (\<lambda>r. list_all (same_cell r x) columns) found) rows"

definition wait_holds :: "nb_db \<Rightarrow> string \<Rightarrow> nb_row \<Rightarrow> string list \<Rightarrow> string \<Rightarrow> nb_row list \<Rightarrow> bool" where
  "wait_holds db t w columns until rows =
     (let same = same_rows columns (filter (\<lambda>r. list_all (same_cell r w) (map fst w)) (nb_table_rows db t)) rows
      in if until = ''=='' then same else until = ''!='' \<and> \<not> same)"

section \<open>Changes\<close>

definition change_router :: "string \<Rightarrow> (string list \<Rightarrow> string list) \<Rightarrow> nb_router \<Rightarrow> nb_router" where
  "change_router name f lr = (if lr_name lr = name then lr\<lparr>lr_routes := f (lr_routes lr)\<rparr> else lr)"

definition copy_timers :: "nb_bfd \<Rightarrow> nb_bfd \<Rightarrow> nb_bfd" where
  "copy_timers b x = (if fd_uuid x = fd_uuid b then x\<lparr>fd_min_rx := fd_min_rx b, fd_min_tx := fd_min_tx b, fd_mult := fd_mult b\<rparr> else x)"

fun apply_change :: "nb_change \<Rightarrow> nb_db \<Rightarrow> nb_db option" where
  "apply_change (CreateBfd b) db = (if fd_uuid b \<in> fd_uuid ` set (nb_bfds db) then None else Some (db\<lparr>nb_bfds := nb_bfds db @ [b]\<rparr>))"
| "apply_change (UpdateBfd b) db = Some (db\<lparr>nb_bfds := map (copy_timers b) (nb_bfds db)\<rparr>)"
| "apply_change (DeleteBfd b) db = Some (db\<lparr>nb_bfds := filter (\<lambda>x. fd_uuid x \<noteq> fd_uuid b) (nb_bfds db)\<rparr>)"
| "apply_change (CreateRoute r) db = (if rt_uuid r \<in> rt_uuid ` set (nb_routes db) then None else Some (db\<lparr>nb_routes := nb_routes db @ [r]\<rparr>))"
| "apply_change (UnlinkRoutes name ids) db = Some (db\<lparr>nb_routers := map (change_router name (filter (\<lambda>u. u \<notin> set ids))) (nb_routers db)\<rparr>)"
| "apply_change (LinkRoutes name ids) db = Some (db\<lparr>nb_routers := map (change_router name (\<lambda>us. us @ filter (\<lambda>u. u \<notin> set us) ids)) (nb_routers db)\<rparr>)"

fun apply_op :: "nb_db \<Rightarrow> nb_op \<Rightarrow> nb_db option" where
  "apply_op db (Wait t w c u r) = (if wait_holds db t w c u r then Some db else None)"
| "apply_op db (Change x) = apply_change x db"

primrec apply_ops :: "nb_op list \<Rightarrow> nb_db \<Rightarrow> nb_db option" where
  "apply_ops [] db = Some db"
| "apply_ops (x # xs) db = (case apply_op db x of None \<Rightarrow> None | Some db' \<Rightarrow> apply_ops xs db')"

section \<open>The end of a transaction\<close>

definition linked_ids :: "nb_db \<Rightarrow> string set" where
  "linked_ids db = (\<Union>lr\<in>set (nb_routers db). set (lr_routes lr))"

definition clear_weak :: "string set \<Rightarrow> nb_route \<Rightarrow> nb_route" where
  "clear_weak live r = (case rt_bfd r of None \<Rightarrow> r | Some u \<Rightarrow> if u \<in> live then r else r\<lparr>rt_bfd := None\<rparr>)"

definition clean_up :: "nb_db \<Rightarrow> nb_db" where
  "clean_up db = db\<lparr>nb_routes := map (clear_weak (fd_uuid ` set (nb_bfds db))) (filter (\<lambda>r. rt_uuid r \<in> linked_ids db) (nb_routes db)),
     nb_policies := map (\<lambda>p. p\<lparr>po_sessions := filter (\<lambda>u. u \<in> fd_uuid ` set (nb_bfds db)) (po_sessions p)\<rparr>) (nb_policies db)\<rparr>"

definition indexed :: "nb_db \<Rightarrow> bool" where
  "indexed db \<longleftrightarrow> distinct (map (\<lambda>b. (fd_port b, fd_dst b)) (nb_bfds db)) \<and> linked_ids db \<subseteq> rt_uuid ` set (nb_routes db)"

definition commit :: "nb_op list \<Rightarrow> nb_db \<Rightarrow> nb_db option" where
  "commit ops db = (case apply_ops ops db of None \<Rightarrow> None | Some db' \<Rightarrow> if indexed db' then Some (clean_up db') else None)"

lemma apply_ops_append: "apply_ops (xs @ ys) db = (case apply_ops xs db of None \<Rightarrow> None | Some db' \<Rightarrow> apply_ops ys db')"
  by (induction xs arbitrary: db) (auto split: option.splits)

lemma wait_keeps_db: "is_wait x \<Longrightarrow> apply_op db x = Some db' \<Longrightarrow> db' = db"
  by (cases x) (auto split: if_splits)

section \<open>What the waits of the writer say\<close>

lemma found_by_uuid [simp]:
  "same_cell (router_row lr) [(''_uuid'', VUuid u)] ''_uuid'' \<longleftrightarrow> lr_uuid lr = u"
  "same_cell (route_row r) [(''_uuid'', VUuid u)] ''_uuid'' \<longleftrightarrow> rt_uuid r = u"
  "same_cell (bfd_row b) [(''_uuid'', VUuid u)] ''_uuid'' \<longleftrightarrow> fd_uuid b = u"
  by (simp_all add: same_cell_def router_row_def route_row_def bfd_row_def)

lemma same_rows_single: "same_rows columns found [x] \<longleftrightarrow> found \<noteq> [] \<and> (\<forall>r\<in>set found. list_all (same_cell r x) columns)"
  by (cases found) (auto simp: same_rows_def list_all_iff list_ex_iff)

lemmas wait_simps = destination_wait_def wait_holds_def nb_table_rows_def same_rows_single filter_map comp_def filter_empty_conv

lemma router_wait_holds:
  "apply_op db (router_wait lr) = (if (\<exists>x\<in>set (nb_routers db). lr_uuid x = lr_uuid lr)
      \<and> (\<forall>x\<in>set (nb_routers db). lr_uuid x = lr_uuid lr \<longrightarrow> set (lr_routes x) = set (lr_routes lr)) then Some db else None)"
proof -
  have "same_cell (router_row x) [(''static_routes'', VUuids us)] ''static_routes'' \<longleftrightarrow> set (lr_routes x) = set us" for x us
    by (simp add: same_cell_def router_row_def)
  then show ?thesis by (simp add: router_wait_def wait_simps)
qed

lemma route_ids_wait_holds:
  "apply_op db (route_ids_wait r) = (if (\<exists>x\<in>set (nb_routes db). rt_uuid x = rt_uuid r)
      \<and> (\<forall>x\<in>set (nb_routes db). rt_uuid x = rt_uuid r \<longrightarrow> same_map (rt_ids x) (rt_ids r)) then Some db else None)"
proof -
  have "same_cell (route_row x) [(''external_ids'', VMap m)] ''external_ids'' \<longleftrightarrow> same_map (rt_ids x) m" for x m
    by (simp add: same_cell_def route_row_def)
  then show ?thesis by (simp add: route_ids_wait_def wait_simps)
qed

lemma bfd_ids_wait_holds:
  "apply_op db (bfd_ids_wait b) = (if (\<exists>x\<in>set (nb_bfds db). fd_uuid x = fd_uuid b)
      \<and> (\<forall>x\<in>set (nb_bfds db). fd_uuid x = fd_uuid b \<longrightarrow> same_map (fd_ids x) (fd_ids b)) then Some db else None)"
proof -
  have "same_cell (bfd_row x) [(''external_ids'', VMap m)] ''external_ids'' \<longleftrightarrow> same_map (fd_ids x) m" for x m
    by (simp add: same_cell_def bfd_row_def)
  then show ?thesis by (simp add: bfd_ids_wait_def wait_simps)
qed

lemma found_by_tuple [simp]:
  "same_cell (bfd_row b) [(''logical_port'', VText p), (''dst_ip'', VText d)] ''logical_port'' \<longleftrightarrow> fd_port b = p"
  "same_cell (bfd_row b) [(''logical_port'', VText p), (''dst_ip'', VText d)] ''dst_ip'' \<longleftrightarrow> fd_dst b = d"
  by (simp_all add: same_cell_def bfd_row_def)

lemma found_by_identity [simp]:
  "same_cell (bfd_row b) [(''_uuid'', VUuid u), (''external_ids'', VMap m)] ''_uuid'' \<longleftrightarrow> fd_uuid b = u"
  "same_cell (bfd_row b) [(''_uuid'', VUuid u), (''external_ids'', VMap m)] ''external_ids'' \<longleftrightarrow> same_map (fd_ids b) m"
  by (simp_all add: same_cell_def bfd_row_def)

lemma bfd_absent_holds:
  "apply_op db (destination_bfd_wait p d None) = (if \<exists>b\<in>set (nb_bfds db). fd_port b = p \<and> fd_dst b = d then None else Some db)"
  by (auto simp: destination_bfd_wait_def Let_def wait_simps)

lemma bfd_present_holds:
  "apply_op db (destination_bfd_wait p d (Some x)) = (if (\<exists>b\<in>set (nb_bfds db). fd_port b = p \<and> fd_dst b = d)
      \<and> (\<forall>b\<in>set (nb_bfds db). fd_port b = p \<and> fd_dst b = d \<longrightarrow> fd_uuid b = fd_uuid x \<and> same_map (fd_ids b) (fd_ids x)) then Some db else None)"
  by (auto simp: destination_bfd_wait_def Let_def wait_simps)

end
