(* ===== verification/Native_Honest.thy ===== *)
theory Native_Honest
  imports Native_Commit
begin

text \<open>
  Runs in which the reads tell the truth about one database: \<open>snapshot db h\<close> says that every answer in \<open>h\<close> that is no
  failure is what \<open>db\<close> says, and that the names for new rows are fresh. The rules below derive what holds in every
  such run.
\<close>

section \<open>Truthful answers\<close>

definition linked_routes :: "nb_db \<Rightarrow> string \<Rightarrow> nb_route list" where
  "linked_routes db router = filter (\<lambda>r. \<exists>lr\<in>set (nb_routers db). lr_name lr = router \<and> rt_uuid r \<in> set (lr_routes lr)) (nb_routes db)"

definition tagged :: "string smap \<Rightarrow> string smap \<Rightarrow> bool" where
  "tagged tags ids \<longleftrightarrow> list_all (\<lambda>(k, v). map_of ids k = Some v) tags"

definition db_uuids :: "nb_db \<Rightarrow> string set" where
  "db_uuids db = lr_uuid ` set (nb_routers db) \<union> rt_uuid ` set (nb_routes db) \<union> fd_uuid ` set (nb_bfds db)"

fun tells :: "nb_db \<Rightarrow> nb_req \<Rightarrow> nb_resp \<Rightarrow> bool" where
  "tells db q (NbFailed e) = True"
| "tells db (GetRouter n b) (NbRouter r) = (r = find (\<lambda>lr. lr_name lr = n) (nb_routers db))"
| "tells db (ListRoutes n tags) (NbRoutes rs) = (rs = filter (\<lambda>r. tagged tags (rt_ids r)) (linked_routes db n))"
| "tells db FindBfd (NbBfds bs) = (bs = nb_bfds db)"
| "tells db ListAllRoutes (NbRoutes rs) = (rs = nb_routes db)"
| "tells db ListAllPolicies (NbPolicies ps) = (ps = nb_policies db)"
| "tells db NamedUuid (NbName n) = (n \<notin> db_uuids db)"
| "tells db q y = True"

type_synonym nb_hist = "(nb_req \<times> nb_resp) list"

fun name_given :: "nb_req \<times> nb_resp \<Rightarrow> string list" where
  "name_given (NamedUuid, NbName n) = [n]"
| "name_given x = []"

definition names :: "nb_hist \<Rightarrow> string list" where
  "names h = concat (map name_given h)"

definition snapshot :: "nb_db \<Rightarrow> nb_hist \<Rightarrow> bool" where
  "snapshot db h \<longleftrightarrow> (\<forall>(q, y)\<in>set h. tells db q y) \<and> distinct (names h)"

lemma names_simps [simp]: "names [] = []" "names (x # h) = name_given x @ names h" "names (h @ h') = names h @ names h'"
  by (simp_all add: names_def)

lemma snapshot_snoc [simp]: "snapshot db (h @ [(q, y)]) \<longleftrightarrow> snapshot db h \<and> tells db q y \<and> distinct (names h @ name_given (q, y))"
  by (auto simp: snapshot_def)

section \<open>What holds in every such run\<close>

text \<open>\<open>honest db G p h I\<close>: from \<open>h\<close> on, every request satisfies \<open>G\<close>, and every result that is no error satisfies \<open>I\<close>.\<close>

definition honest :: "nb_db \<Rightarrow> (nb_req \<Rightarrow> bool) \<Rightarrow> 'a nprog \<Rightarrow> nb_hist \<Rightarrow> (nb_hist \<Rightarrow> 'a \<Rightarrow> bool) \<Rightarrow> bool" where
  "honest db G p h I \<longleftrightarrow> always (\<lambda>h q. snapshot db h \<longrightarrow> G q) p (\<lambda>h y. snapshot db h \<longrightarrow> (case y of Inl e \<Rightarrow> True | Inr a \<Rightarrow> I h a)) h"

named_theorems honesty

lemma not_snapshot: "\<not> snapshot db h \<Longrightarrow> always (\<lambda>h q. snapshot db h \<longrightarrow> G q) p (\<lambda>h y. snapshot db h \<longrightarrow> Q h y) h"
  by (induction p arbitrary: h) auto

lemma honest_go [honesty]: "(snapshot db h \<Longrightarrow> I h a) \<Longrightarrow> honest db G (go a) h I"
  and honest_leave [honesty]: "honest db G (leave e) h I"
  and honest_lift [honesty]: "(\<And>a. snapshot db h \<Longrightarrow> m = Inr a \<Longrightarrow> I h a) \<Longrightarrow> honest db G (lift_res g m) h I"
  by (auto simp: honest_def split: sum.split)

lemma honest_bind:
  assumes "honest db G p h J" and "\<And>h a. snapshot db h \<Longrightarrow> J h a \<Longrightarrow> honest db G (f a) h I"
  shows "honest db G (ebind p f) h I"
  using assms(1) unfolding honest_def always_ebind
proof (rule always_mono)
  fix h' :: nb_hist and y :: "err + 'a"
  assume y: "snapshot db h' \<longrightarrow> (case y of Inl e \<Rightarrow> True | Inr a \<Rightarrow> J h' a)"
  show "case y of Inl e \<Rightarrow> snapshot db h' \<longrightarrow> (case Inl e of Inl e \<Rightarrow> True | Inr a \<Rightarrow> I h' a)
      | Inr a \<Rightarrow> always (\<lambda>h q. snapshot db h \<longrightarrow> G q) (f a) (\<lambda>h y. snapshot db h \<longrightarrow> (case y of Inl e \<Rightarrow> True | Inr a \<Rightarrow> I h a)) h'"
  proof (cases y)
    case (Inr a)
    show ?thesis
    proof (cases "snapshot db h'")
      case True
      with y Inr assms(2) [of h' a] show ?thesis by (simp add: honest_def)
    qed (simp add: Inr not_snapshot)
  qed simp
qed

lemma honest_pure [honesty]: "(\<And>a. snapshot db h \<Longrightarrow> m = Inr a \<Longrightarrow> honest db G (f a) h I) \<Longrightarrow> honest db G (ebind (lift_res g m) f) h I"
  by (rule honest_bind [OF honest_lift, where J = "\<lambda>h' a. h' = h \<and> m = Inr a"]) auto

lemma honest_call:
  assumes "snapshot db h \<Longrightarrow> G q"
    and "\<And>y a. prj y = Some a \<Longrightarrow> tells db q y \<Longrightarrow> distinct (names h @ name_given (q, y)) \<Longrightarrow> snapshot db (h @ [(q, y)])
      \<Longrightarrow> honest db G (f a) (h @ [(q, y)]) I"
  shows "honest db G (ebind (nb_call q prj) f) h I"
proof -
  have "always (\<lambda>h q. snapshot db h \<longrightarrow> G q) (f a) (\<lambda>h y. snapshot db h \<longrightarrow> (case y of Inl e \<Rightarrow> True | Inr a \<Rightarrow> I h a)) (h @ [(q, y)])"
    if "prj y = Some a" for y a
  proof (cases "snapshot db (h @ [(q, y)])")
    case True
    with assms(2) [OF that] show ?thesis by (simp add: honest_def)
  qed (simp add: not_snapshot)
  with assms(1) show ?thesis by (auto simp: honest_def nb_call_def split: nb_resp.split option.split)
qed

lemma honest_loop:
  assumes "I [] s h"
    and "\<And>done x todo s h. xs = done @ x # todo \<Longrightarrow> snapshot db h \<Longrightarrow> I done s h \<Longrightarrow> honest db G (f s x) h (\<lambda>h s. I (done @ [x]) s h)"
  shows "honest db G (efold f s xs) h (\<lambda>h s. I xs s h)"
  unfolding honest_def
proof (rule always_efold [where I = "\<lambda>done s h. snapshot db h \<longrightarrow> I done s h"])
  fix "done" x todo s h
  assume xs: "xs = done @ x # todo" and I: "snapshot db h \<longrightarrow> I done s h"
  show "always (\<lambda>h q. snapshot db h \<longrightarrow> G q) (f s x)
      (\<lambda>h y. case y of Inl e \<Rightarrow> snapshot db h \<longrightarrow> (case Inl e of Inl e \<Rightarrow> True | Inr a \<Rightarrow> I xs a h) | Inr s' \<Rightarrow> snapshot db h \<longrightarrow> I (done @ [x]) s' h) h"
  proof (cases "snapshot db h")
    case True
    with assms(2) [OF xs True] I have "honest db G (f s x) h (\<lambda>h s. I (done @ [x]) s h)" by simp
    then show ?thesis unfolding honest_def by (rule always_mono) (auto split: sum.splits)
  next
    case False
    then have "always (\<lambda>h q. snapshot db h \<longrightarrow> G q) (f s x) (\<lambda>h y. snapshot db h \<longrightarrow> (case y of Inl e \<Rightarrow> True | Inr s' \<Rightarrow> I (done @ [x]) s' h)) h"
      by (rule not_snapshot)
    then show ?thesis by (rule always_mono) (auto split: sum.splits)
  qed
qed (use assms(1) in auto)

text \<open>In a run whose reads were true to the end, every request of the run satisfied the guard.\<close>

lemma snapshot_append: "snapshot db (h @ t) \<Longrightarrow> snapshot db h"
  by (auto simp: snapshot_def)

lemma honest_requests:
  assumes "honest db G p h I"
  shows "honest db G p h (\<lambda>h' a. I h' a \<and> (\<exists>t. h' = h @ t \<and> (\<forall>x\<in>set t. G (fst x))))"
  using assms
proof (induction p arbitrary: h)
  case (Ret y)
  then show ?case by (auto simp: honest_def split: sum.splits)
next
  case (Call q k)
  have "honest db G (k r) (h @ [(q, r)]) (\<lambda>h' a. I h' a \<and> (\<exists>t. h' = h @ t \<and> (\<forall>x\<in>set t. G (fst x))))" for r
  proof (cases "snapshot db (h @ [(q, r)])")
    case True
    then have "G q" using Call.prems snapshot_append by (auto simp: honest_def)
    have "honest db G (k r) (h @ [(q, r)]) I" using Call.prems by (simp add: honest_def)
    from Call.IH [OF rangeI this] show ?thesis
      unfolding honest_def by (rule always_mono) (use \<open>G q\<close> in \<open>auto split: sum.splits\<close>)
  qed (simp add: honest_def not_snapshot)
  with Call.prems show ?case by (simp add: honest_def)
qed

text \<open>The calls of the writer.\<close>

lemma honest_name:
  assumes "G NamedUuid" and "\<And>name. name \<notin> db_uuids db \<Longrightarrow> name \<notin> set (names h) \<Longrightarrow> honest db G (f name) (h @ [(NamedUuid, NbName name)]) I"
  shows "honest db G (ebind (nb_call NamedUuid nb_name_of) f) h I"
proof (rule honest_call)
  fix y name
  assume "nb_name_of y = Some name" "tells db NamedUuid y" "distinct (names h @ name_given (NamedUuid, y))"
  then show "honest db G (f name) (h @ [(NamedUuid, y)]) I" by (cases y) (auto intro: assms(2))
qed (rule assms(1))

lemma honest_prepare:
  assumes "G (Prepare x)" and "honest db G (f [Change x]) (h @ [(Prepare x, NbDone)]) I"
  shows "honest db G (ebind (prepare x) f) h I"
  unfolding prepare_def
proof (rule honest_call)
  fix y a
  assume "(case nb_done_of y of None \<Rightarrow> None | Some _ \<Rightarrow> Some [Change x]) = Some a"
  then show "honest db G (f a) (h @ [(Prepare x, y)]) I" using assms(2) by (cases y) auto
qed (rule assms(1))

lemma names_prepare [simp]: "name_given (Prepare x, y) = []"
  by (cases y) simp_all

end
