(* ===== verification/Native_Converge.thy ===== *)
theory Native_Converge
  imports Native_Honest
begin

text \<open>
  What a transaction of the writer of destination routes achieves: when the reads told the truth and the database is still the one that was
  read, the transaction commits, and afterwards the owned routes of the router are exactly the routes of the plan,
  one row each, and the owned BFD sessions are exactly its sessions.
\<close>

section \<open>The specification\<close>

definition wanted_rows :: "native_names \<Rightarrow> string \<Rightarrow> (string \<Rightarrow> string) \<Rightarrow> intent \<Rightarrow> nb_route list" where
  "wanted_rows N owner uuid_of r = guard_route N owner r # (case children (in_cidr r) of
      None \<Rightarrow> []
    | Some (a, b) \<Rightarrow> [hop_route N owner r child hop (uuid_of hop). child \<leftarrow> [a, b], hop \<leftarrow> in_next_hops r])"

definition sessions_realized :: "string \<Rightarrow> string \<Rightarrow> dest_plan \<Rightarrow> (string \<Rightarrow> string) \<Rightarrow> nb_bfd list \<Rightarrow> bool" where
  "sessions_realized owner bfd_port plan uuid_of bfds \<longleftrightarrow>
     (\<forall>(hop, t)\<in>set (dp_sessions plan). \<exists>b\<in>set bfds. fd_port b = bfd_port \<and> fd_dst b = hop \<and> row_owned owner (fd_ids b) \<and> has_timers b t \<and> fd_uuid b = uuid_of hop)
     \<and> (\<forall>b\<in>set bfds. row_owned owner (fd_ids b) \<longrightarrow> fd_port b = bfd_port \<and> fd_dst b \<in> fst ` set (dp_sessions plan))
     \<and> distinct (map (\<lambda>b. (fd_port b, fd_dst b)) bfds)"

definition routes_realized :: "native_names \<Rightarrow> string \<Rightarrow> dest_plan \<Rightarrow> (string \<Rightarrow> string) \<Rightarrow> nb_route list \<Rightarrow> bool" where
  "routes_realized N owner plan uuid_of rows \<longleftrightarrow>
     (\<forall>r\<in>set (dp_routes plan). \<forall>w\<in>set (wanted_rows N owner uuid_of r).
        \<exists>!x. x \<in> set rows \<and> row_owned owner (rt_ids x) \<and> destination_route_equal x w)
     \<and> (\<forall>x\<in>set rows. row_owned owner (rt_ids x) \<longrightarrow>
        (\<exists>r\<in>set (dp_routes plan). \<exists>w\<in>set (wanted_rows N owner uuid_of r). destination_route_equal x w))"

definition realized :: "native_names \<Rightarrow> string \<Rightarrow> string \<Rightarrow> string \<Rightarrow> dest_plan \<Rightarrow> nb_db \<Rightarrow> bool" where
  "realized N router owner bfd_port plan db \<longleftrightarrow> (\<exists>uuid_of. sessions_realized owner bfd_port plan uuid_of (nb_bfds db)
     \<and> routes_realized N owner plan uuid_of (linked_routes db router))"

text \<open>A database at rest.\<close>

definition at_rest :: "nb_db \<Rightarrow> bool" where
  "at_rest db \<longleftrightarrow> indexed db \<and> clean_up db = db \<and> distinct (map lr_uuid (nb_routers db)) \<and> distinct (map lr_name (nb_routers db))
     \<and> distinct (map rt_uuid (nb_routes db)) \<and> distinct (map fd_uuid (nb_bfds db))"

section \<open>Sessions\<close>

lemma set_timers_simps [simp]:
  "fd_uuid (set_timers b t) = fd_uuid b" "fd_port (set_timers b t) = fd_port b" "fd_dst (set_timers b t) = fd_dst b"
  "fd_ids (set_timers b t) = fd_ids b" "has_timers (set_timers b t) t"
  by (simp_all add: set_timers_def has_timers_def)

lemma timers_already: "has_timers b t \<Longrightarrow> set_timers b t = b"
  by (simp add: set_timers_def has_timers_def)

definition retimed :: "string \<Rightarrow> dest_bfd smap \<Rightarrow> nb_bfd \<Rightarrow> nb_bfd" where
  "retimed p sessions b = (if fd_port b = p then (case map_of sessions (fd_dst b) of Some t \<Rightarrow> set_timers b t | None \<Rightarrow> b) else b)"

lemma retimed_simps [simp]:
  "fd_uuid (retimed p s b) = fd_uuid b" "fd_port (retimed p s b) = fd_port b" "fd_dst (retimed p s b) = fd_dst b" "fd_ids (retimed p s b) = fd_ids b"
  by (simp_all add: retimed_def split: option.split)

lemma retimed_Nil [simp]: "retimed p [] b = b"
  by (simp add: retimed_def)

text \<open>\<open>session_rows\<close>: the table after some sessions, with the new rows at the end.\<close>

definition new_rows_ok :: "nb_db \<Rightarrow> string \<Rightarrow> string \<Rightarrow> dest_bfd smap \<Rightarrow> string list \<Rightarrow> nb_bfd list \<Rightarrow> bool" where
  "new_rows_ok db owner p sessions ns news \<longleftrightarrow> distinct (map fd_uuid news) \<and> distinct (map fd_dst news)
     \<and> (\<forall>b\<in>set news. fd_port b = p \<and> row_owned owner (fd_ids b) \<and> fd_uuid b \<in> set ns \<and> fd_uuid b \<notin> fd_uuid ` set (nb_bfds db)
         \<and> (\<exists>t. (fd_dst b, t) \<in> set sessions \<and> has_timers b t) \<and> (p, fd_dst b) \<notin> (\<lambda>b. (fd_port b, fd_dst b)) ` set (nb_bfds db))"

definition session_rows :: "nb_db \<Rightarrow> string \<Rightarrow> dest_bfd smap \<Rightarrow> nb_bfd list \<Rightarrow> nb_bfd list" where
  "session_rows db p sessions news = map (retimed p sessions) (nb_bfds db) @ news"

definition session_inv :: "nb_db \<Rightarrow> string \<Rightarrow> string \<Rightarrow> nb_bfd smap \<Rightarrow> dest_bfd smap \<Rightarrow> session_state \<Rightarrow> nb_hist \<Rightarrow> bool" where
  "session_inv db owner p by_hop0 sessions st h \<longleftrightarrow> (case st of (ops, by_hop, wanted) \<Rightarrow> \<exists>news.
     apply_ops ops db = Some (db\<lparr>nb_bfds := session_rows db p sessions news\<rparr>) \<and> new_rows_ok db owner p sessions (names h) news
     \<and> (\<forall>(hop, t)\<in>set sessions. \<exists>b\<in>set (session_rows db p sessions news). fd_port b = p \<and> fd_dst b = hop \<and> has_timers b t
          \<and> row_owned owner (fd_ids b) \<and> map_of by_hop hop = Some b)
     \<and> (\<forall>hop. hop \<notin> fst ` set sessions \<longrightarrow> map_of by_hop hop = map_of by_hop0 hop)
     \<and> set wanted = fd_uuid ` {b \<in> set (session_rows db p sessions news). fd_port b = p \<and> fd_dst b \<in> fst ` set sessions})"

text \<open>What \<open>byHop\<close> holds before the loop.\<close>

definition hop_rows :: "nb_db \<Rightarrow> string \<Rightarrow> string \<Rightarrow> dest_plan \<Rightarrow> nb_bfd smap \<Rightarrow> bool" where
  "hop_rows db owner p plan by_hop \<longleftrightarrow> (\<forall>hop b. map_of by_hop hop = Some b \<longleftrightarrow>
     b \<in> set (nb_bfds db) \<and> fd_port b = p \<and> fd_dst b = hop \<and> map_of (dp_sessions plan) hop \<noteq> None)
     \<and> (\<forall>hop b. map_of by_hop hop = Some b \<longrightarrow> row_owned owner (fd_ids b))"

lemma note_sessions:
  assumes "foldr_res (note_session owner p plan) [] (nb_bfds db) = Inr by_hop"
  shows "hop_rows db owner p plan by_hop"
proof -
  let ?I = "\<lambda>bs m. (\<forall>hop b. map_of m hop = Some b \<longleftrightarrow> b \<in> set bs \<and> fd_port b = p \<and> fd_dst b = hop \<and> map_of (dp_sessions plan) hop \<noteq> None)
     \<and> (\<forall>hop b. map_of m hop = Some b \<longrightarrow> row_owned owner (fd_ids b))"
  have "?I (nb_bfds db) by_hop"
    by (rule foldr_res_invariant [where I = ?I, OF assms]) (auto simp: note_session_def split: if_splits)
  then show ?thesis unfolding hop_rows_def .
qed

lemma index_unique:
  assumes "at_rest db" and "b \<in> set (nb_bfds db)" and "b' \<in> set (nb_bfds db)" and "fd_port b = fd_port b'" and "fd_dst b = fd_dst b'"
  shows "b = b'"
  using assms by (auto simp: at_rest_def indexed_def distinct_map dest: inj_onD)

lemma bfd_unique: "at_rest db \<Longrightarrow> b \<in> set (nb_bfds db) \<Longrightarrow> b' \<in> set (nb_bfds db) \<Longrightarrow> fd_uuid b = fd_uuid b' \<Longrightarrow> b = b'"
  and route_unique: "at_rest db \<Longrightarrow> r \<in> set (nb_routes db) \<Longrightarrow> r' \<in> set (nb_routes db) \<Longrightarrow> rt_uuid r = rt_uuid r' \<Longrightarrow> r = r'"
  and router_unique: "at_rest db \<Longrightarrow> lr \<in> set (nb_routers db) \<Longrightarrow> lr' \<in> set (nb_routers db) \<Longrightarrow> lr_uuid lr = lr_uuid lr' \<Longrightarrow> lr = lr'"
  and router_name_unique: "at_rest db \<Longrightarrow> lr \<in> set (nb_routers db) \<Longrightarrow> lr' \<in> set (nb_routers db) \<Longrightarrow> lr_name lr = lr_name lr' \<Longrightarrow> lr = lr'"
  by (auto simp: at_rest_def distinct_map dest: inj_onD)

text \<open>One session: a new row, or the row that is there with its timers.\<close>

lemma new_session_step:
  assumes inv: "session_inv db owner p by_hop0 sessions (ops, by_hop, wanted) h" and hops: "hop_rows db owner p plan by_hop0"
    and hop: "hop \<notin> fst ` set sessions" "map_of (dp_sessions plan) hop \<noteq> None" "map_of by_hop hop = None"
    and name: "name \<notin> db_uuids db" "name \<notin> set (names h)" and ns: "names h' = names h @ [name]"
    and b: "b = new_session N owner p name hop t"
  shows "session_inv db owner p by_hop0 (sessions @ [(hop, t)]) (ops @ [destination_bfd_wait p hop None, Change (CreateBfd b)], mput hop b by_hop, name # wanted) h'"
proof -
  from inv obtain news where I: "apply_ops ops db = Some (db\<lparr>nb_bfds := session_rows db p sessions news\<rparr>)" "new_rows_ok db owner p sessions (names h) news"
    "\<forall>(hop, t)\<in>set sessions. \<exists>b\<in>set (session_rows db p sessions news). fd_port b = p \<and> fd_dst b = hop \<and> has_timers b t
          \<and> row_owned owner (fd_ids b) \<and> map_of by_hop hop = Some b"
    "\<forall>hop. hop \<notin> fst ` set sessions \<longrightarrow> map_of by_hop hop = map_of by_hop0 hop"
    "set wanted = fd_uuid ` {b \<in> set (session_rows db p sessions news). fd_port b = p \<and> fd_dst b \<in> fst ` set sessions}"
    by (auto simp: session_inv_def)
  have bp: "fd_port b = p" "fd_dst b = hop" "fd_uuid b = name" "row_owned owner (fd_ids b)" "has_timers b t"
    by (simp_all add: b new_session_def row_owned_def mget_def dest_owner_key_def has_timers_def)
  have absent: "(p, hop) \<notin> (\<lambda>b. (fd_port b, fd_dst b)) ` set (nb_bfds db)"
  proof
    assume "(p, hop) \<in> (\<lambda>b. (fd_port b, fd_dst b)) ` set (nb_bfds db)"
    then obtain x where "x \<in> set (nb_bfds db)" "fd_port x = p" "fd_dst x = hop" by auto
    with hops hop(2) have "map_of by_hop0 hop = Some x" by (simp add: hop_rows_def)
    with I(4) hop(1,3) show False by simp
  qed
  have nodup: "hop \<notin> fd_dst ` set news" using I(2) hop(1) by (force simp: new_rows_ok_def)
  have "retimed p (sessions @ [(hop, t)]) x = retimed p sessions x" if "x \<in> set (nb_bfds db)" for x
    using that absent by (auto simp: retimed_def image_iff split: option.split)
  then have rows: "session_rows db p (sessions @ [(hop, t)]) (news @ [b]) = session_rows db p sessions news @ [b]"
    by (simp add: session_rows_def)
  have fresh: "name \<notin> fd_uuid ` set (session_rows db p sessions news)"
    using name I(2) by (auto simp: session_rows_def db_uuids_def new_rows_ok_def)
  have nohop: "\<not> (\<exists>x\<in>set (session_rows db p sessions news). fd_port x = p \<and> fd_dst x = hop)"
  proof
    assume "\<exists>x\<in>set (session_rows db p sessions news). fd_port x = p \<and> fd_dst x = hop"
    then obtain x where x: "x \<in> set (session_rows db p sessions news)" "(fd_port x, fd_dst x) = (p, hop)" by auto
    then consider y where "y \<in> set (nb_bfds db)" "x = retimed p sessions y" | "x \<in> set news" by (auto simp: session_rows_def)
    then show False
    proof cases
      case 1
      then have "(fd_port y, fd_dst y) = (p, hop)" using x(2) by simp
      with 1(1) absent show False by force
    qed (use nodup x(2) in auto)
  qed
  have "apply_ops (ops @ [destination_bfd_wait p hop None, Change (CreateBfd b)]) db = Some (db\<lparr>nb_bfds := session_rows db p (sessions @ [(hop, t)]) (news @ [b])\<rparr>)"
    using I(1) fresh nohop by (simp add: apply_ops_append bfd_absent_holds rows bp)
  moreover have "new_rows_ok db owner p (sessions @ [(hop, t)]) (names h') (news @ [b])"
    using I(2) bp name ns absent nodup fresh by (auto simp: new_rows_ok_def db_uuids_def session_rows_def)
  moreover have "\<forall>(hop', t')\<in>set (sessions @ [(hop, t)]). \<exists>x\<in>set (session_rows db p (sessions @ [(hop, t)]) (news @ [b])). fd_port x = p \<and> fd_dst x = hop' \<and> has_timers x t'
          \<and> row_owned owner (fd_ids x) \<and> map_of (mput hop b by_hop) hop' = Some x"
    using I(3) hop(1) bp unfolding rows by force
  moreover have "\<forall>hop'. hop' \<notin> fst ` set (sessions @ [(hop, t)]) \<longrightarrow> map_of (mput hop b by_hop) hop' = map_of by_hop0 hop'"
    using I(4) by simp
  moreover have "set (name # wanted) = fd_uuid ` {x \<in> set (session_rows db p (sessions @ [(hop, t)]) (news @ [b])). fd_port x = p \<and> fd_dst x \<in> fst ` set (sessions @ [(hop, t)])}"
    unfolding rows using I(5) bp nohop by auto
  ultimately show ?thesis unfolding session_inv_def by auto
qed

lemma old_session_step:
  assumes inv: "session_inv db owner p by_hop0 sessions (ops, by_hop, wanted) h" and hops: "hop_rows db owner p plan by_hop0" and rest: "at_rest db"
    and hop: "hop \<notin> fst ` set sessions" "map_of by_hop hop = Some old"
    and ns: "names h' = names h"
    and ops': "ops' = (if has_timers old t then [] else [bfd_ids_wait old, Change (UpdateBfd (set_timers old t))])"
    and by_hop': "\<And>k. map_of by_hop' k = (if k = hop then Some (set_timers old t) else map_of by_hop k)"
  shows "session_inv db owner p by_hop0 (sessions @ [(hop, t)]) (ops @ destination_bfd_wait p hop (Some old) # ops', by_hop', fd_uuid old # wanted) h'"
proof -
  from inv obtain news where I: "apply_ops ops db = Some (db\<lparr>nb_bfds := session_rows db p sessions news\<rparr>)" "new_rows_ok db owner p sessions (names h) news"
    "\<forall>(hop, t)\<in>set sessions. \<exists>b\<in>set (session_rows db p sessions news). fd_port b = p \<and> fd_dst b = hop \<and> has_timers b t
          \<and> row_owned owner (fd_ids b) \<and> map_of by_hop hop = Some b"
    "\<forall>hop. hop \<notin> fst ` set sessions \<longrightarrow> map_of by_hop hop = map_of by_hop0 hop"
    "set wanted = fd_uuid ` {b \<in> set (session_rows db p sessions news). fd_port b = p \<and> fd_dst b \<in> fst ` set sessions}"
    by (auto simp: session_inv_def)
  have old: "old \<in> set (nb_bfds db)" "fd_port old = p" "fd_dst old = hop" "row_owned owner (fd_ids old)"
    using I(4) hop hops by (auto simp: hop_rows_def)
  have here: "x = old" if "x \<in> set (nb_bfds db)" "fd_port x = p" "fd_dst x = hop" for x
    using index_unique [OF rest that(1) old(1)] that old by simp
  have same: "retimed p sessions old = old" using hop(1) old by (simp add: retimed_def map_of_eq_None_iff [THEN iffD2])
  have news: "fd_dst x \<noteq> hop \<and> fd_uuid x \<noteq> fd_uuid old" if "x \<in> set news" for x
    using that I(2) hop(1) old(1) by (force simp: new_rows_ok_def)
  let ?B = "session_rows db p sessions news" and ?B' = "session_rows db p (sessions @ [(hop, t)]) news"
  have oldB: "old \<in> set ?B" using old(1) same by (force simp: session_rows_def)
  have onlyB: "x = old" if "x \<in> set ?B" "fd_port x = p \<and> fd_dst x = hop \<or> fd_uuid x = fd_uuid old" for x
  proof -
    note x = that
    consider y where "y \<in> set (nb_bfds db)" "x = retimed p sessions y" | "x \<in> set news" using x(1) by (auto simp: session_rows_def)
    then show ?thesis
    proof cases
      case 1
      then have "y = old" using x(2) here [OF 1(1)] bfd_unique [OF rest 1(1) old(1)] by auto
      with 1 same show ?thesis by simp
    qed (use x(2) news in auto)
  qed
  have re: "retimed p (sessions @ [(hop, t)]) x = (if x = old then set_timers old t else retimed p sessions x)" if "x \<in> set (nb_bfds db)" for x
  proof (cases "x = old")
    case True
    with hop(1) old(2,3) show ?thesis by (simp add: retimed_def map_of_append map_add_def map_of_eq_None_iff [THEN iffD2])
  next
    case False
    with here [OF that] have "fd_port x = p \<Longrightarrow> fd_dst x \<noteq> hop" by blast
    with False show ?thesis by (auto simp: retimed_def map_of_append map_add_def split: option.split)
  qed
  have copy: "copy_timers (set_timers old t) x = (if x = old then set_timers old t else x)" if "x \<in> set ?B" for x
    using onlyB [OF that] by (auto simp: copy_timers_def set_timers_def)
  have B': "map (copy_timers (set_timers old t)) ?B = ?B'"
  proof -
    have "copy_timers (set_timers old t) (retimed p sessions x) = retimed p (sessions @ [(hop, t)]) x" if "x \<in> set (nb_bfds db)" for x
    proof -
      have "retimed p sessions x \<in> set ?B" using that by (simp add: session_rows_def)
      moreover have "retimed p sessions x = old \<longleftrightarrow> x = old"
        using same bfd_unique [OF rest that old(1)] by (auto dest: arg_cong [of _ _ fd_uuid])
      ultimately show ?thesis using re [OF that] copy by simp
    qed
    moreover have "copy_timers (set_timers old t) x = x" if "x \<in> set news" for x
      using news [OF that] by (simp add: copy_timers_def)
    ultimately show ?thesis by (simp add: session_rows_def map_idI)
  qed
  have keep: "?B' = ?B" if "has_timers old t"
    using re timers_already [OF that] same by (auto simp: session_rows_def)
  have setB': "set ?B' = insert (set_timers old t) (set ?B - {old})"
    unfolding B' [symmetric] using copy oldB by (auto simp: image_iff)
  have "apply_op (db\<lparr>nb_bfds := ?B\<rparr>) (destination_bfd_wait p hop (Some old)) = Some (db\<lparr>nb_bfds := ?B\<rparr>)"
    using oldB old onlyB by (auto simp: bfd_present_holds same_map_iff)
  moreover have "apply_op (db\<lparr>nb_bfds := ?B\<rparr>) (bfd_ids_wait old) = Some (db\<lparr>nb_bfds := ?B\<rparr>)"
    using oldB onlyB by (auto simp: bfd_ids_wait_holds same_map_iff)
  ultimately have "apply_ops (ops @ destination_bfd_wait p hop (Some old) # ops') db = Some (db\<lparr>nb_bfds := ?B'\<rparr>)"
    using I(1) keep B' by (simp add: apply_ops_append ops')
  moreover have "new_rows_ok db owner p (sessions @ [(hop, t)]) (names h') news"
    using I(2) unfolding new_rows_ok_def ns by auto
  moreover have "\<forall>(hop', t')\<in>set (sessions @ [(hop, t)]). \<exists>x\<in>set ?B'. fd_port x = p \<and> fd_dst x = hop' \<and> has_timers x t'
          \<and> row_owned owner (fd_ids x) \<and> map_of by_hop' hop' = Some x"
  proof (clarify, goal_cases)
    case (1 hop' t')
    show ?case
    proof (cases "(hop', t') \<in> set sessions")
      case True
      with I(3) obtain x where x: "x \<in> set ?B" "fd_port x = p" "fd_dst x = hop'" "has_timers x t'" "row_owned owner (fd_ids x)" "map_of by_hop hop' = Some x" by fast
      have "hop' \<noteq> hop" using True hop(1) by force
      with x old(3) show ?thesis unfolding setB' by_hop' by auto
    next
      case False
      with 1 have "hop' = hop" "t' = t" by auto
      then show ?thesis unfolding setB' by_hop' using old by auto
    qed
  qed
  moreover have "\<forall>hop'. hop' \<notin> fst ` set (sessions @ [(hop, t)]) \<longrightarrow> map_of by_hop' hop' = map_of by_hop0 hop'"
    using I(4) by (simp add: by_hop')
  moreover have "set (fd_uuid old # wanted) = fd_uuid ` {x \<in> set ?B'. fd_port x = p \<and> fd_dst x \<in> fst ` set (sessions @ [(hop, t)])}"
  proof -
    have "{x \<in> set ?B'. fd_port x = p \<and> fd_dst x \<in> fst ` set (sessions @ [(hop, t)])}
        = insert (set_timers old t) {x \<in> set ?B. fd_port x = p \<and> fd_dst x \<in> fst ` set sessions}"
      unfolding setB' using old hop(1) onlyB by auto
    then show ?thesis using I(5) by simp
  qed
  ultimately show ?thesis unfolding session_inv_def split_conv by (intro exI [of _ news] conjI)
qed

end
