(* ===== verification/Native_Wanted.thy ===== *)
theory Native_Wanted
  imports Native_Converge
begin

text \<open>
  The rows a compiled plan wants, and how the rows that are there are sifted: no two wanted rows have the same key, so
  the map of the desired rows holds all of them; a row that is there stays when it is one of them and no other row
  with its key stayed before it.
\<close>

section \<open>Compiled plans\<close>

lemma distinct_put_all: "distinct (map fst m) \<Longrightarrow> distinct (map fst (foldl (\<lambda>m k. mput k v m) m ks))"
  by (induction ks arbitrary: m) auto

lemma compiled_plan:
  assumes "compile input = Inr plan"
  shows "distinct (map fst (dp_sessions plan))" and "consistent (dp_routes plan)"
    and "r \<in> set (dp_routes plan) \<Longrightarrow> hop \<in> set (in_next_hops r) \<Longrightarrow> map_of (dp_sessions plan) hop = Some (in_bfd r)"
proof -
  from assms have c: "consistent input" "dp_routes plan = sort_slice in_cidr (map canonical input)"
    and "\<exists>prefixes routes. foldr_res compile_intent ([], [], []) input = Inr (prefixes, dp_sessions plan, routes)" unfolding compile_iff by blast+
  then obtain prefixes routes where run: "foldr_res compile_intent ([], [], []) input = Inr (prefixes, dp_sessions plan, routes)" by blast
  have "case (prefixes, dp_sessions plan, routes) of (ps, ss, rs) \<Rightarrow> distinct (map fst ss)"
  proof (rule foldr_res_invariant [where I = "\<lambda>_ st. case st of (ps, ss, rs) \<Rightarrow> distinct (map fst ss)", OF run])
    fix "done" r s s'
    assume "case s of (ps, ss, rs) \<Rightarrow> distinct (map fst ss)" "compile_intent s r = Inr s'"
    then show "case s' of (ps, ss, rs) \<Rightarrow> distinct (map fst ss)"
      by (cases s) (auto simp: compile_intent_iff distinct_put_all)
  qed simp
  then show "distinct (map fst (dp_sessions plan))" by simp
  have "mset (dp_routes plan) = mset (map canonical input)" unfolding c(2) by simp
  with c(1) show "consistent (dp_routes plan)" using consistent_mset consistent_canonical by blast
  have routes: "set (dp_routes plan) = canonical ` set input" unfolding c(2) by simp
  assume "r \<in> set (dp_routes plan)" "hop \<in> set (in_next_hops r)"
  with routes obtain q where "q \<in> set input" "r = canonical q" by auto
  with \<open>hop \<in> _\<close> show "map_of (dp_sessions plan) hop = Some (in_bfd r)" by (auto simp: compile_sessions [OF assms])
qed

section \<open>Keys\<close>

lemma prefix_str_no_bar: "CHR ''|'' \<notin> set (v4_prefix_str w b)"
  using v4_str_chars [of "CHR ''|''" w] nat_str_chars [of "CHR ''|''" b] by (auto simp: v4_prefix_str_def is_digit_def)

text \<open>Every wanted row of an intent has a prefix within its destination.\<close>

lemma wanted_prefix:
  assumes "intent_ok r" and "w \<in> set (wanted_rows N owner uuid_of r)"
  shows "\<exists>x c y b. rt_prefix w = v4_prefix_str x c \<and> pfx r = Prefix (V4 y) (int b) \<and> b \<le> c \<and> c \<le> 32 \<and> block b x = block b y"
proof -
  from intent_ok_prefix [OF assms(1)] obtain y b where p: "pfx r = Prefix (V4 y) (int b)" "in_cidr r = v4_prefix_str y b" "usable_dest y b" by blast
  let ?s = "y OR push_bit (31 - b) 1"
  have "block b ?s = block b y" using p(3) second_child(3) [of b y] by (simp add: usable_dest_def)
  moreover from assms(2) p children_usable [OF p(3)]
  have "rt_prefix w \<in> {v4_prefix_str y b, v4_prefix_str y (b + 1), v4_prefix_str ?s (b + 1)}"
    by (auto simp: wanted_rows_def guard_route_def hop_route_def)
  moreover have "b \<le> 31" using p(3) by (simp add: usable_dest_def)
  ultimately consider "rt_prefix w = v4_prefix_str y b" | "rt_prefix w = v4_prefix_str y (b + 1)" | "rt_prefix w = v4_prefix_str ?s (b + 1)" by blast
  then show ?thesis
  proof cases
    case 1
    then show ?thesis using p(1) \<open>b \<le> 31\<close> by (intro exI [of _ y] exI [of _ b]) auto
  next
    case 2
    then show ?thesis using p(1) \<open>b \<le> 31\<close> by (intro exI [of _ y] exI [of _ "b + 1"] exI [of _ b]) auto
  next
    case 3
    then show ?thesis using p(1) \<open>b \<le> 31\<close> \<open>block b ?s = block b y\<close> by (intro exI [of _ ?s] exI [of _ "b + 1"] exI [of _ y] exI [of _ b]) auto
  qed
qed

text \<open>Rows of one intent with the same prefix and next hop are the same row.\<close>

lemma wanted_same_intent:
  assumes "intent_ok r" and "w \<in> set (wanted_rows N owner uuid_of r)" and "w' \<in> set (wanted_rows N owner uuid_of r)"
    and "rt_prefix w = rt_prefix w'" and "rt_nexthop w = rt_nexthop w'"
  shows "w = w'"
proof -
  from intent_ok_prefix [OF assms(1)] obtain y b where p: "in_cidr r = v4_prefix_str y b" "usable_dest y b" by blast
  have d: "v4_prefix_str y b \<noteq> v4_prefix_str x (Suc b)" "v4_prefix_str x (Suc b) \<noteq> v4_prefix_str y b" for x by (simp_all add: v4_prefix_str_inject)
  with assms(2-5) children_usable [OF p(2)] show ?thesis
    by (auto simp: p(1) wanted_rows_def guard_route_def hop_route_def)
qed

lemma wanted_key_inj:
  assumes "consistent rs" and "r \<in> set rs" "r' \<in> set rs"
    and "w \<in> set (wanted_rows N owner uuid_of r)" "w' \<in> set (wanted_rows N owner uuid_of r')"
    and "destination_route_key w = destination_route_key w'"
  shows "w = w'"
proof -
  have ok: "intent_ok r" "intent_ok r'" using assms(1-3) by (auto simp: consistent_iff)
  from wanted_prefix [OF ok(1) assms(4)] obtain x c y b where
    w: "rt_prefix w = v4_prefix_str x c" "pfx r = Prefix (V4 y) (int b)" "b \<le> c" "c \<le> 32" "block b x = block b y" by blast
  from wanted_prefix [OF ok(2) assms(5)] obtain x' c' y' b' where
    w': "rt_prefix w' = v4_prefix_str x' c'" "pfx r' = Prefix (V4 y') (int b')" "b' \<le> c'" "c' \<le> 32" "block b' x' = block b' y'" by blast
  have same: "rt_prefix w = rt_prefix w'" "rt_nexthop w = rt_nexthop w'"
    using assms(6) append_separator_inject [of "CHR ''|''" "rt_prefix w" "rt_prefix w'"]
    by (simp_all add: destination_route_key_def w(1) w'(1) prefix_str_no_bar)
  then have "x = x'" using w(1) w'(1) by (simp add: v4_prefix_str_inject)
  let ?m = "min b b'"
  have "block ?m x = block ?m y" "block ?m x' = block ?m y'"
    using block_mono [of ?m b x y] block_mono [of ?m b' x' y'] w w' by simp_all
  with \<open>x = x'\<close> have "overlaps (pfx r) (pfx r')" by (simp add: w(2) w'(2) overlaps_V4 min_def split: if_splits)
  with assms(1-3) have "r = r'" by (auto simp: consistent_iff compatible_def)
  with wanted_same_intent [OF ok(1) assms(4)] assms(5) same show ?thesis by simp
qed

section \<open>The map of the desired rows\<close>

definition uuid_in :: "nb_bfd smap \<Rightarrow> string \<Rightarrow> string" where
  "uuid_in by_hop hop = (case map_of by_hop hop of None \<Rightarrow> [] | Some b \<Rightarrow> fd_uuid b)"

definition holds_rows :: "nb_route smap \<Rightarrow> nb_route set \<Rightarrow> bool" where
  "holds_rows m W \<longleftrightarrow> distinct (map fst m) \<and> (\<forall>(k, v)\<in>set m. k = destination_route_key v \<and> v \<in> W) \<and> destination_route_key ` W \<subseteq> fst ` set m"

lemma set_mput: "set (mput k v m) \<subseteq> insert (k, v) (set m)"
  by (induction m) auto

lemma holds_put: "holds_rows m W \<Longrightarrow> holds_rows (put_route m w) (insert w W)"
  using set_mput [of "destination_route_key w" w m]
  by (auto simp: holds_rows_def put_route_def)

lemma holds_hop:
  assumes "want_hop N owner by_hop r child m hop = Inr m'" and "holds_rows m W"
  shows "holds_rows m' (insert (hop_route N owner r child hop (uuid_in by_hop hop)) W)"
  using assms by (auto simp: want_hop_def uuid_in_def holds_put split: option.splits)

lemma holds_hops:
  assumes "foldr_res (want_hop N owner by_hop r child) m hops = Inr m'" and "holds_rows m W"
  shows "holds_rows m' ((\<lambda>hop. hop_route N owner r child hop (uuid_in by_hop hop)) ` set hops \<union> W)"
  using assms
proof (induction hops arbitrary: m W)
  case (Cons hop hops)
  then obtain m1 where m1: "want_hop N owner by_hop r child m hop = Inr m1" "foldr_res (want_hop N owner by_hop r child) m1 hops = Inr m'" by auto
  from Cons.IH [OF m1(2) holds_hop [OF m1(1) Cons.prems(2)]] show ?case by simp
qed simp

lemma holds_intent:
  assumes "want_intent N owner by_hop m r = Inr m'" and "holds_rows m W"
  shows "holds_rows m' (set (wanted_rows N owner (uuid_in by_hop) r) \<union> W)"
proof -
  from assms(1) obtain a b m1 where c: "children (in_cidr r) = Some (a, b)"
    and m1: "foldr_res (want_hop N owner by_hop r a) (put_route m (guard_route N owner r)) (in_next_hops r) = Inr m1"
    and m': "foldr_res (want_hop N owner by_hop r b) m1 (in_next_hops r) = Inr m'" by (auto simp: want_intent_def split: option.splits)
  from holds_hops [OF m' holds_hops [OF m1 holds_put [OF assms(2)]]] show ?thesis
    by (rule back_subst [of "holds_rows m'"]) (auto simp: wanted_rows_def c)
qed

lemma holds_all:
  assumes "foldr_res (want_intent N owner by_hop) [] rs = Inr m"
  shows "holds_rows m (\<Union>r\<in>set rs. set (wanted_rows N owner (uuid_in by_hop) r))"
  by (rule foldr_res_invariant [where I = "\<lambda>rs m. holds_rows m (\<Union>r\<in>set rs. set (wanted_rows N owner (uuid_in by_hop) r))", OF assms])
    (auto simp: holds_rows_def [of "[]"] Un_commute dest: holds_intent)

text \<open>With keys that differ, the values are exactly the wanted rows.\<close>

lemma holds_values:
  assumes "holds_rows m W" and "inj_on destination_route_key W"
  shows "map_of m k = Some w \<longleftrightarrow> w \<in> W \<and> k = destination_route_key w"
proof -
  have entry: "k = destination_route_key v \<and> v \<in> W" if "(k, v) \<in> set m" for k v
    using assms(1) that unfolding holds_rows_def by fast
  show ?thesis
  proof
    assume "map_of m k = Some w"
    then show "w \<in> W \<and> k = destination_route_key w" using entry map_of_SomeD by fast
  next
    assume w: "w \<in> W \<and> k = destination_route_key w"
    then have "k \<in> fst ` set m" using assms(1) unfolding holds_rows_def by blast
    then obtain v where v: "(k, v) \<in> set m" by force
    with entry w assms(2) have "v = w" by (metis inj_onD)
    with v assms(1) show "map_of m k = Some w" by (simp add: holds_rows_def)
  qed
qed

section \<open>Sifting\<close>

definition sifted :: "string \<Rightarrow> nb_op list \<Rightarrow> nb_route smap \<Rightarrow> nb_route list \<Rightarrow> nb_op list \<times> string list \<times> nb_route smap \<Rightarrow> nb_route set \<Rightarrow> bool" where
  "sifted owner ops0 m rows st kept \<longleftrightarrow> (case st of (ops, dels, missing) \<Rightarrow>
     kept \<subseteq> {r \<in> set rows. row_owned owner (rt_ids r)}
     \<and> (\<exists>dropped. set dropped = {r \<in> set rows. row_owned owner (rt_ids r)} - kept
          \<and> ops = ops0 @ map route_ids_wait dropped \<and> dels = map rt_uuid dropped)
     \<and> missing = filter (\<lambda>(k, _). k \<notin> destination_route_key ` kept) m
     \<and> inj_on destination_route_key kept
     \<and> (\<forall>r\<in>kept. \<exists>w. map_of m (destination_route_key r) = Some w \<and> destination_route_equal r w))"

lemma sift_all:
  assumes "distinct rows" and "distinct (map fst m)"
  shows "\<exists>kept. sifted owner ops0 m rows (foldl (sift_route owner) (ops0, [], m) rows) kept"
  using assms(1)
proof (induction rows rule: rev_induct)
  case Nil
  show ?case by (rule exI [of _ "{}"]) (simp add: sifted_def)
next
  case (snoc r rows)
  then obtain kept ops dels missing where st: "foldl (sift_route owner) (ops0, [], m) rows = (ops, dels, missing)"
    and S: "sifted owner ops0 m rows (ops, dels, missing) kept" by (metis distinct_append prod_cases3)
  from snoc.prems have new: "r \<notin> set rows" by simp
  let ?key = "destination_route_key r"
  have step: "foldl (sift_route owner) (ops0, [], m) (rows @ [r]) = sift_route owner (ops, dels, missing) r" by (simp add: st)
  have drop: "sifted owner ops0 m (rows @ [r]) (ops @ [route_ids_wait r], dels @ [rt_uuid r], missing) kept" if "row_owned owner (rt_ids r)"
  proof -
    from S obtain dropped where d: "set dropped = {r \<in> set rows. row_owned owner (rt_ids r)} - kept"
      "ops = ops0 @ map route_ids_wait dropped" "dels = map rt_uuid dropped" and k: "kept \<subseteq> set rows" by (auto simp: sifted_def)
    have "set (dropped @ [r]) = {x \<in> set (rows @ [r]). row_owned owner (rt_ids x)} - kept" using d(1) k new that by auto
    with S d show ?thesis unfolding sifted_def split_conv by (intro conjI exI [of _ "dropped @ [r]"]) auto
  qed
  show ?case
  proof (cases "row_owned owner (rt_ids r)")
    case False
    with S have "sifted owner ops0 m (rows @ [r]) (ops, dels, missing) kept" by (auto simp: sifted_def)
    with False show ?thesis unfolding step by (intro exI [of _ kept]) (simp add: sift_route_def)
  next
    case True
    show ?thesis
    proof (cases "\<exists>w. map_of missing ?key = Some w \<and> destination_route_equal r w")
      case False
      with True drop show ?thesis unfolding step by (intro exI [of _ kept]) (auto simp: sift_route_def Let_def split: option.split)
    next
      case keep: True
      then obtain w where w: "map_of missing ?key = Some w" "destination_route_equal r w" by blast
      from S have missing: "missing = filter (\<lambda>(k, _). k \<notin> destination_route_key ` kept) m" by (simp add: sifted_def)
      have inm: "(?key, w) \<in> set m" "?key \<notin> destination_route_key ` kept" using map_of_SomeD [OF w(1)] by (auto simp: missing)
      then have "map_of m ?key = Some w" using assms(2) by simp
      have less: "filter (\<lambda>(k, _). k \<noteq> ?key) missing = filter (\<lambda>(k, _). k \<notin> destination_route_key ` insert r kept) m"
        unfolding missing filter_filter by (rule filter_cong) auto
      from S obtain dropped where d: "set dropped = {r \<in> set rows. row_owned owner (rt_ids r)} - kept"
        "ops = ops0 @ map route_ids_wait dropped" "dels = map rt_uuid dropped" by (auto simp: sifted_def)
      have "set dropped = {x \<in> set (rows @ [r]). row_owned owner (rt_ids x)} - insert r kept" using d(1) new by auto
      then have "sifted owner ops0 m (rows @ [r]) (ops, dels, filter (\<lambda>(k, _). k \<noteq> ?key) missing) (insert r kept)"
        using S d(2,3) True inm(2) \<open>map_of m ?key = Some w\<close> w(2) unfolding sifted_def split_conv less
        by (intro conjI exI [of _ dropped]) auto
      with True w show ?thesis unfolding step by (intro exI [of _ "insert r kept"]) (simp add: sift_route_def Let_def)
    qed
  qed
qed

end
