(* ===== verification/Native_Outcome.thy ===== *)
theory Native_Outcome
  imports Native_Wanted
begin

text \<open>
  The run of the writer on a database at rest, loop by loop: what the operations so far make of the database, and in the end
  the specification of \<open>Native_Converge\<close>.
\<close>

section \<open>Sessions\<close>

lemma ensure_session_honest:
  assumes inv: "session_inv db owner p by_hop0 done st h" and hops: "hop_rows db owner p plan by_hop0" and rest: "at_rest db"
    and hop: "hop \<notin> fst ` set done" "map_of (dp_sessions plan) hop \<noteq> None"
    and G: "G NamedUuid" "\<And>x. G (Prepare x)"
  shows "honest db G (ensure_session N owner p st (hop, t)) h (\<lambda>h st. session_inv db owner p by_hop0 (done @ [(hop, t)]) st h)"
proof -
  obtain ops by_hop wanted where st: "st = (ops, by_hop, wanted)" by (rule prod_cases3)
  show ?thesis
  proof (cases "map_of by_hop hop")
    case None
    show ?thesis
      unfolding st ensure_session_def split_conv None option.case Let_def
      by (intro honest_name honest_prepare honest_go G)
        (simp, intro new_session_step [OF inv [unfolded st] hops hop None], auto)
  next
    case (Some old)
    note step = old_session_step [where t = t, OF inv [unfolded st] hops rest hop(1) Some _ refl]
    show ?thesis
    proof (cases "has_timers old t")
      case True
      have "session_inv db owner p by_hop0 (done @ [(hop, t)]) (ops @ [destination_bfd_wait p hop (Some old)], by_hop, fd_uuid old # wanted) h"
        using step [where h' = h and by_hop' = by_hop] True Some by (simp add: timers_already)
      with True Some show ?thesis by (auto simp: st ensure_session_def Let_def intro!: honest_go)
    next
      case False
      have "session_inv db owner p by_hop0 (done @ [(hop, t)])
          (ops @ [destination_bfd_wait p hop (Some old), bfd_ids_wait old, Change (UpdateBfd (set_timers old t))], mput hop (set_timers old t) by_hop, fd_uuid old # wanted)
          (h @ [(Prepare (UpdateBfd (set_timers old t)), NbDone)])"
        using step [where by_hop' = "mput hop (set_timers old t) by_hop"] False by simp
      with False Some show ?thesis by (auto simp: st ensure_session_def Let_def intro!: honest_prepare honest_go G)
    qed
  qed
qed

section \<open>New routes\<close>

definition named_rows :: "nb_db \<Rightarrow> nb_db \<Rightarrow> nb_route list \<Rightarrow> nb_op list \<times> string list \<Rightarrow> nb_hist \<Rightarrow> nb_route list \<Rightarrow> bool" where
  "named_rows db db1 vs st h rows \<longleftrightarrow> (case st of (ops, adds) \<Rightarrow>
     apply_ops ops db = Some (db1\<lparr>nb_routes := nb_routes db @ rows\<rparr>) \<and> adds = map rt_uuid rows \<and> list_all2 (\<lambda>v r. r = v\<lparr>rt_uuid := rt_uuid r\<rparr>) vs rows
     \<and> set adds \<subseteq> set (names h) \<and> set adds \<inter> rt_uuid ` set (nb_routes db) = {} \<and> distinct adds)"

lemma create_routes_honest:
  assumes start: "apply_ops ops1 db = Some db1" "nb_routes db1 = nb_routes db" and G: "G NamedUuid" "\<And>x. G (Prepare x)"
  shows "honest db G (efold create_route (ops1, []) vs) h (\<lambda>h st. \<exists>rows. named_rows db db1 vs st h rows)"
proof (rule honest_loop [where I = "\<lambda>vs st h. \<exists>rows. named_rows db db1 vs st h rows"])
  have "db1\<lparr>nb_routes := nb_routes db @ []\<rparr> = db1" using start(2) by simp
  then show "\<exists>rows. named_rows db db1 [] (ops1, []) h rows" using start(1) by (intro exI [of _ "[]"]) (simp add: named_rows_def)
next
  fix "done" v todo st and h :: nb_hist
  assume "\<exists>rows. named_rows db db1 done st h rows"
  then obtain rows where I: "named_rows db db1 done st h rows" by blast
  obtain ops adds where st: "st = (ops, adds)" by (cases st)
  note I' = I [unfolded st named_rows_def split_conv]
  have "named_rows db db1 (done @ [v]) (ops @ [Change (CreateRoute (v\<lparr>rt_uuid := name\<rparr>))], adds @ [name])
      (h @ [(NamedUuid, NbName name), (Prepare (CreateRoute (v\<lparr>rt_uuid := name\<rparr>)), NbDone)]) (rows @ [v\<lparr>rt_uuid := name\<rparr>])"
    if "name \<notin> db_uuids db" "name \<notin> set (names h)" for name
  proof -
    have "set adds = rt_uuid ` set rows" using I' by simp
    then have fresh: "name \<notin> rt_uuid ` set (nb_routes db)" "name \<notin> rt_uuid ` set rows"
      using that I' unfolding db_uuids_def by blast+
    then have "name \<notin> rt_uuid ` set (nb_routes db @ rows)" by (simp add: image_Un)
    then have "apply_ops (ops @ [Change (CreateRoute (v\<lparr>rt_uuid := name\<rparr>))]) db = Some (db1\<lparr>nb_routes := nb_routes db @ rows @ [v\<lparr>rt_uuid := name\<rparr>]\<rparr>)"
      using I' by (simp add: apply_ops_append)
    moreover have "list_all2 (\<lambda>v r. r = v\<lparr>rt_uuid := rt_uuid r\<rparr>) (done @ [v]) (rows @ [v\<lparr>rt_uuid := name\<rparr>])"
      using I' by (intro list_all2_appendI) simp_all
    moreover have "name \<notin> set adds" using that(2) I' by blast
    moreover have "set adds \<subseteq> set (names h)" "set adds \<inter> rt_uuid ` set (nb_routes db) = {}" "adds = map rt_uuid rows" "distinct adds"
      using I' by blast+
    ultimately show ?thesis using fresh(1) unfolding named_rows_def split_conv by (intro conjI) auto
  qed
  note step = this
  show "honest db G (create_route st v) h (\<lambda>h st. \<exists>rows. named_rows db db1 (done @ [v]) st h rows)"
    unfolding st create_route_def split_conv
    by (intro honest_name honest_prepare honest_go G) (auto dest!: step)
qed

section \<open>Links\<close>

definition relinked :: "string \<Rightarrow> string list \<Rightarrow> string list \<Rightarrow> nb_router \<Rightarrow> nb_router" where
  "relinked router dels adds = change_router router (\<lambda>us. filter (\<lambda>u. u \<notin> set dels) us @ filter (\<lambda>u. u \<notin> set us - set dels) adds)"

lemma change_links_honest:
  assumes "apply_ops ops db = Some db1" and "apply_change (f ids) db1 = Some db2" and "ids = [] \<Longrightarrow> db2 = db1" and G: "\<And>x. G (Prepare x)"
  shows "honest db G (change_links f ids ops) h (\<lambda>h ops'. apply_ops ops' db = Some db2)"
  using assms(1-3) by (auto simp: change_links_def apply_ops_append intro!: honest_go honest_prepare G)

section \<open>Sessions that are left over\<close>

definition obsolete :: "string \<Rightarrow> string list \<Rightarrow> nb_bfd \<Rightarrow> bool" where
  "obsolete owner wanted b \<longleftrightarrow> row_owned owner (fd_ids b) \<and> fd_uuid b \<notin> set wanted"

definition retired_inv :: "nb_db \<Rightarrow> nb_db \<Rightarrow> string \<Rightarrow> string list \<Rightarrow> nb_bfd list \<Rightarrow> nb_op list \<Rightarrow> bool" where
  "retired_inv db db1 owner wanted bs ops \<longleftrightarrow>
     apply_ops ops db = Some (db1\<lparr>nb_bfds := filter (\<lambda>b. fd_uuid b \<notin> fd_uuid ` set (filter (obsolete owner wanted) bs)) (nb_bfds db1)\<rparr>)"

lemma retire_session_honest:
  assumes inv: "retired_inv db db1 owner wanted done ops" and rest: "at_rest db" and bs: "nb_bfds db = done @ b # todo"
    and here: "\<exists>x\<in>set (nb_bfds db1). fd_uuid x = fd_uuid b" and ids: "\<And>x. x \<in> set (nb_bfds db1) \<Longrightarrow> fd_uuid x = fd_uuid b \<Longrightarrow> fd_ids x = fd_ids b"
    and G: "\<And>x. G (Prepare x)"
  shows "honest db G (retire_session owner wanted dels routes policies ops b) h (\<lambda>h ops. retired_inv db db1 owner wanted (done @ [b]) ops)"
proof (cases "obsolete owner wanted b")
  case False
  with inv show ?thesis by (auto simp: retire_session_def retired_inv_def obsolete_def intro!: honest_go)
next
  case True
  let ?bs = "filter (\<lambda>x. fd_uuid x \<notin> fd_uuid ` set (filter (obsolete owner wanted) done)) (nb_bfds db1)"
  have "fd_uuid b \<notin> fd_uuid ` set done" using rest by (auto simp: at_rest_def bs)
  moreover from here obtain x where "x \<in> set (nb_bfds db1)" "fd_uuid x = fd_uuid b" by blast
  ultimately have "x \<in> set ?bs \<and> fd_uuid x = fd_uuid b" by auto
  then have "\<exists>x\<in>set ?bs. fd_uuid x = fd_uuid b" by blast
  then have wait: "apply_op (db1\<lparr>nb_bfds := ?bs\<rparr>) (bfd_ids_wait b) = Some (db1\<lparr>nb_bfds := ?bs\<rparr>)"
    using ids by (auto simp: bfd_ids_wait_holds same_map_iff)
  have "filter (\<lambda>x. fd_uuid x \<noteq> fd_uuid b) ?bs
      = filter (\<lambda>x. fd_uuid x \<notin> fd_uuid ` set (filter (obsolete owner wanted) (done @ [b]))) (nb_bfds db1)"
    using True by (auto simp: filter_filter intro: filter_cong)
  then have "retired_inv db db1 owner wanted (done @ [b]) (ops @ [bfd_ids_wait b, Change (DeleteBfd b)])"
    using inv wait by (simp add: retired_inv_def apply_ops_append)
  then show ?thesis using True by (auto simp: retire_session_def obsolete_def intro!: honest_prepare honesty G)
qed

section \<open>The sessions in the end\<close>

definition final_bfds :: "nb_db \<Rightarrow> string \<Rightarrow> string list \<Rightarrow> nb_bfd list \<Rightarrow> nb_bfd list" where
  "final_bfds db owner wanted B = filter (\<lambda>b. fd_uuid b \<notin> fd_uuid ` set (filter (obsolete owner wanted) (nb_bfds db))) B"

lemma sessions_final:
  assumes inv: "session_inv db owner p by_hop0 (dp_sessions plan) (ops, by_hop, wanted) h" and rest: "at_rest db"
  obtains B where "apply_ops ops db = Some (db\<lparr>nb_bfds := B\<rparr>)"
    and "\<And>b. b \<in> set (nb_bfds db) \<Longrightarrow> (\<exists>x\<in>set B. fd_uuid x = fd_uuid b) \<and> (\<forall>x\<in>set B. fd_uuid x = fd_uuid b \<longrightarrow> fd_ids x = fd_ids b)"
    and "sessions_realized owner p plan (uuid_in by_hop) (final_bfds db owner wanted B)"
    and "\<And>hop. hop \<in> fst ` set (dp_sessions plan) \<Longrightarrow> uuid_in by_hop hop \<in> fd_uuid ` set (final_bfds db owner wanted B)"
proof -
  let ?ss = "dp_sessions plan"
  from inv obtain news where I: "apply_ops ops db = Some (db\<lparr>nb_bfds := session_rows db p ?ss news\<rparr>)" "new_rows_ok db owner p ?ss (names h) news"
    "\<forall>(hop, t)\<in>set ?ss. \<exists>b\<in>set (session_rows db p ?ss news). fd_port b = p \<and> fd_dst b = hop \<and> has_timers b t
          \<and> row_owned owner (fd_ids b) \<and> map_of by_hop hop = Some b"
    "set wanted = fd_uuid ` {b \<in> set (session_rows db p ?ss news). fd_port b = p \<and> fd_dst b \<in> fst ` set ?ss}"
    by (auto simp: session_inv_def)
  define B where "B = session_rows db p ?ss news"
  note I = I [folded B_def]
  have setB: "set B = retimed p ?ss ` set (nb_bfds db) \<union> set news" by (simp add: B_def session_rows_def)
  have news: "fd_port b = p" "fd_dst b \<in> fst ` set ?ss" "fd_uuid b \<notin> fd_uuid ` set (nb_bfds db)" if "b \<in> set news" for b
    using I(2) that unfolding new_rows_ok_def by force+
  have uuids: "distinct (map fd_uuid B)"
  proof -
    have "set (map fd_uuid (nb_bfds db)) \<inter> set (map fd_uuid news) = {}"
      unfolding disjoint_iff set_map using news(3) by blast
    then show ?thesis using I(2) rest by (simp add: B_def session_rows_def new_rows_ok_def at_rest_def comp_def)
  qed
  have tuples: "distinct (map (\<lambda>b. (fd_port b, fd_dst b)) B)"
  proof -
    have "distinct (map (\<lambda>b. (fd_port b, fd_dst b)) news)"
      using I(2) by (auto simp: new_rows_ok_def distinct_map inj_on_def)
    moreover have "set (map (\<lambda>b. (fd_port b, fd_dst b)) (nb_bfds db)) \<inter> set (map (\<lambda>b. (fd_port b, fd_dst b)) news) = {}"
    proof -
      have "(fd_port b, fd_dst b) \<notin> (\<lambda>b. (fd_port b, fd_dst b)) ` set (nb_bfds db)" if "b \<in> set news" for b
        using I(2) that unfolding new_rows_ok_def by metis
      then show ?thesis unfolding disjoint_iff set_map by blast
    qed
    ultimately show ?thesis using rest by (simp add: B_def session_rows_def at_rest_def indexed_def comp_def)
  qed
  have kept: "b \<in> set (final_bfds db owner wanted B)" if "b \<in> set B" "fd_port b = p" "fd_dst b \<in> fst ` set ?ss" for b
  proof -
    have "fd_uuid b \<in> set wanted" using I(4) that by blast
    with that(1) show ?thesis by (auto simp: final_bfds_def obsolete_def)
  qed
  have here: "fd_port b = p \<and> fd_dst b \<in> fst ` set ?ss" if b: "b \<in> set (final_bfds db owner wanted B)" "row_owned owner (fd_ids b)" for b
  proof -
    from b(1) have inB: "b \<in> set B" and no: "fd_uuid b \<notin> fd_uuid ` set (filter (obsolete owner wanted) (nb_bfds db))" by (simp_all add: final_bfds_def)
    from inB consider y where "y \<in> set (nb_bfds db)" "b = retimed p ?ss y" | "b \<in> set news" unfolding setB by blast
    then show ?thesis
    proof cases
      case 1
      with no b(2) have "fd_uuid b \<in> set wanted" by (auto simp: obsolete_def)
      then have "fd_uuid b \<in> fd_uuid ` {x \<in> set B. fd_port x = p \<and> fd_dst x \<in> fst ` set ?ss}" unfolding I(4) .
      then obtain x where x: "fd_uuid b = fd_uuid x" "x \<in> {x \<in> set B. fd_port x = p \<and> fd_dst x \<in> fst ` set ?ss}" by (rule imageE)
      have "x = b" using inj_onD [of fd_uuid "set B" x b] uuids inB x by (simp add: distinct_map)
      with x(2) show ?thesis by simp
    qed (use news in simp)
  qed
  have "sessions_realized owner p plan (uuid_in by_hop) (final_bfds db owner wanted B)"
    unfolding sessions_realized_def
  proof (intro conjI ballI)
    fix s
    assume s: "s \<in> set ?ss"
    obtain hop t where ht: "s = (hop, t)" by (cases s)
    with I(3) s obtain b where b: "b \<in> set B" "fd_port b = p" "fd_dst b = hop" "has_timers b t" "row_owned owner (fd_ids b)" "map_of by_hop hop = Some b" by fast
    have "b \<in> set (final_bfds db owner wanted B)" using b(1-3) s ht by (intro kept) force+
    with b have "\<exists>b\<in>set (final_bfds db owner wanted B). fd_port b = p \<and> fd_dst b = hop \<and> row_owned owner (fd_ids b) \<and> has_timers b t \<and> fd_uuid b = uuid_in by_hop hop"
      by (auto simp: uuid_in_def)
    then show "case s of (hop, t) \<Rightarrow> \<exists>b\<in>set (final_bfds db owner wanted B). fd_port b = p \<and> fd_dst b = hop \<and> row_owned owner (fd_ids b) \<and> has_timers b t \<and> fd_uuid b = uuid_in by_hop hop"
      by (simp add: ht)
  next
    show "distinct (map (\<lambda>b. (fd_port b, fd_dst b)) (final_bfds db owner wanted B))"
      unfolding final_bfds_def using tuples by (rule distinct_map_filter)
  qed (use here in blast)
  moreover have "uuid_in by_hop hop \<in> fd_uuid ` set (final_bfds db owner wanted B)" if "hop \<in> fst ` set ?ss" for hop
  proof -
    from that obtain t where "(hop, t) \<in> set ?ss" by force
    with conjunct1 [OF calculation [unfolded sessions_realized_def]] obtain b
      where "b \<in> set (final_bfds db owner wanted B)" "fd_uuid b = uuid_in by_hop hop" by blast
    then show ?thesis by force
  qed
  moreover have "(\<exists>x\<in>set B. fd_uuid x = fd_uuid b) \<and> (\<forall>x\<in>set B. fd_uuid x = fd_uuid b \<longrightarrow> fd_ids x = fd_ids b)" if "b \<in> set (nb_bfds db)" for b
  proof -
    have "retimed p ?ss b \<in> set B" using that by (simp add: setB)
    moreover have "x = retimed p ?ss b" if "x \<in> set B" "fd_uuid x = fd_uuid b" for x
      using inj_onD [of fd_uuid "set B" x "retimed p ?ss b"] uuids \<open>retimed p ?ss b \<in> set B\<close> that by (simp add: distinct_map)
    ultimately show ?thesis by (metis retimed_simps(1,4))
  qed
  ultimately show thesis using that I(1) by blast
qed

section \<open>The routes in the end\<close>

lemma route_equal_simps:
  "destination_route_equal x w \<Longrightarrow> destination_route_key x = destination_route_key w \<and> rt_bfd x = rt_bfd w"
  "destination_route_equal (w\<lparr>rt_uuid := u\<rparr>) w"
  by (auto simp: destination_route_equal_def destination_route_key_def same_map_iff)

lemma clear_weak_simps [simp]: "rt_uuid (clear_weak L r) = rt_uuid r" "rt_ids (clear_weak L r) = rt_ids r"
  by (simp_all add: clear_weak_def split: option.split)

text \<open>The rows that end up linked: of the old ones those that were not dropped, and all new ones.\<close>

lemma relinked_routes:
  assumes rest: "at_rest db" and fresh: "rt_uuid ` set rows \<inter> rt_uuid ` set (nb_routes db) = {}"
    and final: "db' = db\<lparr>nb_routers := map (relinked router dels (map rt_uuid rows)) (nb_routers db), nb_routes := nb_routes db @ rows, nb_bfds := bfds\<rparr>"
    and some: "(\<exists>lr\<in>set (nb_routers db). lr_name lr = router) \<or> rows = []"
  shows "set (linked_routes (clean_up db') router) = clear_weak (fd_uuid ` set bfds) ` ({r \<in> set (linked_routes db router). rt_uuid r \<notin> set dels} \<union> set rows)"
    and "linked_ids db' \<subseteq> rt_uuid ` set (nb_routes db')"
proof -
  have old: "u \<in> rt_uuid ` set (nb_routes db)" if "lr \<in> set (nb_routers db)" "u \<in> set (lr_routes lr)" for lr u
    using rest that unfolding at_rest_def indexed_def linked_ids_def by blast
  have name: "lr_name (relinked router dels adds lr) = lr_name lr" for adds lr
    by (simp add: relinked_def change_router_def)
  have links: "set (lr_routes (relinked router dels adds lr)) = (if lr_name lr = router then (set (lr_routes lr) - set dels) \<union> set adds else set (lr_routes lr))" for adds lr
    by (auto simp: relinked_def change_router_def)
  show "linked_ids db' \<subseteq> rt_uuid ` set (nb_routes db')"
    using old by (auto simp: final linked_ids_def links split: if_splits)
  have linked: "(\<exists>lr\<in>set (nb_routers db'). lr_name lr = router \<and> rt_uuid r \<in> set (lr_routes lr))
      \<longleftrightarrow> (\<exists>lr\<in>set (nb_routers db). lr_name lr = router \<and> (rt_uuid r \<in> set (lr_routes lr) \<and> rt_uuid r \<notin> set dels \<or> rt_uuid r \<in> rt_uuid ` set rows))" for r
    by (auto simp: final name links)
  have "r \<in> set (nb_routes db) \<Longrightarrow> (\<exists>lr\<in>set (nb_routers db'). lr_name lr = router \<and> rt_uuid r \<in> set (lr_routes lr))
      \<longleftrightarrow> r \<in> set (linked_routes db router) \<and> rt_uuid r \<notin> set dels" for r
    using fresh unfolding linked by (auto simp: linked_routes_def)
  moreover have "r \<in> set rows \<Longrightarrow> (\<exists>lr\<in>set (nb_routers db'). lr_name lr = router \<and> rt_uuid r \<in> set (lr_routes lr))" for r
    using some unfolding linked by (cases rows) auto
  ultimately have all: "{r \<in> set (nb_routes db). \<exists>lr\<in>set (nb_routers db'). lr_name lr = router \<and> rt_uuid r \<in> set (lr_routes lr)}
      \<union> {r \<in> set rows. \<exists>lr\<in>set (nb_routers db'). lr_name lr = router \<and> rt_uuid r \<in> set (lr_routes lr)}
      = {r \<in> set (linked_routes db router). rt_uuid r \<notin> set dels} \<union> set rows"
    by (auto simp: linked_routes_def [of db])
  have "linked_routes (clean_up db') router = map (clear_weak (fd_uuid ` set (nb_bfds db')))
      (filter (\<lambda>r. \<exists>lr\<in>set (nb_routers db'). lr_name lr = router \<and> rt_uuid r \<in> set (lr_routes lr)) (filter (\<lambda>r. rt_uuid r \<in> linked_ids db') (nb_routes db')))"
    by (simp add: linked_routes_def clean_up_def filter_map comp_def)
  moreover have "nb_bfds db' = bfds" by (simp add: final)
  ultimately have "set (linked_routes (clean_up db') router) = clear_weak (fd_uuid ` set bfds) ` {r \<in> set (nb_routes db'). \<exists>lr\<in>set (nb_routers db'). lr_name lr = router \<and> rt_uuid r \<in> set (lr_routes lr)}"
    by (auto simp: linked_ids_def simp del: filter_filter)
  also have "{r \<in> set (nb_routes db'). \<exists>lr\<in>set (nb_routers db'). lr_name lr = router \<and> rt_uuid r \<in> set (lr_routes lr)}
      = {r \<in> set (nb_routes db). \<exists>lr\<in>set (nb_routers db'). lr_name lr = router \<and> rt_uuid r \<in> set (lr_routes lr)}
      \<union> {r \<in> set rows. \<exists>lr\<in>set (nb_routers db'). lr_name lr = router \<and> rt_uuid r \<in> set (lr_routes lr)}"
    unfolding final by auto
  finally show "set (linked_routes (clean_up db') router) = clear_weak (fd_uuid ` set bfds) ` ({r \<in> set (linked_routes db router). rt_uuid r \<notin> set dels} \<union> set rows)"
    unfolding all .
qed

end
