(* ===== verification/Native_Result.thy ===== *)
theory Native_Result
  imports Native_Outcome Api_Plug
begin

text \<open>
  The routes in the end, and the whole call: in every run whose reads tell the truth about a database at rest, the
  transaction commits there and realizes the plan; without a transaction the plan is realized already.
\<close>

section \<open>The routes in the end\<close>

lemma wanted_bfd:
  assumes "w \<in> set (wanted_rows N owner uuid_of r)" and "\<And>hop. hop \<in> set (in_next_hops r) \<Longrightarrow> uuid_of hop \<in> live"
  shows "clear_weak live w = w" and "row_owned owner (rt_ids w)"
proof -
  have "row_owned owner (intent_ids N owner r)" by (simp add: intent_ids_def row_owned_def mget_def dest_owner_key_def)
  then show "clear_weak live w = w" "row_owned owner (rt_ids w)"
    using assms by (auto simp: wanted_rows_def guard_route_def hop_route_def clear_weak_def split: option.splits)
qed

lemma clear_weak_equal: "destination_route_equal x w \<Longrightarrow> clear_weak live w = w \<Longrightarrow> clear_weak live x = x"
  by (cases "rt_bfd w") (auto simp: destination_route_equal_def clear_weak_def dest: arg_cong [of _ _ rt_bfd] split: if_splits)

lemma routes_final:
  assumes rest: "at_rest db" and plan: "consistent (dp_routes plan)"
    and desired: "foldr_res (want_intent N owner by_hop) [] (dp_routes plan) = Inr m"
    and sift: "sifted owner ops0 m (linked_routes db router) (ops, dels, missing) kept"
    and rows: "list_all2 (\<lambda>v r. r = v\<lparr>rt_uuid := rt_uuid r\<rparr>) (map snd missing) rows"
    and live: "\<And>r hop. r \<in> set (dp_routes plan) \<Longrightarrow> hop \<in> set (in_next_hops r) \<Longrightarrow> uuid_in by_hop hop \<in> live"
    and L: "set L = clear_weak live ` ({r \<in> set (linked_routes db router). rt_uuid r \<notin> set dels} \<union> set rows)"
  shows "routes_realized N owner plan (uuid_in by_hop) L"
proof -
  let ?W = "\<Union>r\<in>set (dp_routes plan). set (wanted_rows N owner (uuid_in by_hop) r)"
  have holds: "holds_rows m ?W" using desired by (rule holds_all)
  have inj: "inj_on destination_route_key ?W" by (intro inj_onI) (auto dest: wanted_key_inj [OF plan])
  note vals = holds_values [OF holds inj]
  have w: "clear_weak live w = w \<and> row_owned owner (rt_ids w)" if "w \<in> ?W" for w
    using that wanted_bfd [of w N owner "uuid_in by_hop" _ live] live by blast
  from sift obtain dropped where S: "kept \<subseteq> set (linked_routes db router)" "\<And>r. r \<in> kept \<Longrightarrow> row_owned owner (rt_ids r)"
    "set dropped = {r \<in> set (linked_routes db router). row_owned owner (rt_ids r)} - kept" "dels = map rt_uuid dropped"
    "missing = filter (\<lambda>(k, _). k \<notin> destination_route_key ` kept) m" "inj_on destination_route_key kept"
    "\<And>r. r \<in> kept \<Longrightarrow> \<exists>w. map_of m (destination_route_key r) = Some w \<and> destination_route_equal r w"
    by (auto simp: sifted_def)
  have kept: "\<exists>w\<in>?W. destination_route_equal x w" if "x \<in> kept" for x using S(7) [OF that] vals by blast
  have entry: "k = destination_route_key v \<and> v \<in> ?W" if "(k, v) \<in> set m" for k v
    using holds that unfolding holds_rows_def by fast
  have made: "\<exists>v. (destination_route_key v, v) \<in> set missing \<and> v \<in> ?W \<and> destination_route_equal x v \<and> x = v\<lparr>rt_uuid := rt_uuid x\<rparr>" if "x \<in> set rows" for x
  proof -
    from that obtain i where "i < length rows" "rows ! i = x" by (auto simp: in_set_conv_nth)
    with rows have i: "i < length missing" "x = (snd (missing ! i))\<lparr>rt_uuid := rt_uuid x\<rparr>" by (auto simp: list_all2_conv_all_nth)
    obtain k v where kv: "missing ! i = (k, v)" by (cases "missing ! i")
    then have k: "(k, v) \<in> set missing" and v: "x = v\<lparr>rt_uuid := rt_uuid x\<rparr>" using i nth_mem [OF i(1)] by simp_all
    from k have "(k, v) \<in> set m" by (simp add: S(5))
    then have "k = destination_route_key v \<and> v \<in> ?W" by (rule entry)
    with k v route_equal_simps(2) [where w = v and u = "rt_uuid x"] show ?thesis by auto
  qed
  have covered: "\<exists>x\<in>set rows. destination_route_equal x v" if "(k, v) \<in> set missing" for k v
  proof -
    from that obtain i where "i < length missing" "missing ! i = (k, v)" by (auto simp: in_set_conv_nth)
    with rows have "i < length rows" "rows ! i = v\<lparr>rt_uuid := rt_uuid (rows ! i)\<rparr>" by (auto simp: list_all2_conv_all_nth)
    then show ?thesis using route_equal_simps(2) [where w = v and u = "rt_uuid (rows ! i)"] by (metis nth_mem)
  qed
  have stays: "row_owned owner (rt_ids r) \<and> r \<in> set (linked_routes db router) \<and> rt_uuid r \<notin> set dels \<longleftrightarrow> r \<in> kept" for r
  proof
    assume "r \<in> kept"
    moreover have "rt_uuid r \<notin> set dels"
    proof
      assume "rt_uuid r \<in> set dels"
      then obtain r' where "r' \<in> set dropped" "rt_uuid r' = rt_uuid r" by (auto simp: S(4))
      with S(1,3) \<open>r \<in> kept\<close> route_unique [OF rest, of r' r] show False by (auto simp: linked_routes_def)
    qed
    ultimately show "row_owned owner (rt_ids r) \<and> r \<in> set (linked_routes db router) \<and> rt_uuid r \<notin> set dels" using S(1,2) by blast
  qed (use S(3,4) in auto)
  have same: "clear_weak live x = x \<and> row_owned owner (rt_ids x)" if "x \<in> kept \<union> set rows" for x
  proof -
    from that kept made obtain v where v: "v \<in> ?W" "destination_route_equal x v" by blast
    with w clear_weak_equal have "clear_weak live x = x" by blast
    moreover have "row_owned owner (rt_ids x)"
      using v w [OF v(1)] by (simp add: destination_route_equal_def same_map_iff row_owned_def mget_def)
    ultimately show ?thesis ..
  qed
  have owned: "x \<in> set L \<and> row_owned owner (rt_ids x) \<longleftrightarrow> x \<in> kept \<union> set rows" for x
  proof
    assume "x \<in> set L \<and> row_owned owner (rt_ids x)"
    then obtain y where y: "x = clear_weak live y" "row_owned owner (rt_ids y)" "y \<in> set (linked_routes db router) \<and> rt_uuid y \<notin> set dels \<or> y \<in> set rows"
      unfolding L by auto
    with stays have "y \<in> kept \<union> set rows" by blast
    with same y(1) show "x \<in> kept \<union> set rows" by simp
  next
    assume x: "x \<in> kept \<union> set rows"
    with stays have "x \<in> {r \<in> set (linked_routes db router). rt_uuid r \<notin> set dels} \<union> set rows" by blast
    then have "clear_weak live x \<in> set L" unfolding L by (rule imageI)
    with same [OF x] show "x \<in> set L \<and> row_owned owner (rt_ids x)" by simp
  qed
  have len: "length rows = length missing" using list_all2_lengthD [OF rows] by simp
  have keys: "map destination_route_key rows = map fst missing"
  proof (rule nth_equalityI)
    fix i
    assume "i < length (map destination_route_key rows)"
    then have i: "i < length missing" "rows ! i = (snd (missing ! i))\<lparr>rt_uuid := rt_uuid (rows ! i)\<rparr>"
      using rows by (auto simp: list_all2_conv_all_nth)
    have "destination_route_key (rows ! i) = destination_route_key (snd (missing ! i))"
      using route_equal_simps(1) [OF route_equal_simps(2) [where w = "snd (missing ! i)" and u = "rt_uuid (rows ! i)"]] i(2) by simp
    also have "\<dots> = fst (missing ! i)" proof -
      have "missing ! i \<in> set m" using nth_mem [OF i(1)] by (simp add: S(5))
      with entry [of "fst (missing ! i)" "snd (missing ! i)"] show ?thesis by simp
    qed
    finally show "map destination_route_key rows ! i = map fst missing ! i" using i(1) len by simp
  qed (simp add: len)
  have "inj_on destination_route_key (kept \<union> set rows)"
  proof -
    have "distinct (map fst missing)" using holds by (simp add: S(5) holds_rows_def distinct_map_filter)
    then have "inj_on destination_route_key (set rows)" by (simp add: distinct_map flip: keys)
    moreover have "destination_route_key ` set rows = fst ` set missing" using arg_cong [OF keys, of set] by simp
    then have "destination_route_key ` kept \<inter> destination_route_key ` set rows = {}" by (auto simp: S(5))
    ultimately show ?thesis using S(6) by (auto simp: inj_on_Un)
  qed
  note one = this
  have "\<exists>!x. x \<in> set L \<and> row_owned owner (rt_ids x) \<and> destination_route_equal x v" if v: "v \<in> ?W" for v
  proof -
    have "\<exists>x\<in>kept \<union> set rows. destination_route_equal x v"
    proof (cases "destination_route_key v \<in> destination_route_key ` kept")
      case True
      then obtain x where x: "x \<in> kept" "destination_route_key x = destination_route_key v" by auto
      with S(7) vals v have "destination_route_equal x v" by (metis option.inject)
      with x(1) show ?thesis by blast
    next
      case False
      from vals [of "destination_route_key v" v] v have "(destination_route_key v, v) \<in> set m" by (auto dest: map_of_SomeD)
      with False have "(destination_route_key v, v) \<in> set missing" by (simp add: S(5))
      with covered show ?thesis by blast
    qed
    then obtain x where x: "x \<in> kept \<union> set rows" "destination_route_equal x v" by blast
    moreover have "y = x" if "y \<in> kept \<union> set rows" "destination_route_equal y v" for y
      using inj_onD [OF one _ that(1) x(1)] route_equal_simps(1) [OF that(2)] route_equal_simps(1) [OF x(2)] by simp
    ultimately show ?thesis using owned by metis
  qed
  moreover have "\<exists>v\<in>?W. destination_route_equal x v" if "x \<in> set L" "row_owned owner (rt_ids x)" for x
    using that owned kept made by blast
  ultimately show ?thesis unfolding routes_realized_def by blast
qed

section \<open>The whole call\<close>

text \<open>What the requests and the result of the call have to be.\<close>

fun commits_to :: "native_names \<Rightarrow> string \<Rightarrow> string \<Rightarrow> string \<Rightarrow> dest_plan \<Rightarrow> nb_db \<Rightarrow> nb_req \<Rightarrow> bool" where
  "commits_to N router owner p plan db (Transact n ops) = (\<exists>db'. commit ops db = Some db' \<and> realized N router owner p plan db')"
| "commits_to N router owner p plan db q = True"

definition transaction_acknowledged :: "nb_hist \<Rightarrow> bool" where
  "transaction_acknowledged h \<longleftrightarrow> (\<exists>n ops. (Transact n ops, NbDone) \<in> set h)"

lemma waits_keep: "list_all is_wait ops \<Longrightarrow> apply_ops ops db = Some db' \<Longrightarrow> db' = db"
proof (induction ops)
  case (Cons x ops)
  then show ?case using wait_keeps_db [of x db] by (auto split: option.splits)
qed simp

lemma send_honest:
  assumes "apply_ops ops db = Some db'" and "indexed db'" and "realized N router owner p plan (clean_up db')" and "at_rest db"
  shows "honest db (commits_to N router owner p plan db) (send ops) h (\<lambda>h _. transaction_acknowledged h \<or> realized N router owner p plan db)"
proof (cases "list_all is_wait ops")
  case True
  with waits_keep assms(1) have "db' = db" by blast
  with assms(3,4) have "realized N router owner p plan db" by (simp add: at_rest_def)
  with True show ?thesis by (auto simp: send_def intro!: honest_go)
next
  case False
  have "honest db (commits_to N router owner p plan db) (ebind (nb_call (Transact ''vpc-destination-routes'' ops) nb_done_of) go) h
      (\<lambda>h _. transaction_acknowledged h \<or> realized N router owner p plan db)"
  proof (rule honest_call)
    fix y u
    assume "nb_done_of y = Some u"
    then have "transaction_acknowledged (h @ [(Transact ''vpc-destination-routes'' ops, y)])" by (cases y) (auto simp: transaction_acknowledged_def)
    then show "honest db (commits_to N router owner p plan db) (go u) (h @ [(Transact ''vpc-destination-routes'' ops, y)])
      (\<lambda>h _. transaction_acknowledged h \<or> realized N router owner p plan db)" by (auto intro!: honest_go)
  qed (use assms(1-3) in \<open>simp add: commit_def\<close>)
  from this [unfolded ebind_go] False show ?thesis by (simp add: send_def)
qed

lemma apply_routes_honest:
  assumes rest: "at_rest db" and plan: "consistent (dp_routes plan)"
    and hops: "\<And>r hop. r \<in> set (dp_routes plan) \<Longrightarrow> hop \<in> set (in_next_hops r) \<Longrightarrow> hop \<in> fst ` set (dp_sessions plan)"
    and inv: "session_inv db owner p by_hop0 (dp_sessions plan) (ops, by_hop, wanted) h0"
    and desired: "foldr_res (want_intent N owner by_hop) [] (dp_routes plan) = Inr m"
    and some: "(\<exists>lr\<in>set (nb_routers db). lr_name lr = router) \<or> dp_routes plan = []"
  shows "honest db (commits_to N router owner p plan db) (apply_routes router owner (linked_routes db router) (nb_bfds db) m ops wanted) h
    (\<lambda>h _. transaction_acknowledged h \<or> realized N router owner p plan db)"
proof -
  let ?G = "commits_to N router owner p plan db"
  have G: "?G NamedUuid" "\<And>x. ?G (Prepare x)" by simp_all
  obtain B where B: "apply_ops ops db = Some (db\<lparr>nb_bfds := B\<rparr>)"
    "\<And>b. b \<in> set (nb_bfds db) \<Longrightarrow> (\<exists>x\<in>set B. fd_uuid x = fd_uuid b) \<and> (\<forall>x\<in>set B. fd_uuid x = fd_uuid b \<longrightarrow> fd_ids x = fd_ids b)"
    "sessions_realized owner p plan (uuid_in by_hop) (final_bfds db owner wanted B)"
    "\<And>hop. hop \<in> fst ` set (dp_sessions plan) \<Longrightarrow> uuid_in by_hop hop \<in> fd_uuid ` set (final_bfds db owner wanted B)"
    using sessions_final [OF inv rest] by blast
  let ?db1 = "db\<lparr>nb_bfds := B\<rparr>" and ?live = "fd_uuid ` set (final_bfds db owner wanted B)"
  have dist: "distinct (linked_routes db router)" "distinct (map fst m)"
    using rest holds_all [OF desired] by (auto simp: linked_routes_def at_rest_def distinct_map holds_rows_def)
  obtain ops1 dels missing where st: "foldl (sift_route owner) (ops, [], m) (linked_routes db router) = (ops1, dels, missing)" by (metis prod_cases3)
  with sift_all [OF dist, of owner ops] obtain kept where sift: "sifted owner ops m (linked_routes db router) (ops1, dels, missing) kept" by metis
  then obtain dropped where dropped: "set dropped \<subseteq> set (nb_routes db)" "ops1 = ops @ map route_ids_wait dropped"
    by (auto simp: sifted_def linked_routes_def)
  have waits: "apply_ops (map route_ids_wait rs) ?db1 = Some ?db1" if "set rs \<subseteq> set (nb_routes db)" for rs
    using that
  proof (induction rs)
    case (Cons r rs)
    then have "apply_op ?db1 (route_ids_wait r) = Some ?db1"
      using route_unique [OF rest] by (auto simp: route_ids_wait_holds same_map_iff)
    with Cons show ?case by simp
  qed simp
  have ops1: "apply_ops ops1 db = Some ?db1" using B(1) waits [OF dropped(1)] by (simp add: dropped(2) apply_ops_append)
  have no_rows: "rows = []" if "list_all2 (\<lambda>v r. r = v\<lparr>rt_uuid := rt_uuid r\<rparr>) (map snd missing) rows" "dp_routes plan = []" for rows
  proof -
    have "m = []" using desired that(2) by simp
    with sift have "missing = []" by (simp add: sifted_def)
    with that(1) show ?thesis by simp
  qed
  show ?thesis
    unfolding apply_routes_def st split_conv
  proof (rule honest_bind [OF create_routes_honest [OF ops1 _ G]], simp, clarify)
    fix h1 ops2 adds rows
    assume "named_rows db ?db1 (map snd missing) (ops2, adds) h1 rows"
    note named = this [unfolded named_rows_def split_conv]
    have adds: "adds = map rt_uuid rows" and "set adds \<inter> rt_uuid ` set (nb_routes db) = {}" using named by blast+
    then have "rt_uuid ` set rows \<inter> rt_uuid ` set (nb_routes db) = {}" by (simp only: adds set_map)
    with named have rows: "apply_ops ops2 db = Some (?db1\<lparr>nb_routes := nb_routes db @ rows\<rparr>)" "adds = map rt_uuid rows"
      "list_all2 (\<lambda>v r. r = v\<lparr>rt_uuid := rt_uuid r\<rparr>) (map snd missing) rows" "rt_uuid ` set rows \<inter> rt_uuid ` set (nb_routes db) = {}"
      by blast+
    let ?db2 = "?db1\<lparr>nb_routes := nb_routes db @ rows\<rparr>"
    let ?db3 = "?db2\<lparr>nb_routers := map (change_router router (filter (\<lambda>u. u \<notin> set dels))) (nb_routers db)\<rparr>"
    let ?db4 = "?db2\<lparr>nb_routers := map (relinked router dels adds) (nb_routers db)\<rparr>"
    let ?db5 = "?db4\<lparr>nb_bfds := final_bfds db owner wanted B\<rparr>"
    have final: "?db5 = db\<lparr>nb_routers := map (relinked router dels (map rt_uuid rows)) (nb_routers db), nb_routes := nb_routes db @ rows, nb_bfds := final_bfds db owner wanted B\<rparr>"
      by (simp add: rows(2))
    have "(\<exists>lr\<in>set (nb_routers db). lr_name lr = router) \<or> rows = []"
    proof (cases "dp_routes plan = []")
      case True
      show ?thesis by (rule disjI2) (rule no_rows [OF rows(3) True])
    next
      case False
      with some show ?thesis by simp
    qed
    note linked = relinked_routes [OF rest rows(4) final this]
    have "routes_realized N owner plan (uuid_in by_hop) (linked_routes (clean_up ?db5) router)"
      by (rule routes_final [OF rest plan desired sift rows(3) _ linked(1)]) (use B(4) hops in blast)
    moreover have "nb_bfds (clean_up ?db5) = final_bfds db owner wanted B" by (simp add: clean_up_def)
    ultimately have realized: "realized N router owner p plan (clean_up ?db5)" using B(3) unfolding realized_def by auto
    have indexed: "indexed ?db5" using linked(2) B(3) by (simp add: indexed_def sessions_realized_def)
    have unlink: "apply_change (UnlinkRoutes router dels) ?db2 = Some ?db3" "dels = [] \<Longrightarrow> ?db3 = ?db2"
      by (simp_all add: change_router_def map_idI)
    have link: "apply_change (LinkRoutes router adds) ?db3 = Some ?db4" "adds = [] \<Longrightarrow> ?db4 = ?db3"
      by (auto simp: change_router_def relinked_def intro!: filter_cong)
    show "honest db ?G (ebind (change_links (UnlinkRoutes router) dels ops2) (\<lambda>ops3. ebind (change_links (LinkRoutes router) adds ops3) (\<lambda>ops4.
        ebind (nb_call ListAllRoutes nb_routes_of) (\<lambda>routes. ebind (nb_call ListAllPolicies nb_policies_of) (\<lambda>policies.
        ebind (efold (retire_session owner wanted dels routes policies) ops4 (nb_bfds db)) send))))) h1
        (\<lambda>h _. transaction_acknowledged h \<or> realized N router owner p plan db)"
    proof (rule honest_bind [OF change_links_honest [where f = "UnlinkRoutes router" and G = "?G", OF rows(1) unlink G(2)]])
      fix h2 ops3
      assume ops3: "apply_ops ops3 db = Some ?db3"
      show "honest db ?G (ebind (change_links (LinkRoutes router) adds ops3) (\<lambda>ops4.
          ebind (nb_call ListAllRoutes nb_routes_of) (\<lambda>routes. ebind (nb_call ListAllPolicies nb_policies_of) (\<lambda>policies.
          ebind (efold (retire_session owner wanted dels routes policies) ops4 (nb_bfds db)) send)))) h2
          (\<lambda>h _. transaction_acknowledged h \<or> realized N router owner p plan db)"
      proof (rule honest_bind [OF change_links_honest [where f = "LinkRoutes router" and G = "?G", OF ops3 link G(2)]])
        fix h3 ops4
        assume ops4: "apply_ops ops4 db = Some ?db4"
        have retire: "honest db ?G (efold (retire_session owner wanted dels routes policies) ops4 (nb_bfds db)) h
            (\<lambda>h ops. retired_inv db ?db4 owner wanted (nb_bfds db) ops)" for routes policies h
        proof (rule honest_loop [where I = "\<lambda>bs ops h. retired_inv db ?db4 owner wanted bs ops"])
          show "retired_inv db ?db4 owner wanted [] ops4" using ops4 by (simp add: retired_inv_def)
        next
          fix "done" b todo ops' and h :: nb_hist
          assume "nb_bfds db = done @ b # todo" "retired_inv db ?db4 owner wanted done ops'"
          then show "honest db ?G (retire_session owner wanted dels routes policies ops' b) h (\<lambda>h ops. retired_inv db ?db4 owner wanted (done @ [b]) ops)"
            using B(2) [of b] by (intro retire_session_honest [where G = "?G" and todo = todo] rest) (auto intro: G(2))
        qed
        have send: "honest db ?G (send ops5) h (\<lambda>h _. transaction_acknowledged h \<or> realized N router owner p plan db)"
          if "retired_inv db ?db4 owner wanted (nb_bfds db) ops5" for ops5 h
          by (rule send_honest [OF _ indexed realized rest]) (use that in \<open>simp add: retired_inv_def final_bfds_def\<close>)
        show "honest db ?G (ebind (nb_call ListAllRoutes nb_routes_of) (\<lambda>routes. ebind (nb_call ListAllPolicies nb_policies_of) (\<lambda>policies.
            ebind (efold (retire_session owner wanted dels routes policies) ops4 (nb_bfds db)) send))) h3
            (\<lambda>h _. transaction_acknowledged h \<or> realized N router owner p plan db)"
          by (intro honest_call honest_bind [OF retire] send) simp_all
      qed
    qed
  qed
qed

lemma compiled_hops: "compile input = Inr plan \<Longrightarrow> r \<in> set (dp_routes plan) \<Longrightarrow> hop \<in> set (in_next_hops r) \<Longrightarrow> hop \<in> fst ` set (dp_sessions plan)"
  using compiled_plan(3) by (metis dom_map_of_fst option.distinct(1))

lemma reconcile_routes_honest:
  assumes rest: "at_rest db" and plan: "compile input = Inr plan"
  shows "honest db (commits_to N router owner p plan db) (reconcile_routes N router owner p plan) h
    (\<lambda>h _. transaction_acknowledged h \<or> realized N router owner p plan db)"
proof -
  let ?G = "commits_to N router owner p plan db" and ?Q = "\<lambda>h _. transaction_acknowledged h \<or> realized N router owner p plan db"
  have G: "?G NamedUuid" "\<And>x. ?G (Prepare x)" by simp_all
  have found: "lr \<in> set (nb_routers db) \<and> lr_name lr = router" if "find (\<lambda>lr. lr_name lr = router) (nb_routers db) = Some lr" for lr
    using that by (auto simp: find_Some_iff)
  have admitted: "honest db ?G (admit owner p lr current plan) h (\<lambda>_ _. True)" for lr current h
    by (auto simp: admit_def admit_plan_def note_router_port_def split: option.split prod.split
        intro!: honesty honest_bind [OF honest_loop [where I = "\<lambda>_ _ _. True"]] honest_call)
  have start: "session_inv db owner p by_hop [] (first_wait lr, by_hop, []) h" if "lr = find (\<lambda>lr. lr_name lr = router) (nb_routers db)" for lr by_hop h
  proof -
    have "apply_ops (first_wait lr) db = Some db"
      using found router_unique [OF rest] that [symmetric] by (cases lr) (auto simp: first_wait_def router_wait_holds)
    then show ?thesis by (auto simp: session_inv_def session_rows_def new_rows_ok_def map_idI intro!: exI [of _ "[]"])
  qed
  have sessions: "honest db ?G (efold (ensure_session N owner p) (first_wait lr, by_hop, []) (dp_sessions plan)) h
      (\<lambda>h st. session_inv db owner p by_hop (dp_sessions plan) st h)"
    if "lr = find (\<lambda>lr. lr_name lr = router) (nb_routers db)" "hop_rows db owner p plan by_hop" for lr by_hop h
  proof (rule honest_loop [where I = "\<lambda>done st h. session_inv db owner p by_hop done st h"])
    fix "done" s todo st and h :: nb_hist
    assume ss: "dp_sessions plan = done @ s # todo" and I: "session_inv db owner p by_hop done st h"
    obtain hop t where s: "s = (hop, t)" by (cases s)
    have "hop \<notin> fst ` set done" "map_of (dp_sessions plan) hop \<noteq> None"
      using compiled_plan(1) [OF plan] by (auto simp: ss s map_of_eq_None_iff)
    with I that(2) show "honest db ?G (ensure_session N owner p st s) h (\<lambda>h st. session_inv db owner p by_hop (done @ [s]) st h)"
      unfolding s by (intro ensure_session_honest rest G)
  qed (rule start [OF that(1)])
  have rest_of: "honest db ?G (ebind (nb_call FindBfd nb_bfds_of) (\<lambda>sessions. ebind (admit owner p lr (linked_routes db router) plan) (\<lambda>_.
      ebind (lift_res Errorf (foldr_res (note_session owner p plan) [] sessions)) (\<lambda>by_hop.
      ebind (efold (ensure_session N owner p) (first_wait lr, by_hop, []) (dp_sessions plan)) (\<lambda>(ops, by_hop, wanted).
      ebind (lift_res Errorf (foldr_res (want_intent N owner by_hop) [] (dp_routes plan))) (\<lambda>desired.
      apply_routes router owner (linked_routes db router) sessions desired ops wanted)))))) h ?Q"
    if lr: "lr = find (\<lambda>lr. lr_name lr = router) (nb_routers db)" and some: "lr = None \<longrightarrow> dp_routes plan = []" for lr h
  proof (rule honest_call)
    fix y sessions
    assume "nb_bfds_of y = Some sessions" "tells db FindBfd y"
    then have sess: "sessions = nb_bfds db" by (cases y) auto
    have router: "(\<exists>lr\<in>set (nb_routers db). lr_name lr = router) \<or> dp_routes plan = []"
      using some lr found by (cases lr) auto
    show "honest db ?G (ebind (admit owner p lr (linked_routes db router) plan) (\<lambda>_.
      ebind (lift_res Errorf (foldr_res (note_session owner p plan) [] sessions)) (\<lambda>by_hop.
      ebind (efold (ensure_session N owner p) (first_wait lr, by_hop, []) (dp_sessions plan)) (\<lambda>(ops, by_hop, wanted).
      ebind (lift_res Errorf (foldr_res (want_intent N owner by_hop) [] (dp_routes plan))) (\<lambda>desired.
      apply_routes router owner (linked_routes db router) sessions desired ops wanted))))) (h @ [(FindBfd, y)]) ?Q"
      unfolding sess
    proof (rule honest_bind [OF admitted], rule honest_pure)
      fix h1 by_hop0
      assume "foldr_res (note_session owner p plan) [] (nb_bfds db) = Inr by_hop0"
      then have hops: "hop_rows db owner p plan by_hop0" by (rule note_sessions)
      show "honest db ?G (ebind (efold (ensure_session N owner p) (first_wait lr, by_hop0, []) (dp_sessions plan)) (\<lambda>(ops, by_hop, wanted).
        ebind (lift_res Errorf (foldr_res (want_intent N owner by_hop) [] (dp_routes plan))) (\<lambda>desired.
        apply_routes router owner (linked_routes db router) (nb_bfds db) desired ops wanted))) h1 ?Q"
      proof (rule honest_bind [OF sessions [OF lr hops]])
        fix h2 and st :: session_state
        assume I: "session_inv db owner p by_hop0 (dp_sessions plan) st h2"
        obtain ops by_hop wanted where st: "st = (ops, by_hop, wanted)" by (rule prod_cases3)
        show "honest db ?G (case st of (ops, by_hop, wanted) \<Rightarrow>
          ebind (lift_res Errorf (foldr_res (want_intent N owner by_hop) [] (dp_routes plan))) (\<lambda>desired.
          apply_routes router owner (linked_routes db router) (nb_bfds db) desired ops wanted)) h2 ?Q"
          unfolding st split_conv
          by (rule honest_pure) (rule apply_routes_honest [OF rest compiled_plan(2) [OF plan] compiled_hops [OF plan] I [unfolded st] _ router])
      qed
    qed
  qed simp
  show ?thesis
  proof (cases "owner = []")
    case False
    show ?thesis
      unfolding reconcile_routes_def if_not_P [OF False]
    proof (rule honest_call)
      fix y lr
      assume "nb_router_of y = Some lr" "tells db (GetRouter router True) y"
      then have lr: "lr = find (\<lambda>lr. lr_name lr = router) (nb_routers db)" by (cases y) auto
      have none: "linked_routes db router = []" if "lr = None"
      proof -
        have "find (\<lambda>lr. lr_name lr = router) (nb_routers db) = None" using lr that by simp
        then show ?thesis by (auto simp: linked_routes_def find_None_iff filter_empty_conv)
      qed
      have read: "honest db ?G (read_routes router lr) h (\<lambda>_ rs. rs = linked_routes db router)" for h
      proof (cases lr)
        case (Some r)
        have "honest db ?G (ebind (nb_call (ListRoutes router []) nb_routes_of) go) h (\<lambda>_ rs. rs = linked_routes db router)"
        proof (rule honest_call)
          fix y rs
          assume "nb_routes_of y = Some rs" "tells db (ListRoutes router []) y"
          then have "rs = linked_routes db router" by (cases y) (auto simp: tagged_def)
          then show "honest db ?G (go rs) (h @ [(ListRoutes router [], y)]) (\<lambda>_ rs. rs = linked_routes db router)" by (intro honest_go)
        qed simp
        from this [unfolded ebind_go] show ?thesis by (simp add: read_routes_def Some)
      qed (use none in \<open>auto simp: read_routes_def intro!: honest_go\<close>)
      show "honest db ?G (if lr = None \<and> dp_routes plan \<noteq> [] then leave (Errorf ''destination router absent'')
        else ebind (read_routes router lr) (\<lambda>current. ebind (nb_call FindBfd nb_bfds_of) (\<lambda>sessions. ebind (admit owner p lr current plan) (\<lambda>_.
        ebind (lift_res Errorf (foldr_res (note_session owner p plan) [] sessions)) (\<lambda>by_hop.
        ebind (efold (ensure_session N owner p) (first_wait lr, by_hop, []) (dp_sessions plan)) (\<lambda>(ops, by_hop, wanted).
        ebind (lift_res Errorf (foldr_res (want_intent N owner by_hop) [] (dp_routes plan))) (\<lambda>desired.
        apply_routes router owner current sessions desired ops wanted))))))) (h @ [(GetRouter router True, y)]) ?Q"
      proof (cases "lr = None \<and> dp_routes plan \<noteq> []")
        case True
        show ?thesis unfolding if_P [OF True] by (rule honest_leave)
      next
        case False
        then have some: "lr = None \<longrightarrow> dp_routes plan = []" by blast
        show ?thesis
          unfolding if_not_P [OF False]
        proof (rule honest_bind [OF read])
          fix h2 current
          assume current: "current = linked_routes db router"
          show "honest db ?G (ebind (nb_call FindBfd nb_bfds_of) (\<lambda>sessions. ebind (admit owner p lr current plan) (\<lambda>_.
            ebind (lift_res Errorf (foldr_res (note_session owner p plan) [] sessions)) (\<lambda>by_hop.
            ebind (efold (ensure_session N owner p) (first_wait lr, by_hop, []) (dp_sessions plan)) (\<lambda>(ops, by_hop, wanted).
            ebind (lift_res Errorf (foldr_res (want_intent N owner by_hop) [] (dp_routes plan))) (\<lambda>desired.
            apply_routes router owner current sessions desired ops wanted)))))) h2 ?Q"
            unfolding current by (rule rest_of [OF lr some])
        qed
      qed
    qed simp
  qed (simp add: reconcile_routes_def honest_leave)
qed

section \<open>Property\<close>

definition settles_routes :: "native_names \<Rightarrow> string \<Rightarrow> string \<Rightarrow> string \<Rightarrow> dest_plan \<Rightarrow> nb_db \<Rightarrow> bool" where
  "settles_routes N router owner p plan db \<longleftrightarrow>
     every_step (\<lambda>h q. snapshot db h \<longrightarrow> commits_to N router owner p plan db q) (reconcile_routes N router owner p plan)
     \<and> every_outcome (\<lambda>h y. snapshot db h \<and> y = Inr () \<longrightarrow> transaction_acknowledged h \<or> realized N router owner p plan db) (reconcile_routes N router owner p plan)"

text \<open>A router with one foreign default route, and an old session of the owner.\<close>

definition ex_names :: native_names where
  "ex_names = \<lparr>nn_vendor = ''kube-ovn'', nn_bfd_ecmp = ''ecmp_symmetric_reply'', nn_default_vpc = ''ovn-cluster'', nn_policy_src = ''policySrc''\<rparr>"

definition ex_db :: nb_db where
  "ex_db = \<lparr>nb_routers = [\<lparr>lr_uuid = ''l1'', lr_name = ''tenant'', lr_ports = [''p1'', ''p2''], lr_routes = [''s1'']\<rparr>],
     nb_routes = [\<lparr>rt_uuid = ''s1'', rt_prefix = ''0.0.0.0/0'', rt_nexthop = ''172.20.0.254'', rt_policy = Some ''dst-ip'', rt_table = [], rt_bfd = None,
       rt_ids = [(''vendor'', ''kube-ovn'')], rt_fields = [], rt_options = [], rt_other = []\<rparr>],
     nb_bfds = [\<lparr>fd_uuid = ''b1'', fd_port = ''bfd@tenant'', fd_dst = ''172.20.0.9'', fd_min_rx = Some 100, fd_min_tx = Some 100, fd_mult = Some 3,
       fd_ids = [(dest_owner_key, ''uid1'')]\<rparr>],
     nb_policies = []\<rparr>"

lemma ex_db_rest: "at_rest ex_db"
  by (simp add: at_rest_def ex_db_def indexed_def clean_up_def linked_ids_def clear_weak_def)

text \<open>
  C8: for a compiled plan and a database at rest, in every run of \<open>ReconcileDestinationRoutes\<close> whose reads return what the database holds
  and whose new names are fresh: the transaction it sends commits on that database, and afterwards the
  owned routes of the router are exactly the routes of the plan, one row for each, and the owned BFD sessions exactly
  its sessions with their timers; a run that succeeds either sent such a transaction or found all of this in place.
\<close>
theorem native_routes_settle:
  assumes "at_rest db" and "compile input = Inr plan"
  shows "settles_routes N router owner p plan db"
proof -
  note run = reconcile_routes_honest [OF assms, of N router owner p "[]", unfolded honest_def]
  show ?thesis
    unfolding settles_routes_def
    by (intro conjI every_stepI [OF run] every_outcomeI [OF always_mono [OF run]]) (auto split: sum.splits)
qed

theorem native_routes_settle_witness:
  "at_rest ex_db \<and> (\<exists>plan. compile [ex_intent] = Inr plan \<and> settles_routes ex_names ''tenant'' ''uid1'' ''bfd@tenant'' plan ex_db)"
proof -
  obtain plan where plan: "compile [ex_intent] = Inr plan" using ex_compile by blast
  from native_routes_settle [OF ex_db_rest plan] plan ex_db_rest show ?thesis by blast
qed

end
