(* ===== verification/Native_Laws.thy ===== *)
theory Native_Laws
  imports Native_Commit
begin

text \<open>
  What the writer of destination routes may change. Every transaction it sends is guarded: a row is unlinked, updated or
  deleted only behind a wait on the tags it was read with, and only when they name the owner. So whatever the database looks like
  when the transaction arrives, it either aborts or leaves the rows of everybody else alone.
\<close>

section \<open>Guarded transactions\<close>

definition ids_owned :: "string \<Rightarrow> nb_op set \<Rightarrow> string \<Rightarrow> bool" where
  "ids_owned owner ops u \<longleftrightarrow> (\<exists>r. route_ids_wait r \<in> ops \<and> rt_uuid r = u \<and> row_owned owner (rt_ids r))"

definition bfd_guarded :: "string \<Rightarrow> nb_op set \<Rightarrow> string \<Rightarrow> bool" where
  "bfd_guarded owner ops u \<longleftrightarrow> (\<exists>b. bfd_ids_wait b \<in> ops \<and> fd_uuid b = u \<and> row_owned owner (fd_ids b))"

fun guarded_change :: "string \<Rightarrow> nb_op set \<Rightarrow> nb_change \<Rightarrow> bool" where
  "guarded_change owner ops (CreateBfd b) \<longleftrightarrow> row_owned owner (fd_ids b)"
| "guarded_change owner ops (UpdateBfd b) \<longleftrightarrow> bfd_guarded owner ops (fd_uuid b)"
| "guarded_change owner ops (DeleteBfd b) \<longleftrightarrow> bfd_guarded owner ops (fd_uuid b)"
| "guarded_change owner ops (CreateRoute r) \<longleftrightarrow> row_owned owner (rt_ids r)"
| "guarded_change owner ops (UnlinkRoutes name ids) \<longleftrightarrow> (\<forall>u\<in>set ids. ids_owned owner ops u)"
| "guarded_change owner ops (LinkRoutes name ids) \<longleftrightarrow> (\<forall>u\<in>set ids. \<exists>r. Change (CreateRoute r) \<in> ops \<and> rt_uuid r = u)"

fun guarded_op :: "string \<Rightarrow> nb_op set \<Rightarrow> nb_op \<Rightarrow> bool" where
  "guarded_op owner ops (Wait t w c u r) = True"
| "guarded_op owner ops (Change x) = guarded_change owner ops x"

primrec guarded_from :: "string \<Rightarrow> nb_op set \<Rightarrow> nb_op list \<Rightarrow> bool" where
  "guarded_from owner ops [] = True"
| "guarded_from owner ops (x # xs) \<longleftrightarrow> guarded_op owner ops x \<and> guarded_from owner (insert x ops) xs"

abbreviation guarded :: "string \<Rightarrow> nb_op list \<Rightarrow> bool" where
  "guarded owner \<equiv> guarded_from owner {}"

lemma guarded_append [simp]: "guarded_from owner ops (xs @ ys) \<longleftrightarrow> guarded_from owner ops xs \<and> guarded_from owner (ops \<union> set xs) ys"
  by (induction xs arbitrary: ops) auto

lemma guarded_waits [simp]:
  "guarded_op owner ops (destination_bfd_wait p d x)" "guarded_op owner ops (router_wait lr)"
  "guarded_op owner ops (route_ids_wait r)" "guarded_op owner ops (bfd_ids_wait b)"
  by (simp_all add: destination_bfd_wait_def router_wait_def route_ids_wait_def bfd_ids_wait_def destination_wait_def Let_def split: option.split)

section \<open>What a guarded transaction leaves alone\<close>

definition foreign_routes :: "string \<Rightarrow> nb_db \<Rightarrow> nb_route list" where
  "foreign_routes owner db = filter (\<lambda>r. \<not> row_owned owner (rt_ids r)) (nb_routes db)"

definition foreign_bfds :: "string \<Rightarrow> nb_db \<Rightarrow> nb_bfd list" where
  "foreign_bfds owner db = filter (\<lambda>b. \<not> row_owned owner (fd_ids b)) (nb_bfds db)"

text \<open>The links of a router to rows of a given set.\<close>

definition links_to :: "string set \<Rightarrow> nb_db \<Rightarrow> (string \<times> string \<times> string list) list" where
  "links_to ids db = map (\<lambda>lr. (lr_uuid lr, lr_name lr, filter (\<lambda>u. u \<in> ids) (lr_routes lr))) (nb_routers db)"

definition foreign_ids :: "string \<Rightarrow> nb_db \<Rightarrow> string set" where
  "foreign_ids owner db = rt_uuid ` set (foreign_routes owner db)"

text \<open>
  The rest of the database after a transaction: the sessions of others are there as they were, every router keeps its links to
  the routes of others, and these routes and all policies keep every column, except that the database clears a reference
  to a session that is not there any more; as the sessions of others all are, it was one of the owner's that
  the transaction removed. (A route of others that no router links to is collected, as in every transaction.)
\<close>

abbreviation session_ids :: "nb_db \<Rightarrow> string set" where
  "session_ids db \<equiv> fd_uuid ` set (nb_bfds db)"

definition left_alone :: "string \<Rightarrow> nb_db \<Rightarrow> nb_db \<Rightarrow> bool" where
  "left_alone owner db db' \<longleftrightarrow> foreign_bfds owner db' = foreign_bfds owner db
     \<and> links_to (foreign_ids owner db) db' = links_to (foreign_ids owner db) db
     \<and> foreign_routes owner db' = map (clear_weak (session_ids db')) (filter (\<lambda>r. rt_uuid r \<in> linked_ids db) (foreign_routes owner db))
     \<and> nb_policies db' = map (\<lambda>p. p\<lparr>po_sessions := filter (\<lambda>u. u \<in> session_ids db') (po_sessions p)\<rparr>) (nb_policies db)"

definition isolated :: "string \<Rightarrow> nb_op list \<Rightarrow> bool" where
  "isolated owner ops \<longleftrightarrow> (\<forall>db db'. commit ops db = Some db' \<longrightarrow> left_alone owner db db')"

text \<open>Inside a transaction.\<close>

definition steady_db :: "string \<Rightarrow> nb_db \<Rightarrow> nb_db \<Rightarrow> bool" where
  "steady_db owner db0 db \<longleftrightarrow> foreign_bfds owner db = foreign_bfds owner db0 \<and> foreign_routes owner db = foreign_routes owner db0
     \<and> links_to (foreign_ids owner db0) db = links_to (foreign_ids owner db0) db0 \<and> nb_policies db = nb_policies db0"

definition seen_ops :: "string \<Rightarrow> nb_db \<Rightarrow> nb_op set \<Rightarrow> bool" where
  "seen_ops owner db0 ops \<longleftrightarrow> (\<forall>u. ids_owned owner ops u \<longrightarrow> u \<notin> foreign_ids owner db0)
     \<and> (\<forall>u. bfd_guarded owner ops u \<longrightarrow> u \<notin> fd_uuid ` set (foreign_bfds owner db0))
     \<and> (\<forall>r. Change (CreateRoute r) \<in> ops \<longrightarrow> rt_uuid r \<notin> foreign_ids owner db0)"

lemma row_owned_same: "same_map a b \<Longrightarrow> row_owned owner a = row_owned owner b"
  by (simp add: row_owned_def mget_def same_map_iff)

lemma wait_differs [simp]: "route_ids_wait r \<noteq> bfd_ids_wait b" "bfd_ids_wait b \<noteq> route_ids_wait r" "route_ids_wait r \<noteq> Change x" "bfd_ids_wait b \<noteq> Change x"
  "Change x \<noteq> route_ids_wait r" "Change x \<noteq> bfd_ids_wait b"
  by (simp_all add: route_ids_wait_def bfd_ids_wait_def destination_wait_def)

lemma route_ids_wait_inject [simp]: "route_ids_wait r = route_ids_wait x \<longleftrightarrow> rt_uuid r = rt_uuid x \<and> rt_ids r = rt_ids x"
  and bfd_ids_wait_inject [simp]: "bfd_ids_wait b = bfd_ids_wait y \<longleftrightarrow> fd_uuid b = fd_uuid y \<and> fd_ids b = fd_ids y"
  by (auto simp: route_ids_wait_def bfd_ids_wait_def destination_wait_def)

lemma seen_wait:
  assumes "seen_ops owner db0 ops" and "steady_db owner db0 db" and "apply_op db x = Some db'"
  shows "seen_ops owner db0 (insert x ops)"
proof -
  have "u \<notin> foreign_ids owner db0" if "ids_owned owner (insert x ops) u" for u
  proof (cases "ids_owned owner ops u")
    case False
    with that obtain r where "x = route_ids_wait r" "rt_uuid r = u" "row_owned owner (rt_ids r)" by (auto simp: ids_owned_def)
    with assms(3) have "row_owned owner (rt_ids y)" if "y \<in> set (nb_routes db)" "rt_uuid y = u" for y
      using that row_owned_same by (auto simp: route_ids_wait_holds split: if_splits)
    with assms(2) show ?thesis by (auto simp: foreign_ids_def steady_db_def dest!: arg_cong [of "foreign_routes owner db" _ set]) (auto simp: foreign_routes_def)
  qed (use assms(1) in \<open>simp add: seen_ops_def\<close>)
  moreover have "u \<notin> fd_uuid ` set (foreign_bfds owner db0)" if "bfd_guarded owner (insert x ops) u" for u
  proof (cases "bfd_guarded owner ops u")
    case False
    with that obtain b where "x = bfd_ids_wait b" "fd_uuid b = u" "row_owned owner (fd_ids b)" by (auto simp: bfd_guarded_def)
    with assms(3) have "row_owned owner (fd_ids y)" if "y \<in> set (nb_bfds db)" "fd_uuid y = u" for y
      using that row_owned_same by (auto simp: bfd_ids_wait_holds split: if_splits)
    with assms(2) show ?thesis by (auto simp: steady_db_def dest!: arg_cong [of "foreign_bfds owner db" _ set]) (auto simp: foreign_bfds_def)
  qed (use assms(1) in \<open>simp add: seen_ops_def\<close>)
  moreover have "rt_uuid r \<notin> foreign_ids owner db0" if "Change (CreateRoute r) \<in> insert x ops" for r
  proof (cases "Change (CreateRoute r) \<in> ops")
    case False
    with that assms(3) have "rt_uuid r \<notin> rt_uuid ` set (nb_routes db)" by (auto split: if_splits)
    with assms(2) show ?thesis by (auto simp: foreign_ids_def steady_db_def dest!: arg_cong [of "foreign_routes owner db" _ set]) (auto simp: foreign_routes_def)
  qed (use assms(1) in \<open>simp add: seen_ops_def\<close>)
  ultimately show ?thesis by (simp add: seen_ops_def)
qed

lemma links_to_change:
  assumes "\<And>us. filter (\<lambda>u. u \<in> ids) (f us) = filter (\<lambda>u. u \<in> ids) us"
  shows "links_to ids (db\<lparr>nb_routers := map (change_router name f) (nb_routers db)\<rparr>) = links_to ids db"
  by (simp add: links_to_def change_router_def assms)

lemma filter_map_id:
  assumes "\<And>x. x \<in> set xs \<Longrightarrow> P (f x) = P x" and "\<And>x. x \<in> set xs \<Longrightarrow> P x \<Longrightarrow> f x = x"
  shows "filter P (map f xs) = filter P xs"
  using assms by (induction xs) auto

lemma foreign_bfds_update:
  assumes "fd_uuid b \<notin> fd_uuid ` set (foreign_bfds owner db)"
  shows "foreign_bfds owner (db\<lparr>nb_bfds := map (copy_timers b) (nb_bfds db)\<rparr>) = foreign_bfds owner db"
  using assms by (auto simp: foreign_bfds_def copy_timers_def image_iff split: if_splits intro!: filter_map_id)

lemma guarded_step:
  assumes "guarded_op owner ops x" and "seen_ops owner db0 ops" and "steady_db owner db0 db" and "apply_op db x = Some db'"
  shows "steady_db owner db0 db'"
proof (cases x)
  case (Change c)
  note seen = assms(2) [unfolded seen_ops_def]
  show ?thesis
  proof (cases c)
    case (UpdateBfd b)
    have "fd_uuid b \<notin> fd_uuid ` set (foreign_bfds owner db)" using assms(1,3) seen UpdateBfd Change by (auto simp: steady_db_def)
    then have "foreign_bfds owner (db\<lparr>nb_bfds := map (copy_timers b) (nb_bfds db)\<rparr>) = foreign_bfds owner db"
      by (rule foreign_bfds_update)
    then show ?thesis using assms(3,4) UpdateBfd Change by (auto simp: steady_db_def foreign_routes_def links_to_def)
  next
    case (DeleteBfd b)
    have "fd_uuid b \<notin> fd_uuid ` set (foreign_bfds owner db)" using assms(1,3) seen DeleteBfd Change by (auto simp: steady_db_def)
    then have "foreign_bfds owner (db\<lparr>nb_bfds := filter (\<lambda>x. fd_uuid x \<noteq> fd_uuid b) (nb_bfds db)\<rparr>) = foreign_bfds owner db"
      by (auto simp: foreign_bfds_def image_iff intro!: filter_cong)
    then show ?thesis using assms(3,4) DeleteBfd Change by (auto simp: steady_db_def foreign_routes_def links_to_def)
  next
    case (UnlinkRoutes name ids)
    have "links_to (foreign_ids owner db0) (db\<lparr>nb_routers := map (change_router name (filter (\<lambda>u. u \<notin> set ids))) (nb_routers db)\<rparr>) = links_to (foreign_ids owner db0) db"
      using assms(1) seen UnlinkRoutes Change by (intro links_to_change) (auto intro!: filter_cong)
    then show ?thesis using assms(3,4) UnlinkRoutes Change by (auto simp: steady_db_def foreign_routes_def foreign_bfds_def)
  next
    case (LinkRoutes name ids)
    have "links_to (foreign_ids owner db0) (db\<lparr>nb_routers := map (change_router name (\<lambda>us. us @ filter (\<lambda>u. u \<notin> set us) ids)) (nb_routers db)\<rparr>) = links_to (foreign_ids owner db0) db"
      using assms(1) seen LinkRoutes Change by (intro links_to_change) (fastforce simp: filter_empty_conv)
    then show ?thesis using assms(3,4) LinkRoutes Change by (auto simp: steady_db_def foreign_routes_def foreign_bfds_def)
  next
    case (CreateBfd b)
    with assms(1,4) Change have "row_owned owner (fd_ids b)" "db' = db\<lparr>nb_bfds := nb_bfds db @ [b]\<rparr>" by (simp_all split: if_splits)
    then show ?thesis using assms(3) by (simp add: steady_db_def foreign_routes_def foreign_bfds_def links_to_def)
  next
    case (CreateRoute r)
    with assms(1,4) Change have "row_owned owner (rt_ids r)" "db' = db\<lparr>nb_routes := nb_routes db @ [r]\<rparr>" by (simp_all split: if_splits)
    then show ?thesis using assms(3) by (simp add: steady_db_def foreign_routes_def foreign_bfds_def links_to_def)
  qed
next
  case (Wait t w c u r)
  with assms(4) have "db' = db" by (simp split: if_splits)
  with assms(3) show ?thesis by simp
qed

lemma guarded_ops:
  "guarded_from owner ops xs \<Longrightarrow> seen_ops owner db0 ops \<Longrightarrow> steady_db owner db0 db \<Longrightarrow> apply_ops xs db = Some db' \<Longrightarrow> steady_db owner db0 db'"
proof (induction xs arbitrary: ops db)
  case (Cons x xs)
  from Cons.prems(4) obtain db1 where db1: "apply_op db x = Some db1" "apply_ops xs db1 = Some db'" by (auto split: option.splits)
  from Cons.prems(1) have g: "guarded_op owner ops x" "guarded_from owner (insert x ops) xs" by simp_all
  have "steady_db owner db0 db1" by (rule guarded_step [OF g(1) Cons.prems(2,3) db1(1)])
  moreover have "seen_ops owner db0 (insert x ops)" using Cons.prems(2,3) db1(1) by (rule seen_wait)
  ultimately show ?case using g(2) db1(2) Cons.IH by blast
qed simp

lemma links_same_ids:
  assumes "links_to ids db' = links_to ids db" and "u \<in> ids"
  shows "u \<in> linked_ids db' \<longleftrightarrow> u \<in> linked_ids db"
proof -
  have "u \<in> linked_ids x \<longleftrightarrow> (\<exists>l\<in>set (links_to ids x). u \<in> set (snd (snd l)))" for x
    using assms(2) by (auto simp: linked_ids_def links_to_def)
  with assms(1) show ?thesis by simp
qed

lemma guarded_isolated:
  assumes "guarded owner ops"
  shows "isolated owner ops"
  unfolding isolated_def
proof (intro allI impI)
  fix db db'
  assume "commit ops db = Some db'"
  then obtain db1 where run: "apply_ops ops db = Some db1" and db': "db' = clean_up db1" by (auto simp: commit_def split: option.splits if_splits)
  have "steady_db owner db db1"
    by (rule guarded_ops [OF assms _ _ run]) (simp_all add: seen_ops_def ids_owned_def bfd_guarded_def steady_db_def)
  then have same: "foreign_bfds owner db1 = foreign_bfds owner db" "foreign_routes owner db1 = foreign_routes owner db"
    "links_to (foreign_ids owner db) db1 = links_to (foreign_ids owner db) db" "nb_policies db1 = nb_policies db"
    by (simp_all add: steady_db_def)
  let ?live = "fd_uuid ` set (nb_bfds db1)"
  have ids: "rt_ids (clear_weak L r) = rt_ids r" for L r by (simp add: clear_weak_def split: option.split)
  have "foreign_routes owner db' = map (clear_weak ?live) (filter (\<lambda>r. rt_uuid r \<in> linked_ids db1) (foreign_routes owner db1))"
    by (simp add: db' clean_up_def foreign_routes_def filter_map comp_def ids conj_commute)
  also have "filter (\<lambda>r. rt_uuid r \<in> linked_ids db1) (foreign_routes owner db1) = filter (\<lambda>r. rt_uuid r \<in> linked_ids db) (foreign_routes owner db)"
    unfolding same(2) by (rule filter_cong) (auto simp: links_same_ids [OF same(3)] foreign_ids_def)
  finally have "foreign_routes owner db' = map (clear_weak ?live) (filter (\<lambda>r. rt_uuid r \<in> linked_ids db) (foreign_routes owner db))" .
  moreover have "session_ids db' = ?live" by (simp add: db' clean_up_def)
  moreover have "foreign_bfds owner db' = foreign_bfds owner db" "links_to (foreign_ids owner db) db' = links_to (foreign_ids owner db) db"
    using same(1,3) by (simp_all add: db' clean_up_def foreign_bfds_def links_to_def)
  moreover have "nb_policies db' = map (\<lambda>p. p\<lparr>po_sessions := filter (\<lambda>u. u \<in> ?live) (po_sessions p)\<rparr>) (nb_policies db)"
    by (simp add: db' clean_up_def same(4))
  ultimately show "left_alone owner db db'" unfolding left_alone_def by simp
qed

section \<open>The writer sends guarded transactions\<close>

fun guarded_request :: "string \<Rightarrow> nb_req \<Rightarrow> bool" where
  "guarded_request owner (Transact n ops) = guarded owner ops"
| "guarded_request owner q = True"

text \<open>\<open>keeps ok p I\<close>: every request is one of \<open>ok\<close>, and a result that is no error satisfies \<open>I\<close>.\<close>

definition keeps :: "('q \<Rightarrow> bool) \<Rightarrow> ('q, 'r, 'e + 'a) prog \<Rightarrow> ('a \<Rightarrow> bool) \<Rightarrow> bool" where
  "keeps ok p I \<longleftrightarrow> steady ok p (\<lambda>y. case y of Inl e \<Rightarrow> True | Inr a \<Rightarrow> I a)"

named_theorems keeping

lemma keeps_go [keeping]: "I a \<Longrightarrow> keeps ok (go a) I"
  and keeps_leave [keeping]: "keeps ok (leave e) I"
  and keeps_lift [keeping]: "(\<And>a. m = Inr a \<Longrightarrow> I a) \<Longrightarrow> keeps ok (lift_res g m) I"
  by (auto simp: keeps_def split: sum.split)

lemma keeps_bind: "keeps ok p J \<Longrightarrow> (\<And>a. J a \<Longrightarrow> keeps ok (f a) I) \<Longrightarrow> keeps ok (ebind p f) I"
  unfolding keeps_def steady_ebind by (erule steady_mono) (auto split: sum.splits)

lemma keeps_pure: "(\<And>a. m = Inr a \<Longrightarrow> keeps ok (f a) I) \<Longrightarrow> keeps ok (ebind (lift_res g m) f) I"
  by (cases m) (simp_all add: ebind_lift_res keeping)

lemma keeps_call: "ok q \<Longrightarrow> (\<And>y a. prj y = Some a \<Longrightarrow> keeps ok (f a) I) \<Longrightarrow> keeps ok (ebind (nb_call q prj) f) I"
  by (auto simp: keeps_def nb_call_def split: nb_resp.split option.split)

lemma keeps_loop:
  assumes "I s" and "\<And>s x. x \<in> set xs \<Longrightarrow> I s \<Longrightarrow> keeps ok (f s x) I"
  shows "keeps ok (efold f s xs) I"
  using assms by (induction xs arbitrary: s) (auto intro: keeping keeps_bind)

lemma keeps_mono: "keeps ok p J \<Longrightarrow> (\<And>a. J a \<Longrightarrow> I a) \<Longrightarrow> keeps ok p I"
  unfolding keeps_def by (erule steady_mono) (auto split: sum.splits)

lemma keeps_prepare: "keeps (guarded_request owner) (f [Change x]) I \<Longrightarrow> keeps (guarded_request owner) (ebind (prepare x) f) I"
  unfolding prepare_def by (rule keeps_call) (auto split: option.splits)

lemma keeps_name: "(\<And>name. keeps (guarded_request owner) (f name) I) \<Longrightarrow> keeps (guarded_request owner) (ebind (nb_call NamedUuid nb_name_of) f) I"
  by (rule keeps_call) auto

lemma ids_owned_mono: "ids_owned owner ops u \<Longrightarrow> ops \<subseteq> ops' \<Longrightarrow> ids_owned owner ops' u"
  by (auto simp: ids_owned_def)

definition owned_sessions :: "string \<Rightarrow> nb_bfd smap \<Rightarrow> bool" where
  "owned_sessions owner m \<longleftrightarrow> (\<forall>hop b. map_of m hop = Some b \<longrightarrow> row_owned owner (fd_ids b))"

definition owned_desired :: "string \<Rightarrow> nb_route smap \<Rightarrow> bool" where
  "owned_desired owner m \<longleftrightarrow> (\<forall>r\<in>snd ` set m. row_owned owner (rt_ids r))"

lemma note_sessions_owned: "foldr_res (note_session owner p plan) [] sessions = Inr m \<Longrightarrow> owned_sessions owner m"
  by (erule foldr_res_invariant [where I = "\<lambda>_. owned_sessions owner"]) (auto simp: owned_sessions_def note_session_def split: if_splits)

lemma ensure_session_guarded:
  assumes "guarded owner ops" and "owned_sessions owner by_hop"
  shows "keeps (guarded_request owner) (ensure_session N owner p (ops, by_hop, wanted) s) (\<lambda>(ops', by_hop', wanted'). guarded owner ops' \<and> owned_sessions owner by_hop')"
proof (cases s)
  case (Pair hop t)
  have new: "row_owned owner (fd_ids (new_session N owner p name hop t))" for name
    by (simp add: new_session_def row_owned_def mget_def dest_owner_key_def)
  have old: "row_owned owner (fd_ids b)" if "map_of by_hop hop = Some b" for b
    using assms(2) that by (simp add: owned_sessions_def)
  have "bfd_guarded owner (insert (bfd_ids_wait b) ops') (fd_uuid (set_timers b t))" if "map_of by_hop hop = Some b" for b ops'
    using old [OF that] by (auto simp: bfd_guarded_def set_timers_def intro!: exI [of _ b])
  moreover have "fd_ids (set_timers b t) = fd_ids b" for b by (simp add: set_timers_def)
  moreover have "owned_sessions owner (mput hop b by_hop)" if "row_owned owner (fd_ids b)" for b
    using assms(2) that by (auto simp: owned_sessions_def)
  ultimately show ?thesis
    using assms new old
    by (auto simp: ensure_session_def Pair Let_def split: option.split intro!: keeping keeps_name keeps_prepare)
qed

lemma values_mput: "snd ` set (mput k v m) \<subseteq> insert v (snd ` set m)"
  by (induction m) auto

lemma put_route_owned: "owned_desired owner m \<Longrightarrow> row_owned owner (rt_ids r) \<Longrightarrow> owned_desired owner (put_route m r)"
  unfolding owned_desired_def put_route_def
proof
  fix x
  assume m: "\<forall>r\<in>snd ` set m. row_owned owner (rt_ids r)" "row_owned owner (rt_ids r)" and "x \<in> snd ` set (mput (destination_route_key r) r m)"
  then have "x \<in> insert r (snd ` set m)" by (intro subsetD [OF values_mput])
  with m show "row_owned owner (rt_ids x)" by fastforce
qed

lemma want_intent_owned:
  assumes "want_intent N owner by_hop m r = Inr m'" and "owned_desired owner m"
  shows "owned_desired owner m'"
proof -
  have own: "row_owned owner (intent_ids N owner r)" by (simp add: intent_ids_def row_owned_def mget_def dest_owner_key_def)
  have hop: "owned_desired owner m'" if "want_hop N owner by_hop r child m hop = Inr m'" "owned_desired owner m" for child m m' hop
    using that own by (auto simp: want_hop_def hop_route_def intro!: put_route_owned split: option.splits)
  have hops: "owned_desired owner m'" if "foldr_res (want_hop N owner by_hop r child) m hs = Inr m'" "owned_desired owner m" for child m m' hs
    using that(1) by (rule foldr_res_invariant [where I = "\<lambda>_. owned_desired owner"]) (use that(2) hop in blast)+
  show ?thesis
    using assms own by (auto simp: want_intent_def guard_route_def dest!: hops intro!: put_route_owned split: option.splits)
qed

text \<open>The rows that leave, and the rows that come.\<close>

definition removals_guarded :: "string \<Rightarrow> nb_op list \<Rightarrow> string list \<Rightarrow> bool" where
  "removals_guarded owner ops dels \<longleftrightarrow> guarded owner ops \<and> (\<forall>u\<in>set dels. ids_owned owner (set ops) u)"

definition additions_made :: "nb_op list \<Rightarrow> string list \<Rightarrow> bool" where
  "additions_made ops adds \<longleftrightarrow> (\<forall>u\<in>set adds. \<exists>r. Change (CreateRoute r) \<in> set ops \<and> rt_uuid r = u)"

lemma removals_more: "removals_guarded owner ops dels \<Longrightarrow> guarded_from owner (set ops) new_ops \<Longrightarrow> removals_guarded owner (ops @ new_ops) dels"
  by (auto simp: removals_guarded_def intro: ids_owned_mono)

lemma additions_more: "additions_made ops adds \<Longrightarrow> additions_made (ops @ new_ops) adds"
  by (auto simp: additions_made_def)

lemma sift_guarded:
  assumes "removals_guarded owner ops dels" and "owned_desired owner m" and "sift_route owner (ops, dels, m) old = (ops', dels', m')"
  shows "removals_guarded owner ops' dels' \<and> owned_desired owner m'"
proof -
  have "removals_guarded owner (ops @ [route_ids_wait old]) (dels @ [rt_uuid old])" if "row_owned owner (rt_ids old)"
    using assms(1) that removals_more [OF assms(1), of "[route_ids_wait old]"] by (auto simp: removals_guarded_def ids_owned_def)
  moreover have "owned_desired owner (filter f m)" for f using assms(2) by (auto simp: owned_desired_def)
  ultimately show ?thesis
    using assms by (auto simp: sift_route_def Let_def split: if_splits option.splits)
qed

lemma sift_all_guarded:
  "foldl (sift_route owner) (ops, dels, m) current = (ops', dels', m') \<Longrightarrow> removals_guarded owner ops dels \<Longrightarrow> owned_desired owner m
     \<Longrightarrow> removals_guarded owner ops' dels' \<and> owned_desired owner m'"
proof (induction current arbitrary: ops dels m)
  case (Cons r current)
  obtain ops1 dels1 m1 where one: "sift_route owner (ops, dels, m) r = (ops1, dels1, m1)" by (metis prod_cases3)
  with sift_guarded [OF Cons.prems(2,3) one] Cons show ?case by simp
qed simp

lemma create_route_guarded:
  assumes "removals_guarded owner ops dels" and "additions_made ops adds" and "row_owned owner (rt_ids r)"
  shows "keeps (guarded_request owner) (create_route (ops, adds) r) (\<lambda>(ops', adds'). removals_guarded owner ops' dels \<and> additions_made ops' adds')"
proof -
  have "additions_made (ops @ [Change (CreateRoute (r\<lparr>rt_uuid := name\<rparr>))]) (adds @ [name])" for name
    using assms(2) by (auto simp: additions_made_def intro: exI [of _ "r\<lparr>rt_uuid := name\<rparr>"])
  then show ?thesis
    using assms(3) by (auto simp: create_route_def intro!: keeping keeps_name keeps_prepare removals_more [OF assms(1)])
qed

lemma change_links_guarded:
  assumes "removals_guarded owner ops dels" and "additions_made ops adds" and "ids = [] \<or> guarded_change owner (set ops) (f ids)"
  shows "keeps (guarded_request owner) (change_links f ids ops) (\<lambda>ops'. removals_guarded owner ops' dels \<and> additions_made ops' adds)"
  using assms removals_more [OF assms(1)] additions_more [OF assms(2)]
  by (auto simp: change_links_def intro!: keeping keeps_prepare)

lemma retire_session_guarded:
  assumes "guarded owner ops"
  shows "keeps (guarded_request owner) (retire_session owner wanted dels routes policies ops b) (guarded owner)"
  using assms by (auto simp: retire_session_def bfd_guarded_def intro!: keeping keeps_prepare)

lemma apply_routes_guarded:
  assumes "guarded owner ops" and "owned_desired owner desired"
  shows "keeps (guarded_request owner) (apply_routes router owner current sessions desired ops wanted) (\<lambda>_. True)"
proof -
  obtain ops1 dels missing where sift: "foldl (sift_route owner) (ops, [], desired) current = (ops1, dels, missing)" by (metis prod_cases3)
  from sift_all_guarded [OF sift] assms have s1: "removals_guarded owner ops1 dels" "owned_desired owner missing" by (simp_all add: removals_guarded_def)
  let ?J = "\<lambda>(ops', adds). removals_guarded owner ops' dels \<and> additions_made ops' adds"
  have creates: "keeps (guarded_request owner) (efold create_route (ops1, []) (map snd missing)) ?J"
  proof (rule keeps_loop)
    fix st r
    assume "r \<in> set (map snd missing)" "?J st"
    then show "keeps (guarded_request owner) (create_route st r) ?J"
      using s1(2) by (cases st) (auto simp: owned_desired_def intro!: create_route_guarded)
  qed (use s1 in \<open>simp add: additions_made_def\<close>)
  have retire: "keeps (guarded_request owner) (efold (retire_session owner wanted dels routes policies) ops4 sessions) (guarded owner)"
    if "guarded owner ops4" for ops4 routes policies
    using that by (rule keeps_loop) (rule retire_session_guarded)
  have final: "keeps (guarded_request owner) (send ops5) (\<lambda>_. True)" if "guarded owner ops5" for ops5
    using that by (auto simp: send_def keeps_def nb_call_def split: nb_resp.split option.split)
  have finish: "keeps (guarded_request owner) (ebind (change_links (UnlinkRoutes router) dels ops2) (\<lambda>ops3.
      ebind (change_links (LinkRoutes router) adds ops3) (\<lambda>ops4. ebind (nb_call ListAllRoutes nb_routes_of) (\<lambda>routes.
      ebind (nb_call ListAllPolicies nb_policies_of) (\<lambda>policies. ebind (efold (retire_session owner wanted dels routes policies) ops4 sessions) send))))) (\<lambda>_. True)"
    if "?J (ops2, adds)" for ops2 adds
  proof (rule keeps_bind [OF change_links_guarded])
    show "removals_guarded owner ops2 dels" "additions_made ops2 adds" "dels = [] \<or> guarded_change owner (set ops2) (UnlinkRoutes router dels)"
      using that by (simp_all add: removals_guarded_def)
    fix ops3
    assume J: "removals_guarded owner ops3 dels \<and> additions_made ops3 adds"
    then have link: "adds = [] \<or> guarded_change owner (set ops3) (LinkRoutes router adds)" by (simp add: additions_made_def)
    show "keeps (guarded_request owner) (ebind (change_links (LinkRoutes router) adds ops3) (\<lambda>ops4. ebind (nb_call ListAllRoutes nb_routes_of) (\<lambda>routes.
        ebind (nb_call ListAllPolicies nb_policies_of) (\<lambda>policies. ebind (efold (retire_session owner wanted dels routes policies) ops4 sessions) send)))) (\<lambda>_. True)"
      by (rule keeps_bind [OF change_links_guarded [where f = "LinkRoutes router", OF conjunct1 [OF J] conjunct2 [OF J] link]])
        (auto simp: removals_guarded_def intro!: keeps_call keeps_bind [OF retire] final)
  qed
  show ?thesis
    unfolding apply_routes_def sift split_conv
    by (rule keeps_bind [OF creates]) (use finish in auto)
qed

lemma reconcile_routes_guarded: "keeps (guarded_request owner) (reconcile_routes N router owner bfd_port plan) (\<lambda>_. True)"
proof -
  have ports: "keeps (guarded_request owner) (admit owner bfd_port lr current plan) (\<lambda>_. True)" for lr current
    by (auto simp: admit_def admit_plan_def note_router_port_def split: option.split prod.split
        intro!: keeping keeps_bind [OF keeps_loop [where I = "\<lambda>_. True"]] keeps_call)
  have sessions: "keeps (guarded_request owner) (efold (ensure_session N owner bfd_port) (first_wait lr, by_hop, []) (dp_sessions plan))
      (\<lambda>(ops, by_hop, wanted). guarded owner ops \<and> owned_sessions owner by_hop)" if "owned_sessions owner by_hop" for lr by_hop
  proof (rule keeps_loop)
    fix st :: session_state and s
    assume I: "case st of (ops, by_hop, wanted) \<Rightarrow> guarded owner ops \<and> owned_sessions owner by_hop"
    obtain ops by_hop wanted where st: "st = (ops, by_hop, wanted)" by (rule prod_cases3)
    show "keeps (guarded_request owner) (ensure_session N owner bfd_port st s) (\<lambda>(ops, by_hop, wanted). guarded owner ops \<and> owned_sessions owner by_hop)"
      unfolding st by (rule ensure_session_guarded) (use I st in simp_all)
  qed (use that in \<open>simp add: first_wait_def split: option.split\<close>)
  have desired: "owned_desired owner desired" if "foldr_res (want_intent N owner by_hop) [] rs = Inr desired" for by_hop rs desired
    using that by (rule foldr_res_invariant [where I = "\<lambda>_. owned_desired owner"]) (auto simp: owned_desired_def [of _ "[]"] intro: want_intent_owned)
  have read: "keeps (guarded_request owner) (read_routes router lr) (\<lambda>_. True)" for lr
    by (auto simp: read_routes_def keeps_def nb_call_def split: nb_resp.split option.split)
  show ?thesis
    unfolding reconcile_routes_def
    by (auto intro!: keeping keeps_call keeps_pure keeps_bind [OF read] keeps_bind [OF ports] keeps_bind [OF sessions] apply_routes_guarded
        intro: note_sessions_owned desired simp: owned_desired_def [of _ "[]"])
qed

section \<open>Property\<close>

fun isolated_request :: "string \<Rightarrow> nb_req \<Rightarrow> bool" where
  "isolated_request owner (Transact n ops) = isolated owner ops"
| "isolated_request owner q = True"

text \<open>
  C9: whatever the reads of \<open>ReconcileDestinationRoutes\<close> returned and whatever other writers did in between, every transaction it
  sends either aborts or leaves the rows of others alone: their BFD sessions are unchanged, every router keeps its links to their
  routes, and these routes and the policies keep every column except a reference to a BFD session that the transaction removed; it
  removes no session of others.
\<close>
theorem native_routes_isolated: "every_request (isolated_request owner) (reconcile_routes N router owner bfd_port plan)"
proof (rule every_requestI)
  have "steady (guarded_request owner) (reconcile_routes N router owner bfd_port plan) (\<lambda>_. True)"
    using reconcile_routes_guarded by (auto simp: keeps_def elim!: steady_mono)
  then show "always (\<lambda>_. isolated_request owner) (reconcile_routes N router owner bfd_port plan) (\<lambda>_ _. True) []"
    by (auto simp: always_steady guarded_isolated elim!: steady_mono guarded_request.elims)
qed

end
