(* ===== verification/Native_Vpc.thy ===== *)
theory Native_Vpc
  imports Native_Result Native_Laws
begin

text \<open>
  \<open>integration/kube-ovn/overlay/pkg/controller/vpc_destination_routes.go\<close>: the native VPC controller around the writer of destination routes.
  \<open>capable\<close> is the outcome of the type assertion that finds the writer in the client. The VPC is a Go pointer whose status the code
  replaces; here it is returned. The properties: a status tells the truth, and the collection of orphans stays away
  from the rows of every VPC that is alive.
\<close>

section \<open>Data and requests\<close>

record dest_status =
  ds_capability :: string
  ds_observed_generation :: int
  ds_applied_hash :: string
  ds_ready :: bool

record native_static =
  ns_cidr :: string
  ns_policy :: string
  ns_table :: string

text \<open>\<open>nv_destination_routes\<close> is \<open>None\<close> for the nil slice, a static route is \<open>None\<close> for a nil pointer, \<open>nv_bfd_port\<close> is \<open>IsEnabled()\<close>.\<close>

record native_vpc =
  nv_name :: string
  nv_uid :: string
  nv_generation :: int
  nv_default :: bool
  nv_bfd_port :: bool
  nv_destination_routes :: "intent list option"
  nv_static_routes :: "native_static option list"
  nv_status :: dest_status

datatype vpc_req = VpcNb nb_req | ListVpcs | UpdateVpcStatus native_vpc | EnqueueAfter string int

datatype vpc_resp = VpcNbAnswer nb_resp | VpcFailed err | Vpcs "native_vpc list" | VpcDone

type_synonym 'a vprog = "(vpc_req, vpc_resp, 'a) prog"

definition vpc_nb_answer :: "vpc_resp \<Rightarrow> nb_resp" where
  "vpc_nb_answer r = (case r of VpcNbAnswer y \<Rightarrow> y | _ \<Rightarrow> NbFailed decode_error)"

abbreviation over_nb :: "(nb_req, nb_resp, 'a) prog \<Rightarrow> 'a vprog" where
  "over_nb \<equiv> wire VpcNb vpc_nb_answer"

section \<open>Validation\<close>

definition vpc_intents :: "native_vpc \<Rightarrow> intent list" where
  "vpc_intents vpc = (case nv_destination_routes vpc of None \<Rightarrow> [] | Some rs \<Rightarrow> rs)"

definition static_conflict :: "native_names \<Rightarrow> prefix \<Rightarrow> native_static option \<Rightarrow> bool" where
  "static_conflict N dst s \<longleftrightarrow> (case s of None \<Rightarrow> False | Some x \<Rightarrow> (case route_prefix (ns_cidr x) of
      None \<Rightarrow> False
    | Some p \<Rightarrow> ns_table x = [] \<and> ns_policy x \<noteq> nn_policy_src N \<and> at_or_within dst p))"

definition check_static :: "native_names \<Rightarrow> native_vpc \<Rightarrow> intent \<Rightarrow> unit res" where
  "check_static N vpc r = (case parse_prefix (in_cidr r) of
      None \<Rightarrow> Inl ''panic: MustParsePrefix''
    | Some dst \<Rightarrow> guard (\<not> list_ex (static_conflict N dst) (nv_static_routes vpc)) ''destination conflicts with staticRoutes'')"

definition validate_vpc_routes :: "native_names \<Rightarrow> native_vpc \<Rightarrow> dest_plan res" where
  "validate_vpc_routes N vpc =
     rbind (compile (vpc_intents vpc)) (\<lambda>plan.
     if dp_routes plan = [] then Inr plan
     else rbind (guard (nv_name vpc \<noteq> nn_default_vpc N \<and> \<not> nv_default vpc) ''destination routes require a custom VPC'') (\<lambda>_.
     rbind (guard (nv_bfd_port vpc) ''destination routes require enabled bfdPort'') (\<lambda>_.
     rbind (each_res (check_static N vpc) (dp_routes plan)) (\<lambda>_. Inr plan))))"

section \<open>Reconciliation\<close>

definition routes_unused :: "native_vpc \<Rightarrow> bool" where
  "routes_unused vpc \<longleftrightarrow> nv_destination_routes vpc = None \<and> ds_capability (nv_status vpc) = []"

definition capability_missing :: err where
  "capability_missing = Errorf ''native destination-route capability unavailable''"

definition with_routes_status :: "native_vpc \<Rightarrow> (err + dest_plan) \<Rightarrow> native_vpc" where
  "with_routes_status vpc m = vpc\<lparr>nv_status :=
     \<lparr>ds_capability = capability, ds_observed_generation = nv_generation vpc,
      ds_applied_hash = (case m of Inl _ \<Rightarrow> [] | Inr plan \<Rightarrow> dp_hash plan), ds_ready = (case m of Inl _ \<Rightarrow> False | Inr _ \<Rightarrow> True)\<rparr>\<rparr>"

definition update_failed :: "vpc_resp \<Rightarrow> err option" where
  "update_failed y = (case y of VpcFailed e \<Rightarrow> Some e | VpcDone \<Rightarrow> None | _ \<Rightarrow> Some decode_error)"

definition report_routes :: "native_vpc \<Rightarrow> (err + dest_plan) \<Rightarrow> (native_vpc \<times> err option) vprog" where
  "report_routes vpc m = (let vpc' = with_routes_status vpc m in case m of
      Inl e \<Rightarrow> Call (UpdateVpcStatus vpc') (\<lambda>y. Ret (vpc', Some (case update_failed y of Some e' \<Rightarrow> e' | None \<Rightarrow> e)))
    | Inr plan \<Rightarrow> if dp_routes plan = [] then Ret (vpc', None)
        else Call (EnqueueAfter (nv_name vpc) (30 * 1000000000)) (\<lambda>_. Ret (vpc', None)))"

definition reconcile_vpc_routes :: "native_names \<Rightarrow> bool \<Rightarrow> native_vpc \<Rightarrow> string \<Rightarrow> (native_vpc \<times> err option) vprog" where
  "reconcile_vpc_routes N capable vpc bfd_port = (case validate_vpc_routes N vpc of
      Inl e \<Rightarrow> report_routes vpc (Inl (Errorf e))
    | Inr plan \<Rightarrow>
        if \<not> capable then (if routes_unused vpc then Ret (vpc, None) else report_routes vpc (Inl capability_missing))
        else pbind (over_nb (reconcile_routes N (nv_name vpc) (nv_uid vpc) bfd_port plan)) (\<lambda>m.
          report_routes vpc (case m of Inl e \<Rightarrow> Inl e | Inr _ \<Rightarrow> Inr plan)))"

definition empty_plan :: dest_plan where
  "empty_plan = (case compile [] of Inl _ \<Rightarrow> \<lparr>dp_routes = [], dp_sessions = [], dp_hash = []\<rparr> | Inr plan \<Rightarrow> plan)"

definition delete_vpc_routes :: "native_names \<Rightarrow> bool \<Rightarrow> native_vpc \<Rightarrow> (err + unit) vprog" where
  "delete_vpc_routes N capable vpc =
     (if \<not> capable then (if routes_unused vpc then go () else leave capability_missing)
      else over_nb (reconcile_routes N (nv_name vpc) (nv_uid vpc) [] empty_plan))"

section \<open>Orphans\<close>

definition list_vpcs :: "(err + native_vpc list) vprog" where
  "list_vpcs = Call ListVpcs (\<lambda>y. Ret (case y of VpcFailed e \<Rightarrow> Inl e | Vpcs vs \<Rightarrow> Inr vs | _ \<Rightarrow> Inl decode_error))"

definition note_orphan :: "string list \<Rightarrow> string list \<Rightarrow> string smap \<Rightarrow> string list" where
  "note_orphan live orphans ids =
     (let owner = mget ids dest_owner_key in if owner \<noteq> [] \<and> owner \<notin> set live \<and> owner \<notin> set orphans then orphans @ [owner] else orphans)"

definition orphan_routes :: "string list \<Rightarrow> string list \<Rightarrow> nb_router \<Rightarrow> (err + string list) vprog" where
  "orphan_routes live orphans lr =
     ebind (over_nb (nb_call (ListRoutes (lr_name lr) []) nb_routes_of)) (\<lambda>routes. go (foldl (note_orphan live) orphans (map rt_ids routes)))"

definition clear_router :: "native_names \<Rightarrow> string \<Rightarrow> unit \<Rightarrow> nb_router \<Rightarrow> (err + unit) vprog" where
  "clear_router N owner u lr =
     ebind (over_nb (nb_call (ListRoutes (lr_name lr) [(dest_owner_key, owner)]) nb_routes_of)) (\<lambda>routes.
     if routes \<noteq> [] then over_nb (reconcile_routes N (lr_name lr) owner [] empty_plan) else go ())"

definition clear_orphan :: "native_names \<Rightarrow> nb_router list \<Rightarrow> unit \<Rightarrow> string \<Rightarrow> (err + unit) vprog" where
  "clear_orphan N routers u owner =
     ebind (efold (clear_router N owner) () routers) (\<lambda>_. over_nb (reconcile_routes N [] owner [] empty_plan))"

definition gc_routes :: "native_names \<Rightarrow> bool \<Rightarrow> (err + unit) vprog" where
  "gc_routes N capable =
     (if \<not> capable then go ()
      else ebind list_vpcs (\<lambda>vpcs. let live = map nv_uid vpcs in
      ebind (over_nb (nb_call FindBfd nb_bfds_of)) (\<lambda>sessions.
      ebind (over_nb (nb_call ListRouters nb_routers_of)) (\<lambda>routers.
      ebind (efold (orphan_routes live) (foldl (note_orphan live) [] (map fd_ids sessions)) routers) (\<lambda>orphans.
      efold (clear_orphan N routers) () orphans)))))"

section \<open>A truthful status\<close>

fun sel_nb :: "vpc_req \<Rightarrow> nb_req option" where
  "sel_nb (VpcNb q) = Some q"
| "sel_nb q = None"

text \<open>The calls of the client library in a history.\<close>

abbreviation nb_part :: "(vpc_req \<times> vpc_resp) list \<Rightarrow> nb_hist" where
  "nb_part \<equiv> part sel_nb vpc_nb_answer"

lemma always_forall: "(\<And>x. always G p (Q x) h) \<Longrightarrow> always G p (\<lambda>h a. \<forall>x. Q x h a) h"
  by (induction p arbitrary: h) auto

text \<open>The plan is in the database: for every database at rest of which all reads were true, an acknowledged transaction
  turns it into one that realizes the plan, or it did so already.\<close>

definition routes_applied :: "native_names \<Rightarrow> native_vpc \<Rightarrow> string \<Rightarrow> dest_plan \<Rightarrow> nb_hist \<Rightarrow> bool" where
  "routes_applied N vpc bfd_port plan h \<longleftrightarrow> (\<forall>db. at_rest db \<and> snapshot db h \<longrightarrow>
     (\<exists>n ops db'. (Transact n ops, NbDone) \<in> set h \<and> commit ops db = Some db' \<and> realized N (nv_name vpc) (nv_uid vpc) bfd_port plan db')
     \<or> realized N (nv_name vpc) (nv_uid vpc) bfd_port plan db)"

lemma reconcile_routes_applied:
  assumes "compile input = Inr plan"
  shows "always (\<lambda>_ _. True) (reconcile_routes N (nv_name vpc) (nv_uid vpc) p plan) (\<lambda>h y. y = Inr () \<longrightarrow> routes_applied N vpc p plan h) []"
proof -
  let ?done = "\<lambda>db h. (\<exists>n ops db'. (Transact n ops, NbDone) \<in> set h \<and> commit ops db = Some db' \<and> realized N (nv_name vpc) (nv_uid vpc) p plan db')
    \<or> realized N (nv_name vpc) (nv_uid vpc) p plan db"
  have "always (\<lambda>_ _. True) (reconcile_routes N (nv_name vpc) (nv_uid vpc) p plan)
      (\<lambda>h y. y = Inr () \<longrightarrow> at_rest db \<and> snapshot db h \<longrightarrow> ?done db h) []" for db
  proof (cases "at_rest db")
    case True
    note run = honest_requests [OF reconcile_routes_honest [OF True assms, where h = "[]"]]
    show ?thesis
      by (rule always_mono [OF run [unfolded honest_def]]) (fastforce simp: transaction_acknowledged_def split: sum.splits)+
  next
    case False
    then show ?thesis by (intro always_mono [OF reconcile_routes_honest [OF ex_db_rest assms, unfolded honest_def]]) simp_all
  qed
  from always_forall [OF this] show ?thesis by (rule always_mono) (auto simp: routes_applied_def)
qed

definition status_outcome :: "native_names \<Rightarrow> bool \<Rightarrow> native_vpc \<Rightarrow> string \<Rightarrow> (vpc_req \<times> vpc_resp) list \<Rightarrow> native_vpc \<times> err option \<Rightarrow> bool" where
  "status_outcome N capable vpc bfd_port h out \<longleftrightarrow> (case out of
      (vpc', Some e) \<Rightarrow> vpc' = with_routes_status vpc (Inl e)
    | (vpc', None) \<Rightarrow> (\<not> capable \<and> routes_unused vpc \<and> vpc' = vpc)
        \<or> (\<exists>plan. validate_vpc_routes N vpc = Inr plan \<and> vpc' = with_routes_status vpc (Inr plan) \<and> routes_applied N vpc bfd_port plan (nb_part h)))"

fun status_request :: "vpc_req \<Rightarrow> bool" where
  "status_request (UpdateVpcStatus vpc) = (\<not> ds_ready (nv_status vpc) \<and> ds_applied_hash (nv_status vpc) = [])"
| "status_request q = True"

lemma validate_compiles: "validate_vpc_routes N vpc = Inr plan \<Longrightarrow> compile (vpc_intents vpc) = Inr plan"
  by (auto simp: validate_vpc_routes_def split: if_splits)

lemma status_failed: "with_routes_status vpc (Inl e) = with_routes_status vpc (Inl e')"
  by (simp add: with_routes_status_def)

lemma report_failure: "always (\<lambda>_. status_request) (report_routes vpc (Inl e)) (status_outcome N capable vpc p) h"
  by (auto simp: report_routes_def Let_def status_outcome_def with_routes_status_def)

lemma report_success:
  assumes "validate_vpc_routes N vpc = Inr plan" and "routes_applied N vpc p plan (nb_part h)"
  shows "always (\<lambda>_. status_request) (report_routes vpc (Inr plan)) (status_outcome N capable vpc p) h"
  using assms by (auto simp: report_routes_def Let_def status_outcome_def part_single)

lemma reconcile_vpc_contract:
  "always (\<lambda>_. status_request) (reconcile_vpc_routes N capable vpc p) (status_outcome N capable vpc p) []"
proof (cases "validate_vpc_routes N vpc")
  case (Inr plan)
  have "always (\<lambda>_. status_request) (over_nb (reconcile_routes N (nv_name vpc) (nv_uid vpc) p plan)) (\<lambda>h y. y = Inr () \<longrightarrow> routes_applied N vpc p plan (nb_part h)) []"
    by (rule always_wire [where R = "\<lambda>h h'. nb_part h = h'", OF reconcile_routes_applied [OF validate_compiles [OF Inr], of N vpc p]])
      (auto simp: part_single)
  note run = always_mono [OF this]
  show ?thesis
  proof (cases capable)
    case True
    show ?thesis
      unfolding reconcile_vpc_routes_def Inr sum.case always_pbind using True
      by (simp, intro run) (auto split: sum.split intro: report_failure report_success [OF Inr])
  qed (auto simp: reconcile_vpc_routes_def Inr report_failure status_outcome_def)
qed (simp add: reconcile_vpc_routes_def report_failure)

section \<open>Orphans only\<close>

text \<open>A transaction of the collection is isolated for an owner that none of the listed VPCs is.\<close>

definition orphan_step :: "(vpc_req \<times> vpc_resp) list \<Rightarrow> vpc_req \<Rightarrow> bool" where
  "orphan_step h q \<longleftrightarrow> (\<forall>n ops. q = VpcNb (Transact n ops) \<longrightarrow>
     (\<exists>vpcs owner. (ListVpcs, Vpcs vpcs) \<in> set h \<and> owner \<noteq> [] \<and> owner \<notin> nv_uid ` set vpcs \<and> isolated owner ops))"

definition listed :: "native_vpc list \<Rightarrow> (vpc_req \<times> vpc_resp) list \<Rightarrow> bool" where
  "listed vpcs h \<longleftrightarrow> (ListVpcs, Vpcs vpcs) \<in> set h"

definition orphaned :: "native_vpc list \<Rightarrow> string \<Rightarrow> bool" where
  "orphaned vpcs owner \<longleftrightarrow> owner \<noteq> [] \<and> owner \<notin> nv_uid ` set vpcs"

fun orphan_request :: "native_vpc list \<Rightarrow> vpc_req \<Rightarrow> bool" where
  "orphan_request vpcs (VpcNb (Transact n ops)) = (\<exists>owner. orphaned vpcs owner \<and> isolated owner ops)"
| "orphan_request vpcs q = True"

lemma over_reconcile:
  assumes "orphaned vpcs owner"
  shows "keeps (orphan_request vpcs) (over_nb (reconcile_routes N router owner p plan)) (\<lambda>_. True)"
proof -
  have request: "orphan_request vpcs (VpcNb q)" if "guarded_request owner q" for q
  proof (cases q)
    case (Transact n ops)
    with that have "isolated owner ops" by (simp add: guarded_isolated)
    with assms Transact show ?thesis by auto
  qed simp_all
  have "steady (\<lambda>q. orphan_request vpcs (VpcNb q)) (reconcile_routes N router owner p plan) (\<lambda>y. case y of Inl e \<Rightarrow> True | Inr a \<Rightarrow> True)"
    by (rule steady_mono [OF reconcile_routes_guarded [unfolded keeps_def]])
      (use request in \<open>auto split: sum.split\<close>)
  then show ?thesis unfolding keeps_def by (rule steady_wire)
qed

lemma over_call:
  assumes "\<And>n ops. q \<noteq> Transact n ops" and "\<And>a. keeps (orphan_request vpcs) (f a) I"
  shows "keeps (orphan_request vpcs) (ebind (over_nb (nb_call q prj)) f) I"
proof -
  have "orphan_request vpcs (VpcNb q)" using assms(1) by (cases q) auto
  then have "keeps (orphan_request vpcs) (over_nb (nb_call q prj)) (\<lambda>_. True)"
    unfolding keeps_def by (intro steady_wire) (auto simp: nb_call_def split: nb_resp.split option.split)
  then show ?thesis by (rule keeps_bind) (rule assms(2))
qed

lemma note_orphans: "\<forall>x\<in>set orphans. orphaned vpcs x \<Longrightarrow> \<forall>x\<in>set (foldl (note_orphan (map nv_uid vpcs)) orphans idss). orphaned vpcs x"
proof (induction idss arbitrary: orphans)
  case (Cons ids idss)
  have "\<forall>x\<in>set (note_orphan (map nv_uid vpcs) orphans ids). orphaned vpcs x"
    using Cons.prems by (auto simp: note_orphan_def Let_def orphaned_def)
  from Cons.IH [OF this] show ?case by simp
qed simp

lemma gc_tail:
  "keeps (orphan_request vpcs) (let live = map nv_uid vpcs in
      ebind (over_nb (nb_call FindBfd nb_bfds_of)) (\<lambda>sessions.
      ebind (over_nb (nb_call ListRouters nb_routers_of)) (\<lambda>routers.
      ebind (efold (orphan_routes live) (foldl (note_orphan live) [] (map fd_ids sessions)) routers) (\<lambda>orphans.
      efold (clear_orphan N routers) () orphans)))) (\<lambda>_. True)"
proof -
  let ?I = "\<lambda>orphans. \<forall>owner\<in>set orphans. orphaned vpcs owner"
  have find: "keeps (orphan_request vpcs) (efold (orphan_routes (map nv_uid vpcs)) orphans routers) ?I" if "?I orphans" for orphans routers
    using that
  proof (rule keeps_loop)
    fix os :: "string list" and lr
    assume "?I os"
    then show "keeps (orphan_request vpcs) (orphan_routes (map nv_uid vpcs) os lr) ?I"
      unfolding orphan_routes_def by (intro over_call keeps_go note_orphans) simp_all
  qed
  have clear: "keeps (orphan_request vpcs) (clear_orphan N routers u owner) (\<lambda>_. True)" if "orphaned vpcs owner" for routers u owner
    unfolding clear_orphan_def
    by (rule keeps_bind [OF keeps_loop [where I = "\<lambda>_. True"]])
      (use that in \<open>auto simp: clear_router_def intro!: over_call over_reconcile keeping\<close>)
  have start: "?I (foldl (note_orphan (map nv_uid vpcs)) [] (map fd_ids sessions))" for sessions
    by (intro note_orphans) simp
  show ?thesis
    unfolding Let_def
    by (intro over_call keeps_bind [OF find [OF start]] keeps_loop clear) auto
qed

lemma gc_contract: "always orphan_step (gc_routes N capable) (\<lambda>_ _. True) []"
proof -
  have tail: "always orphan_step (let live = map nv_uid vpcs in
      ebind (over_nb (nb_call FindBfd nb_bfds_of)) (\<lambda>sessions.
      ebind (over_nb (nb_call ListRouters nb_routers_of)) (\<lambda>routers.
      ebind (efold (orphan_routes live) (foldl (note_orphan live) [] (map fd_ids sessions)) routers) (\<lambda>orphans.
      efold (clear_orphan N routers) () orphans)))) (\<lambda>_ _. True) [(ListVpcs, Vpcs vpcs)]" for vpcs
    by (rule steady_always [where I = "listed vpcs", OF gc_tail [unfolded keeps_def]])
      (auto simp: listed_def orphan_step_def orphaned_def)
  have "orphan_step [] ListVpcs" by (simp add: orphan_step_def)
  with tail show ?thesis
    by (auto simp: gc_routes_def list_vpcs_def ebind_def [of "Call _ _"] split: vpc_resp.split)
qed

section \<open>Properties\<close>

text \<open>
  C17: whatever the API server and the client library answer, \<open>reconcileVpcDestinationRoutes\<close> publishes only a status
  that is not ready and carries no hash; when it returns without error, the VPC either never used the feature or shows the hash
  of its validated plan, and then, if the reads were true of one database at rest, the server acknowledged a transaction of this
  run that turns that database into one where the routes and sessions of the VPC are exactly those of the plan, or it was such a
  database already; when it returns an error, the status in memory is not ready.
\<close>
theorem vpc_status_truthful:
  "every_request status_request (reconcile_vpc_routes N capable vpc bfd_port)
   \<and> every_outcome (status_outcome N capable vpc bfd_port) (reconcile_vpc_routes N capable vpc bfd_port)"
  using every_requestI [OF always_mono [OF reconcile_vpc_contract]] every_outcomeI [OF reconcile_vpc_contract] by blast

text \<open>
  C16: whatever the lister and the client library answer, every transaction that \<open>gcDestinationRoutes\<close> sends is for an owner that is not the
  UID of any listed VPC, and whatever the database holds when it arrives, it aborts or leaves alone the rows of everybody else, in
  particular those of every VPC that is alive: their BFD sessions, the links of every router to their routes, and these routes and the
  policies, with one exception: when the transaction removes a session of the orphaned owner to which a route or policy of
  somebody else refers, the database clears that reference.
\<close>
theorem gc_orphans_only: "every_step orphan_step (gc_routes N capable)"
  using gc_contract by (rule every_stepI)

end
