(* ===== verification/Spec2Isabelle.thy ===== *)
theory Spec2Isabelle
  imports Local_Config Platform_Reconciler Destination_Route Local_Reconciler_Laws Gateway_Race Gateway_Laws Domain_Lock Domain_Process Site_Process Native_Vpc
begin

text \<open>
  Verification library of the Global VPC Controller, a set of Kubernetes controllers that connect the
  private networks of one tenant across the sites (locations) of an organisation.

  \<^bold>\<open>The program.\<close> Users declare a \<open>VPC\<close> and one \<open>Subnet\<close> per location on a management cluster. The platform
  controller (\<open>internal/platformcontroller\<close>) admits the subnets, compiles them (\<open>internal/platformplan\<close>) into one
  \<open>NetworkBinding\<close> snapshot per location and hands out network identifiers (\<open>networkid.go\<close>). In every location
  the operator (\<open>internal/localcontroller\<close>) copies its snapshots (\<open>sync.go\<close>), reserves transit networks for them
  (\<open>allocation.go\<close>) and realizes them as native Kube-OVN objects (\<open>reconciler.go\<close>). The gateways of a location
  are run by \<open>internal/managedgateway\<close>: a registry of control addresses and ports, a ledger of members, and one
  rendered configuration per member. Receipts travel back in the status of the snapshots and reach the other
  locations through the next plan.

  The older, routed way of working (\<open>api/v1alpha1\<close>) has two controllers. The domain controller (\<open>internal/controller\<close>)
  connects a \<open>GlobalVpc\<close> over all clusters of one authority: it plans the whole mesh (\<open>internal/plan\<close>,
  \<open>internal/config\<close>), allocates the topology under a lock of the authority's API server and keeps the resources and OVN
  rows of every cluster (\<open>domain.go\<close>, \<open>reconciler.go\<close>, \<open>resources.go\<close>). The site controller (\<open>internal/sitecontroller\<close>) attaches
  one \<open>SiteVpc\<close> by itself (\<open>internal/siteplan\<close>, \<open>internal/siteconfig\<close>): it claims its prefixes from an external IPAM
  (\<open>internal/provider\<close>), starts gateways through a local plugin (\<open>internal/sitegateway\<close>) and installs BFD sessions and ECMP
  routes. Both write OVN through \<open>internal/ovn\<close>, which runs the OVN command line tools and decodes what they print.

  The native extension of Kube-OVN lives under \<open>integration/kube-ovn\<close>: \<open>destinationroute\<close> compiles the routes of a VPC, the
  overlay (\<open>overlay/pkg/ovs\<close>, \<open>overlay/pkg/controller\<close>) installs them in the northbound database with one guarded transaction,
  publishes the status the operator waits for, and collects what deleted VPCs left behind.

  \<^bold>\<open>The theories.\<close>
  \<^item> Prelude: \<open>Go_Base\<close> (errors, strings, maps, sorting, \<open>strconv\<close>), \<open>Go_Netip\<close>, \<open>Go_Sha256\<close>, \<open>Go_Json\<close>, \<open>Go_Struct\<close>,
    \<open>Go_Base64\<close>, \<open>Go_X25519\<close>, \<open>Go_Process\<close>: the parts of the Go library the program uses, as functions that compute
    (a subprocess is a request).
  \<^item> \<open>Api_Prog\<close>, \<open>Kube_Client\<close>, \<open>Kube_Meta\<close>: programs that talk to an API server, as trees of requests over every
    possible answer; \<open>k8s_laws\<close> is the interface of the Kubernetes libraries, interpreted by \<open>k8s_ref\<close>.
    \<open>Api_Steady\<close> holds the statements about requests that do not look at the history, \<open>Api_Wire\<close> those about a
    controller that wires the calls of several clients into its own requests, \<open>Api_Plug\<close> the composition of a
    controller with the programs that answer its requests.
  \<^item> \<open>Api_V1alpha2\<close>, \<open>Platform_Config\<close>, \<open>Platform_Plan\<close>, \<open>Network_Id\<close>, \<open>Platform_Reconciler\<close>: the management side. The
    lemmas show what a plan contains, that prefixes of one VPC never overlap, that identifiers are unique
    and reserved before they are published, and what a pass may write.
  \<^item> \<open>Local_Config\<close>, \<open>Local_Objects\<close>, \<open>Local_Allocation\<close>, \<open>Local_Sync\<close>, \<open>Local_Reconciler\<close>, \<open>Local_Reconciler_Laws\<close>: the
    operator of a site: the ledger keeps networks apart and reads back what it wrote, a snapshot copy never
    goes back, native objects are only touched when owned, taken down in order and reported truthfully.
  \<^item> \<open>Gateway_Objects\<close>, \<open>Gateway_Registry\<close>, \<open>Gateway_Registry_Laws\<close>, \<open>Gateway_Race\<close>, \<open>Gateway_Render\<close>,
    \<open>Gateway_Members\<close>, \<open>Gateway_Reconciler\<close>, \<open>Gateway_Laws\<close>: the managed gateways: no address or port is granted twice,
    with any number of allocations at once against the compare-and-swap of the API server; two locations that have rendered a pair of gateways agree on the link between
    them; a rollout takes one member at a time and a removal releases nothing that is still in use.
  \<^item> \<open>Api_V1alpha1\<close>, \<open>Site_Config\<close>, \<open>Site_Plan\<close>, \<open>Domain_Plan\<close>: the routed planners: accepted plans have disjoint
    prefixes inside the granted ranges and a full mesh of routes.
  \<^item> \<open>Infra_Store\<close>, \<open>Ovn_Interface\<close>, \<open>Ovn_Rows\<close>, \<open>Ovn_Exec\<close>, \<open>Ovn_Site\<close>: the store of native resources and the OVN adapter, command by
    command. \<open>Ovn_Laws\<close> and \<open>Ovn_Site_Laws\<close> show that a write names only rows that were read before in the same
    call and carry the owner's tags (the locale \<open>ovn_reader\<close> holds what a reading step guarantees);
    \<open>Ovn_Observations\<close> says what the answers of the adapter mean.
  \<^item> \<open>Domain_Gate\<close>, \<open>Domain_Reconciler\<close>, \<open>Domain_Laws\<close>, \<open>Domain_Lock\<close>: the domain controller, the order of its writes, and
    the lock with any number of concurrent passes, refined to a mutex. \<open>Prefix_Provider\<close>, \<open>Site_Gateway\<close>,
    \<open>Site_Reconciler\<close>, \<open>Site_Laws\<close>: the two plugin protocols, the site controller and the order of its writes.
  \<^item> \<open>Domain_Process\<close>, \<open>Site_Process\<close>: each controller wired to its adapters as its main program does, so that what it
    removes rests on what the commands printed.
  \<^item> \<open>Destination_Route\<close>: the route compiler: what it accepts, its canonical order and hash, subdivision.
  \<^item> \<open>Native_Routes\<close>, \<open>Native_Vpc\<close>: the writer of destination routes and the VPC controller around it. \<open>Native_Commit\<close> says what a
    transaction does to a database. \<open>Native_Laws\<close> shows that a transaction, on whatever database it arrives, leaves the
    rows of others alone; \<open>Native_Honest\<close>, \<open>Native_Converge\<close>, \<open>Native_Wanted\<close>, \<open>Native_Outcome\<close>, \<open>Native_Result\<close> follow the
    operations through the loops of the writer and show that on the database that was read the transaction commits
    and realizes exactly the plan.

  \<^bold>\<open>Conventions.\<close> A Go function with an error result is a function into a sum, \<open>Inl\<close> the error; a handler
  that calls the API server is a tree (\<open>prog\<close>) whose branches are the answers, so a statement about
  every branch covers lost and stale answers, conflicts and concurrent writers. Maps are association
  lists: a statement about every list is one about every iteration order. \<open>nil\<close> and empty slices are the same list
  except where the code tells them apart. Error texts leave out the Go quoting of \<open>%q\<close>, and a few texts of the
  JSON decoder are one. \<open>strconv.Quote\<close> and \<open>strings.TrimSpace\<close> are exact on ASCII. Integers keep
  their width where the code depends on it (\<open>u32\<close> words, IPv4 addresses as 32-bit words). Retries of the client library
  are a count of attempts that every statement holds for; the other loops are structural or have a
  termination proof, so there is no fuel.

  \<^bold>\<open>Not modelled.\<close> The command line tool (\<open>internal/vpcctl\<close>: an installer around Helm and kubectl), the flags and
  managers of the main programs, generated deep copies, the \<open>Load\<close> functions (reading a file), the deadlines around
  a pass, the inside of \<open>processRunner\<close> (starting a child and bounding its output; its outcome is an answer), the
  deletion of the lock ConfigMap by an administrator, the Python data plane under \<open>gateway/\<close>, charts and scripts.
  Third-party code is a parameter or a request: the API server, the Kubernetes validation library, the OVN commands, the OVSDB
  client library of Kube-OVN and its constants; the operations that library makes of a change stand as that change.
\<close>

end
